(* ===== verification/Prelude.thy ===== *)
theory Prelude
  imports
    Main
    "HOL-Library.Word"
    "HOL-Library.Char_ord"
    "HOL-Library.List_Lexorder"
    "HOL-Library.Product_Lexorder"
begin

text \<open>
  Shared vocabulary of the development: the machine integer types of the Rust sources, Rust's
  checked and saturating arithmetic, \<open>BTreeMap\<close> and \<open>BTreeSet\<close> as strictly sorted
  lists, the interface of a bounded log that drops its oldest entry, and the list, option and
  word lemmas the components use.
\<close>

unbundle bit_operations_syntax

section \<open>Machine types\<close>

type_synonym u8 = "8 word"
type_synonym u16 = "16 word"
type_synonym u32 = "32 word"
type_synonym u64 = "64 word"
type_synonym usize = "64 word"
type_synonym i8 = "8 word"
type_synonym i64 = "64 word"
type_synonym uuid = "128 word"

text \<open>
  A Rust \<open>String\<close> is its UTF-8 byte sequence, one HOL character per byte; \<open>as_bytes\<close>
  reads it. A computation that can panic returns \<open>Inl\<close> of the panic message.
\<close>

type_synonym 'a panics = "string + 'a"

abbreviation ascii :: "char \<Rightarrow> u8" where
  "ascii \<equiv> of_char"

definition as_bytes :: "string \<Rightarrow> u8 list" where
  "as_bytes s = map ascii s"

definition from_bytes :: "u8 list \<Rightarrow> string" where
  "from_bytes bs = map (\<lambda>b. char_of (unat b)) bs"

definition u64_max :: u64 where
  "u64_max = - 1"

definition saturating_sub :: "'a::len word \<Rightarrow> 'a word \<Rightarrow> 'a word" where
  "saturating_sub a b = (if a < b then 0 else a - b)"

definition saturating_add :: "'a::len word \<Rightarrow> 'a word \<Rightarrow> 'a word" where
  "saturating_add a b = (if unat a + unat b < 2 ^ LENGTH('a) then a + b else - 1)"

definition checked_add :: "'a::len word \<Rightarrow> 'a word \<Rightarrow> 'a word option" where
  "checked_add a b = (if unat a + unat b < 2 ^ LENGTH('a) then Some (a + b) else None)"

definition checked_sub :: "'a::len word \<Rightarrow> 'a word \<Rightarrow> 'a word option" where
  "checked_sub a b = (if a < b then None else Some (a - b))"

section \<open>Text: formatting and UTF-8\<close>

text \<open>
  The parts of Rust's formatting and string library the sources use: \<open>{}\<close> and
  \<open>{:x}\<close> of an unsigned integer, \<open>{}\<close> of a signed one, \<open>str::from_utf8\<close>,
  \<open>to_ascii_uppercase\<close> and \<open>is_ascii_alphanumeric\<close>.
\<close>

definition digit_char :: "nat \<Rightarrow> char" where
  "digit_char d = (if d < 10 then char_of (48 + d) else char_of (87 + d))"

fun show_base :: "nat \<Rightarrow> nat \<Rightarrow> string" where
  "show_base b n =
     (if b < 2 \<or> n < b then [digit_char n] else show_base b (n div b) @ [digit_char (n mod b)])"

declare show_base.simps [simp del]

definition show_nat :: "nat \<Rightarrow> string" where
  "show_nat n = show_base 10 n"

definition show_hex :: "nat \<Rightarrow> string" where
  "show_hex n = show_base 16 n"

definition show_int :: "int \<Rightarrow> string" where
  "show_int i = (if i < 0 then CHR ''-'' # show_nat (nat (- i)) else show_nat (nat i))"

definition in_range :: "nat \<Rightarrow> nat \<Rightarrow> u8 \<Rightarrow> bool" where
  "in_range lo hi b \<longleftrightarrow> lo \<le> unat b \<and> unat b \<le> hi"

abbreviation utf8_cont :: "u8 \<Rightarrow> bool" where
  "utf8_cont \<equiv> in_range 0x80 0xBF"

fun utf8_valid :: "u8 list \<Rightarrow> bool" where
  "utf8_valid [] = True"
| "utf8_valid (b # bs) =
     (if in_range 0 0x7F b then utf8_valid bs
      else if in_range 0xC2 0xDF b then
        (case bs of c # r \<Rightarrow> utf8_cont c \<and> utf8_valid r | _ \<Rightarrow> False)
      else if in_range 0xE0 0xEF b then
        (case bs of
           c # d # r \<Rightarrow>
             (if unat b = 0xE0 then in_range 0xA0 0xBF c
              else if unat b = 0xED then in_range 0x80 0x9F c
              else utf8_cont c) \<and> utf8_cont d \<and> utf8_valid r
         | _ \<Rightarrow> False)
      else if in_range 0xF0 0xF4 b then
        (case bs of
           c # d # e # r \<Rightarrow>
             (if unat b = 0xF0 then in_range 0x90 0xBF c
              else if unat b = 0xF4 then in_range 0x80 0x8F c
              else utf8_cont c) \<and> utf8_cont d \<and> utf8_cont e \<and> utf8_valid r
         | _ \<Rightarrow> False)
      else False)"

definition from_utf8 :: "u8 list \<Rightarrow> string option" where
  "from_utf8 bs = (if utf8_valid bs then Some (from_bytes bs) else None)"

definition is_lower :: "char \<Rightarrow> bool" where
  "is_lower c \<longleftrightarrow> CHR ''a'' \<le> c \<and> c \<le> CHR ''z''"

definition is_ascii_alphanumeric :: "char \<Rightarrow> bool" where
  "is_ascii_alphanumeric c \<longleftrightarrow>
     is_lower c \<or> (CHR ''A'' \<le> c \<and> c \<le> CHR ''Z'') \<or> (CHR ''0'' \<le> c \<and> c \<le> CHR ''9'')"

definition upper_char :: "char \<Rightarrow> char" where
  "upper_char c = (if is_lower c then char_of (of_char c - (32::nat)) else c)"

definition to_ascii_uppercase :: "string \<Rightarrow> string" where
  "to_ascii_uppercase s = map upper_char s"

text \<open>Evaluation equations on the eight bits of a character.\<close>

lemma is_lower_code [code]:
  "is_lower (Char b0 b1 b2 b3 b4 b5 b6 b7) \<longleftrightarrow>
     \<not> b7 \<and> b6 \<and> b5 \<and> (b0 \<or> b1 \<or> b2 \<or> b3 \<or> b4) \<and> \<not> (b4 \<and> b3 \<and> (b2 \<or> b1 \<and> b0))"
  unfolding is_lower_def less_eq_char_def
  by (cases b0; cases b1; cases b2; cases b3; cases b4; cases b5; cases b6; cases b7;
      simp add: of_char_Char)

lemma upper_char_code [code]:
  "upper_char (Char b0 b1 b2 b3 b4 b5 b6 b7) =
     (if is_lower (Char b0 b1 b2 b3 b4 b5 b6 b7) then Char b0 b1 b2 b3 b4 False b6 b7
      else Char b0 b1 b2 b3 b4 b5 b6 b7)"
proof (cases "is_lower (Char b0 b1 b2 b3 b4 b5 b6 b7)")
  case True
  then have b5: "b5" by (simp add: is_lower_code)
  have "of_char (Char b0 b1 b2 b3 b4 b5 b6 b7) - (32::nat) = of_char (Char b0 b1 b2 b3 b4 False b6 b7)"
    by (simp add: of_char_Char b5)
  then have "char_of (of_char (Char b0 b1 b2 b3 b4 b5 b6 b7) - (32::nat)) = Char b0 b1 b2 b3 b4 False b6 b7"
    by (simp only: char_of_char)
  then show ?thesis using True by (simp only: upper_char_def if_True)
next
  case False
  then show ?thesis by (simp add: upper_char_def)
qed

section \<open>Collections of facts\<close>

named_theorems btree_simps \<open>lookup and order laws of the sorted-list containers\<close>
named_theorems inv_intros \<open>preservation of a component's invariant by one operation\<close>

section \<open>Word arithmetic\<close>

lemma unat_Suc_no_wrap:
  fixes w :: "'a::len word"
  assumes "unat w + 1 < 2 ^ LENGTH('a)"
  shows "unat (w + 1) = unat w + 1"
  using assms by (simp add: unat_word_ariths)

lemma unat_add_no_wrap:
  fixes a b :: "'a::len word"
  assumes "unat a + unat b < 2 ^ LENGTH('a)"
  shows "unat (a + b) = unat a + unat b"
  using assms by (simp add: unat_word_ariths)

lemma checked_add_Some:
  "checked_add a b = Some c \<Longrightarrow> c = a + b \<and> unat c = unat a + unat b"
  by (auto simp: checked_add_def unat_add_no_wrap split: if_splits)

lemma saturating_sub_add_1:
  fixes w :: "'a::len word"
  assumes "0 < w"
  shows "saturating_add (saturating_sub w 1) 1 = w"
proof -
  have w: "unat w \<noteq> 0" using assms by (simp add: unat_gt_0)
  have le: "1 \<le> w" using assms by (simp add: word_le_nat_alt unat_eq_0 Suc_le_eq unat_gt_0)
  then have d: "unat (w - 1) = unat w - 1" by (simp add: unat_sub)
  have "unat w < 2 ^ LENGTH('a)" by simp
  with d w have "unat (w - 1) + unat (1::'a word) < 2 ^ LENGTH('a)"
    by (simp add: unat_word_ariths)
  with le assms show ?thesis by (auto simp: saturating_sub_def saturating_add_def)
qed

section \<open>BTreeMap and BTreeSet\<close>

text \<open>
  A \<open>BTreeMap\<close> is the list of its entries in key order, which is the order in which the
  Rust code iterates; \<open>bt_get\<close> is \<open>get\<close>, \<open>bt_insert\<close> is \<open>insert\<close>,
  \<open>bt_entry\<close> is \<open>entry(k).or_insert(v)\<close> and \<open>bt_extend\<close> is \<open>extend\<close>.
\<close>

type_synonym ('k, 'v) btree = "('k \<times> 'v) list"

abbreviation bt_get :: "('k, 'v) btree \<Rightarrow> 'k \<Rightarrow> 'v option" where
  "bt_get \<equiv> map_of"

fun bt_insert :: "'k::linorder \<Rightarrow> 'v \<Rightarrow> ('k, 'v) btree \<Rightarrow> ('k, 'v) btree" where
  "bt_insert k v [] = [(k, v)]"
| "bt_insert k v ((k', v') # m) =
     (if k < k' then (k, v) # (k', v') # m
      else if k = k' then (k, v) # m
      else (k', v') # bt_insert k v m)"

definition bt_entry :: "'k::linorder \<Rightarrow> 'v \<Rightarrow> ('k, 'v) btree \<Rightarrow> ('k, 'v) btree" where
  "bt_entry k v m = (case bt_get m k of None \<Rightarrow> bt_insert k v m | Some _ \<Rightarrow> m)"

definition bt_extend :: "('k::linorder, 'v) btree \<Rightarrow> ('k \<times> 'v) list \<Rightarrow> ('k, 'v) btree" where
  "bt_extend m kvs = fold (\<lambda>(k, v). bt_insert k v) kvs m"

definition bt_remove :: "'k \<Rightarrow> ('k, 'v) btree \<Rightarrow> ('k, 'v) btree" where
  "bt_remove k m = filter (\<lambda>(k', _). k' \<noteq> k) m"

text \<open>\<open>entry(k).or_default()\<close> on a map of vectors or sets.\<close>

definition bt_list :: "('k, 'v list) btree \<Rightarrow> 'k \<Rightarrow> 'v list" where
  "bt_list m k = (case bt_get m k of None \<Rightarrow> [] | Some vs \<Rightarrow> vs)"

definition sorted_map :: "('k::linorder, 'v) btree \<Rightarrow> bool" where
  "sorted_map m \<longleftrightarrow> sorted_wrt (<) (map fst m)"

fun bs_insert :: "'k::linorder \<Rightarrow> 'k list \<Rightarrow> 'k list" where
  "bs_insert k [] = [k]"
| "bs_insert k (k' # s) =
     (if k < k' then k # k' # s else if k = k' then k' # s else k' # bs_insert k s)"

definition bs_of_list :: "'k::linorder list \<Rightarrow> 'k list" where
  "bs_of_list ks = fold bs_insert ks []"

lemma bt_get_insert [simp, btree_simps]:
  "bt_get (bt_insert k v m) = (bt_get m)(k \<mapsto> v)"
  by (induction k v m rule: bt_insert.induct) (auto simp: fun_eq_iff)

lemma keys_bt_insert [simp, btree_simps]:
  "fst ` set (bt_insert k v m) = insert k (fst ` set m)"
  by (induction k v m rule: bt_insert.induct) auto

lemma set_bt_insert_subset: "set (bt_insert k v m) \<subseteq> insert (k, v) (set m)"
  by (induction k v m rule: bt_insert.induct) auto

lemma bt_list_insert [simp, btree_simps]:
  "bt_list (bt_insert k v m) k' = (if k' = k then v else bt_list m k')"
  by (simp add: bt_list_def)

lemma bt_list_Nil [simp]: "bt_list [] k = []"
  by (simp add: bt_list_def)

lemma sorted_map_Nil [simp]: "sorted_map []"
  by (simp add: sorted_map_def)

lemma sorted_map_Cons:
  "sorted_map ((k, v) # m) \<longleftrightarrow> (\<forall>k' \<in> fst ` set m. k < k') \<and> sorted_map m"
  by (auto simp: sorted_map_def)

lemma sorted_map_insert [intro, inv_intros]: "sorted_map m \<Longrightarrow> sorted_map (bt_insert k v m)"
proof (induction k v m rule: bt_insert.induct)
  case (1 k v)
  show ?case by (simp add: sorted_map_def)
next
  case (2 k v k' v' m)
  from "2.prems" have s: "sorted_map m" and k': "\<forall>x \<in> fst ` set m. k' < x"
    by (simp_all add: sorted_map_Cons)
  show ?case
  proof (cases "k < k'")
    case True
    with s k' show ?thesis by (auto simp: sorted_map_Cons)
  next
    case False
    with s k' "2.IH" show ?thesis by (auto simp: sorted_map_Cons)
  qed
qed

lemma sorted_map_distinct: "sorted_map m \<Longrightarrow> distinct (map fst m)"
  unfolding sorted_map_def by (simp add: strict_sorted_iff)

lemma bt_get_eq_in_set: "sorted_map m \<Longrightarrow> bt_get m k = Some v \<longleftrightarrow> (k, v) \<in> set m"
  by (simp add: sorted_map_distinct)

lemma sorted_map_unique:
  assumes "sorted_map m" "sorted_map m'" "bt_get m = bt_get m'"
  shows "m = m'"
  using assms
proof (induction m arbitrary: m')
  case Nil
  then show ?case by (cases m') (auto simp: fun_eq_iff split: if_splits)
next
  case (Cons a m)
  obtain k v where a: "a = (k, v)" by (cases a)
  obtain b n where m': "m' = b # n"
    using Cons.prems(3) a by (cases m') (auto simp: fun_eq_iff split: if_splits)
  obtain k' v' where b: "b = (k', v')" by (cases b)
  have in1: "(k, v) \<in> set m'" and in2: "(k', v') \<in> set (a # m)"
    using Cons.prems(3) bt_get_eq_in_set [OF Cons.prems(1)] bt_get_eq_in_set [OF Cons.prems(2)] a b m'
    by (metis list.set_intros(1))+
  have "k = k' \<and> v = v'"
    using in1 in2 Cons.prems(1,2) unfolding a b m'
    by (force simp: sorted_map_Cons)
  moreover have "bt_get m = bt_get n"
  proof
    fix x
    show "bt_get m x = bt_get n x"
    proof (cases "x = k")
      case True
      have "bt_get m k = None" "bt_get n k = None"
        using Cons.prems(1,2) \<open>k = k' \<and> v = v'\<close> unfolding a b m'
        by (auto simp: sorted_map_Cons map_of_eq_None_iff)
      then show ?thesis by (simp add: True)
    next
      case False
      then show ?thesis
        using fun_cong [OF Cons.prems(3), of x] \<open>k = k' \<and> v = v'\<close> by (simp add: a b m')
    qed
  qed
  ultimately show ?case
    using Cons.IH [of n] Cons.prems(1,2) by (simp add: a b m' sorted_map_Cons)
qed

lemma bt_get_entry [simp, btree_simps]:
  "bt_get (bt_entry k v m) k' =
     (if k' = k then Some (case bt_get m k of None \<Rightarrow> v | Some w \<Rightarrow> w) else bt_get m k')"
  by (auto simp: bt_entry_def split: option.splits)

lemma sorted_map_entry [intro, inv_intros]: "sorted_map m \<Longrightarrow> sorted_map (bt_entry k v m)"
  by (auto simp: bt_entry_def split: option.splits)

lemma bt_get_extend:
  "bt_get (bt_extend m kvs) = bt_get m ++ map_of (rev kvs)"
  unfolding bt_extend_def
  by (induction kvs arbitrary: m) (auto simp: fun_eq_iff map_add_def split: option.splits)

lemma sorted_map_extend [intro, inv_intros]: "sorted_map m \<Longrightarrow> sorted_map (bt_extend m kvs)"
  unfolding bt_extend_def by (induction kvs arbitrary: m) auto

lemma bt_get_remove [simp, btree_simps]: "bt_get (bt_remove k m) = (bt_get m)(k := None)"
  unfolding bt_remove_def by (induction m) (auto simp: fun_eq_iff)

lemma set_bs_insert [simp, btree_simps]: "set (bs_insert k s) = insert k (set s)"
  by (induction k s rule: bs_insert.induct) auto

lemma sorted_bs_insert [intro]: "sorted_wrt (<) s \<Longrightarrow> sorted_wrt (<) (bs_insert k s)"
  by (induction k s rule: bs_insert.induct) auto

lemma bs_insert_absorb: "sorted_wrt (<) s \<Longrightarrow> k \<in> set s \<Longrightarrow> bs_insert k s = s"
  by (induction k s rule: bs_insert.induct) auto

lemma bs_of_list_aux:
  "sorted_wrt (<) s \<Longrightarrow>
     set (fold bs_insert ks s) = set s \<union> set ks \<and> sorted_wrt (<) (fold bs_insert ks s)"
proof (induction ks arbitrary: s)
  case Nil
  then show ?case by simp
next
  case (Cons k ks)
  have "sorted_wrt (<) (bs_insert k s)" using Cons.prems by (rule sorted_bs_insert)
  from Cons.IH [OF this] show ?case by auto
qed

lemma set_bs_of_list [simp, btree_simps]: "set (bs_of_list ks) = set ks"
  using bs_of_list_aux [of "[]" ks] by (simp add: bs_of_list_def)

lemma sorted_bs_of_list [simp]: "sorted_wrt (<) (bs_of_list ks)"
  using bs_of_list_aux [of "[]" ks] by (simp add: bs_of_list_def)

lemma sorted_set_unique:
  fixes s t :: "'k::linorder list"
  shows "sorted_wrt (<) s \<Longrightarrow> sorted_wrt (<) t \<Longrightarrow> set s = set t \<Longrightarrow> s = t"
  by (simp add: strict_sorted_equal)

section \<open>Lists\<close>

definition last_opt :: "'a list \<Rightarrow> 'a option" where
  "last_opt xs = (if xs = [] then None else Some (last xs))"

lemma last_opt_simps [simp]:
  "last_opt [] = None" "last_opt (xs @ [x]) = Some x"
  by (simp_all add: last_opt_def)

lemma last_opt_None_iff [simp]: "last_opt xs = None \<longleftrightarrow> xs = []"
  by (simp add: last_opt_def)

lemma last_opt_Some_in_set: "last_opt xs = Some x \<Longrightarrow> x \<in> set xs"
  by (auto simp: last_opt_def split: if_splits)

section \<open>Bounded logs\<close>

text \<open>
  The suffix of a list that fits in \<open>n\<close> entries: what remains of a log of capacity
  \<open>n\<close> that evicts its oldest entry.
\<close>

definition keep_last :: "nat \<Rightarrow> 'a list \<Rightarrow> 'a list" where
  "keep_last n xs = drop (length xs - n) xs"

lemma length_keep_last [simp]: "length (keep_last n xs) = min n (length xs)"
  by (simp add: keep_last_def)

lemma keep_last_id [simp]: "length xs \<le> n \<Longrightarrow> keep_last n xs = xs"
  by (simp add: keep_last_def)

lemma keep_last_append: "keep_last n (keep_last n xs @ ys) = keep_last n (xs @ ys)"
proof (cases "length xs \<le> n")
  case True
  then show ?thesis by simp
next
  case False
  then show ?thesis
    by (auto simp: keep_last_def intro!: arg_cong2 [where f = drop])
qed

text \<open>
  The contract of a bounded log: \<open>put\<close> appends and then keeps the newest \<open>cap\<close>
  entries. The journal and every watch queue of the graph store implement it.
\<close>

locale bounded_log =
  fixes put :: "'a \<Rightarrow> 'q \<Rightarrow> 'q"
    and entries :: "'q \<Rightarrow> 'a list"
    and cap :: nat
    and ok :: "'q \<Rightarrow> bool"
  assumes entries_put: "ok q \<Longrightarrow> entries (put x q) = keep_last cap (entries q @ [x])"
    and ok_put: "ok q \<Longrightarrow> ok (put x q)"
    and ok_bounded: "ok q \<Longrightarrow> length (entries q) \<le> cap"
begin

lemma ok_put_all: "ok q \<Longrightarrow> ok (fold put xs q)"
  by (induction xs arbitrary: q) (auto intro: ok_put)

lemma entries_put_all: "ok q \<Longrightarrow> entries (fold put xs q) = keep_last cap (entries q @ xs)"
proof (induction xs arbitrary: q)
  case Nil
  then show ?case by (simp add: ok_bounded)
next
  case (Cons x xs)
  then show ?case by (simp add: ok_put entries_put keep_last_append)
qed

lemma bounded_put_all: "ok q \<Longrightarrow> length (entries (fold put xs q)) \<le> cap"
  by (intro ok_bounded ok_put_all)

lemma newest_last: "ok q \<Longrightarrow> 0 < cap \<Longrightarrow> last_opt (entries (put x q)) = Some x"
  by (auto simp: entries_put keep_last_def last_opt_def)

end

end
