(* ===== verification/Abi.thy ===== *)
theory Abi
  imports Prelude
begin

text \<open>
  The contract every ThingOS part speaks (\<open>src/thing_abi/src/lib.rs\<close>): symbols, dynamic
  values, things, edges, the graph requests and the \<open>AbiRequest\<close>/\<open>AbiResponse\<close>
  messages, the write-once runtime cell and the identifier counter. Also the identifiers of
  \<open>src/crates/kernel_std/src/id.rs\<close>.
\<close>

section \<open>Symbols\<close>

datatype symbol = Symbol (raw: u32)

text \<open>\<open>#[derive(Ord)]\<close> on the newtype: the order of the raw code.\<close>

instantiation symbol :: linorder
begin
definition less_eq_symbol :: "symbol \<Rightarrow> symbol \<Rightarrow> bool" where
  "less_eq_symbol a b \<longleftrightarrow> raw a \<le> raw b"
definition less_symbol :: "symbol \<Rightarrow> symbol \<Rightarrow> bool" where
  "less_symbol a b \<longleftrightarrow> raw a < raw b"
instance
  by standard (auto simp: less_eq_symbol_def less_symbol_def symbol.expand)
end

definition cc :: "char \<Rightarrow> char \<Rightarrow> symbol" where
  "cc a b = Symbol (push_bit 16 (of_char a) OR push_bit 8 (of_char b))"

definition canon :: "u8 \<Rightarrow> u8 \<Rightarrow> u8 \<Rightarrow> symbol" where
  "canon a b c = Symbol (push_bit 16 (ucast a) OR push_bit 8 (ucast b) OR ucast c)"

definition from_char :: "nat \<Rightarrow> symbol" where
  "from_char c = Symbol (of_nat c)"

definition from_u16 :: "u16 \<Rightarrow> symbol" where
  "from_u16 r = Symbol (ucast r)"

text \<open>The three code bytes of a symbol, high byte first, zero bytes dropped.\<close>

definition symbol_bytes :: "symbol \<Rightarrow> u8 list" where
  "symbol_bytes s =
     (let val = raw s;
          c1 = ucast (drop_bit 16 val AND 0xFF) :: u8;
          c2 = ucast (drop_bit 8 val AND 0xFF) :: u8;
          c3 = ucast (val AND 0xFF) :: u8
      in filter (\<lambda>c. c \<noteq> 0) [c1, c2, c3])"

definition symbol_into_string :: "symbol \<Rightarrow> string" where
  "symbol_into_string s =
     (case from_utf8 (symbol_bytes s) of
        Some t \<Rightarrow> t
      | None \<Rightarrow> show_hex (unat (raw s)))"

section \<open>Values\<close>

datatype gvalue =
    VNull
  | VBool bool
  | VU64 u64
  | VI64 i64
  | VBytes "u8 list"
  | VSymbol symbol
  | VUuid uuid
  | VText string
  | VMap "(symbol \<times> gvalue) list"
  | VList "gvalue list"
  | VBlob "u8 list"

type_synonym gmap = "(symbol, gvalue) btree"

fun as_map :: "gvalue \<Rightarrow> gmap option" where
  "as_map (VMap m) = Some m" | "as_map _ = None"

fun as_uuid :: "gvalue \<Rightarrow> uuid option" where
  "as_uuid (VUuid i) = Some i" | "as_uuid _ = None"

fun as_symbol :: "gvalue \<Rightarrow> symbol option" where
  "as_symbol (VSymbol s) = Some s" | "as_symbol _ = None"

fun as_u64 :: "gvalue \<Rightarrow> u64 option" where
  "as_u64 (VU64 v) = Some v" | "as_u64 _ = None"

fun as_i64 :: "gvalue \<Rightarrow> i64 option" where
  "as_i64 (VI64 v) = Some v" | "as_i64 _ = None"

fun as_bool :: "gvalue \<Rightarrow> bool option" where
  "as_bool (VBool v) = Some v" | "as_bool _ = None"

fun as_text :: "gvalue \<Rightarrow> string option" where
  "as_text (VText t) = Some t" | "as_text _ = None"

text \<open>
  \<open>impl Display for Value\<close>; how the uuid crate prints an identifier is the parameter
  \<open>show_uuid\<close>.
\<close>

fun join :: "string \<Rightarrow> string list \<Rightarrow> string" where
  "join sep [] = []"
| "join sep [x] = x"
| "join sep (x # y # xs) = x @ sep @ join sep (y # xs)"

function value_display :: "(uuid \<Rightarrow> string) \<Rightarrow> gvalue \<Rightarrow> string" where
  "value_display su VNull = ''null''"
| "value_display su (VBool v) = (if v then ''true'' else ''false'')"
| "value_display su (VU64 v) = show_nat (unat v)"
| "value_display su (VI64 v) = show_int (sint v)"
| "value_display su (VBytes b) = ''bytes('' @ show_nat (length b) @ '')''"
| "value_display su (VBlob b) = ''blob('' @ show_nat (length b) @ '')''"
| "value_display su (VSymbol s) = show_nat (unat (raw s))"
| "value_display su (VUuid i) = su i"
| "value_display su (VText t) = CHR 0x22 # t @ [CHR 0x22]"
| "value_display su (VMap m) =
     ''{'' @ join '', '' (map (\<lambda>(k, v). show_nat (unat (raw k)) @ '': '' @ value_display su v) m)
       @ ''}''"
| "value_display su (VList vs) = ''['' @ join '', '' (map (value_display su) vs) @ '']''"
  by pat_completeness auto
termination
proof (relation "measure (\<lambda>(su, v). size v)")
  show "wf (measure (\<lambda>(su::uuid \<Rightarrow> string, v::gvalue). size v))" by simp
next
  fix su :: "uuid \<Rightarrow> string" and m :: gmap and z x y
  assume m: "z \<in> set m" "(x, y) = z"
  then show "((su, y), (su, VMap m)) \<in> measure (\<lambda>(su, v). size v)"
    by (induction m) (auto dest: sym)
next
  fix su :: "uuid \<Rightarrow> string" and vs :: "gvalue list" and z
  assume "z \<in> set vs"
  then show "((su, z), (su, VList vs)) \<in> measure (\<lambda>(su, v). size v)"
    by (induction vs) auto
qed

section \<open>Things, edges and requests\<close>

record graph_thing =
  thing_id :: uuid
  thing_kind :: symbol
  thing_labels :: "symbol list"
  thing_fields :: gmap
  thing_owner :: uuid
  thing_revision :: u64

record graph_edge =
  edge_id :: uuid
  edge_src :: uuid
  edge_pred :: string
  edge_dst :: uuid
  edge_props :: gmap
  edge_owner :: uuid
  edge_revision :: u64

datatype graph_change = CThing graph_thing | CEdge graph_edge

fun change_revision :: "graph_change \<Rightarrow> u64" where
  "change_revision (CThing t) = thing_revision t"
| "change_revision (CEdge e) = edge_revision e"

record event =
  ev_timestamp :: u64
  ev_kind :: symbol
  ev_data :: gvalue

record graph_snapshot =
  snap_revision :: u64
  snap_thing_count :: nat
  snap_edge_count :: nat
  snap_things :: "graph_thing list"
  snap_edges :: "graph_edge list"

record graph_watch_batch =
  from_revision :: u64
  latest_revision :: u64
  batch_changes :: "graph_change list"

record graph_fiat_request =
  fiat_id :: "uuid option"
  fiat_kind :: symbol
  fiat_labels :: "symbol list"
  fiat_fields :: gmap

record graph_that_request =
  that_src :: uuid
  that_pred :: string
  that_dst :: uuid
  that_revision_hint :: u64
  that_props :: gmap

record watch_query =
  wq_kind :: "symbol option"
  wq_src :: "uuid option"
  wq_dst :: "uuid option"

record node_pattern =
  pat_labels :: "symbol list"
  pat_props :: gmap

datatype graph_get_request = GetThing uuid | GetPattern node_pattern

record graph_node_request =
  node_id :: "uuid option"
  node_labels :: "symbol list"
  node_props :: gmap

record graph_link_request =
  link_id :: "uuid option"
  link_pred :: string
  link_from :: uuid
  link_to :: uuid
  link_props :: gmap

record graph_props_request =
  ps_node :: uuid
  ps_props :: gmap

record graph_props_get_request =
  pg_node :: uuid
  pg_keys :: "symbol list"

record shared_buffer_spec =
  sb_id :: "uuid option"
  sb_size_bytes :: u64
  sb_kind :: symbol
  sb_usage :: symbol
  sb_addr :: "u64 option"
  sb_props :: gmap

record queue_state_spec =
  qs_id :: "uuid option"
  qs_buffer :: uuid
  qs_owner :: uuid
  qs_head :: u64
  qs_tail :: u64
  qs_has_data :: bool
  qs_capacity :: "u64 option"
  qs_props :: gmap

record grant_capability_request =
  gc_grantee :: uuid
  gc_target :: uuid
  gc_capability :: string

record graph_find_result_header =
  fr_next_cursor :: u64
  fr_count :: u32

record framebuffer_geometry =
  fb_width :: u32
  fb_height :: u32
  fb_pitch :: u32
  fb_bpp :: u16

type_synonym watch_id = u64

datatype abi_request =
    ReqFiat "uuid option" symbol "symbol list" gmap
  | ReqLink "uuid option" uuid string uuid gmap
  | ReqGet uuid
  | ReqQuery node_pattern
  | ReqFindByKind string "u64 option"
  | ReqWatchRegister node_pattern
  | ReqWatchUnregister watch_id
  | ReqWatchPoll watch_id "u32 option"
  | ReqPropsGet graph_props_get_request
  | ReqPropsSet graph_props_request
  | ReqGrantCapability grant_capability_request
  | ReqDevOpen u32 usize
  | ReqDevRead u64 usize
  | ReqDevWrite u64 "u8 list"
  | ReqIrqBind uuid u8
  | ReqIrqAck u64
  | ReqFbInfo
  | ReqFbMap

datatype abi_response =
    RespFiat graph_thing
  | RespLink "graph_edge option"
  | RespGet "graph_thing option"
  | RespQuery "graph_thing list"
  | RespFind "graph_thing list" "u64 option"
  | RespWatchRegistered watch_id
  | RespWatchUnregistered
  | RespWatchEvents graph_watch_batch
  | RespProps gmap
  | RespCapabilityGranted bool
  | RespDevOpened "u64 option"
  | RespDevRead "u8 list"
  | RespDevWritten usize
  | RespIrqBound "u64 option"
  | RespIrqAcked
  | RespFbInfo framebuffer_geometry
  | RespFbMapped u64
  | RespError string

section \<open>Bundle identity\<close>

datatype bundle_id = BundleId (bundle_uuid: uuid)

definition KERNEL_BUNDLE_ID :: bundle_id where
  "KERNEL_BUNDLE_ID = BundleId 0xfeedcafedeadbeefcafebabe00000001"

section \<open>The identifier counter\<close>

definition next_uuid :: "u64 \<Rightarrow> uuid \<times> u64" where
  "next_uuid counter =
     (push_bit 64 (ucast counter) OR ucast counter, counter + 1)"

section \<open>The runtime cell\<close>

text \<open>
  \<open>RuntimeCell\<close>: an atomic state and a value. The three atomic actions of \<open>set\<close> (the
  compare-exchange, the write of the value, the release store) are separate steps, so that
  concurrent callers interleave; \<open>'r\<close> is the runtime reference.
\<close>

datatype cell_state = STATE_UNINIT | STATE_INITING | STATE_INITED

record 'r runtime_cell =
  cell_st :: cell_state
  cell_value :: "'r option"

definition runtime_cell_new :: "'r runtime_cell" where
  "runtime_cell_new = \<lparr>cell_st = STATE_UNINIT, cell_value = None\<rparr>"

definition cell_try_claim :: "'r runtime_cell \<Rightarrow> bool \<times> 'r runtime_cell" where
  "cell_try_claim c =
     (if cell_st c = STATE_UNINIT then (True, c\<lparr>cell_st := STATE_INITING\<rparr>) else (False, c))"

definition cell_write :: "'r \<Rightarrow> 'r runtime_cell \<Rightarrow> 'r runtime_cell" where
  "cell_write r c = c\<lparr>cell_value := Some r\<rparr>"

definition cell_publish :: "'r runtime_cell \<Rightarrow> 'r runtime_cell" where
  "cell_publish c = c\<lparr>cell_st := STATE_INITED\<rparr>"

definition cell_get :: "'r runtime_cell \<Rightarrow> 'r option" where
  "cell_get c = (if cell_st c \<noteq> STATE_INITED then None else cell_value c)"

definition cell_is_set :: "'r runtime_cell \<Rightarrow> bool" where
  "cell_is_set c \<longleftrightarrow> cell_st c = STATE_INITED"

definition runtime :: "'r runtime_cell \<Rightarrow> 'r panics" where
  "runtime c = (case cell_get c of None \<Rightarrow> Inl ''thing runtime not set'' | Some r \<Rightarrow> Inr r)"

text \<open>Where each caller of \<open>set\<close> stands: about to claim, about to write, about to publish,
  or returned with \<open>Ok\<close> or with its own runtime as the error.\<close>

datatype 'r caller = Claiming 'r | Writing 'r | Publishing 'r | SetOk 'r | SetErr 'r

inductive cell_step ::
  "'r runtime_cell \<times> (nat \<Rightarrow> 'r caller) \<Rightarrow> 'r runtime_cell \<times> (nat \<Rightarrow> 'r caller) \<Rightarrow> bool" where
  claim_ok: "pcs i = Claiming r \<Longrightarrow> cell_try_claim c = (True, c') \<Longrightarrow>
     cell_step (c, pcs) (c', pcs(i := Writing r))"
| claim_err: "pcs i = Claiming r \<Longrightarrow> cell_try_claim c = (False, c') \<Longrightarrow>
     cell_step (c, pcs) (c', pcs(i := SetErr r))"
| write_value: "pcs i = Writing r \<Longrightarrow> cell_step (c, pcs) (cell_write r c, pcs(i := Publishing r))"
| publish: "pcs i = Publishing r \<Longrightarrow> cell_step (c, pcs) (cell_publish c, pcs(i := SetOk r))"

inductive cell_reach :: "(nat \<Rightarrow> 'r) \<Rightarrow> 'r runtime_cell \<times> (nat \<Rightarrow> 'r caller) \<Rightarrow> bool"
  for rs :: "nat \<Rightarrow> 'r" where
  start: "cell_reach rs (runtime_cell_new, \<lambda>i. Claiming (rs i))"
| step: "cell_reach rs s \<Longrightarrow> cell_step s t \<Longrightarrow> cell_reach rs t"

inductive_cases cell_stepE: "cell_step (c, pcs) (c', pcs')"

fun caller_runtime :: "'r caller \<Rightarrow> 'r" where
  "caller_runtime (Claiming r) = r"
| "caller_runtime (Writing r) = r"
| "caller_runtime (Publishing r) = r"
| "caller_runtime (SetOk r) = r"
| "caller_runtime (SetErr r) = r"

fun passed_claim :: "'r caller \<Rightarrow> bool" where
  "passed_claim (Writing r) = True"
| "passed_claim (Publishing r) = True"
| "passed_claim (SetOk r) = True"
| "passed_claim _ = False"

text \<open>
  The invariant of the cell: one caller at most has passed the compare-exchange; the state
  says how far that caller is, and the value is its runtime from the write on.
\<close>

definition cell_inv :: "(nat \<Rightarrow> 'r) \<Rightarrow> 'r runtime_cell \<times> (nat \<Rightarrow> 'r caller) \<Rightarrow> bool" where
  "cell_inv rs = (\<lambda>(c, pcs).
     (\<forall>i. caller_runtime (pcs i) = rs i) \<and>
     (\<forall>i j. passed_claim (pcs i) \<longrightarrow> passed_claim (pcs j) \<longrightarrow> i = j) \<and>
     (cell_st c = STATE_UNINIT \<longrightarrow> (\<forall>i. \<not> passed_claim (pcs i))) \<and>
     (\<forall>i r. pcs i = Writing r \<longrightarrow> cell_st c = STATE_INITING) \<and>
     (\<forall>i r. pcs i = Publishing r \<longrightarrow> cell_st c = STATE_INITING \<and> cell_value c = Some r) \<and>
     (\<forall>i r. pcs i = SetOk r \<longrightarrow> cell_st c = STATE_INITED \<and> cell_value c = Some r) \<and>
     (cell_st c = STATE_INITED \<longrightarrow> (\<exists>i r. pcs i = SetOk r)))"

lemma cell_inv_others:
  assumes "cell_inv rs (c, pcs)" and "passed_claim (pcs i)" and "j \<noteq> i"
  shows "\<not> passed_claim (pcs j)"
  using assms by (auto simp: cell_inv_def)

lemma cell_inv_runtime: "cell_inv rs (c, pcs) \<Longrightarrow> caller_runtime (pcs i) = rs i"
  by (simp add: cell_inv_def)

lemma cell_inv_moved:
  assumes inv: "cell_inv rs (c, pcs)" and i: "passed_claim (pcs i)"
    and q: "caller_runtime q = rs i" "passed_claim q"
    and st: "\<And>r. q = Writing r \<Longrightarrow> cell_st c' = STATE_INITING"
      "\<And>r. q = Publishing r \<Longrightarrow> cell_st c' = STATE_INITING \<and> cell_value c' = Some r"
      "\<And>r. q = SetOk r \<Longrightarrow> cell_st c' = STATE_INITED \<and> cell_value c' = Some r"
  shows "cell_inv rs (c', pcs(i := q))"
proof -
  note others = cell_inv_others [OF inv i]
  have fin: "cell_st c' = STATE_INITED \<Longrightarrow> \<exists>r. q = SetOk r"
    using q(2) st by (cases q) auto
  have un: "cell_st c' \<noteq> STATE_UNINIT" using q(2) st by (cases q) auto
  have neq: "pcs j \<noteq> Writing r \<and> pcs j \<noteq> Publishing r \<and> pcs j \<noteq> SetOk r" if "j \<noteq> i" for j r
    using others [OF that] by auto
  show ?thesis
    unfolding cell_inv_def
    using cell_inv_runtime [OF inv] others neq un fin q(1) st by (auto split: if_splits)
qed

lemma cell_inv_step: "cell_step s t \<Longrightarrow> cell_inv rs s \<Longrightarrow> cell_inv rs t"
proof (induction rule: cell_step.induct)
  case (claim_ok pcs i r c c')
  from claim_ok have "r = rs i" by (simp add: cell_inv_def) (metis caller_runtime.simps(1))
  with claim_ok show ?case
    by (auto simp: cell_inv_def cell_try_claim_def split: if_splits)
next
  case (claim_err pcs i r c c')
  then have c': "c' = c" by (auto simp: cell_try_claim_def split: if_splits)
  have "r = rs i" using cell_inv_runtime [OF claim_err.prems, of i] claim_err.hyps by simp
  moreover have "\<exists>j r'. (pcs(i := SetErr r)) j = SetOk r'" if fin: "cell_st c = STATE_INITED"
  proof -
    obtain j r' where j: "pcs j = SetOk r'" using claim_err.prems fin by (auto simp: cell_inv_def)
    with claim_err.hyps have "(pcs(i := SetErr r)) j = SetOk r'" by auto
    then show ?thesis by blast
  qed
  ultimately show ?case
    using claim_err.prems claim_err.hyps(1) unfolding c' cell_inv_def prod.case
    by (intro conjI, simp_all split: if_splits) blast
next
  case (write_value pcs i r c)
  have "r = rs i" using cell_inv_runtime [OF write_value.prems, of i] write_value.hyps by simp
  moreover have "cell_st c = STATE_INITING" using write_value by (auto simp: cell_inv_def)
  ultimately show ?case
    using write_value by (intro cell_inv_moved [OF write_value.prems]) (auto simp: cell_write_def)
next
  case (publish pcs i r c)
  have "r = rs i" using cell_inv_runtime [OF publish.prems, of i] publish.hyps by simp
  moreover have "cell_value c = Some r" using publish by (auto simp: cell_inv_def)
  ultimately show ?case
    using publish by (intro cell_inv_moved [OF publish.prems]) (auto simp: cell_publish_def)
qed

lemma cell_inv_reach: "cell_reach rs s \<Longrightarrow> cell_inv rs s"
proof (induction rule: cell_reach.induct)
  case start
  show ?case by (simp add: cell_inv_def runtime_cell_new_def)
next
  case (step s t)
  then show ?case by (blast intro: cell_inv_step)
qed

text \<open>The low half of an identifier is the counter it was made from.\<close>

lemma ucast_next_uuid: "ucast (fst (next_uuid c)) = c"
  by (rule bit_word_eqI) (auto simp: next_uuid_def bit_simps)

end
