(* ===== verification/Canon.thy ===== *)
theory Canon
  imports Abi
begin

text \<open>
  The symbol table of the kernel (\<open>src/kernel/src/graph/canon.rs\<close>): every named symbol, and
  the two conversions between symbols and text. The name \<open>canon_KIND\<close> stands for
  \<open>canon::KIND\<close>.
\<close>

section \<open>The named symbols\<close>

named_theorems canon_defs \<open>definitions of the named symbols\<close>

definition canon_JOURNAL :: symbol where
  [canon_defs]: "canon_JOURNAL = cc CHR ''J'' CHR ''N''"

definition canon_KEYBOARD :: symbol where
  [canon_defs]: "canon_KEYBOARD = cc CHR ''K'' CHR ''B''"

definition canon_KEY_PRESSED :: symbol where
  [canon_defs]: "canon_KEY_PRESSED = cc CHR ''K'' CHR ''P''"

definition canon_KEY_EVENT :: symbol where
  [canon_defs]: "canon_KEY_EVENT = canon (ascii CHR ''K'') (ascii CHR ''E'') (ascii CHR ''V'')"

definition canon_MOUSE :: symbol where
  [canon_defs]: "canon_MOUSE = cc CHR ''M'' CHR ''S''"

definition canon_MOUSE_MOVED :: symbol where
  [canon_defs]: "canon_MOUSE_MOVED = cc CHR ''M'' CHR ''V''"

definition canon_MOUSE_MOVE :: symbol where
  [canon_defs]: "canon_MOUSE_MOVE = canon (ascii CHR ''M'') (ascii CHR ''M'') (ascii CHR ''V'')"

definition canon_MOUSE_BUTTON :: symbol where
  [canon_defs]: "canon_MOUSE_BUTTON = canon (ascii CHR ''M'') (ascii CHR ''B'') (ascii CHR ''T'')"

definition canon_AT :: symbol where
  [canon_defs]: "canon_AT = cc CHR ''@'' CHR '' ''"

definition canon_INIT :: symbol where
  [canon_defs]: "canon_INIT = cc CHR ''I'' CHR ''N''"

definition canon_FAIL :: symbol where
  [canon_defs]: "canon_FAIL = cc CHR ''F'' CHR ''L''"

definition canon_DRIVER :: symbol where
  [canon_defs]: "canon_DRIVER = cc CHR ''D'' CHR ''R''"

definition canon_THING_CREATED :: symbol where
  [canon_defs]: "canon_THING_CREATED = cc CHR ''T'' CHR ''C''"

definition canon_EDGE_ADDED :: symbol where
  [canon_defs]: "canon_EDGE_ADDED = cc CHR ''E'' CHR ''D''"

definition canon_PUBLIC :: symbol where
  [canon_defs]: "canon_PUBLIC = canon (ascii CHR ''P'') (ascii CHR ''U'') (ascii CHR ''B'')"

definition canon_CLOSE_WINDOW_ACTION :: symbol where
  [canon_defs]: "canon_CLOSE_WINDOW_ACTION = canon (ascii CHR ''C'') (ascii CHR ''L'') (ascii CHR ''W'')"

definition canon_ID :: symbol where
  [canon_defs]: "canon_ID = canon (ascii CHR ''I'') (ascii CHR ''D'') (ascii CHR '' '')"

definition canon_KIND :: symbol where
  [canon_defs]: "canon_KIND = canon (ascii CHR ''K'') (ascii CHR ''N'') (ascii CHR ''D'')"

definition canon_FIELDS :: symbol where
  [canon_defs]: "canon_FIELDS = canon (ascii CHR ''F'') (ascii CHR ''L'') (ascii CHR ''D'')"

definition canon_REVISION :: symbol where
  [canon_defs]: "canon_REVISION = canon (ascii CHR ''R'') (ascii CHR ''V'') (ascii CHR ''N'')"

definition canon_SRC :: symbol where
  [canon_defs]: "canon_SRC = canon (ascii CHR ''S'') (ascii CHR ''R'') (ascii CHR ''C'')"

definition canon_DST :: symbol where
  [canon_defs]: "canon_DST = canon (ascii CHR ''D'') (ascii CHR ''S'') (ascii CHR ''T'')"

definition canon_PREDICATE :: symbol where
  [canon_defs]: "canon_PREDICATE = canon (ascii CHR ''P'') (ascii CHR ''R'') (ascii CHR ''D'')"

definition canon_NAME :: symbol where
  [canon_defs]: "canon_NAME = canon (ascii CHR ''N'') (ascii CHR ''A'') (ascii CHR ''M'')"

definition canon_STATUS :: symbol where
  [canon_defs]: "canon_STATUS = canon (ascii CHR ''S'') (ascii CHR ''T'') (ascii CHR ''A'')"

definition canon_SCANCODE :: symbol where
  [canon_defs]: "canon_SCANCODE = canon (ascii CHR ''S'') (ascii CHR ''C'') (ascii CHR ''N'')"

definition canon_KEY :: symbol where
  [canon_defs]: "canon_KEY = canon (ascii CHR ''K'') (ascii CHR ''E'') (ascii CHR ''Y'')"

definition canon_DX :: symbol where
  [canon_defs]: "canon_DX = canon (ascii CHR ''D'') (ascii CHR ''X'') (ascii CHR '' '')"

definition canon_DY :: symbol where
  [canon_defs]: "canon_DY = canon (ascii CHR ''D'') (ascii CHR ''Y'') (ascii CHR '' '')"

definition canon_BUTTONS :: symbol where
  [canon_defs]: "canon_BUTTONS = canon (ascii CHR ''B'') (ascii CHR ''T'') (ascii CHR ''N'')"

definition canon_WRITE :: symbol where
  [canon_defs]: "canon_WRITE = canon (ascii CHR ''W'') (ascii CHR ''R'') (ascii CHR ''T'')"

definition canon_TEXT :: symbol where
  [canon_defs]: "canon_TEXT = canon (ascii CHR ''T'') (ascii CHR ''X'') (ascii CHR ''T'')"

definition canon_TARGET :: symbol where
  [canon_defs]: "canon_TARGET = canon (ascii CHR ''T'') (ascii CHR ''G'') (ascii CHR ''T'')"

definition canon_STDOUT :: symbol where
  [canon_defs]: "canon_STDOUT = canon (ascii CHR ''S'') (ascii CHR ''T'') (ascii CHR ''D'')"

definition canon_BUNDLE :: symbol where
  [canon_defs]: "canon_BUNDLE = canon (ascii CHR ''B'') (ascii CHR ''N'') (ascii CHR ''D'')"

definition canon_OWNER :: symbol where
  [canon_defs]: "canon_OWNER = canon (ascii CHR ''O'') (ascii CHR ''W'') (ascii CHR ''N'')"

definition canon_OWNS :: symbol where
  [canon_defs]: "canon_OWNS = canon (ascii CHR ''O'') (ascii CHR ''W'') (ascii CHR ''S'')"

definition canon_CAN_READ :: symbol where
  [canon_defs]: "canon_CAN_READ = canon (ascii CHR ''C'') (ascii CHR ''R'') (ascii CHR ''D'')"

definition canon_CAN_WRITE :: symbol where
  [canon_defs]: "canon_CAN_WRITE = canon (ascii CHR ''C'') (ascii CHR ''W'') (ascii CHR ''R'')"

definition canon_CAN_LINK :: symbol where
  [canon_defs]: "canon_CAN_LINK = canon (ascii CHR ''C'') (ascii CHR ''L'') (ascii CHR ''K'')"

definition canon_CAN_HANDLE_IRQ :: symbol where
  [canon_defs]: "canon_CAN_HANDLE_IRQ = canon (ascii CHR ''C'') (ascii CHR ''I'') (ascii CHR ''Q'')"

definition canon_CAN_DMA :: symbol where
  [canon_defs]: "canon_CAN_DMA = canon (ascii CHR ''C'') (ascii CHR ''D'') (ascii CHR ''M'')"

definition canon_CAN_MMIO :: symbol where
  [canon_defs]: "canon_CAN_MMIO = canon (ascii CHR ''C'') (ascii CHR ''M'') (ascii CHR ''M'')"

definition canon_CAN_PORT_IO :: symbol where
  [canon_defs]: "canon_CAN_PORT_IO = canon (ascii CHR ''C'') (ascii CHR ''P'') (ascii CHR ''O'')"

definition canon_ADDR :: symbol where
  [canon_defs]: "canon_ADDR = canon (ascii CHR ''A'') (ascii CHR ''D'') (ascii CHR ''R'')"

definition canon_X :: symbol where
  [canon_defs]: "canon_X = canon (ascii CHR ''X'') (ascii CHR '' '') (ascii CHR '' '')"

definition canon_Y :: symbol where
  [canon_defs]: "canon_Y = canon (ascii CHR ''Y'') (ascii CHR '' '') (ascii CHR '' '')"

definition canon_Z :: symbol where
  [canon_defs]: "canon_Z = canon (ascii CHR ''Z'') (ascii CHR ''I'') (ascii CHR ''N'')"

definition canon_WIDTH :: symbol where
  [canon_defs]: "canon_WIDTH = canon (ascii CHR ''W'') (ascii CHR ''D'') (ascii CHR ''T'')"

definition canon_HEIGHT :: symbol where
  [canon_defs]: "canon_HEIGHT = canon (ascii CHR ''H'') (ascii CHR ''G'') (ascii CHR ''T'')"

definition canon_PITCH :: symbol where
  [canon_defs]: "canon_PITCH = canon (ascii CHR ''P'') (ascii CHR ''T'') (ascii CHR ''H'')"

definition canon_BPP :: symbol where
  [canon_defs]: "canon_BPP = canon (ascii CHR ''B'') (ascii CHR ''P'') (ascii CHR ''P'')"

definition canon_COMPOSITOR :: symbol where
  [canon_defs]: "canon_COMPOSITOR = canon (ascii CHR ''C'') (ascii CHR ''M'') (ascii CHR ''P'')"

definition canon_DRIVER_INPUT :: symbol where
  [canon_defs]: "canon_DRIVER_INPUT = canon (ascii CHR ''I'') (ascii CHR ''N'') (ascii CHR ''P'')"

definition canon_DRIVER_DISPLAY :: symbol where
  [canon_defs]: "canon_DRIVER_DISPLAY = canon (ascii CHR ''D'') (ascii CHR ''S'') (ascii CHR ''P'')"

definition canon_DRIVER_STORAGE :: symbol where
  [canon_defs]: "canon_DRIVER_STORAGE = canon (ascii CHR ''S'') (ascii CHR ''T'') (ascii CHR ''R'')"

definition canon_DRIVER_TIMER :: symbol where
  [canon_defs]: "canon_DRIVER_TIMER = canon (ascii CHR ''T'') (ascii CHR ''M'') (ascii CHR ''R'')"

definition canon_DRIVER_OTHER :: symbol where
  [canon_defs]: "canon_DRIVER_OTHER = canon (ascii CHR ''O'') (ascii CHR ''T'') (ascii CHR ''H'')"

definition canon_WINDOW :: symbol where
  [canon_defs]: "canon_WINDOW = canon (ascii CHR ''W'') (ascii CHR ''I'') (ascii CHR ''N'')"

definition canon_PIXMAP :: symbol where
  [canon_defs]: "canon_PIXMAP = canon (ascii CHR ''P'') (ascii CHR ''X'') (ascii CHR ''M'')"

definition canon_STREAMS :: symbol where
  [canon_defs]: "canon_STREAMS = canon (ascii CHR ''S'') (ascii CHR ''T'') (ascii CHR ''M'')"

definition canon_COMPOSED_BY :: symbol where
  [canon_defs]: "canon_COMPOSED_BY = canon (ascii CHR ''C'') (ascii CHR ''M'') (ascii CHR ''B'')"

definition canon_WINDOW_CREATED :: symbol where
  [canon_defs]: "canon_WINDOW_CREATED = canon (ascii CHR ''W'') (ascii CHR ''C'') (ascii CHR ''R'')"

definition canon_WINDOW_BUFFER_UPDATED :: symbol where
  [canon_defs]: "canon_WINDOW_BUFFER_UPDATED = canon (ascii CHR ''W'') (ascii CHR ''B'') (ascii CHR ''U'')"

definition canon_FRAME_READY :: symbol where
  [canon_defs]: "canon_FRAME_READY = canon (ascii CHR ''F'') (ascii CHR ''R'') (ascii CHR ''M'')"

definition canon_EMITS :: symbol where
  [canon_defs]: "canon_EMITS = canon (ascii CHR ''E'') (ascii CHR ''M'') (ascii CHR ''T'')"

definition canon_DEVICE :: symbol where
  [canon_defs]: "canon_DEVICE = canon (ascii CHR ''D'') (ascii CHR ''E'') (ascii CHR ''V'')"

definition canon_FRAMEBUFFER_DEVICE :: symbol where
  [canon_defs]: "canon_FRAMEBUFFER_DEVICE = canon (ascii CHR ''F'') (ascii CHR ''B'') (ascii CHR ''D'')"

definition canon_KEYBOARD_DEVICE :: symbol where
  [canon_defs]: "canon_KEYBOARD_DEVICE = canon (ascii CHR ''K'') (ascii CHR ''B'') (ascii CHR ''D'')"

definition canon_MOUSE_DEVICE :: symbol where
  [canon_defs]: "canon_MOUSE_DEVICE = canon (ascii CHR ''M'') (ascii CHR ''D'') (ascii CHR ''V'')"

definition canon_NIC_DEVICE :: symbol where
  [canon_defs]: "canon_NIC_DEVICE = canon (ascii CHR ''N'') (ascii CHR ''I'') (ascii CHR ''C'')"

definition canon_IRQ_EVENT :: symbol where
  [canon_defs]: "canon_IRQ_EVENT = canon (ascii CHR ''I'') (ascii CHR ''R'') (ascii CHR ''Q'')"

definition canon_DMA_EVENT :: symbol where
  [canon_defs]: "canon_DMA_EVENT = canon (ascii CHR ''D'') (ascii CHR ''M'') (ascii CHR ''A'')"

definition canon_IRQ_LINE :: symbol where
  [canon_defs]: "canon_IRQ_LINE = canon (ascii CHR ''I'') (ascii CHR ''Q'') (ascii CHR ''L'')"

definition canon_BUFFER :: symbol where
  [canon_defs]: "canon_BUFFER = canon (ascii CHR ''B'') (ascii CHR ''U'') (ascii CHR ''F'')"

definition canon_BYTES :: symbol where
  [canon_defs]: "canon_BYTES = canon (ascii CHR ''B'') (ascii CHR ''Y'') (ascii CHR ''T'')"

definition canon_DONE :: symbol where
  [canon_defs]: "canon_DONE = canon (ascii CHR ''D'') (ascii CHR ''O'') (ascii CHR ''N'')"

definition canon_INPUT_DEVICE_MOUSE :: symbol where
  [canon_defs]: "canon_INPUT_DEVICE_MOUSE = canon (ascii CHR ''I'') (ascii CHR ''D'') (ascii CHR ''M'')"

definition canon_INPUT_EVENT :: symbol where
  [canon_defs]: "canon_INPUT_EVENT = canon (ascii CHR ''I'') (ascii CHR ''E'') (ascii CHR ''V'')"

definition canon_MOVE :: symbol where
  [canon_defs]: "canon_MOVE = canon (ascii CHR ''M'') (ascii CHR ''O'') (ascii CHR ''V'')"

definition canon_DEVICE_ID :: symbol where
  [canon_defs]: "canon_DEVICE_ID = canon (ascii CHR ''D'') (ascii CHR ''I'') (ascii CHR ''D'')"

definition canon_TS :: symbol where
  [canon_defs]: "canon_TS = canon (ascii CHR ''T'') (ascii CHR ''S'') (ascii CHR '' '')"

definition canon_DOWN :: symbol where
  [canon_defs]: "canon_DOWN = canon (ascii CHR ''D'') (ascii CHR ''W'') (ascii CHR ''N'')"

definition canon_BUTTON :: symbol where
  [canon_defs]: "canon_BUTTON = canon (ascii CHR ''B'') (ascii CHR ''T'') (ascii CHR ''#'')"

definition canon_MODE :: symbol where
  [canon_defs]: "canon_MODE = canon (ascii CHR ''M'') (ascii CHR ''O'') (ascii CHR ''D'')"

definition canon_PACKAGE :: symbol where
  [canon_defs]: "canon_PACKAGE = canon (ascii CHR ''P'') (ascii CHR ''K'') (ascii CHR ''G'')"

definition canon_TASK :: symbol where
  [canon_defs]: "canon_TASK = canon (ascii CHR ''T'') (ascii CHR ''S'') (ascii CHR ''K'')"

definition canon_DRIVES :: symbol where
  [canon_defs]: "canon_DRIVES = canon (ascii CHR ''D'') (ascii CHR ''R'') (ascii CHR ''V'')"

definition canon_INSTANCE_OF :: symbol where
  [canon_defs]: "canon_INSTANCE_OF = canon (ascii CHR ''I'') (ascii CHR ''N'') (ascii CHR ''S'')"

definition canon_BOOT_ASSET :: symbol where
  [canon_defs]: "canon_BOOT_ASSET = canon (ascii CHR ''B'') (ascii CHR ''T'') (ascii CHR ''A'')"

definition canon_LAUNCH_INTENT :: symbol where
  [canon_defs]: "canon_LAUNCH_INTENT = canon (ascii CHR ''L'') (ascii CHR ''N'') (ascii CHR ''C'')"

definition canon_AUTOSTART :: symbol where
  [canon_defs]: "canon_AUTOSTART = canon (ascii CHR ''A'') (ascii CHR ''U'') (ascii CHR ''T'')"

definition canon_SHOW_IN_GRAPH_VIEWER :: symbol where
  [canon_defs]: "canon_SHOW_IN_GRAPH_VIEWER = canon (ascii CHR ''S'') (ascii CHR ''I'') (ascii CHR ''G'')"

definition canon_BIN_NAME :: symbol where
  [canon_defs]: "canon_BIN_NAME = canon (ascii CHR ''B'') (ascii CHR ''N'') (ascii CHR ''M'')"

definition canon_SURFACE :: symbol where
  [canon_defs]: "canon_SURFACE = canon (ascii CHR ''S'') (ascii CHR ''F'') (ascii CHR ''C'')"

definition canon_CURSOR :: symbol where
  [canon_defs]: "canon_CURSOR = canon (ascii CHR ''C'') (ascii CHR ''R'') (ascii CHR ''S'')"

definition canon_TITLE :: symbol where
  [canon_defs]: "canon_TITLE = canon (ascii CHR ''T'') (ascii CHR ''T'') (ascii CHR ''L'')"

definition canon_GAP :: symbol where
  [canon_defs]: "canon_GAP = canon (ascii CHR ''G'') (ascii CHR ''A'') (ascii CHR ''P'')"

definition canon_IS_ROOT :: symbol where
  [canon_defs]: "canon_IS_ROOT = canon (ascii CHR ''I'') (ascii CHR ''S'') (ascii CHR ''R'')"

definition canon_MODE_INDEX :: symbol where
  [canon_defs]: "canon_MODE_INDEX = canon (ascii CHR ''M'') (ascii CHR ''D'') (ascii CHR ''X'')"

definition canon_WINDOW_RECT :: symbol where
  [canon_defs]: "canon_WINDOW_RECT = canon (ascii CHR ''W'') (ascii CHR ''R'') (ascii CHR ''C'')"

definition canon_TOOLBAR :: symbol where
  [canon_defs]: "canon_TOOLBAR = canon (ascii CHR ''T'') (ascii CHR ''L'') (ascii CHR ''B'')"

definition canon_TOOLBAR_BUTTON :: symbol where
  [canon_defs]: "canon_TOOLBAR_BUTTON = canon (ascii CHR ''T'') (ascii CHR ''B'') (ascii CHR ''T'')"

definition canon_ICON :: symbol where
  [canon_defs]: "canon_ICON = canon (ascii CHR ''I'') (ascii CHR ''C'') (ascii CHR ''N'')"

definition canon_ACTIVATED :: symbol where
  [canon_defs]: "canon_ACTIVATED = canon (ascii CHR ''A'') (ascii CHR ''C'') (ascii CHR ''T'')"

definition canon_SCROLL_Y :: symbol where
  [canon_defs]: "canon_SCROLL_Y = canon (ascii CHR ''S'') (ascii CHR ''C'') (ascii CHR ''Y'')"

definition canon_MAX_SCROLL :: symbol where
  [canon_defs]: "canon_MAX_SCROLL = canon (ascii CHR ''M'') (ascii CHR ''X'') (ascii CHR ''S'')"

definition canon_CONTENT_HEIGHT :: symbol where
  [canon_defs]: "canon_CONTENT_HEIGHT = canon (ascii CHR ''C'') (ascii CHR ''T'') (ascii CHR ''H'')"

definition canon_THUMB_OFFSET :: symbol where
  [canon_defs]: "canon_THUMB_OFFSET = canon (ascii CHR ''T'') (ascii CHR ''O'') (ascii CHR ''F'')"

definition canon_THUMB_HEIGHT :: symbol where
  [canon_defs]: "canon_THUMB_HEIGHT = canon (ascii CHR ''T'') (ascii CHR ''H'') (ascii CHR ''T'')"

definition canon_MIN_WIDTH :: symbol where
  [canon_defs]: "canon_MIN_WIDTH = canon (ascii CHR ''M'') (ascii CHR ''N'') (ascii CHR ''W'')"

definition canon_MAX_WIDTH :: symbol where
  [canon_defs]: "canon_MAX_WIDTH = canon (ascii CHR ''M'') (ascii CHR ''X'') (ascii CHR ''W'')"

definition canon_MIN_HEIGHT :: symbol where
  [canon_defs]: "canon_MIN_HEIGHT = canon (ascii CHR ''M'') (ascii CHR ''N'') (ascii CHR ''H'')"

definition canon_MAX_HEIGHT :: symbol where
  [canon_defs]: "canon_MAX_HEIGHT = canon (ascii CHR ''M'') (ascii CHR ''X'') (ascii CHR ''H'')"

definition canon_VIEWPORT_HEIGHT :: symbol where
  [canon_defs]: "canon_VIEWPORT_HEIGHT = canon (ascii CHR ''V'') (ascii CHR ''P'') (ascii CHR ''H'')"

definition canon_PARENT :: symbol where
  [canon_defs]: "canon_PARENT = canon (ascii CHR ''P'') (ascii CHR ''A'') (ascii CHR ''R'')"

definition canon_BUNDLE_ID :: symbol where
  [canon_defs]: "canon_BUNDLE_ID = canon (ascii CHR ''B'') (ascii CHR ''I'') (ascii CHR ''D'')"

definition canon_DEVICE_DRIVER :: symbol where
  [canon_defs]: "canon_DEVICE_DRIVER = canon (ascii CHR ''D'') (ascii CHR ''D'') (ascii CHR ''R'')"

definition canon_DIRECTORY :: symbol where
  [canon_defs]: "canon_DIRECTORY = canon (ascii CHR ''D'') (ascii CHR ''I'') (ascii CHR ''R'')"

definition canon_FILE :: symbol where
  [canon_defs]: "canon_FILE = canon (ascii CHR ''F'') (ascii CHR ''I'') (ascii CHR ''L'')"

definition canon_APP :: symbol where
  [canon_defs]: "canon_APP = canon (ascii CHR ''A'') (ascii CHR ''P'') (ascii CHR ''P'')"

definition canon_TYPE :: symbol where
  [canon_defs]: "canon_TYPE = canon (ascii CHR ''T'') (ascii CHR ''Y'') (ascii CHR ''P'')"

definition canon_VERSION :: symbol where
  [canon_defs]: "canon_VERSION = canon (ascii CHR ''V'') (ascii CHR ''E'') (ascii CHR ''R'')"

definition canon_UP :: symbol where
  [canon_defs]: "canon_UP = canon (ascii CHR ''U'') (ascii CHR ''P'') (ascii CHR '' '')"

definition canon_DISPLAY_FRAMEBUFFER :: symbol where
  [canon_defs]: "canon_DISPLAY_FRAMEBUFFER = canon (ascii CHR ''D'') (ascii CHR ''F'') (ascii CHR ''B'')"

definition canon_DISPLAY_FRAME :: symbol where
  [canon_defs]: "canon_DISPLAY_FRAME = canon (ascii CHR ''D'') (ascii CHR ''F'') (ascii CHR ''R'')"

definition canon_CURRENT_FRAME :: symbol where
  [canon_defs]: "canon_CURRENT_FRAME = canon (ascii CHR ''C'') (ascii CHR ''U'') (ascii CHR ''R'')"

definition canon_SEQ :: symbol where
  [canon_defs]: "canon_SEQ = canon (ascii CHR ''S'') (ascii CHR ''E'') (ascii CHR ''Q'')"

definition canon_HAS_CONTENT :: symbol where
  [canon_defs]: "canon_HAS_CONTENT = canon (ascii CHR ''H'') (ascii CHR ''C'') (ascii CHR ''T'')"

definition canon_COLOR :: symbol where
  [canon_defs]: "canon_COLOR = canon (ascii CHR ''C'') (ascii CHR ''L'') (ascii CHR ''R'')"

definition canon_VISIBLE :: symbol where
  [canon_defs]: "canon_VISIBLE = canon (ascii CHR ''V'') (ascii CHR ''S'') (ascii CHR ''B'')"

definition canon_ACTIVE :: symbol where
  [canon_defs]: "canon_ACTIVE = canon (ascii CHR ''A'') (ascii CHR ''C'') (ascii CHR ''T'')"

definition canon_BITMAP :: symbol where
  [canon_defs]: "canon_BITMAP = canon (ascii CHR ''B'') (ascii CHR ''M'') (ascii CHR ''P'')"

definition canon_DIRTY :: symbol where
  [canon_defs]: "canon_DIRTY = canon (ascii CHR ''D'') (ascii CHR ''R'') (ascii CHR ''T'')"

definition canon_HAS_SURFACE :: symbol where
  [canon_defs]: "canon_HAS_SURFACE = canon (ascii CHR ''H'') (ascii CHR ''S'') (ascii CHR ''F'')"

definition canon_PRESENTS :: symbol where
  [canon_defs]: "canon_PRESENTS = canon (ascii CHR ''P'') (ascii CHR ''R'') (ascii CHR ''S'')"

definition canon_SHARED_BUFFER :: symbol where
  [canon_defs]: "canon_SHARED_BUFFER = canon (ascii CHR ''S'') (ascii CHR ''B'') (ascii CHR ''F'')"

definition canon_QUEUE_STATE :: symbol where
  [canon_defs]: "canon_QUEUE_STATE = canon (ascii CHR ''Q'') (ascii CHR ''S'') (ascii CHR ''T'')"

definition canon_BUFFER_KIND :: symbol where
  [canon_defs]: "canon_BUFFER_KIND = canon (ascii CHR ''B'') (ascii CHR ''K'') (ascii CHR ''D'')"

definition canon_BUFFER_USAGE :: symbol where
  [canon_defs]: "canon_BUFFER_USAGE = canon (ascii CHR ''B'') (ascii CHR ''U'') (ascii CHR ''G'')"

definition canon_RING :: symbol where
  [canon_defs]: "canon_RING = canon (ascii CHR ''R'') (ascii CHR ''I'') (ascii CHR ''N'')"

definition canon_LINEAR :: symbol where
  [canon_defs]: "canon_LINEAR = canon (ascii CHR ''L'') (ascii CHR ''I'') (ascii CHR ''N'')"

definition canon_PIPE_USAGE :: symbol where
  [canon_defs]: "canon_PIPE_USAGE = canon (ascii CHR ''P'') (ascii CHR ''I'') (ascii CHR ''P'')"

definition canon_SURFACE_USAGE :: symbol where
  [canon_defs]: "canon_SURFACE_USAGE = canon (ascii CHR ''S'') (ascii CHR ''R'') (ascii CHR ''F'')"

definition canon_RX_RING_USAGE :: symbol where
  [canon_defs]: "canon_RX_RING_USAGE = canon (ascii CHR ''R'') (ascii CHR ''X'') (ascii CHR ''R'')"

definition canon_HEAD :: symbol where
  [canon_defs]: "canon_HEAD = canon (ascii CHR ''H'') (ascii CHR ''E'') (ascii CHR ''A'')"

definition canon_TAIL :: symbol where
  [canon_defs]: "canon_TAIL = canon (ascii CHR ''T'') (ascii CHR ''A'') (ascii CHR ''I'')"

definition canon_HAS_DATA :: symbol where
  [canon_defs]: "canon_HAS_DATA = canon (ascii CHR ''H'') (ascii CHR ''D'') (ascii CHR ''T'')"

definition canon_CAPACITY :: symbol where
  [canon_defs]: "canon_CAPACITY = canon (ascii CHR ''C'') (ascii CHR ''A'') (ascii CHR ''P'')"

definition canon_CLOUD :: symbol where
  [canon_defs]: "canon_CLOUD = canon (ascii CHR ''C'') (ascii CHR ''L'') (ascii CHR ''D'')"

definition canon_NEXT :: symbol where
  [canon_defs]: "canon_NEXT = cc CHR ''N'' CHR ''X''"

definition canon_LAUNCH_REQUEST :: symbol where
  [canon_defs]: "canon_LAUNCH_REQUEST = canon (ascii CHR ''L'') (ascii CHR ''R'') (ascii CHR ''Q'')"

definition canon_CAN_EDIT :: symbol where
  [canon_defs]: "canon_CAN_EDIT = canon (ascii CHR ''C'') (ascii CHR ''E'') (ascii CHR ''D'')"

definition canon_LAYOUT_TEMPLATE :: symbol where
  [canon_defs]: "canon_LAYOUT_TEMPLATE = canon (ascii CHR ''L'') (ascii CHR ''T'') (ascii CHR ''P'')"

definition canon_LAYOUT_REGION :: symbol where
  [canon_defs]: "canon_LAYOUT_REGION = canon (ascii CHR ''L'') (ascii CHR ''R'') (ascii CHR ''G'')"

definition canon_CONTAINS :: symbol where
  [canon_defs]: "canon_CONTAINS = canon (ascii CHR ''C'') (ascii CHR ''O'') (ascii CHR ''N'')"

definition canon_BINDS_TO :: symbol where
  [canon_defs]: "canon_BINDS_TO = canon (ascii CHR ''B'') (ascii CHR ''N'') (ascii CHR ''T'')"

definition canon_FLEX_DIRECTION :: symbol where
  [canon_defs]: "canon_FLEX_DIRECTION = cc CHR ''F'' CHR ''D''"

definition canon_FLEX_GROW :: symbol where
  [canon_defs]: "canon_FLEX_GROW = cc CHR ''F'' CHR ''G''"

definition canon_FLEX_SHRINK :: symbol where
  [canon_defs]: "canon_FLEX_SHRINK = cc CHR ''F'' CHR ''S''"

definition canon_FOR_DOCUMENT :: symbol where
  [canon_defs]: "canon_FOR_DOCUMENT = canon (ascii CHR ''F'') (ascii CHR ''D'') (ascii CHR ''C'')"

definition canon_HANDLED_BY :: symbol where
  [canon_defs]: "canon_HANDLED_BY = canon (ascii CHR ''H'') (ascii CHR ''D'') (ascii CHR ''B'')"

definition canon_REQUESTS :: symbol where
  [canon_defs]: "canon_REQUESTS = canon (ascii CHR ''R'') (ascii CHR ''Q'') (ascii CHR ''S'')"

definition canon_SAVE_EVENT :: symbol where
  [canon_defs]: "canon_SAVE_EVENT = canon (ascii CHR ''S'') (ascii CHR ''A'') (ascii CHR ''V'')"

definition canon_APPLIES_TO :: symbol where
  [canon_defs]: "canon_APPLIES_TO = canon (ascii CHR ''A'') (ascii CHR ''P'') (ascii CHR ''L'')"

definition canon_ROLE :: symbol where
  [canon_defs]: "canon_ROLE = canon (ascii CHR ''R'') (ascii CHR ''O'') (ascii CHR ''L'')"

definition canon_WIDGET :: symbol where
  [canon_defs]: "canon_WIDGET = canon (ascii CHR ''W'') (ascii CHR ''G'') (ascii CHR ''T'')"

definition canon_WIDGET_KIND :: symbol where
  [canon_defs]: "canon_WIDGET_KIND = canon (ascii CHR ''W'') (ascii CHR ''K'') (ascii CHR ''D'')"

definition canon_ICON_NAME :: symbol where
  [canon_defs]: "canon_ICON_NAME = canon (ascii CHR ''I'') (ascii CHR ''C'') (ascii CHR ''N'')"

definition canon_FOCUSABLE :: symbol where
  [canon_defs]: "canon_FOCUSABLE = canon (ascii CHR ''F'') (ascii CHR ''O'') (ascii CHR ''C'')"

definition canon_BINDS :: symbol where
  [canon_defs]: "canon_BINDS = canon (ascii CHR ''B'') (ascii CHR ''N'') (ascii CHR ''D'')"

definition canon_ABOVE :: symbol where
  [canon_defs]: "canon_ABOVE = canon (ascii CHR ''A'') (ascii CHR ''B'') (ascii CHR ''V'')"

definition canon_ACTIVE_WINDOW :: symbol where
  [canon_defs]: "canon_ACTIVE_WINDOW = canon (ascii CHR ''A'') (ascii CHR ''C'') (ascii CHR ''W'')"

definition canon_SELECTED_INDEX :: symbol where
  [canon_defs]: "canon_SELECTED_INDEX = canon (ascii CHR ''S'') (ascii CHR ''L'') (ascii CHR ''X'')"

definition canon_DOCUMENT :: symbol where
  [canon_defs]: "canon_DOCUMENT = canon (ascii CHR ''D'') (ascii CHR ''O'') (ascii CHR ''C'')"

definition canon_VIEW :: symbol where
  [canon_defs]: "canon_VIEW = canon (ascii CHR ''V'') (ascii CHR ''I'') (ascii CHR ''W'')"

definition canon_WIDGET_ROLE :: symbol where
  [canon_defs]: "canon_WIDGET_ROLE = canon (ascii CHR ''W'') (ascii CHR ''R'') (ascii CHR ''L'')"

definition canon_ACTION :: symbol where
  [canon_defs]: "canon_ACTION = canon (ascii CHR ''A'') (ascii CHR ''C'') (ascii CHR ''N'')"

definition canon_LABEL :: symbol where
  [canon_defs]: "canon_LABEL = canon (ascii CHR ''L'') (ascii CHR ''B'') (ascii CHR ''L'')"

definition canon_DESCRIPTION :: symbol where
  [canon_defs]: "canon_DESCRIPTION = canon (ascii CHR ''D'') (ascii CHR ''S'') (ascii CHR ''C'')"

definition canon_FOCUSED :: symbol where
  [canon_defs]: "canon_FOCUSED = canon (ascii CHR ''F'') (ascii CHR ''C'') (ascii CHR ''D'')"

definition canon_TAB_INDEX :: symbol where
  [canon_defs]: "canon_TAB_INDEX = canon (ascii CHR ''T'') (ascii CHR ''B'') (ascii CHR ''I'')"

definition canon_CHILD :: symbol where
  [canon_defs]: "canon_CHILD = canon (ascii CHR ''C'') (ascii CHR ''H'') (ascii CHR ''D'')"

definition canon_LABEL_FOR :: symbol where
  [canon_defs]: "canon_LABEL_FOR = canon (ascii CHR ''L'') (ascii CHR ''B'') (ascii CHR ''F'')"

definition canon_HAS_CURSOR :: symbol where
  [canon_defs]: "canon_HAS_CURSOR = canon (ascii CHR ''H'') (ascii CHR ''C'') (ascii CHR ''R'')"

definition canon_CONTROLS :: symbol where
  [canon_defs]: "canon_CONTROLS = canon (ascii CHR ''C'') (ascii CHR ''T'') (ascii CHR ''L'')"

definition canon_PAGE_SIZE :: symbol where
  [canon_defs]: "canon_PAGE_SIZE = canon (ascii CHR ''P'') (ascii CHR ''G'') (ascii CHR ''S'')"

definition canon_TOTAL_SIZE :: symbol where
  [canon_defs]: "canon_TOTAL_SIZE = canon (ascii CHR ''T'') (ascii CHR ''T'') (ascii CHR ''S'')"

definition canon_POSITION :: symbol where
  [canon_defs]: "canon_POSITION = canon (ascii CHR ''P'') (ascii CHR ''O'') (ascii CHR ''S'')"

definition canon_ORIENTATION :: symbol where
  [canon_defs]: "canon_ORIENTATION = canon (ascii CHR ''O'') (ascii CHR ''R'') (ascii CHR ''N'')"

definition canon_MIME :: symbol where
  [canon_defs]: "canon_MIME = canon (ascii CHR ''M'') (ascii CHR ''I'') (ascii CHR ''M'')"

definition canon_ENCODING :: symbol where
  [canon_defs]: "canon_ENCODING = canon (ascii CHR ''E'') (ascii CHR ''N'') (ascii CHR ''C'')"

definition canon_LENGTH :: symbol where
  [canon_defs]: "canon_LENGTH = canon (ascii CHR ''L'') (ascii CHR ''E'') (ascii CHR ''N'')"

definition canon_CURRENT_MODE :: symbol where
  [canon_defs]: "canon_CURRENT_MODE = canon (ascii CHR ''C'') (ascii CHR ''M'') (ascii CHR ''D'')"

definition canon_PLACE :: symbol where
  [canon_defs]: "canon_PLACE = canon (ascii CHR ''P'') (ascii CHR ''L'') (ascii CHR ''C'')"

definition canon_PLACE_NAME :: symbol where
  [canon_defs]: "canon_PLACE_NAME = canon (ascii CHR ''P'') (ascii CHR ''N'') (ascii CHR ''M'')"

definition canon_PLACE_PACKAGE :: symbol where
  [canon_defs]: "canon_PLACE_PACKAGE = canon (ascii CHR ''P'') (ascii CHR ''P'') (ascii CHR ''K'')"

definition canon_PLACE_ROOT_KIND :: symbol where
  [canon_defs]: "canon_PLACE_ROOT_KIND = canon (ascii CHR ''P'') (ascii CHR ''R'') (ascii CHR ''K'')"

definition canon_PLACE_FULLSCREEN :: symbol where
  [canon_defs]: "canon_PLACE_FULLSCREEN = canon (ascii CHR ''P'') (ascii CHR ''F'') (ascii CHR ''S'')"

definition canon_MODE_PLACE :: symbol where
  [canon_defs]: "canon_MODE_PLACE = canon (ascii CHR ''M'') (ascii CHR ''D'') (ascii CHR ''P'')"

definition canon_IS_PLACE_ROOT :: symbol where
  [canon_defs]: "canon_IS_PLACE_ROOT = canon (ascii CHR ''I'') (ascii CHR ''P'') (ascii CHR ''R'')"

definition canon_LAUNCHED :: symbol where
  [canon_defs]: "canon_LAUNCHED = canon (ascii CHR ''L'') (ascii CHR ''C'') (ascii CHR ''H'')"

definition canon_WALLPAPER :: symbol where
  [canon_defs]: "canon_WALLPAPER = canon (ascii CHR ''W'') (ascii CHR ''L'') (ascii CHR ''P'')"

definition canon_LAYER :: symbol where
  [canon_defs]: "canon_LAYER = canon (ascii CHR ''L'') (ascii CHR ''Y'') (ascii CHR ''R'')"

definition canon_SOLID_COLOR :: symbol where
  [canon_defs]: "canon_SOLID_COLOR = canon (ascii CHR ''S'') (ascii CHR ''L'') (ascii CHR ''C'')"

definition canon_IMAGE :: symbol where
  [canon_defs]: "canon_IMAGE = canon (ascii CHR ''I'') (ascii CHR ''M'') (ascii CHR ''G'')"

definition canon_SCROLL_X :: symbol where
  [canon_defs]: "canon_SCROLL_X = canon (ascii CHR ''S'') (ascii CHR ''C'') (ascii CHR ''X'')"

definition canon_OPACITY :: symbol where
  [canon_defs]: "canon_OPACITY = canon (ascii CHR ''O'') (ascii CHR ''P'') (ascii CHR ''C'')"

definition canon_Z_ORDER :: symbol where
  [canon_defs]: "canon_Z_ORDER = canon (ascii CHR ''Z'') (ascii CHR ''O'') (ascii CHR ''R'')"

definition canon_TILE_MODE :: symbol where
  [canon_defs]: "canon_TILE_MODE = canon (ascii CHR ''T'') (ascii CHR ''L'') (ascii CHR ''M'')"

definition canon_LAYERS :: symbol where
  [canon_defs]: "canon_LAYERS = canon (ascii CHR ''L'') (ascii CHR ''Y'') (ascii CHR ''S'')"

definition canon_ROOT_LAYOUT :: symbol where
  [canon_defs]: "canon_ROOT_LAYOUT = canon (ascii CHR ''R'') (ascii CHR ''L'') (ascii CHR ''Y'')"

definition canon_INDEX :: symbol where
  [canon_defs]: "canon_INDEX = canon (ascii CHR ''I'') (ascii CHR ''D'') (ascii CHR ''X'')"

definition canon_OF :: symbol where
  [canon_defs]: "canon_OF = cc CHR ''O'' CHR ''F''"

definition canon_SHOWS :: symbol where
  [canon_defs]: "canon_SHOWS = canon (ascii CHR ''S'') (ascii CHR ''H'') (ascii CHR ''W'')"

definition canon_EDITED_BY :: symbol where
  [canon_defs]: "canon_EDITED_BY = canon (ascii CHR ''E'') (ascii CHR ''D'') (ascii CHR ''B'')"

definition canon_EDIT :: symbol where
  [canon_defs]: "canon_EDIT = canon (ascii CHR ''E'') (ascii CHR ''D'') (ascii CHR ''T'')"

definition canon_READ_ONLY :: symbol where
  [canon_defs]: "canon_READ_ONLY = canon (ascii CHR ''R'') (ascii CHR ''D'') (ascii CHR ''O'')"

definition canon_CONTROL :: symbol where
  [canon_defs]: "canon_CONTROL = canon (ascii CHR ''C'') (ascii CHR ''T'') (ascii CHR ''R'')"

definition canon_CONTROL_KIND :: symbol where
  [canon_defs]: "canon_CONTROL_KIND = canon (ascii CHR ''C'') (ascii CHR ''T'') (ascii CHR ''K'')"

definition canon_QUESTION :: symbol where
  [canon_defs]: "canon_QUESTION = canon (ascii CHR ''Q'') (ascii CHR ''U'') (ascii CHR ''E'')"

definition canon_ANSWER :: symbol where
  [canon_defs]: "canon_ANSWER = canon (ascii CHR ''A'') (ascii CHR ''N'') (ascii CHR ''S'')"

definition canon_FORM :: symbol where
  [canon_defs]: "canon_FORM = canon (ascii CHR ''F'') (ascii CHR ''O'') (ascii CHR ''R'')"

definition canon_HAS_ANSWER :: symbol where
  [canon_defs]: "canon_HAS_ANSWER = canon (ascii CHR ''H'') (ascii CHR ''A'') (ascii CHR ''N'')"

definition canon_FORM_CONTAINS :: symbol where
  [canon_defs]: "canon_FORM_CONTAINS = canon (ascii CHR ''F'') (ascii CHR ''C'') (ascii CHR ''N'')"

definition canon_ANSWER_KIND :: symbol where
  [canon_defs]: "canon_ANSWER_KIND = canon (ascii CHR ''A'') (ascii CHR ''K'') (ascii CHR ''D'')"

definition canon_VALUE_BOOL :: symbol where
  [canon_defs]: "canon_VALUE_BOOL = canon (ascii CHR ''V'') (ascii CHR ''B'') (ascii CHR ''L'')"

definition canon_VALUE_TEXT :: symbol where
  [canon_defs]: "canon_VALUE_TEXT = canon (ascii CHR ''V'') (ascii CHR ''T'') (ascii CHR ''X'')"

definition canon_TAG :: symbol where
  [canon_defs]: "canon_TAG = canon (ascii CHR ''T'') (ascii CHR ''A'') (ascii CHR ''G'')"

definition canon_SHOW_TAG :: symbol where
  [canon_defs]: "canon_SHOW_TAG = canon (ascii CHR ''S'') (ascii CHR ''H'') (ascii CHR ''T'')"

definition canon_PREFERRED_WIDGET :: symbol where
  [canon_defs]: "canon_PREFERRED_WIDGET = canon (ascii CHR ''P'') (ascii CHR ''W'') (ascii CHR ''G'')"

definition canon_VALUE_NUMBER :: symbol where
  [canon_defs]: "canon_VALUE_NUMBER = canon (ascii CHR ''V'') (ascii CHR ''N'') (ascii CHR ''M'')"

definition canon_INTERACTION :: symbol where
  [canon_defs]: "canon_INTERACTION = canon (ascii CHR ''I'') (ascii CHR ''T'') (ascii CHR ''N'')"

definition canon_INTERACTION_KIND :: symbol where
  [canon_defs]: "canon_INTERACTION_KIND = canon (ascii CHR ''I'') (ascii CHR ''K'') (ascii CHR ''D'')"

definition canon_USES_WIDGET :: symbol where
  [canon_defs]: "canon_USES_WIDGET = canon (ascii CHR ''U'') (ascii CHR ''W'') (ascii CHR ''D'')"

definition canon_RESULT_WRITES :: symbol where
  [canon_defs]: "canon_RESULT_WRITES = canon (ascii CHR ''R'') (ascii CHR ''S'') (ascii CHR ''W'')"

definition canon_RESULT_EXECUTES :: symbol where
  [canon_defs]: "canon_RESULT_EXECUTES = canon (ascii CHR ''R'') (ascii CHR ''S'') (ascii CHR ''E'')"

definition canon_FOCUSED_INDEX :: symbol where
  [canon_defs]: "canon_FOCUSED_INDEX = canon (ascii CHR ''F'') (ascii CHR ''O'') (ascii CHR ''C'')"

definition canon_THEME :: symbol where
  [canon_defs]: "canon_THEME = canon (ascii CHR ''T'') (ascii CHR ''H'') (ascii CHR ''M'')"

definition canon_WIDGET_KIND_LISTBOX :: symbol where
  [canon_defs]: "canon_WIDGET_KIND_LISTBOX = canon (ascii CHR ''W'') (ascii CHR ''L'') (ascii CHR ''B'')"

definition canon_NOTIFICATION :: symbol where
  [canon_defs]: "canon_NOTIFICATION = canon (ascii CHR ''N'') (ascii CHR ''T'') (ascii CHR ''F'')"

definition canon_ALERT :: symbol where
  [canon_defs]: "canon_ALERT = canon (ascii CHR ''A'') (ascii CHR ''L'') (ascii CHR ''R'')"

definition canon_LEVEL :: symbol where
  [canon_defs]: "canon_LEVEL = canon (ascii CHR ''L'') (ascii CHR ''V'') (ascii CHR ''L'')"

definition canon_MESSAGE :: symbol where
  [canon_defs]: "canon_MESSAGE = canon (ascii CHR ''M'') (ascii CHR ''S'') (ascii CHR ''G'')"

definition canon_DETAILS :: symbol where
  [canon_defs]: "canon_DETAILS = canon (ascii CHR ''D'') (ascii CHR ''T'') (ascii CHR ''L'')"

definition canon_CREATED_AT :: symbol where
  [canon_defs]: "canon_CREATED_AT = canon (ascii CHR ''C'') (ascii CHR ''A'') (ascii CHR ''T'')"

definition canon_ACK :: symbol where
  [canon_defs]: "canon_ACK = canon (ascii CHR ''A'') (ascii CHR ''C'') (ascii CHR ''K'')"

definition canon_SCOPE :: symbol where
  [canon_defs]: "canon_SCOPE = canon (ascii CHR ''S'') (ascii CHR ''C'') (ascii CHR ''P'')"

definition canon_PERSIST :: symbol where
  [canon_defs]: "canon_PERSIST = canon (ascii CHR ''P'') (ascii CHR ''S'') (ascii CHR ''T'')"

definition canon_WIDGET_KIND_NOTIFICATION :: symbol where
  [canon_defs]: "canon_WIDGET_KIND_NOTIFICATION = canon (ascii CHR ''W'') (ascii CHR ''N'') (ascii CHR ''T'')"

definition canon_THING_WIDGET :: symbol where
  [canon_defs]: "canon_THING_WIDGET = canon (ascii CHR ''T'') (ascii CHR ''H'') (ascii CHR ''W'')"

definition canon_STYLE :: symbol where
  [canon_defs]: "canon_STYLE = canon (ascii CHR ''S'') (ascii CHR ''T'') (ascii CHR ''Y'')"

definition canon_DEBUG_LOG :: symbol where
  [canon_defs]: "canon_DEBUG_LOG = canon (ascii CHR ''D'') (ascii CHR ''B'') (ascii CHR ''G'')"

section \<open>From text to symbol\<close>

definition from_str_tbl :: "(symbol \<times> string) list" where
  "from_str_tbl =
    [(canon_JOURNAL, ''journal''),
     (canon_STYLE, ''style''),
     (canon_KEYBOARD, ''keyboard''),
     (canon_KEY_PRESSED, ''key_pressed''),
     (canon_KEY_EVENT, ''key_event''),
     (canon_MOUSE, ''mouse''),
     (canon_MOUSE_MOVED, ''mouse_moved''),
     (canon_MOUSE_MOVE, ''mouse_move''),
     (canon_MOUSE_BUTTON, ''mouse_button''),
     (canon_INPUT_DEVICE_MOUSE, ''input.device.mouse''),
     (canon_INPUT_EVENT, ''input.event''),
     (canon_MOVE, ''move''),
     (canon_DEVICE_ID, ''device_id''),
     (canon_TS, ''ts''),
     (canon_DOWN, ''down''),
     (canon_BUTTON, ''button''),
     (canon_AT, ''at''),
     (canon_INIT, ''init''),
     (canon_FAIL, ''fail''),
     (canon_DRIVER, ''driver''),
     (canon_THING_CREATED, ''thing_created''),
     (canon_EDGE_ADDED, ''edge_added''),
     (canon_ID, ''id''),
     (canon_KIND, ''kind''),
     (canon_FIELDS, ''fields''),
     (canon_REVISION, ''revision''),
     (canon_SRC, ''src''),
     (canon_DST, ''dst''),
     (canon_PREDICATE, ''predicate''),
     (canon_NAME, ''name''),
     (canon_STATUS, ''status''),
     (canon_SCANCODE, ''scancode''),
     (canon_KEY, ''key''),
     (canon_DX, ''dx''),
     (canon_DY, ''dy''),
     (canon_BUTTONS, ''buttons''),
     (canon_WRITE, ''write''),
     (canon_BUNDLE, ''bundle''),
     (canon_OWNER, ''owner''),
     (canon_OWNS, ''owns''),
     (canon_CAN_READ, ''can_read''),
     (canon_CAN_WRITE, ''can_write''),
     (canon_CAN_LINK, ''can_link''),
     (canon_CAN_HANDLE_IRQ, ''can_handle_irq''),
     (canon_CAN_DMA, ''can_dma''),
     (canon_CAN_MMIO, ''can_mmio''),
     (canon_CAN_PORT_IO, ''can_port_io''),
     (canon_TARGET, ''target''),
     (canon_TEXT, ''text''),
     (canon_STDOUT, ''stdout''),
     (canon_ADDR, ''addr''),
     (canon_WIDTH, ''width''),
     (canon_HEIGHT, ''height''),
     (canon_PITCH, ''pitch''),
     (canon_BPP, ''bpp''),
     (canon_COMPOSITOR, ''compositor''),
     (canon_WINDOW, ''window''),
     (canon_PIXMAP, ''pixmap''),
     (canon_STREAMS, ''streams''),
     (canon_COMPOSED_BY, ''composed_by''),
     (canon_WINDOW_CREATED, ''window_created''),
     (canon_WINDOW_BUFFER_UPDATED, ''window_buffer_updated''),
     (canon_FRAME_READY, ''frame_ready''),
     (canon_DRIVER_INPUT, ''driver_input''),
     (canon_DRIVER_DISPLAY, ''driver_display''),
     (canon_DRIVER_STORAGE, ''driver_storage''),
     (canon_DRIVER_TIMER, ''driver_timer''),
     (canon_DRIVER_OTHER, ''driver_other''),
     (canon_DEVICE, ''device''),
     (canon_FRAMEBUFFER_DEVICE, ''device.framebuffer''),
     (canon_KEYBOARD_DEVICE, ''device.keyboard''),
     (canon_MOUSE_DEVICE, ''device.mouse''),
     (canon_NIC_DEVICE, ''device.nic''),
     (canon_IRQ_EVENT, ''irq.event''),
     (canon_DMA_EVENT, ''dma.event''),
     (canon_IRQ_LINE, ''irq_line''),
     (canon_BUFFER, ''buffer''),
     (canon_BYTES, ''bytes''),
     (canon_DONE, ''done''),
     (canon_WINDOW_RECT, ''window_rect''),
     (canon_COLOR, ''color''),
     (canon_VISIBLE, ''visible''),
     (canon_BITMAP, ''bitmap''),
     (canon_DIRTY, ''dirty''),
     (canon_HAS_SURFACE, ''has_surface''),
     (canon_PRESENTS, ''presents''),
     (canon_SURFACE, ''surface''),
     (canon_CURSOR, ''cursor''),
     (canon_SHARED_BUFFER, ''buffer.shared''),
     (canon_QUEUE_STATE, ''queue.state''),
     (canon_BUFFER_KIND, ''buffer.kind''),
     (canon_BUFFER_USAGE, ''buffer.usage''),
     (canon_RING, ''ring''),
     (canon_LINEAR, ''linear''),
     (canon_PIPE_USAGE, ''pipe''),
     (canon_SURFACE_USAGE, ''surface''),
     (canon_RX_RING_USAGE, ''rx_ring''),
     (canon_HEAD, ''head''),
     (canon_TAIL, ''tail''),
     (canon_HAS_DATA, ''has_data''),
     (canon_CAPACITY, ''capacity''),
     (canon_X, ''x''),
     (canon_Y, ''y''),
     (canon_Z, ''z''),
     (canon_APP, ''app''),
     (canon_TYPE, ''type''),
     (canon_VERSION, ''version''),
     (canon_BOOT_ASSET, ''boot.asset''),
     (canon_PUBLIC, ''public''),
     (canon_CLOSE_WINDOW_ACTION, ''action.close_window''),
     (canon_STYLE, ''style'')]"

definition canon_from_str :: "string \<Rightarrow> symbol option" where
  "canon_from_str s =
     (case find (\<lambda>p. snd p = s) from_str_tbl of
        Some p \<Rightarrow> Some (fst p)
      | None \<Rightarrow>
          if length s = 3
          then (let b = as_bytes s in Some (canon (b ! 0) (b ! 1) (b ! 2)))
          else None)"

section \<open>From symbol to text\<close>

definition symbol_tbl :: "(symbol \<times> string) list" where
  "symbol_tbl =
    [(canon_JOURNAL, ''journal''),
     (canon_KEYBOARD, ''keyboard''),
     (canon_KEY_PRESSED, ''key_pressed''),
     (canon_KEY_EVENT, ''key_event''),
     (canon_MOUSE, ''mouse''),
     (canon_MOUSE_MOVED, ''mouse_moved''),
     (canon_MOUSE_MOVE, ''mouse_move''),
     (canon_MOUSE_BUTTON, ''mouse_button''),
     (canon_INPUT_DEVICE_MOUSE, ''input.device.mouse''),
     (canon_INPUT_EVENT, ''input.event''),
     (canon_MOVE, ''move''),
     (canon_DEVICE_ID, ''device_id''),
     (canon_TS, ''ts''),
     (canon_DOWN, ''down''),
     (canon_BUTTON, ''button''),
     (canon_AT, ''at''),
     (canon_INIT, ''init''),
     (canon_FAIL, ''fail''),
     (canon_DRIVER, ''driver''),
     (canon_THING_CREATED, ''thing_created''),
     (canon_EDGE_ADDED, ''edge_added''),
     (canon_ID, ''id''),
     (canon_KIND, ''kind''),
     (canon_FIELDS, ''fields''),
     (canon_REVISION, ''revision''),
     (canon_SRC, ''src''),
     (canon_DST, ''dst''),
     (canon_PREDICATE, ''predicate''),
     (canon_NAME, ''name''),
     (canon_STATUS, ''status''),
     (canon_SCANCODE, ''scancode''),
     (canon_KEY, ''key''),
     (canon_DX, ''dx''),
     (canon_DY, ''dy''),
     (canon_BUTTONS, ''buttons''),
     (canon_WRITE, ''write''),
     (canon_BUNDLE, ''bundle''),
     (canon_OWNER, ''owner''),
     (canon_OWNS, ''owns''),
     (canon_CAN_READ, ''can_read''),
     (canon_CAN_WRITE, ''can_write''),
     (canon_CAN_LINK, ''can_link''),
     (canon_CAN_HANDLE_IRQ, ''can_handle_irq''),
     (canon_CAN_DMA, ''can_dma''),
     (canon_CAN_MMIO, ''can_mmio''),
     (canon_CAN_PORT_IO, ''can_port_io''),
     (canon_TARGET, ''target''),
     (canon_TEXT, ''text''),
     (canon_STDOUT, ''stdout''),
     (canon_ADDR, ''addr''),
     (canon_WIDTH, ''width''),
     (canon_HEIGHT, ''height''),
     (canon_PITCH, ''pitch''),
     (canon_BPP, ''bpp''),
     (canon_COMPOSITOR, ''compositor''),
     (canon_WINDOW, ''window''),
     (canon_PIXMAP, ''pixmap''),
     (canon_STREAMS, ''streams''),
     (canon_COMPOSED_BY, ''composed_by''),
     (canon_WINDOW_CREATED, ''window_created''),
     (canon_WINDOW_BUFFER_UPDATED, ''window_buffer_updated''),
     (canon_FRAME_READY, ''frame_ready''),
     (canon_DRIVER_INPUT, ''driver_input''),
     (canon_DRIVER_DISPLAY, ''driver_display''),
     (canon_DRIVER_STORAGE, ''driver_storage''),
     (canon_DRIVER_TIMER, ''driver_timer''),
     (canon_DRIVER_OTHER, ''driver_other''),
     (canon_DEVICE, ''device''),
     (canon_FRAMEBUFFER_DEVICE, ''device.framebuffer''),
     (canon_KEYBOARD_DEVICE, ''device.keyboard''),
     (canon_MOUSE_DEVICE, ''device.mouse''),
     (canon_NIC_DEVICE, ''device.nic''),
     (canon_IRQ_EVENT, ''irq.event''),
     (canon_DMA_EVENT, ''dma.event''),
     (canon_IRQ_LINE, ''irq_line''),
     (canon_BUFFER, ''buffer''),
     (canon_BYTES, ''bytes''),
     (canon_DONE, ''done''),
     (canon_WINDOW_RECT, ''window_rect''),
     (canon_COLOR, ''color''),
     (canon_VISIBLE, ''visible''),
     (canon_BITMAP, ''bitmap''),
     (canon_DIRTY, ''dirty''),
     (canon_HAS_SURFACE, ''has_surface''),
     (canon_PRESENTS, ''presents''),
     (canon_SURFACE, ''surface''),
     (canon_CURSOR, ''cursor''),
     (canon_SHARED_BUFFER, ''buffer.shared''),
     (canon_QUEUE_STATE, ''queue.state''),
     (canon_BUFFER_KIND, ''buffer.kind''),
     (canon_BUFFER_USAGE, ''buffer.usage''),
     (canon_RING, ''ring''),
     (canon_LINEAR, ''linear''),
     (canon_PIPE_USAGE, ''pipe''),
     (canon_SURFACE_USAGE, ''surface''),
     (canon_RX_RING_USAGE, ''rx_ring''),
     (canon_HEAD, ''head''),
     (canon_TAIL, ''tail''),
     (canon_HAS_DATA, ''has_data''),
     (canon_CAPACITY, ''capacity''),
     (canon_X, ''x''),
     (canon_Y, ''y''),
     (canon_Z, ''z''),
     (canon_APP, ''app''),
     (canon_TYPE, ''type''),
     (canon_VERSION, ''version''),
     (canon_PUBLIC, ''public''),
     (canon_CLOSE_WINDOW_ACTION, ''action.close_window''),
     (canon_STYLE, ''style'')]"

definition symbol_to_string :: "symbol \<Rightarrow> string" where
  "symbol_to_string sy =
     (case find (\<lambda>p. fst p = sy) symbol_tbl of
        Some p \<Rightarrow> to_ascii_uppercase (snd p)
      | None \<Rightarrow>
          (case from_utf8 (symbol_bytes sy) of
             Some s \<Rightarrow>
               if list_all (\<lambda>c. is_ascii_alphanumeric c \<or> c = CHR ''_'') s
               then to_ascii_uppercase s
               else ''SYM_'' @ show_nat (unat (raw sy))
           | None \<Rightarrow> ''SYM_'' @ show_nat (unat (raw sy))))"

section \<open>Codes and their bytes\<close>

lemma symbol_bytes_canon: "symbol_bytes (canon a b c) = filter (\<lambda>x. x \<noteq> 0) [a, b, c]"
proof -
  let ?v = "push_bit 16 (ucast a) OR push_bit 8 (ucast b) OR ucast c :: u32"
  have m: "(0xFF :: u32) = mask 8" by (simp add: mask_eq_exp_minus_1)
  have "ucast (drop_bit 16 ?v AND 0xFF) = a"
    unfolding m by (rule bit_word_eqI) (auto simp: bit_simps dest: bit_imp_le_length)
  moreover have "ucast (drop_bit 8 ?v AND 0xFF) = b"
    unfolding m by (rule bit_word_eqI) (auto simp: bit_simps dest: bit_imp_le_length)
  moreover have "ucast (?v AND 0xFF) = c"
    unfolding m by (rule bit_word_eqI) (auto simp: bit_simps dest: bit_imp_le_length)
  ultimately show ?thesis
    unfolding symbol_bytes_def canon_def Let_def symbol.sel by (simp only:)
qed

lemma from_bytes_as_bytes [simp]: "from_bytes (as_bytes s) = s"
proof -
  have "char_of (unat (ascii c)) = c" for c
  proof -
    have "unat (of_char c :: u8) = of_char c"
      by (simp add: of_char_def unat_of_nat take_bit_nat_eq_self)
    then show ?thesis by simp
  qed
  then show ?thesis by (simp add: from_bytes_def as_bytes_def comp_def)
qed

section \<open>Reserved predicates\<close>

text \<open>The predicates the store decides authority with.\<close>

definition reserved_preds :: "(symbol \<times> string) list" where
  "reserved_preds =
     [(canon_OWNS, ''OWNS''), (canon_CAN_READ, ''CAN_READ''), (canon_CAN_WRITE, ''CAN_WRITE''),
      (canon_CAN_LINK, ''CAN_LINK''), (canon_CAN_HANDLE_IRQ, ''CAN_HANDLE_IRQ''),
      (canon_CAN_DMA, ''CAN_DMA''), (canon_CAN_MMIO, ''CAN_MMIO''),
      (canon_CAN_PORT_IO, ''CAN_PORT_IO'')]"

lemma reserved_preds_in_tbl:
  "list_all (\<lambda>p. symbol_to_string (fst p) = snd p) reserved_preds"
  by code_simp

lemma symbol_tbl_reserved:
  "list_all (\<lambda>p. list_all (\<lambda>q. to_ascii_uppercase (snd q) = snd p \<longrightarrow> fst q = fst p) symbol_tbl)
     reserved_preds"
  by (simp add: symbol_tbl_def reserved_preds_def to_ascii_uppercase_def upper_char_code is_lower_code)

lemma reserved_preds_shape:
  "list_all (\<lambda>p. 3 < length (snd p) \<and> take 4 (snd p) \<noteq> ''SYM_'') reserved_preds"
  by code_simp

lemma length_symbol_bytes: "length (symbol_bytes s) \<le> 3"
  unfolding symbol_bytes_def Let_def by (rule order_trans [OF length_filter_le]) simp

lemma symbol_to_string_fallback:
  assumes "find (\<lambda>p. fst p = s) symbol_tbl = None"
  shows "length (symbol_to_string s) \<le> 3 \<or> take 4 (symbol_to_string s) = ''SYM_''"
  using length_symbol_bytes [of s] assms
  by (auto simp: symbol_to_string_def from_utf8_def from_bytes_def to_ascii_uppercase_def)

lemma symbol_to_string_reserved:
  assumes r: "(p, n) \<in> set reserved_preds"
  shows "symbol_to_string s = n \<longleftrightarrow> s = p"
proof
  assume "s = p"
  then show "symbol_to_string s = n"
    using r reserved_preds_in_tbl by (auto simp: list_all_iff)
next
  assume n: "symbol_to_string s = n"
  show "s = p"
  proof (cases "find (\<lambda>q. fst q = s) symbol_tbl")
    case None
    have "3 < length n \<and> take 4 n \<noteq> ''SYM_''"
      using r reserved_preds_shape by (auto simp: list_all_iff)
    with symbol_to_string_fallback [OF None] n show ?thesis by auto
  next
    case (Some q)
    then have q: "q \<in> set symbol_tbl" "fst q = s" by (auto simp: find_Some_iff)
    from Some n have "to_ascii_uppercase (snd q) = n" by (simp add: symbol_to_string_def)
    then have "fst q = p"
      using q(1) r symbol_tbl_reserved by (fastforce simp: list_all_iff)
    with q(2) show ?thesis by simp
  qed
qed

text \<open>Evaluated instances, for the authority lemmas of the store.\<close>

lemma reserved_pred_names [simp]:
  "symbol_to_string canon_OWNS = ''OWNS''"
  "symbol_to_string canon_CAN_READ = ''CAN_READ''"
  "symbol_to_string canon_CAN_WRITE = ''CAN_WRITE''"
  "symbol_to_string canon_CAN_LINK = ''CAN_LINK''"
  "symbol_to_string canon_CAN_HANDLE_IRQ = ''CAN_HANDLE_IRQ''"
  "symbol_to_string canon_CAN_DMA = ''CAN_DMA''"
  "symbol_to_string canon_CAN_MMIO = ''CAN_MMIO''"
  "symbol_to_string canon_CAN_PORT_IO = ''CAN_PORT_IO''"
  using reserved_preds_in_tbl by (simp_all add: reserved_preds_def)

section \<open>Round trips\<close>

text \<open>
  Two names occur twice in the table: \<open>style\<close> (twice for the same symbol) and
  \<open>surface\<close> (for \<open>SURFACE\<close> and for \<open>SURFACE_USAGE\<close>); all others are distinct.
\<close>

lemma from_str_tbl_distinct:
  "distinct (filter (\<lambda>n. n \<noteq> ''style'' \<and> n \<noteq> ''surface'') (map snd from_str_tbl))"
  by (simp add: from_str_tbl_def)

lemma from_str_tbl_doubles:
  "list_all (\<lambda>p. (snd p = ''style'' \<longrightarrow> fst p = canon_STYLE) \<and>
                  (snd p = ''surface'' \<longrightarrow> fst p = canon_SURFACE_USAGE \<or> fst p = canon_SURFACE))
     from_str_tbl"
  by (simp add: from_str_tbl_def)

lemma canon_from_str_doubles:
  "canon_from_str ''surface'' = Some canon_SURFACE" "canon_from_str ''style'' = Some canon_STYLE"
  by code_simp+

lemma distinct_filter_map_unique:
  assumes "distinct (filter P (map f xs))" "p \<in> set xs" "q \<in> set xs" "f p = f q" "P (f p)"
  shows "p = q"
proof -
  have "filter P (map f xs) = map f (filter (P \<circ> f) xs)" by (simp add: filter_map)
  with assms(1) have "inj_on f (set (filter (P \<circ> f) xs))" by (simp add: distinct_map)
  then show ?thesis using assms(2-5) by (auto dest: inj_onD)
qed

lemma canon_from_str_name:
  assumes p: "(y, n) \<in> set from_str_tbl" and y: "y \<noteq> canon_SURFACE_USAGE"
  shows "canon_from_str n = Some y"
proof (cases "n = ''surface'' \<or> n = ''style''")
  case True
  then show ?thesis
    using p y from_str_tbl_doubles canon_from_str_doubles by (auto simp: list_all_iff)
next
  case False
  have "find (\<lambda>p. snd p = n) from_str_tbl \<noteq> None" using p by (auto simp: find_None_iff)
  then obtain q where q: "find (\<lambda>p. snd p = n) from_str_tbl = Some q" by blast
  then have "q \<in> set from_str_tbl" "snd q = n" by (auto simp: find_Some_iff)
  with p False have "q = (y, n)"
    by (intro distinct_filter_map_unique [OF from_str_tbl_distinct]) auto
  with q show ?thesis by (simp add: canon_from_str_def)
qed

lemma canon_from_str_code:
  assumes "length t = 3" and "t \<notin> snd ` set from_str_tbl"
  shows "canon_from_str t = Some (canon (ascii (t ! 0)) (ascii (t ! 1)) (ascii (t ! 2)))"
proof -
  have "find (\<lambda>p. snd p = t) from_str_tbl = None"
    using assms(2) by (force simp: find_None_iff)
  then show ?thesis using assms(1) by (simp add: canon_from_str_def as_bytes_def)
qed

lemma list3: "length t = 3 \<Longrightarrow> t = [t ! 0, t ! 1, t ! 2]"
  by (auto simp: numeral_3_eq_3 length_Suc_conv)

end
