(* ===== verification/Clock.thy ===== *)
theory Clock
  imports Prelude
begin

text \<open>
  The kernel clock (\<open>src/kernel/src/clock.rs\<close>): HPET ticks since boot, the RTC reader and its
  BCD decoding, and the estimate of the current time. Hardware registers are arguments: a read
  at step \<open>t\<close> of the HPET counter is \<open>hpet t\<close>, of RTC register \<open>r\<close> is \<open>rtc t r\<close>.
\<close>

section \<open>State\<close>

record moment =
  second :: u8
  minute :: u8
  hour :: u8
  day :: u8
  month :: u8
  year :: u16

record clock =
  start_ticks :: u64
  period_fs :: u64
  boot_time :: moment

section \<open>RTC\<close>

definition bcd_to_bin :: "u8 \<Rightarrow> u8" where
  "bcd_to_bin val = ((val div 16) * 10) + (val AND 0x0F)"

type_synonym rtc_regs = "nat \<Rightarrow> u8 \<Rightarrow> u8"

text \<open>The busy-wait on the update-in-progress bit; \<open>None\<close> when the bit never clears.\<close>

partial_function (option) rtc_wait :: "rtc_regs \<Rightarrow> nat \<Rightarrow> nat option" where
  "rtc_wait rtc t = (if rtc t 0x0A AND 0x80 \<noteq> 0 then rtc_wait rtc (Suc t) else Some (Suc t))"

definition read_time :: "rtc_regs \<Rightarrow> nat \<Rightarrow> moment option" where
  "read_time rtc t0 =
     (case rtc_wait rtc t0 of
        None \<Rightarrow> None
      | Some t \<Rightarrow>
          let bcd = (rtc t 0x0B AND 0x04 = 0);
              s = rtc (t + 1) 0x00; mi = rtc (t + 2) 0x02; h = rtc (t + 3) 0x04;
              d = rtc (t + 4) 0x07; mo = rtc (t + 5) 0x08; y = rtc (t + 6) 0x09
          in Some
            \<lparr>second = (if bcd then bcd_to_bin s else s),
             minute = (if bcd then bcd_to_bin mi else mi),
             hour = (if bcd then bcd_to_bin h else h),
             day = (if bcd then bcd_to_bin d else d),
             month = (if bcd then bcd_to_bin mo else mo),
             year = (if bcd then 2000 + ucast (bcd_to_bin y) else 2000 + ucast y)\<rparr>)"

section \<open>Elapsed time\<close>

definition ticks_since_boot :: "u64 \<Rightarrow> clock \<Rightarrow> u64" where
  "ticks_since_boot hpet_now c = saturating_sub hpet_now (start_ticks c)"

definition clock_new :: "u64 \<Rightarrow> u64 \<Rightarrow> moment \<Rightarrow> clock" where
  "clock_new caps hpet_now rtc_now =
     \<lparr>start_ticks = hpet_now, period_fs = drop_bit 32 caps AND 0xFFFFFFFF, boot_time = rtc_now\<rparr>"

text \<open>The multiplication is a plain \<open>u64\<close> product; with overflow checks it panics.\<close>

definition nanos_since_boot :: "u64 \<Rightarrow> clock \<Rightarrow> u64 panics" where
  "nanos_since_boot hpet_now c =
     (let ticks = ticks_since_boot hpet_now c
      in if unat ticks * unat (period_fs c) < 2 ^ 64
         then Inr ((ticks * period_fs c) div 1000000)
         else Inl ''attempt to multiply with overflow'')"

definition current_time :: "u64 \<Rightarrow> clock \<Rightarrow> moment panics" where
  "current_time hpet_now c =
     (case nanos_since_boot hpet_now c of
        Inl e \<Rightarrow> Inl e
      | Inr ns \<Rightarrow>
          let now = boot_time c; elapsed = ns div 1000000000
          in Inr (now\<lparr>second := saturating_add (second now) (ucast elapsed)\<rparr>))"

definition booted_at :: "clock \<Rightarrow> moment" where
  "booted_at c = boot_time c"

section \<open>Facts\<close>

lemma ticks_since_boot_mono:
  "a \<le> b \<Longrightarrow> ticks_since_boot a c \<le> ticks_since_boot b c"
  by (auto simp: ticks_since_boot_def saturating_sub_def word_le_nat_alt word_less_nat_alt unat_sub
      split: if_splits)

lemma ticks_since_boot_exact:
  "start_ticks c \<le> h \<Longrightarrow> unat (ticks_since_boot h c) = unat h - unat (start_ticks c)"
  by (simp add: ticks_since_boot_def saturating_sub_def unat_sub not_less)

text \<open>Two decimal digits packed as BCD decode to their value.\<close>

lemma bcd_all:
  "\<forall>t \<in> set [0..<10]. \<forall>u \<in> set [0..<10].
     bcd_to_bin (of_nat (16 * t + u)) = of_nat (10 * t + u)"
  unfolding bcd_to_bin_def by code_simp

lemma rtc_wait_returns:
  assumes "rtc (t + n) 0x0A AND 0x80 = 0"
  shows "\<exists>m \<le> n. rtc_wait rtc t = Some (Suc (t + m)) \<and> rtc (t + m) 0x0A AND 0x80 = 0"
  using assms
proof (induction n arbitrary: t)
  case 0
  then show ?case by (simp add: rtc_wait.simps)
next
  case (Suc n)
  show ?case
  proof (cases "rtc t 0x0A AND 0x80 = 0")
    case True
    then show ?thesis by (intro exI [of _ 0]) (simp add: rtc_wait.simps)
  next
    case False
    from Suc.prems have "rtc (Suc t + n) 0x0A AND 0x80 = 0" by simp
    from Suc.IH [OF this] obtain m where m: "m \<le> n" "rtc_wait rtc (Suc t) = Some (Suc (Suc t + m))"
      "rtc (Suc t + m) 0x0A AND 0x80 = 0" by blast
    with False show ?thesis
      by (intro exI [of _ "Suc m"]) (simp add: rtc_wait.simps [of rtc t])
  qed
qed

end
