(* ===== verification/Journal.thy ===== *)
theory Journal
  imports Canon Clock
begin

text \<open>
  The kernel journal (\<open>src/kernel/src/graph/journal.rs\<close>): a bounded in-memory log of events,
  created on first use with a fixed capacity, that evicts its oldest entry when full. The code
  that lies outside the repository (the uuid and postcard crates, the hardware counter) enters
  through the record \<open>ext\<close>.
\<close>

section \<open>External code\<close>

text \<open>
  \<open>new_v5\<close> is \<open>Uuid::new_v5\<close> (namespace and name bytes), \<open>postcard_map\<close> is
  \<open>postcard::to_allocvec\<close> on a map of values, \<open>postcard_events\<close> and
  \<open>postcard_read_events\<close> encode and decode a journal; \<open>hpet_now\<close> is the value the
  counter register holds, and \<open>clock_ref\<close> the global \<open>CLOCK\<close>.
\<close>

record ext =
  new_v5 :: "uuid \<Rightarrow> u8 list \<Rightarrow> uuid"
  postcard_map :: "gmap \<Rightarrow> u8 list option"
  postcard_events :: "event list \<Rightarrow> u8 list option"
  postcard_read_events :: "u8 list \<Rightarrow> string + event list"
  hpet_now :: u64
  clock_ref :: "clock option"

text \<open>\<open>Uuid::NAMESPACE_OID\<close>, a constant of the uuid crate (RFC 4122, appendix C).\<close>

definition NAMESPACE_OID :: uuid where
  "NAMESPACE_OID = 0x6ba7b8129dad11d180b400c04fd430c8"

section \<open>The journal\<close>

definition JOURNAL_CAPACITY :: nat where
  "JOURNAL_CAPACITY = 1024"

record journal =
  j_entries :: "event list"
  j_capacity :: nat

definition journal_new :: "nat \<Rightarrow> journal" where
  "journal_new capacity = \<lparr>j_entries = [], j_capacity = capacity\<rparr>"

text \<open>
  \<open>entries.remove(0)\<close> is the tail; on an empty vector it would panic, which
  \<open>journal_ok\<close> below excludes (the capacity is never zero).
\<close>

definition journal_emit :: "event \<Rightarrow> journal \<Rightarrow> journal" where
  "journal_emit e j =
     (let es = (if length (j_entries j) \<ge> j_capacity j then tl (j_entries j) else j_entries j)
      in j\<lparr>j_entries := es @ [e]\<rparr>)"

text \<open>\<open>static JOURNAL: Mutex<Option<Journal>>\<close> and its accessor.\<close>

definition with_journal :: "(journal \<Rightarrow> 'r \<times> journal) \<Rightarrow> journal option \<Rightarrow> 'r \<times> journal option" where
  "with_journal f jo =
     (let j = (case jo of None \<Rightarrow> journal_new JOURNAL_CAPACITY | Some j \<Rightarrow> j);
          (r, j') = f j
      in (r, Some j'))"

definition journal_init :: "journal option \<Rightarrow> journal option" where
  "journal_init jo = snd (with_journal (\<lambda>j. ((), j\<lparr>j_entries := []\<rparr>)) jo)"

definition emit :: "event \<Rightarrow> journal option \<Rightarrow> bool \<times> journal option" where
  "emit e jo = (True, snd (with_journal (\<lambda>j. ((), journal_emit e j)) jo))"

definition timestamp_now :: "ext \<Rightarrow> u64" where
  "timestamp_now x =
     (case clock_ref x of Some clk \<Rightarrow> ticks_since_boot (hpet_now x) clk | None \<Rightarrow> 0)"

definition emit_data :: "ext \<Rightarrow> symbol \<Rightarrow> gvalue \<Rightarrow> journal option \<Rightarrow> bool \<times> journal option" where
  "emit_data x kind data =
     emit \<lparr>ev_timestamp = timestamp_now x, ev_kind = kind, ev_data = data\<rparr>"

definition journal_snapshot :: "journal option \<Rightarrow> event list \<times> journal option" where
  "journal_snapshot = with_journal (\<lambda>j. (j_entries j, j))"

text \<open>The visitor of \<open>replay\<close> is a state transformer applied to each entry in order.\<close>

definition replay :: "(event \<Rightarrow> 's \<Rightarrow> 's) \<Rightarrow> 's \<Rightarrow> journal option \<Rightarrow> 's \<times> journal option" where
  "replay f s jo = (let (es, jo') = journal_snapshot jo in (fold f es s, jo'))"

definition export_bytes :: "ext \<Rightarrow> journal option \<Rightarrow> u8 list option \<times> journal option" where
  "export_bytes x jo = (let (es, jo') = journal_snapshot jo in (postcard_events x es, jo'))"

definition import_bytes :: "ext \<Rightarrow> u8 list \<Rightarrow> journal option \<Rightarrow> (string + unit) \<times> journal option" where
  "import_bytes x buf jo =
     (case postcard_read_events x buf of
        Inl e \<Rightarrow> (Inl e, jo)
      | Inr events \<Rightarrow> (Inr (), fold (\<lambda>e j. snd (emit e j)) events jo))"

section \<open>Invariant and contract\<close>

definition journal_ok :: "journal option \<Rightarrow> bool" where
  "journal_ok jo \<longleftrightarrow>
     (case jo of
        None \<Rightarrow> True
      | Some j \<Rightarrow> j_capacity j = JOURNAL_CAPACITY \<and> length (j_entries j) \<le> JOURNAL_CAPACITY)"

definition journal_log :: "journal option \<Rightarrow> event list" where
  "journal_log jo = (case jo of None \<Rightarrow> [] | Some j \<Rightarrow> j_entries j)"

lemmas journal_defs =
  emit_def with_journal_def journal_emit_def journal_new_def journal_log_def journal_ok_def

lemma journal_capacity_pos [simp]: "0 < JOURNAL_CAPACITY"
  by (simp add: JOURNAL_CAPACITY_def)

lemma one_minus_capacity [simp]: "Suc 0 - JOURNAL_CAPACITY = 0"
  by (simp add: JOURNAL_CAPACITY_def)

lemma journal_log_emit:
  assumes "journal_ok jo"
  shows "journal_log (snd (emit e jo)) = keep_last JOURNAL_CAPACITY (journal_log jo @ [e])"
  using assms
  by (auto simp: journal_defs keep_last_def Let_def drop_Suc Suc_diff_le split: option.splits
      dest!: le_antisym)

lemma journal_ok_emit: "journal_ok jo \<Longrightarrow> journal_ok (snd (emit e jo))"
  by (auto simp: journal_defs Let_def JOURNAL_CAPACITY_def split: option.splits)

interpretation jl: bounded_log "\<lambda>e j. snd (emit e j)" journal_log JOURNAL_CAPACITY journal_ok
proof unfold_locales
  show "journal_ok q \<Longrightarrow> journal_log (snd (emit x q)) = keep_last JOURNAL_CAPACITY (journal_log q @ [x])"
    for q x by (rule journal_log_emit)
  show "journal_ok q \<Longrightarrow> journal_ok (snd (emit x q))" for q x by (rule journal_ok_emit)
  show "journal_ok q \<Longrightarrow> length (journal_log q) \<le> JOURNAL_CAPACITY" for q
    by (auto simp: journal_ok_def journal_log_def split: option.splits)
qed

lemma journal_ok_emit_data [simp, intro]: "journal_ok jo \<Longrightarrow> journal_ok (snd (emit_data x k d jo))"
  by (simp add: emit_data_def journal_ok_emit)

lemma journal_snapshot_log: "fst (journal_snapshot jo) = journal_log jo"
  by (simp add: journal_snapshot_def with_journal_def journal_log_def journal_new_def split: option.splits)

lemma journal_snapshot_keeps: "journal_log (snd (journal_snapshot jo)) = journal_log jo"
  by (simp add: journal_snapshot_def with_journal_def journal_log_def journal_new_def split: option.splits)

lemma journal_snapshot_ok: "journal_ok jo \<Longrightarrow> journal_ok (snd (journal_snapshot jo))"
  by (auto simp: journal_snapshot_def with_journal_def journal_ok_def journal_new_def split: option.splits)

end
