(* ===== verification/Store.thy ===== *)
theory Store
  imports Journal
begin

text \<open>
  The kernel graph store (\<open>src/kernel/src/graph/store.rs\<close>, with \<open>types.rs\<close> and
  \<open>events.rs\<close>): versioned things, an append-only edge log with its index, the kind index,
  watches with bounded queues, and the authority checks (ownership and capability edges) in
  front of every operation. Operations that also write the journal take and return the pair of
  the store and the journal.
\<close>

section \<open>State\<close>

definition MAX_WATCH_QUEUE :: nat where
  "MAX_WATCH_QUEUE = 1024"

record watch =
  watch_wid :: watch_id
  watch_owner :: bundle_id
  watch_pattern :: node_pattern
  watch_queue :: "graph_change list"

record store =
  next_revision :: u64
  things :: "(uuid, graph_thing list) btree"
  edges :: "graph_edge list"
  kind_index :: "(symbol, uuid list) btree"
  edges_by_src_pred :: "(uuid \<times> string, graph_edge list) btree"
  watches :: "(watch_id, watch) btree"
  next_watch_id :: watch_id

definition store_new :: store where
  "store_new =
     \<lparr>next_revision = 1, things = [], edges = [], kind_index = [], edges_by_src_pred = [],
      watches = [], next_watch_id = 1\<rparr>"

section \<open>Reading\<close>

definition latest :: "store \<Rightarrow> uuid \<Rightarrow> graph_thing option" where
  "latest s i = (case bt_get (things s) i of None \<Rightarrow> None | Some versions \<Rightarrow> last_opt versions)"

definition latest_of_kind :: "store \<Rightarrow> symbol \<Rightarrow> graph_thing list" where
  "latest_of_kind s kind =
     (case bt_get (kind_index s) kind of
        None \<Rightarrow> []
      | Some ids \<Rightarrow> List.map_filter (latest s) ids)"

definition edges_of :: "store \<Rightarrow> uuid \<Rightarrow> string \<Rightarrow> graph_edge list" where
  "edges_of s src pred =
     (case bt_get (edges_by_src_pred s) (src, pred) of None \<Rightarrow> [] | Some es \<Rightarrow> es)"

definition edge_between :: "store \<Rightarrow> uuid \<Rightarrow> string \<Rightarrow> uuid \<Rightarrow> graph_edge option" where
  "edge_between s src pred dst =
     (case bt_get (edges_by_src_pred s) (src, pred) of
        None \<Rightarrow> None
      | Some es \<Rightarrow> find (\<lambda>e. edge_dst e = dst) (rev es))"

definition changes_since :: "store \<Rightarrow> u64 \<Rightarrow> graph_watch_batch" where
  "changes_since s revision =
     \<lparr>from_revision = revision, latest_revision = saturating_sub (next_revision s) 1,
      batch_changes = []\<rparr>"

section \<open>Authority\<close>

definition bundle_node_id :: "bundle_id \<Rightarrow> uuid" where
  "bundle_node_id b = bundle_uuid b"

definition owns :: "store \<Rightarrow> bundle_id \<Rightarrow> uuid \<Rightarrow> bool" where
  "owns s b node =
     (case bt_get (edges_by_src_pred s) (bundle_node_id b, symbol_to_string canon_OWNS) of
        None \<Rightarrow> False
      | Some es \<Rightarrow> list_ex (\<lambda>e. edge_dst e = node) es)"

definition is_data_capability :: "string \<Rightarrow> bool" where
  "is_data_capability c \<longleftrightarrow> c = ''CAN_READ'' \<or> c = ''CAN_WRITE'' \<or> c = ''CAN_LINK''"

definition is_hardware_capability :: "string \<Rightarrow> bool" where
  "is_hardware_capability c \<longleftrightarrow>
     c = ''CAN_HANDLE_IRQ'' \<or> c = ''CAN_DMA'' \<or> c = ''CAN_MMIO'' \<or> c = ''CAN_PORT_IO''"

definition has_capability :: "store \<Rightarrow> bundle_id \<Rightarrow> uuid \<Rightarrow> symbol \<Rightarrow> bool" where
  "has_capability s b target predicate =
     (case bt_get (edges_by_src_pred s) (bundle_node_id b, symbol_to_string predicate) of
        None \<Rightarrow> False
      | Some es \<Rightarrow> list_ex (\<lambda>e. edge_dst e = target) es)"

definition can_write :: "store \<Rightarrow> bundle_id \<Rightarrow> uuid \<Rightarrow> bool" where
  "can_write s b node \<longleftrightarrow>
     b = KERNEL_BUNDLE_ID \<or> owns s b node \<or> has_capability s b node canon_CAN_WRITE"

definition can_read :: "store \<Rightarrow> bundle_id \<Rightarrow> uuid \<Rightarrow> bool" where
  "can_read s b node \<longleftrightarrow>
     b = KERNEL_BUNDLE_ID \<or> owns s b node \<or> has_capability s b node canon_CAN_READ \<or>
     can_write s b node"

definition can_link :: "store \<Rightarrow> bundle_id \<Rightarrow> uuid \<Rightarrow> uuid \<Rightarrow> string \<Rightarrow> bool" where
  "can_link s b from to kind =
     (if b = KERNEL_BUNDLE_ID \<or> owns s b from \<or> owns s b to then True
      else case bt_get (edges_by_src_pred s) (bundle_node_id b, symbol_to_string canon_CAN_LINK) of
        None \<Rightarrow> False
      | Some es \<Rightarrow>
          list_ex (\<lambda>e. (edge_dst e = from \<or> edge_dst e = to) \<and>
                       (case bt_get (edge_props e) canon_KIND of
                          Some (VSymbol cap_kind) \<Rightarrow> symbol_to_string cap_kind = kind
                        | _ \<Rightarrow> True)) es)"

definition change_visible_to :: "store \<Rightarrow> bundle_id \<Rightarrow> graph_change \<Rightarrow> bool" where
  "change_visible_to s b change =
     (case change of
        CThing t \<Rightarrow>
          if canon_PUBLIC \<in> set (thing_labels t) then True
          else if thing_kind t = canon_KEY_EVENT \<or> thing_kind t = canon_KEY_PRESSED \<or>
                  thing_kind t = canon_MOUSE_MOVE \<or> thing_kind t = canon_MOUSE_BUTTON \<or>
                  thing_kind t = canon_INPUT_EVENT then True
          else can_read s b (thing_id t)
      | CEdge e \<Rightarrow>
          can_read s b (edge_src e) \<or> can_read s b (edge_dst e) \<or> edge_owner e = bundle_uuid b)"

section \<open>Patterns\<close>

definition prop_matches :: "graph_thing \<Rightarrow> graph_edge option \<Rightarrow> symbol \<Rightarrow> gvalue \<Rightarrow> bool" where
  "prop_matches thing edge k v =
     (if bt_get (thing_fields thing) k = Some v then True
      else case edge of
        None \<Rightarrow> False
      | Some e \<Rightarrow>
          if k = canon_SRC \<and> v = VUuid (edge_src e) then True
          else if k = canon_DST \<and> v = VUuid (edge_dst e) then True
          else if k = canon_PREDICATE then
            (case as_text v of
               Some t \<Rightarrow> t = edge_pred e
             | None \<Rightarrow>
                 (case as_symbol v of
                    Some y \<Rightarrow> symbol_to_string y = edge_pred e
                  | None \<Rightarrow> False))
          else False)"

definition matches_pattern :: "node_pattern \<Rightarrow> graph_thing \<Rightarrow> graph_edge option \<Rightarrow> bool" where
  "matches_pattern pattern thing edge \<longleftrightarrow>
     list_all (\<lambda>l. l \<in> set (thing_labels thing)) (pat_labels pattern) \<and>
     list_all (\<lambda>(k, v). prop_matches thing edge k v) (pat_props pattern)"

definition get_nodes :: "store \<Rightarrow> bundle_id \<Rightarrow> node_pattern \<Rightarrow> graph_thing list" where
  "get_nodes s owner pattern =
     filter (\<lambda>t. can_read s owner (thing_id t) \<and> matches_pattern pattern t None)
       (List.map_filter (\<lambda>p. last_opt (snd p)) (things s))"

definition get_props :: "store \<Rightarrow> bundle_id \<Rightarrow> graph_props_get_request \<Rightarrow> gmap option" where
  "get_props s owner request =
     (case latest s (pg_node request) of
        None \<Rightarrow> None
      | Some thing \<Rightarrow>
          if \<not> can_read s owner (thing_id thing) then None
          else if pg_keys request = [] then Some (bt_extend [] (thing_fields thing))
          else Some (fold (\<lambda>key out. case bt_get (thing_fields thing) key of
                                       None \<Rightarrow> out
                                     | Some val \<Rightarrow> bt_insert key val out)
                       (pg_keys request) []))"

text \<open>
  The scan of \<open>find_by_kind\<close>: \<open>skipped\<close> entries of the index have been passed over for the
  cursor, \<open>count\<close> results have been pushed.
\<close>

definition max_results :: nat where
  "max_results = 100"

fun find_scan ::
  "store \<Rightarrow> bundle_id \<Rightarrow> u64 \<Rightarrow> uuid list \<Rightarrow> nat \<Rightarrow> nat \<Rightarrow> graph_thing list \<Rightarrow> graph_thing list \<times> u64" where
  "find_scan s owner cursor [] skipped count results = (results, 0)"
| "find_scan s owner cursor (u # us) skipped count results =
     (if (of_nat skipped :: u64) < cursor then find_scan s owner cursor us (Suc skipped) count results
      else if count \<ge> max_results then (results, cursor + of_nat count)
      else case latest s u of
             None \<Rightarrow> find_scan s owner cursor us skipped count results
           | Some thing \<Rightarrow>
               if \<not> can_read s owner (thing_id thing) then find_scan s owner cursor us skipped count results
               else find_scan s owner cursor us skipped (Suc count) (results @ [thing]))"

definition find_by_kind :: "store \<Rightarrow> bundle_id \<Rightarrow> string \<Rightarrow> u64 \<Rightarrow> graph_thing list \<times> u64" where
  "find_by_kind s owner kind cursor =
     (case canon_from_str kind of
        None \<Rightarrow> ([], 0)
      | Some y \<Rightarrow>
          (case bt_get (kind_index s) y of
             None \<Rightarrow> ([], 0)
           | Some uuids \<Rightarrow> find_scan s owner cursor uuids 0 0 []))"

section \<open>Writing: revisions, things and edges\<close>

definition next_rev :: "store \<Rightarrow> u64 \<times> store" where
  "next_rev s = (next_revision s, s\<lparr>next_revision := next_revision s + 1\<rparr>)"

definition insert_thing :: "graph_thing \<Rightarrow> store \<Rightarrow> store" where
  "insert_thing thing s =
     (let versions = bt_list (things s) (thing_id thing);
          should_add = (case last_opt versions of
                          None \<Rightarrow> True
                        | Some prev \<Rightarrow> thing_revision thing > thing_revision prev)
      in if should_add
         then s\<lparr>things := bt_insert (thing_id thing) (versions @ [thing]) (things s),
                kind_index := bt_insert (thing_kind thing)
                  (bs_insert (thing_id thing) (bt_list (kind_index s) (thing_kind thing)))
                  (kind_index s)\<rparr>
         else s\<lparr>things := bt_insert (thing_id thing) versions (things s)\<rparr>)"

definition insert_edge :: "graph_edge \<Rightarrow> store \<Rightarrow> store" where
  "insert_edge edge s =
     (let should_add = (case last_opt (edges s) of
                          None \<Rightarrow> True
                        | Some prev \<Rightarrow> edge_revision edge > edge_revision prev)
      in if should_add
         then s\<lparr>edges := edges s @ [edge],
                edges_by_src_pred := bt_insert (edge_src edge, edge_pred edge)
                  (bt_list (edges_by_src_pred s) (edge_src edge, edge_pred edge) @ [edge])
                  (edges_by_src_pred s)\<rparr>
         else s)"

definition derive_uuid :: "ext \<Rightarrow> u8 list \<Rightarrow> gmap \<Rightarrow> uuid" where
  "derive_uuid x kind_bytes flds =
     (let name = kind_bytes @ (case postcard_map x flds of None \<Rightarrow> [] | Some buf \<Rightarrow> buf)
      in new_v5 x NAMESPACE_OID name)"

definition to_be_bytes :: "u32 \<Rightarrow> u8 list" where
  "to_be_bytes w = [ucast (drop_bit 24 w), ucast (drop_bit 16 w), ucast (drop_bit 8 w), ucast w]"

definition ensure_bundle_node :: "bundle_id \<Rightarrow> store \<Rightarrow> store" where
  "ensure_bundle_node b s =
     (let i = bundle_node_id b
      in if bt_get (things s) i \<noteq> None then s
         else let (revision, s') = next_rev s;
                  thing = \<lparr>thing_id = i, thing_kind = canon_BUNDLE, thing_labels = [canon_BUNDLE],
                           thing_fields = [(canon_ID, VUuid (bundle_uuid b))],
                           thing_owner = bundle_uuid b, thing_revision = revision\<rparr>
              in insert_thing thing s')"

definition ownership_edge :: "ext \<Rightarrow> bundle_id \<Rightarrow> uuid \<Rightarrow> u64 \<Rightarrow> graph_edge" where
  "ownership_edge x owner node revision =
     (let props = bt_insert canon_DST (VUuid node) (bt_insert canon_OWNER (VUuid (bundle_uuid owner)) []);
          pred = symbol_to_string canon_OWNS
      in \<lparr>edge_id = derive_uuid x (as_bytes pred) props, edge_src = bundle_node_id owner,
          edge_pred = pred, edge_dst = node, edge_props = props, edge_owner = bundle_uuid owner,
          edge_revision = revision\<rparr>)"

definition add_ownership_edge :: "ext \<Rightarrow> bundle_id \<Rightarrow> uuid \<Rightarrow> u64 \<Rightarrow> store \<Rightarrow> store" where
  "add_ownership_edge x owner node revision = insert_edge (ownership_edge x owner node revision)"

section \<open>Watches\<close>

definition register_watch_pattern :: "bundle_id \<Rightarrow> node_pattern \<Rightarrow> store \<Rightarrow> watch_id \<times> store" where
  "register_watch_pattern owner pattern s =
     (let i = next_watch_id s
      in (i, s\<lparr>next_watch_id := next_watch_id s + 1,
              watches := bt_insert i
                \<lparr>watch_wid = i, watch_owner = owner, watch_pattern = pattern, watch_queue = []\<rparr>
                (watches s)\<rparr>))"

definition register_watch :: "bundle_id \<Rightarrow> watch_query \<Rightarrow> store \<Rightarrow> watch_id \<times> store" where
  "register_watch owner query s =
     (let labels = (case wq_kind query of None \<Rightarrow> [] | Some kind \<Rightarrow> [kind]);
          props0 = (case wq_src query of None \<Rightarrow> [] | Some src \<Rightarrow> bt_insert canon_SRC (VUuid src) []);
          props = (case wq_dst query of None \<Rightarrow> props0 | Some dst \<Rightarrow> bt_insert canon_DST (VUuid dst) props0)
      in register_watch_pattern owner \<lparr>pat_labels = labels, pat_props = props\<rparr> s)"

definition poll_watch :: "watch_id \<Rightarrow> store \<Rightarrow> graph_watch_batch option \<times> store" where
  "poll_watch i s =
     (case bt_get (watches s) i of
        None \<Rightarrow> (None, s)
      | Some w \<Rightarrow>
          if watch_queue w = [] then (None, s)
          else (Some \<lparr>from_revision = 0, latest_revision = next_revision s,
                      batch_changes = watch_queue w\<rparr>,
                s\<lparr>watches := bt_insert i (w\<lparr>watch_queue := []\<rparr>) (watches s)\<rparr>))"

definition watch_push :: "graph_change \<Rightarrow> watch \<Rightarrow> watch" where
  "watch_push change w =
     (let q = watch_queue w @ [change]
      in w\<lparr>watch_queue := (if length q > MAX_WATCH_QUEUE then tl q else q)\<rparr>)"

definition notify_one ::
  "graph_change \<Rightarrow> graph_thing option \<Rightarrow> graph_edge option \<Rightarrow> watch_id \<times> bundle_id \<times> node_pattern \<Rightarrow>
   store \<Rightarrow> store" where
  "notify_one change target edge = (\<lambda>(wid, owner, pattern) s.
     if \<not> change_visible_to s owner change then s
     else case target of
            None \<Rightarrow> s
          | Some node \<Rightarrow>
              if matches_pattern pattern node edge
              then (case bt_get (watches s) wid of
                      None \<Rightarrow> s
                    | Some w \<Rightarrow> s\<lparr>watches := bt_insert wid (watch_push change w) (watches s)\<rparr>)
              else s)"

definition change_target :: "store \<Rightarrow> graph_change \<Rightarrow> graph_thing option" where
  "change_target s change =
     (case change of
        CThing t \<Rightarrow> Some t
      | CEdge e \<Rightarrow> (case latest s (edge_src e) of Some t \<Rightarrow> Some t | None \<Rightarrow> latest s (edge_dst e)))"

definition change_edge :: "graph_change \<Rightarrow> graph_edge option" where
  "change_edge change = (case change of CThing t \<Rightarrow> None | CEdge e \<Rightarrow> Some e)"

definition notify_watches :: "graph_change \<Rightarrow> store \<Rightarrow> store" where
  "notify_watches change s =
     (let target = change_target s change;
          edge = change_edge change;
          watch_specs = map (\<lambda>(_, w). (watch_wid w, watch_owner w, watch_pattern w)) (watches s)
      in fold (notify_one change target edge) watch_specs s)"

section \<open>Journal events\<close>

definition emit_thing_event :: "ext \<Rightarrow> graph_thing \<Rightarrow> journal option \<Rightarrow> journal option" where
  "emit_thing_event x t jo =
     (let p1 = bt_insert canon_ID (VUuid (thing_id t)) [];
          p2 = bt_insert canon_KIND (VSymbol (thing_kind t)) p1;
          p3 = bt_insert canon_FIELDS (VMap (thing_fields t)) p2;
          p4 = bt_insert canon_OWNER (VUuid (thing_owner t)) p3;
          p5 = bt_insert canon_REVISION (VU64 (thing_revision t)) p4
      in snd (emit_data x canon_THING_CREATED (VMap p5) jo))"

definition emit_edge_event :: "ext \<Rightarrow> graph_edge \<Rightarrow> journal option \<Rightarrow> journal option" where
  "emit_edge_event x e jo =
     (let p1 = bt_insert canon_SRC (VUuid (edge_src e)) [];
          p2 = bt_insert canon_DST (VUuid (edge_dst e)) p1;
          p3 = bt_insert canon_PREDICATE (VText (edge_pred e)) p2;
          p4 = bt_insert canon_OWNER (VUuid (edge_owner e)) p3;
          p5 = (if edge_props e \<noteq> [] then bt_insert canon_FIELDS (VMap (edge_props e)) p4 else p4);
          p6 = bt_insert canon_REVISION (VU64 (edge_revision e)) p5
      in snd (emit_data x canon_EDGE_ADDED (VMap p6) jo))"

function extract_text :: "gvalue \<Rightarrow> string option" where
  "extract_text (VText t) = Some t"
| "extract_text (VBytes b) = from_utf8 b"
| "extract_text (VMap m) = (case bt_get m canon_TEXT of None \<Rightarrow> None | Some v \<Rightarrow> extract_text v)"
| "extract_text VNull = None"
| "extract_text (VBool _) = None"
| "extract_text (VU64 _) = None"
| "extract_text (VI64 _) = None"
| "extract_text (VSymbol _) = None"
| "extract_text (VUuid _) = None"
| "extract_text (VList _) = None"
| "extract_text (VBlob _) = None"
  by pat_completeness auto
termination
proof (relation "measure size")
  show "wf (measure (size :: gvalue \<Rightarrow> nat))" by simp
next
  fix m :: gmap and v :: gvalue
  assume "bt_get m canon_TEXT = Some v"
  then have "(canon_TEXT, v) \<in> set m" by (rule map_of_SomeD)
  then show "(v, VMap m) \<in> measure size" by (induction m) auto
qed

section \<open>The operations of the store\<close>

type_synonym graph_state = "store \<times> journal option"

definition fiat_node :: "ext \<Rightarrow> bundle_id \<Rightarrow> graph_node_request \<Rightarrow> graph_state \<Rightarrow> graph_thing \<times> graph_state" where
  "fiat_node x owner request = (\<lambda>(s, jo).
     let s1 = ensure_bundle_node owner s;
         labels0 = bs_of_list (node_labels request);
         labels = (if labels0 = [] then [canon_THING_CREATED] else labels0);
         kind = hd labels;
         props = bt_entry canon_OWNER (VUuid (bundle_uuid owner)) (node_props request);
         i = (case node_id request of
                Some i \<Rightarrow> i
              | None \<Rightarrow> derive_uuid x (to_be_bytes (raw kind)) props);
         (revision, s2) = next_rev s1;
         thing = \<lparr>thing_id = i, thing_kind = kind, thing_labels = labels, thing_fields = props,
                  thing_owner = bundle_uuid owner, thing_revision = revision\<rparr>;
         s3 = insert_thing thing s2;
         s4 = add_ownership_edge x owner (thing_id thing) revision s3;
         s5 = notify_watches (CThing thing) s4;
         jo' = emit_thing_event x thing jo
     in (thing, s5, jo'))"

definition fiat :: "ext \<Rightarrow> bundle_id \<Rightarrow> graph_fiat_request \<Rightarrow> graph_state \<Rightarrow> graph_thing \<times> graph_state" where
  "fiat x owner request =
     fiat_node x owner
       \<lparr>node_id = fiat_id request, node_labels = bs_insert (fiat_kind request) [],
        node_props = fiat_fields request\<rparr>"

definition link_edge :: "ext \<Rightarrow> bundle_id \<Rightarrow> graph_link_request \<Rightarrow> graph_state \<Rightarrow> u64 \<times> graph_state" where
  "link_edge x owner request = (\<lambda>(s, jo).
     if \<not> can_link s owner (link_from request) (link_to request) (link_pred request) then (0, s, jo)
     else case edge_between s (link_from request) (link_pred request) (link_to request) of
       Some existing \<Rightarrow> (edge_revision existing, s, jo)
     | None \<Rightarrow>
         let (revision, s1) = next_rev s;
             edge = \<lparr>edge_id = (case link_id request of
                                  Some i \<Rightarrow> i
                                | None \<Rightarrow> derive_uuid x (as_bytes (link_pred request)) (link_props request)),
                     edge_src = link_from request, edge_pred = link_pred request,
                     edge_dst = link_to request, edge_props = link_props request,
                     edge_owner = bundle_uuid owner, edge_revision = revision\<rparr>;
             s2 = insert_edge edge s1;
             s3 = notify_watches (CEdge edge) s2;
             jo' = emit_edge_event x edge jo
         in (revision, s3, jo'))"

definition that :: "ext \<Rightarrow> bundle_id \<Rightarrow> graph_that_request \<Rightarrow> graph_state \<Rightarrow> u64 \<times> graph_state" where
  "that x owner request =
     link_edge x owner
       \<lparr>link_id = None, link_pred = that_pred request, link_from = that_src request,
        link_to = that_dst request, link_props = that_props request\<rparr>"

definition set_props :: "bundle_id \<Rightarrow> graph_props_request \<Rightarrow> store \<Rightarrow> bool \<times> store" where
  "set_props owner request s =
     (case latest s (ps_node request) of
        None \<Rightarrow> (False, s)
      | Some current \<Rightarrow>
          if \<not> can_write s owner (thing_id current) then (False, s)
          else
            let fields' = bt_extend (thing_fields current) (ps_props request);
                (revision, s1) = next_rev s;
                current' = current\<lparr>thing_fields := fields', thing_revision := revision\<rparr>;
                s2 = insert_thing current' s1
            in (True, notify_watches (CThing current') s2))"

definition grant_capability ::
  "ext \<Rightarrow> bundle_id \<Rightarrow> grant_capability_request \<Rightarrow> graph_state \<Rightarrow> bool \<times> graph_state" where
  "grant_capability x grantor request = (\<lambda>(s, jo).
     if \<not> is_data_capability (gc_capability request) \<and> \<not> is_hardware_capability (gc_capability request)
     then (False, s, jo)
     else
       let can_grant = (if is_hardware_capability (gc_capability request)
                        then grantor = KERNEL_BUNDLE_ID
                        else grantor = KERNEL_BUNDLE_ID \<or> owns s grantor (gc_target request))
       in if \<not> can_grant then (False, s, jo)
          else
            let s1 = ensure_bundle_node (BundleId (gc_grantee request)) s;
                grantee_node = bundle_node_id (BundleId (gc_grantee request));
                (revision, s2) = next_rev s1;
                props = bt_insert canon_DST (VUuid (gc_target request))
                          (bt_insert canon_OWNER (VUuid (bundle_uuid grantor)) []);
                pred = gc_capability request;
                edge = \<lparr>edge_id = derive_uuid x (as_bytes pred) props, edge_src = grantee_node,
                        edge_pred = pred, edge_dst = gc_target request, edge_props = props,
                        edge_owner = bundle_uuid grantor, edge_revision = revision\<rparr>;
                s3 = insert_edge edge s2;
                s4 = notify_watches (CEdge edge) s3;
                jo' = emit_edge_event x edge jo
            in (True, s4, jo'))"

definition bundle_has_capability :: "store \<Rightarrow> bundle_id \<Rightarrow> uuid \<Rightarrow> symbol \<Rightarrow> bool" where
  "bundle_has_capability s b target capability = has_capability s b target capability"

section \<open>Snapshots\<close>

definition snapshot :: "store \<Rightarrow> graph_snapshot" where
  "snapshot s =
     \<lparr>snap_revision = saturating_sub (next_revision s) 1,
      snap_thing_count = sum_list (map (\<lambda>p. length (snd p)) (kind_index s)),
      snap_edge_count = length (edges s),
      snap_things = concat (map snd (things s)),
      snap_edges = edges s\<rparr>"

definition apply_snapshot :: "graph_snapshot \<Rightarrow> store \<Rightarrow> store" where
  "apply_snapshot snap s =
     (let s0 = s\<lparr>things := [], edges := [], kind_index := [], edges_by_src_pred := [], watches := []\<rparr>;
          s1 = fold insert_thing (snap_things snap) s0;
          s2 = fold insert_edge (snap_edges snap) s1
      in s2\<lparr>next_revision := saturating_add (snap_revision snap) 1\<rparr>)"

end
