(* ===== verification/Store_Inv.thy ===== *)
theory Store_Inv
  imports Store
begin

text \<open>
  The invariant of the graph store and the lemmas that say what each primitive write does to
  it: versions of a thing and edges of the log carry strictly increasing revisions below the
  counter, the edge index and the kind index agree with what they index, and every watch queue
  is bounded.
\<close>

section \<open>The invariant\<close>

definition versions_ok :: "u64 \<Rightarrow> uuid \<Rightarrow> graph_thing list \<Rightarrow> bool" where
  "versions_ok b i vs \<longleftrightarrow>
     sorted_wrt (\<lambda>v w. thing_revision v < thing_revision w) vs \<and>
     (\<forall>t \<in> set vs. thing_id t = i \<and> thing_revision t < b)"

definition things_ok :: "u64 \<Rightarrow> (uuid, graph_thing list) btree \<Rightarrow> bool" where
  "things_ok b m \<longleftrightarrow> sorted_map m \<and>
     (\<forall>i. versions_ok b i (bt_list m i)) \<and> (\<forall>i. bt_get m i \<noteq> Some [])"

definition edges_ok :: "u64 \<Rightarrow> graph_edge list \<Rightarrow> bool" where
  "edges_ok b es \<longleftrightarrow>
     sorted_wrt (\<lambda>e f. edge_revision e < edge_revision f) es \<and> (\<forall>e \<in> set es. edge_revision e < b)"

definition edge_key :: "graph_edge \<Rightarrow> uuid \<times> string" where
  "edge_key e = (edge_src e, edge_pred e)"

definition index_ok :: "graph_edge list \<Rightarrow> (uuid \<times> string, graph_edge list) btree \<Rightarrow> bool" where
  "index_ok es ix \<longleftrightarrow> sorted_map ix \<and>
     (\<forall>k. bt_list ix k = filter (\<lambda>e. edge_key e = k) es) \<and> (\<forall>k. bt_get ix k \<noteq> Some [])"

definition kinds_ok :: "(uuid, graph_thing list) btree \<Rightarrow> (symbol, uuid list) btree \<Rightarrow> bool" where
  "kinds_ok m ki \<longleftrightarrow> sorted_map ki \<and>
     (\<forall>k. sorted_wrt (<) (bt_list ki k) \<and>
          set (bt_list ki k) = {i. \<exists>t \<in> set (bt_list m i). thing_kind t = k} \<and>
          bt_get ki k \<noteq> Some [])"

definition watches_ok :: "(watch_id, watch) btree \<Rightarrow> bool" where
  "watches_ok ws \<longleftrightarrow> sorted_map ws \<and>
     (\<forall>i w. bt_get ws i = Some w \<longrightarrow> watch_wid w = i \<and> length (watch_queue w) \<le> MAX_WATCH_QUEUE)"

definition store_inv :: "store \<Rightarrow> bool" where
  "store_inv s \<longleftrightarrow>
     0 < next_revision s \<and>
     things_ok (next_revision s) (things s) \<and>
     edges_ok (next_revision s) (edges s) \<and>
     index_ok (edges s) (edges_by_src_pred s) \<and>
     kinds_ok (things s) (kind_index s) \<and>
     watches_ok (watches s)"

text \<open>\<open>room s n\<close>: the revision counter can be bumped \<open>n\<close> times without wrapping.\<close>

definition room :: "store \<Rightarrow> nat \<Rightarrow> bool" where
  "room s n \<longleftrightarrow> unat (next_revision s) + n < 2 ^ 64"

lemma room_bump:
  "room s (Suc n) \<Longrightarrow> room (s\<lparr>next_revision := next_revision s + 1\<rparr>) n"
  "room s (Suc n) \<Longrightarrow> next_revision s < next_revision s + 1"
  by (simp_all add: room_def unat_Suc_no_wrap word_less_nat_alt)

lemma room_mono: "room s n \<Longrightarrow> m \<le> n \<Longrightarrow> room s m"
  by (simp add: room_def)

section \<open>Primitive writes\<close>

lemma versions_ok_Nil [simp]: "versions_ok b i []"
  by (simp add: versions_ok_def)

lemma versions_ok_mono: "versions_ok b i vs \<Longrightarrow> b \<le> c \<Longrightarrow> versions_ok c i vs"
  by (auto simp: versions_ok_def)

lemma versions_ok_snoc:
  assumes "versions_ok (thing_revision t) (thing_id t) vs" and "thing_revision t < b"
  shows "versions_ok b (thing_id t) (vs @ [t])"
  using assms by (auto simp: versions_ok_def sorted_wrt_append)

lemma things_ok_Nil [simp]: "things_ok b []"
  by (simp add: things_ok_def)

lemma things_ok_mono: "things_ok b m \<Longrightarrow> b \<le> c \<Longrightarrow> things_ok c m"
  by (auto simp: things_ok_def intro: versions_ok_mono)

lemma edges_ok_mono: "edges_ok b es \<Longrightarrow> b \<le> c \<Longrightarrow> edges_ok c es"
  by (auto simp: edges_ok_def)

lemma things_ok_versions:
  assumes "things_ok b m"
  shows "versions_ok b i (bt_list m i)"
    and "t \<in> set (bt_list m i) \<Longrightarrow> thing_id t = i \<and> thing_revision t < b"
  using assms by (auto simp: things_ok_def versions_ok_def)

lemma things_ok_insert:
  assumes "things_ok (thing_revision t) m" and "thing_revision t < b"
  shows "things_ok b (bt_insert (thing_id t) (bt_list m (thing_id t) @ [t]) m)"
proof -
  have "versions_ok b (thing_id t) (bt_list m (thing_id t) @ [t])"
    by (rule versions_ok_snoc [OF things_ok_versions(1) [OF assms(1)] assms(2)])
  moreover have "things_ok b m" using assms by (auto intro: things_ok_mono)
  ultimately show ?thesis by (auto simp: things_ok_def)
qed

lemma edges_ok_snoc:
  assumes "edges_ok (edge_revision e) es" and "edge_revision e < b"
  shows "edges_ok b (es @ [e])"
  using assms by (auto simp: edges_ok_def sorted_wrt_append intro: order_less_trans)

lemma index_ok_snoc:
  assumes "index_ok es ix"
  shows "index_ok (es @ [e]) (bt_insert (edge_src e, edge_pred e)
           (bt_list ix (edge_src e, edge_pred e) @ [e]) ix)"
  using assms by (auto simp: index_ok_def edge_key_def)

lemma kinds_ok_insert:
  assumes k: "kinds_ok m ki"
  shows "kinds_ok (bt_insert (thing_id t) (bt_list m (thing_id t) @ [t]) m)
           (bt_insert (thing_kind t) (bs_insert (thing_id t) (bt_list ki (thing_kind t))) ki)"
    (is "kinds_ok ?m ?ki")
proof -
  have ne: "bs_insert (thing_id t) (bt_list ki (thing_kind t)) \<noteq> []"
    by (metis empty_iff insertI1 list.set(1) set_bs_insert)
  have at: "sorted_wrt (<) (bt_list ki y)" "set (bt_list ki y) = {i. \<exists>t \<in> set (bt_list m i). thing_kind t = y}"
    "bt_get ki y \<noteq> Some []" for y
    using k by (auto simp: kinds_ok_def)
  have "set (bt_list ?ki y) = {i. \<exists>t \<in> set (bt_list ?m i). thing_kind t = y}" for y
    using at(2) [of y] by (auto split: if_splits)
  moreover have "sorted_map ?ki" using k by (auto simp: kinds_ok_def)
  moreover have "sorted_wrt (<) (bt_list ?ki y)" "bt_get ?ki y \<noteq> Some []" for y
    using at(1,3) [of y] ne by auto
  ultimately show ?thesis by (simp add: kinds_ok_def)
qed

lemma insert_thing_fresh:
  assumes "things_ok (thing_revision t) (things s)"
  shows "insert_thing t s =
    s\<lparr>things := bt_insert (thing_id t) (bt_list (things s) (thing_id t) @ [t]) (things s),
      kind_index := bt_insert (thing_kind t)
        (bs_insert (thing_id t) (bt_list (kind_index s) (thing_kind t))) (kind_index s)\<rparr>"
proof -
  have "case last_opt (bt_list (things s) (thing_id t)) of
          None \<Rightarrow> True | Some prev \<Rightarrow> thing_revision t > thing_revision prev"
    using things_ok_versions(2) [OF assms] by (auto split: option.splits dest!: last_opt_Some_in_set)
  then show ?thesis by (simp add: insert_thing_def Let_def)
qed

lemma insert_edge_fresh:
  assumes "edges_ok (edge_revision e) (edges s)"
  shows "insert_edge e s =
    s\<lparr>edges := edges s @ [e],
      edges_by_src_pred := bt_insert (edge_src e, edge_pred e)
        (bt_list (edges_by_src_pred s) (edge_src e, edge_pred e) @ [e]) (edges_by_src_pred s)\<rparr>"
proof -
  have "case last_opt (edges s) of None \<Rightarrow> True | Some prev \<Rightarrow> edge_revision e > edge_revision prev"
    using assms by (auto simp: edges_ok_def split: option.splits dest!: last_opt_Some_in_set)
  then show ?thesis by (simp add: insert_edge_def Let_def)
qed

section \<open>Writes at the store level\<close>

text \<open>Between the bump of the counter and the inserts, things and edges are still below the
  revision that was handed out.\<close>

definition pre_inv :: "u64 \<Rightarrow> store \<Rightarrow> bool" where
  "pre_inv r s \<longleftrightarrow> r < next_revision s \<and> things_ok r (things s) \<and> edges_ok r (edges s) \<and>
     index_ok (edges s) (edges_by_src_pred s) \<and> kinds_ok (things s) (kind_index s) \<and>
     watches_ok (watches s)"

lemma next_rev_pre:
  assumes "store_inv s" "room s (Suc n)"
  shows "pre_inv (next_revision s) (s\<lparr>next_revision := next_revision s + 1\<rparr>)"
    and "room (s\<lparr>next_revision := next_revision s + 1\<rparr>) n"
  using assms room_bump by (auto simp: store_inv_def pre_inv_def)

lemma pre_inv_store_inv: "pre_inv r s \<Longrightarrow> store_inv s"
  unfolding pre_inv_def store_inv_def
  by (metis less_imp_le order_le_less_trans things_ok_mono edges_ok_mono word_zero_le)

lemma pre_inv_insert_thing:
  assumes "pre_inv (thing_revision t) s"
  shows "insert_thing t s =
      s\<lparr>things := bt_insert (thing_id t) (bt_list (things s) (thing_id t) @ [t]) (things s),
        kind_index := bt_insert (thing_kind t)
          (bs_insert (thing_id t) (bt_list (kind_index s) (thing_kind t))) (kind_index s)\<rparr>"
    and "things_ok (next_revision s) (things (insert_thing t s))"
    and "kinds_ok (things (insert_thing t s)) (kind_index (insert_thing t s))"
proof -
  from assms have t: "things_ok (thing_revision t) (things s)" "thing_revision t < next_revision s"
    "kinds_ok (things s) (kind_index s)" by (auto simp: pre_inv_def)
  show eq: "insert_thing t s =
      s\<lparr>things := bt_insert (thing_id t) (bt_list (things s) (thing_id t) @ [t]) (things s),
        kind_index := bt_insert (thing_kind t)
          (bs_insert (thing_id t) (bt_list (kind_index s) (thing_kind t))) (kind_index s)\<rparr>"
    by (rule insert_thing_fresh [OF t(1)])
  show "things_ok (next_revision s) (things (insert_thing t s))"
    unfolding eq using things_ok_insert [OF t(1,2)] by simp
  show "kinds_ok (things (insert_thing t s)) (kind_index (insert_thing t s))"
    unfolding eq using kinds_ok_insert [OF t(3)] by simp
qed

lemma store_inv_insert_thing:
  assumes "pre_inv (thing_revision t) s"
  shows "store_inv (insert_thing t s)"
  using assms pre_inv_insert_thing [OF assms] pre_inv_store_inv [OF assms]
  by (auto simp: store_inv_def)

lemma pre_inv_insert_edge:
  assumes "pre_inv (edge_revision e) s"
  shows "insert_edge e s =
      s\<lparr>edges := edges s @ [e],
        edges_by_src_pred := bt_insert (edge_src e, edge_pred e)
          (bt_list (edges_by_src_pred s) (edge_src e, edge_pred e) @ [e]) (edges_by_src_pred s)\<rparr>"
    and "store_inv (insert_edge e s)"
proof -
  from assms have e: "edges_ok (edge_revision e) (edges s)" "edge_revision e < next_revision s"
    "index_ok (edges s) (edges_by_src_pred s)" by (auto simp: pre_inv_def)
  show eq: "insert_edge e s =
      s\<lparr>edges := edges s @ [e],
        edges_by_src_pred := bt_insert (edge_src e, edge_pred e)
          (bt_list (edges_by_src_pred s) (edge_src e, edge_pred e) @ [e]) (edges_by_src_pred s)\<rparr>"
    by (rule insert_edge_fresh [OF e(1)])
  show "store_inv (insert_edge e s)"
    unfolding eq using pre_inv_store_inv [OF assms] edges_ok_snoc [OF e(1,2)] index_ok_snoc [OF e(3)]
    by (simp add: store_inv_def)
qed

text \<open>A thing and then an edge under the same revision, as \<open>fiat_node\<close> writes them.\<close>

lemma store_inv_insert_both:
  assumes "pre_inv (thing_revision t) s" and "edge_revision e = thing_revision t"
  shows "insert_edge e (insert_thing t s) =
      (insert_thing t s)\<lparr>edges := edges s @ [e],
        edges_by_src_pred := bt_insert (edge_src e, edge_pred e)
          (bt_list (edges_by_src_pred s) (edge_src e, edge_pred e) @ [e]) (edges_by_src_pred s)\<rparr>"
    and "store_inv (insert_edge e (insert_thing t s))"
proof -
  note it = pre_inv_insert_thing [OF assms(1)]
  have keep: "edges (insert_thing t s) = edges s"
    "edges_by_src_pred (insert_thing t s) = edges_by_src_pred s"
    "next_revision (insert_thing t s) = next_revision s"
    by (simp_all add: it(1))
  have e: "edges_ok (edge_revision e) (edges s)" "edge_revision e < next_revision s"
    "index_ok (edges s) (edges_by_src_pred s)"
    using assms by (auto simp: pre_inv_def)
  show eq: "insert_edge e (insert_thing t s) =
      (insert_thing t s)\<lparr>edges := edges s @ [e],
        edges_by_src_pred := bt_insert (edge_src e, edge_pred e)
          (bt_list (edges_by_src_pred s) (edge_src e, edge_pred e) @ [e]) (edges_by_src_pred s)\<rparr>"
    using insert_edge_fresh [of e "insert_thing t s"] e(1) by (simp add: keep)
  show "store_inv (insert_edge e (insert_thing t s))"
    unfolding eq using store_inv_insert_thing [OF assms(1)] edges_ok_snoc [OF e(1,2)] index_ok_snoc [OF e(3)]
    by (simp add: store_inv_def keep)
qed

lemma latest_bt_list: "latest s i = last_opt (bt_list (things s) i)"
  by (simp add: latest_def bt_list_def split: option.splits)

lemma store_inv_latest:
  assumes "store_inv s" "latest s i = Some t"
  shows "thing_id t = i" "thing_revision t < next_revision s" "t \<in> set (bt_list (things s) i)"
proof -
  show m: "t \<in> set (bt_list (things s) i)"
    using assms(2) by (auto simp: latest_bt_list dest: last_opt_Some_in_set)
  show "thing_id t = i" "thing_revision t < next_revision s"
    using things_ok_versions(2) [OF _ m] assms(1) by (auto simp: store_inv_def)
qed

lemma store_inv_latest_None:
  "store_inv s \<Longrightarrow> latest s i = None \<longleftrightarrow> bt_get (things s) i = None"
  by (auto simp: latest_bt_list bt_list_def store_inv_def things_ok_def split: option.splits)

section \<open>Notification\<close>

definition notified :: "store \<Rightarrow> graph_change \<Rightarrow> watch \<Rightarrow> bool" where
  "notified s change w \<longleftrightarrow>
     change_visible_to s (watch_owner w) change \<and>
     (case change_target s change of
        None \<Rightarrow> False
      | Some node \<Rightarrow> matches_pattern (watch_pattern w) node (change_edge change))"

lemma authority_watches [simp]:
  "owns (s\<lparr>watches := ws\<rparr>) = owns s"
  "has_capability (s\<lparr>watches := ws\<rparr>) = has_capability s"
  by (simp_all add: fun_eq_iff owns_def has_capability_def)

lemma can_read_watches [simp]:
  "can_write (s\<lparr>watches := ws\<rparr>) = can_write s"
  "can_read (s\<lparr>watches := ws\<rparr>) = can_read s"
  "change_visible_to (s\<lparr>watches := ws\<rparr>) = change_visible_to s"
  by (simp_all add: fun_eq_iff can_write_def can_read_def change_visible_to_def split: graph_change.splits)

lemma notify_one_eq:
  "notify_one c tgt ed (i, o', p) s =
     s\<lparr>watches := (if change_visible_to s o' c \<and>
                      (case tgt of None \<Rightarrow> False | Some node \<Rightarrow> matches_pattern p node ed)
                   then (case bt_get (watches s) i of
                           None \<Rightarrow> watches s
                         | Some w \<Rightarrow> bt_insert i (watch_push c w) (watches s))
                   else watches s)\<rparr>"
  by (auto simp: notify_one_def split: option.splits)

lemma notify_fold:
  assumes "distinct (map fst specs)"
  shows "\<exists>ws. fold (notify_one c tgt ed) specs s = s\<lparr>watches := ws\<rparr> \<and>
     (sorted_map (watches s) \<longrightarrow> sorted_map ws) \<and>
     (\<forall>i. bt_get ws i =
        (case bt_get (watches s) i of
           None \<Rightarrow> None
         | Some w \<Rightarrow>
             Some (if \<exists>o' p. (i, o', p) \<in> set specs \<and> change_visible_to s o' c \<and>
                        (case tgt of None \<Rightarrow> False | Some node \<Rightarrow> matches_pattern p node ed)
                   then watch_push c w else w)))"
  using assms
proof (induction specs arbitrary: s)
  case Nil
  show ?case by (rule exI [of _ "watches s"]) (simp split: option.splits)
next
  case (Cons sp specs)
  obtain j o' p where sp: "sp = (j, o', p)" by (cases sp)
  define ws1 where "ws1 = watches (notify_one c tgt ed sp s)"
  have s1: "notify_one c tgt ed sp s = s\<lparr>watches := ws1\<rparr>"
    unfolding ws1_def sp notify_one_eq by simp
  have d: "distinct (map fst specs)" and j: "j \<notin> fst ` set specs"
    using Cons.prems sp by auto
  from Cons.IH [OF d, of "s\<lparr>watches := ws1\<rparr>", unfolded can_read_watches] obtain ws where ws:
    "fold (notify_one c tgt ed) specs (s\<lparr>watches := ws1\<rparr>) = s\<lparr>watches := ws\<rparr>"
    "sorted_map ws1 \<longrightarrow> sorted_map ws"
    "\<And>i. bt_get ws i = (case bt_get ws1 i of None \<Rightarrow> None | Some w \<Rightarrow>
        Some (if \<exists>o' p. (i, o', p) \<in> set specs \<and> change_visible_to s o' c \<and>
                 (case tgt of None \<Rightarrow> False | Some node \<Rightarrow> matches_pattern p node ed)
              then watch_push c w else w))"
    by auto
  have w1: "ws1 = (if change_visible_to s o' c \<and>
                (case tgt of None \<Rightarrow> False | Some node \<Rightarrow> matches_pattern p node ed)
              then (case bt_get (watches s) j of
                      None \<Rightarrow> watches s
                    | Some w \<Rightarrow> bt_insert j (watch_push c w) (watches s))
              else watches s)"
    unfolding ws1_def sp notify_one_eq by simp
  have "sorted_map (watches s) \<longrightarrow> sorted_map ws1"
    unfolding w1 by (auto split: option.splits)
  with ws(2) have srt: "sorted_map (watches s) \<longrightarrow> sorted_map ws" by blast
  have nj: "(j, a, b) \<notin> set specs" for a b using j by force
  have "bt_get ws i =
        (case bt_get (watches s) i of
           None \<Rightarrow> None
         | Some w \<Rightarrow>
             Some (if \<exists>o' p. (i, o', p) \<in> set (sp # specs) \<and> change_visible_to s o' c \<and>
                        (case tgt of None \<Rightarrow> False | Some node \<Rightarrow> matches_pattern p node ed)
                   then watch_push c w else w))" for i
  proof (cases "i = j")
    case True
    then show ?thesis using nj by (simp add: ws(3) w1 sp split: option.splits)
  next
    case False
    then have "bt_get ws1 i = bt_get (watches s) i" by (simp add: w1 split: option.splits)
    with False show ?thesis
      unfolding ws(3) by (cases "bt_get (watches s) i") (simp_all add: sp)
  qed
  with ws(1) srt s1 show ?case by auto
qed

lemma notify_watches_spec:
  assumes "watches_ok (watches s)"
  shows "notify_watches c s = s\<lparr>watches := watches (notify_watches c s)\<rparr>"
    and "sorted_map (watches (notify_watches c s))"
    and "bt_get (watches (notify_watches c s)) i =
      map_option (\<lambda>w. if notified s c w then watch_push c w else w) (bt_get (watches s) i)"
proof -
  let ?specs = "map (\<lambda>(_, w). (watch_wid w, watch_owner w, watch_pattern w)) (watches s)"
  have key: "(j, w) \<in> set (watches s) \<Longrightarrow> watch_wid w = j" for j w
    using assms by (auto simp: watches_ok_def bt_get_eq_in_set)
  have eq: "map fst ?specs = map fst (watches s)"
    unfolding map_map by (rule map_cong) (auto dest: key)
  have d: "distinct (map fst ?specs)"
    unfolding eq using assms by (simp add: watches_ok_def sorted_map_distinct)
  have mem: "(\<exists>o' p. (i, o', p) \<in> set ?specs \<and> Q o' p) \<longleftrightarrow> Q (watch_owner w) (watch_pattern w)"
    if "bt_get (watches s) i = Some w" for Q w i
  proof -
    have iw: "(i, w) \<in> set (watches s)" using that by (rule map_of_SomeD)
    have "w' = w" if "(j, w') \<in> set (watches s)" "watch_wid w' = i" for j w'
      using that key iw assms by (metis bt_get_eq_in_set option.inject watches_ok_def)
    then show ?thesis using iw key [OF iw] by force
  qed
  from notify_fold [OF d, of c "change_target s c" "change_edge c" s] obtain ws where ws:
    "notify_watches c s = s\<lparr>watches := ws\<rparr>"
    "sorted_map (watches s) \<longrightarrow> sorted_map ws"
    "\<And>i. bt_get ws i = (case bt_get (watches s) i of None \<Rightarrow> None | Some w \<Rightarrow>
        Some (if \<exists>o' p. (i, o', p) \<in> set ?specs \<and> change_visible_to s o' c \<and>
                 (case change_target s c of None \<Rightarrow> False
                  | Some node \<Rightarrow> matches_pattern p node (change_edge c))
              then watch_push c w else w))"
    unfolding notify_watches_def Let_def by blast
  show "notify_watches c s = s\<lparr>watches := watches (notify_watches c s)\<rparr>" by (simp add: ws(1))
  show "sorted_map (watches (notify_watches c s))"
    using ws(1,2) assms by (simp add: watches_ok_def)
  show "bt_get (watches (notify_watches c s)) i =
      map_option (\<lambda>w. if notified s c w then watch_push c w else w) (bt_get (watches s) i)"
  proof (cases "bt_get (watches s) i")
    case None
    then show ?thesis by (simp add: ws(1,3))
  next
    case (Some w)
    have g: "watches (notify_watches c s) = ws" by (simp add: ws(1))
    have q: "(\<exists>o' p. (i, o', p) \<in> set ?specs \<and> change_visible_to s o' c \<and>
        (case change_target s c of None \<Rightarrow> False
         | Some node \<Rightarrow> matches_pattern p node (change_edge c))) = notified s c w"
      unfolding notified_def by (rule mem [OF Some])
    show ?thesis unfolding g ws(3) Some option.case q by simp
  qed
qed

lemma length_watch_push: "length (watch_queue (watch_push c w)) \<le> max MAX_WATCH_QUEUE (length (watch_queue w))"
  by (auto simp: watch_push_def Let_def)

lemma watch_push_wid [simp]: "watch_wid (watch_push c w) = watch_wid w"
  by (simp add: watch_push_def Let_def)

lemma watches_ok_notify:
  assumes "watches_ok (watches s)"
  shows "watches_ok (watches (notify_watches c s))"
  unfolding watches_ok_def
proof (intro conjI allI impI)
  show "sorted_map (watches (notify_watches c s))" by (rule notify_watches_spec(2) [OF assms])
  fix i w
  assume "bt_get (watches (notify_watches c s)) i = Some w"
  then obtain v where v: "bt_get (watches s) i = Some v" "w = (if notified s c v then watch_push c v else v)"
    by (auto simp: notify_watches_spec(3) [OF assms])
  then have "watch_wid v = i" "length (watch_queue v) \<le> MAX_WATCH_QUEUE"
    using assms by (auto simp: watches_ok_def)
  with v(2) length_watch_push [of c v]
  show "watch_wid w = i" "length (watch_queue w) \<le> MAX_WATCH_QUEUE" by auto
qed

lemma notify_watches_frame [simp]:
  assumes "watches_ok (watches s)"
  shows "next_revision (notify_watches c s) = next_revision s"
    and "things (notify_watches c s) = things s"
    and "edges (notify_watches c s) = edges s"
    and "kind_index (notify_watches c s) = kind_index s"
    and "edges_by_src_pred (notify_watches c s) = edges_by_src_pred s"
    and "next_watch_id (notify_watches c s) = next_watch_id s"
  by (subst notify_watches_spec(1) [OF assms], simp)+

lemma store_inv_notify: "store_inv s \<Longrightarrow> store_inv (notify_watches c s)"
  by (simp add: store_inv_def watches_ok_notify)

end
