(* ===== verification/Store_Ops.thy ===== *)
theory Store_Ops
  imports Store_Inv
begin

text \<open>
  What each operation of the graph store does, as lemmas over the invariant: the effect on the
  versions, on the edge log and on the set of authority triples, and that the invariant is kept.
\<close>

section \<open>Authority as a set of triples\<close>

definition triples :: "store \<Rightarrow> (uuid \<times> string \<times> uuid) set" where
  "triples s = (\<lambda>e. (edge_src e, edge_pred e, edge_dst e)) ` set (edges s)"

lemma index_list_ex:
  assumes "store_inv s"
  shows "(case bt_get (edges_by_src_pred s) (i, p) of None \<Rightarrow> False | Some es \<Rightarrow> list_ex P es) \<longleftrightarrow>
     (\<exists>e \<in> set (edges s). edge_src e = i \<and> edge_pred e = p \<and> P e)"
proof -
  have "bt_list (edges_by_src_pred s) (i, p) = filter (\<lambda>e. edge_key e = (i, p)) (edges s)"
    using assms by (simp add: store_inv_def index_ok_def)
  then have "set (bt_list (edges_by_src_pred s) (i, p)) = {e \<in> set (edges s). edge_key e = (i, p)}"
    by simp
  then show ?thesis
    by (cases "bt_get (edges_by_src_pred s) (i, p)")
      (auto simp: bt_list_def edge_key_def list_ex_iff)
qed

lemma owns_iff: "store_inv s \<Longrightarrow> owns s b n \<longleftrightarrow> (bundle_uuid b, ''OWNS'', n) \<in> triples s"
  by (force simp: owns_def index_list_ex bundle_node_id_def triples_def)

lemma has_capability_iff:
  "store_inv s \<Longrightarrow> has_capability s b n p \<longleftrightarrow> (bundle_uuid b, symbol_to_string p, n) \<in> triples s"
  by (force simp: has_capability_def index_list_ex bundle_node_id_def triples_def)

lemma can_write_iff:
  "store_inv s \<Longrightarrow> can_write s b n \<longleftrightarrow>
     b = KERNEL_BUNDLE_ID \<or> (bundle_uuid b, ''OWNS'', n) \<in> triples s \<or>
     (bundle_uuid b, ''CAN_WRITE'', n) \<in> triples s"
  by (simp add: can_write_def owns_iff has_capability_iff)

lemma can_read_iff:
  "store_inv s \<Longrightarrow> can_read s b n \<longleftrightarrow>
     (bundle_uuid b, ''CAN_READ'', n) \<in> triples s \<or> can_write s b n"
  by (auto simp: can_read_def can_write_def has_capability_iff)

lemma can_link_iff:
  "store_inv s \<Longrightarrow> can_link s b from to kind \<longleftrightarrow>
     b = KERNEL_BUNDLE_ID \<or> owns s b from \<or> owns s b to \<or>
     (\<exists>e \<in> set (edges s). edge_src e = bundle_uuid b \<and> edge_pred e = ''CAN_LINK'' \<and>
        (edge_dst e = from \<or> edge_dst e = to) \<and>
        (case bt_get (edge_props e) canon_KIND of
           Some (VSymbol cap_kind) \<Rightarrow> symbol_to_string cap_kind = kind
         | _ \<Rightarrow> True))"
  by (auto simp: can_link_def index_list_ex bundle_node_id_def)

lemma edges_of_index:
  "store_inv s \<Longrightarrow> edges_of s i p = filter (\<lambda>e. edge_src e = i \<and> edge_pred e = p) (edges s)"
  by (simp add: edges_of_def store_inv_def index_ok_def edge_key_def bt_list_def)

lemma edge_between_None:
  assumes "store_inv s"
  shows "edge_between s i p d = None \<longleftrightarrow> (i, p, d) \<notin> triples s"
proof -
  have "edge_between s i p d = find (\<lambda>e. edge_dst e = d) (rev (edges_of s i p))"
    by (simp add: edge_between_def edges_of_def split: option.splits)
  then show ?thesis
    by (auto simp: edges_of_index [OF assms] find_None_iff triples_def)
qed

lemma edge_between_Some:
  assumes "store_inv s" "edge_between s i p d = Some e"
  shows "e \<in> set (edges s) \<and> edge_src e = i \<and> edge_pred e = p \<and> edge_dst e = d"
proof -
  have "find (\<lambda>e. edge_dst e = d) (rev (edges_of s i p)) = Some e"
    using assms(2) by (simp add: edge_between_def edges_of_def split: option.splits)
  then have "edge_dst e = d \<and> e \<in> set (rev (edges_of s i p))"
    unfolding find_Some_iff by (metis nth_mem)
  then show ?thesis by (simp add: edges_of_index [OF assms(1)])
qed

section \<open>ensure_bundle_node\<close>

lemma ensure_bundle_node_spec:
  fixes b :: bundle_id and i :: uuid and s :: store
  assumes inv: "store_inv s" and rm: "room s (Suc n)"
  defines "s' \<equiv> ensure_bundle_node b s"
  shows "store_inv s'" and "room s' n"
    and "edges s' = edges s" and "edges_by_src_pred s' = edges_by_src_pred s"
    and "watches s' = watches s" and "next_watch_id s' = next_watch_id s"
    and "bt_list (things s') (bundle_uuid b) \<noteq> []"
    and "i \<noteq> bundle_uuid b \<or> latest s i \<noteq> None \<Longrightarrow> bt_list (things s') i = bt_list (things s) i"
    and "next_revision s \<le> next_revision s'"
proof -
  have "store_inv s' \<and> room s' n \<and> edges s' = edges s \<and> edges_by_src_pred s' = edges_by_src_pred s \<and>
    watches s' = watches s \<and> next_watch_id s' = next_watch_id s \<and>
    bt_list (things s') (bundle_uuid b) \<noteq> [] \<and>
    (i \<noteq> bundle_uuid b \<or> latest s i \<noteq> None \<longrightarrow> bt_list (things s') i = bt_list (things s) i) \<and>
    next_revision s \<le> next_revision s'"
  proof (cases "bt_get (things s) (bundle_uuid b)")
    case (Some vs)
    then have "s' = s" by (simp add: s'_def ensure_bundle_node_def bundle_node_id_def)
    moreover have "vs \<noteq> []" using inv Some by (auto simp: store_inv_def things_ok_def)
    ultimately show ?thesis
      using inv rm Some by (auto simp: room_def bt_list_def)
  next
    case None
    let ?s1 = "s\<lparr>next_revision := next_revision s + 1\<rparr>"
    define t where "t = \<lparr>thing_id = bundle_uuid b, thing_kind = canon_BUNDLE,
      thing_labels = [canon_BUNDLE], thing_fields = [(canon_ID, VUuid (bundle_uuid b))],
      thing_owner = bundle_uuid b, thing_revision = next_revision s\<rparr>"
    have s': "s' = insert_thing t ?s1"
      using None by (simp add: s'_def ensure_bundle_node_def bundle_node_id_def next_rev_def t_def Let_def)
    have pre: "pre_inv (thing_revision t) ?s1" "room ?s1 n"
      using next_rev_pre [OF inv rm] by (simp_all add: t_def)
    have bump: "next_revision s \<le> next_revision s + 1"
      using room_bump(2) [OF rm] by simp
    have l: "latest s (bundle_uuid b) = None" using None by (simp add: latest_def)
    have id: "thing_id t = bundle_uuid b" by (simp add: t_def)
    have "store_inv s'" unfolding s' by (rule store_inv_insert_thing [OF pre(1)])
    moreover have "room s' n"
      using pre(2) unfolding s' pre_inv_insert_thing(1) [OF pre(1)] by (simp add: room_def)
    ultimately show ?thesis
      using bump l id unfolding s' pre_inv_insert_thing(1) [OF pre(1)] by auto
  qed
  then show "store_inv s'" and "room s' n"
    and "edges s' = edges s" and "edges_by_src_pred s' = edges_by_src_pred s"
    and "watches s' = watches s" and "next_watch_id s' = next_watch_id s"
    and "bt_list (things s') (bundle_uuid b) \<noteq> []"
    and "i \<noteq> bundle_uuid b \<or> latest s i \<noteq> None \<Longrightarrow> bt_list (things s') i = bt_list (things s) i"
    and "next_revision s \<le> next_revision s'"
    by blast+
qed

lemma latest_ensure:
  assumes "store_inv s" "room s (Suc n)"
  shows "i \<noteq> bundle_uuid b \<or> latest s i \<noteq> None \<Longrightarrow> latest (ensure_bundle_node b s) i = latest s i"
  using ensure_bundle_node_spec(8) [OF assms] by (simp add: latest_bt_list)

section \<open>fiat_node\<close>

text \<open>The thing a \<open>fiat_node\<close> call makes, given the revision it gets.\<close>

definition fiat_thing :: "ext \<Rightarrow> bundle_id \<Rightarrow> graph_node_request \<Rightarrow> u64 \<Rightarrow> graph_thing" where
  "fiat_thing x owner request revision =
     (let labels0 = bs_of_list (node_labels request);
          labels = (if labels0 = [] then [canon_THING_CREATED] else labels0);
          props = bt_entry canon_OWNER (VUuid (bundle_uuid owner)) (node_props request)
      in \<lparr>thing_id = (case node_id request of
                        Some i \<Rightarrow> i
                      | None \<Rightarrow> derive_uuid x (to_be_bytes (raw (hd labels))) props),
          thing_kind = hd labels, thing_labels = labels, thing_fields = props,
          thing_owner = bundle_uuid owner, thing_revision = revision\<rparr>)"

lemma thing_revision_fiat_thing [simp]: "thing_revision (fiat_thing x owner request r) = r"
  by (simp add: fiat_thing_def Let_def)

lemma edge_revision_ownership [simp]: "edge_revision (ownership_edge x owner node r) = r"
  by (simp add: ownership_edge_def Let_def)

lemma ownership_edge_triple [simp]:
  "edge_src (ownership_edge x owner node r) = bundle_uuid owner"
  "edge_pred (ownership_edge x owner node r) = ''OWNS''"
  "edge_dst (ownership_edge x owner node r) = node"
  by (simp_all add: ownership_edge_def Let_def bundle_node_id_def)

lemma fiat_node_eq:
  "fiat_node x owner request (s, jo) =
     (let s1 = ensure_bundle_node owner s;
          t = fiat_thing x owner request (next_revision s1);
          s4 = insert_edge (ownership_edge x owner (thing_id t) (next_revision s1))
                 (insert_thing t (s1\<lparr>next_revision := next_revision s1 + 1\<rparr>))
      in (t, notify_watches (CThing t) s4, emit_thing_event x t jo))"
  by (simp add: fiat_node_def fiat_thing_def add_ownership_edge_def next_rev_def Let_def)

lemma fiat_node_spec:
  assumes inv: "store_inv s" and rm: "room s (Suc (Suc n))"
    and res: "fiat_node x owner request (s, jo) = (t, s', jo')"
  shows "store_inv s'" and "room s' n"
    and "latest s' (thing_id t) = Some t"
    and "\<exists>r. t = fiat_thing x owner request r \<and> next_revision s \<le> r \<and> r < next_revision s'"
    and "edges s' = edges s @ [ownership_edge x owner (thing_id t) (thing_revision t)]"
    and "i \<noteq> thing_id t \<Longrightarrow> i \<noteq> bundle_uuid owner \<or> latest s i \<noteq> None \<Longrightarrow> latest s' i = latest s i"
    and "next_watch_id s' = next_watch_id s"
    and "jo' = emit_thing_event x t jo"
proof -
  let ?s1 = "ensure_bundle_node owner s"
  let ?s2 = "?s1\<lparr>next_revision := next_revision ?s1 + 1\<rparr>"
  let ?e = "ownership_edge x owner (thing_id t) (next_revision ?s1)"
  note en = ensure_bundle_node_spec [OF inv rm, where b = owner]
  have t: "t = fiat_thing x owner request (next_revision ?s1)"
    and s': "s' = notify_watches (CThing t) (insert_edge ?e (insert_thing t ?s2))"
    and jo': "jo' = emit_thing_event x t jo"
    using res by (auto simp: fiat_node_eq Let_def)
  have pre: "pre_inv (thing_revision t) ?s2" "room ?s2 n"
    using next_rev_pre [OF en(1,2)] by (simp_all add: t)
  have er: "edge_revision ?e = thing_revision t" by (simp add: t)
  note both = store_inv_insert_both [OF pre(1) er]
  note it = pre_inv_insert_thing(1) [OF pre(1)]
  let ?s4 = "insert_edge ?e (insert_thing t ?s2)"
  have w: "watches_ok (watches ?s4)" using both(2) by (simp add: store_inv_def)
  show "store_inv s'" unfolding s' by (rule store_inv_notify [OF both(2)])
  have th: "things ?s4 = bt_insert (thing_id t) (bt_list (things ?s1) (thing_id t) @ [t]) (things ?s1)"
    unfolding both(1) unfolding it by simp
  have nr: "next_revision ?s4 = next_revision ?s1 + 1" unfolding both(1) unfolding it by simp
  show "room s' n" using pre(2) unfolding s' room_def notify_watches_frame [OF w] unfolding nr by simp
  show "latest s' (thing_id t) = Some t"
    unfolding s' latest_bt_list notify_watches_frame [OF w] unfolding th by simp
  show "\<exists>r. t = fiat_thing x owner request r \<and> next_revision s \<le> r \<and> r < next_revision s'"
    using en(9) room_bump(2) [OF en(2)] t unfolding s' notify_watches_frame [OF w] unfolding nr by blast
  show "edges s' = edges s @ [ownership_edge x owner (thing_id t) (thing_revision t)]"
    unfolding s' notify_watches_frame [OF w] unfolding both(1) unfolding it using en(3) by (simp add: t)
  show "latest s' i = latest s i" if "i \<noteq> thing_id t" "i \<noteq> bundle_uuid owner \<or> latest s i \<noteq> None"
    using that en(8) [where i = i]
    unfolding s' latest_bt_list notify_watches_frame [OF w] unfolding th by simp
  show "next_watch_id s' = next_watch_id s"
    unfolding s' notify_watches_frame [OF w] unfolding both(1) unfolding it using en(6) by simp
  show "jo' = emit_thing_event x t jo" by (rule jo')
qed

lemma triples_snoc:
  "edges s' = edges s @ [e] \<Longrightarrow> triples s' = insert (edge_src e, edge_pred e, edge_dst e) (triples s)"
  by (simp add: triples_def)

section \<open>link_edge and grant_capability\<close>

lemma add_edge_spec:
  fixes e :: graph_edge and s :: store
  assumes inv: "store_inv s" and rm: "room s (Suc n)" and e: "edge_revision e = next_revision s"
  defines "s' \<equiv> notify_watches (CEdge e) (insert_edge e (s\<lparr>next_revision := next_revision s + 1\<rparr>))"
  shows "store_inv s'" and "room s' n" and "edges s' = edges s @ [e]" and "things s' = things s"
    and "next_watch_id s' = next_watch_id s"
proof -
  let ?s1 = "s\<lparr>next_revision := next_revision s + 1\<rparr>"
  have pre: "pre_inv (edge_revision e) ?s1" "room ?s1 n"
    using next_rev_pre [OF inv rm] by (simp_all add: e)
  note ie = pre_inv_insert_edge [OF pre(1)]
  have w: "watches_ok (watches (insert_edge e ?s1))" using ie(2) by (simp add: store_inv_def)
  show "store_inv s'" unfolding s'_def by (rule store_inv_notify [OF ie(2)])
  show "room s' n" using pre(2) unfolding s'_def room_def notify_watches_frame [OF w] unfolding ie(1) by simp
  show "edges s' = edges s @ [e]" "things s' = things s" "next_watch_id s' = next_watch_id s"
    unfolding s'_def notify_watches_frame [OF w] unfolding ie(1) by simp_all
qed

definition link_edge_made :: "ext \<Rightarrow> bundle_id \<Rightarrow> graph_link_request \<Rightarrow> u64 \<Rightarrow> graph_edge" where
  "link_edge_made x owner request revision =
     \<lparr>edge_id = (case link_id request of
                   Some i \<Rightarrow> i
                 | None \<Rightarrow> derive_uuid x (as_bytes (link_pred request)) (link_props request)),
      edge_src = link_from request, edge_pred = link_pred request, edge_dst = link_to request,
      edge_props = link_props request, edge_owner = bundle_uuid owner, edge_revision = revision\<rparr>"

lemma link_edge_eq:
  "link_edge x owner request (s, jo) =
     (if \<not> can_link s owner (link_from request) (link_to request) (link_pred request) then (0, s, jo)
      else case edge_between s (link_from request) (link_pred request) (link_to request) of
        Some existing \<Rightarrow> (edge_revision existing, s, jo)
      | None \<Rightarrow>
          let e = link_edge_made x owner request (next_revision s)
          in (next_revision s,
              notify_watches (CEdge e) (insert_edge e (s\<lparr>next_revision := next_revision s + 1\<rparr>)),
              emit_edge_event x e jo))"
  by (auto simp: link_edge_def link_edge_made_def next_rev_def Let_def split: option.splits)

lemma link_edge_spec:
  assumes inv: "store_inv s" and rm: "room s (Suc n)"
    and res: "link_edge x owner request (s, jo) = (r, s', jo')"
  shows "store_inv s'" and "room s' n" and "things s' = things s" and "set (edges s) \<subseteq> set (edges s')"
    and "triples s' = triples s \<union>
      (if can_link s owner (link_from request) (link_to request) (link_pred request)
       then {(link_from request, link_pred request, link_to request)} else {})"
    and "next_watch_id s' = next_watch_id s"
proof -
  have "store_inv s' \<and> room s' n \<and> things s' = things s \<and> set (edges s) \<subseteq> set (edges s') \<and>
    triples s' = triples s \<union>
      (if can_link s owner (link_from request) (link_to request) (link_pred request)
       then {(link_from request, link_pred request, link_to request)} else {}) \<and>
    next_watch_id s' = next_watch_id s"
  proof (cases "can_link s owner (link_from request) (link_to request) (link_pred request)")
    case False
    then show ?thesis using res inv room_mono [OF rm] by (auto simp: link_edge_eq)
  next
    case can: True
    show ?thesis
    proof (cases "edge_between s (link_from request) (link_pred request) (link_to request)")
      case (Some e)
      then have "(link_from request, link_pred request, link_to request) \<in> triples s"
        using edge_between_None [OF inv] by (metis option.distinct(1))
      then show ?thesis using can Some res inv room_mono [OF rm] by (auto simp: link_edge_eq)
    next
      case None
      let ?e = "link_edge_made x owner request (next_revision s)"
      have e: "edge_revision ?e = next_revision s" by (simp add: link_edge_made_def)
      have s': "s' = notify_watches (CEdge ?e) (insert_edge ?e (s\<lparr>next_revision := next_revision s + 1\<rparr>))"
        using can None res by (auto simp: link_edge_eq Let_def)
      note a = add_edge_spec [OF inv rm e, folded s']
      show ?thesis using a can triples_snoc [OF a(3)] by (auto simp: link_edge_made_def)
    qed
  qed
  then show "store_inv s'" and "room s' n" and "things s' = things s" and "set (edges s) \<subseteq> set (edges s')"
    and "triples s' = triples s \<union>
      (if can_link s owner (link_from request) (link_to request) (link_pred request)
       then {(link_from request, link_pred request, link_to request)} else {})"
    and "next_watch_id s' = next_watch_id s"
    by blast+
qed

text \<open>Who may grant what: hardware capabilities the kernel only, data capabilities the kernel and
  the owner of the target.\<close>

definition grant_allowed :: "store \<Rightarrow> bundle_id \<Rightarrow> grant_capability_request \<Rightarrow> bool" where
  "grant_allowed s grantor request \<longleftrightarrow>
     (is_hardware_capability (gc_capability request) \<and> grantor = KERNEL_BUNDLE_ID) \<or>
     (is_data_capability (gc_capability request) \<and>
      (grantor = KERNEL_BUNDLE_ID \<or> owns s grantor (gc_target request)))"

lemma capability_kinds_disjoint: "\<not> (is_data_capability c \<and> is_hardware_capability c)"
  by (auto simp: is_data_capability_def is_hardware_capability_def)

definition grant_edge :: "ext \<Rightarrow> bundle_id \<Rightarrow> grant_capability_request \<Rightarrow> u64 \<Rightarrow> graph_edge" where
  "grant_edge x grantor request revision =
     (let props = bt_insert canon_DST (VUuid (gc_target request))
                    (bt_insert canon_OWNER (VUuid (bundle_uuid grantor)) [])
      in \<lparr>edge_id = derive_uuid x (as_bytes (gc_capability request)) props,
          edge_src = gc_grantee request, edge_pred = gc_capability request,
          edge_dst = gc_target request, edge_props = props, edge_owner = bundle_uuid grantor,
          edge_revision = revision\<rparr>)"

lemma grant_capability_eq:
  "grant_capability x grantor request (s, jo) =
     (if \<not> grant_allowed s grantor request then (False, s, jo)
      else let s1 = ensure_bundle_node (BundleId (gc_grantee request)) s;
               e = grant_edge x grantor request (next_revision s1)
           in (True,
               notify_watches (CEdge e) (insert_edge e (s1\<lparr>next_revision := next_revision s1 + 1\<rparr>)),
               emit_edge_event x e jo))"
  using capability_kinds_disjoint [of "gc_capability request"]
  by (auto simp: grant_capability_def grant_edge_def grant_allowed_def next_rev_def bundle_node_id_def Let_def)

lemma grant_capability_spec:
  assumes inv: "store_inv s" and rm: "room s (Suc (Suc n))"
    and res: "grant_capability x grantor request (s, jo) = (ok, s', jo')"
  shows "ok \<longleftrightarrow> grant_allowed s grantor request"
    and "store_inv s'" and "room s' n" and "set (edges s) \<subseteq> set (edges s')"
    and "triples s' = triples s \<union>
      (if ok then {(gc_grantee request, gc_capability request, gc_target request)} else {})"
    and "\<not> ok \<Longrightarrow> s' = s \<and> jo' = jo"
    and "i \<noteq> gc_grantee request \<or> latest s i \<noteq> None \<Longrightarrow> latest s' i = latest s i"
    and "next_watch_id s' = next_watch_id s"
proof -
  show okk: "ok \<longleftrightarrow> grant_allowed s grantor request"
    using res by (auto simp: grant_capability_eq Let_def split: if_splits)
  show "\<not> ok \<Longrightarrow> s' = s \<and> jo' = jo"
    using res by (auto simp: grant_capability_eq Let_def split: if_splits)
  have "store_inv s' \<and> room s' n \<and> set (edges s) \<subseteq> set (edges s') \<and>
    triples s' = triples s \<union>
      (if ok then {(gc_grantee request, gc_capability request, gc_target request)} else {}) \<and>
    (i \<noteq> gc_grantee request \<or> latest s i \<noteq> None \<longrightarrow> latest s' i = latest s i) \<and>
    next_watch_id s' = next_watch_id s"
  proof (cases ok)
    case False
    then have "s' = s" using res by (auto simp: grant_capability_eq Let_def split: if_splits)
    then show ?thesis using False inv room_mono [OF rm] by simp
  next
    case True
    let ?b = "BundleId (gc_grantee request)"
    let ?s1 = "ensure_bundle_node ?b s"
    let ?e = "grant_edge x grantor request (next_revision ?s1)"
    note en = ensure_bundle_node_spec [OF inv rm, where b = ?b]
    have e: "edge_revision ?e = next_revision ?s1" by (simp add: grant_edge_def Let_def)
    have s': "s' = notify_watches (CEdge ?e) (insert_edge ?e (?s1\<lparr>next_revision := next_revision ?s1 + 1\<rparr>))"
      using True okk res by (auto simp: grant_capability_eq Let_def)
    note a = add_edge_spec [OF en(1,2) e, folded s']
    have tr: "triples s' = insert (gc_grantee request, gc_capability request, gc_target request) (triples s)"
      using triples_snoc [OF a(3)] en(3) by (simp add: grant_edge_def Let_def triples_def)
    have "i \<noteq> gc_grantee request \<or> latest s i \<noteq> None \<longrightarrow> latest s' i = latest s i"
      using latest_ensure [OF inv rm, of i ?b] a(4) by (simp add: latest_bt_list)
    then show ?thesis using a en(3,6) tr True by auto
  qed
  then show "store_inv s'" and "room s' n" and "set (edges s) \<subseteq> set (edges s')"
    and "triples s' = triples s \<union>
      (if ok then {(gc_grantee request, gc_capability request, gc_target request)} else {})"
    and "i \<noteq> gc_grantee request \<or> latest s i \<noteq> None \<Longrightarrow> latest s' i = latest s i"
    and "next_watch_id s' = next_watch_id s"
    by blast+
qed

section \<open>set_props\<close>

lemma set_props_spec:
  assumes inv: "store_inv s" and rm: "room s (Suc n)"
    and res: "set_props owner request s = (ok, s')"
  shows "ok \<longleftrightarrow> latest s (ps_node request) \<noteq> None \<and> can_write s owner (ps_node request)"
    and "\<not> ok \<Longrightarrow> s' = s"
    and "store_inv s'" and "room s' n" and "edges s' = edges s" and "next_watch_id s' = next_watch_id s"
    and "ok \<Longrightarrow> latest s' (ps_node request) =
      map_option (\<lambda>t. t\<lparr>thing_fields := bt_extend (thing_fields t) (ps_props request),
                        thing_revision := next_revision s\<rparr>) (latest s (ps_node request))"
    and "i \<noteq> ps_node request \<Longrightarrow> latest s' i = latest s i"
proof -
  have "(ok \<longleftrightarrow> latest s (ps_node request) \<noteq> None \<and> can_write s owner (ps_node request)) \<and>
    (\<not> ok \<longrightarrow> s' = s) \<and>
    store_inv s' \<and> room s' n \<and> edges s' = edges s \<and> next_watch_id s' = next_watch_id s \<and>
    (ok \<longrightarrow> latest s' (ps_node request) =
      map_option (\<lambda>t. t\<lparr>thing_fields := bt_extend (thing_fields t) (ps_props request),
                        thing_revision := next_revision s\<rparr>) (latest s (ps_node request))) \<and>
    (i \<noteq> ps_node request \<longrightarrow> latest s' i = latest s i)"
  proof (cases "latest s (ps_node request)")
    case None
    then show ?thesis using res inv room_mono [OF rm] by (auto simp: set_props_def)
  next
    case (Some c)
    have cid: "thing_id c = ps_node request" by (rule store_inv_latest(1) [OF inv Some])
    show ?thesis
    proof (cases "can_write s owner (ps_node request)")
      case False
      then show ?thesis using Some res cid inv room_mono [OF rm] by (auto simp: set_props_def)
    next
      case True
      let ?s1 = "s\<lparr>next_revision := next_revision s + 1\<rparr>"
      define c' where "c' = c\<lparr>thing_fields := bt_extend (thing_fields c) (ps_props request),
        thing_revision := next_revision s\<rparr>"
      have c'id: "thing_id c' = ps_node request" by (simp add: c'_def cid)
      have s': "ok" "s' = notify_watches (CThing c') (insert_thing c' ?s1)"
        using res Some True cid by (auto simp: set_props_def next_rev_def c'_def Let_def)
      have pre: "pre_inv (thing_revision c') ?s1" "room ?s1 n"
        using next_rev_pre [OF inv rm] by (simp_all add: c'_def)
      note it = pre_inv_insert_thing(1) [OF pre(1)]
      have si: "store_inv (insert_thing c' ?s1)" by (rule store_inv_insert_thing [OF pre(1)])
      then have w: "watches_ok (watches (insert_thing c' ?s1))" by (simp add: store_inv_def)
      have "store_inv s'" unfolding s' by (rule store_inv_notify [OF si])
      moreover have "room s' n" "edges s' = edges s" "next_watch_id s' = next_watch_id s"
        using pre(2) unfolding s' room_def notify_watches_frame [OF w] unfolding it by simp_all
      moreover have "latest s' (ps_node request) = Some c'"
        unfolding s' latest_bt_list notify_watches_frame [OF w] unfolding it by (simp add: c'id)
      moreover have "i \<noteq> ps_node request \<longrightarrow> latest s' i = latest s i"
        unfolding s' latest_bt_list notify_watches_frame [OF w] unfolding it by (simp add: c'id)
      ultimately show ?thesis using s'(1) Some True by (simp add: c'_def)
    qed
  qed
  then show "ok \<longleftrightarrow> latest s (ps_node request) \<noteq> None \<and> can_write s owner (ps_node request)"
    and "\<not> ok \<Longrightarrow> s' = s"
    and "store_inv s'" and "room s' n" and "edges s' = edges s" and "next_watch_id s' = next_watch_id s"
    and "ok \<Longrightarrow> latest s' (ps_node request) =
      map_option (\<lambda>t. t\<lparr>thing_fields := bt_extend (thing_fields t) (ps_props request),
                        thing_revision := next_revision s\<rparr>) (latest s (ps_node request))"
    and "i \<noteq> ps_node request \<Longrightarrow> latest s' i = latest s i"
    by blast+
qed

section \<open>Watches\<close>

lemma store_inv_watches: "store_inv s \<Longrightarrow> watches_ok ws \<Longrightarrow> store_inv (s\<lparr>watches := ws\<rparr>)"
  by (simp add: store_inv_def)

lemma watches_ok_insert:
  assumes "watches_ok ws" "watch_wid w = i" "length (watch_queue w) \<le> MAX_WATCH_QUEUE"
  shows "watches_ok (bt_insert i w ws)"
  using assms by (auto simp: watches_ok_def)

lemma store_inv_register:
  assumes "store_inv s"
  shows "store_inv (snd (register_watch_pattern owner pattern s))"
proof -
  have "store_inv (s\<lparr>next_watch_id := next_watch_id s + 1\<rparr>)"
    using assms by (simp add: store_inv_def)
  moreover have "watches_ok (bt_insert (next_watch_id s)
      \<lparr>watch_wid = next_watch_id s, watch_owner = owner, watch_pattern = pattern, watch_queue = []\<rparr>
      (watches s))"
    using assms by (intro watches_ok_insert) (auto simp: store_inv_def)
  ultimately show ?thesis
    by (simp add: register_watch_pattern_def store_inv_def Let_def)
qed

lemma store_inv_poll:
  assumes "store_inv s"
  shows "store_inv (snd (poll_watch i s))"
proof -
  have "watches_ok (bt_insert i (w\<lparr>watch_queue := []\<rparr>) (watches s))" if "bt_get (watches s) i = Some w" for w
    using assms that by (intro watches_ok_insert) (auto simp: store_inv_def watches_ok_def)
  then show ?thesis
    using assms by (auto simp: poll_watch_def intro: store_inv_watches split: option.splits)
qed

end
