(* ===== verification/Store_Steps.thy ===== *)
theory Store_Steps
  imports Store_Ops
begin

text \<open>
  The store as a state machine: one constructor per mutating entry point, the step function,
  the states reachable in a number of steps, and the facts about every step that the
  properties of the graph rest on: the invariant, the exact change of authority, the exact
  delivery to watches, and what can change the latest version of a thing.
\<close>

section \<open>Operations as steps\<close>

datatype store_op =
    OFiatNode bundle_id graph_node_request
  | OFiat bundle_id graph_fiat_request
  | OLink bundle_id graph_link_request
  | OThat bundle_id graph_that_request
  | OSetProps bundle_id graph_props_request
  | OGrant bundle_id grant_capability_request
  | ORegister bundle_id watch_query
  | ORegisterPattern bundle_id node_pattern
  | OPoll watch_id

fun store_step :: "ext \<Rightarrow> store_op \<Rightarrow> graph_state \<Rightarrow> graph_state" where
  "store_step x (OFiatNode b r) st = snd (fiat_node x b r st)"
| "store_step x (OFiat b r) st = snd (fiat x b r st)"
| "store_step x (OLink b r) st = snd (link_edge x b r st)"
| "store_step x (OThat b r) st = snd (that x b r st)"
| "store_step x (OSetProps b r) (s, jo) = (snd (set_props b r s), jo)"
| "store_step x (OGrant b r) st = snd (grant_capability x b r st)"
| "store_step x (ORegister b q) (s, jo) = (snd (register_watch b q s), jo)"
| "store_step x (ORegisterPattern b p) (s, jo) = (snd (register_watch_pattern b p s), jo)"
| "store_step x (OPoll i) (s, jo) = (snd (poll_watch i s), jo)"

inductive graph_reach :: "ext \<Rightarrow> nat \<Rightarrow> graph_state \<Rightarrow> bool" for x where
  boot: "graph_reach x 0 (store_new, journal_init None)"
| step: "graph_reach x n st \<Longrightarrow> graph_reach x (Suc n) (store_step x op st)"

text \<open>The legacy entry points are the node and link requests they build.\<close>

definition fiat_as_node :: "graph_fiat_request \<Rightarrow> graph_node_request" where
  "fiat_as_node r = \<lparr>node_id = fiat_id r, node_labels = [fiat_kind r], node_props = fiat_fields r\<rparr>"

definition that_as_link :: "graph_that_request \<Rightarrow> graph_link_request" where
  "that_as_link r = \<lparr>link_id = None, link_pred = that_pred r, link_from = that_src r,
     link_to = that_dst r, link_props = that_props r\<rparr>"

fun op_normal :: "store_op \<Rightarrow> store_op" where
  "op_normal (OFiat b r) = OFiatNode b (fiat_as_node r)"
| "op_normal (OThat b r) = OLink b (that_as_link r)"
| "op_normal (ORegister b q) =
     ORegisterPattern b
       \<lparr>pat_labels = (case wq_kind q of None \<Rightarrow> [] | Some kind \<Rightarrow> [kind]),
        pat_props =
          (let p0 = (case wq_src q of None \<Rightarrow> [] | Some src \<Rightarrow> bt_insert canon_SRC (VUuid src) [])
           in case wq_dst q of None \<Rightarrow> p0 | Some dst \<Rightarrow> bt_insert canon_DST (VUuid dst) p0)\<rparr>"
| "op_normal op = op"

lemma store_step_normal: "store_step x (op_normal op) st = store_step x op st"
  by (cases op; cases st)
    (simp_all add: fiat_def that_def fiat_as_node_def that_as_link_def register_watch_def Let_def)

lemma op_normal_idem [simp]: "op_normal (op_normal op) = op_normal op"
  by (cases op) simp_all

text \<open>Case analysis on a step needs the five operations a normalised step can be.\<close>

lemma op_normal_cases:
  obtains (fiat) b r where "op_normal op = OFiatNode b r"
  | (link) b r where "op_normal op = OLink b r"
  | (set) b r where "op_normal op = OSetProps b r"
  | (grant) b r where "op_normal op = OGrant b r"
  | (register) b p where "op_normal op = ORegisterPattern b p"
  | (poll) i where "op_normal op = OPoll i"
  by (cases op) auto

lemma journal_ok_init: "journal_ok (journal_init None)"
  by (simp add: journal_init_def with_journal_def journal_ok_def journal_new_def)

lemma journal_ok_events [simp]:
  "journal_ok jo \<Longrightarrow> journal_ok (emit_thing_event x t jo)"
  "journal_ok jo \<Longrightarrow> journal_ok (emit_edge_event x e jo)"
  by (simp_all add: emit_thing_event_def emit_edge_event_def Let_def)

section \<open>Every step keeps the invariant\<close>

lemma register_watch_pattern_frame:
  "things (snd (register_watch_pattern b p s)) = things s"
  "edges (snd (register_watch_pattern b p s)) = edges s"
  "edges_by_src_pred (snd (register_watch_pattern b p s)) = edges_by_src_pred s"
  "next_revision (snd (register_watch_pattern b p s)) = next_revision s"
  by (simp_all add: register_watch_pattern_def Let_def)

lemma poll_watch_frame:
  "things (snd (poll_watch i s)) = things s"
  "edges (snd (poll_watch i s)) = edges s"
  "edges_by_src_pred (snd (poll_watch i s)) = edges_by_src_pred s"
  "next_revision (snd (poll_watch i s)) = next_revision s"
  by (simp_all add: poll_watch_def Let_def split: option.splits)

lemma step_inv:
  assumes inv: "store_inv s" and rm: "room s (Suc (Suc n))"
    and st: "store_step x op (s, jo) = (s', jo')"
  shows "store_inv s' \<and> room s' n \<and> set (edges s) \<subseteq> set (edges s')"
proof (cases op rule: op_normal_cases)
  case (fiat b r)
  then obtain t where "fiat_node x b r (s, jo) = (t, s', jo')"
    using st store_step_normal [of x op "(s, jo)"] by (metis prod.collapse store_step.simps(1))
  from fiat_node_spec [OF inv rm this] show ?thesis by auto
next
  case (link b r)
  then obtain k where k: "link_edge x b r (s, jo) = (k, s', jo')"
    using st store_step_normal [of x op "(s, jo)"] by (metis prod.collapse store_step.simps(3))
  have "room s (Suc n)" using rm by (rule room_mono) simp
  from link_edge_spec [OF inv this k] show ?thesis by auto
next
  case (set b r)
  then obtain ok where ok: "set_props b r s = (ok, s')"
    using st store_step_normal [of x op "(s, jo)"] by (metis prod.collapse prod.inject store_step.simps(5))
  have "room s (Suc n)" using rm by (rule room_mono) simp
  from set_props_spec [OF inv this ok] show ?thesis by auto
next
  case (grant b r)
  then obtain ok where "grant_capability x b r (s, jo) = (ok, s', jo')"
    using st store_step_normal [of x op "(s, jo)"] by (metis prod.collapse store_step.simps(6))
  from grant_capability_spec [OF inv rm this] show ?thesis by auto
next
  case (register b p)
  then have "s' = snd (register_watch_pattern b p s)"
    using st store_step_normal [of x op "(s, jo)"] by simp
  then show ?thesis using store_inv_register [OF inv] rm by (simp add: room_def register_watch_pattern_frame)
next
  case (poll i)
  then have "s' = snd (poll_watch i s)"
    using st store_step_normal [of x op "(s, jo)"] by simp
  then show ?thesis using store_inv_poll [OF inv] rm by (simp add: room_def poll_watch_frame)
qed

lemma step_journal_ok: "journal_ok jo \<Longrightarrow> journal_ok (snd (store_step x op (s, jo)))"
proof (cases op rule: op_normal_cases)
  case (grant b r)
  then show "journal_ok jo \<Longrightarrow> ?thesis"
    using store_step_normal [of x op "(s, jo)", symmetric]
    by (simp add: grant_capability_eq Let_def)
next
  case (link b r)
  then show "journal_ok jo \<Longrightarrow> ?thesis"
    using store_step_normal [of x op "(s, jo)", symmetric]
    by (simp add: link_edge_eq Let_def split: option.splits)
qed (use store_step_normal [of x op "(s, jo)", symmetric] in \<open>simp_all add: fiat_node_eq Let_def\<close>)

lemma store_inv_new: "store_inv store_new"
  by (simp add: store_inv_def store_new_def edges_ok_def index_ok_def kinds_ok_def watches_ok_def)

lemma reach_inv:
  assumes "graph_reach x n st" and "2 * n + 1 + k < 2 ^ 64"
  shows "store_inv (fst st) \<and> room (fst st) k \<and> journal_ok (snd st)"
  using assms
proof (induction arbitrary: k rule: graph_reach.induct)
  case boot
  then have "room store_new k" by (simp add: room_def store_new_def)
  then show ?case by (simp add: store_inv_new journal_ok_init)
next
  case (step n st op)
  obtain s jo where st: "st = (s, jo)" by (cases st)
  obtain s' jo' where st': "store_step x op (s, jo) = (s', jo')" by fastforce
  have "2 * n + 1 + Suc (Suc k) < 2 ^ 64" using step.prems by simp
  then have "store_inv s \<and> room s (Suc (Suc k)) \<and> journal_ok jo"
    using step.IH [of "Suc (Suc k)"] by (simp only: st fst_conv snd_conv)
  then show ?case using step_inv [OF _ _ st', of k] step_journal_ok [of jo x op s] by (simp add: st st')
qed

section \<open>Authority\<close>

text \<open>The node a \<open>fiat_node\<close> call names, and the authority edge each operation adds.\<close>

definition fiat_target :: "ext \<Rightarrow> bundle_id \<Rightarrow> graph_node_request \<Rightarrow> uuid" where
  "fiat_target x b r = thing_id (fiat_thing x b r 0)"

lemma thing_id_fiat_thing [simp]: "thing_id (fiat_thing x b r k) = fiat_target x b r"
  by (simp add: fiat_target_def fiat_thing_def Let_def)

fun gain_normal :: "ext \<Rightarrow> store_op \<Rightarrow> store \<Rightarrow> (uuid \<times> string \<times> uuid) set" where
  "gain_normal x (OFiatNode b r) s = {(bundle_uuid b, ''OWNS'', fiat_target x b r)}"
| "gain_normal x (OLink b r) s =
     (if can_link s b (link_from r) (link_to r) (link_pred r)
      then {(link_from r, link_pred r, link_to r)} else {})"
| "gain_normal x (OGrant b r) s =
     (if grant_allowed s b r then {(gc_grantee r, gc_capability r, gc_target r)} else {})"
| "gain_normal x op s = {}"

definition gain :: "ext \<Rightarrow> store_op \<Rightarrow> store \<Rightarrow> (uuid \<times> string \<times> uuid) set" where
  "gain x op = gain_normal x (op_normal op)"

lemma triples_cong: "edges s' = edges s \<Longrightarrow> triples s' = triples s"
  by (simp add: triples_def)

lemma step_triples:
  assumes inv: "store_inv s" and rm: "room s 2"
    and st: "store_step x op (s, jo) = (s', jo')"
  shows "triples s' = triples s \<union> gain x op s"
proof -
  have rm2: "room s (Suc (Suc 0))" using rm by (simp add: numeral_2_eq_2)
  have rm1: "room s (Suc 0)" using rm by (rule room_mono) simp
  note nst = store_step_normal [of x op "(s, jo)"]
  show ?thesis
  proof (cases op rule: op_normal_cases)
    case (fiat b r)
    then obtain t where t: "fiat_node x b r (s, jo) = (t, s', jo')"
      using st nst by (metis prod.collapse store_step.simps(1))
    note fs = fiat_node_spec [OF inv rm2 t]
    have "thing_id t = fiat_target x b r" using fs(4) by auto
    with triples_snoc [OF fs(5)] fiat show ?thesis by (simp add: gain_def)
  next
    case (link b r)
    then obtain k where k: "link_edge x b r (s, jo) = (k, s', jo')"
      using st nst by (metis prod.collapse store_step.simps(3))
    with link_edge_spec(5) [OF inv rm1 k] link show ?thesis by (simp add: gain_def)
  next
    case (set b r)
    then obtain ok where ok: "set_props b r s = (ok, s')"
      using st nst by (metis prod.collapse prod.inject store_step.simps(5))
    with triples_cong [OF set_props_spec(5) [OF inv rm1 ok]] set show ?thesis by (simp add: gain_def)
  next
    case (grant b r)
    then obtain ok where ok: "grant_capability x b r (s, jo) = (ok, s', jo')"
      using st nst by (metis prod.collapse store_step.simps(6))
    with grant_capability_spec(1,5) [OF inv rm2 ok] grant show ?thesis by (simp add: gain_def)
  next
    case (register b p)
    then have "s' = snd (register_watch_pattern b p s)" using st nst by simp
    then show ?thesis using register by (simp add: gain_def triples_def register_watch_pattern_frame)
  next
    case (poll i)
    then have "s' = snd (poll_watch i s)" using st nst by simp
    then show ?thesis using poll by (simp add: gain_def triples_def poll_watch_frame)
  qed
qed

section \<open>Integrity: what can change the latest version of a thing\<close>

fun op_rewrites_normal :: "ext \<Rightarrow> store_op \<Rightarrow> store \<Rightarrow> uuid \<Rightarrow> bool" where
  "op_rewrites_normal x (OFiatNode b r) s i \<longleftrightarrow> i = fiat_target x b r"
| "op_rewrites_normal x (OSetProps b r) s i \<longleftrightarrow> i = ps_node r \<and> can_write s b i"
| "op_rewrites_normal x op s i \<longleftrightarrow> False"

definition op_rewrites :: "ext \<Rightarrow> store_op \<Rightarrow> store \<Rightarrow> uuid \<Rightarrow> bool" where
  "op_rewrites x op = op_rewrites_normal x (op_normal op)"

lemma step_latest:
  assumes inv: "store_inv s" and rm: "room s 2"
    and st: "store_step x op (s, jo) = (s', jo')"
    and ex: "latest s i \<noteq> None" and no: "\<not> op_rewrites x op s i"
  shows "latest s' i = latest s i"
proof -
  have rm2: "room s (Suc (Suc 0))" using rm by (simp add: numeral_2_eq_2)
  have rm1: "room s (Suc 0)" using rm by (rule room_mono) simp
  note nst = store_step_normal [of x op "(s, jo)"]
  show ?thesis
  proof (cases op rule: op_normal_cases)
    case (fiat b r)
    then obtain t where t: "fiat_node x b r (s, jo) = (t, s', jo')"
      using st nst by (metis prod.collapse store_step.simps(1))
    note fs = fiat_node_spec [OF inv rm2 t]
    have "i \<noteq> thing_id t" using fs(4) no fiat by (auto simp: op_rewrites_def)
    with fs(6) [of i] ex show ?thesis by blast
  next
    case (link b r)
    then obtain k where k: "link_edge x b r (s, jo) = (k, s', jo')"
      using st nst by (metis prod.collapse store_step.simps(3))
    with link_edge_spec(3) [OF inv rm1 k] show ?thesis by (simp add: latest_def)
  next
    case (set b r)
    then obtain ok where ok: "set_props b r s = (ok, s')"
      using st nst by (metis prod.collapse prod.inject store_step.simps(5))
    show ?thesis
    proof (cases "i = ps_node r")
      case True
      then have "\<not> ok" using no set set_props_spec(1) [OF inv rm1 ok] by (auto simp: op_rewrites_def)
      then show ?thesis using set_props_spec(2) [OF inv rm1 ok] by simp
    next
      case False
      then show ?thesis using set_props_spec(8) [OF inv rm1 ok] by simp
    qed
  next
    case (grant b r)
    then obtain ok where ok: "grant_capability x b r (s, jo) = (ok, s', jo')"
      using st nst by (metis prod.collapse store_step.simps(6))
    with grant_capability_spec(7) [OF inv rm2 ok] ex show ?thesis by blast
  next
    case (register b p)
    then have "s' = snd (register_watch_pattern b p s)" using st nst by simp
    then show ?thesis by (simp add: latest_def register_watch_pattern_frame)
  next
    case (poll i)
    then have "s' = snd (poll_watch i s)" using st nst by simp
    then show ?thesis by (simp add: latest_def poll_watch_frame)
  qed
qed

section \<open>Delivery to watches\<close>

text \<open>The change a step reports to the watches, if it reports one.\<close>

fun step_change_normal :: "ext \<Rightarrow> store_op \<Rightarrow> store \<Rightarrow> graph_change option" where
  "step_change_normal x (OFiatNode b r) s =
     Some (CThing (fiat_thing x b r (next_revision (ensure_bundle_node b s))))"
| "step_change_normal x (OLink b r) s =
     (if can_link s b (link_from r) (link_to r) (link_pred r) \<and>
         edge_between s (link_from r) (link_pred r) (link_to r) = None
      then Some (CEdge (link_edge_made x b r (next_revision s))) else None)"
| "step_change_normal x (OSetProps b r) s =
     (if can_write s b (ps_node r)
      then map_option (\<lambda>t. CThing (t\<lparr>thing_fields := bt_extend (thing_fields t) (ps_props r),
                                      thing_revision := next_revision s\<rparr>)) (latest s (ps_node r))
      else None)"
| "step_change_normal x (OGrant b r) s =
     (if grant_allowed s b r
      then Some (CEdge (grant_edge x b r
                   (next_revision (ensure_bundle_node (BundleId (gc_grantee r)) s))))
      else None)"
| "step_change_normal x op s = None"

definition step_change :: "ext \<Rightarrow> store_op \<Rightarrow> store \<Rightarrow> graph_change option" where
  "step_change x op = step_change_normal x (op_normal op)"

fun touches_queue :: "store_op \<Rightarrow> watch_id \<Rightarrow> store \<Rightarrow> bool" where
  "touches_queue (OPoll j) i s \<longleftrightarrow> i = j"
| "touches_queue (ORegister b q) i s \<longleftrightarrow> i = next_watch_id s"
| "touches_queue (ORegisterPattern b p) i s \<longleftrightarrow> i = next_watch_id s"
| "touches_queue op i s \<longleftrightarrow> False"

lemma latest_watches [simp]: "latest (s\<lparr>watches := ws\<rparr>) = latest s"
  by (simp add: fun_eq_iff latest_def)

lemma notified_watches [simp]: "notified (s\<lparr>watches := ws\<rparr>) = notified s"
proof -
  have "change_target (s\<lparr>watches := ws\<rparr>) c = change_target s c" for c
    unfolding change_target_def latest_watches by (rule refl)
  then show ?thesis by (simp add: fun_eq_iff notified_def)
qed

lemma watches_insert [simp]:
  "watches (insert_thing t s) = watches s" "watches (insert_edge e s) = watches s"
  by (simp_all add: insert_thing_def insert_edge_def Let_def)

lemma watches_ensure [simp]: "watches (ensure_bundle_node b s) = watches s"
  by (simp add: ensure_bundle_node_def Let_def next_rev_def)

lemma notify_delivery:
  assumes "s' = notify_watches c s" "watches_ok (watches s)"
  shows "bt_get (watches s') i =
    map_option (\<lambda>w. if notified s' c w then watch_push c w else w) (bt_get (watches s) i)"
proof -
  have "notified s' c = notified s c"
    unfolding assms(1) by (subst notify_watches_spec(1) [OF assms(2)]) simp
  then show ?thesis unfolding assms(1) by (simp add: notify_watches_spec(3) [OF assms(2)])
qed

definition push_if :: "store \<Rightarrow> graph_change option \<Rightarrow> watch \<Rightarrow> watch" where
  "push_if s co w = (case co of None \<Rightarrow> w | Some c \<Rightarrow> if notified s c w then watch_push c w else w)"

lemma push_if_None [simp]: "push_if s None = id"
  by (simp add: fun_eq_iff push_if_def)

lemma push_if_Some: "push_if s (Some c) = (\<lambda>w. if notified s c w then watch_push c w else w)"
  by (simp add: fun_eq_iff push_if_def)

lemma step_delivery_aux:
  assumes "s' = notify_watches c s0" "watches s0 = watches s" "store_inv s" "co = Some c"
  shows "bt_get (watches s') i = map_option (push_if s' co) (bt_get (watches s) i)"
  using notify_delivery [OF assms(1), of i] assms(2-4) by (simp add: push_if_Some store_inv_def)

lemma step_delivery:
  assumes inv: "store_inv s" and st: "store_step x op (s, jo) = (s', jo')"
    and nt: "\<not> touches_queue op i s"
  shows "bt_get (watches s') i = map_option (push_if s' (step_change x op s)) (bt_get (watches s) i)"
proof -
  note nst = store_step_normal [of x op "(s, jo)"]
  show ?thesis
  proof (cases op rule: op_normal_cases)
    case (fiat b r)
    have "s' = notify_watches (CThing (fiat_thing x b r (next_revision (ensure_bundle_node b s))))
       (insert_edge (ownership_edge x b (fiat_target x b r) (next_revision (ensure_bundle_node b s)))
         (insert_thing (fiat_thing x b r (next_revision (ensure_bundle_node b s)))
           (ensure_bundle_node b s\<lparr>next_revision := next_revision (ensure_bundle_node b s) + 1\<rparr>)))"
      using fiat st nst by (simp add: fiat_node_eq Let_def)
    then show ?thesis
      by (rule step_delivery_aux) (use inv fiat in \<open>simp_all add: step_change_def\<close>)
  next
    case (link b r)
    show ?thesis
    proof (cases "step_change x op s")
      case None
      then have "s' = s"
        using link st nst by (auto simp: step_change_def link_edge_eq split: if_splits option.splits)
      with None show ?thesis by (simp add: option.map_id)
    next
      case (Some c)
      then have "s' = notify_watches c (insert_edge (link_edge_made x b r (next_revision s))
          (s\<lparr>next_revision := next_revision s + 1\<rparr>))"
        using link st nst by (auto simp: step_change_def link_edge_eq Let_def split: if_splits)
      then show ?thesis by (rule step_delivery_aux) (use inv Some in simp_all)
    qed
  next
    case (set b r)
    show ?thesis
    proof (cases "step_change x op s")
      case None
      then have "s' = s"
        using set st nst store_inv_latest(1) [OF inv]
        by (auto simp: step_change_def set_props_def split: if_splits option.splits)
      with None show ?thesis by (simp add: option.map_id)
    next
      case (Some c)
      then obtain t where t: "latest s (ps_node r) = Some t" "can_write s b (ps_node r)"
        "c = CThing (t\<lparr>thing_fields := bt_extend (thing_fields t) (ps_props r),
            thing_revision := next_revision s\<rparr>)"
        using set by (auto simp: step_change_def split: if_splits)
      have "s' = notify_watches c (insert_thing (t\<lparr>thing_fields := bt_extend (thing_fields t) (ps_props r),
            thing_revision := next_revision s\<rparr>) (s\<lparr>next_revision := next_revision s + 1\<rparr>))"
        using set st nst t store_inv_latest(1) [OF inv t(1)] by (simp add: set_props_def next_rev_def Let_def)
      then show ?thesis by (rule step_delivery_aux) (use inv Some in simp_all)
    qed
  next
    case (grant b r)
    show ?thesis
    proof (cases "grant_allowed s b r")
      case False
      with grant st nst have "s' = s" "step_change x op s = None"
        by (auto simp: step_change_def grant_capability_eq)
      then show ?thesis by (simp add: option.map_id)
    next
      case True
      let ?s1 = "ensure_bundle_node (BundleId (gc_grantee r)) s"
      have "s' = notify_watches (CEdge (grant_edge x b r (next_revision ?s1)))
         (insert_edge (grant_edge x b r (next_revision ?s1)) (?s1\<lparr>next_revision := next_revision ?s1 + 1\<rparr>))"
        using grant True st nst by (simp add: grant_capability_eq Let_def)
      then show ?thesis
        by (rule step_delivery_aux) (use inv grant True in \<open>simp_all add: step_change_def\<close>)
    qed
  next
    case (register b p)
    then have "i \<noteq> next_watch_id s" using nt by (cases op) auto
    then show ?thesis
      using register st nst
      by (auto simp: step_change_def register_watch_pattern_def Let_def option.map_id)
  next
    case (poll j)
    then have "i \<noteq> j" using nt by (cases op) auto
    then show ?thesis
      using poll st nst
      by (auto simp: step_change_def poll_watch_def option.map_id split: option.splits if_splits)
  qed
qed

interpretation wq: bounded_log watch_push watch_queue MAX_WATCH_QUEUE
  "\<lambda>w. length (watch_queue w) \<le> MAX_WATCH_QUEUE"
proof unfold_locales
  fix w :: watch and c
  assume le: "length (watch_queue w) \<le> MAX_WATCH_QUEUE"
  show "watch_queue (watch_push c w) = keep_last MAX_WATCH_QUEUE (watch_queue w @ [c])"
  proof (cases "length (watch_queue w) = MAX_WATCH_QUEUE")
    case True
    then show ?thesis
      by (cases "watch_queue w")
        (auto simp: watch_push_def Let_def keep_last_def MAX_WATCH_QUEUE_def)
  next
    case False
    with le show ?thesis by (simp add: watch_push_def Let_def)
  qed
  show "length (watch_queue (watch_push c w)) \<le> MAX_WATCH_QUEUE"
    using le by (simp add: watch_push_def Let_def)
qed

end
