(* ===== verification/Store_Query.thy ===== *)
theory Store_Query
  imports Store_Ops
begin

text \<open>
  The read side of the graph store: what the queries return, how the pages of
  \<open>find_by_kind\<close> fit together, and that a snapshot restores the graph it was taken from.
\<close>

section \<open>Queries\<close>

lemma mem_get_nodes:
  assumes "store_inv s"
  shows "t \<in> set (get_nodes s b p) \<longleftrightarrow>
    (\<exists>i. latest s i = Some t) \<and> can_read s b (thing_id t) \<and> matches_pattern p t None"
proof -
  have srt: "sorted_map (things s)" using assms by (simp add: store_inv_def things_ok_def)
  have "(\<exists>(i, vs) \<in> set (things s). last_opt vs = Some t) \<longleftrightarrow> (\<exists>i. latest s i = Some t)"
  proof
    assume "\<exists>(i, vs) \<in> set (things s). last_opt vs = Some t"
    then obtain i vs where "bt_get (things s) i = Some vs" "last_opt vs = Some t"
      using bt_get_eq_in_set [OF srt] by blast
    then have "latest s i = Some t" by (simp add: latest_def)
    then show "\<exists>i. latest s i = Some t" ..
  next
    assume "\<exists>i. latest s i = Some t"
    then show "\<exists>(i, vs) \<in> set (things s). last_opt vs = Some t"
      by (auto simp: latest_def dest: map_of_SomeD split: option.splits)
  qed
  then show ?thesis by (force simp: get_nodes_def List.map_filter_def)
qed

lemma distinct_get_nodes:
  assumes "store_inv s"
  shows "distinct (map thing_id (get_nodes s b p))"
proof -
  have ok: "things_ok (next_revision s) (things s)" using assms by (simp add: store_inv_def)
  then have srt: "sorted_map (things s)" by (simp add: things_ok_def)
  have id: "thing_id t = i" if "(i, vs) \<in> set (things s)" "last_opt vs = Some t" for i vs t
    using that ok things_ok_versions(2) [OF ok, of t i] last_opt_Some_in_set [of vs t]
    by (auto simp: bt_list_def bt_get_eq_in_set [OF srt, symmetric])
  have "distinct (map thing_id (List.map_filter (\<lambda>p. last_opt (snd p)) m))"
    if "distinct (map fst m)" "set m \<subseteq> set (things s)" for m
    using that
  proof (induction m)
    case (Cons kv m)
    obtain i vs where kv: "kv = (i, vs)" by (cases kv)
    have fresh: "i \<notin> thing_id ` set (List.map_filter (\<lambda>p. last_opt (snd p)) m)"
      using Cons.prems id by (force simp: kv List.map_filter_def)
    show ?case
    proof (cases "last_opt vs")
      case (Some t)
      with fresh Cons id [of i vs t] show ?thesis by (auto simp: kv map_filter_simps)
    qed (use Cons in \<open>auto simp: kv map_filter_simps\<close>)
  qed (simp add: map_filter_simps)
  then have "distinct (map thing_id (List.map_filter (\<lambda>p. last_opt (snd p)) (things s)))"
    using sorted_map_distinct [OF srt] by blast
  then show ?thesis by (simp add: get_nodes_def distinct_map_filter)
qed

lemma get_props_keys_fold:
  "bt_get (fold (\<lambda>key out. case bt_get m key of None \<Rightarrow> out | Some v \<Rightarrow> bt_insert key v out) ks acc) k =
     (if k \<in> set ks \<and> bt_get m k \<noteq> None then bt_get m k else bt_get acc k)"
  by (induction ks arbitrary: acc) (auto split: option.splits)

lemma map_of_distinct_rev: "distinct (map fst m) \<Longrightarrow> map_of (rev m) = map_of m"
proof (induction m)
  case (Cons a m)
  then have "map_of m (fst a) = None" by (simp add: map_of_eq_None_iff)
  with Cons show ?case by (auto simp: fun_eq_iff map_add_def split: option.splits)
qed simp

lemma bt_extend_Nil: "sorted_map m \<Longrightarrow> bt_extend [] m = m"
proof (rule sorted_map_unique)
  assume m: "sorted_map m"
  show "sorted_map (bt_extend [] m)" by (rule sorted_map_extend) simp
  show "sorted_map m" by (rule m)
  show "bt_get (bt_extend [] m) = bt_get m"
    using m by (simp add: bt_get_extend map_of_distinct_rev sorted_map_distinct)
qed

section \<open>Paging\<close>

definition visible_of :: "store \<Rightarrow> bundle_id \<Rightarrow> uuid \<Rightarrow> graph_thing option" where
  "visible_of s b u =
     (case latest s u of
        None \<Rightarrow> None
      | Some t \<Rightarrow> if can_read s b (thing_id t) then Some t else None)"

lemma find_scan_skip:
  "k \<le> unat c \<Longrightarrow> find_scan s b c us k n rs = find_scan s b c (drop (unat c - k) us) (unat c) n rs"
proof (induction us arbitrary: k)
  case (Cons u us)
  have "unat c < 2 ^ 64" using unsigned_less [of c] by simp
  then have b: "unat (of_nat k :: u64) = k"
    using Cons.prems by (simp add: unat_of_nat)
  then have lt: "(of_nat k :: u64) < c \<longleftrightarrow> k < unat c" by (simp add: word_less_nat_alt)
  show ?case
  proof (cases "k < unat c")
    case True
    then have d: "unat c - k = Suc (unat c - Suc k)" by simp
    have "find_scan s b c (u # us) k n rs = find_scan s b c us (Suc k) n rs" using True lt by simp
    also have "\<dots> = find_scan s b c (drop (unat c - Suc k) us) (unat c) n rs" using Cons.IH True by simp
    finally show ?thesis by (simp only: d drop_Suc_Cons)
  next
    case False
    then show ?thesis using Cons.prems by simp
  qed
qed simp

lemma find_scan_page:
  "n \<le> max_results \<Longrightarrow> find_scan s b c us (unat c) n rs =
    (rs @ take (max_results - n) (List.map_filter (visible_of s b) us),
     if us \<noteq> [] \<and> max_results - n \<le> length (List.map_filter (visible_of s b) (butlast us))
     then c + of_nat max_results else 0)"
proof (induction us arbitrary: n rs)
  case (Cons u us)
  show ?case
  proof (cases "n = max_results")
    case True
    then show ?thesis by simp
  next
    case False
    then have n: "n < max_results" "Suc n \<le> max_results" using Cons.prems by auto
    then obtain d where d: "max_results - n = Suc d" "max_results - Suc n = d"
      by (metis Suc_diff_Suc)
    show ?thesis
    proof (cases "visible_of s b u")
      case None
      then have "find_scan s b c (u # us) (unat c) n rs = find_scan s b c us (unat c) n rs"
        using n by (auto simp: visible_of_def split: option.splits if_splits)
      with None d Cons.IH [OF Cons.prems] show ?thesis
        by (cases us) (simp_all add: map_filter_simps)
    next
      case (Some t)
      then have "find_scan s b c (u # us) (unat c) n rs = find_scan s b c us (unat c) (Suc n) (rs @ [t])"
        using n by (auto simp: visible_of_def split: option.splits if_splits)
      with Some d Cons.IH [OF n(2)] show ?thesis
        by (cases us) (simp_all add: map_filter_simps)
    qed
  qed
qed (simp add: map_filter_simps)

lemma find_by_kind_page:
  fixes s :: store
  assumes "canon_from_str kind = Some y"
  defines "rest \<equiv> \<lambda>c. drop (unat c) (bt_list (kind_index s) y)"
  shows "find_by_kind s b kind c =
    (take max_results (List.map_filter (visible_of s b) (rest c)),
     if rest c \<noteq> [] \<and> max_results \<le> length (List.map_filter (visible_of s b) (butlast (rest c)))
     then c + of_nat max_results else 0)"
  using assms(1) find_scan_skip [of 0 c s b "bt_list (kind_index s) y" 0 "[]"]
    find_scan_page [of 0 s b c "rest c" "[]"]
  by (auto simp: find_by_kind_def bt_list_def rest_def map_filter_simps split: option.splits)

lemma map_filter_total:
  "(\<And>u. u \<in> set us \<Longrightarrow> f u = Some (g u)) \<Longrightarrow> List.map_filter f us = map g us"
  by (induction us) (auto simp: map_filter_simps)

text \<open>
  A client that follows the cursor until it is zero again. The loop has no bound of its own, so
  not ending is the value \<open>None\<close>.
\<close>

partial_function (option) find_pages ::
  "store \<Rightarrow> bundle_id \<Rightarrow> string \<Rightarrow> u64 \<Rightarrow> graph_thing list option" where
  "find_pages s b kind c =
     (case find_by_kind s b kind c of
        (page, c') \<Rightarrow>
          if c' = 0 then Some page
          else Option.bind (find_pages s b kind c') (\<lambda>ps. Some (page @ ps)))"

lemma find_pages_total:
  assumes kind: "canon_from_str kind = Some y"
    and vis: "\<And>u. u \<in> set (bt_list (kind_index s) y) \<Longrightarrow> visible_of s b u = Some (g u)"
    and len: "length (bt_list (kind_index s) y) < 2 ^ 64 - max_results"
  shows "find_pages s b kind c = Some (map g (drop (unat c) (bt_list (kind_index s) y)))"
proof (induction "length (drop (unat c) (bt_list (kind_index s) y))" arbitrary: c rule: less_induct)
  case less
  let ?us = "bt_list (kind_index s) y"
  let ?r = "drop (unat c) ?us"
  have v: "List.map_filter (visible_of s b) xs = map g xs" if "set xs \<subseteq> set ?us" for xs
    using that vis by (intro map_filter_total) auto
  have sub: "set ?r \<subseteq> set ?us" "set (butlast ?r) \<subseteq> set ?us"
    by (auto dest: in_set_dropD in_set_butlastD)
  show ?case
  proof (cases "length ?r \<le> max_results")
    case True
    then show ?thesis
      using sub by (subst find_pages.simps) (auto simp: find_by_kind_page [OF kind] v max_results_def)
  next
    case False
    then have c: "unat c + max_results < length ?us" by simp
    then have nc: "unat (c + of_nat max_results) = unat c + max_results"
      using len by (subst unat_add_no_wrap) (simp_all add: max_results_def)
    then have nz: "c + of_nat max_results \<noteq> 0" by (metis max_results_def unat_0 add_is_0 zero_neq_numeral)
    have dr: "drop (unat (c + of_nat max_results)) ?us = drop max_results ?r"
      unfolding nc by (simp add: add.commute)
    have "length (drop max_results ?r) < length ?r" using c by (simp add: max_results_def)
    then have "find_pages s b kind (c + of_nat max_results) = Some (map g (drop max_results ?r))"
      using less [of "c + of_nat max_results"] unfolding dr by blast
    moreover have "find_by_kind s b kind c = (map g (take max_results ?r), c + of_nat max_results)"
      using False sub by (auto simp: find_by_kind_page [OF kind] v take_map)
    moreover have "map g (take max_results ?r) @ map g (drop max_results ?r) = map g ?r"
      by (simp only: flip: map_append) (simp only: append_take_drop_id)
    ultimately show ?thesis
      using nz by (subst find_pages.simps) (simp del: drop_drop)
  qed
qed

section \<open>Snapshots\<close>

definition thing_log :: "uuid \<Rightarrow> graph_thing list \<Rightarrow> graph_thing list" where
  "thing_log i ts = filter (\<lambda>t. thing_id t = i) ts"

definition growing :: "graph_thing list \<Rightarrow> bool" where
  "growing ts \<longleftrightarrow> (\<forall>i. sorted_wrt (\<lambda>v w. thing_revision v < thing_revision w) (thing_log i ts))"

lemma growing_snoc:
  assumes "growing (ts @ [t])"
  shows "growing ts" and "v \<in> set (thing_log (thing_id t) ts) \<Longrightarrow> thing_revision v < thing_revision t"
proof -
  show "growing ts"
    using assms unfolding growing_def thing_log_def filter_append sorted_wrt_append by blast
  have "sorted_wrt (\<lambda>v w. thing_revision v < thing_revision w) (thing_log (thing_id t) ts @ [t])"
    using assms unfolding growing_def thing_log_def by (auto dest!: spec [of _ "thing_id t"])
  then show "v \<in> set (thing_log (thing_id t) ts) \<Longrightarrow> thing_revision v < thing_revision t"
    by (simp add: sorted_wrt_append)
qed

text \<open>Replaying a log of things builds exactly the versions of the log and their kind index.\<close>

lemma fold_insert_thing:
  assumes "growing ts" "things s = []" "kind_index s = []"
  defines "s' \<equiv> fold insert_thing ts s"
  shows "(\<forall>i. bt_list (things s') i = thing_log i ts) \<and> sorted_map (things s') \<and>
    (\<forall>i. bt_get (things s') i \<noteq> Some []) \<and> kinds_ok (things s') (kind_index s') \<and>
    s'\<lparr>things := [], kind_index := []\<rparr> = s"
  using assms(1) unfolding s'_def
proof (induction ts rule: rev_induct)
  case Nil
  then show ?case using assms(2,3) by (simp add: thing_log_def kinds_ok_def)
next
  case (snoc t ts)
  note g = growing_snoc [OF snoc.prems]
  let ?r = "fold insert_thing ts s"
  have IH: "\<And>i. bt_list (things ?r) i = thing_log i ts" "sorted_map (things ?r)"
    "\<And>i. bt_get (things ?r) i \<noteq> Some []" "kinds_ok (things ?r) (kind_index ?r)"
    "?r\<lparr>things := [], kind_index := []\<rparr> = s"
    using snoc.IH [OF g(1)] by auto
  have "case last_opt (bt_list (things ?r) (thing_id t)) of
          None \<Rightarrow> True | Some prev \<Rightarrow> thing_revision t > thing_revision prev"
    unfolding IH(1) using g(2) by (auto split: option.splits dest!: last_opt_Some_in_set)
  then have eq: "insert_thing t ?r =
    ?r\<lparr>things := bt_insert (thing_id t) (bt_list (things ?r) (thing_id t) @ [t]) (things ?r),
      kind_index := bt_insert (thing_kind t)
        (bs_insert (thing_id t) (bt_list (kind_index ?r) (thing_kind t))) (kind_index ?r)\<rparr>"
    by (simp add: insert_thing_def Let_def)
  have frame: "(insert_thing t ?r)\<lparr>things := [], kind_index := []\<rparr> = ?r\<lparr>things := [], kind_index := []\<rparr>"
    unfolding eq by simp
  have "bt_list (things (insert_thing t ?r)) i = thing_log i (ts @ [t])" for i
    unfolding eq by (simp add: IH(1) thing_log_def)
  moreover have "sorted_map (things (insert_thing t ?r))" "bt_get (things (insert_thing t ?r)) i \<noteq> Some []" for i
    unfolding eq using IH(2,3) by auto
  moreover have "kinds_ok (things (insert_thing t ?r)) (kind_index (insert_thing t ?r))"
    unfolding eq using kinds_ok_insert [OF IH(4)] by simp
  ultimately show ?case using frame IH(5) by simp
qed

lemma fold_insert_edge:
  assumes "sorted_wrt (\<lambda>e f. edge_revision e < edge_revision f) es" "edges s = []" "edges_by_src_pred s = []"
  defines "s' \<equiv> fold insert_edge es s"
  shows "edges s' = es \<and> index_ok es (edges_by_src_pred s') \<and>
    s'\<lparr>edges := [], edges_by_src_pred := []\<rparr> = s"
  using assms(1) unfolding s'_def
proof (induction es rule: rev_induct)
  case Nil
  then show ?case using assms(2,3) by (simp add: index_ok_def)
next
  case (snoc e es)
  let ?r = "fold insert_edge es s"
  have IH: "edges ?r = es" "index_ok es (edges_by_src_pred ?r)"
    "?r\<lparr>edges := [], edges_by_src_pred := []\<rparr> = s"
    using snoc by (auto simp: sorted_wrt_append)
  have "edges_ok (edge_revision e) (edges ?r)"
    using snoc.prems by (auto simp: IH(1) edges_ok_def sorted_wrt_append)
  note eq = insert_edge_fresh [OF this]
  have frame: "(insert_edge e ?r)\<lparr>edges := [], edges_by_src_pred := []\<rparr> = ?r\<lparr>edges := [], edges_by_src_pred := []\<rparr>"
    unfolding eq by simp
  have "edges (insert_edge e ?r) = es @ [e]" "index_ok (es @ [e]) (edges_by_src_pred (insert_edge e ?r))"
    unfolding eq using index_ok_snoc [OF IH(2), of e] IH(1) by simp_all
  with frame IH(3) show ?case by simp
qed

lemma thing_log_concat:
  assumes "distinct (map fst m)" "\<And>k vs t. (k, vs) \<in> set m \<Longrightarrow> t \<in> set vs \<Longrightarrow> thing_id t = k"
  shows "thing_log i (concat (map snd m)) = bt_list m i"
  using assms
proof (induction m)
  case (Cons kv m)
  obtain k vs where kv: "kv = (k, vs)" by (cases kv)
  have IH: "thing_log i (concat (map snd m)) = bt_list m i" using Cons by auto
  have id: "t \<in> set vs \<Longrightarrow> thing_id t = k" for t using Cons.prems(2) [of k vs] kv by auto
  have vs: "thing_log i vs = (if i = k then vs else [])"
    using id by (auto simp: thing_log_def filter_id_conv filter_empty_conv)
  have "bt_list m k = []" using Cons.prems(1) kv
    by (auto simp: bt_list_def split: option.splits dest!: map_of_SomeD) (metis fst_conv image_eqI)
  then show ?case using IH vs kv by (auto simp: thing_log_def bt_list_def)
qed (simp add: thing_log_def)

lemma btree_list_unique:
  assumes "sorted_map m" "sorted_map m'" "\<And>k. bt_list m k = bt_list m' k"
    and "\<And>k. bt_get m k \<noteq> Some []" "\<And>k. bt_get m' k \<noteq> Some []"
  shows "m = m'"
proof (rule sorted_map_unique [OF assms(1,2)], rule ext)
  fix k
  show "bt_get m k = bt_get m' k"
    using assms(3-5) [of k] by (cases "bt_get m k"; cases "bt_get m' k") (auto simp: bt_list_def)
qed

lemma kinds_ok_unique:
  assumes "kinds_ok m ki" "kinds_ok m ki'"
  shows "ki = ki'"
proof (rule btree_list_unique)
  show "bt_list ki k = bt_list ki' k" for k
    using assms by (intro sorted_set_unique) (auto simp: kinds_ok_def)
qed (use assms in \<open>auto simp: kinds_ok_def\<close>)

lemma index_ok_unique:
  assumes "index_ok es ix" "index_ok es ix'"
  shows "ix = ix'"
  using assms by (intro btree_list_unique) (auto simp: index_ok_def)

lemma things_ok_log:
  assumes "things_ok b m"
  shows "thing_log i (concat (map snd m)) = bt_list m i"
proof (rule thing_log_concat)
  have srt: "sorted_map m" using assms by (simp add: things_ok_def)
  then show "distinct (map fst m)" by (rule sorted_map_distinct)
  fix k vs t
  assume "(k, vs) \<in> set m" "t \<in> set vs"
  then have "t \<in> set (bt_list m k)" by (simp add: bt_list_def bt_get_eq_in_set [OF srt, THEN iffD2])
  then show "thing_id t = k" using things_ok_versions(2) [OF assms] by blast
qed

lemma store_fill_things:
  "s\<lparr>things := [], kind_index := []\<rparr> = d \<Longrightarrow> s = d\<lparr>things := things s, kind_index := kind_index s\<rparr>"
  by auto

lemma store_fill_edges:
  "s\<lparr>edges := [], edges_by_src_pred := []\<rparr> = d \<Longrightarrow>
     s = d\<lparr>edges := edges s, edges_by_src_pred := edges_by_src_pred s\<rparr>"
  by auto

lemma apply_snapshot_restores:
  assumes inv: "store_inv s"
  shows "apply_snapshot (snapshot s) d = s\<lparr>watches := [], next_watch_id := next_watch_id d\<rparr>"
proof -
  let ?ts = "concat (map snd (things s))"
  let ?d0 = "d\<lparr>things := [], edges := [], kind_index := [], edges_by_src_pred := [], watches := []\<rparr>"
  let ?s1 = "fold insert_thing ?ts ?d0"
  let ?s2 = "fold insert_edge (edges s) ?s1"
  from inv have ok: "things_ok (next_revision s) (things s)" and eok: "edges_ok (next_revision s) (edges s)"
    and ix: "index_ok (edges s) (edges_by_src_pred s)" and ki: "kinds_ok (things s) (kind_index s)"
    and pos: "0 < next_revision s"
    by (simp_all add: store_inv_def)
  note log = things_ok_log [OF ok]
  have g: "growing ?ts" unfolding growing_def log using ok by (simp add: things_ok_def versions_ok_def)
  have f1: "(\<forall>i. bt_list (things ?s1) i = bt_list (things s) i) \<and> sorted_map (things ?s1) \<and>
    (\<forall>i. bt_get (things ?s1) i \<noteq> Some []) \<and> kinds_ok (things ?s1) (kind_index ?s1) \<and>
    ?s1\<lparr>things := [], kind_index := []\<rparr> = ?d0"
    using fold_insert_thing [OF g, of ?d0] by (simp add: log)
  have th: "things ?s1 = things s"
    by (rule btree_list_unique) (use f1 ok in \<open>auto simp: things_ok_def\<close>)
  have kin: "kind_index ?s1 = kind_index s"
    using kinds_ok_unique f1 ki th by metis
  have s1: "?s1 = ?d0\<lparr>things := things s, kind_index := kind_index s\<rparr>"
    using store_fill_things [of ?s1 ?d0] f1 unfolding th kin by blast
  have f2: "edges ?s2 = edges s \<and> index_ok (edges s) (edges_by_src_pred ?s2) \<and>
    ?s2\<lparr>edges := [], edges_by_src_pred := []\<rparr> = ?s1"
    using eok by (intro fold_insert_edge) (simp_all add: s1 edges_ok_def)
  have ixn: "edges_by_src_pred ?s2 = edges_by_src_pred s" using f2 ix index_ok_unique by blast
  have s2: "?s2 = ?s1\<lparr>edges := edges s, edges_by_src_pred := edges_by_src_pred s\<rparr>"
    using store_fill_edges [of ?s2 ?s1] f2 ixn by metis
  have "apply_snapshot (snapshot s) d = ?s2\<lparr>next_revision := next_revision s\<rparr>"
    using pos by (simp add: apply_snapshot_def snapshot_def Let_def saturating_sub_add_1)
  also have "\<dots> = s\<lparr>watches := [], next_watch_id := next_watch_id d\<rparr>"
    by (subst s2, subst s1) simp
  finally show ?thesis .
qed

end
