(* ===== verification/Graph_Api.thy ===== *)
theory Graph_Api
  imports Store_Steps Store_Query
begin

text \<open>
  The kernel-wide graph (\<open>src/kernel/src/graph/api.rs\<close> and \<open>bundle.rs\<close>): the lazily
  created global store, the entry points that lock it, shared buffers and queue state nodes,
  and the package life cycle built on top of them.
\<close>

section \<open>The global store\<close>

record kernel_graph =
  STORE :: "store option"
  JOURNAL :: "journal option"
  TASK_COUNTER :: u64

definition graph_off :: kernel_graph where
  "graph_off = \<lparr>STORE = None, JOURNAL = None, TASK_COUNTER = 0\<rparr>"

definition store_of :: "kernel_graph \<Rightarrow> store" where
  "store_of g = (case STORE g of None \<Rightarrow> store_new | Some s \<Rightarrow> s)"

definition graph_init :: "kernel_graph \<Rightarrow> kernel_graph" where
  "graph_init g =
     g\<lparr>JOURNAL := journal_init (JOURNAL g), STORE := Some (store_of g)\<rparr>"

definition with_store :: "(graph_state \<Rightarrow> 'r \<times> graph_state) \<Rightarrow> kernel_graph \<Rightarrow> 'r \<times> kernel_graph" where
  "with_store f g =
     (case f (store_of g, JOURNAL g) of
        (r, s, j) \<Rightarrow> (r, g\<lparr>STORE := Some s, JOURNAL := j\<rparr>))"

text \<open>Operations that leave the journal alone.\<close>

definition on_store :: "(store \<Rightarrow> 'r \<times> store) \<Rightarrow> graph_state \<Rightarrow> 'r \<times> graph_state" where
  "on_store f = (\<lambda>(s, j). case f s of (r, s') \<Rightarrow> (r, s', j))"

definition read_store :: "(store \<Rightarrow> 'r) \<Rightarrow> graph_state \<Rightarrow> 'r \<times> graph_state" where
  "read_store f = (\<lambda>(s, j). (f s, s, j))"

definition api_bundle_has_capability :: "bundle_id \<Rightarrow> uuid \<Rightarrow> symbol \<Rightarrow> kernel_graph \<Rightarrow> bool \<times> kernel_graph" where
  "api_bundle_has_capability b target capability =
     with_store (read_store (\<lambda>s. bundle_has_capability s b target capability))"

definition fiat_for_bundle :: "ext \<Rightarrow> bundle_id \<Rightarrow> graph_fiat_request \<Rightarrow> kernel_graph \<Rightarrow> graph_thing \<times> kernel_graph" where
  "fiat_for_bundle x owner request = with_store (fiat x owner request)"

definition api_fiat :: "ext \<Rightarrow> graph_fiat_request \<Rightarrow> kernel_graph \<Rightarrow> graph_thing \<times> kernel_graph" where
  "api_fiat x = fiat_for_bundle x KERNEL_BUNDLE_ID"

definition api_fiat_node :: "ext \<Rightarrow> bundle_id \<Rightarrow> graph_node_request \<Rightarrow> kernel_graph \<Rightarrow> graph_thing \<times> kernel_graph" where
  "api_fiat_node x owner request = with_store (fiat_node x owner request)"

definition that_for_bundle :: "ext \<Rightarrow> bundle_id \<Rightarrow> graph_that_request \<Rightarrow> kernel_graph \<Rightarrow> u64 \<times> kernel_graph" where
  "that_for_bundle x owner request = with_store (that x owner request)"

definition api_that :: "ext \<Rightarrow> graph_that_request \<Rightarrow> kernel_graph \<Rightarrow> u64 \<times> kernel_graph" where
  "api_that x = that_for_bundle x KERNEL_BUNDLE_ID"

definition api_link :: "ext \<Rightarrow> bundle_id \<Rightarrow> graph_link_request \<Rightarrow> kernel_graph \<Rightarrow> u64 \<times> kernel_graph" where
  "api_link x owner request = with_store (link_edge x owner request)"

definition api_get_nodes :: "bundle_id \<Rightarrow> node_pattern \<Rightarrow> kernel_graph \<Rightarrow> graph_thing list \<times> kernel_graph" where
  "api_get_nodes owner pattern = with_store (read_store (\<lambda>s. get_nodes s owner pattern))"

definition api_get_props :: "bundle_id \<Rightarrow> graph_props_get_request \<Rightarrow> kernel_graph \<Rightarrow> gmap option \<times> kernel_graph" where
  "api_get_props owner request = with_store (read_store (\<lambda>s. get_props s owner request))"

definition api_set_props :: "bundle_id \<Rightarrow> graph_props_request \<Rightarrow> kernel_graph \<Rightarrow> bool \<times> kernel_graph" where
  "api_set_props owner request = with_store (on_store (set_props owner request))"

definition api_grant_capability ::
  "ext \<Rightarrow> bundle_id \<Rightarrow> grant_capability_request \<Rightarrow> kernel_graph \<Rightarrow> bool \<times> kernel_graph" where
  "api_grant_capability x grantor request = with_store (grant_capability x grantor request)"

definition get_thing :: "uuid \<Rightarrow> kernel_graph \<Rightarrow> graph_thing option \<times> kernel_graph" where
  "get_thing i = with_store (read_store (\<lambda>s. latest s i))"

definition get_things_of_kind :: "symbol \<Rightarrow> kernel_graph \<Rightarrow> graph_thing list \<times> kernel_graph" where
  "get_things_of_kind kind = with_store (read_store (\<lambda>s. latest_of_kind s kind))"

definition api_snapshot :: "kernel_graph \<Rightarrow> graph_snapshot \<times> kernel_graph" where
  "api_snapshot = with_store (read_store snapshot)"

definition api_apply_snapshot :: "graph_snapshot \<Rightarrow> kernel_graph \<Rightarrow> kernel_graph" where
  "api_apply_snapshot snap g = snd (with_store (on_store (\<lambda>s. ((), apply_snapshot snap s))) g)"

definition api_register_watch :: "bundle_id \<Rightarrow> watch_query \<Rightarrow> kernel_graph \<Rightarrow> watch_id \<times> kernel_graph" where
  "api_register_watch owner query = with_store (on_store (register_watch owner query))"

definition api_register_watch_pattern ::
  "bundle_id \<Rightarrow> node_pattern \<Rightarrow> kernel_graph \<Rightarrow> watch_id \<times> kernel_graph" where
  "api_register_watch_pattern owner pattern = with_store (on_store (register_watch_pattern owner pattern))"

definition api_find_by_kind :: "bundle_id \<Rightarrow> string \<Rightarrow> u64 \<Rightarrow> kernel_graph \<Rightarrow> (graph_thing list \<times> u64) \<times> kernel_graph" where
  "api_find_by_kind owner kind cursor = with_store (read_store (\<lambda>s. find_by_kind s owner kind cursor))"

definition api_poll_watch :: "watch_id \<Rightarrow> kernel_graph \<Rightarrow> graph_watch_batch option \<times> kernel_graph" where
  "api_poll_watch i = with_store (on_store (poll_watch i))"

section \<open>Serialised results\<close>

text \<open>\<open>postcard::to_allocvec\<close> on the result types; \<open>None\<close> is its error.\<close>

record wire =
  wire_thing :: "graph_thing \<Rightarrow> u8 list option"
  wire_header :: "graph_find_result_header \<Rightarrow> u8 list option"
  wire_batch :: "graph_watch_batch \<Rightarrow> u8 list option"

definition export_thing_bytes :: "wire \<Rightarrow> bundle_id \<Rightarrow> uuid \<Rightarrow> kernel_graph \<Rightarrow> u8 list option \<times> kernel_graph" where
  "export_thing_bytes p owner i = with_store (read_store (\<lambda>s.
     if \<not> can_read s owner i then None
     else case latest s i of None \<Rightarrow> None | Some thing \<Rightarrow> wire_thing p thing))"

fun append_things :: "wire \<Rightarrow> graph_thing list \<Rightarrow> u8 list \<Rightarrow> u8 list option" where
  "append_things p [] buf = Some buf"
| "append_things p (t # ts) buf =
     (case wire_thing p t of None \<Rightarrow> None | Some bs \<Rightarrow> append_things p ts (buf @ bs))"

definition export_find_by_kind_bytes ::
  "wire \<Rightarrow> bundle_id \<Rightarrow> string \<Rightarrow> u64 \<Rightarrow> kernel_graph \<Rightarrow> u8 list option \<times> kernel_graph" where
  "export_find_by_kind_bytes p owner kind cursor g =
     (let ((ts, next_cursor), g') = api_find_by_kind owner kind cursor g
      in (case wire_header p \<lparr>fr_next_cursor = next_cursor, fr_count = of_nat (length ts)\<rparr> of
            None \<Rightarrow> None
          | Some buf \<Rightarrow> append_things p ts buf, g'))"

definition export_watch_events :: "wire \<Rightarrow> watch_id \<Rightarrow> kernel_graph \<Rightarrow> u8 list option \<times> kernel_graph" where
  "export_watch_events p i g =
     (let (r, g') = api_poll_watch i g
      in (case r of
            Some events \<Rightarrow> if batch_changes events \<noteq> [] then wire_batch p events else Some []
          | None \<Rightarrow> Some [], g'))"

section \<open>Shared buffers and queue state\<close>

definition opt_u64_field :: "symbol \<Rightarrow> u64 option \<Rightarrow> gmap \<Rightarrow> gmap" where
  "opt_u64_field k v m = (case v of None \<Rightarrow> m | Some n \<Rightarrow> bt_insert k (VU64 n) m)"

definition declare_shared_buffer ::
  "ext \<Rightarrow> bundle_id \<Rightarrow> shared_buffer_spec \<Rightarrow> kernel_graph \<Rightarrow> graph_thing \<times> kernel_graph" where
  "declare_shared_buffer x owner spec =
     (let f1 = bt_insert canon_BYTES (VU64 (sb_size_bytes spec)) (sb_props spec);
          f2 = bt_insert canon_BUFFER_KIND (VSymbol (sb_kind spec)) f1;
          f3 = bt_insert canon_BUFFER_USAGE (VSymbol (sb_usage spec)) f2;
          f4 = bt_insert canon_OWNER (VUuid (bundle_uuid owner)) f3;
          f5 = opt_u64_field canon_ADDR (sb_addr spec) f4
      in api_fiat_node x owner
           \<lparr>node_id = sb_id spec, node_labels = [canon_SHARED_BUFFER], node_props = f5\<rparr>)"

definition declare_queue_state :: "ext \<Rightarrow> queue_state_spec \<Rightarrow> kernel_graph \<Rightarrow> graph_thing \<times> kernel_graph" where
  "declare_queue_state x spec =
     (let f1 = bt_insert canon_BUFFER (VUuid (qs_buffer spec)) (qs_props spec);
          f2 = bt_insert canon_HEAD (VU64 (qs_head spec)) f1;
          f3 = bt_insert canon_TAIL (VU64 (qs_tail spec)) f2;
          f4 = bt_insert canon_HAS_DATA (VBool (qs_has_data spec)) f3;
          f5 = bt_insert canon_OWNER (VUuid (qs_owner spec)) f4;
          f6 = opt_u64_field canon_CAPACITY (qs_capacity spec) f5
      in api_fiat_node x (BundleId (qs_owner spec))
           \<lparr>node_id = qs_id spec, node_labels = [canon_QUEUE_STATE], node_props = f6\<rparr>)"

definition queue_update_props :: "u64 \<Rightarrow> u64 \<Rightarrow> bool \<Rightarrow> u64 option \<Rightarrow> gmap" where
  "queue_update_props head tail has_data capacity =
     opt_u64_field canon_CAPACITY capacity
       (bt_insert canon_HAS_DATA (VBool has_data)
         (bt_insert canon_TAIL (VU64 tail) (bt_insert canon_HEAD (VU64 head) [])))"

definition update_queue_state ::
  "bundle_id \<Rightarrow> uuid \<Rightarrow> u64 \<Rightarrow> u64 \<Rightarrow> bool \<Rightarrow> u64 option \<Rightarrow> kernel_graph \<Rightarrow> bool \<times> kernel_graph" where
  "update_queue_state owner queue_id head tail has_data capacity =
     api_set_props owner
       \<lparr>ps_node = queue_id, ps_props = queue_update_props head tail has_data capacity\<rparr>"

section \<open>Packages\<close>

datatype bundle_type = Driver | App | Compositor

fun to_symbol :: "bundle_type \<Rightarrow> symbol" where
  "to_symbol Driver = canon_DRIVER"
| "to_symbol App = canon_APP"
| "to_symbol Compositor = canon_COMPOSITOR"

definition ends_with :: "string \<Rightarrow> string \<Rightarrow> bool" where
  "ends_with s suffix \<longleftrightarrow> length suffix \<le> length s \<and> drop (length s - length suffix) s = suffix"

definition from_name :: "string \<Rightarrow> bundle_type" where
  "from_name name =
     (if ends_with name ''_driver'' \<or> name = ''driver'' \<or> ends_with name ''driver'' then Driver
      else if ends_with name ''_compositor'' \<or> name = ''compositor'' \<or> ends_with name ''compositor''
      then Compositor
      else App)"

definition package_fields :: "bundle_id \<Rightarrow> string \<Rightarrow> bundle_type \<Rightarrow> string option \<Rightarrow> gmap" where
  "package_fields b name ty version =
     (let f1 = bt_insert canon_ID (VUuid (bundle_uuid b)) [];
          f2 = bt_insert canon_NAME (VText name) f1;
          f3 = bt_insert canon_TYPE (VSymbol (to_symbol ty)) f2;
          f4 = bt_insert canon_STATUS (VSymbol canon_INIT) f3
      in case version of None \<Rightarrow> f4 | Some v \<Rightarrow> bt_insert canon_VERSION (VText v) f4)"

definition create_package_with_id ::
  "ext \<Rightarrow> bundle_id \<Rightarrow> string \<Rightarrow> bundle_type \<Rightarrow> string option \<Rightarrow> kernel_graph \<Rightarrow> bundle_id \<times> kernel_graph" where
  "create_package_with_id x b name ty version g =
     (let (_, g') = fiat_for_bundle x b
            \<lparr>fiat_id = Some (bundle_uuid b), fiat_kind = canon_PACKAGE, fiat_labels = [canon_PACKAGE],
             fiat_fields = package_fields b name ty version\<rparr> g
      in (b, g'))"

definition package_uuid :: "ext \<Rightarrow> string \<Rightarrow> uuid" where
  "package_uuid x name = new_v5 x NAMESPACE_OID (as_bytes name)"

definition create_package ::
  "ext \<Rightarrow> string \<Rightarrow> bundle_type \<Rightarrow> string option \<Rightarrow> kernel_graph \<Rightarrow> bundle_id \<times> kernel_graph" where
  "create_package x name ty version =
     create_package_with_id x (BundleId (package_uuid x name)) name ty version"

definition create_task ::
  "bundle_id \<Rightarrow> string \<Rightarrow> symbol list \<Rightarrow> kernel_graph \<Rightarrow> bundle_id \<times> kernel_graph" where
  "create_task package_id name extra_labels g =
     (BundleId (ucast (TASK_COUNTER g)), g\<lparr>TASK_COUNTER := TASK_COUNTER g + 1\<rparr>)"

definition lookup_bundle :: "ext \<Rightarrow> string \<Rightarrow> kernel_graph \<Rightarrow> bundle_id option \<times> kernel_graph" where
  "lookup_bundle x name = with_store (read_store (\<lambda>s.
     case latest s (package_uuid x name) of
       None \<Rightarrow> None
     | Some thing \<Rightarrow> if thing_kind thing = canon_PACKAGE then Some (BundleId (thing_id thing)) else None))"

definition get_or_create_bundle :: "ext \<Rightarrow> string \<Rightarrow> kernel_graph \<Rightarrow> bundle_id \<times> kernel_graph" where
  "get_or_create_bundle x name g =
     (case lookup_bundle x name g of
        (Some b, g') \<Rightarrow> (b, g')
      | (None, g') \<Rightarrow> create_package x name (from_name name) None g')"

definition grant_initial_capability ::
  "ext \<Rightarrow> bundle_id \<Rightarrow> uuid \<Rightarrow> symbol \<Rightarrow> kernel_graph \<Rightarrow> bool \<times> kernel_graph" where
  "grant_initial_capability x b target capability =
     api_grant_capability x KERNEL_BUNDLE_ID
       \<lparr>gc_grantee = bundle_uuid b, gc_target = target, gc_capability = symbol_to_string capability\<rparr>"

section \<open>Access to the global store\<close>

lemma store_of_Some [simp]: "store_of (g\<lparr>STORE := Some s\<rparr>) = s" "store_of (g\<lparr>STORE := Some s, JOURNAL := j\<rparr>) = s"
  by (simp_all add: store_of_def)

lemma with_read_store [simp]:
  "with_store (read_store f) g = (f (store_of g), g\<lparr>STORE := Some (store_of g)\<rparr>)"
  by (simp add: with_store_def read_store_def)

lemma restore_store: "STORE g = Some s \<Longrightarrow> g\<lparr>STORE := Some (store_of g)\<rparr> = g"
  by (simp add: store_of_def)

lemma fiat_for_bundle_step:
  "snd (fiat_for_bundle x b r g) = snd (with_store (\<lambda>st. ((), store_step x (OFiat b r) st)) g)"
  by (simp add: fiat_for_bundle_def with_store_def split: prod.splits)

text \<open>A task id is a counter value, far below the kernel's id.\<close>

lemma unat_kernel: "2 ^ 64 \<le> unat (0xfeedcafedeadbeefcafebabe00000001 :: uuid)"
  by simp

lemma task_id_not_kernel: "BundleId (ucast (c :: u64)) \<noteq> KERNEL_BUNDLE_ID"
proof -
  have "unat (ucast c :: uuid) < 2 ^ 64"
    using unsigned_less [of c, where 'a = nat]
    by (simp add: unsigned_ucast_eq take_bit_eq_mod order_le_less_trans [OF mod_less_eq_dividend])
  then have "unat (ucast c :: uuid) \<noteq> unat (0xfeedcafedeadbeefcafebabe00000001 :: uuid)"
    by (metis linorder_not_less unat_kernel)
  then show ?thesis by (auto simp: KERNEL_BUNDLE_ID_def)
qed

end
