(* ===== verification/Graph_Props.thy ===== *)
theory Graph_Props
  imports Graph_Api
begin

text \<open>
  The properties of the graph subsystem: the store's invariant in every reachable state, who can
  gain which authority, what a bundle without authority cannot do, exact answers of the queries,
  exact delivery to watches, snapshots, and the package life cycle.
\<close>

section \<open>A bundle acting alone\<close>

fun op_by :: "bundle_id \<Rightarrow> store_op \<Rightarrow> bool" where
  "op_by b (OFiatNode a r) \<longleftrightarrow> a = b"
| "op_by b (OFiat a r) \<longleftrightarrow> a = b"
| "op_by b (OLink a r) \<longleftrightarrow> a = b"
| "op_by b (OThat a r) \<longleftrightarrow> a = b"
| "op_by b (OSetProps a r) \<longleftrightarrow> a = b"
| "op_by b (OGrant a r) \<longleftrightarrow> a = b"
| "op_by b (ORegister a q) \<longleftrightarrow> a = b"
| "op_by b (ORegisterPattern a p) \<longleftrightarrow> a = b"
| "op_by b (OPoll i) \<longleftrightarrow> True"

lemma op_by_normal: "op_by b (op_normal op) = op_by b op"
  by (cases op) simp_all

text \<open>
  The nodes an operation lays a claim to without needing authority over them: the node a fiat
  names, and the node a bundle links its own bundle node to with a predicate that carries
  authority, when the link is accepted.
\<close>

definition op_claims :: "ext \<Rightarrow> store_op \<Rightarrow> store \<Rightarrow> uuid set" where
  "op_claims x op s =
     (case op_normal op of
        OFiatNode b r \<Rightarrow> {fiat_target x b r}
      | OLink b r \<Rightarrow>
          if link_from r = bundle_uuid b \<and> link_pred r \<in> {''OWNS'', ''CAN_WRITE'', ''CAN_LINK''} \<and>
             can_link s b (link_from r) (link_to r) (link_pred r)
          then {link_to r} else {}
      | _ \<Rightarrow> {})"

inductive bundle_run :: "ext \<Rightarrow> bundle_id \<Rightarrow> uuid set \<Rightarrow> nat \<Rightarrow> graph_state \<Rightarrow> graph_state \<Rightarrow> bool"
  for x b A where
  stop: "bundle_run x b A 0 st st"
| more: "bundle_run x b A n st st' \<Longrightarrow> op_by b op \<Longrightarrow> op_claims x op (fst st') \<inter> A = {} \<Longrightarrow>
    bundle_run x b A (Suc n) st (store_step x op st')"

definition no_authority :: "store \<Rightarrow> bundle_id \<Rightarrow> uuid set \<Rightarrow> bool" where
  "no_authority s b A \<longleftrightarrow>
     (\<forall>n \<in> A. \<forall>p \<in> {''OWNS'', ''CAN_WRITE'', ''CAN_LINK''}. (bundle_uuid b, p, n) \<notin> triples s)"

lemma can_link_triple:
  assumes "store_inv s" "can_link s b f t k" "b \<noteq> KERNEL_BUNDLE_ID"
  shows "\<exists>n \<in> {f, t}. (bundle_uuid b, ''OWNS'', n) \<in> triples s \<or> (bundle_uuid b, ''CAN_LINK'', n) \<in> triples s"
proof -
  consider "owns s b f \<or> owns s b t"
    | e where "e \<in> set (edges s)" "edge_src e = bundle_uuid b" "edge_pred e = ''CAN_LINK''"
        "edge_dst e = f \<or> edge_dst e = t"
    using assms can_link_iff [OF assms(1)] by blast
  then show ?thesis
  proof cases
    case 2
    then have "(bundle_uuid b, ''CAN_LINK'', edge_dst e) \<in> triples s"
      by (force simp: triples_def)
    with 2(4) show ?thesis by blast
  qed (use owns_iff [OF assms(1)] in blast)
qed

lemma gain_avoids:
  assumes inv: "store_inv s" and na: "no_authority s b A"
    and nk: "b \<noteq> KERNEL_BUNDLE_ID" and by_b: "op_by b op" and cr: "op_claims x op s \<inter> A = {}"
    and p: "p \<in> {''OWNS'', ''CAN_WRITE'', ''CAN_LINK''}"
    and g: "(bundle_uuid b, p, n) \<in> gain x op s"
  shows "n \<notin> A"
proof
  assume n: "n \<in> A"
  show False
  proof (cases op rule: op_normal_cases)
    case (fiat a r)
    then have "n \<in> op_claims x op s" using g by (auto simp: gain_def op_claims_def)
    with n cr show False by blast
  next
    case (link a r)
    then have ab: "a = b" using by_b op_by_normal [of b op] by simp
    then have "n \<in> op_claims x op s"
      using link g p by (auto simp: gain_def op_claims_def split: if_splits)
    with n cr show False by blast
  next
    case (grant a r)
    then have ab: "a = b" using by_b op_by_normal [of b op] by simp
    then have "grant_allowed s b r" "n = gc_target r"
      using grant g by (auto simp: gain_def split: if_splits)
    then have "owns s b n" using nk by (auto simp: grant_allowed_def)
    with owns_iff [OF inv] na n show False by (auto simp: no_authority_def)
  qed (use g in \<open>auto simp: gain_def\<close>)
qed

lemma rewrites_avoids:
  assumes inv: "store_inv s" and na: "no_authority s b A" and nk: "b \<noteq> KERNEL_BUNDLE_ID"
    and by_b: "op_by b op" and cr: "op_claims x op s \<inter> A = {}" and n: "n \<in> A"
  shows "\<not> op_rewrites x op s n"
proof (cases op rule: op_normal_cases)
  case (fiat a r)
  then have "op_claims x op s = {fiat_target x a r}" by (simp add: op_claims_def)
  then show ?thesis using fiat cr n by (auto simp: op_rewrites_def)
next
  case (set a r)
  then have "a = b" using by_b op_by_normal [of b op] by simp
  moreover have "\<not> can_write s b n"
    using na n nk by (auto simp: can_write_iff [OF inv] no_authority_def)
  ultimately show ?thesis using set by (auto simp: op_rewrites_def)
qed (auto simp: op_rewrites_def)

lemma bundle_run_confined:
  assumes "bundle_run x b A k st st'" and "store_inv (fst st)" and "room (fst st) (2 * k + m)"
    and na: "no_authority (fst st) b A" and nk: "b \<noteq> KERNEL_BUNDLE_ID"
    and n: "n \<in> A"
  shows "store_inv (fst st') \<and> room (fst st') m \<and> no_authority (fst st') b A \<and>
    (latest (fst st) n \<noteq> None \<longrightarrow> latest (fst st') n = latest (fst st) n)"
  using assms(1-4)
proof (induction arbitrary: m rule: bundle_run.induct)
  case (stop st)
  then show ?case by simp
next
  case (more k st st' op)
  obtain s jo where st': "st' = (s, jo)" by (cases st')
  obtain s2 jo2 where s2: "store_step x op (s, jo) = (s2, jo2)" by fastforce
  have IH: "store_inv s" "room s (m + 2)" "no_authority s b A"
    "latest (fst st) n \<noteq> None \<longrightarrow> latest s n = latest (fst st) n"
    using more.IH [of "m + 2"] more.prems by (auto simp: st' algebra_simps)
  have rm: "room s 2" "room s (Suc (Suc m))" using IH(2) by (auto simp: room_def)
  have tr: "triples s2 = triples s \<union> gain x op s" by (rule step_triples [OF IH(1) rm(1) s2])
  have cl: "op_claims x op s \<inter> A = {}" using more.hyps(3) by (simp add: st')
  have "no_authority s2 b A"
    unfolding no_authority_def tr
    using IH(3) gain_avoids [OF IH(1,3) nk more.hyps(2) cl] by (auto simp: no_authority_def)
  moreover have "latest s n \<noteq> None \<Longrightarrow> latest s2 n = latest s n"
    by (rule step_latest [OF IH(1) rm(1) s2 _ rewrites_avoids [OF IH(1,3) nk more.hyps(2) cl n]])
  moreover have "store_inv s2" "room s2 m" using step_inv [OF IH(1) rm(2) s2] by auto
  ultimately show ?case using IH(4) by (simp add: st' s2)
qed

section \<open>A concrete graph\<close>

text \<open>
  The instance the witnesses use: stand-ins for the uuid and postcard crates, and the store in
  which bundle 5 has created node 9.
\<close>

definition demo_event :: event where
  "demo_event = \<lparr>ev_timestamp = 3, ev_kind = canon_THING_CREATED, ev_data = VU64 4\<rparr>"

definition demo_ext :: ext where
  "demo_ext =
     \<lparr>new_v5 = (\<lambda>ns bs. of_nat (length bs)), postcard_map = (\<lambda>m. Some []),
      postcard_events = (\<lambda>es. if es = [demo_event] then Some [1] else None),
      postcard_read_events = (\<lambda>bs. if bs = [1] then Inr [demo_event] else Inl ''unexpected end''),
      hpet_now = 0, clock_ref = None\<rparr>"

definition demo_request :: graph_node_request where
  "demo_request = \<lparr>node_id = Some 9, node_labels = [canon_WINDOW], node_props = []\<rparr>"

definition demo_op :: store_op where
  "demo_op = OFiatNode (BundleId 5) demo_request"

definition demo_graph :: graph_state where
  "demo_graph = store_step demo_ext demo_op (store_new, journal_init None)"

lemma demo_reach: "graph_reach demo_ext 1 demo_graph"
  unfolding demo_graph_def using graph_reach.step [OF graph_reach.boot] by simp

lemma demo_target [simp]: "fiat_target demo_ext (BundleId 5) demo_request = 9"
  by (simp add: fiat_target_def fiat_thing_def demo_request_def Let_def)

lemma demo_inv: "store_inv (fst demo_graph)" "room (fst demo_graph) 1000"
  using reach_inv [OF demo_reach, of 1000] by auto

lemma triples_new [simp]: "triples store_new = {}"
  by (simp add: triples_def store_new_def)

lemma demo_triples: "triples (fst demo_graph) = {(5, ''OWNS'', 9)}"
proof -
  have "room store_new 2" by (simp add: room_def store_new_def)
  then have "triples (fst demo_graph) = triples store_new \<union> gain demo_ext demo_op store_new"
    unfolding demo_graph_def by (rule step_triples [OF store_inv_new _ prod.collapse [symmetric]])
  then show ?thesis by (simp add: gain_def demo_op_def)
qed

lemma demo_latest:
  "\<exists>r. latest (fst demo_graph) 9 = Some (fiat_thing demo_ext (BundleId 5) demo_request r)"
proof -
  obtain t s' jo' where t: "fiat_node demo_ext (BundleId 5) demo_request (store_new, journal_init None) = (t, s', jo')"
    by (metis prod.collapse)
  have "room store_new (Suc (Suc 0))" by (simp add: room_def store_new_def)
  note fs = fiat_node_spec [OF store_inv_new this t]
  have "fst demo_graph = s'" using t by (simp add: demo_graph_def demo_op_def)
  then show ?thesis using fs(3,4) by auto
qed

lemma demo_not_kernel [simp]: "BundleId 5 \<noteq> KERNEL_BUNDLE_ID" "BundleId 6 \<noteq> KERNEL_BUNDLE_ID"
  by (simp_all add: KERNEL_BUNDLE_ID_def)

lemmas demo_facts = demo_inv demo_triples demo_latest

section \<open>Properties of every reachable graph\<close>

text \<open>
  C1: in every state the graph can reach, as long as the 64-bit revision counter cannot have
  wrapped (a step uses at most two revisions), the store's invariant holds: versions and edges
  carry strictly increasing revisions below the counter, both indexes agree with what they
  index, no watch queue exceeds its bound; and the journal keeps within its capacity.
\<close>

theorem reachable_graph_invariant:
  assumes "graph_reach x n st" and "2 * n + 1 < 2 ^ 64"
  shows "store_inv (fst st) \<and> journal_ok (snd st)"
  using reach_inv [OF assms(1), of 0] assms(2) by simp

theorem reachable_graph_invariant_witness:
  "graph_reach demo_ext 1 demo_graph \<and> store_inv (fst demo_graph) \<and> journal_ok (snd demo_graph)"
  using reachable_graph_invariant [OF demo_reach] demo_reach by simp

text \<open>
  C2: how authority spreads, for every edge that is not a hardware capability. No operation takes
  an edge away, and an edge is there after an operation exactly when it was there before, or the
  operation is a fiat by the bundle at its source that names the node (whether or not the node
  exists: \<open>fiat_node\<close> checks nothing), or a link with just this edge whose caller may link the
  two ends, or a grant of just this capability that the delegation policy allows.
\<close>

theorem authority_change_exact:
  assumes "graph_reach x n (s, jo)" and "2 * n + 3 < 2 ^ 64" and "\<not> is_hardware_capability p"
  shows "triples s \<subseteq> triples (fst (store_step x op (s, jo))) \<and>
    ((a, p, v) \<in> triples (fst (store_step x op (s, jo))) \<longleftrightarrow>
      (a, p, v) \<in> triples s \<or>
      (\<exists>b r. op_normal op = OFiatNode b r \<and> a = bundle_uuid b \<and> p = ''OWNS'' \<and> v = fiat_target x b r) \<or>
      (\<exists>b r. op_normal op = OLink b r \<and> a = link_from r \<and> p = link_pred r \<and> v = link_to r \<and>
         can_link s b a v p) \<or>
      (\<exists>b r. op_normal op = OGrant b r \<and> a = gc_grantee r \<and> p = gc_capability r \<and> v = gc_target r \<and>
         grant_allowed s b r))"
proof -
  have "store_inv s" "room s 2" using reach_inv [OF assms(1), of 2] assms(2) by auto
  then have "triples (fst (store_step x op (s, jo))) = triples s \<union> gain x op s"
    by (rule step_triples [OF _ _ prod.collapse [symmetric]])
  then show ?thesis by (cases op rule: op_normal_cases) (auto simp: gain_def split: if_splits)
qed

theorem authority_change_exact_witness:
  "triples store_new \<subseteq> triples (fst demo_graph) \<and>
   ((5, ''OWNS'', 9) \<in> triples (fst demo_graph) \<and> (6, ''OWNS'', 9) \<notin> triples (fst demo_graph))"
  using authority_change_exact [OF graph_reach.boot [of demo_ext], of "''OWNS''" demo_op 5 9]
    authority_change_exact [OF graph_reach.boot [of demo_ext], of "''OWNS''" demo_op 6 9]
  by (simp add: demo_op_def demo_graph_def is_hardware_capability_def)

text \<open>
  C3: confinement. A bundle other than the kernel that owns, may write and may link no node of a
  set \<open>A\<close> has only two ways to get at them by operations of its own: a fiat that names a node of
  \<open>A\<close>, and an accepted link of an authority predicate from its own bundle node to a node of
  \<open>A\<close>. By any sequence of its other operations it gains write access to no node of \<open>A\<close> and
  leaves the latest version of each as it was.
\<close>

theorem bundle_confined:
  assumes "bundle_run x b A k (s, jo) (s', jo')" and "store_inv s" and "room s (2 * k)"
    and "no_authority s b A" and "b \<noteq> KERNEL_BUNDLE_ID" and "n \<in> A"
  shows "\<not> can_write s' b n \<and> (latest s n \<noteq> None \<longrightarrow> latest s' n = latest s n)"
proof -
  have c: "store_inv s'" "no_authority s' b A" "latest s n \<noteq> None \<longrightarrow> latest s' n = latest s n"
    using bundle_run_confined [OF assms(1), of 0 n] assms(2-6) by auto
  have "\<not> can_write s' b n"
    using c(2) assms(5,6) by (auto simp: can_write_iff [OF c(1)] no_authority_def)
  with c(3) show ?thesis by blast
qed

definition intruder_op :: store_op where
  "intruder_op = OSetProps (BundleId 6) \<lparr>ps_node = 9, ps_props = []\<rparr>"

theorem bundle_confined_witness:
  "\<not> can_write (fst (store_step demo_ext intruder_op demo_graph)) (BundleId 6) 9 \<and>
   latest (fst (store_step demo_ext intruder_op demo_graph)) 9 = latest (fst demo_graph) 9"
proof -
  have "bundle_run demo_ext (BundleId 6) {9} (Suc 0) demo_graph (store_step demo_ext intruder_op demo_graph)"
    by (intro bundle_run.more bundle_run.stop) (simp_all add: intruder_op_def op_claims_def)
  then have run: "bundle_run demo_ext (BundleId 6) {9} 1 (fst demo_graph, snd demo_graph)
    (fst (store_step demo_ext intruder_op demo_graph), snd (store_step demo_ext intruder_op demo_graph))"
    by simp
  have "room (fst demo_graph) (2 * 1)" using demo_inv(2) by (rule room_mono) simp
  from bundle_confined [OF run demo_inv(1) this] demo_latest show ?thesis
    by (auto simp: no_authority_def demo_triples)
qed

text \<open>
  C4: integrity. If an operation changes the latest version of an existing thing, it is a
  property update by a bundle that may write the thing, or a fiat that names the thing's id.
\<close>

theorem thing_integrity:
  assumes "graph_reach x n (s, jo)" and "2 * n + 3 < 2 ^ 64" and "latest s i \<noteq> None"
    and "latest (fst (store_step x op (s, jo))) i \<noteq> latest s i"
  shows "(\<exists>b r. op = OSetProps b r \<and> ps_node r = i \<and> can_write s b i) \<or>
    (\<exists>b r. op = OFiatNode b r \<and> fiat_target x b r = i) \<or>
    (\<exists>b r. op = OFiat b r \<and> fiat_target x b (fiat_as_node r) = i)"
proof -
  have "store_inv s" "room s 2" using reach_inv [OF assms(1), of 2] assms(2) by auto
  then have "op_rewrites x op s i"
    using step_latest [OF _ _ prod.collapse [symmetric] assms(3), of x op jo] assms(4) by blast
  then show ?thesis by (cases op) (auto simp: op_rewrites_def)
qed

lemma set_props_changes_latest:
  assumes "store_inv s" "room s (Suc n)" "latest s i = Some t" "can_write s b i"
  shows "latest (snd (set_props b \<lparr>ps_node = i, ps_props = m\<rparr> s)) i \<noteq> latest s i"
  using set_props_spec(1,7) [OF assms(1,2) prod.collapse [symmetric], of b "\<lparr>ps_node = i, ps_props = m\<rparr>"]
    assms(3,4) store_inv_latest(2) [OF assms(1,3)]
  by (auto dest: arg_cong [of _ _ thing_revision])

theorem thing_integrity_witness:
  "\<exists>b r. OSetProps (BundleId 5) \<lparr>ps_node = 9, ps_props = []\<rparr> = OSetProps b r \<and> ps_node r = 9 \<and>
     can_write (fst demo_graph) b 9"
proof -
  let ?op = "OSetProps (BundleId 5) \<lparr>ps_node = 9, ps_props = []\<rparr>"
  obtain s jo where g: "demo_graph = (s, jo)" by (cases demo_graph)
  have w: "can_write s (BundleId 5) 9"
    using demo_inv(1) demo_triples by (simp add: g can_write_iff)
  have l: "latest s 9 \<noteq> None" using demo_latest by (auto simp: g)
  have "room s (Suc 0)" using demo_inv(2) room_mono by (simp add: g)
  then have "latest (fst (store_step demo_ext ?op (s, jo))) 9 \<noteq> latest s 9"
    using set_props_changes_latest [of s 0 9] demo_inv(1) w l by (auto simp: g)
  from thing_integrity [OF _ _ l this] demo_reach w show ?thesis by (auto simp: g)
qed

section \<open>Capabilities\<close>

text \<open>
  C5: who may grant what. When the grantor is not a mere holder of the capability it grants (for
  that case see below), a grant succeeds exactly when the capability is a hardware one and the grantor is
  the kernel, or it is a data capability and the grantor is the kernel or owns the target. A
  refused grant changes neither the store nor the journal; a successful one is visible to the
  capability check of the grantee for that target, and to no other check than before.
\<close>

theorem grant_capability_exact:
  assumes "store_inv s" and "room s 2"
    and "grant_capability x b r (s, jo) = (ok, s', jo')"
    and "b = KERNEL_BUNDLE_ID \<or> owns s b (gc_target r) \<or>
      (bundle_uuid b, gc_capability r, gc_target r) \<notin> triples s"
  shows "(ok \<longleftrightarrow>
      (gc_capability r \<in> {''CAN_HANDLE_IRQ'', ''CAN_DMA'', ''CAN_MMIO'', ''CAN_PORT_IO''} \<and>
         b = KERNEL_BUNDLE_ID) \<or>
      (gc_capability r \<in> {''CAN_READ'', ''CAN_WRITE'', ''CAN_LINK''} \<and>
         (b = KERNEL_BUNDLE_ID \<or> owns s b (gc_target r)))) \<and>
    (\<not> ok \<longrightarrow> s' = s \<and> jo' = jo) \<and>
    (ok \<longrightarrow> (\<forall>c n p. has_capability s' c n p \<longleftrightarrow> has_capability s c n p \<or>
      (c = BundleId (gc_grantee r) \<and> n = gc_target r \<and> symbol_to_string p = gc_capability r)))"
proof -
  have rm: "room s (Suc (Suc 0))" using assms(2) by (simp add: numeral_2_eq_2)
  note gs = grant_capability_spec [OF assms(1) rm assms(3)]
  have "has_capability s' c n p \<longleftrightarrow> has_capability s c n p \<or>
      (c = BundleId (gc_grantee r) \<and> n = gc_target r \<and> symbol_to_string p = gc_capability r)"
    if ok for c n p
    using that gs(5) by (cases c) (auto simp: has_capability_iff [OF gs(2)] has_capability_iff [OF assms(1)])
  moreover have "grant_allowed s b r \<longleftrightarrow>
      (gc_capability r \<in> {''CAN_HANDLE_IRQ'', ''CAN_DMA'', ''CAN_MMIO'', ''CAN_PORT_IO''} \<and>
         b = KERNEL_BUNDLE_ID) \<or>
      (gc_capability r \<in> {''CAN_READ'', ''CAN_WRITE'', ''CAN_LINK''} \<and>
         (b = KERNEL_BUNDLE_ID \<or> owns s b (gc_target r)))"
    by (auto simp: grant_allowed_def is_hardware_capability_def is_data_capability_def)
  ultimately show ?thesis using gs(1,6) by blast
qed

text \<open>
  The other case. The comment on \<open>grant_capability\<close> says that a bundle which has the capability
  itself may grant it; the code refuses every such grant unless the holder is the kernel or owns
  the target, and changes nothing.
\<close>

theorem holder_cannot_delegate:
  assumes "b \<noteq> KERNEL_BUNDLE_ID" and "has_capability s b (gc_target r) p"
    and "gc_capability r = symbol_to_string p" and "\<not> owns s b (gc_target r)"
  shows "grant_capability x b r (s, jo) = (False, s, jo)"
  using assms by (simp add: grant_capability_def)

lemma demo_owns: "owns (fst demo_graph) (BundleId 5) 9"
  by (simp add: owns_iff [OF demo_inv(1)] demo_triples)

lemma demo_room: "n \<le> 1000 \<Longrightarrow> room (fst demo_graph) n"
  using demo_inv(2) by (rule room_mono)

theorem grant_capability_exact_witness:
  "fst (grant_capability demo_ext (BundleId 5)
      \<lparr>gc_grantee = 6, gc_target = 9, gc_capability = ''CAN_READ''\<rparr> demo_graph) \<and>
   \<not> fst (grant_capability demo_ext (BundleId 5)
      \<lparr>gc_grantee = 6, gc_target = 9, gc_capability = ''CAN_DMA''\<rparr> demo_graph)"
proof -
  have rm: "room (fst demo_graph) 2" by (rule demo_room) simp
  have "(fst (grant_capability demo_ext (BundleId 5) r demo_graph),
      fst (snd (grant_capability demo_ext (BundleId 5) r demo_graph)),
      snd (snd (grant_capability demo_ext (BundleId 5) r demo_graph))) =
    grant_capability demo_ext (BundleId 5) r (fst demo_graph, snd demo_graph)" for r by simp
  note g = grant_capability_exact [OF demo_inv(1) rm this [symmetric]]
  show ?thesis
    using g [of "\<lparr>gc_grantee = 6, gc_target = 9, gc_capability = ''CAN_READ''\<rparr>"]
      g [of "\<lparr>gc_grantee = 6, gc_target = 9, gc_capability = ''CAN_DMA''\<rparr>"] demo_owns
    by simp
qed

text \<open>
  C13: \<open>fiat_node\<close> checks no authority when the request names an id that already exists. Any
  bundle that names the id of another bundle's thing becomes an owner of it, may write it from
  then on, and replaces its latest version by its own.
\<close>

theorem fiat_takes_over:
  assumes "store_inv s" and "room s 2" and "latest s i = Some victim" and "node_id r = Some i"
    and "fiat_node x b r (s, jo) = (t, s', jo')"
  shows "owns s' b i \<and> can_write s' b i \<and> latest s' i = Some t \<and> thing_owner t = bundle_uuid b"
proof -
  have rm: "room s (Suc (Suc 0))" using assms(2) by (simp add: numeral_2_eq_2)
  note fs = fiat_node_spec [OF assms(1) rm assms(5)]
  have t: "thing_id t = i" "thing_owner t = bundle_uuid b"
    using fs(4) assms(4) by (auto simp: fiat_thing_def fiat_target_def Let_def)
  have "(bundle_uuid b, ''OWNS'', i) \<in> triples s'"
    using triples_snoc [OF fs(5)] t by simp
  then show ?thesis
    using fs(3) t by (simp add: can_write_iff [OF fs(1)] owns_iff [OF fs(1)])
qed

theorem fiat_takes_over_witness:
  "owns (fst demo_graph) (BundleId 5) 9 \<and> \<not> can_write (fst demo_graph) (BundleId 6) 9 \<and>
   can_write (fst (snd (fiat_node demo_ext (BundleId 6) demo_request demo_graph))) (BundleId 6) 9"
proof -
  obtain t s' jo' where f: "fiat_node demo_ext (BundleId 6) demo_request (fst demo_graph, snd demo_graph) = (t, s', jo')"
    by (metis prod.collapse)
  obtain v where "latest (fst demo_graph) 9 = Some v" using demo_latest by blast
  from fiat_takes_over [OF demo_inv(1) demo_room this _ f] show ?thesis
    using f demo_owns by (simp add: demo_request_def can_write_iff [OF demo_inv(1)] demo_triples)
qed

text \<open>
  \<open>link_edge\<close> does not reserve the predicates that carry authority. A bundle that owns its
  own bundle node, as every package does, can link itself with any predicate to any node, also
  ownership and the hardware capabilities that a grant leaves to the kernel.
\<close>

theorem self_owner_mints_capability:
  assumes "store_inv s" and "room s 1" and "owns s b (bundle_uuid b)"
    and "link_edge x b \<lparr>link_id = lid, link_pred = symbol_to_string p, link_from = bundle_uuid b,
           link_to = n, link_props = m\<rparr> (s, jo) = (k, s', jo')"
  shows "has_capability s' b n p"
proof -
  have rm: "room s (Suc 0)" using assms(2) by simp
  note ls = link_edge_spec [OF assms(1) rm assms(4)]
  have "can_link s b (bundle_uuid b) n (symbol_to_string p)"
    using assms(3) by (simp add: can_link_def)
  then show ?thesis using ls(5) by (simp add: has_capability_iff [OF ls(1)])
qed

definition package_op :: store_op where
  "package_op = OFiat (BundleId 7)
     \<lparr>fiat_id = Some 7, fiat_kind = canon_PACKAGE, fiat_labels = [canon_PACKAGE], fiat_fields = []\<rparr>"

definition package_graph :: graph_state where
  "package_graph = store_step demo_ext package_op (store_new, journal_init None)"

lemma package_facts:
  "store_inv (fst package_graph)" "room (fst package_graph) 1"
  "triples (fst package_graph) = {(7, ''OWNS'', 7)}"
proof -
  have "graph_reach demo_ext 1 package_graph"
    unfolding package_graph_def using graph_reach.step [OF graph_reach.boot] by simp
  then show "store_inv (fst package_graph)" "room (fst package_graph) 1"
    using reach_inv [of demo_ext 1 package_graph 1] by auto
  have "room store_new 2" by (simp add: room_def store_new_def)
  then have "triples (fst package_graph) = triples store_new \<union> gain demo_ext package_op store_new"
    unfolding package_graph_def by (rule step_triples [OF store_inv_new _ prod.collapse [symmetric]])
  then show "triples (fst package_graph) = {(7, ''OWNS'', 7)}"
    by (simp add: gain_def package_op_def fiat_target_def fiat_thing_def fiat_as_node_def Let_def)
qed

theorem self_owner_mints_capability_witness:
  "\<not> has_capability (fst package_graph) (BundleId 7) 1000 canon_CAN_DMA \<and>
   has_capability (fst (snd (link_edge demo_ext (BundleId 7)
     \<lparr>link_id = None, link_pred = ''CAN_DMA'', link_from = 7, link_to = 1000, link_props = []\<rparr>
     package_graph))) (BundleId 7) 1000 canon_CAN_DMA"
proof -
  obtain k s' jo' where l: "link_edge demo_ext (BundleId 7)
      \<lparr>link_id = None, link_pred = symbol_to_string canon_CAN_DMA, link_from = bundle_uuid (BundleId 7),
       link_to = 1000, link_props = []\<rparr> (fst package_graph, snd package_graph) = (k, s', jo')"
    by (metis prod.collapse)
  have "owns (fst package_graph) (BundleId 7) (bundle_uuid (BundleId 7))"
    by (simp add: owns_iff [OF package_facts(1)] package_facts(3))
  from self_owner_mints_capability [OF package_facts(1,2) this l] show ?thesis
    using l by (simp add: has_capability_iff [OF package_facts(1)] package_facts(3))
qed

end
