(* ===== verification/Graph_Reads.thy ===== *)
theory Graph_Reads
  imports Graph_Props
begin

text \<open>
  The properties of what a client of the graph sees: queries, property reads and writes, pages,
  watches, snapshots, and the package and queue-state entry points.
\<close>

section \<open>Reading and writing properties\<close>

text \<open>
  A pattern query returns the latest version of exactly the things the caller may read and
  that match the pattern, each thing once.
\<close>

theorem get_nodes_exact:
  assumes "store_inv s"
  shows "set (get_nodes s b p) =
      {t. \<exists>i. latest s i = Some t \<and> can_read s b i \<and> matches_pattern p t None} \<and>
    distinct (map thing_id (get_nodes s b p))"
  using mem_get_nodes [OF assms, of _ b p] distinct_get_nodes [OF assms, of b p]
    store_inv_latest(1) [OF assms]
  by fastforce

theorem get_nodes_exact_witness:
  "set (get_nodes (fst demo_graph) (BundleId 6) \<lparr>pat_labels = [], pat_props = []\<rparr>) = {} \<and>
   thing_id ` set (get_nodes (fst demo_graph) (BundleId 5) \<lparr>pat_labels = [canon_WINDOW], pat_props = []\<rparr>) = {9}"
proof -
  note inv = demo_inv(1)
  have r6: "can_read (fst demo_graph) (BundleId 6) i = False" for i
    by (simp add: can_read_iff [OF inv] can_write_iff [OF inv] demo_triples)
  have r5: "can_read (fst demo_graph) (BundleId 5) i \<longleftrightarrow> i = 9" for i
    by (simp add: can_read_iff [OF inv] can_write_iff [OF inv] demo_triples)
  obtain r where l: "latest (fst demo_graph) 9 = Some (fiat_thing demo_ext (BundleId 5) demo_request r)"
    using demo_latest by blast
  have m: "matches_pattern \<lparr>pat_labels = [canon_WINDOW], pat_props = []\<rparr>
      (fiat_thing demo_ext (BundleId 5) demo_request r) None"
    by (simp add: matches_pattern_def fiat_thing_def demo_request_def bs_of_list_def Let_def)
  have one: "set (get_nodes (fst demo_graph) (BundleId 5) \<lparr>pat_labels = [canon_WINDOW], pat_props = []\<rparr>) =
      {fiat_thing demo_ext (BundleId 5) demo_request r}"
    using get_nodes_exact [OF inv, of "BundleId 5" "\<lparr>pat_labels = [canon_WINDOW], pat_props = []\<rparr>"] l m
    by (auto simp: r5)
  show ?thesis
    using get_nodes_exact [OF inv, of "BundleId 6" "\<lparr>pat_labels = [], pat_props = []\<rparr>"]
    by (simp add: r6 one)
qed

text \<open>
  A property read answers exactly when the thing exists and the caller may read it, and
  then with the latest value of every requested key that is set (of every key when none is
  requested), and with nothing else.
\<close>

theorem get_props_exact:
  assumes "store_inv s" and "\<And>t. latest s (pg_node r) = Some t \<Longrightarrow> sorted_map (thing_fields t)"
  shows "(get_props s b r = None \<longleftrightarrow> latest s (pg_node r) = None \<or> \<not> can_read s b (pg_node r)) \<and>
    (\<forall>m k t. get_props s b r = Some m \<longrightarrow> latest s (pg_node r) = Some t \<longrightarrow>
       bt_get m k = (if pg_keys r = [] \<or> k \<in> set (pg_keys r) then bt_get (thing_fields t) k else None))"
proof (cases "latest s (pg_node r)")
  case (Some t)
  have id: "thing_id t = pg_node r" by (rule store_inv_latest(1) [OF assms(1) Some])
  show ?thesis
    using Some id bt_extend_Nil [OF assms(2) [OF Some]]
    by (auto simp: get_props_def get_props_keys_fold split: if_splits)
qed (simp add: get_props_def)

lemma demo_fields_sorted:
  "latest (fst demo_graph) 9 = Some t \<Longrightarrow>
     sorted_map (thing_fields t) \<and> bt_get (thing_fields t) canon_OWNER = Some (VUuid 5)"
  using demo_latest by (auto simp: fiat_thing_def demo_request_def Let_def bt_entry_def sorted_map_def)

theorem get_props_exact_witness:
  "get_props (fst demo_graph) (BundleId 6) \<lparr>pg_node = 9, pg_keys = []\<rparr> = None \<and>
   (\<exists>m. get_props (fst demo_graph) (BundleId 5) \<lparr>pg_node = 9, pg_keys = [canon_OWNER]\<rparr> = Some m \<and>
        bt_get m canon_OWNER = Some (VUuid 5))"
proof -
  note inv = demo_inv(1)
  obtain t where t: "latest (fst demo_graph) 9 = Some t" using demo_latest by blast
  note g6 = get_props_exact [of "fst demo_graph" "\<lparr>pg_node = 9, pg_keys = []\<rparr>" "BundleId 6"]
  note g5 = get_props_exact [of "fst demo_graph" "\<lparr>pg_node = 9, pg_keys = [canon_OWNER]\<rparr>" "BundleId 5"]
  have c: "can_read (fst demo_graph) (BundleId 5) 9" "\<not> can_read (fst demo_graph) (BundleId 6) 9"
    by (simp_all add: can_read_iff [OF inv] can_write_iff [OF inv] demo_triples)
  have "get_props (fst demo_graph) (BundleId 6) \<lparr>pg_node = 9, pg_keys = []\<rparr> = None"
    using g6 [OF inv] demo_fields_sorted c(2) by simp
  moreover obtain m where m: "get_props (fst demo_graph) (BundleId 5) \<lparr>pg_node = 9, pg_keys = [canon_OWNER]\<rparr> = Some m"
    using g5 [OF inv] demo_fields_sorted c(1) t by (metis graph_props_get_request.select_convs(1) not_None_eq)
  moreover have "bt_get m canon_OWNER = Some (VUuid 5)"
    using g5 [OF inv] demo_fields_sorted t m by simp
  ultimately show ?thesis by blast
qed

text \<open>
  A property update succeeds exactly when the thing exists and the caller may write it. It
  then merges the given fields into the thing's, keeps its identity, kind, labels and owner,
  gives it a fresh revision, and touches no other thing and no edge; a refused one changes
  nothing.
\<close>

theorem set_props_merges:
  assumes "store_inv s" and "room s 1" and "set_props b r s = (ok, s')"
  shows "(ok \<longleftrightarrow> latest s (ps_node r) \<noteq> None \<and> can_write s b (ps_node r)) \<and>
    (\<not> ok \<longrightarrow> s' = s) \<and> edges s' = edges s \<and>
    (\<forall>i. i \<noteq> ps_node r \<longrightarrow> latest s' i = latest s i) \<and>
    (\<forall>t. ok \<longrightarrow> latest s (ps_node r) = Some t \<longrightarrow>
       (\<exists>t'. latest s' (ps_node r) = Some t' \<and> thing_id t' = thing_id t \<and> thing_kind t' = thing_kind t \<and>
          thing_labels t' = thing_labels t \<and> thing_owner t' = thing_owner t \<and>
          thing_revision t < thing_revision t' \<and>
          bt_get (thing_fields t') = bt_get (thing_fields t) ++ map_of (rev (ps_props r))))"
proof -
  have rm: "room s (Suc 0)" using assms(2) by simp
  note sp = set_props_spec [OF assms(1) rm assms(3)]
  have "\<exists>t'. latest s' (ps_node r) = Some t' \<and> thing_id t' = thing_id t \<and> thing_kind t' = thing_kind t \<and>
          thing_labels t' = thing_labels t \<and> thing_owner t' = thing_owner t \<and>
          thing_revision t < thing_revision t' \<and>
          bt_get (thing_fields t') = bt_get (thing_fields t) ++ map_of (rev (ps_props r))"
    if "ok" "latest s (ps_node r) = Some t" for t
    using sp(7) [OF that(1)] that(2) store_inv_latest(2) [OF assms(1) that(2)]
    by (simp add: bt_get_extend)
  then show ?thesis using sp(1,2,5,8) by blast
qed

theorem set_props_merges_witness:
  "\<exists>t. latest (snd (set_props (BundleId 5) \<lparr>ps_node = 9, ps_props = [(canon_NAME, VText ''main'')]\<rparr>
        (fst demo_graph))) 9 = Some t \<and> bt_get (thing_fields t) canon_NAME = Some (VText ''main'')"
proof -
  let ?r = "\<lparr>ps_node = 9, ps_props = [(canon_NAME, VText ''main'')]\<rparr>"
  obtain ok s' where sp: "set_props (BundleId 5) ?r (fst demo_graph) = (ok, s')" by fastforce
  obtain t where t: "latest (fst demo_graph) 9 = Some t" using demo_latest by blast
  have "can_write (fst demo_graph) (BundleId 5) 9"
    by (simp add: can_write_iff [OF demo_inv(1)] demo_triples)
  with set_props_merges [OF demo_inv(1) demo_room sp] t sp show ?thesis by fastforce
qed

text \<open>
  Linking is idempotent. Once a link has been made, or found, repeating the request returns
  the revision of the existing edge and changes neither the store nor the journal.
\<close>

theorem link_idempotent:
  assumes "store_inv s" and "room s 1" and "link_edge x b r (s, jo) = (k, s', jo')"
    and "can_link s b (link_from r) (link_to r) (link_pred r)"
  shows "\<exists>e \<in> set (edges s'). edge_src e = link_from r \<and> edge_pred e = link_pred r \<and>
    edge_dst e = link_to r \<and> link_edge x b r (s', jo') = (edge_revision e, s', jo')"
proof -
  have rm: "room s (Suc 0)" using assms(2) by simp
  note ls = link_edge_spec [OF assms(1) rm assms(3)]
  have sub: "triples s \<subseteq> triples s'" using ls(4) by (auto simp: triples_def)
  have "owns s b n \<Longrightarrow> owns s' b n" for n using sub owns_iff [OF assms(1)] owns_iff [OF ls(1)] by blast
  then have can: "can_link s' b (link_from r) (link_to r) (link_pred r)"
    using assms(4) ls(4) unfolding can_link_iff [OF assms(1)] can_link_iff [OF ls(1)] by blast
  have "(link_from r, link_pred r, link_to r) \<in> triples s'" using ls(5) assms(4) by simp
  then obtain e where e: "edge_between s' (link_from r) (link_pred r) (link_to r) = Some e"
    using edge_between_None [OF ls(1)] by fastforce
  then have "link_edge x b r (s', jo') = (edge_revision e, s', jo')"
    using can by (simp add: link_edge_eq)
  with edge_between_Some [OF ls(1) e] show ?thesis by blast
qed

theorem link_idempotent_witness:
  "let r = \<lparr>link_id = None, link_pred = ''SHOWS'', link_from = 9, link_to = 5, link_props = []\<rparr>;
       once = link_edge demo_ext (BundleId 5) r demo_graph
   in \<exists>e \<in> set (edges (fst (snd once))). edge_dst e = 5 \<and>
        link_edge demo_ext (BundleId 5) r (snd once) = (edge_revision e, snd once)"
proof -
  let ?r = "\<lparr>link_id = None, link_pred = ''SHOWS'', link_from = 9, link_to = 5, link_props = []\<rparr>"
  obtain k s' jo' where l: "link_edge demo_ext (BundleId 5) ?r (fst demo_graph, snd demo_graph) = (k, s', jo')"
    by (metis prod.collapse)
  have "can_link (fst demo_graph) (BundleId 5) (link_from ?r) (link_to ?r) (link_pred ?r)"
    using demo_owns by (simp add: can_link_def)
  from link_idempotent [OF demo_inv(1) demo_room l this] l show ?thesis by (auto simp: Let_def)
qed

section \<open>Pages of find_by_kind\<close>

lemma kind_index_latest:
  assumes "store_inv s" and "u \<in> set (bt_list (kind_index s) y)"
  obtains t where "latest s u = Some t" and "thing_id t = u"
proof -
  have "bt_list (things s) u \<noteq> []" using assms by (auto simp: store_inv_def kinds_ok_def)
  then obtain t where t: "latest s u = Some t" by (auto simp: latest_bt_list last_opt_def)
  with store_inv_latest(1) [OF assms(1) t] that show ?thesis by blast
qed

lemma latest_of_kind_index:
  assumes "store_inv s"
  shows "latest_of_kind s y = map (the \<circ> latest s) (bt_list (kind_index s) y)"
proof -
  have "latest s u = Some ((the \<circ> latest s) u)" if "u \<in> set (bt_list (kind_index s) y)" for u
    using kind_index_latest [OF assms that] by (metis comp_apply option.sel)
  then have "List.map_filter (latest s) (bt_list (kind_index s) y) = map (the \<circ> latest s) (bt_list (kind_index s) y)"
    by (rule map_filter_total)
  then show ?thesis by (simp add: latest_of_kind_def bt_list_def map_filter_simps split: option.splits)
qed

lemma latest_of_kind_ids:
  assumes "store_inv s"
  shows "map thing_id (latest_of_kind s y) = bt_list (kind_index s) y"
  unfolding latest_of_kind_index [OF assms]
  by (simp add: map_idI) (rule map_idI, metis kind_index_latest [OF assms] comp_apply option.sel)


lemma window_symbols: "canon_WINDOW \<noteq> canon_SURFACE_USAGE" "canon_BUNDLE \<noteq> canon_WINDOW"
  by code_simp+

lemma canon_from_str_window: "canon_from_str ''window'' = Some canon_WINDOW"
  by (rule canon_from_str_name) (simp_all add: from_str_tbl_def window_symbols)

lemma demo_window_index: "bt_list (kind_index (fst demo_graph)) canon_WINDOW = [9]"
  using window_symbols(2)
  by (simp add: demo_graph_def demo_op_def fiat_node_eq notify_watches_frame watches_ok_def
      ensure_bundle_node_def bundle_node_id_def next_rev_def insert_thing_def insert_edge_def
      store_new_def fiat_thing_def demo_request_def bs_of_list_def bt_list_def Let_def)


text \<open>
  The cursor counts the results delivered, but the next page skips that many entries of the
  index, readable or not. When the first thing of a kind is not readable and more than a page of
  readable ones follows, the second page starts with a thing the first page already delivered.
\<close>

theorem find_by_kind_repeats:
  assumes "canon_from_str kind = Some y" and "bt_list (kind_index s) y = u # us"
    and "visible_of s b u = None" and "\<And>v. v \<in> set us \<Longrightarrow> visible_of s b v = Some (g v)"
    and "100 < length us"
  shows "snd (find_by_kind s b kind 0) = 100 \<and> fst (find_by_kind s b kind 100) \<noteq> [] \<and>
    hd (fst (find_by_kind s b kind 100)) \<in> set (fst (find_by_kind s b kind 0))"
proof -
  have v: "List.map_filter (visible_of s b) xs = map g xs" if "set xs \<subseteq> set us" for xs
    using that assms(4) by (intro map_filter_total) auto
  have ne: "us \<noteq> []" using assms(5) by auto
  have b: "List.map_filter (visible_of s b) (butlast us) = map g (butlast us)"
    by (rule v) (auto dest: in_set_butlastD)
  have p0: "find_by_kind s b kind 0 = (take 100 (map g us), 100)"
    using find_by_kind_page [OF assms(1), of s b 0] assms(2,3,5) ne b
    by (simp add: map_filter_simps v max_results_def)
  have d: "drop (unat (100 :: u64)) (u # us) = drop 99 us" by simp
  have p1: "fst (find_by_kind s b kind 100) = take 100 (map g (drop 99 us))"
    using find_by_kind_page [OF assms(1), of s b 100] assms(2) d
    by (simp add: v set_drop_subset max_results_def)
  have h: "hd (take 100 (map g (drop 99 us))) = g (us ! 99)" "take 100 (map g (drop 99 us)) \<noteq> []"
    using assms(5) by (simp_all add: hd_map hd_drop_conv_nth)
  have "g (us ! 99) = take 100 (map g us) ! 99" "99 < length (take 100 (map g us))"
    using assms(5) by simp_all
  then have "g (us ! 99) \<in> set (take 100 (map g us))" by (metis nth_mem)
  then show ?thesis using p0 p1 h by simp
qed

definition crowd_thing :: "uuid \<Rightarrow> graph_thing" where
  "crowd_thing u = \<lparr>thing_id = u, thing_kind = canon_WINDOW, thing_labels = [canon_WINDOW],
     thing_fields = [], thing_owner = 0, thing_revision = 1\<rparr>"

definition crowd_edge :: "uuid \<Rightarrow> graph_edge" where
  "crowd_edge u = \<lparr>edge_id = u, edge_src = 5, edge_pred = ''OWNS'', edge_dst = u, edge_props = [],
     edge_owner = 5, edge_revision = 1\<rparr>"

definition crowd_ids :: "uuid list" where
  "crowd_ids = map of_nat [1..<102]"

text \<open>102 windows, of which bundle 5 owns all but the first.\<close>

definition crowd :: store where
  "crowd = store_new\<lparr>things := map (\<lambda>u. (u, [crowd_thing u])) (0 # crowd_ids),
     kind_index := [(canon_WINDOW, 0 # crowd_ids)],
     edges_by_src_pred := [((5, ''OWNS''), map crowd_edge crowd_ids)]\<rparr>"

lemma crowd_visible:
  "visible_of crowd (BundleId 5) 0 = None"
  "v \<in> set crowd_ids \<Longrightarrow> visible_of crowd (BundleId 5) v = Some (crowd_thing v)"
proof -
  have zero: "0 \<notin> set crowd_ids"
  proof
    assume "0 \<in> set crowd_ids"
    then obtain n where n: "(of_nat n :: uuid) = 0" "1 \<le> n" "n < 102" by (auto simp: crowd_ids_def)
    have "unat (of_nat n :: uuid) = n" using n(3) by (simp only: unat_of_nat) simp
    then show False using n by simp
  qed
  have get: "bt_get (map (\<lambda>u. (u, [crowd_thing u])) us) v = (if v \<in> set us then Some [crowd_thing v] else None)"
    for us v by (induction us) auto
  have own: "owns crowd (BundleId 5) v \<longleftrightarrow> v \<in> set crowd_ids" for v
    by (auto simp: owns_def crowd_def bundle_node_id_def list_ex_iff crowd_edge_def)
  have cap: "\<not> has_capability crowd (BundleId 5) v canon_CAN_READ" "\<not> has_capability crowd (BundleId 5) v canon_CAN_WRITE" for v
    by (simp_all add: has_capability_def crowd_def bundle_node_id_def)
  have l: "latest crowd v = (if v \<in> set (0 # crowd_ids) then Some (crowd_thing v) else None)" for v
    using get [of "0 # crowd_ids" v] by (auto simp: latest_def crowd_def last_opt_def)
  show "visible_of crowd (BundleId 5) 0 = None"
    using zero by (simp add: visible_of_def l can_read_def can_write_def own cap crowd_thing_def)
  show "v \<in> set crowd_ids \<Longrightarrow> visible_of crowd (BundleId 5) v = Some (crowd_thing v)"
    by (simp add: visible_of_def l can_read_def own crowd_thing_def)
qed

theorem find_by_kind_repeats_witness:
  "hd (fst (find_by_kind crowd (BundleId 5) ''window'' 100)) \<in>
     set (fst (find_by_kind crowd (BundleId 5) ''window'' 0))"
  using find_by_kind_repeats [OF canon_from_str_window, of crowd 0 crowd_ids "BundleId 5"] crowd_visible
  by (simp add: crowd_def bt_list_def crowd_ids_def)

section \<open>Watches\<close>

text \<open>
  C6: delivery to watches is exact. After an operation the queue of every registered watch is
  what it was, with the change the operation made appended precisely when the change is visible
  to the watch's owner and its target matches the watch's pattern; polling a watch and
  registering a new one are the only operations that touch a queue otherwise.
\<close>

theorem watch_delivery_exact:
  assumes "graph_reach x n (s, jo)" and "2 * n + 1 < 2 ^ 64" and "\<not> touches_queue op i s"
    and "store_step x op (s, jo) = (s', jo')"
  shows "bt_get (watches s') i =
    (case bt_get (watches s) i of
       None \<Rightarrow> None
     | Some w \<Rightarrow> Some (case step_change x op s of
           None \<Rightarrow> w
         | Some c \<Rightarrow> if notified s' c w then watch_push c w else w))"
proof -
  have "store_inv s" using reach_inv [OF assms(1), of 0] assms(2) by simp
  from step_delivery [OF this assms(4,3)] show ?thesis
    by (simp add: push_if_def split: option.splits)
qed

definition watch_op :: store_op where
  "watch_op = ORegisterPattern (BundleId 5) \<lparr>pat_labels = [canon_WINDOW], pat_props = []\<rparr>"

definition watched_graph :: graph_state where
  "watched_graph = store_step demo_ext watch_op (store_new, journal_init None)"

theorem watch_delivery_exact_witness:
  "\<exists>w t. bt_get (watches (fst (store_step demo_ext demo_op watched_graph))) 1 = Some w \<and>
     watch_queue w = [CThing t] \<and> thing_id t = 9"
proof -
  obtain s jo where g: "watched_graph = (s, jo)" by (cases watched_graph)
  obtain s' jo' where st: "store_step demo_ext demo_op (s, jo) = (s', jo')" by fastforce
  have reach: "graph_reach demo_ext 1 (s, jo)"
    unfolding g [symmetric] watched_graph_def using graph_reach.step [OF graph_reach.boot] by simp
  have "store_inv s" "room s 2" using reach_inv [OF reach, of 2] by auto
  then have inv': "store_inv s'" and tr: "triples s' = triples s \<union> gain demo_ext demo_op s"
    using step_inv [OF _ _ st, of 0] step_triples [OF _ _ st] by (auto simp: numeral_2_eq_2)
  have w: "bt_get (watches s) 1 = Some \<lparr>watch_wid = 1, watch_owner = BundleId 5,
      watch_pattern = \<lparr>pat_labels = [canon_WINDOW], pat_props = []\<rparr>, watch_queue = []\<rparr>"
    using g by (auto simp: watched_graph_def watch_op_def register_watch_pattern_def store_new_def)
  let ?t = "fiat_thing demo_ext (BundleId 5) demo_request (next_revision (ensure_bundle_node (BundleId 5) s))"
  have c: "step_change demo_ext demo_op s = Some (CThing ?t)" by (simp add: step_change_def demo_op_def)
  have "can_read s' (BundleId 5) 9"
    using tr by (simp add: can_read_iff [OF inv'] can_write_iff [OF inv'] gain_def demo_op_def)
  then have "change_visible_to s' (BundleId 5) (CThing ?t)" by (simp add: change_visible_to_def)
  moreover have "canon_WINDOW \<in> set (thing_labels ?t)"
    by (simp add: fiat_thing_def demo_request_def bs_of_list_def Let_def)
  ultimately have "bt_get (watches s') 1 = Some \<lparr>watch_wid = 1, watch_owner = BundleId 5,
      watch_pattern = \<lparr>pat_labels = [canon_WINDOW], pat_props = []\<rparr>, watch_queue = [CThing ?t]\<rparr>"
    using watch_delivery_exact [OF reach _ _ st, of 1] w c
    by (simp add: demo_op_def notified_def change_target_def change_edge_def matches_pattern_def
        watch_push_def MAX_WATCH_QUEUE_def Let_def)
  then show ?thesis by (simp add: g st)
qed

text \<open>
  Polling returns the changes that arrived since the last poll, oldest first, of which the
  newest 1024 are kept, and leaves the queue empty, so that a second poll returns nothing.
\<close>

theorem poll_watch_drains:
  assumes "bt_get (watches s) i = Some w" and "length (watch_queue w) \<le> MAX_WATCH_QUEUE"
    and "watch_queue w @ cs \<noteq> []"
  defines "s1 \<equiv> s\<lparr>watches := bt_insert i (fold watch_push cs w) (watches s)\<rparr>"
  shows "map_option batch_changes (fst (poll_watch i s1)) = Some (keep_last 1024 (watch_queue w @ cs)) \<and>
    fst (poll_watch i (snd (poll_watch i s1))) = None"
proof -
  let ?q = "watch_queue (fold watch_push cs w)"
  have q: "?q = keep_last 1024 (watch_queue w @ cs)"
    using wq.entries_put_all [OF assms(2)] by (simp add: MAX_WATCH_QUEUE_def)
  then have "length ?q = min 1024 (length (watch_queue w @ cs))" by simp
  then have "?q \<noteq> []" using assms(3) by (metis length_0_conv min_def zero_neq_numeral)
  then show ?thesis using q by (simp add: poll_watch_def s1_def)
qed

theorem poll_watch_drains_witness:
  "let c = CThing (crowd_thing 3);
       w = \<lparr>watch_wid = 1, watch_owner = BundleId 5, watch_pattern = \<lparr>pat_labels = [], pat_props = []\<rparr>,
            watch_queue = []\<rparr>
   in map_option batch_changes (fst (poll_watch 1 (store_new\<lparr>watches := [(1, fold watch_push [c, c] w)]\<rparr>))) =
        Some [c, c]"
  using poll_watch_drains [of "store_new\<lparr>watches := [(1, \<lparr>watch_wid = 1, watch_owner = BundleId 5,
      watch_pattern = \<lparr>pat_labels = [], pat_props = []\<rparr>, watch_queue = []\<rparr>)]\<rparr>" 1 _
      "[CThing (crowd_thing 3), CThing (crowd_thing 3)]"]
  by (simp add: Let_def)

section \<open>Snapshots and the journal\<close>

text \<open>
  C7: restoring the snapshot of a graph into any store gives back the graph: every version of
  every thing, the edge log, both indexes rebuilt and the revision counter. Watches are not part
  of a snapshot and are dropped.
\<close>

theorem snapshot_restores_graph:
  assumes "store_inv s"
  shows "apply_snapshot (snapshot s) d = s\<lparr>watches := [], next_watch_id := next_watch_id d\<rparr>"
  by (rule apply_snapshot_restores [OF assms])

theorem snapshot_restores_graph_witness:
  "latest (apply_snapshot (snapshot (fst demo_graph)) store_new) 9 = latest (fst demo_graph) 9 \<and>
   owns (apply_snapshot (snapshot (fst demo_graph)) store_new) (BundleId 5) 9"
  using snapshot_restores_graph [OF demo_inv(1), of store_new] demo_owns
  by (simp add: latest_def owns_def)

text \<open>
  The journal is a first-in first-out log of fixed capacity: after any sequence of emits it
  holds the newest 1024 of its old entries and the new ones, in order.
\<close>

theorem journal_keeps_newest:
  assumes "journal_ok jo"
  shows "journal_log (fold (\<lambda>e j. snd (emit e j)) es jo) = keep_last 1024 (journal_log jo @ es)"
  using jl.entries_put_all [OF assms, of es] by (simp add: JOURNAL_CAPACITY_def)

theorem journal_keeps_newest_witness:
  "journal_log (fold (\<lambda>e j. snd (emit e j)) (replicate 1025 demo_event) None) = replicate 1024 demo_event"
  using journal_keeps_newest [of None "replicate 1025 demo_event"]
  by (simp add: journal_ok_def journal_log_def keep_last_def)

text \<open>
  A journal that was exported, in bytes that the postcard crate decodes to the events it
  encoded, is imported into a fresh journal with the same entries in the same order.
\<close>

theorem journal_export_import:
  assumes "journal_ok jo" and "export_bytes x jo = (Some bs, jo')"
    and "postcard_read_events x bs = Inr (journal_log jo)"
  shows "\<exists>jo2. import_bytes x bs None = (Inr (), jo2) \<and> journal_log jo2 = journal_log jo \<and> journal_ok jo2"
proof -
  have len: "length (journal_log jo) \<le> 1024"
    using assms(1) by (auto simp: journal_ok_def journal_log_def JOURNAL_CAPACITY_def split: option.splits)
  have none: "journal_ok None" "journal_log None = []" by (simp_all add: journal_ok_def journal_log_def)
  show ?thesis
    using jl.entries_put_all [OF none(1), of "journal_log jo"] jl.ok_put_all [OF none(1), of "journal_log jo"]
      len assms(3)
    by (simp add: import_bytes_def none(2) JOURNAL_CAPACITY_def)
qed

theorem journal_export_import_witness:
  "let jo = snd (emit demo_event None)
   in fst (export_bytes demo_ext jo) = Some [1] \<and>
      (\<exists>jo2. import_bytes demo_ext [1] None = (Inr (), jo2) \<and> journal_log jo2 = [demo_event])"
proof -
  let ?jo = "snd (emit demo_event None)"
  have ok: "journal_ok ?jo" by (rule journal_ok_emit) (simp add: journal_ok_def)
  have log: "journal_log ?jo = [demo_event]"
    using journal_log_emit [of None demo_event] by (simp add: journal_ok_def journal_log_def JOURNAL_CAPACITY_def)
  have ex: "export_bytes demo_ext ?jo = (Some [1], snd (export_bytes demo_ext ?jo))"
    using journal_snapshot_log [of ?jo] log
    by (cases "journal_snapshot ?jo") (simp add: export_bytes_def demo_ext_def)
  have "postcard_read_events demo_ext [1] = Inr (journal_log ?jo)" by (simp add: demo_ext_def log)
  from journal_export_import [OF ok ex this] ex log show ?thesis by (metis fst_conv)
qed

section \<open>Packages, tasks and queues\<close>

text \<open>
  Looking a bundle up by name, creating its package node when there is none, is stable: the
  id is the one derived from the name, a second call returns it again and changes nothing, and
  a package that the call created owns itself.
\<close>

theorem get_or_create_bundle_stable:
  assumes "store_inv (store_of g)" and "room (store_of g) 2"
    and "get_or_create_bundle x name g = (b, g')"
  shows "b = BundleId (package_uuid x name) \<and> lookup_bundle x name g' = (Some b, g') \<and>
    get_or_create_bundle x name g' = (b, g') \<and> store_inv (store_of g') \<and>
    (fst (lookup_bundle x name g) = None \<longrightarrow> owns (store_of g') b (bundle_uuid b))"
proof -
  let ?u = "package_uuid x name"
  have "b = BundleId ?u \<and> store_inv (store_of g') \<and> (\<exists>s. STORE g' = Some s) \<and>
    (\<exists>t. latest (store_of g') ?u = Some t \<and> thing_id t = ?u \<and> thing_kind t = canon_PACKAGE) \<and>
    (fst (lookup_bundle x name g) = None \<longrightarrow> owns (store_of g') b (bundle_uuid b))"
  proof (cases "fst (lookup_bundle x name g)")
    case (Some c)
    then obtain t where t: "latest (store_of g) ?u = Some t" "thing_kind t = canon_PACKAGE" "c = BundleId (thing_id t)"
      by (auto simp: lookup_bundle_def split: option.splits if_splits)
    have "b = c" "g' = g\<lparr>STORE := Some (store_of g)\<rparr>"
      using Some assms(3) t by (auto simp: get_or_create_bundle_def lookup_bundle_def)
    with t store_inv_latest(1) [OF assms(1) t(1)] assms(1) Some show ?thesis by simp
  next
    case None
    let ?r = "fiat_as_node \<lparr>fiat_id = Some ?u, fiat_kind = canon_PACKAGE, fiat_labels = [canon_PACKAGE],
      fiat_fields = package_fields (BundleId ?u) name (from_name name) None\<rparr>"
    let ?g = "g\<lparr>STORE := Some (store_of g)\<rparr>"
    obtain t s' j' where f: "fiat_node x (BundleId ?u) ?r (store_of g, JOURNAL g) = (t, s', j')"
      by (metis prod.collapse)
    have "get_or_create_bundle x name g = create_package x name (from_name name) None ?g"
      using None by (simp add: get_or_create_bundle_def lookup_bundle_def split: option.splits if_splits)
    also have "\<dots> = (BundleId ?u, ?g\<lparr>STORE := Some s', JOURNAL := j'\<rparr>)"
      using f by (simp add: create_package_def create_package_with_id_def fiat_for_bundle_def with_store_def
          fiat_def fiat_as_node_def)
    finally have g': "b = BundleId ?u" "g' = g\<lparr>STORE := Some s', JOURNAL := j'\<rparr>" using assms(3) by simp_all
    have rm: "room (store_of g) (Suc (Suc 0))" using assms(2) by (simp add: numeral_2_eq_2)
    note fs = fiat_node_spec [OF assms(1) rm f]
    have t: "thing_id t = ?u" "thing_kind t = canon_PACKAGE"
      using fs(4) by (auto simp: fiat_thing_def fiat_target_def fiat_as_node_def bs_of_list_def Let_def)
    have "owns s' b ?u" using triples_snoc [OF fs(5)] t g'(1) by (simp add: owns_iff [OF fs(1)])
    with fs(1,3) t g' show ?thesis by simp
  qed
  then show ?thesis
    using restore_store by (auto simp: lookup_bundle_def get_or_create_bundle_def)
qed

theorem get_or_create_bundle_stable_witness:
  "fst (get_or_create_bundle demo_ext ''mouse_driver'' graph_off) = BundleId 12 \<and>
   owns (store_of (snd (get_or_create_bundle demo_ext ''mouse_driver'' graph_off))) (BundleId 12) 12"
proof -
  obtain b g' where g: "get_or_create_bundle demo_ext ''mouse_driver'' graph_off = (b, g')" by fastforce
  have "store_of graph_off = store_new" by (simp add: graph_off_def store_of_def)
  moreover have "room store_new 2" by (simp add: room_def store_new_def)
  moreover have "fst (lookup_bundle demo_ext ''mouse_driver'' graph_off) = None"
    using calculation by (simp add: lookup_bundle_def latest_def store_new_def)
  moreover have "package_uuid demo_ext ''mouse_driver'' = 12"
    by (simp add: package_uuid_def demo_ext_def as_bytes_def)
  ultimately show ?thesis
    using get_or_create_bundle_stable [OF _ _ g] store_inv_new g by auto
qed

lemma queue_field_symbols:
  "canon_HEAD \<noteq> canon_TAIL" "canon_HEAD \<noteq> canon_HAS_DATA" "canon_TAIL \<noteq> canon_HAS_DATA"
  "canon_CAPACITY \<noteq> canon_HEAD" "canon_CAPACITY \<noteq> canon_TAIL" "canon_CAPACITY \<noteq> canon_HAS_DATA"
  "canon_BUFFER \<noteq> canon_HEAD" "canon_BUFFER \<noteq> canon_TAIL" "canon_BUFFER \<noteq> canon_HAS_DATA"
  "canon_BUFFER \<noteq> canon_CAPACITY" "canon_BUFFER \<noteq> canon_OWNER"
  by code_simp+

lemma sorted_queue_update: "sorted_map (queue_update_props h tail d cap)"
  unfolding queue_update_props_def opt_u64_field_def
  by (cases cap) (auto intro!: sorted_map_insert simp del: bt_insert.simps)

lemma get_queue_update:
  "bt_get (queue_update_props h tail d cap) canon_HEAD = Some (VU64 h)"
  "bt_get (queue_update_props h tail d cap) canon_TAIL = Some (VU64 tail)"
  "bt_get (queue_update_props h tail d cap) canon_HAS_DATA = Some (VBool d)"
  "bt_get (queue_update_props h tail d cap) canon_BUFFER = None"
  using queue_field_symbols
  by (auto simp: queue_update_props_def opt_u64_field_def split: option.splits)

text \<open>
  A queue state node can be updated by the bundle it was declared for: after declaring it,
  an update by that bundle succeeds and the node then holds the new head, tail and data flag,
  and still the buffer it was declared with.
\<close>

theorem queue_state_updates:
  assumes "store_inv (store_of g)" and "room (store_of g) 3"
    and "declare_queue_state x spec g = (t, g1)"
    and "update_queue_state (BundleId (qs_owner spec)) (thing_id t) h tail d cap g1 = (ok, g2)"
  shows "ok \<and> (\<exists>t'. latest (store_of g2) (thing_id t) = Some t' \<and>
    bt_get (thing_fields t') canon_HEAD = Some (VU64 h) \<and> bt_get (thing_fields t') canon_TAIL = Some (VU64 tail) \<and>
    bt_get (thing_fields t') canon_HAS_DATA = Some (VBool d) \<and>
    bt_get (thing_fields t') canon_BUFFER = Some (VUuid (qs_buffer spec)))"
proof -
  let ?b = "BundleId (qs_owner spec)"
  let ?m = "queue_update_props h tail d cap"
  obtain r s1 j1 where r: "fiat_node x ?b r (store_of g, JOURNAL g) = (t, s1, j1)"
      "g1 = g\<lparr>STORE := Some s1, JOURNAL := j1\<rparr>"
      "bt_get (node_props r) canon_BUFFER = Some (VUuid (qs_buffer spec))"
    using assms(3) queue_field_symbols
    by (auto simp: declare_queue_state_def api_fiat_node_def with_store_def opt_u64_field_def Let_def
        split: prod.splits option.splits)
  have rm: "room (store_of g) (Suc (Suc (Suc 0)))" using assms(2) by (simp add: numeral_3_eq_3)
  note fs = fiat_node_spec [OF assms(1) rm r(1)]
  have own: "can_write s1 ?b (thing_id t)"
    using triples_snoc [OF fs(5)] by (simp add: can_write_iff [OF fs(1)])
  have buf: "bt_get (thing_fields t) canon_BUFFER = Some (VUuid (qs_buffer spec))"
    using fs(4) r(3) queue_field_symbols by (auto simp: fiat_thing_def Let_def)
  obtain s2 where s2: "set_props ?b \<lparr>ps_node = thing_id t, ps_props = ?m\<rparr> s1 = (ok, s2)" "g2 = g1\<lparr>STORE := Some s2\<rparr>"
    using assms(4) r(2)
    by (auto simp: update_queue_state_def api_set_props_def with_store_def on_store_def split: prod.splits)
  note sp = set_props_spec [OF fs(1,2) s2(1)]
  have "ok" using sp(1) own fs(3) by simp
  moreover have "latest s2 (thing_id t) = Some (t\<lparr>thing_fields := bt_extend (thing_fields t) ?m,
      thing_revision := next_revision s1\<rparr>)"
    using sp(7) \<open>ok\<close> fs(3) by simp
  moreover have "bt_get (bt_extend (thing_fields t) ?m) = bt_get (thing_fields t) ++ bt_get ?m"
    by (simp add: bt_get_extend map_of_distinct_rev sorted_map_distinct sorted_queue_update)
  ultimately show ?thesis using s2(2) buf by (simp add: map_add_def get_queue_update)
qed

theorem queue_state_updates_witness:
  "let spec = \<lparr>qs_id = Some 40, qs_buffer = 41, qs_owner = 5, qs_head = 0, qs_tail = 0,
        qs_has_data = False, qs_capacity = Some 8, qs_props = []\<rparr>
   in fst (update_queue_state (BundleId 5) (thing_id (fst (declare_queue_state demo_ext spec graph_off)))
        1 2 True None (snd (declare_queue_state demo_ext spec graph_off)))"
proof -
  let ?spec = "\<lparr>qs_id = Some 40, qs_buffer = 41, qs_owner = 5, qs_head = 0, qs_tail = 0,
        qs_has_data = False, qs_capacity = Some 8, qs_props = []\<rparr>"
  obtain t g1 where d: "declare_queue_state demo_ext ?spec graph_off = (t, g1)" by fastforce
  obtain ok g2 where u: "update_queue_state (BundleId (qs_owner ?spec)) (thing_id t) 1 2 True None g1 = (ok, g2)"
    by fastforce
  have "store_of graph_off = store_new" by (simp add: graph_off_def store_of_def)
  moreover have "room store_new 3" by (simp add: room_def store_new_def)
  ultimately show ?thesis
    using queue_state_updates [OF _ _ d u] store_inv_new d u by (simp add: Let_def)
qed

text \<open>
  The bundle ids handed to tasks are pairwise distinct for the first 2^64 tasks, and none of
  them is the kernel's, so no task is ever given the kernel's authority by its id.
\<close>

theorem task_ids_fresh:
  fixes g0 :: kernel_graph and p :: bundle_id and name :: string and ls :: "symbol list"
  assumes "i < j" and "j < 2 ^ 64"
  defines "after \<equiv> \<lambda>n. ((\<lambda>g. snd (create_task p name ls g)) ^^ n) g0"
  shows "fst (create_task p name ls (after i)) \<noteq> fst (create_task p name ls (after j)) \<and>
    fst (create_task p name ls (after i)) \<noteq> KERNEL_BUNDLE_ID"
proof -
  have cnt: "TASK_COUNTER (after n) = TASK_COUNTER g0 + of_nat n" for n
    unfolding after_def by (induction n) (simp_all add: create_task_def)
  have "(of_nat i :: u64) \<noteq> of_nat j"
  proof
    assume "(of_nat i :: u64) = of_nat j"
    then have "unat (of_nat i :: u64) = unat (of_nat j :: u64)" by simp
    then show False using assms(1,2) by (simp add: unat_of_nat)
  qed
  then have "TASK_COUNTER (after i) \<noteq> TASK_COUNTER (after j)" by (simp add: cnt)
  moreover have "ucast (ucast c :: uuid) = c" for c :: u64
    by (rule bit_word_eqI) (simp add: bit_ucast_iff)
  ultimately have ne: "(ucast (TASK_COUNTER (after i)) :: uuid) \<noteq> ucast (TASK_COUNTER (after j))"
    by metis
  then show ?thesis using task_id_not_kernel by (simp add: create_task_def)
qed

theorem task_ids_fresh_witness:
  "fst (create_task KERNEL_BUNDLE_ID ''a'' [] graph_off) \<noteq>
     fst (create_task KERNEL_BUNDLE_ID ''a'' [] (snd (create_task KERNEL_BUNDLE_ID ''a'' [] graph_off)))"
  using task_ids_fresh [of 0 1 KERNEL_BUNDLE_ID "''a''" "[]" graph_off] by simp

end
