(* ===== verification/Input.thy ===== *)
theory Input
  imports Prelude
begin

text \<open>
  The ring buffer the interrupt handlers fill and the readers drain
  (\<open>src/kernel/src/drivers/input.rs\<close>), the keyboard and mouse readers and interrupt handlers
  over it (\<open>keyboard.rs\<close>, \<open>mouse.rs\<close>), and the interleavings of one producer with one
  consumer at the granularity of the buffer's atomic accesses and its lock.
\<close>

section \<open>A bounded first-in first-out queue\<close>

text \<open>
  What a device reader relies on: a push is accepted while there is room and then appended, a
  pop returns the oldest item.
\<close>

locale bounded_fifo =
  fixes push :: "'a \<Rightarrow> 'q \<Rightarrow> bool \<times> 'q"
    and pop :: "'q \<Rightarrow> 'a option \<times> 'q"
    and items :: "'q \<Rightarrow> 'a list"
    and cap :: nat
    and ok :: "'q \<Rightarrow> bool"
  assumes push_room: "ok q \<Longrightarrow> length (items q) < cap \<Longrightarrow>
      fst (push x q) \<and> items (snd (push x q)) = items q @ [x]"
    and push_full: "ok q \<Longrightarrow> length (items q) \<ge> cap \<Longrightarrow> push x q = (False, q)"
    and ok_push: "ok q \<Longrightarrow> ok (snd (push x q))"
    and pop_empty: "ok q \<Longrightarrow> items q = [] \<Longrightarrow> pop q = (None, q)"
    and pop_item: "ok q \<Longrightarrow> items q = x # xs \<Longrightarrow> fst (pop q) = Some x \<and> items (snd (pop q)) = xs"
    and ok_pop: "ok q \<Longrightarrow> ok (snd (pop q))"

text \<open>
  The loop of \<open>read_keyboard\<close> and \<open>read_mouse\<close>: fill the caller's slots until the buffer is
  empty; the number written, the slots and the queue are returned.
\<close>

fun read_slots :: "('q \<Rightarrow> 'a option \<times> 'q) \<Rightarrow> 'a list \<Rightarrow> 'q \<Rightarrow> nat \<times> 'a list \<times> 'q" where
  "read_slots pop [] q = (0, [], q)"
| "read_slots pop (slot # rest) q =
     (case pop q of
        (Some byte, q1) \<Rightarrow> (case read_slots pop rest q1 of (n, rest', q2) \<Rightarrow> (Suc n, byte # rest', q2))
      | (None, q1) \<Rightarrow> (0, slot # rest, q1))"

context bounded_fifo
begin

lemma read_slots_spec:
  "ok q \<Longrightarrow> read_slots pop slots q = (n, slots', q') \<Longrightarrow>
     n = min (length slots) (length (items q)) \<and>
     slots' = take n (items q) @ drop n slots \<and> items q' = drop n (items q) \<and> ok q'"
proof (induction slots arbitrary: q n slots' q')
  case (Cons slot rest)
  show ?case
  proof (cases "items q")
    case Nil
    then show ?thesis using Cons.prems pop_empty [OF Cons.prems(1)] by auto
  next
    case (Cons x xs)
    obtain m rest' where r: "read_slots pop rest (snd (pop q)) = (m, rest', q')" "n = Suc m" "slots' = x # rest'"
      using Cons.prems pop_item [OF Cons.prems(1) Cons] by (auto split: prod.splits option.splits)
    show ?thesis
      using Cons.IH [OF ok_pop [OF Cons.prems(1)] r(1)] r(2,3) pop_item [OF Cons.prems(1) Cons] Cons by auto
  qed
qed simp

lemma items_pushes:
  "ok q \<Longrightarrow> length (items q) \<le> cap \<Longrightarrow>
     items (fold (\<lambda>x q. snd (push x q)) xs q) = take cap (items q @ xs) \<and> ok (fold (\<lambda>x q. snd (push x q)) xs q)"
proof (induction xs arbitrary: q)
  case Nil
  then show ?case by simp
next
  case (Cons x xs)
  show ?case
  proof (cases "length (items q) < cap")
    case True
    then show ?thesis
      using Cons.IH [OF ok_push [OF Cons.prems(1)], of x] push_room [OF Cons.prems(1) True, of x]
      by simp
  next
    case False
    then have "length (items q) = cap" "push x q = (False, q)"
      using Cons.prems push_full by auto
    then show ?thesis using Cons.IH [OF Cons.prems] by simp
  qed
qed

end

section \<open>InputBuffer\<close>

text \<open>
  \<open>N\<close> is the length of \<open>buf\<close>; indices stay below \<open>N\<close>, so \<open>head + 1\<close> cannot overflow
  a \<open>usize\<close> for any buffer that fits in memory and they are naturals here.
\<close>

record 'a input_buffer =
  ib_buf :: "'a list"
  ib_head :: nat
  ib_tail :: nat
  ib_default :: 'a

definition ib_new :: "nat \<Rightarrow> 'a \<Rightarrow> 'a input_buffer" where
  "ib_new N dflt = \<lparr>ib_buf = replicate N dflt, ib_head = 0, ib_tail = 0, ib_default = dflt\<rparr>"

text \<open>\<open>locked\<close> says that another context holds the lock, so that \<open>try_lock\<close> fails.\<close>

definition ib_push :: "bool \<Rightarrow> 'a \<Rightarrow> 'a input_buffer \<Rightarrow> bool \<times> 'a input_buffer" where
  "ib_push locked value b =
     (let next = (ib_head b + 1) mod length (ib_buf b)
      in if next = ib_tail b then (False, b)
         else if \<not> locked then (True, b\<lparr>ib_buf := (ib_buf b)[ib_head b := value], ib_head := next\<rparr>)
         else (False, b))"

definition ib_pop :: "'a input_buffer \<Rightarrow> 'a option \<times> 'a input_buffer" where
  "ib_pop b =
     (if ib_head b = ib_tail b then (None, b)
      else (Some (ib_buf b ! ib_tail b), b\<lparr>ib_tail := (ib_tail b + 1) mod length (ib_buf b)\<rparr>))"

definition ib_clear :: "'a input_buffer \<Rightarrow> 'a input_buffer" where
  "ib_clear b = b\<lparr>ib_buf := replicate (length (ib_buf b)) (ib_default b), ib_head := 0, ib_tail := 0\<rparr>"

definition ib_is_empty :: "'a input_buffer \<Rightarrow> bool" where
  "ib_is_empty b \<longleftrightarrow> ib_head b = ib_tail b"

definition ib_len :: "'a input_buffer \<Rightarrow> nat" where
  "ib_len b =
     (if ib_head b \<ge> ib_tail b then ib_head b - ib_tail b
      else length (ib_buf b) - ib_tail b + ib_head b)"

definition ib_positions :: "'a input_buffer \<Rightarrow> nat \<times> nat" where
  "ib_positions b = (ib_head b, ib_tail b)"

text \<open>Invariant and abstraction: the items from tail to head, around the end of the array.\<close>

definition ib_ok :: "'a input_buffer \<Rightarrow> bool" where
  "ib_ok b \<longleftrightarrow> 0 < length (ib_buf b) \<and> ib_head b < length (ib_buf b) \<and> ib_tail b < length (ib_buf b)"

definition ib_items :: "'a input_buffer \<Rightarrow> 'a list" where
  "ib_items b = map (\<lambda>i. ib_buf b ! ((ib_tail b + i) mod length (ib_buf b))) [0..<ib_len b]"

lemma length_ib_items [simp]: "length (ib_items b) = ib_len b"
  by (simp add: ib_items_def)

lemma ib_len_less: "ib_ok b \<Longrightarrow> ib_len b < length (ib_buf b)"
  by (auto simp: ib_ok_def ib_len_def)

lemma ib_head_mod: "ib_ok b \<Longrightarrow> (ib_tail b + ib_len b) mod length (ib_buf b) = ib_head b"
  by (auto simp: ib_ok_def ib_len_def)

lemma mod_succ: "h < n \<Longrightarrow> Suc h mod n = (if Suc h = n then 0 else Suc h)" for h n :: nat
  by auto

lemma mod_wrap: "x < 2 * n \<Longrightarrow> x mod n = (if x < n then x else x - n)" for x n :: nat
  by (auto simp: le_mod_geq)

lemma ib_full_iff:
  "ib_ok b \<Longrightarrow> (ib_head b + 1) mod length (ib_buf b) = ib_tail b \<longleftrightarrow> ib_len b = length (ib_buf b) - 1"
  by (auto simp: ib_ok_def ib_len_def mod_succ split: if_splits)

lemma ib_empty_iff: "ib_ok b \<Longrightarrow> ib_items b = [] \<longleftrightarrow> ib_head b = ib_tail b"
  by (auto simp: ib_ok_def ib_len_def ib_items_def)

text \<open>A write at head leaves the items alone, and publishing head appends the written value.\<close>

lemma ib_items_write:
  assumes "ib_ok b"
  shows "ib_items (b\<lparr>ib_buf := (ib_buf b)[ib_head b := v]\<rparr>) = ib_items b"
proof -
  let ?n = "length (ib_buf b)"
  have ne: "ib_head b \<noteq> (ib_tail b + i) mod ?n" if "i < ib_len b" for i
  proof -
    have "ib_tail b + i < 2 * ?n" using that ib_len_less [OF assms] assms by (auto simp: ib_ok_def)
    then show ?thesis
      using that assms by (auto simp: mod_wrap ib_ok_def ib_len_def split: if_splits)
  qed
  moreover have "ib_len (b\<lparr>ib_buf := (ib_buf b)[ib_head b := v]\<rparr>) = ib_len b" by (simp add: ib_len_def)
  ultimately show ?thesis unfolding ib_items_def by (intro map_cong) (simp_all add: nth_list_update_neq [OF ne])
qed

lemma ib_publish:
  assumes ok: "ib_ok b" and room: "(ib_head b + 1) mod length (ib_buf b) \<noteq> ib_tail b"
  defines "b' \<equiv> b\<lparr>ib_head := (ib_head b + 1) mod length (ib_buf b)\<rparr>"
  shows "ib_ok b'" and "ib_len b' = Suc (ib_len b)" and "ib_items b' = ib_items b @ [ib_buf b ! ib_head b]"
proof -
  show "ib_ok b'" using ok by (simp add: ib_ok_def b'_def)
  show l: "ib_len b' = Suc (ib_len b)"
    using ok room by (auto simp: ib_ok_def ib_len_def b'_def mod_succ split: if_splits)
  have "ib_items b' = map (\<lambda>i. ib_buf b ! ((ib_tail b + i) mod length (ib_buf b))) [0..<Suc (ib_len b)]"
    unfolding ib_items_def l by (simp add: b'_def)
  then show "ib_items b' = ib_items b @ [ib_buf b ! ib_head b]"
    using ib_head_mod [OF ok] by (simp add: ib_items_def)
qed

lemma ib_consume:
  assumes ok: "ib_ok b" and ne: "ib_head b \<noteq> ib_tail b"
  defines "b' \<equiv> b\<lparr>ib_tail := (ib_tail b + 1) mod length (ib_buf b)\<rparr>"
  shows "ib_ok b'" and "Suc (ib_len b') = ib_len b" and "ib_items b = ib_buf b ! ib_tail b # ib_items b'"
proof -
  show "ib_ok b'" using ok by (simp add: ib_ok_def b'_def)
  show l: "Suc (ib_len b') = ib_len b"
    using ok ne by (auto simp: ib_ok_def ib_len_def b'_def mod_succ split: if_splits)
  have "ib_items b = map (\<lambda>i. ib_buf b ! ((ib_tail b + i) mod length (ib_buf b))) [0..<Suc (ib_len b')]"
    unfolding ib_items_def l ..
  also have "\<dots> = ib_buf b ! (ib_tail b mod length (ib_buf b)) #
      map (\<lambda>i. ib_buf b ! ((ib_tail b + Suc i) mod length (ib_buf b))) [0..<ib_len b']"
    by (simp add: map_upt_Suc del: upt_Suc)
  also have "map (\<lambda>i. ib_buf b ! ((ib_tail b + Suc i) mod length (ib_buf b))) [0..<ib_len b'] = ib_items b'"
    by (simp add: ib_items_def b'_def mod_simps)
  finally show "ib_items b = ib_buf b ! ib_tail b # ib_items b'"
    using ok by (simp add: ib_ok_def)
qed

lemma ib_push_free:
  "ib_ok b \<Longrightarrow> ib_len b < length (ib_buf b) - 1 \<Longrightarrow>
     fst (ib_push False v b) \<and> ib_items (snd (ib_push False v b)) = ib_items b @ [v] \<and>
     ib_ok (snd (ib_push False v b))"
proof -
  assume ok: "ib_ok b" and room: "ib_len b < length (ib_buf b) - 1"
  let ?b = "b\<lparr>ib_buf := (ib_buf b)[ib_head b := v]\<rparr>"
  have ok': "ib_ok ?b" using ok by (simp add: ib_ok_def)
  have nf: "(ib_head b + 1) mod length (ib_buf b) \<noteq> ib_tail b" using ib_full_iff [OF ok] room by simp
  have "ib_push False v b = (True, ?b\<lparr>ib_head := (ib_head ?b + 1) mod length (ib_buf ?b)\<rparr>)"
    using nf by (simp add: ib_push_def Let_def)
  then show ?thesis
    using ib_publish [OF ok'] nf ib_items_write [OF ok, of v] ok by (simp add: ib_ok_def)
qed

lemma ib_push_locked: "ib_push True v b = (False, b)"
  by (simp add: ib_push_def Let_def)

definition ib_ready :: "nat \<Rightarrow> 'a input_buffer \<Rightarrow> bool" where
  "ib_ready N b \<longleftrightarrow> ib_ok b \<and> length (ib_buf b) = N"

lemma ib_ready_new: "0 < N \<Longrightarrow> ib_ready N (ib_new N d)"
  by (simp add: ib_ready_def ib_ok_def ib_new_def)

lemma length_ib_push [simp]: "length (ib_buf (snd (ib_push l v b))) = length (ib_buf b)"
  by (simp add: ib_push_def Let_def)

lemma length_ib_pop [simp]: "length (ib_buf (snd (ib_pop b))) = length (ib_buf b)"
  by (simp add: ib_pop_def)

lemma ib_ok_push: "ib_ok b \<Longrightarrow> ib_ok (snd (ib_push l v b))"
  by (auto simp: ib_ok_def ib_push_def Let_def)

lemma ib_ok_pop: "ib_ok b \<Longrightarrow> ib_ok (snd (ib_pop b))"
  by (auto simp: ib_ok_def ib_pop_def)

section \<open>Keyboard and mouse\<close>

definition KEYBOARD_BUFFER_LEN :: nat where
  "KEYBOARD_BUFFER_LEN = 256"

definition MOUSE_RAW_CAPACITY :: nat where
  "MOUSE_RAW_CAPACITY = 4096"

definition read_keyboard :: "u8 list \<Rightarrow> u8 input_buffer \<Rightarrow> nat \<times> u8 list \<times> u8 input_buffer" where
  "read_keyboard = read_slots ib_pop"

definition read_mouse :: "u8 list \<Rightarrow> u8 input_buffer \<Rightarrow> nat \<times> u8 list \<times> u8 input_buffer" where
  "read_mouse = read_slots ib_pop"

text \<open>
  The interrupt handlers: \<open>port\<close> is the byte read from port 0x60 and \<open>locked\<close> whether the
  interrupted context holds the buffer; the result also says whether the byte was dropped. The
  end-of-interrupt signal goes to the interrupt controller.
\<close>

definition keyboard_interrupt_handler :: "bool \<Rightarrow> u8 \<Rightarrow> u8 input_buffer \<Rightarrow> bool \<times> u8 input_buffer" where
  "keyboard_interrupt_handler locked port b =
     (let (ok, b') = ib_push locked port b in (\<not> ok, b'))"

definition mouse_interrupt_handler :: "bool \<Rightarrow> u8 \<Rightarrow> u8 input_buffer \<Rightarrow> bool \<times> u8 input_buffer" where
  "mouse_interrupt_handler locked port b =
     (let (ok, b') = ib_push locked port b in (\<not> ok, b'))"

lemma ib_fifo: "bounded_fifo (ib_push False) ib_pop ib_items (N - 1) (ib_ready N)"
proof unfold_locales
  fix q :: "'a input_buffer" and x :: 'a and xs
  assume q: "ib_ready N q"
  then have ok: "ib_ok q" and len: "length (ib_buf q) = N" by (auto simp: ib_ready_def)
  show "length (ib_items q) < N - 1 \<Longrightarrow>
      fst (ib_push False x q) \<and> ib_items (snd (ib_push False x q)) = ib_items q @ [x]"
    using ib_push_free [OF ok] len by simp
  show "length (ib_items q) \<ge> N - 1 \<Longrightarrow> ib_push False x q = (False, q)"
    using ib_full_iff [OF ok] ib_len_less [OF ok] len by (auto simp: ib_push_def Let_def)
  show "ib_ready N (snd (ib_push False x q))" "ib_ready N (snd (ib_pop q))"
    using ib_ok_push [OF ok] ib_ok_pop [OF ok] len by (simp_all add: ib_ready_def)
  show "ib_items q = [] \<Longrightarrow> ib_pop q = (None, q)"
    using ib_empty_iff [OF ok] by (simp add: ib_pop_def)
  show "ib_items q = x # xs \<Longrightarrow> fst (ib_pop q) = Some x \<and> ib_items (snd (ib_pop q)) = xs"
    using ib_empty_iff [OF ok] ib_consume [OF ok] by (cases "ib_head q = ib_tail q") (simp_all add: ib_pop_def)
qed

interpretation kb: bounded_fifo "ib_push False" ib_pop ib_items "KEYBOARD_BUFFER_LEN - 1" "ib_ready KEYBOARD_BUFFER_LEN"
  by (rule ib_fifo)

interpretation ms: bounded_fifo "ib_push False" ib_pop ib_items "MOUSE_RAW_CAPACITY - 1" "ib_ready MOUSE_RAW_CAPACITY"
  by (rule ib_fifo)

section \<open>One producer, one consumer, any interleaving\<close>

text \<open>
  The steps of \<open>push\<close> and \<open>pop\<close> between two accesses to shared state. The producer has
  loaded both indices, or holds the lock and has written its slot; the consumer holds the lock,
  or has also read its slot. The two ghost lists record accepted and delivered values.
\<close>

datatype 'a producer = PIdle | PLoaded 'a nat | PWrote 'a nat

datatype 'a consumer = CIdle | CLocked | CRead 'a

record 'a spsc =
  sp_buf :: "'a input_buffer"
  sp_locked :: bool
  sp_prod :: "'a producer"
  sp_cons :: "'a consumer"
  sp_pushed :: "'a list"
  sp_popped :: "'a list"

inductive spsc_step :: "'a spsc \<Rightarrow> 'a spsc \<Rightarrow> bool" where
  push_load: "sp_prod s = PIdle \<Longrightarrow>
    (ib_head (sp_buf s) + 1) mod length (ib_buf (sp_buf s)) \<noteq> ib_tail (sp_buf s) \<Longrightarrow>
    spsc_step s (s\<lparr>sp_prod := PLoaded v (ib_head (sp_buf s))\<rparr>)"
| push_contended: "sp_prod s = PLoaded v h \<Longrightarrow> sp_locked s \<Longrightarrow> spsc_step s (s\<lparr>sp_prod := PIdle\<rparr>)"
| push_write: "sp_prod s = PLoaded v h \<Longrightarrow> \<not> sp_locked s \<Longrightarrow>
    spsc_step s (s\<lparr>sp_locked := True, sp_prod := PWrote v h,
      sp_buf := (sp_buf s)\<lparr>ib_buf := (ib_buf (sp_buf s))[h := v]\<rparr>\<rparr>)"
| push_publish: "sp_prod s = PWrote v h \<Longrightarrow>
    spsc_step s (s\<lparr>sp_locked := False, sp_prod := PIdle, sp_pushed := sp_pushed s @ [v],
      sp_buf := (sp_buf s)\<lparr>ib_head := (h + 1) mod length (ib_buf (sp_buf s))\<rparr>\<rparr>)"
| pop_lock: "sp_cons s = CIdle \<Longrightarrow> \<not> sp_locked s \<Longrightarrow>
    spsc_step s (s\<lparr>sp_locked := True, sp_cons := CLocked\<rparr>)"
| pop_empty: "sp_cons s = CLocked \<Longrightarrow> ib_head (sp_buf s) = ib_tail (sp_buf s) \<Longrightarrow>
    spsc_step s (s\<lparr>sp_locked := False, sp_cons := CIdle\<rparr>)"
| pop_read: "sp_cons s = CLocked \<Longrightarrow> ib_head (sp_buf s) \<noteq> ib_tail (sp_buf s) \<Longrightarrow>
    spsc_step s (s\<lparr>sp_cons := CRead (ib_buf (sp_buf s) ! ib_tail (sp_buf s))\<rparr>)"
| pop_publish: "sp_cons s = CRead v \<Longrightarrow>
    spsc_step s (s\<lparr>sp_locked := False, sp_cons := CIdle, sp_popped := sp_popped s @ [v],
      sp_buf := (sp_buf s)\<lparr>ib_tail := (ib_tail (sp_buf s) + 1) mod length (ib_buf (sp_buf s))\<rparr>\<rparr>)"

inductive_cases spsc_stepE: "spsc_step s t"

definition spsc_start :: "nat \<Rightarrow> 'a \<Rightarrow> 'a spsc" where
  "spsc_start N d = \<lparr>sp_buf = ib_new N d, sp_locked = False, sp_prod = PIdle, sp_cons = CIdle,
     sp_pushed = [], sp_popped = []\<rparr>"

definition spsc_inv :: "nat \<Rightarrow> 'a spsc \<Rightarrow> bool" where
  "spsc_inv N s \<longleftrightarrow> ib_ready N (sp_buf s) \<and> sp_pushed s = sp_popped s @ ib_items (sp_buf s) \<and>
     (case sp_prod s of
        PIdle \<Rightarrow> True
      | PLoaded v h \<Rightarrow> h = ib_head (sp_buf s) \<and> ib_len (sp_buf s) < N - 1
      | PWrote v h \<Rightarrow> h = ib_head (sp_buf s) \<and> ib_len (sp_buf s) < N - 1 \<and> ib_buf (sp_buf s) ! h = v \<and>
          sp_locked s \<and> sp_cons s = CIdle) \<and>
     (case sp_cons s of
        CIdle \<Rightarrow> sp_locked s \<longrightarrow> (\<exists>v h. sp_prod s = PWrote v h)
      | CLocked \<Rightarrow> sp_locked s
      | CRead v \<Rightarrow> sp_locked s \<and> ib_head (sp_buf s) \<noteq> ib_tail (sp_buf s) \<and>
          v = ib_buf (sp_buf s) ! ib_tail (sp_buf s))"

lemma spsc_inv_start: "0 < N \<Longrightarrow> spsc_inv N (spsc_start N d)"
  using ib_ready_new [of N d]
  by (simp add: spsc_inv_def spsc_start_def) (simp add: ib_items_def ib_len_def ib_new_def)

lemma spsc_inv_push_write:
  assumes inv: "spsc_inv N s" and p: "sp_prod s = PLoaded v h" and l: "\<not> sp_locked s"
  shows "spsc_inv N (s\<lparr>sp_locked := True, sp_prod := PWrote v h,
      sp_buf := (sp_buf s)\<lparr>ib_buf := (ib_buf (sp_buf s))[h := v]\<rparr>\<rparr>)"
proof -
  let ?b = "sp_buf s"
  have h: "h = ib_head ?b" "ib_ok ?b" "length (ib_buf ?b) = N" "ib_len ?b < N - 1"
    "sp_pushed s = sp_popped s @ ib_items ?b" "sp_cons s = CIdle"
    using inv p l by (auto simp: spsc_inv_def ib_ready_def split: consumer.splits)
  have "ib_len (?b\<lparr>ib_buf := (ib_buf ?b)[h := v]\<rparr>) = ib_len ?b" by (simp add: ib_len_def)
  then show ?thesis
    using h ib_items_write [OF h(2), of v] by (auto simp: spsc_inv_def ib_ready_def ib_ok_def)
qed

lemma spsc_inv_push_publish:
  assumes inv: "spsc_inv N s" and p: "sp_prod s = PWrote v h"
  shows "spsc_inv N (s\<lparr>sp_locked := False, sp_prod := PIdle, sp_pushed := sp_pushed s @ [v],
      sp_buf := (sp_buf s)\<lparr>ib_head := (h + 1) mod length (ib_buf (sp_buf s))\<rparr>\<rparr>)"
proof -
  let ?b = "sp_buf s"
  have h: "h = ib_head ?b" "ib_ok ?b" "length (ib_buf ?b) = N" "ib_len ?b < N - 1" "ib_buf ?b ! h = v"
    "sp_pushed s = sp_popped s @ ib_items ?b" "sp_cons s = CIdle"
    using inv p by (auto simp: spsc_inv_def ib_ready_def)
  have "(ib_head ?b + 1) mod length (ib_buf ?b) \<noteq> ib_tail ?b" using ib_full_iff [OF h(2)] h(3,4) by simp
  from ib_publish [OF h(2) this] show ?thesis
    using h by (simp add: spsc_inv_def ib_ready_def)
qed

lemma spsc_inv_pop_publish:
  assumes inv: "spsc_inv N s" and c: "sp_cons s = CRead v"
  shows "spsc_inv N (s\<lparr>sp_locked := False, sp_cons := CIdle, sp_popped := sp_popped s @ [v],
      sp_buf := (sp_buf s)\<lparr>ib_tail := (ib_tail (sp_buf s) + 1) mod length (ib_buf (sp_buf s))\<rparr>\<rparr>)"
proof -
  let ?b = "sp_buf s"
  have h: "ib_ok ?b" "length (ib_buf ?b) = N" "ib_head ?b \<noteq> ib_tail ?b" "v = ib_buf ?b ! ib_tail ?b"
    "sp_pushed s = sp_popped s @ ib_items ?b"
    using inv c by (auto simp: spsc_inv_def ib_ready_def)
  note co = ib_consume [OF h(1,3)]
  have p: "case sp_prod s of PIdle \<Rightarrow> True | PLoaded v h \<Rightarrow> h = ib_head ?b \<and> ib_len ?b < N - 1 | PWrote v h \<Rightarrow> False"
    using inv c by (auto simp: spsc_inv_def split: producer.splits)
  show ?thesis using h co p by (auto simp: spsc_inv_def ib_ready_def split: producer.splits)
qed

lemma spsc_inv_step:
  assumes "spsc_step s t" and "spsc_inv N s"
  shows "spsc_inv N t"
  using assms
proof (induction rule: spsc_step.induct)
  case (push_load s v)
  have "ib_len (sp_buf s) < N - 1"
    using push_load ib_full_iff ib_len_less by (fastforce simp: spsc_inv_def ib_ready_def)
  then show ?case using push_load by (auto simp: spsc_inv_def split: consumer.splits)
next
  case (push_write s v h)
  then show ?case by (intro spsc_inv_push_write)
next
  case (push_publish s v h)
  then show ?case by (intro spsc_inv_push_publish)
next
  case (pop_publish s v)
  then show ?case by (intro spsc_inv_pop_publish)
qed (auto simp: spsc_inv_def split: producer.splits consumer.splits)

lemma spsc_inv_reach: "spsc_step\<^sup>*\<^sup>* s t \<Longrightarrow> spsc_inv N s \<Longrightarrow> spsc_inv N t"
  by (induction rule: rtranclp_induct) (auto intro: spsc_inv_step)

section \<open>Properties\<close>

text \<open>
  C16: for every interleaving of the atomic steps of one producer and one consumer, what has been
  delivered is a prefix of what has been accepted, and the rest is exactly what the buffer
  holds, in order: no accepted byte is lost, duplicated or reordered, and at most N - 1 are held.
\<close>

theorem ring_buffer_fifo_concurrent:
  assumes "0 < N" and "spsc_step\<^sup>*\<^sup>* (spsc_start N d) s"
  shows "sp_pushed s = sp_popped s @ ib_items (sp_buf s) \<and> ib_len (sp_buf s) \<le> N - 1"
  using spsc_inv_reach [OF assms(2) spsc_inv_start [OF assms(1)]] ib_len_less [of "sp_buf s"]
  by (auto simp: spsc_inv_def ib_ready_def)

theorem ring_buffer_fifo_concurrent_witness:
  "\<exists>s. spsc_step\<^sup>*\<^sup>* (spsc_start 4 (0 :: u8)) s \<and> sp_pushed s = [7] \<and>
     sp_pushed s = sp_popped s @ ib_items (sp_buf s)"
proof -
  let ?s0 = "spsc_start 4 (0 :: u8)"
  let ?s1 = "?s0\<lparr>sp_prod := PLoaded 7 0\<rparr>"
  let ?s2 = "?s1\<lparr>sp_locked := True, sp_prod := PWrote 7 0,
      sp_buf := (sp_buf ?s1)\<lparr>ib_buf := (ib_buf (sp_buf ?s1))[0 := 7]\<rparr>\<rparr>"
  let ?s3 = "?s2\<lparr>sp_locked := False, sp_prod := PIdle, sp_pushed := sp_pushed ?s2 @ [7],
      sp_buf := (sp_buf ?s2)\<lparr>ib_head := (0 + 1) mod length (ib_buf (sp_buf ?s2))\<rparr>\<rparr>"
  have st: "spsc_step ?s0 ?s1" "spsc_step ?s1 ?s2" "spsc_step ?s2 ?s3"
    using spsc_step.push_load [of ?s0 7] spsc_step.push_write [of ?s1 7 0] spsc_step.push_publish [of ?s2 7 0]
    by (simp_all add: spsc_start_def ib_new_def)
  have r: "spsc_step\<^sup>*\<^sup>* ?s0 ?s3"
    by (rule rtranclp.rtrancl_into_rtrancl [OF rtranclp.rtrancl_into_rtrancl [OF r_into_rtranclp [of spsc_step]]])
      (rule st)+
  have "sp_pushed ?s3 = [7]" by (simp add: spsc_start_def)
  with r ring_buffer_fifo_concurrent [OF _ r] show ?thesis by auto
qed

text \<open>
  Reading the keyboard returns the oldest buffered scancodes in arrival order, as many as
  fit the caller's buffer, writes no further slot of it, and leaves exactly the others for the
  next read.
\<close>

theorem read_keyboard_fifo:
  assumes "ib_ready KEYBOARD_BUFFER_LEN b" and "read_keyboard slots b = (n, slots', b')"
  shows "n = min (length slots) (ib_len b) \<and> slots' = take n (ib_items b) @ drop n slots \<and>
    ib_items b' = drop n (ib_items b) \<and> ib_ready KEYBOARD_BUFFER_LEN b'"
  using kb.read_slots_spec [OF assms(1)] assms(2) by (auto simp: read_keyboard_def)

definition typed :: "u8 list \<Rightarrow> u8 input_buffer" where
  "typed cs = fold (\<lambda>c b. snd (keyboard_interrupt_handler False c b)) cs (ib_new KEYBOARD_BUFFER_LEN 0)"

lemma keyboard_handler_push: "snd (keyboard_interrupt_handler l c b) = snd (ib_push l c b)"
  by (simp add: keyboard_interrupt_handler_def split: prod.splits)

lemma mouse_handler_push: "snd (mouse_interrupt_handler l c b) = snd (ib_push l c b)"
  by (simp add: mouse_interrupt_handler_def split: prod.splits)

lemma items_ib_new [simp]: "ib_items (ib_new N d) = []"
  by (simp add: ib_items_def ib_len_def ib_new_def)

lemma items_typed: "ib_items (typed cs) = take 255 cs \<and> ib_ready KEYBOARD_BUFFER_LEN (typed cs)"
  using kb.items_pushes [OF ib_ready_new, of 0 cs]
  by (simp add: typed_def keyboard_handler_push KEYBOARD_BUFFER_LEN_def)

theorem read_keyboard_fifo_witness:
  "\<exists>b'. read_keyboard [0, 0, 0] (typed [30, 158]) = (2, [30, 158, 0], b') \<and> ib_items b' = []"
proof -
  obtain n slots' b' where r: "read_keyboard [0, 0, 0] (typed [30, 158]) = (n, slots', b')"
    by (metis prod_cases3)
  have l: "ib_len (typed [30, 158]) = 2"
    using items_typed [of "[30, 158]"] length_ib_items [of "typed [30, 158]"] by simp
  show ?thesis
    using read_keyboard_fifo [OF _ r] items_typed [of "[30, 158]"] l r by simp
qed

text \<open>
  The mouse handler keeps the first 4095 bytes that arrive between two reads, in order, and
  drops the later ones; it never overwrites a byte that has not been read.
\<close>

theorem mouse_handler_keeps_oldest:
  assumes "ib_ready MOUSE_RAW_CAPACITY b"
  shows "ib_items (fold (\<lambda>c b. snd (mouse_interrupt_handler False c b)) cs b) = take 4095 (ib_items b @ cs)"
proof -
  have "length (ib_items b) \<le> MOUSE_RAW_CAPACITY - 1"
    using assms ib_len_less [of b] by (auto simp: ib_ready_def)
  from ms.items_pushes [OF assms this] show ?thesis
    by (simp add: mouse_handler_push MOUSE_RAW_CAPACITY_def)
qed

lemma mouse_capacity_pos: "0 < MOUSE_RAW_CAPACITY"
  by (simp add: MOUSE_RAW_CAPACITY_def)

theorem mouse_handler_keeps_oldest_witness:
  "ib_items (fold (\<lambda>c b. snd (mouse_interrupt_handler False c b)) [8, 1, 255] (ib_new MOUSE_RAW_CAPACITY 0)) =
     [8, 1, 255]"
  using mouse_handler_keeps_oldest [OF ib_ready_new [OF mouse_capacity_pos], where cs = "[8, 1, 255]"]
  by simp

end
