(* ===== verification/Devices.thy ===== *)
theory Devices
  imports Graph_Api Input
begin

text \<open>
  The device registry (\<open>src/kernel/src/drivers/device.rs\<close>) and the interrupt and DMA tables
  (\<open>irq_dma.rs\<close>), with the authority checks they make against the graph, and the invariant
  that ties both together: every binding, mapping and submission in the tables is backed by a
  hardware capability edge that is still in the graph.
\<close>

section \<open>Device registry\<close>

type_synonym device_handle = u64

datatype device_kind = Keyboard | Mouse | Framebuffer | Serial

fun device_kind_code :: "device_kind \<Rightarrow> u32" where
  "device_kind_code Keyboard = 1"
| "device_kind_code Mouse = 2"
| "device_kind_code Framebuffer = 3"
| "device_kind_code Serial = 4"

text \<open>Callbacks act on a kernel state \<open>'k\<close> of their own.\<close>

record 'k device_endpoint =
  ep_handle :: device_handle
  ep_kind :: device_kind
  ep_read :: "(u8 list \<Rightarrow> 'k \<Rightarrow> nat \<times> u8 list \<times> 'k) option"
  ep_write :: "(u8 list \<Rightarrow> 'k \<Rightarrow> nat \<times> 'k) option"
  ep_map :: "('k \<Rightarrow> (u64 \<times> usize) option) option"
  ep_node :: "uuid option"

record 'k device_table =
  dt_next_handle :: device_handle
  dt_endpoints :: "'k device_endpoint list"

definition device_table_new :: "'k device_table" where
  "device_table_new = \<lparr>dt_next_handle = 1, dt_endpoints = []\<rparr>"

definition alloc_handle :: "'k device_table \<Rightarrow> device_handle \<times> 'k device_table" where
  "alloc_handle t = (dt_next_handle t, t\<lparr>dt_next_handle := dt_next_handle t + 1\<rparr>)"

definition register_device ::
  "device_kind \<Rightarrow> (u8 list \<Rightarrow> 'k \<Rightarrow> nat \<times> u8 list \<times> 'k) option \<Rightarrow> (u8 list \<Rightarrow> 'k \<Rightarrow> nat \<times> 'k) option \<Rightarrow>
   ('k \<Rightarrow> (u64 \<times> usize) option) option \<Rightarrow> uuid option \<Rightarrow> 'k device_table \<Rightarrow> device_handle \<times> 'k device_table" where
  "register_device kind rd wr mp node t =
     (let (handle, t1) = alloc_handle t
      in (handle, t1\<lparr>dt_endpoints := dt_endpoints t1 @
            [\<lparr>ep_handle = handle, ep_kind = kind, ep_read = rd, ep_write = wr, ep_map = mp, ep_node = node\<rparr>]\<rparr>))"

definition by_handle :: "'k device_table \<Rightarrow> device_handle \<Rightarrow> 'k device_endpoint option" where
  "by_handle t handle = find (\<lambda>e. ep_handle e = handle) (dt_endpoints t)"

definition table_open :: "'k device_table \<Rightarrow> device_kind \<Rightarrow> nat \<Rightarrow> device_handle option" where
  "table_open t kind index =
     (let es = filter (\<lambda>e. ep_kind e = kind) (dt_endpoints t)
      in if index < length es then Some (ep_handle (es ! index)) else None)"

definition dev_open :: "u32 \<Rightarrow> nat \<Rightarrow> 'k device_table \<Rightarrow> device_handle option" where
  "dev_open kind_raw index t =
     (if kind_raw = device_kind_code Keyboard then table_open t Keyboard index
      else if kind_raw = device_kind_code Mouse then table_open t Mouse index
      else if kind_raw = device_kind_code Framebuffer then table_open t Framebuffer index
      else if kind_raw = device_kind_code Serial then table_open t Serial index
      else None)"

definition dev_read :: "device_handle \<Rightarrow> u8 list \<Rightarrow> 'k device_table \<Rightarrow> 'k \<Rightarrow> nat \<times> u8 list \<times> 'k" where
  "dev_read handle buf t k =
     (case by_handle t handle of
        None \<Rightarrow> (0, buf, k)
      | Some e \<Rightarrow> (case ep_read e of None \<Rightarrow> (0, buf, k) | Some rd \<Rightarrow> rd buf k))"

definition dev_write :: "device_handle \<Rightarrow> u8 list \<Rightarrow> 'k device_table \<Rightarrow> 'k \<Rightarrow> nat \<times> 'k" where
  "dev_write handle buf t k =
     (case by_handle t handle of
        None \<Rightarrow> (0, k)
      | Some e \<Rightarrow> (case ep_write e of None \<Rightarrow> (0, k) | Some wr \<Rightarrow> wr buf k))"

definition dev_map :: "device_handle \<Rightarrow> 'k device_table \<Rightarrow> 'k \<Rightarrow> (u64 \<times> usize) option" where
  "dev_map handle t k =
     (case by_handle t handle of
        None \<Rightarrow> None
      | Some e \<Rightarrow> (case ep_map e of None \<Rightarrow> None | Some mp \<Rightarrow> mp k))"

definition device_node :: "device_handle \<Rightarrow> 'k device_table \<Rightarrow> uuid option" where
  "device_node handle t = (case by_handle t handle of None \<Rightarrow> None | Some e \<Rightarrow> ep_node e)"

definition device_uuid :: "ext \<Rightarrow> string \<Rightarrow> uuid" where
  "device_uuid x name = new_v5 x NAMESPACE_OID (as_bytes name)"

definition create_device_node :: "ext \<Rightarrow> symbol \<Rightarrow> string \<Rightarrow> gmap \<Rightarrow> kernel_graph \<Rightarrow> uuid \<times> kernel_graph" where
  "create_device_node x kind name flds g =
     (let f1 = bt_entry canon_NAME (VText name) flds;
          f2 = bt_entry canon_STATUS (VSymbol canon_INIT) f1;
          (thing, g') = fiat_for_bundle x KERNEL_BUNDLE_ID
            \<lparr>fiat_id = Some (device_uuid x name), fiat_kind = kind, fiat_labels = [kind], fiat_fields = f2\<rparr> g
      in (thing_id thing, g'))"

section \<open>Interrupt bindings\<close>

type_synonym irq_handle = u64

record irq_binding =
  ib_irq_handle :: irq_handle
  ib_bundle :: bundle_id
  ib_device :: uuid
  ib_line :: u8

record irq_state =
  irq_next_handle :: irq_handle
  irq_bindings :: "irq_binding list"

definition irq_state_new :: irq_state where
  "irq_state_new = \<lparr>irq_next_handle = 1, irq_bindings = []\<rparr>"

definition irq_bind ::
  "bundle_id \<Rightarrow> uuid \<Rightarrow> u8 \<Rightarrow> kernel_graph \<times> irq_state \<Rightarrow> irq_handle option \<times> kernel_graph \<times> irq_state" where
  "irq_bind b device line = (\<lambda>(g, q).
     case api_bundle_has_capability b device canon_CAN_HANDLE_IRQ g of
       (allowed, g') \<Rightarrow>
         if \<not> allowed then (None, g', q)
         else let handle = irq_next_handle q
              in (Some handle, g',
                  q\<lparr>irq_next_handle := max (irq_next_handle q + 1) 1,
                    irq_bindings := irq_bindings q @
                      [\<lparr>ib_irq_handle = handle, ib_bundle = b, ib_device = device, ib_line = line\<rparr>]\<rparr>))"

definition irq_binding_of :: "irq_state \<Rightarrow> irq_handle \<Rightarrow> irq_binding option" where
  "irq_binding_of q handle = find (\<lambda>b. ib_irq_handle b = handle) (irq_bindings q)"

definition bindings_for_irq :: "irq_state \<Rightarrow> u8 \<Rightarrow> irq_binding list" where
  "bindings_for_irq q line = filter (\<lambda>b. ib_line b = line) (irq_bindings q)"

fun remove_first :: "('a \<Rightarrow> bool) \<Rightarrow> 'a list \<Rightarrow> 'a list" where
  "remove_first P [] = []"
| "remove_first P (x # xs) = (if P x then xs else x # remove_first P xs)"

definition unregister_irq :: "irq_handle \<Rightarrow> irq_state \<Rightarrow> bool \<times> irq_state" where
  "unregister_irq handle q =
     (if list_ex (\<lambda>b. ib_irq_handle b = handle) (irq_bindings q)
      then (True, q\<lparr>irq_bindings := remove_first (\<lambda>b. ib_irq_handle b = handle) (irq_bindings q)\<rparr>)
      else (False, q))"

definition irq_ack :: "bundle_id \<Rightarrow> irq_handle \<Rightarrow> bool" where
  "irq_ack b handle = True"

definition monotonic_ticks :: "ext \<Rightarrow> u64" where
  "monotonic_ticks x = (case clock_ref x of Some clk \<Rightarrow> ticks_since_boot (hpet_now x) clk | None \<Rightarrow> 0)"

definition irq_event_request :: "ext \<Rightarrow> irq_binding \<Rightarrow> graph_fiat_request" where
  "irq_event_request x b =
     \<lparr>fiat_id = None, fiat_kind = canon_IRQ_EVENT, fiat_labels = [canon_IRQ_EVENT],
      fiat_fields =
        bt_insert canon_TS (VU64 (monotonic_ticks x))
          (bt_insert canon_IRQ_LINE (VU64 (ucast (ib_line b)))
            (bt_insert canon_DEVICE_ID (VUuid (ib_device b)) []))\<rparr>"

definition emit_irq_event :: "ext \<Rightarrow> irq_binding \<Rightarrow> kernel_graph \<Rightarrow> kernel_graph" where
  "emit_irq_event x b g = snd (fiat_for_bundle x (ib_bundle b) (irq_event_request x b) g)"

section \<open>DMA\<close>

type_synonym dma_handle = u64

record dma_mapping =
  dm_handle :: dma_handle
  dm_bundle :: bundle_id
  dm_buffer :: uuid
  dm_flags :: u64

datatype dma_status = Pending | Complete

record dma_submission =
  ds_handle :: dma_handle
  ds_bundle :: bundle_id
  ds_device :: uuid
  ds_mapping :: dma_handle
  ds_bytes :: u64
  ds_status :: dma_status

record dma_state =
  next_mapping :: dma_handle
  next_submit :: dma_handle
  mappings :: "(dma_handle, dma_mapping) btree"
  submissions :: "(dma_handle, dma_submission) btree"

definition dma_state_new :: dma_state where
  "dma_state_new = \<lparr>next_mapping = 1, next_submit = 1, mappings = [], submissions = []\<rparr>"

definition dma_map ::
  "bundle_id \<Rightarrow> uuid \<Rightarrow> u64 \<Rightarrow> kernel_graph \<times> dma_state \<Rightarrow> dma_handle option \<times> kernel_graph \<times> dma_state" where
  "dma_map b buffer flags = (\<lambda>(g, d).
     case api_bundle_has_capability b buffer canon_CAN_DMA g of
       (allowed, g') \<Rightarrow>
         if \<not> allowed then (None, g', d)
         else let handle = next_mapping d
              in (Some handle, g',
                  d\<lparr>next_mapping := max (next_mapping d + 1) 1,
                    mappings := bt_insert handle
                      \<lparr>dm_handle = handle, dm_bundle = b, dm_buffer = buffer, dm_flags = flags\<rparr> (mappings d)\<rparr>))"

definition dma_submit ::
  "bundle_id \<Rightarrow> uuid \<Rightarrow> dma_handle \<Rightarrow> u64 \<Rightarrow> kernel_graph \<times> dma_state \<Rightarrow>
   dma_handle option \<times> kernel_graph \<times> dma_state" where
  "dma_submit b device mapping bytes = (\<lambda>(g, d).
     case bt_get (mappings d) mapping of
       None \<Rightarrow> (None, g, d)
     | Some m \<Rightarrow>
         if dm_bundle m \<noteq> b then (None, g, d)
         else case api_bundle_has_capability b device canon_CAN_DMA g of
           (allowed, g') \<Rightarrow>
             if \<not> allowed then (None, g', d)
             else let handle = next_submit d
                  in (Some handle, g',
                      d\<lparr>next_submit := max (next_submit d + 1) 1,
                        submissions := bt_insert handle
                          \<lparr>ds_handle = handle, ds_bundle = b, ds_device = device, ds_mapping = dm_handle m,
                           ds_bytes = bytes, ds_status = Pending\<rparr> (submissions d)\<rparr>))"

definition wait_submission :: "bundle_id \<Rightarrow> dma_handle \<Rightarrow> dma_state \<Rightarrow> dma_submission option \<times> dma_state" where
  "wait_submission b handle d =
     (case bt_get (submissions d) handle of
        None \<Rightarrow> (None, d)
      | Some s \<Rightarrow>
          if ds_bundle s \<noteq> b then (None, d)
          else let s' = s\<lparr>ds_status := Complete\<rparr>
               in (Some s', d\<lparr>submissions := bt_insert handle s' (submissions d)\<rparr>))"

definition dma_event_request :: "dma_submission \<Rightarrow> graph_fiat_request" where
  "dma_event_request s =
     \<lparr>fiat_id = None, fiat_kind = canon_DMA_EVENT, fiat_labels = [canon_DMA_EVENT],
      fiat_fields =
        bt_insert canon_STATUS (VSymbol canon_DONE)
          (bt_insert canon_BYTES (VU64 (ds_bytes s))
            (bt_insert canon_BUFFER (VU64 (ds_mapping s))
              (bt_insert canon_DEVICE_ID (VUuid (ds_device s)) [])))\<rparr>"

definition dma_wait ::
  "ext \<Rightarrow> bundle_id \<Rightarrow> dma_handle \<Rightarrow> kernel_graph \<times> dma_state \<Rightarrow>
   dma_submission option \<times> kernel_graph \<times> dma_state" where
  "dma_wait x b handle = (\<lambda>(g, d).
     case wait_submission b handle d of
       (None, d') \<Rightarrow> (None, g, d')
     | (Some s, d') \<Rightarrow> (Some s, snd (fiat_for_bundle x (ds_bundle s) (dma_event_request s) g), d'))"

section \<open>The tables and the graph together\<close>

record hw =
  hw_graph :: kernel_graph
  hw_irq :: irq_state
  hw_dma :: dma_state

datatype hw_op =
    HGraph store_op
  | HIrqBind bundle_id uuid u8
  | HUnregister irq_handle
  | HDmaMap bundle_id uuid u64
  | HDmaSubmit bundle_id uuid dma_handle u64
  | HDmaWait bundle_id dma_handle

fun hw_step :: "ext \<Rightarrow> hw_op \<Rightarrow> hw \<Rightarrow> hw" where
  "hw_step x (HGraph op) h =
     h\<lparr>hw_graph := snd (with_store (\<lambda>st. ((), store_step x op st)) (hw_graph h))\<rparr>"
| "hw_step x (HIrqBind b device line) h =
     (case irq_bind b device line (hw_graph h, hw_irq h) of (_, g, q) \<Rightarrow> h\<lparr>hw_graph := g, hw_irq := q\<rparr>)"
| "hw_step x (HUnregister handle) h = h\<lparr>hw_irq := snd (unregister_irq handle (hw_irq h))\<rparr>"
| "hw_step x (HDmaMap b buffer flags) h =
     (case dma_map b buffer flags (hw_graph h, hw_dma h) of (_, g, d) \<Rightarrow> h\<lparr>hw_graph := g, hw_dma := d\<rparr>)"
| "hw_step x (HDmaSubmit b device mapping bytes) h =
     (case dma_submit b device mapping bytes (hw_graph h, hw_dma h) of (_, g, d) \<Rightarrow> h\<lparr>hw_graph := g, hw_dma := d\<rparr>)"
| "hw_step x (HDmaWait b handle) h =
     (case dma_wait x b handle (hw_graph h, hw_dma h) of (_, g, d) \<Rightarrow> h\<lparr>hw_graph := g, hw_dma := d\<rparr>)"

definition hw_boot :: hw where
  "hw_boot = \<lparr>hw_graph = graph_init graph_off, hw_irq = irq_state_new, hw_dma = dma_state_new\<rparr>"

inductive hw_reach :: "ext \<Rightarrow> nat \<Rightarrow> hw \<Rightarrow> bool" for x where
  boot: "hw_reach x 0 hw_boot"
| step: "hw_reach x n h \<Longrightarrow> hw_reach x (Suc n) (hw_step x op h)"

abbreviation hw_store :: "hw \<Rightarrow> store" where
  "hw_store h \<equiv> store_of (hw_graph h)"

definition irq_backed :: "store \<Rightarrow> irq_state \<Rightarrow> bool" where
  "irq_backed s q \<longleftrightarrow>
     (\<forall>b \<in> set (irq_bindings q). has_capability s (ib_bundle b) (ib_device b) canon_CAN_HANDLE_IRQ)"

definition dma_backed :: "store \<Rightarrow> dma_state \<Rightarrow> bool" where
  "dma_backed s d \<longleftrightarrow>
     (\<forall>k m. bt_get (mappings d) k = Some m \<longrightarrow>
        dm_handle m = k \<and> k < next_mapping d \<and> has_capability s (dm_bundle m) (dm_buffer m) canon_CAN_DMA) \<and>
     (\<forall>k w. bt_get (submissions d) k = Some w \<longrightarrow>
        ds_handle w = k \<and> has_capability s (ds_bundle w) (ds_device w) canon_CAN_DMA \<and>
        (\<exists>m. bt_get (mappings d) (ds_mapping w) = Some m \<and> dm_bundle m = ds_bundle w))"

definition hw_inv :: "nat \<Rightarrow> hw \<Rightarrow> bool" where
  "hw_inv n h \<longleftrightarrow> store_inv (hw_store h) \<and> unat (next_revision (hw_store h)) \<le> 2 * n + 1 \<and>
     unat (next_mapping (hw_dma h)) \<le> n + 1 \<and>
     irq_backed (hw_store h) (hw_irq h) \<and> dma_backed (hw_store h) (hw_dma h)"

text \<open>Authority only grows, so what backs the tables stays.\<close>

lemma has_capability_mono:
  assumes "store_inv s" "store_inv s'" "triples s \<subseteq> triples s'" "has_capability s b n p"
  shows "has_capability s' b n p"
  using assms by (auto simp: has_capability_iff)

lemma backed_mono:
  assumes "store_inv s" "store_inv s'" "triples s \<subseteq> triples s'"
  shows "irq_backed s q \<Longrightarrow> irq_backed s' q" and "dma_backed s d \<Longrightarrow> dma_backed s' d"
  using has_capability_mono [OF assms] by (fastforce simp: irq_backed_def dma_backed_def)+

lemma graph_op_effect:
  assumes inv: "store_inv (store_of g)" and n: "unat (next_revision (store_of g)) \<le> 2 * n + 1"
    and b: "2 * n + 4 < 2 ^ 64"
    and g': "g' = snd (with_store (\<lambda>st. ((), store_step x op st)) g)"
  shows "store_inv (store_of g') \<and> triples (store_of g) \<subseteq> triples (store_of g') \<and>
    unat (next_revision (store_of g')) \<le> 2 * Suc n + 1"
proof -
  let ?s = "store_of g"
  obtain s' j' where st: "store_step x op (?s, JOURNAL g) = (s', j')" by fastforce
  have eq: "store_of g' = s'" unfolding g' by (simp add: with_store_def st)
  have rm: "room ?s (Suc (Suc (2 ^ 64 - 2 * n - 4)))" "room ?s 2" using n b by (auto simp: room_def)
  have "store_inv s' \<and> room s' (2 ^ 64 - 2 * n - 4)" using step_inv [OF inv rm(1) st] by blast
  moreover have "triples s' = triples ?s \<union> gain x op ?s" by (rule step_triples [OF inv rm(2) st])
  ultimately show ?thesis using b unfolding eq by (auto simp: room_def)
qed

lemma set_remove_first: "set (remove_first P xs) \<subseteq> set xs"
  by (induction xs) auto

lemma api_has_capability_eq:
  "api_bundle_has_capability b n p g =
     (has_capability (store_of g) b n p, g\<lparr>STORE := Some (store_of g)\<rparr>)"
  by (simp add: api_bundle_has_capability_def bundle_has_capability_def)

lemma irq_bind_spec:
  assumes "irq_bind b n l (g, q) = (r, g', q')"
  shows "store_of g' = store_of g" and "r \<noteq> None \<longleftrightarrow> has_capability (store_of g) b n canon_CAN_HANDLE_IRQ"
    and "irq_backed (store_of g) q \<Longrightarrow> irq_backed (store_of g) q'"
  using assms by (auto simp: irq_bind_def api_has_capability_eq irq_backed_def Let_def split: if_splits)

lemma next_handle_bump:
  fixes w :: u64
  assumes "unat w + 1 < 2 ^ 64"
  shows "max (w + 1) 1 = w + 1" and "w < w + 1" and "unat (w + 1) = unat w + 1"
proof -
  show u: "unat (w + 1) = unat w + 1" using assms by (simp add: unat_Suc_no_wrap)
  then show "w < w + 1" "max (w + 1) 1 = w + 1"
    by (auto simp: word_less_nat_alt max_def word_le_nat_alt unsigned_eq_0_iff)
qed

lemma dma_map_spec:
  assumes "dma_map b n fl (g, d) = (r, g', d')" and "unat (next_mapping d) + 1 < 2 ^ 64"
    and "dma_backed (store_of g) d"
  shows "store_of g' = store_of g" and "r \<noteq> None \<longleftrightarrow> has_capability (store_of g) b n canon_CAN_DMA"
    and "dma_backed (store_of g) d'" and "unat (next_mapping d') \<le> unat (next_mapping d) + 1"
proof -
  note bump = next_handle_bump [OF assms(2)]
  show "store_of g' = store_of g" "r \<noteq> None \<longleftrightarrow> has_capability (store_of g) b n canon_CAN_DMA"
    using assms(1) by (auto simp: dma_map_def api_has_capability_eq Let_def split: if_splits)
  show "unat (next_mapping d') \<le> unat (next_mapping d) + 1"
    using assms(1) bump by (auto simp: dma_map_def api_has_capability_eq Let_def split: if_splits)
  have old: "dm_handle m = k \<and> k < next_mapping d \<and> has_capability (store_of g) (dm_bundle m) (dm_buffer m) canon_CAN_DMA"
    if "bt_get (mappings d) k = Some m" for k m
    using assms(3) that by (simp add: dma_backed_def)
  have sub: "ds_handle w = k \<and> has_capability (store_of g) (ds_bundle w) (ds_device w) canon_CAN_DMA \<and>
      (\<exists>m. bt_get (mappings d) (ds_mapping w) = Some m \<and> dm_bundle m = ds_bundle w)"
    if "bt_get (submissions d) k = Some w" for k w
    using assms(3) that by (simp add: dma_backed_def)
  have fresh: "bt_get (mappings d) k = Some m \<Longrightarrow> k \<noteq> next_mapping d \<and> k < next_mapping d + 1" for k m
    using old [of k m] bump(2) by auto
  have ne: "bt_get (submissions d) k = Some w \<Longrightarrow> ds_mapping w \<noteq> next_mapping d" for k w
    using sub [of k w] fresh by blast
  show "dma_backed (store_of g) d'"
    using assms(1,3) bump(1,2)
    by (auto simp: dma_map_def api_has_capability_eq Let_def dma_backed_def split: if_splits
        dest: old sub fresh ne)
qed

lemma dma_submit_spec:
  assumes "dma_submit b n k y (g, d) = (r, g', d')" and "dma_backed (store_of g) d"
  shows "store_of g' = store_of g" and "next_mapping d' = next_mapping d" and "dma_backed (store_of g) d'"
    and "r \<noteq> None \<longleftrightarrow> has_capability (store_of g) b n canon_CAN_DMA \<and>
      (\<exists>m. bt_get (mappings d) k = Some m \<and> dm_bundle m = b)"
proof -
  have m: "dm_handle m = k" if "bt_get (mappings d) k = Some m" for m
    using assms(2) that by (simp add: dma_backed_def)
  show "store_of g' = store_of g" "next_mapping d' = next_mapping d"
    "r \<noteq> None \<longleftrightarrow> has_capability (store_of g) b n canon_CAN_DMA \<and>
      (\<exists>m. bt_get (mappings d) k = Some m \<and> dm_bundle m = b)"
    using assms(1) by (auto simp: dma_submit_def api_has_capability_eq Let_def split: if_splits option.splits)
  show "dma_backed (store_of g) d'"
    using assms m
    by (auto simp: dma_submit_def api_has_capability_eq Let_def dma_backed_def split: if_splits option.splits)
qed

lemma wait_submission_spec:
  assumes "wait_submission b k d = (r, d')" and "dma_backed s d"
  shows "next_mapping d' = next_mapping d" and "dma_backed s d'"
    and "r \<noteq> None \<longleftrightarrow> (\<exists>w. bt_get (submissions d) k = Some w \<and> ds_bundle w = b)"
  using assms by (auto simp: wait_submission_def dma_backed_def Let_def split: if_splits option.splits)

lemma hw_inv_graph:
  assumes inv: "hw_inv n h" and b: "2 * n + 4 < 2 ^ 64"
    and g': "g' = snd (with_store (\<lambda>st. ((), store_step x op st)) (hw_graph h))"
  shows "hw_inv (Suc n) (h\<lparr>hw_graph := g'\<rparr>)"
proof -
  note e = graph_op_effect [OF _ _ b g']
  have i: "store_inv (hw_store h)" "unat (next_revision (hw_store h)) \<le> 2 * n + 1"
    "irq_backed (hw_store h) (hw_irq h)" "dma_backed (hw_store h) (hw_dma h)"
    "unat (next_mapping (hw_dma h)) \<le> n + 1"
    using inv by (auto simp: hw_inv_def)
  have s': "store_inv (store_of g')" "triples (hw_store h) \<subseteq> triples (store_of g')"
    "unat (next_revision (store_of g')) \<le> 2 * Suc n + 1"
    using e [OF i(1,2)] by auto
  then show ?thesis
    using i backed_mono [OF i(1) s'(1,2)] by (simp add: hw_inv_def)
qed

lemma hw_update_swap: "h\<lparr>hw_dma := d, hw_graph := g\<rparr> = h\<lparr>hw_graph := g, hw_dma := d\<rparr>"
  by (cases h) simp

lemma hw_inv_step:
  assumes inv: "hw_inv n h" and b: "2 * n + 4 < 2 ^ 64"
  shows "hw_inv (Suc n) (hw_step x op h)"
proof -
  have i: "store_inv (hw_store h)" "unat (next_revision (hw_store h)) \<le> 2 * n + 1"
    "irq_backed (hw_store h) (hw_irq h)" "dma_backed (hw_store h) (hw_dma h)"
    "unat (next_mapping (hw_dma h)) \<le> n + 1"
    using inv by (auto simp: hw_inv_def)
  show ?thesis
  proof (cases op)
    case (HGraph sop)
    then show ?thesis using hw_inv_graph [OF inv b] by simp
  next
    case (HIrqBind c u l)
    obtain r g q where e: "irq_bind c u l (hw_graph h, hw_irq h) = (r, g, q)" by (metis prod_cases3)
    show ?thesis using HIrqBind e irq_bind_spec [OF e] i by (simp add: hw_inv_def)
  next
    case (HUnregister k)
    have "irq_backed (hw_store h) (snd (unregister_irq k (hw_irq h)))"
      using i(3) set_remove_first by (auto simp: irq_backed_def unregister_irq_def dest: subsetD [OF set_remove_first])
    then show ?thesis using HUnregister i by (simp add: hw_inv_def)
  next
    case (HDmaMap c u fl)
    obtain r g d where e: "dma_map c u fl (hw_graph h, hw_dma h) = (r, g, d)" by (metis prod_cases3)
    have "unat (next_mapping (hw_dma h)) + 1 < 2 ^ 64" using i(5) b by simp
    from dma_map_spec [OF e this i(4)] show ?thesis using HDmaMap e i by (simp add: hw_inv_def)
  next
    case (HDmaSubmit c u k y)
    obtain r g d where e: "dma_submit c u k y (hw_graph h, hw_dma h) = (r, g, d)" by (metis prod_cases3)
    from dma_submit_spec [OF e i(4)] show ?thesis using HDmaSubmit e i by (simp add: hw_inv_def)
  next
    case (HDmaWait c k)
    obtain r d where e: "wait_submission c k (hw_dma h) = (r, d)" by fastforce
    note w = wait_submission_spec [OF e i(4)]
    show ?thesis
    proof (cases r)
      case None
      then show ?thesis using HDmaWait e w i by (simp add: hw_inv_def dma_wait_def)
    next
      case (Some s)
      have "hw_inv n (h\<lparr>hw_dma := d\<rparr>)" using inv w by (simp add: hw_inv_def)
      from hw_inv_graph [OF this b, of _ x "OFiat (ds_bundle s) (dma_event_request s)"]
      show ?thesis using HDmaWait e Some by (simp add: dma_wait_def fiat_for_bundle_step hw_update_swap)
    qed
  qed
qed

lemma hw_inv_boot: "hw_inv 0 hw_boot"
proof -
  have "hw_store hw_boot = store_new" by (simp add: hw_boot_def graph_init_def graph_off_def store_of_def)
  then show ?thesis
    using store_inv_new
    by (simp add: hw_inv_def)
      (simp add: hw_boot_def irq_backed_def dma_backed_def irq_state_new_def dma_state_new_def store_new_def)
qed

lemma hw_reach_inv: "hw_reach x n h \<Longrightarrow> 2 * n + 4 < 2 ^ 64 \<Longrightarrow> hw_inv n h"
proof (induction rule: hw_reach.induct)
  case boot
  show ?case by (rule hw_inv_boot)
next
  case (step n h op)
  then show ?case by (intro hw_inv_step) simp_all
qed

section \<open>Handles of the device table\<close>

definition dt_ok :: "'k device_table \<Rightarrow> bool" where
  "dt_ok t \<longleftrightarrow> map ep_handle (dt_endpoints t) = map of_nat [1..<Suc (length (dt_endpoints t))] \<and>
     dt_next_handle t = of_nat (Suc (length (dt_endpoints t))) \<and> length (dt_endpoints t) < 2 ^ 64 - 1"

lemma dt_ok_new: "dt_ok device_table_new"
  by (simp add: dt_ok_def device_table_new_def)

lemma dt_ok_register:
  assumes "dt_ok t" "length (dt_endpoints t) < 2 ^ 64 - 2"
  shows "dt_ok (snd (register_device kind rd wr mp node t))"
  using assms by (simp add: dt_ok_def register_device_def alloc_handle_def Let_def)

lemma dt_ok_distinct:
  assumes "dt_ok t"
  shows "distinct (map ep_handle (dt_endpoints t))"
proof -
  have "inj_on (of_nat :: nat \<Rightarrow> u64) {1..<Suc (length (dt_endpoints t))}"
  proof (rule inj_onI)
    fix i j
    assume "i \<in> {1..<Suc (length (dt_endpoints t))}" "j \<in> {1..<Suc (length (dt_endpoints t))}"
      and eq: "(of_nat i :: u64) = of_nat j"
    then have "i < 2 ^ 64" "j < 2 ^ 64" using assms by (auto simp: dt_ok_def)
    moreover have "unat (of_nat i :: u64) = unat (of_nat j :: u64)" using eq by simp
    ultimately show "i = j" by (simp add: unat_of_nat)
  qed
  then have "distinct (map (of_nat :: nat \<Rightarrow> u64) [1..<Suc (length (dt_endpoints t))])"
    unfolding distinct_map by (simp del: upt_Suc)
  then show ?thesis using assms by (simp only: dt_ok_def)
qed

lemma find_distinct:
  "distinct (map f xs) \<Longrightarrow> x \<in> set xs \<Longrightarrow> find (\<lambda>y. f y = f x) xs = Some x"
  by (induction xs) auto

lemma by_handle_mem: "dt_ok t \<Longrightarrow> e \<in> set (dt_endpoints t) \<Longrightarrow> by_handle t (ep_handle e) = Some e"
  using find_distinct [OF dt_ok_distinct] by (fastforce simp: by_handle_def)

lemma dev_open_kind:
  "dev_open code i t = Some dh \<Longrightarrow> \<exists>kind. device_kind_code kind = code \<and> table_open t kind i = Some dh"
  unfolding dev_open_def by (metis option.distinct(1))

section \<open>Properties\<close>

text \<open>
  C19: in every state reachable by graph operations and by interrupt and DMA requests in any
  order, every interrupt binding, DMA mapping and DMA submission is backed by a capability edge
  of its bundle that is in the graph now, and every submission refers to a mapping of the same
  bundle.
\<close>

theorem hardware_access_backed:
  assumes "hw_reach x n h" and "2 * n + 4 < 2 ^ 64"
  shows "(\<forall>b \<in> set (irq_bindings (hw_irq h)).
      has_capability (store_of (hw_graph h)) (ib_bundle b) (ib_device b) canon_CAN_HANDLE_IRQ) \<and>
    (\<forall>k m. bt_get (mappings (hw_dma h)) k = Some m \<longrightarrow>
      has_capability (store_of (hw_graph h)) (dm_bundle m) (dm_buffer m) canon_CAN_DMA) \<and>
    (\<forall>k w. bt_get (submissions (hw_dma h)) k = Some w \<longrightarrow>
      has_capability (store_of (hw_graph h)) (ds_bundle w) (ds_device w) canon_CAN_DMA \<and>
      (\<exists>m. bt_get (mappings (hw_dma h)) (ds_mapping w) = Some m \<and> dm_bundle m = ds_bundle w))"
  using hw_reach_inv [OF assms] by (simp add: hw_inv_def irq_backed_def dma_backed_def)

definition stub_ext :: ext where
  "stub_ext =
     \<lparr>new_v5 = (\<lambda>ns bs. of_nat (length bs)), postcard_map = (\<lambda>m. None), postcard_events = (\<lambda>es. None),
      postcard_read_events = (\<lambda>bs. Inl ''eof''), hpet_now = 0, clock_ref = None\<rparr>"

definition granted :: hw where
  "granted = hw_step stub_ext (HGraph (OGrant KERNEL_BUNDLE_ID
     \<lparr>gc_grantee = 6, gc_target = 33, gc_capability = ''CAN_HANDLE_IRQ''\<rparr>)) hw_boot"

lemma granted_capability: "has_capability (store_of (hw_graph granted)) (BundleId 6) 33 canon_CAN_HANDLE_IRQ"
proof -
  let ?op = "OGrant KERNEL_BUNDLE_ID \<lparr>gc_grantee = 6, gc_target = 33, gc_capability = ''CAN_HANDLE_IRQ''\<rparr>"
  let ?g = "graph_init graph_off"
  have s0: "store_of ?g = store_new" by (simp add: graph_init_def graph_off_def store_of_def)
  obtain s' j' where st: "store_step stub_ext ?op (store_new, JOURNAL ?g) = (s', j')" by fastforce
  have s': "store_of (hw_graph granted) = s'"
    using st by (simp add: granted_def hw_boot_def with_store_def s0)
  have rm: "room store_new (Suc (Suc 0))" "room store_new 2" by (simp_all add: room_def store_new_def)
  have "store_inv s'" using step_inv [OF store_inv_new rm(1) st] by blast
  moreover have "triples s' = triples store_new \<union> gain stub_ext ?op store_new"
    by (rule step_triples [OF store_inv_new rm(2) st])
  ultimately show ?thesis
    unfolding s' by (simp add: has_capability_iff gain_def grant_allowed_def is_hardware_capability_def)
qed

theorem hardware_access_backed_witness:
  "\<exists>b \<in> set (irq_bindings (hw_irq (hw_step stub_ext (HIrqBind (BundleId 6) 33 12) granted))).
     has_capability (store_of (hw_graph (hw_step stub_ext (HIrqBind (BundleId 6) 33 12) granted)))
       (ib_bundle b) (ib_device b) canon_CAN_HANDLE_IRQ"
proof -
  let ?h = "hw_step stub_ext (HIrqBind (BundleId 6) 33 12) granted"
  have r: "hw_reach stub_ext 2 ?h"
    unfolding granted_def numeral_2_eq_2 by (intro hw_reach.intros)
  have "irq_bindings (hw_irq ?h) \<noteq> []"
    using granted_capability by (simp add: irq_bind_def api_has_capability_eq Let_def)
  then show ?thesis
    using hardware_access_backed [OF r] by (cases "irq_bindings (hw_irq ?h)") auto
qed

text \<open>
  A device handle names one device. What \<open>dev_open\<close> returns for a kind code and an index is
  the handle of the index-th registered endpoint of that kind, and looking the handle up gives
  that endpoint; a read through it runs that endpoint's callback.
\<close>

theorem dev_open_finds_device:
  assumes "dt_ok t" and "dev_open code i t = Some dh"
  shows "\<exists>e kind. device_kind_code kind = code \<and> filter (\<lambda>e. ep_kind e = kind) (dt_endpoints t) ! i = e \<and>
    ep_kind e = kind \<and> by_handle t dh = Some e \<and>
    (\<forall>rd buf k. ep_read e = Some rd \<longrightarrow> dev_read dh buf t k = rd buf k)"
proof -
  obtain kind where k: "device_kind_code kind = code" "table_open t kind i = Some dh"
    using dev_open_kind [OF assms(2)] by blast
  let ?es = "filter (\<lambda>e. ep_kind e = kind) (dt_endpoints t)"
  have i: "i < length ?es" "dh = ep_handle (?es ! i)"
    using k(2) by (auto simp: table_open_def Let_def split: if_splits)
  have mem: "?es ! i \<in> set ?es" using i(1) by (rule nth_mem)
  then have "by_handle t dh = Some (?es ! i)" using by_handle_mem [OF assms(1)] i(2) by simp
  with k mem show ?thesis by (auto simp: dev_read_def)
qed

definition demo_table :: "u8 input_buffer device_table" where
  "demo_table = snd (register_device Keyboard (Some read_keyboard) None None (Some 3)
     (snd (register_device Serial None None None None device_table_new)))"

theorem dev_open_finds_device_witness:
  "dev_open 1 0 demo_table = Some 2 \<and> dev_read 2 [0, 0] demo_table (typed [30]) = read_keyboard [0, 0] (typed [30])"
proof -
  have ok: "dt_ok demo_table"
    unfolding demo_table_def
    by (intro dt_ok_register dt_ok_new)
      (simp_all add: device_table_new_def register_device_def alloc_handle_def Let_def)
  have op: "dev_open 1 0 demo_table = Some 2"
    by (simp add: demo_table_def dev_open_def table_open_def register_device_def alloc_handle_def
        device_table_new_def Let_def)
  have es: "filter (\<lambda>e. ep_kind e = kind) (dt_endpoints demo_table) =
    (if kind = Keyboard then [\<lparr>ep_handle = 2, ep_kind = Keyboard, ep_read = Some read_keyboard,
        ep_write = None, ep_map = None, ep_node = Some 3\<rparr>]
     else if kind = Serial then [\<lparr>ep_handle = 1, ep_kind = Serial, ep_read = None, ep_write = None,
        ep_map = None, ep_node = None\<rparr>] else [])" for kind
    by (simp add: demo_table_def register_device_def alloc_handle_def device_table_new_def Let_def)
  obtain kind where "device_kind_code kind = 1"
    "\<forall>rd buf k. ep_read (filter (\<lambda>e. ep_kind e = kind) (dt_endpoints demo_table) ! 0) = Some rd \<longrightarrow>
       dev_read 2 buf demo_table k = rd buf k"
    using dev_open_finds_device [OF ok op] by blast
  then show ?thesis using op by (cases kind) (simp_all add: es)
qed

end
