(* ===== verification/Frames.thy ===== *)
theory Frames
  imports Prelude
begin

text \<open>
  Physical frames (\<open>src/kernel/src/mm/allocator.rs\<close>): how the boot allocator carves the usable
  ranges out of the bootloader's memory map, how it hands out frames, and the sanity checks
  around it. Physical addresses are naturals: they are below \<open>2 ^ 52\<close>, so that none of the sums
  here overflows a \<open>u64\<close>. A panic is \<open>Inl\<close>.
\<close>

section \<open>The interface of a frame source\<close>

text \<open>
  What the clients of a frame allocator rely on. \<open>taken A a\<close> says that the frames in \<open>A\<close> are in
  use when the allocator is in state \<open>a\<close>; an allocation, when it does not panic, yields a
  page-aligned frame that is not in use, or nothing, and keeps what is in use.
\<close>

locale frame_source =
  fixes alloc :: "'f \<Rightarrow> (nat option \<times> 'f) panics"
    and taken :: "nat set \<Rightarrow> 'f \<Rightarrow> bool"
  assumes alloc_fresh: "taken A a \<Longrightarrow> alloc a = Inr (Some fr, a') \<Longrightarrow>
      taken (insert fr A) a' \<and> fr \<notin> A \<and> fr mod 0x1000 = 0"
    and alloc_none: "taken A a \<Longrightarrow> alloc a = Inr (None, a') \<Longrightarrow> taken A a'"

section \<open>State\<close>

text \<open>An entry of the memory map the bootloader hands over.\<close>

record memory_region =
  region_kind :: string
  region_base :: nat
  region_len :: nat

type_synonym range = "nat \<times> nat"

text \<open>
  The array \<open>usable_ranges\<close> of 32 options with its \<open>range_count\<close> is the list of its first
  \<open>range_count\<close> entries, which are the ones that are set.
\<close>

record boot_frame_allocator =
  usable_ranges :: "range list"
  current_range :: nat
  bfa_next :: nat

definition MAX_RANGES :: nat where
  "MAX_RANGES = 32"

definition forbidden_start :: nat where
  "forbidden_start = 0x100000"

definition forbidden_end :: nat where
  "forbidden_end = 0x1000000"

definition collision_start :: nat where
  "collision_start = 0x37a5000"

definition collision_end :: nat where
  "collision_end = 0x5000000"

section \<open>Usable ranges\<close>

definition align_down :: "nat \<Rightarrow> nat" where
  "align_down a = a - a mod 0x1000"

definition stack_hole :: "nat \<Rightarrow> range" where
  "stack_hole phys_rsp = (align_down (phys_rsp - 0x20000), align_down (phys_rsp + 0x1000 + 0xFFF))"

definition add_range :: "nat \<Rightarrow> nat \<Rightarrow> range list \<Rightarrow> range list" where
  "add_range start stop rs = (if start < stop \<and> length rs < MAX_RANGES then rs @ [(start, stop)] else rs)"

definition sort_holes :: "range \<Rightarrow> range \<Rightarrow> range list" where
  "sort_holes h1 h2 = (if fst h1 \<le> fst h2 then [h1, h2] else [h2, h1])"

fun add_segments :: "range list \<Rightarrow> nat \<Rightarrow> nat \<Rightarrow> range list \<Rightarrow> range list" where
  "add_segments [] current region_end rs = add_range current region_end rs"
| "add_segments ((hole_start, hole_end) # holes) current region_end rs =
     add_segments holes (max current hole_end) region_end
       (add_range current (min region_end hole_start) rs)"

definition add_region :: "range list \<Rightarrow> memory_region \<Rightarrow> range list \<Rightarrow> range list" where
  "add_region holes region rs =
     (if region_kind region \<noteq> ''usable'' then rs
      else let region_start = max (region_base region) forbidden_end;
               region_end = region_base region + region_len region
           in if region_start \<ge> region_end then rs
              else add_segments holes region_start region_end rs)"

definition usable_of :: "nat \<Rightarrow> memory_region list \<Rightarrow> range list" where
  "usable_of phys_rsp regions =
     fold (add_region (sort_holes (stack_hole phys_rsp) (collision_start, collision_end))) regions []"

definition bfa_new :: "nat \<Rightarrow> nat \<Rightarrow> memory_region list \<Rightarrow> boot_frame_allocator panics" where
  "bfa_new rsp hhdm regions =
     (if rsp < hhdm then Inl ''RSP below HHDM offset?''
      else case usable_of (rsp - hhdm) regions of
             [] \<Rightarrow> Inl ''BootFrameAllocator found no usable ranges''
           | r # rs \<Rightarrow> Inr \<lparr>usable_ranges = r # rs, current_range = 0, bfa_next = fst r\<rparr>)"

section \<open>Allocation\<close>

function allocate_frame_internal :: "boot_frame_allocator \<Rightarrow> nat option \<times> boot_frame_allocator" where
  "allocate_frame_internal a =
     (if current_range a \<ge> length (usable_ranges a) then (None, a)
      else
        let r = usable_ranges a ! current_range a;
            aligned = align_down (bfa_next a + 0xFFF)
        in if aligned + 0x1000 \<le> snd r
           then (Some aligned, a\<lparr>bfa_next := aligned + 0x1000\<rparr>)
           else let a1 = a\<lparr>current_range := current_range a + 1\<rparr>
                in allocate_frame_internal
                     (if current_range a1 < length (usable_ranges a1)
                      then a1\<lparr>bfa_next := fst (usable_ranges a1 ! current_range a1)\<rparr> else a1))"
  by pat_completeness auto
termination
  by (relation "measure (\<lambda>a. length (usable_ranges a) - current_range a)") auto

declare allocate_frame_internal.simps [simp del]

text \<open>The sanity bounds: the kernel image's physical range and the active top-level table.\<close>

record sanity_bounds =
  kernel_image :: "range option"
  cr3_frame :: nat

definition SANITY_DUMP_COUNT :: nat where
  "SANITY_DUMP_COUNT = 8"

record sanity_capture =
  sc_frames :: "nat list"
  sc_logged :: bool

definition sanity_record :: "nat \<Rightarrow> sanity_capture \<Rightarrow> sanity_capture" where
  "sanity_record addr c =
     (if length (sc_frames c) \<ge> SANITY_DUMP_COUNT then c
      else let c1 = c\<lparr>sc_frames := sc_frames c @ [addr]\<rparr>
           in if length (sc_frames c1) = SANITY_DUMP_COUNT \<and> \<not> sc_logged c1
              then c1\<lparr>sc_logged := True\<rparr> else c1)"

definition in_rng :: "nat \<Rightarrow> range \<Rightarrow> bool" where
  "in_rng a r \<longleftrightarrow> fst r \<le> a \<and> a < snd r"

definition check_reserved_ranges :: "sanity_bounds option \<Rightarrow> nat \<Rightarrow> unit panics" where
  "check_reserved_ranges bounds a =
     (if in_rng a (forbidden_start, forbidden_end) then Inl ''Allocated frame inside forbidden range''
      else case bounds of
        None \<Rightarrow> Inr ()
      | Some b \<Rightarrow>
          if (case kernel_image b of None \<Rightarrow> False | Some r \<Rightarrow> in_rng a r)
          then Inl ''Allocator returned kernel image frame''
          else if a = cr3_frame b then Inl ''Allocator returned active PML4 frame''
          else Inr ())"

definition allocate_frame ::
  "sanity_bounds option \<Rightarrow> boot_frame_allocator \<times> sanity_capture \<Rightarrow>
   (nat option \<times> boot_frame_allocator \<times> sanity_capture) panics" where
  "allocate_frame bounds = (\<lambda>(a, c).
     case allocate_frame_internal a of
       (None, a') \<Rightarrow> Inr (None, a', c)
     | (Some addr, a') \<Rightarrow>
         if addr \<ge> collision_start \<and> addr < 0x4000000
         then Inl ''BootFrameAllocator allocated forbidden frame in STACK RANGE''
         else case check_reserved_ranges bounds addr of
           Inl e \<Rightarrow> Inl e
         | Inr _ \<Rightarrow> Inr (if addr mod 0x1000 = 0 then Some addr else None, a', sanity_record addr c))"

section \<open>What the ranges avoid\<close>

lemma align_down_facts: "align_down a \<le> a" "a < align_down a + 0x1000" "align_down a mod 0x1000 = 0"
  by (auto simp: align_down_def minus_mod_eq_mult_div)

text \<open>Two ranges are apart when one ends before the other starts.\<close>

definition apart :: "range \<Rightarrow> range \<Rightarrow> bool" where
  "apart r q \<longleftrightarrow> snd r \<le> fst q \<or> snd q \<le> fst r"

definition holes_ok :: "range list \<Rightarrow> bool" where
  "holes_ok hs \<longleftrightarrow> sorted_wrt (\<lambda>g h. fst g \<le> fst h) hs \<and> (\<forall>h \<in> set hs. fst h \<le> snd h)"

lemma holes_ok_Cons:
  "holes_ok (h # hs) \<longleftrightarrow> fst h \<le> snd h \<and> (\<forall>g \<in> set hs. fst h \<le> fst g) \<and> holes_ok hs"
  by (auto simp: holes_ok_def)

lemma length_add_range: "length rs \<le> MAX_RANGES \<Longrightarrow> length (add_range c e rs) \<le> MAX_RANGES"
  by (simp add: add_range_def)

lemma length_add_segments: "length rs \<le> MAX_RANGES \<Longrightarrow> length (add_segments hs c e rs) \<le> MAX_RANGES"
  by (induction hs c e rs rule: add_segments.induct) (auto intro: length_add_range)

lemma add_range_ok:
  assumes "sorted_wrt apart rs" and "\<forall>r \<in> set rs. snd r \<le> c \<or> e \<le> fst r" and "e' \<le> e"
  shows "sorted_wrt apart (add_range c e' rs)"
    and "\<forall>r \<in> set (add_range c e' rs). r \<in> set rs \<or> r = (c, e') \<and> c < e'"
  using assms by (auto simp: add_range_def sorted_wrt_append apart_def)

lemma add_segments_ok:
  assumes "holes_ok hs" and "sorted_wrt apart rs" and "\<forall>r \<in> set rs. snd r \<le> c \<or> e \<le> fst r"
  shows "sorted_wrt apart (add_segments hs c e rs) \<and>
    (\<forall>r \<in> set (add_segments hs c e rs). r \<in> set rs \<or>
       (c \<le> fst r \<and> snd r \<le> e \<and> fst r < snd r \<and> (\<forall>h \<in> set hs. apart r h)))"
  using assms
proof (induction hs c e rs rule: add_segments.induct)
  case (1 c e rs)
  then show ?case using add_range_ok [of rs c e e] by auto
next
  case (2 hs0 he holes c e rs)
  let ?rs = "add_range c (min e hs0) rs"
  have h: "hs0 \<le> he" "\<forall>g \<in> set holes. hs0 \<le> fst g" "holes_ok holes"
    using "2.prems"(1) by (auto simp: holes_ok_Cons)
  note ar = add_range_ok [OF "2.prems"(2,3), of "min e hs0"]
  have pre: "\<forall>r \<in> set ?rs. snd r \<le> max c he \<or> e \<le> fst r"
    using ar(2) "2.prems"(3) h(1) by fastforce
  have IH: "sorted_wrt apart (add_segments holes (max c he) e ?rs)"
    "\<And>r. r \<in> set (add_segments holes (max c he) e ?rs) \<Longrightarrow> r \<in> set ?rs \<or>
       (max c he \<le> fst r \<and> snd r \<le> e \<and> fst r < snd r \<and> (\<forall>h \<in> set holes. apart r h))"
    using "2.IH" [OF h(3) ar(1) pre] by auto
  have "r \<in> set rs \<or> (c \<le> fst r \<and> snd r \<le> e \<and> fst r < snd r \<and> (\<forall>h \<in> set ((hs0, he) # holes). apart r h))"
    if r: "r \<in> set (add_segments holes (max c he) e ?rs)" for r
  proof (cases "r \<in> set ?rs")
    case True
    then have "r \<in> set rs \<or> r = (c, min e hs0) \<and> c < min e hs0" using ar(2) by auto
    then show ?thesis using h by (auto simp: apart_def)
  next
    case False
    then show ?thesis using IH(2) [OF r] by (auto simp: apart_def)
  qed
  then show ?case using IH(1) by simp
qed

definition region_range :: "memory_region \<Rightarrow> range" where
  "region_range g = (region_base g, region_base g + region_len g)"

definition ranges_from :: "range list \<Rightarrow> memory_region list \<Rightarrow> range list \<Rightarrow> bool" where
  "ranges_from holes regions rs \<longleftrightarrow> sorted_wrt apart rs \<and>
     (\<forall>r \<in> set rs. fst r < snd r \<and> forbidden_end \<le> fst r \<and> (\<forall>h \<in> set holes. apart r h) \<and>
        (\<exists>g \<in> set regions. region_kind g = ''usable'' \<and> region_base g \<le> fst r \<and>
           snd r \<le> region_base g + region_len g))"

lemma ranges_from_add:
  assumes hs: "holes_ok holes" and rs: "ranges_from holes regions rs"
    and dis: "\<forall>g' \<in> set regions. apart (region_range g') (region_range g)"
  shows "ranges_from holes (regions @ [g]) (add_region holes g rs)"
proof -
  let ?c = "max (region_base g) forbidden_end"
  let ?e = "region_base g + region_len g"
  have keep: "ranges_from holes (regions @ [g]) rs" using rs by (auto simp: ranges_from_def)
  show ?thesis
  proof (cases "region_kind g = ''usable'' \<and> ?c < ?e")
    case True
    have srt: "sorted_wrt apart rs" using rs by (simp add: ranges_from_def)
    have "snd r \<le> ?c \<or> ?e \<le> fst r" if r: "r \<in> set rs" for r
    proof -
      obtain g' where "g' \<in> set regions" "region_base g' \<le> fst r" "snd r \<le> region_base g' + region_len g'"
        using rs r by (auto simp: ranges_from_def)
      then show ?thesis using dis by (fastforce simp: apart_def region_range_def)
    qed
    then have sep: "\<forall>r \<in> set rs. snd r \<le> ?c \<or> ?e \<le> fst r" by blast
    note seg = add_segments_ok [OF hs srt sep]
    have "add_region holes g rs = add_segments holes ?c ?e rs"
      using True by (auto simp: add_region_def Let_def)
    then show ?thesis using seg keep True by (fastforce simp: ranges_from_def)
  next
    case False
    then show ?thesis using keep by (auto simp: add_region_def Let_def)
  qed
qed

definition regions_disjoint :: "memory_region list \<Rightarrow> bool" where
  "regions_disjoint gs \<longleftrightarrow> sorted_wrt (\<lambda>g h. apart (region_range g) (region_range h)) gs"

lemma ranges_from_fold:
  "holes_ok holes \<Longrightarrow> regions_disjoint regions \<Longrightarrow>
     ranges_from holes regions (fold (add_region holes) regions [])"
proof (induction regions rule: rev_induct)
  case Nil
  show ?case by (simp add: ranges_from_def)
next
  case (snoc g regions)
  then have "regions_disjoint regions" "\<forall>g' \<in> set regions. apart (region_range g') (region_range g)"
    by (auto simp: regions_disjoint_def sorted_wrt_append)
  with snoc ranges_from_add show ?case by simp
qed

lemma align_down_mono: "a \<le> b \<Longrightarrow> align_down a \<le> align_down b"
  by (simp add: align_down_def minus_mod_eq_mult_div div_le_mono)

lemma holes_ok_boot: "holes_ok (sort_holes (stack_hole p) (collision_start, collision_end))"
  by (auto simp: holes_ok_def sort_holes_def stack_hole_def collision_start_def collision_end_def
      intro!: align_down_mono)

lemma usable_of_ok:
  "regions_disjoint regions \<Longrightarrow>
     ranges_from [stack_hole p, (collision_start, collision_end)] regions (usable_of p regions)"
  using ranges_from_fold [OF holes_ok_boot, of regions p]
  by (auto simp: ranges_from_def usable_of_def sort_holes_def split: if_splits)

section \<open>What the allocator hands out\<close>

definition frame_in :: "nat \<Rightarrow> range \<Rightarrow> bool" where
  "frame_in f r \<longleftrightarrow> fst r \<le> f \<and> f + 0x1000 \<le> snd r"

definition bfa_inv :: "nat set \<Rightarrow> boot_frame_allocator \<Rightarrow> bool" where
  "bfa_inv A a \<longleftrightarrow> sorted_wrt apart (usable_ranges a) \<and>
     (current_range a < length (usable_ranges a) \<longrightarrow>
        fst (usable_ranges a ! current_range a) \<le> bfa_next a) \<and>
     (\<forall>f \<in> A. \<exists>i < length (usable_ranges a). i \<le> current_range a \<and> frame_in f (usable_ranges a ! i) \<and>
        (i = current_range a \<longrightarrow> f + 0x1000 \<le> bfa_next a))"

lemma sorted_apart_nth:
  assumes "sorted_wrt apart rs" "i < length rs" "j < length rs" "i \<noteq> j"
  shows "apart (rs ! i) (rs ! j)"
proof (cases "i < j")
  case True
  then show ?thesis using assms sorted_wrt_nth_less by blast
next
  case False
  then have "apart (rs ! j) (rs ! i)" using assms sorted_wrt_nth_less by (metis nat_neq_iff)
  then show ?thesis by (auto simp: apart_def)
qed

lemma allocate_frame_internal_spec:
  assumes "allocate_frame_internal a = (r, a')" and "bfa_inv A a"
  shows "usable_ranges a' = usable_ranges a \<and>
    (case r of
       None \<Rightarrow> bfa_inv A a'
     | Some f \<Rightarrow> bfa_inv (insert f A) a' \<and> f mod 0x1000 = 0 \<and> (\<exists>q \<in> set (usable_ranges a). frame_in f q) \<and>
         (\<forall>g \<in> A. g + 0x1000 \<le> f \<or> f + 0x1000 \<le> g))"
  using assms
proof (induction a rule: allocate_frame_internal.induct)
  case (1 a)
  let ?rs = "usable_ranges a"
  let ?i = "current_range a"
  show ?case
  proof (cases "?i \<ge> length ?rs")
    case True
    then show ?thesis using "1.prems" by (subst (asm) allocate_frame_internal.simps) simp
  next
    case False
    let ?f = "align_down (bfa_next a + 0xFFF)"
    have i: "?i < length ?rs" using False by simp
    have nxt: "fst (?rs ! ?i) \<le> bfa_next a" using "1.prems"(2) i by (simp add: bfa_inv_def)
    show ?thesis
    proof (cases "?f + 0x1000 \<le> snd (?rs ! ?i)")
      case fits: True
      have res: "r = Some ?f" "a' = a\<lparr>bfa_next := ?f + 0x1000\<rparr>"
        using "1.prems"(1) False fits by (subst (asm) allocate_frame_internal.simps, simp add: Let_def)+
      have lo: "bfa_next a \<le> ?f" using align_down_facts(2) [of "bfa_next a + 0xFFF"] by linarith
      have fin: "frame_in ?f (?rs ! ?i)" using lo nxt fits by (simp add: frame_in_def)
      have dis: "g + 0x1000 \<le> ?f \<or> ?f + 0x1000 \<le> g" if g: "g \<in> A" for g
      proof -
        obtain j where j: "j < length ?rs" "j \<le> ?i" "frame_in g (?rs ! j)" "j = ?i \<longrightarrow> g + 0x1000 \<le> bfa_next a"
          using "1.prems"(2) g by (auto simp: bfa_inv_def)
        show ?thesis
        proof (cases "j = ?i")
          case True
          then show ?thesis using j(4) lo by auto
        next
          case False
          then have "apart (?rs ! j) (?rs ! ?i)" using sorted_apart_nth j(1) i "1.prems"(2) by (simp add: bfa_inv_def)
          then show ?thesis using j(3) fin by (auto simp: apart_def frame_in_def)
        qed
      qed
      have "bfa_inv (insert ?f A) a'"
        using "1.prems"(2) i fin lo nxt unfolding res bfa_inv_def by fastforce
      then show ?thesis using res fin i dis align_down_facts(3) by auto
    next
      case no: False
      define a1 where "a1 = (if ?i + 1 < length ?rs
        then a\<lparr>current_range := ?i + 1, bfa_next := fst (?rs ! (?i + 1))\<rparr> else a\<lparr>current_range := ?i + 1\<rparr>)"
      have step: "allocate_frame_internal a1 = (r, a')"
        using "1.prems"(1) False no unfolding a1_def
        by (subst (asm) allocate_frame_internal.simps) (simp add: Let_def split: if_splits)
      have rs: "usable_ranges a1 = ?rs" "current_range a1 = ?i + 1" by (simp_all add: a1_def)
      have "bfa_inv A a1"
        using "1.prems"(2) unfolding bfa_inv_def rs
        by (auto simp: a1_def) (metis Suc_n_not_le_n le_Suc_eq)+
      then show ?thesis
        using "1.IH" [OF False refl refl no refl] step rs
        by (cases r) (simp_all add: a1_def Let_def split: if_splits)
    qed
  qed
qed

fun boot_frames :: "nat \<Rightarrow> boot_frame_allocator \<Rightarrow> nat list \<times> boot_frame_allocator" where
  "boot_frames 0 a = ([], a)"
| "boot_frames (Suc n) a =
     (case allocate_frame_internal a of
        (None, a1) \<Rightarrow> ([], a1)
      | (Some f, a1) \<Rightarrow> (case boot_frames n a1 of (fs, a2) \<Rightarrow> (f # fs, a2)))"

definition frames_apart :: "nat \<Rightarrow> nat \<Rightarrow> bool" where
  "frames_apart f g \<longleftrightarrow> f + 0x1000 \<le> g \<or> g + 0x1000 \<le> f"

lemma boot_frames_spec:
  assumes "bfa_inv A a" and "boot_frames n a = (fs, a')"
  shows "sorted_wrt frames_apart fs \<and> usable_ranges a' = usable_ranges a \<and> bfa_inv (A \<union> set fs) a' \<and>
    (\<forall>f \<in> set fs. f mod 0x1000 = 0 \<and> (\<exists>q \<in> set (usable_ranges a). frame_in f q) \<and> (\<forall>g \<in> A. frames_apart g f))"
  using assms
proof (induction n arbitrary: A a fs)
  case 0
  then show ?case by simp
next
  case (Suc n)
  obtain r a1 where r: "allocate_frame_internal a = (r, a1)" by fastforce
  note sp = allocate_frame_internal_spec [OF r Suc.prems(1)]
  show ?case
  proof (cases r)
    case None
    then show ?thesis using Suc.prems sp r by simp
  next
    case (Some f)
    obtain gs where gs: "boot_frames n a1 = (gs, a')" "fs = f # gs"
      using Suc.prems(2) r Some by (auto split: prod.splits)
    have f: "bfa_inv (insert f A) a1" "f mod 0x1000 = 0" "\<exists>q \<in> set (usable_ranges a). frame_in f q"
      "\<forall>g \<in> A. frames_apart g f" "usable_ranges a1 = usable_ranges a"
      using sp Some by (auto simp: frames_apart_def)
    have "frames_apart f g" if "g \<in> set gs" for g using Suc.IH [OF f(1) gs(1)] that by simp
    then show ?thesis using Suc.IH [OF f(1) gs(1)] f gs(2) by auto
  qed
qed

lemma bfa_new_inv:
  assumes "bfa_new rsp hhdm regions = Inr a" and "regions_disjoint regions"
  shows "bfa_inv {} a" and "ranges_from [stack_hole (rsp - hhdm), (collision_start, collision_end)] regions (usable_ranges a)"
proof -
  have u: "usable_ranges a = usable_of (rsp - hhdm) regions" "current_range a = 0"
    "usable_ranges a \<noteq> []" "bfa_next a = fst (usable_ranges a ! 0)"
    using assms(1) by (auto simp: bfa_new_def split: if_splits list.splits)
  show rf: "ranges_from [stack_hole (rsp - hhdm), (collision_start, collision_end)] regions (usable_ranges a)"
    unfolding u(1) by (rule usable_of_ok [OF assms(2)])
  show "bfa_inv {} a" using u rf by (simp add: bfa_inv_def ranges_from_def)
qed

lemma frame_in_apart: "frame_in f q \<Longrightarrow> apart q h \<Longrightarrow> apart (f, f + 0x1000) h"
  by (auto simp: frame_in_def apart_def)

text \<open>The boot allocator is a frame source, its sanity checks included.\<close>

definition bfa_taken :: "nat set \<Rightarrow> boot_frame_allocator \<times> sanity_capture \<Rightarrow> bool" where
  "bfa_taken A = (\<lambda>(a, c). bfa_inv A a)"

lemma allocate_frame_Inr:
  assumes "allocate_frame bounds (a, c) = Inr (r, a', c')"
  shows "\<exists>r0. allocate_frame_internal a = (r0, a') \<and>
    r = (case r0 of None \<Rightarrow> None | Some f \<Rightarrow> if f mod 0x1000 = 0 then Some f else None)"
proof -
  obtain r0 a1 where 0: "allocate_frame_internal a = (r0, a1)" by fastforce
  show ?thesis
  proof (cases r0)
    case None
    then show ?thesis using assms 0 by (simp add: allocate_frame_def)
  next
    case (Some f)
    have "a1 = a' \<and> r = (if f mod 0x1000 = 0 then Some f else None)"
      using assms unfolding allocate_frame_def prod.case 0 Some option.case
      by (simp split: if_split_asm sum.split_asm)
    then show ?thesis using 0 Some by simp
  qed
qed

interpretation boot: frame_source "allocate_frame bounds" bfa_taken for bounds
proof
  fix A s fr s'
  assume t: "bfa_taken A s" and al: "allocate_frame bounds s = Inr (Some fr, s')"
  obtain a c a' c' where s: "s = (a, c)" "s' = (a', c')" by (cases s, cases s')
  obtain r0 where r0: "allocate_frame_internal a = (r0, a')"
    "Some fr = (case r0 of None \<Rightarrow> None | Some f \<Rightarrow> if f mod 0x1000 = 0 then Some f else None)"
    using allocate_frame_Inr al unfolding s by blast
  then have i: "allocate_frame_internal a = (Some fr, a')" by (auto split: option.splits if_splits)
  show "bfa_taken (insert fr A) s' \<and> fr \<notin> A \<and> fr mod 0x1000 = 0"
    using allocate_frame_internal_spec [OF i] t s by (fastforce simp: bfa_taken_def)
next
  fix A s s'
  assume t: "bfa_taken A s" and al: "allocate_frame bounds s = Inr (None, s')"
  obtain a c a' c' where s: "s = (a, c)" "s' = (a', c')" by (cases s, cases s')
  obtain r0 where i: "allocate_frame_internal a = (r0, a')"
    "None = (case r0 of None \<Rightarrow> None | Some f \<Rightarrow> if f mod 0x1000 = 0 then Some f else None)"
    using allocate_frame_Inr al unfolding s by blast
  show "bfa_taken A s'"
    using allocate_frame_internal_spec [OF i(1)] t s i(2)
    by (auto simp: bfa_taken_def split: option.splits if_splits)
qed

section \<open>Properties\<close>

text \<open>
  C17: the frames the boot allocator hands out, however many are requested, are page-aligned,
  pairwise disjoint, inside a usable region of the memory map, above the forbidden low window,
  and clear of the boot stack and of the reserved collision range, for every memory map whose
  regions do not overlap.
\<close>

theorem boot_frames_safe:
  assumes "bfa_new rsp hhdm regions = Inr a" and "regions_disjoint regions" and "boot_frames n a = (fs, a')"
  shows "sorted_wrt frames_apart fs \<and>
    (\<forall>f \<in> set fs. f mod 0x1000 = 0 \<and> 0x1000000 \<le> f \<and> apart (f, f + 0x1000) (stack_hole (rsp - hhdm)) \<and>
       apart (f, f + 0x1000) (0x37a5000, 0x5000000) \<and>
       (\<exists>g \<in> set regions. region_kind g = ''usable'' \<and> region_base g \<le> f \<and>
          f + 0x1000 \<le> region_base g + region_len g))"
proof -
  note inv = bfa_new_inv [OF assms(1,2)]
  note sp = boot_frames_spec [OF inv(1) assms(3)]
  have "f mod 0x1000 = 0 \<and> 0x1000000 \<le> f \<and> apart (f, f + 0x1000) (stack_hole (rsp - hhdm)) \<and>
       apart (f, f + 0x1000) (0x37a5000, 0x5000000) \<and>
       (\<exists>g \<in> set regions. region_kind g = ''usable'' \<and> region_base g \<le> f \<and>
          f + 0x1000 \<le> region_base g + region_len g)" if "f \<in> set fs" for f
  proof -
    obtain q where q: "q \<in> set (usable_ranges a)" "frame_in f q" "f mod 0x1000 = 0"
      using sp \<open>f \<in> set fs\<close> by auto
    have rf: "forbidden_end \<le> fst q" "apart q (stack_hole (rsp - hhdm))" "apart q (collision_start, collision_end)"
      "\<exists>g \<in> set regions. region_kind g = ''usable'' \<and> region_base g \<le> fst q \<and> snd q \<le> region_base g + region_len g"
      using inv(2) q(1) by (auto simp: ranges_from_def)
    show ?thesis
      using q rf frame_in_apart [OF q(2)]
      by (auto simp: frame_in_def forbidden_end_def collision_start_def collision_end_def)
  qed
  then show ?thesis using sp by blast
qed

definition demo_regions :: "memory_region list" where
  "demo_regions =
     [\<lparr>region_kind = ''usable'', region_base = 0, region_len = 0x9f000\<rparr>,
      \<lparr>region_kind = ''usable'', region_base = 0x100000, region_len = 0x7f00000\<rparr>]"

definition demo_bfa :: boot_frame_allocator where
  "demo_bfa = \<lparr>usable_ranges = [(0x1000000, 0x3000000), (0x3021000, 0x37a5000), (0x5000000, 0x8000000)],
     current_range = 0, bfa_next = 0x1000000\<rparr>"

lemma demo_bfa_new: "bfa_new 0xffff800003020000 0xffff800000000000 demo_regions = Inr demo_bfa"
  by (simp add: bfa_new_def usable_of_def demo_regions_def demo_bfa_def stack_hole_def sort_holes_def
      add_region_def add_range_def align_down_def collision_start_def collision_end_def forbidden_end_def
      MAX_RANGES_def Let_def)

lemma demo_regions_disjoint: "regions_disjoint demo_regions"
  by (simp add: regions_disjoint_def demo_regions_def apart_def region_range_def)

theorem boot_frames_safe_witness:
  "\<exists>a'. boot_frames 2 demo_bfa = ([0x1000000, 0x1001000], a') \<and> frames_apart 0x1000000 0x1001000"
proof -
  obtain a' where b: "boot_frames 2 demo_bfa = ([0x1000000, 0x1001000], a')"
    by (simp add: numeral_2_eq_2 demo_bfa_def allocate_frame_internal.simps align_down_def Let_def)
  from boot_frames_safe [OF demo_bfa_new demo_regions_disjoint b] b show ?thesis by auto
qed

text \<open>
  The panics that guard the stack range and the forbidden window are unreachable: at any
  point of the boot, \<open>allocate_frame\<close> panics only when the frame belongs to the kernel image or
  is the active top-level page table according to the recorded bounds; without bounds it never
  does, and every frame the allocator finds is returned.
\<close>

theorem allocate_frame_panics_only_for_bounds:
  assumes "bfa_new rsp hhdm regions = Inr a" and "regions_disjoint regions" and "boot_frames n a = (fs, a')"
    and "allocate_frame_internal a' = (Some f, a'')"
    and "\<And>b. bounds = Some b \<Longrightarrow> f \<noteq> cr3_frame b \<and> (\<forall>r. kernel_image b = Some r \<longrightarrow> \<not> in_rng f r)"
  shows "allocate_frame bounds (a', c) = Inr (Some f, a'', sanity_record f c)"
proof -
  note inv = bfa_new_inv [OF assms(1,2)]
  note sp = boot_frames_spec [OF inv(1) assms(3)]
  note al = allocate_frame_internal_spec [OF assms(4), of "{} \<union> set fs"]
  obtain q where q: "q \<in> set (usable_ranges a)" "frame_in f q" "f mod 0x1000 = 0"
    using al sp by auto
  have "forbidden_end \<le> fst q" "apart q (collision_start, collision_end)"
    using inv(2) q(1) by (auto simp: ranges_from_def)
  then have "forbidden_end \<le> f" "\<not> (collision_start \<le> f \<and> f < 0x4000000)"
    using q(2) by (auto simp: frame_in_def apart_def collision_start_def collision_end_def)
  then have "check_reserved_ranges bounds f = Inr ()"
    using assms(5) by (auto simp: check_reserved_ranges_def in_rng_def split: option.splits)
  then show ?thesis
    using assms(4) q(3) \<open>\<not> (collision_start \<le> f \<and> f < 0x4000000)\<close> by (simp add: allocate_frame_def)
qed

theorem allocate_frame_panics_only_for_bounds_witness:
  "\<exists>a''. allocate_frame None (demo_bfa, \<lparr>sc_frames = [], sc_logged = False\<rparr>) =
     Inr (Some 0x1000000, a'', \<lparr>sc_frames = [0x1000000], sc_logged = False\<rparr>)"
proof -
  obtain a'' where f: "allocate_frame_internal demo_bfa = (Some 0x1000000, a'')"
    by (simp add: demo_bfa_def allocate_frame_internal.simps align_down_def Let_def)
  from allocate_frame_panics_only_for_bounds [OF demo_bfa_new demo_regions_disjoint _ f,
      of 0 "[]" None "\<lparr>sc_frames = [], sc_logged = False\<rparr>"]
  show ?thesis by (simp add: sanity_record_def SANITY_DUMP_COUNT_def Let_def)
qed

end
