(* ===== verification/Heap.thy ===== *)
theory Heap
  imports Prelude
begin

unbundle bit_operations_syntax

text \<open>
  The kernel's debugging heaps: the lock-free bump allocator
  (\<open>src/kernel/src/mm/bump_allocator.rs\<close>) with any number of threads racing on its
  compare-exchange, and the canary allocator (\<open>debug_alloc.rs\<close>) around an inner allocator that
  is a parameter.
\<close>

section \<open>Bump allocator\<close>

record layout =
  lay_size :: u64
  lay_align :: u64

record bump_allocator =
  bump_start :: u64
  bump_size :: u64
  bump_next :: u64

definition bump_new :: bump_allocator where
  "bump_new = \<lparr>bump_start = 0, bump_size = 0, bump_next = 0\<rparr>"

definition bump_init :: "u64 \<Rightarrow> u64 \<Rightarrow> bump_allocator \<Rightarrow> bump_allocator" where
  "bump_init heap_start heap_size b =
     b\<lparr>bump_start := heap_start, bump_size := heap_size, bump_next := heap_start\<rparr>"

definition heap_end :: "bump_allocator \<Rightarrow> u64" where
  "heap_end b = saturating_add (bump_start b) (bump_size b)"

text \<open>
  One round of the loop for the value \<open>current\<close>: a panic (out of memory, or \<open>current + align\<close>
  beyond the machine word), the null pointer, or the block to claim with a compare-exchange.
\<close>

datatype bump_round = RPanic | RNull | RClaim u64 u64

definition bump_align :: "layout \<Rightarrow> u64" where
  "bump_align l = max (lay_align l) 8"

definition bump_bytes :: "layout \<Rightarrow> u64" where
  "bump_bytes l = max (lay_size l) 8"

definition bump_try :: "u64 \<Rightarrow> layout \<Rightarrow> u64 \<Rightarrow> bump_round" where
  "bump_try stop l current =
     (let align = bump_align l;
          size = bump_bytes l
      in if unat current + unat align \<ge> 2 ^ 64 then RPanic
         else let aligned = (current + align - 1) AND NOT (align - 1)
              in case checked_add aligned size of
                   None \<Rightarrow> RNull
                 | Some new_next \<Rightarrow> if new_next > stop then RPanic else RClaim aligned new_next)"

text \<open>The loop without interference, and \<open>dealloc\<close>, which does nothing.\<close>

definition bump_alloc :: "layout \<Rightarrow> bump_allocator \<Rightarrow> (u64 \<times> bump_allocator) panics" where
  "bump_alloc l b =
     (case bump_try (heap_end b) l (bump_next b) of
        RPanic \<Rightarrow> Inl ''BumpAllocator OOM''
      | RNull \<Rightarrow> Inr (0, b)
      | RClaim aligned new_next \<Rightarrow> Inr (aligned, b\<lparr>bump_next := new_next\<rparr>))"

definition bump_dealloc :: "u64 \<Rightarrow> layout \<Rightarrow> bump_allocator \<Rightarrow> bump_allocator" where
  "bump_dealloc p l b = b"

section \<open>Rounding up\<close>

lemma unat_and_not_mask:
  fixes w :: u64
  shows "unat (w AND NOT (mask k)) = unat w div 2 ^ k * 2 ^ k"
proof -
  have "w AND NOT (mask k) = push_bit k (drop_bit k w)"
    by (rule bit_word_eqI) (auto simp: bit_simps)
  then have "unat (w AND NOT (mask k)) = take_bit 64 (push_bit k (unat (drop_bit k w)))"
    by (simp add: unsigned_push_bit_eq)
  also have "unat (drop_bit k w) = unat w div 2 ^ k" 
    using unsigned_less [of w, where 'a = nat]
    by (simp only: unsigned_drop_bit_eq) (simp add: drop_bit_eq_div take_bit_eq_mod)
  also have "push_bit k (unat w div 2 ^ k) = unat w div 2 ^ k * 2 ^ k" by (simp add: push_bit_eq_mult)
  also have "take_bit 64 (unat w div 2 ^ k * 2 ^ k) = unat w div 2 ^ k * 2 ^ k"
  proof -
    have "unat w div 2 ^ k * 2 ^ k \<le> unat w" by simp
    also have "unat w < 2 ^ 64" using unsigned_less [of w] by simp
    finally show ?thesis by (simp add: take_bit_nat_eq_self_iff)
  qed
  finally show ?thesis .
qed

definition layout_ok :: "layout \<Rightarrow> bool" where
  "layout_ok l \<longleftrightarrow> (\<exists>k < 64. lay_align l = 2 ^ k)"

lemma unat_pow2: "k < 64 \<Longrightarrow> unat (2 ^ k :: u64) = 2 ^ k"
proof -
  assume "k < 64"
  then have "(2 :: nat) ^ k < 2 ^ 64" by (rule power_strict_increasing) simp
  moreover have "(2 ^ k :: u64) = of_nat (2 ^ k)" by simp
  ultimately show ?thesis by (simp only: unat_of_nat) simp
qed

lemma bump_align_pow2:
  assumes "layout_ok l"
  obtains k where "k < 64" "bump_align l = 2 ^ k" "lay_align l \<le> bump_align l" "lay_align l dvd bump_align l"
proof -
  obtain j where j: "j < 64" "lay_align l = 2 ^ j" using assms by (auto simp: layout_ok_def)
  show ?thesis
  proof (cases "j \<le> 3")
    case True
    have "(2 ^ j :: u64) \<le> 8"
    proof -
      have "unat (2 ^ j :: u64) = 2 ^ j" using j(1) by (rule unat_pow2)
      moreover have "(2 :: nat) ^ j \<le> 2 ^ 3" using True by (intro power_increasing) auto
      ultimately show ?thesis by (simp add: word_le_nat_alt)
    qed
    then have "bump_align l = 2 ^ 3" by (simp add: bump_align_def j(2) max_def)
    moreover have "lay_align l dvd 2 ^ 3" unfolding j(2) using True by (rule le_imp_power_dvd)
    ultimately show ?thesis using that [of 3] \<open>2 ^ j \<le> 8\<close> j(2) by simp
  next
    case False
    have "(8 :: u64) \<le> 2 ^ j"
    proof -
      have "unat (2 ^ j :: u64) = 2 ^ j" using j(1) by (rule unat_pow2)
      moreover have "(2 :: nat) ^ 3 \<le> 2 ^ j" using False by (intro power_increasing) auto
      ultimately show ?thesis by (simp add: word_le_nat_alt)
    qed
    then have "bump_align l = 2 ^ j" by (auto simp: bump_align_def j(2) max_def)
    then show ?thesis using that [OF j(1)] j(2) by simp
  qed
qed

lemma bump_try_claim:
  assumes ok: "layout_ok l" and tr: "bump_try stop l current = RClaim a n"
  shows "current \<le> a" and "unat n = unat a + unat (bump_bytes l)" and "n \<le> stop" and "a < n"
    and "unat a mod unat (lay_align l) = 0"
proof -
  obtain k where k: "k < 64" "bump_align l = 2 ^ k" "lay_align l \<le> bump_align l" "lay_align l dvd bump_align l"
    using bump_align_pow2 [OF ok] .
  let ?al = "(current + 2 ^ k - 1) AND NOT (2 ^ k - 1)"
  have uk: "unat (2 ^ k :: u64) = 2 ^ k" using k(1) by (rule unat_pow2)
  have fit: "unat current + 2 ^ k < 2 ^ 64" and a: "a = ?al"
    and ca: "checked_add ?al (bump_bytes l) = Some n" and st: "n \<le> stop"
    using tr unfolding bump_try_def Let_def k(2) uk
    by (auto split: if_splits option.splits)
  have p: "unat (current + 2 ^ k) = unat current + 2 ^ k"
    using fit uk by (subst unat_add_no_wrap) simp_all
  then have "0 < unat (current + 2 ^ k)" by simp
  then have w: "unat (current + 2 ^ k - 1) = unat current + 2 ^ k - 1"
    using p unat_sub [of 1 "current + 2 ^ k"] by (simp add: word_le_nat_alt Suc_leI)
  have m: "(2 ^ k - 1 :: u64) = mask k" by (simp add: mask_eq_exp_minus_1)
  have ua: "unat a = (unat current + 2 ^ k - 1) div 2 ^ k * 2 ^ k"
    unfolding a m using unat_and_not_mask [of "current + 2 ^ k - 1" k] w by simp
  have "unat current + 2 ^ k - 1 < (unat current + 2 ^ k - 1) div 2 ^ k * 2 ^ k + 2 ^ k"
    using div_mult_mod_eq [of "unat current + 2 ^ k - 1" "2 ^ k"] mod_less_divisor [of "2 ^ k" "unat current + 2 ^ k - 1"]
    by (metis add_less_cancel_left zero_less_numeral zero_less_power)
  then have le: "unat current \<le> unat a" unfolding ua by simp
  then show "current \<le> a" by (simp add: word_le_nat_alt)
  show un: "unat n = unat a + unat (bump_bytes l)" using checked_add_Some [OF ca] unfolding a by blast
  show "n \<le> stop" by (rule st)
  have "8 \<le> bump_bytes l" by (simp add: bump_bytes_def)
  then have "8 \<le> unat (bump_bytes l)" by (simp add: word_le_nat_alt)
  then show "a < n" using un by (simp add: word_less_nat_alt)
  obtain j where j: "j < 64" "lay_align l = 2 ^ j" using ok by (auto simp: layout_ok_def)
  have "unat (lay_align l) \<le> unat (bump_align l)" using k(3) by (simp add: word_le_nat_alt)
  then have "(2 :: nat) ^ j \<le> 2 ^ k" using uk unat_pow2 [OF j(1)] by (simp add: j(2) k(2))
  then have "j \<le> k" by (simp add: power_increasing_iff)
  then have "(2 :: nat) ^ j dvd unat a" unfolding ua by (meson dvd_mult le_imp_power_dvd)
  then show "unat a mod unat (lay_align l) = 0" using unat_pow2 [OF j(1)] by (simp add: j(2))
qed

section \<open>Racing threads\<close>

text \<open>
  The loop of \<open>alloc\<close> as steps between atomic accesses: a thread has loaded \<open>next\<close> into
  \<open>current\<close>, and then its compare-exchange succeeds and claims the block, or fails and it goes
  round with the value it saw. The log records the claimed blocks with the layout asked for.
\<close>

datatype bump_thread = BIdle | BTrying layout u64 | BPanicked

record bump_race =
  br_heap :: bump_allocator
  br_threads :: "nat \<Rightarrow> bump_thread"
  br_blocks :: "(layout \<times> u64 \<times> u64) list"

inductive bump_step :: "bump_race \<Rightarrow> bump_race \<Rightarrow> bool" where
  start: "br_threads s i = BIdle \<Longrightarrow> layout_ok l \<Longrightarrow>
    bump_step s (s\<lparr>br_threads := (br_threads s)(i := BTrying l (bump_next (br_heap s)))\<rparr>)"
| claim: "br_threads s i = BTrying l current \<Longrightarrow> bump_try (heap_end (br_heap s)) l current = RClaim a n \<Longrightarrow>
    bump_next (br_heap s) = current \<Longrightarrow>
    bump_step s (s\<lparr>br_threads := (br_threads s)(i := BIdle), br_blocks := br_blocks s @ [(l, a, n)],
      br_heap := (br_heap s)\<lparr>bump_next := n\<rparr>\<rparr>)"
| retry: "br_threads s i = BTrying l current \<Longrightarrow> bump_try (heap_end (br_heap s)) l current = RClaim a n \<Longrightarrow>
    bump_next (br_heap s) \<noteq> current \<Longrightarrow>
    bump_step s (s\<lparr>br_threads := (br_threads s)(i := BTrying l (bump_next (br_heap s)))\<rparr>)"
| null: "br_threads s i = BTrying l current \<Longrightarrow> bump_try (heap_end (br_heap s)) l current = RNull \<Longrightarrow>
    bump_step s (s\<lparr>br_threads := (br_threads s)(i := BIdle)\<rparr>)"
| oom: "br_threads s i = BTrying l current \<Longrightarrow> bump_try (heap_end (br_heap s)) l current = RPanic \<Longrightarrow>
    bump_step s (s\<lparr>br_threads := (br_threads s)(i := BPanicked)\<rparr>)"

definition race_start :: "u64 \<Rightarrow> u64 \<Rightarrow> bump_race" where
  "race_start heap_start heap_size =
     \<lparr>br_heap = bump_init heap_start heap_size bump_new, br_threads = (\<lambda>i. BIdle), br_blocks = []\<rparr>"

definition block_ok :: "u64 \<Rightarrow> u64 \<Rightarrow> layout \<times> u64 \<times> u64 \<Rightarrow> bool" where
  "block_ok lo hi = (\<lambda>(l, a, n). lo \<le> a \<and> a < n \<and> n \<le> hi \<and> unat a + unat (lay_size l) \<le> unat n \<and>
     unat a mod unat (lay_align l) = 0)"

definition race_inv :: "u64 \<Rightarrow> u64 \<Rightarrow> bump_race \<Rightarrow> bool" where
  "race_inv lo sz s \<longleftrightarrow> bump_start (br_heap s) = lo \<and> bump_size (br_heap s) = sz \<and>
     lo \<le> bump_next (br_heap s) \<and>
     sorted_wrt (\<lambda>(_, a, n) (_, a', n'). n \<le> a') (br_blocks s) \<and>
     (\<forall>(l, a, n) \<in> set (br_blocks s). n \<le> bump_next (br_heap s)) \<and>
     (\<forall>b \<in> set (br_blocks s). block_ok lo (saturating_add lo sz) b) \<and>
     (\<forall>i l c. br_threads s i = BTrying l c \<longrightarrow> layout_ok l)"

lemma race_inv_claim:
  assumes inv: "race_inv lo sz s" and t: "br_threads s i = BTrying l (bump_next (br_heap s))"
    and tr: "bump_try (heap_end (br_heap s)) l (bump_next (br_heap s)) = RClaim a n"
  shows "race_inv lo sz (s\<lparr>br_threads := (br_threads s)(i := BIdle), br_blocks := br_blocks s @ [(l, a, n)],
      br_heap := (br_heap s)\<lparr>bump_next := n\<rparr>\<rparr>)"
proof -
  have lok: "layout_ok l" using inv t unfolding race_inv_def by blast
  note c = bump_try_claim [OF lok tr]
  have "lay_size l \<le> bump_bytes l" by (simp add: bump_bytes_def)
  then have sz: "unat a + unat (lay_size l) \<le> unat n" using c(2) by (simp add: word_le_nat_alt)
  have blk: "block_ok lo (saturating_add lo sz) (l, a, n)"
    using inv c sz by (auto simp: race_inv_def block_ok_def heap_end_def)
  have old: "m \<le> a \<and> m \<le> n" if "(l', b, m) \<in> set (br_blocks s)" for l' b m
    using inv that c(1,4) by (fastforce simp: race_inv_def)
  have "lo \<le> n" using inv c(1,4) by (auto simp: race_inv_def)
  then show ?thesis
    using inv blk old by (auto simp: race_inv_def sorted_wrt_append)
qed

lemma race_inv_step: "bump_step s t \<Longrightarrow> race_inv lo sz s \<Longrightarrow> race_inv lo sz t"
proof (induction rule: bump_step.induct)
  case (claim s i l current a n)
  then show ?case using race_inv_claim by simp
next
  case (retry s i l current a n)
  then have "layout_ok l" unfolding race_inv_def by blast
  then show ?case using retry by (auto simp: race_inv_def split: if_splits)
qed (auto simp: race_inv_def split: if_splits)

lemma race_inv_reach: "bump_step\<^sup>*\<^sup>* s t \<Longrightarrow> race_inv lo sz s \<Longrightarrow> race_inv lo sz t"
  by (induction rule: rtranclp_induct) (auto intro: race_inv_step)

lemma race_inv_start: "race_inv lo sz (race_start lo sz)"
  by (simp add: race_inv_def race_start_def bump_init_def bump_new_def)

section \<open>Canaries\<close>

text \<open>
  Memory is a map from addresses to bytes; \<open>write_u64\<close> and \<open>read_u64\<close> are the unaligned
  accesses. The inner allocator is a parameter: given a size and an alignment it returns an
  address, zero for null. \<open>isize_max\<close> is the limit of \<open>Layout::from_size_align\<close>.
\<close>

type_synonym memory = "nat \<Rightarrow> u8"

definition CANARY :: u64 where
  "CANARY = 0xfeedfacedeadbeef"

definition write_u64 :: "nat \<Rightarrow> u64 \<Rightarrow> memory \<Rightarrow> memory" where
  "write_u64 p v m = (\<lambda>q. if p \<le> q \<and> q < p + 8 then ucast (drop_bit (8 * (q - p)) v) else m q)"

definition read_u64 :: "nat \<Rightarrow> memory \<Rightarrow> u64" where
  "read_u64 p m = fold (\<lambda>i v. v OR push_bit (8 * i) (ucast (m (p + i)))) [0..<8] 0"

definition isize_max :: nat where
  "isize_max = 2 ^ 63 - 1"

definition canary_layout :: "nat \<Rightarrow> nat \<Rightarrow> (nat \<times> nat) option" where
  "canary_layout sz align =
     (let total = sz + max 8 align + 8;
          al = max align 8
      in if total \<ge> 2 ^ 64 then None
         else if total > isize_max - (al - 1) then None
         else Some (total, al))"

definition debug_alloc ::
  "(nat \<times> nat \<Rightarrow> 'h \<Rightarrow> nat \<times> 'h) \<Rightarrow> nat \<Rightarrow> nat \<Rightarrow> memory \<times> 'h \<Rightarrow> nat \<times> memory \<times> 'h" where
  "debug_alloc inner_alloc sz align = (\<lambda>(m, h).
     case canary_layout sz align of
       None \<Rightarrow> (0, m, h)
     | Some lay \<Rightarrow>
         (case inner_alloc lay h of
            (raw, h') \<Rightarrow>
              if raw = 0 then (0, m, h')
              else let user_ptr = raw + max 8 align
                   in (user_ptr, write_u64 (user_ptr + sz) CANARY (write_u64 (user_ptr - 8) CANARY m), h')))"

definition debug_dealloc ::
  "(nat \<Rightarrow> nat \<times> nat \<Rightarrow> 'h \<Rightarrow> 'h) \<Rightarrow> nat \<Rightarrow> nat \<Rightarrow> nat \<Rightarrow> memory \<times> 'h \<Rightarrow> 'h panics" where
  "debug_dealloc inner_dealloc p sz align = (\<lambda>(m, h).
     if p = 0 then Inr h
     else if read_u64 (p - 8) m \<noteq> CANARY \<or> read_u64 (p + sz) m \<noteq> CANARY
     then Inl ''Heap canary corrupted''
     else case canary_layout sz align of
            None \<Rightarrow> Inr h
          | Some lay \<Rightarrow> Inr (inner_dealloc (p - max 8 align) lay h))"

lemma bit_u64_fold:
  "bit (fold (\<lambda>i v. v OR push_bit (8 * i) (ucast (f i :: u8))) [0..<k] (0 :: u64)) n \<longleftrightarrow>
     n < 64 \<and> (\<exists>i < k. 8 * i \<le> n \<and> bit (f i) (n - 8 * i))"
  by (induction k) (auto simp: bit_simps less_Suc_eq)

lemma bit_read_u64: "bit (read_u64 p m) n \<longleftrightarrow> n < 64 \<and> bit (m (p + n div 8)) (n mod 8)"
proof -
  have "(\<exists>i < 8. 8 * i \<le> n \<and> bit (m (p + i)) (n - 8 * i)) \<longleftrightarrow> bit (m (p + n div 8)) (n mod 8)" if "n < 64"
  proof
    assume "\<exists>i < 8. 8 * i \<le> n \<and> bit (m (p + i)) (n - 8 * i)"
    then obtain i where i: "8 * i \<le> n" "bit (m (p + i)) (n - 8 * i)" by blast
    then have "n - 8 * i < 8" using bit_imp_le_length by fastforce
    then have "n div 8 = i" "n mod 8 = n - 8 * i" using i(1) by (auto simp: div_nat_eqI mod_nat_eqI)
    with i show "bit (m (p + n div 8)) (n mod 8)" by simp
  next
    assume "bit (m (p + n div 8)) (n mod 8)"
    then show "\<exists>i < 8. 8 * i \<le> n \<and> bit (m (p + i)) (n - 8 * i)"
      using \<open>n < 64\<close> by (intro exI [of _ "n div 8"]) (auto simp: minus_mult_div_eq_mod)
  qed
  then show ?thesis unfolding read_u64_def bit_u64_fold by blast
qed

lemma read_write_u64: "read_u64 p (write_u64 p v m) = v"
proof (rule bit_word_eqI)
  fix n
  assume "n < LENGTH(64)"
  then have "n div 8 < 8" "n < 64" by (simp_all add: div_less_iff_less_mult)
  then show "bit (read_u64 p (write_u64 p v m)) n = bit v n"
    by (simp add: bit_read_u64 write_u64_def bit_simps)
qed

lemma read_u64_eq_iff: "read_u64 p m = read_u64 p m' \<longleftrightarrow> (\<forall>i < 8. m (p + i) = m' (p + i))"
proof
  assume eq: "read_u64 p m = read_u64 p m'"
  show "\<forall>i < 8. m (p + i) = m' (p + i)"
  proof (intro allI impI bit_word_eqI)
    fix i j :: nat
    assume "i < 8" "j < LENGTH(8)"
    then have "8 * i + j < 64" "(8 * i + j) div 8 = i" "(8 * i + j) mod 8 = j" by auto
    then show "bit (m (p + i)) j = bit (m' (p + i)) j"
      using eq bit_read_u64 [of p m "8 * i + j"] bit_read_u64 [of p m' "8 * i + j"] by simp
  qed
next
  assume "\<forall>i < 8. m (p + i) = m' (p + i)"
  then show "read_u64 p m = read_u64 p m'"
    by (intro bit_word_eqI) (simp add: bit_read_u64 div_less_iff_less_mult)
qed

lemma write_u64_other: "q < p \<or> p + 8 \<le> q \<Longrightarrow> write_u64 p v m q = m q"
  by (auto simp: write_u64_def)

lemma debug_alloc_spec:
  assumes "debug_alloc ia sz al (m, h) = (p, m1, h1)" and "p \<noteq> 0"
  obtains raw lay where "canary_layout sz al = Some lay" "ia lay h = (raw, h1)" "raw \<noteq> 0" "p = raw + max 8 al"
    "read_u64 (p - 8) m1 = CANARY" "read_u64 (p + sz) m1 = CANARY"
    "\<And>q. q < p - 8 \<or> (p \<le> q \<and> q < p + sz) \<or> p + sz + 8 \<le> q \<Longrightarrow> m1 q = m q"
proof -
  obtain lay raw where r: "canary_layout sz al = Some lay" "ia lay h = (raw, h1)" "raw \<noteq> 0" "p = raw + max 8 al"
    and m1: "m1 = write_u64 (p + sz) CANARY (write_u64 (p - 8) CANARY m)"
    using assms by (auto simp: debug_alloc_def Let_def split: option.splits prod.splits if_splits)
  have p8: "8 \<le> p" using r(4) by simp
  have "read_u64 (p - 8) m1 = read_u64 (p - 8) (write_u64 (p - 8) CANARY m)"
    unfolding read_u64_eq_iff m1 using p8 by (auto intro!: write_u64_other)
  then have hd8: "read_u64 (p - 8) m1 = CANARY" by (simp add: read_write_u64)
  have ft: "read_u64 (p + sz) m1 = CANARY" unfolding m1 by (rule read_write_u64)
  have "m1 q = m q" if "q < p - 8 \<or> (p \<le> q \<and> q < p + sz) \<or> p + sz + 8 \<le> q" for q
    using that p8 unfolding m1 by (auto simp: write_u64_def)
  then show thesis using that r hd8 ft by blast
qed

section \<open>Properties\<close>

text \<open>
  C18: however many threads race on the bump allocator, the blocks it hands out lie inside the
  heap window, are aligned as requested and large enough, and no two of them overlap.
\<close>

theorem bump_blocks_disjoint:
  assumes "bump_step\<^sup>*\<^sup>* (race_start lo sz) s"
  shows "sorted_wrt (\<lambda>(_, a, n) (_, a', n'). n \<le> a') (br_blocks s) \<and>
    (\<forall>(l, a, n) \<in> set (br_blocks s). lo \<le> a \<and> n \<le> saturating_add lo sz \<and>
       unat a + unat (lay_size l) \<le> unat n \<and> unat a mod unat (lay_align l) = 0)"
  using race_inv_reach [OF assms race_inv_start] by (auto simp: race_inv_def block_ok_def)

lemma demo_try: "bump_try 0x2000 \<lparr>lay_size = 24, lay_align = 16\<rparr> 0x1000 = RClaim 0x1000 0x1018"
  by (simp add: bump_try_def bump_align_def bump_bytes_def checked_add_def Let_def max_def)

theorem bump_blocks_disjoint_witness:
  "\<exists>s. bump_step\<^sup>*\<^sup>* (race_start 0x1000 0x1000) s \<and> br_blocks s = [(\<lparr>lay_size = 24, lay_align = 16\<rparr>, 0x1000, 0x1018)] \<and>
     (\<forall>(l, a, n) \<in> set (br_blocks s). unat a mod unat (lay_align l) = 0)"
proof -
  let ?l = "\<lparr>lay_size = 24, lay_align = 16\<rparr> :: layout"
  let ?s0 = "race_start 0x1000 0x1000"
  let ?s1 = "?s0\<lparr>br_threads := (br_threads ?s0)(0 := BTrying ?l (bump_next (br_heap ?s0)))\<rparr>"
  let ?s2 = "?s1\<lparr>br_threads := (br_threads ?s1)(0 := BIdle), br_blocks := br_blocks ?s1 @ [(?l, 0x1000, 0x1018)],
      br_heap := (br_heap ?s1)\<lparr>bump_next := 0x1018\<rparr>\<rparr>"
  have l: "layout_ok ?l" unfolding layout_ok_def by (rule exI [of _ 4]) simp
  have he: "heap_end (br_heap ?s1) = 0x2000"
    by (simp add: heap_end_def race_start_def bump_init_def saturating_add_def)
  have s1: "bump_step ?s0 ?s1" by (rule bump_step.start [OF _ l]) (simp add: race_start_def)
  have s2: "bump_step ?s1 ?s2"
  proof (rule bump_step.claim [of ?s1 0 ?l "0x1000"])
    show "bump_try (heap_end (br_heap ?s1)) ?l 0x1000 = RClaim 0x1000 0x1018" unfolding he by (rule demo_try)
  qed (simp_all add: race_start_def bump_init_def)
  have r: "bump_step\<^sup>*\<^sup>* ?s0 ?s2"
    by (rule rtranclp.rtrancl_into_rtrancl [OF r_into_rtranclp [of bump_step]]) (rule s1 s2)+
  have "br_blocks ?s2 = [(?l, 0x1000, 0x1018)]" by (simp add: race_start_def)
  with r bump_blocks_disjoint [OF r] show ?thesis by fastforce
qed

text \<open>
  Freeing a block from the canary allocator panics exactly when one of the sixteen canary
  bytes around it has changed since it was allocated; otherwise the inner allocator gets back
  the very block and layout it returned. Writes inside the block never trip the check.
\<close>

theorem canary_detects_overrun:
  fixes ia :: "nat \<times> nat \<Rightarrow> 'h \<Rightarrow> nat \<times> 'h"
  assumes "debug_alloc ia sz al (m, h) = (p, m1, h1)" and "p \<noteq> 0"
  shows "\<exists>raw lay. canary_layout sz al = Some lay \<and> ia lay h = (raw, h1) \<and>
    (\<forall>(id :: nat \<Rightarrow> nat \<times> nat \<Rightarrow> 'h \<Rightarrow> 'h) m2 h2. debug_dealloc id p sz al (m2, h2) =
       (if \<forall>i < 8. m2 (p - 8 + i) = m1 (p - 8 + i) \<and> m2 (p + sz + i) = m1 (p + sz + i)
        then Inr (id raw lay h2) else Inl ''Heap canary corrupted''))"
proof -
  obtain raw lay where r: "canary_layout sz al = Some lay" "ia lay h = (raw, h1)" "p = raw + max 8 al"
    "read_u64 (p - 8) m1 = CANARY" "read_u64 (p + sz) m1 = CANARY"
    using debug_alloc_spec [OF assms] by metis
  have "debug_dealloc id p sz al (m2, h2) =
       (if \<forall>i < 8. m2 (p - 8 + i) = m1 (p - 8 + i) \<and> m2 (p + sz + i) = m1 (p + sz + i)
        then Inr (id raw lay h2) else Inl ''Heap canary corrupted'')" for id :: "nat \<Rightarrow> nat \<times> nat \<Rightarrow> 'h \<Rightarrow> 'h" and m2 h2
    using read_u64_eq_iff [of "p - 8" m2 m1] read_u64_eq_iff [of "p + sz" m2 m1] r assms(2)
    by (auto simp: debug_dealloc_def)
  with r show ?thesis by blast
qed

definition one_block :: "nat \<times> nat \<Rightarrow> unit \<Rightarrow> nat \<times> unit" where
  "one_block lay h = (0x100, h)"

theorem canary_detects_overrun_witness:
  "let (p, m1, h1) = debug_alloc one_block 5 8 (\<lambda>_. 0, ())
   in p = 0x108 \<and> debug_dealloc (\<lambda>_ _ h. h) p 5 8 (m1(0x10a := 9), h1) = Inr () \<and>
      debug_dealloc (\<lambda>_ _ h. h) p 5 8 (m1(0x10d := 9), h1) = Inl ''Heap canary corrupted''"
proof -
  obtain m1 where a: "debug_alloc one_block 5 8 (\<lambda>_. 0, ()) = (0x108, m1, ())"
    and m1: "m1 = write_u64 (0x108 + 5) CANARY (write_u64 (0x108 - 8) CANARY (\<lambda>_. 0))"
    by (simp add: debug_alloc_def canary_layout_def one_block_def isize_max_def Let_def)
  have b: "m1 0x10d = 0xef" unfolding m1 by (simp add: write_u64_def CANARY_def)
  obtain raw lay where c: "\<And>(id :: nat \<Rightarrow> nat \<times> nat \<Rightarrow> unit \<Rightarrow> unit) m2 h2. debug_dealloc id 0x108 5 8 (m2, h2) =
       (if \<forall>i < 8. m2 (0x108 - 8 + i) = m1 (0x108 - 8 + i) \<and> m2 (0x108 + 5 + i) = m1 (0x108 + 5 + i)
        then Inr (id raw lay h2) else Inl ''Heap canary corrupted'')"
    using canary_detects_overrun [OF a] by auto
  have "debug_dealloc (\<lambda>_ _ h. h) 0x108 5 8 (m1(0x10a := 9), ()) = Inr ()"
    using c [of "\<lambda>_ _ h. h" "m1(0x10a := 9)" "()"] by simp
  moreover have "debug_dealloc (\<lambda>_ _ h. h) 0x108 5 8 (m1(0x10d := 9), ()) = Inl ''Heap canary corrupted''"
  proof -
    have "\<not> (\<forall>i < 8. (m1(0x10d := 9)) (0x108 + 5 + i) = m1 (0x108 + 5 + i))"
      using b by (auto intro!: exI [of _ 0])
    then show ?thesis using c [of "\<lambda>_ _ h. h" "m1(0x10d := 9)" "()"] by auto
  qed
  ultimately show ?thesis by (simp add: a)
qed

end
