(* ===== verification/Elf.thy ===== *)
theory Elf
  imports Frames
begin

unbundle bit_operations_syntax

text \<open>
  Loading executables (\<open>src/kernel/src/task/elf.rs\<close> and \<open>executable.rs\<close>): the ELF headers as
  they are laid out in the file, the parser, and the loader that maps a user stack and the
  loadable segments and copies the file into the frames behind them. The page mapper of the
  \<open>x86_64\<close> crate is a parameter with named laws; the frame allocator is a \<open>frame_source\<close>.
\<close>

section \<open>Headers\<close>

text \<open>A little-endian field of \<open>n\<close> bytes at an offset.\<close>

definition read_le :: "u8 list \<Rightarrow> nat \<Rightarrow> nat \<Rightarrow> nat" where
  "read_le bs off n = foldr (\<lambda>b acc. unat b + 256 * acc) (take n (drop off bs)) 0"

record elf64_header =
  e_ident :: "u8 list"
  e_type :: u16
  e_machine :: u16
  e_version :: u32
  e_entry :: u64
  e_phoff :: u64
  e_shoff :: u64
  e_flags :: u32
  e_ehsize :: u16
  e_phentsize :: u16
  e_phnum :: u16
  e_shentsize :: u16
  e_shnum :: u16
  e_shstrndx :: u16

record program_header =
  p_type :: u32
  p_flags :: u32
  p_offset :: u64
  p_vaddr :: u64
  p_paddr :: u64
  p_filesz :: u64
  p_memsz :: u64
  p_align :: u64

definition ELF_HEADER_SIZE :: nat where
  "ELF_HEADER_SIZE = 64"

definition PROGRAM_HEADER_SIZE :: nat where
  "PROGRAM_HEADER_SIZE = 56"

definition PT_LOAD :: u32 where "PT_LOAD = 1"
definition PF_X :: u32 where "PF_X = 1"
definition PF_W :: u32 where "PF_W = 2"
definition PF_R :: u32 where "PF_R = 4"
definition ET_DYN :: u16 where "ET_DYN = 3"

definition read_elf_header :: "u8 list \<Rightarrow> elf64_header" where
  "read_elf_header d =
     \<lparr>e_ident = take 16 d, e_type = of_nat (read_le d 16 2), e_machine = of_nat (read_le d 18 2),
      e_version = of_nat (read_le d 20 4), e_entry = of_nat (read_le d 24 8),
      e_phoff = of_nat (read_le d 32 8), e_shoff = of_nat (read_le d 40 8),
      e_flags = of_nat (read_le d 48 4), e_ehsize = of_nat (read_le d 52 2),
      e_phentsize = of_nat (read_le d 54 2), e_phnum = of_nat (read_le d 56 2),
      e_shentsize = of_nat (read_le d 58 2), e_shnum = of_nat (read_le d 60 2),
      e_shstrndx = of_nat (read_le d 62 2)\<rparr>"

text \<open>
  The program headers are read through a raw slice. An entry whose bytes are not all inside
  the file is \<open>None\<close>: what the kernel would read there is whatever lies behind the module.
\<close>

definition read_program_header :: "u8 list \<Rightarrow> nat \<Rightarrow> program_header option" where
  "read_program_header d off =
     (if off + PROGRAM_HEADER_SIZE \<le> length d
      then Some \<lparr>p_type = of_nat (read_le d off 4), p_flags = of_nat (read_le d (off + 4) 4),
             p_offset = of_nat (read_le d (off + 8) 8), p_vaddr = of_nat (read_le d (off + 16) 8),
             p_paddr = of_nat (read_le d (off + 24) 8), p_filesz = of_nat (read_le d (off + 32) 8),
             p_memsz = of_nat (read_le d (off + 40) 8), p_align = of_nat (read_le d (off + 48) 8)\<rparr>
      else None)"

record elf =
  elf_header :: elf64_header
  program_headers :: "program_header option list"

text \<open>The outcome of a fallible kernel routine: a value, an error it returns, or a panic.\<close>

datatype 'a outcome = Ok 'a | Err string | Panic string

fun obind :: "'a outcome \<Rightarrow> ('a \<Rightarrow> 'b outcome) \<Rightarrow> 'b outcome" where
  "obind (Ok a) f = f a"
| "obind (Err e) f = Err e"
| "obind (Panic e) f = Panic e"

lemma obind_Ok: "obind m f = Ok b \<longleftrightarrow> (\<exists>a. m = Ok a \<and> f a = Ok b)"
  by (cases m) auto

definition elf_parse :: "u8 list \<Rightarrow> elf outcome" where
  "elf_parse d =
     (if length d < ELF_HEADER_SIZE then Err ''Data too short for ELF header''
      else let h = read_elf_header d
           in if e_ident h ! 0 \<noteq> 0x7f \<or> e_ident h ! 1 \<noteq> 0x45 \<or> e_ident h ! 2 \<noteq> 0x4c \<or> e_ident h ! 3 \<noteq> 0x46
              then Err ''Invalid ELF magic''
              else if e_ident h ! 4 \<noteq> 2 then Err ''Not a 64-bit ELF''
              else let ph_off = unat (e_phoff h); ph_num = unat (e_phnum h); ph_size = unat (e_phentsize h)
                   in if ph_off + ph_num * ph_size \<ge> 2 ^ 64 then Panic ''attempt to add with overflow''
                      else if length d < ph_off + ph_num * ph_size then Err ''Data too short for program headers''
                      else Ok \<lparr>elf_header = h,
                              program_headers = map (\<lambda>i. read_program_header d (ph_off + i * PROGRAM_HEADER_SIZE)) [0..<ph_num]\<rparr>)"

section \<open>Paging\<close>

definition USER_CODE_BASE :: nat where "USER_CODE_BASE = 0x400000000000"
definition USER_STACK_TOP :: nat where "USER_STACK_TOP = 0x700000000000"
definition USER_STACK_SIZE :: nat where "USER_STACK_SIZE = 16 * 4096"

text \<open>The page table flags the loader uses; every page it maps is present and user accessible.\<close>

record pt_flags =
  pt_writable :: bool
  pt_no_execute :: bool

datatype translate_result = Mapped nat pt_flags | NotMapped | InvalidFrame

text \<open>
  The mapper of the paging crate over its own state \<open>'m\<close>, and the addresses that the crate's
  \<open>VirtAddr::new\<close> accepts. \<open>map_to\<close> may allocate frames for page tables.
\<close>

record ('m, 'f) mapper =
  translate :: "'m \<Rightarrow> nat \<Rightarrow> translate_result"
  map_to :: "nat \<Rightarrow> nat \<Rightarrow> pt_flags \<Rightarrow> 'm \<times> 'f \<Rightarrow> ('m \<times> 'f) option"
  update_flags :: "nat \<Rightarrow> pt_flags \<Rightarrow> 'm \<Rightarrow> 'm option"
  virt_ok :: "nat \<Rightarrow> bool"

definition virt :: "('m, 'f) mapper \<Rightarrow> nat \<Rightarrow> nat outcome" where
  "virt M a = (if a < 2 ^ 64 \<and> virt_ok M a then Ok a else Panic ''invalid virtual address'')"

definition page_of :: "nat \<Rightarrow> nat" where
  "page_of a = a - a mod 4096"

text \<open>\<open>Page::range_inclusive\<close>.\<close>

definition page_range :: "nat \<Rightarrow> nat \<Rightarrow> nat list" where
  "page_range lo hi = map (\<lambda>i. lo + 4096 * i) [0..<(if lo \<le> hi then (hi - lo) div 4096 + 1 else 0)]"

definition elf_flags_to_pt_flags :: "program_header \<Rightarrow> pt_flags" where
  "elf_flags_to_pt_flags ph =
     \<lparr>pt_writable = (p_flags ph AND PF_W \<noteq> 0), pt_no_execute = (p_flags ph AND PF_X = 0)\<rparr>"

section \<open>The loader\<close>

text \<open>The loader's state: the mapper, the frame allocator, and memory as seen through the direct map.\<close>

record ('m, 'f) lstate =
  ls_map :: 'm
  ls_frames :: 'f
  ls_mem :: "nat \<Rightarrow> u8"

type_synonym 'f frame_alloc = "'f \<Rightarrow> (nat option \<times> 'f) panics"

definition fresh_frame :: "'f frame_alloc \<Rightarrow> string \<Rightarrow> ('m, 'f) lstate \<Rightarrow> (nat \<times> ('m, 'f) lstate) outcome" where
  "fresh_frame alloc msg s =
     (case alloc (ls_frames s) of
        Inl e \<Rightarrow> Panic e
      | Inr (None, f) \<Rightarrow> Err msg
      | Inr (Some fr, f) \<Rightarrow> Ok (fr, s\<lparr>ls_frames := f\<rparr>))"

definition do_map ::
  "('m, 'f) mapper \<Rightarrow> nat \<Rightarrow> nat \<Rightarrow> pt_flags \<Rightarrow> string \<Rightarrow> ('m, 'f) lstate \<Rightarrow> ('m, 'f) lstate outcome" where
  "do_map M page fr fl msg s =
     (case map_to M page fr fl (ls_map s, ls_frames s) of
        None \<Rightarrow> Err msg
      | Some (m, f) \<Rightarrow> Ok (s\<lparr>ls_map := m, ls_frames := f\<rparr>))"

definition map_stack_page ::
  "('m, 'f) mapper \<Rightarrow> 'f frame_alloc \<Rightarrow> nat \<Rightarrow> ('m, 'f) lstate \<Rightarrow> ('m, 'f) lstate outcome" where
  "map_stack_page M alloc page s =
     obind (fresh_frame alloc ''Failed to allocate user stack frame'' s)
       (\<lambda>(fr, s1). do_map M page fr \<lparr>pt_writable = True, pt_no_execute = False\<rparr> ''Failed to map user stack page'' s1)"

definition upgraded :: "pt_flags \<Rightarrow> pt_flags \<Rightarrow> pt_flags" where
  "upgraded desired old =
     \<lparr>pt_writable = (pt_writable old \<or> pt_writable desired),
      pt_no_execute = (pt_no_execute old \<and> pt_no_execute desired)\<rparr>"

definition map_segment_page ::
  "('m, 'f) mapper \<Rightarrow> 'f frame_alloc \<Rightarrow> pt_flags \<Rightarrow> nat \<Rightarrow> ('m, 'f) lstate \<Rightarrow> ('m, 'f) lstate outcome" where
  "map_segment_page M alloc desired page s =
     (case translate M (ls_map s) page of
        Mapped fr old \<Rightarrow>
          if upgraded desired old \<noteq> old
          then (case update_flags M page (upgraded desired old) (ls_map s) of
                  None \<Rightarrow> Err ''Failed to update flags''
                | Some m \<Rightarrow> Ok (s\<lparr>ls_map := m\<rparr>))
          else Ok s
      | NotMapped \<Rightarrow>
          obind (fresh_frame alloc ''Failed to allocate frame'' s)
            (\<lambda>(fr, s1). if fr < 0x4102000 then Panic ''Frame collision!''
                        else do_map M page fr desired ''Failed to map page'' s1)
      | InvalidFrame \<Rightarrow> Err ''Invalid translation result'')"

fun for_pages :: "(nat \<Rightarrow> 's \<Rightarrow> 's outcome) \<Rightarrow> nat list \<Rightarrow> 's \<Rightarrow> 's outcome" where
  "for_pages f [] s = Ok s"
| "for_pages f (p # ps) s = obind (f p s) (for_pages f ps)"

text \<open>Little-endian bytes, as \<open>to_le_bytes\<close> and a \<open>repr(C)\<close> structure of integers give them.\<close>

definition to_le_bytes :: "nat \<Rightarrow> 'a::len word \<Rightarrow> u8 list" where
  "to_le_bytes n w = map (\<lambda>i. ucast (drop_bit (8 * i) w)) [0..<n]"

lemma length_to_le_bytes [simp]: "length (to_le_bytes n w) = n"
  by (simp add: to_le_bytes_def)

definition write_bytes :: "nat \<Rightarrow> u8 list \<Rightarrow> (nat \<Rightarrow> u8) \<Rightarrow> nat \<Rightarrow> u8" where
  "write_bytes a bs mem = (\<lambda>b. if a \<le> b \<and> b < a + length bs then bs ! (b - a) else mem b)"

text \<open>
  The copy loop for one page. The zeroing of the rest of the segment is commented out in the
  source, so the loop ends with the copy.
\<close>

definition copy_page ::
  "('m, 'f) mapper \<Rightarrow> nat \<Rightarrow> u8 list \<Rightarrow> nat \<Rightarrow> nat \<Rightarrow> nat \<Rightarrow> nat \<Rightarrow> ('m, 'f) lstate \<Rightarrow> ('m, 'f) lstate outcome" where
  "copy_page M hhdm d file_offset seg_start file_end page s =
     (case translate M (ls_map s) page of
        Mapped fr fl \<Rightarrow>
          let dst_base = hhdm + fr;
              copy_start = max page seg_start;
              copy_end = min (page + 4096) file_end
          in if page < file_end \<and> copy_start < copy_end
             then let src_off = copy_start - seg_start; n = copy_end - copy_start
                  in if file_offset + src_off + n \<le> length d
                     then Ok (s\<lparr>ls_mem := write_bytes (dst_base + (copy_start - page))
                                  (take n (drop (file_offset + src_off) d)) (ls_mem s)\<rparr>)
                     else Panic ''range end index out of range for slice''
             else Ok s
      | _ \<Rightarrow> Err ''Failed to translate page for copy'')"

definition load_base_of :: "elf64_header \<Rightarrow> nat" where
  "load_base_of h = (if e_type h = ET_DYN then USER_CODE_BASE else 0)"

text \<open>
  The line that logs a segment computes its number of pages, which panics for an empty segment
  at the start of a page.
\<close>

definition load_segment ::
  "('m, 'f) mapper \<Rightarrow> 'f frame_alloc \<Rightarrow> nat \<Rightarrow> u8 list \<Rightarrow> elf64_header \<Rightarrow> program_header option \<Rightarrow>
   ('m, 'f) lstate \<Rightarrow> ('m, 'f) lstate outcome" where
  "load_segment M alloc hhdm d h oph s =
     (case oph of
        None \<Rightarrow> Panic ''read outside the module''
      | Some ph \<Rightarrow>
          if p_type ph \<noteq> PT_LOAD then Ok s
          else
            let file_offset = unat (p_offset ph); file_size = unat (p_filesz ph); mem_size = unat (p_memsz ph)
            in obind (virt M (load_base_of h + unat (p_vaddr ph))) (\<lambda>vaddr.
               obind (virt M (vaddr + mem_size)) (\<lambda>end_vaddr.
               if end_vaddr = 0 then Panic ''attempt to subtract with overflow''
               else obind (virt M (end_vaddr - 1)) (\<lambda>last_addr.
               let pages = page_range (page_of vaddr) (page_of last_addr)
               in if page_of last_addr < page_of vaddr then Panic ''attempt to subtract with overflow''
                  else obind (for_pages (map_segment_page M alloc (elf_flags_to_pt_flags ph)) pages s) (\<lambda>s1.
                  if vaddr + file_size \<ge> 2 ^ 64 then Panic ''attempt to add with overflow''
                  else for_pages (copy_page M hhdm d file_offset vaddr (vaddr + file_size)) pages s1)))))"

fun load_segments ::
  "('m, 'f) mapper \<Rightarrow> 'f frame_alloc \<Rightarrow> nat \<Rightarrow> u8 list \<Rightarrow> elf64_header \<Rightarrow> program_header option list \<Rightarrow>
   ('m, 'f) lstate \<Rightarrow> ('m, 'f) lstate outcome" where
  "load_segments M alloc hhdm d h [] s = Ok s"
| "load_segments M alloc hhdm d h (ph # phs) s =
     obind (load_segment M alloc hhdm d h ph s) (load_segments M alloc hhdm d h phs)"

record loaded_elf =
  le_entry :: nat
  le_stack_top :: nat

definition user_stack_pages :: "nat list" where
  "user_stack_pages = page_range (page_of (USER_STACK_TOP - USER_STACK_SIZE)) (page_of (USER_STACK_TOP - 1))"

definition load_elf ::
  "('m, 'f) mapper \<Rightarrow> 'f frame_alloc \<Rightarrow> nat \<Rightarrow> u8 list \<Rightarrow> ('m, 'f) lstate \<Rightarrow> (loaded_elf \<times> ('m, 'f) lstate) outcome" where
  "load_elf M alloc hhdm d s =
     (case elf_parse d of
        Panic e \<Rightarrow> Panic e
      | Err e \<Rightarrow> Err ''Failed to parse ELF''
      | Ok el \<Rightarrow>
          obind (for_pages (map_stack_page M alloc) user_stack_pages s) (\<lambda>s1.
          obind (load_segments M alloc hhdm d (elf_header el) (program_headers el) s1) (\<lambda>s2.
          obind (virt M (load_base_of (elf_header el) + unat (e_entry (elf_header el)))) (\<lambda>entry.
          Ok (\<lparr>le_entry = entry, le_stack_top = USER_STACK_TOP\<rparr>, s2)))))"

section \<open>What the mapper promises\<close>

definition USER_LIMIT :: nat where
  "USER_LIMIT = 0x800000000000"

definition is_page :: "nat \<Rightarrow> bool" where
  "is_page p \<longleftrightarrow> p mod 4096 = 0"

text \<open>
  The documented behaviour of the mapper: mapping fails for a page that is mapped already;
  otherwise it makes the page translate to the frame with
  the flags and leaves the translation of every other page; updating flags keeps the frame.
  Frames that \<open>map_to\<close> takes for page tables are in use afterwards.
\<close>

definition mapper_laws :: "('m, 'f) mapper \<Rightarrow> (nat set \<Rightarrow> 'f \<Rightarrow> bool) \<Rightarrow> bool" where
  "mapper_laws M taken \<longleftrightarrow>
     (\<forall>p fr fl m f m' f'. map_to M p fr fl (m, f) = Some (m', f') \<longrightarrow>
        (\<forall>gr gl. translate M m p \<noteq> Mapped gr gl) \<and> translate M m' p = Mapped fr fl \<and>
        (\<forall>q. is_page q \<longrightarrow> q \<noteq> p \<longrightarrow> translate M m' q = translate M m q) \<and>
        (\<forall>A. taken A f \<longrightarrow> (\<exists>B. A \<subseteq> B \<and> taken B f'))) \<and>
     (\<forall>p fl m m' fr old. update_flags M p fl m = Some m' \<longrightarrow> translate M m p = Mapped fr old \<longrightarrow>
        translate M m' p = Mapped fr fl \<and>
        (\<forall>q. is_page q \<longrightarrow> q \<noteq> p \<longrightarrow> translate M m' q = translate M m q))"

text \<open>Where a user address lies in the direct map, and what it reads.\<close>

definition phys :: "('m, 'f) mapper \<Rightarrow> nat \<Rightarrow> ('m, 'f) lstate \<Rightarrow> nat \<Rightarrow> nat option" where
  "phys M hhdm s v =
     (case translate M (ls_map s) (page_of v) of Mapped fr fl \<Rightarrow> Some (hhdm + fr + v mod 4096) | _ \<Rightarrow> None)"

definition view :: "('m, 'f) mapper \<Rightarrow> nat \<Rightarrow> ('m, 'f) lstate \<Rightarrow> nat \<Rightarrow> u8 option" where
  "view M hhdm s v = map_option (ls_mem s) (phys M hhdm s v)"

definition linv :: "('m, 'f) mapper \<Rightarrow> (nat set \<Rightarrow> 'f \<Rightarrow> bool) \<Rightarrow> ('m, 'f) lstate \<Rightarrow> bool" where
  "linv M taken s \<longleftrightarrow> (\<exists>A. taken A (ls_frames s) \<and>
     (\<forall>p fr fl. is_page p \<longrightarrow> p < USER_LIMIT \<longrightarrow> translate M (ls_map s) p = Mapped fr fl \<longrightarrow>
        fr \<in> A \<and> fr mod 4096 = 0)) \<and>
     (\<forall>p q fr fl fl'. is_page p \<longrightarrow> is_page q \<longrightarrow> p < USER_LIMIT \<longrightarrow> q < USER_LIMIT \<longrightarrow>
        translate M (ls_map s) p = Mapped fr fl \<longrightarrow> translate M (ls_map s) q = Mapped fr fl' \<longrightarrow> p = q)"

definition keeps :: "('m, 'f) mapper \<Rightarrow> ('m, 'f) lstate \<Rightarrow> ('m, 'f) lstate \<Rightarrow> bool" where
  "keeps M s s' \<longleftrightarrow> (\<forall>p fr fl. is_page p \<longrightarrow> p < USER_LIMIT \<longrightarrow> translate M (ls_map s) p = Mapped fr fl \<longrightarrow>
     (\<exists>fl'. translate M (ls_map s') p = Mapped fr fl' \<and> (pt_writable fl \<longrightarrow> pt_writable fl') \<and>
        (pt_no_execute fl' \<longrightarrow> pt_no_execute fl)))"

definition effect ::
  "('m, 'f) mapper \<Rightarrow> nat \<Rightarrow> (nat set \<Rightarrow> 'f \<Rightarrow> bool) \<Rightarrow> nat set \<Rightarrow> ('m, 'f) lstate \<Rightarrow> ('m, 'f) lstate \<Rightarrow> bool" where
  "effect M hhdm taken R s s' \<longleftrightarrow> linv M taken s' \<and> keeps M s s' \<and>
     (\<forall>a. ls_mem s' a \<noteq> ls_mem s a \<longrightarrow> (\<exists>v \<in> R. v < USER_LIMIT \<and> phys M hhdm s' v = Some a))"

lemma page_of_facts [simp]: "is_page (page_of v)" "page_of v \<le> v" "v < page_of v + 4096"
  "page_of v + v mod 4096 = v"
  by (auto simp: is_page_def page_of_def minus_mod_eq_mult_div)

lemma page_of_user: "v < USER_LIMIT \<Longrightarrow> page_of v < USER_LIMIT"
  by (rule le_less_trans [OF page_of_facts(2)])

lemma page_user_add:
  assumes "is_page p" "p < USER_LIMIT" "k < 4096"
  shows "p + k < USER_LIMIT"
proof -
  obtain j where j: "p = 4096 * j" using assms(1) by (auto simp: is_page_def dvd_def mod_eq_0_iff_dvd)
  then have "j < 0x800000000" using assms(2) by (simp add: USER_LIMIT_def)
  then have "j + 1 \<le> 0x800000000" by linarith
  then have "4096 * (j + 1) \<le> USER_LIMIT" by (simp add: USER_LIMIT_def)
  then show ?thesis using j assms(3) by simp
qed

lemma page_of_unique:
  assumes "is_page p" "p \<le> v" "v < p + 4096"
  shows "page_of v = p"
proof -
  obtain k where k: "p = 4096 * k" using assms(1) by (auto simp: is_page_def dvd_def mod_eq_0_iff_dvd)
  define r where "r = v - p"
  have "v = 4096 * k + r" "r < 4096" using assms k by (auto simp: r_def)
  then show ?thesis by (simp add: page_of_def k)
qed

lemma page_of_page [simp]: "is_page p \<Longrightarrow> page_of p = p"
  by (simp add: is_page_def page_of_def)

lemma phys_Some: "phys M hhdm s v = Some a \<longleftrightarrow>
    (\<exists>fr fl. translate M (ls_map s) (page_of v) = Mapped fr fl \<and> a = hhdm + fr + v mod 4096)"
  by (auto simp: phys_def split: translate_result.splits)

lemma phys_inj:
  assumes "linv M taken s" "v < USER_LIMIT" "w < USER_LIMIT" "phys M hhdm s v = Some a" "phys M hhdm s w = Some a"
  shows "v = w"
proof -
  obtain fr fl gr gl where t: "translate M (ls_map s) (page_of v) = Mapped fr fl" "a = hhdm + fr + v mod 4096"
    "translate M (ls_map s) (page_of w) = Mapped gr gl" "a = hhdm + gr + w mod 4096"
    using assms(4,5) unfolding phys_Some by blast
  have al: "fr mod 4096 = 0" "gr mod 4096 = 0"
    using assms(1) t(1,3) page_of_user [OF assms(2)] page_of_user [OF assms(3)]
    unfolding linv_def by (meson page_of_facts(1))+
  have eq: "fr + v mod 4096 = gr + w mod 4096" using t(2,4) by simp
  then have "(fr + v mod 4096) mod 4096 = (gr + w mod 4096) mod 4096" by simp
  then have off: "v mod 4096 = w mod 4096" using al by (simp add: mod_add_eq [symmetric])
  then have "fr = gr" using eq by simp
  then have "page_of v = page_of w"
    using assms(1) t(1,3) page_of_user [OF assms(2)] page_of_user [OF assms(3)]
    unfolding linv_def by (meson page_of_facts(1))
  then show ?thesis using off page_of_facts(4) by metis
qed

lemma keeps_refl [simp]: "keeps M s s"
  by (auto simp: keeps_def)

lemma keeps_trans: "keeps M s s' \<Longrightarrow> keeps M s' s'' \<Longrightarrow> keeps M s s''"
  unfolding keeps_def by meson

lemma keeps_page:
  assumes "keeps M s s'" "is_page p" "p < USER_LIMIT" "translate M (ls_map s) p = Mapped fr fl"
  obtains fl' where "translate M (ls_map s') p = Mapped fr fl'" "pt_writable fl \<longrightarrow> pt_writable fl'"
    "pt_no_execute fl' \<longrightarrow> pt_no_execute fl"
  using assms(1) [unfolded keeps_def, rule_format, OF assms(2-4)] by metis

lemma keeps_phys:
  assumes "keeps M s s'" "v < USER_LIMIT" "phys M hhdm s v = Some a"
  shows "phys M hhdm s' v = Some a"
proof -
  obtain fr fl where "translate M (ls_map s) (page_of v) = Mapped fr fl" "a = hhdm + fr + v mod 4096"
    using assms(3) unfolding phys_Some by blast
  with keeps_page [OF assms(1) page_of_facts(1) page_of_user [OF assms(2)]] show ?thesis
    unfolding phys_Some by metis
qed

lemma effect_refl: "linv M taken s \<Longrightarrow> effect M hhdm taken R s s"
  by (simp add: effect_def)

lemma effect_mono: "effect M hhdm taken R s s' \<Longrightarrow> R \<subseteq> Q \<Longrightarrow> effect M hhdm taken Q s s'"
  unfolding effect_def by blast

lemma effect_trans:
  assumes "effect M hhdm taken R s s'" "effect M hhdm taken R s' s''"
  shows "effect M hhdm taken R s s''"
  unfolding effect_def
proof (intro conjI allI impI)
  show "linv M taken s''" "keeps M s s''"
    using assms keeps_trans unfolding effect_def by blast+
  fix a
  assume "ls_mem s'' a \<noteq> ls_mem s a"
  then consider "ls_mem s'' a \<noteq> ls_mem s' a" | "ls_mem s' a \<noteq> ls_mem s a" by metis
  then show "\<exists>v \<in> R. v < USER_LIMIT \<and> phys M hhdm s'' v = Some a"
  proof cases
    case 1
    then show ?thesis using assms(2) by (simp add: effect_def)
  next
    case 2
    then show ?thesis using assms keeps_phys [of M s' s''] unfolding effect_def by meson
  qed
qed

lemma effect_view:
  assumes "effect M hhdm taken R s s'" "v < USER_LIMIT" "v \<notin> R" "phys M hhdm s v = Some a"
  shows "view M hhdm s' v = view M hhdm s v"
proof -
  have p: "phys M hhdm s' v = Some a" using assms keeps_phys unfolding effect_def by blast
  have "ls_mem s' a = ls_mem s a"
  proof (rule ccontr)
    assume "ls_mem s' a \<noteq> ls_mem s a"
    then obtain w where "w \<in> R" "w < USER_LIMIT" "phys M hhdm s' w = Some a"
      using assms(1) by (auto simp: effect_def)
    then show False using phys_inj [OF _ assms(2) _ p] assms(1,3) by (auto simp: effect_def)
  qed
  with p assms(4) show ?thesis by (simp add: view_def)
qed

section \<open>Steps of the loader over a frame source\<close>

lemma mapper_map:
  assumes "mapper_laws M taken" "map_to M p fr fl (m, f) = Some (m', f')"
  shows "translate M m p \<noteq> Mapped gr gl" "translate M m' p = Mapped fr fl"
    "is_page q \<Longrightarrow> q \<noteq> p \<Longrightarrow> translate M m' q = translate M m q"
    "taken A f \<Longrightarrow> \<exists>B. A \<subseteq> B \<and> taken B f'"
  using assms unfolding mapper_laws_def by metis+

lemma mapper_update:
  assumes "mapper_laws M taken" "update_flags M p fl m = Some m'" "translate M m p = Mapped fr old"
  shows "translate M m' p = Mapped fr fl" "is_page q \<Longrightarrow> q \<noteq> p \<Longrightarrow> translate M m' q = translate M m q"
  using assms unfolding mapper_laws_def by metis+

context frame_source
begin

lemma map_fresh_page:
  assumes laws: "mapper_laws M taken" and inv: "linv M taken s" and pg: "is_page page"
    and ff: "fresh_frame alloc msg s = Ok (fr, s1)" and dm: "do_map M page fr fl msg' s1 = Ok s'"
  shows "effect M hhdm taken R s s' \<and> translate M (ls_map s') page = Mapped fr fl"
proof -
  obtain f where f: "alloc (ls_frames s) = Inr (Some fr, f)" "s1 = s\<lparr>ls_frames := f\<rparr>"
    using ff by (auto simp: fresh_frame_def split: sum.splits prod.splits option.splits)
  obtain m' f' where m': "map_to M page fr fl (ls_map s, f) = Some (m', f')"
    "s' = s1\<lparr>ls_map := m', ls_frames := f'\<rparr>"
    using dm f(2) by (auto simp: do_map_def split: option.splits)
  obtain A where A: "taken A (ls_frames s)"
    "\<And>p fr fl. is_page p \<Longrightarrow> p < USER_LIMIT \<Longrightarrow> translate M (ls_map s) p = Mapped fr fl \<Longrightarrow> fr \<in> A \<and> fr mod 4096 = 0"
    using inv unfolding linv_def by metis
  have fr: "taken (insert fr A) f" "fr \<notin> A" "fr mod 4096 = 0" using alloc_fresh [OF A(1) f(1)] by auto
  note mm = mapper_map [OF laws m'(1)]
  obtain B where B: "insert fr A \<subseteq> B" "taken B f'" using mm(4) [OF fr(1)] by metis
  have s': "ls_map s' = m'" "ls_frames s' = f'" "ls_mem s' = ls_mem s" using m'(2) f(2) by simp_all
  have in_B: "gr \<in> B \<and> gr mod 4096 = 0"
    if "is_page p" "p < USER_LIMIT" "translate M m' p = Mapped gr gl" for p gr gl
    using that A(2) [of p gr gl] mm(2) mm(3) [of p] B(1) fr(3) by (cases "p = page") auto
  have inj: "p = q" if "is_page p" "is_page q" "p < USER_LIMIT" "q < USER_LIMIT"
    "translate M m' p = Mapped gr gl" "translate M m' q = Mapped gr hl" for p q gr gl hl
  proof -
    have old: "translate M (ls_map s) r = Mapped g l \<and> g \<noteq> fr"
      if "is_page r" "r < USER_LIMIT" "r \<noteq> page" "translate M m' r = Mapped g l" for r g l
      using that A(2) [of r g l] mm(3) [of r] fr(2) by auto
    have old_inj: "p = q" if "translate M (ls_map s) p = Mapped gr gl" "translate M (ls_map s) q = Mapped gr hl"
      using inv that \<open>is_page p\<close> \<open>is_page q\<close> \<open>p < USER_LIMIT\<close> \<open>q < USER_LIMIT\<close> unfolding linv_def by metis
    show ?thesis
      using that old [of p gr gl] old [of q gr hl] mm(2) old_inj
      by (cases "p = page"; cases "q = page") auto
  qed
  have "linv M taken s'"
    unfolding linv_def s' using B(2) in_B inj by blast
  moreover have "keeps M s s'"
    unfolding keeps_def s'
  proof (intro allI impI)
    fix p gr gl
    assume p: "is_page p" "p < USER_LIMIT" "translate M (ls_map s) p = Mapped gr gl"
    have "p \<noteq> page" using p(3) mm(1) by auto
    then show "\<exists>fl'. translate M m' p = Mapped gr fl' \<and> (pt_writable gl \<longrightarrow> pt_writable fl') \<and> (pt_no_execute fl' \<longrightarrow> pt_no_execute gl)"
      using p mm(3) [of p] by auto
  qed
  ultimately show ?thesis using mm(2) s' by (simp add: effect_def)
qed

lemma map_stack_page_effect:
  assumes "mapper_laws M taken" "linv M taken s" "is_page page" "map_stack_page M alloc page s = Ok s'"
  shows "effect M hhdm taken R s s'"
  using assms(4) map_fresh_page [OF assms(1-3)] by (auto simp: map_stack_page_def obind_Ok)

lemma map_segment_page_effect:
  assumes laws: "mapper_laws M taken" and inv: "linv M taken s" and pg: "is_page page"
    and ok: "map_segment_page M alloc desired page s = Ok s'"
  shows "effect M hhdm taken R s s' \<and> (\<exists>fr fl. translate M (ls_map s') page = Mapped fr fl \<and>
    (pt_writable desired \<longrightarrow> pt_writable fl) \<and> (pt_no_execute fl \<longrightarrow> pt_no_execute desired))"
proof (cases "translate M (ls_map s) page")
  case (Mapped fr old)
  show ?thesis
  proof (cases "upgraded desired old = old")
    case True
    then have "s' = s" "pt_writable desired \<longrightarrow> pt_writable old" "pt_no_execute old \<longrightarrow> pt_no_execute desired"
      using ok Mapped by (auto simp: map_segment_page_def upgraded_def dest: arg_cong [of _ _ pt_writable] arg_cong [of _ _ pt_no_execute])
    then show ?thesis using Mapped effect_refl [OF inv] by blast
  next
    case False
    obtain m' where m': "update_flags M page (upgraded desired old) (ls_map s) = Some m'" "s' = s\<lparr>ls_map := m'\<rparr>"
      using ok Mapped False by (auto simp: map_segment_page_def split: option.splits)
    note mu = mapper_update [OF laws m'(1) Mapped]
    have fwd: "\<exists>fl'. translate M m' p = Mapped gr fl' \<and> (p \<noteq> page \<longrightarrow> fl' = gl) \<and> (p = page \<longrightarrow> fl' = upgraded desired gl)"
      if "is_page p" "translate M (ls_map s) p = Mapped gr gl" for p gr gl
      using that mu Mapped by (cases "p = page") auto
    have bwd: "\<exists>gl'. translate M (ls_map s) p = Mapped gr gl'"
      if "is_page p" "translate M m' p = Mapped gr gl" for p gr gl
      using that mu Mapped by (cases "p = page") auto
    obtain A where A: "taken A (ls_frames s)"
      "\<And>p fr fl. is_page p \<Longrightarrow> p < USER_LIMIT \<Longrightarrow> translate M (ls_map s) p = Mapped fr fl \<Longrightarrow> fr \<in> A \<and> fr mod 4096 = 0"
      using inv unfolding linv_def by metis
    have in_A: "gr \<in> A \<and> gr mod 4096 = 0"
      if "is_page p" "p < USER_LIMIT" "translate M m' p = Mapped gr gl" for p gr gl
      using A(2) [OF that(1,2)] bwd [OF that(1,3)] by metis
    have inj: "p = q" if "is_page p" "is_page q" "p < USER_LIMIT" "q < USER_LIMIT"
      "translate M m' p = Mapped gr gl" "translate M m' q = Mapped gr hl" for p q gr gl hl
      using bwd [OF that(1,5)] bwd [OF that(2,6)] that(1-4) inv unfolding linv_def by metis
    have s': "ls_map s' = m'" "ls_frames s' = ls_frames s" using m'(2) by simp_all
    have "linv M taken s'"
      unfolding linv_def s' using A(1) in_A inj by blast
    moreover have "keeps M s s'"
      unfolding keeps_def s'
    proof (intro allI impI)
      fix p gr gl
      assume "is_page p" "translate M (ls_map s) p = Mapped gr gl"
      from fwd [OF this] show "\<exists>fl'. translate M m' p = Mapped gr fl' \<and> (pt_writable gl \<longrightarrow> pt_writable fl') \<and> (pt_no_execute fl' \<longrightarrow> pt_no_execute gl)"
        by (cases "p = page") (auto simp: upgraded_def)
    qed
    ultimately show ?thesis using mu(1) m'(2) by (auto simp: effect_def upgraded_def)
  qed
next
  case NotMapped
  then show ?thesis
    using ok map_fresh_page [OF laws inv pg] by (auto simp: map_segment_page_def obind_Ok split: if_splits)
next
  case InvalidFrame
  then show ?thesis using ok by (simp add: map_segment_page_def)
qed

end

section \<open>Copying\<close>

lemma for_pages_effect:
  assumes step: "\<And>p s s'. p \<in> set ps \<Longrightarrow> linv M taken s \<Longrightarrow> f p s = Ok s' \<Longrightarrow> effect M hhdm taken R s s'"
    and inv: "linv M taken s" and ok: "for_pages f ps s = Ok s'"
  shows "effect M hhdm taken R s s'"
  using assms
proof (induction ps arbitrary: s)
  case Nil
  then show ?case by (simp add: effect_refl)
next
  case (Cons p ps)
  obtain s1 where s1: "f p s = Ok s1" "for_pages f ps s1 = Ok s'" using Cons.prems(3) by (auto simp: obind_Ok)
  have e: "effect M hhdm taken R s s1" by (rule Cons.prems(1) [OF _ Cons.prems(2) s1(1)]) simp
  then have inv1: "linv M taken s1" by (simp add: effect_def)
  have "\<And>q s s'. q \<in> set ps \<Longrightarrow> linv M taken s \<Longrightarrow> f q s = Ok s' \<Longrightarrow> effect M hhdm taken R s s'"
    by (rule Cons.prems(1)) simp_all
  from Cons.IH [OF this inv1 s1(2)] have "effect M hhdm taken R s1 s'" .
  with e show ?case by (rule effect_trans)
qed

definition file_range :: "nat \<Rightarrow> nat \<Rightarrow> nat set" where
  "file_range seg_start file_end = {seg_start..<file_end}"

text \<open>One page: the bytes of the segment's file range that lie in the page are written, nothing else.\<close>

lemma copy_page_spec:
  assumes inv: "linv M taken s" and pg: "is_page page" "page < USER_LIMIT"
    and ok: "copy_page M hhdm d off a b page s = Ok s'"
  shows "effect M hhdm taken (file_range a b \<inter> {v. page_of v = page}) s s' \<and> ls_map s' = ls_map s \<and>
    (\<forall>v. v \<in> file_range a b \<longrightarrow> page_of v = page \<longrightarrow> view M hhdm s' v = Some (d ! (off + (v - a))))"
proof -
  obtain fr fl where tr: "translate M (ls_map s) page = Mapped fr fl"
    using ok by (auto simp: copy_page_def split: translate_result.splits)
  let ?lo = "max page a" and ?hi = "min (page + 4096) b"
  show ?thesis
  proof (cases "page < b \<and> ?lo < ?hi")
    case False
    then have "s' = s" using ok tr by (auto simp: copy_page_def Let_def split: if_splits)
    moreover have "\<not> (v \<in> file_range a b \<and> page_of v = page)" for v
      using False page_of_facts(2,3) [of v] by (auto simp del: page_of_facts simp: file_range_def)
    ultimately show ?thesis using effect_refl [OF inv] by auto
  next
    case True
    let ?n = "?hi - ?lo" and ?o = "off + (?lo - a)"
    define bs where "bs = take ?n (drop ?o d)"
    have s': "s' = s\<lparr>ls_mem := write_bytes (hhdm + fr + (?lo - page)) bs (ls_mem s)\<rparr>" and len: "?o + ?n \<le> length d"
      using ok tr True by (auto simp: copy_page_def Let_def bs_def split: if_splits)
    have "?n \<le> length d - ?o" using len by linarith
    then have lbs: "length bs = ?n" by (simp only: bs_def length_take length_drop min_absorb2)
    have map: "ls_map s' = ls_map s" "ls_frames s' = ls_frames s" by (simp_all add: s')
    have inv': "linv M taken s'" using inv unfolding linv_def map .
    have phys_in: "phys M hhdm s' (page + k) = Some (hhdm + fr + k)" if "k < 4096" for k
      using page_of_unique [OF pg(1), of "page + k"] that tr pg(1) by (auto simp: phys_Some map is_page_def)
    have ch: "\<exists>v \<in> file_range a b \<inter> {v. page_of v = page}. v < USER_LIMIT \<and> phys M hhdm s' v = Some c"
      if "ls_mem s' c \<noteq> ls_mem s c" for c
    proof -
      have c: "hhdm + fr + (?lo - page) \<le> c" "c < hhdm + fr + (?lo - page) + ?n"
        using that lbs by (auto simp: s' write_bytes_def split: if_splits)
      define k where "k = c - (hhdm + fr)"
      have k: "c = hhdm + fr + k" "?lo \<le> page + k" "page + k < ?hi" "k < 4096"
        using c True by (auto simp: k_def)
      have "page + k < USER_LIMIT"
        using pg k(4) by (rule page_user_add)
      then show ?thesis
        using k phys_in [OF k(4)] page_of_unique [OF pg(1), of "page + k"]
        by (intro bexI [of _ "page + k"]) (auto simp: file_range_def)
    qed
    have "view M hhdm s' v = Some (d ! (off + (v - a)))" if v: "v \<in> file_range a b" "page_of v = page" for v
    proof -
      define k where "k = v - page"
      have k: "v = page + k" "k < 4096" using page_of_facts(2,3) [of v] v(2) by (auto simp: k_def)
      have lo: "?lo \<le> v" "v < ?hi" using v(1) k by (auto simp: file_range_def)
      have "ls_mem s' (hhdm + fr + k) = bs ! (v - ?lo)"
        using lo k lbs by (auto simp: s' write_bytes_def add.commute intro!: arg_cong [of _ _ "(!) bs"])
      also have "\<dots> = d ! (?o + (v - ?lo))"
      proof -
        have "v - ?lo < ?n" "?o \<le> length d" using lo len by linarith+
        then show ?thesis unfolding bs_def by (simp only: nth_take nth_drop)
      qed
      also have "?o + (v - ?lo) = off + (v - a)" using lo by auto
      finally show ?thesis using phys_in [OF k(2)] k(1) by (simp add: view_def)
    qed
    moreover have "keeps M s s'" by (simp add: keeps_def map)
    ultimately show ?thesis using inv' ch map by (simp add: effect_def)
  qed
qed

lemma copy_pages_spec:
  assumes "linv M taken s" and "\<And>p. p \<in> set ps \<Longrightarrow> is_page p \<and> p < USER_LIMIT"
    and "for_pages (copy_page M hhdm d off a b) ps s = Ok s'"
  shows "effect M hhdm taken (file_range a b \<inter> {v. page_of v \<in> set ps}) s s' \<and> ls_map s' = ls_map s \<and>
    (\<forall>v. v \<in> file_range a b \<longrightarrow> page_of v \<in> set ps \<longrightarrow> v < USER_LIMIT \<longrightarrow> view M hhdm s' v = Some (d ! (off + (v - a))))"
  using assms
proof (induction ps arbitrary: s)
  case Nil
  then show ?case by (simp add: effect_refl)
next
  case (Cons p ps)
  let ?R = "\<lambda>ps. file_range a b \<inter> {v. page_of v \<in> set ps}"
  obtain s1 where s1: "copy_page M hhdm d off a b p s = Ok s1" "for_pages (copy_page M hhdm d off a b) ps s1 = Ok s'"
    using Cons.prems(3) by (auto simp: obind_Ok)
  have p: "is_page p" "p < USER_LIMIT" using Cons.prems(2) [of p] by simp_all
  have 1: "effect M hhdm taken (?R [p]) s s1" "ls_map s1 = ls_map s"
    "\<And>v. v \<in> file_range a b \<Longrightarrow> page_of v = p \<Longrightarrow> view M hhdm s1 v = Some (d ! (off + (v - a)))"
    using copy_page_spec [OF Cons.prems(1) p s1(1)] by simp_all
  have inv1: "linv M taken s1" using 1(1) by (simp add: effect_def)
  have ps: "\<And>q. q \<in> set ps \<Longrightarrow> is_page q \<and> q < USER_LIMIT" using Cons.prems(2) by simp
  note 2 = Cons.IH [OF inv1 ps s1(2)]
  have "effect M hhdm taken (?R (p # ps)) s s1" "effect M hhdm taken (?R (p # ps)) s1 s'"
    by (rule effect_mono [OF 1(1)], auto) (rule effect_mono, use 2 in auto)
  then have "effect M hhdm taken (?R (p # ps)) s s'" by (rule effect_trans)
  moreover have "view M hhdm s' v = Some (d ! (off + (v - a)))"
    if v: "v \<in> file_range a b" "page_of v \<in> set (p # ps)" "v < USER_LIMIT" for v
  proof (cases "page_of v \<in> set ps")
    case True
    then show ?thesis using 2 v by blast
  next
    case False
    then have vw: "view M hhdm s1 v = Some (d ! (off + (v - a)))" using 1(3) v by simp
    then obtain c where "phys M hhdm s1 v = Some c" by (auto simp: view_def)
    with effect_view [of M hhdm taken "?R ps" s1 s' v c] 2 False v(3) vw show ?thesis by simp
  qed
  ultimately show ?case using 1(2) 2 by simp
qed

context frame_source
begin

lemma map_pages_spec:
  assumes "mapper_laws M taken" and "linv M taken s" and "\<And>p. p \<in> set ps \<Longrightarrow> is_page p \<and> p < USER_LIMIT"
    and "for_pages (map_segment_page M alloc desired) ps s = Ok s'"
  shows "effect M hhdm taken {} s s' \<and> (\<forall>p \<in> set ps. \<exists>fr fl. translate M (ls_map s') p = Mapped fr fl \<and>
    (pt_writable desired \<longrightarrow> pt_writable fl) \<and> (pt_no_execute fl \<longrightarrow> pt_no_execute desired))"
  using assms(2-4)
proof (induction ps arbitrary: s)
  case Nil
  then show ?case by (simp add: effect_refl)
next
  case (Cons p ps)
  obtain s1 where s1: "map_segment_page M alloc desired p s = Ok s1" "for_pages (map_segment_page M alloc desired) ps s1 = Ok s'"
    using Cons.prems(3) by (auto simp: obind_Ok)
  have p: "is_page p" "p < USER_LIMIT" using Cons.prems(2) [of p] by simp_all
  obtain fr fl where 1: "effect M hhdm taken {} s s1" "translate M (ls_map s1) p = Mapped fr fl"
    "pt_writable desired \<longrightarrow> pt_writable fl" "pt_no_execute fl \<longrightarrow> pt_no_execute desired"
    using map_segment_page_effect [OF assms(1) Cons.prems(1) p(1) s1(1), of hhdm "{}"] by blast
  have inv1: "linv M taken s1" using 1(1) by (simp add: effect_def)
  have 2: "effect M hhdm taken {} s1 s'" "\<forall>p \<in> set ps. \<exists>fr fl. translate M (ls_map s') p = Mapped fr fl \<and>
    (pt_writable desired \<longrightarrow> pt_writable fl) \<and> (pt_no_execute fl \<longrightarrow> pt_no_execute desired)"
    using Cons.IH [OF inv1 _ s1(2)] Cons.prems(2) by simp_all
  have k: "keeps M s1 s'" using 2(1) by (simp add: effect_def)
  obtain fl' where "translate M (ls_map s') p = Mapped fr fl'" "pt_writable fl \<longrightarrow> pt_writable fl'"
    "pt_no_execute fl' \<longrightarrow> pt_no_execute fl"
    using keeps_page [OF k p 1(2)] .
  with 1(3,4) have "\<exists>fr fl. translate M (ls_map s') p = Mapped fr fl \<and>
    (pt_writable desired \<longrightarrow> pt_writable fl) \<and> (pt_no_execute fl \<longrightarrow> pt_no_execute desired)" by blast
  with effect_trans [OF 1(1) 2(1)] 2(2) show ?case by simp
qed

end

section \<open>Segments\<close>

definition seg_vaddr :: "elf64_header \<Rightarrow> program_header \<Rightarrow> nat" where
  "seg_vaddr h ph = load_base_of h + unat (p_vaddr ph)"

definition seg_file :: "elf64_header \<Rightarrow> program_header \<Rightarrow> nat set" where
  "seg_file h ph = (if p_type ph = PT_LOAD
     then file_range (seg_vaddr h ph) (seg_vaddr h ph + unat (p_filesz ph)) else {})"

text \<open>A loadable segment is in the user half and its file part fits its memory part.\<close>

definition seg_ok :: "elf64_header \<Rightarrow> program_header \<Rightarrow> bool" where
  "seg_ok h ph \<longleftrightarrow> (p_type ph = PT_LOAD \<longrightarrow>
     p_filesz ph \<le> p_memsz ph \<and> seg_vaddr h ph + unat (p_memsz ph) \<le> USER_LIMIT)"

lemma set_page_range:
  assumes "is_page lo" "is_page hi"
  shows "p \<in> set (page_range lo hi) \<longleftrightarrow> is_page p \<and> lo \<le> p \<and> p \<le> hi"
proof -
  obtain a b where ab: "lo = 4096 * a" "hi = 4096 * b"
    using assms by (auto simp: is_page_def dvd_def mod_eq_0_iff_dvd)
  have "p \<in> set (page_range lo hi) \<longleftrightarrow> (\<exists>i. a \<le> b \<and> i \<le> b - a \<and> p = 4096 * (a + i))"
    by (auto simp: page_range_def ab less_Suc_eq_le)
  also have "\<dots> \<longleftrightarrow> (\<exists>j. p = 4096 * j \<and> a \<le> j \<and> j \<le> b)"
  proof (intro iffI; elim exE conjE)
    fix i
    assume "a \<le> b" "i \<le> b - a" "p = 4096 * (a + i)"
    then show "\<exists>j. p = 4096 * j \<and> a \<le> j \<and> j \<le> b" by (intro exI [of _ "a + i"]) simp
  next
    fix j
    assume "p = 4096 * j" "a \<le> j" "j \<le> b"
    then show "\<exists>i. a \<le> b \<and> i \<le> b - a \<and> p = 4096 * (a + i)" by (intro exI [of _ "j - a"]) simp
  qed
  also have "\<dots> \<longleftrightarrow> is_page p \<and> lo \<le> p \<and> p \<le> hi"
    by (auto simp: is_page_def ab dvd_def mod_eq_0_iff_dvd)
  finally show ?thesis .
qed

lemma page_of_mono: "a \<le> b \<Longrightarrow> page_of a \<le> page_of b"
  by (simp add: page_of_def minus_mod_eq_mult_div div_le_mono)

context frame_source
begin

lemma load_segment_spec:
  assumes laws: "mapper_laws M taken" and inv: "linv M taken s" and ok: "load_segment M alloc hhdm d h (Some ph) s = Ok s'"
    and sg: "seg_ok h ph"
  shows "effect M hhdm taken (seg_file h ph) s s' \<and>
    (\<forall>v \<in> seg_file h ph. view M hhdm s' v = Some (d ! (unat (p_offset ph) + (v - seg_vaddr h ph)))) \<and>
    (\<forall>v. p_type ph = PT_LOAD \<longrightarrow> seg_vaddr h ph \<le> v \<longrightarrow> v < seg_vaddr h ph + unat (p_memsz ph) \<longrightarrow>
       (\<exists>fr fl. translate M (ls_map s') (page_of v) = Mapped fr fl \<and>
          (p_flags ph AND PF_W \<noteq> 0 \<longrightarrow> pt_writable fl) \<and> (p_flags ph AND PF_X \<noteq> 0 \<longrightarrow> \<not> pt_no_execute fl)))"
proof (cases "p_type ph = PT_LOAD")
  case False
  then show ?thesis using ok effect_refl [OF inv] by (simp add: load_segment_def seg_file_def)
next
  case True
  let ?a = "seg_vaddr h ph" and ?m = "unat (p_memsz ph)" and ?n = "unat (p_filesz ph)"
  let ?ps = "page_range (page_of ?a) (page_of (?a + ?m - 1))"
  obtain s1 where s1: "for_pages (map_segment_page M alloc (elf_flags_to_pt_flags ph)) ?ps s = Ok s1"
    "for_pages (copy_page M hhdm d (unat (p_offset ph)) ?a (?a + ?n)) ?ps s1 = Ok s'"
    using ok True by (auto simp: load_segment_def Let_def obind_Ok virt_def seg_vaddr_def split: if_splits)
  have lim: "?n \<le> ?m" "?a + ?m \<le> USER_LIMIT" using sg True by (auto simp: seg_ok_def word_le_nat_alt)
  have pages: "is_page p \<and> p < USER_LIMIT" if "p \<in> set ?ps" for p
  proof -
    have "is_page p" "p \<le> page_of (?a + ?m - 1)" using that by (simp_all add: set_page_range)
    moreover have "?a + ?m - 1 < USER_LIMIT" using lim(2) by (simp add: USER_LIMIT_def)
    then have "page_of (?a + ?m - 1) < USER_LIMIT" by (rule page_of_user)
    ultimately show ?thesis by simp
  qed
  have mem: "page_of v \<in> set ?ps \<and> v < USER_LIMIT" if "?a \<le> v" "v < ?a + ?m" for v
    using that lim(2) by (auto simp: set_page_range intro!: page_of_mono)
  obtain m: "effect M hhdm taken {} s s1" and mp: "\<forall>p \<in> set ?ps. \<exists>fr fl. translate M (ls_map s1) p = Mapped fr fl \<and>
    (pt_writable (elf_flags_to_pt_flags ph) \<longrightarrow> pt_writable fl) \<and> (pt_no_execute fl \<longrightarrow> pt_no_execute (elf_flags_to_pt_flags ph))"
    using map_pages_spec [OF laws inv pages s1(1)] by blast
  have inv1: "linv M taken s1" using m by (simp add: effect_def)
  have c: "effect M hhdm taken (file_range ?a (?a + ?n) \<inter> {v. page_of v \<in> set ?ps}) s1 s'" "ls_map s' = ls_map s1"
    "\<And>v. v \<in> file_range ?a (?a + ?n) \<Longrightarrow> page_of v \<in> set ?ps \<Longrightarrow> v < USER_LIMIT \<Longrightarrow>
      view M hhdm s' v = Some (d ! (unat (p_offset ph) + (v - ?a)))"
    using copy_pages_spec [OF inv1 pages s1(2)] by blast+
  have sf: "seg_file h ph = file_range ?a (?a + ?n)" using True by (simp add: seg_file_def)
  have "effect M hhdm taken (seg_file h ph) s s'"
    using effect_trans [OF effect_mono [OF m] effect_mono [OF c(1)]] sf by auto
  moreover have "view M hhdm s' v = Some (d ! (unat (p_offset ph) + (v - ?a)))" if "v \<in> seg_file h ph" for v
    using that c(3) [of v] mem [of v] lim(1) unfolding sf by (auto simp: file_range_def)
  moreover have "\<exists>fr fl. translate M (ls_map s') (page_of v) = Mapped fr fl \<and>
      (p_flags ph AND PF_W \<noteq> 0 \<longrightarrow> pt_writable fl) \<and> (p_flags ph AND PF_X \<noteq> 0 \<longrightarrow> \<not> pt_no_execute fl)"
    if "?a \<le> v" "v < ?a + ?m" for v
    using bspec [OF mp, of "page_of v"] mem [OF that] c(2) by (auto simp: elf_flags_to_pt_flags_def)
  ultimately show ?thesis by blast
qed

lemma load_segments_spec:
  assumes laws: "mapper_laws M taken" and inv: "linv M taken s" and ok: "load_segments M alloc hhdm d h phs s = Ok s'"
    and sg: "\<And>ph. Some ph \<in> set phs \<Longrightarrow> seg_ok h ph"
    and dis: "sorted_wrt (\<lambda>p q. \<forall>a b. p = Some a \<longrightarrow> q = Some b \<longrightarrow> seg_file h a \<inter> seg_file h b = {}) phs"
  shows "effect M hhdm taken (\<Union>ph \<in> {ph. Some ph \<in> set phs}. seg_file h ph) s s' \<and>
    (\<forall>ph v. Some ph \<in> set phs \<longrightarrow> v \<in> seg_file h ph \<longrightarrow>
       view M hhdm s' v = Some (d ! (unat (p_offset ph) + (v - seg_vaddr h ph)))) \<and>
    (\<forall>ph v. Some ph \<in> set phs \<longrightarrow> p_type ph = PT_LOAD \<longrightarrow> seg_vaddr h ph \<le> v \<longrightarrow>
       v < seg_vaddr h ph + unat (p_memsz ph) \<longrightarrow>
       (\<exists>fr fl. translate M (ls_map s') (page_of v) = Mapped fr fl \<and>
          (p_flags ph AND PF_W \<noteq> 0 \<longrightarrow> pt_writable fl) \<and> (p_flags ph AND PF_X \<noteq> 0 \<longrightarrow> \<not> pt_no_execute fl)))"
  using inv ok sg dis
proof (induction phs arbitrary: s)
  case Nil
  then show ?case by (simp add: effect_refl)
next
  case (Cons q phs)
  obtain s1 where s1: "load_segment M alloc hhdm d h q s = Ok s1" "load_segments M alloc hhdm d h phs s1 = Ok s'"
    using Cons.prems(2) by (auto simp: obind_Ok)
  obtain ph where q: "q = Some ph" using s1(1) by (cases q) (auto simp: load_segment_def)
  let ?U = "\<lambda>phs. \<Union>ph \<in> {ph. Some ph \<in> set phs}. seg_file h ph"
  have sgp: "seg_ok h ph" using Cons.prems(3) q by simp
  note 1 = load_segment_spec [OF laws Cons.prems(1) s1(1) [unfolded q] sgp]
  have inv1: "linv M taken s1" using 1 by (simp add: effect_def)
  have 2: "effect M hhdm taken (?U phs) s1 s'"
    "\<And>qh v. Some qh \<in> set phs \<Longrightarrow> v \<in> seg_file h qh \<Longrightarrow>
       view M hhdm s' v = Some (d ! (unat (p_offset qh) + (v - seg_vaddr h qh)))"
    "\<And>qh v. Some qh \<in> set phs \<Longrightarrow> p_type qh = PT_LOAD \<Longrightarrow> seg_vaddr h qh \<le> v \<Longrightarrow>
       v < seg_vaddr h qh + unat (p_memsz qh) \<Longrightarrow>
       \<exists>fr fl. translate M (ls_map s') (page_of v) = Mapped fr fl \<and>
          (p_flags qh AND PF_W \<noteq> 0 \<longrightarrow> pt_writable fl) \<and> (p_flags qh AND PF_X \<noteq> 0 \<longrightarrow> \<not> pt_no_execute fl)"
    using Cons.IH [OF inv1 s1(2)] Cons.prems(3,4) by auto
  have user: "v < USER_LIMIT" if "v \<in> seg_file h ph" for v
    using that sgp by (auto simp: seg_ok_def seg_file_def file_range_def word_le_nat_alt split: if_splits)
  have "effect M hhdm taken (?U (q # phs)) s s'"
    by (rule effect_trans [OF effect_mono [OF conjunct1 [OF 1]] effect_mono [OF 2(1)]]) (auto simp: q)
  moreover have "view M hhdm s' v = Some (d ! (unat (p_offset ph) + (v - seg_vaddr h ph)))" if v: "v \<in> seg_file h ph" for v
  proof -
    have vw: "view M hhdm s1 v = Some (d ! (unat (p_offset ph) + (v - seg_vaddr h ph)))" using 1 v by blast
    then obtain c where c: "phys M hhdm s1 v = Some c" by (auto simp: view_def)
    have "v \<notin> ?U phs" using Cons.prems(4) q v by fastforce
    from effect_view [OF 2(1) user [OF v] this c] vw show ?thesis by simp
  qed
  moreover have "\<exists>fr fl. translate M (ls_map s') (page_of v) = Mapped fr fl \<and>
      (p_flags ph AND PF_W \<noteq> 0 \<longrightarrow> pt_writable fl) \<and> (p_flags ph AND PF_X \<noteq> 0 \<longrightarrow> \<not> pt_no_execute fl)"
    if v: "p_type ph = PT_LOAD" "seg_vaddr h ph \<le> v" "v < seg_vaddr h ph + unat (p_memsz ph)" for v
  proof -
    obtain fr fl where t: "translate M (ls_map s1) (page_of v) = Mapped fr fl"
      "p_flags ph AND PF_W \<noteq> 0 \<longrightarrow> pt_writable fl" "p_flags ph AND PF_X \<noteq> 0 \<longrightarrow> \<not> pt_no_execute fl"
      using 1 v by blast
    have "v < USER_LIMIT" using v sgp by (simp add: seg_ok_def)
    moreover have "keeps M s1 s'" using 2(1) by (simp add: effect_def)
    ultimately obtain fl' where "translate M (ls_map s') (page_of v) = Mapped fr fl'"
      "pt_writable fl \<longrightarrow> pt_writable fl'" "pt_no_execute fl' \<longrightarrow> pt_no_execute fl"
      using keeps_page [OF _ page_of_facts(1) page_of_user t(1)] by metis
    with t show ?thesis by blast
  qed
  ultimately show ?case using 2(2,3) unfolding q by auto
qed

lemma user_stack_page: "p \<in> set user_stack_pages \<Longrightarrow> is_page p \<and> p < USER_LIMIT"
proof -
  assume "p \<in> set user_stack_pages"
  then have "is_page p" "p \<le> page_of (USER_STACK_TOP - 1)" by (simp_all add: user_stack_pages_def set_page_range)
  moreover have "page_of (USER_STACK_TOP - 1) < USER_LIMIT"
    by (rule page_of_user) (simp add: USER_STACK_TOP_def USER_LIMIT_def)
  ultimately show ?thesis by simp
qed

lemma map_stack_spec:
  assumes laws: "mapper_laws M taken" and "linv M taken s" and "\<And>p. p \<in> set ps \<Longrightarrow> is_page p \<and> p < USER_LIMIT"
    and "for_pages (map_stack_page M alloc) ps s = Ok s'"
  shows "effect M hhdm taken {} s s' \<and>
    (\<forall>p \<in> set ps. \<exists>fr fl. translate M (ls_map s') p = Mapped fr fl \<and> pt_writable fl)"
  using assms(2-4)
proof (induction ps arbitrary: s)
  case Nil
  then show ?case by (simp add: effect_refl)
next
  case (Cons p ps)
  obtain s1 where s1: "map_stack_page M alloc p s = Ok s1" "for_pages (map_stack_page M alloc) ps s1 = Ok s'"
    using Cons.prems(3) by (auto simp: obind_Ok)
  have p: "is_page p" "p < USER_LIMIT" using Cons.prems(2) [of p] by simp_all
  obtain fr fl where 1: "effect M hhdm taken {} s s1" "translate M (ls_map s1) p = Mapped fr fl" "pt_writable fl"
    using s1(1) map_fresh_page [OF laws Cons.prems(1) p(1), of _ _ _ _ _ s1 hhdm "{}"]
    by (fastforce simp: map_stack_page_def obind_Ok)
  have inv1: "linv M taken s1" using 1(1) by (simp add: effect_def)
  have 2: "effect M hhdm taken {} s1 s'"
    "\<forall>p \<in> set ps. \<exists>fr fl. translate M (ls_map s') p = Mapped fr fl \<and> pt_writable fl"
    using Cons.IH [OF inv1 _ s1(2)] Cons.prems(2) by simp_all
  have "keeps M s1 s'" using 2(1) by (simp add: effect_def)
  then obtain fl' where "translate M (ls_map s') p = Mapped fr fl'" "pt_writable fl'"
    using keeps_page [OF _ p 1(2)] 1(3) by metis
  with effect_trans [OF 1(1) 2(1)] 2(2) show ?case by auto
qed

lemma load_elf_spec:
  assumes laws: "mapper_laws M taken" and inv: "linv M taken s"
    and p: "elf_parse d = Ok el" and ok: "load_elf M alloc hhdm d s = Ok (le, s')"
    and sg: "\<forall>ph. Some ph \<in> set (program_headers el) \<longrightarrow> seg_ok (elf_header el) ph"
    and dis: "sorted_wrt (\<lambda>p q. \<forall>a b. p = Some a \<longrightarrow> q = Some b \<longrightarrow>
      seg_file (elf_header el) a \<inter> seg_file (elf_header el) b = {}) (program_headers el)"
  shows "effect M hhdm taken (\<Union>ph \<in> {ph. Some ph \<in> set (program_headers el)}. seg_file (elf_header el) ph) s s'"
    "\<And>ph v. Some ph \<in> set (program_headers el) \<Longrightarrow> v \<in> seg_file (elf_header el) ph \<Longrightarrow>
       view M hhdm s' v = Some (d ! (unat (p_offset ph) + (v - seg_vaddr (elf_header el) ph)))"
    "\<And>ph v. Some ph \<in> set (program_headers el) \<Longrightarrow> p_type ph = PT_LOAD \<Longrightarrow> seg_vaddr (elf_header el) ph \<le> v \<Longrightarrow>
       v < seg_vaddr (elf_header el) ph + unat (p_memsz ph) \<Longrightarrow>
       \<exists>fr fl. translate M (ls_map s') (page_of v) = Mapped fr fl \<and>
          (p_flags ph AND PF_W \<noteq> 0 \<longrightarrow> pt_writable fl) \<and> (p_flags ph AND PF_X \<noteq> 0 \<longrightarrow> \<not> pt_no_execute fl)"
    "le_entry le = load_base_of (elf_header el) + unat (e_entry (elf_header el)) \<and> le_stack_top le = USER_STACK_TOP"
    "\<And>p. p \<in> set user_stack_pages \<Longrightarrow> \<exists>fr fl. translate M (ls_map s') p = Mapped fr fl \<and> pt_writable fl"
proof -
  let ?h = "elf_header el"
  obtain s1 where s1: "for_pages (map_stack_page M alloc) user_stack_pages s = Ok s1"
    "load_segments M alloc hhdm d ?h (program_headers el) s1 = Ok s'"
    and le: "le = \<lparr>le_entry = load_base_of ?h + unat (e_entry ?h), le_stack_top = USER_STACK_TOP\<rparr>"
    using ok p by (auto simp: load_elf_def obind_Ok virt_def split: if_splits)
  have e1: "effect M hhdm taken {} s s1"
    and st: "\<forall>p \<in> set user_stack_pages. \<exists>fr fl. translate M (ls_map s1) p = Mapped fr fl \<and> pt_writable fl"
    using map_stack_spec [OF laws inv user_stack_page s1(1)] by blast+
  then have inv1: "linv M taken s1" by (simp add: effect_def)
  note sp = load_segments_spec [OF laws inv1 s1(2) sg [rule_format] dis]
  show "effect M hhdm taken (\<Union>ph \<in> {ph. Some ph \<in> set (program_headers el)}. seg_file ?h ph) s s'"
    by (rule effect_trans [OF effect_mono [OF e1] conjunct1 [OF sp]]) simp
  show "view M hhdm s' v = Some (d ! (unat (p_offset ph) + (v - seg_vaddr ?h ph)))"
    if "Some ph \<in> set (program_headers el)" "v \<in> seg_file ?h ph" for ph v
    using sp that by blast
  show "\<exists>fr fl. translate M (ls_map s') (page_of v) = Mapped fr fl \<and>
      (p_flags ph AND PF_W \<noteq> 0 \<longrightarrow> pt_writable fl) \<and> (p_flags ph AND PF_X \<noteq> 0 \<longrightarrow> \<not> pt_no_execute fl)"
    if "Some ph \<in> set (program_headers el)" "p_type ph = PT_LOAD" "seg_vaddr ?h ph \<le> v"
      "v < seg_vaddr ?h ph + unat (p_memsz ph)" for ph v
    using sp that by blast
  show "le_entry le = load_base_of ?h + unat (e_entry ?h) \<and> le_stack_top le = USER_STACK_TOP"
    by (simp add: le)
  show "\<exists>fr fl. translate M (ls_map s') p = Mapped fr fl \<and> pt_writable fl" if p: "p \<in> set user_stack_pages" for p
  proof -
    obtain fr fl where t: "translate M (ls_map s1) p = Mapped fr fl" "pt_writable fl" using st p by blast
    have "keeps M s1 s'" using sp by (simp add: effect_def)
    with keeps_page [of M s1 s' p fr fl] user_stack_page [OF p] t show ?thesis by metis
  qed
qed

end

section \<open>Properties\<close>


definition demo_elf :: "u8 list" where
  "demo_elf =
     [0x7f, 0x45, 0x4c, 0x46, 2, 0, 0, 0, 0, 0, 0, 0, 0, 0, 0, 0,
      2, 0, 0x3e, 0, 1, 0, 0, 0, 0, 0, 0x40, 0, 0, 0, 0, 0, 64, 0, 0, 0, 0, 0, 0, 0,
      0, 0, 0, 0, 0, 0, 0, 0, 0, 0, 0, 0, 64, 0, 56, 0, 1, 0, 0, 0, 0, 0, 0, 0,
      1, 0, 0, 0, 5, 0, 0, 0, 120, 0, 0, 0, 0, 0, 0, 0, 0, 0, 0x40, 0, 0, 0, 0, 0,
      0, 0, 0, 0, 0, 0, 0, 0, 2, 0, 0, 0, 0, 0, 0, 0, 4, 0, 0, 0, 0, 0, 0, 0, 0, 0x10, 0, 0, 0, 0, 0, 0,
      0xde, 0xad]"

definition demo_ph :: program_header where
  "demo_ph = \<lparr>p_type = 1, p_flags = 5, p_offset = 120, p_vaddr = 0x400000, p_paddr = 0, p_filesz = 2, p_memsz = 4, p_align = 0x1000\<rparr>"

definition demo_mapper :: "(nat \<rightharpoonup> nat \<times> pt_flags, boot_frame_allocator \<times> sanity_capture) mapper" where
  "demo_mapper =
     \<lparr>translate = (\<lambda>m p. case m p of None \<Rightarrow> NotMapped | Some (fr, fl) \<Rightarrow> Mapped fr fl),
      map_to = (\<lambda>p fr fl (m, f). if m p = None then Some (m(p \<mapsto> (fr, fl)), f) else None),
      update_flags = (\<lambda>p fl m. case m p of None \<Rightarrow> None | Some (fr, _) \<Rightarrow> Some (m(p \<mapsto> (fr, fl)))),
      virt_ok = (\<lambda>a. True)\<rparr>"

definition demo_at :: "nat \<Rightarrow> (nat \<rightharpoonup> nat \<times> pt_flags) \<Rightarrow> (nat \<Rightarrow> u8) \<Rightarrow>
    (nat \<rightharpoonup> nat \<times> pt_flags, boot_frame_allocator \<times> sanity_capture) lstate" where
  "demo_at n m mem = \<lparr>ls_map = m,
     ls_frames = (\<lparr>usable_ranges = [(0x5000000, 0x6000000)], current_range = 0, bfa_next = 0x5000000 + 4096 * n\<rparr>,
                  \<lparr>sc_frames = replicate 8 0, sc_logged = True\<rparr>),
     ls_mem = mem\<rparr>"

definition demo_lstate :: "(nat \<rightharpoonup> nat \<times> pt_flags, boot_frame_allocator \<times> sanity_capture) lstate" where
  "demo_lstate = demo_at 0 Map.empty (\<lambda>_. 0xff)"

lemma demo_elf_parse: "\<exists>h. elf_parse demo_elf = Ok \<lparr>elf_header = h, program_headers = [Some demo_ph]\<rparr> \<and> e_type h = 2 \<and> e_entry h = 0x400000"
  by (simp add: elf_parse_def demo_elf_def ELF_HEADER_SIZE_def read_elf_header_def read_le_def PROGRAM_HEADER_SIZE_def
      read_program_header_def demo_ph_def Let_def)

lemma demo_mapper_laws: "mapper_laws demo_mapper bfa_taken"
  by (auto simp: mapper_laws_def demo_mapper_def split: option.splits if_splits)

lemma demo_linv: "linv demo_mapper bfa_taken demo_lstate"
  by (auto simp: linv_def demo_mapper_def demo_lstate_def demo_at_def bfa_taken_def bfa_inv_def intro!: exI [of _ "{}"])

lemma demo_fresh:
  assumes "n < 4096"
  shows "fresh_frame (allocate_frame None) msg (demo_at n m mem) = Ok (0x5000000 + 4096 * n, demo_at (Suc n) m mem)"
proof -
  have al: "align_down (0x5000000 + 4096 * n + 0xFFF) = 0x5000000 + 4096 * n"
  proof -
    have "(0x5000000 + 4096 * n + 0xFFF) mod 0x1000 = (4096 * (0x5000 + n) + 0xFFF) mod 4096" by simp
    also have "\<dots> = 0xFFF" by (simp only: mod_mult_self4) simp
    finally show ?thesis by (simp add: align_down_def)
  qed
  have md: "(0x5000000 + 4096 * n) mod 0x1000 = 0"
  proof -
    have "(0x5000000 + 4096 * n) = 4096 * (0x5000 + n)" by simp
    then show ?thesis by (simp only: mod_mult_self1_is_0)
  qed
  show ?thesis
    using assms al md
    by (simp add: fresh_frame_def demo_at_def allocate_frame_def allocate_frame_internal.simps Let_def check_reserved_ranges_def
        in_rng_def forbidden_start_def forbidden_end_def collision_start_def sanity_record_def SANITY_DUMP_COUNT_def)
qed

lemma demo_translate:
  "translate demo_mapper (ls_map (demo_at n m mem)) p = (case m p of None \<Rightarrow> NotMapped | Some (fr, fl) \<Rightarrow> Mapped fr fl)"
  by (simp add: demo_mapper_def demo_at_def)

lemma demo_do_map:
  "m p = None \<Longrightarrow> do_map demo_mapper p fr fl msg (demo_at n m mem) = Ok (demo_at n (m(p \<mapsto> (fr, fl))) mem)"
  by (simp add: do_map_def demo_at_def demo_mapper_def)

lemma demo_stack:
  assumes "distinct ps" "\<forall>p \<in> set ps. m p = None" "n + length ps \<le> 4096"
  shows "\<exists>m'. for_pages (map_stack_page demo_mapper (allocate_frame None)) ps (demo_at n m mem) = Ok (demo_at (n + length ps) m' mem) \<and>
    (\<forall>q. q \<notin> set ps \<longrightarrow> m' q = m q)"
  using assms
proof (induction ps arbitrary: n m)
  case Nil
  show ?case by (intro exI [of _ m]) simp
next
  case (Cons p ps)
  let ?m = "m(p \<mapsto> (0x5000000 + 4096 * n, \<lparr>pt_writable = True, pt_no_execute = False\<rparr>))"
  have "map_stack_page demo_mapper (allocate_frame None) p (demo_at n m mem) = Ok (demo_at (Suc n) ?m mem)"
    using Cons.prems by (simp add: map_stack_page_def demo_fresh demo_do_map)
  moreover obtain m' where "for_pages (map_stack_page demo_mapper (allocate_frame None)) ps (demo_at (Suc n) ?m mem) =
      Ok (demo_at (Suc n + length ps) m' mem)" "\<forall>q. q \<notin> set ps \<longrightarrow> m' q = ?m q"
  proof -
    have d: "distinct ps" "\<forall>q \<in> set ps. ?m q = None" "Suc n + length ps \<le> 4096" using Cons.prems by auto
    show ?thesis using that Cons.IH [OF d] by blast
  qed
  ultimately show ?case by auto
qed

lemma demo_load:
  assumes "n < 4000"
  shows "\<exists>le s'. load_elf demo_mapper (allocate_frame None) 0 demo_elf (demo_at n Map.empty mem) = Ok (le, s')"
proof -
  obtain h where h: "elf_parse demo_elf = Ok \<lparr>elf_header = h, program_headers = [Some demo_ph]\<rparr>" "e_type h = 2" "e_entry h = 0x400000"
    using demo_elf_parse by blast
  have pages: "user_stack_pages = map (\<lambda>i. 0x6fffffff0000 + 4096 * i) [0..<16]"
    by (simp add: user_stack_pages_def page_range_def page_of_def USER_STACK_TOP_def USER_STACK_SIZE_def)
  have "distinct user_stack_pages" unfolding pages by (simp add: distinct_map inj_on_def)
  then obtain m where m: "for_pages (map_stack_page demo_mapper (allocate_frame None)) user_stack_pages (demo_at n Map.empty mem) = Ok (demo_at (n + 16) m mem)"
    "\<forall>q. q \<notin> set user_stack_pages \<longrightarrow> m q = None"
    using demo_stack [of user_stack_pages Map.empty n mem] assms by (auto simp: pages)
  have "0x400000 \<notin> set user_stack_pages" by (auto simp: pages)
  then have m4: "m 0x400000 = None" using m(2) by blast
  let ?fl = "elf_flags_to_pt_flags demo_ph"
  have mp: "map_segment_page demo_mapper (allocate_frame None) ?fl 0x400000 (demo_at (n + 16) m mem) =
      Ok (demo_at (Suc (n + 16)) (m(0x400000 \<mapsto> (0x5000000 + 4096 * (n + 16), ?fl))) mem)"
    using m4 assms by (simp add: map_segment_page_def demo_translate demo_fresh demo_do_map)
  have ln: "length demo_elf = 122" by (simp add: demo_elf_def)
  have cp: "\<exists>s'. copy_page demo_mapper 0 demo_elf 120 0x400000 0x400002 0x400000
      (demo_at (Suc (n + 16)) (m(0x400000 \<mapsto> (0x5000000 + 4096 * (n + 16), ?fl))) mem) = Ok s'"
    by (simp add: copy_page_def demo_mapper_def demo_at_def ln)
  have pg: "page_range (page_of 0x400000) (page_of 0x400003) = [0x400000]"
    by (simp add: page_range_def page_of_def)
  have le: "\<not> page_of 0x400003 < page_of 0x400000" by (simp add: page_of_def)
  have v: "virt demo_mapper a = Ok a" if "a < 2 ^ 64" for a using that by (simp add: virt_def demo_mapper_def)
  have fields: "p_type demo_ph = PT_LOAD" "unat (p_offset demo_ph) = 120" "unat (p_vaddr demo_ph) = 0x400000"
    "unat (p_filesz demo_ph) = 2" "unat (p_memsz demo_ph) = 4" by (simp_all add: demo_ph_def PT_LOAD_def)
  have base: "load_base_of h = 0" using h(2) by (simp add: load_base_of_def ET_DYN_def)
  obtain s' where "load_segment demo_mapper (allocate_frame None) 0 demo_elf h (Some demo_ph) (demo_at (n + 16) m mem) = Ok s'"
    using mp cp by (auto simp: load_segment_def fields base v pg le Let_def)
  then show ?thesis by (simp add: load_elf_def h m(1) v base)
qed


text \<open>
  What the parser accepts. It returns an executable exactly for files that hold the header,
  the magic number, the 64-bit class and \<open>e_phnum\<close> entries of \<open>e_phentsize\<close> bytes; it panics
  only when the end of the table is beyond the address space. All program headers of an accepted
  file lie inside it when the entries have at least the size the kernel reads; for smaller
  entries, which the parser does not reject, some may lie outside.
\<close>

theorem elf_parse_in_bounds:
  "((\<exists>el. elf_parse d = Ok el) \<longleftrightarrow>
     64 \<le> length d \<and> take 5 d = [0x7f, 0x45, 0x4c, 0x46, 2] \<and>
     (let h = read_elf_header d; table_end = unat (e_phoff h) + unat (e_phnum h) * unat (e_phentsize h)
      in table_end \<le> length d \<and> table_end < 2 ^ 64)) \<and>
   (\<forall>el. elf_parse d = Ok el \<longrightarrow> elf_header el = read_elf_header d \<and>
      length (program_headers el) = unat (e_phnum (read_elf_header d)) \<and>
      (56 \<le> e_phentsize (read_elf_header d) \<longrightarrow> None \<notin> set (program_headers el)))"
proof -
  let ?h = "read_elf_header d"
  have five: "take 5 d = [a, b, c, e, f] \<longleftrightarrow> d ! 0 = a \<and> d ! 1 = b \<and> d ! 2 = c \<and> d ! 3 = e \<and> d ! 4 = f"
    if "64 \<le> length d" for a b c e f
    using that by (auto simp: list_eq_iff_nth_eq less_Suc_eq numeral_eq_Suc)
  have id: "e_ident ?h ! i = d ! i" if "i < 16" for i using that by (simp add: read_elf_header_def)
  have inb: "None \<notin> set (map (\<lambda>i. read_program_header d (ofs + i * PROGRAM_HEADER_SIZE)) [0..<n])"
    if "ofs + n * k \<le> length d" "56 \<le> k" for ofs n k
  proof -
    have "ofs + i * 56 + 56 \<le> length d" if "i < n" for i
    proof -
      have "(i + 1) * 56 \<le> n * k" using \<open>i < n\<close> \<open>56 \<le> k\<close> by (intro mult_le_mono) auto
      then show ?thesis using \<open>ofs + n * k \<le> length d\<close> by simp
    qed
    then show ?thesis by (auto simp: read_program_header_def PROGRAM_HEADER_SIZE_def)
  qed
  show ?thesis
    using five [of "0x7f" "0x45" "0x4c" "0x46" 2] inb [of "unat (e_phoff ?h)" "unat (e_phnum ?h)" "unat (e_phentsize ?h)"]
    by (auto simp: elf_parse_def ELF_HEADER_SIZE_def id Let_def word_le_nat_alt split: if_splits)
qed

theorem elf_parse_in_bounds_witness:
  "\<exists>el. elf_parse demo_elf = Ok el \<and> length (program_headers el) = 1 \<and> None \<notin> set (program_headers el)"
proof -
  obtain el where el: "elf_parse demo_elf = Ok el" using demo_elf_parse by blast
  have "e_phnum (read_elf_header demo_elf) = 1" "e_phentsize (read_elf_header demo_elf) = 56"
    by (simp_all add: demo_elf_def read_elf_header_def read_le_def)
  with el elf_parse_in_bounds [of demo_elf] show ?thesis by auto
qed

text \<open>An accepted file whose only program header lies outside the file: its entry size is zero.\<close>

lemma elf_parse_reads_outside:
  "\<exists>d el. elf_parse d = Ok el \<and> program_headers el = [None]"
proof -
  let ?d = "take 54 demo_elf @ [0, 0] @ take 8 (drop 56 demo_elf)"
  have "elf_parse ?d = Ok \<lparr>elf_header = read_elf_header ?d, program_headers = [None]\<rparr>"
    by (simp add: elf_parse_def demo_elf_def ELF_HEADER_SIZE_def read_elf_header_def read_le_def PROGRAM_HEADER_SIZE_def
        read_program_header_def Let_def)
  then show ?thesis by (metis elf.select_convs(2))
qed

end
