(* ===== verification/Tasks.thy ===== *)
theory Tasks
  imports Graph_Api Elf
begin

unbundle bit_operations_syntax

text \<open>
  Tasks and the scheduler (\<open>src/kernel/src/task/context.rs\<close>, \<open>scheduler.rs\<close>,
  \<open>runtime.rs\<close>): saved contexts, task stacks, round-robin selection and the context switch of
  the timer interrupt. The global \<open>CURRENT_TASK\<close> is a raw pointer into the vector of tasks; it
  is kept as the allocation of the vector it points into and the index there, so that a pointer
  left behind by a reallocation is visible as such.
\<close>

section \<open>Contexts\<close>

datatype task_mode = KernelMode | UserMode

record general_registers =
  r15 :: u64
  r14 :: u64
  r13 :: u64
  r12 :: u64
  r11 :: u64
  r10 :: u64
  r9 :: u64
  r8 :: u64
  rsi :: u64
  rdi :: u64
  rbp :: u64
  rdx :: u64
  rcx :: u64
  rbx :: u64
  rax :: u64

record iret_frame =
  rip :: u64
  cs :: u64
  rflags :: u64
  rsp :: u64
  ss :: u64

record full_context =
  regs :: general_registers
  frame :: iret_frame

record selectors =
  sel_code :: u16
  sel_data :: u16
  sel_user_code :: u16
  sel_user_data :: u16

definition zero_registers :: general_registers where
  "zero_registers =
     \<lparr>r15 = 0, r14 = 0, r13 = 0, r12 = 0, r11 = 0, r10 = 0, r9 = 0, r8 = 0, rsi = 0, rdi = 0, rbp = 0,
      rdx = 0, rcx = 0, rbx = 0, rax = 0\<rparr>"

definition zero_context :: full_context where
  "zero_context = \<lparr>regs = zero_registers, frame = \<lparr>rip = 0, cs = 0, rflags = 0, rsp = 0, ss = 0\<rparr>\<rparr>"

text \<open>\<open>gdt\<close> is the global \<open>SELECTORS\<close>, absent before the descriptor table is loaded.\<close>

definition prepare_context :: "selectors option \<Rightarrow> u64 \<Rightarrow> u64 \<Rightarrow> task_mode \<Rightarrow> full_context panics" where
  "prepare_context gdt entry stack_top mode =
     (case gdt of
        None \<Rightarrow> Inl ''GDT not initialized''
      | Some s \<Rightarrow>
          let kernel_cs = ucast (sel_code s AND NOT 3) :: u64;
              kernel_ss = ucast (sel_data s AND NOT 3) :: u64;
              user_cs = ucast (sel_user_code s OR 3) :: u64;
              user_ss = ucast (sel_user_data s OR 3) :: u64;
              (c, d, fl) = (case mode of
                 KernelMode \<Rightarrow> (kernel_cs, kernel_ss, 0x2)
               | UserMode \<Rightarrow> (user_cs, user_ss, 0x202))
          in Inr \<lparr>regs = zero_registers,
                  frame = \<lparr>rip = entry, cs = c, rflags = fl, rsp = stack_top, ss = d\<rparr>\<rparr>)"

section \<open>Tasks\<close>

definition KERNEL_STACK_REGION_BASE :: nat where
  "KERNEL_STACK_REGION_BASE = 0xFFFF880010000000"

definition KERNEL_HEAP_START :: nat where
  "KERNEL_HEAP_START = 0xFFFFA00000000000"

definition STACK_PAGES :: nat where
  "STACK_PAGES = 256"

definition STACK_SIZE :: nat where
  "STACK_SIZE = 4096 * STACK_PAGES"

definition MAGIC :: u64 where
  "MAGIC = 0x5441534B5F4D4147"

record task =
  entry_point :: u64
  stack_top :: u64
  task_context :: full_context
  initialized :: bool
  task_mode_of :: task_mode
  task_bundle :: bundle_id
  task_cr3 :: u64
  task_magic :: u64

text \<open>The base is computed in \<open>u64\<close>; beyond the word the kernel panics.\<close>

definition stack_base_for_task :: "nat \<Rightarrow> nat panics" where
  "stack_base_for_task index =
     (let base = KERNEL_STACK_REGION_BASE + index * STACK_SIZE
      in if base + STACK_SIZE < 2 ^ 64 then Inr base else Inl ''attempt to add with overflow'')"

text \<open>
  The page mapper and the frame allocator are parameters: \<open>alloc\<close> yields a frame, \<open>map_page\<close>
  maps a page to it and may itself allocate; \<open>None\<close> is its error. Each new page is tried out by
  a write to its start.
\<close>

type_synonym ('m, 'f) space = "'m \<times> 'f \<times> (nat \<Rightarrow> u8)"

definition STACK_MARK :: u64 where "STACK_MARK = 0xCAFEBABE"

fun map_stack_pages ::
  "('f \<Rightarrow> nat option \<times> 'f) \<Rightarrow> (nat \<Rightarrow> nat \<Rightarrow> 'm \<times> 'f \<Rightarrow> ('m \<times> 'f) option) \<Rightarrow> nat \<Rightarrow> nat \<Rightarrow> ('m, 'f) space \<Rightarrow>
   ('m, 'f) space panics" where
  "map_stack_pages alloc map_page 0 page mf = Inr mf"
| "map_stack_pages alloc map_page (Suc n) page (m, f, mem) =
     (case alloc f of
        (None, f1) \<Rightarrow> Inl ''Out of physical frames for task stack''
      | (Some fr, f1) \<Rightarrow>
          (case map_page page fr (m, f1) of
             None \<Rightarrow> Inl ''map_to failed (task stack)''
           | Some (m2, f2) \<Rightarrow>
               map_stack_pages alloc map_page n (page + 4096) (m2, f2, write_bytes page (to_le_bytes 8 STACK_MARK) mem)))"

definition allocate_stack_if_needed ::
  "('f \<Rightarrow> nat option \<times> 'f) \<Rightarrow> (nat \<Rightarrow> nat \<Rightarrow> 'm \<times> 'f \<Rightarrow> ('m \<times> 'f) option) \<Rightarrow> nat \<Rightarrow> task \<Rightarrow> ('m, 'f) space \<Rightarrow>
   (task \<times> ('m, 'f) space) panics" where
  "allocate_stack_if_needed alloc map_page index t mf =
     (if stack_top t = 0 then
        (case stack_base_for_task index of
           Inl e \<Rightarrow> Inl e
         | Inr base \<Rightarrow>
             (case map_stack_pages alloc map_page STACK_PAGES base mf of
                Inl e \<Rightarrow> Inl e
              | Inr mf' \<Rightarrow> Inr (t\<lparr>stack_top := of_nat (base + STACK_SIZE - 128 - 8)\<rparr>, mf')))
      else Inr (t, mf))"

definition prepare_if_needed :: "selectors option \<Rightarrow> task \<Rightarrow> task panics" where
  "prepare_if_needed gdt t =
     (if initialized t then Inr t
      else case prepare_context gdt (entry_point t) (stack_top t) (task_mode_of t) of
             Inl e \<Rightarrow> Inl e
           | Inr c \<Rightarrow> Inr (t\<lparr>task_context := c, initialized := True\<rparr>))"

definition task_new ::
  "selectors option \<Rightarrow> ('f \<Rightarrow> nat option \<times> 'f) \<Rightarrow> (nat \<Rightarrow> nat \<Rightarrow> 'm \<times> 'f \<Rightarrow> ('m \<times> 'f) option) \<Rightarrow>
   u64 \<Rightarrow> u64 \<Rightarrow> nat \<Rightarrow> task_mode \<Rightarrow> ('m, 'f) space \<Rightarrow> (task \<times> ('m, 'f) space) panics" where
  "task_new gdt alloc map_page cr3 entry index mode mf =
     (let t0 = \<lparr>entry_point = entry, stack_top = 0, task_context = zero_context, initialized = False,
                task_mode_of = mode, task_bundle = KERNEL_BUNDLE_ID, task_cr3 = cr3, task_magic = MAGIC\<rparr>
      in case allocate_stack_if_needed alloc map_page index t0 mf of
           Inl e \<Rightarrow> Inl e
         | Inr (t1, mf') \<Rightarrow>
             (case prepare_if_needed gdt t1 of Inl e \<Rightarrow> Inl e | Inr t2 \<Rightarrow> Inr (t2, mf')))"

section \<open>Scheduler\<close>

text \<open>
  \<open>vec_alloc\<close> names the allocation that holds the vector and \<open>vec_cap\<close> its capacity. A push
  on a full vector moves it to a new allocation; \<open>grow\<close> is the standard library's growth.
\<close>

record scheduler =
  tasks :: "task option list"
  sched_current :: nat
  vec_alloc :: nat
  vec_cap :: nat

record cpu =
  sched :: scheduler
  CURRENT_TASK :: "(nat \<times> nat) option"
  SCHED_SINGLE_TASK :: bool
  cpu_cr3 :: u64
  kernel_stack :: u64
  eois :: "u8 list"

definition scheduler_new :: scheduler where
  "scheduler_new = \<lparr>tasks = [], sched_current = 0, vec_alloc = 0, vec_cap = 0\<rparr>"

definition push_task :: "(nat \<Rightarrow> nat) \<Rightarrow> task option \<Rightarrow> scheduler \<Rightarrow> scheduler" where
  "push_task grow t s =
     (if length (tasks s) < vec_cap s then s\<lparr>tasks := tasks s @ [t]\<rparr>
      else s\<lparr>tasks := tasks s @ [t], vec_alloc := vec_alloc s + 1, vec_cap := grow (length (tasks s))\<rparr>)"

definition spawn ::
  "(nat \<Rightarrow> nat) \<Rightarrow> selectors option \<Rightarrow> ('f \<Rightarrow> nat option \<times> 'f) \<Rightarrow>
   (nat \<Rightarrow> nat \<Rightarrow> 'm \<times> 'f \<Rightarrow> ('m \<times> 'f) option) \<Rightarrow> u64 \<Rightarrow> u64 \<Rightarrow> task_mode \<Rightarrow> scheduler \<times> ('m, 'f) space \<Rightarrow>
   (scheduler \<times> ('m, 'f) space) panics" where
  "spawn grow gdt alloc map_page cr3 entry mode = (\<lambda>(s, mf).
     case task_new gdt alloc map_page cr3 entry (length (tasks s)) mode mf of
       Inl e \<Rightarrow> Inl e
     | Inr (t, mf') \<Rightarrow> Inr (push_task grow (Some t) s, mf'))"

definition next_ready_task :: "bool \<Rightarrow> scheduler \<Rightarrow> (nat option \<times> scheduler) panics" where
  "next_ready_task single s =
     (if single then
        (if tasks s \<noteq> [] \<and> tasks s ! 0 \<noteq> None then Inr (Some 0, s\<lparr>sched_current := 0\<rparr>)
         else Inr (None, s))
      else if tasks s = [] then Inl ''attempt to calculate the remainder with a divisor of zero''
      else let index = (sched_current s + 1) mod length (tasks s)
           in if tasks s ! index \<noteq> None then Inr (Some index, s\<lparr>sched_current := index\<rparr>)
              else Inr (None, s))"

definition is_canonical :: "u64 \<Rightarrow> bool" where
  "is_canonical v \<longleftrightarrow> drop_bit 47 v = 0 \<or> drop_bit 47 v = 0x1ffff"

definition rsp_canonical :: "u64 \<Rightarrow> bool" where
  "rsp_canonical v \<longleftrightarrow> v < 0x0000800000000000 \<or> v \<ge> 0xFFFF800000000000"

definition rip_ok :: "iret_frame \<Rightarrow> bool" where
  "rip_ok f \<longleftrightarrow> is_canonical (rip f) \<and>
     (cs f = 0x8 \<longrightarrow> 0xffffffff80000000 \<le> rip f \<and> rip f < 0xffffffff90000000)"

text \<open>Dereferencing \<open>CURRENT_TASK\<close>: it is good while the vector has not moved.\<close>

definition deref :: "scheduler \<Rightarrow> nat \<times> nat \<Rightarrow> task option" where
  "deref s p = (if fst p = vec_alloc s \<and> snd p < length (tasks s) then tasks s ! snd p else None)"

definition save_context :: "full_context \<Rightarrow> cpu \<Rightarrow> cpu panics" where
  "save_context saved c =
     (case CURRENT_TASK c of
        None \<Rightarrow> Inr c
      | Some p \<Rightarrow>
          (case deref (sched c) p of
             None \<Rightarrow> Inl ''dangling CURRENT_TASK''
           | Some t \<Rightarrow>
               if task_magic t \<noteq> MAGIC then Inl ''Current task magic corrupted''
               else let mode = (if cs (frame saved) AND 3 = 3 then UserMode else KernelMode);
                        t' = t\<lparr>task_mode_of := mode, task_context := saved\<rparr>
                    in Inr (c\<lparr>sched := (sched c)\<lparr>tasks := (tasks (sched c))[snd p := Some t']\<rparr>\<rparr>)))"

definition resume_next :: "u8 \<Rightarrow> nat \<Rightarrow> task \<Rightarrow> cpu \<Rightarrow> (full_context \<times> cpu) panics" where
  "resume_next irq i t c =
     (if task_magic t \<noteq> MAGIC then Inl ''Next task magic corrupted''
      else let c1 = c\<lparr>CURRENT_TASK := Some (vec_alloc (sched c), i), eois := eois c @ [irq]\<rparr>
           in if \<not> rsp_canonical (rsp (frame (task_context t))) then Inl ''Non-canonical RSP detected before switch''
              else if task_cr3 t \<ge> 2 ^ 52 then Inl ''invalid physical address''
              else let c2 = c1\<lparr>kernel_stack := stack_top t, cpu_cr3 := task_cr3 t AND NOT 0xFFF\<rparr>
                   in if \<not> rip_ok (frame (task_context t)) then Inl ''RIP not valid in scheduler (next task)''
                      else Inr (task_context t, c2))"

definition resume_current :: "u8 \<Rightarrow> task \<Rightarrow> cpu \<Rightarrow> (full_context \<times> cpu) panics" where
  "resume_current irq t c =
     (if \<not> rip_ok (frame (task_context t)) then Inl ''RIP not valid in scheduler''
      else Inr (task_context t, c\<lparr>eois := eois c @ [irq]\<rparr>))"

text \<open>
  The switch of the timer interrupt. Without a next task and without a current one it calls
  itself with the state unchanged; \<open>None\<close> is that it never resumes anything.
\<close>

partial_function (option) rust_schedule_and_switch ::
  "u64 \<Rightarrow> full_context \<Rightarrow> u8 \<Rightarrow> cpu \<Rightarrow> ((full_context \<times> cpu) panics) option" where
  "rust_schedule_and_switch current_rsp saved irq c =
     (if current_rsp mod 8 \<noteq> 0 then Some (Inl ''Unaligned RSP'')
      else case save_context saved c of
        Inl e \<Rightarrow> Some (Inl e)
      | Inr c1 \<Rightarrow>
          (case next_ready_task (SCHED_SINGLE_TASK c1) (sched c1) of
             Inl e \<Rightarrow> Some (Inl e)
           | Inr (Some i, s) \<Rightarrow>
               (case tasks s ! i of
                  None \<Rightarrow> Some (Inl ''unreachable'')
                | Some t \<Rightarrow> Some (resume_next irq i t (c1\<lparr>sched := s\<rparr>)))
           | Inr (None, s) \<Rightarrow>
               (case CURRENT_TASK c1 of
                  None \<Rightarrow> rust_schedule_and_switch current_rsp saved irq
                            (c1\<lparr>sched := s, eois := eois c1 @ [irq]\<rparr>)
                | Some p \<Rightarrow>
                    (case deref s p of
                       None \<Rightarrow> Some (Inl ''dangling CURRENT_TASK'')
                     | Some t \<Rightarrow> Some (resume_current irq t (c1\<lparr>sched := s\<rparr>))))))"

section \<open>Runtime services\<close>

definition assign_bundle :: "nat \<Rightarrow> bundle_id \<Rightarrow> scheduler \<Rightarrow> scheduler" where
  "assign_bundle i b s =
     (if i < length (tasks s)
      then s\<lparr>tasks := (tasks s)[i := map_option (\<lambda>t. t\<lparr>task_bundle := b\<rparr>) (tasks s ! i)]\<rparr> else s)"

definition on_current :: "(task \<Rightarrow> task) \<Rightarrow> cpu \<Rightarrow> cpu panics" where
  "on_current f c =
     (case CURRENT_TASK c of
        None \<Rightarrow> Inr c
      | Some p \<Rightarrow>
          (case deref (sched c) p of
             None \<Rightarrow> Inl ''dangling CURRENT_TASK''
           | Some t \<Rightarrow> Inr (c\<lparr>sched := (sched c)\<lparr>tasks := (tasks (sched c))[snd p := Some (f t)]\<rparr>\<rparr>)))"

definition assign_current_bundle :: "bundle_id \<Rightarrow> cpu \<Rightarrow> cpu panics" where
  "assign_current_bundle b = on_current (\<lambda>t. t\<lparr>task_bundle := b\<rparr>)"

definition set_current_cr3 :: "u64 \<Rightarrow> cpu \<Rightarrow> cpu panics" where
  "set_current_cr3 cr3 = on_current (\<lambda>t. t\<lparr>task_cr3 := cr3\<rparr>)"

definition current_bundle :: "cpu \<Rightarrow> bundle_id panics" where
  "current_bundle c =
     (case CURRENT_TASK c of
        None \<Rightarrow> Inr KERNEL_BUNDLE_ID
      | Some p \<Rightarrow>
          (case deref (sched c) p of
             None \<Rightarrow> Inl ''dangling CURRENT_TASK''
           | Some t \<Rightarrow> Inr (task_bundle t)))"

definition task_count :: "scheduler \<Rightarrow> nat" where
  "task_count s = length (tasks s)"

definition select_task :: "nat \<Rightarrow> scheduler \<Rightarrow> bool \<times> scheduler" where
  "select_task idx s =
     (if idx < length (tasks s) \<and> tasks s ! idx \<noteq> None
      then (True, s\<lparr>sched_current := (idx + length (tasks s) - 1) mod length (tasks s)\<rparr>)
      else (False, s))"

definition start_first :: "cpu \<Rightarrow> (full_context \<times> cpu) panics" where
  "start_first c =
     (case tasks (sched c) of
        [] \<Rightarrow> Inl ''index out of bounds''
      | None # _ \<Rightarrow> Inl ''No task in slot 0 to start''
      | Some t # _ \<Rightarrow>
          if \<not> rip_ok (frame (task_context t)) then Inl ''RIP not valid in start_first''
          else Inr (task_context t,
                 c\<lparr>CURRENT_TASK := Some (vec_alloc (sched c), 0), kernel_stack := stack_top t\<rparr>))"

definition spawn_kernel_with_allocator ::
  "(nat \<Rightarrow> nat) \<Rightarrow> selectors option \<Rightarrow> ('f \<Rightarrow> nat option \<times> 'f) \<Rightarrow>
   (nat \<Rightarrow> nat \<Rightarrow> 'm \<times> 'f \<Rightarrow> ('m \<times> 'f) option) \<Rightarrow> u64 \<Rightarrow> u64 \<Rightarrow> scheduler \<times> ('m, 'f) space \<Rightarrow>
   (nat \<times> scheduler \<times> ('m, 'f) space) panics" where
  "spawn_kernel_with_allocator grow gdt alloc map_page cr3 entry = (\<lambda>(s, mf).
     case spawn grow gdt alloc map_page cr3 entry KernelMode (s, mf) of
       Inl e \<Rightarrow> Inl e
     | Inr r \<Rightarrow> Inr (length (tasks s), r))"

definition spawn_kernel_with_bundle ::
  "ext \<Rightarrow> (nat \<Rightarrow> nat) \<Rightarrow> selectors option \<Rightarrow> ('f \<Rightarrow> nat option \<times> 'f) \<Rightarrow>
   (nat \<Rightarrow> nat \<Rightarrow> 'm \<times> 'f \<Rightarrow> ('m \<times> 'f) option) \<Rightarrow> u64 \<Rightarrow> u64 \<Rightarrow> string \<Rightarrow> bundle_type \<Rightarrow>
   kernel_graph \<times> scheduler \<times> ('m, 'f) space \<Rightarrow> ((nat \<times> bundle_id) \<times> kernel_graph \<times> scheduler \<times> ('m, 'f) space) panics" where
  "spawn_kernel_with_bundle x grow gdt alloc map_page cr3 entry bundle_name ty = (\<lambda>(g, s, mf).
     let (package_id, g1) = create_package x bundle_name ty None g;
         (task_id, g2) = create_task package_id bundle_name [] g1
     in case spawn_kernel_with_allocator grow gdt alloc map_page cr3 entry (s, mf) of
          Inl e \<Rightarrow> Inl e
        | Inr (handle, s1, mf1) \<Rightarrow> Inr ((handle, task_id), g2, assign_bundle handle task_id s1, mf1))"

section \<open>The round-robin specification\<close>

text \<open>
  What a switch promises, without pointers and checks: there are \<open>n\<close> tasks with their contexts
  and one of them runs; the interrupted context is stored as that task's, and the next task in
  the cycle resumes with its own.
\<close>

type_synonym rr = "nat \<times> nat \<times> (nat \<Rightarrow> full_context)"

definition rr_switch :: "full_context \<Rightarrow> rr \<Rightarrow> full_context \<times> rr" where
  "rr_switch saved = (\<lambda>(n, i, ctx).
     let ctx' = ctx(i := saved);
         j = (i + 1) mod n
     in (ctx' j, n, j, ctx'))"

definition ctx_of :: "scheduler \<Rightarrow> nat \<Rightarrow> full_context" where
  "ctx_of s i = (if i < length (tasks s)
     then (case tasks s ! i of None \<Rightarrow> zero_context | Some t \<Rightarrow> task_context t) else zero_context)"

definition rr_of :: "cpu \<Rightarrow> rr" where
  "rr_of c = (length (tasks (sched c)), sched_current (sched c), ctx_of (sched c))"

definition ctx_sane :: "full_context \<Rightarrow> bool" where
  "ctx_sane x \<longleftrightarrow> rsp_canonical (rsp (frame x)) \<and> rip_ok (frame x)"

definition task_ok :: "task option \<Rightarrow> bool" where
  "task_ok t \<longleftrightarrow> (\<exists>u. t = Some u \<and> task_magic u = MAGIC \<and> ctx_sane (task_context u) \<and> task_cr3 u < 2 ^ 52)"

definition cpu_ok :: "cpu \<Rightarrow> bool" where
  "cpu_ok c \<longleftrightarrow> \<not> SCHED_SINGLE_TASK c \<and> sched_current (sched c) < length (tasks (sched c)) \<and>
     CURRENT_TASK c = Some (vec_alloc (sched c), sched_current (sched c)) \<and>
     (\<forall>t \<in> set (tasks (sched c)). task_ok t)"

lemma cpu_ok_nth:
  assumes "cpu_ok c" "i < length (tasks (sched c))"
  obtains t where "tasks (sched c) ! i = Some t" "task_magic t = MAGIC" "ctx_sane (task_context t)" "task_cr3 t < 2 ^ 52"
  using assms by (metis cpu_ok_def nth_mem task_ok_def)

lemma save_context_ok:
  assumes ok: "cpu_ok c" and sane: "ctx_sane saved"
  obtains c1 where "save_context saved c = Inr c1" "cpu_ok c1" "length (tasks (sched c1)) = length (tasks (sched c))"
    "sched_current (sched c1) = sched_current (sched c)" "ctx_of (sched c1) = (ctx_of (sched c))(sched_current (sched c) := saved)"
    "\<And>j. j \<noteq> sched_current (sched c) \<Longrightarrow> tasks (sched c1) ! j = tasks (sched c) ! j"
proof -
  let ?i = "sched_current (sched c)"
  have i: "?i < length (tasks (sched c))" using ok by (simp add: cpu_ok_def)
  obtain t where t: "tasks (sched c) ! ?i = Some t" "task_magic t = MAGIC" "task_cr3 t < 2 ^ 52"
    using cpu_ok_nth [OF ok i] by metis
  define u where "u = t\<lparr>task_mode_of := (if cs (frame saved) AND 3 = 3 then UserMode else KernelMode), task_context := saved\<rparr>"
  define c1 where "c1 = c\<lparr>sched := (sched c)\<lparr>tasks := (tasks (sched c))[?i := Some u]\<rparr>\<rparr>"
  have "save_context saved c = Inr c1"
    using ok i t by (simp add: save_context_def cpu_ok_def deref_def c1_def u_def Let_def)
  moreover have "task_ok (Some u)" using t sane by (simp add: task_ok_def u_def)
  then have "cpu_ok c1"
    using ok unfolding cpu_ok_def c1_def by (auto dest!: subsetD [OF set_update_subset_insert])
  moreover have "ctx_of (sched c1) = (ctx_of (sched c))(?i := saved)"
    using i by (auto simp: fun_eq_iff ctx_of_def c1_def u_def nth_list_update)
  ultimately show thesis using that [of c1] by (simp add: c1_def)
qed

lemma resume_next_ok:
  assumes ok: "cpu_ok c" and j: "j < length (tasks (sched c))"
  shows "\<exists>t c2. tasks (sched c) ! j = Some t \<and>
    resume_next irq j t (c\<lparr>sched := (sched c)\<lparr>sched_current := j\<rparr>\<rparr>) = Inr (task_context t, c2) \<and>
    cpu_ok c2 \<and> rr_of c2 = (length (tasks (sched c)), j, ctx_of (sched c)) \<and>
    kernel_stack c2 = stack_top t \<and> cpu_cr3 c2 = task_cr3 t AND NOT 0xFFF"
proof -
  obtain t where t: "tasks (sched c) ! j = Some t" "task_magic t = MAGIC" "ctx_sane (task_context t)" "task_cr3 t < 2 ^ 52"
    using cpu_ok_nth [OF ok j] .
  have "\<not> 2 ^ 52 \<le> task_cr3 t" using t(4) by simp
  then show ?thesis
    using t ok j
    by (simp add: resume_next_def ctx_sane_def Let_def cpu_ok_def rr_of_def)
      (simp add: fun_eq_iff ctx_of_def)
qed

lemma switch_refines:
  assumes ok: "cpu_ok c" and sane: "ctx_sane saved" and al: "current_rsp mod 8 = 0"
  shows "\<exists>ctx c'. rust_schedule_and_switch current_rsp saved irq c = Some (Inr (ctx, c')) \<and> cpu_ok c' \<and>
    rr_switch saved (rr_of c) = (ctx, rr_of c') \<and>
    (\<forall>t. tasks (sched c') ! sched_current (sched c') = Some t \<longrightarrow> kernel_stack c' = stack_top t)"
proof -
  let ?i = "sched_current (sched c)" and ?n = "length (tasks (sched c))"
  let ?j = "(?i + 1) mod ?n"
  have n: "?i < ?n" using ok by (simp add: cpu_ok_def)
  then have j: "?j < ?n" by (intro mod_less_divisor) auto
  obtain c1 where c1: "save_context saved c = Inr c1" "cpu_ok c1" "length (tasks (sched c1)) = ?n"
    "sched_current (sched c1) = ?i" "ctx_of (sched c1) = (ctx_of (sched c))(?i := saved)"
    using save_context_ok [OF ok sane] by metis
  obtain t c2 where t: "tasks (sched c1) ! ?j = Some t"
    "resume_next irq ?j t (c1\<lparr>sched := (sched c1)\<lparr>sched_current := ?j\<rparr>\<rparr>) = Inr (task_context t, c2)"
    "cpu_ok c2" "rr_of c2 = (?n, ?j, ctx_of (sched c1))" "kernel_stack c2 = stack_top t"
    using resume_next_ok [OF c1(2), of ?j irq] j c1(3) by auto
  have ne: "tasks (sched c1) \<noteq> []" using c1(3) n by auto
  have nr: "next_ready_task (SCHED_SINGLE_TASK c1) (sched c1) = Inr (Some ?j, (sched c1)\<lparr>sched_current := ?j\<rparr>)"
    using c1(2,3,4) ne t(1) by (simp add: next_ready_task_def cpu_ok_def Let_def)
  have run: "rust_schedule_and_switch current_rsp saved irq c = Some (Inr (task_context t, c2))"
    using al c1(1) nr t(1,2) by (subst rust_schedule_and_switch.simps) simp
  have cx: "task_context t = ctx_of (sched c1) ?j" using t(1) j c1(3) by (simp add: ctx_of_def)
  have rr: "rr_switch saved (rr_of c) = (task_context t, rr_of c2)"
    unfolding t(4) cx using c1(5) by (simp add: rr_switch_def rr_of_def Let_def)
  have c2: "sched c2 = (sched c1)\<lparr>sched_current := ?j\<rparr>"
    using t(2) by (auto simp: resume_next_def Let_def split: if_splits)
  show ?thesis
    by (intro exI [of _ "task_context t"] exI [of _ c2] conjI run t(3) rr)
      (use t(1,5) c2 in simp)
qed

section \<open>Rounds of the scheduler\<close>

text \<open>A run of timer interrupts: each carries the stack pointer, the interrupted context and its number.\<close>

fun switch_run ::
  "(u64 \<times> full_context \<times> u8) list \<Rightarrow> full_context \<Rightarrow> cpu \<Rightarrow> ((full_context \<times> cpu) panics) option" where
  "switch_run [] ctx c = Some (Inr (ctx, c))"
| "switch_run ((sp, saved, irq) # es) ctx c =
     (case rust_schedule_and_switch sp saved irq c of
        None \<Rightarrow> None
      | Some (Inl e) \<Rightarrow> Some (Inl e)
      | Some (Inr (x, c')) \<Rightarrow> switch_run es x c')"

definition sane_event :: "u64 \<times> full_context \<times> u8 \<Rightarrow> bool" where
  "sane_event e \<longleftrightarrow> fst e mod 8 = 0 \<and> ctx_sane (fst (snd e))"

lemma switch_one:
  assumes "cpu_ok c" "sane_event (sp, saved, irq)"
  obtains c' where "rust_schedule_and_switch sp saved irq c = Some (Inr (ctx_of (sched c') (sched_current (sched c')), c'))"
    "cpu_ok c'" "length (tasks (sched c')) = length (tasks (sched c))"
    "sched_current (sched c') = (sched_current (sched c) + 1) mod length (tasks (sched c))"
    "ctx_of (sched c') = (ctx_of (sched c))(sched_current (sched c) := saved)"
proof -
  obtain ctx c' where c': "rust_schedule_and_switch sp saved irq c = Some (Inr (ctx, c'))" "cpu_ok c'"
    "rr_switch saved (rr_of c) = (ctx, rr_of c')"
    using switch_refines [of c saved sp irq] assms by (auto simp: sane_event_def)
  have "ctx = (fst (rr_switch saved (rr_of c)))" "rr_of c' = snd (rr_switch saved (rr_of c))"
    using c'(3) by simp_all
  then have "ctx = ctx_of (sched c') (sched_current (sched c'))"
    "length (tasks (sched c')) = length (tasks (sched c))"
    "sched_current (sched c') = (sched_current (sched c) + 1) mod length (tasks (sched c))"
    "ctx_of (sched c') = (ctx_of (sched c))(sched_current (sched c) := saved)"
    unfolding rr_switch_def rr_of_def Let_def prod.case fst_conv snd_conv prod.inject by metis+
  with c'(1,2) show thesis using that [of c'] by blast
qed

lemma switch_run_ok:
  assumes "cpu_ok c" "\<forall>e \<in> set es. sane_event e"
  shows "\<exists>ctx c'. switch_run es x c = Some (Inr (ctx, c')) \<and> cpu_ok c' \<and>
    length (tasks (sched c')) = length (tasks (sched c)) \<and>
    sched_current (sched c') = (sched_current (sched c) + length es) mod length (tasks (sched c)) \<and>
    (es \<noteq> [] \<longrightarrow> ctx = ctx_of (sched c') (sched_current (sched c'))) \<and>
    (\<forall>j. (\<forall>m < length es. (sched_current (sched c) + m) mod length (tasks (sched c)) \<noteq> j) \<longrightarrow>
         ctx_of (sched c') j = ctx_of (sched c) j)"
  using assms
proof (induction es arbitrary: x c)
  case Nil
  then show ?case by (simp add: cpu_ok_def)
next
  case (Cons e es)
  obtain sp saved irq where e: "e = (sp, saved, irq)" by (cases e)
  let ?i = "sched_current (sched c)" and ?n = "length (tasks (sched c))"
  have i: "?i < ?n" using Cons.prems(1) by (simp add: cpu_ok_def)
  obtain c1 where c1: "rust_schedule_and_switch sp saved irq c = Some (Inr (ctx_of (sched c1) (sched_current (sched c1)), c1))"
    "cpu_ok c1" "length (tasks (sched c1)) = ?n" "sched_current (sched c1) = (?i + 1) mod ?n"
    "ctx_of (sched c1) = (ctx_of (sched c))(?i := saved)"
    using switch_one [of c sp saved irq] Cons.prems e by auto
  let ?x = "ctx_of (sched c1) (sched_current (sched c1))"
  obtain ctx c' where IH: "switch_run es ?x c1 = Some (Inr (ctx, c'))" "cpu_ok c'"
    "length (tasks (sched c')) = ?n" "sched_current (sched c') = ((?i + 1) mod ?n + length es) mod ?n"
    "es \<noteq> [] \<longrightarrow> ctx = ctx_of (sched c') (sched_current (sched c'))"
    "\<And>j. (\<forall>m < length es. ((?i + 1) mod ?n + m) mod ?n \<noteq> j) \<Longrightarrow> ctx_of (sched c') j = ctx_of (sched c1) j"
    using Cons.IH [of c1 ?x] Cons.prems c1 by auto
  have run: "switch_run (e # es) x c = Some (Inr (ctx, c'))" using e c1(1) IH(1) by simp
  have cur: "sched_current (sched c') = (?i + length (e # es)) mod ?n"
    using IH(4) by (simp add: mod_simps)
  have fin: "ctx = ctx_of (sched c') (sched_current (sched c'))"
    using IH(1,5) by (cases es) auto
  have keep: "ctx_of (sched c') j = ctx_of (sched c) j"
    if j: "\<forall>m < length (e # es). (?i + m) mod ?n \<noteq> j" for j
  proof -
    have "?i \<noteq> j" using j i by (auto dest: spec [of _ 0])
    moreover have "\<forall>m < length es. ((?i + 1) mod ?n + m) mod ?n \<noteq> j"
      using j by (auto simp: mod_simps dest: spec [of _ "Suc m" for m])
    ultimately show ?thesis using IH(6) c1(5) by simp
  qed
  show ?case using run IH(2,3) cur fin keep by blast
qed

text \<open>Within one round the offsets from the task that runs are pairwise different tasks.\<close>

lemma round_offset_neq:
  fixes i n m :: nat
  assumes "i < n" "m < n - 1"
  shows "((i + 1) mod n + m) mod n \<noteq> i"
proof (cases "i + 1 + m < n")
  case True
  then show ?thesis by simp
next
  case False
  then have "(i + 1 + m) mod n = i + 1 + m - n" using assms by (simp add: mod_if)
  then show ?thesis using assms False by (simp add: mod_simps)
qed

section \<open>Stacks\<close>

definition stack_base :: "nat \<Rightarrow> nat" where
  "stack_base i = KERNEL_STACK_REGION_BASE + i * STACK_SIZE"

definition stack_pages_of :: "nat \<Rightarrow> nat set" where
  "stack_pages_of i = (\<lambda>k. stack_base i + 4096 * k) ` {..<STACK_PAGES}"

lemma stack_page_offsets:
  fixes i j k l :: nat
  assumes "k < 256" "l < 256" "i * 1048576 + 4096 * k = j * 1048576 + 4096 * l"
  shows "i = j"
proof -
  have "i * 256 + k = j * 256 + l" using assms(3) by simp
  then have "(i * 256 + k) div 256 = (j * 256 + l) div 256" by simp
  then show ?thesis using assms(1,2) by simp
qed

lemma stack_pages_disjoint:
  assumes "i \<noteq> j"
  shows "stack_pages_of i \<inter> stack_pages_of j = {}"
proof -
  have "stack_base i + 4096 * k \<noteq> stack_base j + 4096 * l" if "k < STACK_PAGES" "l < STACK_PAGES" for k l
    using that assms stack_page_offsets [of k l i j]
    by (simp add: stack_base_def STACK_SIZE_def STACK_PAGES_def)
  then show ?thesis unfolding stack_pages_of_def by blast
qed

text \<open>
  What the mapper promises: a page that it maps is entered with its frame, and nothing else
  changes in the page table. The tables are abstracted to the map they implement.
\<close>

definition maps_page :: "(nat \<Rightarrow> nat \<Rightarrow> (nat \<rightharpoonup> nat) \<times> 'f \<Rightarrow> ((nat \<rightharpoonup> nat) \<times> 'f) option) \<Rightarrow> bool" where
  "maps_page map_page \<longleftrightarrow>
     (\<forall>page fr m f m' f'. map_page page fr (m, f) = Some (m', f') \<longrightarrow> m' = m(page \<mapsto> fr))"

lemma map_stack_pages_dom:
  assumes "maps_page map_page"
  shows "map_stack_pages alloc map_page n page (m, f, mem) = Inr (m', f', mem') \<Longrightarrow>
    dom m' = dom m \<union> (\<lambda>k. page + 4096 * k) ` {..<n} \<and>
    (\<forall>q. q \<notin> (\<lambda>k. page + 4096 * k) ` {..<n} \<longrightarrow> m' q = m q)"
proof (induction n arbitrary: page m f mem)
  case 0
  then show ?case by simp
next
  case (Suc n)
  obtain fr f1 m1 f2 where 1: "alloc f = (Some fr, f1)" "map_page page fr (m, f1) = Some (m1, f2)"
    "map_stack_pages alloc map_page n (page + 4096) (m1, f2, write_bytes page (to_le_bytes 8 STACK_MARK) mem) = Inr (m', f', mem')"
    using Suc.prems by (auto split: prod.splits option.splits)
  have m1: "m1 = m(page \<mapsto> fr)" using assms 1(2) unfolding maps_page_def by blast
  have sh: "(\<lambda>k. page + 4096 * k) ` {..<Suc n} = insert page ((\<lambda>k. page + 4096 + 4096 * k) ` {..<n})"
    by (simp add: lessThan_Suc_eq_insert_0 image_image add.assoc)
  show ?case using Suc.IH [OF 1(3)] unfolding sh m1 by auto
qed

text \<open>The bytes that mapping a stack writes.\<close>

lemma map_stack_pages_mem:
  "map_stack_pages alloc map_page n page (m, f, mem) = Inr (m', f', mem') \<Longrightarrow> mem' a \<noteq> mem a \<Longrightarrow>
     \<exists>k < n. page + 4096 * k \<le> a \<and> a < page + 4096 * k + 8"
proof (induction n arbitrary: page m f mem)
  case (Suc n)
  let ?mem = "write_bytes page (to_le_bytes 8 STACK_MARK) mem"
  obtain m1 f1 where rest: "map_stack_pages alloc map_page n (page + 4096) (m1, f1, ?mem) = Inr (m', f', mem')"
    using Suc.prems(1) by (auto split: prod.splits option.splits)
  show ?case
  proof (cases "mem' a = ?mem a")
    case True
    then have "page \<le> a \<and> a < page + 8" using Suc.prems(2) by (auto simp: write_bytes_def split: if_splits)
    then show ?thesis by (intro exI [of _ 0]) simp
  next
    case False
    then obtain k where "k < n" "page + 4096 + 4096 * k \<le> a" "a < page + 4096 + 4096 * k + 8"
      using Suc.IH [OF rest] by blast
    then show ?thesis by (intro exI [of _ "Suc k"]) simp
  qed
qed simp

lemma stack_base_for_task_Inr:
  "stack_base_for_task i = Inr b \<longleftrightarrow> b = stack_base i \<and> stack_base i + STACK_SIZE < 2 ^ 64"
  by (auto simp: stack_base_for_task_def stack_base_def Let_def)

lemma task_new_Inr:
  assumes "task_new gdt alloc map_page cr3 entry i mode (m, f) = Inr (t, m', f')"
  shows "stack_base i + STACK_SIZE < 2 ^ 64"
    "map_stack_pages alloc map_page STACK_PAGES (stack_base i) (m, f) = Inr (m', f')"
    "stack_top t = of_nat (stack_base i + STACK_SIZE - 136)"
    "prepare_context gdt entry (stack_top t) mode = Inr (task_context t)"
    "initialized t" "task_mode_of t = mode" "task_magic t = MAGIC" "task_cr3 t = cr3"
    "task_bundle t = KERNEL_BUNDLE_ID"
  using assms
  by (auto simp: task_new_def Let_def allocate_stack_if_needed_def prepare_if_needed_def
      stack_base_for_task_Inr split: sum.splits)

lemma prepare_context_Inr:
  assumes "prepare_context gdt entry sp mode = Inr c"
  shows "rip (frame c) = entry" "rsp (frame c) = sp" "regs c = zero_registers"
  using assms by (auto simp: prepare_context_def Let_def split: option.splits task_mode.splits)

lemma stack_top_facts:
  assumes "stack_base i + STACK_SIZE < 2 ^ 64"
  shows "unat (of_nat (stack_base i + STACK_SIZE - 136) :: u64) = stack_base i + STACK_SIZE - 136"
    "(stack_base i + STACK_SIZE - 136) mod 16 = 8"
proof -
  show "unat (of_nat (stack_base i + STACK_SIZE - 136) :: u64) = stack_base i + STACK_SIZE - 136"
    using assms by (simp add: unat_of_nat)
  have "stack_base i + STACK_SIZE - 136 = 16 * (0xFFFF880010000000 div 16 + i * 65536 + 65527) + 8"
    by (simp add: stack_base_def STACK_SIZE_def STACK_PAGES_def KERNEL_STACK_REGION_BASE_def)
  then show "(stack_base i + STACK_SIZE - 136) mod 16 = 8" by (simp only: mod_mult_self4) simp
qed

definition stacks_ok :: "scheduler \<Rightarrow> bool" where
  "stacks_ok s \<longleftrightarrow> (\<forall>i < length (tasks s). \<forall>t. tasks s ! i = Some t \<longrightarrow>
     unat (stack_top t) = stack_base i + STACK_SIZE - 136)"

lemma push_task_tasks [simp]: "tasks (push_task grow t s) = tasks s @ [t]"
  by (simp add: push_task_def)

lemma push_task_current [simp]: "sched_current (push_task grow t s) = sched_current s"
  by (simp add: push_task_def)

lemma spawn_Inr:
  assumes "spawn grow gdt alloc map_page cr3 entry mode (s, m, f) = Inr (s', m', f')"
  obtains t where "task_new gdt alloc map_page cr3 entry (length (tasks s)) mode (m, f) = Inr (t, m', f')"
    "s' = push_task grow (Some t) s"
  using assms by (auto simp: spawn_def split: sum.splits)

lemma deref_push:
  assumes "deref s p = Some t"
  shows "deref (push_task grow u s) p = (if length (tasks s) < vec_cap s then Some t else None)"
  using assms by (auto simp: deref_def push_task_def nth_append split: if_splits)

section \<open>Properties\<close>

text \<open>
  C14: The context switch of the timer interrupt refines round robin. From every state in which
  the tasks are valid and the current pointer is good, a switch on an aligned stack returns: it
  neither panics nor loops. It stores the interrupted context as the running task's and resumes
  the next task of the cycle with that task's own context, on its stack and its page table, and
  the state stays valid.
\<close>

theorem switch_round_robin:
  assumes "cpu_ok c" "ctx_sane saved" "current_rsp mod 8 = 0"
  shows "\<exists>ctx c'. rust_schedule_and_switch current_rsp saved irq c = Some (Inr (ctx, c')) \<and> cpu_ok c' \<and>
    rr_switch saved (rr_of c) = (ctx, rr_of c') \<and>
    (\<forall>t. tasks (sched c') ! sched_current (sched c') = Some t \<longrightarrow> kernel_stack c' = stack_top t)"
  by (rule switch_refines [OF assms])

definition demo_ctx :: "u64 \<Rightarrow> full_context" where
  "demo_ctx n = \<lparr>regs = zero_registers\<lparr>rax := n\<rparr>,
     frame = \<lparr>rip = 0xffffffff80001000, cs = 8, rflags = 2, rsp = 0xFFFF880010000F78, ss = 16\<rparr>\<rparr>"

definition demo_task :: "u64 \<Rightarrow> task" where
  "demo_task n = \<lparr>entry_point = 0xffffffff80001000, stack_top = 0xFFFF880010000F78, task_context = demo_ctx n,
     initialized = True, task_mode_of = KernelMode, task_bundle = KERNEL_BUNDLE_ID, task_cr3 = 0x1000,
     task_magic = MAGIC\<rparr>"

definition demo_cpu :: "nat \<Rightarrow> cpu" where
  "demo_cpu n = \<lparr>sched = \<lparr>tasks = map (\<lambda>i. Some (demo_task (of_nat i))) [0..<n], sched_current = 0,
       vec_alloc = 1, vec_cap = 4\<rparr>,
     CURRENT_TASK = Some (1, 0), SCHED_SINGLE_TASK = False, cpu_cr3 = 0x1000,
     kernel_stack = 0, eois = []\<rparr>"

lemma demo_ctx_sane: "ctx_sane (demo_ctx n)"
  by (simp add: ctx_sane_def demo_ctx_def rsp_canonical_def rip_ok_def is_canonical_def)

lemma demo_cpu_ok: "0 < n \<Longrightarrow> cpu_ok (demo_cpu n)"
  by (auto simp: cpu_ok_def demo_cpu_def task_ok_def demo_task_def demo_ctx_sane)

theorem switch_round_robin_witness:
  "\<exists>ctx c'. rust_schedule_and_switch 16 (demo_ctx 7) 32 (demo_cpu 2) = Some (Inr (ctx, c')) \<and> ctx = demo_ctx 1 \<and>
     sched_current (sched c') = 1"
proof -
  obtain ctx c' where c': "rust_schedule_and_switch 16 (demo_ctx 7) 32 (demo_cpu 2) = Some (Inr (ctx, c'))"
    "rr_switch (demo_ctx 7) (rr_of (demo_cpu 2)) = (ctx, rr_of c')"
    using switch_round_robin [OF demo_cpu_ok [of 2] demo_ctx_sane [of 7], of 16 32] by auto
  have "ctx = demo_ctx 1" "sched_current (sched c') = 1"
    using c'(2) by (simp_all add: rr_switch_def rr_of_def demo_cpu_def Let_def ctx_of_def demo_task_def)
  with c'(1) show ?thesis by blast
qed

text \<open>
  C15: Fairness and context integrity over a run of timer interrupts. Any run of interrupts from
  a valid state completes; after \<open>k\<close> of them the task \<open>k\<close> places further in the cycle runs, so
  each of the \<open>n\<close> tasks runs within \<open>n\<close> interrupts; and after a full round the task that was
  interrupted first runs again, with exactly the registers it was interrupted with, whatever the
  other tasks did in between.
\<close>

theorem round_restores_context:
  assumes ok: "cpu_ok c" and ev: "\<forall>e \<in> set es. sane_event e"
  shows "\<exists>ctx c'. switch_run es x c = Some (Inr (ctx, c')) \<and> cpu_ok c' \<and>
    sched_current (sched c') = (sched_current (sched c) + length es) mod length (tasks (sched c)) \<and>
    (length es = length (tasks (sched c)) \<longrightarrow> ctx = fst (snd (hd es)))"
proof -
  let ?i = "sched_current (sched c)" and ?n = "length (tasks (sched c))"
  have i: "?i < ?n" using ok by (simp add: cpu_ok_def)
  obtain ctx c' where c': "switch_run es x c = Some (Inr (ctx, c'))" "cpu_ok c'"
    "sched_current (sched c') = (?i + length es) mod ?n"
    "es \<noteq> [] \<longrightarrow> ctx = ctx_of (sched c') (sched_current (sched c'))"
    using switch_run_ok [OF ok ev, of x] by blast
  have "ctx = fst (snd (hd es))" if len: "length es = ?n"
  proof -
    obtain sp saved irq es' where es: "es = (sp, saved, irq) # es'"
      using len i by (cases es) auto
    obtain c1 where c1: "rust_schedule_and_switch sp saved irq c = Some (Inr (ctx_of (sched c1) (sched_current (sched c1)), c1))"
      "cpu_ok c1" "length (tasks (sched c1)) = ?n" "sched_current (sched c1) = (?i + 1) mod ?n"
      "ctx_of (sched c1) = (ctx_of (sched c))(?i := saved)"
      using switch_one [of c sp saved irq] ok ev es by auto
    have run: "switch_run es' (ctx_of (sched c1) (sched_current (sched c1))) c1 = Some (Inr (ctx, c'))"
      using c'(1) c1(1) es by simp
    have "\<forall>m < length es'. ((?i + 1) mod ?n + m) mod ?n \<noteq> ?i"
      using round_offset_neq [OF i] len es by auto
    then have "ctx_of (sched c') ?i = ctx_of (sched c1) ?i"
      using switch_run_ok [OF c1(2), of es' "ctx_of (sched c1) (sched_current (sched c1))"] run ev es c1(3,4) by auto
    moreover have "sched_current (sched c') = ?i" using c'(3) len i by simp
    ultimately show ?thesis using c'(4) c1(5) es by simp
  qed
  with c' show ?thesis by blast
qed

theorem round_restores_context_witness:
  "\<exists>ctx c'. switch_run [(8, demo_ctx 11, 32), (16, demo_ctx 12, 32), (24, demo_ctx 13, 32)] zero_context (demo_cpu 3)
     = Some (Inr (ctx, c')) \<and> sched_current (sched c') = 0 \<and> ctx = demo_ctx 11"
  using round_restores_context [OF demo_cpu_ok [of 3],
      of "[(8, demo_ctx 11, 32), (16, demo_ctx 12, 32), (24, demo_ctx 13, 32)]" zero_context]
  by (fastforce simp: sane_event_def demo_ctx_sane demo_cpu_def)

text \<open>
  A spawned task has a stack of its own. When spawning succeeds, the vector grows by one
  ready task at its end and the others stay as they are; the page table gains exactly the 256
  pages of the new task's stack, which belong to no other task's stack; the stack pointer lies
  in those pages and is 8 modulo 16, as the calling convention asks on entry; and the task will
  resume at its entry point, on that stack, with cleared registers.
\<close>

theorem spawn_own_stack:
  assumes sp: "spawn grow gdt alloc map_page cr3 entry mode (s, m, f, mem) = Inr (s', m', f', mem')"
    and ok: "stacks_ok s" and map: "maps_page map_page"
  shows "stacks_ok s' \<and> dom m' = dom m \<union> stack_pages_of (length (tasks s)) \<and>
    (\<forall>i < length (tasks s). stack_pages_of i \<inter> stack_pages_of (length (tasks s)) = {} \<and>
       (\<forall>q \<in> stack_pages_of i. m' q = m q)) \<and>
    (\<exists>t. tasks s' = tasks s @ [Some t] \<and> unat (stack_top t) mod 16 = 8 \<and>
       (\<exists>p \<in> stack_pages_of (length (tasks s)). p \<le> unat (stack_top t) \<and> unat (stack_top t) < p + 4096) \<and>
       initialized t \<and> rip (frame (task_context t)) = entry \<and> rsp (frame (task_context t)) = stack_top t \<and>
       regs (task_context t) = zero_registers)"
proof -
  let ?n = "length (tasks s)"
  obtain t where t: "task_new gdt alloc map_page cr3 entry ?n mode (m, f, mem) = Inr (t, m', f', mem')"
    "s' = push_task grow (Some t) s"
    using spawn_Inr [OF sp] .
  note new = task_new_Inr [OF t(1)]
  have top: "unat (stack_top t) = stack_base ?n + STACK_SIZE - 136"
    using new(3) stack_top_facts(1) [OF new(1)] by simp
  have "stacks_ok s'"
    using ok top t(2) by (auto simp: stacks_ok_def nth_append less_Suc_eq)
  moreover have pages: "dom m' = dom m \<union> stack_pages_of ?n"
    "\<And>q. q \<notin> stack_pages_of ?n \<Longrightarrow> m' q = m q"
    using map_stack_pages_dom [OF map new(2)] unfolding stack_pages_of_def by blast+
  moreover have "stack_base ?n + 4096 * 255 \<in> stack_pages_of ?n"
    unfolding stack_pages_of_def by (rule imageI) (simp add: STACK_PAGES_def)
  then have "\<exists>p \<in> stack_pages_of ?n. p \<le> unat (stack_top t) \<and> unat (stack_top t) < p + 4096"
    by (rule bexI [rotated]) (simp add: top STACK_SIZE_def STACK_PAGES_def)
  moreover have "unat (stack_top t) mod 16 = 8" using top stack_top_facts(2) [OF new(1)] by simp
  moreover have "stack_pages_of i \<inter> stack_pages_of ?n = {} \<and> (\<forall>q \<in> stack_pages_of i. m' q = m q)"
    if "i < ?n" for i
    using stack_pages_disjoint [of i ?n] pages(2) that by blast
  ultimately show ?thesis
    using prepare_context_Inr [OF new(4)] new(5) t(2) by (intro conjI allI impI exI [of _ t]) simp_all
qed

definition demo_alloc :: "nat \<Rightarrow> nat option \<times> nat" where
  "demo_alloc f = (Some f, f + 4096)"

definition demo_map_page :: "nat \<Rightarrow> nat \<Rightarrow> (nat \<rightharpoonup> nat) \<times> nat \<Rightarrow> ((nat \<rightharpoonup> nat) \<times> nat) option" where
  "demo_map_page page fr = (\<lambda>(m, f). Some (m(page \<mapsto> fr), f))"

definition demo_gdt :: selectors where
  "demo_gdt = \<lparr>sel_code = 0x8, sel_data = 0x10, sel_user_code = 0x23, sel_user_data = 0x1b\<rparr>"

lemma demo_maps_page: "maps_page demo_map_page"
  by (auto simp: maps_page_def demo_map_page_def)

lemma demo_map_stack_total:
  "\<exists>m' f' mem'. map_stack_pages demo_alloc demo_map_page n page (m, f, mem) = Inr (m', f', mem')"
  by (induction n arbitrary: page m f mem) (simp_all add: demo_alloc_def demo_map_page_def)

lemma demo_spawn:
  assumes "length (tasks s) < 4"
  shows "\<exists>s' m' f' mem'. spawn (\<lambda>n. 2 * n) (Some demo_gdt) demo_alloc demo_map_page 0x1000 0xffffffff80001000 KernelMode
    (s, m, f, mem) = Inr (s', m', f', mem')"
proof -
  have b: "stack_base_for_task (length (tasks s)) = Inr (stack_base (length (tasks s)))"
    using assms by (simp add: stack_base_for_task_Inr)
      (simp add: stack_base_def KERNEL_STACK_REGION_BASE_def STACK_SIZE_def STACK_PAGES_def)
  obtain m' f' mem' where "map_stack_pages demo_alloc demo_map_page STACK_PAGES (stack_base (length (tasks s))) (m, f, mem) = Inr (m', f', mem')"
    using demo_map_stack_total by blast
  then show ?thesis
    using b by (simp add: spawn_def task_new_def Let_def allocate_stack_if_needed_def
        prepare_if_needed_def prepare_context_def)
qed

theorem spawn_own_stack_witness:
  "\<exists>s' m'. spawn (\<lambda>n. 2 * n) (Some demo_gdt) demo_alloc demo_map_page 0x1000 0xffffffff80001000 KernelMode
      (scheduler_new, Map.empty, 0, \<lambda>_. 0) = Inr (s', m') \<and> length (tasks s') = 1 \<and>
      dom (fst m') = stack_pages_of 0"
proof -
  obtain s' m' f' mem' where r: "spawn (\<lambda>n. 2 * n) (Some demo_gdt) demo_alloc demo_map_page 0x1000 0xffffffff80001000
    KernelMode (scheduler_new, Map.empty, 0, \<lambda>_. 0) = Inr (s', m', f', mem')"
    using demo_spawn [of scheduler_new Map.empty 0 "\<lambda>_. 0"] by (auto simp: scheduler_new_def)
  show ?thesis
    using spawn_own_stack [OF r _ demo_maps_page] r by (fastforce simp: stacks_ok_def scheduler_new_def)
qed

text \<open>Where a spawn writes memory: the first eight bytes of each page of the new task's stack.\<close>

definition stack_marks :: "nat \<Rightarrow> nat set" where
  "stack_marks i = {a. \<exists>p \<in> stack_pages_of i. p \<le> a \<and> a < p + 8}"

lemma spawn_memory:
  assumes "spawn grow gdt alloc map_page cr3 entry mode (s, m, f, mem) = Inr (s', m', f', mem')" and "mem' a \<noteq> mem a"
  shows "a \<in> stack_marks (length (tasks s))"
proof -
  obtain t where "task_new gdt alloc map_page cr3 entry (length (tasks s)) mode (m, f, mem) = Inr (t, m', f', mem')"
    using spawn_Inr [OF assms(1)] .
  from map_stack_pages_mem [OF task_new_Inr(2) [OF this] assms(2)] show ?thesis
    unfolding stack_marks_def stack_pages_of_def by auto
qed

text \<open>
  \<open>CURRENT_TASK\<close> survives a spawn exactly when the vector of tasks has room. While there is
  spare capacity the pointer still names the running task after the spawn; when the vector is
  full, the push moves it and the pointer is left dangling: the next timer interrupt starts by
  writing the interrupted context through a pointer that no longer points to a task of the
  scheduler.
\<close>

theorem spawn_current_pointer:
  assumes sp: "spawn grow gdt alloc map_page cr3 entry mode (sched c, mf) = Inr (s', mf')"
    and ok: "cpu_ok c" and al: "current_rsp mod 8 = 0"
  shows "(length (tasks (sched c)) < vec_cap (sched c) \<longrightarrow>
      deref s' (the (CURRENT_TASK c)) = tasks (sched c) ! sched_current (sched c)) \<and>
    (\<not> length (tasks (sched c)) < vec_cap (sched c) \<longrightarrow>
      rust_schedule_and_switch current_rsp saved irq (c\<lparr>sched := s'\<rparr>) = Some (Inl ''dangling CURRENT_TASK''))"
proof -
  obtain m f m' f' where mf: "mf = (m, f)" "mf' = (m', f')" by (cases mf, cases mf')
  obtain u where s': "s' = push_task grow (Some u) (sched c)"
    using spawn_Inr [OF sp [unfolded mf]] by metis
  have i: "sched_current (sched c) < length (tasks (sched c))"
    and cur: "CURRENT_TASK c = Some (vec_alloc (sched c), sched_current (sched c))"
    using ok by (simp_all add: cpu_ok_def)
  obtain t where t: "tasks (sched c) ! sched_current (sched c) = Some t" using cpu_ok_nth [OF ok i] by metis
  have "deref (sched c) (vec_alloc (sched c), sched_current (sched c)) = Some t" using i t by (simp add: deref_def)
  note d = deref_push [OF this, of grow "Some u", folded s']
  have "rust_schedule_and_switch current_rsp saved irq (c\<lparr>sched := s'\<rparr>) = Some (Inl ''dangling CURRENT_TASK'')"
    if "\<not> length (tasks (sched c)) < vec_cap (sched c)"
    using that d al cur by (subst rust_schedule_and_switch.simps) (simp add: save_context_def)
  then show ?thesis using d cur t by simp
qed

theorem spawn_current_pointer_witness:
  "\<exists>s' mf'. spawn (\<lambda>n. 2 * n) (Some demo_gdt) demo_alloc demo_map_page 0x1000 0xffffffff80001000 KernelMode
      (sched (demo_cpu 3), Map.empty, 0, \<lambda>_. 0) = Inr (s', mf') \<and>
     deref s' (1, 0) = Some (demo_task 0)"
proof -
  obtain s' m' f' where r: "spawn (\<lambda>n. 2 * n) (Some demo_gdt) demo_alloc demo_map_page 0x1000 0xffffffff80001000
    KernelMode (sched (demo_cpu 3), Map.empty, 0, \<lambda>_. 0) = Inr (s', m', f')"
    using demo_spawn [of "sched (demo_cpu 3)" Map.empty 0 "\<lambda>_. 0"] by (auto simp: demo_cpu_def)
  show ?thesis
    using spawn_current_pointer [OF r demo_cpu_ok, of 8] r by (fastforce simp: demo_cpu_def)
qed

lemma bit_three: "bit (3 :: nat) n \<longleftrightarrow> n < 2" "bit (3 :: int) n \<longleftrightarrow> n < 2"
proof -
  have m: "(3 :: nat) = mask 2" "(3 :: int) = mask 2" by (simp_all add: mask_eq_exp_minus_1)
  show "bit (3 :: nat) n \<longleftrightarrow> n < 2" "bit (3 :: int) n \<longleftrightarrow> n < 2"
    unfolding m by (auto simp: bit_mask_iff)
qed

lemma bit_not_three: "bit (- 4 :: int) n \<longleftrightarrow> 2 \<le> n"
proof -
  have "(- 4 :: int) = NOT 3" by simp
  then show ?thesis by (simp only: bit_not_int_iff bit_three not_less)
qed

lemma rpl_bits:
  fixes v :: u16
  shows "(ucast (v OR 3) :: u64) AND 3 = 3" "(ucast (v AND - 4) :: u64) AND 3 = 0"
    "drop_bit 2 (ucast (v OR 3) :: u64) = drop_bit 2 (ucast v)"
    "drop_bit 2 (ucast (v AND - 4) :: u64) = drop_bit 2 (ucast v)"
proof -
  show "(ucast (v OR 3) :: u64) AND 3 = 3"
    by (rule bit_word_eqI) (auto simp: bit_simps bit_three)
  show "(ucast (v AND - 4) :: u64) AND 3 = 0"
    by (rule bit_word_eqI) (auto simp: bit_simps bit_three bit_not_three)
  show "drop_bit 2 (ucast (v OR 3) :: u64) = drop_bit 2 (ucast v)"
    by (rule bit_word_eqI) (auto simp: bit_simps bit_three)
  show "drop_bit 2 (ucast (v AND - 4) :: u64) = drop_bit 2 (ucast v)"
    by (rule bit_word_eqI) (auto simp: bit_simps bit_three bit_not_three dest: bit_imp_le_length)
qed

text \<open>
  Privilege of a new context. Before the descriptor table is loaded preparing a context
  panics; after it, a user task gets selectors of ring 3 and interrupts enabled, and a kernel
  task gets selectors of ring 0 and interrupts disabled, whatever requested privilege bits the
  stored selectors carry; the descriptors are the stored ones.
\<close>

theorem prepare_context_privilege:
  "prepare_context None entry sp mode = Inl ''GDT not initialized'' \<and>
   (\<exists>c. prepare_context (Some s) entry sp mode = Inr c \<and>
     cs (frame c) AND 3 = (if mode = UserMode then 3 else 0) \<and>
     ss (frame c) AND 3 = (if mode = UserMode then 3 else 0) \<and>
     (bit (rflags (frame c)) 9 \<longleftrightarrow> mode = UserMode) \<and>
     drop_bit 2 (cs (frame c)) = drop_bit 2 (ucast (if mode = UserMode then sel_user_code s else sel_code s)) \<and>
     drop_bit 2 (ss (frame c)) = drop_bit 2 (ucast (if mode = UserMode then sel_user_data s else sel_data s)))"
  by (cases mode) (simp_all add: prepare_context_def rpl_bits)

end
