(* ===== verification/Launcher.thy ===== *)
theory Launcher
  imports Graph_Props Devices Elf Tasks
begin

unbundle bit_operations_syntax

text \<open>
  Starting user programs (\<open>src/kernel/src/task/launcher.rs\<close>, with the module lookup of
  \<open>bootloader.rs\<close> and the page table and jump of \<open>executable.rs\<close>): which boot modules become
  user modules, which module a launcher task takes, the identity and the initial capabilities of
  the task it turns into, and the way into user mode.
\<close>

section \<open>Boot modules\<close>

text \<open>The module cache is a map from paths to contents, listed in the order of the paths.\<close>

type_synonym boot_modules = "(string \<times> u8 list) list"

definition get_module :: "boot_modules \<Rightarrow> string \<Rightarrow> u8 list option" where
  "get_module mods name = map_option snd (find (\<lambda>(k, _). ends_with k name) mods)"

fun str_contains :: "string \<Rightarrow> string \<Rightarrow> bool" where
  "str_contains [] t \<longleftrightarrow> t = []"
| "str_contains (c # s) t \<longleftrightarrow> take (length t) (c # s) = t \<or> str_contains s t"

definition is_elf :: "u8 list \<Rightarrow> bool" where
  "is_elf d \<longleftrightarrow> take 4 d = [0x7f, 0x45, 0x4c, 0x46]"

record user_module =
  um_name :: string
  um_bundle :: bundle_id
  um_type :: bundle_type

record launcher =
  USER_MODULES :: "user_module list option"
  NEXT_USER_MODULE :: nat

definition launcher_off :: launcher where
  "launcher_off = \<lparr>USER_MODULES = None, NEXT_USER_MODULE = 0\<rparr>"

definition create_user_module :: "ext \<Rightarrow> string \<Rightarrow> bundle_type \<Rightarrow> kernel_graph \<Rightarrow> user_module \<times> kernel_graph" where
  "create_user_module x name ty g =
     (let (b, g') = create_package x name ty None g
      in (\<lparr>um_name = name, um_bundle = b, um_type = ty\<rparr>, g'))"

definition preferred_app :: "string \<Rightarrow> bool" where
  "preferred_app name \<longleftrightarrow> str_contains name ''demo_app'' \<or> str_contains name ''input_tester''"

fun create_user_modules ::
  "ext \<Rightarrow> (string \<times> bundle_type) list \<Rightarrow> kernel_graph \<Rightarrow> user_module list \<times> kernel_graph" where
  "create_user_modules x [] g = ([], g)"
| "create_user_modules x ((name, ty) # rest) g =
     (let (m, g1) = create_user_module x name ty g;
          (ms, g2) = create_user_modules x rest g1
      in (m # ms, g2))"

text \<open>The selection: the first init module alone, or else the drivers, the compositors and one app.\<close>

definition select_modules :: "boot_modules \<Rightarrow> (string \<times> bundle_type) list" where
  "select_modules mods =
     (case find (\<lambda>(name, d). str_contains name ''init'' \<and> is_elf d) mods of
        Some (name, _) \<Rightarrow> [(name, App)]
      | None \<Rightarrow>
          let elfs = map fst (filter (\<lambda>(_, d). is_elf d) mods);
              drivers = filter (\<lambda>n. from_name n = Driver) elfs;
              compositors = filter (\<lambda>n. from_name n = Compositor) elfs;
              app = find (\<lambda>n. from_name n = App \<and> preferred_app n) elfs
          in map (\<lambda>n. (n, Driver)) drivers @ map (\<lambda>n. (n, Compositor)) compositors @
             (case app of None \<Rightarrow> [] | Some n \<Rightarrow> [(n, App)]))"

definition init_user_modules :: "ext \<Rightarrow> boot_modules \<Rightarrow> kernel_graph \<times> launcher \<Rightarrow> kernel_graph \<times> launcher" where
  "init_user_modules x mods = (\<lambda>(g, l).
     let (ms, g') = create_user_modules x (select_modules mods) g
     in (g', \<lparr>USER_MODULES = Some ms, NEXT_USER_MODULE = 0\<rparr>))"

definition user_module_count :: "launcher \<Rightarrow> nat" where
  "user_module_count l = (case USER_MODULES l of None \<Rightarrow> 0 | Some ms \<Rightarrow> length ms)"

definition next_user_module :: "launcher \<Rightarrow> user_module option \<times> launcher" where
  "next_user_module l =
     (case USER_MODULES l of
        None \<Rightarrow> (None, l)
      | Some ms \<Rightarrow>
          let idx = NEXT_USER_MODULE l; l' = l\<lparr>NEXT_USER_MODULE := idx + 1\<rparr>
          in (if idx < length ms then Some (ms ! idx) else None, l'))"

text \<open>The launcher task skips modules without contents; without a module left it spins for ever (\<open>None\<close>).\<close>

definition module_len :: "boot_modules \<Rightarrow> string \<Rightarrow> nat" where
  "module_len mods name = (case get_module mods name of None \<Rightarrow> 0 | Some d \<Rightarrow> length d)"

function next_loadable_module :: "boot_modules \<Rightarrow> launcher \<Rightarrow> user_module option \<times> launcher" where
  "next_loadable_module mods l =
     (case next_user_module l of
        (None, l') \<Rightarrow> (None, l')
      | (Some m, l') \<Rightarrow> if module_len mods (um_name m) = 0 then next_loadable_module mods l' else (Some m, l'))"
  by pat_completeness auto
termination
  by (relation "measure (\<lambda>(mods, l). user_module_count l - NEXT_USER_MODULE l)")
    (auto simp: next_user_module_def user_module_count_def Let_def split: option.splits if_splits)

declare next_loadable_module.simps [simp del]

section \<open>Initial capabilities\<close>

definition KEYBOARD_DEVICE_NAME :: string where "KEYBOARD_DEVICE_NAME = ''ps2-keyboard0''"
definition MOUSE_DEVICE_NAME :: string where "MOUSE_DEVICE_NAME = ''ps2-mouse0''"
definition FRAMEBUFFER_DEVICE_NAME :: string where "FRAMEBUFFER_DEVICE_NAME = ''framebuffer0_device''"

definition driver_caps_for_name :: "ext \<Rightarrow> string \<Rightarrow> (uuid \<times> symbol list) option" where
  "driver_caps_for_name x name =
     (if str_contains name ''keyboard'' then
        Some (device_uuid x KEYBOARD_DEVICE_NAME, [canon_CAN_READ, canon_CAN_HANDLE_IRQ, canon_CAN_PORT_IO])
      else if str_contains name ''mouse'' then
        Some (device_uuid x MOUSE_DEVICE_NAME, [canon_CAN_READ, canon_CAN_HANDLE_IRQ, canon_CAN_PORT_IO])
      else if str_contains name ''framebuffer'' then
        Some (device_uuid x FRAMEBUFFER_DEVICE_NAME, [canon_CAN_WRITE, canon_CAN_READ, canon_CAN_MMIO])
      else None)"

fun grant_caps :: "ext \<Rightarrow> bundle_id \<Rightarrow> uuid \<Rightarrow> symbol list \<Rightarrow> kernel_graph \<Rightarrow> kernel_graph" where
  "grant_caps x b target [] g = g"
| "grant_caps x b target (cap # caps) g = grant_caps x b target caps (snd (grant_initial_capability x b target cap g))"

definition grant_initial_capabilities :: "ext \<Rightarrow> user_module \<Rightarrow> bundle_id \<Rightarrow> kernel_graph \<Rightarrow> kernel_graph" where
  "grant_initial_capabilities x m task_id g =
     (case um_type m of
        Driver \<Rightarrow> (case driver_caps_for_name x (um_name m) of
                     None \<Rightarrow> g | Some (device, caps) \<Rightarrow> grant_caps x task_id device caps g)
      | Compositor \<Rightarrow> grant_caps x task_id (device_uuid x FRAMEBUFFER_DEVICE_NAME)
                        [canon_CAN_WRITE, canon_CAN_READ, canon_CAN_MMIO] g
      | App \<Rightarrow> g)"

section \<open>Identity of a started task\<close>

definition drives_request :: "bundle_id \<Rightarrow> uuid \<Rightarrow> graph_that_request" where
  "drives_request task_id device =
     \<lparr>that_src = bundle_uuid task_id, that_pred = symbol_into_string canon_DRIVES, that_dst = device,
      that_revision_hint = 0, that_props = []\<rparr>"

definition launch_identity :: "ext \<Rightarrow> user_module \<Rightarrow> kernel_graph \<times> cpu \<Rightarrow> (bundle_id \<times> kernel_graph \<times> cpu) panics" where
  "launch_identity x m = (\<lambda>(g, c).
     let labels = (if um_type m = Driver then [canon_DRIVER] else []);
         (task_id, g1) = create_task (um_bundle m) (um_name m) labels g;
         g2 = (if um_type m = Driver
               then (case driver_caps_for_name x (um_name m) of
                       None \<Rightarrow> g1
                     | Some (device, _) \<Rightarrow> snd (that_for_bundle x task_id (drives_request task_id device) g1))
               else g1)
     in case assign_current_bundle task_id c of
          Inl e \<Rightarrow> Inl e
        | Inr c1 \<Rightarrow> Inr (task_id, grant_initial_capabilities x m task_id g2, c1))"

section \<open>The way into user mode\<close>

text \<open>
  A top-level page table is the list of its 512 entries over a type \<open>'e\<close> of the paging crate.
  \<open>code_ok\<close> and \<open>hhdm_ok\<close> are the two translations that are checked at the end: kernel code and
  the active table through the direct map.
\<close>

record 'e paging =
  pg_zero :: 'e
  pg_present :: "'e \<Rightarrow> bool"
  pg_code_ok :: "'e list \<Rightarrow> bool"
  pg_hhdm_ok :: "'e list \<Rightarrow> bool"

definition create_user_page_table ::
  "'e paging \<Rightarrow> 'f frame_alloc \<Rightarrow> nat \<Rightarrow> 'e list \<Rightarrow> 'f \<Rightarrow> (nat \<times> 'e list \<times> 'f) panics" where
  "create_user_page_table P alloc hhdm_index active f =
     (case alloc f of
        Inl e \<Rightarrow> Inl e
      | Inr (None, f1) \<Rightarrow> Inl ''No frame for user L4 page table''
      | Inr (Some fr, f1) \<Rightarrow>
          let table = replicate 256 (pg_zero P) @ drop 256 active
          in if \<not> pg_present P (table ! hhdm_index) then Inl ''HHDM PML4 entry not present in active page table!''
             else if \<not> pg_code_ok P table then Inl ''Kernel code not mapped in user page table!''
             else if \<not> pg_hhdm_ok P table then Inl ''HHDM not mapped in user page table!''
             else Inr (fr, table, f1))"

definition assert_canonical :: "u64 \<Rightarrow> unit panics" where
  "assert_canonical addr =
     (let bit47 = drop_bit 47 addr AND 1; high = drop_bit 48 addr
      in if (bit47 = 0 \<and> high \<noteq> 0) \<or> (bit47 = 1 \<and> high \<noteq> 0xFFFF) then Inl ''non-canonical address'' else Inr ())"

definition jump_to_context :: "full_context \<Rightarrow> u64 \<Rightarrow> cpu \<Rightarrow> (full_context \<times> cpu) panics" where
  "jump_to_context ctx table c =
     (if \<not> is_canonical (rip (frame ctx)) then Inl ''Non-canonical RIP''
      else if cs (frame ctx) = 0x8 \<and> \<not> (0xffffffff80000000 \<le> rip (frame ctx) \<and> rip (frame ctx) < 0xffffffff90000000)
      then Inl ''RIP out of kernel text region''
      else if cs (frame ctx) \<noteq> 0x8 \<and> \<not> rip (frame ctx) < 0x0000800000000000 then Inl ''RIP out of user text region''
      else Inr (ctx, c\<lparr>cpu_cr3 := table\<rparr>))"

definition jump_to_user :: "selectors option \<Rightarrow> u64 \<Rightarrow> u64 \<Rightarrow> u64 \<Rightarrow> cpu \<Rightarrow> (full_context \<times> cpu) panics" where
  "jump_to_user gdt entry sp table c =
     (case prepare_context gdt entry sp UserMode of
        Inl e \<Rightarrow> Inl e
      | Inr ctx \<Rightarrow> jump_to_context ctx table c)"

text \<open>What surrounds a launch: the modules and where they lie, the direct map and the active table.\<close>

record ('m, 'f, 'e) launch_env =
  lv_modules :: boot_modules
  lv_module_ptr :: "string \<Rightarrow> u64"
  lv_gdt :: "selectors option"
  lv_hhdm :: u64
  lv_hhdm_index :: nat
  lv_active :: "'e list"
  lv_paging :: "'e paging"
  lv_mapper :: "('m, 'f) mapper"
  lv_alloc :: "'f frame_alloc"
  lv_user_map :: "'e list \<Rightarrow> 'm"

datatype 'a launch = Spinning | LPanic string | Entered 'a

definition panic_or :: "'a panics \<Rightarrow> ('a \<Rightarrow> 'b launch) \<Rightarrow> 'b launch" where
  "panic_or r f = (case r of Inl e \<Rightarrow> LPanic e | Inr a \<Rightarrow> f a)"

text \<open>
  The whole of \<open>start_user_task\<close>: the kernel graph, the launcher, the cpu, the frames and the
  memory before and after. \<open>Entered\<close> is the context that \<open>iretq\<close> restores.
\<close>

definition start_user_task ::
  "ext \<Rightarrow> ('m, 'f, 'e) launch_env \<Rightarrow> kernel_graph \<times> launcher \<times> cpu \<times> 'f \<times> (nat \<Rightarrow> u8) \<Rightarrow>
   (full_context \<times> kernel_graph \<times> launcher \<times> cpu \<times> ('m, 'f) lstate) launch" where
  "start_user_task x v = (\<lambda>(g, l, c, f, mem).
     case next_loadable_module (lv_modules v) l of
       (None, l1) \<Rightarrow> Spinning
     | (Some m, l1) \<Rightarrow>
         panic_or (launch_identity x m (g, c)) (\<lambda>(task_id, g1, c1).
         case get_module (lv_modules v) (um_name m) of
           None \<Rightarrow> LPanic ''Module not found''
         | Some d \<Rightarrow>
             panic_or (assert_canonical (lv_module_ptr v (um_name m))) (\<lambda>_.
             panic_or (assert_canonical (lv_hhdm v)) (\<lambda>_.
             panic_or (create_user_page_table (lv_paging v) (lv_alloc v) (lv_hhdm_index v) (lv_active v) f) (\<lambda>(l4, table, f1).
             case load_elf (lv_mapper v) (lv_alloc v) (unat (lv_hhdm v)) d
                    \<lparr>ls_map = lv_user_map v table, ls_frames = f1, ls_mem = mem\<rparr> of
               Ok (le, s) \<Rightarrow>
                 panic_or (set_current_cr3 (of_nat l4) c1) (\<lambda>c2.
                 panic_or (jump_to_user (lv_gdt v) (of_nat (le_entry le)) (of_nat (le_stack_top le)) (of_nat l4) c2)
                   (\<lambda>(ctx, c3). Entered (ctx, g1, l1, c3, s)))
             | Err e \<Rightarrow> LPanic ''Failed to load ELF''
             | Panic e \<Rightarrow> LPanic e)))))"

section \<open>Spawning a module on request\<close>

definition spawn_module ::
  "ext \<Rightarrow> boot_modules \<Rightarrow> (nat \<Rightarrow> nat) \<Rightarrow> selectors option \<Rightarrow> ('f \<Rightarrow> nat option \<times> 'f) \<Rightarrow>
   (nat \<Rightarrow> nat \<Rightarrow> 'm \<times> 'f \<Rightarrow> ('m \<times> 'f) option) \<Rightarrow> u64 \<Rightarrow> u64 \<Rightarrow> string \<Rightarrow>
   kernel_graph \<times> launcher \<times> scheduler \<times> ('m, 'f) space \<Rightarrow>
   (bool \<times> kernel_graph \<times> launcher \<times> scheduler \<times> ('m, 'f) space) panics" where
  "spawn_module x mods grow gdt alloc map_page cr3 trampoline name = (\<lambda>(g, l, s, mf).
     case find (\<lambda>(k, _). str_contains k name) mods of
       None \<Rightarrow> Inr (False, g, l, s, mf)
     | Some (static_name, _) \<Rightarrow>
         let (m, g1) = create_user_module x static_name (from_name static_name) g
         in case USER_MODULES l of
              None \<Rightarrow> Inr (False, g1, l, s, mf)
            | Some ms \<Rightarrow>
                let l1 = l\<lparr>USER_MODULES := Some (ms @ [m])\<rparr>
                in (case spawn_kernel_with_allocator grow gdt alloc map_page cr3 trampoline (s, mf) of
                      Inl e \<Rightarrow> Inl e
                    | Inr (_, s1, mf1) \<Rightarrow> Inr (True, g1, l1, s1, mf1)))"

section \<open>What a launch grants\<close>

definition initial_caps :: "ext \<Rightarrow> user_module \<Rightarrow> (uuid \<times> symbol list) option" where
  "initial_caps x m =
     (case um_type m of
        Driver \<Rightarrow> driver_caps_for_name x (um_name m)
      | Compositor \<Rightarrow> Some (device_uuid x FRAMEBUFFER_DEVICE_NAME, [canon_CAN_WRITE, canon_CAN_READ, canon_CAN_MMIO])
      | App \<Rightarrow> None)"

lemma grant_initial_capabilities_eq:
  "grant_initial_capabilities x m t g =
     (case initial_caps x m of None \<Rightarrow> g | Some (device, caps) \<Rightarrow> grant_caps x t device caps g)"
  by (simp add: grant_initial_capabilities_def initial_caps_def split: bundle_type.splits)

definition grantable :: "symbol \<Rightarrow> bool" where
  "grantable c \<longleftrightarrow> is_data_capability (symbol_to_string c) \<or> is_hardware_capability (symbol_to_string c)"

lemma initial_caps_grantable: "initial_caps x m = Some (d, caps) \<Longrightarrow> list_all grantable caps \<and> length caps \<le> 3"
  by (auto simp: initial_caps_def driver_caps_for_name_def grantable_def is_data_capability_def is_hardware_capability_def
      split: bundle_type.splits if_splits)

lemma grant_caps_triples:
  assumes "store_inv (store_of g)" "room (store_of g) (2 * length caps)" "list_all grantable caps"
  shows "triples (store_of (grant_caps x b target caps g)) =
    triples (store_of g) \<union> {(bundle_uuid b, symbol_to_string c, target) | c. c \<in> set caps}"
  using assms
proof (induction caps arbitrary: g)
  case Nil
  then show ?case by simp
next
  case (Cons c caps)
  let ?r = "\<lparr>gc_grantee = bundle_uuid b, gc_target = target, gc_capability = symbol_to_string c\<rparr>"
  obtain ok s' j' where gr: "grant_capability x KERNEL_BUNDLE_ID ?r (store_of g, JOURNAL g) = (ok, s', j')"
    by (metis prod.collapse)
  have rm: "room (store_of g) (Suc (Suc (2 * length caps)))" using Cons.prems(2) by simp
  note gs = grant_capability_spec [OF Cons.prems(1) rm gr]
  have ok using gs(1) Cons.prems(3) by (auto simp: grant_allowed_def grantable_def)
  have g': "store_of (snd (grant_initial_capability x b target c g)) = s'"
    using gr by (simp add: grant_initial_capability_def api_grant_capability_def with_store_def)
  have "triples (store_of (grant_caps x b target (c # caps) g)) =
      triples s' \<union> {(bundle_uuid b, symbol_to_string d, target) | d. d \<in> set caps}"
    using Cons.IH [of "snd (grant_initial_capability x b target c g)"] gs(2,3) Cons.prems(3) by (simp add: g')
  then show ?case using gs(5) \<open>ok\<close> by auto
qed

lemma drives_refused:
  assumes inv: "store_inv (store_of g)" and rm: "room (store_of g) 2"
    and fresh: "\<forall>p n. (bundle_uuid b, p, n) \<notin> triples (store_of g)" and nk: "b \<noteq> KERNEL_BUNDLE_ID"
    and g': "g' = snd (that_for_bundle x b (drives_request b device) g)"
  shows "triples (store_of g') = triples (store_of g)" and "store_inv (store_of g')" and "room (store_of g') k \<longleftrightarrow> room (store_of g) k"
proof -
  let ?s = "store_of g" and ?r = "drives_request b device"
  have no: "\<not> can_link ?s b (bundle_uuid b) device (symbol_into_string canon_DRIVES)"
    using can_link_triple [OF inv _ nk] fresh by blast
  have "that x b ?r (?s, JOURNAL g) = (0, ?s, JOURNAL g)"
    using no by (simp add: that_def link_edge_eq drives_request_def Let_def)
  then have "store_of g' = ?s" by (simp add: g' that_for_bundle_def with_store_def)
  then show "triples (store_of g') = triples ?s" "store_inv (store_of g')" "room (store_of g') k \<longleftrightarrow> room ?s k"
    using inv by simp_all
qed

lemma current_bundle_assign:
  assumes "assign_current_bundle b c = Inr c'" "CURRENT_TASK c \<noteq> None"
  shows "current_bundle c' = Inr b"
  using assms by (auto simp: assign_current_bundle_def on_current_def current_bundle_def deref_def
      split: option.splits if_splits)

lemma current_bundle_cr3: "set_current_cr3 r c = Inr c' \<Longrightarrow> current_bundle c' = current_bundle c"
  by (auto simp: set_current_cr3_def on_current_def current_bundle_def deref_def split: option.splits if_splits)

lemma current_bundle_jump: "jump_to_user gdt entry sp table c = Inr (ctx, c') \<Longrightarrow> current_bundle c' = current_bundle c"
  by (auto simp: jump_to_user_def jump_to_context_def current_bundle_def cong: option.case_cong split: sum.splits if_splits)

lemma TASK_COUNTER_with_store [simp]: "TASK_COUNTER (snd (with_store f g)) = TASK_COUNTER g"
  by (simp add: with_store_def split: prod.splits)

lemma TASK_COUNTER_grant_caps: "TASK_COUNTER (grant_caps x b target caps g) = TASK_COUNTER g"
  by (induction caps arbitrary: g) (simp_all add: grant_initial_capability_def api_grant_capability_def)

text \<open>The identity a launch gives: the next task number, which no later launch gets.\<close>

lemma launch_identity_id:
  assumes "launch_identity x m (g, c) = Inr (task_id, g', c')"
  shows "task_id = BundleId (ucast (TASK_COUNTER g))" and "TASK_COUNTER g' = TASK_COUNTER g + 1"
    and "CURRENT_TASK c \<noteq> None \<Longrightarrow> current_bundle c' = Inr task_id"
proof -
  let ?t = "BundleId (ucast (TASK_COUNTER g))" and ?g1 = "g\<lparr>TASK_COUNTER := TASK_COUNTER g + 1\<rparr>"
  define g2 where "g2 = (if um_type m = Driver
      then (case driver_caps_for_name x (um_name m) of
              None \<Rightarrow> ?g1 | Some (device, _) \<Rightarrow> snd (that_for_bundle x ?t (drives_request ?t device) ?g1)) else ?g1)"
  have r: "assign_current_bundle ?t c = Inr c'" "task_id = ?t" "g' = grant_initial_capabilities x m ?t g2"
    using assms unfolding launch_identity_def create_task_def Let_def prod.case g2_def by (auto split: sum.splits)
  moreover have "TASK_COUNTER g2 = TASK_COUNTER g + 1"
    by (simp add: g2_def that_for_bundle_def split: option.splits)
  ultimately show "task_id = ?t" "TASK_COUNTER g' = TASK_COUNTER g + 1"
    by (simp_all add: grant_initial_capabilities_eq TASK_COUNTER_grant_caps split: option.splits)
  show "current_bundle c' = Inr task_id" if "CURRENT_TASK c \<noteq> None"
    using current_bundle_assign [OF r(1) that] r(2) by simp
qed

section \<open>Properties\<close>

text \<open>
  C21: a started task gets exactly the initial capabilities of its kind. Launching a module
  under a task id that has no authority yet makes the running task act under that id and adds to
  the graph's authority the capabilities of the module's device, to that device and for that
  task, and nothing else: an app gets none, a driver those of the device its name says, a
  compositor those of the framebuffer. In particular the edge that should record which device a
  driver drives is refused, because the new task owns neither end of it.
\<close>

theorem launch_grants_exact:
  assumes inv: "store_inv (store_of g)" and rm: "room (store_of g) 6"
    and fresh: "\<forall>p n. (ucast (TASK_COUNTER g), p, n) \<notin> triples (store_of g)"
    and cur: "CURRENT_TASK c \<noteq> None"
    and res: "launch_identity x m (g, c) = Inr (task_id, g', c')"
  shows "task_id = BundleId (ucast (TASK_COUNTER g)) \<and> current_bundle c' = Inr task_id \<and>
    triples (store_of g') = triples (store_of g) \<union>
      (case initial_caps x m of
         None \<Rightarrow> {}
       | Some (device, caps) \<Rightarrow> {(bundle_uuid task_id, symbol_to_string cap, device) | cap. cap \<in> set caps})"
proof -
  let ?t = "BundleId (ucast (TASK_COUNTER g))"
  let ?g1 = "g\<lparr>TASK_COUNTER := TASK_COUNTER g + 1\<rparr>"
  define g2 where "g2 = (if um_type m = Driver
      then (case driver_caps_for_name x (um_name m) of
              None \<Rightarrow> ?g1 | Some (device, _) \<Rightarrow> snd (that_for_bundle x ?t (drives_request ?t device) ?g1)) else ?g1)"
  obtain c1 where r: "assign_current_bundle ?t c = Inr c1" "task_id = ?t" "c' = c1"
    "g' = grant_initial_capabilities x m ?t g2"
    using res unfolding launch_identity_def create_task_def Let_def prod.case g2_def
    by (auto split: sum.splits)
  have s1: "store_of ?g1 = store_of g" by (simp add: store_of_def)
  have "room (store_of g) 2" using rm by (rule room_mono) simp
  note dr = drives_refused [of ?g1 ?t, unfolded s1, OF inv this _ task_id_not_kernel refl]
  have fr: "\<forall>p n. (bundle_uuid ?t, p, n) \<notin> triples (store_of g)" using fresh by simp
  have g2: "store_inv (store_of g2) \<and> room (store_of g2) 6 \<and> triples (store_of g2) = triples (store_of g)"
    unfolding g2_def using dr [OF fr] inv rm s1 by (auto split: option.splits)
  have "triples (store_of g') = triples (store_of g) \<union>
      (case initial_caps x m of
         None \<Rightarrow> {} | Some (device, caps) \<Rightarrow> {(bundle_uuid ?t, symbol_to_string cap, device) | cap. cap \<in> set caps})"
  proof (cases "initial_caps x m")
    case None
    then show ?thesis using g2 r(4) by (simp add: grant_initial_capabilities_eq)
  next
    case (Some dc)
    obtain device caps where dc: "dc = (device, caps)" by (cases dc)
    have cp: "list_all grantable caps" "length caps \<le> 3" using initial_caps_grantable Some dc by blast+
    have "room (store_of g2) (2 * length caps)" using g2 cp(2) room_mono [of "store_of g2" 6] by simp
    from grant_caps_triples [OF _ this cp(1)] g2 Some dc r(4) show ?thesis
      by (simp add: grant_initial_capabilities_eq)
  qed
  with current_bundle_assign [OF r(1) cur] show ?thesis unfolding r(2,3) by simp
qed

definition keyboard_module :: user_module where
  "keyboard_module = \<lparr>um_name = ''keyboard_driver'', um_bundle = BundleId 15, um_type = Driver\<rparr>"

theorem launch_grants_exact_witness:
  "\<exists>task_id g' c'. launch_identity demo_ext keyboard_module (graph_init graph_off, demo_cpu 1) = Inr (task_id, g', c') \<and>
     triples (store_of g') = {(0, ''CAN_READ'', 13), (0, ''CAN_HANDLE_IRQ'', 13), (0, ''CAN_PORT_IO'', 13)}"
proof -
  let ?g = "graph_init graph_off"
  have s: "store_of ?g = store_new" by (simp add: graph_init_def graph_off_def store_of_def)
  have "\<exists>c1. assign_current_bundle (BundleId 0) (demo_cpu 1) = Inr c1"
    by (simp add: assign_current_bundle_def on_current_def demo_cpu_def deref_def)
  then obtain r where r: "launch_identity demo_ext keyboard_module (?g, demo_cpu 1) = Inr r"
    by (auto simp: launch_identity_def create_task_def graph_init_def graph_off_def Let_def)
  obtain task_id g' c' where t: "r = (task_id, g', c')" by (cases r)
  have rm: "room store_new 6" by (simp add: room_def store_new_def)
  have "initial_caps demo_ext keyboard_module = Some (13, [canon_CAN_READ, canon_CAN_HANDLE_IRQ, canon_CAN_PORT_IO])"
    by (simp add: initial_caps_def keyboard_module_def driver_caps_for_name_def device_uuid_def demo_ext_def
        KEYBOARD_DEVICE_NAME_def as_bytes_def)
  moreover have "TASK_COUNTER ?g = 0" by (simp add: graph_init_def graph_off_def)
  moreover have "CURRENT_TASK (demo_cpu 1) \<noteq> None" by (simp add: demo_cpu_def)
  ultimately have "triples (store_of g') = {(0, symbol_to_string cap, 13) | cap. cap \<in> {canon_CAN_READ, canon_CAN_HANDLE_IRQ, canon_CAN_PORT_IO}}"
    using launch_grants_exact [of ?g "demo_cpu 1" demo_ext keyboard_module task_id g' c', unfolded s] rm r t
    by (simp add: store_inv_new)
  also have "\<dots> = {(0, ''CAN_READ'', 13), (0, ''CAN_HANDLE_IRQ'', 13), (0, ''CAN_PORT_IO'', 13)}"
    by (auto simp flip: reserved_pred_names)
  finally show ?thesis using r t by blast
qed

lemma panic_or_Entered: "panic_or r f = Entered a \<longleftrightarrow> (\<exists>b. r = Inr b \<and> f b = Entered a)"
  by (auto simp: panic_or_def split: sum.splits)

lemma outcome_Entered:
  "(case r of Ok a \<Rightarrow> k a | Err e \<Rightarrow> LPanic m | Panic e \<Rightarrow> LPanic e) = Entered y \<longleftrightarrow> (\<exists>a. r = Ok a \<and> k a = Entered y)"
  by (cases r) auto

lemma load_elf_Ok:
  assumes "load_elf M alloc hhdm d s = Ok (le, s')"
  obtains el where "elf_parse d = Ok el"
    "le = \<lparr>le_entry = load_base_of (elf_header el) + unat (e_entry (elf_header el)), le_stack_top = USER_STACK_TOP\<rparr>"
  using assms by (auto simp: load_elf_def obind_Ok virt_def split: outcome.splits if_splits)

lemma user_context:
  assumes "prepare_context gdt entry sp UserMode = Inr ctx"
  shows "cs (frame ctx) AND 3 = 3" "bit (rflags (frame ctx)) 9" "cs (frame ctx) \<noteq> 8"
proof -
  show cs: "cs (frame ctx) AND 3 = 3" "bit (rflags (frame ctx)) 9"
    using assms by (auto simp: prepare_context_def rpl_bits split: option.splits)
  show "cs (frame ctx) \<noteq> 8" using cs by auto
qed

lemma next_loadable_module_Some:
  "next_loadable_module mods l = (Some m, l') \<Longrightarrow> module_len mods (um_name m) \<noteq> 0"
proof (induction mods l rule: next_loadable_module.induct)
  case (1 mods l)
  then show ?case
    by (subst (asm) next_loadable_module.simps) (auto split: prod.splits option.splits if_splits)
qed

text \<open>
  C22: entering user mode. When \<open>start_user_task\<close> gets through, the processor enters ring 3 with
  interrupts on, at the entry point of the executable, below the kernel half, with cleared
  registers and the stack pointer at the top of the user stack, on a new page table whose lower
  half is empty before loading and whose upper half is the kernel's. The module it loaded is
  the first one left that has contents. The running task acts from then on under the next task
  number, and the counter has moved on, so that the next launch uses another number.
\<close>

theorem start_user_task_enters_user:
  assumes res: "start_user_task x v (g, l, c, f, mem) = Entered (ctx, g', l', c', s')"
    and cur: "CURRENT_TASK c \<noteq> None"
  shows "cs (frame ctx) AND 3 = 3 \<and> bit (rflags (frame ctx)) 9 \<and> rip (frame ctx) < 0x800000000000 \<and>
    rsp (frame ctx) = 0x700000000000 \<and> regs ctx = zero_registers \<and>
    (\<exists>l4 table f1. create_user_page_table (lv_paging v) (lv_alloc v) (lv_hhdm_index v) (lv_active v) f = Inr (l4, table, f1) \<and>
       cpu_cr3 c' = of_nat l4 \<and> take 256 table = replicate 256 (pg_zero (lv_paging v)) \<and> drop 256 table = drop 256 (lv_active v)) \<and>
    (\<exists>m d el. next_loadable_module (lv_modules v) l = (Some m, l') \<and> get_module (lv_modules v) (um_name m) = Some d \<and>
       d \<noteq> [] \<and> elf_parse d = Ok el \<and>
       rip (frame ctx) = of_nat (load_base_of (elf_header el) + unat (e_entry (elf_header el)))) \<and>
    current_bundle c' = Inr (BundleId (ucast (TASK_COUNTER g))) \<and> TASK_COUNTER g' = TASK_COUNTER g + 1"
proof -
  obtain m where m: "next_loadable_module (lv_modules v) l = (Some m, l')"
    and ctxs: "\<exists>d le l4 table f1 c2 s0. create_user_page_table (lv_paging v) (lv_alloc v) (lv_hhdm_index v) (lv_active v) f = Inr (l4, table, f1) \<and>
      get_module (lv_modules v) (um_name m) = Some d \<and>
      load_elf (lv_mapper v) (lv_alloc v) (unat (lv_hhdm v)) d s0 = Ok (le, s') \<and>
      jump_to_user (lv_gdt v) (of_nat (le_entry le)) (of_nat (le_stack_top le)) (of_nat l4) c2 = Inr (ctx, c')"
    and ids: "\<exists>task_id c1 c2 entry sp table. launch_identity x m (g, c) = Inr (task_id, g', c1) \<and>
      set_current_cr3 table c1 = Inr c2 \<and> jump_to_user (lv_gdt v) entry sp table c2 = Inr (ctx, c')"
    using res unfolding start_user_task_def prod.case
    by (auto simp: panic_or_Entered outcome_Entered split: prod.splits option.splits) blast+
  have id: "current_bundle c' = Inr (BundleId (ucast (TASK_COUNTER g))) \<and> TASK_COUNTER g' = TASK_COUNTER g + 1"
    using ids launch_identity_id cur by (metis current_bundle_cr3 current_bundle_jump)
  from ctxs
  obtain d le l4 table f1 c2 s0 where
    tb: "create_user_page_table (lv_paging v) (lv_alloc v) (lv_hhdm_index v) (lv_active v) f = Inr (l4, table, f1)"
    and d: "get_module (lv_modules v) (um_name m) = Some d"
    and le: "load_elf (lv_mapper v) (lv_alloc v) (unat (lv_hhdm v)) d s0 = Ok (le, s')"
    and j: "jump_to_user (lv_gdt v) (of_nat (le_entry le)) (of_nat (le_stack_top le)) (of_nat l4) c2 = Inr (ctx, c')"
    by blast
  obtain el where el: "elf_parse d = Ok el"
    "le = \<lparr>le_entry = load_base_of (elf_header el) + unat (e_entry (elf_header el)), le_stack_top = USER_STACK_TOP\<rparr>"
    using load_elf_Ok [OF le] .
  have p: "prepare_context (lv_gdt v) (of_nat (le_entry le)) (of_nat (le_stack_top le)) UserMode = Inr ctx"
    and jc: "jump_to_context ctx (of_nat l4) c2 = Inr (ctx, c')"
    using j by (auto simp: jump_to_user_def jump_to_context_def split: sum.splits if_splits)
  have "rip (frame ctx) < 0x800000000000"
    using jc user_context(3) [OF p] by (auto simp: jump_to_context_def split: if_splits)
  moreover have "d \<noteq> []"
    using next_loadable_module_Some [OF m] d by (auto simp: module_len_def)
  moreover have "cpu_cr3 c' = of_nat l4"
    using jc by (auto simp: jump_to_context_def split: if_splits)
  moreover have "take 256 table = replicate 256 (pg_zero (lv_paging v)) \<and> drop 256 table = drop 256 (lv_active v)"
    using tb by (auto simp: create_user_page_table_def Let_def split: sum.splits option.splits if_splits)
  ultimately show ?thesis
    using user_context [OF p] prepare_context_Inr [OF p] m d el tb id by (auto simp: USER_STACK_TOP_def)
qed

definition demo_env :: "(nat \<rightharpoonup> nat \<times> pt_flags, boot_frame_allocator \<times> sanity_capture, bool) launch_env" where
  "demo_env =
     \<lparr>lv_modules = [(''/boot/init'', demo_elf)], lv_module_ptr = (\<lambda>_. 0xffff800000100000), lv_gdt = Some demo_gdt,
      lv_hhdm = 0, lv_hhdm_index = 256, lv_active = replicate 512 True,
      lv_paging = \<lparr>pg_zero = False, pg_present = id, pg_code_ok = (\<lambda>_. True), pg_hhdm_ok = (\<lambda>_. True)\<rparr>,
      lv_mapper = demo_mapper, lv_alloc = allocate_frame None, lv_user_map = (\<lambda>_. Map.empty)\<rparr>"

definition demo_launcher :: launcher where
  "demo_launcher = \<lparr>USER_MODULES = Some [\<lparr>um_name = ''/boot/init'', um_bundle = BundleId 10, um_type = App\<rparr>], NEXT_USER_MODULE = 0\<rparr>"

lemma demo_start:
  "\<exists>ctx g' l' c' s'. start_user_task demo_ext demo_env
     (graph_init graph_off, demo_launcher, demo_cpu 1, ls_frames (demo_at 0 Map.empty mem), mem) = Entered (ctx, g', l', c', s')"
proof -
  let ?m = "\<lparr>um_name = ''/boot/init'', um_bundle = BundleId 10, um_type = App\<rparr>"
  have gm: "get_module (lv_modules demo_env) ''/boot/init'' = Some demo_elf"
    by (simp add: get_module_def demo_env_def ends_with_def)
  have "length demo_elf \<noteq> 0" by (simp add: demo_elf_def)
  then have nl: "next_loadable_module (lv_modules demo_env) demo_launcher = (Some ?m, demo_launcher\<lparr>NEXT_USER_MODULE := 1\<rparr>)"
    by (subst next_loadable_module.simps) (simp add: next_user_module_def demo_launcher_def module_len_def gm)
  obtain c1 where c1: "launch_identity demo_ext ?m (graph_init graph_off, demo_cpu 1) = Inr (BundleId 0, (graph_init graph_off)\<lparr>TASK_COUNTER := 1\<rparr>, c1)"
    "\<exists>t. deref (sched c1) (1, 0) = Some t" "CURRENT_TASK c1 = Some (1, 0)"
    by (simp add: launch_identity_def create_task_def graph_init_def graph_off_def grant_initial_capabilities_def
        assign_current_bundle_def on_current_def demo_cpu_def deref_def)
  have al: "allocate_frame None (ls_frames (demo_at 0 Map.empty mem)) = Inr (Some 0x5000000, ls_frames (demo_at 1 Map.empty mem))"
    using demo_fresh [of 0 "[]" Map.empty mem] by (auto simp: fresh_frame_def demo_at_def split: sum.splits prod.splits option.splits)
  have tb: "create_user_page_table (lv_paging demo_env) (lv_alloc demo_env) (lv_hhdm_index demo_env) (lv_active demo_env)
      (ls_frames (demo_at 0 Map.empty mem)) =
      Inr (0x5000000, replicate 256 False @ replicate 256 True, ls_frames (demo_at 1 Map.empty mem))"
    by (simp add: create_user_page_table_def demo_env_def al Let_def nth_append drop_replicate)
  obtain le s where le: "load_elf demo_mapper (allocate_frame None) 0 demo_elf (demo_at 1 Map.empty mem) = Ok (le, s)"
    using demo_load [of 1 mem] by auto
  obtain h where h: "elf_parse demo_elf = Ok \<lparr>elf_header = h, program_headers = [Some demo_ph]\<rparr>" "e_type h = 2" "e_entry h = 0x400000"
    using demo_elf_parse by blast
  have lev: "le = \<lparr>le_entry = 0x400000, le_stack_top = USER_STACK_TOP\<rparr>"
    using load_elf_Ok [OF le] h by (auto simp: load_base_of_def ET_DYN_def)
  obtain c2 where c2: "set_current_cr3 0x5000000 c1 = Inr c2"
    using c1(2,3) by (auto simp: set_current_cr3_def on_current_def)
  have "\<exists>ctx c3. jump_to_user (Some demo_gdt) 0x400000 (of_nat USER_STACK_TOP) 0x5000000 c2 = Inr (ctx, c3)"
    by (simp add: jump_to_user_def prepare_context_def demo_gdt_def jump_to_context_def is_canonical_def)
  moreover have "demo_at 1 Map.empty mem = \<lparr>ls_map = Map.empty, ls_frames = ls_frames (demo_at 1 Map.empty mem), ls_mem = mem\<rparr>"
    by (simp add: demo_at_def)
  moreover have "assert_canonical (lv_module_ptr demo_env n) = Inr ()" "assert_canonical (lv_hhdm demo_env) = Inr ()" for n
    by (simp_all add: assert_canonical_def demo_env_def)
  ultimately show ?thesis
    using nl c1(1) gm tb le lev c2 unfolding start_user_task_def
    by (auto simp: panic_or_Entered outcome_Entered demo_env_def)
qed

theorem start_user_task_enters_user_witness:
  "\<exists>ctx g' l' c' s'. start_user_task demo_ext demo_env
     (graph_init graph_off, demo_launcher, demo_cpu 1, ls_frames (demo_at 0 Map.empty (\<lambda>_. 0)), \<lambda>_. 0) = Entered (ctx, g', l', c', s') \<and>
     cs (frame ctx) AND 3 = 3 \<and> rsp (frame ctx) = 0x700000000000 \<and> current_bundle c' = Inr (BundleId 0)"
proof -
  obtain ctx g' l' c' s' where r: "start_user_task demo_ext demo_env
     (graph_init graph_off, demo_launcher, demo_cpu 1, ls_frames (demo_at 0 Map.empty (\<lambda>_. 0)), \<lambda>_. 0) = Entered (ctx, g', l', c', s')"
    using demo_start [of "\<lambda>_. 0"] by blast
  have "CURRENT_TASK (demo_cpu 1) \<noteq> None" "TASK_COUNTER (graph_init graph_off) = 0"
    by (simp_all add: demo_cpu_def graph_init_def graph_off_def)
  with r start_user_task_enters_user [OF r] show ?thesis by auto
qed

end
