(* ===== verification/Endpoints.thy ===== *)
theory Endpoints
  imports Launcher
begin

unbundle bit_operations_syntax

text \<open>
  The devices the kernel registers at boot (\<open>src/kernel/src/drivers/framebuffer.rs\<close>,
  \<open>serial.rs\<close>, \<open>keyboard.rs\<close>, \<open>mouse.rs\<close>) with their read, write and map callbacks over one
  record of device state, and the graph runtime the kernel offers to in-kernel clients
  (\<open>src/kernel/src/system/direct_runtime.rs\<close>).
\<close>

section \<open>Device state\<close>

record framebuffer_info =
  fi_width :: u64
  fi_height :: u64
  fi_pitch :: u64
  fi_bpp :: u64
  fi_addr :: u64

definition framebuffer_info_bytes :: "framebuffer_info \<Rightarrow> u8 list" where
  "framebuffer_info_bytes i =
     to_le_bytes 8 (fi_width i) @ to_le_bytes 8 (fi_height i) @ to_le_bytes 8 (fi_pitch i) @
     to_le_bytes 8 (fi_bpp i) @ to_le_bytes 8 (fi_addr i)"

text \<open>\<open>fb_ptr\<close> and \<open>fb_len\<close> are the slice \<open>fb\<close> of 32-bit pixels: where it lies and its length.\<close>

record framebuffer =
  fb_ptr :: nat
  fb_len :: nat
  fb_width :: nat
  fb_height :: nat
  fb_pitch :: nat
  fb_pitch_pixels :: nat
  fb_bpp :: u16

text \<open>
  \<open>io_mem\<close> is memory as a write callback sees it: the system call hands memory over before it
  calls a driver and takes it back afterwards.
\<close>

record io =
  KEYBOARD_BUFFER :: "u8 input_buffer"
  MOUSE_RAW_BYTES :: "u8 input_buffer"
  serial_out :: "u8 list"
  FRAMEBUFFER_INFO :: "framebuffer_info option"
  FRAMEBUFFER_VIRT_RANGE :: "(u64 \<times> u64) option"
  FRAMEBUFFER_REGION :: "(u64 \<times> usize) option"
  FRAMEBUFFER_DEVICE :: "framebuffer option"
  io_mem :: "nat \<Rightarrow> u8"

definition io_off :: io where
  "io_off =
     \<lparr>KEYBOARD_BUFFER = ib_new KEYBOARD_BUFFER_LEN 0, MOUSE_RAW_BYTES = ib_new MOUSE_RAW_CAPACITY 0, serial_out = [],
      FRAMEBUFFER_INFO = None, FRAMEBUFFER_VIRT_RANGE = None, FRAMEBUFFER_REGION = None, FRAMEBUFFER_DEVICE = None,
      io_mem = (\<lambda>_. 0)\<rparr>"

section \<open>Framebuffer\<close>

text \<open>What the boot loader says of a framebuffer.\<close>

record boot_framebuffer =
  bf_width :: u64
  bf_height :: u64
  bf_pitch :: u64
  bf_bpp :: u16
  bf_addr :: u64

definition framebuffer_new :: "boot_framebuffer list option \<Rightarrow> io \<Rightarrow> (framebuffer option \<times> io) panics" where
  "framebuffer_new response d =
     (case response of
        None \<Rightarrow> Inr (None, d)
      | Some [] \<Rightarrow> Inr (None, d)
      | Some (b # _) \<Rightarrow>
          let pitch_pixels = unat (bf_pitch b) div 4; len = pitch_pixels * unat (bf_height b)
          in if len * 4 \<ge> 2 ^ 64 then Inl ''attempt to multiply with overflow''
             else if unat (bf_addr b) + len * 4 \<ge> 2 ^ 64 then Inl ''attempt to add with overflow''
             else Inr
               (Some \<lparr>fb_ptr = unat (bf_addr b), fb_len = len, fb_width = unat (bf_width b),
                      fb_height = unat (bf_height b), fb_pitch = unat (bf_pitch b),
                      fb_pitch_pixels = pitch_pixels, fb_bpp = bf_bpp b\<rparr>,
                d\<lparr>FRAMEBUFFER_INFO := Some \<lparr>fi_width = bf_width b, fi_height = bf_height b, fi_pitch = bf_pitch b,
                                            fi_bpp = ucast (bf_bpp b), fi_addr = bf_addr b\<rparr>,
                  FRAMEBUFFER_VIRT_RANGE := Some (bf_addr b, bf_addr b + of_nat (len * 4)),
                  FRAMEBUFFER_REGION := Some (bf_addr b, of_nat (len * 4))\<rparr>))"

definition map_framebuffer :: "io \<Rightarrow> (u64 \<times> usize) option" where
  "map_framebuffer d = FRAMEBUFFER_REGION d"

definition write_framebuffer :: "u8 list \<Rightarrow> io \<Rightarrow> nat \<times> io" where
  "write_framebuffer buf d =
     (case FRAMEBUFFER_DEVICE d of
        None \<Rightarrow> (0, d)
      | Some fb \<Rightarrow>
          let n = min (length buf) (fb_len fb * 4)
          in (n, if n > 0 then d\<lparr>io_mem := write_bytes (fb_ptr fb) (take n buf) (io_mem d)\<rparr> else d))"

definition read_framebuffer :: "u8 list \<Rightarrow> io \<Rightarrow> nat \<times> u8 list \<times> io" where
  "read_framebuffer buf d =
     (case FRAMEBUFFER_DEVICE d of
        None \<Rightarrow> (0, buf, d)
      | Some fb \<Rightarrow>
          if length buf < 16 then (0, buf, d)
          else (16,
                to_le_bytes 4 (of_nat (fb_width fb) :: u32) @ to_le_bytes 4 (of_nat (fb_height fb) :: u32) @
                to_le_bytes 4 (of_nat (fb_pitch fb) :: u32) @ to_le_bytes 4 (ucast (fb_bpp fb) :: u32) @ drop 16 buf, d))"

definition framebuffer_fields :: "framebuffer \<Rightarrow> io \<Rightarrow> gmap" where
  "framebuffer_fields fb d =
     (let f1 = bt_insert canon_WIDTH (VU64 (of_nat (fb_width fb))) [];
          f2 = bt_insert canon_HEIGHT (VU64 (of_nat (fb_height fb))) f1;
          f3 = bt_insert canon_PITCH (VU64 (of_nat (fb_pitch fb))) f2;
          f4 = bt_insert canon_BPP (VU64 (ucast (fb_bpp fb))) f3;
          f5 = bt_insert canon_KIND (VText ''framebuffer'') f4;
          f6 = bt_insert canon_MODE (VText ''native'') f5
      in case FRAMEBUFFER_REGION d of None \<Rightarrow> f6 | Some (addr, _) \<Rightarrow> bt_insert canon_ADDR (VU64 addr) f6)"

definition register_framebuffer_device ::
  "ext \<Rightarrow> framebuffer \<Rightarrow> kernel_graph \<times> io device_table \<times> io \<Rightarrow> kernel_graph \<times> io device_table \<times> io" where
  "register_framebuffer_device x fb = (\<lambda>(g, t, d).
     let (node, g') = create_device_node x canon_DEVICE FRAMEBUFFER_DEVICE_NAME (framebuffer_fields fb d) g;
         d' = d\<lparr>FRAMEBUFFER_DEVICE := Some fb\<rparr>;
         (_, t') = register_device Framebuffer (Some read_framebuffer) (Some write_framebuffer) (Some map_framebuffer) (Some node) t
     in (g', t', d'))"

section \<open>Serial port\<close>

text \<open>
  The bytes sent through the port, in order. \<open>write_byte\<close> polls the transmit-empty bit of the
  line status register; the port is taken to become ready.
\<close>

definition write_byte :: "u8 \<Rightarrow> io \<Rightarrow> io" where
  "write_byte b d = d\<lparr>serial_out := serial_out d @ [b]\<rparr>"

definition write_str :: "string \<Rightarrow> io \<Rightarrow> io" where
  "write_str s = fold write_byte (as_bytes s)"

text \<open>\<open>_print\<close> gives up when another context holds the port.\<close>

definition serial_print :: "bool \<Rightarrow> string \<Rightarrow> io \<Rightarrow> io" where
  "serial_print locked s d = (if locked then d else write_str s d)"

definition write_serial :: "u8 list \<Rightarrow> io \<Rightarrow> nat \<times> io" where
  "write_serial buf d = (length buf, fold write_byte buf d)"

definition hex_digit :: "u64 \<Rightarrow> u8" where
  "hex_digit v = (if v < 10 then 0x30 + ucast v else 0x41 + ucast (v - 10))"

fun hex_loop :: "nat \<Rightarrow> u64 \<Rightarrow> u8 list \<Rightarrow> u8 list" where
  "hex_loop 0 val buf = buf"
| "hex_loop (Suc i) val buf = hex_loop i (drop_bit 4 val) (buf[2 + i := hex_digit (val AND 0xF)])"

definition raw_write_hex :: "u64 \<Rightarrow> io \<Rightarrow> io" where
  "raw_write_hex val = fold write_byte (hex_loop 16 val (0x30 # 0x78 # replicate 16 0))"

definition init_serial :: "io device_table \<Rightarrow> io device_table" where
  "init_serial t = snd (register_device Serial None (Some write_serial) None None t)"

section \<open>Keyboard and mouse\<close>

definition kbd_endpoint :: "u8 list \<Rightarrow> io \<Rightarrow> nat \<times> u8 list \<times> io" where
  "kbd_endpoint buf d = (case read_keyboard buf (KEYBOARD_BUFFER d) of (n, buf', q) \<Rightarrow> (n, buf', d\<lparr>KEYBOARD_BUFFER := q\<rparr>))"

definition mouse_endpoint :: "u8 list \<Rightarrow> io \<Rightarrow> nat \<times> u8 list \<times> io" where
  "mouse_endpoint buf d = (case read_mouse buf (MOUSE_RAW_BYTES d) of (n, buf', q) \<Rightarrow> (n, buf', d\<lparr>MOUSE_RAW_BYTES := q\<rparr>))"

definition ps2_fields :: "u64 \<Rightarrow> string \<Rightarrow> gmap" where
  "ps2_fields line kind =
     bt_insert canon_MODE (VText ''native'') (bt_insert canon_KIND (VText kind) (bt_insert canon_IRQ_LINE (VU64 line) []))"

definition keyboard_init :: "ext \<Rightarrow> kernel_graph \<times> io device_table \<Rightarrow> kernel_graph \<times> io device_table" where
  "keyboard_init x = (\<lambda>(g, t).
     let (node, g') = create_device_node x canon_DEVICE KEYBOARD_DEVICE_NAME (ps2_fields 1 ''keyboard'') g
     in (g', snd (register_device Keyboard (Some kbd_endpoint) None None (Some node) t)))"

definition mouse_init :: "ext \<Rightarrow> kernel_graph \<times> io device_table \<Rightarrow> kernel_graph \<times> io device_table" where
  "mouse_init x = (\<lambda>(g, t).
     let (node, g') = create_device_node x canon_DEVICE MOUSE_DEVICE_NAME (ps2_fields 12 ''mouse'') g
     in (g', snd (register_device Mouse (Some mouse_endpoint) None None (Some node) t)))"

definition init_drivers ::
  "ext \<Rightarrow> boot_framebuffer list option \<Rightarrow> kernel_graph \<times> io device_table \<times> io \<Rightarrow>
   (kernel_graph \<times> io device_table \<times> io) panics" where
  "init_drivers x response = (\<lambda>(g, t, d).
     case framebuffer_new response d of
       Inl e \<Rightarrow> Inl e
     | Inr (None, _) \<Rightarrow> Inl ''Framebuffer not available''
     | Inr (Some fb, d1) \<Rightarrow>
         let (g2, t2, d2) = register_framebuffer_device x fb (g, t, d1);
             (g3, t3) = keyboard_init x (g2, init_serial t2);
             (g4, t4) = mouse_init x (g3, t3)
         in Inr (g4, t4, d2))"

end
