(* ===== verification/Syscall.thy ===== *)
theory Syscall
  imports Endpoints
begin

text \<open>
  The system call interface (\<open>src/kernel/src/arch/x86_64/syscall.rs\<close>): validation of user
  buffers, every handler, and the dispatcher. The kernel state gathers the components the
  handlers reach. \<open>k_mem\<close> is memory as the current address space shows it; a validated buffer
  may still be unmapped, which the processor answers with a page fault, so the model speaks of
  calls whose buffers are mapped. The kernel's own diagnostic lines are not kept in \<open>serial_out\<close>.
\<close>

section \<open>Requests and codecs\<close>

record graph_find_by_kind_request =
  fbk_kind_ptr :: u64
  fbk_kind_len :: u64
  fbk_cursor :: u64

record irq_bind_request =
  ibr_device :: uuid
  ibr_irq_line :: u8

record dma_map_request =
  dmr_buffer :: uuid
  dmr_flags :: u64

record dma_submit_request =
  dsr_device :: uuid
  dsr_mapping :: u64
  dsr_bytes :: u64

record dma_wait_request =
  dwr_handle :: u64
  dwr_timeout_ms :: u64

text \<open>
  The decoders and encoders of the postcard crate and the byte form of the uuid crate;
  \<open>None\<close> is their error.
\<close>

record codec =
  de_fiat :: "u8 list \<Rightarrow> graph_fiat_request option"
  de_link :: "u8 list \<Rightarrow> graph_link_request option"
  de_pattern :: "u8 list \<Rightarrow> node_pattern option"
  de_watch_query :: "u8 list \<Rightarrow> watch_query option"
  de_get :: "u8 list \<Rightarrow> graph_get_request option"
  de_find :: "u8 list \<Rightarrow> graph_find_by_kind_request option"
  de_props_get :: "u8 list \<Rightarrow> graph_props_get_request option"
  de_props :: "u8 list \<Rightarrow> graph_props_request option"
  de_grant :: "u8 list \<Rightarrow> grant_capability_request option"
  de_irq_bind :: "u8 list \<Rightarrow> irq_bind_request option"
  de_dma_map :: "u8 list \<Rightarrow> dma_map_request option"
  de_dma_submit :: "u8 list \<Rightarrow> dma_submit_request option"
  de_dma_wait :: "u8 list \<Rightarrow> dma_wait_request option"
  en_things :: "graph_thing list \<Rightarrow> u8 list option"
  en_map :: "gmap \<Rightarrow> u8 list option"
  uuid_as_bytes :: "uuid \<Rightarrow> u8 list"
  uuid_from_slice :: "u8 list \<Rightarrow> uuid option"

section \<open>Kernel state\<close>

record ('m, 'f) kstate =
  k_hw :: hw
  k_devices :: "io device_table"
  k_io :: io
  k_cpu :: cpu
  k_launcher :: launcher
  k_map :: 'm
  k_frames :: 'f
  k_mem :: "nat \<Rightarrow> u8"

text \<open>
  What stays fixed while the system runs: the third-party codecs, the boot modules, the
  selectors, the growth of vectors, the page mapper and the frame allocator.
\<close>

record ('m, 'f) sys_env =
  sv_ext :: ext
  sv_wire :: wire
  sv_codec :: codec
  sv_modules :: boot_modules
  sv_grow :: "nat \<Rightarrow> nat"
  sv_gdt :: "selectors option"
  sv_alloc :: "'f \<Rightarrow> nat option \<times> 'f"
  sv_map_page :: "nat \<Rightarrow> nat \<Rightarrow> 'm \<times> 'f \<Rightarrow> ('m \<times> 'f) option"
  sv_trampoline :: u64

type_synonym ('m, 'f) handler = "('m, 'f) kstate \<Rightarrow> (u64 \<times> ('m, 'f) kstate) panics"

abbreviation k_graph :: "('m, 'f) kstate \<Rightarrow> kernel_graph" where
  "k_graph k \<equiv> hw_graph (k_hw k)"

definition set_graph :: "kernel_graph \<Rightarrow> ('m, 'f) kstate \<Rightarrow> ('m, 'f) kstate" where
  "set_graph g k = k\<lparr>k_hw := (k_hw k)\<lparr>hw_graph := g\<rparr>\<rparr>"

section \<open>User buffers\<close>

text \<open>The address and length of a valid buffer; the empty slice is length 0.\<close>

definition validate_user_slice :: "u64 \<Rightarrow> u64 \<Rightarrow> (nat \<times> nat) option" where
  "validate_user_slice ptr len =
     (if ptr = 0 then (if len = 0 then Some (0, 0) else None)
      else if len = 0 then Some (0, 0)
      else if unat ptr \<ge> USER_LIMIT then None
      else case checked_add ptr len of
             None \<Rightarrow> None
           | Some e \<Rightarrow> if unat e \<ge> USER_LIMIT then None else Some (unat ptr, unat len))"

definition read_user :: "(nat \<Rightarrow> u8) \<Rightarrow> nat \<times> nat \<Rightarrow> u8 list" where
  "read_user mem = (\<lambda>(a, n). map (\<lambda>i. mem (a + i)) [0..<n])"

definition user_slice :: "u64 \<Rightarrow> u64 \<Rightarrow> ('m, 'f) kstate \<Rightarrow> u8 list option" where
  "user_slice ptr len k = map_option (read_user (k_mem k)) (validate_user_slice ptr len)"

definition copy_out_slice :: "u8 list \<Rightarrow> u64 \<Rightarrow> u64 \<Rightarrow> ('m, 'f) handler" where
  "copy_out_slice buf out_ptr out_len k =
     (let required = of_nat (length buf)
      in case validate_user_slice out_ptr out_len of
           None \<Rightarrow> Inr (required, k)
         | Some (a, n) \<Rightarrow>
             if out_len < required then Inr (required, k)
             else if n < length buf then Inl ''range end index out of range for slice''
             else Inr (required, k\<lparr>k_mem := write_bytes a buf (k_mem k)\<rparr>))"

text \<open>The two shapes most handlers share: decode a request, act as the current bundle.\<close>

definition with_bundle :: "(bundle_id \<Rightarrow> ('m, 'f) handler) \<Rightarrow> ('m, 'f) handler" where
  "with_bundle f k = (case current_bundle (k_cpu k) of Inl e \<Rightarrow> Inl e | Inr b \<Rightarrow> f b k)"

definition with_request ::
  "(u8 list \<Rightarrow> 'r option) \<Rightarrow> u64 \<Rightarrow> u64 \<Rightarrow> ('r \<Rightarrow> bundle_id \<Rightarrow> ('m, 'f) handler) \<Rightarrow> ('m, 'f) handler" where
  "with_request de ptr len f k =
     (case user_slice ptr len k of
        None \<Rightarrow> Inr (- 1, k)
      | Some buf \<Rightarrow> (case de buf of None \<Rightarrow> Inr (- 1, k) | Some r \<Rightarrow> with_bundle (f r) k))"

definition flag :: "bool \<Rightarrow> u64" where
  "flag ok = (if ok then 0 else - 1)"

definition handle_or :: "u64 option \<Rightarrow> u64" where
  "handle_or r = (case r of None \<Rightarrow> - 1 | Some h \<Rightarrow> h)"

section \<open>Graph calls\<close>

definition sys_graph_fiat :: "('m, 'f) sys_env \<Rightarrow> u64 \<Rightarrow> u64 \<Rightarrow> ('m, 'f) handler" where
  "sys_graph_fiat v req_ptr req_len =
     with_request (de_fiat (sv_codec v)) req_ptr req_len (\<lambda>r b k.
       let (thing, g) = fiat_for_bundle (sv_ext v) b r (k_graph k)
       in Inr (thing_revision thing, set_graph g k))"

definition sys_graph_link :: "('m, 'f) sys_env \<Rightarrow> u64 \<Rightarrow> u64 \<Rightarrow> ('m, 'f) handler" where
  "sys_graph_link v req_ptr req_len =
     with_request (de_link (sv_codec v)) req_ptr req_len (\<lambda>r b k.
       let (revision, g) = api_link (sv_ext v) b r (k_graph k) in Inr (revision, set_graph g k))"

definition sys_watch_register :: "('m, 'f) sys_env \<Rightarrow> u64 \<Rightarrow> u64 \<Rightarrow> ('m, 'f) handler" where
  "sys_watch_register v req_ptr req_len k =
     (case user_slice req_ptr req_len k of
        None \<Rightarrow> Inr (- 1, k)
      | Some buf \<Rightarrow>
          (case de_pattern (sv_codec v) buf of
             Some pattern \<Rightarrow>
               with_bundle (\<lambda>b k. let (i, g) = api_register_watch_pattern b pattern (k_graph k) in Inr (i, set_graph g k)) k
           | None \<Rightarrow>
               (case de_watch_query (sv_codec v) buf of
                  None \<Rightarrow> Inr (- 1, k)
                | Some query \<Rightarrow>
                    with_bundle (\<lambda>b k. let (i, g) = api_register_watch b query (k_graph k) in Inr (i, set_graph g k)) k)))"

definition sys_watch_poll :: "('m, 'f) sys_env \<Rightarrow> u64 \<Rightarrow> u64 \<Rightarrow> u64 \<Rightarrow> ('m, 'f) handler" where
  "sys_watch_poll v i out_ptr out_len k =
     (let (r, g) = export_watch_events (sv_wire v) i (k_graph k); k1 = set_graph g k
      in case r of None \<Rightarrow> Inr (- 1, k1) | Some bytes \<Rightarrow> copy_out_slice bytes out_ptr out_len k1)"

text \<open>The end of a call that answers with an optional serialised result.\<close>

definition answer :: "u8 list option \<Rightarrow> u64 \<Rightarrow> u64 \<Rightarrow> ('m, 'f) handler" where
  "answer r out_ptr out_len k = (case r of None \<Rightarrow> Inr (- 1, k) | Some bytes \<Rightarrow> copy_out_slice bytes out_ptr out_len k)"

definition get_request :: "codec \<Rightarrow> u64 \<Rightarrow> u8 list \<Rightarrow> graph_get_request option" where
  "get_request c req_len buf =
     (case de_get c buf of
        Some r \<Rightarrow> Some r
      | None \<Rightarrow> if req_len = 16 then map_option GetThing (uuid_from_slice c buf) else None)"

definition sys_graph_get :: "('m, 'f) sys_env \<Rightarrow> u64 \<Rightarrow> u64 \<Rightarrow> u64 \<Rightarrow> u64 \<Rightarrow> ('m, 'f) handler" where
  "sys_graph_get v req_ptr req_len out_ptr out_len =
     with_request (get_request (sv_codec v) req_len) req_ptr req_len (\<lambda>r b k.
       case r of
         GetThing i \<Rightarrow>
           let (bytes, g) = export_thing_bytes (sv_wire v) b i (k_graph k) in answer bytes out_ptr out_len (set_graph g k)
       | GetPattern pattern \<Rightarrow>
           let (nodes, g) = api_get_nodes b pattern (k_graph k)
           in answer (en_things (sv_codec v) nodes) out_ptr out_len (set_graph g k))"

definition sys_graph_find_by_kind :: "('m, 'f) sys_env \<Rightarrow> u64 \<Rightarrow> u64 \<Rightarrow> u64 \<Rightarrow> ('m, 'f) handler" where
  "sys_graph_find_by_kind v req_ptr out_ptr out_len k =
     (case user_slice req_ptr 24 k of
        None \<Rightarrow> Inr (- 1, k)
      | Some req_buf \<Rightarrow>
          (case de_find (sv_codec v) req_buf of
             None \<Rightarrow> Inr (- 1, k)
           | Some r \<Rightarrow>
               with_request from_utf8 (fbk_kind_ptr r) (fbk_kind_len r) (\<lambda>kind b k.
                 let (bytes, g) = export_find_by_kind_bytes (sv_wire v) b kind (fbk_cursor r) (k_graph k)
                 in answer bytes out_ptr out_len (set_graph g k)) k))"

definition sys_graph_get_props :: "('m, 'f) sys_env \<Rightarrow> u64 \<Rightarrow> u64 \<Rightarrow> u64 \<Rightarrow> u64 \<Rightarrow> ('m, 'f) handler" where
  "sys_graph_get_props v req_ptr req_len out_ptr out_len =
     with_request (de_props_get (sv_codec v)) req_ptr req_len (\<lambda>r b k.
       let (m, g) = api_get_props b r (k_graph k)
       in answer (Option.bind m (en_map (sv_codec v))) out_ptr out_len (set_graph g k))"

definition sys_graph_set_props :: "('m, 'f) sys_env \<Rightarrow> u64 \<Rightarrow> u64 \<Rightarrow> ('m, 'f) handler" where
  "sys_graph_set_props v req_ptr req_len =
     with_request (de_props (sv_codec v)) req_ptr req_len (\<lambda>r b k.
       let (ok, g) = api_set_props b r (k_graph k) in Inr (flag ok, set_graph g k))"

definition sys_grant_capability :: "('m, 'f) sys_env \<Rightarrow> u64 \<Rightarrow> u64 \<Rightarrow> ('m, 'f) handler" where
  "sys_grant_capability v req_ptr req_len =
     with_request (de_grant (sv_codec v)) req_ptr req_len (\<lambda>r b k.
       let (ok, g) = api_grant_capability (sv_ext v) b r (k_graph k) in Inr (flag ok, set_graph g k))"

section \<open>Interrupts and DMA\<close>

definition sys_irq_bind :: "('m, 'f) sys_env \<Rightarrow> u64 \<Rightarrow> u64 \<Rightarrow> ('m, 'f) handler" where
  "sys_irq_bind v req_ptr req_len =
     with_request (de_irq_bind (sv_codec v)) req_ptr req_len (\<lambda>r b k.
       let (res, g, q) = irq_bind b (ibr_device r) (ibr_irq_line r) (k_graph k, hw_irq (k_hw k))
       in Inr (handle_or res, k\<lparr>k_hw := (k_hw k)\<lparr>hw_graph := g, hw_irq := q\<rparr>\<rparr>))"

definition sys_irq_ack :: "u64 \<Rightarrow> ('m, 'f) handler" where
  "sys_irq_ack handle = with_bundle (\<lambda>b k. Inr (flag (irq_ack b handle), k))"

definition sys_dma_map :: "('m, 'f) sys_env \<Rightarrow> u64 \<Rightarrow> u64 \<Rightarrow> ('m, 'f) handler" where
  "sys_dma_map v req_ptr req_len =
     with_request (de_dma_map (sv_codec v)) req_ptr req_len (\<lambda>r b k.
       let (res, g, d) = dma_map b (dmr_buffer r) (dmr_flags r) (k_graph k, hw_dma (k_hw k))
       in Inr (handle_or res, k\<lparr>k_hw := (k_hw k)\<lparr>hw_graph := g, hw_dma := d\<rparr>\<rparr>))"

definition sys_dma_submit :: "('m, 'f) sys_env \<Rightarrow> u64 \<Rightarrow> u64 \<Rightarrow> ('m, 'f) handler" where
  "sys_dma_submit v req_ptr req_len =
     with_request (de_dma_submit (sv_codec v)) req_ptr req_len (\<lambda>r b k.
       let (res, g, d) = dma_submit b (dsr_device r) (dsr_mapping r) (dsr_bytes r) (k_graph k, hw_dma (k_hw k))
       in Inr (handle_or res, k\<lparr>k_hw := (k_hw k)\<lparr>hw_graph := g, hw_dma := d\<rparr>\<rparr>))"

definition sys_dma_wait :: "('m, 'f) sys_env \<Rightarrow> u64 \<Rightarrow> u64 \<Rightarrow> ('m, 'f) handler" where
  "sys_dma_wait v req_ptr req_len =
     with_request (de_dma_wait (sv_codec v)) req_ptr req_len (\<lambda>r b k.
       let (res, g, d) = dma_wait (sv_ext v) b (dwr_handle r) (k_graph k, hw_dma (k_hw k))
       in Inr (flag (res \<noteq> None), k\<lparr>k_hw := (k_hw k)\<lparr>hw_graph := g, hw_dma := d\<rparr>\<rparr>))"

section \<open>Devices\<close>

text \<open>
  A callback fills the caller's buffer in place: what it leaves in the buffer is what the user's
  memory holds afterwards.
\<close>

definition into_buffer ::
  "(u8 list \<Rightarrow> io \<Rightarrow> nat \<times> u8 list \<times> io) \<Rightarrow> u64 \<Rightarrow> u64 \<Rightarrow> ('m, 'f) kstate \<Rightarrow> u64 \<times> ('m, 'f) kstate" where
  "into_buffer rd out_ptr out_len k =
     (case validate_user_slice out_ptr out_len of
        None \<Rightarrow> (0, k)
      | Some (a, n) \<Rightarrow>
          let (count, buf, d) = rd (read_user (k_mem k) (a, n)) (k_io k)
          in (of_nat count, k\<lparr>k_io := d, k_mem := write_bytes a (take n buf) (k_mem k)\<rparr>))"

definition sys_kbd_read :: "u64 \<Rightarrow> u64 \<Rightarrow> ('m, 'f) handler" where
  "sys_kbd_read out_ptr out_len k = Inr (into_buffer kbd_endpoint out_ptr out_len k)"

definition sys_mouse_read :: "u64 \<Rightarrow> u64 \<Rightarrow> ('m, 'f) handler" where
  "sys_mouse_read out_ptr out_len k = Inr (into_buffer mouse_endpoint out_ptr out_len k)"

definition sys_fb_info :: "u64 \<Rightarrow> u64 \<Rightarrow> ('m, 'f) handler" where
  "sys_fb_info out_ptr out_len k =
     (if out_ptr = 0 \<or> out_len = 0 \<or> unat out_ptr \<ge> USER_LIMIT then Inr (- 1, k)
      else case FRAMEBUFFER_INFO (k_io k) of
             None \<Rightarrow> Inr (- 1, k)
           | Some info \<Rightarrow> copy_out_slice (framebuffer_info_bytes info) out_ptr out_len k)"

definition sys_fb_map :: "('m, 'f) handler" where
  "sys_fb_map k = Inr (case FRAMEBUFFER_INFO (k_io k) of Some info \<Rightarrow> fi_addr info | None \<Rightarrow> 0, k)"

definition sys_dev_open :: "u64 \<Rightarrow> u64 \<Rightarrow> ('m, 'f) handler" where
  "sys_dev_open kind index k = Inr (handle_or (dev_open (ucast kind) (unat index) (k_devices k)), k)"

definition sys_dev_read :: "u64 \<Rightarrow> u64 \<Rightarrow> u64 \<Rightarrow> ('m, 'f) handler" where
  "sys_dev_read handle out_ptr out_len k =
     Inr (into_buffer (\<lambda>buf d. dev_read handle buf (k_devices k) d) out_ptr out_len k)"

text \<open>A write callback of a driver gets memory with the device state, and memory is what it leaves.\<close>

definition sys_dev_write :: "u64 \<Rightarrow> u64 \<Rightarrow> u64 \<Rightarrow> ('m, 'f) handler" where
  "sys_dev_write handle in_ptr in_len k =
     (case user_slice in_ptr in_len k of
        None \<Rightarrow> Inr (0, k)
      | Some buf \<Rightarrow>
          let (n, d) = dev_write handle buf (k_devices k) ((k_io k)\<lparr>io_mem := k_mem k\<rparr>)
          in Inr (of_nat n, k\<lparr>k_io := d, k_mem := io_mem d\<rparr>))"

definition sys_dev_map :: "u64 \<Rightarrow> ('m, 'f) handler" where
  "sys_dev_map handle k =
     Inr (case dev_map handle (k_devices k) (k_io k) of Some (addr, _) \<Rightarrow> addr | None \<Rightarrow> 0, k)"

section \<open>Tasks and logging\<close>

definition sys_spawn :: "('m, 'f) sys_env \<Rightarrow> u64 \<Rightarrow> u64 \<Rightarrow> ('m, 'f) handler" where
  "sys_spawn v ptr len k =
     (if len > 128 then Inr (- 1, k)
      else case Option.bind (user_slice ptr len k) from_utf8 of
             None \<Rightarrow> Inr (- 1, k)
           | Some name \<Rightarrow>
               (case spawn_module (sv_ext v) (sv_modules v) (sv_grow v) (sv_gdt v) (sv_alloc v) (sv_map_page v)
                       (cpu_cr3 (k_cpu k)) (sv_trampoline v) name
                       (k_graph k, k_launcher k, sched (k_cpu k), k_map k, k_frames k, k_mem k) of
                  Inl e \<Rightarrow> Inl e
                | Inr (ok, g, l, s, m, f, mem) \<Rightarrow>
                    Inr (flag ok, (set_graph g k)\<lparr>k_launcher := l, k_cpu := (k_cpu k)\<lparr>sched := s\<rparr>, k_map := m, k_frames := f,
                                                   k_mem := mem\<rparr>)))"

definition sys_get_self :: "('m, 'f) sys_env \<Rightarrow> u64 \<Rightarrow> ('m, 'f) handler" where
  "sys_get_self v buf_ptr =
     with_bundle (\<lambda>b k.
       case validate_user_slice buf_ptr 16 of
         None \<Rightarrow> Inr (- 1, k)
       | Some (a, n) \<Rightarrow>
           let bytes = uuid_as_bytes (sv_codec v) (bundle_uuid b)
           in if length bytes \<noteq> n then Inl ''copy_from_slice: source slice length does not match destination slice length''
              else Inr (0, k\<lparr>k_mem := write_bytes a bytes (k_mem k)\<rparr>))"

definition sys_log :: "u64 \<Rightarrow> u64 \<Rightarrow> ('m, 'f) handler" where
  "sys_log ptr len k =
     (if len > 4096 then Inr (- 1, k)
      else case Option.bind (user_slice ptr len k) from_utf8 of
             None \<Rightarrow> Inr (- 1, k)
           | Some s \<Rightarrow> Inr (0, k\<lparr>k_io := serial_print False s (k_io k)\<rparr>))"

section \<open>The dispatcher\<close>

definition SYSCALL_GRAPH_FIAT :: u64 where "SYSCALL_GRAPH_FIAT = 0x01"
definition SYSCALL_GRAPH_LINK :: u64 where "SYSCALL_GRAPH_LINK = 0x02"
definition SYSCALL_GRAPH_GET :: u64 where "SYSCALL_GRAPH_GET = 0x05"
definition SYSCALL_GRAPH_WATCH_REGISTER :: u64 where "SYSCALL_GRAPH_WATCH_REGISTER = 0x06"
definition SYSCALL_GRAPH_WATCH_POLL :: u64 where "SYSCALL_GRAPH_WATCH_POLL = 0x07"
definition SYSCALL_KBD_READ :: u64 where "SYSCALL_KBD_READ = 0x08"
definition SYSCALL_FB_INFO :: u64 where "SYSCALL_FB_INFO = 0x09"
definition SYSCALL_FB_MAP :: u64 where "SYSCALL_FB_MAP = 0x0A"
definition SYSCALL_GRAPH_FIND_BY_KIND :: u64 where "SYSCALL_GRAPH_FIND_BY_KIND = 0x0B"
definition SYSCALL_MOUSE_READ :: u64 where "SYSCALL_MOUSE_READ = 0x0C"
definition SYSCALL_GRAPH_GET_PROPS :: u64 where "SYSCALL_GRAPH_GET_PROPS = 0x0E"
definition SYSCALL_GRAPH_SET_PROPS :: u64 where "SYSCALL_GRAPH_SET_PROPS = 0x0F"
definition SYSCALL_GRANT_CAPABILITY :: u64 where "SYSCALL_GRANT_CAPABILITY = 0x10"
definition SYSCALL_IRQ_BIND :: u64 where "SYSCALL_IRQ_BIND = 0x11"
definition SYSCALL_IRQ_ACK :: u64 where "SYSCALL_IRQ_ACK = 0x12"
definition SYSCALL_DMA_MAP :: u64 where "SYSCALL_DMA_MAP = 0x13"
definition SYSCALL_DMA_SUBMIT :: u64 where "SYSCALL_DMA_SUBMIT = 0x14"
definition SYSCALL_DMA_WAIT :: u64 where "SYSCALL_DMA_WAIT = 0x15"
definition SYSCALL_DEV_OPEN :: u64 where "SYSCALL_DEV_OPEN = 0x20"
definition SYSCALL_DEV_READ :: u64 where "SYSCALL_DEV_READ = 0x21"
definition SYSCALL_DEV_WRITE :: u64 where "SYSCALL_DEV_WRITE = 0x22"
definition SYSCALL_DEV_MAP :: u64 where "SYSCALL_DEV_MAP = 0x23"
definition SYSCALL_SPAWN :: u64 where "SYSCALL_SPAWN = 0x30"
definition SYSCALL_GET_SELF :: u64 where "SYSCALL_GET_SELF = 0x40"
definition SYSCALL_LOG :: u64 where "SYSCALL_LOG = 0x99"

definition syscall_entry :: "('m, 'f) sys_env \<Rightarrow> u64 \<Rightarrow> u64 \<Rightarrow> u64 \<Rightarrow> u64 \<Rightarrow> u64 \<Rightarrow> ('m, 'f) handler" where
  "syscall_entry v n a1 a2 a3 a4 =
     (if n = SYSCALL_GRAPH_FIAT then sys_graph_fiat v a1 a2
      else if n = SYSCALL_GRAPH_LINK then sys_graph_link v a1 a2
      else if n = SYSCALL_GRAPH_GET then sys_graph_get v a1 a2 a3 a4
      else if n = SYSCALL_GRAPH_WATCH_REGISTER then sys_watch_register v a1 a2
      else if n = SYSCALL_GRAPH_WATCH_POLL then sys_watch_poll v a1 a2 a3
      else if n = SYSCALL_KBD_READ then sys_kbd_read a1 a2
      else if n = SYSCALL_FB_INFO then sys_fb_info a1 a2
      else if n = SYSCALL_FB_MAP then sys_fb_map
      else if n = SYSCALL_GRAPH_FIND_BY_KIND then sys_graph_find_by_kind v a1 a2 a3
      else if n = SYSCALL_MOUSE_READ then sys_mouse_read a1 a2
      else if n = SYSCALL_GRAPH_GET_PROPS then sys_graph_get_props v a1 a2 a3 a4
      else if n = SYSCALL_GRAPH_SET_PROPS then sys_graph_set_props v a1 a2
      else if n = SYSCALL_GRANT_CAPABILITY then sys_grant_capability v a1 a2
      else if n = SYSCALL_IRQ_BIND then sys_irq_bind v a1 a2
      else if n = SYSCALL_IRQ_ACK then sys_irq_ack a1
      else if n = SYSCALL_DMA_MAP then sys_dma_map v a1 a2
      else if n = SYSCALL_DMA_SUBMIT then sys_dma_submit v a1 a2
      else if n = SYSCALL_DMA_WAIT then sys_dma_wait v a1 a2
      else if n = SYSCALL_DEV_OPEN then sys_dev_open a1 a2
      else if n = SYSCALL_DEV_READ then sys_dev_read a1 a2 a3
      else if n = SYSCALL_DEV_WRITE then sys_dev_write a1 a2 a3
      else if n = SYSCALL_DEV_MAP then sys_dev_map a1
      else if n = SYSCALL_SPAWN then sys_spawn v a1 a2
      else if n = SYSCALL_GET_SELF then sys_get_self v a1
      else if n = SYSCALL_LOG then sys_log a1 a2
      else (\<lambda>k. Inr (- 1, k)))"


section \<open>Memory\<close>

text \<open>The buffer a call may fill, by its number and registers.\<close>

definition out_buffer :: "u64 \<Rightarrow> u64 \<Rightarrow> u64 \<Rightarrow> u64 \<Rightarrow> u64 \<Rightarrow> (u64 \<times> u64) option" where
  "out_buffer n a1 a2 a3 a4 =
     (if n = 0x05 \<or> n = 0x0E then Some (a3, a4)
      else if n = 0x07 \<or> n = 0x0B \<or> n = 0x21 then Some (a2, a3)
      else if n = 0x08 \<or> n = 0x09 \<or> n = 0x0C then Some (a1, a2)
      else if n = 0x40 then Some (a1, 16)
      else None)"

definition mem_within :: "u64 \<Rightarrow> u64 \<Rightarrow> ('m, 'f) kstate \<Rightarrow> ('m, 'f) kstate \<Rightarrow> bool" where
  "mem_within p l k k' \<longleftrightarrow>
     (\<forall>a. k_mem k' a \<noteq> k_mem k a \<longrightarrow> a < USER_LIMIT \<and> unat p \<le> a \<and> a < unat p + unat l)"

definition writes_within :: "u64 \<Rightarrow> u64 \<Rightarrow> ('m, 'f) handler \<Rightarrow> bool" where
  "writes_within p l h \<longleftrightarrow> (\<forall>k r k'. h k = Inr (r, k') \<longrightarrow> mem_within p l k k')"

definition keeps_memory :: "('m, 'f) handler \<Rightarrow> bool" where
  "keeps_memory h \<longleftrightarrow> (\<forall>k r k'. h k = Inr (r, k') \<longrightarrow> k_mem k' = k_mem k)"

lemma k_mem_set_graph [simp]: "k_mem (set_graph g k) = k_mem k"
  by (simp add: set_graph_def)

lemma k_cpu_set_graph [simp]: "k_cpu (set_graph g k) = k_cpu k"
  by (simp add: set_graph_def)

lemma validate_Some:
  assumes "validate_user_slice p l = Some (a, n)"
  shows "n = 0 \<or> (a = unat p \<and> n = unat l \<and> unat p + unat l < USER_LIMIT)"
  using assms by (auto simp: validate_user_slice_def split: if_splits option.splits dest!: checked_add_Some)

lemma write_within:
  assumes "validate_user_slice p l = Some (a, n)" "length bs \<le> n" "k_mem k' = write_bytes a bs (k_mem k)"
  shows "mem_within p l k k'"
  using validate_Some [OF assms(1)] assms(2,3) by (auto simp: mem_within_def write_bytes_def split: if_splits)

lemma mem_within_same: "k_mem k' = k_mem k \<Longrightarrow> mem_within p l k k'"
  by (simp add: mem_within_def)

lemma copy_out_within: "writes_within p l (copy_out_slice buf p l)"
  by (auto simp: writes_within_def copy_out_slice_def Let_def not_less intro: mem_within_same write_within
      split: option.splits if_splits)

lemma writes_withinD: "writes_within p l h \<Longrightarrow> h k = Inr (r, k') \<Longrightarrow> mem_within p l k k'"
  by (simp add: writes_within_def)

lemma answer_within: "writes_within p l (answer r p l)"
  by (auto simp: writes_within_def answer_def intro: mem_within_same writes_withinD [OF copy_out_within]
      split: option.splits)

lemma mem_within_set_graph: "mem_within p l (set_graph g k) k' \<longleftrightarrow> mem_within p l k k'"
  by (simp add: mem_within_def)

lemma answer_graph_within: "answer r p l (set_graph g k) = Inr (x, k') \<Longrightarrow> mem_within p l k k'"
  by (drule writes_withinD [OF answer_within]) (simp add: mem_within_set_graph)

lemma with_bundle_within: "(\<And>b. writes_within p l (f b)) \<Longrightarrow> writes_within p l (with_bundle f)"
  by (auto simp: writes_within_def with_bundle_def split: sum.splits)

lemma with_request_within: "(\<And>r b. writes_within p l (f r b)) \<Longrightarrow> writes_within p l (with_request de ptr len f)"
  using with_bundle_within [of p l]
  by (auto simp: writes_within_def with_request_def intro: mem_within_same split: option.splits) blast

lemma with_bundle_keeps: "(\<And>b. keeps_memory (f b)) \<Longrightarrow> keeps_memory (with_bundle f)"
  by (auto simp: keeps_memory_def with_bundle_def split: sum.splits)

lemma with_request_keeps: "(\<And>r b. keeps_memory (f r b)) \<Longrightarrow> keeps_memory (with_request de ptr len f)"
  using with_bundle_keeps
  by (auto simp: keeps_memory_def with_request_def split: option.splits) blast

lemma into_buffer_within:
  assumes "into_buffer rd p l k = (r, k')"
  shows "mem_within p l k k'"
proof (cases "validate_user_slice p l")
  case None
  then show ?thesis using assms by (simp add: into_buffer_def mem_within_same)
next
  case (Some b)
  obtain a n where b: "b = (a, n)" by fastforce
  obtain buf where "k_mem k' = write_bytes a (take n buf) (k_mem k)"
    using assms Some b by (auto simp: into_buffer_def Let_def split: prod.splits)
  then show ?thesis using write_within [of p l a n "take n buf" k' k] Some b by simp
qed

lemma graph_keeps_memory:
  "keeps_memory (sys_graph_fiat v a1 a2)" "keeps_memory (sys_graph_link v a1 a2)"
  "keeps_memory (sys_graph_set_props v a1 a2)" "keeps_memory (sys_grant_capability v a1 a2)"
  unfolding sys_graph_fiat_def sys_graph_link_def sys_graph_set_props_def sys_grant_capability_def
  by (intro with_request_keeps; auto simp: keeps_memory_def split: prod.splits)+

lemma watch_register_keeps_memory: "keeps_memory (sys_watch_register v a1 a2)"
  by (auto simp: keeps_memory_def sys_watch_register_def with_bundle_def Let_def
      split: option.splits sum.splits prod.splits)

lemma hw_keeps_memory:
  "keeps_memory (sys_irq_bind v a1 a2)" "keeps_memory (sys_irq_ack a1)" "keeps_memory (sys_dma_map v a1 a2)"
  "keeps_memory (sys_dma_submit v a1 a2)" "keeps_memory (sys_dma_wait v a1 a2)"
  unfolding sys_irq_bind_def sys_irq_ack_def sys_dma_map_def sys_dma_submit_def sys_dma_wait_def
  by (intro with_request_keeps with_bundle_keeps; auto simp: keeps_memory_def split: prod.splits)+

lemma device_keeps_memory:
  "keeps_memory sys_fb_map" "keeps_memory (sys_dev_open a1 a2)" "keeps_memory (sys_dev_map a1)" "keeps_memory (sys_log a1 a2)"
  by (auto simp: keeps_memory_def sys_fb_map_def sys_dev_open_def sys_dev_map_def sys_log_def Let_def
      split: option.splits prod.splits if_splits)

lemmas keeping_calls = graph_keeps_memory watch_register_keeps_memory hw_keeps_memory device_keeps_memory

lemma writing_calls:
  "writes_within a3 a4 (sys_graph_get v a1 a2 a3 a4)" "writes_within a3 a4 (sys_graph_get_props v a1 a2 a3 a4)"
  "writes_within a1 16 (sys_get_self v a1)"
  unfolding sys_graph_get_def sys_graph_get_props_def sys_get_self_def
  by (intro with_request_within with_bundle_within;
      auto simp: writes_within_def Let_def intro: mem_within_same write_within answer_graph_within
        split: prod.splits graph_get_request.splits option.splits if_splits)+

lemma buffer_calls:
  "writes_within a2 a3 (sys_watch_poll v a1 a2 a3)" "writes_within a1 a2 (sys_kbd_read a1 a2)"
  "writes_within a1 a2 (sys_mouse_read a1 a2)" "writes_within a1 a2 (sys_fb_info a1 a2)"
  "writes_within a2 a3 (sys_dev_read a1 a2 a3)"
proof -
  show "writes_within a2 a3 (sys_watch_poll v a1 a2 a3)"
    by (auto simp: writes_within_def sys_watch_poll_def Let_def mem_within_set_graph intro: mem_within_same
        split: prod.splits option.splits dest!: writes_withinD [OF copy_out_within])
  show "writes_within a1 a2 (sys_fb_info a1 a2)"
    using copy_out_within [of a1 a2]
    by (auto simp: writes_within_def sys_fb_info_def intro: mem_within_same split: option.splits if_splits)
qed (auto simp: writes_within_def sys_kbd_read_def sys_mouse_read_def sys_dev_read_def
    intro: into_buffer_within split: prod.splits)

lemma find_within: "writes_within a2 a3 (sys_graph_find_by_kind v a1 a2 a3)"
proof -
  have w: "writes_within a2 a3 (with_request from_utf8 (fbk_kind_ptr r) (fbk_kind_len r) (\<lambda>kind b k.
      let (bytes, g) = export_find_by_kind_bytes (sv_wire v) b kind (fbk_cursor r) (k_graph k)
      in answer bytes a2 a3 (set_graph g k)))" for r
    by (intro with_request_within) (auto simp: writes_within_def intro: answer_graph_within split: prod.splits)
  show ?thesis
    unfolding writes_within_def sys_graph_find_by_kind_def
    using w by (auto simp: writes_within_def intro: mem_within_same split: option.splits)
qed


lemma keeps_memoryD: "keeps_memory h \<Longrightarrow> h k = Inr (r, k') \<Longrightarrow> k_mem k' = k_mem k"
  by (simp add: keeps_memory_def)

lemmas syscall_numbers = SYSCALL_GRAPH_FIAT_def SYSCALL_GRAPH_LINK_def SYSCALL_GRAPH_GET_def
  SYSCALL_GRAPH_WATCH_REGISTER_def SYSCALL_GRAPH_WATCH_POLL_def SYSCALL_KBD_READ_def SYSCALL_FB_INFO_def
  SYSCALL_FB_MAP_def SYSCALL_GRAPH_FIND_BY_KIND_def SYSCALL_MOUSE_READ_def SYSCALL_GRAPH_GET_PROPS_def
  SYSCALL_GRAPH_SET_PROPS_def SYSCALL_GRANT_CAPABILITY_def SYSCALL_IRQ_BIND_def SYSCALL_IRQ_ACK_def
  SYSCALL_DMA_MAP_def SYSCALL_DMA_SUBMIT_def SYSCALL_DMA_WAIT_def SYSCALL_DEV_OPEN_def SYSCALL_DEV_READ_def
  SYSCALL_DEV_WRITE_def SYSCALL_DEV_MAP_def SYSCALL_SPAWN_def SYSCALL_GET_SELF_def SYSCALL_LOG_def

text \<open>
  Two calls write the kernel half. A spawn marks the pages of the new task's stack, and a write
  to the framebuffer device goes to the screen. The drivers of the kernel write memory nowhere else.
\<close>

definition screen_area :: "io \<Rightarrow> nat set" where
  "screen_area d =
     (case FRAMEBUFFER_DEVICE d of None \<Rightarrow> {} | Some fb \<Rightarrow> {fb_ptr fb ..< fb_ptr fb + fb_len fb * 4})"

definition kernel_drivers :: "io device_table \<Rightarrow> bool" where
  "kernel_drivers t \<longleftrightarrow> (\<forall>e \<in> set (dt_endpoints t). ep_write e \<in> {None, Some write_serial, Some write_framebuffer})"

lemma io_mem_write_serial: "io_mem (snd (write_serial buf d)) = io_mem d"
proof -
  have "io_mem (fold write_byte bs d) = io_mem d" for bs
    by (induction bs arbitrary: d) (simp_all add: write_byte_def)
  then show ?thesis by (simp add: write_serial_def)
qed

lemma write_framebuffer_area: "io_mem (snd (write_framebuffer buf d)) a \<noteq> io_mem d a \<Longrightarrow> a \<in> screen_area d"
  by (auto simp: write_framebuffer_def screen_area_def write_bytes_def Let_def split: option.splits if_splits)

lemma dev_write_area:
  assumes "kernel_drivers t" and "io_mem (snd (dev_write handle buf t d)) a \<noteq> io_mem d a"
  shows "a \<in> screen_area d"
proof -
  obtain e w where e: "by_handle t handle = Some e" "ep_write e = Some w" and w: "io_mem (snd (w buf d)) a \<noteq> io_mem d a"
    using assms(2) by (auto simp: dev_write_def split: option.splits)
  have "e \<in> set (dt_endpoints t)" using e(1) by (auto simp: by_handle_def find_Some_iff)
  then consider "w = write_serial" | "w = write_framebuffer" using assms(1) e(2) by (auto simp: kernel_drivers_def)
  then show ?thesis using w write_framebuffer_area by cases (auto simp: io_mem_write_serial)
qed

lemma sys_dev_write_memory:
  assumes "kernel_drivers (k_devices k)" and "sys_dev_write a1 a2 a3 k = Inr (r, k')" and "k_mem k' a \<noteq> k_mem k a"
  shows "a \<in> screen_area (k_io k)"
proof -
  let ?d = "(k_io k)\<lparr>io_mem := k_mem k\<rparr>"
  obtain buf where "k_mem k' = io_mem (snd (dev_write a1 buf (k_devices k) ?d))"
  proof (cases "user_slice a2 a3 k")
    case (Some buf)
    with assms(2) have "k_mem k' = io_mem (snd (dev_write a1 buf (k_devices k) ?d))"
      by (auto simp: sys_dev_write_def split: prod.splits)
    then show ?thesis by (rule that)
  qed (use assms(2,3) in \<open>simp add: sys_dev_write_def\<close>)
  with dev_write_area [OF assms(1), of a1 buf ?d a] assms(3) show ?thesis by (simp add: screen_area_def)
qed

lemma sys_spawn_memory:
  assumes "sys_spawn v a1 a2 k = Inr (r, k')" and "k_mem k' a \<noteq> k_mem k a"
  shows "a \<in> stack_marks (length (tasks (sched (k_cpu k))))"
proof -
  obtain h s' m f mem where "spawn_kernel_with_allocator (sv_grow v) (sv_gdt v) (sv_alloc v) (sv_map_page v)
      (cpu_cr3 (k_cpu k)) (sv_trampoline v) (sched (k_cpu k), k_map k, k_frames k, k_mem k) = Inr (h, s', m, f, mem)"
    "k_mem k' = mem"
    using assms
    by (auto simp: sys_spawn_def spawn_module_def Let_def split: if_splits option.splits sum.splits prod.splits bind_splits)
  with spawn_memory assms(2) show ?thesis
    by (fastforce simp: spawn_kernel_with_allocator_def split: sum.splits prod.splits)
qed

definition call_writes :: "u64 \<Rightarrow> u64 \<Rightarrow> u64 \<Rightarrow> u64 \<Rightarrow> u64 \<Rightarrow> ('m, 'f) kstate \<Rightarrow> nat set" where
  "call_writes n a1 a2 a3 a4 k =
     (case out_buffer n a1 a2 a3 a4 of
        Some (p, l) \<Rightarrow> {a. a < USER_LIMIT \<and> unat p \<le> a \<and> a < unat p + unat l} | None \<Rightarrow> {}) \<union>
     (if n = SYSCALL_SPAWN then stack_marks (length (tasks (sched (k_cpu k)))) else {}) \<union>
     (if n = SYSCALL_DEV_WRITE then screen_area (k_io k) else {})"

lemma syscall_memory:
  assumes "syscall_entry v n a1 a2 a3 a4 k = Inr (r, k')" and "kernel_drivers (k_devices k)" and "k_mem k' a \<noteq> k_mem k a"
  shows "a \<in> call_writes n a1 a2 a3 a4 k"
proof -
  consider "n = SYSCALL_SPAWN" | "n = SYSCALL_DEV_WRITE" | "n \<noteq> SYSCALL_SPAWN" "n \<noteq> SYSCALL_DEV_WRITE" by blast
  then show ?thesis
  proof cases
    case 1
    then have "sys_spawn v a1 a2 k = Inr (r, k')" using assms(1) by (simp add: syscall_entry_def syscall_numbers)
    from sys_spawn_memory [OF this assms(3)] show ?thesis using 1 by (simp add: call_writes_def)
  next
    case 2
    then have "sys_dev_write a1 a2 a3 k = Inr (r, k')" using assms(1) by (simp add: syscall_entry_def syscall_numbers)
    from sys_dev_write_memory [OF assms(2) this assms(3)] show ?thesis using 2 by (simp add: call_writes_def)
  next
    case 3
    have "case out_buffer n a1 a2 a3 a4 of None \<Rightarrow> k_mem k' = k_mem k | Some (p, l) \<Rightarrow> mem_within p l k k'"
      using assms(1) 3 unfolding syscall_entry_def syscall_numbers out_buffer_def
      by (simp split: if_splits)
        (erule keeping_calls [THEN keeps_memoryD] writing_calls [THEN writes_withinD] buffer_calls [THEN writes_withinD]
          find_within [THEN writes_withinD])+
    then show ?thesis using assms(3) by (auto simp: call_writes_def mem_within_def split: option.splits)
  qed
qed

section \<open>Authority\<close>

fun hw_op_by :: "bundle_id \<Rightarrow> hw_op \<Rightarrow> bool" where
  "hw_op_by b (HGraph op) \<longleftrightarrow> op_by b op"
| "hw_op_by b (HIrqBind a device line) \<longleftrightarrow> a = b"
| "hw_op_by b (HUnregister handle) \<longleftrightarrow> False"
| "hw_op_by b (HDmaMap a buffer flags) \<longleftrightarrow> a = b"
| "hw_op_by b (HDmaSubmit a device mapping bytes) \<longleftrightarrow> a = b"
| "hw_op_by b (HDmaWait a handle) \<longleftrightarrow> a = b"

text \<open>Nothing happens to the graph and the hardware tables, or one operation of the bundle does.\<close>

definition step_by :: "ext \<Rightarrow> bundle_id \<Rightarrow> ('m, 'f) kstate \<Rightarrow> ('m, 'f) kstate \<Rightarrow> bool" where
  "step_by x b k k' \<longleftrightarrow> k_hw k' = k_hw k \<or> (\<exists>op. hw_op_by b op \<and> k_hw k' = hw_step x op (k_hw k))"

definition acts_as_caller :: "ext \<Rightarrow> ('m, 'f) handler \<Rightarrow> bool" where
  "acts_as_caller x h \<longleftrightarrow>
     (\<forall>k r k'. STORE (k_graph k) \<noteq> None \<longrightarrow> h k = Inr (r, k') \<longrightarrow>
        k_hw k' = k_hw k \<or> (\<exists>b. current_bundle (k_cpu k) = Inr b \<and> step_by x b k k'))"

lemma acts_as_callerD:
  "acts_as_caller x h \<Longrightarrow> STORE (k_graph k) \<noteq> None \<Longrightarrow> h k = Inr (r, k') \<Longrightarrow>
     k_hw k' = k_hw k \<or> (\<exists>b. current_bundle (k_cpu k) = Inr b \<and> step_by x b k k')"
  by (simp add: acts_as_caller_def)

lemma with_bundle_acts:
  assumes "\<And>b k r k'. STORE (k_graph k) \<noteq> None \<Longrightarrow> f b k = Inr (r, k') \<Longrightarrow> step_by x b k k'"
  shows "acts_as_caller x (with_bundle f)"
  using assms by (auto simp: acts_as_caller_def with_bundle_def split: sum.splits)

lemma with_request_acts:
  assumes "\<And>q b k r k'. STORE (k_graph k) \<noteq> None \<Longrightarrow> f q b k = Inr (r, k') \<Longrightarrow> step_by x b k k'"
  shows "acts_as_caller x (with_request de p l f)"
proof -
  have "acts_as_caller x (with_bundle (f q))" for q using assms by (rule with_bundle_acts)
  then show ?thesis by (auto simp: acts_as_caller_def with_request_def split: option.splits)
qed

lemma set_graph_hw: "k_hw (set_graph g k) = (k_hw k)\<lparr>hw_graph := g\<rparr>"
  by (simp add: set_graph_def)

lemma step_by_graph:
  assumes "op_by b op" and "g = snd (with_store (\<lambda>st. ((), store_step x op st)) (k_graph k))" and "k_hw k' = k_hw (set_graph g k)"
  shows "step_by x b k k'"
  using assms by (auto simp: step_by_def set_graph_hw intro!: exI [of _ "HGraph op"])

lemma with_store_step:
  assumes "\<And>st. snd (f st) = store_step x op st"
  shows "snd (with_store f g) = snd (with_store (\<lambda>st. ((), store_step x op st)) g)"
  using assms [of "(store_of g, JOURNAL g)"] by (auto simp: with_store_def split: prod.splits)

lemma api_steps:
  "snd (api_link x b r1 g) = snd (with_store (\<lambda>st. ((), store_step x (OLink b r1) st)) g)"
  "snd (api_set_props b r2 g) = snd (with_store (\<lambda>st. ((), store_step x (OSetProps b r2) st)) g)"
  "snd (api_grant_capability x b r3 g) = snd (with_store (\<lambda>st. ((), store_step x (OGrant b r3) st)) g)"
  "snd (api_register_watch b r4 g) = snd (with_store (\<lambda>st. ((), store_step x (ORegister b r4) st)) g)"
  "snd (api_register_watch_pattern b r5 g) = snd (with_store (\<lambda>st. ((), store_step x (ORegisterPattern b r5) st)) g)"
  "snd (api_poll_watch i g) = snd (with_store (\<lambda>st. ((), store_step x (OPoll i) st)) g)"
  unfolding api_link_def api_set_props_def api_grant_capability_def api_register_watch_def
    api_register_watch_pattern_def api_poll_watch_def
  by (rule with_store_step; simp add: on_store_def split: prod.splits)+

lemma set_graph_id: "STORE (k_graph k) \<noteq> None \<Longrightarrow> k_hw (set_graph ((k_graph k)\<lparr>STORE := Some (store_of (k_graph k))\<rparr>) k) = k_hw k"
  by (auto simp: set_graph_hw restore_store)

lemma k_hw_copy_out: "copy_out_slice buf p l k = Inr (r, k') \<Longrightarrow> k_hw k' = k_hw k"
  by (auto simp: copy_out_slice_def Let_def split: option.splits if_splits)

lemma k_hw_answer: "answer res p l k = Inr (r, k') \<Longrightarrow> k_hw k' = k_hw k"
  by (auto simp: answer_def dest: k_hw_copy_out split: option.splits)

lemma step_by_read:
  assumes "STORE (k_graph k) \<noteq> None"
    and "answer res p l (set_graph ((k_graph k)\<lparr>STORE := Some (store_of (k_graph k))\<rparr>) k) = Inr (r, k')"
  shows "step_by x b k k'"
  using k_hw_answer [OF assms(2)] set_graph_id [OF assms(1)] by (simp add: step_by_def)


lemma with_request_step:
  assumes "\<And>q b g. snd (F q b g) = snd (with_store (\<lambda>st. ((), store_step x (OP q b) st)) g)" "\<And>q b. op_by b (OP q b)"
  shows "acts_as_caller x (with_request de p l (\<lambda>q b k. let (r, g) = F q b (k_graph k) in Inr (fin r, set_graph g k)))"
proof (rule with_request_acts)
  fix q b k r k'
  assume "(let (r, g) = F q b (k_graph k) in Inr (fin r, set_graph g k)) = Inr (r, k')"
  then have "k' = set_graph (snd (F q b (k_graph k))) k" by (auto split: prod.splits)
  then show "step_by x b k k'" using step_by_graph [OF assms(2) assms(1)] by blast
qed

lemma graph_write_acts:
  "acts_as_caller (sv_ext v) (sys_graph_fiat v a1 a2)" "acts_as_caller (sv_ext v) (sys_graph_link v a1 a2)"
  "acts_as_caller (sv_ext v) (sys_graph_set_props v a1 a2)" "acts_as_caller (sv_ext v) (sys_grant_capability v a1 a2)"
  unfolding sys_graph_fiat_def sys_graph_link_def sys_graph_set_props_def sys_grant_capability_def
  by (rule with_request_step [OF fiat_for_bundle_step] with_request_step [where fin = "\<lambda>r. r", OF api_steps(1)]
      with_request_step [OF api_steps(2)] with_request_step [OF api_steps(3)]; simp)+

lemma watch_register_acts: "acts_as_caller (sv_ext v) (sys_watch_register v a1 a2)"
proof -
  have "acts_as_caller (sv_ext v) (with_bundle (\<lambda>b k. let (i, g) = api_register_watch_pattern b q (k_graph k) in Inr (i, set_graph g k)))" for q
    apply (rule with_bundle_acts)
    subgoal for b k by (rule step_by_graph [OF _ api_steps(5) [of b q "k_graph k"]]) (auto split: prod.splits)
    done
  moreover have "acts_as_caller (sv_ext v) (with_bundle (\<lambda>b k. let (i, g) = api_register_watch b q (k_graph k) in Inr (i, set_graph g k)))" for q
    apply (rule with_bundle_acts)
    subgoal for b k by (rule step_by_graph [OF _ api_steps(4) [of b q "k_graph k"]]) (auto split: prod.splits)
    done
  ultimately show ?thesis
    unfolding sys_watch_register_def acts_as_caller_def by (auto split: option.splits) blast+
qed

lemma export_reads:
  "export_thing_bytes w b i g = (r, g') \<Longrightarrow> g' = g\<lparr>STORE := Some (store_of g)\<rparr>"
  "export_find_by_kind_bytes w b kind c g = (r, g') \<Longrightarrow> g' = g\<lparr>STORE := Some (store_of g)\<rparr>"
  by (auto simp: export_thing_bytes_def export_find_by_kind_bytes_def api_find_by_kind_def Let_def
      split: prod.splits)

lemma graph_read_acts:
  "acts_as_caller x (sys_graph_get v a1 a2 a3 a4)" "acts_as_caller x (sys_graph_get_props v a1 a2 a3 a4)"
proof -
  show "acts_as_caller x (sys_graph_get v a1 a2 a3 a4)"
    unfolding sys_graph_get_def
    by (rule with_request_acts)
      (auto simp: api_get_nodes_def intro: step_by_read dest: export_reads split: graph_get_request.splits prod.splits)
  show "acts_as_caller x (sys_graph_get_props v a1 a2 a3 a4)"
    unfolding sys_graph_get_props_def
    by (rule with_request_acts) (auto simp: api_get_props_def intro: step_by_read)
qed

lemma find_acts: "acts_as_caller x (sys_graph_find_by_kind v a1 a2 a3)"
proof -
  have "acts_as_caller x (with_request from_utf8 (fbk_kind_ptr r) (fbk_kind_len r) (\<lambda>kind b k.
      let (bytes, g) = export_find_by_kind_bytes (sv_wire v) b kind (fbk_cursor r) (k_graph k)
      in answer bytes a2 a3 (set_graph g k)))" for r
    by (rule with_request_acts) (auto intro: step_by_read dest: export_reads split: prod.splits)
  then show ?thesis
    unfolding sys_graph_find_by_kind_def acts_as_caller_def by (auto split: option.splits)
qed

lemma hw_acts:
  "acts_as_caller (sv_ext v) (sys_irq_bind v a1 a2)" "acts_as_caller (sv_ext v) (sys_dma_map v a1 a2)"
  "acts_as_caller (sv_ext v) (sys_dma_submit v a1 a2)" "acts_as_caller (sv_ext v) (sys_dma_wait v a1 a2)"
proof -
  have one: "step_by x b k k'" if "hw_op_by b op" "k_hw k' = hw_step x op (k_hw k)"
    for x b op and k k' :: "('m, 'f) kstate"
    using that by (auto simp: step_by_def)
  show "acts_as_caller (sv_ext v) (sys_irq_bind v a1 a2)"
    unfolding sys_irq_bind_def
    apply (rule with_request_acts)
    subgoal for q b by (rule one [of b "HIrqBind b (ibr_device q) (ibr_irq_line q)"]) (auto split: prod.splits)
    done
  show "acts_as_caller (sv_ext v) (sys_dma_map v a1 a2)"
    unfolding sys_dma_map_def
    apply (rule with_request_acts)
    subgoal for q b by (rule one [of b "HDmaMap b (dmr_buffer q) (dmr_flags q)"]) (auto split: prod.splits)
    done
  show "acts_as_caller (sv_ext v) (sys_dma_submit v a1 a2)"
    unfolding sys_dma_submit_def
    apply (rule with_request_acts)
    subgoal for q b
      by (rule one [of b "HDmaSubmit b (dsr_device q) (dsr_mapping q) (dsr_bytes q)"]) (auto split: prod.splits)
    done
  show "acts_as_caller (sv_ext v) (sys_dma_wait v a1 a2)"
    unfolding sys_dma_wait_def
    apply (rule with_request_acts)
    subgoal for q b by (rule one [of b "HDmaWait b (dwr_handle q)"]) (auto split: prod.splits)
    done
qed

lemma into_buffer_hw: "into_buffer rd p l k = (r, k') \<Longrightarrow> k_hw k' = k_hw k"
  by (auto simp: into_buffer_def Let_def split: option.splits prod.splits)

lemma other_acts:
  "acts_as_caller x (sys_irq_ack a1)" "acts_as_caller x (sys_kbd_read a1 a2)" "acts_as_caller x (sys_mouse_read a1 a2)"
  "acts_as_caller x (sys_fb_info a1 a2)" "acts_as_caller x sys_fb_map" "acts_as_caller x (sys_dev_open a1 a2)"
  "acts_as_caller x (sys_dev_read a1 a2 a3)" "acts_as_caller x (sys_dev_write a1 a2 a3)"
  "acts_as_caller x (sys_dev_map a1)" "acts_as_caller x (sys_get_self v a1)" "acts_as_caller x (sys_log a1 a2)"
  by (auto simp: acts_as_caller_def sys_irq_ack_def with_bundle_def sys_kbd_read_def sys_mouse_read_def sys_fb_info_def
      sys_fb_map_def sys_dev_open_def sys_dev_read_def sys_dev_write_def sys_dev_map_def sys_get_self_def sys_log_def Let_def
      dest: k_hw_copy_out into_buffer_hw split: option.splits sum.splits prod.splits if_splits)

lemma watch_poll_step:
  assumes "sys_watch_poll v i p l k = Inr (r, k')"
  shows "k_hw k' = hw_step (sv_ext v) (HGraph (OPoll i)) (k_hw k)"
proof -
  obtain b g where e: "export_watch_events (sv_wire v) i (k_graph k) = (b, g)" by fastforce
  have g: "g = snd (with_store (\<lambda>st. ((), store_step (sv_ext v) (OPoll i) st)) (k_graph k))"
    using e unfolding api_steps(6) [of i "k_graph k" "sv_ext v", symmetric] export_watch_events_def
    by (auto simp: Let_def split: prod.splits)
  have "k_hw k' = k_hw (set_graph g k)"
    using assms e by (auto simp: sys_watch_poll_def Let_def dest: k_hw_copy_out split: option.splits)
  then show ?thesis using g by (simp add: set_graph_hw)
qed

lemma spawn_module_graph:
  assumes "spawn_module x mods grow gdt alloc map_page cr3 tr name (g, l, s, mf) = Inr (ok, g', rest)"
  shows "g' = g \<or> (\<exists>n d. (n, d) \<in> set mods \<and> g' = snd (create_package x n (from_name n) None g))"
proof (cases "find (\<lambda>(k, _). str_contains k name) mods")
  case None
  then show ?thesis using assms by (simp add: spawn_module_def)
next
  case (Some e)
  obtain n d where e: "e = (n, d)" by fastforce
  have "(n, d) \<in> set mods" using Some e nth_mem by (fastforce simp: find_Some_iff)
  moreover have "g' = snd (create_package x n (from_name n) None g)"
    using assms Some e by (auto simp: spawn_module_def create_user_module_def Let_def split: option.splits sum.splits prod.splits)
  ultimately show ?thesis by blast
qed

lemma spawn_step:
  assumes "sys_spawn v a1 a2 k = Inr (r, k')"
  shows "k_hw k' = k_hw k \<or> (\<exists>name d q. (name, d) \<in> set (sv_modules v) \<and> fiat_id q = Some (package_uuid (sv_ext v) name) \<and>
    k_hw k' = hw_step (sv_ext v) (HGraph (OFiat (BundleId (package_uuid (sv_ext v) name)) q)) (k_hw k))"
proof -
  consider "k_hw k' = k_hw k"
    | name d where "(name, d) \<in> set (sv_modules v)"
        "k_hw k' = k_hw (set_graph (snd (create_package (sv_ext v) name (from_name name) None (k_graph k))) k)"
    using assms
    by (auto simp: sys_spawn_def set_graph_hw dest!: spawn_module_graph
        split: if_splits option.splits sum.splits prod.splits bind_splits)
  then show ?thesis
  proof cases
    case 2
    let ?q = "\<lparr>fiat_id = Some (package_uuid (sv_ext v) name), fiat_kind = canon_PACKAGE, fiat_labels = [canon_PACKAGE],
       fiat_fields = package_fields (BundleId (package_uuid (sv_ext v) name)) name (from_name name) None\<rparr>"
    have "snd (create_package (sv_ext v) name (from_name name) None g) =
        snd (fiat_for_bundle (sv_ext v) (BundleId (package_uuid (sv_ext v) name)) ?q g)" for g
      by (simp add: create_package_def create_package_with_id_def Let_def split: prod.splits)
    with 2 show ?thesis
      by (auto simp: set_graph_hw fiat_for_bundle_step intro!: exI [of _ name] exI [of _ ?q])
  qed simp
qed


section \<open>Runs of the kernel\<close>

text \<open>
  What can happen while the system runs: the start of the first task, system calls with any
  number and registers, stores of user code to user addresses, keyboard and mouse interrupts,
  context switches, and launcher tasks that turn into user tasks. A switch and a launch may show
  a different user half; the kernel half is the same in every address space. A call counts as
  one operation on the graph, a launch as four.
\<close>

inductive kernel_run ::
  "('m, 'f) sys_env \<Rightarrow> ('u, 'f, 'e) launch_env \<Rightarrow> nat \<Rightarrow> ('m, 'f) kstate \<Rightarrow> ('m, 'f) kstate \<Rightarrow> bool" for v lv where
  start: "kernel_run v lv 0 k k"
| first: "kernel_run v lv n k0 k \<Longrightarrow> start_first (k_cpu k) = Inr (ctx, c') \<Longrightarrow> kernel_run v lv n k0 (k\<lparr>k_cpu := c'\<rparr>)"
| call: "kernel_run v lv n k0 k \<Longrightarrow> syscall_entry v c a1 a2 a3 a4 k = Inr (r, k') \<Longrightarrow> kernel_run v lv (Suc n) k0 k'"
| user_store: "kernel_run v lv n k0 k \<Longrightarrow> a < USER_LIMIT \<Longrightarrow> kernel_run v lv n k0 (k\<lparr>k_mem := (k_mem k)(a := b)\<rparr>)"
| key: "kernel_run v lv n k0 k \<Longrightarrow>
    kernel_run v lv n k0 (k\<lparr>k_io := (k_io k)\<lparr>KEYBOARD_BUFFER := snd (keyboard_interrupt_handler locked byte (KEYBOARD_BUFFER (k_io k)))\<rparr>\<rparr>)"
| mouse: "kernel_run v lv n k0 k \<Longrightarrow>
    kernel_run v lv n k0 (k\<lparr>k_io := (k_io k)\<lparr>MOUSE_RAW_BYTES := snd (mouse_interrupt_handler locked byte (MOUSE_RAW_BYTES (k_io k)))\<rparr>\<rparr>)"
| switch: "kernel_run v lv n k0 k \<Longrightarrow> rust_schedule_and_switch sp saved irq (k_cpu k) = Some (Inr (ctx, c')) \<Longrightarrow>
    \<forall>a \<ge> USER_LIMIT. mem' a = k_mem k a \<Longrightarrow> kernel_run v lv n k0 (k\<lparr>k_cpu := c', k_mem := mem'\<rparr>)"
| launch: "kernel_run v lv n k0 k \<Longrightarrow>
    start_user_task (sv_ext v) lv (k_graph k, k_launcher k, k_cpu k, k_frames k, k_mem k) = Entered (ctx, g', l', c', s') \<Longrightarrow>
    \<forall>a \<ge> USER_LIMIT. mem' a = ls_mem s' a \<Longrightarrow>
    kernel_run v lv (n + 4) k0 ((set_graph g' k)\<lparr>k_launcher := l', k_cpu := c', k_frames := ls_frames s', k_mem := mem'\<rparr>)"

text \<open>A launch is a bounded number of operations on the graph.\<close>

inductive graph_steps :: "ext \<Rightarrow> nat \<Rightarrow> kernel_graph \<Rightarrow> kernel_graph \<Rightarrow> bool" for x where
  none: "graph_steps x 0 g g"
| one: "graph_steps x n g g' \<Longrightarrow> graph_steps x (Suc n) g (snd (with_store (\<lambda>st. ((), store_step x op st)) g'))"

lemma graph_steps_trans: "graph_steps x m g2 g3 \<Longrightarrow> graph_steps x n g1 g2 \<Longrightarrow> graph_steps x (n + m) g1 g3"
  by (induction rule: graph_steps.induct) (auto intro: graph_steps.intros)

lemma graph_steps_one: "g' = snd (with_store (\<lambda>st. ((), store_step x op st)) g) \<Longrightarrow> graph_steps x 1 g g'"
  using graph_steps.one [OF graph_steps.none] by simp

lemma graph_steps_inv:
  assumes "graph_steps x k g g'" "hw_inv n (h\<lparr>hw_graph := g\<rparr>)" "2 * (n + k) + 4 < 2 ^ 64"
  shows "hw_inv (n + k) (h\<lparr>hw_graph := g'\<rparr>) \<and> (STORE g \<noteq> None \<longrightarrow> STORE g' \<noteq> None)"
  using assms
proof (induction rule: graph_steps.induct)
  case (one k g g' op)
  then have "hw_inv (n + k) (h\<lparr>hw_graph := g'\<rparr>)" "2 * (n + k) + 4 < 2 ^ 64" by simp_all
  from hw_inv_graph [OF this, of _ x op] show ?case by (simp add: with_store_def split: prod.splits)
qed simp

lemma graph_steps_grants: "graph_steps x (length caps) g (grant_caps x b target caps g)"
proof (induction caps arbitrary: g)
  case (Cons cap caps)
  have "graph_steps x 1 g (snd (grant_initial_capability x b target cap g))"
    unfolding grant_initial_capability_def by (rule graph_steps_one) (rule api_steps(3))
  from graph_steps_trans [OF Cons.IH this] show ?case by simp
qed (simp add: graph_steps.none)

lemma hw_inv_mono: "hw_inv n h \<Longrightarrow> n \<le> m \<Longrightarrow> hw_inv m h"
  by (auto simp: hw_inv_def)

lemma launch_identity_steps:
  assumes "launch_identity x m (g, c) = Inr (task_id, g', c')"
  shows "\<exists>n \<le> 4. graph_steps x n (g\<lparr>TASK_COUNTER := TASK_COUNTER g + 1\<rparr>) g'"
proof -
  let ?t = "BundleId (ucast (TASK_COUNTER g))" and ?g1 = "g\<lparr>TASK_COUNTER := TASK_COUNTER g + 1\<rparr>"
  define g2 where "g2 = (if um_type m = Driver
      then (case driver_caps_for_name x (um_name m) of
              None \<Rightarrow> ?g1 | Some (device, _) \<Rightarrow> snd (that_for_bundle x ?t (drives_request ?t device) ?g1)) else ?g1)"
  have g': "g' = grant_initial_capabilities x m ?t g2"
    using assms unfolding launch_identity_def create_task_def Let_def prod.case g2_def by (auto split: sum.splits)
  have "graph_steps x 1 ?g1 (snd (that_for_bundle x ?t r ?g1))" for r
    unfolding that_for_bundle_def by (rule graph_steps_one, rule with_store_step [of _ _ "OThat ?t r"]) simp
  then have 1: "\<exists>i \<le> 1. graph_steps x i ?g1 g2"
    unfolding g2_def by (auto intro: graph_steps.none split: option.splits)
  have 2: "\<exists>j \<le> 3. graph_steps x j g2 g'"
    unfolding g' grant_initial_capabilities_eq
    using graph_steps_grants initial_caps_grantable [of x m]
    by (auto intro: graph_steps.none split: option.splits)
  from 1 2 obtain i j where "i \<le> 1" "j \<le> 3" "graph_steps x (i + j) ?g1 g'" using graph_steps_trans by blast
  then show ?thesis by (intro exI [of _ "i + j"]) simp
qed

lemma launch_inv:
  assumes st: "start_user_task x lv (hw_graph h, l, c, f, mem) = Entered (ctx, g', l', c', s')"
    and inv: "hw_inv n h" and b: "2 * (n + 4) + 4 < 2 ^ 64"
  shows "hw_inv (n + 4) (h\<lparr>hw_graph := g'\<rparr>) \<and> (STORE (hw_graph h) \<noteq> None \<longrightarrow> STORE g' \<noteq> None)"
proof -
  let ?g1 = "(hw_graph h)\<lparr>TASK_COUNTER := TASK_COUNTER (hw_graph h) + 1\<rparr>"
  obtain m task_id c1 where "launch_identity x m (hw_graph h, c) = Inr (task_id, g', c1)"
    using st unfolding start_user_task_def prod.case
    by (auto simp: panic_or_Entered outcome_Entered split: prod.splits option.splits)
  then obtain k where k: "k \<le> 4" "graph_steps x k ?g1 g'" using launch_identity_steps by blast
  have "hw_inv n (h\<lparr>hw_graph := ?g1\<rparr>)" using inv by (simp add: hw_inv_def store_of_def)
  moreover have "2 * (n + k) + 4 < 2 ^ 64" using b k(1) by simp
  ultimately have "hw_inv (n + k) (h\<lparr>hw_graph := g'\<rparr>) \<and> (STORE (hw_graph h) \<noteq> None \<longrightarrow> STORE g' \<noteq> None)"
    using graph_steps_inv [OF k(2)] by simp
  then show ?thesis using k(1) hw_inv_mono [of "n + k" _ "n + 4"] by simp
qed

lemma hw_step_STORE: "STORE (hw_graph h) \<noteq> None \<Longrightarrow> STORE (hw_graph (hw_step x op h)) \<noteq> None"
  by (cases op) (auto simp: with_store_def irq_bind_def dma_map_def dma_submit_def dma_wait_def api_has_capability_eq
      fiat_for_bundle_def Let_def split: prod.splits option.splits)

lemmas caller_calls = graph_write_acts watch_register_acts graph_read_acts find_acts hw_acts other_acts

lemma syscall_step:
  assumes "syscall_entry v n a1 a2 a3 a4 k = Inr (r, k')" and "STORE (k_graph k) \<noteq> None"
  shows "k_hw k' = k_hw k \<or> (\<exists>op. k_hw k' = hw_step (sv_ext v) op (k_hw k) \<and>
    (if n = SYSCALL_GRAPH_WATCH_POLL then op = HGraph (OPoll a1)
     else if n = SYSCALL_SPAWN
     then \<exists>name d q. (name, d) \<in> set (sv_modules v) \<and> fiat_id q = Some (package_uuid (sv_ext v) name) \<and>
        op = HGraph (OFiat (BundleId (package_uuid (sv_ext v) name)) q)
     else \<exists>b. current_bundle (k_cpu k) = Inr b \<and> hw_op_by b op))"
proof -
  consider "n = SYSCALL_GRAPH_WATCH_POLL" | "n = SYSCALL_SPAWN"
    | "n \<noteq> SYSCALL_GRAPH_WATCH_POLL" "n \<noteq> SYSCALL_SPAWN" by blast
  then show ?thesis
  proof cases
    case 1
    then have "sys_watch_poll v a1 a2 a3 k = Inr (r, k')" using assms(1) by (simp add: syscall_entry_def syscall_numbers)
    from watch_poll_step [OF this] show ?thesis using 1 by auto
  next
    case 2
    then have "sys_spawn v a1 a2 k = Inr (r, k')" using assms(1) by (simp add: syscall_entry_def syscall_numbers)
    from spawn_step [OF this] show ?thesis using 2 by (simp add: syscall_numbers del: hw_step.simps) blast
  next
    case 3
    have "k_hw k' = k_hw k \<or> (\<exists>b. current_bundle (k_cpu k) = Inr b \<and> step_by (sv_ext v) b k k')"
      using assms(1) 3 unfolding syscall_entry_def
      by (simp split: if_splits) (erule caller_calls [THEN acts_as_callerD, OF assms(2)])+
    then show ?thesis using 3 by (auto simp: step_by_def)
  qed
qed

lemma call_inv:
  assumes "syscall_entry v c a1 a2 a3 a4 k = Inr (r, k')" "hw_inv n (k_hw k)" "STORE (k_graph k) \<noteq> None" "2 * n + 4 < 2 ^ 64"
  shows "hw_inv (Suc n) (k_hw k') \<and> STORE (k_graph k') \<noteq> None"
proof -
  consider "k_hw k' = k_hw k" | op where "k_hw k' = hw_step (sv_ext v) op (k_hw k)"
    using syscall_step [OF assms(1,3)] by blast
  then show ?thesis
    by cases (use assms(2,3) hw_inv_mono [of n _ "Suc n"] hw_inv_step [OF assms(2,4)] hw_step_STORE [OF assms(3)] in \<open>auto simp del: hw_step.simps\<close>)
qed

lemma kernel_run_inv:
  assumes "kernel_run v lv n k0 k" "hw_inv m (k_hw k0)" "STORE (k_graph k0) \<noteq> None" "2 * (m + n) + 4 < 2 ^ 64"
  shows "hw_inv (m + n) (k_hw k) \<and> STORE (k_graph k) \<noteq> None"
  using assms
proof induction
  case (call n k0 k c a1 a2 a3 a4 r k')
  then have "hw_inv (m + n) (k_hw k)" "STORE (k_graph k) \<noteq> None" "2 * (m + n) + 4 < 2 ^ 64" by simp_all
  from call_inv [OF call.hyps(2) this] show ?case by simp
next
  case (launch n k0 k ctx g' l' c' s' mem')
  then have p: "hw_inv (m + n) (k_hw k)" "STORE (k_graph k) \<noteq> None" "2 * (m + n + 4) + 4 < 2 ^ 64" by simp_all
  from launch_inv [OF launch.hyps(2) p(1,3)] p(2) show ?case by (simp add: set_graph_hw add.assoc)
qed auto

section \<open>Properties\<close>

text \<open>
  C8: where a system call may write memory, with the drivers the kernel registers at boot.
  Whatever the call number and the registers, every byte of memory that a call changes lies in
  the user half, inside the output buffer that the call takes in its registers; or the call is a
  spawn, and the byte is one of the first eight of a page of the new task's kernel stack; or it
  is a device write, and the byte belongs to the framebuffer.
\<close>

theorem syscall_memory_confined:
  assumes "syscall_entry v n a1 a2 a3 a4 k = Inr (r, k')" and "kernel_drivers (k_devices k)"
    and "k_mem k' a \<noteq> k_mem k a"
  shows "(\<exists>p l. out_buffer n a1 a2 a3 a4 = Some (p, l) \<and> a < USER_LIMIT \<and> unat p \<le> a \<and> a < unat p + unat l) \<or>
    (n = SYSCALL_SPAWN \<and>
      (\<exists>p \<in> stack_pages_of (length (tasks (sched (k_cpu k)))). p \<le> a \<and> a < p + 8)) \<or>
    (n = SYSCALL_DEV_WRITE \<and>
      (\<exists>fb. FRAMEBUFFER_DEVICE (k_io k) = Some fb \<and> fb_ptr fb \<le> a \<and> a < fb_ptr fb + fb_len fb * 4))"
  using syscall_memory [OF assms]
  by (auto simp: call_writes_def stack_marks_def screen_area_def split: option.splits if_splits)

definition demo_codec :: codec where
  "demo_codec =
     \<lparr>de_fiat = (\<lambda>_. Some \<lparr>fiat_id = Some 9, fiat_kind = canon_WINDOW, fiat_labels = [], fiat_fields = []\<rparr>),
      de_link = (\<lambda>_. None), de_pattern = (\<lambda>_. None), de_watch_query = (\<lambda>_. None), de_get = (\<lambda>_. None),
      de_find = (\<lambda>_. None), de_props_get = (\<lambda>_. None), de_props = (\<lambda>_. None), de_grant = (\<lambda>_. None),
      de_irq_bind = (\<lambda>_. None), de_dma_map = (\<lambda>_. None), de_dma_submit = (\<lambda>_. None), de_dma_wait = (\<lambda>_. None),
      en_things = (\<lambda>_. Some []), en_map = (\<lambda>_. Some []),
      uuid_as_bytes = (\<lambda>u. rev (to_le_bytes 16 u)), uuid_from_slice = (\<lambda>_. None)\<rparr>"

definition demo_sys :: "(nat \<rightharpoonup> nat, nat) sys_env" where
  "demo_sys =
     \<lparr>sv_ext = demo_ext,
      sv_wire = \<lparr>wire_thing = (\<lambda>_. Some []), wire_header = (\<lambda>_. Some []), wire_batch = (\<lambda>b. Some [7, 7])\<rparr>,
      sv_codec = demo_codec, sv_modules = [], sv_grow = (\<lambda>n. 2 * n), sv_gdt = Some demo_gdt,
      sv_alloc = demo_alloc, sv_map_page = demo_map_page, sv_trampoline = 0xffffffff80001000\<rparr>"

definition demo_kernel :: "(nat \<rightharpoonup> nat, nat) kstate" where
  "demo_kernel =
     \<lparr>k_hw = hw_boot, k_devices = device_table_new, k_io = io_off, k_cpu = demo_cpu 1, k_launcher = launcher_off,
      k_map = Map.empty, k_frames = 0, k_mem = (\<lambda>_. 0)\<rparr>"

lemma demo_current: "current_bundle (k_cpu demo_kernel) = Inr KERNEL_BUNDLE_ID"
  by (simp add: current_bundle_def demo_kernel_def demo_cpu_def deref_def demo_task_def)

lemma demo_fiat_call:
  "current_bundle (k_cpu k) = Inr b \<Longrightarrow> \<exists>r k'. syscall_entry demo_sys 1 0 0 0 0 k = Inr (r, k')"
  by (simp add: syscall_entry_def syscall_numbers sys_graph_fiat_def with_request_def with_bundle_def user_slice_def
      validate_user_slice_def demo_sys_def demo_codec_def split: prod.splits)

lemma demo_STORE: "STORE (k_graph demo_kernel) \<noteq> None"
  by (simp add: demo_kernel_def hw_boot_def graph_init_def)

theorem syscall_memory_confined_witness:
  "\<exists>k'. syscall_entry demo_sys 0x40 0x1000 0 0 0 demo_kernel = Inr (0, k') \<and> k_mem k' 0x100F \<noteq> k_mem demo_kernel 0x100F \<and>
     (\<exists>p l. out_buffer 0x40 0x1000 0 0 0 = Some (p, l) \<and> unat p \<le> 0x100F \<and> 0x100F < unat p + unat l)"
proof -
  have v: "validate_user_slice 0x1000 16 = Some (0x1000, 16)"
    by (simp add: validate_user_slice_def checked_add_def USER_LIMIT_def)
  define k' where "k' = demo_kernel\<lparr>k_mem := write_bytes 0x1000
      (rev (to_le_bytes 16 (bundle_uuid KERNEL_BUNDLE_ID))) (k_mem demo_kernel)\<rparr>"
  have c: "syscall_entry demo_sys 0x40 0x1000 0 0 0 demo_kernel = Inr (0, k')"
    using demo_current v
    by (simp add: syscall_entry_def syscall_numbers sys_get_self_def with_bundle_def k'_def demo_sys_def demo_codec_def Let_def)
  have "k_mem k' 0x100F = 1"
    by (simp add: k'_def write_bytes_def to_le_bytes_def rev_nth KERNEL_BUNDLE_ID_def)
  then have ch: "k_mem k' 0x100F \<noteq> k_mem demo_kernel 0x100F" by (simp add: demo_kernel_def)
  have "kernel_drivers (k_devices demo_kernel)" by (simp add: kernel_drivers_def demo_kernel_def device_table_new_def)
  from syscall_memory_confined [OF c this ch] c ch show ?thesis by (auto simp: syscall_numbers)
qed

text \<open>
  C9: a system call acts with the authority of the calling task. Its effect on the graph, the
  interrupt table and the DMA tables is nothing, or one operation in the name of the caller's
  bundle; the exceptions are polling, which acts on the watch that the caller names, and
  spawning, which creates or renews the package node of a boot module in the module's own name.
\<close>

theorem syscall_acts_as_caller:
  assumes "syscall_entry v n a1 a2 a3 a4 k = Inr (r, k')" and "STORE (k_graph k) \<noteq> None"
  shows "k_hw k' = k_hw k \<or> (\<exists>op. k_hw k' = hw_step (sv_ext v) op (k_hw k) \<and>
    (if n = SYSCALL_GRAPH_WATCH_POLL then op = HGraph (OPoll a1)
     else if n = SYSCALL_SPAWN
     then \<exists>name d q. (name, d) \<in> set (sv_modules v) \<and> fiat_id q = Some (package_uuid (sv_ext v) name) \<and>
        op = HGraph (OFiat (BundleId (package_uuid (sv_ext v) name)) q)
     else \<exists>b. current_bundle (k_cpu k) = Inr b \<and> hw_op_by b op))"
  by (rule syscall_step [OF assms])

theorem syscall_acts_as_caller_witness:
  "\<exists>r k'. syscall_entry demo_sys 1 0 0 0 0 demo_kernel = Inr (r, k') \<and>
     (k_hw k' = k_hw demo_kernel \<or>
      (\<exists>op. k_hw k' = hw_step demo_ext op (k_hw demo_kernel) \<and> hw_op_by KERNEL_BUNDLE_ID op))"
proof -
  obtain r k' where c: "syscall_entry demo_sys 1 0 0 0 0 demo_kernel = Inr (r, k')"
    using demo_fiat_call [OF demo_current] by blast
  have "sv_ext demo_sys = demo_ext" by (simp add: demo_sys_def)
  then show ?thesis
    using syscall_acts_as_caller [OF c demo_STORE] c demo_current
    by (simp add: syscall_numbers del: hw_step.simps)
qed

text \<open>
  C11: polling a watch with a buffer that is too short loses the changes. The call answers with
  the size it needs and copies nothing, but the queue is emptied, so a second poll finds nothing;
  whose watch it is does not matter.
\<close>

theorem watch_poll_loses_changes:
  assumes "bt_get (watches (store_of (k_graph k))) i = Some w" and "watch_queue w \<noteq> []"
    and "wire_batch (sv_wire v) \<lparr>from_revision = 0, latest_revision = next_revision (store_of (k_graph k)),
      batch_changes = watch_queue w\<rparr> = Some bytes"
    and "length bytes < 2 ^ 64" and "unat l < length bytes"
  shows "\<exists>k'. sys_watch_poll v i p l k = Inr (of_nat (length bytes), k') \<and> k_mem k' = k_mem k \<and>
    fst (poll_watch i (store_of (k_graph k'))) = None"
proof -
  let ?s = "(store_of (k_graph k))\<lparr>watches := bt_insert i (w\<lparr>watch_queue := []\<rparr>) (watches (store_of (k_graph k)))\<rparr>"
  let ?k = "set_graph ((k_graph k)\<lparr>STORE := Some ?s, JOURNAL := JOURNAL (k_graph k)\<rparr>) k"
  have "l < of_nat (length bytes)" using assms(4,5) by (simp add: word_less_nat_alt unat_of_nat)
  then have "copy_out_slice bytes p l ?k = Inr (of_nat (length bytes), ?k)"
    by (auto simp: copy_out_slice_def Let_def split: option.splits)
  moreover have "export_watch_events (sv_wire v) i (k_graph k) =
      (Some bytes, (k_graph k)\<lparr>STORE := Some ?s, JOURNAL := JOURNAL (k_graph k)\<rparr>)"
    using assms(1-3) by (simp add: export_watch_events_def api_poll_watch_def with_store_def on_store_def poll_watch_def Let_def)
  ultimately have "sys_watch_poll v i p l k = Inr (of_nat (length bytes), ?k)"
    by (simp add: sys_watch_poll_def Let_def)
  moreover have "store_of (k_graph ?k) = ?s" by (simp add: set_graph_hw)
  then have "fst (poll_watch i (store_of (k_graph ?k))) = None" by (simp add: poll_watch_def)
  ultimately show ?thesis by (intro exI [of _ ?k]) simp
qed

definition pending_kernel :: "(nat \<rightharpoonup> nat, nat) kstate" where
  "pending_kernel = set_graph (graph_init graph_off\<lparr>STORE := Some (store_new\<lparr>watches := [(1, \<lparr>watch_wid = 1,
     watch_owner = BundleId 5, watch_pattern = \<lparr>pat_labels = [], pat_props = []\<rparr>,
     watch_queue = [CThing (fiat_thing demo_ext (BundleId 5) demo_request 1)]\<rparr>)]\<rparr>)\<rparr>) demo_kernel"

theorem watch_poll_loses_changes_witness:
  "\<exists>k'. sys_watch_poll demo_sys 1 0x1000 1 pending_kernel = Inr (2, k') \<and> k_mem k' = (\<lambda>_. 0)"
  using watch_poll_loses_changes [where k = pending_kernel and i = 1 and v = demo_sys and bytes = "[7, 7]" and l = 1
      and p = "0x1000"]
  by (simp add: pending_kernel_def set_graph_hw demo_sys_def demo_kernel_def graph_init_def graph_off_def store_of_def) blast

end
