(* ===== verification/System_Boot.thy ===== *)
theory System_Boot
  imports Syscall
begin

text \<open>
  Bringing the system up (\<open>src/kernel/src/system/system.rs\<close>): the graph with the boot assets,
  the drivers, the user modules and one launcher task for each, in the order of \<open>System::boot\<close>;
  and the graph runtime for in-kernel clients (\<open>direct_runtime.rs\<close>). Paging, descriptor tables
  and interrupt controllers are set up on hardware only.
\<close>

section \<open>Boot\<close>

definition init_graph :: "ext \<Rightarrow> boot_modules \<Rightarrow> kernel_graph \<Rightarrow> kernel_graph" where
  "init_graph x mods g =
     (let g1 = graph_init g
      in case get_module mods ''assets.tar'' of
           None \<Rightarrow> g1
         | Some assets \<Rightarrow>
             snd (api_fiat x \<lparr>fiat_id = None, fiat_kind = canon_BOOT_ASSET, fiat_labels = [],
               fiat_fields = bt_insert canon_NAME (VText ''assets.tar'') (bt_insert canon_BYTES (VBytes assets) [])\<rparr> g1))"

fun spawn_launchers ::
  "('m, 'f) sys_env \<Rightarrow> u64 \<Rightarrow> nat \<Rightarrow> scheduler \<times> ('m, 'f) space \<Rightarrow> (scheduler \<times> ('m, 'f) space) panics" where
  "spawn_launchers v cr3 0 st = Inr st"
| "spawn_launchers v cr3 (Suc n) st =
     (case spawn_kernel_with_allocator (sv_grow v) (sv_gdt v) (sv_alloc v) (sv_map_page v) cr3 (sv_trampoline v) st of
        Inl e \<Rightarrow> Inl e
      | Inr (_, st') \<Rightarrow> spawn_launchers v cr3 n st')"

definition init_user_tasks :: "('m, 'f) sys_env \<Rightarrow> ('m, 'f) kstate \<Rightarrow> ('m, 'f) kstate panics" where
  "init_user_tasks v k =
     (let (g, l) = init_user_modules (sv_ext v) (sv_modules v) (k_graph k, k_launcher k)
      in case spawn_launchers v (cpu_cr3 (k_cpu k)) (user_module_count l) (sched (k_cpu k), k_map k, k_frames k, k_mem k) of
           Inl e \<Rightarrow> Inl e
         | Inr (s, m, f, mem) \<Rightarrow>
             Inr ((set_graph g k)\<lparr>k_launcher := l, k_cpu := (k_cpu k)\<lparr>sched := s\<rparr>, k_map := m, k_frames := f, k_mem := mem\<rparr>))"

text \<open>The state before boot, on the page tables, frames and memory the boot loader leaves.\<close>

definition kernel_off :: "u64 \<Rightarrow> 'm \<Rightarrow> 'f \<Rightarrow> (nat \<Rightarrow> u8) \<Rightarrow> ('m, 'f) kstate" where
  "kernel_off cr3 m f mem =
     \<lparr>k_hw = \<lparr>hw_graph = graph_off, hw_irq = irq_state_new, hw_dma = dma_state_new\<rparr>, k_devices = device_table_new,
      k_io = io_off,
      k_cpu = \<lparr>sched = scheduler_new, CURRENT_TASK = None, SCHED_SINGLE_TASK = False, cpu_cr3 = cr3, kernel_stack = 0, eois = []\<rparr>,
      k_launcher = launcher_off, k_map = m, k_frames = f, k_mem = mem\<rparr>"

definition boot :: "('m, 'f) sys_env \<Rightarrow> boot_framebuffer list option \<Rightarrow> ('m, 'f) kstate \<Rightarrow> ('m, 'f) kstate panics" where
  "boot v response k =
     (case init_drivers (sv_ext v) response (init_graph (sv_ext v) (sv_modules v) (k_graph k), k_devices k, k_io k) of
        Inl e \<Rightarrow> Inl e
      | Inr (g, t, d) \<Rightarrow> init_user_tasks v ((set_graph g k)\<lparr>k_devices := t, k_io := d\<rparr>))"

section \<open>The direct runtime\<close>

text \<open>The second component of the state is the counter of \<open>next_uuid\<close>.\<close>

definition direct_call :: "ext \<Rightarrow> abi_request \<Rightarrow> kernel_graph \<times> u64 \<Rightarrow> abi_response \<times> kernel_graph \<times> u64" where
  "direct_call x req = (\<lambda>(g, c).
     case req of
       ReqFiat i kind labels flds \<Rightarrow>
         let (thing, g') = api_fiat x \<lparr>fiat_id = i, fiat_kind = kind, fiat_labels = labels, fiat_fields = flds\<rparr> g
         in (RespFiat thing, g', c)
     | ReqLink i from pred to props \<Rightarrow>
         let (revision, g') = api_that x \<lparr>that_src = from, that_pred = pred, that_dst = to, that_revision_hint = 0, that_props = props\<rparr> g;
             (eid, c') = (case i of Some e \<Rightarrow> (e, c) | None \<Rightarrow> next_uuid c)
         in (RespLink (Some \<lparr>edge_id = eid, edge_src = from, edge_pred = pred, edge_dst = to, edge_props = props,
               edge_owner = 0, edge_revision = revision\<rparr>), g', c')
     | ReqGet i \<Rightarrow> let (thing, g') = get_thing i g in (RespGet thing, g', c)
     | ReqQuery pattern \<Rightarrow> let (ts, g') = api_get_nodes KERNEL_BUNDLE_ID pattern g in (RespQuery ts, g', c)
     | ReqFindByKind kind cursor \<Rightarrow>
         let ((ts, nc), g') = api_find_by_kind KERNEL_BUNDLE_ID kind (case cursor of Some n \<Rightarrow> n | None \<Rightarrow> 0) g
         in (RespFind ts (Some nc), g', c)
     | ReqWatchRegister pattern \<Rightarrow>
         let (i, g') = api_register_watch_pattern KERNEL_BUNDLE_ID pattern g in (RespWatchRegistered i, g', c)
     | ReqWatchPoll i max_events \<Rightarrow>
         let (r, g') = api_poll_watch i g
         in (RespWatchEvents (case r of Some b \<Rightarrow> b | None \<Rightarrow> \<lparr>from_revision = 0, latest_revision = 0, batch_changes = []\<rparr>), g', c)
     | ReqGrantCapability r \<Rightarrow>
         let (ok, g') = api_grant_capability x KERNEL_BUNDLE_ID r g in (RespCapabilityGranted ok, g', c)
     | _ \<Rightarrow> (RespError ''Not implemented in KernelDirectRuntime'', g, c))"

section \<open>Boot reaches a safe state\<close>

text \<open>A graph reached from another by a number of fiats.\<close>

inductive fiats :: "ext \<Rightarrow> nat \<Rightarrow> kernel_graph \<Rightarrow> kernel_graph \<Rightarrow> bool" for x where
  none: "fiats x 0 g g"
| one: "fiats x n g g' \<Longrightarrow> fiats x (Suc n) g (snd (fiat_for_bundle x b r g'))"

lemma fiats_trans: "fiats x m g2 g3 \<Longrightarrow> fiats x n g1 g2 \<Longrightarrow> fiats x (n + m) g1 g3"
  by (induction rule: fiats.induct) (auto intro: fiats.intros)

lemma fiats_one: "fiats x 1 g (snd (fiat_for_bundle x b r g))"
  using fiats.one [OF fiats.none] by simp

lemma hw_graph_step:
  "hw_step x (HGraph (OFiat b r)) h = h\<lparr>hw_graph := snd (fiat_for_bundle x b r (hw_graph h))\<rparr>"
  by (simp only: hw_step.simps fiat_for_bundle_step)

lemma fiats_reach:
  assumes "fiats x n g g'" "hw_reach x m (h\<lparr>hw_graph := g\<rparr>)"
  shows "hw_reach x (m + n) (h\<lparr>hw_graph := g'\<rparr>)"
  using assms
proof (induction rule: fiats.induct)
  case (one n g g' b r)
  then have "hw_reach x (Suc (m + n)) (hw_step x (HGraph (OFiat b r)) (h\<lparr>hw_graph := g'\<rparr>))"
    by (intro hw_reach.step) simp
  then show ?case unfolding hw_graph_step by simp
qed simp

lemma fiats_init_graph: "\<exists>n \<le> 1. fiats x n (graph_init g) (init_graph x mods g)"
proof (cases "get_module mods ''assets.tar''")
  case None
  then show ?thesis using fiats.none by (auto simp: init_graph_def Let_def)
next
  case (Some assets)
  then have "\<exists>b r. init_graph x mods g = snd (fiat_for_bundle x b r (graph_init g))"
    by (simp add: init_graph_def Let_def api_fiat_def) blast
  then show ?thesis using fiats_one by (metis order_refl)
qed

lemma fiats_device: "fiats x 1 g (snd (create_device_node x kind name flds g))"
proof -
  have "\<exists>b r. snd (create_device_node x kind name flds g) = snd (fiat_for_bundle x b r g)"
    by (simp add: create_device_node_def Let_def split: prod.splits) (metis snd_conv)
  then show ?thesis using fiats_one by metis
qed

lemma fiats_package: "fiats x 1 g (snd (create_user_module x name ty g))"
proof -
  have "\<exists>b r. snd (create_user_module x name ty g) = snd (fiat_for_bundle x b r g)"
    by (simp add: create_user_module_def create_package_def create_package_with_id_def Let_def split: prod.splits) (metis snd_conv)
  then show ?thesis using fiats_one by metis
qed

lemma fiats_modules:
  "create_user_modules x ps g = (ms, g') \<Longrightarrow> fiats x (length ps) g g' \<and> length ms = length ps"
proof (induction ps arbitrary: g ms g')
  case (Cons p ps)
  obtain name ty where p: "p = (name, ty)" by fastforce
  obtain m1 g1 where 1: "create_user_module x name ty g = (m1, g1)" by fastforce
  obtain ms2 g2 where 2: "create_user_modules x ps g1 = (ms2, g2)" by fastforce
  have "fiats x 1 g g1" using fiats_package [of x g name ty] 1 by simp
  moreover note Cons.IH [OF 2]
  ultimately show ?case using Cons.prems p 1 2 fiats_trans [of x "length ps" g1 g2 1 g] by auto
qed (auto intro: fiats.none)

lemma select_modules_length: "length (select_modules mods) \<le> 2 * length mods + 1"
  by (auto simp: select_modules_def Let_def mult_2 split: option.splits intro!: le_SucI add_mono length_filter_le)

text \<open>The device table that boot builds: framebuffer, serial port, keyboard, mouse.\<close>

definition boot_endpoints :: "ext \<Rightarrow> io device_endpoint list" where
  "boot_endpoints x =
     [\<lparr>ep_handle = 1, ep_kind = Framebuffer, ep_read = Some read_framebuffer, ep_write = Some write_framebuffer,
       ep_map = Some map_framebuffer, ep_node = Some (device_uuid x FRAMEBUFFER_DEVICE_NAME)\<rparr>,
      \<lparr>ep_handle = 2, ep_kind = Serial, ep_read = None, ep_write = Some write_serial, ep_map = None, ep_node = None\<rparr>,
      \<lparr>ep_handle = 3, ep_kind = Keyboard, ep_read = Some kbd_endpoint, ep_write = None, ep_map = None,
       ep_node = Some (device_uuid x KEYBOARD_DEVICE_NAME)\<rparr>,
      \<lparr>ep_handle = 4, ep_kind = Mouse, ep_read = Some mouse_endpoint, ep_write = None, ep_map = None,
       ep_node = Some (device_uuid x MOUSE_DEVICE_NAME)\<rparr>]"

lemma create_device_node_id: "fst (create_device_node x kind name flds g) = device_uuid x name"
  by (simp add: create_device_node_def Let_def fiat_for_bundle_def with_store_def fiat_def fiat_node_eq fiat_thing_def
      split: prod.splits)

lemma init_drivers_effect:
  assumes "init_drivers x response (g, device_table_new, d) = Inr (g', t, d')"
  shows "fiats x 3 g g'" and "dt_endpoints t = boot_endpoints x"
proof -
  obtain fb d1 where fb: "framebuffer_new response d = Inr (Some fb, d1)"
    using assms by (auto simp: init_drivers_def split: sum.splits option.splits prod.splits)
  let ?fl = "framebuffer_fields fb d1"
  define g1 where "g1 = snd (create_device_node x canon_DEVICE FRAMEBUFFER_DEVICE_NAME ?fl g)"
  define g2 where "g2 = snd (create_device_node x canon_DEVICE KEYBOARD_DEVICE_NAME (ps2_fields 1 ''keyboard'') g1)"
  define g3 where "g3 = snd (create_device_node x canon_DEVICE MOUSE_DEVICE_NAME (ps2_fields 12 ''mouse'') g2)"
  have cd: "create_device_node x kind name flds h = (device_uuid x name, snd (create_device_node x kind name flds h))"
    for kind name flds h by (metis create_device_node_id prod.collapse)
  have reg: "register_framebuffer_device x fb (g, device_table_new, d1) =
      (g1, snd (register_device Framebuffer (Some read_framebuffer) (Some write_framebuffer) (Some map_framebuffer)
        (Some (device_uuid x FRAMEBUFFER_DEVICE_NAME)) device_table_new), d1\<lparr>FRAMEBUFFER_DEVICE := Some fb\<rparr>)"
    using cd [of canon_DEVICE FRAMEBUFFER_DEVICE_NAME ?fl g]
    by (auto simp: register_framebuffer_device_def g1_def Let_def split: prod.splits)
  have kb: "keyboard_init x (g1, s) = (g2, snd (register_device Keyboard (Some kbd_endpoint) None None
      (Some (device_uuid x KEYBOARD_DEVICE_NAME)) s))" for s
    using cd [of canon_DEVICE KEYBOARD_DEVICE_NAME "ps2_fields 1 ''keyboard''" g1]
    by (auto simp: keyboard_init_def g2_def Let_def split: prod.splits)
  have mi: "mouse_init x (g2, s) = (g3, snd (register_device Mouse (Some mouse_endpoint) None None
      (Some (device_uuid x MOUSE_DEVICE_NAME)) s))" for s
    using cd [of canon_DEVICE MOUSE_DEVICE_NAME "ps2_fields 12 ''mouse''" g2]
    by (auto simp: mouse_init_def g3_def Let_def split: prod.splits)
  let ?reg = "\<lambda>kind rd wr mp node s. snd (register_device kind rd wr mp node s)"
  have res: "g' = g3 \<and> t = ?reg Mouse (Some mouse_endpoint) None None (Some (device_uuid x MOUSE_DEVICE_NAME))
      (?reg Keyboard (Some kbd_endpoint) None None (Some (device_uuid x KEYBOARD_DEVICE_NAME))
        (init_serial (?reg Framebuffer (Some read_framebuffer) (Some write_framebuffer) (Some map_framebuffer)
          (Some (device_uuid x FRAMEBUFFER_DEVICE_NAME)) device_table_new)))"
    using assms by (simp add: init_drivers_def fb reg kb mi)
  then show "dt_endpoints t = boot_endpoints x"
    by (simp add: init_serial_def boot_endpoints_def register_device_def alloc_handle_def device_table_new_def)
  have "fiats x (1 + 1 + 1) g g3"
    unfolding g3_def g2_def g1_def by (intro fiats_trans [OF fiats_device] fiats_device)
  then show "fiats x 3 g g'" using res by (simp add: numeral_3_eq_3)
qed


lemma boot_reach:
  assumes b: "boot v response (kernel_off cr3 m f mem) = Inr k"
  shows "\<exists>n \<le> 2 * length (sv_modules v) + 5. hw_reach (sv_ext v) n (k_hw k)"
    and "STORE (k_graph k) \<noteq> None" and "dt_endpoints (k_devices k) = boot_endpoints (sv_ext v)"
proof -
  let ?x = "sv_ext v" and ?g0 = "init_graph (sv_ext v) (sv_modules v) graph_off"
  let ?h = "\<lparr>hw_graph = graph_off, hw_irq = irq_state_new, hw_dma = dma_state_new\<rparr>"
  obtain g t d where dr: "init_drivers ?x response (?g0, device_table_new, io_off) = Inr (g, t, d)"
    and us: "init_user_tasks v ((set_graph g (kernel_off cr3 m f mem))\<lparr>k_devices := t, k_io := d\<rparr>) = Inr k"
    using b by (auto simp: boot_def kernel_off_def split: sum.splits prod.splits)
  obtain ms g' where cm: "create_user_modules ?x (select_modules (sv_modules v)) g = (ms, g')" by fastforce
  have k: "k_hw k = ?h\<lparr>hw_graph := g'\<rparr>" "k_devices k = t"
    using us cm by (auto simp: init_user_tasks_def init_user_modules_def kernel_off_def set_graph_def Let_def
        split: sum.splits prod.splits)
  note dre = init_drivers_effect [OF dr]
  obtain a where a: "a \<le> 1" "fiats ?x a (graph_init graph_off) ?g0" using fiats_init_graph by blast
  have "fiats ?x (a + 3 + length (select_modules (sv_modules v))) (graph_init graph_off) g'"
    using fiats_trans [OF _ fiats_trans [OF dre(1) a(2)]] fiats_modules [OF cm] by blast
  moreover have "hw_reach ?x 0 (?h\<lparr>hw_graph := graph_init graph_off\<rparr>)"
    using hw_reach.boot [of ?x] by (simp add: hw_boot_def)
  ultimately have "hw_reach ?x (0 + (a + 3 + length (select_modules (sv_modules v)))) (?h\<lparr>hw_graph := g'\<rparr>)"
    by (rule fiats_reach)
  moreover have "a + 3 + length (select_modules (sv_modules v)) \<le> 2 * length (sv_modules v) + 5"
    using a(1) select_modules_length [of "sv_modules v"] by simp
  ultimately show "\<exists>n \<le> 2 * length (sv_modules v) + 5. hw_reach ?x n (k_hw k)"
    by (intro exI [of _ "a + 3 + length (select_modules (sv_modules v))"]) (simp add: k)
  have st: "STORE g2 \<noteq> None" if "fiats ?x n g1 g2" "STORE g1 \<noteq> None" for n g1 g2
    using that by (induction rule: fiats.induct) (auto simp: fiat_for_bundle_def with_store_def split: prod.splits)
  show "STORE (k_graph k) \<noteq> None"
    using st [OF \<open>fiats ?x _ (graph_init graph_off) g'\<close>] by (simp add: k graph_init_def)
  show "dt_endpoints (k_devices k) = boot_endpoints ?x" using k dre(2) by simp
qed

section \<open>Devices stay registered\<close>

definition keeps_devices :: "('m, 'f) handler \<Rightarrow> bool" where
  "keeps_devices h \<longleftrightarrow> (\<forall>k r k'. h k = Inr (r, k') \<longrightarrow> k_devices k' = k_devices k)"

lemma keeps_devicesD: "keeps_devices h \<Longrightarrow> h k = Inr (r, k') \<Longrightarrow> k_devices k' = k_devices k"
  by (simp add: keeps_devices_def)

lemma k_devices_set_graph [simp]: "k_devices (set_graph g k) = k_devices k"
  by (simp add: set_graph_def)

lemma with_bundle_devices: "(\<And>b. keeps_devices (f b)) \<Longrightarrow> keeps_devices (with_bundle f)"
  by (auto simp: keeps_devices_def with_bundle_def split: sum.splits)

lemma with_request_devices: "(\<And>r b. keeps_devices (f r b)) \<Longrightarrow> keeps_devices (with_request de ptr len f)"
  using with_bundle_devices
  by (auto simp: keeps_devices_def with_request_def split: option.splits) blast

lemma copy_out_devices: "copy_out_slice buf p l k = Inr (r, k') \<Longrightarrow> k_devices k' = k_devices k"
  by (auto simp: copy_out_slice_def Let_def split: option.splits if_splits)

lemma answer_devices: "answer res p l k = Inr (r, k') \<Longrightarrow> k_devices k' = k_devices k"
  by (auto simp: answer_def dest: copy_out_devices split: option.splits)

lemma into_buffer_devices: "into_buffer rd p l k = (r, k') \<Longrightarrow> k_devices k' = k_devices k"
  by (auto simp: into_buffer_def Let_def split: option.splits prod.splits)

lemma request_calls_devices:
  "keeps_devices (sys_graph_fiat v a1 a2)" "keeps_devices (sys_graph_link v a1 a2)"
  "keeps_devices (sys_graph_set_props v a1 a2)" "keeps_devices (sys_grant_capability v a1 a2)"
  "keeps_devices (sys_irq_bind v a1 a2)" "keeps_devices (sys_irq_ack a1)" "keeps_devices (sys_dma_map v a1 a2)"
  "keeps_devices (sys_dma_submit v a1 a2)" "keeps_devices (sys_dma_wait v a1 a2)"
  "keeps_devices (sys_graph_get v a1 a2 a3 a4)" "keeps_devices (sys_graph_get_props v a1 a2 a3 a4)"
  "keeps_devices (sys_get_self v a1)"
  unfolding sys_graph_fiat_def sys_graph_link_def sys_graph_set_props_def sys_grant_capability_def sys_irq_bind_def
    sys_irq_ack_def sys_dma_map_def sys_dma_submit_def sys_dma_wait_def sys_graph_get_def sys_graph_get_props_def
    sys_get_self_def
  by (intro with_request_devices with_bundle_devices;
      auto simp: keeps_devices_def Let_def dest: answer_devices
        split: prod.splits graph_get_request.splits option.splits if_splits)+

lemma find_devices: "keeps_devices (sys_graph_find_by_kind v a1 a2 a3)"
proof -
  have w: "keeps_devices (with_request from_utf8 (fbk_kind_ptr r) (fbk_kind_len r) (\<lambda>kind b k.
      let (bytes, g) = export_find_by_kind_bytes (sv_wire v) b kind (fbk_cursor r) (k_graph k)
      in answer bytes a2 a3 (set_graph g k)))" for r
    by (intro with_request_devices) (auto simp: keeps_devices_def dest: answer_devices split: prod.splits)
  show ?thesis
    unfolding keeps_devices_def sys_graph_find_by_kind_def
    using w by (auto simp: keeps_devices_def split: option.splits)
qed

lemma plain_calls_devices:
  "keeps_devices (sys_watch_register v a1 a2)" "keeps_devices (sys_watch_poll v a1 a2 a3)" "keeps_devices (sys_kbd_read a1 a2)"
  "keeps_devices (sys_mouse_read a1 a2)" "keeps_devices (sys_fb_info a1 a2)" "keeps_devices sys_fb_map"
  "keeps_devices (sys_dev_open a1 a2)" "keeps_devices (sys_dev_read a1 a2 a3)" "keeps_devices (sys_dev_write a1 a2 a3)"
  "keeps_devices (sys_dev_map a1)" "keeps_devices (sys_spawn v a1 a2)" "keeps_devices (sys_log a1 a2)"
  by (auto simp: keeps_devices_def sys_watch_register_def sys_watch_poll_def sys_kbd_read_def sys_mouse_read_def sys_fb_info_def
      sys_fb_map_def sys_dev_open_def sys_dev_read_def sys_dev_write_def sys_dev_map_def sys_spawn_def sys_log_def with_bundle_def
      Let_def dest: copy_out_devices into_buffer_devices split: option.splits prod.splits if_splits sum.splits)

lemma syscall_devices:
  assumes "syscall_entry v n a1 a2 a3 a4 k = Inr (r, k')"
  shows "k_devices k' = k_devices k"
  using assms unfolding syscall_entry_def
  by (simp split: if_splits)
    (erule request_calls_devices [THEN keeps_devicesD] find_devices [THEN keeps_devicesD]
      plain_calls_devices [THEN keeps_devicesD])+

lemma kernel_run_devices: "kernel_run v lv n k0 k \<Longrightarrow> k_devices k = k_devices k0"
  by (induction rule: kernel_run.induct) (auto dest: syscall_devices)

section \<open>Properties\<close>

text \<open>
  C10: from boot on, the graph and the hardware tables keep their invariants whatever user tasks
  do. After a boot that completes, over any run of the first task's start, system calls with any
  arguments, user stores, input interrupts, context switches and launches of user tasks, the
  graph's store satisfies its invariant, every interrupt binding, DMA mapping and DMA submission
  is backed by a capability in the graph, and the device table holds just the drivers that boot
  registered. The run is bounded only by the 64-bit revision counter.
\<close>

theorem boot_run_safe:
  assumes "boot v response (kernel_off cr3 m f mem) = Inr k0" and "kernel_run v lv n k0 k"
    and "2 * (2 * length (sv_modules v) + 5 + n) + 4 < 2 ^ 64"
  shows "store_inv (store_of (k_graph k)) \<and>
    irq_backed (store_of (k_graph k)) (hw_irq (k_hw k)) \<and> dma_backed (store_of (k_graph k)) (hw_dma (k_hw k)) \<and>
    dt_endpoints (k_devices k) = boot_endpoints (sv_ext v)"
proof -
  note b = boot_reach [OF assms(1)]
  obtain i where i: "i \<le> 2 * length (sv_modules v) + 5" "hw_reach (sv_ext v) i (k_hw k0)" using b(1) by blast
  have "hw_inv i (k_hw k0)" using hw_reach_inv [OF i(2)] i(1) assms(3) by simp
  moreover have "2 * (i + n) + 4 < 2 ^ 64" using i(1) assms(3) by simp
  ultimately show ?thesis
    using kernel_run_inv [OF assms(2) _ b(2)] b(3) kernel_run_devices [OF assms(2)] by (auto simp: hw_inv_def)
qed

text \<open>
  At any time after boot, opening a device by its kind gives the device of that kind that
  boot registered: the framebuffer, the serial port, the keyboard and the mouse have handles 1
  to 4, there is one of each, and reading from the keyboard handle reads the scancode buffer.
\<close>

theorem boot_devices_open:
  assumes "boot v response (kernel_off cr3 m f mem) = Inr k0" and "kernel_run v lv n k0 k"
  shows "dev_open 3 0 (k_devices k) = Some 1 \<and> dev_open 4 0 (k_devices k) = Some 2 \<and>
    dev_open 1 0 (k_devices k) = Some 3 \<and> dev_open 2 0 (k_devices k) = Some 4 \<and>
    (\<forall>code i. 0 < i \<longrightarrow> dev_open code i (k_devices k) = None) \<and>
    (\<forall>buf. dev_read 3 buf (k_devices k) (k_io k) = kbd_endpoint buf (k_io k))"
proof -
  have e: "dt_endpoints (k_devices k) = boot_endpoints (sv_ext v)"
    using boot_reach(3) [OF assms(1)] kernel_run_devices [OF assms(2)] by simp
  show ?thesis
    by (auto simp: dev_open_def table_open_def dev_read_def by_handle_def e boot_endpoints_def Let_def)
qed

definition demo_screen :: boot_framebuffer where
  "demo_screen = \<lparr>bf_width = 2, bf_height = 1, bf_pitch = 8, bf_bpp = 32, bf_addr = 0xffff8000fd000000\<rparr>"

lemma demo_boot:
  "\<exists>k. boot demo_sys (Some [demo_screen]) (kernel_off 0x1000 Map.empty 0 (\<lambda>_. 0)) = Inr k \<and>
     current_bundle (k_cpu k) = Inr KERNEL_BUNDLE_ID"
proof -
  let ?g = "init_graph demo_ext [] graph_off"
  have "\<exists>g t d. init_drivers demo_ext (Some [demo_screen]) (?g, device_table_new, io_off) = Inr (g, t, d)"
    by (simp add: init_drivers_def framebuffer_new_def demo_screen_def Let_def split: prod.splits)
  then obtain g t d where "init_drivers demo_ext (Some [demo_screen]) (?g, device_table_new, io_off) = Inr (g, t, d)"
    by blast
  then show ?thesis
    by (simp add: boot_def demo_sys_def kernel_off_def init_user_tasks_def init_user_modules_def select_modules_def
        user_module_count_def current_bundle_def Let_def split: prod.splits)
qed

definition idle_env :: "(unit, nat, bool) launch_env" where
  "idle_env =
     \<lparr>lv_modules = [], lv_module_ptr = (\<lambda>_. 0), lv_gdt = Some demo_gdt, lv_hhdm = 0, lv_hhdm_index = 256,
      lv_active = replicate 512 True,
      lv_paging = \<lparr>pg_zero = False, pg_present = id, pg_code_ok = (\<lambda>_. True), pg_hhdm_ok = (\<lambda>_. True)\<rparr>,
      lv_mapper = \<lparr>translate = (\<lambda>m p. NotMapped), map_to = (\<lambda>p fr fl mf. None), update_flags = (\<lambda>p fl m. None),
                  virt_ok = (\<lambda>a. True)\<rparr>,
      lv_alloc = (\<lambda>f. Inr (None, f)), lv_user_map = (\<lambda>_. ())\<rparr>"

theorem boot_run_safe_witness:
  "\<exists>k0 k. boot demo_sys (Some [demo_screen]) (kernel_off 0x1000 Map.empty 0 (\<lambda>_. 0)) = Inr k0 \<and>
     kernel_run demo_sys idle_env 1 k0 k \<and> k_mem k 0x2000 = 7 \<and> store_inv (store_of (k_graph k)) \<and>
     dt_endpoints (k_devices k) = boot_endpoints demo_ext"
proof -
  obtain k0 where k0: "boot demo_sys (Some [demo_screen]) (kernel_off 0x1000 Map.empty 0 (\<lambda>_. 0)) = Inr k0"
    "current_bundle (k_cpu k0) = Inr KERNEL_BUNDLE_ID"
    using demo_boot by blast
  obtain r k1 where k1: "syscall_entry demo_sys 1 0 0 0 0 k0 = Inr (r, k1)" using demo_fiat_call [OF k0(2)] by blast
  let ?k2 = "k1\<lparr>k_io := (k_io k1)\<lparr>KEYBOARD_BUFFER := snd (keyboard_interrupt_handler False 0x1E (KEYBOARD_BUFFER (k_io k1)))\<rparr>\<rparr>"
  have run: "kernel_run demo_sys idle_env (Suc 0) k0 (?k2\<lparr>k_mem := (k_mem ?k2)(0x2000 := 7)\<rparr>)"
    by (rule kernel_run.user_store [OF kernel_run.key [OF kernel_run.call [OF kernel_run.start k1]]])
      (simp add: USER_LIMIT_def)
  from boot_run_safe [OF k0(1) run] k0(1) run show ?thesis
    by (intro exI [of _ k0] exI [of _ "?k2\<lparr>k_mem := (k_mem ?k2)(0x2000 := 7)\<rparr>"]) (simp add: demo_sys_def)
qed

theorem boot_devices_open_witness:
  "\<exists>k. boot demo_sys (Some [demo_screen]) (kernel_off 0x1000 Map.empty 0 (\<lambda>_. 0)) = Inr k \<and>
     dev_open 1 0 (k_devices k) = Some 3"
proof -
  obtain k where k: "boot demo_sys (Some [demo_screen]) (kernel_off 0x1000 Map.empty 0 (\<lambda>_. 0)) = Inr k"
    using demo_boot by blast
  from boot_devices_open [OF k kernel_run.start [of _ idle_env]] k show ?thesis by blast
qed

end
