(* ===== verification/Driver_Loop.thy ===== *)
theory Driver_Loop
  imports Endpoints
begin

text \<open>
  The loop with which the input drivers read their device
  (\<open>src/drivers/keyboard_driver/src/lib.rs\<close>, \<open>src/drivers/mouse_driver/src/lib.rs\<close>): a buffer of
  16 bytes is filled again and again and every byte handled, until a read returns nothing. The
  loop is shared; what a driver does with a byte and the device are parameters, and the device may
  be refilled by interrupts between the reads.
\<close>

section \<open>The loop\<close>

fun feed_all :: "(u8 \<Rightarrow> 's \<Rightarrow> 's \<times> 'e list) \<Rightarrow> u8 list \<Rightarrow> 's \<Rightarrow> 's \<times> 'e list" where
  "feed_all h [] s = (s, [])"
| "feed_all h (b # bs) s = (let (s1, r1) = h b s; (s2, r2) = feed_all h bs s1 in (s2, r1 @ r2))"

text \<open>\<open>rd\<close> is the read on the device \<open>'d\<close>; \<open>None\<close> is a loop that never ends.\<close>

partial_function (option) read_loop ::
  "(u8 list \<Rightarrow> 'd \<Rightarrow> nat \<times> u8 list \<times> 'd) \<Rightarrow> (u8 \<Rightarrow> 's \<Rightarrow> 's \<times> 'e list) \<Rightarrow> u8 list \<Rightarrow> 's \<times> 'd \<Rightarrow> ('s \<times> 'e list \<times> 'd) option" where
  "read_loop rd h buf s =
     (case rd buf (snd s) of (n, buf', dev) \<Rightarrow>
        if n = 0 then Some (fst s, [], dev)
        else case feed_all h (take n buf') (fst s) of (s1, r1) \<Rightarrow>
               Option.bind (read_loop rd h buf' (s1, dev)) (\<lambda>(s2, r2, dev'). Some (s2, r1 @ r2, dev')))"

definition poll_device ::
  "(u8 list \<Rightarrow> 'd \<Rightarrow> nat \<times> u8 list \<times> 'd) \<Rightarrow> (u8 \<Rightarrow> 's \<Rightarrow> 's \<times> 'e list) \<Rightarrow> u64 option \<Rightarrow> u64 option \<Rightarrow> 's \<Rightarrow> 'd \<Rightarrow>
   ('s \<times> 'e list \<times> 'd) option" where
  "poll_device rd h irq device s dev =
     (if irq = None \<or> device = None then Some (s, [], dev) else read_loop rd h (replicate 16 0) (s, dev))"

lemma feed_all_append:
  "feed_all h (xs @ ys) s =
     (case feed_all h xs s of (s1, r1) \<Rightarrow> (case feed_all h ys s1 of (s2, r2) \<Rightarrow> (s2, r1 @ r2)))"
  by (induction xs arbitrary: s) (auto split: prod.splits)

text \<open>
  The device while interrupts arrive: \<open>bss n\<close> are the bytes that come in between the \<open>n\<close>-th read
  and the one before. The device counts the reads.
\<close>

definition interrupted ::
  "(u8 list \<Rightarrow> 'd \<Rightarrow> nat \<times> u8 list \<times> 'd) \<Rightarrow> (u8 list \<Rightarrow> 'd \<Rightarrow> 'd) \<Rightarrow> (nat \<Rightarrow> u8 list) \<Rightarrow> u8 list \<Rightarrow> 'd \<times> nat \<Rightarrow> nat \<times> u8 list \<times> 'd \<times> nat" where
  "interrupted rd arrive bss buf s =
     (case rd buf (arrive (bss (snd s)) (fst s)) of (n, buf', dev) \<Rightarrow> (n, buf', dev, Suc (snd s)))"

text \<open>
  What the \<open>n\<close>-th read finds waiting in a queue of capacity \<open>cap\<close> that starts as \<open>q\<close>: each read takes
  16 bytes, and what comes in on a full queue is dropped.
\<close>

fun waiting :: "nat \<Rightarrow> (nat \<Rightarrow> u8 list) \<Rightarrow> u8 list \<Rightarrow> nat \<Rightarrow> u8 list" where
  "waiting cap bss q 0 = take cap (q @ bss 0)"
| "waiting cap bss q (Suc n) = take cap (drop 16 (waiting cap bss q n) @ bss (Suc n))"

definition handled :: "nat \<Rightarrow> (nat \<Rightarrow> u8 list) \<Rightarrow> u8 list \<Rightarrow> nat \<Rightarrow> u8 list" where
  "handled cap bss q N = concat (map (\<lambda>n. take 16 (waiting cap bss q n)) [0..<N])"

lemma handled_Suc: "handled cap bss q (Suc N) = handled cap bss q N @ take 16 (waiting cap bss q N)"
  by (simp add: handled_def)

lemma waiting_length: "length (waiting cap bss q n) \<le> cap"
  by (cases n) simp_all

lemma waiting_all:
  "length q + length (concat (map bss [0..<Suc n])) \<le> cap \<Longrightarrow> handled cap bss q n @ waiting cap bss q n = q @ concat (map bss [0..<Suc n])"
proof (induction n)
  case (Suc n)
  let ?w = "waiting cap bss q n"
  have split: "handled cap bss q n @ ?w = q @ concat (map bss [0..<Suc n])" using Suc by simp
  then have "length ?w \<le> length q + length (concat (map bss [0..<Suc n]))" by (metis le_add2 length_append)
  then have "length (drop 16 ?w @ bss (Suc n)) \<le> cap" using Suc.prems by simp
  then have "waiting cap bss q (Suc n) = drop 16 ?w @ bss (Suc n)" by simp
  then have "handled cap bss q (Suc n) @ waiting cap bss q (Suc n) = handled cap bss q n @ (take 16 ?w @ drop 16 ?w) @ bss (Suc n)"
    by (simp add: handled_Suc del: append_take_drop_id)
  then show ?case using split by simp
qed (simp add: handled_def)

lemma waiting_ends:
  assumes "\<And>n. M \<le> n \<Longrightarrow> bss n = []"
  shows "\<exists>N. waiting cap bss q N = []"
proof -
  have "length (waiting cap bss q (M + k)) \<le> cap - 16 * k" for k
    using assms by (induction k) (auto simp: waiting_length le_diff_conv)
  from this [of cap] show ?thesis by (intro exI [of _ "M + cap"]) simp
qed

section \<open>Devices that run dry\<close>

text \<open>A device whose reads take the next bytes of a finite queue; \<open>left\<close> lists them.\<close>

locale byte_source =
  fixes rd :: "u8 list \<Rightarrow> 'd \<Rightarrow> nat \<times> u8 list \<times> 'd" and left :: "'d \<Rightarrow> u8 list" and ok :: "'d \<Rightarrow> bool"
  assumes rd_takes: "ok dev \<Longrightarrow> rd buf dev = (n, buf', dev') \<Longrightarrow>
      n = min (length buf) (length (left dev)) \<and> length buf' = length buf \<and> take n buf' = take n (left dev) \<and>
      left dev' = drop n (left dev) \<and> ok dev'"
begin

lemma read_loop_drains:
  assumes "ok dev" "0 < length buf"
  shows "\<exists>dev'. read_loop rd h buf (s, dev) = Some (fst (feed_all h (left dev) s), snd (feed_all h (left dev) s), dev') \<and>
    left dev' = [] \<and> ok dev'"
  using assms
proof (induction "length (left dev)" arbitrary: buf s dev rule: less_induct)
  case less
  obtain n buf' dev1 where r: "rd buf dev = (n, buf', dev1)" by (metis prod_cases3)
  note t = rd_takes [OF less.prems(1) r]
  show ?case
  proof (cases "n = 0")
    case True
    then have "left dev = []" using t less.prems(2) by (auto simp: min_def split: if_splits)
    then show ?thesis using True r t by (subst read_loop.simps) simp
  next
    case False
    obtain s1 r1 where h: "feed_all h (take n (left dev)) s = (s1, r1)" by fastforce
    have "length (left dev1) < length (left dev)" "ok dev1" "0 < length buf'" using t False less.prems(2) by auto
    from less.hyps [OF this, of s1] obtain dev2 where l:
      "read_loop rd h buf' (s1, dev1) = Some (fst (feed_all h (left dev1) s1), snd (feed_all h (left dev1) s1), dev2)"
      "left dev2 = []" "ok dev2"
      by blast
    have "feed_all h (left dev) s = (case feed_all h (left dev1) s1 of (s2, r2) \<Rightarrow> (s2, r1 @ r2))"
      using feed_all_append [of h "take n (left dev)" "drop n (left dev)" s] h t by simp
    then show ?thesis
      using False r t h l by (subst read_loop.simps) (simp split: prod.splits)
  qed
qed

lemma poll_device_drains:
  assumes "ok dev"
  shows "\<exists>dev'. poll_device rd h (Some i) (Some j) s dev =
      Some (fst (feed_all h (left dev) s), snd (feed_all h (left dev) s), dev') \<and> left dev' = [] \<and> ok dev'"
  using read_loop_drains [OF assms, of "replicate 16 0" h s] by (simp add: poll_device_def)

end

text \<open>Such a device with an interrupt handler that puts bytes into the queue, as far as there is room.\<close>

locale refilled_source = byte_source +
  fixes arrive :: "u8 list \<Rightarrow> 'a \<Rightarrow> 'a" and cap :: nat
  assumes arrives: "ok dev \<Longrightarrow> left (arrive bs dev) = take cap (left dev @ bs) \<and> ok (arrive bs dev)"
begin

definition at_read :: "(nat \<Rightarrow> u8 list) \<Rightarrow> u8 list \<Rightarrow> nat \<Rightarrow> 'a \<Rightarrow> bool" where
  "at_read bss q n dev \<longleftrightarrow> ok dev \<and> take cap (left dev @ bss n) = waiting cap bss q n"

lemma one_read:
  assumes "at_read bss q n dev" "length buf = 16" "interrupted rd arrive bss buf (dev, n) = (k, buf', s')"
  shows "(k = 0 \<longleftrightarrow> waiting cap bss q n = []) \<and> length buf' = 16 \<and> take k buf' = take 16 (waiting cap bss q n) \<and>
    snd s' = Suc n \<and> ok (fst s') \<and> left (fst s') = drop 16 (waiting cap bss q n) \<and> at_read bss q (Suc n) (fst s')"
proof -
  have a: "ok (arrive (bss n) dev)" "left (arrive (bss n) dev) = waiting cap bss q n" using assms(1) arrives [of dev "bss n"] by (auto simp: at_read_def)
  obtain dev' where r: "rd buf (arrive (bss n) dev) = (k, buf', dev')" and s: "s' = (dev', Suc n)"
    using assms(3) by (auto simp: interrupted_def split: prod.splits)
  have t: "k = min 16 (length (waiting cap bss q n))" "length buf' = 16" "take k buf' = take k (waiting cap bss q n)"
    "left dev' = drop k (waiting cap bss q n)" "ok dev'"
    using rd_takes [OF a(1) r, unfolded a(2) assms(2)] by blast+
  have w: "take k (waiting cap bss q n) = take 16 (waiting cap bss q n)" "drop k (waiting cap bss q n) = drop 16 (waiting cap bss q n)"
    "k = 0 \<longleftrightarrow> waiting cap bss q n = []" using t(1) by (auto simp: min_def)
  show ?thesis using t(2,5) t(3,4) [unfolded w] w(3) s by (simp add: at_read_def)
qed

lemma interrupted_loop:
  assumes "at_read bss q n dev" "length buf = 16" "n \<le> N" "waiting cap bss q N = []" "\<And>m. n \<le> m \<Longrightarrow> m < N \<Longrightarrow> waiting cap bss q m \<noteq> []"
  shows "\<exists>dev'. read_loop (interrupted rd arrive bss) h buf (s, dev, n) =
      (case feed_all h (concat (map (\<lambda>n. take 16 (waiting cap bss q n)) [n..<N])) s of (s', r) \<Rightarrow> Some (s', r, dev', Suc N)) \<and> left dev' = []"
  using assms
proof (induction "N - n" arbitrary: n buf s dev)
  case 0
  obtain k buf' t where r: "interrupted rd arrive bss buf (dev, n) = (k, buf', t)" by (metis prod_cases3)
  then show ?case using one_read [OF 0(2,3) r] 0 by (subst read_loop.simps) (cases t, simp)
next
  case (Suc d)
  obtain k buf' dev1 n1 where r: "interrupted rd arrive bss buf (dev, n) = (k, buf', dev1, n1)" by (metis prod_cases4)
  note o = one_read [OF Suc.prems(1,2) r, unfolded fst_conv snd_conv]
  have k: "0 < k" "n < N" using o Suc.prems(5) [of n] Suc.hyps(2) by auto
  obtain s1 r1 where f: "feed_all h (take 16 (waiting cap bss q n)) s = (s1, r1)" by fastforce
  have d: "d = N - Suc n" using Suc.hyps(2) k by simp
  obtain dev2 where l: "read_loop (interrupted rd arrive bss) h buf' (s1, dev1, Suc n) =
      (case feed_all h (concat (map (\<lambda>n. take 16 (waiting cap bss q n)) [Suc n..<N])) s1 of (s', r) \<Rightarrow> Some (s', r, dev2, Suc N))" "left dev2 = []"
    using Suc.hyps(1) [OF d, of dev1 buf' s1] Suc.prems(4,5) o k by (auto simp: Suc_le_eq)
  obtain s2 r2 where f2: "feed_all h (concat (map (\<lambda>n. take 16 (waiting cap bss q n)) [Suc n..<N])) s1 = (s2, r2)" by fastforce
  have "feed_all h (take k buf') s = (s1, r1)" "n1 = Suc n" using o f by simp_all
  then have "read_loop (interrupted rd arrive bss) h buf (s, dev, n) = Some (s2, r1 @ r2, dev2, Suc N)"
    using r k(1) l(1) f2 by (subst read_loop.simps) simp
  moreover have "feed_all h (concat (map (\<lambda>n. take 16 (waiting cap bss q n)) [n..<N])) s = (s2, r1 @ r2)"
    using f f2 upt_conv_Cons [OF k(2)] by (simp add: feed_all_append)
  ultimately show ?case using l(2) by auto
qed

lemma interrupted_loop_ends:
  assumes "read_loop (interrupted rd arrive bss) h buf (s, dev, n) = Some y" "at_read bss q n dev" "length buf = 16"
  shows "\<exists>m. waiting cap bss q m = []"
proof -
  have "\<forall>dev n. rd' = interrupted rd arrive bss \<longrightarrow> snd t = (dev, n) \<longrightarrow> at_read bss q n dev \<longrightarrow> length buf = 16 \<longrightarrow>
      (\<exists>m. waiting cap bss q m = [])" if "read_loop rd' h buf t = Some y" for rd' h buf t y
    using that
  proof (rule read_loop.raw_induct [rotated])
    fix f rd' h buf t y
    assume ih: "\<And>rd' h buf t y. f rd' h buf t = Some y \<Longrightarrow> \<forall>dev n. rd' = interrupted rd arrive bss \<longrightarrow> snd t = (dev, n) \<longrightarrow>
        at_read bss q n dev \<longrightarrow> length buf = 16 \<longrightarrow> (\<exists>m. waiting cap bss q m = [])"
      and step: "(case rd' buf (snd t) of (n, buf', dev) \<Rightarrow> if n = 0 then Some (fst t, [], dev)
        else case feed_all h (take n buf') (fst t) of (s1, r1) \<Rightarrow>
               Option.bind (f rd' h buf' (s1, dev)) (\<lambda>(s2, r2, dev'). Some (s2, r1 @ r2, dev'))) = Some y"
    show "\<forall>dev n. rd' = interrupted rd arrive bss \<longrightarrow> snd t = (dev, n) \<longrightarrow> at_read bss q n dev \<longrightarrow> length buf = 16 \<longrightarrow>
        (\<exists>m. waiting cap bss q m = [])"
    proof (intro allI impI)
      fix dev n
      assume a: "rd' = interrupted rd arrive bss" "snd t = (dev, n)" "at_read bss q n dev" "length buf = 16"
      obtain k buf' dev1 n1 where r: "interrupted rd arrive bss buf (dev, n) = (k, buf', dev1, n1)" by (metis prod_cases4)
      note o = one_read [OF a(3,4) r, unfolded fst_conv snd_conv]
      show "\<exists>m. waiting cap bss q m = []"
      proof (cases "k = 0")
        case True
        then show ?thesis using o by blast
      next
        case False
        then obtain s1 z where "f rd' h buf' (s1, dev1, n1) = Some z"
          using step r a(1,2) by (auto simp: bind_eq_Some_conv split: prod.splits)
        then show ?thesis using ih [of rd' h buf' "(s1, dev1, n1)" z] a(1) o by auto
      qed
    qed
  qed
  then show ?thesis using assms by fastforce
qed

lemma interrupted_poll:
  fixes bss h i j s dev
  defines "run \<equiv> poll_device (interrupted rd arrive bss) h (Some i) (Some j) s (dev, 0)"
  assumes "ok dev"
  shows "run = None \<longleftrightarrow> (\<forall>n. waiting cap bss (left dev) n \<noteq> [])"
    and "waiting cap bss (left dev) N = [] \<Longrightarrow> (\<And>n. n < N \<Longrightarrow> waiting cap bss (left dev) n \<noteq> []) \<Longrightarrow>
      \<exists>dev'. run = (case feed_all h (handled cap bss (left dev) N) s of (s', r) \<Rightarrow> Some (s', r, dev', Suc N)) \<and> left dev' = []"
proof -
  have a: "at_read bss (left dev) 0 dev" using assms(2) by (simp add: at_read_def)
  have ends: "\<exists>dev'. run = (case feed_all h (handled cap bss (left dev) N) s of (s', r) \<Rightarrow> Some (s', r, dev', Suc N)) \<and> left dev' = []"
    if "waiting cap bss (left dev) N = []" "\<And>n. n < N \<Longrightarrow> waiting cap bss (left dev) n \<noteq> []" for N
    using interrupted_loop [OF a, of "replicate 16 0" N h s] that by (simp add: run_def poll_device_def handled_def)
  then show "waiting cap bss (left dev) N = [] \<Longrightarrow> (\<And>n. n < N \<Longrightarrow> waiting cap bss (left dev) n \<noteq> []) \<Longrightarrow>
      \<exists>dev'. run = (case feed_all h (handled cap bss (left dev) N) s of (s', r) \<Rightarrow> Some (s', r, dev', Suc N)) \<and> left dev' = []" .
  have "run \<noteq> None" if "waiting cap bss (left dev) n = []" for n
  proof -
    let ?N = "LEAST n. waiting cap bss (left dev) n = []"
    have "waiting cap bss (left dev) ?N = []" using that by (rule LeastI)
    moreover have "waiting cap bss (left dev) m \<noteq> []" if "m < ?N" for m using not_less_Least [OF that] .
    ultimately obtain dev' where "run = (case feed_all h (handled cap bss (left dev) ?N) s of (s', r) \<Rightarrow> Some (s', r, dev', Suc ?N))"
      using ends [of ?N] by blast
    then show ?thesis by (cases "feed_all h (handled cap bss (left dev) ?N) s") simp
  qed
  moreover have "\<exists>n. waiting cap bss (left dev) n = []" if "run \<noteq> None"
    using that interrupted_loop_ends [OF _ a, of h "replicate 16 0" s] by (auto simp: run_def poll_device_def)
  ultimately show "run = None \<longleftrightarrow> (\<forall>n. waiting cap bss (left dev) n \<noteq> [])" by blast
qed

end

text \<open>The kernel's keyboard and mouse endpoints are such devices.\<close>

interpretation kbd: byte_source kbd_endpoint "\<lambda>d. ib_items (KEYBOARD_BUFFER d)" "\<lambda>d. ib_ready KEYBOARD_BUFFER_LEN (KEYBOARD_BUFFER d)"
proof unfold_locales
  fix dev buf n buf' dev'
  assume ok: "ib_ready KEYBOARD_BUFFER_LEN (KEYBOARD_BUFFER dev)" and r: "kbd_endpoint buf dev = (n, buf', dev')"
  obtain q where "read_slots ib_pop buf (KEYBOARD_BUFFER dev) = (n, buf', q)" "dev' = dev\<lparr>KEYBOARD_BUFFER := q\<rparr>"
    using r by (auto simp: kbd_endpoint_def read_keyboard_def split: prod.splits)
  then show "n = min (length buf) (length (ib_items (KEYBOARD_BUFFER dev))) \<and> length buf' = length buf \<and>
      take n buf' = take n (ib_items (KEYBOARD_BUFFER dev)) \<and>
      ib_items (KEYBOARD_BUFFER dev') = drop n (ib_items (KEYBOARD_BUFFER dev)) \<and> ib_ready KEYBOARD_BUFFER_LEN (KEYBOARD_BUFFER dev')"
    using kb.read_slots_spec [OF ok] by fastforce
qed

interpretation mouse: byte_source mouse_endpoint "\<lambda>d. ib_items (MOUSE_RAW_BYTES d)" "\<lambda>d. ib_ready MOUSE_RAW_CAPACITY (MOUSE_RAW_BYTES d)"
proof unfold_locales
  fix dev buf n buf' dev'
  assume ok: "ib_ready MOUSE_RAW_CAPACITY (MOUSE_RAW_BYTES dev)" and r: "mouse_endpoint buf dev = (n, buf', dev')"
  obtain q where "read_slots ib_pop buf (MOUSE_RAW_BYTES dev) = (n, buf', q)" "dev' = dev\<lparr>MOUSE_RAW_BYTES := q\<rparr>"
    using r by (auto simp: mouse_endpoint_def read_mouse_def split: prod.splits)
  then show "n = min (length buf) (length (ib_items (MOUSE_RAW_BYTES dev))) \<and> length buf' = length buf \<and>
      take n buf' = take n (ib_items (MOUSE_RAW_BYTES dev)) \<and>
      ib_items (MOUSE_RAW_BYTES dev') = drop n (ib_items (MOUSE_RAW_BYTES dev)) \<and> ib_ready MOUSE_RAW_CAPACITY (MOUSE_RAW_BYTES dev')"
    using ms.read_slots_spec [OF ok] by fastforce
qed

text \<open>The bytes of interrupts that arrive while no read is under way, so that the buffer is not held.\<close>

definition keys_arrive :: "u8 list \<Rightarrow> io \<Rightarrow> io" where
  "keys_arrive bs dev = dev\<lparr>KEYBOARD_BUFFER := fold (\<lambda>b q. snd (keyboard_interrupt_handler False b q)) bs (KEYBOARD_BUFFER dev)\<rparr>"

interpretation kbd_irq: refilled_source kbd_endpoint "\<lambda>d. ib_items (KEYBOARD_BUFFER d)" "\<lambda>d. ib_ready KEYBOARD_BUFFER_LEN (KEYBOARD_BUFFER d)"
    keys_arrive 255
proof unfold_locales
  fix dev :: io and bs
  assume ok: "ib_ready KEYBOARD_BUFFER_LEN (KEYBOARD_BUFFER dev)"
  then have "length (ib_items (KEYBOARD_BUFFER dev)) \<le> 255"
    using ib_len_less [of "KEYBOARD_BUFFER dev"] by (auto simp: ib_ready_def KEYBOARD_BUFFER_LEN_def)
  then show "ib_items (KEYBOARD_BUFFER (keys_arrive bs dev)) = take 255 (ib_items (KEYBOARD_BUFFER dev) @ bs) \<and>
      ib_ready KEYBOARD_BUFFER_LEN (KEYBOARD_BUFFER (keys_arrive bs dev))"
    using kb.items_pushes [OF ok, of bs] by (simp add: keys_arrive_def keyboard_handler_push KEYBOARD_BUFFER_LEN_def)
qed

end
