(* ===== verification/Keyboard_Driver.thy ===== *)
theory Keyboard_Driver
  imports Driver_Loop
begin

unbundle bit_operations_syntax

text \<open>
  The PS/2 keyboard driver (\<open>src/drivers/keyboard_driver/src/lib.rs\<close>): scancodes to key codes,
  modifier state, dead keys and the events it sends to the graph. Characters are Unicode code
  points. The events a call sends are its result: the kind and the fields of each \<open>fiat\<close>.
\<close>

section \<open>Keys\<close>

abbreviation ch :: "char \<Rightarrow> nat" where
  "ch \<equiv> of_char"

datatype key_code =
    Character nat "nat option"
  | Enter
  | Escape
  | Backspace
  | Tab
  | CtrlLeft
  | CtrlRight
  | ShiftLeft
  | ShiftRight
  | AltLeft
  | AltRight
  | CapsLock
  | NumLock
  | ScrollLock
  | Function u8
  | ArrowUp
  | ArrowDown
  | ArrowLeft
  | ArrowRight
  | Home
  | End
  | PageUp
  | PageDown
  | Insert
  | Delete
  | GuiLeft
  | GuiRight
  | ContextMenu
  | Keypad u8
  | KeypadDecimal
  | KeypadAdd
  | KeypadSubtract
  | KeypadMultiply
  | KeypadDivide
  | KeypadEnter
  | Unknown u8 bool

definition extended_keys :: "(u8 \<times> key_code) list" where
  "extended_keys =
     [(0x1C, KeypadEnter), (0x1D, CtrlRight), (0x35, KeypadDivide), (0x38, AltRight),
      (0x47, Home), (0x48, ArrowUp), (0x49, PageUp), (0x4B, ArrowLeft),
      (0x4D, ArrowRight), (0x4F, End), (0x50, ArrowDown), (0x51, PageDown),
      (0x52, Insert), (0x53, Delete), (0x5B, GuiLeft), (0x5C, GuiRight),
      (0x5D, ContextMenu)]"

definition plain_keys :: "(u8 \<times> key_code) list" where
  "plain_keys =
     [(0x01, Escape), (0x02, Character (ch CHR ''1'') (Some (ch CHR ''!''))),
      (0x03, Character (ch CHR ''2'') (Some (ch CHR ''@''))), (0x04, Character (ch CHR ''3'') (Some (ch CHR ''#''))),
      (0x05, Character (ch CHR ''4'') (Some (ch CHR ''$''))), (0x06, Character (ch CHR ''5'') (Some (ch CHR ''%''))),
      (0x07, Character (ch CHR ''6'') (Some (ch CHR ''^''))), (0x08, Character (ch CHR ''7'') (Some (ch CHR ''&''))),
      (0x09, Character (ch CHR ''8'') (Some (ch CHR ''*''))), (0x0A, Character (ch CHR ''9'') (Some (ch CHR ''(''))),
      (0x0B, Character (ch CHR ''0'') (Some (ch CHR '')''))), (0x0C, Character (ch CHR ''-'') (Some (ch CHR ''_''))),
      (0x0D, Character (ch CHR ''='') (Some (ch CHR ''+''))), (0x0E, Backspace),
      (0x0F, Tab), (0x10, Character (ch CHR ''q'') None),
      (0x11, Character (ch CHR ''w'') None), (0x12, Character (ch CHR ''e'') None),
      (0x13, Character (ch CHR ''r'') None), (0x14, Character (ch CHR ''t'') None),
      (0x15, Character (ch CHR ''y'') None), (0x16, Character (ch CHR ''u'') None),
      (0x17, Character (ch CHR ''i'') None), (0x18, Character (ch CHR ''o'') None),
      (0x19, Character (ch CHR ''p'') None), (0x1A, Character (ch CHR ''['') (Some (ch CHR ''{''))),
      (0x1B, Character (ch CHR '']'') (Some (ch CHR ''}''))), (0x1C, Enter),
      (0x1D, CtrlLeft), (0x1E, Character (ch CHR ''a'') None),
      (0x1F, Character (ch CHR ''s'') None), (0x20, Character (ch CHR ''d'') None),
      (0x21, Character (ch CHR ''f'') None), (0x22, Character (ch CHR ''g'') None),
      (0x23, Character (ch CHR ''h'') None), (0x24, Character (ch CHR ''j'') None),
      (0x25, Character (ch CHR ''k'') None), (0x26, Character (ch CHR ''l'') None),
      (0x27, Character (ch CHR '';'') (Some (ch CHR '':''))), (0x28, Character (0x27) (Some (0x22))),
      (0x29, Character (0x60) (Some (ch CHR ''~''))), (0x2A, ShiftLeft),
      (0x2B, Character (0x5C) (Some (ch CHR ''|''))), (0x2C, Character (ch CHR ''z'') None),
      (0x2D, Character (ch CHR ''x'') None), (0x2E, Character (ch CHR ''c'') None),
      (0x2F, Character (ch CHR ''v'') None), (0x30, Character (ch CHR ''b'') None),
      (0x31, Character (ch CHR ''n'') None), (0x32, Character (ch CHR ''m'') None),
      (0x33, Character (ch CHR '','') (Some (ch CHR ''<''))), (0x34, Character (ch CHR ''.'') (Some (ch CHR ''>''))),
      (0x35, Character (ch CHR ''/'') (Some (ch CHR ''?''))), (0x36, ShiftRight),
      (0x37, KeypadMultiply), (0x38, AltLeft),
      (0x39, Character (ch CHR '' '') None), (0x3A, CapsLock),
      (0x45, NumLock), (0x46, ScrollLock), (0x47, Keypad 7),
      (0x48, Keypad 8), (0x49, Keypad 9),
      (0x4A, KeypadSubtract), (0x4B, Keypad 4),
      (0x4C, Keypad 5), (0x4D, Keypad 6),
      (0x4E, KeypadAdd), (0x4F, Keypad 1),
      (0x50, Keypad 2), (0x51, Keypad 3),
      (0x52, Keypad 0), (0x53, KeypadDecimal),
      (0x57, Function 11), (0x58, Function 12)]"

datatype dead_key = NoDead | Acute | Grave | Circumflex | Diaeresis | Tilde

datatype keyboard_layout = UsAltGrIntl

record keyboard_driver =
  kd_device_id :: uuid
  kd_device_handle :: "u64 option"
  kd_irq_handle :: "u64 option"
  kd_watch :: watch_id
  kd_layout :: keyboard_layout
  kd_prefix :: "u8 option"
  kd_shift :: bool
  kd_caps_lock :: bool
  kd_altgr :: bool
  kd_deadkey :: dead_key
  kd_num_lock :: bool

type_synonym key_report = "symbol \<times> gmap"

text \<open>The initial state, from what the system calls of \<open>init\<close> return.\<close>

definition keyboard_driver_init :: "ext \<Rightarrow> u64 option \<Rightarrow> u64 option \<Rightarrow> watch_id \<Rightarrow> keyboard_driver" where
  "keyboard_driver_init x dev irq watch =
     \<lparr>kd_device_id = device_uuid x KEYBOARD_DEVICE_NAME, kd_device_handle = dev, kd_irq_handle = irq, kd_watch = watch,
      kd_layout = UsAltGrIntl, kd_prefix = None, kd_shift = False, kd_caps_lock = False, kd_altgr = False,
      kd_deadkey = NoDead, kd_num_lock = False\<rparr>"

definition decode_key :: "u8 \<Rightarrow> bool \<Rightarrow> key_code" where
  "decode_key code extended =
     (if extended then (case map_of extended_keys code of Some k \<Rightarrow> k | None \<Rightarrow> Unknown code True)
      else if 0x3B \<le> code \<and> code \<le> 0x44 then Function (code - 0x3A)
      else (case map_of plain_keys code of Some k \<Rightarrow> k | None \<Rightarrow> Unknown code False))"

fun update_state :: "key_code \<Rightarrow> bool \<Rightarrow> keyboard_driver \<Rightarrow> keyboard_driver" where
  "update_state ShiftLeft down d = d\<lparr>kd_shift := down\<rparr>"
| "update_state ShiftRight down d = d\<lparr>kd_shift := down\<rparr>"
| "update_state AltRight down d = d\<lparr>kd_altgr := down\<rparr>"
| "update_state CapsLock down d = (if down then d\<lparr>kd_caps_lock := \<not> kd_caps_lock d\<rparr> else d)"
| "update_state NumLock down d = (if down then d\<lparr>kd_num_lock := \<not> kd_num_lock d\<rparr> else d)"
| "update_state _ down d = d"

section \<open>Characters\<close>

definition letter_codes :: "(u8 \<times> nat) list" where
  "letter_codes =
     [(0x10, ch CHR ''q''), (0x11, ch CHR ''w''), (0x12, ch CHR ''e''), (0x13, ch CHR ''r''),
      (0x14, ch CHR ''t''), (0x15, ch CHR ''y''), (0x16, ch CHR ''u''), (0x17, ch CHR ''i''),
      (0x18, ch CHR ''o''), (0x19, ch CHR ''p''), (0x1E, ch CHR ''a''), (0x1F, ch CHR ''s''),
      (0x20, ch CHR ''d''), (0x21, ch CHR ''f''), (0x22, ch CHR ''g''), (0x23, ch CHR ''h''),
      (0x24, ch CHR ''j''), (0x25, ch CHR ''k''), (0x26, ch CHR ''l''), (0x2C, ch CHR ''z''),
      (0x2D, ch CHR ''x''), (0x2E, ch CHR ''c''), (0x2F, ch CHR ''v''), (0x30, ch CHR ''b''),
      (0x31, ch CHR ''n''), (0x32, ch CHR ''m'')]"

definition digit_codes :: "(u8 \<times> nat) list" where
  "digit_codes =
     [(0x0B, ch CHR ''0''), (0x02, ch CHR ''1''), (0x03, ch CHR ''2''), (0x04, ch CHR ''3''),
      (0x05, ch CHR ''4''), (0x06, ch CHR ''5''), (0x07, ch CHR ''6''), (0x08, ch CHR ''7''),
      (0x09, ch CHR ''8''), (0x0A, ch CHR ''9'')]"

definition digit_shift :: "(nat \<times> nat) list" where
  "digit_shift =
     [(ch CHR ''1'', ch CHR ''!''), (ch CHR ''2'', ch CHR ''@''), (ch CHR ''3'', ch CHR ''#''),
      (ch CHR ''4'', ch CHR ''$''), (ch CHR ''5'', ch CHR ''%''), (ch CHR ''6'', ch CHR ''^''),
      (ch CHR ''7'', ch CHR ''&''), (ch CHR ''8'', ch CHR ''*''), (ch CHR ''9'', ch CHR ''(''),
      (ch CHR ''0'', ch CHR '')'')]"

definition symbol_codes :: "(u8 \<times> nat) list" where
  "symbol_codes =
     [(0x0C, ch CHR ''-''), (0x0D, ch CHR ''=''), (0x1B, ch CHR '']''), (0x39, ch CHR '' ''),
      (0x27, ch CHR '';''), (0x28, 0x27), (0x29, 0x60), (0x2B, 0x5C),
      (0x33, ch CHR '',''), (0x34, ch CHR ''.''), (0x35, ch CHR ''/''), (0x73, ch CHR '';'')]"

definition symbol_shift :: "(nat \<times> nat) list" where
  "symbol_shift =
     [(ch CHR ''['', ch CHR ''{''), (ch CHR '']'', ch CHR ''}''), (ch CHR ''-'', ch CHR ''_''),
      (ch CHR ''='', ch CHR ''+''), (ch CHR '';'', ch CHR '':''), (0x27, 0x22),
      (0x60, ch CHR ''~''), (0x5C, ch CHR ''|''), (ch CHR '','', ch CHR ''<''),
      (ch CHR ''.'', ch CHR ''>''), (ch CHR ''/'', ch CHR ''?'')]"

datatype altgr_entry = Fixed nat | ByShift nat nat | ByCase nat nat

definition altgr_codes :: "(u8 \<times> altgr_entry) list" where
  "altgr_codes =
     [(0x02, ByShift 0xB9 0xA1), (0x03, Fixed 0xB2), (0x04, Fixed 0xB3), (0x05, ByShift 0xA3 0xA4),
      (0x06, Fixed 0x20AC), (0x07, Fixed 0xBC), (0x08, Fixed 0xBD), (0x09, Fixed 0xBE),
      (0x0A, Fixed 0x2018), (0x0B, Fixed 0x2019), (0x0C, Fixed 0xA5), (0x0D, ByShift 0xF7 0xD7),
      (0x10, ByCase 0xC4 0xE4), (0x11, ByCase 0xC5 0xE5), (0x12, ByCase 0xC9 0xE9), (0x13, Fixed 0xAE),
      (0x14, ByCase 0xDE 0xFE), (0x15, ByCase 0xDC 0xFC), (0x16, ByCase 0xDA 0xFA), (0x17, ByCase 0xCD 0xED),
      (0x18, ByCase 0xD3 0xF3), (0x19, ByCase 0xD6 0xF6), (0x1A, Fixed 0xAB), (0x1B, Fixed 0xBB),
      (0x1E, ByCase 0xC1 0xE1), (0x1F, ByShift 0xA7 0xDF), (0x20, ByCase 0xD0 0xF0), (0x26, ByCase 0xD8 0xF8),
      (0x27, ByShift 0xB0 0xB6), (0x28, ByShift 0xA8 0xB4), (0x2B, ByShift 0xA6 0xAC), (0x2C, ByCase 0xC6 0xE6),
      (0x2E, ByShift 0xA2 0xA9), (0x31, ByCase 0xD1 0xF1), (0x32, Fixed 0xB5), (0x33, ByShift 0xC7 0xE7),
      (0x35, Fixed 0xBF)]"

definition dead_table :: "((dead_key \<times> nat) \<times> nat) list" where
  "dead_table =
     [((Acute, ch CHR ''a''), 0xE1), ((Acute, ch CHR ''e''), 0xE9), ((Acute, ch CHR ''i''), 0xED),
      ((Acute, ch CHR ''o''), 0xF3), ((Acute, ch CHR ''u''), 0xFA), ((Acute, ch CHR ''c''), 0x107),
      ((Acute, ch CHR ''n''), 0x144), ((Grave, ch CHR ''a''), 0xE0), ((Grave, ch CHR ''e''), 0xE8),
      ((Grave, ch CHR ''i''), 0xEC), ((Grave, ch CHR ''o''), 0xF2), ((Grave, ch CHR ''u''), 0xF9),
      ((Circumflex, ch CHR ''a''), 0xE2), ((Circumflex, ch CHR ''e''), 0xEA), ((Circumflex, ch CHR ''i''), 0xEE),
      ((Circumflex, ch CHR ''o''), 0xF4), ((Circumflex, ch CHR ''u''), 0xFB), ((Circumflex, ch CHR ''c''), 0x109),
      ((Diaeresis, ch CHR ''a''), 0xE4), ((Diaeresis, ch CHR ''e''), 0xEB), ((Diaeresis, ch CHR ''i''), 0xEF),
      ((Diaeresis, ch CHR ''o''), 0xF6), ((Diaeresis, ch CHR ''u''), 0xFC), ((Diaeresis, ch CHR ''y''), 0xFF),
      ((Tilde, ch CHR ''a''), 0xE3), ((Tilde, ch CHR ''o''), 0xF5), ((Tilde, ch CHR ''n''), 0xF1)]"

definition letter_from_scancode :: "u8 \<Rightarrow> nat option" where
  "letter_from_scancode code = map_of letter_codes code"

definition digit_from_scancode :: "u8 \<Rightarrow> bool \<Rightarrow> nat option" where
  "digit_from_scancode code shift =
     map_option (\<lambda>c. if shift then (case map_of digit_shift c of Some s \<Rightarrow> s | None \<Rightarrow> c) else c) (map_of digit_codes code)"

definition symbol_from_scancode :: "u8 \<Rightarrow> bool \<Rightarrow> bool \<Rightarrow> nat option" where
  "symbol_from_scancode code shift altgr =
     map_option (\<lambda>c. if shift then (case map_of symbol_shift c of Some s \<Rightarrow> s | None \<Rightarrow> c) else c)
       (if code = 0x56 then Some (if altgr then 0x5C else 0x60)
        else if code = 0x7D then (if altgr then Some (ch CHR ''|'') else None)
        else map_of symbol_codes code)"

fun altgr_pick :: "bool \<Rightarrow> bool \<Rightarrow> altgr_entry \<Rightarrow> nat" where
  "altgr_pick shift uppercase (Fixed c) = c"
| "altgr_pick shift uppercase (ByShift a b) = (if shift then a else b)"
| "altgr_pick shift uppercase (ByCase a b) = (if uppercase then a else b)"

definition altgr_char_from_scancode :: "u8 \<Rightarrow> bool \<Rightarrow> bool \<Rightarrow> nat option" where
  "altgr_char_from_scancode code shift uppercase = map_option (altgr_pick shift uppercase) (map_of altgr_codes code)"

definition ascii_upper :: "nat \<Rightarrow> nat" where
  "ascii_upper c = (if ch CHR ''a'' \<le> c \<and> c \<le> ch CHR ''z'' then c - 32 else c)"

definition ascii_lower :: "nat \<Rightarrow> nat" where
  "ascii_lower c = (if ch CHR ''A'' \<le> c \<and> c \<le> ch CHR ''Z'' then c + 32 else c)"

text \<open>
  \<open>char::to_uppercase\<close> on the composed letters: Latin-1 letters are 32 apart, \<open>y\<close> with diaeresis
  has its capital at U+0178, and the letters of Latin Extended-A come in pairs.
\<close>

definition latin_upper :: "nat \<Rightarrow> nat" where
  "latin_upper c =
     (if c = 0xFF then 0x178 else if 0xE0 \<le> c \<and> c \<le> 0xFE \<and> c \<noteq> 0xF7 then c - 32
      else if 0x100 \<le> c \<and> c < 0x138 \<and> odd c then c - 1 else if 0x139 \<le> c \<and> c < 0x149 \<and> even c then c - 1 else c)"

definition apply_dead_key :: "dead_key \<Rightarrow> nat \<Rightarrow> nat option" where
  "apply_dead_key dead c =
     map_option (\<lambda>m. if ch CHR ''A'' \<le> c \<and> c \<le> ch CHR ''Z'' then latin_upper m else m)
       (map_of dead_table (dead, ascii_lower c))"

definition resolve_dead_key :: "nat \<Rightarrow> keyboard_driver \<Rightarrow> nat \<times> keyboard_driver" where
  "resolve_dead_key c d =
     (case apply_dead_key (kd_deadkey d) c of Some m \<Rightarrow> m | None \<Rightarrow> c, d\<lparr>kd_deadkey := NoDead\<rparr>)"

definition start_dead_key :: "u8 \<Rightarrow> keyboard_driver \<Rightarrow> bool \<times> keyboard_driver" where
  "start_dead_key code d =
     (if kd_altgr d then (False, d)
      else if code = 0x28 then (True, d\<lparr>kd_deadkey := Acute\<rparr>)
      else if code = 0x29 then (True, d\<lparr>kd_deadkey := if kd_shift d then Tilde else Grave\<rparr>)
      else if code = 0x2B then (True, d\<lparr>kd_deadkey := Circumflex\<rparr>)
      else if code = 0x1A then (True, d\<lparr>kd_deadkey := Diaeresis\<rparr>)
      else (False, d))"

definition with_dead_key :: "nat option \<Rightarrow> keyboard_driver \<Rightarrow> nat option \<times> keyboard_driver" where
  "with_dead_key r d = (case r of None \<Rightarrow> (None, d) | Some c \<Rightarrow> (case resolve_dead_key c d of (m, d') \<Rightarrow> (Some m, d')))"

definition plain_char :: "u8 \<Rightarrow> keyboard_driver \<Rightarrow> nat option" where
  "plain_char code d =
     (case letter_from_scancode code of
        Some letter \<Rightarrow> Some (if kd_shift d \<noteq> kd_caps_lock d then ascii_upper letter else letter)
      | None \<Rightarrow>
          (case digit_from_scancode code (kd_shift d) of
             Some digit \<Rightarrow> Some digit
           | None \<Rightarrow> symbol_from_scancode code (kd_shift d) (kd_altgr d)))"

definition character_char :: "u8 \<Rightarrow> keyboard_driver \<Rightarrow> nat option \<times> keyboard_driver" where
  "character_char code d =
     (let uppercase = (kd_shift d \<noteq> kd_caps_lock d);
          alt = (if kd_altgr d then altgr_char_from_scancode code (kd_shift d) uppercase else None)
      in case alt of
           Some c \<Rightarrow> with_dead_key (Some c) d
         | None \<Rightarrow> with_dead_key (plain_char code d) d)"

fun key_char :: "key_code \<Rightarrow> u8 \<Rightarrow> keyboard_driver \<Rightarrow> nat option \<times> keyboard_driver" where
  "key_char (Character base shifted) code d = character_char code d"
| "key_char (Keypad n) code d = (if kd_num_lock d then Some (ch CHR ''0'' + unat n) else None, d)"
| "key_char KeypadDecimal code d = (if kd_num_lock d then Some (ch CHR ''.'') else None, d)"
| "key_char KeypadAdd code d = (Some (ch CHR ''+''), d)"
| "key_char KeypadSubtract code d = (Some (ch CHR ''-''), d)"
| "key_char KeypadMultiply code d = (Some (ch CHR ''*''), d)"
| "key_char KeypadDivide code d = (Some (ch CHR ''/''), d)"
| "key_char _ code d = (None, d)"

section \<open>Events\<close>

fun key_symbol :: "key_code \<Rightarrow> symbol option" where
  "key_symbol (Character base shifted) = None"
| "key_symbol Enter = Some (cc CHR ''E'' CHR ''N'')"
| "key_symbol Escape = Some (cc CHR ''E'' CHR ''S'')"
| "key_symbol Backspace = Some (cc CHR ''B'' CHR ''S'')"
| "key_symbol Tab = Some (cc CHR ''T'' CHR ''B'')"
| "key_symbol CtrlLeft = Some (cc CHR ''C'' CHR ''T'')"
| "key_symbol CtrlRight = Some (cc CHR ''C'' CHR ''T'')"
| "key_symbol ShiftLeft = Some (cc CHR ''S'' CHR ''F'')"
| "key_symbol ShiftRight = Some (cc CHR ''S'' CHR ''F'')"
| "key_symbol AltLeft = Some (cc CHR ''A'' CHR ''L'')"
| "key_symbol AltRight = Some (cc CHR ''A'' CHR ''L'')"
| "key_symbol CapsLock = Some (cc CHR ''C'' CHR ''L'')"
| "key_symbol NumLock = Some (cc CHR ''N'' CHR ''L'')"
| "key_symbol ScrollLock = Some (cc CHR ''S'' CHR ''L'')"
| "key_symbol ArrowUp = Some (cc CHR ''A'' CHR ''U'')"
| "key_symbol ArrowDown = Some (cc CHR ''A'' CHR ''D'')"
| "key_symbol ArrowLeft = Some (cc CHR ''A'' CHR ''L'')"
| "key_symbol ArrowRight = Some (cc CHR ''A'' CHR ''R'')"
| "key_symbol Home = Some (cc CHR ''H'' CHR ''M'')"
| "key_symbol End = Some (cc CHR ''E'' CHR ''D'')"
| "key_symbol PageUp = Some (cc CHR ''P'' CHR ''U'')"
| "key_symbol PageDown = Some (cc CHR ''P'' CHR ''D'')"
| "key_symbol Insert = Some (cc CHR ''I'' CHR ''N'')"
| "key_symbol Delete = Some (cc CHR ''D'' CHR ''L'')"
| "key_symbol GuiLeft = Some (cc CHR ''G'' CHR ''U'')"
| "key_symbol GuiRight = Some (cc CHR ''G'' CHR ''U'')"
| "key_symbol ContextMenu = Some (cc CHR ''M'' CHR ''N'')"
| "key_symbol (Keypad n) = Some (cc CHR ''K'' CHR ''P'')"
| "key_symbol KeypadDecimal = Some (cc CHR ''K'' CHR ''.'')"
| "key_symbol KeypadAdd = Some (cc CHR ''K'' CHR ''+'')"
| "key_symbol KeypadSubtract = Some (cc CHR ''K'' CHR ''-'')"
| "key_symbol KeypadMultiply = Some (cc CHR ''K'' CHR ''*'')"
| "key_symbol KeypadDivide = Some (cc CHR ''K'' CHR ''/'')"
| "key_symbol KeypadEnter = Some (cc CHR ''K'' CHR ''E'')"
| "key_symbol (Function i) = Some (Symbol (0xF000 OR ucast i))"
| "key_symbol (Unknown code extended) = None"

definition on_off :: "bool \<Rightarrow> string" where
  "on_off enabled = (if enabled then ''on'' else ''off'')"

definition show_u8 :: "u8 \<Rightarrow> string" where
  "show_u8 n = show_base 10 (unat n)"

definition hex_upper :: "nat \<Rightarrow> char" where
  "hex_upper n = (if n < 10 then char_of (48 + n) else char_of (55 + n))"

definition describe_keypad_digit :: "keyboard_driver \<Rightarrow> u8 \<Rightarrow> string" where
  "describe_keypad_digit d n =
     (if kd_num_lock d \<or> n = 5 then ''Numpad '' @ show_u8 n
      else if n = 7 then ''Home'' else if n = 8 then ''Arrow Up'' else if n = 9 then ''Page Up''
      else if n = 4 then ''Arrow Left'' else if n = 6 then ''Arrow Right'' else if n = 1 then ''End''
      else if n = 2 then ''Arrow Down'' else if n = 3 then ''Page Down'' else if n = 0 then ''Insert''
      else ''Numpad '' @ show_u8 n)"

fun key_text :: "keyboard_driver \<Rightarrow> key_code \<Rightarrow> bool \<Rightarrow> string" where
  "key_text d (Character base shifted) down = []"
| "key_text d Enter down = ''Enter''"
| "key_text d Escape down = ''Escape''"
| "key_text d Backspace down = ''Backspace''"
| "key_text d Tab down = ''Tab''"
| "key_text d CtrlLeft down = ''Left Ctrl''"
| "key_text d CtrlRight down = ''Right Ctrl''"
| "key_text d ShiftLeft down = ''Left Shift''"
| "key_text d ShiftRight down = ''Right Shift''"
| "key_text d AltLeft down = ''Left Alt''"
| "key_text d AltRight down = ''Right Alt''"
| "key_text d ScrollLock down = ''Scroll Lock''"
| "key_text d ArrowUp down = ''Arrow Up''"
| "key_text d ArrowDown down = ''Arrow Down''"
| "key_text d ArrowLeft down = ''Arrow Left''"
| "key_text d ArrowRight down = ''Arrow Right''"
| "key_text d Home down = ''Home''"
| "key_text d End down = ''End''"
| "key_text d PageUp down = ''Page Up''"
| "key_text d PageDown down = ''Page Down''"
| "key_text d Insert down = ''Insert''"
| "key_text d Delete down = ''Delete''"
| "key_text d GuiLeft down = ''Left Meta''"
| "key_text d GuiRight down = ''Right Meta''"
| "key_text d ContextMenu down = ''Menu''"
| "key_text d KeypadAdd down = ''Numpad +''"
| "key_text d KeypadSubtract down = ''Numpad -''"
| "key_text d KeypadMultiply down = ''Numpad *''"
| "key_text d KeypadDivide down = ''Numpad /''"
| "key_text d KeypadEnter down = ''Numpad Enter''"
| "key_text d CapsLock down = ''Caps Lock ('' @ on_off (kd_caps_lock d) @ '')''"
| "key_text d NumLock down = ''Num Lock ('' @ on_off (kd_num_lock d) @ '')''"
| "key_text d (Function i) down = ''F'' @ show_u8 i"
| "key_text d (Keypad n) down = describe_keypad_digit d n"
| "key_text d KeypadDecimal down = (if kd_num_lock d then ''Numpad .'' else ''Delete'')"
| "key_text d (Unknown code extended) down =
     ''Unknown 0x'' @ [hex_upper (unat code div 16), hex_upper (unat code mod 16)] @
     (if extended then '' (E0)'' else []) @ (if down then [] else '' released'')"

text \<open>\<open>char::to_string\<close>: the UTF-8 bytes of a code point.\<close>

definition utf8_encode :: "nat \<Rightarrow> string" where
  "utf8_encode c =
     map char_of
       (if c < 0x80 then [c]
        else if c < 0x800 then [0xC0 + c div 64, 0x80 + c mod 64]
        else if c < 0x10000 then [0xE0 + c div 4096, 0x80 + c div 64 mod 64, 0x80 + c mod 64]
        else [0xF0 + c div 262144, 0x80 + c div 4096 mod 64, 0x80 + c div 64 mod 64, 0x80 + c mod 64])"

definition describe_key :: "key_code \<Rightarrow> u8 \<Rightarrow> bool \<Rightarrow> keyboard_driver \<Rightarrow> (symbol option \<times> string) \<times> keyboard_driver" where
  "describe_key key code down d =
     (case key_char key code d of
        (Some c, d') \<Rightarrow> ((Some (from_char c), utf8_encode c), d')
      | (None, d') \<Rightarrow> ((key_symbol key, key_text d' key down), d'))"

definition event_fields :: "uuid \<Rightarrow> u8 \<Rightarrow> bool \<Rightarrow> symbol option \<Rightarrow> string \<Rightarrow> gmap" where
  "event_fields dev code down ksym text =
     (let f1 = bt_insert canon_DEVICE_ID (VUuid dev) [];
          f2 = bt_insert canon_SCANCODE (VU64 (ucast code)) f1;
          f3 = bt_insert canon_DOWN (VBool down) f2;
          f4 = (case ksym of None \<Rightarrow> f3 | Some s \<Rightarrow> bt_insert canon_KEY (VSymbol s) f3)
      in if text \<noteq> [] then bt_insert canon_TEXT (VText text) f4 else f4)"

definition emit_event :: "u8 \<Rightarrow> bool \<Rightarrow> keyboard_driver \<Rightarrow> keyboard_driver \<times> key_report list" where
  "emit_event scancode extended d =
     (let down = (scancode AND 0x80 = 0); code = scancode AND 0x7F;
          (started, d0) = (if down \<and> \<not> extended then start_dead_key code d else (False, d))
      in if started then (d0, [])
         else let key = decode_key code extended;
                  d1 = update_state key down d0;
                  ((ksym, text), d2) = describe_key key code down d1;
                  flds = event_fields (kd_device_id d2) code down ksym text
              in (d2, (canon_KEY_EVENT, flds) # (if down then [(canon_KEY_PRESSED, flds)] else [])))"

definition handle_scancode :: "u8 \<Rightarrow> keyboard_driver \<Rightarrow> keyboard_driver \<times> key_report list" where
  "handle_scancode scancode d =
     (if kd_prefix d = Some 0xE0 then emit_event scancode True (d\<lparr>kd_prefix := None\<rparr>)
      else if scancode = 0xE0 then (d\<lparr>kd_prefix := Some 0xE0\<rparr>, [])
      else emit_event scancode False d)"

definition keyboard_tick ::
  "(u8 list \<Rightarrow> 'd \<Rightarrow> nat \<times> u8 list \<times> 'd) \<Rightarrow> keyboard_driver \<Rightarrow> 'd \<Rightarrow> (keyboard_driver \<times> key_report list \<times> 'd) option" where
  "keyboard_tick rd d = poll_device rd handle_scancode (kd_irq_handle d) (kd_device_handle d) d"


section \<open>Properties\<close>

lemma deadkey_id: "kd_deadkey d = NoDead \<Longrightarrow> d\<lparr>kd_deadkey := NoDead\<rparr> = d"
  by (cases d) simp

lemma no_dead_composes: "apply_dead_key NoDead c = None"
  by (auto simp: apply_dead_key_def dead_table_def)

lemma with_dead_key_none: "kd_deadkey d = NoDead \<Longrightarrow> with_dead_key r d = (r, d)"
  by (auto simp: with_dead_key_def resolve_dead_key_def no_dead_composes deadkey_id split: option.splits)

definition layout_char :: "nat \<Rightarrow> nat option \<Rightarrow> keyboard_driver \<Rightarrow> nat" where
  "layout_char base shifted d =
     (if ch CHR ''a'' \<le> base \<and> base \<le> ch CHR ''z''
      then (if kd_shift d \<noteq> kd_caps_lock d then base - 32 else base)
      else if kd_shift d then (case shifted of Some s \<Rightarrow> s | None \<Rightarrow> base) else base)"

fun agrees :: "keyboard_driver \<Rightarrow> u8 \<times> key_code \<Rightarrow> bool" where
  "agrees d (code, Character base shifted) \<longleftrightarrow> code = 0x1A \<or> plain_char code d = Some (layout_char base shifted d)"
| "agrees d (code, key) \<longleftrightarrow> True"

lemma plain_keys_agree: "list_all (agrees d) plain_keys"
  by (simp add: plain_keys_def plain_char_def layout_char_def letter_from_scancode_def letter_codes_def digit_from_scancode_def
      digit_codes_def digit_shift_def symbol_from_scancode_def symbol_codes_def symbol_shift_def ascii_upper_def)

lemma plain_char_layout:
  assumes "(code, Character base shifted) \<in> set plain_keys" "code \<noteq> 0x1A"
  shows "plain_char code d = Some (layout_char base shifted d)"
  using plain_keys_agree [of d] assms by (fastforce simp: list_all_iff)

text \<open>
  The character tables agree with the key codes. The driver finds the character of a key in
  tables of letters, digits and symbols of their own, and the key code carries a base and a
  shifted character. For every character key but the left bracket, without AltGr and without a
  pending dead key, both give the same: the base letter, upper case when exactly one of shift and
  caps lock is on, and for other keys the shifted character under shift, whatever caps lock says.
\<close>

theorem key_char_follows_layout:
  assumes "decode_key code False = Character base shifted" and "code \<noteq> 0x1A" and "\<not> kd_altgr d" and "kd_deadkey d = NoDead"
  shows "key_char (decode_key code False) code d = (Some (layout_char base shifted d), d)"
proof -
  have "map_of plain_keys code = Some (Character base shifted)"
    using assms(1) by (auto simp: decode_key_def split: if_splits option.splits)
  then have "(code, Character base shifted) \<in> set plain_keys" by (rule map_of_SomeD)
  from plain_char_layout [OF this assms(2)] show ?thesis
    using assms by (simp add: character_char_def with_dead_key_none)
qed

definition demo_keyboard :: keyboard_driver where
  "demo_keyboard =
     \<lparr>kd_device_id = 7, kd_device_handle = Some 3, kd_irq_handle = Some 1, kd_watch = 1, kd_layout = UsAltGrIntl,
      kd_prefix = None, kd_shift = True, kd_caps_lock = False, kd_altgr = False, kd_deadkey = NoDead, kd_num_lock = False\<rparr>"

theorem key_char_follows_layout_witness:
  "key_char (decode_key 0x1E False) 0x1E demo_keyboard = (Some (ch CHR ''A''), demo_keyboard)"
proof -
  have "decode_key 0x1E False = Character (ch CHR ''a'') None" by (simp add: decode_key_def plain_keys_def)
  from key_char_follows_layout [OF this, of demo_keyboard] show ?thesis
    by (simp add: demo_keyboard_def layout_char_def)
qed

text \<open>
  A dead key is lost when it is released before the next key goes down. Pressing the acute,
  grave, tilde or circumflex key arms it and sends nothing, but its release is decoded as the
  plain character and disarms it, so the letter typed next is not composed. Only the diaeresis
  survives its release.
\<close>

theorem dead_key_lost_on_release:
  assumes "\<not> kd_altgr d" and "kd_prefix d = None"
  shows "(\<forall>code \<in> {0x28, 0x29, 0x2B}. kd_deadkey (fst (handle_scancode code d)) \<noteq> NoDead \<and> snd (handle_scancode code d) = [] \<and>
      kd_deadkey (fst (feed_all handle_scancode [code, code + 0x80] d)) = NoDead) \<and>
    kd_deadkey (fst (feed_all handle_scancode [0x1A, 0x9A] d)) = Diaeresis"
  using assms
  by (simp add: handle_scancode_def emit_event_def start_dead_key_def decode_key_def plain_keys_def describe_key_def
      character_char_def plain_char_def letter_from_scancode_def letter_codes_def digit_from_scancode_def digit_codes_def
      symbol_from_scancode_def symbol_codes_def with_dead_key_def resolve_dead_key_def Let_def)

theorem dead_key_lost_on_release_witness:
  "kd_deadkey (fst (feed_all handle_scancode [0x28, 0xA8] demo_keyboard)) = NoDead"
proof -
  have "\<not> kd_altgr demo_keyboard" "kd_prefix demo_keyboard = None" by (simp_all add: demo_keyboard_def)
  from dead_key_lost_on_release [OF this] show ?thesis by simp
qed

text \<open>
  C37: a tick of the driver ends exactly when a read finds the buffer empty. The read loop has no bound of
  its own, and interrupts put bytes into the kernel's buffer between its reads. With both handles held, the tick
  never returns if every read finds bytes waiting; otherwise it ends with the first read that finds none,
  the buffer is empty, and the bytes that entered it were handled once and in order. If the bytes in the buffer
  and those that arrive do not exceed its capacity of 255, that is every byte; and once no more bytes arrive the tick
  always ends.
\<close>

theorem keyboard_tick_drains:
  assumes found: "found = waiting 255 bss (ib_items (KEYBOARD_BUFFER dev))"
    and run: "run = keyboard_tick (interrupted kbd_endpoint keys_arrive bss) d (dev, 0)"
    and "ib_ready KEYBOARD_BUFFER_LEN (KEYBOARD_BUFFER dev)" and "kd_irq_handle d = Some i" and "kd_device_handle d = Some j"
  shows "(run = None \<longleftrightarrow> (\<forall>n. found n \<noteq> [])) \<and> ((\<exists>M. \<forall>n \<ge> M. bss n = []) \<longrightarrow> run \<noteq> None) \<and>
    (\<forall>N. found N = [] \<and> (\<forall>n < N. found n \<noteq> []) \<longrightarrow>
       (\<exists>dev' bs. run = Some (fst (feed_all handle_scancode bs d), snd (feed_all handle_scancode bs d), dev', Suc N) \<and>
          bs = concat (map (\<lambda>n. take 16 (found n)) [0..<N]) \<and> ib_items (KEYBOARD_BUFFER dev') = [] \<and>
          (length (ib_items (KEYBOARD_BUFFER dev)) + length (concat (map bss [0..<Suc N])) \<le> 255 \<longrightarrow>
             bs = ib_items (KEYBOARD_BUFFER dev) @ concat (map bss [0..<Suc N]))))"
proof -
  let ?q = "ib_items (KEYBOARD_BUFFER dev)"
  have t: "run = poll_device (interrupted kbd_endpoint keys_arrive bss) handle_scancode (Some i) (Some j) d (dev, 0)"
    using assms(4,5) by (simp add: run keyboard_tick_def)
  note r = kbd_irq.interrupted_poll [OF assms(3), where bss = bss and h = handle_scancode and i = i and j = j and s = d, folded t]
  have "\<exists>dev' bs. run = Some (fst (feed_all handle_scancode bs d), snd (feed_all handle_scancode bs d), dev', Suc N) \<and>
      bs = concat (map (\<lambda>n. take 16 (found n)) [0..<N]) \<and> ib_items (KEYBOARD_BUFFER dev') = [] \<and>
      (length ?q + length (concat (map bss [0..<Suc N])) \<le> 255 \<longrightarrow> bs = ?q @ concat (map bss [0..<Suc N]))"
    if first: "found N = []" "\<forall>n < N. found n \<noteq> []" for N
  proof -
    obtain dev' where "run = (case feed_all handle_scancode (handled 255 bss ?q N) d of (s', r) \<Rightarrow> Some (s', r, dev', Suc N))"
        "ib_items (KEYBOARD_BUFFER dev') = []"
      using r(2) [of N] first unfolding found by blast
    moreover have "length ?q + length (concat (map bss [0..<Suc N])) \<le> 255 \<longrightarrow> handled 255 bss ?q N = ?q @ concat (map bss [0..<Suc N])"
      using waiting_all [of ?q bss N 255] first(1) by (simp add: found del: upt_Suc)
    ultimately show ?thesis
      by (intro exI [of _ dev'] exI [of _ "handled 255 bss ?q N"]) (simp add: handled_def found split_beta)
  qed
  moreover have "run \<noteq> None" if "\<forall>n \<ge> M. bss n = []" for M
    using r(1) waiting_ends [of M bss 255 ?q] that by blast
  ultimately show ?thesis using r(1) unfolding found by blast
qed

theorem keyboard_tick_drains_witness:
  "let bss = (\<lambda>n. if n = 1 then [0x9E] else []); dev = io_off\<lparr>KEYBOARD_BUFFER := typed [0x1E]\<rparr>; run = feed_all handle_scancode [0x1E, 0x9E] demo_keyboard
   in \<exists>dev'. keyboard_tick (interrupted kbd_endpoint keys_arrive bss) demo_keyboard (dev, 0) = Some (fst run, snd run, dev', 3) \<and>
        ib_items (KEYBOARD_BUFFER dev') = []"
proof -
  let ?bss = "\<lambda>n :: nat. if n = 1 then [0x9E :: u8] else []" and ?dev = "io_off\<lparr>KEYBOARD_BUFFER := typed [0x1E]\<rparr>"
  have q: "ib_ready KEYBOARD_BUFFER_LEN (KEYBOARD_BUFFER ?dev)" "ib_items (KEYBOARD_BUFFER ?dev) = [0x1E]"
    using items_typed [of "[0x1E]"] by simp_all
  have w: "waiting 255 ?bss [0x1E] 0 = [0x1E]" "waiting 255 ?bss [0x1E] 1 = [0x9E]" "waiting 255 ?bss [0x1E] 2 = []"
    by (simp_all add: numeral_2_eq_2)
  have h: "kd_irq_handle demo_keyboard = Some 1" "kd_device_handle demo_keyboard = Some 3" by (simp_all add: demo_keyboard_def)
  have "\<forall>n < 2. waiting 255 ?bss [0x1E] n \<noteq> []" using w(1,2) by (auto simp: less_2_cases_iff simp del: waiting.simps)
  moreover have "concat (map (\<lambda>n. take 16 (waiting 255 ?bss [0x1E] n)) [0..<2]) = [0x1E, 0x9E]"
    using w by (simp add: upt_conv_Cons numeral_2_eq_2 del: waiting.simps)
  ultimately show ?thesis
    using keyboard_tick_drains [OF refl refl q(1) h, of ?bss] w(3) unfolding q(2) Let_def by (metis (no_types, lifting) eval_nat_numeral(3))
qed

end
