(* ===== verification/Mouse_Driver.thy ===== *)
theory Mouse_Driver
  imports Driver_Loop
begin

unbundle bit_operations_syntax

text \<open>
  The PS/2 mouse driver (\<open>src/drivers/mouse_driver/src/lib.rs\<close>): the packet decoder, the read
  loop and the events it sends to the graph, given as the kind and the fields of each \<open>fiat\<close>.
  A delta of type \<open>i8\<close> is a byte read as signed.
\<close>

section \<open>The driver\<close>

record mouse_event =
  me_dx :: i8
  me_dy :: i8
  me_buttons :: u8
  me_buttons_changed :: bool

record packet_decoder =
  pd_packet :: "u8 list"
  pd_index :: nat
  pd_buttons :: u8

definition packet_decoder_new :: packet_decoder where
  "packet_decoder_new = \<lparr>pd_packet = [0, 0, 0], pd_index = 0, pd_buttons = 0\<rparr>"

definition packet_feed :: "u8 \<Rightarrow> packet_decoder \<Rightarrow> mouse_event option \<times> packet_decoder" where
  "packet_feed byte p =
     (if pd_index p = 0 \<and> byte AND 0x08 = 0 then (None, p)
      else let p1 = p\<lparr>pd_packet := (pd_packet p)[pd_index p := byte], pd_index := (pd_index p + 1) mod 3\<rparr>
           in if pd_index p1 \<noteq> 0 then (None, p1)
              else let flags = pd_packet p1 ! 0; dx = pd_packet p1 ! 1; dy = - (pd_packet p1 ! 2)
                   in if flags AND 0x40 \<noteq> 0 \<or> flags AND 0x80 \<noteq> 0 then (None, p1)
                      else let buttons = flags AND 0x07
                           in (Some \<lparr>me_dx = dx, me_dy = dy, me_buttons = buttons, me_buttons_changed = (buttons \<noteq> pd_buttons p1)\<rparr>,
                               p1\<lparr>pd_buttons := buttons\<rparr>))"

definition handle_byte :: "u8 \<Rightarrow> packet_decoder \<Rightarrow> packet_decoder \<times> mouse_event list" where
  "handle_byte byte p = (case packet_feed byte p of (None, p') \<Rightarrow> (p', []) | (Some e, p') \<Rightarrow> (p', [e]))"

record mouse_driver =
  md_device_id :: uuid
  md_device_handle :: "u64 option"
  md_irq_handle :: "u64 option"
  md_move_watch :: watch_id
  md_button_watch :: watch_id

definition mouse_driver_init :: "ext \<Rightarrow> u64 option \<Rightarrow> u64 option \<Rightarrow> watch_id \<Rightarrow> watch_id \<Rightarrow> mouse_driver" where
  "mouse_driver_init x dev irq move button =
     \<lparr>md_device_id = device_uuid x MOUSE_DEVICE_NAME, md_device_handle = dev, md_irq_handle = irq,
      md_move_watch = move, md_button_watch = button\<rparr>"

text \<open>The decoder is a global of the driver.\<close>

definition poll_events ::
  "(u8 list \<Rightarrow> 'd \<Rightarrow> nat \<times> u8 list \<times> 'd) \<Rightarrow> mouse_driver \<Rightarrow> packet_decoder \<Rightarrow> 'd \<Rightarrow>
   (packet_decoder \<times> mouse_event list \<times> 'd) option" where
  "poll_events rd m = poll_device rd handle_byte (md_irq_handle m) (md_device_handle m)"

definition emit_mouse_event :: "mouse_driver \<Rightarrow> mouse_event \<Rightarrow> (symbol \<times> gmap) list" where
  "emit_mouse_event m e =
     (let f1 = bt_insert canon_KIND (VSymbol canon_MOVE) [];
          f2 = bt_insert canon_DEVICE_ID (VUuid (md_device_id m)) f1;
          f3 = bt_insert canon_DX (VI64 (scast (me_dx e))) f2;
          f4 = bt_insert canon_DY (VI64 (scast (me_dy e))) f3;
          f5 = bt_insert canon_BUTTON (VU64 (ucast (me_buttons e))) f4;
          b1 = bt_insert canon_DEVICE_ID (VUuid (md_device_id m)) [];
          b2 = bt_insert canon_BUTTON (VU64 (ucast (me_buttons e))) b1;
          b3 = bt_insert canon_DOWN (VBool (me_buttons e \<noteq> 0)) b2
      in (canon_INPUT_EVENT, f5) # (if me_buttons_changed e then [(canon_MOUSE_BUTTON, b3)] else []))"

definition mouse_tick ::
  "(u8 list \<Rightarrow> 'd \<Rightarrow> nat \<times> u8 list \<times> 'd) \<Rightarrow> mouse_driver \<Rightarrow> packet_decoder \<Rightarrow> 'd \<Rightarrow>
   (packet_decoder \<times> (symbol \<times> gmap) list \<times> 'd) option" where
  "mouse_tick rd m p dev =
     map_option (\<lambda>(p', events, dev'). (p', concat (map (emit_mouse_event m) events), dev')) (poll_events rd m p dev)"

section \<open>Packets\<close>

text \<open>
  A report of the mouse: the buttons and sign bits, and the low bytes of the motion. \<open>packet\<close> is
  what the device sends for it, \<open>reported\<close> what the driver should make of a sequence of them.
\<close>

record mouse_report =
  mr_flags :: u8
  mr_dx :: i8
  mr_dy :: i8

definition packet :: "mouse_report \<Rightarrow> u8 list" where
  "packet r = [mr_flags r, mr_dx r, - mr_dy r]"

definition proper :: "mouse_report \<Rightarrow> bool" where
  "proper r \<longleftrightarrow> mr_flags r AND 0x08 \<noteq> 0 \<and> mr_flags r AND 0x40 = 0 \<and> mr_flags r AND 0x80 = 0"

fun reported :: "u8 \<Rightarrow> mouse_report list \<Rightarrow> mouse_event list" where
  "reported old [] = []"
| "reported old (r # rs) =
     \<lparr>me_dx = mr_dx r, me_dy = mr_dy r, me_buttons = mr_flags r AND 0x07,
      me_buttons_changed = (mr_flags r AND 0x07 \<noteq> old)\<rparr> # reported (mr_flags r AND 0x07) rs"

definition synced :: "packet_decoder \<Rightarrow> bool" where
  "synced p \<longleftrightarrow> pd_index p = 0 \<and> length (pd_packet p) = 3"

lemma feed_packet:
  assumes "synced p" "proper r"
  shows "\<exists>p'. feed_all handle_byte (packet r) p =
      (p', [\<lparr>me_dx = mr_dx r, me_dy = mr_dy r, me_buttons = mr_flags r AND 0x07,
             me_buttons_changed = (mr_flags r AND 0x07 \<noteq> pd_buttons p)\<rparr>]) \<and>
    synced p' \<and> pd_buttons p' = mr_flags r AND 0x07"
proof -
  obtain a b c where "pd_packet p = [a, b, c]"
    using assms(1) by (auto simp: synced_def length_Suc_conv numeral_3_eq_3)
  then show ?thesis
    using assms by (simp add: packet_def handle_byte_def packet_feed_def synced_def proper_def Let_def)
qed

lemma feed_packets:
  assumes "synced p" "list_all proper rs"
  shows "\<exists>p'. feed_all handle_byte (concat (map packet rs)) p = (p', reported (pd_buttons p) rs) \<and> synced p'"
  using assms
proof (induction rs arbitrary: p)
  case (Cons r rs)
  obtain p1 where p1: "feed_all handle_byte (packet r) p =
      (p1, [\<lparr>me_dx = mr_dx r, me_dy = mr_dy r, me_buttons = mr_flags r AND 0x07,
             me_buttons_changed = (mr_flags r AND 0x07 \<noteq> pd_buttons p)\<rparr>])"
    "synced p1" "pd_buttons p1 = mr_flags r AND 0x07"
    using feed_packet [of p r] Cons.prems by auto
  obtain p2 where "feed_all handle_byte (concat (map packet rs)) p1 = (p2, reported (pd_buttons p1) rs)" "synced p2"
    using Cons.IH [OF p1(2)] Cons.prems by auto
  then show ?case using p1 by (simp add: feed_all_append)
qed simp

section \<open>Properties\<close>

text \<open>
  The decoder inverts the encoding of the mouse. From a decoder at a packet boundary, a
  sequence of packets without overflow gives exactly one event per packet, in order, with the
  packet's motion, its buttons, and a button change exactly when the buttons differ from those
  before; and the decoder is at a packet boundary again.
\<close>

theorem mouse_packets_roundtrip:
  assumes "synced p" and "list_all proper rs"
  shows "\<exists>p'. feed_all handle_byte (concat (map packet rs)) p = (p', reported (pd_buttons p) rs) \<and> synced p'"
  by (rule feed_packets [OF assms])

theorem mouse_packets_roundtrip_witness:
  "\<exists>p'. feed_all handle_byte [0x09, 5, - 2, 0x08, 0, 0] packet_decoder_new =
     (p', [\<lparr>me_dx = 5, me_dy = 2, me_buttons = 1, me_buttons_changed = True\<rparr>,
           \<lparr>me_dx = 0, me_dy = 0, me_buttons = 0, me_buttons_changed = True\<rparr>])"
proof -
  let ?rs = "[\<lparr>mr_flags = 0x09, mr_dx = 5, mr_dy = 2\<rparr>, \<lparr>mr_flags = 0x08, mr_dx = 0, mr_dy = 0\<rparr>]"
  have "synced packet_decoder_new" "list_all proper ?rs"
    by (simp_all add: synced_def packet_decoder_new_def proper_def)
  from mouse_packets_roundtrip [OF this] show ?thesis
    by (auto simp: packet_def packet_decoder_new_def simp del: feed_all.simps)
qed

text \<open>
  A fast motion to the right is reported as one to the left. The device sends a motion of
  128 to 255 as that byte with a clear sign bit; the decoder ignores the sign bit and reads the
  byte as signed, so the event's delta is negative.
\<close>

theorem fast_motion_flips:
  assumes "128 \<le> n" and "n < 256"
  shows "\<exists>p' e. feed_all handle_byte [0x08, of_nat n, 0] packet_decoder_new = (p', [e]) \<and> sint (me_dx e) = int n - 256"
proof -
  let ?r = "\<lparr>mr_flags = 0x08, mr_dx = of_nat n, mr_dy = 0\<rparr>"
  have "synced packet_decoder_new" "proper ?r" by (simp_all add: synced_def packet_decoder_new_def proper_def)
  from feed_packet [OF this] have "\<exists>p' e. feed_all handle_byte [0x08, of_nat n, 0] packet_decoder_new = (p', [e]) \<and> me_dx e = of_nat n"
    by (auto simp: packet_def simp del: feed_all.simps)
  moreover have "sint (of_nat n :: i8) = int n - 256"
  proof -
    have "uint (of_nat n :: i8) = int n" using assms by (simp add: unsigned_of_nat take_bit_nat_eq_self)
    moreover have "(int n - 128 + 256) mod 256 = int n - 128"
      using assms unfolding mod_add_self2 by (intro mod_pos_pos_trivial) auto
    ultimately show ?thesis by (simp add: sint_uint signed_take_bit_eq_take_bit_shift take_bit_eq_mod add.commute [of 128])
  qed
  ultimately show ?thesis by auto
qed

theorem fast_motion_flips_witness:
  "\<exists>p' e. feed_all handle_byte [0x08, 200, 0] packet_decoder_new = (p', [e]) \<and> sint (me_dx e) = - 56"
  using fast_motion_flips [of 200] by simp

end
