(* ===== verification/Float32.thy ===== *)
theory Float32
  imports Prelude "HOL-Library.Log_Nat"
begin

text \<open>
  The machine numbers of the user interface code, as far as it uses them: casts between signed,
  unsigned and pointer-sized integers, and single precision floats.

  Screen coordinates (\<open>i32\<close>) are integers whose arithmetic is wrapped by \<open>i32\<close> where the source
  adds, subtracts or multiplies; sizes (\<open>u32\<close>, \<open>usize\<close>) are naturals, with the casts written out.
  A float is a rational rounded to 24 significant bits, to the nearest and ties to even, with
  subnormals, infinities and a quiet NaN; the sign of zero is not kept, since the modelled code
  neither divides by zero nor prints.
\<close>

section \<open>Casts\<close>

definition i32 :: "int \<Rightarrow> int" where
  "i32 z = (z + 2147483648) mod 4294967296 - 2147483648"

definition as_u32 :: "int \<Rightarrow> nat" where
  "as_u32 z = nat (z mod 4294967296)"

definition as_usize :: "int \<Rightarrow> nat" where
  "as_usize z = nat (z mod 18446744073709551616)"

definition in_i32 :: "int \<Rightarrow> bool" where
  "in_i32 z \<longleftrightarrow> - 2147483648 \<le> z \<and> z < 2147483648"

lemma i32_id [simp]: "in_i32 z \<Longrightarrow> i32 z = z"
  by (simp add: in_i32_def i32_def)

lemma i32_in [simp]: "in_i32 (i32 z)"
  by (simp add: in_i32_def i32_def pos_mod_bound [of 4294967296 "z + 2147483648", simplified])

lemma as_u32_id [simp]: "0 \<le> z \<Longrightarrow> z < 4294967296 \<Longrightarrow> as_u32 z = nat z"
  by (simp add: as_u32_def)

lemma as_usize_id [simp]: "0 \<le> z \<Longrightarrow> z < 18446744073709551616 \<Longrightarrow> as_usize z = nat z"
  by (simp add: as_usize_def)

section \<open>Rounding\<close>

definition pow2 :: "int \<Rightarrow> rat" where
  "pow2 e = (if 0 \<le> e then 2 ^ nat e else 1 / 2 ^ nat (- e))"

text \<open>The exponent of the leading bit of a positive rational.\<close>

definition ilog :: "rat \<Rightarrow> int" where
  "ilog q = (let (n, d) = quotient_of q; e = int (floorlog 2 (nat n)) - int (floorlog 2 (nat d)) in if pow2 e \<le> q then e else e - 1)"

definition round_even :: "rat \<Rightarrow> int" where
  "round_even q = (let f = \<lfloor>q\<rfloor>; r = q - of_int f in if r < 1 / 2 then f else if 1 / 2 < r then f + 1 else if even f then f else f + 1)"

datatype f32 = FFin rat | FInf bool | FNaN

definition f32_round :: "rat \<Rightarrow> f32" where
  "f32_round q =
     (if q = 0 then FFin 0
      else let e = max (ilog \<bar>q\<bar> - 23) (- 149); v = of_int (round_even (q / pow2 e)) * pow2 e
           in if pow2 128 \<le> \<bar>v\<bar> then FInf (q < 0) else FFin v)"

section \<open>Operations\<close>

fun f32_neg :: "f32 \<Rightarrow> f32" where
  "f32_neg (FFin a) = FFin (- a)"
| "f32_neg (FInf s) = FInf (\<not> s)"
| "f32_neg FNaN = FNaN"

fun f32_add :: "f32 \<Rightarrow> f32 \<Rightarrow> f32" where
  "f32_add (FFin a) (FFin b) = f32_round (a + b)"
| "f32_add (FInf s) (FInf t) = (if s = t then FInf s else FNaN)"
| "f32_add (FInf s) (FFin _) = FInf s"
| "f32_add (FFin _) (FInf s) = FInf s"
| "f32_add _ _ = FNaN"

definition f32_sub :: "f32 \<Rightarrow> f32 \<Rightarrow> f32" where
  "f32_sub a b = f32_add a (f32_neg b)"

fun f32_mul :: "f32 \<Rightarrow> f32 \<Rightarrow> f32" where
  "f32_mul (FFin a) (FFin b) = f32_round (a * b)"
| "f32_mul (FInf s) (FInf t) = FInf (s \<noteq> t)"
| "f32_mul (FInf s) (FFin b) = (if b = 0 then FNaN else FInf (s \<noteq> (b < 0)))"
| "f32_mul (FFin a) (FInf s) = (if a = 0 then FNaN else FInf (s \<noteq> (a < 0)))"
| "f32_mul _ _ = FNaN"

text \<open>A zero divisor is taken as positive zero.\<close>

fun f32_div :: "f32 \<Rightarrow> f32 \<Rightarrow> f32" where
  "f32_div (FFin a) (FFin b) = (if b = 0 then (if a = 0 then FNaN else FInf (a < 0)) else f32_round (a / b))"
| "f32_div (FInf s) (FFin b) = FInf (s \<noteq> (b < 0))"
| "f32_div (FFin _) (FInf _) = FFin 0"
| "f32_div _ _ = FNaN"

fun f32_less :: "f32 \<Rightarrow> f32 \<Rightarrow> bool" where
  "f32_less (FFin a) (FFin b) = (a < b)"
| "f32_less (FInf s) (FInf t) = (s \<and> \<not> t)"
| "f32_less (FInf s) (FFin _) = s"
| "f32_less (FFin _) (FInf s) = (\<not> s)"
| "f32_less _ _ = False"

definition f32_of_int :: "int \<Rightarrow> f32" where
  "f32_of_int z = f32_round (of_int z)"

text \<open>Casts from float to integer truncate and saturate; NaN gives zero.\<close>

definition rat_trunc :: "rat \<Rightarrow> int" where
  "rat_trunc q = (if q < 0 then - \<lfloor>- q\<rfloor> else \<lfloor>q\<rfloor>)"

fun f32_as_i32 :: "f32 \<Rightarrow> int" where
  "f32_as_i32 (FFin q) = max (- 2147483648) (min 2147483647 (rat_trunc q))"
| "f32_as_i32 (FInf s) = (if s then - 2147483648 else 2147483647)"
| "f32_as_i32 FNaN = 0"

fun f32_as_u32 :: "f32 \<Rightarrow> nat" where
  "f32_as_u32 (FFin q) = nat (min 4294967295 (rat_trunc q))"
| "f32_as_u32 (FInf s) = (if s then 0 else 4294967295)"
| "f32_as_u32 FNaN = 0"

lemma f32_as_i32_in [simp]: "in_i32 (f32_as_i32 a)"
  by (cases a) (auto simp: in_i32_def)

end
