(* ===== verification/Canvas.thy ===== *)
theory Canvas
  imports Float32
begin

unbundle bit_operations_syntax

text \<open>
  Rectangles, colours and bitmaps of the compositor (\<open>src/compositor/src/types.rs\<close>,
  \<open>src/compositor/src/bitmap.rs\<close>, \<open>intersect_rect\<close> and \<open>apply_clip\<close> of
  \<open>src/compositor/src/framebuffer_backend.rs\<close>, \<open>src/userland/src/graphics.rs\<close>).
\<close>

section \<open>Rectangles\<close>

record rect =
  rx :: int
  ry :: int
  rwidth :: nat
  rheight :: nat

definition rect_new :: "int \<Rightarrow> int \<Rightarrow> nat \<Rightarrow> nat \<Rightarrow> rect" where
  "rect_new x y w h = \<lparr>rx = x, ry = y, rwidth = w, rheight = h\<rparr>"

text \<open>The expressions \<open>r.x + r.width as i32\<close> and \<open>r.y + r.height as i32\<close>.\<close>

definition rect_right :: "rect \<Rightarrow> int" where
  "rect_right r = i32 (rx r + i32 (int (rwidth r)))"

definition rect_bottom :: "rect \<Rightarrow> int" where
  "rect_bottom r = i32 (ry r + i32 (int (rheight r)))"

definition rect_union :: "rect \<Rightarrow> rect \<Rightarrow> rect" where
  "rect_union a b =
     (let x = min (rx a) (rx b); y = min (ry a) (ry b);
          max_x = max (rect_right a) (rect_right b); max_y = max (rect_bottom a) (rect_bottom b)
      in rect_new x y (as_u32 (i32 (max_x - x))) (as_u32 (i32 (max_y - y))))"

definition intersect_rect :: "rect \<Rightarrow> rect \<Rightarrow> rect option" where
  "intersect_rect a b =
     (let x = max (rx a) (rx b); y = max (ry a) (ry b);
          x2 = min (rect_right a) (rect_right b); y2 = min (rect_bottom a) (rect_bottom b)
      in if x < x2 \<and> y < y2 then Some (rect_new x y (as_u32 (i32 (x2 - x))) (as_u32 (i32 (y2 - y)))) else None)"

definition apply_clip :: "rect \<Rightarrow> rect option \<Rightarrow> rect option" where
  "apply_clip r clip = (case clip of Some c \<Rightarrow> intersect_rect r c | None \<Rightarrow> Some r)"

definition clamp_i32 :: "int \<Rightarrow> int \<Rightarrow> int \<Rightarrow> int" where
  "clamp_i32 v min_v max_v = (if v < min_v then min_v else if max_v < v then max_v else v)"

text \<open>
  The points of a rectangle, and the rectangles whose far corner is an \<open>i32\<close>. On these the
  operations above are exact.
\<close>

definition in_rect :: "rect \<Rightarrow> int \<Rightarrow> int \<Rightarrow> bool" where
  "in_rect r x y \<longleftrightarrow> rx r \<le> x \<and> x < rx r + int (rwidth r) \<and> ry r \<le> y \<and> y < ry r + int (rheight r)"

definition rect_ok :: "rect \<Rightarrow> bool" where
  "rect_ok r \<longleftrightarrow> in_i32 (rx r) \<and> in_i32 (ry r) \<and> in_i32 (int (rwidth r)) \<and> in_i32 (int (rheight r)) \<and>
     in_i32 (rx r + int (rwidth r)) \<and> in_i32 (ry r + int (rheight r))"

lemma rect_right_ok [simp]: "rect_ok r \<Longrightarrow> rect_right r = rx r + int (rwidth r)"
  by (simp add: rect_ok_def rect_right_def)

lemma rect_bottom_ok [simp]: "rect_ok r \<Longrightarrow> rect_bottom r = ry r + int (rheight r)"
  by (simp add: rect_ok_def rect_bottom_def)

text \<open>The extent of an intersection is an \<open>i32\<close> when one of the two sizes is.\<close>

lemma intersect_rect_Some:
  assumes a: "rect_ok a" and b: "rect_ok b" and i: "intersect_rect a b = Some r"
  shows "rect_ok r" and "in_rect r x y \<longleftrightarrow> in_rect a x y \<and> in_rect b x y" and "rx r = max (rx a) (rx b)" and "ry r = max (ry a) (ry b)"
    and "0 < rwidth r" and "0 < rheight r"
proof -
  let ?x = "max (rx a) (rx b)" and ?y = "max (ry a) (ry b)"
  let ?x2 = "min (rx a + int (rwidth a)) (rx b + int (rwidth b))" and ?y2 = "min (ry a + int (rheight a)) (ry b + int (rheight b))"
  have lt: "?x < ?x2" "?y < ?y2" using i a b by (auto simp: intersect_rect_def Let_def split: if_splits)
  have d: "in_i32 (?x2 - ?x)" "in_i32 (?y2 - ?y)" using a b lt by (auto simp: rect_ok_def in_i32_def)
  then have "as_u32 (i32 (?x2 - ?x)) = nat (?x2 - ?x)" "as_u32 (i32 (?y2 - ?y)) = nat (?y2 - ?y)"
    using lt by (auto simp: in_i32_def i32_id [unfolded in_i32_def])
  then have r: "r = rect_new ?x ?y (nat (?x2 - ?x)) (nat (?y2 - ?y))"
    using i a b lt by (simp add: intersect_rect_def Let_def)
  show "rect_ok r" using r d lt a b by (auto simp: rect_ok_def rect_new_def in_i32_def)
  show "in_rect r x y \<longleftrightarrow> in_rect a x y \<and> in_rect b x y" using r lt by (auto simp: in_rect_def rect_new_def)
  show "rx r = ?x" "ry r = ?y" "0 < rwidth r" "0 < rheight r" using r lt by (simp_all add: rect_new_def)
qed

lemma intersect_rect_None:
  "rect_ok a \<Longrightarrow> rect_ok b \<Longrightarrow> intersect_rect a b = None \<longleftrightarrow> \<not> (\<exists>x y. in_rect a x y \<and> in_rect b x y)"
proof
  assume ok: "rect_ok a" "rect_ok b" and n: "intersect_rect a b = None"
  then have "\<not> (max (rx a) (rx b) < min (rx a + int (rwidth a)) (rx b + int (rwidth b)) \<and>
      max (ry a) (ry b) < min (ry a + int (rheight a)) (ry b + int (rheight b)))"
    by (auto simp: intersect_rect_def Let_def split: if_splits)
  then show "\<not> (\<exists>x y. in_rect a x y \<and> in_rect b x y)" by (auto simp: in_rect_def)
next
  assume ok: "rect_ok a" "rect_ok b" and n: "\<not> (\<exists>x y. in_rect a x y \<and> in_rect b x y)"
  show "intersect_rect a b = None"
  proof (rule ccontr)
    assume "intersect_rect a b \<noteq> None"
    then obtain r where "intersect_rect a b = Some r" by auto
    note s = intersect_rect_Some [OF ok this]
    have "in_rect r (rx r) (ry r)" using s(5,6) by (simp add: in_rect_def)
    then show False using s(2) n by blast
  qed
qed

lemma rect_union_contains:
  assumes "rect_ok a" "rect_ok b" "in_i32 (max (rx a + int (rwidth a)) (rx b + int (rwidth b)) - min (rx a) (rx b))"
    "in_i32 (max (ry a + int (rheight a)) (ry b + int (rheight b)) - min (ry a) (ry b))" and "in_rect a x y \<or> in_rect b x y"
  shows "in_rect (rect_union a b) x y"
proof -
  have w: "0 \<le> max (rx a + int (rwidth a)) (rx b + int (rwidth b)) - min (rx a) (rx b)"
    "0 \<le> max (ry a + int (rheight a)) (ry b + int (rheight b)) - min (ry a) (ry b)" by auto
  then have "rect_union a b = rect_new (min (rx a) (rx b)) (min (ry a) (ry b))
      (nat (max (rx a + int (rwidth a)) (rx b + int (rwidth b)) - min (rx a) (rx b)))
      (nat (max (ry a + int (rheight a)) (ry b + int (rheight b)) - min (ry a) (ry b)))"
    using assms(1-4) as_u32_id by (auto simp: rect_union_def Let_def in_i32_def i32_id [unfolded in_i32_def])
  then show ?thesis using assms(5) w by (auto simp: in_rect_def rect_new_def)
qed

section \<open>Colours\<close>

record rgba =
  cr :: u8
  cg :: u8
  cb :: u8
  ca :: u8

definition rgba_new :: "u8 \<Rightarrow> u8 \<Rightarrow> u8 \<Rightarrow> u8 \<Rightarrow> rgba" where
  "rgba_new a r g b = \<lparr>cr = r, cg = g, cb = b, ca = a\<rparr>"

definition rgba_opaque :: "u8 \<Rightarrow> u8 \<Rightarrow> u8 \<Rightarrow> rgba" where
  "rgba_opaque r g b = \<lparr>cr = r, cg = g, cb = b, ca = 0xFF\<rparr>"

definition rgba_from_u32 :: "u32 \<Rightarrow> rgba" where
  "rgba_from_u32 argb =
     \<lparr>cr = ucast (drop_bit 16 argb AND 0xFF), cg = ucast (drop_bit 8 argb AND 0xFF), cb = ucast (argb AND 0xFF),
      ca = ucast (drop_bit 24 argb AND 0xFF)\<rparr>"

definition with_alpha :: "u8 \<Rightarrow> rgba \<Rightarrow> rgba" where
  "with_alpha a c = c\<lparr>ca := a\<rparr>"

definition to_u32 :: "rgba \<Rightarrow> u32" where
  "to_u32 c = push_bit 24 (ucast (ca c)) OR push_bit 16 (ucast (cr c)) OR push_bit 8 (ucast (cg c)) OR ucast (cb c)"

definition CLEAR_COLOR :: rgba where
  "CLEAR_COLOR = rgba_new 0xFF 0 0 0"

text \<open>The two conversions are inverse to each other.\<close>

lemma bit_255: "bit (0xFF :: int) n \<longleftrightarrow> n < 8"
proof -
  have "(0xFF :: int) = mask 8" by (simp add: mask_eq_exp_minus_1)
  then show ?thesis by (simp only: bit_mask_iff) simp
qed

lemma u8_bit_high [simp]: "8 \<le> n \<Longrightarrow> \<not> bit (w :: u8) n"
  using bit_imp_le_length [of w n] by auto

lemma to_u32_from_u32: "to_u32 (rgba_from_u32 v) = v"
proof (rule bit_word_eqI)
  fix n assume n: "n < LENGTH(32)"
  then consider "n < 8" | "8 \<le> n" "n < 16" | "16 \<le> n" "n < 24" | "24 \<le> n" "n < 32" by fastforce
  then show "bit (to_u32 (rgba_from_u32 v)) n = bit v n"
    by cases (auto simp: to_u32_def rgba_from_u32_def bit_simps bit_255)
qed

lemma from_u32_to_u32: "rgba_from_u32 (to_u32 c) = c"
proof -
  have "cr (rgba_from_u32 (to_u32 c)) = cr c"
    by (rule bit_word_eqI) (simp add: rgba_from_u32_def to_u32_def bit_simps bit_255)
  moreover have "cg (rgba_from_u32 (to_u32 c)) = cg c"
    by (rule bit_word_eqI) (simp add: rgba_from_u32_def to_u32_def bit_simps bit_255)
  moreover have "cb (rgba_from_u32 (to_u32 c)) = cb c"
    by (rule bit_word_eqI) (simp add: rgba_from_u32_def to_u32_def bit_simps bit_255)
  moreover have "ca (rgba_from_u32 (to_u32 c)) = ca c"
    by (rule bit_word_eqI) (simp add: rgba_from_u32_def to_u32_def bit_simps bit_255)
  ultimately show ?thesis by simp
qed

definition blend :: "u32 \<Rightarrow> u32 \<Rightarrow> u32" where
  "blend fg bg =
     (let alpha = drop_bit 24 fg AND 0xFF
      in if alpha = 0 then bg else if alpha = 255 then fg
         else let inv_alpha = 255 - alpha;
                  r = ((drop_bit 16 fg AND 0xFF) * alpha + (drop_bit 16 bg AND 0xFF) * inv_alpha) div 255;
                  g = ((drop_bit 8 fg AND 0xFF) * alpha + (drop_bit 8 bg AND 0xFF) * inv_alpha) div 255;
                  b = ((fg AND 0xFF) * alpha + (bg AND 0xFF) * inv_alpha) div 255
              in 0xFF000000 OR push_bit 16 r OR push_bit 8 g OR b)"

end
