(* ===== verification/Bitmaps.thy ===== *)
theory Bitmaps
  imports Canvas
begin

unbundle bit_operations_syntax

text \<open>
  Bitmaps and the BMP decoder of the compositor (\<open>src/compositor/src/bitmap.rs\<close>). Panics are the
  left values; the bytes of the file are a list.
\<close>

section \<open>Bitmaps\<close>

record bitmap =
  bm_width :: nat
  bm_height :: nat
  bm_pixels :: "u32 list"

definition bitmap_new :: "nat \<Rightarrow> nat \<Rightarrow> u32 list \<Rightarrow> bitmap panics" where
  "bitmap_new w h ps =
     (if length ps \<noteq> w * h then Inl ''Bitmap::new: pixels length does not match''
      else Inr \<lparr>bm_width = w, bm_height = h, bm_pixels = ps\<rparr>)"

text \<open>An index outside the pixels panics.\<close>

definition pixel_at :: "bitmap \<Rightarrow> nat \<Rightarrow> u32 option" where
  "pixel_at bm i = (if i < length (bm_pixels bm) then Some (bm_pixels bm ! i) else None)"

definition bitmap_pixel :: "bitmap \<Rightarrow> nat \<Rightarrow> nat \<Rightarrow> u32 option option" where
  "bitmap_pixel bm x y =
     (if bm_width bm \<le> x \<or> bm_height bm \<le> y then Some None else map_option Some (pixel_at bm (y * bm_width bm + x)))"

definition bitmap_sample :: "bitmap \<Rightarrow> nat \<Rightarrow> nat \<Rightarrow> u32 option" where
  "bitmap_sample bm x y =
     (if bm_width bm = 0 \<or> bm_height bm = 0 then Some 0
      else pixel_at bm ((y mod bm_height bm) * bm_width bm + x mod bm_width bm))"

definition fallback_background :: "bitmap panics" where
  "fallback_background = bitmap_new 64 64 (replicate (64 * 64) 0xFF000000)"

definition bitmap_ok :: "bitmap \<Rightarrow> bool" where
  "bitmap_ok bm \<longleftrightarrow> length (bm_pixels bm) = bm_width bm * bm_height bm"

lemma grid_index: "(x :: nat) < w \<Longrightarrow> y < h \<Longrightarrow> y * w + x < w * h"
proof -
  assume "x < w" "y < h"
  then have "y * w + x < Suc y * w" by simp
  also have "\<dots> \<le> h * w" using \<open>y < h\<close> by (intro mult_le_mono1) simp
  finally show ?thesis by (simp add: mult.commute)
qed

lemma grid_index_inj: "(x :: nat) < w \<Longrightarrow> x' < w \<Longrightarrow> y * w + x = y' * w + x' \<longleftrightarrow> x = x' \<and> y = y'"
  by (metis add.commute div_less div_mult_self1 mod_less mod_mult_self1 not_less0 add.right_neutral add_cancel_left_left less_nat_zero_code)

lemma grid_row: "(x :: nat) < w \<Longrightarrow> k * w \<le> y * w + x \<and> y * w + x < k * w + w \<longleftrightarrow> y = k"
proof -
  assume x: "x < w"
  have "y * w + x < k * w" if "y < k" using x mult_le_mono1 [of "Suc y" k w] that by simp
  moreover have "k * w + w \<le> y * w + x" if "k < y" using mult_le_mono1 [of "Suc k" y w] that by simp
  ultimately show ?thesis using x by (metis add_less_cancel_left leD le_add1 nat_neq_iff)
qed

text \<open>A bitmap whose pixels fit its size never panics.\<close>

lemma bitmap_pixel_ok:
  "bitmap_ok bm \<Longrightarrow> bitmap_pixel bm x y =
     Some (if x < bm_width bm \<and> y < bm_height bm then Some (bm_pixels bm ! (y * bm_width bm + x)) else None)"
  by (auto simp: bitmap_pixel_def pixel_at_def bitmap_ok_def grid_index not_le)

lemma bitmap_sample_ok: "bitmap_ok bm \<Longrightarrow> \<exists>c. bitmap_sample bm x y = Some c"
  by (auto simp: bitmap_sample_def pixel_at_def bitmap_ok_def grid_index)

section \<open>The BMP decoder\<close>

fun le_value :: "u8 list \<Rightarrow> nat" where
  "le_value [] = 0"
| "le_value (b # bs) = unat b + 256 * le_value bs"

definition le_at :: "u8 list \<Rightarrow> nat \<Rightarrow> nat \<Rightarrow> nat" where
  "le_at data off n = le_value (take n (drop off data))"

definition usize_limit :: nat where
  "usize_limit = 18446744073709551616"

text \<open>One pixel at byte \<open>idx\<close>, blue first; without an alpha byte it is opaque.\<close>

definition bmp_pixel :: "u8 list \<Rightarrow> nat \<Rightarrow> nat \<Rightarrow> u32" where
  "bmp_pixel data bpp idx =
     (let b = ucast (data ! idx); g = ucast (data ! (idx + 1)); r = ucast (data ! (idx + 2));
          a = (if bpp = 24 then 0xFF000000 else push_bit 24 (ucast (data ! (idx + 3))))
      in a OR push_bit 16 r OR push_bit 8 g OR b)"

fun bmp_columns :: "u8 list \<Rightarrow> nat \<Rightarrow> nat \<Rightarrow> nat \<Rightarrow> nat list \<Rightarrow> u32 list \<Rightarrow> u32 list option" where
  "bmp_columns data bpp src_start dst [] ps = Some ps"
| "bmp_columns data bpp src_start dst (col # cols) ps =
     (let step = bpp div 8; idx = src_start + col * step
      in if length data < idx + step then Some ps
         else if dst + col < length ps then bmp_columns data bpp src_start dst cols (ps[dst + col := bmp_pixel data bpp idx])
         else None)"

fun bmp_rows :: "u8 list \<Rightarrow> nat \<Rightarrow> bool \<Rightarrow> nat \<Rightarrow> nat \<Rightarrow> nat \<Rightarrow> nat \<Rightarrow> nat list \<Rightarrow> u32 list \<Rightarrow> u32 list option" where
  "bmp_rows data bpp bottom_up offset stride w h [] ps = Some ps"
| "bmp_rows data bpp bottom_up offset stride w h (row # rows) ps =
     (let src_row = (if bottom_up then h - 1 - row else row)
      in Option.bind (bmp_columns data bpp (offset + src_row * stride) (row * w) [0..<w] ps)
           (bmp_rows data bpp bottom_up offset stride w h rows))"

definition decode_bmp :: "u8 list \<Rightarrow> bitmap option panics" where
  "decode_bmp data =
     (if length data < 54 \<or> take 2 data \<noteq> [0x42, 0x4D] then Inr None
      else let offset = le_at data 10 4; width = i32 (int (le_at data 18 4)); height = i32 (int (le_at data 22 4));
               planes = le_at data 26 2; bpp = le_at data 28 2; compression = le_at data 30 4
           in if planes \<noteq> 1 \<or> (bpp \<noteq> 24 \<and> bpp \<noteq> 32) \<or> compression \<noteq> 0 then Inr None
              else let w = nat \<bar>width\<bar>; h = nat \<bar>height\<bar>;
                       stride = (if bpp = 24 then ((w * 3 + 3) div 4) * 4 else w * 4)
                   in if length data < (offset + min (stride * h) (usize_limit - 1)) mod usize_limit then Inr None
                      else if usize_limit div 2 \<le> w * h * 4 then Inl ''capacity overflow''
                      else case bmp_rows data bpp (0 < height) offset stride w h [0..<h] (replicate (w * h) 0) of
                             None \<Rightarrow> Inl ''index out of bounds''
                           | Some ps \<Rightarrow> map_sum id Some (bitmap_new w h ps))"

definition load_background :: "u8 list \<Rightarrow> bitmap panics" where
  "load_background data = (case decode_bmp data of Inl e \<Rightarrow> Inl e | Inr (Some bm) \<Rightarrow> Inr bm | Inr None \<Rightarrow> fallback_background)"

section \<open>Correctness of the decoder\<close>

lemma bmp_columns_spec:
  assumes "src_start + w * (bpp div 8) \<le> length data" "dst + w \<le> length ps" "k \<le> w"
  shows "\<exists>ps'. bmp_columns data bpp src_start dst [k..<w] ps = Some ps' \<and> length ps' = length ps \<and>
    (\<forall>i < length ps. ps' ! i = (if dst + k \<le> i \<and> i < dst + w then bmp_pixel data bpp (src_start + (i - dst) * (bpp div 8)) else ps ! i))"
  using assms
proof (induction "w - k" arbitrary: k ps)
  case 0
  then show ?case by auto
next
  case (Suc n)
  then have k: "k < w" by simp
  then have "Suc k * (bpp div 8) \<le> w * (bpp div 8)" by (intro mult_le_mono1) simp
  then have fits: "src_start + k * (bpp div 8) + bpp div 8 \<le> length data" using Suc.prems(1) by simp
  have "n = w - Suc k" "dst + w \<le> length (ps[dst + k := bmp_pixel data bpp (src_start + k * (bpp div 8))])" "Suc k \<le> w"
    using Suc.hyps(2) Suc.prems k by simp_all
  from Suc.hyps(1) [OF this(1) Suc.prems(1) this(2,3)] obtain ps' where
    "bmp_columns data bpp src_start dst [Suc k..<w] (ps[dst + k := bmp_pixel data bpp (src_start + k * (bpp div 8))]) = Some ps'"
    "length ps' = length ps"
    "\<forall>i < length ps. ps' ! i = (if dst + Suc k \<le> i \<and> i < dst + w then bmp_pixel data bpp (src_start + (i - dst) * (bpp div 8))
      else ps[dst + k := bmp_pixel data bpp (src_start + k * (bpp div 8))] ! i)"
    by auto
  moreover have "(if dst + Suc k \<le> i \<and> i < dst + w then bmp_pixel data bpp (src_start + (i - dst) * (bpp div 8))
      else ps[dst + k := bmp_pixel data bpp (src_start + k * (bpp div 8))] ! i) =
    (if dst + k \<le> i \<and> i < dst + w then bmp_pixel data bpp (src_start + (i - dst) * (bpp div 8)) else ps ! i)" if "i < length ps" for i
    using that k by (cases "i = dst + k") auto
  ultimately show ?case
    using k fits Suc.prems by (simp add: upt_rec [of k w] Let_def)
qed

definition bmp_source :: "bool \<Rightarrow> nat \<Rightarrow> nat \<Rightarrow> nat" where
  "bmp_source bottom_up h y = (if bottom_up then h - 1 - y else y)"

lemma bmp_rows_spec:
  assumes fits: "offset + stride * h \<le> length data" and st: "w * (bpp div 8) \<le> stride"
    and len: "length ps = w * h" and "k \<le> h"
  shows "\<exists>ps'. bmp_rows data bpp bottom_up offset stride w h [k..<h] ps = Some ps' \<and> length ps' = length ps \<and>
    (\<forall>x < w. \<forall>y < h. ps' ! (y * w + x) =
       (if k \<le> y then bmp_pixel data bpp (offset + bmp_source bottom_up h y * stride + x * (bpp div 8)) else ps ! (y * w + x)))"
  using assms(3,4)
proof (induction "h - k" arbitrary: k ps)
  case 0
  then show ?case by simp
next
  case (Suc n)
  let ?s = "bmp_source bottom_up h k"
  have k: "k < h" using Suc.hyps(2) by simp
  have "Suc ?s * stride \<le> h * stride" using k by (intro mult_le_mono1) (auto simp: bmp_source_def)
  then have a: "offset + ?s * stride + w * (bpp div 8) \<le> length data" using fits st by (simp add: mult.commute)
  have "Suc k * w \<le> h * w" using k by (intro mult_le_mono1) simp
  then have b: "k * w + w \<le> length ps" using Suc.prems(1) by (simp add: mult.commute)
  obtain ps1 where p1: "bmp_columns data bpp (offset + ?s * stride) (k * w) [0..<w] ps = Some ps1" "length ps1 = length ps"
    "\<forall>i < length ps. ps1 ! i = (if k * w \<le> i \<and> i < k * w + w then bmp_pixel data bpp (offset + ?s * stride + (i - k * w) * (bpp div 8)) else ps ! i)"
    using bmp_columns_spec [OF a b, of 0] by auto
  have "n = h - Suc k" "length ps1 = w * h" "Suc k \<le> h" using Suc p1(2) k by auto
  from Suc.hyps(1) [OF this] obtain ps2 where p2: "bmp_rows data bpp bottom_up offset stride w h [Suc k..<h] ps1 = Some ps2"
    "length ps2 = length ps1"
    "\<forall>x < w. \<forall>y < h. ps2 ! (y * w + x) =
       (if Suc k \<le> y then bmp_pixel data bpp (offset + bmp_source bottom_up h y * stride + x * (bpp div 8)) else ps1 ! (y * w + x))"
    by blast
  note in_row = grid_row [of _ w k]
  have "ps2 ! (y * w + x) = (if k \<le> y then bmp_pixel data bpp (offset + bmp_source bottom_up h y * stride + x * (bpp div 8)) else ps ! (y * w + x))"
    if "x < w" "y < h" for x y
    using p2(3) p1(3) that in_row [OF that(1), of y] grid_index [OF that] Suc.prems(1) by (auto simp: le_Suc_eq not_le)
  then show ?case
    using k p1(1,2) p2(1,2) by (auto simp: upt_rec [of k h] bmp_source_def Let_def)
qed


text \<open>What the header of a file says, and the files the decoder accepts.\<close>

definition bmp_bpp :: "u8 list \<Rightarrow> nat" where
  "bmp_bpp data = le_at data 28 2"

definition bmp_w :: "u8 list \<Rightarrow> nat" where
  "bmp_w data = nat \<bar>i32 (int (le_at data 18 4))\<bar>"

definition bmp_h :: "u8 list \<Rightarrow> nat" where
  "bmp_h data = nat \<bar>i32 (int (le_at data 22 4))\<bar>"

definition bmp_stride :: "u8 list \<Rightarrow> nat" where
  "bmp_stride data = (if bmp_bpp data = 24 then ((bmp_w data * 3 + 3) div 4) * 4 else bmp_w data * 4)"

definition bmp_valid :: "u8 list \<Rightarrow> bool" where
  "bmp_valid data \<longleftrightarrow> 54 \<le> length data \<and> take 2 data = [0x42, 0x4D] \<and> le_at data 26 2 = 1 \<and>
     (bmp_bpp data = 24 \<or> bmp_bpp data = 32) \<and> le_at data 30 4 = 0 \<and>
     le_at data 10 4 + bmp_stride data * bmp_h data \<le> length data"

lemma row_fits: "bmp_bpp data = 24 \<or> bmp_bpp data = 32 \<Longrightarrow> bmp_w data * (bmp_bpp data div 8) \<le> bmp_stride data"
  by (auto simp: bmp_stride_def)

lemma le_value_bound: "le_value bs < 256 ^ length bs"
proof (induction bs)
  case (Cons b bs)
  have "unat b < 256" using unsigned_less [of b] by simp
  then show ?case using Cons by simp
qed simp

lemma le_at_4: "le_at data off 4 < 4294967296"
proof -
  have "le_at data off 4 < 256 ^ length (take 4 (drop off data))" unfolding le_at_def by (rule le_value_bound)
  also have "\<dots> \<le> 256 ^ 4" by (intro power_increasing) auto
  finally show ?thesis by simp
qed

lemma fits_exact:
  "bmp_stride data * bmp_h data < 2 ^ 63 \<Longrightarrow>
   (le_at data 10 4 + min (bmp_stride data * bmp_h data) (usize_limit - 1)) mod usize_limit = le_at data 10 4 + bmp_stride data * bmp_h data"
  using le_at_4 [of data 10] by (simp add: usize_limit_def)

lemma decode_bmp_unfold:
  "decode_bmp data =
     (if length data < 54 \<or> take 2 data \<noteq> [0x42, 0x4D] then Inr None
      else if le_at data 26 2 \<noteq> 1 \<or> (bmp_bpp data \<noteq> 24 \<and> bmp_bpp data \<noteq> 32) \<or> le_at data 30 4 \<noteq> 0 then Inr None
      else if length data < (le_at data 10 4 + min (bmp_stride data * bmp_h data) (usize_limit - 1)) mod usize_limit then Inr None
      else if usize_limit div 2 \<le> bmp_w data * bmp_h data * 4 then Inl ''capacity overflow''
      else case bmp_rows data (bmp_bpp data) (0 < i32 (int (le_at data 22 4))) (le_at data 10 4) (bmp_stride data) (bmp_w data) (bmp_h data)
                  [0..<bmp_h data] (replicate (bmp_w data * bmp_h data) 0) of
             None \<Rightarrow> Inl ''index out of bounds''
           | Some ps \<Rightarrow> map_sum id Some (bitmap_new (bmp_w data) (bmp_h data) ps))"
  unfolding decode_bmp_def bmp_bpp_def bmp_stride_def bmp_w_def bmp_h_def Let_def ..

text \<open>
  A header of 54 bytes whose width and height are 2^31 and whose pixels start at byte 1: the size in bytes is beyond the
  address space, the sum with the offset wraps around to a small number, so the length check lets it through and the
  allocation panics.
\<close>

definition wrapping_bmp :: "u8 list" where
  "wrapping_bmp = [0x42, 0x4D] @ replicate 8 0 @ [1, 0, 0, 0] @ replicate 4 0 @ [0, 0, 0, 0x80] @ [0, 0, 0, 0x80] @ [1, 0] @ [32, 0] @ replicate 24 0"

theorem wrapping_bmp_panics: "decode_bmp wrapping_bmp = Inl ''capacity overflow''"
proof -
  have b: "take 4 (drop 10 wrapping_bmp) = [1, 0, 0, 0]" "take 4 (drop 18 wrapping_bmp) = [0, 0, 0, 0x80]" "take 4 (drop 22 wrapping_bmp) = [0, 0, 0, 0x80]"
    "take 2 (drop 26 wrapping_bmp) = [1, 0]" "take 2 (drop 28 wrapping_bmp) = [32, 0]" "take 4 (drop 30 wrapping_bmp) = [0, 0, 0, 0]"
    "length wrapping_bmp = 54" "take 2 wrapping_bmp = [0x42, 0x4D]"
    by code_simp+
  then have f: "le_at wrapping_bmp 10 4 = 1" "le_at wrapping_bmp 18 4 = 0x80000000" "le_at wrapping_bmp 22 4 = 0x80000000" "le_at wrapping_bmp 26 2 = 1"
    "le_at wrapping_bmp 28 2 = 32" "le_at wrapping_bmp 30 4 = 0"
    by (simp_all add: le_at_def)
  have "i32 0x80000000 = - 0x80000000" by (simp add: i32_def)
  then show ?thesis unfolding decode_bmp_def f b(7,8) Let_def by (simp add: usize_limit_def)
qed

text \<open>
  C38: the bitmap decoder is exact on images that fit the address space. For a file shorter than 2^61 bytes whose header
  asks for less than 2^63 bytes of pixel rows (a larger image can pass the wrapped length check and panic, as above) it does not panic; it returns a bitmap exactly when the signature,
  planes, depth and compression fit and all rows lie inside the file, and then every pixel of the
  bitmap is the pixel of the file in that place, rows counted from the bottom when the height is
  positive. So the row checks inside the loops never cut a valid image short.
\<close>

theorem decode_bmp_exact:
  assumes "length data < 2 ^ 61" and "bmp_stride data * bmp_h data < 2 ^ 63"
  shows "case decode_bmp data of Inl _ \<Rightarrow> False | Inr None \<Rightarrow> \<not> bmp_valid data
    | Inr (Some bm) \<Rightarrow> bmp_valid data \<and> bitmap_ok bm \<and> bm_width bm = bmp_w data \<and> bm_height bm = bmp_h data \<and>
        (\<forall>x < bm_width bm. \<forall>y < bm_height bm. bm_pixels bm ! (y * bm_width bm + x) =
           bmp_pixel data (bmp_bpp data) (le_at data 10 4 +
             bmp_source (0 < i32 (int (le_at data 22 4))) (bmp_h data) y * bmp_stride data + x * (bmp_bpp data div 8)))"
proof (cases "bmp_valid data")
  case False
  then have "decode_bmp data = Inr None" using fits_exact [OF assms(2)] by (auto simp: decode_bmp_unfold bmp_valid_def not_le)
  then show ?thesis using False by simp
next
  case True
  note v = True [unfolded bmp_valid_def]
  obtain ps where ps: "bmp_rows data (bmp_bpp data) (0 < i32 (int (le_at data 22 4))) (le_at data 10 4) (bmp_stride data) (bmp_w data) (bmp_h data)
      [0..<bmp_h data] (replicate (bmp_w data * bmp_h data) 0) = Some ps" "length ps = bmp_w data * bmp_h data"
    "\<forall>x < bmp_w data. \<forall>y < bmp_h data. ps ! (y * bmp_w data + x) = bmp_pixel data (bmp_bpp data) (le_at data 10 4 +
      bmp_source (0 < i32 (int (le_at data 22 4))) (bmp_h data) y * bmp_stride data + x * (bmp_bpp data div 8))"
    using bmp_rows_spec [of "le_at data 10 4" "bmp_stride data" "bmp_h data" data "bmp_w data" "bmp_bpp data"
        "replicate (bmp_w data * bmp_h data) 0" 0 "0 < i32 (int (le_at data 22 4))"] v row_fits [of data] by auto
  have "bmp_w data \<le> bmp_stride data" using v by (auto simp: bmp_stride_def)
  then have "bmp_w data * bmp_h data \<le> bmp_stride data * bmp_h data" by (rule mult_le_mono1)
  also have "\<dots> < 2 ^ 61" using v assms(1) by linarith
  finally have cap: "bmp_w data * bmp_h data * 4 < usize_limit div 2" by (simp add: usize_limit_def mult.commute [of "bmp_w data"])
  have "decode_bmp data = Inr (Some \<lparr>bm_width = bmp_w data, bm_height = bmp_h data, bm_pixels = ps\<rparr>)"
    using v ps(1,2) cap fits_exact [OF assms(2)] by (simp add: decode_bmp_unfold bitmap_new_def)
  then show ?thesis using True ps(2,3) by (simp add: bitmap_ok_def)
qed

text \<open>A file of one row of two pixels, 24 bits each, padded to eight bytes.\<close>

definition demo_bmp :: "u8 list" where
  "demo_bmp = [0x42, 0x4D] @ replicate 8 0 @ [54, 0, 0, 0] @ replicate 4 0 @ [2, 0, 0, 0] @ [1, 0, 0, 0] @ [1, 0] @ [24, 0] @ replicate 24 0 @
     [1, 2, 3, 4, 5, 6, 0, 0]"

theorem decode_bmp_exact_witness:
  "\<exists>bm. decode_bmp demo_bmp = Inr (Some bm) \<and> bm_width bm = 2 \<and> bm_height bm = 1 \<and> bm_pixels bm ! 1 = 0xFF060504"
proof -
  have v: "bmp_w demo_bmp = 2" "bmp_h demo_bmp = 1" "bmp_bpp demo_bmp = 24" "bmp_stride demo_bmp = 8" "le_at demo_bmp 10 4 = 54"
    "bmp_valid demo_bmp" "length demo_bmp = 62"
    by code_simp+
  have p: "bmp_pixel demo_bmp 24 57 = 0xFF060504" by code_simp
  show ?thesis
    using decode_bmp_exact [of demo_bmp] v p by (auto simp: bmp_source_def split: sum.splits option.splits)
qed

end
