(* ===== verification/Raster.thy ===== *)
theory Raster
  imports Bitmaps
begin

unbundle bit_operations_syntax

text \<open>
  The drawing primitives of the software renderer (\<open>src/compositor/src/framebuffer_backend.rs\<close>) and
  the font manager (\<open>src/compositor/src/fonts.rs\<close>). A primitive maps a renderer to a renderer;
  \<open>None\<close> is a panic (an index outside the pixel storage, a glyph or a sprite) or, for the line,
  a loop that does not end. Text is the list of its code points. Fonts come from the \<open>fontdue\<close>
  crate: a face is a record of the functions the code calls.
\<close>

section \<open>The renderer and its loops\<close>

record renderer =
  b_width :: nat
  b_height :: nat
  b_storage :: "u32 list"

definition renderer_new :: "nat \<Rightarrow> nat \<Rightarrow> renderer" where
  "renderer_new w h = \<lparr>b_width = w, b_height = h, b_storage = replicate (w * h) 0\<rparr>"

definition resize_list :: "nat \<Rightarrow> 'a \<Rightarrow> 'a list \<Rightarrow> 'a list" where
  "resize_list n v xs = take n xs @ replicate (n - length xs) v"

definition renderer_resize :: "nat \<Rightarrow> nat \<Rightarrow> renderer \<Rightarrow> renderer" where
  "renderer_resize w h b = b\<lparr>b_width := w, b_height := h, b_storage := resize_list (w * h) 0 (b_storage b)\<rparr>"

definition renderer_clear :: "rgba \<Rightarrow> renderer \<Rightarrow> renderer" where
  "renderer_clear c b = b\<lparr>b_storage := replicate (length (b_storage b)) (to_u32 c)\<rparr>"

text \<open>An assignment to one element of the storage.\<close>

definition put :: "nat \<Rightarrow> (u32 \<Rightarrow> u32) \<Rightarrow> renderer \<Rightarrow> renderer option" where
  "put i f b = (if i < length (b_storage b) then Some (b\<lparr>b_storage := (b_storage b)[i := f (b_storage b ! i)]\<rparr>) else None)"

fun for_each :: "('a \<Rightarrow> 's \<Rightarrow> 's option) \<Rightarrow> 'a list \<Rightarrow> 's \<Rightarrow> 's option" where
  "for_each f [] s = Some s"
| "for_each f (x # xs) s = Option.bind (f x s) (for_each f xs)"

text \<open>The rows and columns of a rectangle that three of the primitives visit.\<close>

definition raster_span :: "rect \<Rightarrow> renderer \<Rightarrow> nat \<times> nat \<times> nat \<times> nat" where
  "raster_span r b =
     (let x0 = min (as_usize (max (rx r) 0)) (b_width b); y0 = min (as_usize (max (ry r) 0)) (b_height b)
      in (x0, y0, min (x0 + rwidth r) (b_width b), min (y0 + rheight r) (b_height b)))"

definition for_span :: "(nat \<Rightarrow> nat \<Rightarrow> renderer \<Rightarrow> renderer option) \<Rightarrow> nat \<times> nat \<times> nat \<times> nat \<Rightarrow> renderer \<Rightarrow> renderer option" where
  "for_span body s = (case s of (x0, y0, x1, y1) \<Rightarrow> for_each (\<lambda>yy. for_each (\<lambda>xx. body xx yy) [x0..<x1]) [y0..<y1])"

section \<open>Rectangles and images\<close>

definition raster_fill_rect :: "rect \<Rightarrow> rgba \<Rightarrow> rect option \<Rightarrow> renderer \<Rightarrow> renderer option" where
  "raster_fill_rect r color clip b =
     (if rwidth r = 0 \<or> rheight r = 0 \<or> b_width b = 0 then Some b
      else case apply_clip r clip of None \<Rightarrow> Some b
      | Some r' \<Rightarrow> for_span (\<lambda>xx yy. put (yy * b_width b + xx)
            (\<lambda>bg. if ca color = 0xFF then to_u32 color else blend (to_u32 color) bg)) (raster_span r' b) b)"

definition raster_hatch_rect :: "rect \<Rightarrow> rgba \<Rightarrow> int \<Rightarrow> rect option \<Rightarrow> renderer \<Rightarrow> renderer option" where
  "raster_hatch_rect r color spacing clip b =
     (if rwidth r = 0 \<or> rheight r = 0 \<or> b_width b = 0 \<or> spacing \<le> 0 then Some b
      else case apply_clip r clip of None \<Rightarrow> Some b
      | Some r' \<Rightarrow> for_span (\<lambda>xx yy b1. if i32 (i32 (int xx) + i32 (int yy)) mod spacing = 0
            then put (yy * b_width b + xx) (\<lambda>_. to_u32 color) b1 else Some b1) (raster_span r' b) b)"

text \<open>The colour of an image at a place; \<open>Some None\<close> is a place outside an image that does not repeat.\<close>

definition image_color :: "bitmap \<Rightarrow> bool \<Rightarrow> nat \<Rightarrow> nat \<Rightarrow> u32 option option" where
  "image_color bm repeats sx sy = (if repeats then map_option Some (bitmap_sample bm sx sy) else bitmap_pixel bm sx sy)"

definition over :: "u32 \<Rightarrow> u32 \<Rightarrow> u32" where
  "over color bg =
     (let alpha = drop_bit 24 color AND 0xFF in if alpha = 0 then bg else if alpha = 0xFF then color else blend color bg)"

definition raster_blit_image :: "rect \<Rightarrow> bitmap \<Rightarrow> bool \<Rightarrow> int \<times> int \<Rightarrow> rect option \<Rightarrow> renderer \<Rightarrow> renderer option" where
  "raster_blit_image r bm repeats off clip b =
     (if rwidth r = 0 \<or> rheight r = 0 \<or> b_width b = 0 then Some b
      else case apply_clip r clip of None \<Rightarrow> Some b
      | Some r' \<Rightarrow> for_span (\<lambda>xx yy b1.
            let sx = as_usize (i32 (i32 (i32 (int xx) - rx r) + fst off)); sy = as_usize (i32 (i32 (i32 (int yy) - ry r) + snd off))
            in case image_color bm repeats sx sy of
                 None \<Rightarrow> None
               | Some None \<Rightarrow> Some b1
               | Some (Some color) \<Rightarrow> put (yy * b_width b + xx) (over color) b1) (raster_span r' b) b)"

section \<open>Glyphs and text\<close>

record glyph_metrics =
  g_xmin :: int
  g_ymin :: int
  g_width :: nat
  g_height :: nat
  g_advance_width :: f32

record line_metrics =
  l_ascent :: f32
  l_descent :: f32
  l_line_gap :: f32
  l_new_line_size :: f32

record font =
  lookup_glyph_index :: "nat \<Rightarrow> nat"
  face_rasterize :: "nat \<Rightarrow> f32 \<Rightarrow> glyph_metrics \<times> u8 list"
  horizontal_line_metrics :: "f32 \<Rightarrow> line_metrics option"

record font_manager =
  fonts :: "font list"
  mono_font :: font

text \<open>The manager is built from three faces and the monospaced one, so \<open>fonts\<close> is not empty.\<close>

definition rasterize :: "font_manager \<Rightarrow> nat \<Rightarrow> f32 \<Rightarrow> glyph_metrics \<times> u8 list" where
  "rasterize fm c px =
     (case filter (\<lambda>f. lookup_glyph_index f c \<noteq> 0) (fonts fm) of
        f # _ \<Rightarrow> face_rasterize f c px
      | [] \<Rightarrow> face_rasterize (hd (fonts fm)) c px)"

definition is_whitespace :: "nat \<Rightarrow> bool" where
  "is_whitespace c \<longleftrightarrow> (9 \<le> c \<and> c \<le> 13) \<or> c \<in> {0x20, 0x85, 0xA0, 0x1680} \<or> (0x2000 \<le> c \<and> c \<le> 0x200A) \<or>
     c \<in> {0x2028, 0x2029, 0x202F, 0x205F, 0x3000}"

definition rasterize_mono :: "font_manager \<Rightarrow> nat \<Rightarrow> f32 \<Rightarrow> glyph_metrics \<times> u8 list" where
  "rasterize_mono fm c px =
     (case face_rasterize (mono_font fm) c px of (m, bits) \<Rightarrow>
        if bits = [] \<and> \<not> is_whitespace c then face_rasterize (hd (fonts fm)) c px else (m, bits))"

text \<open>The literals \<open>0.8\<close> and \<open>-0.2\<close> are rounded to single precision.\<close>

definition fallback_metrics :: "f32 \<Rightarrow> line_metrics" where
  "fallback_metrics px =
     \<lparr>l_ascent = f32_mul px (f32_round (4 / 5)), l_descent = f32_mul px (f32_round (- 1 / 5)), l_line_gap = FFin 0, l_new_line_size = px\<rparr>"

definition line_metrics_of :: "font_manager \<Rightarrow> f32 \<Rightarrow> line_metrics" where
  "line_metrics_of fm px =
     (case horizontal_line_metrics (hd (fonts fm)) px of Some m \<Rightarrow> m | None \<Rightarrow> fallback_metrics px)"

definition mono_line_metrics :: "font_manager \<Rightarrow> f32 \<Rightarrow> line_metrics" where
  "mono_line_metrics fm px = fallback_metrics px"

definition FONT_HEIGHT :: nat where
  "FONT_HEIGHT = 20"

definition font_size :: f32 where
  "font_size = f32_of_int (int FONT_HEIGHT)"

definition text_metrics :: "font_manager \<Rightarrow> bool \<Rightarrow> line_metrics" where
  "text_metrics fm is_mono = (if is_mono then mono_line_metrics fm font_size else line_metrics_of fm font_size)"

definition text_glyph :: "font_manager \<Rightarrow> bool \<Rightarrow> nat \<Rightarrow> glyph_metrics \<times> u8 list" where
  "text_glyph fm is_mono c = (if is_mono then rasterize_mono fm c font_size else rasterize fm c font_size)"

text \<open>The colour that coverage \<open>alpha\<close> of a glyph in colour \<open>color\<close> leaves on \<open>bg\<close>.\<close>

definition glyph_over :: "u32 \<Rightarrow> u8 \<Rightarrow> u32 \<Rightarrow> u32" where
  "glyph_over color alpha bg =
     (if alpha = 255 then color
      else let fg_a = drop_bit 24 color AND 0xFF; final_a = (fg_a * ucast alpha) div 255
           in if final_a = 0 then bg else blend ((color AND 0x00FFFFFF) OR push_bit 24 final_a) bg)"

definition outside_columns :: "rect option \<Rightarrow> int \<Rightarrow> bool" where
  "outside_columns clip x \<longleftrightarrow> (case clip of Some c \<Rightarrow> x < rx c \<or> rect_right c \<le> x | None \<Rightarrow> False)"

definition glyph_cell ::
  "int \<Rightarrow> int \<Rightarrow> u8 list \<Rightarrow> int \<Rightarrow> u32 \<Rightarrow> rect option \<Rightarrow> int \<Rightarrow> int \<Rightarrow> renderer \<Rightarrow> renderer option" where
  "glyph_cell x dst_y bits width color clip row col b =
     (let dst_x = i32 (x + col)
      in if dst_x < 0 \<or> i32 (int (b_width b)) \<le> dst_x \<or> outside_columns clip dst_x then Some b
         else let i = as_usize (i32 (i32 (row * width) + col))
              in if length bits \<le> i then None
                 else if bits ! i = 0 then Some b
                 else put (as_usize dst_y * b_width b + as_usize dst_x) (glyph_over color (bits ! i)) b)"

fun glyph_rows ::
  "int \<Rightarrow> int \<Rightarrow> u8 list \<Rightarrow> int \<Rightarrow> u32 \<Rightarrow> rect option \<Rightarrow> nat list \<Rightarrow> renderer \<Rightarrow> renderer option" where
  "glyph_rows x y bits width color clip [] b = Some b"
| "glyph_rows x y bits width color clip (row # rows) b =
     (let dst_y = i32 (y + int row)
      in if dst_y < 0 then glyph_rows x y bits width color clip rows b
         else if i32 (int (b_height b)) \<le> dst_y then Some b
         else if (case clip of Some c \<Rightarrow> dst_y < ry c | None \<Rightarrow> False) then glyph_rows x y bits width color clip rows b
         else if (case clip of Some c \<Rightarrow> rect_bottom c \<le> dst_y | None \<Rightarrow> False) then Some b
         else Option.bind (for_each (\<lambda>col. glyph_cell x dst_y bits width color clip (int row) (int col)) [0..<nat width] b)
                (glyph_rows x y bits width color clip rows))"

definition raster_draw_glyph ::
  "int \<Rightarrow> int \<Rightarrow> u8 list \<Rightarrow> int \<Rightarrow> int \<Rightarrow> u32 \<Rightarrow> rect option \<Rightarrow> renderer \<Rightarrow> renderer option" where
  "raster_draw_glyph x y bits width height color clip b =
     (if b_width b = 0 \<or> b_height b = 0 \<or> width = 0 \<or> height = 0 then Some b
      else glyph_rows x y bits width color clip [0..<nat height] b)"

definition glyph_draw :: "int \<Rightarrow> int \<Rightarrow> glyph_metrics \<Rightarrow> u8 list \<Rightarrow> u32 \<Rightarrow> rect option \<Rightarrow> renderer \<Rightarrow> renderer option" where
  "glyph_draw x y m bits color clip = raster_draw_glyph x y bits (i32 (int (g_width m))) (i32 (int (g_height m))) color clip"

text \<open>The height of a glyph above the baseline, \<open>metrics.ymin as f32 + metrics.height as f32\<close>.\<close>

definition glyph_top :: "glyph_metrics \<Rightarrow> f32" where
  "glyph_top m = f32_add (f32_of_int (g_ymin m)) (f32_of_int (int (g_height m)))"

fun text_loop ::
  "font_manager \<Rightarrow> bool \<Rightarrow> u32 \<Rightarrow> rect option \<Rightarrow> int \<Rightarrow> f32 option \<Rightarrow> f32 \<Rightarrow> f32 \<Rightarrow> nat list \<Rightarrow> renderer \<Rightarrow> renderer option" where
  "text_loop fm is_mono color clip ox limit cursor_x baseline_y [] b = Some b"
| "text_loop fm is_mono color clip ox limit cursor_x baseline_y (c # cs) b =
     (if c = 10 then text_loop fm is_mono color clip ox limit (f32_of_int ox)
                       (f32_add baseline_y (l_new_line_size (text_metrics fm is_mono))) cs b
      else case text_glyph fm is_mono c of (m, bits) \<Rightarrow>
        if (case limit of Some l \<Rightarrow> f32_less l (f32_add cursor_x (g_advance_width m)) | None \<Rightarrow> False) then Some b
        else let draw_x = f32_as_i32 (f32_add cursor_x (f32_of_int (g_xmin m)));
                 draw_y = f32_as_i32 (f32_sub baseline_y (glyph_top m))
             in Option.bind (glyph_draw draw_x draw_y m bits color clip b)
                  (text_loop fm is_mono color clip ox limit (f32_add cursor_x (g_advance_width m)) baseline_y cs))"

definition raster_draw_text ::
  "font_manager \<Rightarrow> int \<times> int \<Rightarrow> nat list \<Rightarrow> rgba \<Rightarrow> nat option \<Rightarrow> rect option \<Rightarrow> bool \<Rightarrow> renderer \<Rightarrow> renderer option" where
  "raster_draw_text fm origin text color max_width clip is_mono b =
     (if b_width b = 0 then Some b
      else text_loop fm is_mono (to_u32 color) clip (fst origin)
             (map_option (\<lambda>w. f32_add (f32_of_int (fst origin)) (f32_of_int (int w))) max_width)
             (f32_of_int (fst origin)) (f32_add (f32_of_int (snd origin)) (l_ascent (text_metrics fm is_mono))) text b)"

fun block_loop ::
  "font_manager \<Rightarrow> bool \<Rightarrow> u32 \<Rightarrow> rect \<Rightarrow> rect \<Rightarrow> int \<Rightarrow> f32 \<Rightarrow> f32 \<Rightarrow> nat list \<Rightarrow> renderer \<Rightarrow> renderer option" where
  "block_loop fm is_mono color r bounds scroll_offset cursor_x current_y [] b = Some b"
| "block_loop fm is_mono color r bounds scroll_offset cursor_x current_y (c # cs) b =
     (let lm = text_metrics fm is_mono; view_bottom = rect_bottom r
      in if c = 10
         then let y = f32_add current_y (l_new_line_size lm)
              in if view_bottom \<le> i32 (i32 (ry r + f32_as_i32 y) - scroll_offset) then Some b
                 else block_loop fm is_mono color r bounds scroll_offset (FFin 0) y cs b
         else case text_glyph fm is_mono c of (m, bits) \<Rightarrow>
           let wraps = f32_less (f32_of_int (i32 (int (rwidth r)))) (f32_add cursor_x (g_advance_width m));
               x1 = (if wraps then FFin 0 else cursor_x);
               y1 = (if wraps then f32_add current_y (l_new_line_size lm) else current_y);
               baseline_y = f32_sub (f32_add (f32_add (f32_of_int (ry r)) y1) (l_ascent lm)) (f32_of_int scroll_offset);
               draw_y = f32_as_i32 (f32_sub baseline_y (glyph_top m))
           in if view_bottom \<le> draw_y then Some b
              else let visible = (ry r < i32 (draw_y + i32 (int (g_height m))) \<and> draw_y < view_bottom);
                       draw_x = i32 (rx r + f32_as_i32 (f32_add x1 (f32_of_int (g_xmin m))))
                   in Option.bind (if visible then glyph_draw draw_x draw_y m bits color (Some bounds) b else Some b)
                        (block_loop fm is_mono color r bounds scroll_offset (f32_add x1 (g_advance_width m)) y1 cs))"

definition raster_draw_text_block ::
  "font_manager \<Rightarrow> rect \<Rightarrow> nat list \<Rightarrow> rgba \<Rightarrow> int \<Rightarrow> rect option \<Rightarrow> bool \<Rightarrow> renderer \<Rightarrow> renderer option" where
  "raster_draw_text_block fm r text color scroll_offset clip is_mono b =
     (if b_width b = 0 \<or> rwidth r = 0 \<or> rheight r = 0 then Some b
      else case apply_clip r clip of None \<Rightarrow> Some b
      | Some bounds \<Rightarrow> block_loop fm is_mono (to_u32 color) r bounds scroll_offset (FFin 0) (FFin 0) text b)"

section \<open>Cursor and lines\<close>

definition cursor_over :: "u32 \<Rightarrow> u32 \<Rightarrow> u32" where
  "cursor_over px bg =
     (let alpha = drop_bit 24 px AND 0xFF
      in if alpha = 0 then bg else if alpha = 0xFF then px
         else let inv_a = 255 - alpha;
                  r = (drop_bit 16 px AND 0xFF) + ((drop_bit 16 bg AND 0xFF) * inv_a) div 255;
                  g = (drop_bit 8 px AND 0xFF) + ((drop_bit 8 bg AND 0xFF) * inv_a) div 255;
                  b = (px AND 0xFF) + ((bg AND 0xFF) * inv_a) div 255
              in 0xFF000000 OR push_bit 16 r OR push_bit 8 g OR b)"

text \<open>One row: both slices are taken, and panic, before the pixels are combined.\<close>

definition cursor_row :: "bitmap \<Rightarrow> nat \<Rightarrow> nat \<Rightarrow> nat \<Rightarrow> nat \<Rightarrow> renderer \<Rightarrow> renderer option" where
  "cursor_row sprite src src_end dst n b =
     (if src_end < src \<or> length (bm_pixels sprite) < src_end \<or> length (b_storage b) < dst + n then None
      else for_each (\<lambda>i. put (dst + i) (cursor_over (bm_pixels sprite ! (src + i)))) [0..<min (src_end - src) n] b)"

definition raster_draw_cursor :: "int \<times> int \<Rightarrow> bitmap \<Rightarrow> int \<times> int \<Rightarrow> rect option \<Rightarrow> renderer \<Rightarrow> renderer option" where
  "raster_draw_cursor origin sprite hotspot clip b =
     (if b_width b = 0 \<or> bm_width sprite = 0 \<or> bm_height sprite = 0 then Some b
      else let left = i32 (fst origin - fst hotspot); top_y = i32 (snd origin - snd hotspot);
               w = i32 (int (b_width b)); h = i32 (int (b_height b));
               sx = clamp_i32 left 0 w; sy = clamp_i32 top_y 0 h;
               ex = clamp_i32 (i32 (left + i32 (int (bm_width sprite)))) 0 w;
               ey = clamp_i32 (i32 (top_y + i32 (int (bm_height sprite)))) 0 h;
               (sx, sy, ex, ey) = (case clip of None \<Rightarrow> (sx, sy, ex, ey)
                 | Some c \<Rightarrow> (max sx (rx c), max sy (ry c), min ex (rect_right c), min ey (rect_bottom c)))
           in if ex \<le> sx \<or> ey \<le> sy then Some b
              else for_each (\<lambda>y. let row = as_usize (i32 (y - top_y)) * bm_width sprite
                      in cursor_row sprite (row + as_usize (i32 (sx - left))) (row + as_usize (i32 (ex - left)))
                           (as_usize y * b_width b + as_usize sx) (as_usize (i32 (ex - sx)))) [sy..ey - 1] b)"

definition line_plot :: "rgba \<Rightarrow> rect option \<Rightarrow> int \<Rightarrow> int \<Rightarrow> renderer \<Rightarrow> renderer option" where
  "line_plot color clip x y b =
     (if 0 \<le> x \<and> x < i32 (int (b_width b)) \<and> 0 \<le> y \<and> y < i32 (int (b_height b)) \<and>
         (case clip of Some c \<Rightarrow> \<not> (x < rx c \<or> rect_right c \<le> x \<or> y < ry c \<or> rect_bottom c \<le> y) | None \<Rightarrow> True)
      then put (as_usize y * b_width b + as_usize x) (\<lambda>bg. if ca color = 0xFF then to_u32 color else blend (to_u32 color) bg) b
      else Some b)"

text \<open>The step of the line: the next point and error term.\<close>

definition line_next :: "int \<Rightarrow> int \<Rightarrow> int \<Rightarrow> int \<Rightarrow> int \<times> int \<times> int \<Rightarrow> int \<times> int \<times> int" where
  "line_next dx dy sx sy s =
     (case s of (x, y, err) \<Rightarrow>
        let e2 = i32 (2 * err);
            (x1, err1) = (if dy \<le> e2 then (i32 (x + sx), i32 (err + dy)) else (x, err))
        in if e2 \<le> dx then (x1, i32 (y + sy), i32 (err1 + dx)) else (x1, y, err1))"

partial_function (option) line_loop ::
  "rgba \<Rightarrow> rect option \<Rightarrow> int \<Rightarrow> int \<Rightarrow> int \<Rightarrow> int \<Rightarrow> int \<times> int \<Rightarrow> int \<times> int \<times> int \<Rightarrow> renderer \<Rightarrow> renderer option" where
  "line_loop color clip dx dy sx sy goal s b =
     Option.bind (line_plot color clip (fst s) (fst (snd s)) b)
       (\<lambda>b1. if (fst s, fst (snd s)) = goal then Some b1
             else line_loop color clip dx dy sx sy goal (line_next dx dy sx sy s) b1)"

definition raster_draw_line :: "int \<times> int \<Rightarrow> int \<times> int \<Rightarrow> rgba \<Rightarrow> rect option \<Rightarrow> renderer \<Rightarrow> renderer option" where
  "raster_draw_line start fin color clip b =
     (if b_width b = 0 \<or> b_height b = 0 then Some b
      else let (x0, y0) = start; (x1, y1) = fin;
               dx = i32 \<bar>i32 (x1 - x0)\<bar>; dy = i32 (- i32 \<bar>i32 (y1 - y0)\<bar>);
               sx = (if x0 < x1 then 1 else - 1); sy = (if y0 < y1 then 1 else - 1)
           in line_loop color clip dx dy sx sy (x1, y1) (x0, y0, i32 (dx + dy)) b)"

end
