(* ===== verification/Painting.thy ===== *)
theory Painting
  imports Raster
begin

text \<open>
  What the drawing primitives do to the pixels. A primitive \<open>paints\<close> a function when, on every
  renderer of a given size, it succeeds and maps each pixel by that function. It is \<open>gated\<close> when one
  function describes it under every clip rectangle: pixels inside the clip are mapped by the
  function, pixels outside are left alone, and nothing else depends on the clip. All primitives
  are gated, so drawing under a smaller clip is drawing under a larger one restricted to it.
\<close>

section \<open>Painting\<close>

definition fits :: "nat \<Rightarrow> nat \<Rightarrow> renderer \<Rightarrow> bool" where
  "fits w h b \<longleftrightarrow> b_width b = w \<and> b_height b = h \<and> length (b_storage b) = w * h"

definition px :: "renderer \<Rightarrow> nat \<Rightarrow> nat \<Rightarrow> u32" where
  "px b x y = b_storage b ! (y * b_width b + x)"

type_synonym paint = "nat \<Rightarrow> nat \<Rightarrow> u32 \<Rightarrow> u32"

definition paints :: "nat \<Rightarrow> nat \<Rightarrow> (renderer \<Rightarrow> renderer option) \<Rightarrow> paint \<Rightarrow> bool" where
  "paints w h D f \<longleftrightarrow>
     (\<forall>b. fits w h b \<longrightarrow> (\<exists>b'. D b = Some b' \<and> fits w h b' \<and> (\<forall>x < w. \<forall>y < h. px b' x y = f x y (px b x y))))"

lemma paintsI:
  "(\<And>b. fits w h b \<Longrightarrow> \<exists>b'. D b = Some b' \<and> fits w h b' \<and> (\<forall>x < w. \<forall>y < h. px b' x y = f x y (px b x y))) \<Longrightarrow> paints w h D f"
  by (simp add: paints_def)

lemma paintsD:
  assumes "paints w h D f" "fits w h b"
  obtains b' where "D b = Some b'" "fits w h b'" "\<And>x y. x < w \<Longrightarrow> y < h \<Longrightarrow> px b' x y = f x y (px b x y)"
  using assms unfolding paints_def by blast

lemma paints_cong:
  assumes "paints w h D f" "\<And>b. fits w h b \<Longrightarrow> D' b = D b" "\<And>x y p. x < w \<Longrightarrow> y < h \<Longrightarrow> f' x y p = f x y p"
  shows "paints w h D' f'"
  using assms by (simp add: paints_def)

lemma paints_skip: "paints w h Some (\<lambda>x y p. p)"
  by (simp add: paints_def)

lemma paints_bind:
  assumes "paints w h D f" "paints w h E g"
  shows "paints w h (\<lambda>b. Option.bind (D b) E) (\<lambda>x y p. g x y (f x y p))"
proof (rule paintsI)
  fix b assume b: "fits w h b"
  obtain b1 where 1: "D b = Some b1" "fits w h b1" "\<And>x y. x < w \<Longrightarrow> y < h \<Longrightarrow> px b1 x y = f x y (px b x y)"
    using paintsD [OF assms(1) b] by blast
  obtain b2 where 2: "E b1 = Some b2" "fits w h b2" "\<And>x y. x < w \<Longrightarrow> y < h \<Longrightarrow> px b2 x y = g x y (px b1 x y)"
    using paintsD [OF assms(2) 1(2)] by blast
  show "\<exists>b'. Option.bind (D b) E = Some b' \<and> fits w h b' \<and> (\<forall>x < w. \<forall>y < h. px b' x y = g x y (f x y (px b x y)))"
    using 1 2 by simp
qed

lemma paints_for:
  assumes "\<And>a. a \<in> set xs \<Longrightarrow> paints w h (D a) (f a)"
  shows "paints w h (for_each D xs) (\<lambda>x y. fold (\<lambda>a. f a x y) xs)"
  using assms
proof (induction xs)
  case Nil
  show ?case by (rule paints_cong [OF paints_skip]) simp_all
next
  case (Cons a xs)
  have "paints w h (\<lambda>b. Option.bind (D a b) (for_each D xs)) (\<lambda>x y p. fold (\<lambda>a. f a x y) xs (f a x y p))"
    using Cons by (intro paints_bind) simp_all
  then show ?case by (rule paints_cong) simp_all
qed

text \<open>One pixel.\<close>

definition dot :: "nat \<Rightarrow> nat \<Rightarrow> (u32 \<Rightarrow> u32) \<Rightarrow> paint" where
  "dot x y g = (\<lambda>x' y' p. if x' = x \<and> y' = y then g p else p)"

lemma paints_put:
  assumes "x < w" "y < h"
  shows "paints w h (put (y * w + x) g) (dot x y g)"
proof (rule paintsI)
  fix b assume b: "fits w h b"
  have "px (b\<lparr>b_storage := (b_storage b)[y * w + x := g (b_storage b ! (y * w + x))]\<rparr>) x' y' = dot x y g x' y' (px b x' y')"
    if "x' < w" "y' < h" for x' y'
    using b that assms grid_index [OF assms] grid_index_inj [of x' w x y' y] by (auto simp: px_def fits_def dot_def nth_list_update)
  then show "\<exists>b'. put (y * w + x) g b = Some b' \<and> fits w h b' \<and> (\<forall>x' < w. \<forall>y' < h. px b' x' y' = dot x y g x' y' (px b x' y'))"
    using b assms grid_index [OF assms] by (auto simp: put_def fits_def)
qed

lemma fold_dots_row: "distinct xs \<Longrightarrow> fold (\<lambda>a. dot a y (g a) x' y') xs p = (if x' \<in> set xs \<and> y' = y then g x' p else p)"
  by (induction xs arbitrary: p) (auto simp: dot_def)

lemma fold_dots_column: "distinct ys \<Longrightarrow> fold (\<lambda>y p. if Q \<and> y' = y then g y p else p) ys p = (if Q \<and> y' \<in> set ys then g y' p else p)"
  by (induction ys arbitrary: p) auto

lemma paints_span:
  assumes "\<And>x y. x < w \<Longrightarrow> y < h \<Longrightarrow> paints w h (body x y) (dot x y (g x y))" and "x1 \<le> w" "y1 \<le> h"
  shows "paints w h (for_span body (x0, y0, x1, y1)) (\<lambda>x y p. if x0 \<le> x \<and> x < x1 \<and> y0 \<le> y \<and> y < y1 then g x y p else p)"
proof -
  have "paints w h (for_each (\<lambda>xx. body xx yy) [x0..<x1]) (\<lambda>x y p. if x \<in> set [x0..<x1] \<and> y = yy then g x yy p else p)"
    if "yy \<in> set [y0..<y1]" for yy
    by (rule paints_cong [OF paints_for [of _ w h _ "\<lambda>xx. dot xx yy (g xx yy)"]])
      (use assms that in \<open>auto simp: fold_dots_row intro!: assms(1)\<close>)
  then have "paints w h (for_span body (x0, y0, x1, y1))
      (\<lambda>x y. fold (\<lambda>yy p. if x \<in> set [x0..<x1] \<and> y = yy then g x yy p else p) [y0..<y1])"
    unfolding for_span_def split by (intro paints_for)
  then show ?thesis by (rule paints_cong) (simp_all only: fold_dots_column [OF distinct_upt], auto)
qed

section \<open>Clips\<close>

definition clip_ok :: "rect \<Rightarrow> bool" where
  "clip_ok c \<longleftrightarrow> rect_ok c \<and> 0 \<le> rx c \<and> 0 \<le> ry c"

definition gate :: "rect \<Rightarrow> paint \<Rightarrow> paint" where
  "gate c f = (\<lambda>x y p. if in_rect c (int x) (int y) then f x y p else p)"

definition gated :: "nat \<Rightarrow> nat \<Rightarrow> (rect option \<Rightarrow> renderer \<Rightarrow> renderer option) \<Rightarrow> bool" where
  "gated w h D \<longleftrightarrow> (\<exists>f. \<forall>c. clip_ok c \<longrightarrow> paints w h (D (Some c)) (gate c f))"

lemma gatedI: "(\<And>c. clip_ok c \<Longrightarrow> paints w h (D (Some c)) (gate c f)) \<Longrightarrow> gated w h D"
  by (auto simp: gated_def)

lemma gated_cong:
  assumes "gated w h D" "\<And>c b. clip_ok c \<Longrightarrow> fits w h b \<Longrightarrow> D' (Some c) b = D (Some c) b"
  shows "gated w h D'"
proof -
  obtain f where f: "\<And>c. clip_ok c \<Longrightarrow> paints w h (D (Some c)) (gate c f)" using assms(1) unfolding gated_def by blast
  show ?thesis by (rule gatedI [where f = f], rule paints_cong [OF f]) (simp_all add: assms(2))
qed

lemma gated_skip: "gated w h (\<lambda>_. Some)"
  by (rule gatedI [where f = "\<lambda>x y p. p"], rule paints_cong [OF paints_skip]) (simp_all add: gate_def)

lemma gated_bind:
  assumes "gated w h D" "gated w h E"
  shows "gated w h (\<lambda>c b. Option.bind (D c b) (E c))"
proof -
  obtain f where f: "\<And>c. clip_ok c \<Longrightarrow> paints w h (D (Some c)) (gate c f)" using assms(1) unfolding gated_def by blast
  obtain g where g: "\<And>c. clip_ok c \<Longrightarrow> paints w h (E (Some c)) (gate c g)" using assms(2) unfolding gated_def by blast
  show ?thesis
    by (rule gatedI [where f = "\<lambda>x y p. g x y (f x y p)"], rule paints_cong [OF paints_bind [OF f g]]) (auto simp: gate_def)
qed

lemma gated_for:
  assumes "\<And>a. a \<in> set xs \<Longrightarrow> gated w h (D a)"
  shows "gated w h (\<lambda>c. for_each (\<lambda>a. D a c) xs)"
  using assms
proof (induction xs)
  case Nil
  show ?case by (rule gated_cong [OF gated_skip]) simp
next
  case (Cons a xs)
  have "gated w h (\<lambda>c b. Option.bind (D a c b) (for_each (\<lambda>a. D a c) xs))"
    using Cons by (intro gated_bind) simp_all
  then show ?case by (rule gated_cong) simp
qed

text \<open>A pixel drawn when it is inside the clip.\<close>

lemma gated_dot:
  assumes "\<And>c b. clip_ok c \<Longrightarrow> fits w h b \<Longrightarrow> D (Some c) b = (if in_rect c (int x) (int y) then put (y * w + x) g b else Some b)"
    and "x < w" "y < h"
  shows "gated w h D"
proof (rule gatedI)
  fix c assume c: "clip_ok c"
  show "paints w h (D (Some c)) (gate c (dot x y g))"
  proof (cases "in_rect c (int x) (int y)")
    case True
    then show ?thesis
      by (intro paints_cong [OF paints_put [OF assms(2,3), of g]]) (auto simp: assms(1) [OF c] gate_def dot_def)
  next
    case False
    then show ?thesis
      by (intro paints_cong [OF paints_skip]) (auto simp: assms(1) [OF c] gate_def dot_def)
  qed
qed

end
