(* ===== verification/Primitives.thy ===== *)
theory Primitives
  imports Painting
begin

unbundle bit_operations_syntax

text \<open>
  Every drawing primitive of the renderer is gated: under any clip rectangle of the screen it
  succeeds and draws what it would draw under a larger one, restricted to the clip. Coordinates
  of the primitives are assumed to be such that far corners are \<open>i32\<close> values; glyph bitmaps have
  the size their metrics say, as the font crate documents.
\<close>

definition screen_ok :: "nat \<Rightarrow> nat \<Rightarrow> bool" where
  "screen_ok w h \<longleftrightarrow> in_i32 (int w) \<and> in_i32 (int h)"

section \<open>Rectangles and images\<close>

text \<open>The loops over a rectangle visit its points on the screen, when it has no negative corner.\<close>

lemma raster_span_inside:
  assumes "fits w h b" "0 \<le> rx r" "0 \<le> ry r" "rect_ok r"
  obtains x0 y0 x1 y1 where "raster_span r b = (x0, y0, x1, y1)" "x1 \<le> w" "y1 \<le> h"
    "\<And>x y. x < w \<Longrightarrow> y < h \<Longrightarrow> x0 \<le> x \<and> x < x1 \<and> y0 \<le> y \<and> y < y1 \<longleftrightarrow> in_rect r (int x) (int y)"
proof -
  let ?x0 = "min (nat (rx r)) w" and ?y0 = "min (nat (ry r)) h"
  let ?x1 = "min (?x0 + rwidth r) w" and ?y1 = "min (?y0 + rheight r) h"
  have a: "raster_span r b = (?x0, ?y0, ?x1, ?y1)"
    using assms by (simp add: raster_span_def fits_def rect_ok_def in_i32_def Let_def)
  have b: "?x0 \<le> x \<and> x < ?x1 \<and> ?y0 \<le> y \<and> y < ?y1 \<longleftrightarrow> in_rect r (int x) (int y)" if "x < w" "y < h" for x y
    using that assms(2,3) by (auto simp: in_rect_def min_def split: if_splits)
  show ?thesis by (rule that [OF a _ _ b]) simp_all
qed

text \<open>A primitive that treats every point of a clipped rectangle on its own.\<close>

lemma paints_rect:
  assumes r: "rect_ok r" and c: "clip_ok c"
    and body: "\<And>x y. x < w \<Longrightarrow> y < h \<Longrightarrow> paints w h (body x y) (dot x y (g x y))"
    and D: "\<And>b. fits w h b \<Longrightarrow> D (Some c) b =
      (if quit then Some b else case intersect_rect r c of None \<Rightarrow> Some b | Some r' \<Rightarrow> for_span body (raster_span r' b) b)"
  shows "paints w h (D (Some c)) (gate c (\<lambda>x y p. if in_rect r (int x) (int y) \<and> \<not> quit then g x y p else p))"
proof -
  let ?f = "\<lambda>x y p. if in_rect r (int x) (int y) \<and> \<not> quit then g x y p else p"
  show "paints w h (D (Some c)) (gate c ?f)"
  proof (cases "quit \<or> intersect_rect r c = None")
    case True
    then have "gate c ?f x y p = p" for x y p
      using c r intersect_rect_None [of r c] by (auto simp: gate_def clip_ok_def)
    with True show ?thesis by (intro paints_cong [OF paints_skip]) (auto simp: D)
  next
    case False
    then obtain r' where i: "intersect_rect r c = Some r'" by auto
    note s = intersect_rect_Some [OF r _ i]
    have ok: "rect_ok r'" "0 \<le> rx r'" "0 \<le> ry r'" using s c by (auto simp: clip_ok_def)
    show ?thesis
    proof (rule paintsI)
      fix b assume b: "fits w h b"
      obtain x0 y0 x1 y1 where sp: "raster_span r' b = (x0, y0, x1, y1)" "x1 \<le> w" "y1 \<le> h"
        "\<And>x y. x < w \<Longrightarrow> y < h \<Longrightarrow> x0 \<le> x \<and> x < x1 \<and> y0 \<le> y \<and> y < y1 \<longleftrightarrow> in_rect r' (int x) (int y)"
        using raster_span_inside [OF b ok(2,3,1)] by blast
      have "paints w h (for_span body (x0, y0, x1, y1)) (gate c ?f)"
        by (rule paints_cong [OF paints_span [OF body sp(2,3)]])
          (use sp(4) s(2) c False in \<open>auto simp: gate_def clip_ok_def\<close>)
      from this b show "\<exists>b'. D (Some c) b = Some b' \<and> fits w h b' \<and> (\<forall>x < w. \<forall>y < h. px b' x y = gate c ?f x y (px b x y))"
        using False i sp(1) by (simp add: D [OF b] paints_def)
    qed
  qed
qed

lemma gated_rect:
  assumes "rect_ok r" and "\<And>x y. x < w \<Longrightarrow> y < h \<Longrightarrow> paints w h (body x y) (dot x y (g x y))"
    and "\<And>c b. fits w h b \<Longrightarrow> D (Some c) b =
      (if quit then Some b else case intersect_rect r c of None \<Rightarrow> Some b | Some r' \<Rightarrow> for_span body (raster_span r' b) b)"
  shows "gated w h D"
  using assms by (intro gatedI [OF paints_rect])

text \<open>Filling a rectangle under itself as clip, as a partial redraw clears.\<close>

lemma paints_fill_self:
  assumes "clip_ok r"
  shows "paints w h (raster_fill_rect r color (Some r))
    (gate r (\<lambda>x y bg. if ca color = 0xFF then to_u32 color else blend (to_u32 color) bg))"
proof (rule paints_cong [OF paints_rect [where r = r and D = "raster_fill_rect r color" and quit = "rwidth r = 0 \<or> rheight r = 0 \<or> w = 0"
        and body = "\<lambda>x y. put (y * w + x) (\<lambda>bg. if ca color = 0xFF then to_u32 color else blend (to_u32 color) bg)"]])
qed (use assms in \<open>auto intro: paints_put simp: raster_fill_rect_def apply_clip_def fits_def clip_ok_def gate_def in_rect_def\<close>)

lemma gated_fill_rect: "rect_ok r \<Longrightarrow> gated w h (raster_fill_rect r color)"
  by (rule gated_rect [where quit = "rwidth r = 0 \<or> rheight r = 0 \<or> w = 0"
        and body = "\<lambda>x y. put (y * w + x) (\<lambda>bg. if ca color = 0xFF then to_u32 color else blend (to_u32 color) bg)"])
    (auto intro: paints_put simp: raster_fill_rect_def apply_clip_def fits_def)

lemma gated_hatch_rect: "rect_ok r \<Longrightarrow> gated w h (raster_hatch_rect r color spacing)"
proof (rule gated_rect [where quit = "rwidth r = 0 \<or> rheight r = 0 \<or> w = 0 \<or> spacing \<le> 0"
        and body = "\<lambda>x y b. if i32 (i32 (int x) + i32 (int y)) mod spacing = 0 then put (y * w + x) (\<lambda>_. to_u32 color) b else Some b"
        and g = "\<lambda>x y p. if i32 (i32 (int x) + i32 (int y)) mod spacing = 0 then to_u32 color else p"])
  fix x y assume xy: "x < w" "y < h"
  show "paints w h (\<lambda>b. if i32 (i32 (int x) + i32 (int y)) mod spacing = 0 then put (y * w + x) (\<lambda>_. to_u32 color) b else Some b)
      (dot x y (\<lambda>p. if i32 (i32 (int x) + i32 (int y)) mod spacing = 0 then to_u32 color else p))"
  proof (cases "i32 (i32 (int x) + i32 (int y)) mod spacing = 0")
    case True
    then show ?thesis using paints_put [OF xy] by simp
  next
    case False
    then show ?thesis by (intro paints_cong [OF paints_skip]) (auto simp: dot_def)
  qed
qed (auto simp: raster_hatch_rect_def apply_clip_def fits_def)

lemma gated_blit_image:
  assumes "rect_ok r" "bitmap_ok bm"
  shows "gated w h (raster_blit_image r bm repeats off)"
proof -
  let ?sx = "\<lambda>x. as_usize (i32 (i32 (i32 (int x) - rx r) + fst off))" and ?sy = "\<lambda>y. as_usize (i32 (i32 (i32 (int y) - ry r) + snd off))"
  let ?col = "\<lambda>x y. image_color bm repeats (?sx x) (?sy y)"
  let ?body = "\<lambda>x y b. case ?col x y of None \<Rightarrow> None | Some None \<Rightarrow> Some b | Some (Some c) \<Rightarrow> put (y * w + x) (over c) b"
  let ?g = "\<lambda>x y p. case ?col x y of Some (Some c) \<Rightarrow> over c p | _ \<Rightarrow> p"
  have some: "?col x y \<noteq> None" for x y
    using assms(2) bitmap_sample_ok [OF assms(2), of "?sx x" "?sy y"] by (auto simp: image_color_def bitmap_pixel_ok)
  have "paints w h (?body x y) (dot x y (?g x y))" if "x < w" "y < h" for x y
  proof (cases "?col x y")
    case None
    with some [of x y] show ?thesis by simp
  next
    case (Some oc)
    then show ?thesis
      using paints_put [OF that] by (cases oc) (auto intro!: paints_cong [OF paints_skip] simp: dot_def)
  qed
  then show ?thesis
    by (rule gated_rect [OF assms(1), where quit = "rwidth r = 0 \<or> rheight r = 0 \<or> w = 0"])
      (auto simp: raster_blit_image_def apply_clip_def fits_def Let_def cong: option.case_cong)
qed

section \<open>Glyphs\<close>

lemma for_each_skip: "(\<And>a. a \<in> set xs \<Longrightarrow> f a b = Some b) \<Longrightarrow> for_each f xs b = Some b"
  by (induction xs) auto

lemma for_each_cong_inv:
  assumes "I b" "\<And>a b. a \<in> set xs \<Longrightarrow> I b \<Longrightarrow> f a b = g a b" "\<And>a b b'. I b \<Longrightarrow> f a b = Some b' \<Longrightarrow> I b'"
  shows "for_each f xs b = for_each g xs b"
  using assms(1,2)
proof (induction xs arbitrary: b)
  case (Cons a xs)
  then show ?case using assms(3) [of b a] by (cases "f a b") auto
qed simp

lemma for_each_inv:
  assumes "I b" "\<And>a b b'. I b \<Longrightarrow> f a b = Some b' \<Longrightarrow> I b'" "for_each f xs b = Some b'"
  shows "I b'"
  using assms(1,3)
proof (induction xs arbitrary: b)
  case (Cons a xs)
  then show ?case using assms(2) [of b a] by (cases "f a b") auto
qed simp

lemma i32_above: "- 2147483648 \<le> z \<Longrightarrow> z < 4294967296 \<Longrightarrow> i32 z = (if z < 2147483648 then z else z - 4294967296)"
proof -
  assume z: "- 2147483648 \<le> z" "z < 4294967296"
  show ?thesis
  proof (cases "z < 2147483648")
    case False
    have "(z + 2147483648) mod 4294967296 = (z - 2147483648 + 4294967296) mod 4294967296" by (simp add: add.commute)
    also have "\<dots> = (z - 2147483648) mod 4294967296" by (rule mod_add_self2)
    also have "\<dots> = z - 2147483648" using z False by simp
    finally show ?thesis using False by (simp add: i32_def)
  qed (use z in \<open>simp add: i32_def\<close>)
qed

text \<open>
  A cell of a glyph with all its tests: the loop over the rows leaves early once it is below the
  screen or the clip, which makes no difference, since no later row is visible either.
\<close>

definition row_visible :: "rect option \<Rightarrow> int \<Rightarrow> renderer \<Rightarrow> bool" where
  "row_visible clip dst_y b \<longleftrightarrow> 0 \<le> dst_y \<and> dst_y < i32 (int (b_height b)) \<and>
     (case clip of Some c \<Rightarrow> ry c \<le> dst_y \<and> dst_y < rect_bottom c | None \<Rightarrow> True)"

definition glyph_step :: "int \<Rightarrow> int \<Rightarrow> u8 list \<Rightarrow> int \<Rightarrow> u32 \<Rightarrow> nat \<Rightarrow> nat \<Rightarrow> rect option \<Rightarrow> renderer \<Rightarrow> renderer option" where
  "glyph_step x y bits width color row col clip b =
     (if row_visible clip (i32 (y + int row)) b then glyph_cell x (i32 (y + int row)) bits width color clip (int row) (int col) b else Some b)"

lemma glyph_cell_height: "glyph_cell x dst_y bits width color clip row col b = Some b' \<Longrightarrow> b_height b' = b_height b"
  by (auto simp: glyph_cell_def put_def Let_def split: if_splits)

lemma later_row_hidden:
  assumes "in_i32 y" "row \<le> row'" "row' < 2147483648" "0 \<le> i32 (y + int row)" "bound \<le> i32 (y + int row)"
  shows "i32 (y + int row') < 0 \<or> bound \<le> i32 (y + int row')"
  using assms i32_above [of "y + int row"] i32_above [of "y + int row'"] by (auto simp: in_i32_def split: if_splits)

lemma glyph_rows_steps:
  assumes "in_i32 y" "n < 2147483648"
  shows "glyph_rows x y bits width color clip [k..<n] b =
    for_each (\<lambda>row. for_each (\<lambda>col. glyph_step x y bits width color row col clip) [0..<nat width]) [k..<n] b"
proof (induction "n - k" arbitrary: k b)
  case (Suc m)
  let ?step = "\<lambda>row. for_each (\<lambda>col. glyph_step x y bits width color row col clip) [0..<nat width]"
  let ?y = "i32 (y + int k)"
  have k: "k < n" using Suc.hyps(2) by simp
  then have u: "[k..<n] = k # [Suc k..<n]" by (simp add: upt_rec)
  have IH: "glyph_rows x y bits width color clip [Suc k..<n] b1 = for_each ?step [Suc k..<n] b1" for b1
    using Suc.hyps(1) [of "Suc k"] Suc.hyps(2) by simp
  have hidden: "?step row b1 = Some b1" if "\<not> row_visible clip (i32 (y + int row)) b1" for row b1
    using that by (intro for_each_skip) (simp add: glyph_step_def)
  show ?case
  proof (cases "row_visible clip ?y b")
    case True
    have "for_each (\<lambda>col. glyph_cell x ?y bits width color clip (int k) (int col)) [0..<nat width] b = ?step k b"
      by (rule for_each_cong_inv [where I = "\<lambda>b'. b_height b' = b_height b"])
        (use True in \<open>auto simp: glyph_step_def row_visible_def dest: glyph_cell_height\<close>)
    then show ?thesis
      using True IH by (auto simp: u Let_def row_visible_def split: option.splits intro!: arg_cong2 [where f = Option.bind])
  next
    case False
    show ?thesis
    proof (cases "?y < 0 \<or> (?y < i32 (int (b_height b)) \<and> (case clip of Some c \<Rightarrow> ?y < ry c | None \<Rightarrow> False))")
      case True
      then show ?thesis using IH hidden [OF False] by (auto simp: u Let_def split: option.splits)
    next
      case gone: False
      have "\<not> row_visible clip (i32 (y + int row)) b" if "row \<in> set [k..<n]" for row
        using later_row_hidden [OF assms(1), of k row "i32 (int (b_height b))"] later_row_hidden [OF assms(1), of k row "rect_bottom (the clip)"]
          that gone False assms(2) by (auto simp: row_visible_def not_less not_le split: option.splits)
      then have "for_each ?step [k..<n] b = Some b" by (intro for_each_skip hidden)
      then show ?thesis using gone False by (auto simp: u Let_def row_visible_def split: option.splits)
    qed
  qed
qed simp


definition glyph_ok :: "glyph_metrics \<times> u8 list \<Rightarrow> bool" where
  "glyph_ok g \<longleftrightarrow> length (snd g) = g_width (fst g) * g_height (fst g) \<and> in_i32 (int (g_width (fst g))) \<and>
     in_i32 (int (g_height (fst g))) \<and> in_i32 (int (g_width (fst g) * g_height (fst g)))"

lemma zero_le_mult_nonneg: "0 \<le> int a * int b"
  by simp

lemma glyph_index:
  assumes "glyph_ok (m, bits)" "row < g_height m" "col < g_width m"
  shows "as_usize (i32 (i32 (int row * int (g_width m)) + int col)) = row * g_width m + col" "row * g_width m + col < length bits"
proof -
  have lt: "row * g_width m + col < g_width m * g_height m" using grid_index [OF assms(3,2)] .
  then show l: "row * g_width m + col < length bits" using assms(1) by (simp add: glyph_ok_def)
  have s: "int (g_width m * g_height m) < 2147483648" using assms(1) by (simp add: glyph_ok_def in_i32_def)
  have "int (row * g_width m + col) < 2147483648" using s lt by linarith
  then have "in_i32 (int row * int (g_width m))" "in_i32 (int row * int (g_width m) + int col)"
    using zero_le_mult_nonneg [of row "g_width m"] unfolding in_i32_def of_nat_add of_nat_mult by linarith+
  moreover have "as_usize (int row * int (g_width m) + int col) = row * g_width m + col"
    using \<open>int (row * g_width m + col) < 2147483648\<close> by (simp add: nat_add_distrib nat_mult_distrib)
  ultimately show "as_usize (i32 (i32 (int row * int (g_width m)) + int col)) = row * g_width m + col" by simp
qed

lemma gated_glyph_step:
  assumes sc: "screen_ok w h" and g: "glyph_ok (m, bits)" "row < g_height m" "col < g_width m"
  shows "gated w h (glyph_step x y bits (int (g_width m)) color row col)"
proof -
  let ?x = "i32 (x + int col)" and ?y = "i32 (y + int row)" and ?i = "row * g_width m + col"
  note ix = glyph_index [OF g]
  have D: "glyph_step x y bits (int (g_width m)) color row col (Some c) b =
      (if 0 \<le> ?y \<and> ?y < int h \<and> 0 \<le> ?x \<and> ?x < int w \<and> in_rect c ?x ?y \<and> bits ! ?i \<noteq> 0
       then put (as_usize ?y * w + as_usize ?x) (glyph_over color (bits ! ?i)) b else Some b)"
    if "clip_ok c" "fits w h b" for c b
    using that sc ix
    by (auto simp: glyph_step_def row_visible_def glyph_cell_def outside_columns_def clip_ok_def in_rect_def fits_def screen_ok_def Let_def)
  show ?thesis
  proof (cases "0 \<le> ?y \<and> ?y < int h \<and> 0 \<le> ?x \<and> ?x < int w \<and> bits ! ?i \<noteq> 0")
    case True
    then have "as_usize ?x = nat ?x" "as_usize ?y = nat ?y" "nat ?x < w" "nat ?y < h"
      using i32_in [of "x + int col"] i32_in [of "y + int row"] by (auto simp: in_i32_def)
    then show ?thesis using True
      by (intro gated_dot [where x = "nat ?x" and y = "nat ?y" and g = "glyph_over color (bits ! ?i)"]) (auto simp: D)
  next
    case False
    then show ?thesis by (intro gated_cong [OF gated_skip]) (auto simp: D)
  qed
qed

lemma gated_glyph_draw:
  assumes "screen_ok w h" "glyph_ok (m, bits)" "in_i32 y"
  shows "gated w h (glyph_draw x y m bits color)"
proof -
  have g: "in_i32 (int (g_width m))" "in_i32 (int (g_height m))" using assms(2) by (auto simp: glyph_ok_def)
  have "gated w h (\<lambda>c. for_each (\<lambda>row. for_each (\<lambda>col. glyph_step x y bits (int (g_width m)) color row col c) [0..<g_width m]) [0..<g_height m])"
    by (intro gated_for gated_glyph_step assms) auto
  then show ?thesis
  proof (rule gated_cong)
    fix c b assume "clip_ok c" "fits w h b"
    let ?D = "for_each (\<lambda>row. for_each (\<lambda>col. glyph_step x y bits (int (g_width m)) color row col (Some c)) [0..<g_width m]) [0..<g_height m] b"
    have "?D = Some b" if "w = 0 \<or> h = 0 \<or> g_width m = 0 \<or> g_height m = 0"
      using that \<open>fits w h b\<close>
      by (auto intro!: for_each_skip simp: glyph_step_def row_visible_def glyph_cell_def fits_def Let_def in_i32_def)
    then show "glyph_draw x y m bits color (Some c) b = ?D"
      using glyph_rows_steps [OF assms(3), of "g_height m" x bits "int (g_width m)" color "Some c" 0 b] g \<open>fits w h b\<close>
      by (auto simp: glyph_draw_def raster_draw_glyph_def fits_def in_i32_def)
  qed
qed

section \<open>Text\<close>

definition font_ok :: "font_manager \<Rightarrow> bool" where
  "font_ok fm \<longleftrightarrow> (\<forall>c is_mono. glyph_ok (text_glyph fm is_mono c))"

lemma font_glyph: "font_ok fm \<Longrightarrow> text_glyph fm is_mono c = (m, bits) \<Longrightarrow> glyph_ok (m, bits)"
  by (metis font_ok_def)

lemma gated_if: "gated w h D \<Longrightarrow> gated w h E \<Longrightarrow> gated w h (\<lambda>c b. if P then D c b else E c b)"
  by (cases P) simp_all

lemma gated_text_loop:
  assumes "screen_ok w h" "font_ok fm"
  shows "gated w h (\<lambda>clip. text_loop fm is_mono color clip ox limit cx bl ts)"
proof (induction ts arbitrary: cx bl)
  case Nil
  show ?case by (rule gated_cong [OF gated_skip]) simp
next
  case (Cons c cs)
  obtain m bits where g: "text_glyph fm is_mono c = (m, bits)" by fastforce
  note gd = gated_glyph_draw [OF assms(1) font_glyph [OF assms(2) g]]
  have "gated w h (\<lambda>clip b. if c = 10
        then text_loop fm is_mono color clip ox limit (f32_of_int ox) (f32_add bl (l_new_line_size (text_metrics fm is_mono))) cs b
        else if (case limit of Some l \<Rightarrow> f32_less l (f32_add cx (g_advance_width m)) | None \<Rightarrow> False) then Some b
        else Option.bind (glyph_draw (f32_as_i32 (f32_add cx (f32_of_int (g_xmin m)))) (f32_as_i32 (f32_sub bl (glyph_top m))) m bits color clip b)
               (text_loop fm is_mono color clip ox limit (f32_add cx (g_advance_width m)) bl cs))"
    by (intro gated_if gated_bind gated_skip Cons.IH gd f32_as_i32_in)
  then show ?case by (rule gated_cong) (simp add: g Let_def)
qed

lemma gated_draw_text:
  assumes "screen_ok w h" "font_ok fm"
  shows "gated w h (\<lambda>clip. raster_draw_text fm origin ts color max_width clip is_mono)"
proof -
  have "gated w h (\<lambda>clip b. if w = 0 then Some b else text_loop fm is_mono (to_u32 color) clip (fst origin)
      (map_option (\<lambda>w. f32_add (f32_of_int (fst origin)) (f32_of_int (int w))) max_width)
      (f32_of_int (fst origin)) (f32_add (f32_of_int (snd origin)) (l_ascent (text_metrics fm is_mono))) ts b)"
    by (intro gated_if gated_skip gated_text_loop assms)
  then show ?thesis by (rule gated_cong) (simp add: raster_draw_text_def fits_def)
qed

text \<open>A block of text is drawn under the clip cut down to the block.\<close>

lemma gated_within:
  assumes "gated w h D" "rect_ok r"
  shows "gated w h (\<lambda>clip b. case apply_clip r clip of None \<Rightarrow> Some b | Some c' \<Rightarrow> D (Some c') b)"
proof -
  obtain f where f: "\<And>c. clip_ok c \<Longrightarrow> paints w h (D (Some c)) (gate c f)" using assms(1) unfolding gated_def by blast
  show ?thesis
  proof (rule gatedI)
    fix c assume c: "clip_ok c"
    show "paints w h (\<lambda>b. case apply_clip r (Some c) of None \<Rightarrow> Some b | Some c' \<Rightarrow> D (Some c') b) (gate c (gate r f))"
    proof (cases "intersect_rect r c")
      case None
      then show ?thesis
        using intersect_rect_None [of r c] assms(2) c
        by (intro paints_cong [OF paints_skip]) (auto simp: apply_clip_def gate_def clip_ok_def)
    next
      case (Some r')
      note s = intersect_rect_Some [OF assms(2) _ Some]
      have "clip_ok r'" using s c by (auto simp: clip_ok_def)
      from f [OF this] show ?thesis
        by (rule paints_cong) (use Some s(2) c in \<open>auto simp: apply_clip_def gate_def clip_ok_def\<close>)
    qed
  qed
qed

lemma gated_block_loop:
  assumes "screen_ok w h" "font_ok fm"
  shows "gated w h (\<lambda>clip b. case clip of Some c' \<Rightarrow> block_loop fm is_mono color r c' so cx cy ts b | None \<Rightarrow> Some b)"
proof (induction ts arbitrary: cx cy)
  case Nil
  show ?case by (rule gated_cong [OF gated_skip]) simp
next
  case (Cons c cs)
  obtain m bits where g: "text_glyph fm is_mono c = (m, bits)" by fastforce
  note gd = gated_glyph_draw [OF assms(1) font_glyph [OF assms(2) g]]
  let ?lm = "text_metrics fm is_mono"
  let ?w = "f32_less (f32_of_int (i32 (int (rwidth r)))) (f32_add cx (g_advance_width m))"
  let ?x = "if ?w then FFin 0 else cx" and ?y = "if ?w then f32_add cy (l_new_line_size ?lm) else cy"
  let ?dy = "f32_as_i32 (f32_sub (f32_sub (f32_add (f32_add (f32_of_int (ry r)) ?y) (l_ascent ?lm)) (f32_of_int so)) (glyph_top m))"
  let ?dx = "i32 (rx r + f32_as_i32 (f32_add ?x (f32_of_int (g_xmin m))))"
  let ?rest = "\<lambda>clip cx cy b. case clip of Some c' \<Rightarrow> block_loop fm is_mono color r c' so cx cy cs b | None \<Rightarrow> Some b"
  let ?ny = "f32_add cy (l_new_line_size ?lm)"
  have "gated w h (\<lambda>clip b. if c = 10
        then if rect_bottom r \<le> i32 (i32 (ry r + f32_as_i32 ?ny) - so) then Some b else ?rest clip (FFin 0) ?ny b
        else if rect_bottom r \<le> ?dy then Some b
        else Option.bind (if ry r < i32 (?dy + i32 (int (g_height m))) \<and> ?dy < rect_bottom r then glyph_draw ?dx ?dy m bits color clip b else Some b)
               (?rest clip (f32_add ?x (g_advance_width m)) ?y))"
    by (intro gated_if gated_bind gated_skip Cons.IH gd f32_as_i32_in)
  then show ?case by (rule gated_cong) (simp add: g Let_def)
qed

lemma gated_draw_text_block:
  assumes "screen_ok w h" "font_ok fm" "rect_ok r"
  shows "gated w h (\<lambda>clip. raster_draw_text_block fm r ts color so clip is_mono)"
proof -
  have "gated w h (\<lambda>clip b. if w = 0 \<or> rwidth r = 0 \<or> rheight r = 0 then Some b
      else case apply_clip r clip of None \<Rightarrow> Some b
           | Some c' \<Rightarrow> (case Some c' of Some c' \<Rightarrow> block_loop fm is_mono (to_u32 color) r c' so (FFin 0) (FFin 0) ts b | None \<Rightarrow> Some b))"
    by (intro gated_if gated_skip gated_within gated_block_loop assms)
  then show ?thesis by (rule gated_cong) (simp add: raster_draw_text_block_def fits_def split: option.splits)
qed


section \<open>The cursor\<close>

lemma put_fits: "fits w h b \<Longrightarrow> put i g b = Some b' \<Longrightarrow> fits w h b'"
  by (auto simp: put_def fits_def split: if_splits)

lemma for_each_map: "for_each f (map k xs) b = for_each (\<lambda>a. f (k a)) xs b"
proof (induction xs arbitrary: b)
  case (Cons a xs)
  then show ?case by (cases "f (k a) b") simp_all
qed simp

lemma map_int_upt: "map int [m..<n] = [int m..int n - 1]"
proof (induction n)
  case (Suc n)
  then show ?case by (cases "m \<le> n") (auto simp: upto_rec2 [of "int m" "int n"])
qed simp

lemma cursor_row_puts:
  assumes "fits w h b" "src_end = src + n" "src_end \<le> length (bm_pixels sprite)" "y < h" "x0 + n \<le> w"
  shows "cursor_row sprite src src_end (y * w + x0) n b =
    for_each (\<lambda>xx. put (y * w + xx) (cursor_over (bm_pixels sprite ! (src + (xx - x0))))) [x0..<x0 + n] b"
proof -
  have "Suc y * w \<le> h * w" using assms(4) by (intro mult_le_mono1) simp
  then have "y * w + x0 + n \<le> length (b_storage b)" using assms(1,5) by (simp add: fits_def mult.commute)
  moreover have "[x0..<x0 + n] = map (\<lambda>i. x0 + i) [0..<n]" using map_add_upt [of x0 n] by (simp add: add.commute)
  ultimately show ?thesis using assms(2,3) by (simp add: cursor_row_def for_each_map add.assoc)
qed

lemma cursor_row_fits: "fits w h b \<Longrightarrow> cursor_row sprite src src_end dst n b = Some b' \<Longrightarrow> fits w h b'"
  by (auto simp: cursor_row_def split: if_splits elim: for_each_inv [where I = "fits w h", rotated 2] dest: put_fits)

definition sprite_ok :: "int \<times> int \<Rightarrow> bitmap \<Rightarrow> int \<times> int \<Rightarrow> bool" where
  "sprite_ok origin sprite hotspot \<longleftrightarrow> bitmap_ok sprite \<and>
     rect_ok (rect_new (fst origin - fst hotspot) (snd origin - snd hotspot) (bm_width sprite) (bm_height sprite))"

lemma sprite_row:
  assumes "bitmap_ok sprite" "y < int (bm_height sprite)" "0 \<le> y" "0 \<le> a" "a \<le> int (bm_width sprite)"
  shows "nat y * bm_width sprite + nat a \<le> length (bm_pixels sprite)"
proof -
  have "Suc (nat y) * bm_width sprite \<le> bm_height sprite * bm_width sprite" using assms(2,3) by (intro mult_le_mono1) auto
  then show ?thesis using assms by (simp add: bitmap_ok_def mult.commute)
qed

text \<open>On a clipped rectangle of the screen inside the sprite, the loop over the rows is a loop over points.\<close>

lemma cursor_rows_span:
  assumes b: "fits w h b" and ok: "bitmap_ok sprite"
    and x: "0 \<le> sx" "sx < ex" "ex \<le> int w" "left \<le> sx" "ex \<le> left + int (bm_width sprite)"
    and y: "0 \<le> sy" "sy < ey" "ey \<le> int h" "top_y \<le> sy" "ey \<le> top_y + int (bm_height sprite)"
    and i: "in_i32 left" "in_i32 (left + int (bm_width sprite))" "in_i32 top_y" "in_i32 (top_y + int (bm_height sprite))"
      "in_i32 (int (bm_width sprite))" "in_i32 (int (bm_height sprite))" "screen_ok w h"
  shows "for_each (\<lambda>y. let row = as_usize (i32 (y - top_y)) * bm_width sprite
      in cursor_row sprite (row + as_usize (i32 (sx - left))) (row + as_usize (i32 (ex - left)))
           (as_usize y * b_width b + as_usize sx) (as_usize (i32 (ex - sx)))) [sy..ey - 1] b =
    for_span (\<lambda>xx yy. put (yy * w + xx) (cursor_over (bm_pixels sprite !
      (nat (int yy - top_y) * bm_width sprite + nat (int xx - left))))) (nat sx, nat sy, nat ex, nat ey) b"
proof -
  let ?body = "\<lambda>xx yy. put (yy * w + xx) (cursor_over (bm_pixels sprite ! (nat (int yy - top_y) * bm_width sprite + nat (int xx - left))))"
  let ?row = "\<lambda>y. let row = as_usize (i32 (y - top_y)) * bm_width sprite
      in cursor_row sprite (row + as_usize (i32 (sx - left))) (row + as_usize (i32 (ex - left)))
           (as_usize y * b_width b + as_usize sx) (as_usize (i32 (ex - sx)))"
  have row: "?row (int yy) b1 = for_each (\<lambda>xx. ?body xx yy) [nat sx..<nat ex] b1" if "yy \<in> set [nat sy..<nat ey]" "fits w h b1" for yy b1
  proof -
    have yy: "sy \<le> int yy" "int yy < ey" using that(1) y by auto
    have eqs: "as_usize (i32 (int yy - top_y)) = nat (int yy - top_y)" "as_usize (i32 (sx - left)) = nat (sx - left)"
      "as_usize (i32 (ex - left)) = nat (ex - left)" "as_usize (int yy) = yy" "as_usize sx = nat sx" "as_usize (i32 (ex - sx)) = nat (ex - sx)"
      using x y yy i by (auto simp: in_i32_def screen_ok_def i32_id [unfolded in_i32_def])
    have n: "nat (ex - left) = nat (sx - left) + nat (ex - sx)" "nat sx + nat (ex - sx) = nat ex" "nat ex \<le> w" using x by auto
    have "cursor_row sprite (nat (int yy - top_y) * bm_width sprite + nat (sx - left)) (nat (int yy - top_y) * bm_width sprite + nat (ex - left))
        (yy * w + nat sx) (nat (ex - sx)) b1 =
      for_each (\<lambda>xx. put (yy * w + xx) (cursor_over (bm_pixels sprite ! (nat (int yy - top_y) * bm_width sprite + nat (sx - left) + (xx - nat sx)))))
        [nat sx..<nat sx + nat (ex - sx)] b1"
      using sprite_row [OF ok, of "int yy - top_y" "ex - left"] x y yy n
      by (intro cursor_row_puts [OF that(2)]) auto
    also have "\<dots> = for_each (\<lambda>xx. ?body xx yy) [nat sx..<nat ex] b1"
      unfolding n(2)
    proof (rule for_each_cong_inv [where I = "\<lambda>_. True"])
      fix a b2 assume "a \<in> set [nat sx..<nat ex]"
      then have "nat (sx - left) + (a - nat sx) = nat (int a - left)" using x by auto
      then show "put (yy * w + a) (cursor_over (bm_pixels sprite ! (nat (int yy - top_y) * bm_width sprite + nat (sx - left) + (a - nat sx)))) b2 = ?body a yy b2"
        by (simp add: add.assoc)
    qed simp_all
    finally show ?thesis using b that(2) by (simp add: eqs Let_def fits_def)
  qed
  have "[sy..ey - 1] = map int [nat sy..<nat ey]" using y(1,2) by (simp add: map_int_upt)
  then have "for_each ?row [sy..ey - 1] b = for_each (\<lambda>yy. ?row (int yy)) [nat sy..<nat ey] b" by (simp only: for_each_map)
  also have "\<dots> = for_each (\<lambda>yy. for_each (\<lambda>xx. ?body xx yy) [nat sx..<nat ex]) [nat sy..<nat ey] b"
  proof (rule for_each_cong_inv [where I = "fits w h", OF b row])
    fix yy b1 b2 assume b1: "fits w h b1" and r: "?row (int yy) b1 = Some b2"
    show "fits w h b2"
      using cursor_row_fits [OF b1] r by (simp add: Let_def)
  qed
  finally show ?thesis by (simp add: for_span_def)
qed


lemma clamped_interval:
  assumes "x < w" "0 \<le> c0"
  shows "nat (max (clamp_i32 l 0 (int w)) c0) \<le> x \<and> x < nat (min (clamp_i32 (l + int n) 0 (int w)) c1) \<longleftrightarrow>
    (l \<le> int x \<and> int x < l + int n) \<and> c0 \<le> int x \<and> int x < c1"
proof -
  have "nat (max (clamp_i32 l 0 (int w)) c0) \<le> x \<longleftrightarrow> l \<le> int x \<and> c0 \<le> int x"
    using assms by (auto simp: clamp_i32_def nat_le_iff)
  moreover have "x < nat (min (clamp_i32 (l + int n) 0 (int w)) c1) \<longleftrightarrow> int x < l + int n \<and> int x < c1"
    using assms by (auto simp: clamp_i32_def zless_nat_eq_int_zless)
  ultimately show ?thesis by blast
qed

lemma clamped_bounds:
  assumes "max (clamp_i32 l 0 (int w)) c0 < min (clamp_i32 (l + int n) 0 (int w)) c1" "0 \<le> c0"
  shows "0 \<le> max (clamp_i32 l 0 (int w)) c0" "min (clamp_i32 (l + int n) 0 (int w)) c1 \<le> int w"
    "l \<le> max (clamp_i32 l 0 (int w)) c0" "min (clamp_i32 (l + int n) 0 (int w)) c1 \<le> l + int n"
  using assms by (auto simp: clamp_i32_def split: if_splits)

lemma gated_draw_cursor:
  assumes sc: "screen_ok w h" and ok: "sprite_ok origin sprite hotspot"
  shows "gated w h (raster_draw_cursor origin sprite hotspot)"
proof -
  let ?l = "fst origin - fst hotspot" and ?t = "snd origin - snd hotspot"
  let ?r = "rect_new ?l ?t (bm_width sprite) (bm_height sprite)"
  let ?g = "\<lambda>x y. cursor_over (bm_pixels sprite ! (nat (int y - ?t) * bm_width sprite + nat (int x - ?l)))"
  let ?f = "\<lambda>x y p. if in_rect ?r (int x) (int y) then ?g x y p else p"
  have bm: "bitmap_ok sprite" and i: "in_i32 ?l" "in_i32 (?l + int (bm_width sprite))" "in_i32 ?t" "in_i32 (?t + int (bm_height sprite))"
    "in_i32 (int (bm_width sprite))" "in_i32 (int (bm_height sprite))"
    using ok by (auto simp: sprite_ok_def rect_ok_def rect_new_def)
  show ?thesis
  proof (rule gatedI [where f = ?f], rule paintsI)
    fix c b assume c: "clip_ok c" and b: "fits w h b"
    let ?sx = "max (clamp_i32 ?l 0 (int w)) (rx c)" and ?sy = "max (clamp_i32 ?t 0 (int h)) (ry c)"
    let ?ex = "min (clamp_i32 (?l + int (bm_width sprite)) 0 (int w)) (rx c + int (rwidth c))"
    let ?ey = "min (clamp_i32 (?t + int (bm_height sprite)) 0 (int h)) (ry c + int (rheight c))"
    have reg: "nat ?sx \<le> x \<and> x < nat ?ex \<and> nat ?sy \<le> y \<and> y < nat ?ey \<longleftrightarrow> in_rect ?r (int x) (int y) \<and> in_rect c (int x) (int y)"
      if "x < w" "y < h" for x y
      using clamped_interval [OF that(1), of "rx c" ?l "bm_width sprite"] clamped_interval [OF that(2), of "ry c" ?t "bm_height sprite"] c
      by (simp add: in_rect_def rect_new_def clip_ok_def) blast
    have p: "paints w h (for_span (\<lambda>xx yy. put (yy * w + xx) (?g xx yy)) (nat ?sx, nat ?sy, nat ?ex, nat ?ey)) (gate c ?f)"
      by (rule paints_cong [OF paints_span [OF paints_put]]) (use reg in \<open>auto simp: gate_def clamp_i32_def\<close>)
    have e: "for_span body (nat ?sx, nat ?sy, nat ?ex, nat ?ey) b = Some b" if "?ex \<le> ?sx \<or> ?ey \<le> ?sy" for body
      using that by (auto simp: for_span_def intro!: for_each_skip)
    have s: "for_span body (nat ?sx, nat ?sy, nat ?ex, nat ?ey) b = Some b" if "w = 0 \<or> bm_width sprite = 0 \<or> bm_height sprite = 0" for body
      using that by (intro e) (auto simp: clamp_i32_def)
    have "raster_draw_cursor origin sprite hotspot (Some c) b =
      for_span (\<lambda>xx yy. put (yy * w + xx) (?g xx yy)) (nat ?sx, nat ?sy, nat ?ex, nat ?ey) b"
    proof (cases "w = 0 \<or> bm_width sprite = 0 \<or> bm_height sprite = 0")
      case True
      then show ?thesis unfolding s [OF True] using b by (simp add: raster_draw_cursor_def fits_def)
    next
      case size: False
      have corner: "i32 ?l = ?l" "i32 ?t = ?t" "i32 (?l + i32 (int (bm_width sprite))) = ?l + int (bm_width sprite)"
        "i32 (?t + i32 (int (bm_height sprite))) = ?t + int (bm_height sprite)" "i32 (int (b_width b)) = int w" "i32 (int (b_height b)) = int h"
        "rect_right c = rx c + int (rwidth c)" "rect_bottom c = ry c + int (rheight c)"
        using i b c sc by (simp_all add: fits_def screen_ok_def clip_ok_def)
      have nz: "\<not> (b_width b = 0 \<or> bm_width sprite = 0 \<or> bm_height sprite = 0)" using size b by (simp add: fits_def)
      show ?thesis
      proof (cases "?ex \<le> ?sx \<or> ?ey \<le> ?sy")
        case True
        show ?thesis
          unfolding e [OF True] raster_draw_cursor_def Let_def corner option.case prod.case if_not_P [OF nz] if_P [OF True] ..
      next
        case False
        then have lt: "?sx < ?ex" "?sy < ?ey" unfolding de_Morgan_disj not_le by blast+
        have c0: "0 \<le> rx c" "0 \<le> ry c" using c by (simp_all add: clip_ok_def)
        note sp = cursor_rows_span [OF b bm clamped_bounds(1) [OF lt(1) c0(1)] lt(1) clamped_bounds(2-4) [OF lt(1) c0(1)]
            clamped_bounds(1) [OF lt(2) c0(2)] lt(2) clamped_bounds(2-4) [OF lt(2) c0(2)] i sc]
        show ?thesis
          unfolding raster_draw_cursor_def Let_def corner option.case prod.case if_not_P [OF nz] if_not_P [OF False] sp [unfolded Let_def] ..
      qed
    qed
    then show "\<exists>b'. raster_draw_cursor origin sprite hotspot (Some c) b = Some b' \<and> fits w h b' \<and> (\<forall>x < w. \<forall>y < h. px b' x y = gate c ?f x y (px b x y))"
      using p b by (simp add: paints_def)
  qed
qed


section \<open>Lines\<close>

lemma gated_line_plot:
  assumes "screen_ok w h" "in_i32 x" "in_i32 y"
  shows "gated w h (\<lambda>clip. line_plot color clip x y)"
proof -
  let ?g = "\<lambda>bg. if ca color = 0xFF then to_u32 color else blend (to_u32 color) bg"
  have D: "line_plot color (Some c) x y b =
      (if 0 \<le> x \<and> x < int w \<and> 0 \<le> y \<and> y < int h \<and> in_rect c x y then put (as_usize y * w + as_usize x) ?g b else Some b)"
    if "clip_ok c" "fits w h b" for c b
    using that assms(1) by (auto simp: line_plot_def clip_ok_def in_rect_def fits_def screen_ok_def)
  show ?thesis
  proof (cases "0 \<le> x \<and> x < int w \<and> 0 \<le> y \<and> y < int h")
    case True
    then have "as_usize x = nat x" "as_usize y = nat y" "nat x < w" "nat y < h" using assms(2,3) by (auto simp: in_i32_def)
    then show ?thesis using True by (intro gated_dot [where x = "nat x" and y = "nat y" and g = ?g]) (auto simp: D)
  next
    case False
    then show ?thesis by (intro gated_cong [OF gated_skip]) (auto simp: D)
  qed
qed

text \<open>
  The loop of the line after \<open>a\<close> steps in x and \<open>b\<close> steps in y, of \<open>dx\<close> and \<open>ey\<close> in all: the error term
  is \<open>dx * (1 + b) - ey * (1 + a)\<close>. When all steps in one direction are taken the error term forces
  the other one, and in every round at least one is taken; so both end together.
\<close>

lemma line_steps:
  fixes a b dx ey :: int
  assumes "0 \<le> a" "a \<le> dx" "0 \<le> b" "b \<le> ey" "a < dx \<or> b < ey" and e: "err = dx * (1 + b) - ey * (1 + a)"
  shows "- ey \<le> 2 * err \<Longrightarrow> a < dx" and "2 * err \<le> dx \<Longrightarrow> b < ey"
proof -
  assume x: "- ey \<le> 2 * err"
  show "a < dx"
  proof (rule ccontr)
    assume "\<not> a < dx"
    then have ab: "a = dx" "b < ey" using assms by auto
    have "dx * (1 + b - ey) \<le> 0" using ab assms by (intro mult_nonneg_nonpos) auto
    moreover have "err = dx * (1 + b - ey) - ey" using e ab by (simp add: algebra_simps)
    ultimately show False using x ab assms by linarith
  qed
next
  assume y: "2 * err \<le> dx"
  show "b < ey"
  proof (rule ccontr)
    assume "\<not> b < ey"
    then have ab: "b = ey" "a < dx" using assms by auto
    have "0 \<le> ey * (dx - 1 - a)" using ab assms by (intro mult_nonneg_nonneg) auto
    moreover have "err = ey * (dx - 1 - a) + dx" using e ab by (simp add: algebra_simps)
    ultimately show False using y ab assms by linarith
  qed
qed

definition line_ok :: "int \<times> int \<Rightarrow> int \<times> int \<Rightarrow> bool" where
  "line_ok start fin \<longleftrightarrow> list_all (\<lambda>z. - 268435456 \<le> z \<and> z < 268435456) [fst start, snd start, fst fin, snd fin]"

text \<open>One round without overflow.\<close>

lemma line_next_exact:
  assumes "0 \<le> dx" "dx < 536870912" "0 \<le> ey" "ey < 536870912" "- 2 * ey \<le> err" "err \<le> 2 * dx"
    "\<bar>x\<bar> < 1073741824" "\<bar>y\<bar> < 1073741824" "\<bar>sx\<bar> \<le> 1" "\<bar>sy\<bar> \<le> 1"
  shows "line_next dx (- ey) sx sy (x, y, err) =
    (x + (if - ey \<le> 2 * err then sx else 0), y + (if 2 * err \<le> dx then sy else 0),
     err - (if - ey \<le> 2 * err then ey else 0) + (if 2 * err \<le> dx then dx else 0))"
proof -
  have "in_i32 (2 * err)" "in_i32 (x + sx)" "in_i32 (y + sy)" "in_i32 (err - ey)" "in_i32 (err - ey + dx)" "in_i32 (err + dx)"
    using assms by (auto simp: in_i32_def)
  then show ?thesis by (simp add: line_next_def Let_def)
qed

lemma gated_line_loop:
  fixes a b dx ey :: int
  assumes sc: "screen_ok w h" and D: "0 \<le> dx" "dx < 536870912" "0 \<le> ey" "ey < 536870912"
    and s: "\<bar>sx\<bar> = 1" "\<bar>sy\<bar> = 1" and xy: "\<bar>x0\<bar> < 536870912" "\<bar>y0\<bar> < 536870912"
    and ab: "0 \<le> a" "a \<le> dx" "0 \<le> b" "b \<le> ey" and e: "- 2 * ey \<le> err" "err \<le> 2 * dx" "err = dx * (1 + b) - ey * (1 + a)"
  shows "gated w h (\<lambda>clip. line_loop color clip dx (- ey) sx sy (x0 + sx * dx, y0 + sy * ey) (x0 + sx * a, y0 + sy * b, err))"
  using ab e
proof (induction "nat (dx - a + (ey - b))" arbitrary: a b err rule: less_induct)
  case less
  let ?x = "x0 + sx * a" and ?y = "y0 + sy * b" and ?goal = "(x0 + sx * dx, y0 + sy * ey)"
  have bd: "\<bar>?x\<bar> < 1073741824" "\<bar>?y\<bar> < 1073741824"
    using s xy D less.prems by (auto simp: abs_if split: if_splits)
  have i: "in_i32 ?x" "in_i32 ?y" using bd by (auto simp: in_i32_def)
  have goal: "(?x, ?y) = ?goal \<longleftrightarrow> a = dx \<and> b = ey" using s by auto
  show ?case
  proof (cases "(?x, ?y) = ?goal")
    case True
    then show ?thesis
      by (intro gated_cong [OF gated_bind [OF gated_line_plot [OF sc i, of color] gated_skip]]) (subst line_loop.simps, simp)
  next
    case False
    define p where "p = (if - ey \<le> 2 * err then 1 else 0 :: int)"
    define q where "q = (if 2 * err \<le> dx then 1 else 0 :: int)"
    have pq: "p + q \<ge> 1" "0 \<le> p" "p \<le> 1" "0 \<le> q" "q \<le> 1" using D by (auto simp: p_def q_def)
    have st: "a < dx \<or> b < ey" using False goal less.prems by auto
    have up: "a + p \<le> dx" "b + q \<le> ey"
      using line_steps [OF less.prems(1-4) st less.prems(7)] less.prems(2,4) by (auto simp: p_def q_def)
    let ?err = "err - p * ey + q * dx"
    have nx: "line_next dx (- ey) sx sy (?x, ?y, err) = (x0 + sx * (a + p), y0 + sy * (b + q), ?err)"
      using line_next_exact [OF D less.prems(5,6) bd, of sx sy] s by (auto simp: p_def q_def algebra_simps)
    have "- 2 * ey \<le> ?err" "?err \<le> 2 * dx" using D less.prems(5,6) by (auto simp: p_def q_def)
    moreover have "?err = dx * (1 + (b + q)) - ey * (1 + (a + p))" using less.prems(7) by (simp add: algebra_simps)
    moreover have "nat (dx - (a + p) + (ey - (b + q))) < nat (dx - a + (ey - b))" using pq up by linarith
    ultimately have IH: "gated w h (\<lambda>clip. line_loop color clip dx (- ey) sx sy ?goal (x0 + sx * (a + p), y0 + sy * (b + q), ?err))"
      using less.hyps [of "a + p" "b + q" ?err] less.prems up pq by simp
    show ?thesis
      by (rule gated_cong [OF gated_bind [OF gated_line_plot [OF sc i, of color] IH]], subst line_loop.simps) (simp only: fst_conv snd_conv False nx if_False)
  qed
qed

lemma gated_draw_line:
  assumes "screen_ok w h" "line_ok start fin"
  shows "gated w h (raster_draw_line start fin color)"
proof -
  obtain x0 y0 x1 y1 where p: "start = (x0, y0)" "fin = (x1, y1)" by fastforce
  let ?dx = "\<bar>x1 - x0\<bar>" and ?ey = "\<bar>y1 - y0\<bar>" and ?sx = "if x0 < x1 then 1 else - 1 :: int" and ?sy = "if y0 < y1 then 1 else - 1 :: int"
  have b: "- 268435456 \<le> x0" "x0 < 268435456" "- 268435456 \<le> y0" "y0 < 268435456" "- 268435456 \<le> x1" "x1 < 268435456" "- 268435456 \<le> y1" "y1 < 268435456"
    using assms(2) by (auto simp: line_ok_def p)
  have "x0 + ?sx * ?dx = x1" "y0 + ?sy * ?ey = y1" by auto
  moreover have "gated w h (\<lambda>clip. line_loop color clip ?dx (- ?ey) ?sx ?sy (x0 + ?sx * ?dx, y0 + ?sy * ?ey) (x0 + ?sx * 0, y0 + ?sy * 0, ?dx - ?ey))"
    using b by (intro gated_line_loop assms(1)) auto
  ultimately have g: "gated w h (\<lambda>clip. line_loop color clip ?dx (- ?ey) ?sx ?sy (x1, y1) (x0, y0, ?dx - ?ey))" by simp
  have i: "in_i32 (x1 - x0)" "in_i32 (y1 - y0)" "in_i32 ?dx" "in_i32 ?ey" "in_i32 (- ?ey)" "in_i32 (?dx - ?ey)"
    using b by (auto simp: in_i32_def)
  have "gated w h (\<lambda>clip b. if w = 0 \<or> h = 0 then Some b else line_loop color clip ?dx (- ?ey) ?sx ?sy (x1, y1) (x0, y0, ?dx - ?ey) b)"
    by (intro gated_if gated_skip g)
  then show ?thesis by (rule gated_cong) (simp add: raster_draw_line_def p fits_def i Let_def)
qed

end
