(* ===== verification/Render.thy ===== *)
theory Render
  imports Primitives
begin

unbundle bit_operations_syntax

text \<open>
  Scenes (\<open>src/compositor/src/scene.rs\<close>), their rendering with the stack of clip rectangles, and the
  framebuffer device (\<open>src/compositor/src/framebuffer_backend.rs\<close>). The memory behind the device is a
  function from the number of a 32-bit cell, counted from its base address, to its contents.
\<close>

section \<open>Scenes\<close>

datatype scene_item =
    SClear rgba
  | FillRect rect rgba
  | HatchRect rect rgba int
  | BlitImage rect bitmap bool "int \<times> int"
  | DrawText "int \<times> int" "nat list" rgba "nat option" bool
  | DrawTextBlock rect "nat list" rgba int bool
  | DrawCursor "int \<times> int" bitmap "int \<times> int"
  | DrawLine "int \<times> int" "int \<times> int" rgba
  | ClipPush rect
  | ClipPop

record scene =
  scene_width :: nat
  scene_height :: nat
  scene_items :: "scene_item list"

definition scene_new :: "nat \<Rightarrow> nat \<Rightarrow> scene" where
  "scene_new w h = \<lparr>scene_width = w, scene_height = h, scene_items = []\<rparr>"

definition scene_push :: "scene_item \<Rightarrow> scene \<Rightarrow> scene" where
  "scene_push item s = s\<lparr>scene_items := scene_items s @ [item]\<rparr>"

datatype clear_mode = ClearFull | ClearClip rect

text \<open>The innermost clip is the head of the stack; the expression \<open>clip_stack.last().copied().flatten()\<close>.\<close>

definition current_clip :: "rect option list \<Rightarrow> rect option" where
  "current_clip st = (case st of [] \<Rightarrow> None | c # _ \<Rightarrow> c)"

fun render_item :: "font_manager \<Rightarrow> clear_mode \<Rightarrow> scene_item \<Rightarrow> rect option list \<times> renderer \<Rightarrow> (rect option list \<times> renderer) option" where
  "render_item fm mode (SClear color) (st, b) =
     (case mode of ClearFull \<Rightarrow> Some (st, renderer_clear color b)
      | ClearClip r \<Rightarrow> map_option (Pair st) (raster_fill_rect r color (Some r) b))"
| "render_item fm mode (FillRect r color) (st, b) = map_option (Pair st) (raster_fill_rect r color (current_clip st) b)"
| "render_item fm mode (HatchRect r color spacing) (st, b) = map_option (Pair st) (raster_hatch_rect r color spacing (current_clip st) b)"
| "render_item fm mode (BlitImage r img repeats off) (st, b) = map_option (Pair st) (raster_blit_image r img repeats off (current_clip st) b)"
| "render_item fm mode (DrawText origin chars color max_width is_mono) (st, b) =
     map_option (Pair st) (raster_draw_text fm origin chars color max_width (current_clip st) is_mono b)"
| "render_item fm mode (DrawTextBlock r chars color scroll is_mono) (st, b) =
     map_option (Pair st) (raster_draw_text_block fm r chars color scroll (current_clip st) is_mono b)"
| "render_item fm mode (DrawCursor origin sprite hotspot) (st, b) = map_option (Pair st) (raster_draw_cursor origin sprite hotspot (current_clip st) b)"
| "render_item fm mode (DrawLine start fin color) (st, b) = map_option (Pair st) (raster_draw_line start fin color (current_clip st) b)"
| "render_item fm mode (ClipPush r) (st, b) = Some (Option.bind (current_clip st) (\<lambda>base. intersect_rect base r) # st, b)"
| "render_item fm mode ClipPop (st, b) = Some (if 1 < length st then tl st else st, b)"

definition render_scene :: "font_manager \<Rightarrow> scene \<Rightarrow> rect \<Rightarrow> clear_mode \<Rightarrow> renderer \<Rightarrow> renderer option" where
  "render_scene fm s root_clip mode b = map_option snd (for_each (render_item fm mode) (scene_items s) ([Some root_clip], b))"

definition render :: "font_manager \<Rightarrow> scene \<Rightarrow> renderer \<Rightarrow> renderer option" where
  "render fm s b = render_scene fm s (rect_new 0 0 (b_width b) (b_height b)) ClearFull (renderer_clear CLEAR_COLOR b)"

definition render_partial :: "font_manager \<Rightarrow> scene \<Rightarrow> rect \<Rightarrow> renderer \<Rightarrow> renderer option" where
  "render_partial fm s dirty b = render_scene fm s dirty (ClearClip dirty) b"

section \<open>The framebuffer device\<close>

text \<open>The geometry of a framebuffer and its repair, with \<open>u32\<close> products.\<close>

record fb_geometry =
  geo_width :: nat
  geo_height :: nat
  geo_pitch :: nat
  geo_bpp :: nat

definition mul_u32 :: "nat \<Rightarrow> nat \<Rightarrow> nat" where
  "mul_u32 a b = (a * b) mod 4294967296"

definition sanitize_fb_info :: "fb_geometry \<Rightarrow> fb_geometry" where
  "sanitize_fb_info g =
     (let width = max 1 (min (geo_width g) 4096); height = max 1 (min (geo_height g) 4096);
          pitch = (if mul_u32 width 4 \<le> geo_pitch g \<and> geo_pitch g \<le> mul_u32 width 8 then geo_pitch g else mul_u32 width 4);
          pitch = (if pitch < width then width else pitch);
          bpp = (if geo_bpp g = 24 \<or> geo_bpp g = 32 then geo_bpp g else 32)
      in \<lparr>geo_width = width, geo_height = height, geo_pitch = pitch, geo_bpp = bpp\<rparr>)"

record fb_device =
  fd_width :: nat
  fd_height :: nat
  fd_pitch :: nat
  fd_addr :: nat

definition fb_device_new :: "nat \<Rightarrow> nat \<Rightarrow> nat \<Rightarrow> nat \<Rightarrow> fb_device" where
  "fb_device_new raw_width raw_height raw_pitch addr =
     (let g = sanitize_fb_info \<lparr>geo_width = raw_width mod 4294967296, geo_height = raw_height mod 4294967296,
                                geo_pitch = raw_pitch mod 4294967296, geo_bpp = 32\<rparr>
      in \<lparr>fd_width = geo_width g, fd_height = geo_height g, fd_pitch = geo_pitch g, fd_addr = addr\<rparr>)"

definition fb_device_resize :: "nat \<Rightarrow> nat \<Rightarrow> nat \<Rightarrow> nat \<Rightarrow> fb_device \<Rightarrow> fb_device" where
  "fb_device_resize w h p addr d = \<lparr>fd_width = w, fd_height = h, fd_pitch = p, fd_addr = addr\<rparr>"

type_synonym cells = "nat \<Rightarrow> u32"

text \<open>Copying a row of the frame into the memory of the device.\<close>

definition copy_row :: "nat \<Rightarrow> nat \<Rightarrow> nat \<Rightarrow> u32 list \<Rightarrow> cells \<Rightarrow> cells" where
  "copy_row src dst n frame m = (\<lambda>i. if dst \<le> i \<and> i < dst + n then frame ! (src + (i - dst)) else m i)"

text \<open>\<open>None\<close> is the division by a width of zero.\<close>

definition present :: "fb_device \<Rightarrow> u32 list \<Rightarrow> cells \<Rightarrow> cells option" where
  "present d frame m =
     (if fd_addr d = 0 \<or> fd_pitch d = 0 \<or> fd_height d = 0 then Some m
      else if fd_width d = 0 then None
      else let stride = fd_pitch d div 4; copy_width = min (fd_width d) stride; copy_height = min (fd_height d) (length frame div fd_width d)
           in Some (fold (\<lambda>y m. let src = y * fd_width d
                in if src + copy_width \<le> length frame then copy_row src (y * stride) copy_width frame m else m) [0..<copy_height] m))"

definition present_partial :: "fb_device \<Rightarrow> u32 list \<Rightarrow> rect \<Rightarrow> cells \<Rightarrow> cells" where
  "present_partial d frame dirty m =
     (if fd_addr d = 0 \<or> fd_pitch d = 0 \<or> fd_height d = 0 then m
      else let stride = fd_pitch d div 4
           in case intersect_rect dirty (rect_new 0 0 (fd_width d) (fd_height d)) of None \<Rightarrow> m
           | Some r \<Rightarrow> let x = as_usize (rx r); y = as_usize (ry r)
                in fold (\<lambda>row m. let curr_y = y + row; src = curr_y * fd_width d + x
                     in if src + rwidth r \<le> length frame then copy_row src (curr_y * stride + x) (rwidth r) frame m else m) [0..<rheight r] m)"

section \<open>Drawing under a smaller clip\<close>

text \<open>What an item draws under a clip, for the items that draw.\<close>

fun item_draw :: "font_manager \<Rightarrow> scene_item \<Rightarrow> (rect option \<Rightarrow> renderer \<Rightarrow> renderer option) option" where
  "item_draw fm (FillRect r color) = Some (raster_fill_rect r color)"
| "item_draw fm (HatchRect r color spacing) = Some (raster_hatch_rect r color spacing)"
| "item_draw fm (BlitImage r img repeats off) = Some (raster_blit_image r img repeats off)"
| "item_draw fm (DrawText origin chars color max_width is_mono) = Some (\<lambda>clip. raster_draw_text fm origin chars color max_width clip is_mono)"
| "item_draw fm (DrawTextBlock r chars color scroll is_mono) = Some (\<lambda>clip. raster_draw_text_block fm r chars color scroll clip is_mono)"
| "item_draw fm (DrawCursor origin sprite hotspot) = Some (raster_draw_cursor origin sprite hotspot)"
| "item_draw fm (DrawLine start fin color) = Some (raster_draw_line start fin color)"
| "item_draw fm _ = None"

text \<open>Items whose coordinates do not overflow and whose bitmaps have the size they claim; a clear is opaque.\<close>

fun item_ok :: "scene_item \<Rightarrow> bool" where
  "item_ok (SClear color) = (ca color = 0xFF)"
| "item_ok (FillRect r _) = rect_ok r"
| "item_ok (HatchRect r _ _) = rect_ok r"
| "item_ok (BlitImage r img _ _) = (rect_ok r \<and> bitmap_ok img)"
| "item_ok (DrawText _ _ _ _ _) = True"
| "item_ok (DrawTextBlock r _ _ _ _) = rect_ok r"
| "item_ok (DrawCursor origin sprite hotspot) = sprite_ok origin sprite hotspot"
| "item_ok (DrawLine start fin _) = line_ok start fin"
| "item_ok (ClipPush r) = rect_ok r"
| "item_ok ClipPop = True"

lemma gated_item:
  "screen_ok w h \<Longrightarrow> font_ok fm \<Longrightarrow> item_ok it \<Longrightarrow> item_draw fm it = Some D \<Longrightarrow> gated w h D"
  by (cases it) (auto intro: gated_fill_rect gated_hatch_rect gated_blit_image gated_draw_text gated_draw_text_block gated_draw_cursor gated_draw_line)

lemma render_item_draw:
  "item_draw fm it = Some D \<Longrightarrow> render_item fm mode it (st, b) = map_option (Pair st) (D (current_clip st) b)"
  by (cases it) auto

text \<open>A scene that never pushes a clip disjoint from the current one.\<close>

fun clips_meet :: "scene_item list \<Rightarrow> rect list \<Rightarrow> bool" where
  "clips_meet [] st = True"
| "clips_meet (ClipPush r # items) st = (case intersect_rect (hd st) r of None \<Rightarrow> False | Some c \<Rightarrow> clips_meet items (c # st))"
| "clips_meet (ClipPop # items) st = clips_meet items (if 1 < length st then tl st else st)"
| "clips_meet (_ # items) st = clips_meet items st"

definition clips_rel :: "nat \<Rightarrow> nat \<Rightarrow> rect \<Rightarrow> rect list \<Rightarrow> rect list \<Rightarrow> bool" where
  "clips_rel w h dirty S T \<longleftrightarrow> S \<noteq> [] \<and> list_all2 (\<lambda>s t. clip_ok s \<and> clip_ok t \<and>
     (\<forall>x < w. \<forall>y < h. in_rect t (int x) (int y) \<longleftrightarrow> in_rect s (int x) (int y) \<and> in_rect dirty (int x) (int y))) S T"

text \<open>A full redraw (\<open>a\<close>) and a partial one (\<open>b\<close>, begun on \<open>b0\<close>) on the way through the same scene.\<close>

definition in_step :: "nat \<Rightarrow> nat \<Rightarrow> rect \<Rightarrow> renderer \<Rightarrow> renderer \<Rightarrow> renderer \<Rightarrow> bool" where
  "in_step w h dirty b0 a b \<longleftrightarrow> fits w h a \<and> fits w h b \<and>
     (\<forall>x < w. \<forall>y < h. px b x y = (if in_rect dirty (int x) (int y) then px a x y else px b0 x y))"

lemma renderer_clear_paints: "fits w h b \<Longrightarrow> fits w h (renderer_clear c b) \<and> (\<forall>x < w. \<forall>y < h. px (renderer_clear c b) x y = to_u32 c)"
  by (auto simp: fits_def renderer_clear_def px_def grid_index)

lemma clips_rel_Cons:
  assumes "clips_rel w h dirty S T"
  obtains s S' t T' where "S = s # S'" "T = t # T'" "clip_ok s" "clip_ok t"
    "\<And>x y. x < w \<Longrightarrow> y < h \<Longrightarrow> in_rect t (int x) (int y) \<longleftrightarrow> in_rect s (int x) (int y) \<and> in_rect dirty (int x) (int y)"
  using assms by (cases S; cases T) (auto simp: clips_rel_def)

lemma clips_rel_pop: "clips_rel w h dirty S T \<Longrightarrow> clips_rel w h dirty (if 1 < length S then tl S else S) (if 1 < length T then tl T else T)"
  by (cases S; cases T) (auto simp: clips_rel_def dest: list_all2_lengthD)

lemma clips_rel_push:
  assumes rel: "clips_rel w h dirty S T" and r: "rect_ok r" and s: "intersect_rect (hd S) r = Some s" and t: "intersect_rect (hd T) r = Some t"
  shows "clips_rel w h dirty (s # S) (t # T)"
proof -
  obtain s0 S' t0 T' where c: "S = s0 # S'" "T = t0 # T'" "clip_ok s0" "clip_ok t0"
    "\<And>x y. x < w \<Longrightarrow> y < h \<Longrightarrow> in_rect t0 (int x) (int y) \<longleftrightarrow> in_rect s0 (int x) (int y) \<and> in_rect dirty (int x) (int y)"
    using clips_rel_Cons [OF rel] by blast
  have s': "intersect_rect s0 r = Some s" "intersect_rect t0 r = Some t" using s t c(1,2) by simp_all
  note si = intersect_rect_Some [OF _ r s'(1)] and ti = intersect_rect_Some [OF _ r s'(2)]
  have ok: "rect_ok s0" "rect_ok t0" using c(3,4) by (auto simp: clip_ok_def)
  have "clip_ok s" "clip_ok t" using si [OF ok(1)] ti [OF ok(2)] c(3,4) by (auto simp: clip_ok_def)
  then show ?thesis
    using rel si(2) [OF ok(1)] ti(2) [OF ok(2)] c(5) by (auto simp: clips_rel_def)
qed

lemma current_clip_Cons [simp]: "current_clip (c # st) = c"
  by (simp add: current_clip_def)

lemma step_draw:
  assumes "gated w h D" "in_step w h dirty b0 a b" "clip_ok s" "clip_ok t"
    "\<And>x y. x < w \<Longrightarrow> y < h \<Longrightarrow> in_rect t (int x) (int y) \<longleftrightarrow> in_rect s (int x) (int y) \<and> in_rect dirty (int x) (int y)"
  shows "\<exists>a' b'. D (Some s) a = Some a' \<and> D (Some t) b = Some b' \<and> in_step w h dirty b0 a' b'"
proof -
  obtain f where f: "\<And>c. clip_ok c \<Longrightarrow> paints w h (D (Some c)) (gate c f)" using assms(1) unfolding gated_def by blast
  have ab: "fits w h a" "fits w h b" using assms(2) by (auto simp: in_step_def)
  obtain a' where a: "D (Some s) a = Some a'" "fits w h a'" "\<And>x y. x < w \<Longrightarrow> y < h \<Longrightarrow> px a' x y = gate s f x y (px a x y)"
    using paintsD [OF f [OF assms(3)] ab(1)] by blast
  obtain b' where b: "D (Some t) b = Some b'" "fits w h b'" "\<And>x y. x < w \<Longrightarrow> y < h \<Longrightarrow> px b' x y = gate t f x y (px b x y)"
    using paintsD [OF f [OF assms(4)] ab(2)] by blast
  have "in_step w h dirty b0 a' b'"
    using assms(2,5) a(2,3) b(2,3) by (auto simp: in_step_def gate_def)
  then show ?thesis using a(1) b(1) by blast
qed

lemma step_clear:
  assumes "fits w h a" "fits w h b" "ca color = 0xFF" "clip_ok dirty"
    and old: "\<forall>x < w. \<forall>y < h. \<not> in_rect dirty (int x) (int y) \<longrightarrow> px b x y = px b0 x y"
  shows "\<exists>b'. raster_fill_rect dirty color (Some dirty) b = Some b' \<and> in_step w h dirty b0 (renderer_clear color a) b'"
proof -
  obtain b' where "raster_fill_rect dirty color (Some dirty) b = Some b'" "fits w h b'"
    "\<And>x y. x < w \<Longrightarrow> y < h \<Longrightarrow> px b' x y = gate dirty (\<lambda>x y bg. if ca color = 0xFF then to_u32 color else blend (to_u32 color) bg) x y (px b x y)"
    using paintsD [OF paints_fill_self [OF assms(4), of w h color] assms(2)] by blast
  then show ?thesis
    using renderer_clear_paints [OF assms(1), of color] assms(3) old by (auto simp: in_step_def gate_def)
qed

lemma render_in_step:
  assumes env: "screen_ok w h" "font_ok fm" "clip_ok dirty"
  shows "list_all item_ok items \<Longrightarrow> clips_rel w h dirty S T \<Longrightarrow> clips_meet items S \<Longrightarrow> clips_meet items T \<Longrightarrow> in_step w h dirty b0 a b \<Longrightarrow>
    \<exists>st st' a' b'. for_each (render_item fm ClearFull) items (map Some S, a) = Some (st, a') \<and>
      for_each (render_item fm (ClearClip dirty)) items (map Some T, b) = Some (st', b') \<and> in_step w h dirty b0 a' b'"
proof (induction items arbitrary: S T a b)
  case Nil
  then show ?case by auto
next
  case (Cons it items)
  obtain s S' t T' where c: "S = s # S'" "T = t # T'" "clip_ok s" "clip_ok t"
    "\<And>x y. x < w \<Longrightarrow> y < h \<Longrightarrow> in_rect t (int x) (int y) \<longleftrightarrow> in_rect s (int x) (int y) \<and> in_rect dirty (int x) (int y)"
    using clips_rel_Cons [OF Cons.prems(2)] by blast
  have ok: "item_ok it" "list_all item_ok items" using Cons.prems(1) by simp_all
  consider (draw) D where "item_draw fm it = Some D" | (clear) color where "it = SClear color" | (push) r where "it = ClipPush r" | (pop) "it = ClipPop"
    by (cases it) auto
  then show ?case
  proof cases
    case draw
    obtain a' b' where d: "D (Some s) a = Some a'" "D (Some t) b = Some b'" "in_step w h dirty b0 a' b'"
      using step_draw [OF gated_item [OF env(1,2) ok(1) draw] Cons.prems(5) c(3,4)] c(5) by blast
    have "clips_meet items S" "clips_meet items T" using Cons.prems(3,4) draw by (cases it; simp)+
    from Cons.IH [OF ok(2) Cons.prems(2) this d(3)] show ?thesis
      using d(1,2) c(1,2) by (simp add: render_item_draw [OF draw])
  next
    case clear
    have "\<forall>x < w. \<forall>y < h. \<not> in_rect dirty (int x) (int y) \<longrightarrow> px b x y = px b0 x y" "fits w h a" "fits w h b"
      using Cons.prems(5) by (auto simp: in_step_def)
    then obtain b' where d: "raster_fill_rect dirty color (Some dirty) b = Some b'" "in_step w h dirty b0 (renderer_clear color a) b'"
      using step_clear [of w h a b color dirty b0] env(3) ok(1) clear by auto
    have "clips_meet items S" "clips_meet items T" using Cons.prems(3,4) clear by simp_all
    from Cons.IH [OF ok(2) Cons.prems(2) this d(2)] show ?thesis using d(1) clear by simp
  next
    case push
    obtain s1 t1 where i: "intersect_rect (hd S) r = Some s1" "intersect_rect (hd T) r = Some t1" "clips_meet items (s1 # S)" "clips_meet items (t1 # T)"
      using Cons.prems(3,4) push by (auto split: option.splits)
    have "rect_ok r" using ok(1) push by simp
    from Cons.IH [OF ok(2) clips_rel_push [OF Cons.prems(2) this i(1,2)] i(3,4) Cons.prems(5)] show ?thesis
      using i(1,2) c(1,2) push by simp
  next
    case pop
    have "clips_meet items (if 1 < length S then tl S else S)" "clips_meet items (if 1 < length T then tl T else T)"
      using Cons.prems(3,4) pop by simp_all
    from Cons.IH [OF ok(2) clips_rel_pop [OF Cons.prems(2)] this Cons.prems(5)] show ?thesis
      using pop by (auto simp: map_tl split: if_splits)
  qed
qed


section \<open>Presenting\<close>

lemma copy_rows_cell:
  assumes "k + n \<le> h" "\<And>y. y < h \<Longrightarrow> y * w + x + cw \<le> length frame" "x + cw \<le> stride" "x' < stride"
  shows "fold (\<lambda>row m. let curr_y = k + row; src = curr_y * w + x
      in if src + cw \<le> length frame then copy_row src (curr_y * stride + x) cw frame m else m) [0..<n] m (y * stride + x') =
    (if k \<le> y \<and> y < k + n \<and> x \<le> x' \<and> x' < x + cw then frame ! (y * w + x') else m (y * stride + x'))"
  using assms(1)
proof (induction n)
  case (Suc n)
  have cell: "(k + n) * stride + x \<le> y * stride + x' \<and> y * stride + x' < (k + n) * stride + x + cw \<longleftrightarrow> y = k + n \<and> x \<le> x' \<and> x' < x + cw"
    using grid_row [OF assms(4), of "k + n" y] assms(3) by auto
  have src: "(k + n) * w + x + cw \<le> length frame" using assms(2) [of "k + n"] Suc.prems by simp
  let ?m = "fold (\<lambda>row m. let curr_y = k + row; src = curr_y * w + x
      in if src + cw \<le> length frame then copy_row src (curr_y * stride + x) cw frame m else m) [0..<n] m"
  have IH: "?m (y * stride + x') = (if k \<le> y \<and> y < k + n \<and> x \<le> x' \<and> x' < x + cw then frame ! (y * w + x') else m (y * stride + x'))"
    using Suc by simp
  have "copy_row ((k + n) * w + x) ((k + n) * stride + x) cw frame ?m (y * stride + x') =
      (if y = k + n \<and> x \<le> x' \<and> x' < x + cw then frame ! (y * w + x') else ?m (y * stride + x'))"
    unfolding copy_row_def cell by auto
  also have "\<dots> = (if k \<le> y \<and> y < k + Suc n \<and> x \<le> x' \<and> x' < x + cw then frame ! (y * w + x') else m (y * stride + x'))"
    unfolding IH by auto
  finally show ?case using src by (simp add: Let_def)
qed auto

text \<open>A device of the size of the screen, with rows at least as long as the screen is wide.\<close>

definition device_ok :: "nat \<Rightarrow> nat \<Rightarrow> fb_device \<Rightarrow> bool" where
  "device_ok w h d \<longleftrightarrow> fd_width d = w \<and> fd_height d = h \<and> fd_addr d \<noteq> 0 \<and> w \<le> fd_pitch d div 4 \<and> 0 < fd_pitch d"

definition cell_of :: "fb_device \<Rightarrow> nat \<Rightarrow> nat \<Rightarrow> nat" where
  "cell_of d x y = y * (fd_pitch d div 4) + x"

lemma sanitize_row:
  "geo_width (sanitize_fb_info g) * 4 \<le> geo_pitch (sanitize_fb_info g)" "1 \<le> geo_width (sanitize_fb_info g)" "geo_width (sanitize_fb_info g) \<le> 4096"
proof -
  define w where "w = max 1 (min (geo_width g) 4096)"
  have w: "1 \<le> w" "w \<le> 4096" by (auto simp: w_def)
  then have m: "mul_u32 w 4 = w * 4" by (simp add: mul_u32_def)
  show "geo_width (sanitize_fb_info g) * 4 \<le> geo_pitch (sanitize_fb_info g)" "1 \<le> geo_width (sanitize_fb_info g)" "geo_width (sanitize_fb_info g) \<le> 4096"
    using w unfolding sanitize_fb_info_def Let_def w_def [symmetric] by (simp_all add: m)
qed

lemma new_device_ok:
  assumes "addr \<noteq> 0"
  shows "device_ok (fd_width (fb_device_new rw rh rp addr)) (fd_height (fb_device_new rw rh rp addr)) (fb_device_new rw rh rp addr)"
proof -
  let ?g = "\<lparr>geo_width = rw mod 4294967296, geo_height = rh mod 4294967296, geo_pitch = rp mod 4294967296, geo_bpp = 32\<rparr>"
  show ?thesis using sanitize_row [of ?g] assms by (simp add: device_ok_def fb_device_new_def Let_def less_eq_div_iff_mult_less_eq)
qed

lemma screen_point: "in_rect (rect_new 0 0 w h) (int x) (int y) \<longleftrightarrow> x < w \<and> y < h"
  by (auto simp: in_rect_def rect_new_def)

lemma present_partial_cell:
  assumes sc: "screen_ok w h" and d: "device_ok w h d" and b: "fits w h b" and c: "clip_ok dirty" and x: "x < fd_pitch d div 4"
  shows "present_partial d (b_storage b) dirty m (cell_of d x y) =
    (if in_rect dirty (int x) (int y) \<and> x < w \<and> y < h then px b x y else m (cell_of d x y))"
proof (cases "intersect_rect dirty (rect_new 0 0 w h)")
  case None
  have "rect_ok (rect_new 0 0 w h)" using sc by (simp add: rect_ok_def rect_new_def screen_ok_def in_i32_def)
  then have "\<not> (in_rect dirty (int x) (int y) \<and> x < w \<and> y < h)"
    using None c intersect_rect_None [of dirty "rect_new 0 0 w h"] screen_point [of w h x y] by (auto simp: clip_ok_def)
  moreover have "present_partial d (b_storage b) dirty m = m"
    using None d by (simp add: present_partial_def device_ok_def)
  ultimately show ?thesis by auto
next
  case (Some r)
  have sr: "rect_ok (rect_new 0 0 w h)" using sc by (simp add: rect_ok_def rect_new_def screen_ok_def in_i32_def)
  have "rect_ok dirty" using c by (simp add: clip_ok_def)
  note s = intersect_rect_Some [OF this sr Some]
  have nn: "0 \<le> rx r" "0 \<le> ry r" using s(3,4) by (auto simp: rect_new_def)
  have top: "in_rect (rect_new 0 0 w h) (rx r + int (rwidth r) - 1) (ry r + int (rheight r) - 1)"
    using s(2) [of "rx r + int (rwidth r) - 1" "ry r + int (rheight r) - 1"] s(5,6) by (simp add: in_rect_def)
  then have lim: "nat (rx r) + rwidth r \<le> w" "nat (ry r) + rheight r \<le> h" using nn by (auto simp: in_rect_def rect_new_def)
  have us: "as_usize (rx r) = nat (rx r)" "as_usize (ry r) = nat (ry r)" using s(1) nn by (auto simp: rect_ok_def in_i32_def)
  have rows: "y * w + nat (rx r) + rwidth r \<le> length (b_storage b)" if "y < h" for y
  proof -
    have "Suc y * w \<le> h * w" using that by (intro mult_le_mono1) simp
    then show ?thesis using lim(1) b by (simp add: fits_def mult.commute)
  qed
  have "present_partial d (b_storage b) dirty m (cell_of d x y) =
      (if nat (ry r) \<le> y \<and> y < nat (ry r) + rheight r \<and> nat (rx r) \<le> x \<and> x < nat (rx r) + rwidth r then b_storage b ! (y * w + x) else m (cell_of d x y))"
    using copy_rows_cell [OF lim(2) rows _ x, of m y] lim s(6) d Some us
    by (simp add: present_partial_def device_ok_def cell_of_def Let_def)
  moreover have "nat (ry r) \<le> y \<and> y < nat (ry r) + rheight r \<and> nat (rx r) \<le> x \<and> x < nat (rx r) + rwidth r \<longleftrightarrow> in_rect r (int x) (int y)"
    using nn by (auto simp: in_rect_def)
  moreover have "in_rect r (int x) (int y) \<longleftrightarrow> in_rect dirty (int x) (int y) \<and> x < w \<and> y < h"
    using s(2) by (auto simp: in_rect_def rect_new_def)
  ultimately show ?thesis using b by (simp add: px_def fits_def)
qed

section \<open>Properties\<close>

text \<open>The situation of a redraw: a scene that begins with a clear, on a screen, with a dirty rectangle.\<close>

definition redraw_ok :: "font_manager \<Rightarrow> nat \<Rightarrow> nat \<Rightarrow> scene \<Rightarrow> rect \<Rightarrow> bool" where
  "redraw_ok fm w h s dirty \<longleftrightarrow> screen_ok w h \<and> font_ok fm \<and> clip_ok dirty \<and> list_all item_ok (scene_items s) \<and>
     (case scene_items s of SClear _ # items \<Rightarrow> clips_meet items [rect_new 0 0 w h] \<and> clips_meet items [dirty] | _ \<Rightarrow> False)"

lemma redraw_in_step:
  assumes ok: "redraw_ok fm w h s dirty" and b: "fits w h b" and b0: "fits w h b0"
  shows "\<exists>a p. render fm s b = Some a \<and> render_partial fm s dirty b0 = Some p \<and> in_step w h dirty b0 a p"
proof -
  obtain color items where s: "scene_items s = SClear color # items" "clips_meet items [rect_new 0 0 w h]" "clips_meet items [dirty]"
    and env: "screen_ok w h" "font_ok fm" "clip_ok dirty" and it: "ca color = 0xFF" "list_all item_ok items"
    using ok by (auto simp: redraw_ok_def split: list.splits scene_item.splits)
  have c: "fits w h (renderer_clear CLEAR_COLOR b)" using b by (simp add: fits_def renderer_clear_def)
  obtain b1 where b1: "raster_fill_rect dirty color (Some dirty) b0 = Some b1" "in_step w h dirty b0 (renderer_clear color (renderer_clear CLEAR_COLOR b)) b1"
    using step_clear [OF c b0 it(1) env(3), of b0] by auto
  have "clip_ok (rect_new 0 0 w h)" using env(1) by (simp add: clip_ok_def rect_ok_def rect_new_def screen_ok_def in_i32_def)
  then have "clips_rel w h dirty [rect_new 0 0 w h] [dirty]"
    using env(3) by (auto simp: clips_rel_def in_rect_def rect_new_def)
  from render_in_step [OF env it(2) this s(2,3) b1(2)] show ?thesis
    using b1(1) b by (fastforce simp: render_def render_partial_def render_scene_def s(1) fits_def renderer_clear_def [of CLEAR_COLOR])
qed

text \<open>
  C23: a partial redraw is a full redraw restricted to the dirty rectangle. For a scene that begins
  with an opaque clear, whose coordinates do not overflow, and in which no clip is pushed that is
  disjoint from the current one, both kinds of redraw succeed without a panic, and the partial
  one, begun on any old frame, gives inside the dirty rectangle exactly the pixels of the full
  one and leaves every other pixel as it was. The result of the full redraw does not depend on
  the frame it is drawn over.
\<close>

theorem partial_redraw_exact:
  assumes "redraw_ok fm w h s dirty" and "fits w h b" and "fits w h b0"
  shows "\<exists>a p. render fm s b = Some a \<and> render_partial fm s dirty b0 = Some p \<and> fits w h a \<and> fits w h p \<and>
    (\<forall>x < w. \<forall>y < h. px p x y = (if in_rect dirty (int x) (int y) then px a x y else px b0 x y))"
  using redraw_in_step [OF assms] by (auto simp: in_step_def)


text \<open>A font whose glyphs are empty, a screen of 4 by 3 and a scene with a clip, two fills and a line.\<close>

definition blank_font :: font where
  "blank_font = \<lparr>lookup_glyph_index = (\<lambda>_. 1),
     face_rasterize = (\<lambda>_ _. (\<lparr>g_xmin = 0, g_ymin = 0, g_width = 0, g_height = 0, g_advance_width = FFin 8\<rparr>, [])),
     horizontal_line_metrics = (\<lambda>_. None)\<rparr>"

definition blank_fonts :: font_manager where
  "blank_fonts = \<lparr>fonts = [blank_font], mono_font = blank_font\<rparr>"

definition demo_scene :: scene where
  "demo_scene = \<lparr>scene_width = 4, scene_height = 3, scene_items =
     [SClear CLEAR_COLOR, ClipPush (rect_new 0 0 3 3), FillRect (rect_new (- 1) 1 9 1) (rgba_new 0xFF 1 2 3), ClipPop,
      DrawLine (0, 0) (3, 2) (rgba_new 0xFF 9 9 9)]\<rparr>"

lemma blank_fonts_ok: "font_ok blank_fonts"
  by (auto simp: font_ok_def text_glyph_def rasterize_def rasterize_mono_def blank_fonts_def blank_font_def glyph_ok_def in_i32_def)

lemma demo_redraw_ok: "redraw_ok blank_fonts 4 3 demo_scene (rect_new 1 0 2 2)"
proof -
  have "screen_ok 4 3" "clip_ok (rect_new 1 0 2 2)" "list_all item_ok (scene_items demo_scene)" by code_simp+
  moreover have "case scene_items demo_scene of SClear _ # items \<Rightarrow> clips_meet items [rect_new 0 0 4 3] \<and> clips_meet items [rect_new 1 0 2 2] | _ \<Rightarrow> False"
    by code_simp
  ultimately show ?thesis using blank_fonts_ok by (simp add: redraw_ok_def)
qed

lemma new_fits: "fits w h (renderer_new w h)"
  by (simp add: fits_def renderer_new_def)

theorem partial_redraw_exact_witness:
  "\<exists>a p. render blank_fonts demo_scene (renderer_new 4 3) = Some a \<and>
     render_partial blank_fonts demo_scene (rect_new 1 0 2 2) (renderer_new 4 3) = Some p \<and> px p 2 1 = px a 2 1 \<and> px p 0 1 = 0"
proof -
  obtain a p where r: "render blank_fonts demo_scene (renderer_new 4 3) = Some a"
    "render_partial blank_fonts demo_scene (rect_new 1 0 2 2) (renderer_new 4 3) = Some p"
    "\<forall>x < 4. \<forall>y < 3. px p x y = (if in_rect (rect_new 1 0 2 2) (int x) (int y) then px a x y else px (renderer_new 4 3) x y)"
    using partial_redraw_exact [OF demo_redraw_ok new_fits new_fits] by blast
  have "px (renderer_new 4 3) 0 1 = 0" by code_simp
  then have "px p 2 1 = px a 2 1" "px p 0 1 = 0"
    using r(3) [rule_format, of 2 1] r(3) [rule_format, of 0 1] by (simp_all add: in_rect_def rect_new_def)
  then show ?thesis using r(1,2) by blast
qed

text \<open>
  C24: a partial update refreshes the display. Suppose the display shows the old frame, and the full
  redraw of the new scene differs from the old frame only inside the dirty rectangle, as it does
  when only the cursor moved. Then rendering and presenting the dirty rectangle alone leaves the
  display showing the full redraw of the new scene, pixel by pixel, and touches no cell of the
  memory behind the display that is not a pixel.
\<close>

theorem partial_update_refreshes:
  assumes "redraw_ok fm w h s dirty" and "fits w h b" and "fits w h old" and d: "device_ok w h d"
    and shows_old: "\<forall>x < w. \<forall>y < h. m (cell_of d x y) = px old x y"
    and new: "render fm s b = Some a" and moved: "\<forall>x < w. \<forall>y < h. \<not> in_rect dirty (int x) (int y) \<longrightarrow> px a x y = px old x y"
  shows "\<exists>p. render_partial fm s dirty old = Some p \<and>
    (\<forall>x < fd_pitch d div 4. \<forall>y. present_partial d (b_storage p) dirty m (cell_of d x y) =
       (if x < w \<and> y < h then px a x y else m (cell_of d x y)))"
proof -
  obtain p where p: "render_partial fm s dirty old = Some p" "in_step w h dirty old a p"
    using redraw_in_step [OF assms(1-3)] new by auto
  have "screen_ok w h" "clip_ok dirty" "fits w h p" using assms(1) p(2) by (auto simp: redraw_ok_def in_step_def)
  note cell = present_partial_cell [OF this(1) d this(3,2)]
  have "present_partial d (b_storage p) dirty m (cell_of d x y) = (if x < w \<and> y < h then px a x y else m (cell_of d x y))"
    if "x < fd_pitch d div 4" for x y
    using cell [OF that, of m y] p(2) shows_old moved by (auto simp: in_step_def)
  then show ?thesis using p(1) by blast
qed

definition demo_device :: fb_device where
  "demo_device = fb_device_new 4 3 16 0x1000"

lemma demo_device_ok: "device_ok 4 3 demo_device" and demo_pitch: "fd_pitch demo_device div 4 = 4"
  by (simp_all add: device_ok_def demo_device_def fb_device_new_def sanitize_fb_info_def mul_u32_def Let_def)

theorem partial_update_refreshes_witness:
  "\<exists>p. render_partial blank_fonts demo_scene (rect_new 1 0 2 2) (the (render blank_fonts demo_scene (renderer_new 4 3))) = Some p \<and>
     present_partial demo_device (b_storage p) (rect_new 1 0 2 2) (\<lambda>i. px (the (render blank_fonts demo_scene (renderer_new 4 3))) (i mod 4) (i div 4))
       (cell_of demo_device 2 1) = px (the (render blank_fonts demo_scene (renderer_new 4 3))) 2 1"
proof -
  obtain a where a: "render blank_fonts demo_scene (renderer_new 4 3) = Some a" "fits 4 3 a"
    using redraw_in_step [OF demo_redraw_ok new_fits new_fits] by (auto simp: in_step_def)
  note pitch = demo_pitch
  have "\<forall>x < 4. \<forall>y < 3. px a (cell_of demo_device x y mod 4) (cell_of demo_device x y div 4) = px a x y"
    unfolding cell_of_def pitch by (intro allI impI) simp
  from partial_update_refreshes [OF demo_redraw_ok new_fits a(2) demo_device_ok this a(1)] obtain p where
    "render_partial blank_fonts demo_scene (rect_new 1 0 2 2) a = Some p"
    "\<forall>x < 4. \<forall>y. present_partial demo_device (b_storage p) (rect_new 1 0 2 2) (\<lambda>i. px a (i mod 4) (i div 4)) (cell_of demo_device x y) =
       (if x < 4 \<and> y < 3 then px a x y else px a (cell_of demo_device x y mod 4) (cell_of demo_device x y div 4))"
    unfolding pitch by blast
  then show ?thesis unfolding a(1) option.sel by (intro exI [of _ p]) simp
qed

text \<open>
  A clip that is disjoint from the current one turns clipping off. The empty intersection is
  stored as the same value that stands for no clip at all, so after such a push a rectangle is
  filled to its full extent, whatever the clips around it are. In a partial redraw this happens
  to every window whose clip does not meet the dirty rectangle.
\<close>

theorem empty_clip_unclips:
  assumes "fits w h b" and "clip_ok q" and "intersect_rect c r = None" and "ca color = 0xFF"
  shows "\<exists>b'. render_scene fm \<lparr>scene_width = w, scene_height = h, scene_items = [ClipPush r, FillRect q color]\<rparr> c mode b = Some b' \<and>
    (\<forall>x < w. \<forall>y < h. px b' x y = (if in_rect q (int x) (int y) then to_u32 color else px b x y))"
proof -
  have "rwidth q = 0 \<or> rheight q = 0 \<or> intersect_rect q q = Some q"
    using assms(2) by (auto simp: intersect_rect_def clip_ok_def rect_ok_def rect_new_def in_i32_def Let_def)
  then have "raster_fill_rect q color None b = raster_fill_rect q color (Some q) b"
    by (auto simp: raster_fill_rect_def apply_clip_def)
  moreover obtain b' where "raster_fill_rect q color (Some q) b = Some b'" "\<And>x y. x < w \<Longrightarrow> y < h \<Longrightarrow>
      px b' x y = gate q (\<lambda>x y bg. if ca color = 0xFF then to_u32 color else blend (to_u32 color) bg) x y (px b x y)"
    using paintsD [OF paints_fill_self [OF assms(2), of w h color] assms(1)] by blast
  ultimately show ?thesis using assms(3,4) by (simp add: render_scene_def gate_def)
qed

theorem empty_clip_unclips_witness:
  "\<exists>b'. render_scene blank_fonts \<lparr>scene_width = 4, scene_height = 3, scene_items = [ClipPush (rect_new 2 0 1 1), FillRect (rect_new 2 1 2 2) CLEAR_COLOR]\<rparr>
      (rect_new 0 0 1 1) ClearFull (renderer_new 4 3) = Some b' \<and> px b' 3 2 = 0xFF000000"
proof -
  have "clip_ok (rect_new 2 1 2 2)" "intersect_rect (rect_new 0 0 1 1) (rect_new 2 0 1 1) = None" "ca CLEAR_COLOR = 0xFF" by code_simp+
  from empty_clip_unclips [OF new_fits this] obtain b' where
    "render_scene blank_fonts \<lparr>scene_width = 4, scene_height = 3, scene_items = [ClipPush (rect_new 2 0 1 1), FillRect (rect_new 2 1 2 2) CLEAR_COLOR]\<rparr>
      (rect_new 0 0 1 1) ClearFull (renderer_new 4 3) = Some b'"
    "\<forall>x < 4. \<forall>y < 3. px b' x y = (if in_rect (rect_new 2 1 2 2) (int x) (int y) then to_u32 CLEAR_COLOR else px (renderer_new 4 3) x y)"
    by blast
  moreover have "in_rect (rect_new 2 1 2 2) (int 3) (int 2)" "to_u32 CLEAR_COLOR = 0xFF000000" by code_simp+
  ultimately show ?thesis by auto
qed

end
