(* ===== verification/Flex_Layout.thy ===== *)
theory Flex_Layout
  imports Canvas Abi
begin

text \<open>
  The layout engine of the compositor (\<open>src/compositor/src/layout.rs\<close>) and the parameters it shares
  with user programs (\<open>src/userland/src/flex.rs\<close>). Sizes are \<open>u32\<close> values with wrap-around written
  out, coordinates are \<open>i32\<close> values, and grow factors are single precision floats.
\<close>

section \<open>Parameters\<close>

datatype flex_direction = DirRow | DirColumn
datatype flex_wrap = NoWrap | Wrap
datatype justify_content = JStart | JCenter | JEnd | SpaceBetween | SpaceAround
datatype align_items = AStart | ACenter | AEnd | Stretch

fun direction_as_str :: "flex_direction \<Rightarrow> string" where
  "direction_as_str DirRow = ''row''"
| "direction_as_str DirColumn = ''column''"

definition direction_from_str :: "string \<Rightarrow> flex_direction option" where
  "direction_from_str s = (if s = ''row'' then Some DirRow else if s = ''column'' then Some DirColumn else None)"

fun wrap_as_str :: "flex_wrap \<Rightarrow> string" where
  "wrap_as_str NoWrap = ''nowrap''"
| "wrap_as_str Wrap = ''wrap''"

definition wrap_from_str :: "string \<Rightarrow> flex_wrap option" where
  "wrap_from_str s = (if s = ''nowrap'' then Some NoWrap else if s = ''wrap'' then Some Wrap else None)"

fun justify_as_str :: "justify_content \<Rightarrow> string" where
  "justify_as_str JStart = ''start''"
| "justify_as_str JCenter = ''center''"
| "justify_as_str JEnd = ''end''"
| "justify_as_str SpaceBetween = ''space-between''"
| "justify_as_str SpaceAround = ''space-around''"

definition justify_from_str :: "string \<Rightarrow> justify_content option" where
  "justify_from_str s =
     (if s = ''start'' \<or> s = ''flex-start'' then Some JStart
      else if s = ''center'' then Some JCenter
      else if s = ''end'' \<or> s = ''flex-end'' then Some JEnd
      else if s = ''space-between'' then Some SpaceBetween
      else if s = ''space-around'' then Some SpaceAround else None)"

fun align_as_str :: "align_items \<Rightarrow> string" where
  "align_as_str AStart = ''start''"
| "align_as_str ACenter = ''center''"
| "align_as_str AEnd = ''end''"
| "align_as_str Stretch = ''stretch''"

definition align_from_str :: "string \<Rightarrow> align_items option" where
  "align_from_str s =
     (if s = ''start'' \<or> s = ''flex-start'' then Some AStart
      else if s = ''center'' then Some ACenter
      else if s = ''end'' \<or> s = ''flex-end'' then Some AEnd
      else if s = ''stretch'' then Some Stretch else None)"

definition value_as_str :: "gvalue \<Rightarrow> string option" where
  "value_as_str v = (case v of VText s \<Rightarrow> Some s | VBytes b \<Rightarrow> from_utf8 b | _ \<Rightarrow> None)"

text \<open>All four \<open>to_value\<close> and \<open>from_value\<close> methods are these, over their own strings.\<close>

definition param_to_value :: "('p \<Rightarrow> string) \<Rightarrow> 'p \<Rightarrow> gvalue" where
  "param_to_value as_str p = VText (as_str p)"

definition param_from_value :: "(string \<Rightarrow> 'p option) \<Rightarrow> gvalue \<Rightarrow> 'p option" where
  "param_from_value from_str v = Option.bind (value_as_str v) from_str"

section \<open>Layout\<close>

datatype layout_spec = LStack | LRow | LColumn | LGrid nat nat | LFlex flex_direction flex_wrap justify_content align_items

record layout_item =
  li_id :: uuid
  li_min_width :: nat
  li_min_height :: nat
  li_max_width :: "nat option"
  li_max_height :: "nat option"
  li_flex_grow :: f32
  li_flex_shrink :: f32

definition layout_item_default :: layout_item where
  "layout_item_default =
     \<lparr>li_id = 0, li_min_width = 0, li_min_height = 0, li_max_width = None, li_max_height = None, li_flex_grow = FFin 0, li_flex_shrink = FFin 1\<rparr>"

definition add_u32 :: "nat \<Rightarrow> nat \<Rightarrow> nat" where
  "add_u32 a b = (a + b) mod 4294967296"

definition sub_u32 :: "nat \<Rightarrow> nat \<Rightarrow> nat" where
  "sub_u32 a b = as_u32 (int a - int b)"

definition times_u32 :: "nat \<Rightarrow> nat \<Rightarrow> nat" where
  "times_u32 a b = (a * b) mod 4294967296"

text \<open>\<open>count.saturating_sub(1) as i32 * gap\<close>, and the space that is left for the items.\<close>

definition gaps_of :: "nat \<Rightarrow> int \<Rightarrow> int" where
  "gaps_of count gap = i32 (i32 (int (count - 1)) * gap)"

definition space_left :: "nat \<Rightarrow> int \<Rightarrow> nat" where
  "space_left ext total_gap = as_u32 (max (i32 (i32 (int ext) - total_gap)) 0)"

text \<open>The extent of the last of \<open>count\<close> equal parts: what the others leave.\<close>

definition last_extent :: "nat \<Rightarrow> nat \<Rightarrow> nat \<Rightarrow> int \<Rightarrow> nat" where
  "last_extent ext item count total_gap = sub_u32 (sub_u32 ext (times_u32 item (count - 1))) (as_u32 total_gap)"

text \<open>The loop of the row layout (\<open>place\<close> makes the rectangle), from position \<open>pos\<close> at child \<open>i\<close>.\<close>

fun equal_parts :: "(int \<Rightarrow> nat \<Rightarrow> rect) \<Rightarrow> nat \<Rightarrow> nat \<Rightarrow> nat \<Rightarrow> int \<Rightarrow> nat \<Rightarrow> int \<Rightarrow> layout_item list \<Rightarrow> (uuid \<times> rect) list" where
  "equal_parts place count item_size last_size gap i pos [] = []"
| "equal_parts place count item_size last_size gap i pos (child # children) =
     (let s = (if i = count - 1 then last_size else item_size)
      in (li_id child, place pos s) # equal_parts place count item_size last_size gap (Suc i) (i32 (pos + i32 (i32 (int s) + gap))) children)"

definition layout_row :: "rect \<Rightarrow> layout_item list \<Rightarrow> int \<Rightarrow> (uuid \<times> rect) list" where
  "layout_row c children gap =
     (let count = length children; total_gap = gaps_of count gap; item = space_left (rwidth c) total_gap div count
      in equal_parts (\<lambda>x w. rect_new x (ry c) w (rheight c)) count item (last_extent (rwidth c) item count total_gap) gap 0 (rx c) children)"

definition layout_column :: "rect \<Rightarrow> layout_item list \<Rightarrow> int \<Rightarrow> (uuid \<times> rect) list" where
  "layout_column c children gap =
     (let count = length children; total_gap = gaps_of count gap; item = space_left (rheight c) total_gap div count
      in equal_parts (\<lambda>y h. rect_new (rx c) y (rwidth c) h) count item (last_extent (rheight c) item count total_gap) gap 0 (ry c) children)"

definition limit_by :: "nat \<Rightarrow> nat option \<Rightarrow> nat" where
  "limit_by n m = (case m of Some k \<Rightarrow> min n k | None \<Rightarrow> n)"

fun grid_cells :: "rect \<Rightarrow> nat \<Rightarrow> nat \<Rightarrow> nat \<Rightarrow> nat \<Rightarrow> int \<Rightarrow> int \<Rightarrow> int \<Rightarrow> nat \<Rightarrow> layout_item list \<Rightarrow> (uuid \<times> rect) list" where
  "grid_cells c rows cols iw ih gap gx gy i [] = []"
| "grid_cells c rows cols iw ih gap gx gy i (child # children) =
     (let row = (i mod 4294967296) div cols; col = (i mod 4294967296) mod cols
      in if rows \<le> row then []
         else let x = i32 (rx c + i32 (i32 (int col) * i32 (i32 (int iw) + gap)));
                  y = i32 (ry c + i32 (i32 (int row) * i32 (i32 (int ih) + gap)));
                  w = (if col = cols - 1 then last_extent (rwidth c) iw cols gx else iw);
                  h = (if row = rows - 1 then last_extent (rheight c) ih rows gy else ih)
              in (li_id child, rect_new x y (limit_by w (li_max_width child)) (limit_by h (li_max_height child))) #
                 grid_cells c rows cols iw ih gap gx gy (Suc i) children)"

definition layout_grid :: "rect \<Rightarrow> nat \<Rightarrow> nat \<Rightarrow> layout_item list \<Rightarrow> int \<Rightarrow> (uuid \<times> rect) list" where
  "layout_grid c rows0 cols0 children gap =
     (let rows = max rows0 1 mod 4294967296; cols = max cols0 1 mod 4294967296; gx = gaps_of cols gap; gy = gaps_of rows gap
      in grid_cells c rows cols (space_left (rwidth c) gx div cols) (space_left (rheight c) gy div rows) gap gx gy 0 children)"

subsection \<open>Flexible lines\<close>

definition item_basis :: "bool \<Rightarrow> layout_item \<Rightarrow> nat" where
  "item_basis is_row child = (if is_row then li_min_width child else li_min_height child)"

definition item_cross :: "bool \<Rightarrow> layout_item \<Rightarrow> nat" where
  "item_cross is_row child = (if is_row then li_min_height child else li_min_width child)"

fun break_lines :: "bool \<Rightarrow> nat \<Rightarrow> int \<Rightarrow> layout_item list \<Rightarrow> nat \<Rightarrow> layout_item list \<Rightarrow> layout_item list list" where
  "break_lines is_row main_size gap line used [] = (if line \<noteq> [] then [line] else [])"
| "break_lines is_row main_size gap line used (child # children) =
     (let basis = item_basis is_row child;
          gap_needed = (if line = [] then 0 else as_u32 gap)
      in if line \<noteq> [] \<and> main_size < add_u32 (add_u32 used gap_needed) basis
         then line # break_lines is_row main_size gap [child] (add_u32 0 basis) children
         else break_lines is_row main_size gap (line @ [child])
                (add_u32 (if line \<noteq> [] then add_u32 used (as_u32 gap) else used) basis) children)"

definition f32_is_zero :: "f32 \<Rightarrow> bool" where
  "f32_is_zero a \<longleftrightarrow> a = FFin 0"

definition sum_u32 :: "nat list \<Rightarrow> nat" where
  "sum_u32 xs = fold (\<lambda>x s. add_u32 s x) xs 0"

definition total_grow :: "layout_item list \<Rightarrow> f32" where
  "total_grow line = fold (\<lambda>c s. f32_add s (li_flex_grow c)) line (FFin 0)"

definition start_pos :: "justify_content \<Rightarrow> nat \<Rightarrow> nat \<Rightarrow> nat" where
  "start_pos justify available count =
     (case justify of JCenter \<Rightarrow> available div 2 | JEnd \<Rightarrow> available | SpaceAround \<Rightarrow> available div times_u32 count 2 | _ \<Rightarrow> 0)"

definition extra_gap_of :: "justify_content \<Rightarrow> nat \<Rightarrow> nat \<Rightarrow> nat" where
  "extra_gap_of justify available count =
     (if justify = SpaceBetween \<and> 1 < count then available div (count - 1) else if justify = SpaceAround then available div count else 0)"

definition align_offset :: "align_items \<Rightarrow> nat \<Rightarrow> nat \<Rightarrow> nat" where
  "align_offset align line_cross item_cross_size =
     (case align of ACenter \<Rightarrow> (line_cross - item_cross_size) div 2 | AEnd \<Rightarrow> line_cross - item_cross_size | _ \<Rightarrow> 0)"

definition grow_share :: "f32 \<Rightarrow> nat \<Rightarrow> layout_item \<Rightarrow> nat" where
  "grow_share grow available child =
     (if f32_less (FFin 0) grow
      then f32_as_u32 (f32_mul (f32_of_int (int available)) (f32_div (li_flex_grow child) grow)) else 0)"

definition item_main_size :: "bool \<Rightarrow> f32 \<Rightarrow> nat \<Rightarrow> layout_item \<Rightarrow> nat" where
  "item_main_size is_row grow available child =
     limit_by (add_u32 (item_basis is_row child) (grow_share grow available child)) (if is_row then li_max_width child else li_max_height child)"

definition item_cross_size :: "bool \<Rightarrow> align_items \<Rightarrow> nat \<Rightarrow> layout_item \<Rightarrow> nat" where
  "item_cross_size is_row align line_cross child =
     limit_by (if align = Stretch then line_cross else item_cross is_row child) (if is_row then li_max_height child else li_max_width child)"

definition place_item :: "bool \<Rightarrow> rect \<Rightarrow> nat \<Rightarrow> nat \<Rightarrow> nat \<Rightarrow> nat \<Rightarrow> nat \<Rightarrow> rect" where
  "place_item is_row c main_pos cross_pos cross_offset main cross =
     (if is_row
      then rect_new (i32 (rx c + i32 (int main_pos))) (i32 (i32 (ry c + i32 (int cross_pos)) + i32 (int cross_offset))) main cross
      else rect_new (i32 (i32 (rx c + i32 (int cross_pos)) + i32 (int cross_offset))) (i32 (ry c + i32 (int main_pos))) cross main)"

text \<open>The items of one line: \<open>step\<close> is the distance added after each item.\<close>

fun line_items :: "(layout_item \<Rightarrow> nat) \<Rightarrow> (layout_item \<Rightarrow> nat \<Rightarrow> nat \<Rightarrow> rect) \<Rightarrow> nat \<Rightarrow> nat \<Rightarrow> layout_item list \<Rightarrow> (uuid \<times> rect) list" where
  "line_items main place gap_step pos [] = []"
| "line_items main place gap_step pos (child # children) =
     (li_id child, place child pos (main child)) # line_items main place gap_step (add_u32 (add_u32 pos (main child)) gap_step) children"

definition line_cross_size :: "bool \<Rightarrow> flex_wrap \<Rightarrow> rect \<Rightarrow> layout_item list \<Rightarrow> nat" where
  "line_cross_size is_row wrap c line =
     (if wrap = NoWrap then (if is_row then rheight c else rwidth c) else fold (\<lambda>i m. max m (item_cross is_row i)) line 0)"

definition flex_line :: "bool \<Rightarrow> flex_wrap \<Rightarrow> justify_content \<Rightarrow> align_items \<Rightarrow> rect \<Rightarrow> int \<Rightarrow> nat \<Rightarrow> layout_item list \<Rightarrow> (uuid \<times> rect) list" where
  "flex_line is_row wrap justify align c gap cross_pos line =
     (let main_size = (if is_row then rwidth c else rheight c);
          count = length line;
          total_gap = as_u32 (max (gaps_of count gap) 0);
          line_cross = line_cross_size is_row wrap c line;
          grow = total_grow line;
          available = main_size - add_u32 (sum_u32 (map (item_basis is_row) line)) total_gap;
          still = (f32_is_zero grow \<and> 0 < available);
          start = (if still then start_pos justify available count else 0);
          extra = (if still then extra_gap_of justify available count else 0);
          effective_gap = add_u32 (as_u32 gap) extra;
          gap_step = (if justify = SpaceAround then add_u32 effective_gap extra else effective_gap)
      in line_items (item_main_size is_row grow available)
           (\<lambda>child pos main. let cross = item_cross_size is_row align line_cross child
                             in place_item is_row c pos cross_pos (align_offset align line_cross cross) main cross)
           gap_step start line)"

fun flex_lines :: "bool \<Rightarrow> flex_wrap \<Rightarrow> justify_content \<Rightarrow> align_items \<Rightarrow> rect \<Rightarrow> int \<Rightarrow> nat \<Rightarrow> layout_item list list \<Rightarrow> (uuid \<times> rect) list" where
  "flex_lines is_row wrap justify align c gap cross_pos [] = []"
| "flex_lines is_row wrap justify align c gap cross_pos (line # lines) =
     flex_line is_row wrap justify align c gap cross_pos line @
     flex_lines is_row wrap justify align c gap (add_u32 cross_pos (add_u32 (line_cross_size is_row wrap c line) (as_u32 gap))) lines"

definition layout :: "rect \<Rightarrow> layout_spec \<Rightarrow> layout_item list \<Rightarrow> int \<Rightarrow> (uuid \<times> rect) list" where
  "layout c spec children gap =
     (if children = [] then []
      else case spec of
        LStack \<Rightarrow> map (\<lambda>child. (li_id child, c)) children
      | LRow \<Rightarrow> layout_row c children gap
      | LColumn \<Rightarrow> layout_column c children gap
      | LGrid rows cols \<Rightarrow> layout_grid c rows cols children gap
      | LFlex direction wrap justify align \<Rightarrow>
          let is_row = (direction = DirRow); main_size = (if is_row then rwidth c else rheight c);
              lines = (if wrap = NoWrap then [children] else break_lines is_row main_size gap [] 0 children)
          in flex_lines is_row wrap justify align c gap 0 lines)"

section \<open>Parameters survive the graph\<close>

lemma direction_roundtrip: "param_from_value direction_from_str (param_to_value direction_as_str p) = Some p"
  by (cases p) (simp_all add: param_from_value_def param_to_value_def value_as_str_def direction_from_str_def)

lemma wrap_roundtrip: "param_from_value wrap_from_str (param_to_value wrap_as_str p) = Some p"
  by (cases p) (simp_all add: param_from_value_def param_to_value_def value_as_str_def wrap_from_str_def)

lemma justify_roundtrip: "param_from_value justify_from_str (param_to_value justify_as_str p) = Some p"
  by (cases p) (simp_all add: param_from_value_def param_to_value_def value_as_str_def justify_from_str_def)

lemma align_roundtrip: "param_from_value align_from_str (param_to_value align_as_str p) = Some p"
  by (cases p) (simp_all add: param_from_value_def param_to_value_def value_as_str_def align_from_str_def)

section \<open>Equal parts\<close>

lemma add_u32_id [simp]: "a + b < 4294967296 \<Longrightarrow> add_u32 a b = a + b"
  by (simp add: add_u32_def)

lemma times_u32_id: "a * b < 4294967296 \<Longrightarrow> times_u32 a b = a * b"
  by (simp add: times_u32_def)

lemma sub_u32_id: "b \<le> a \<Longrightarrow> a < 4294967296 \<Longrightarrow> sub_u32 a b = a - b"
  by (simp add: sub_u32_def flip: of_nat_diff)

lemma as_u32_nat: "g < 4294967296 \<Longrightarrow> as_u32 (int g) = g"
  by simp

lemma gaps_of_exact:
  assumes "0 \<le> gap" "(n - 1) * nat gap < 2147483648" "n - 1 < 2147483648"
  shows "gaps_of n gap = int ((n - 1) * nat gap)"
proof -
  have "int (n - 1) * gap = int ((n - 1) * nat gap)" using assms(1) by simp
  moreover have "in_i32 (int ((n - 1) * nat gap))" "in_i32 (int (n - 1))" using assms(2,3) unfolding in_i32_def by linarith+
  ultimately show ?thesis unfolding gaps_of_def by (simp only: i32_id)
qed

lemma space_left_exact: "g \<le> ext \<Longrightarrow> ext < 2147483648 \<Longrightarrow> space_left ext (int g) = ext - g"
  by (simp add: space_left_def i32_id [unfolded in_i32_def] flip: of_nat_diff)

lemma gap_step_mono:
  fixes gap :: int
  shows "0 \<le> gap \<Longrightarrow> j \<le> k \<Longrightarrow> int j * (int item + gap) \<le> int k * (int item + gap)"
  by (intro mult_right_mono) auto

lemma equal_parts_nth:
  assumes "i + length children = count" "0 \<le> gap" "in_i32 pos" "in_i32 (pos + int (length children) * (int item + gap))" "in_i32 (int item + gap)"
    "in_i32 (int item)"
  shows "length (equal_parts place count item fin gap i pos children) = length children \<and>
    (\<forall>j < length children. equal_parts place count item fin gap i pos children ! j =
      (li_id (children ! j), place (pos + int j * (int item + gap)) (if i + j = count - 1 then fin else item)))"
  using assms(1,3,4)
proof (induction children arbitrary: i pos)
  case (Cons child children)
  show ?case
  proof (cases children)
    case Nil
    then show ?thesis using Cons.prems(1) by (simp add: Let_def)
  next
    case (Cons c' cs)
    let ?d = "int item + gap"
    have i: "i \<noteq> count - 1" using Cons Cons.prems(1) by auto
    have d: "0 \<le> ?d" using assms(2) by simp
    have e: "pos + int (length (child # children)) * ?d = pos + ?d + int (length children) * ?d" by (simp add: algebra_simps)
    have m: "0 \<le> int (length children) * ?d" using d by simp
    have n: "in_i32 (pos + ?d)" "in_i32 (pos + ?d + int (length children) * ?d)"
      using Cons.prems(2,3) e d m unfolding in_i32_def by linarith+
    have nx: "i32 (pos + i32 (i32 (int item) + gap)) = pos + ?d" using n(1) assms(5,6) by simp
    have sd: "pos + ?d + int j * ?d = pos + int (Suc j) * ?d" for j by (simp add: algebra_simps)
    have IH: "length (equal_parts place count item fin gap (Suc i) (pos + ?d) children) = length children"
      "\<forall>j < length children. equal_parts place count item fin gap (Suc i) (pos + ?d) children ! j =
        (li_id (children ! j), place (pos + int (Suc j) * ?d) (if i + Suc j = count - 1 then fin else item))"
      using Cons.IH [of "Suc i" "pos + ?d", unfolded sd] n [unfolded sd] Cons.prems(1) by simp_all
    show ?thesis using IH i by (auto simp: Let_def nx nth_Cons split: nat.splits)
  qed
qed simp

text \<open>
  What equal parts of an extent \<open>ext\<close> starting at \<open>lo\<close> look like: they lie in order, a gap apart, the
  first at the start and the last ending at the end; all are equally long but the last, which is
  longer by less than one unit per part.
\<close>

definition tiles :: "int \<Rightarrow> nat \<Rightarrow> int \<Rightarrow> (int \<times> nat) list \<Rightarrow> bool" where
  "tiles lo ext gap ps \<longleftrightarrow> ps \<noteq> [] \<and> fst (hd ps) = lo \<and> fst (last ps) + int (snd (last ps)) = lo + int ext \<and>
     (\<forall>j. Suc j < length ps \<longrightarrow> fst (ps ! Suc j) = fst (ps ! j) + int (snd (ps ! j)) + gap \<and> snd (ps ! j) = snd (hd ps)) \<and>
     snd (hd ps) \<le> snd (last ps) \<and> snd (last ps) < snd (hd ps) + length ps"

definition parts_of :: "int \<Rightarrow> nat \<Rightarrow> int \<Rightarrow> nat \<Rightarrow> (int \<times> nat) list" where
  "parts_of lo ext gap n =
     (let item = (ext - (n - 1) * nat gap) div n
      in map (\<lambda>j. (lo + int j * (int item + gap), if j = n - 1 then ext - item * (n - 1) - (n - 1) * nat gap else item)) [0..<n])"

lemma parts_tile:
  assumes "0 < n" "0 \<le> gap" "(n - 1) * nat gap \<le> ext"
  shows "tiles lo ext gap (parts_of lo ext gap n)"
proof -
  define item where "item = (ext - (n - 1) * nat gap) div n"
  define rest where "rest = ext - item * (n - 1) - (n - 1) * nat gap"
  have "item * n \<le> ext - (n - 1) * nat gap" unfolding item_def by simp
  then have le: "item * n + (n - 1) * nat gap \<le> ext" using assms(3) by simp
  have n: "item * n = item * (n - 1) + item" using assms(1) by (cases n) simp_all
  have lt: "ext - (n - 1) * nat gap < item * n + n"
    unfolding item_def using assms(1) by (metis add.commute dividend_less_div_times mult.commute)
  have r: "item \<le> rest" "rest < item + n" using le lt n assms(3) unfolding rest_def by linarith+
  have p: "parts_of lo ext gap n = map (\<lambda>j. (lo + int j * (int item + gap), if j = n - 1 then rest else item)) [0..<n]"
    by (simp add: parts_of_def item_def rest_def Let_def)
  have hd: "hd (parts_of lo ext gap n) = (lo, if n = 1 then rest else item)" using assms(1) by (simp add: p hd_map)
  have la: "last (parts_of lo ext gap n) = (lo + int (n - 1) * (int item + gap), rest)" using assms(1) by (simp add: p last_map)
  have "int rest = int ext - int item * int (n - 1) - int (n - 1) * gap"
    using le n assms(2) by (simp add: rest_def of_nat_diff)
  then have e: "lo + int (n - 1) * (int item + gap) + int rest = lo + int ext" by (simp add: algebra_simps)
  have s: "fst (parts_of lo ext gap n ! Suc j) = fst (parts_of lo ext gap n ! j) + int (snd (parts_of lo ext gap n ! j)) + gap \<and>
      snd (parts_of lo ext gap n ! j) = snd (hd (parts_of lo ext gap n))" if "Suc j < n" for j
    using that hd by (auto simp: p algebra_simps)
  show ?thesis unfolding tiles_def using s hd la e r assms(1) by (auto simp: p)
qed

lemma equal_parts_tile:
  assumes n: "0 < length children" "length children < 2147483648" and gap: "0 \<le> gap" "gap < 2147483648" and fit: "(length children - 1) * nat gap \<le> ext"
    and lo: "in_i32 lo" "in_i32 (lo + int ext + gap)" and sz: "in_i32 (int ext)" "in_i32 (int ext + gap)"
  shows "equal_parts place (length children) (space_left ext (gaps_of (length children) gap) div length children)
      (last_extent ext (space_left ext (gaps_of (length children) gap) div length children) (length children) (gaps_of (length children) gap)) gap 0 lo children =
    map2 (\<lambda>c (p, s). (li_id c, place p s)) children (parts_of lo ext gap (length children))"
proof -
  let ?n = "length children" and ?G = "(length children - 1) * nat gap"
  define item where "item = (ext - ?G) div ?n"
  have bound: "int ext < 2147483648" using sz by (simp add: in_i32_def)
  have G: "gaps_of ?n gap = int ?G" using fit bound n by (intro gaps_of_exact gap(1)) linarith+
  have sl: "space_left ext (gaps_of ?n gap) = ext - ?G" unfolding G using fit bound by (intro space_left_exact) simp_all
  have "item * ?n \<le> ext - ?G" unfolding item_def by simp
  then have le: "item * ?n + ?G \<le> ext" using fit by simp
  have nn: "item * ?n = item * (?n - 1) + item" using n by (cases children) simp_all
  have small: "?G < 4294967296" using fit bound by linarith
  have ex: "last_extent ext item ?n (gaps_of ?n gap) = ext - item * (?n - 1) - ?G"
    unfolding last_extent_def G as_u32_nat [OF small] using le nn bound by (simp add: times_u32_id sub_u32_id)
  have "int ?n * (int item + gap) = int (item * ?n + ?G) + gap" using n gap by (cases children) (simp_all add: algebra_simps)
  have m0: "0 \<le> int ?n * (int item + gap)" using gap by simp
  with \<open>int ?n * (int item + gap) = _\<close> have m: "int ?n * (int item + gap) \<le> int ext + gap" using le by linarith
  have "in_i32 (lo + int ?n * (int item + gap))" "in_i32 (int item + gap)" "in_i32 (int item)"
    using m m0 lo gap le nn sz unfolding in_i32_def by linarith+
  from equal_parts_nth [of 0 children ?n gap lo item place "ext - item * (?n - 1) - ?G", OF _ gap(1) lo(1) this]
  have nth: "length (equal_parts place ?n item (ext - item * (?n - 1) - ?G) gap 0 lo children) = ?n"
    "\<forall>j < ?n. equal_parts place ?n item (ext - item * (?n - 1) - ?G) gap 0 lo children ! j =
      (li_id (children ! j), place (lo + int j * (int item + gap)) (if j = ?n - 1 then ext - item * (?n - 1) - ?G else item))"
    by simp_all
  have pa: "parts_of lo ext gap ?n =
      map (\<lambda>j. (lo + int j * (int item + gap), if j = ?n - 1 then ext - item * (?n - 1) - ?G else item)) [0..<?n]"
    unfolding parts_of_def Let_def item_def [symmetric] ..
  show ?thesis
    unfolding sl item_def [symmetric] ex pa
    by (rule nth_equalityI) (use nth in \<open>simp_all del: One_nat_def\<close>)
qed

section \<open>Lines\<close>

lemma sum_u32_fold: "s + sum_list xs < 4294967296 \<Longrightarrow> fold (\<lambda>x s. add_u32 s x) xs s = s + sum_list xs"
  by (induction xs arbitrary: s) (simp_all add: add.assoc)

lemma sum_u32_id: "sum_list xs < 4294967296 \<Longrightarrow> sum_u32 xs = sum_list xs"
  by (simp add: sum_u32_def sum_u32_fold)

lemma sum_take_Suc: "j < length xs \<Longrightarrow> sum_list (map f (take (Suc j) xs)) = sum_list (map f (take j xs)) + (f (xs ! j) :: nat)"
  by (simp add: take_Suc_conv_app_nth)

lemma sum_take_le: "sum_list (map f (take j xs)) \<le> (sum_list (map f xs) :: nat)"
  by (metis append_take_drop_id le_add1 map_append sum_list_append)

text \<open>The main extent of a line of items without growth: the items and the gaps between them.\<close>

definition line_extent :: "bool \<Rightarrow> nat \<Rightarrow> layout_item list \<Rightarrow> nat" where
  "line_extent is_row gap line = sum_list (map (item_basis is_row) line) + (length line - 1) * gap"

lemma line_extent_snoc: "line \<noteq> [] \<Longrightarrow> line_extent is_row gap (line @ [c]) = line_extent is_row gap line + gap + item_basis is_row c"
  by (cases line) (simp_all add: line_extent_def)

lemma line_extent_append_le: "line_extent is_row gap xs \<le> line_extent is_row gap (xs @ ys)" "line_extent is_row gap ys \<le> line_extent is_row gap (xs @ ys)"
proof -
  have "(length xs - 1) * gap \<le> (length (xs @ ys) - 1) * gap" "(length ys - 1) * gap \<le> (length (xs @ ys) - 1) * gap"
    by (intro mult_le_mono1; simp)+
  then show "line_extent is_row gap xs \<le> line_extent is_row gap (xs @ ys)" "line_extent is_row gap ys \<le> line_extent is_row gap (xs @ ys)"
    unfolding line_extent_def map_append sum_list_append by linarith+
qed

lemma break_lines_spec:
  assumes gap: "0 \<le> gap" "gap < 4294967296"
  shows "line_extent is_row (nat gap) (line @ children) < 4294967296 \<Longrightarrow> used = line_extent is_row (nat gap) line \<Longrightarrow>
      line = [] \<or> length line = 1 \<or> line_extent is_row (nat gap) line \<le> main_size \<Longrightarrow>
    concat (break_lines is_row main_size gap line used children) = line @ children \<and>
    (\<forall>l \<in> set (break_lines is_row main_size gap line used children). l \<noteq> [] \<and> (length l = 1 \<or> line_extent is_row (nat gap) l \<le> main_size)) \<and>
    successively (\<lambda>l l'. main_size < line_extent is_row (nat gap) l + nat gap + item_basis is_row (hd l'))
      (break_lines is_row main_size gap line used children) \<and>
    (line \<noteq> [] \<longrightarrow> break_lines is_row main_size gap line used children \<noteq> [] \<and> hd (hd (break_lines is_row main_size gap line used children)) = hd line)"
proof (induction children arbitrary: line used)
  case (Cons child children)
  let ?ext = "line_extent is_row (nat gap)" and ?break = "break_lines is_row main_size gap"
  let ?b = "item_basis is_row child"
  have g: "as_u32 gap = nat gap" using gap by simp
  show ?case
  proof (cases "line = []")
    case True
    have "?ext [child] = ?b" by (simp add: line_extent_def)
    moreover have "?ext [child] < 4294967296" using Cons.prems(1) True line_extent_append_le(1) [of is_row "nat gap" "[child]" children] by simp
    moreover have "used = 0" using Cons.prems(2) True by (simp add: line_extent_def)
    ultimately have "?break line used (child # children) = ?break [child] (?ext [child]) children" using True by simp
    then show ?thesis using Cons.IH [of "[child]" "?ext [child]"] Cons.prems(1) True by auto
  next
    case False
    have ext: "?ext (line @ [child]) = used + nat gap + ?b" using line_extent_snoc [OF False] Cons.prems(2) by simp
    moreover have "?ext (line @ [child]) < 4294967296"
      using Cons.prems(1) line_extent_append_le(1) [of is_row "nat gap" "line @ [child]" children] by simp
    ultimately have sum: "add_u32 (add_u32 used (nat gap)) ?b = ?ext (line @ [child])" by simp
    show ?thesis
    proof (cases "main_size < ?ext (line @ [child])")
      case True
      have one: "?ext [child] = ?b" by (simp add: line_extent_def)
      have "add_u32 0 ?b = ?b" using ext \<open>?ext (line @ [child]) < 4294967296\<close> by simp
      then have br: "?break line used (child # children) = line # ?break [child] (?ext [child]) children"
        using True False sum g one by (simp add: Let_def)
      have "?ext (child # children) < 4294967296" using Cons.prems(1) line_extent_append_le(2) [of is_row "nat gap" "child # children" line] by simp
      then have IH: "concat (?break [child] (?ext [child]) children) = [child] @ children"
        "\<forall>l \<in> set (?break [child] (?ext [child]) children). l \<noteq> [] \<and> (length l = 1 \<or> ?ext l \<le> main_size)"
        "successively (\<lambda>l l'. main_size < ?ext l + nat gap + item_basis is_row (hd l')) (?break [child] (?ext [child]) children)"
        "?break [child] (?ext [child]) children \<noteq> []" "hd (hd (?break [child] (?ext [child]) children)) = child"
        using Cons.IH [of "[child]" "?ext [child]"] by auto
      have "main_size < ?ext line + nat gap + item_basis is_row (hd (hd (?break [child] (?ext [child]) children)))"
        using True ext Cons.prems(2) IH(5) by simp
      then show ?thesis unfolding br using IH False Cons.prems(3) by (auto simp: successively_Cons)
    next
      case False2: False
      have br: "?break line used (child # children) = ?break (line @ [child]) (?ext (line @ [child])) children"
        using False False2 sum g by (simp add: Let_def)
      show ?thesis unfolding br using Cons.IH [of "line @ [child]" "?ext (line @ [child])"] Cons.prems(1) False False2 by auto
    qed
  qed
qed auto

lemma line_items_nth:
  "pos + sum_list (map main cs) + length cs * gs < 4294967296 \<Longrightarrow>
   length (line_items main place gs pos cs) = length cs \<and>
   (\<forall>j < length cs. line_items main place gs pos cs ! j =
      (li_id (cs ! j), place (cs ! j) (pos + sum_list (map main (take j cs)) + j * gs) (main (cs ! j))))"
proof (induction cs arbitrary: pos)
  case (Cons c cs)
  have p: "add_u32 (add_u32 pos (main c)) gs = pos + main c + gs" using Cons.prems by (simp add: add.assoc)
  have "pos + main c + gs + sum_list (map main cs) + length cs * gs < 4294967296" using Cons.prems by simp
  note IH = Cons.IH [OF this]
  show ?case using IH by (auto simp: p nth_Cons ac_simps split: nat.splits)
qed simp

lemma total_grow_zero: "list_all (\<lambda>c. li_flex_grow c = FFin 0) line \<Longrightarrow> total_grow line = FFin 0"
proof -
  have "fold (\<lambda>c s. f32_add s (li_flex_grow c)) line (FFin 0) = FFin 0" if "list_all (\<lambda>c. li_flex_grow c = FFin 0) line"
    using that by (induction line) (simp_all add: f32_round_def)
  then show "list_all (\<lambda>c. li_flex_grow c = FFin 0) line \<Longrightarrow> total_grow line = FFin 0" by (simp add: total_grow_def)
qed

lemma item_main_size_le: "item_basis is_row c < 4294967296 \<Longrightarrow> item_main_size is_row (FFin 0) available c \<le> item_basis is_row c"
  by (auto simp: item_main_size_def grow_share_def limit_by_def split: option.splits)

text \<open>The start and the extra gap use up at most the space that is left.\<close>

lemma justify_fits:
  assumes "0 < count" "count < 2147483648" "justify \<noteq> SpaceAround"
  shows "start_pos justify available count + (count - 1) * extra_gap_of justify available count \<le> available"
  using assms by (cases justify) (auto simp: start_pos_def extra_gap_of_def times_u32_def)

definition main_lo :: "bool \<Rightarrow> rect \<Rightarrow> int" where
  "main_lo is_row r = (if is_row then rx r else ry r)"

definition main_len :: "bool \<Rightarrow> rect \<Rightarrow> nat" where
  "main_len is_row r = (if is_row then rwidth r else rheight r)"

lemma place_item_main:
  assumes "rect_ok c" "pos \<le> main_len is_row c"
  shows "main_lo is_row (place_item is_row c pos cp off main cross) = main_lo is_row c + int pos"
    "main_len is_row (place_item is_row c pos cp off main cross) = main"
  using assms by (auto simp: place_item_def main_lo_def main_len_def rect_new_def rect_ok_def in_i32_def i32_id [unfolded in_i32_def])

lemma flex_line_main:
  assumes c: "rect_ok c" and n: "line \<noteq> []" and grow: "list_all (\<lambda>i. li_flex_grow i = FFin 0) line"
    and gap: "0 \<le> gap" "gap < 1073741824" and big: "main_len is_row c < 1073741824" and fit: "line_extent is_row (nat gap) line \<le> main_len is_row c"
    and j: "justify \<noteq> SpaceAround"
  defines "av \<equiv> main_len is_row c - line_extent is_row (nat gap) line" and "cnt \<equiv> length line"
  defines "start \<equiv> (if 0 < av then start_pos justify av cnt else 0)" and "extra \<equiv> (if 0 < av then extra_gap_of justify av cnt else 0)"
    and "m \<equiv> item_main_size is_row (FFin 0) av"
  assumes cn: "length line < 2147483648"
  shows "length (flex_line is_row wrap justify align c gap cp line) = cnt"
    and "\<And>k. k < cnt \<Longrightarrow> fst (flex_line is_row wrap justify align c gap cp line ! k) = li_id (line ! k)"
    and "\<And>k. k < cnt \<Longrightarrow> main_lo is_row (snd (flex_line is_row wrap justify align c gap cp line ! k)) =
      main_lo is_row c + int (start + sum_list (map m (take k line)) + k * (nat gap + extra))"
    and "\<And>k. k < cnt \<Longrightarrow> main_len is_row (snd (flex_line is_row wrap justify align c gap cp line ! k)) = m (line ! k)"
    and "\<And>k. k < cnt \<Longrightarrow> start + sum_list (map m (take (Suc k) line)) + k * (nat gap + extra) \<le> main_len is_row c"
proof -
  have cnt: "0 < cnt" using n by (simp add: cnt_def)
  let ?B = "sum_list (map (item_basis is_row) line)"
  have B: "?B + (cnt - 1) * nat gap \<le> main_len is_row c" using fit by (simp add: line_extent_def cnt_def)
  have bas: "item_basis is_row i \<le> ?B" if "i \<in> set line" for i using that by (intro member_le_sum_list) auto
  have mle: "sum_list (map m line) \<le> ?B"
    using bas B big by (intro sum_list_mono) (auto simp: m_def intro!: item_main_size_le le_less_trans [OF bas])
  have sf: "start + (cnt - 1) * extra \<le> av" using justify_fits [OF cnt _ j, of av] cn by (auto simp: start_def extra_def cnt_def)
  have "gaps_of cnt gap = int ((cnt - 1) * nat gap)"
    using B big cn by (intro gaps_of_exact gap(1)) (simp_all add: cnt_def)
  moreover have "(cnt - 1) * nat gap < 4294967296" using B big by linarith
  ultimately have tg: "as_u32 (max (gaps_of cnt gap) 0) = (cnt - 1) * nat gap" by (metis as_u32_nat max.absorb1 of_nat_0_le_iff)
  have sb: "sum_u32 (map (item_basis is_row) line) = ?B" using B big by (intro sum_u32_id) linarith
  have ext: "line_extent is_row (nat gap) line = ?B + (cnt - 1) * nat gap" by (simp add: line_extent_def cnt_def)
  have avail: "main_len is_row c - add_u32 (sum_u32 (map (item_basis is_row) line)) (as_u32 (max (gaps_of cnt gap) 0)) = av"
    using B big by (simp add: sb tg av_def ext)
  have ex: "extra \<le> av" if "1 < cnt"
  proof -
    have "1 * extra \<le> (cnt - 1) * extra" using that by (intro mult_le_mono1) simp
    then show ?thesis using sf by linarith
  qed
  have ex1: "extra = 0" if "\<not> 1 < cnt" using that j by (auto simp: extra_def extra_gap_of_def)
  have exs: "extra < 1073741824" using ex ex1 big by (cases "1 < cnt") (auto simp: av_def)
  have gs: "add_u32 (as_u32 gap) extra = nat gap + extra" using gap exs by simp
  have inside: "start + sum_list (map m line) + (cnt - 1) * (nat gap + extra) \<le> main_len is_row c"
    unfolding distrib_left using sf mle B unfolding av_def ext by linarith
  have bound: "start + sum_list (map m line) + length line * (nat gap + extra) < 4294967296"
  proof -
    have "length line * (nat gap + extra) = (cnt - 1) * (nat gap + extra) + (nat gap + extra)" using cnt by (cases cnt) (simp_all add: cnt_def)
    then show ?thesis using inside big gap exs by linarith
  qed
  let ?place = "\<lambda>child pos main. let cross = item_cross_size is_row align (line_cross_size is_row wrap c line) child
      in place_item is_row c pos cp (align_offset align (line_cross_size is_row wrap c line) cross) main cross"
  have ml: "(if is_row then rwidth c else rheight c) = main_len is_row c" by (simp add: main_len_def)
  have still: "(f32_is_zero (FFin 0) \<and> 0 < av) = (0 < av)" by (simp add: f32_is_zero_def)
  have fl: "flex_line is_row wrap justify align c gap cp line = line_items m ?place (nat gap + extra) start line"
    unfolding flex_line_def Let_def ml total_grow_zero [OF grow] cnt_def [symmetric] avail still start_def [symmetric] extra_def [symmetric]
      gs if_not_P [OF j] m_def ..
  note nth = line_items_nth [OF bound, of ?place]
  show "length (flex_line is_row wrap justify align c gap cp line) = cnt" using nth by (simp add: fl cnt_def)
  fix k assume k: "k < cnt"
  have item: "flex_line is_row wrap justify align c gap cp line ! k =
      (li_id (line ! k), ?place (line ! k) (start + sum_list (map m (take k line)) + k * (nat gap + extra)) (m (line ! k)))"
    using nth k by (simp add: fl cnt_def)
  then show "fst (flex_line is_row wrap justify align c gap cp line ! k) = li_id (line ! k)" by simp
  have "sum_list (map m (take (Suc k) line)) \<le> sum_list (map m line)" by (rule sum_take_le)
  moreover have "k * (nat gap + extra) \<le> (cnt - 1) * (nat gap + extra)" using k by (intro mult_le_mono1) simp
  ultimately show le: "start + sum_list (map m (take (Suc k) line)) + k * (nat gap + extra) \<le> main_len is_row c" using inside by linarith
  have "sum_list (map m (take (Suc k) line)) = sum_list (map m (take k line)) + m (line ! k)" using k by (intro sum_take_Suc) (simp add: cnt_def)
  then have "start + sum_list (map m (take k line)) + k * (nat gap + extra) \<le> main_len is_row c" using le by linarith
  note pl = place_item_main [OF c this]
  show "main_lo is_row (snd (flex_line is_row wrap justify align c gap cp line ! k)) =
      main_lo is_row c + int (start + sum_list (map m (take k line)) + k * (nat gap + extra))"
    "main_len is_row (snd (flex_line is_row wrap justify align c gap cp line ! k)) = m (line ! k)"
    unfolding item snd_conv Let_def using pl by blast+
qed

section \<open>Properties\<close>

definition modest :: "rect \<Rightarrow> int \<Rightarrow> bool" where
  "modest c gap \<longleftrightarrow> \<bar>rx c\<bar> < 536870912 \<and> \<bar>ry c\<bar> < 536870912 \<and> rwidth c < 536870912 \<and> rheight c < 536870912 \<and> 0 \<le> gap \<and> gap < 536870912"

text \<open>
  Rows and columns tile their container. With room for the gaps, the items of a row (a column)
  lie in order, one gap apart, from the left (upper) edge of the container exactly to the right
  (lower) edge, at its full height (width); all are equally wide but the last, which takes the
  remainder of the division.
\<close>

theorem row_column_tile:
  assumes m: "modest c gap" and ch: "children \<noteq> []" "length children < 2147483648"
    and w: "(length children - 1) * nat gap \<le> rwidth c" and h: "(length children - 1) * nat gap \<le> rheight c"
  shows "map fst (layout c LRow children gap) = map li_id children \<and> map fst (layout c LColumn children gap) = map li_id children \<and>
    tiles (rx c) (rwidth c) gap (map (\<lambda>(_, r). (rx r, rwidth r)) (layout c LRow children gap)) \<and>
    tiles (ry c) (rheight c) gap (map (\<lambda>(_, r). (ry r, rheight r)) (layout c LColumn children gap)) \<and>
    (\<forall>(_, r) \<in> set (layout c LRow children gap). ry r = ry c \<and> rheight r = rheight c) \<and>
    (\<forall>(_, r) \<in> set (layout c LColumn children gap). rx r = rx c \<and> rwidth r = rwidth c)"
proof -
  let ?n = "length children"
  have ok: "in_i32 (rx c)" "in_i32 (rx c + int (rwidth c) + gap)" "in_i32 (int (rwidth c))" "in_i32 (int (rwidth c) + gap)"
    "in_i32 (ry c)" "in_i32 (ry c + int (rheight c) + gap)" "in_i32 (int (rheight c))" "in_i32 (int (rheight c) + gap)"
    and gap: "0 \<le> gap" "gap < 2147483648"
    using m by (auto simp: modest_def in_i32_def)
  have n: "0 < ?n" using ch by simp
  have row: "layout c LRow children gap = map2 (\<lambda>i (p, s). (li_id i, rect_new p (ry c) s (rheight c))) children (parts_of (rx c) (rwidth c) gap ?n)"
    using equal_parts_tile [OF n ch(2) gap w ok(1-4), of "\<lambda>x w. rect_new x (ry c) w (rheight c)"] ch(1)
    by (simp add: layout_def layout_row_def Let_def)
  have col: "layout c LColumn children gap = map2 (\<lambda>i (p, s). (li_id i, rect_new (rx c) p (rwidth c) s)) children (parts_of (ry c) (rheight c) gap ?n)"
    using equal_parts_tile [OF n ch(2) gap h ok(5-8), of "\<lambda>y h. rect_new (rx c) y (rwidth c) h"] ch(1)
    by (simp add: layout_def layout_column_def Let_def)
  have len: "length (parts_of lo sz gap ?n) = ?n" for lo sz by (simp add: parts_of_def Let_def)
  have ids: "map fst (map2 (\<lambda>i (p, s). (li_id i, f p s)) children ps) = map li_id children" if "length ps = ?n" for f :: "int \<Rightarrow> nat \<Rightarrow> rect" and ps
    using that by (intro nth_equalityI) (auto split: prod.splits)
  have geo: "map (\<lambda>(_, r). g r) (map2 (\<lambda>i (p, s). (li_id i, f p s)) children ps) = ps" if "length ps = ?n" "\<And>p s. g (f p s) = (p, s)"
    for f :: "int \<Rightarrow> nat \<Rightarrow> rect" and ps and g :: "rect \<Rightarrow> int \<times> nat"
    using that by (intro nth_equalityI) (auto split: prod.splits)
  have "tiles (rx c) (rwidth c) gap (map (\<lambda>(_, r). (rx r, rwidth r)) (layout c LRow children gap))"
    unfolding row by (subst geo [OF len]) (simp_all add: rect_new_def parts_tile [OF n gap(1) w])
  moreover have "tiles (ry c) (rheight c) gap (map (\<lambda>(_, r). (ry r, rheight r)) (layout c LColumn children gap))"
    unfolding col by (subst geo [OF len]) (simp_all add: rect_new_def parts_tile [OF n gap(1) h])
  moreover have "\<forall>(_, r) \<in> set (layout c LRow children gap). ry r = ry c \<and> rheight r = rheight c"
    unfolding row by (auto simp: rect_new_def)
  moreover have "\<forall>(_, r) \<in> set (layout c LColumn children gap). rx r = rx c \<and> rwidth r = rwidth c"
    unfolding col by (auto simp: rect_new_def)
  ultimately show ?thesis using ids [OF len] by (simp add: row col)
qed

definition demo_item :: "uuid \<Rightarrow> nat \<Rightarrow> nat \<Rightarrow> layout_item" where
  "demo_item i w h = layout_item_default\<lparr>li_id := i, li_min_width := w, li_min_height := h\<rparr>"

theorem row_column_tile_witness:
  "tiles 10 101 5 (map (\<lambda>(_, r). (rx r, rwidth r)) (layout (rect_new 10 20 101 60) LRow [demo_item 1 0 0, demo_item 2 0 0, demo_item 3 0 0] 5))"
  using row_column_tile [of "rect_new 10 20 101 60" 5 "[demo_item 1 0 0, demo_item 2 0 0, demo_item 3 0 0]"]
  by (simp add: modest_def rect_new_def)

text \<open>
  A line of fixed items stays inside its container. With no growing item and room for all of
  them, a flexible layout that neither wraps nor surrounds its items with space places every child, in
  order, between the two edges of the main axis, and at least one gap after its predecessor.
\<close>

theorem flex_items_inside:
  assumes c: "rect_ok c" "main_len is_row c < 1073741824" and children: "children \<noteq> []" "length children < 2147483648"
    and grow: "list_all (\<lambda>i. li_flex_grow i = FFin 0) children" and gap: "0 \<le> gap" "gap < 1073741824"
    and fit: "line_extent is_row (nat gap) children \<le> main_len is_row c" and j: "justify \<noteq> SpaceAround"
    and dir: "is_row = (direction = DirRow)"
  shows "map fst (layout c (LFlex direction NoWrap justify align) children gap) = map li_id children \<and>
    (\<forall>k < length children. let r = snd (layout c (LFlex direction NoWrap justify align) children gap ! k)
       in main_lo is_row c \<le> main_lo is_row r \<and> main_lo is_row r + int (main_len is_row r) \<le> main_lo is_row c + int (main_len is_row c) \<and>
          (0 < k \<longrightarrow> (let p = snd (layout c (LFlex direction NoWrap justify align) children gap ! (k - 1))
             in main_lo is_row p + int (main_len is_row p) + gap \<le> main_lo is_row r)))"
proof -
  have l: "layout c (LFlex direction NoWrap justify align) children gap = flex_line is_row NoWrap justify align c gap 0 children"
    using children(1) by (simp add: layout_def Let_def dir)
  note L = flex_line_main(1-4) [OF c(1) children(1) grow gap c(2) fit j children(2), where wrap = NoWrap and align = align and cp = 0, folded l]
    flex_line_main(5) [OF c(1) children(1) grow gap c(2) fit j children(2)]
  define av st ex m where "av = main_len is_row c - line_extent is_row (nat gap) children"
    and "st = (if 0 < av then start_pos justify av (length children) else 0)"
    and "ex = (if 0 < av then extra_gap_of justify av (length children) else 0)" and "m = item_main_size is_row (FFin 0) av"
  let ?r = "\<lambda>k. snd (layout c (LFlex direction NoWrap justify align) children gap ! k)"
  define pos where "pos k = st + sum_list (map m (take k children)) + k * (nat gap + ex)" for k
  have r: "main_lo is_row (?r k) = main_lo is_row c + int (pos k)" "main_len is_row (?r k) = m (children ! k)"
    "pos k + m (children ! k) \<le> main_len is_row c" if "k < length children" for k
    using L(3-5) [OF that, folded av_def, folded st_def ex_def m_def] sum_take_Suc [OF that, of m] by (simp_all add: pos_def)
  have next_pos: "pos (Suc k) = pos k + m (children ! k) + nat gap + ex" if "k < length children" for k
    using sum_take_Suc [OF that, of m] by (simp add: pos_def)
  have "map fst (layout c (LFlex direction NoWrap justify align) children gap) = map li_id children"
    using L(1,2) by (intro nth_equalityI) simp_all
  moreover have "main_lo is_row c \<le> main_lo is_row (?r k) \<and> main_lo is_row (?r k) + int (main_len is_row (?r k)) \<le> main_lo is_row c + int (main_len is_row c) \<and>
      (0 < k \<longrightarrow> main_lo is_row (?r (k - 1)) + int (main_len is_row (?r (k - 1))) + gap \<le> main_lo is_row (?r k))" if k: "k < length children" for k
  proof (cases k)
    case 0
    then show ?thesis using r [OF k] by simp
  next
    case (Suc i)
    then have i: "i < length children" using k by simp
    have "pos k = pos i + m (children ! i) + nat gap + ex" using next_pos [OF i] Suc by simp
    then show ?thesis unfolding r(1,2) [OF k] using r [OF k] r(1,2) [OF i] gap(1) Suc by simp
  qed
  ultimately show ?thesis unfolding Let_def by blast
qed

theorem flex_items_inside_witness:
  "map fst (layout (rect_new 10 20 100 40) (LFlex DirRow NoWrap SpaceBetween ACenter) [demo_item 1 20 10, demo_item 2 30 20] 4) = [1, 2]"
  using flex_items_inside [of "rect_new 10 20 100 40" True "[demo_item 1 20 10, demo_item 2 30 20]" 4 SpaceBetween DirRow ACenter]
  by (simp add: rect_new_def rect_ok_def in_i32_def main_len_def demo_item_def layout_item_default_def line_extent_def item_basis_def)

text \<open>
  Wrapping is greedy. The lines are the children in order, none is empty, a line of more than one
  child fits the main size, and no line could have taken the first child of the next one as well.
\<close>

theorem flex_lines_greedy:
  assumes "0 \<le> gap" "gap < 4294967296" "line_extent is_row (nat gap) children < 4294967296"
  shows "let lines = break_lines is_row main_size gap [] 0 children
    in concat lines = children \<and> (\<forall>l \<in> set lines. l \<noteq> [] \<and> (length l = 1 \<or> line_extent is_row (nat gap) l \<le> main_size)) \<and>
       successively (\<lambda>l l'. main_size < line_extent is_row (nat gap) l + nat gap + item_basis is_row (hd l')) lines"
  using break_lines_spec [of gap is_row "[]" children 0 main_size] assms by (simp add: Let_def line_extent_def)

theorem flex_lines_greedy_witness:
  "concat (break_lines True 100 10 [] 0 [demo_item 1 40 10, demo_item 2 50 10, demo_item 3 60 10]) =
     [demo_item 1 40 10, demo_item 2 50 10, demo_item 3 60 10]"
  using flex_lines_greedy [of 10 True "[demo_item 1 40 10, demo_item 2 50 10, demo_item 3 60 10]" 100]
  by (simp add: line_extent_def item_basis_def demo_item_def layout_item_default_def Let_def)

text \<open>
  Space around overflows. For two fixed items with eight or more pixels to spare, surrounding the
  items with space pushes the second one past the end of the container: the loop adds a full share of the
  space twice between the items, where each side of an item is due half a share.
\<close>

theorem space_around_overflows:
  assumes md: "modest c gap" and g: "li_flex_grow a = FFin 0" "li_flex_grow b = FFin 0"
    and mx: "li_max_width a = None" "li_max_width b = None"
    and spare: "li_min_width a + li_min_width b + nat gap + 8 \<le> rwidth c"
  shows "let r = snd (layout c (LFlex DirRow NoWrap SpaceAround align) [a, b] gap ! 1)
    in rx c + int (rwidth c) < rx r + int (rwidth r)"
proof -
  have c: "\<bar>rx c\<bar> < 536870912" "rwidth c < 536870912" and gap: "0 \<le> gap" "gap < 536870912" using md by (simp_all add: modest_def)
  define av where "av = rwidth c - (li_min_width a + li_min_width b + nat gap)"
  have av: "8 \<le> av" "av \<le> rwidth c" "rwidth c = av + li_min_width a + li_min_width b + nat gap" using spare by (simp_all add: av_def)
  have grow: "total_grow [a, b] = FFin 0" using g by (intro total_grow_zero) simp
  have tg: "as_u32 (max (gaps_of 2 gap) 0) = nat gap" using gap by (simp add: gaps_of_def i32_id [unfolded in_i32_def])
  have sb: "sum_u32 [li_min_width a, li_min_width b] = li_min_width a + li_min_width b" using av c by (subst sum_u32_id) simp_all
  have still: "rwidth c - add_u32 (sum_u32 (map (item_basis True) [a, b])) (as_u32 (max (gaps_of 2 gap) 0)) = av"
    using av(3) c(2) gap by (simp add: tg sb item_basis_def)
  have main: "item_main_size True (FFin 0) av i = li_min_width i" if "i = a \<or> i = b" for i
    using that av c mx by (auto simp: item_main_size_def grow_share_def limit_by_def item_basis_def)
  have jp: "start_pos SpaceAround av 2 = av div 4" "extra_gap_of SpaceAround av 2 = av div 2"
    by (simp_all add: start_pos_def extra_gap_of_def times_u32_def)
  let ?pos = "av div 4 + li_min_width a + (nat gap + av div 2 + av div 2)"
  have step: "add_u32 (add_u32 (av div 4) (li_min_width a)) (add_u32 (add_u32 (as_u32 gap) (av div 2)) (av div 2)) = ?pos"
    using av c gap by simp
  let ?place = "\<lambda>child pos main. let cross = item_cross_size True align (line_cross_size True NoWrap c [a, b]) child
      in place_item True c pos 0 (align_offset align (line_cross_size True NoWrap c [a, b]) cross) main cross"
  have two: "length [a, b] = 2" by simp
  have ifs: "(if f32_is_zero (FFin 0) \<and> 0 < av then x else y) = x" for x y :: nat using av(1) by (simp add: f32_is_zero_def)
  have "flex_line True NoWrap SpaceAround align c gap 0 [a, b] =
      line_items (item_main_size True (FFin 0) av) ?place (add_u32 (add_u32 (as_u32 gap) (av div 2)) (av div 2)) (av div 4) [a, b]"
    unfolding flex_line_def Let_def grow two if_True still ifs jp if_P [OF refl] ..
  moreover have "layout c (LFlex DirRow NoWrap SpaceAround align) [a, b] gap = flex_line True NoWrap SpaceAround align c gap 0 [a, b]"
    by (simp add: layout_def)
  ultimately have "snd (layout c (LFlex DirRow NoWrap SpaceAround align) [a, b] gap ! 1) = ?place b ?pos (li_min_width b)"
    by (simp only: line_items.simps nth_Cons_Suc One_nat_def nth_Cons_0 snd_conv main [OF disjI1 [OF refl]] main [OF disjI2 [OF refl]] step)
  then have "\<exists>cp off cross. snd (layout c (LFlex DirRow NoWrap SpaceAround align) [a, b] gap ! 1) = place_item True c ?pos cp off (li_min_width b) cross"
    unfolding Let_def by blast
  moreover have "in_i32 (rx c + int ?pos)" "in_i32 (int ?pos)" using c av(2,3) gap unfolding in_i32_def by linarith+
  then have "rx (place_item True c ?pos cp off w cross) = rx c + int ?pos" "rwidth (place_item True c ?pos cp off w cross) = w" for cp off w cross
    by (simp_all add: place_item_def rect_new_def)
  moreover have "rwidth c < ?pos + li_min_width b" using av by linarith
  ultimately show ?thesis unfolding Let_def by fastforce
qed

theorem space_around_overflows_witness:
  "let r = snd (layout (rect_new 0 0 100 40) (LFlex DirRow NoWrap SpaceAround AStart) [demo_item 1 20 10, demo_item 2 20 10] 0 ! 1)
   in 100 < rx r + int (rwidth r)"
  using space_around_overflows [of "rect_new 0 0 100 40" 0 "demo_item 1 20 10" "demo_item 2 20 10" AStart]
  by (simp add: rect_new_def modest_def demo_item_def layout_item_default_def)

end
