(* ===== verification/User_Canon.thy ===== *)
theory User_Canon
  imports Canon
begin

text \<open>
  The dictionary of user programs (module \<open>canon\<close> of \<open>src/userland/src/lib.rs\<close>), a second copy of
  the one in the kernel, and the identifiers user programs derive from names. The rest of the development
  writes a shared symbol by its kernel constant; \<open>canon_copies_agree\<close> is why it may.
\<close>

section \<open>Symbols\<close>

definition user_canon_1 :: "(string \<times> symbol) list" where
  "user_canon_1 = [
    (''JOURNAL'', cc (CHR ''J'') (CHR ''N'')),
    (''KEYBOARD'', cc (CHR ''K'') (CHR ''B'')),
    (''KEY_PRESSED'', cc (CHR ''K'') (CHR ''P'')),
    (''KEY_EVENT'', canon (ascii CHR ''K'') (ascii CHR ''E'') (ascii CHR ''V'')),
    (''MOUSE'', cc (CHR ''M'') (CHR ''S'')),
    (''MOUSE_MOVED'', cc (CHR ''M'') (CHR ''V'')),
    (''MOUSE_MOVE'', canon (ascii CHR ''M'') (ascii CHR ''M'') (ascii CHR ''V'')),
    (''MOUSE_BUTTON'', canon (ascii CHR ''M'') (ascii CHR ''B'') (ascii CHR ''T'')),
    (''MOUSE_X'', canon (ascii CHR ''M'') (ascii CHR ''S'') (ascii CHR ''X'')),
    (''MOUSE_Y'', canon (ascii CHR ''M'') (ascii CHR ''S'') (ascii CHR ''Y'')),
    (''MOUSE_DOWN'', canon (ascii CHR ''M'') (ascii CHR ''D'') (ascii CHR ''N'')),
    (''AT'', cc (CHR ''@'') (CHR '' '')),
    (''INIT'', cc (CHR ''I'') (CHR ''N'')),
    (''FAIL'', cc (CHR ''F'') (CHR ''L'')),
    (''DRIVER'', cc (CHR ''D'') (CHR ''R'')),
    (''THING_CREATED'', cc (CHR ''T'') (CHR ''C'')),
    (''EDGE_ADDED'', cc (CHR ''E'') (CHR ''D'')),
    (''ID'', canon (ascii CHR ''I'') (ascii CHR ''D'') (ascii CHR '' '')),
    (''KIND'', canon (ascii CHR ''K'') (ascii CHR ''N'') (ascii CHR ''D'')),
    (''FIELDS'', canon (ascii CHR ''F'') (ascii CHR ''L'') (ascii CHR ''D'')),
    (''REVISION'', canon (ascii CHR ''R'') (ascii CHR ''V'') (ascii CHR ''N'')),
    (''SRC'', canon (ascii CHR ''S'') (ascii CHR ''R'') (ascii CHR ''C'')),
    (''DST'', canon (ascii CHR ''D'') (ascii CHR ''S'') (ascii CHR ''T'')),
    (''PREDICATE'', canon (ascii CHR ''P'') (ascii CHR ''R'') (ascii CHR ''D'')),
    (''NAME'', canon (ascii CHR ''N'') (ascii CHR ''A'') (ascii CHR ''M'')),
    (''STATUS'', canon (ascii CHR ''S'') (ascii CHR ''T'') (ascii CHR ''A'')),
    (''SCANCODE'', canon (ascii CHR ''S'') (ascii CHR ''C'') (ascii CHR ''N'')),
    (''KEY'', canon (ascii CHR ''K'') (ascii CHR ''E'') (ascii CHR ''Y'')),
    (''IS_MONO'', canon (ascii CHR ''M'') (ascii CHR ''O'') (ascii CHR ''N'')),
    (''TEXT_COLOR'', canon (ascii CHR ''T'') (ascii CHR ''X'') (ascii CHR ''C'')),
    (''BG_COLOR'', canon (ascii CHR ''B'') (ascii CHR ''G'') (ascii CHR ''C'')),
    (''DX'', canon (ascii CHR ''D'') (ascii CHR ''X'') (ascii CHR '' '')),
    (''DY'', canon (ascii CHR ''D'') (ascii CHR ''Y'') (ascii CHR '' '')),
    (''BUTTONS'', canon (ascii CHR ''B'') (ascii CHR ''T'') (ascii CHR ''N'')),
    (''WRITE'', canon (ascii CHR ''W'') (ascii CHR ''R'') (ascii CHR ''T'')),
    (''TEXT'', canon (ascii CHR ''T'') (ascii CHR ''X'') (ascii CHR ''T'')),
    (''TARGET'', canon (ascii CHR ''T'') (ascii CHR ''G'') (ascii CHR ''T'')),
    (''STDOUT'', canon (ascii CHR ''S'') (ascii CHR ''T'') (ascii CHR ''D'')),
    (''COMPOSITOR'', canon (ascii CHR ''C'') (ascii CHR ''M'') (ascii CHR ''P'')),
    (''WINDOW'', canon (ascii CHR ''W'') (ascii CHR ''I'') (ascii CHR ''N'')),
    (''PIXMAP'', canon (ascii CHR ''P'') (ascii CHR ''X'') (ascii CHR ''M'')),
    (''STREAMS'', canon (ascii CHR ''S'') (ascii CHR ''T'') (ascii CHR ''M'')),
    (''COMPOSED_BY'', canon (ascii CHR ''C'') (ascii CHR ''M'') (ascii CHR ''B'')),
    (''WINDOW_CREATED'', canon (ascii CHR ''W'') (ascii CHR ''C'') (ascii CHR ''R'')),
    (''WINDOW_BUFFER_UPDATED'', canon (ascii CHR ''W'') (ascii CHR ''B'') (ascii CHR ''U'')),
    (''FRAME_READY'', canon (ascii CHR ''F'') (ascii CHR ''R'') (ascii CHR ''M'')),
    (''SURFACE'', canon (ascii CHR ''S'') (ascii CHR ''F'') (ascii CHR ''C'')),
    (''CURSOR'', canon (ascii CHR ''C'') (ascii CHR ''R'') (ascii CHR ''S'')),
    (''STYLE'', canon (ascii CHR ''S'') (ascii CHR ''T'') (ascii CHR ''Y'')),
    (''LAUNCH_INTENT'', canon (ascii CHR ''L'') (ascii CHR ''N'') (ascii CHR ''C'')),
    (''DRIVER_INPUT'', canon (ascii CHR ''I'') (ascii CHR ''N'') (ascii CHR ''P'')),
    (''DRIVER_DISPLAY'', canon (ascii CHR ''D'') (ascii CHR ''S'') (ascii CHR ''P'')),
    (''DRIVER_STORAGE'', canon (ascii CHR ''S'') (ascii CHR ''T'') (ascii CHR ''R'')),
    (''DRIVER_TIMER'', canon (ascii CHR ''T'') (ascii CHR ''M'') (ascii CHR ''R'')),
    (''DRIVER_OTHER'', canon (ascii CHR ''O'') (ascii CHR ''T'') (ascii CHR ''H'')),
    (''TITLE'', canon (ascii CHR ''T'') (ascii CHR ''T'') (ascii CHR ''L'')),
    (''GAP'', canon (ascii CHR ''G'') (ascii CHR ''A'') (ascii CHR ''P'')),
    (''IS_ROOT'', canon (ascii CHR ''I'') (ascii CHR ''S'') (ascii CHR ''R'')),
    (''MODE_INDEX'', canon (ascii CHR ''M'') (ascii CHR ''D'') (ascii CHR ''X'')),
    (''WINDOW_RECT'', canon (ascii CHR ''W'') (ascii CHR ''R'') (ascii CHR ''C'')),
    (''X'', canon (ascii CHR ''X'') (ascii CHR '' '') (ascii CHR '' '')),
    (''TOOLBAR'', canon (ascii CHR ''T'') (ascii CHR ''L'') (ascii CHR ''B'')),
    (''TOOLBAR_BUTTON'', canon (ascii CHR ''T'') (ascii CHR ''B'') (ascii CHR ''T'')),
    (''ICON'', canon (ascii CHR ''I'') (ascii CHR ''C'') (ascii CHR ''N'')),
    (''ACTIVATED'', canon (ascii CHR ''A'') (ascii CHR ''C'') (ascii CHR ''T'')),
    (''Y'', canon (ascii CHR ''Y'') (ascii CHR '' '') (ascii CHR '' '')),
    (''SCROLL_Y'', canon (ascii CHR ''S'') (ascii CHR ''C'') (ascii CHR ''Y'')),
    (''MAX_SCROLL'', canon (ascii CHR ''M'') (ascii CHR ''X'') (ascii CHR ''S'')),
    (''CONTENT_HEIGHT'', canon (ascii CHR ''C'') (ascii CHR ''T'') (ascii CHR ''H'')),
    (''THUMB_OFFSET'', canon (ascii CHR ''T'') (ascii CHR ''O'') (ascii CHR ''F'')),
    (''THUMB_HEIGHT'', canon (ascii CHR ''T'') (ascii CHR ''H'') (ascii CHR ''T'')),
    (''Z'', canon (ascii CHR ''Z'') (ascii CHR ''I'') (ascii CHR ''N'')),
    (''WIDTH'', canon (ascii CHR ''W'') (ascii CHR ''D'') (ascii CHR ''T'')),
    (''MIN_WIDTH'', canon (ascii CHR ''M'') (ascii CHR ''N'') (ascii CHR ''W'')),
    (''MAX_WIDTH'', canon (ascii CHR ''M'') (ascii CHR ''X'') (ascii CHR ''W'')),
    (''HEIGHT'', canon (ascii CHR ''H'') (ascii CHR ''G'') (ascii CHR ''T'')),
    (''MIN_HEIGHT'', canon (ascii CHR ''M'') (ascii CHR ''N'') (ascii CHR ''H'')),
    (''MAX_HEIGHT'', canon (ascii CHR ''M'') (ascii CHR ''X'') (ascii CHR ''H'')),
    (''VIEWPORT_HEIGHT'', canon (ascii CHR ''V'') (ascii CHR ''P'') (ascii CHR ''H'')),
    (''PITCH'', canon (ascii CHR ''P'') (ascii CHR ''T'') (ascii CHR ''H'')),
    (''BPP'', canon (ascii CHR ''B'') (ascii CHR ''P'') (ascii CHR ''P'')),
    (''ADDR'', canon (ascii CHR ''A'') (ascii CHR ''D'') (ascii CHR ''R'')),
    (''PARENT'', canon (ascii CHR ''P'') (ascii CHR ''A'') (ascii CHR ''R'')),
    (''BUNDLE_ID'', canon (ascii CHR ''B'') (ascii CHR ''I'') (ascii CHR ''D'')),
    (''DEVICE_DRIVER'', canon (ascii CHR ''D'') (ascii CHR ''D'') (ascii CHR ''R'')),
    (''DEVICE_ID'', canon (ascii CHR ''D'') (ascii CHR ''I'') (ascii CHR ''D'')),
    (''DIRECTORY'', canon (ascii CHR ''D'') (ascii CHR ''I'') (ascii CHR ''R'')),
    (''FILE'', canon (ascii CHR ''F'') (ascii CHR ''I'') (ascii CHR ''L'')),
    (''DEVICE'', canon (ascii CHR ''D'') (ascii CHR ''E'') (ascii CHR ''V'')),
    (''EMITS'', canon (ascii CHR ''E'') (ascii CHR ''M'') (ascii CHR ''T''))]"

definition user_canon_2 :: "(string \<times> symbol) list" where
  "user_canon_2 = [
    (''FRAMEBUFFER_DEVICE'', canon (ascii CHR ''F'') (ascii CHR ''B'') (ascii CHR ''D'')),
    (''AUTOSTART'', canon (ascii CHR ''A'') (ascii CHR ''U'') (ascii CHR ''T'')),
    (''SHOW_IN_GRAPH_VIEWER'', canon (ascii CHR ''S'') (ascii CHR ''I'') (ascii CHR ''G'')),
    (''BIN_NAME'', canon (ascii CHR ''B'') (ascii CHR ''N'') (ascii CHR ''M'')),
    (''KEYBOARD_DEVICE'', canon (ascii CHR ''K'') (ascii CHR ''B'') (ascii CHR ''D'')),
    (''MOUSE_DEVICE'', canon (ascii CHR ''M'') (ascii CHR ''D'') (ascii CHR ''V'')),
    (''NIC_DEVICE'', canon (ascii CHR ''N'') (ascii CHR ''I'') (ascii CHR ''C'')),
    (''IRQ_EVENT'', canon (ascii CHR ''I'') (ascii CHR ''R'') (ascii CHR ''Q'')),
    (''DMA_EVENT'', canon (ascii CHR ''D'') (ascii CHR ''M'') (ascii CHR ''A'')),
    (''IRQ_LINE'', canon (ascii CHR ''I'') (ascii CHR ''Q'') (ascii CHR ''L'')),
    (''BUFFER'', canon (ascii CHR ''B'') (ascii CHR ''U'') (ascii CHR ''F'')),
    (''BYTES'', canon (ascii CHR ''B'') (ascii CHR ''Y'') (ascii CHR ''T'')),
    (''DONE'', canon (ascii CHR ''D'') (ascii CHR ''O'') (ascii CHR ''N'')),
    (''INPUT_DEVICE_MOUSE'', canon (ascii CHR ''I'') (ascii CHR ''D'') (ascii CHR ''M'')),
    (''INPUT_EVENT'', canon (ascii CHR ''I'') (ascii CHR ''E'') (ascii CHR ''V'')),
    (''MOVE'', canon (ascii CHR ''M'') (ascii CHR ''O'') (ascii CHR ''V'')),
    (''TS'', canon (ascii CHR ''T'') (ascii CHR ''S'') (ascii CHR '' '')),
    (''DOWN'', canon (ascii CHR ''D'') (ascii CHR ''W'') (ascii CHR ''N'')),
    (''UP'', canon (ascii CHR ''U'') (ascii CHR ''P'') (ascii CHR '' '')),
    (''BUTTON'', canon (ascii CHR ''B'') (ascii CHR ''T'') (ascii CHR ''#'')),
    (''DISPLAY_FRAMEBUFFER'', canon (ascii CHR ''D'') (ascii CHR ''F'') (ascii CHR ''B'')),
    (''DISPLAY_FRAME'', canon (ascii CHR ''D'') (ascii CHR ''F'') (ascii CHR ''R'')),
    (''CURRENT_FRAME'', canon (ascii CHR ''C'') (ascii CHR ''U'') (ascii CHR ''R'')),
    (''SEQ'', canon (ascii CHR ''S'') (ascii CHR ''E'') (ascii CHR ''Q'')),
    (''APP'', canon (ascii CHR ''A'') (ascii CHR ''P'') (ascii CHR ''P'')),
    (''BUNDLE'', canon (ascii CHR ''B'') (ascii CHR ''N'') (ascii CHR ''D'')),
    (''TYPE'', canon (ascii CHR ''T'') (ascii CHR ''Y'') (ascii CHR ''P'')),
    (''VERSION'', canon (ascii CHR ''V'') (ascii CHR ''E'') (ascii CHR ''R'')),
    (''OWNER'', canon (ascii CHR ''O'') (ascii CHR ''W'') (ascii CHR ''N'')),
    (''OWNS'', canon (ascii CHR ''O'') (ascii CHR ''W'') (ascii CHR ''S'')),
    (''HAS_CONTENT'', canon (ascii CHR ''H'') (ascii CHR ''C'') (ascii CHR ''T'')),
    (''COLOR'', canon (ascii CHR ''C'') (ascii CHR ''L'') (ascii CHR ''R'')),
    (''VISIBLE'', canon (ascii CHR ''V'') (ascii CHR ''S'') (ascii CHR ''B'')),
    (''ACTIVE'', canon (ascii CHR ''A'') (ascii CHR ''C'') (ascii CHR ''T'')),
    (''BITMAP'', canon (ascii CHR ''B'') (ascii CHR ''M'') (ascii CHR ''P'')),
    (''DIRTY'', canon (ascii CHR ''D'') (ascii CHR ''R'') (ascii CHR ''T'')),
    (''HAS_SURFACE'', canon (ascii CHR ''H'') (ascii CHR ''S'') (ascii CHR ''F'')),
    (''PRESENTS'', canon (ascii CHR ''P'') (ascii CHR ''R'') (ascii CHR ''S'')),
    (''SHARED_BUFFER'', canon (ascii CHR ''S'') (ascii CHR ''B'') (ascii CHR ''F'')),
    (''QUEUE_STATE'', canon (ascii CHR ''Q'') (ascii CHR ''S'') (ascii CHR ''T'')),
    (''BUFFER_KIND'', canon (ascii CHR ''B'') (ascii CHR ''K'') (ascii CHR ''D'')),
    (''BUFFER_USAGE'', canon (ascii CHR ''B'') (ascii CHR ''U'') (ascii CHR ''G'')),
    (''RING'', canon (ascii CHR ''R'') (ascii CHR ''I'') (ascii CHR ''N'')),
    (''LINEAR'', canon (ascii CHR ''L'') (ascii CHR ''I'') (ascii CHR ''N'')),
    (''PIPE_USAGE'', canon (ascii CHR ''P'') (ascii CHR ''I'') (ascii CHR ''P'')),
    (''SURFACE_USAGE'', canon (ascii CHR ''S'') (ascii CHR ''R'') (ascii CHR ''F'')),
    (''RX_RING_USAGE'', canon (ascii CHR ''R'') (ascii CHR ''X'') (ascii CHR ''R'')),
    (''HEAD'', canon (ascii CHR ''H'') (ascii CHR ''E'') (ascii CHR ''A'')),
    (''TAIL'', canon (ascii CHR ''T'') (ascii CHR ''A'') (ascii CHR ''I'')),
    (''HAS_DATA'', canon (ascii CHR ''H'') (ascii CHR ''D'') (ascii CHR ''T'')),
    (''CAPACITY'', canon (ascii CHR ''C'') (ascii CHR ''A'') (ascii CHR ''P'')),
    (''CAN_WRITE'', canon (ascii CHR ''C'') (ascii CHR ''W'') (ascii CHR ''R'')),
    (''CAN_LINK'', canon (ascii CHR ''C'') (ascii CHR ''L'') (ascii CHR ''K'')),
    (''CAN_HANDLE_IRQ'', canon (ascii CHR ''C'') (ascii CHR ''I'') (ascii CHR ''Q'')),
    (''CAN_DMA'', canon (ascii CHR ''C'') (ascii CHR ''D'') (ascii CHR ''M'')),
    (''CAN_MMIO'', canon (ascii CHR ''C'') (ascii CHR ''M'') (ascii CHR ''M'')),
    (''CLOUD'', canon (ascii CHR ''C'') (ascii CHR ''L'') (ascii CHR ''D'')),
    (''NEXT'', cc (CHR ''N'') (CHR ''X'')),
    (''PACKAGE'', canon (ascii CHR ''P'') (ascii CHR ''K'') (ascii CHR ''G'')),
    (''TASK'', canon (ascii CHR ''T'') (ascii CHR ''S'') (ascii CHR ''K'')),
    (''LAUNCH_REQUEST'', canon (ascii CHR ''L'') (ascii CHR ''R'') (ascii CHR ''Q'')),
    (''CAN_EDIT'', canon (ascii CHR ''C'') (ascii CHR ''E'') (ascii CHR ''D'')),
    (''LAYOUT_TEMPLATE'', canon (ascii CHR ''L'') (ascii CHR ''T'') (ascii CHR ''P'')),
    (''LAYOUT_REGION'', canon (ascii CHR ''L'') (ascii CHR ''R'') (ascii CHR ''G'')),
    (''CONTAINS'', canon (ascii CHR ''C'') (ascii CHR ''O'') (ascii CHR ''N'')),
    (''BINDS_TO'', canon (ascii CHR ''B'') (ascii CHR ''N'') (ascii CHR ''T'')),
    (''FLEX_DIRECTION'', cc (CHR ''F'') (CHR ''D'')),
    (''FLEX_GROW'', cc (CHR ''F'') (CHR ''G'')),
    (''FLEX_SHRINK'', cc (CHR ''F'') (CHR ''S'')),
    (''DRIVES'', canon (ascii CHR ''D'') (ascii CHR ''R'') (ascii CHR ''V'')),
    (''FOR_DOCUMENT'', canon (ascii CHR ''F'') (ascii CHR ''D'') (ascii CHR ''C'')),
    (''HANDLED_BY'', canon (ascii CHR ''H'') (ascii CHR ''D'') (ascii CHR ''B'')),
    (''REQUESTS'', canon (ascii CHR ''R'') (ascii CHR ''Q'') (ascii CHR ''S'')),
    (''SAVE_EVENT'', canon (ascii CHR ''S'') (ascii CHR ''A'') (ascii CHR ''V'')),
    (''APPLIES_TO'', canon (ascii CHR ''A'') (ascii CHR ''P'') (ascii CHR ''L'')),
    (''ROLE'', canon (ascii CHR ''R'') (ascii CHR ''O'') (ascii CHR ''L'')),
    (''WIDGET'', canon (ascii CHR ''W'') (ascii CHR ''G'') (ascii CHR ''T'')),
    (''WIDGET_KIND'', canon (ascii CHR ''W'') (ascii CHR ''K'') (ascii CHR ''D'')),
    (''ICON_NAME'', canon (ascii CHR ''I'') (ascii CHR ''C'') (ascii CHR ''N'')),
    (''FOCUSABLE'', canon (ascii CHR ''F'') (ascii CHR ''O'') (ascii CHR ''C'')),
    (''BINDS'', canon (ascii CHR ''B'') (ascii CHR ''N'') (ascii CHR ''D'')),
    (''ABOVE'', canon (ascii CHR ''A'') (ascii CHR ''B'') (ascii CHR ''V'')),
    (''ACTIVE_WINDOW'', canon (ascii CHR ''A'') (ascii CHR ''C'') (ascii CHR ''W'')),
    (''MODE'', canon (ascii CHR ''M'') (ascii CHR ''O'') (ascii CHR ''D'')),
    (''SELECTED_INDEX'', canon (ascii CHR ''S'') (ascii CHR ''L'') (ascii CHR ''X'')),
    (''DOCUMENT'', canon (ascii CHR ''D'') (ascii CHR ''O'') (ascii CHR ''C'')),
    (''VIEW'', canon (ascii CHR ''V'') (ascii CHR ''I'') (ascii CHR ''W'')),
    (''WIDGET_ROLE'', canon (ascii CHR ''W'') (ascii CHR ''R'') (ascii CHR ''L'')),
    (''ACTION'', canon (ascii CHR ''A'') (ascii CHR ''C'') (ascii CHR ''N'')),
    (''LABEL'', canon (ascii CHR ''L'') (ascii CHR ''B'') (ascii CHR ''L''))]"

definition user_canon_3 :: "(string \<times> symbol) list" where
  "user_canon_3 = [
    (''DESCRIPTION'', canon (ascii CHR ''D'') (ascii CHR ''S'') (ascii CHR ''C'')),
    (''FOCUSED'', canon (ascii CHR ''F'') (ascii CHR ''C'') (ascii CHR ''D'')),
    (''TAB_INDEX'', canon (ascii CHR ''T'') (ascii CHR ''B'') (ascii CHR ''I'')),
    (''CHILD'', canon (ascii CHR ''C'') (ascii CHR ''H'') (ascii CHR ''D'')),
    (''LABEL_FOR'', canon (ascii CHR ''L'') (ascii CHR ''B'') (ascii CHR ''F'')),
    (''HAS_CURSOR'', canon (ascii CHR ''H'') (ascii CHR ''C'') (ascii CHR ''R'')),
    (''CONTROLS'', canon (ascii CHR ''C'') (ascii CHR ''T'') (ascii CHR ''L'')),
    (''PAGE_SIZE'', canon (ascii CHR ''P'') (ascii CHR ''G'') (ascii CHR ''S'')),
    (''TOTAL_SIZE'', canon (ascii CHR ''T'') (ascii CHR ''T'') (ascii CHR ''S'')),
    (''POSITION'', canon (ascii CHR ''P'') (ascii CHR ''O'') (ascii CHR ''S'')),
    (''ORIENTATION'', canon (ascii CHR ''O'') (ascii CHR ''R'') (ascii CHR ''N'')),
    (''MIME'', canon (ascii CHR ''M'') (ascii CHR ''I'') (ascii CHR ''M'')),
    (''ENCODING'', canon (ascii CHR ''E'') (ascii CHR ''N'') (ascii CHR ''C'')),
    (''LENGTH'', canon (ascii CHR ''L'') (ascii CHR ''E'') (ascii CHR ''N'')),
    (''CURRENT_MODE'', canon (ascii CHR ''C'') (ascii CHR ''M'') (ascii CHR ''D'')),
    (''PLACE'', canon (ascii CHR ''P'') (ascii CHR ''L'') (ascii CHR ''C'')),
    (''PLACE_NAME'', canon (ascii CHR ''P'') (ascii CHR ''N'') (ascii CHR ''M'')),
    (''PLACE_PACKAGE'', canon (ascii CHR ''P'') (ascii CHR ''P'') (ascii CHR ''K'')),
    (''PLACE_ROOT_KIND'', canon (ascii CHR ''P'') (ascii CHR ''R'') (ascii CHR ''K'')),
    (''PLACE_FULLSCREEN'', canon (ascii CHR ''P'') (ascii CHR ''F'') (ascii CHR ''S'')),
    (''MODE_PLACE'', canon (ascii CHR ''M'') (ascii CHR ''D'') (ascii CHR ''P'')),
    (''IS_PLACE_ROOT'', canon (ascii CHR ''I'') (ascii CHR ''P'') (ascii CHR ''R'')),
    (''LAUNCHED'', canon (ascii CHR ''L'') (ascii CHR ''C'') (ascii CHR ''H'')),
    (''WALLPAPER'', canon (ascii CHR ''W'') (ascii CHR ''L'') (ascii CHR ''P'')),
    (''LAYER'', canon (ascii CHR ''L'') (ascii CHR ''Y'') (ascii CHR ''R'')),
    (''SOLID_COLOR'', canon (ascii CHR ''S'') (ascii CHR ''L'') (ascii CHR ''C'')),
    (''IMAGE'', canon (ascii CHR ''I'') (ascii CHR ''M'') (ascii CHR ''G'')),
    (''SCROLL_X'', canon (ascii CHR ''S'') (ascii CHR ''C'') (ascii CHR ''X'')),
    (''OPACITY'', canon (ascii CHR ''O'') (ascii CHR ''P'') (ascii CHR ''C'')),
    (''Z_ORDER'', canon (ascii CHR ''Z'') (ascii CHR ''O'') (ascii CHR ''R'')),
    (''TILE_MODE'', canon (ascii CHR ''T'') (ascii CHR ''L'') (ascii CHR ''M'')),
    (''LAYERS'', canon (ascii CHR ''L'') (ascii CHR ''Y'') (ascii CHR ''S'')),
    (''ROOT_LAYOUT'', canon (ascii CHR ''R'') (ascii CHR ''L'') (ascii CHR ''Y'')),
    (''INDEX'', canon (ascii CHR ''I'') (ascii CHR ''D'') (ascii CHR ''X'')),
    (''OF'', cc (CHR ''O'') (CHR ''F'')),
    (''SHOWS'', canon (ascii CHR ''S'') (ascii CHR ''H'') (ascii CHR ''W'')),
    (''EDITED_BY'', canon (ascii CHR ''E'') (ascii CHR ''D'') (ascii CHR ''B'')),
    (''EDIT'', canon (ascii CHR ''E'') (ascii CHR ''D'') (ascii CHR ''T'')),
    (''READ_ONLY'', canon (ascii CHR ''R'') (ascii CHR ''D'') (ascii CHR ''O'')),
    (''CONTROL'', canon (ascii CHR ''C'') (ascii CHR ''T'') (ascii CHR ''R'')),
    (''CONTROL_KIND'', canon (ascii CHR ''C'') (ascii CHR ''T'') (ascii CHR ''K'')),
    (''ITEM'', canon (ascii CHR ''I'') (ascii CHR ''T'') (ascii CHR ''M'')),
    (''ITEM_LABEL'', canon (ascii CHR ''I'') (ascii CHR ''T'') (ascii CHR ''L'')),
    (''ITEM_VALUE'', canon (ascii CHR ''I'') (ascii CHR ''T'') (ascii CHR ''V'')),
    (''QUESTION'', canon (ascii CHR ''Q'') (ascii CHR ''U'') (ascii CHR ''E'')),
    (''ANSWER'', canon (ascii CHR ''A'') (ascii CHR ''N'') (ascii CHR ''S'')),
    (''FORM'', canon (ascii CHR ''F'') (ascii CHR ''O'') (ascii CHR ''R'')),
    (''HAS_ANSWER'', canon (ascii CHR ''H'') (ascii CHR ''A'') (ascii CHR ''N'')),
    (''FORM_CONTAINS'', canon (ascii CHR ''F'') (ascii CHR ''C'') (ascii CHR ''N'')),
    (''ANSWER_KIND'', canon (ascii CHR ''A'') (ascii CHR ''K'') (ascii CHR ''D'')),
    (''VALUE_BOOL'', canon (ascii CHR ''V'') (ascii CHR ''B'') (ascii CHR ''L'')),
    (''VALUE_TEXT'', canon (ascii CHR ''V'') (ascii CHR ''T'') (ascii CHR ''X'')),
    (''TAG'', canon (ascii CHR ''T'') (ascii CHR ''A'') (ascii CHR ''G'')),
    (''SHOW_TAG'', canon (ascii CHR ''S'') (ascii CHR ''H'') (ascii CHR ''T'')),
    (''PREFERRED_WIDGET'', canon (ascii CHR ''P'') (ascii CHR ''W'') (ascii CHR ''G'')),
    (''VALUE_NUMBER'', canon (ascii CHR ''V'') (ascii CHR ''N'') (ascii CHR ''M'')),
    (''INTERACTION'', canon (ascii CHR ''I'') (ascii CHR ''T'') (ascii CHR ''N'')),
    (''INTERACTION_KIND'', canon (ascii CHR ''I'') (ascii CHR ''K'') (ascii CHR ''D'')),
    (''USES_WIDGET'', canon (ascii CHR ''U'') (ascii CHR ''W'') (ascii CHR ''D'')),
    (''RESULT_WRITES'', canon (ascii CHR ''R'') (ascii CHR ''S'') (ascii CHR ''W'')),
    (''RESULT_EXECUTES'', canon (ascii CHR ''R'') (ascii CHR ''S'') (ascii CHR ''E'')),
    (''FOCUSED_INDEX'', canon (ascii CHR ''F'') (ascii CHR ''O'') (ascii CHR ''C'')),
    (''THEME'', canon (ascii CHR ''T'') (ascii CHR ''H'') (ascii CHR ''M'')),
    (''WIDGET_KIND_LISTBOX'', canon (ascii CHR ''W'') (ascii CHR ''L'') (ascii CHR ''B'')),
    (''NOTIFICATION'', canon (ascii CHR ''N'') (ascii CHR ''T'') (ascii CHR ''F'')),
    (''ALERT'', canon (ascii CHR ''A'') (ascii CHR ''L'') (ascii CHR ''R'')),
    (''LEVEL'', canon (ascii CHR ''L'') (ascii CHR ''V'') (ascii CHR ''L'')),
    (''MESSAGE'', canon (ascii CHR ''M'') (ascii CHR ''S'') (ascii CHR ''G'')),
    (''DETAILS'', canon (ascii CHR ''D'') (ascii CHR ''T'') (ascii CHR ''L'')),
    (''CREATED_AT'', canon (ascii CHR ''C'') (ascii CHR ''A'') (ascii CHR ''T'')),
    (''ACK'', canon (ascii CHR ''A'') (ascii CHR ''C'') (ascii CHR ''K'')),
    (''SCOPE'', canon (ascii CHR ''S'') (ascii CHR ''C'') (ascii CHR ''P'')),
    (''PERSIST'', canon (ascii CHR ''P'') (ascii CHR ''S'') (ascii CHR ''T'')),
    (''WIDGET_KIND_NOTIFICATION'', canon (ascii CHR ''W'') (ascii CHR ''N'') (ascii CHR ''T'')),
    (''BOOT_ASSET'', canon (ascii CHR ''B'') (ascii CHR ''T'') (ascii CHR ''A'')),
    (''THING_WIDGET'', canon (ascii CHR ''T'') (ascii CHR ''H'') (ascii CHR ''W'')),
    (''DEBUG_LOG'', canon (ascii CHR ''D'') (ascii CHR ''B'') (ascii CHR ''G''))]"

definition user_only :: "string list" where
  "user_only = [''MOUSE_X'', ''MOUSE_Y'', ''MOUSE_DOWN'', ''IS_MONO'', ''TEXT_COLOR'', ''BG_COLOR'', ''ITEM'', ''ITEM_LABEL'', ''ITEM_VALUE'']"

definition kernel_canon_1 :: "(string \<times> symbol) list" where
  "kernel_canon_1 = [
    (''JOURNAL'', canon_JOURNAL),
    (''KEYBOARD'', canon_KEYBOARD),
    (''KEY_PRESSED'', canon_KEY_PRESSED),
    (''KEY_EVENT'', canon_KEY_EVENT),
    (''MOUSE'', canon_MOUSE),
    (''MOUSE_MOVED'', canon_MOUSE_MOVED),
    (''MOUSE_MOVE'', canon_MOUSE_MOVE),
    (''MOUSE_BUTTON'', canon_MOUSE_BUTTON),
    (''AT'', canon_AT),
    (''INIT'', canon_INIT),
    (''FAIL'', canon_FAIL),
    (''DRIVER'', canon_DRIVER),
    (''THING_CREATED'', canon_THING_CREATED),
    (''EDGE_ADDED'', canon_EDGE_ADDED),
    (''ID'', canon_ID),
    (''KIND'', canon_KIND),
    (''FIELDS'', canon_FIELDS),
    (''REVISION'', canon_REVISION),
    (''SRC'', canon_SRC),
    (''DST'', canon_DST),
    (''PREDICATE'', canon_PREDICATE),
    (''NAME'', canon_NAME),
    (''STATUS'', canon_STATUS),
    (''SCANCODE'', canon_SCANCODE),
    (''KEY'', canon_KEY),
    (''DX'', canon_DX),
    (''DY'', canon_DY),
    (''BUTTONS'', canon_BUTTONS),
    (''WRITE'', canon_WRITE),
    (''TEXT'', canon_TEXT),
    (''TARGET'', canon_TARGET),
    (''STDOUT'', canon_STDOUT),
    (''COMPOSITOR'', canon_COMPOSITOR),
    (''WINDOW'', canon_WINDOW),
    (''PIXMAP'', canon_PIXMAP),
    (''STREAMS'', canon_STREAMS),
    (''COMPOSED_BY'', canon_COMPOSED_BY),
    (''WINDOW_CREATED'', canon_WINDOW_CREATED),
    (''WINDOW_BUFFER_UPDATED'', canon_WINDOW_BUFFER_UPDATED),
    (''FRAME_READY'', canon_FRAME_READY),
    (''SURFACE'', canon_SURFACE),
    (''CURSOR'', canon_CURSOR),
    (''STYLE'', canon_STYLE),
    (''LAUNCH_INTENT'', canon_LAUNCH_INTENT),
    (''DRIVER_INPUT'', canon_DRIVER_INPUT),
    (''DRIVER_DISPLAY'', canon_DRIVER_DISPLAY),
    (''DRIVER_STORAGE'', canon_DRIVER_STORAGE),
    (''DRIVER_TIMER'', canon_DRIVER_TIMER),
    (''DRIVER_OTHER'', canon_DRIVER_OTHER),
    (''TITLE'', canon_TITLE),
    (''GAP'', canon_GAP),
    (''IS_ROOT'', canon_IS_ROOT),
    (''MODE_INDEX'', canon_MODE_INDEX),
    (''WINDOW_RECT'', canon_WINDOW_RECT),
    (''X'', canon_X),
    (''TOOLBAR'', canon_TOOLBAR),
    (''TOOLBAR_BUTTON'', canon_TOOLBAR_BUTTON),
    (''ICON'', canon_ICON),
    (''ACTIVATED'', canon_ACTIVATED),
    (''Y'', canon_Y),
    (''SCROLL_Y'', canon_SCROLL_Y),
    (''MAX_SCROLL'', canon_MAX_SCROLL),
    (''CONTENT_HEIGHT'', canon_CONTENT_HEIGHT),
    (''THUMB_OFFSET'', canon_THUMB_OFFSET),
    (''THUMB_HEIGHT'', canon_THUMB_HEIGHT),
    (''Z'', canon_Z),
    (''WIDTH'', canon_WIDTH),
    (''MIN_WIDTH'', canon_MIN_WIDTH),
    (''MAX_WIDTH'', canon_MAX_WIDTH),
    (''HEIGHT'', canon_HEIGHT),
    (''MIN_HEIGHT'', canon_MIN_HEIGHT),
    (''MAX_HEIGHT'', canon_MAX_HEIGHT),
    (''VIEWPORT_HEIGHT'', canon_VIEWPORT_HEIGHT),
    (''PITCH'', canon_PITCH),
    (''BPP'', canon_BPP),
    (''ADDR'', canon_ADDR),
    (''PARENT'', canon_PARENT),
    (''BUNDLE_ID'', canon_BUNDLE_ID),
    (''DEVICE_DRIVER'', canon_DEVICE_DRIVER),
    (''DEVICE_ID'', canon_DEVICE_ID),
    (''DIRECTORY'', canon_DIRECTORY),
    (''FILE'', canon_FILE),
    (''DEVICE'', canon_DEVICE),
    (''EMITS'', canon_EMITS)]"

definition kernel_canon_2 :: "(string \<times> symbol) list" where
  "kernel_canon_2 = [
    (''FRAMEBUFFER_DEVICE'', canon_FRAMEBUFFER_DEVICE),
    (''AUTOSTART'', canon_AUTOSTART),
    (''SHOW_IN_GRAPH_VIEWER'', canon_SHOW_IN_GRAPH_VIEWER),
    (''BIN_NAME'', canon_BIN_NAME),
    (''KEYBOARD_DEVICE'', canon_KEYBOARD_DEVICE),
    (''MOUSE_DEVICE'', canon_MOUSE_DEVICE),
    (''NIC_DEVICE'', canon_NIC_DEVICE),
    (''IRQ_EVENT'', canon_IRQ_EVENT),
    (''DMA_EVENT'', canon_DMA_EVENT),
    (''IRQ_LINE'', canon_IRQ_LINE),
    (''BUFFER'', canon_BUFFER),
    (''BYTES'', canon_BYTES),
    (''DONE'', canon_DONE),
    (''INPUT_DEVICE_MOUSE'', canon_INPUT_DEVICE_MOUSE),
    (''INPUT_EVENT'', canon_INPUT_EVENT),
    (''MOVE'', canon_MOVE),
    (''TS'', canon_TS),
    (''DOWN'', canon_DOWN),
    (''UP'', canon_UP),
    (''BUTTON'', canon_BUTTON),
    (''DISPLAY_FRAMEBUFFER'', canon_DISPLAY_FRAMEBUFFER),
    (''DISPLAY_FRAME'', canon_DISPLAY_FRAME),
    (''CURRENT_FRAME'', canon_CURRENT_FRAME),
    (''SEQ'', canon_SEQ),
    (''APP'', canon_APP),
    (''BUNDLE'', canon_BUNDLE),
    (''TYPE'', canon_TYPE),
    (''VERSION'', canon_VERSION),
    (''OWNER'', canon_OWNER),
    (''OWNS'', canon_OWNS),
    (''HAS_CONTENT'', canon_HAS_CONTENT),
    (''COLOR'', canon_COLOR),
    (''VISIBLE'', canon_VISIBLE),
    (''ACTIVE'', canon_ACTIVE),
    (''BITMAP'', canon_BITMAP),
    (''DIRTY'', canon_DIRTY),
    (''HAS_SURFACE'', canon_HAS_SURFACE),
    (''PRESENTS'', canon_PRESENTS),
    (''SHARED_BUFFER'', canon_SHARED_BUFFER),
    (''QUEUE_STATE'', canon_QUEUE_STATE),
    (''BUFFER_KIND'', canon_BUFFER_KIND),
    (''BUFFER_USAGE'', canon_BUFFER_USAGE),
    (''RING'', canon_RING),
    (''LINEAR'', canon_LINEAR),
    (''PIPE_USAGE'', canon_PIPE_USAGE),
    (''SURFACE_USAGE'', canon_SURFACE_USAGE),
    (''RX_RING_USAGE'', canon_RX_RING_USAGE),
    (''HEAD'', canon_HEAD),
    (''TAIL'', canon_TAIL),
    (''HAS_DATA'', canon_HAS_DATA),
    (''CAPACITY'', canon_CAPACITY),
    (''CAN_WRITE'', canon_CAN_WRITE),
    (''CAN_LINK'', canon_CAN_LINK),
    (''CAN_HANDLE_IRQ'', canon_CAN_HANDLE_IRQ),
    (''CAN_DMA'', canon_CAN_DMA),
    (''CAN_MMIO'', canon_CAN_MMIO),
    (''CLOUD'', canon_CLOUD),
    (''NEXT'', canon_NEXT),
    (''PACKAGE'', canon_PACKAGE),
    (''TASK'', canon_TASK),
    (''LAUNCH_REQUEST'', canon_LAUNCH_REQUEST),
    (''CAN_EDIT'', canon_CAN_EDIT),
    (''LAYOUT_TEMPLATE'', canon_LAYOUT_TEMPLATE),
    (''LAYOUT_REGION'', canon_LAYOUT_REGION),
    (''CONTAINS'', canon_CONTAINS),
    (''BINDS_TO'', canon_BINDS_TO),
    (''FLEX_DIRECTION'', canon_FLEX_DIRECTION),
    (''FLEX_GROW'', canon_FLEX_GROW),
    (''FLEX_SHRINK'', canon_FLEX_SHRINK),
    (''DRIVES'', canon_DRIVES),
    (''FOR_DOCUMENT'', canon_FOR_DOCUMENT),
    (''HANDLED_BY'', canon_HANDLED_BY),
    (''REQUESTS'', canon_REQUESTS),
    (''SAVE_EVENT'', canon_SAVE_EVENT),
    (''APPLIES_TO'', canon_APPLIES_TO),
    (''ROLE'', canon_ROLE),
    (''WIDGET'', canon_WIDGET),
    (''WIDGET_KIND'', canon_WIDGET_KIND),
    (''ICON_NAME'', canon_ICON_NAME),
    (''FOCUSABLE'', canon_FOCUSABLE),
    (''BINDS'', canon_BINDS),
    (''ABOVE'', canon_ABOVE),
    (''ACTIVE_WINDOW'', canon_ACTIVE_WINDOW),
    (''MODE'', canon_MODE),
    (''SELECTED_INDEX'', canon_SELECTED_INDEX),
    (''DOCUMENT'', canon_DOCUMENT),
    (''VIEW'', canon_VIEW),
    (''WIDGET_ROLE'', canon_WIDGET_ROLE),
    (''ACTION'', canon_ACTION),
    (''LABEL'', canon_LABEL)]"

definition kernel_canon_3 :: "(string \<times> symbol) list" where
  "kernel_canon_3 = [
    (''DESCRIPTION'', canon_DESCRIPTION),
    (''FOCUSED'', canon_FOCUSED),
    (''TAB_INDEX'', canon_TAB_INDEX),
    (''CHILD'', canon_CHILD),
    (''LABEL_FOR'', canon_LABEL_FOR),
    (''HAS_CURSOR'', canon_HAS_CURSOR),
    (''CONTROLS'', canon_CONTROLS),
    (''PAGE_SIZE'', canon_PAGE_SIZE),
    (''TOTAL_SIZE'', canon_TOTAL_SIZE),
    (''POSITION'', canon_POSITION),
    (''ORIENTATION'', canon_ORIENTATION),
    (''MIME'', canon_MIME),
    (''ENCODING'', canon_ENCODING),
    (''LENGTH'', canon_LENGTH),
    (''CURRENT_MODE'', canon_CURRENT_MODE),
    (''PLACE'', canon_PLACE),
    (''PLACE_NAME'', canon_PLACE_NAME),
    (''PLACE_PACKAGE'', canon_PLACE_PACKAGE),
    (''PLACE_ROOT_KIND'', canon_PLACE_ROOT_KIND),
    (''PLACE_FULLSCREEN'', canon_PLACE_FULLSCREEN),
    (''MODE_PLACE'', canon_MODE_PLACE),
    (''IS_PLACE_ROOT'', canon_IS_PLACE_ROOT),
    (''LAUNCHED'', canon_LAUNCHED),
    (''WALLPAPER'', canon_WALLPAPER),
    (''LAYER'', canon_LAYER),
    (''SOLID_COLOR'', canon_SOLID_COLOR),
    (''IMAGE'', canon_IMAGE),
    (''SCROLL_X'', canon_SCROLL_X),
    (''OPACITY'', canon_OPACITY),
    (''Z_ORDER'', canon_Z_ORDER),
    (''TILE_MODE'', canon_TILE_MODE),
    (''LAYERS'', canon_LAYERS),
    (''ROOT_LAYOUT'', canon_ROOT_LAYOUT),
    (''INDEX'', canon_INDEX),
    (''OF'', canon_OF),
    (''SHOWS'', canon_SHOWS),
    (''EDITED_BY'', canon_EDITED_BY),
    (''EDIT'', canon_EDIT),
    (''READ_ONLY'', canon_READ_ONLY),
    (''CONTROL'', canon_CONTROL),
    (''CONTROL_KIND'', canon_CONTROL_KIND),
    (''QUESTION'', canon_QUESTION),
    (''ANSWER'', canon_ANSWER),
    (''FORM'', canon_FORM),
    (''HAS_ANSWER'', canon_HAS_ANSWER),
    (''FORM_CONTAINS'', canon_FORM_CONTAINS),
    (''ANSWER_KIND'', canon_ANSWER_KIND),
    (''VALUE_BOOL'', canon_VALUE_BOOL),
    (''VALUE_TEXT'', canon_VALUE_TEXT),
    (''TAG'', canon_TAG),
    (''SHOW_TAG'', canon_SHOW_TAG),
    (''PREFERRED_WIDGET'', canon_PREFERRED_WIDGET),
    (''VALUE_NUMBER'', canon_VALUE_NUMBER),
    (''INTERACTION'', canon_INTERACTION),
    (''INTERACTION_KIND'', canon_INTERACTION_KIND),
    (''USES_WIDGET'', canon_USES_WIDGET),
    (''RESULT_WRITES'', canon_RESULT_WRITES),
    (''RESULT_EXECUTES'', canon_RESULT_EXECUTES),
    (''FOCUSED_INDEX'', canon_FOCUSED_INDEX),
    (''THEME'', canon_THEME),
    (''WIDGET_KIND_LISTBOX'', canon_WIDGET_KIND_LISTBOX),
    (''NOTIFICATION'', canon_NOTIFICATION),
    (''ALERT'', canon_ALERT),
    (''LEVEL'', canon_LEVEL),
    (''MESSAGE'', canon_MESSAGE),
    (''DETAILS'', canon_DETAILS),
    (''CREATED_AT'', canon_CREATED_AT),
    (''ACK'', canon_ACK),
    (''SCOPE'', canon_SCOPE),
    (''PERSIST'', canon_PERSIST),
    (''WIDGET_KIND_NOTIFICATION'', canon_WIDGET_KIND_NOTIFICATION),
    (''BOOT_ASSET'', canon_BOOT_ASSET),
    (''THING_WIDGET'', canon_THING_WIDGET),
    (''DEBUG_LOG'', canon_DEBUG_LOG)]"

definition canon_MOUSE_X :: symbol where
  [canon_defs]: "canon_MOUSE_X = canon (ascii CHR ''M'') (ascii CHR ''S'') (ascii CHR ''X'')"

definition canon_MOUSE_Y :: symbol where
  [canon_defs]: "canon_MOUSE_Y = canon (ascii CHR ''M'') (ascii CHR ''S'') (ascii CHR ''Y'')"

definition canon_MOUSE_DOWN :: symbol where
  [canon_defs]: "canon_MOUSE_DOWN = canon (ascii CHR ''M'') (ascii CHR ''D'') (ascii CHR ''N'')"

definition canon_IS_MONO :: symbol where
  [canon_defs]: "canon_IS_MONO = canon (ascii CHR ''M'') (ascii CHR ''O'') (ascii CHR ''N'')"

definition canon_TEXT_COLOR :: symbol where
  [canon_defs]: "canon_TEXT_COLOR = canon (ascii CHR ''T'') (ascii CHR ''X'') (ascii CHR ''C'')"

definition canon_BG_COLOR :: symbol where
  [canon_defs]: "canon_BG_COLOR = canon (ascii CHR ''B'') (ascii CHR ''G'') (ascii CHR ''C'')"

definition canon_ITEM :: symbol where
  [canon_defs]: "canon_ITEM = canon (ascii CHR ''I'') (ascii CHR ''T'') (ascii CHR ''M'')"

definition canon_ITEM_LABEL :: symbol where
  [canon_defs]: "canon_ITEM_LABEL = canon (ascii CHR ''I'') (ascii CHR ''T'') (ascii CHR ''L'')"

definition canon_ITEM_VALUE :: symbol where
  [canon_defs]: "canon_ITEM_VALUE = canon (ascii CHR ''I'') (ascii CHR ''T'') (ascii CHR ''V'')"

section \<open>Identifiers\<close>

text \<open>One step of the hash, and the identifier: the hash in both halves.\<close>

definition hash_byte :: "u64 \<Rightarrow> u8 \<Rightarrow> u64" where
  "hash_byte hash b = (hash XOR ucast b) * 0x1099511628211"

definition name_hash :: "u8 list \<Rightarrow> u64" where
  "name_hash name = fold (\<lambda>b hash. hash_byte hash b) name 0xcbf29ce484222325"

definition simple_uuid :: "u8 list \<Rightarrow> uuid" where
  "simple_uuid name = push_bit 64 (ucast (name_hash name)) OR ucast (name_hash name)"

lemma xor_cancel: "(h :: 'a::len word) XOR c = h' XOR c \<longleftrightarrow> h = h'" "c XOR h = c XOR h' \<longleftrightarrow> h = h'"
proof -
  have "h = h'" if "h XOR c = h' XOR c"
  proof -
    have "(h XOR c) XOR c = (h' XOR c) XOR c" by (simp only: that)
    then show ?thesis by (simp add: xor.assoc)
  qed
  then show "h XOR c = h' XOR c \<longleftrightarrow> h = h'" "c XOR h = c XOR h' \<longleftrightarrow> h = h'" by (auto simp: xor.commute)
qed

lemma hash_byte_inj: "hash_byte h a = hash_byte h' b \<longleftrightarrow> h XOR ucast a = h' XOR ucast b"
proof -
  have one: "(0x1099511628211 :: u64) * 0xb9449d28341caef1 = 1" by code_simp
  have inv: "x * 0x1099511628211 * 0xb9449d28341caef1 = (x :: u64)" for x
    unfolding mult.assoc one by (rule mult_1_right)
  show ?thesis unfolding hash_byte_def by (metis inv)
qed

lemma hash_fold_inj: "fold (\<lambda>b hash. hash_byte hash b) s h = fold (\<lambda>b hash. hash_byte hash b) s h' \<longleftrightarrow> h = h'"
  by (induction s arbitrary: h h') (simp_all add: hash_byte_inj xor_cancel)

lemma ucast_simple_uuid: "ucast (simple_uuid name) = name_hash name"
  unfolding simple_uuid_def by (rule bit_word_eqI) (auto simp: bit_simps)

text \<open>
  The two dictionaries agree. Every symbol that user programs and the kernel both name has the same
  code in both copies; the nine other names of the user copy are unknown to the kernel.
\<close>

theorem canon_copies_agree:
  "filter (\<lambda>(n, _). n \<notin> set user_only) (user_canon_1 @ user_canon_2 @ user_canon_3) =
     kernel_canon_1 @ kernel_canon_2 @ kernel_canon_3"
  unfolding filter_append
  by (simp add: user_canon_1_def user_canon_2_def user_canon_3_def kernel_canon_1_def kernel_canon_2_def
      kernel_canon_3_def user_only_def canon_defs)

text \<open>
  Derived identifiers tell names apart that differ in one byte. Changing any single byte of a name,
  at any place, changes the identifier derived from it.
\<close>

theorem simple_uuid_byte: "simple_uuid (p @ a # s) = simple_uuid (p @ b # s) \<longleftrightarrow> a = b"
proof
  assume "simple_uuid (p @ a # s) = simple_uuid (p @ b # s)"
  then have "name_hash (p @ a # s) = name_hash (p @ b # s)" by (metis ucast_simple_uuid)
  then have "ucast a = (ucast b :: u64)"
    by (simp add: name_hash_def hash_fold_inj hash_byte_inj xor_cancel)
  moreover have "ucast (ucast x :: u64) = x" for x :: u8 by (rule bit_word_eqI) (auto simp: bit_simps)
  ultimately show "a = b" by metis
qed simp

end
