(* ===== verification/Things.thy ===== *)
theory Things
  imports User_Canon Store_Query Flex_Layout
begin

text \<open>
  The typed things of user programs: how windows, surfaces, widgets, buffers and queues are written into
  and read back from the fields of a node (\<open>src/userland/src/graph.rs\<close>, \<open>src/userland/src/ui_graph.rs\<close>).
  Numbers of type \<open>i32\<close> are integers, texts are strings.
\<close>

section \<open>Fields\<close>

text \<open>\<open>fields.get(&k).and_then(f)\<close> for each accessor, and the optional inserts.\<close>

definition field :: "(gvalue \<Rightarrow> 'a option) \<Rightarrow> gmap \<Rightarrow> symbol \<Rightarrow> 'a option" where
  "field f m k = Option.bind (bt_get m k) f"

definition put_opt :: "symbol \<Rightarrow> ('a \<Rightarrow> gvalue) \<Rightarrow> 'a option \<Rightarrow> gmap \<Rightarrow> gmap" where
  "put_opt k f v m = (case v of None \<Rightarrow> m | Some x \<Rightarrow> bt_insert k (f x) m)"

definition unwrap_or :: "'a \<Rightarrow> 'a option \<Rightarrow> 'a" where
  "unwrap_or d v = (case v of None \<Rightarrow> d | Some x \<Rightarrow> x)"

definition or_else :: "'a option \<Rightarrow> 'a option \<Rightarrow> 'a option" where
  "or_else a b = (case a of None \<Rightarrow> b | Some x \<Rightarrow> Some x)"

definition graph_extract_text :: "gvalue \<Rightarrow> string option" where
  "graph_extract_text = extract_text"

definition as_i32 :: "i64 \<Rightarrow> int" where
  "as_i32 v = i32 (sint v)"

definition from_i32 :: "int \<Rightarrow> i64" where
  "from_i32 z = word_of_int z"

section \<open>Buffers and queues\<close>

record shared_buffer =
  sb_id :: uuid
  sb_size_bytes :: u64
  sb_kind :: symbol
  sb_usage :: symbol
  sb_addr :: "u64 option"
  sb_owner :: "uuid option"
  sb_props :: gmap

definition shared_buffer_to_fields :: "shared_buffer \<Rightarrow> gmap" where
  "shared_buffer_to_fields b =
     put_opt canon_OWNER VUuid (sb_owner b) (put_opt canon_ADDR VU64 (sb_addr b)
       (bt_insert canon_BUFFER_USAGE (VSymbol (sb_usage b)) (bt_insert canon_BUFFER_KIND (VSymbol (sb_kind b))
         (bt_insert canon_BYTES (VU64 (sb_size_bytes b)) (sb_props b)))))"

definition shared_buffer_load :: "graph_thing \<Rightarrow> shared_buffer option" where
  "shared_buffer_load t =
     (if thing_kind t \<noteq> canon_SHARED_BUFFER then None
      else case field as_symbol (thing_fields t) canon_BUFFER_KIND of None \<Rightarrow> None
      | Some kind \<Rightarrow> (case field as_symbol (thing_fields t) canon_BUFFER_USAGE of None \<Rightarrow> None
        | Some usage \<Rightarrow> Some
            \<lparr>sb_id = thing_id t, sb_size_bytes = unwrap_or 0 (field as_u64 (thing_fields t) canon_BYTES), sb_kind = kind,
             sb_usage = usage, sb_addr = field as_u64 (thing_fields t) canon_ADDR, sb_owner = field as_uuid (thing_fields t) canon_OWNER,
             sb_props = thing_fields t\<rparr>))"

record queue_state =
  qu_id :: uuid
  qu_buffer :: uuid
  qu_owner :: "uuid option"
  qu_head :: u64
  qu_tail :: u64
  qu_has_data :: bool
  qu_capacity :: "u64 option"
  qu_props :: gmap

definition queue_state_to_fields :: "queue_state \<Rightarrow> gmap" where
  "queue_state_to_fields q =
     put_opt canon_OWNER VUuid (qu_owner q) (put_opt canon_CAPACITY VU64 (qu_capacity q)
       (bt_insert canon_HAS_DATA (VBool (qu_has_data q)) (bt_insert canon_TAIL (VU64 (qu_tail q))
         (bt_insert canon_HEAD (VU64 (qu_head q)) (bt_insert canon_BUFFER (VUuid (qu_buffer q)) (qu_props q))))))"

definition queue_state_load :: "graph_thing \<Rightarrow> queue_state option" where
  "queue_state_load t =
     (if thing_kind t \<noteq> canon_QUEUE_STATE then None
      else case field as_uuid (thing_fields t) canon_BUFFER of None \<Rightarrow> None
      | Some buffer \<Rightarrow> Some
          \<lparr>qu_id = thing_id t, qu_buffer = buffer, qu_owner = field as_uuid (thing_fields t) canon_OWNER,
           qu_head = unwrap_or 0 (field as_u64 (thing_fields t) canon_HEAD), qu_tail = unwrap_or 0 (field as_u64 (thing_fields t) canon_TAIL),
           qu_has_data = unwrap_or False (field as_bool (thing_fields t) canon_HAS_DATA),
           qu_capacity = field as_u64 (thing_fields t) canon_CAPACITY, qu_props = thing_fields t\<rparr>)"

section \<open>Windows and surfaces\<close>

record window_rect =
  wr_x :: i64
  wr_y :: i64
  wr_width :: i64
  wr_height :: i64
  wr_visible :: bool

fun get_i64 :: "gvalue \<Rightarrow> i64 option" where
  "get_i64 (VI64 v) = Some v"
| "get_i64 (VU64 v) = (if unat v < 9223372036854775808 then Some v else None)"
| "get_i64 _ = None"

definition map_i64 :: "gmap \<Rightarrow> symbol \<Rightarrow> i64" where
  "map_i64 m k = unwrap_or 0 (field get_i64 m k)"

definition window_rect_from_value :: "gvalue \<Rightarrow> window_rect option" where
  "window_rect_from_value v =
     map_option (\<lambda>m. \<lparr>wr_x = map_i64 m canon_X, wr_y = map_i64 m canon_Y, wr_width = map_i64 m canon_WIDTH,
       wr_height = map_i64 m canon_HEIGHT, wr_visible = unwrap_or True (field as_bool m canon_VISIBLE)\<rparr>) (as_map v)"

definition window_rect_from_optional_value :: "gvalue option \<Rightarrow> window_rect option" where
  "window_rect_from_optional_value v = Option.bind v (\<lambda>x. case x of VMap _ \<Rightarrow> window_rect_from_value x | _ \<Rightarrow> None)"

definition window_rect_to_value :: "window_rect \<Rightarrow> gvalue" where
  "window_rect_to_value r =
     VMap (bt_insert canon_VISIBLE (VBool (wr_visible r)) (bt_insert canon_HEIGHT (VI64 (wr_height r))
       (bt_insert canon_WIDTH (VI64 (wr_width r)) (bt_insert canon_Y (VI64 (wr_y r)) (bt_insert canon_X (VI64 (wr_x r)) [])))))"

record window =
  win_id :: uuid
  win_width :: u64
  win_height :: u64
  win_title :: string
  win_x :: u64
  win_y :: u64
  win_z :: i64
  win_visible :: bool
  win_target :: "uuid option"
  win_active :: bool
  win_is_root :: bool
  win_is_place_root :: bool
  win_place_id :: "uuid option"
  win_mode_index :: "u8 option"
  win_rect :: "window_rect option"
  win_gap :: "int option"
  win_flex_direction :: "flex_direction option"
  win_justify_content :: "justify_content option"
  win_align_items :: "align_items option"
  win_tile_mode :: "bool option"

definition window_load :: "graph_thing \<Rightarrow> window option" where
  "window_load t =
     (if thing_kind t \<noteq> canon_WINDOW then None
      else let f = thing_fields t
      in Some \<lparr>win_id = thing_id t, win_width = unwrap_or 0 (field as_u64 f canon_WIDTH), win_height = unwrap_or 0 (field as_u64 f canon_HEIGHT),
        win_title = unwrap_or [] (field graph_extract_text f canon_TITLE), win_x = unwrap_or 0 (field as_u64 f canon_X),
        win_y = unwrap_or 0 (field as_u64 f canon_Y), win_z = unwrap_or 0 (field as_i64 f canon_Z),
        win_visible = unwrap_or True (field as_bool f canon_VISIBLE), win_target = field as_uuid f canon_TARGET,
        win_active = unwrap_or False (field as_bool f canon_ACTIVE), win_is_root = unwrap_or False (field as_bool f canon_IS_ROOT),
        win_is_place_root = unwrap_or False (field as_bool f canon_IS_PLACE_ROOT), win_place_id = field as_uuid f canon_PLACE,
        win_mode_index = map_option ucast (field as_i64 f canon_MODE_INDEX),
        win_rect = window_rect_from_optional_value (bt_get f canon_WINDOW_RECT), win_gap = map_option as_i32 (field as_i64 f canon_GAP),
        win_flex_direction = field (param_from_value direction_from_str) f (cc (CHR ''F'') (CHR ''D'')),
        win_justify_content = field (param_from_value justify_from_str) f (cc (CHR ''J'') (CHR ''C'')),
        win_align_items = field (param_from_value align_from_str) f (cc (CHR ''A'') (CHR ''I'')),
        win_tile_mode = field as_bool f canon_TILE_MODE\<rparr>)"

definition window_to_fields :: "window \<Rightarrow> gmap" where
  "window_to_fields w =
     (let m1 = bt_insert canon_WIDTH (VU64 (win_width w)) [];
          m2 = bt_insert canon_HEIGHT (VU64 (win_height w)) m1;
          m3 = bt_insert canon_TITLE (VText (win_title w)) m2;
          m4 = bt_insert canon_X (VU64 (win_x w)) m3;
          m5 = bt_insert canon_Y (VU64 (win_y w)) m4;
          m6 = bt_insert canon_Z (VI64 (win_z w)) m5;
          m7 = bt_insert canon_VISIBLE (VBool (win_visible w)) m6;
          m8 = bt_insert canon_ACTIVE (VBool (win_active w)) m7;
          m9 = bt_insert canon_IS_ROOT (VBool (win_is_root w)) m8;
          m10 = bt_insert canon_IS_PLACE_ROOT (VBool (win_is_place_root w)) m9;
          m11 = put_opt canon_PLACE VUuid (win_place_id w) m10;
          m12 = put_opt canon_MODE_INDEX (\<lambda>i. VI64 (ucast i)) (win_mode_index w) m11;
          m13 = put_opt canon_TARGET VUuid (win_target w) m12;
          m14 = put_opt canon_WINDOW_RECT window_rect_to_value (win_rect w) m13;
          m15 = put_opt canon_GAP (\<lambda>g. VI64 (from_i32 g)) (win_gap w) m14;
          m16 = put_opt (cc (CHR ''F'') (CHR ''D'')) (param_to_value direction_as_str) (win_flex_direction w) m15;
          m17 = put_opt (cc (CHR ''J'') (CHR ''C'')) (param_to_value justify_as_str) (win_justify_content w) m16;
          m18 = put_opt (cc (CHR ''A'') (CHR ''I'')) (param_to_value align_as_str) (win_align_items w) m17
      in put_opt canon_TILE_MODE VBool (win_tile_mode w) m18)"

record surface =
  su_id :: uuid
  su_window :: "uuid option"
  su_dirty :: bool
  su_text :: string
  su_bitmap :: "u8 list option"

fun as_bytes_value :: "gvalue \<Rightarrow> u8 list option" where
  "as_bytes_value (VBytes b) = Some b"
| "as_bytes_value _ = None"

definition surface_load :: "graph_thing \<Rightarrow> surface option" where
  "surface_load t =
     (if thing_kind t \<noteq> canon_SURFACE then None
      else let f = thing_fields t
      in Some \<lparr>su_id = thing_id t, su_window = field as_uuid f canon_SRC, su_dirty = unwrap_or False (field as_bool f canon_DIRTY),
        su_text = unwrap_or [] (field graph_extract_text f canon_TEXT), su_bitmap = field as_bytes_value f canon_BITMAP\<rparr>)"

section \<open>Widgets and cursors\<close>

record widget =
  wd_id :: uuid
  wd_role :: string
  wd_kind :: "string option"
  wd_parent :: "uuid option"
  wd_visible :: bool
  wd_enabled :: bool
  wd_label :: "string option"
  wd_icon :: "string option"
  wd_action :: "string option"
  wd_description :: "string option"
  wd_focusable :: bool
  wd_tab_index :: "i64 option"
  wd_bitmap :: "u8 list option"
  wd_width :: "u64 option"
  wd_height :: "u64 option"
  wd_min_width :: "u64 option"
  wd_min_height :: "u64 option"
  wd_max_width :: "u64 option"
  wd_max_height :: "u64 option"
  wd_x :: "u64 option"
  wd_y :: "u64 option"
  wd_flex_direction :: "flex_direction option"
  wd_flex_wrap :: "flex_wrap option"
  wd_justify_content :: "justify_content option"
  wd_align_items :: "align_items option"
  wd_flex_grow :: "f32 option"
  wd_flex_shrink :: "f32 option"
  wd_gap :: "int option"

text \<open>The lookups with a fallback key: role, label and bitmap.\<close>

definition role_field :: "gmap \<Rightarrow> string option" where
  "role_field f = or_else (field graph_extract_text f canon_ROLE) (field graph_extract_text f (cc (CHR ''W'') (CHR ''K'')))"

definition label_field :: "gmap \<Rightarrow> string option" where
  "label_field f = Option.bind (or_else (bt_get f canon_LABEL) (bt_get f canon_ITEM_LABEL)) graph_extract_text"

definition bitmap_field :: "gmap \<Rightarrow> u8 list option" where
  "bitmap_field f = Option.bind (or_else (bt_get f canon_BITMAP) (bt_get f (cc (CHR ''I'') (CHR ''D'')))) as_bytes_value"

definition grow_field :: "gmap \<Rightarrow> symbol \<Rightarrow> f32 option" where
  "grow_field f k = map_option (\<lambda>v. f32_of_int (sint v)) (field as_i64 f k)"

definition widget_load :: "graph_thing \<Rightarrow> widget option" where
  "widget_load t =
     (if thing_kind t \<noteq> canon_WIDGET then None
      else let f = thing_fields t
      in Some \<lparr>wd_id = thing_id t, wd_role = unwrap_or [] (role_field f), wd_kind = field graph_extract_text f (cc (CHR ''W'') (CHR ''K'')),
        wd_parent = field as_uuid f canon_PARENT, wd_visible = unwrap_or True (field as_bool f canon_VISIBLE),
        wd_enabled = unwrap_or True (field as_bool f canon_ACTIVE), wd_label = label_field f,
        wd_icon = field graph_extract_text f canon_ICON_NAME, wd_action = field graph_extract_text f canon_ACTION,
        wd_description = field graph_extract_text f canon_DESCRIPTION, wd_focusable = unwrap_or False (field as_bool f canon_FOCUSABLE),
        wd_tab_index = field as_i64 f canon_TAB_INDEX, wd_bitmap = bitmap_field f,
        wd_width = field as_u64 f canon_WIDTH, wd_height = field as_u64 f canon_HEIGHT,
        wd_min_width = field as_u64 f canon_MIN_WIDTH, wd_min_height = field as_u64 f canon_MIN_HEIGHT,
        wd_max_width = field as_u64 f canon_MAX_WIDTH, wd_max_height = field as_u64 f canon_MAX_HEIGHT,
        wd_x = field as_u64 f canon_X, wd_y = field as_u64 f canon_Y,
        wd_flex_direction = field (param_from_value direction_from_str) f (cc (CHR ''F'') (CHR ''D'')),
        wd_flex_wrap = field (param_from_value wrap_from_str) f (cc (CHR ''F'') (CHR ''W'')),
        wd_justify_content = field (param_from_value justify_from_str) f (cc (CHR ''J'') (CHR ''C'')),
        wd_align_items = field (param_from_value align_from_str) f (cc (CHR ''A'') (CHR ''I'')),
        wd_flex_grow = grow_field f (cc (CHR ''F'') (CHR ''G'')), wd_flex_shrink = grow_field f (cc (CHR ''F'') (CHR ''S'')),
        wd_gap = map_option as_i32 (field as_i64 f canon_GAP)\<rparr>)"

definition widget_update :: "widget \<Rightarrow> graph_thing \<Rightarrow> widget" where
  "widget_update w t =
     (let f = thing_fields t
      in w\<lparr>wd_role := unwrap_or (wd_role w) (role_field f),
        wd_kind := or_else (field graph_extract_text f (cc (CHR ''W'') (CHR ''K''))) (wd_kind w),
        wd_parent := or_else (field as_uuid f canon_PARENT) (wd_parent w), wd_visible := unwrap_or (wd_visible w) (field as_bool f canon_VISIBLE),
        wd_enabled := unwrap_or (wd_enabled w) (field as_bool f canon_ACTIVE), wd_label := or_else (label_field f) (wd_label w),
        wd_icon := or_else (field graph_extract_text f canon_ICON_NAME) (wd_icon w),
        wd_action := or_else (field graph_extract_text f canon_ACTION) (wd_action w),
        wd_description := or_else (field graph_extract_text f canon_DESCRIPTION) (wd_description w),
        wd_focusable := unwrap_or (wd_focusable w) (field as_bool f canon_FOCUSABLE),
        wd_tab_index := or_else (field as_i64 f canon_TAB_INDEX) (wd_tab_index w), wd_bitmap := or_else (bitmap_field f) (wd_bitmap w),
        wd_width := or_else (field as_u64 f canon_WIDTH) (wd_width w), wd_height := or_else (field as_u64 f canon_HEIGHT) (wd_height w),
        wd_min_width := or_else (field as_u64 f canon_MIN_WIDTH) (wd_min_width w),
        wd_max_width := or_else (field as_u64 f canon_MAX_WIDTH) (wd_max_width w),
        wd_min_height := or_else (field as_u64 f canon_MIN_HEIGHT) (wd_min_height w),
        wd_max_height := or_else (field as_u64 f canon_MAX_HEIGHT) (wd_max_height w),
        wd_x := or_else (field as_u64 f canon_X) (wd_x w), wd_y := or_else (field as_u64 f canon_Y) (wd_y w),
        wd_flex_direction := or_else (field (param_from_value direction_from_str) f (cc (CHR ''F'') (CHR ''D''))) (wd_flex_direction w),
        wd_flex_wrap := or_else (field (param_from_value wrap_from_str) f (cc (CHR ''F'') (CHR ''W''))) (wd_flex_wrap w),
        wd_justify_content := or_else (field (param_from_value justify_from_str) f (cc (CHR ''J'') (CHR ''C''))) (wd_justify_content w),
        wd_align_items := or_else (field (param_from_value align_from_str) f (cc (CHR ''A'') (CHR ''I''))) (wd_align_items w),
        wd_flex_grow := or_else (grow_field f (cc (CHR ''F'') (CHR ''G''))) (wd_flex_grow w),
        wd_flex_shrink := or_else (grow_field f (cc (CHR ''F'') (CHR ''S''))) (wd_flex_shrink w),
        wd_gap := or_else (map_option as_i32 (field as_i64 f canon_GAP)) (wd_gap w)\<rparr>)"

record scroll_cursor =
  sc_id :: uuid
  sc_kind :: string
  sc_position :: i64
  sc_page_size :: i64
  sc_total_size :: i64

definition cursor_load :: "graph_thing \<Rightarrow> scroll_cursor option" where
  "cursor_load t =
     (if thing_kind t \<noteq> canon_CURSOR then None
      else let f = thing_fields t
      in Some \<lparr>sc_id = thing_id t, sc_kind = unwrap_or [] (field graph_extract_text f canon_KIND),
        sc_position = unwrap_or 0 (field as_i64 f canon_POSITION), sc_page_size = unwrap_or 0 (field as_i64 f canon_PAGE_SIZE),
        sc_total_size = unwrap_or 0 (field as_i64 f canon_TOTAL_SIZE)\<rparr>)"

text \<open>The fields with which widgets and cursors are created.\<close>

definition create_widget_fields :: "string \<Rightarrow> bool \<Rightarrow> bool \<Rightarrow> string option \<Rightarrow> gmap" where
  "create_widget_fields role visible enabled label =
     put_opt canon_LABEL VText label (bt_insert canon_ACTIVE (VBool enabled) (bt_insert canon_VISIBLE (VBool visible)
       (bt_insert canon_ROLE (VText role) [])))"

definition create_cursor_fields :: "string \<Rightarrow> i64 \<Rightarrow> i64 \<Rightarrow> i64 \<Rightarrow> gmap" where
  "create_cursor_fields kind position page_size total_size =
     bt_insert canon_TOTAL_SIZE (VI64 total_size) (bt_insert canon_PAGE_SIZE (VI64 page_size)
       (bt_insert canon_POSITION (VI64 position) (bt_insert canon_KIND (VText kind) [])))"

section \<open>Lemmas\<close>

lemma key_codes:
  "canon_WIDTH = Symbol 0x574454"
  "canon_HEIGHT = Symbol 0x484754"
  "canon_TITLE = Symbol 0x54544C"
  "canon_X = Symbol 0x582020"
  "canon_Y = Symbol 0x592020"
  "canon_Z = Symbol 0x5A494E"
  "canon_VISIBLE = Symbol 0x565342"
  "canon_ACTIVE = Symbol 0x414354"
  "canon_IS_ROOT = Symbol 0x495352"
  "canon_IS_PLACE_ROOT = Symbol 0x495052"
  "canon_PLACE = Symbol 0x504C43"
  "canon_MODE_INDEX = Symbol 0x4D4458"
  "canon_TARGET = Symbol 0x544754"
  "canon_WINDOW_RECT = Symbol 0x575243"
  "canon_GAP = Symbol 0x474150"
  "canon_TILE_MODE = Symbol 0x544C4D"
  "canon_BYTES = Symbol 0x425954"
  "canon_BUFFER_KIND = Symbol 0x424B44"
  "canon_BUFFER_USAGE = Symbol 0x425547"
  "canon_ADDR = Symbol 0x414452"
  "canon_OWNER = Symbol 0x4F574E"
  "canon_BUFFER = Symbol 0x425546"
  "canon_HEAD = Symbol 0x484541"
  "canon_TAIL = Symbol 0x544149"
  "canon_HAS_DATA = Symbol 0x484454"
  "canon_CAPACITY = Symbol 0x434150"
  "canon_ROLE = Symbol 0x524F4C"
  "canon_LABEL = Symbol 0x4C424C"
  "canon_KIND = Symbol 0x4B4E44"
  "canon_POSITION = Symbol 0x504F53"
  "canon_PAGE_SIZE = Symbol 0x504753"
  "canon_TOTAL_SIZE = Symbol 0x545453"
  "cc (CHR ''F'') (CHR ''D'') = Symbol 0x464400"
  "cc (CHR ''J'') (CHR ''C'') = Symbol 0x4A4300"
  "cc (CHR ''A'') (CHR ''I'') = Symbol 0x414900"
  by code_simp+

lemma bt_get_put_opt: "bt_get (put_opt k f v m) k' = (if k' = k then or_else (map_option f v) (bt_get m k) else bt_get m k')"
  by (auto simp: put_opt_def or_else_def split: option.splits)

lemma unwrap_or_simps [simp]: "unwrap_or d None = d" "unwrap_or d (Some x) = x"
  by (simp_all add: unwrap_or_def)

lemma or_else_simps [simp]: "or_else None b = b" "or_else (Some x) b = Some x" "or_else a None = a"
  by (auto simp: or_else_def split: option.splits)

lemma bind_map_option: "(\<And>x. f (g x) = Some x) \<Longrightarrow> Option.bind (map_option g v) f = v"
  by (cases v) simp_all

lemma i32_roundtrip: "in_i32 g \<Longrightarrow> as_i32 (from_i32 g) = g"
proof -
  assume g: "in_i32 g"
  have "sint (word_of_int g :: i64) = g" unfolding sint_sbintrunc' using g by (intro signed_take_bit_int_eq_self) (auto simp: in_i32_def)
  then show ?thesis using g by (simp add: as_i32_def from_i32_def)
qed

lemma window_rect_roundtrip: "window_rect_from_optional_value (map_option window_rect_to_value r) = r"
  by (cases r) (simp_all add: window_rect_from_optional_value_def window_rect_to_value_def window_rect_from_value_def map_i64_def
      field_def key_codes del: bt_insert.simps)

text \<open>
  C39: a window survives the graph. Reading back the fields a window is written with gives the same window,
  whatever its optional attributes.
\<close>

theorem window_roundtrip:
  assumes "\<And>g. win_gap w = Some g \<Longrightarrow> in_i32 g"
  shows "window_load \<lparr>thing_id = win_id w, thing_kind = canon_WINDOW, thing_labels = ls, thing_fields = window_to_fields w,
    thing_owner = own, thing_revision = n\<rparr> = Some w"
proof -
  have gap: "map_option as_i32 (Option.bind (map_option (\<lambda>g. VI64 (from_i32 g)) (win_gap w)) as_i64) = win_gap w"
    using assms by (cases "win_gap w") (simp_all add: i32_roundtrip)
  have mode: "map_option ucast (Option.bind (map_option (\<lambda>i. VI64 (ucast i)) (win_mode_index w)) as_i64) = win_mode_index w"
    by (cases "win_mode_index w") (simp_all add: ucast_down_ucast_id is_down)
  show ?thesis
    by (cases w) (use gap mode in \<open>simp add: window_load_def window_to_fields_def Let_def field_def bt_get_put_opt key_codes graph_extract_text_def
      window_rect_roundtrip bind_map_option direction_roundtrip justify_roundtrip align_roundtrip del: bt_insert.simps\<close>)
qed

definition demo_window :: window where
  "demo_window = \<lparr>win_id = 7, win_width = 640, win_height = 480, win_title = ''Editor'', win_x = 10, win_y = 20, win_z = - 1, win_visible = True,
     win_target = Some 9, win_active = False, win_is_root = False, win_is_place_root = False, win_place_id = None, win_mode_index = Some 3,
     win_rect = Some \<lparr>wr_x = 1, wr_y = - 2, wr_width = 2, wr_height = 20, wr_visible = True\<rparr>, win_gap = Some (- 4),
     win_flex_direction = Some DirRow, win_justify_content = None, win_align_items = Some ACenter, win_tile_mode = None\<rparr>"

theorem window_roundtrip_witness:
  "window_load \<lparr>thing_id = 7, thing_kind = canon_WINDOW, thing_labels = [], thing_fields = window_to_fields demo_window,
     thing_owner = 1, thing_revision = 2\<rparr> = Some demo_window"
  using window_roundtrip [of demo_window "[]" 1 2] by (simp add: demo_window_def in_i32_def)

lemma shared_buffer_roundtrip:
  assumes "sb_addr b = None \<Longrightarrow> field as_u64 (sb_props b) canon_ADDR = None" "sb_owner b = None \<Longrightarrow> field as_uuid (sb_props b) canon_OWNER = None"
  shows "shared_buffer_load \<lparr>thing_id = sb_id b, thing_kind = canon_SHARED_BUFFER, thing_labels = ls, thing_fields = shared_buffer_to_fields b,
    thing_owner = own, thing_revision = n\<rparr> = Some (b\<lparr>sb_props := shared_buffer_to_fields b\<rparr>)"
  using assms
  by (cases b; cases "sb_addr b"; cases "sb_owner b")
    (simp_all add: shared_buffer_load_def shared_buffer_to_fields_def field_def bt_get_put_opt key_codes del: bt_insert.simps)

lemma queue_state_roundtrip:
  assumes "qu_capacity q = None \<Longrightarrow> field as_u64 (qu_props q) canon_CAPACITY = None" "qu_owner q = None \<Longrightarrow> field as_uuid (qu_props q) canon_OWNER = None"
  shows "queue_state_load \<lparr>thing_id = qu_id q, thing_kind = canon_QUEUE_STATE, thing_labels = ls, thing_fields = queue_state_to_fields q,
    thing_owner = own, thing_revision = n\<rparr> = Some (q\<lparr>qu_props := queue_state_to_fields q\<rparr>)"
  using assms
  by (cases q; cases "qu_capacity q"; cases "qu_owner q")
    (simp_all add: queue_state_load_def queue_state_to_fields_def field_def bt_get_put_opt key_codes del: bt_insert.simps)

section \<open>Updating a widget\<close>

text \<open>
  A change that an update treats like a reload: each value it carries has the type its reader expects, and a
  fallback key comes only with the key it stands in for.
\<close>

definition reads :: "(gvalue \<Rightarrow> 'a option) \<Rightarrow> gmap \<Rightarrow> symbol \<Rightarrow> bool" where
  "reads f m k \<longleftrightarrow> (case bt_get m k of None \<Rightarrow> True | Some v \<Rightarrow> f v \<noteq> None)"

definition with_main :: "gmap \<Rightarrow> symbol \<Rightarrow> symbol \<Rightarrow> bool" where
  "with_main m k main \<longleftrightarrow> (bt_get m k = None \<or> bt_get m main \<noteq> None)"

definition clean_patch :: "gmap \<Rightarrow> bool" where
  "clean_patch m \<longleftrightarrow>
     list_all (reads graph_extract_text m)
       [canon_ROLE, cc (CHR ''W'') (CHR ''K''), canon_LABEL, canon_ITEM_LABEL, canon_ICON_NAME, canon_ACTION, canon_DESCRIPTION] \<and>
     list_all (reads as_bool m) [canon_VISIBLE, canon_ACTIVE, canon_FOCUSABLE] \<and> reads as_uuid m canon_PARENT \<and>
     list_all (reads as_u64 m) [canon_WIDTH, canon_HEIGHT, canon_MIN_WIDTH, canon_MIN_HEIGHT, canon_MAX_WIDTH, canon_MAX_HEIGHT, canon_X, canon_Y] \<and>
     list_all (reads as_i64 m) [canon_TAB_INDEX, cc (CHR ''F'') (CHR ''G''), cc (CHR ''F'') (CHR ''S''), canon_GAP] \<and>
     list_all (reads as_bytes_value m) [canon_BITMAP, cc (CHR ''I'') (CHR ''D'')] \<and>
     reads (param_from_value direction_from_str) m (cc (CHR ''F'') (CHR ''D'')) \<and> reads (param_from_value wrap_from_str) m (cc (CHR ''F'') (CHR ''W'')) \<and>
     reads (param_from_value justify_from_str) m (cc (CHR ''J'') (CHR ''C'')) \<and> reads (param_from_value align_from_str) m (cc (CHR ''A'') (CHR ''I'')) \<and>
     with_main m (cc (CHR ''W'') (CHR ''K'')) canon_ROLE \<and> with_main m canon_ITEM_LABEL canon_LABEL \<and> with_main m (cc (CHR ''I'') (CHR ''D'')) canon_BITMAP"

lemma bt_get_extend_sorted: "sorted_map g \<Longrightarrow> bt_get (bt_extend m g) k = or_else (bt_get g k) (bt_get m k)"
  by (simp add: bt_get_extend map_of_distinct_rev sorted_map_distinct map_add_def or_else_def split: option.splits)

lemma field_extend:
  assumes "sorted_map g" "reads f g k"
  shows "field f (bt_extend m g) k = or_else (field f g k) (field f m k)"
  using assms(2) by (auto simp: field_def bt_get_extend_sorted [OF assms(1)] reads_def split: option.splits)

lemma fallback_extend:
  assumes "sorted_map g" "reads f g k" "with_main g k' k"
  shows "Option.bind (or_else (bt_get (bt_extend m g) k) (bt_get (bt_extend m g) k')) f =
    or_else (Option.bind (or_else (bt_get g k) (bt_get g k')) f) (Option.bind (or_else (bt_get m k) (bt_get m k')) f)"
  using assms(2,3) by (auto simp: bt_get_extend_sorted [OF assms(1)] reads_def with_main_def split: option.splits)

lemma role_extend:
  assumes "sorted_map g" "reads graph_extract_text g canon_ROLE" "reads graph_extract_text g (cc (CHR ''W'') (CHR ''K''))"
    "with_main g (cc (CHR ''W'') (CHR ''K'')) canon_ROLE"
  shows "role_field (bt_extend m g) = or_else (role_field g) (role_field m)"
proof (cases "bt_get g canon_ROLE")
  case None
  then have "bt_get g (cc (CHR ''W'') (CHR ''K'')) = None" using assms(4) by (simp add: with_main_def)
  then show ?thesis using None assms by (simp add: role_field_def field_extend) (simp add: field_def)
next
  case (Some v)
  then obtain t where "graph_extract_text v = Some t" using assms(2) by (auto simp: reads_def)
  then show ?thesis using Some assms by (simp add: role_field_def field_extend) (simp add: field_def)
qed

lemma unwrap_or_else: "unwrap_or d (or_else a b) = unwrap_or (unwrap_or d b) a"
  by (cases a) simp_all

lemma map_or_else: "map_option h (or_else a b) = or_else (map_option h a) (map_option h b)"
  by (cases a) simp_all

text \<open>
  Updating a widget is reloading it. Applying a clean change to a loaded widget gives the widget that
  would be loaded from the node after the change, whose fields are the old ones with the changed ones
  written over them, as the kernel's property update leaves them.
\<close>

theorem widget_update_reloads:
  assumes "widget_load t = Some w" "sorted_map (thing_fields t')" "clean_patch (thing_fields t')"
  shows "widget_load (t\<lparr>thing_fields := bt_extend (thing_fields t) (thing_fields t')\<rparr>) = Some (widget_update w t')"
proof -
  let ?f = "thing_fields t" and ?g = "thing_fields t'"
  note patch = assms(3) [unfolded clean_patch_def list.pred_inject]
  have fb: "label_field (bt_extend ?f ?g) = or_else (label_field ?g) (label_field ?f)"
    "bitmap_field (bt_extend ?f ?g) = or_else (bitmap_field ?g) (bitmap_field ?f)"
    unfolding label_field_def bitmap_field_def using patch by (intro fallback_extend assms(2); simp)+
  have gr: "grow_field (bt_extend ?f ?g) k = or_else (grow_field ?g k) (grow_field ?f k)" if "reads as_i64 ?g k" for k
    unfolding grow_field_def field_extend [OF assms(2) that] by (rule map_or_else)
  have rl: "role_field (bt_extend ?f ?g) = or_else (role_field ?g) (role_field ?f)" using patch by (intro role_extend assms(2)) simp_all
  have k: "thing_kind t = canon_WIDGET" using assms(1) by (simp add: widget_load_def split: if_splits)
  have w: "w = the (widget_load t)" using assms(1) by simp
  show ?thesis unfolding w
    using patch by (simp add: widget_load_def widget_update_def Let_def k fb rl gr field_extend [OF assms(2)] unwrap_or_else map_or_else)
qed

definition demo_widget_node :: graph_thing where
  "demo_widget_node = \<lparr>thing_id = 5, thing_kind = canon_WIDGET, thing_labels = [], thing_fields = create_widget_fields ''button'' True True (Some ''OK''),
     thing_owner = 1, thing_revision = 1\<rparr>"

definition demo_widget_change :: graph_thing where
  "demo_widget_change = demo_widget_node\<lparr>thing_fields := [(canon_VISIBLE, VBool False)]\<rparr>"

lemma demo_change_clean: "clean_patch (thing_fields demo_widget_change)"
  by code_simp

theorem widget_update_reloads_witness:
  "widget_load (demo_widget_node\<lparr>thing_fields := bt_extend (thing_fields demo_widget_node) (thing_fields demo_widget_change)\<rparr>) =
     Some (widget_update (the (widget_load demo_widget_node)) demo_widget_change)"
  by (rule widget_update_reloads [OF _ _ demo_change_clean])
    (simp_all add: demo_widget_node_def demo_widget_change_def widget_load_def Let_def sorted_map_Cons)

end
