(* ===== verification/Float_Bounds.thy ===== *)
theory Float_Bounds
  imports Float32
begin

text \<open>
  Bounds on single precision arithmetic: rounding is monotone towards representable numbers, integers below
  $2^{24}$ are exact, and a fraction of a length never exceeds the length.
\<close>

lemma pow2_pos [simp]: "0 < pow2 e"
  by (simp add: pow2_def)

lemma pow2_add: "pow2 (a + b) = pow2 a * pow2 b"
proof -
  have p: "pow2 e = 2 powi e" for e by (simp add: pow2_def power_int_def field_simps)
  show ?thesis unfolding p by (simp add: power_int_add)
qed

lemma pow2_mono: "a \<le> b \<Longrightarrow> pow2 a \<le> pow2 b"
proof -
  assume "a \<le> b"
  then have "pow2 b = pow2 a * 2 ^ nat (b - a)" using pow2_add [of a "b - a"] by (simp add: pow2_def)
  moreover have "1 \<le> (2 :: rat) ^ nat (b - a)" by simp
  ultimately show ?thesis using mult_left_mono [of 1 "2 ^ nat (b - a)" "pow2 a"] by (simp add: less_imp_le)
qed

lemma pow2_less: "pow2 a < pow2 b \<Longrightarrow> a < b"
  using pow2_mono [of b a] by fastforce

lemma ilog_le: "0 < q \<Longrightarrow> pow2 (ilog q) \<le> q"
proof -
  assume q: "0 < q"
  obtain n d where nd: "quotient_of q = (n, d)" by (cases "quotient_of q")
  then have d: "0 < d" and eq: "q = of_int n / of_int d" using quotient_of_denom_pos quotient_of_div by blast+
  then have n: "0 < n" using q by (simp add: zero_less_divide_iff)
  let ?a = "floorlog 2 (nat n)" and ?b = "floorlog 2 (nat d)"
  have b: "2 ^ (?a - 1) \<le> nat n" "nat d < 2 ^ ?b" "0 < ?a"
    using n d floorlog_bounds [of "nat n" 2] floorlog_bounds [of "nat d" 2] by (auto simp: floorlog_eq_zero_iff intro: gr0I)
  have "pow2 (int ?a - int ?b - 1) * of_int d \<le> of_int n"
  proof -
    have "of_int d \<le> pow2 (int ?b)"
    proof -
      have "int (nat d) < int (2 ^ ?b)" using b(2) by (simp only: of_nat_less_iff)
      then have "d \<le> 2 ^ ?b" using d by simp
      then have "(of_int d :: rat) \<le> of_int (2 ^ ?b)" by (simp only: of_int_le_iff)
      then show ?thesis by (simp add: pow2_def)
    qed
    then have "pow2 (int ?a - int ?b - 1) * of_int d \<le> pow2 (int ?a - int ?b - 1) * pow2 (int ?b)"
      by (intro mult_left_mono) (simp_all add: less_imp_le)
    also have "\<dots> = pow2 (int (?a - 1))" using b(3) by (simp add: of_nat_diff flip: pow2_add)
    also have "\<dots> \<le> of_int n"
    proof -
      have "int (2 ^ (?a - 1)) \<le> int (nat n)" using b(1) by (simp only: of_nat_le_iff)
      then have "2 ^ (?a - 1) \<le> n" using n by simp
      then have "(of_int (2 ^ (?a - 1)) :: rat) \<le> of_int n" by (simp only: of_int_le_iff)
      then show ?thesis by (simp add: pow2_def)
    qed
    finally show ?thesis .
  qed
  then have "pow2 (int ?a - int ?b - 1) \<le> q" using d by (simp add: eq field_simps)
  then show ?thesis by (simp add: ilog_def nd Let_def)
qed

lemma round_even_le: "q \<le> of_int n \<Longrightarrow> round_even q \<le> n"
proof -
  assume q: "q \<le> of_int n"
  show ?thesis
  proof (cases "\<lfloor>q\<rfloor> < n")
    case True
    then show ?thesis by (simp add: round_even_def Let_def)
  next
    case False
    then have "q = of_int n" using q by (metis le_floor_iff linorder_not_less order_antisym)
    then show ?thesis by (simp add: round_even_def)
  qed
qed

lemma round_even_ge: "of_int n \<le> q \<Longrightarrow> n \<le> round_even q"
proof -
  assume "of_int n \<le> q"
  then have "n \<le> \<lfloor>q\<rfloor>" by (simp add: le_floor_iff)
  then show ?thesis by (auto simp: round_even_def Let_def)
qed

text \<open>Rounding below $2^{23}$ stays on the same side of every multiple of one half.\<close>

lemma f32_round_half:
  assumes q: "0 \<le> q" "q < 8388608"
  obtains v where "f32_round q = FFin v" "\<And>m. q \<le> of_int m / 2 \<Longrightarrow> v \<le> of_int m / 2" "\<And>m. of_int m / 2 \<le> q \<Longrightarrow> of_int m / 2 \<le> v"
proof (cases "q = 0")
  case True
  then show ?thesis by (intro that [of 0]) (simp_all add: f32_round_def)
next
  case False
  then have pos: "0 < q" using q by simp
  define e where "e = max (ilog q - 23) (- 149)"
  have "pow2 (ilog q) < pow2 23" using ilog_le [OF pos] q by (simp add: pow2_def)
  then have "ilog q < 23" by (rule pow2_less)
  then have e: "e \<le> - 1" "- 149 \<le> e" by (auto simp: e_def)
  define k where "k = nat (- e) - 1"
  have k: "pow2 e = 1 / (2 * 2 ^ k)" using e by (simp add: pow2_def k_def flip: power_Suc)
  let ?v = "of_int (round_even (q / pow2 e)) * pow2 e"
  have up: "?v \<le> of_int m / 2" if "q \<le> of_int m / 2" for m
  proof -
    have "q / pow2 e \<le> of_int (m * 2 ^ k)" using that by (simp add: k field_simps)
    then have "round_even (q / pow2 e) \<le> m * 2 ^ k" by (rule round_even_le)
    then have "(of_int (round_even (q / pow2 e)) :: rat) \<le> of_int (m * 2 ^ k)" by (simp only: of_int_le_iff)
    then show ?thesis by (simp add: k field_simps)
  qed
  have down: "of_int m / 2 \<le> ?v" if "of_int m / 2 \<le> q" for m
  proof -
    have "of_int (m * 2 ^ k) \<le> q / pow2 e" using that by (simp add: k field_simps)
    then have "m * 2 ^ k \<le> round_even (q / pow2 e)" by (rule round_even_ge)
    then have "(of_int (m * 2 ^ k) :: rat) \<le> of_int (round_even (q / pow2 e))" by (simp only: of_int_le_iff)
    then show ?thesis by (simp add: k field_simps)
  qed
  have "?v \<le> 8388608" "0 \<le> ?v" using up [of 16777216] down [of 0] q by simp_all
  then have "\<not> pow2 128 \<le> \<bar>?v\<bar>" by (simp add: pow2_def)
  then have "f32_round q = FFin ?v" using False pos by (simp add: f32_round_def e_def Let_def)
  then show ?thesis using that up down by blast
qed

lemma f32_round_exact: "0 \<le> m \<Longrightarrow> m < 16777216 \<Longrightarrow> f32_round (of_int m / 2) = FFin (of_int m / 2)"
proof -
  assume m: "0 \<le> m" "m < 16777216"
  then have q: "0 \<le> (of_int m / 2 :: rat)" "of_int m / 2 < (8388608 :: rat)" by simp_all
  obtain v where "f32_round (of_int m / 2) = FFin v" "v \<le> of_int m / 2" "of_int m / 2 \<le> v"
    by (rule f32_round_half [OF q]) blast
  then show ?thesis by simp
qed

lemma f32_of_int_exact: "0 \<le> n \<Longrightarrow> n < 8388608 \<Longrightarrow> f32_of_int n = FFin (of_int n)"
  using f32_round_exact [of "2 * n"] by (simp add: f32_of_int_def)

text \<open>The share \<open>a / b\<close> of a length \<open>t\<close>, rounded to the nearest integer, is a part of the length.\<close>

lemma f32_share:
  assumes ab: "0 \<le> a" "a \<le> b" "0 < b" "b < 8388608" and t: "0 \<le> t" "t < 4194304"
  defines "s \<equiv> f32_as_i32 (f32_add (f32_mul (f32_div (f32_of_int a) (f32_of_int b)) (f32_of_int t)) (FFin (1 / 2)))"
  shows "0 \<le> s" "s \<le> t" "a = 0 \<Longrightarrow> s = 0" "a = b \<Longrightarrow> s = t"
proof -
  let ?q = "of_int a / of_int b :: rat"
  have q: "0 \<le> ?q" "?q \<le> 1" using ab by simp_all
  obtain r where r: "f32_round ?q = FFin r" "r \<le> 1" "0 \<le> r" "?q = 0 \<Longrightarrow> r = 0" "?q = 1 \<Longrightarrow> r = 1"
  proof (rule f32_round_half [of ?q])
    fix v assume v: "f32_round ?q = FFin v" "\<And>m. ?q \<le> of_int m / 2 \<Longrightarrow> v \<le> of_int m / 2" "\<And>m. of_int m / 2 \<le> ?q \<Longrightarrow> of_int m / 2 \<le> v"
    show thesis using v(2) [of 2] v(3) [of 0] v(2) [of 0] v(3) [of 2] q by (intro that [OF v(1)]) simp_all
  qed (use q in simp_all)
  have rt: "0 \<le> r * of_int t" "r * of_int t \<le> of_int t" using r t mult_right_mono [of r 1 "of_int t"] by simp_all
  obtain p where p: "f32_round (r * of_int t) = FFin p" "p \<le> of_int t" "0 \<le> p" "r = 0 \<Longrightarrow> p = 0" "r = 1 \<Longrightarrow> p = of_int t"
  proof (rule f32_round_half [of "r * of_int t"])
    show "r * of_int t < 8388608" using rt t by (simp add: le_less_trans)
    fix v assume v: "f32_round (r * of_int t) = FFin v" "\<And>m. r * of_int t \<le> of_int m / 2 \<Longrightarrow> v \<le> of_int m / 2"
      "\<And>m. of_int m / 2 \<le> r * of_int t \<Longrightarrow> of_int m / 2 \<le> v"
    show thesis using v(2) [of "2 * t"] v(3) [of 0] v(2) [of 0] v(3) [of "2 * t"] rt by (intro that [OF v(1)]) simp_all
  qed (use rt in simp_all)
  have ph: "0 \<le> p + 1 / 2" "p + 1 / 2 \<le> of_int (2 * t + 1) / 2" using p by simp_all
  obtain h where h: "f32_round (p + 1 / 2) = FFin h" "h \<le> of_int (2 * t + 1) / 2" "1 / 2 \<le> h" "p = 0 \<Longrightarrow> h = 1 / 2" "p = of_int t \<Longrightarrow> h = of_int (2 * t + 1) / 2"
  proof (rule f32_round_half [of "p + 1 / 2"])
    show "p + 1 / 2 < 8388608" using ph t by simp
    fix v assume v: "f32_round (p + 1 / 2) = FFin v" "\<And>m. p + 1 / 2 \<le> of_int m / 2 \<Longrightarrow> v \<le> of_int m / 2"
      "\<And>m. of_int m / 2 \<le> p + 1 / 2 \<Longrightarrow> of_int m / 2 \<le> v"
    show thesis using v(2) [of "2 * t + 1"] v(3) [of 1] v(2) [of 1] v(3) [of "2 * t + 1"] ph p by (intro that [OF v(1)]) simp_all
  qed (use ph in simp_all)
  have "f32_add (f32_mul (f32_div (f32_of_int a) (f32_of_int b)) (f32_of_int t)) (FFin (1 / 2)) = FFin h"
    using ab t by (simp add: f32_of_int_exact r(1) p(1) h(1))
  then have s: "s = max (- 2147483648) (min 2147483647 \<lfloor>h\<rfloor>)" using h(3) by (simp add: s_def rat_trunc_def)
  have "0 \<le> \<lfloor>h\<rfloor>" "\<lfloor>h\<rfloor> \<le> t" using h(2,3) t by (simp_all add: floor_le_iff add_divide_distrib)
  then show "0 \<le> s" "s \<le> t" using s by auto
  show "s = 0" if "a = 0" using that r(4) p(4) h(4) s by (simp add: floor_eq_iff)
  have half: "\<lfloor>1 / 2 :: rat\<rfloor> = 0" by (simp add: floor_eq_iff)
  show "s = t" if "a = b" using that ab r(5) p(5) h(5) s t by (simp add: add_divide_distrib half)
qed

end
