(* ===== verification/Windows.thy ===== *)
theory Windows
  imports Things Render Float_Bounds
begin

text \<open>
  Windows as the compositor keeps them (\<open>src/compositor/src/window.rs\<close>) and the pointer
  (\<open>src/compositor/src/cursor.rs\<close>): frame and client areas, the scrollbar of a content that does not fit,
  hit tests and the kinds of dragging.
\<close>

section \<open>Constants\<close>

definition RESIZE_MARGIN :: int where "RESIZE_MARGIN = 6"
definition RESIZE_CORNER_SIZE :: int where "RESIZE_CORNER_SIZE = 8"
definition MIN_WINDOW_WIDTH :: int where "MIN_WINDOW_WIDTH = 140"
definition MIN_WINDOW_HEIGHT :: int where "MIN_WINDOW_HEIGHT = 100"
definition CLOSE_BUTTON_SIZE :: int where "CLOSE_BUTTON_SIZE = 28"
definition CLOSE_BUTTON_MARGIN_RIGHT :: int where "CLOSE_BUTTON_MARGIN_RIGHT = 2"
definition CLOSE_BUTTON_MARGIN_TOP :: int where "CLOSE_BUTTON_MARGIN_TOP = 2"
definition SCROLLBAR_WIDTH :: int where "SCROLLBAR_WIDTH = 24"
definition SCROLLBAR_GAP :: int where "SCROLLBAR_GAP = 4"
definition SCROLLBAR_MIN_THUMB :: int where "SCROLLBAR_MIN_THUMB = 32"
definition SCROLL_STEP_LINE :: int where "SCROLL_STEP_LINE = int FONT_HEIGHT"
definition SCROLLBAR_TOTAL_RESERVE :: int where "SCROLLBAR_TOTAL_RESERVE = SCROLLBAR_WIDTH + SCROLLBAR_GAP"

lemmas window_consts = RESIZE_MARGIN_def RESIZE_CORNER_SIZE_def MIN_WINDOW_WIDTH_def MIN_WINDOW_HEIGHT_def CLOSE_BUTTON_SIZE_def
  CLOSE_BUTTON_MARGIN_RIGHT_def CLOSE_BUTTON_MARGIN_TOP_def SCROLLBAR_WIDTH_def SCROLLBAR_GAP_def SCROLLBAR_MIN_THUMB_def
  SCROLL_STEP_LINE_def SCROLLBAR_TOTAL_RESERVE_def FONT_HEIGHT_def

section \<open>State\<close>

record caret =
  car_x :: int
  car_y :: int
  car_width :: int
  car_height :: int
  car_visible :: bool

definition caret_default :: caret where
  "caret_default = \<lparr>car_x = 0, car_y = 0, car_width = 0, car_height = 0, car_visible = False\<rparr>"

text \<open>Of the state of the close button only \<open>pressed\<close> is read or written by the window manager.\<close>

record window_surface =
  ws_window :: window
  ws_surface_id :: "uuid option"
  ws_text :: string
  ws_bitmap :: "bitmap option"
  ws_scroll_y :: int
  ws_scrollbar_widget_id :: "uuid option"
  ws_caret :: caret
  ws_title_bar_id :: "uuid option"
  ws_close_button_id :: uuid
  ws_close_pressed :: bool
  ws_close_button_bitmap :: "bitmap option"
  ws_repeat :: bool
  ws_is_mono :: bool
  ws_text_color :: "u32 option"
  ws_bg_color :: "u32 option"

record window_layout =
  lay_title_x :: int
  lay_title_y :: int
  lay_title_w :: int
  lay_title_h :: int
  lay_client_x :: int
  lay_client_y :: int
  lay_client_w :: int
  lay_client_h :: int

record content_metrics =
  cm_content_rect :: rect
  cm_viewport_height :: int
  cm_content_height :: int
  cm_max_scroll :: int
  cm_scroll_offset :: int
  cm_track_rect :: "rect option"
  cm_thumb_rect :: "rect option"
  cm_thumb_offset :: "int option"

section \<open>Layout\<close>

definition compute_window_layout :: "int \<Rightarrow> int \<Rightarrow> int \<Rightarrow> int \<Rightarrow> int \<Rightarrow> window_layout option" where
  "compute_window_layout wx wy ww wh title_bar_height =
     (let inner_w = i32 (ww - 2 * RESIZE_MARGIN); inner_h = i32 (wh - 2 * RESIZE_MARGIN)
      in if inner_w \<le> 0 \<or> inner_h \<le> title_bar_height then None
         else let title_x = i32 (wx + RESIZE_MARGIN); title_y = i32 (wy + RESIZE_MARGIN);
                  client_y = i32 (title_y + title_bar_height); client_h = i32 (inner_h - title_bar_height)
              in if inner_w \<le> 0 \<or> client_h \<le> 0 then None
                 else Some \<lparr>lay_title_x = title_x, lay_title_y = title_y, lay_title_w = inner_w, lay_title_h = title_bar_height,
                   lay_client_x = title_x, lay_client_y = client_y, lay_client_w = inner_w, lay_client_h = client_h\<rparr>)"

text \<open>The characters of a text: its UTF-8 bytes decoded.\<close>

fun utf8_chars :: "nat list \<Rightarrow> nat list" where
  "utf8_chars [] = []"
| "utf8_chars (b # bs) =
     (if b < 0x80 then b # utf8_chars bs
      else if b < 0xE0 then (case bs of b1 # rest \<Rightarrow> ((b mod 32) * 64 + b1 mod 64) # utf8_chars rest | _ \<Rightarrow> [])
      else if b < 0xF0 then
        (case bs of b1 # b2 # rest \<Rightarrow> ((b mod 16) * 4096 + (b1 mod 64) * 64 + b2 mod 64) # utf8_chars rest | _ \<Rightarrow> [])
      else (case bs of b1 # b2 # b3 # rest \<Rightarrow>
          ((b mod 8) * 262144 + (b1 mod 64) * 4096 + (b2 mod 64) * 64 + b3 mod 64) # utf8_chars rest | _ \<Rightarrow> []))"

definition chars :: "string \<Rightarrow> nat list" where
  "chars s = utf8_chars (map of_char s)"

fun measure_lines :: "font_manager \<Rightarrow> bool \<Rightarrow> f32 \<Rightarrow> f32 \<Rightarrow> f32 \<Rightarrow> f32 \<Rightarrow> nat list \<Rightarrow> f32" where
  "measure_lines fm is_mono line limit cx cy [] = cy"
| "measure_lines fm is_mono line limit cx cy (ch # cs) =
     (if ch = 10 then measure_lines fm is_mono line limit (FFin 0) (f32_add cy line) cs
      else let gw = g_advance_width (fst (text_glyph fm is_mono ch))
           in if f32_less limit (f32_add cx gw)
              then measure_lines fm is_mono line limit (f32_add (FFin 0) gw) (f32_add cy line) cs
              else measure_lines fm is_mono line limit (f32_add cx gw) cy cs)"

definition measure_text_height :: "font_manager \<Rightarrow> string \<Rightarrow> int \<Rightarrow> bool \<Rightarrow> int" where
  "measure_text_height fm s width is_mono =
     (if s = [] \<or> width \<le> 0 then 0
      else let line = l_new_line_size (text_metrics fm is_mono)
           in f32_as_i32 (measure_lines fm is_mono line (f32_of_int width) (FFin 0) line (chars s)))"

definition measure_surface_content_height :: "font_manager \<Rightarrow> window_surface \<Rightarrow> int \<Rightarrow> int" where
  "measure_surface_content_height fm s width =
     (if width \<le> 0 then 0
      else let bitmap_height = (if ws_repeat s then 1 else case ws_bitmap s of Some bmp \<Rightarrow> i32 (int (bm_height bmp)) | None \<Rightarrow> 0);
               text_height = (if ws_text s = [] then 0 else measure_text_height fm (ws_text s) width (ws_is_mono s))
           in max text_height bitmap_height)"

text \<open>The width that is left beside a scrollbar, with the content height at that width, when one is needed.\<close>

definition reserve_scrollbar :: "font_manager \<Rightarrow> window_surface \<Rightarrow> int \<Rightarrow> int \<Rightarrow> int \<times> int \<times> bool" where
  "reserve_scrollbar fm s client_w viewport_height =
     (let content_height = measure_surface_content_height fm s client_w
      in if viewport_height < content_height \<and> SCROLLBAR_TOTAL_RESERVE < client_w
         then let candidate_width = i32 (client_w - SCROLLBAR_TOTAL_RESERVE)
              in if 0 < candidate_width
                 then let candidate_height = measure_surface_content_height fm s candidate_width
                      in if viewport_height < candidate_height then (candidate_width, candidate_height, True)
                         else (client_w, content_height, False)
                 else (client_w, content_height, False)
         else (client_w, content_height, False))"

definition saturating_i32 :: "int \<Rightarrow> int" where
  "saturating_i32 z = max (- 2147483648) (min 2147483647 z)"

definition thumb_height_of :: "int \<Rightarrow> int \<Rightarrow> int" where
  "thumb_height_of track_height content_height =
     (let ratio = f32_div (f32_of_int track_height) (f32_of_int (max content_height 1));
          thumb = f32_as_i32 (f32_add (f32_mul ratio (f32_of_int track_height)) (FFin (1 / 2)))
      in clamp_i32 thumb (min SCROLLBAR_MIN_THUMB track_height) track_height)"

definition thumb_offset_of :: "int \<Rightarrow> int \<Rightarrow> int \<Rightarrow> int" where
  "thumb_offset_of scroll max_scroll thumb_travel =
     (if thumb_travel = 0 \<or> max_scroll = 0 then 0
      else f32_as_i32 (f32_add (f32_mul (f32_div (f32_of_int scroll) (f32_of_int max_scroll)) (f32_of_int thumb_travel)) (FFin (1 / 2))))"

definition content_metrics_new :: "font_manager \<Rightarrow> window_surface \<Rightarrow> window_layout \<Rightarrow> content_metrics" where
  "content_metrics_new fm s l =
     (let viewport_height = max (i32 (lay_client_h l - 1)) 0; client_y = i32 (lay_client_y l + 1)
      in if lay_client_w l \<le> 0 \<or> viewport_height \<le> 0
         then \<lparr>cm_content_rect = rect_new (lay_client_x l) client_y 0 (as_u32 viewport_height), cm_viewport_height = viewport_height,
               cm_content_height = 0, cm_max_scroll = 0, cm_scroll_offset = 0, cm_track_rect = None, cm_thumb_rect = None, cm_thumb_offset = None\<rparr>
         else case reserve_scrollbar fm s (lay_client_w l) viewport_height of (available_width, content_height, reserve) \<Rightarrow>
           let max_scroll = max (saturating_i32 (content_height - viewport_height)) 0;
               clamped_scroll = clamp_i32 (ws_scroll_y s) 0 max_scroll;
               content_rect = rect_new (lay_client_x l) client_y (as_u32 (max available_width 0)) (as_u32 (max viewport_height 0));
               track = rect_new (i32 (i32 (lay_client_x l + available_width) + SCROLLBAR_GAP)) client_y (as_u32 SCROLLBAR_WIDTH) (as_u32 viewport_height);
               thumb_height = thumb_height_of viewport_height content_height;
               thumb_offset = thumb_offset_of clamped_scroll max_scroll (max (i32 (viewport_height - thumb_height)) 0);
               thumb = rect_new (rx track) (i32 (ry track + thumb_offset)) (rwidth track) (as_u32 (max thumb_height 0));
               bar = (reserve \<and> 0 < rwidth content_rect \<and> 0 < viewport_height)
           in \<lparr>cm_content_rect = content_rect, cm_viewport_height = viewport_height, cm_content_height = content_height,
               cm_max_scroll = max_scroll, cm_scroll_offset = clamped_scroll,
               cm_track_rect = (if bar then Some track else None),
               cm_thumb_rect = (if bar then Some (if 0 < max_scroll then thumb else track) else None),
               cm_thumb_offset = (if bar then Some (if 0 < max_scroll then thumb_offset else 0) else None)\<rparr>)"

definition scrollbar_rect :: "content_metrics \<Rightarrow> rect" where
  "scrollbar_rect m = unwrap_or (rect_new 0 0 0 0) (cm_track_rect m)"

definition has_scrollbar :: "content_metrics \<Rightarrow> bool" where
  "has_scrollbar m \<longleftrightarrow> 0 < cm_max_scroll m \<and> cm_track_rect m \<noteq> None"

definition clamp_scroll :: "content_metrics \<Rightarrow> int \<Rightarrow> int" where
  "clamp_scroll m offset = clamp_i32 offset 0 (cm_max_scroll m)"

section \<open>Hit tests\<close>

definition point_in_rect :: "int \<Rightarrow> int \<Rightarrow> int \<times> int \<times> int \<times> int \<Rightarrow> bool" where
  "point_in_rect x y r = (case r of (x0, y0, rw, rh) \<Rightarrow> x0 \<le> x \<and> x < i32 (x0 + rw) \<and> y0 \<le> y \<and> y < i32 (y0 + rh))"

definition rect_contains :: "rect \<Rightarrow> int \<Rightarrow> int \<Rightarrow> bool" where
  "rect_contains r x y =
     (if rwidth r = 0 \<or> rheight r = 0 then False
      else rx r \<le> x \<and> x < i32 (rx r + i32 (int (rwidth r))) \<and> ry r \<le> y \<and> y < i32 (ry r + i32 (int (rheight r))))"

definition close_button_rect :: "window_layout \<Rightarrow> int \<times> int \<times> int \<times> int" where
  "close_button_rect l =
     (i32 (i32 (i32 (lay_title_x l + lay_title_w l) - CLOSE_BUTTON_SIZE) - CLOSE_BUTTON_MARGIN_RIGHT),
      i32 (lay_title_y l + CLOSE_BUTTON_MARGIN_TOP), CLOSE_BUTTON_SIZE, CLOSE_BUTTON_SIZE)"

record resize_edges =
  re_left :: bool
  re_right :: bool
  re_top :: bool
  re_bottom :: bool

definition corner_hit :: "int \<Rightarrow> int \<Rightarrow> bool" where
  "corner_hit a b \<longleftrightarrow> 0 \<le> a \<and> 0 \<le> b \<and> a \<le> RESIZE_CORNER_SIZE \<and> b \<le> RESIZE_CORNER_SIZE"

definition near_edge :: "int \<Rightarrow> bool" where
  "near_edge d \<longleftrightarrow> 0 \<le> d \<and> d \<le> RESIZE_MARGIN"

definition hit_test_resize :: "int \<Rightarrow> int \<Rightarrow> int \<Rightarrow> int \<Rightarrow> int \<Rightarrow> int \<Rightarrow> resize_edges option" where
  "hit_test_resize wx wy ww wh cursor_x cursor_y =
     (let dl = i32 (cursor_x - wx); dr = i32 (i32 (wx + ww) - cursor_x);
          dt = i32 (cursor_y - wy); db = i32 (i32 (wy + wh) - cursor_y);
          edges = (if near_edge dl \<and> corner_hit dl dt then \<lparr>re_left = True, re_right = False, re_top = True, re_bottom = False\<rparr>
            else if near_edge dr \<and> corner_hit dr dt then \<lparr>re_left = False, re_right = True, re_top = True, re_bottom = False\<rparr>
            else if near_edge dl \<and> corner_hit dl db then \<lparr>re_left = True, re_right = False, re_top = False, re_bottom = True\<rparr>
            else if near_edge dr \<and> corner_hit dr db then \<lparr>re_left = False, re_right = True, re_top = False, re_bottom = True\<rparr>
            else \<lparr>re_left = near_edge dl, re_right = (\<not> near_edge dl \<and> near_edge dr),
                  re_top = near_edge dt, re_bottom = (\<not> near_edge dt \<and> near_edge db)\<rparr>)
      in if re_left edges \<or> re_right edges \<or> re_top edges \<or> re_bottom edges then Some edges else None)"

datatype drag_kind =
    DragMove int int
  | DragResize resize_edges int int int int int int
  | DragScrollThumb int int int int int
  | DragCloseButton

record drag_state =
  ds_window_id :: uuid
  ds_kind :: drag_kind

section \<open>The pointer\<close>

datatype cursor_kind =
  CkArrow | CkMove | CkResizeN | CkResizeS | CkResizeE | CkResizeW | CkResizeNE | CkResizeNW | CkResizeSE | CkResizeSW

record cursor_icon =
  ic_bitmap :: bitmap
  ic_hotspot :: "int \<times> int"

record cursor_sprites =
  cs_arrow :: cursor_icon
  cs_move_icon :: cursor_icon
  cs_resize_ns :: cursor_icon
  cs_resize_ew :: cursor_icon
  cs_resize_ne_sw :: cursor_icon
  cs_resize_nw_se :: cursor_icon

fun for_kind :: "cursor_sprites \<Rightarrow> cursor_kind \<Rightarrow> cursor_icon" where
  "for_kind s CkArrow = cs_arrow s"
| "for_kind s CkMove = cs_move_icon s"
| "for_kind s CkResizeN = cs_resize_ns s"
| "for_kind s CkResizeS = cs_resize_ns s"
| "for_kind s CkResizeE = cs_resize_ew s"
| "for_kind s CkResizeW = cs_resize_ew s"
| "for_kind s CkResizeNE = cs_resize_ne_sw s"
| "for_kind s CkResizeSW = cs_resize_ne_sw s"
| "for_kind s CkResizeNW = cs_resize_nw_se s"
| "for_kind s CkResizeSE = cs_resize_nw_se s"

record cursor_state =
  cu_x :: int
  cu_y :: int
  cu_buttons :: u8
  cu_visible :: bool
  cu_kind :: cursor_kind

definition cursor_state_new :: "nat \<Rightarrow> nat \<Rightarrow> cursor_state" where
  "cursor_state_new width height =
     \<lparr>cu_x = i32 (int (width div 2)), cu_y = i32 (int (height div 2)), cu_buttons = 0, cu_visible = True, cu_kind = CkArrow\<rparr>"

definition cursor_update :: "i64 \<Rightarrow> i64 \<Rightarrow> u8 \<Rightarrow> nat \<Rightarrow> nat \<Rightarrow> cursor_state \<Rightarrow> cursor_state" where
  "cursor_update dx dy buttons width height c =
     c\<lparr>cu_x := clamp_i32 (i32 (cu_x c + as_i32 dx)) 0 (i32 (int (width - 1))),
       cu_y := clamp_i32 (i32 (cu_y c + as_i32 dy)) 0 (i32 (int (height - 1))), cu_buttons := buttons\<rparr>"

definition set_from_graph :: "i64 option \<Rightarrow> i64 option \<Rightarrow> bool option \<Rightarrow> nat \<Rightarrow> nat \<Rightarrow> cursor_state \<Rightarrow> cursor_state" where
  "set_from_graph x y visible width height c =
     c\<lparr>cu_x := (case x of Some nx \<Rightarrow> clamp_i32 (as_i32 nx) 0 (i32 (int (width - 1))) | None \<Rightarrow> cu_x c),
       cu_y := (case y of Some ny \<Rightarrow> clamp_i32 (as_i32 ny) 0 (i32 (int (height - 1))) | None \<Rightarrow> cu_y c),
       cu_visible := unwrap_or (cu_visible c) visible\<rparr>"

definition set_kind :: "cursor_kind \<Rightarrow> cursor_state \<Rightarrow> cursor_state" where
  "set_kind kind c = c\<lparr>cu_kind := kind\<rparr>"

section \<open>Geometry\<close>

text \<open>Positions and sizes far from the limits of \<open>i32\<close>.\<close>

definition near :: "int \<Rightarrow> bool" where
  "near z \<longleftrightarrow> \<bar>z\<bar> < 268435456"

lemma near_i32 [simp]: "near a \<Longrightarrow> in_i32 a" "near a \<Longrightarrow> near b \<Longrightarrow> in_i32 (a + b)" "near a \<Longrightarrow> near b \<Longrightarrow> in_i32 (a - b)"
  by (auto simp: near_def in_i32_def)

lemma window_layout_exact:
  assumes "near x" "near y" "near w" "near h" "0 \<le> th" "near th"
  shows "compute_window_layout x y w h th =
    (if w \<le> 12 \<or> h - 12 \<le> th then None
     else Some \<lparr>lay_title_x = x + 6, lay_title_y = y + 6, lay_title_w = w - 12, lay_title_h = th,
       lay_client_x = x + 6, lay_client_y = y + 6 + th, lay_client_w = w - 12, lay_client_h = h - 12 - th\<rparr>)"
proof -
  have "in_i32 (w - 12)" "in_i32 (h - 12)" "in_i32 (x + 6)" "in_i32 (y + 6)" "in_i32 (y + 6 + th)" "in_i32 (h - 12 - th)"
    using assms by (auto simp: near_def in_i32_def)
  then show ?thesis by (auto simp: compute_window_layout_def window_consts Let_def)
qed

definition layout_ok :: "window_layout \<Rightarrow> bool" where
  "layout_ok l \<longleftrightarrow> near (lay_client_x l) \<and> near (lay_client_y l) \<and> 0 < lay_client_w l \<and> near (lay_client_w l) \<and>
     0 < lay_client_h l \<and> lay_client_h l < 4194304"

lemma clamp_i32_bounds: "lo \<le> hi \<Longrightarrow> lo \<le> clamp_i32 v lo hi \<and> clamp_i32 v lo hi \<le> hi"
  by (simp add: clamp_i32_def)

lemma thumb_height_bounds:
  "0 < vh \<Longrightarrow> min 32 vh \<le> thumb_height_of vh ch \<and> thumb_height_of vh ch \<le> vh"
  using clamp_i32_bounds [of "min SCROLLBAR_MIN_THUMB vh" vh] by (simp add: thumb_height_of_def Let_def window_consts)

lemma thumb_offset_bounds:
  assumes "0 \<le> sc" "sc \<le> ms" "0 < ms" "ms < 8388608" "0 \<le> tr" "tr < 4194304"
  shows "0 \<le> thumb_offset_of sc ms tr \<and> thumb_offset_of sc ms tr \<le> tr \<and>
    (sc = 0 \<longrightarrow> thumb_offset_of sc ms tr = 0) \<and> (sc = ms \<longrightarrow> thumb_offset_of sc ms tr = tr)"
proof (cases "tr = 0")
  case True
  then show ?thesis by (simp add: thumb_offset_of_def)
next
  case False
  then have "thumb_offset_of sc ms tr = f32_as_i32 (f32_add (f32_mul (f32_div (f32_of_int sc) (f32_of_int ms)) (f32_of_int tr)) (FFin (1 / 2)))"
    unfolding thumb_offset_of_def using assms(3) by (intro if_not_P) simp
  then show ?thesis using f32_share [OF assms] by (simp only:) blast
qed

lemma reserve_scrollbar_cases:
  assumes "reserve_scrollbar fm s cw vh = (aw, ch, bar)" "near cw" "0 < cw"
  shows "if bar then aw = cw - 28 \<and> 0 < aw \<and> ch = measure_surface_content_height fm s aw \<and> vh < ch
    else aw = cw \<and> ch = measure_surface_content_height fm s cw"
proof -
  have "i32 (cw - 28) = cw - 28" using assms(2) by (intro i32_id) (auto simp: near_def in_i32_def)
  then have "reserve_scrollbar fm s cw vh =
      (if vh < measure_surface_content_height fm s cw \<and> 28 < cw \<and> vh < measure_surface_content_height fm s (cw - 28)
       then (cw - 28, measure_surface_content_height fm s (cw - 28), True) else (cw, measure_surface_content_height fm s cw, False))"
    by (simp add: reserve_scrollbar_def Let_def SCROLLBAR_TOTAL_RESERVE_def SCROLLBAR_WIDTH_def SCROLLBAR_GAP_def)
  then show ?thesis using assms(1) by (cases "vh < measure_surface_content_height fm s cw \<and> 28 < cw \<and> vh < measure_surface_content_height fm s (cw - 28)") auto
qed

lemma content_metrics_plain:
  assumes l: "layout_ok l" and vh: "1 < lay_client_h l" and rs: "reserve_scrollbar fm s (lay_client_w l) (lay_client_h l - 1) = (aw, ch, False)"
  shows "content_metrics_new fm s l =
    (let ms = max (saturating_i32 (ch - (lay_client_h l - 1))) 0
     in \<lparr>cm_content_rect = rect_new (lay_client_x l) (lay_client_y l + 1) (nat (lay_client_w l)) (nat (lay_client_h l - 1)),
       cm_viewport_height = lay_client_h l - 1, cm_content_height = ch, cm_max_scroll = ms, cm_scroll_offset = clamp_i32 (ws_scroll_y s) 0 ms,
       cm_track_rect = None, cm_thumb_rect = None, cm_thumb_offset = None\<rparr>)"
proof -
  have i: "i32 (lay_client_h l - 1) = lay_client_h l - 1" "i32 (lay_client_y l + 1) = lay_client_y l + 1"
    using l by (auto intro!: i32_id simp: layout_ok_def near_def in_i32_def)
  have "as_u32 (lay_client_w l) = nat (lay_client_w l)" using l by (intro as_u32_id) (auto simp: layout_ok_def near_def)
  moreover have "aw = lay_client_w l" using reserve_scrollbar_cases [OF rs] l by (simp add: layout_ok_def)
  ultimately show ?thesis using l vh rs i by (simp add: content_metrics_new_def Let_def layout_ok_def near_def)
qed

lemma content_metrics_bar:
  assumes l: "layout_ok l" and vh: "1 < lay_client_h l" and rs: "reserve_scrollbar fm s (lay_client_w l) (lay_client_h l - 1) = (aw, ch, True)"
    and ch: "ch < 8388608"
  shows "content_metrics_new fm s l =
    (let v = lay_client_h l - 1; ms = ch - v; th = thumb_height_of v ch; off = thumb_offset_of (clamp_i32 (ws_scroll_y s) 0 ms) ms (v - th);
         x = lay_client_x l + lay_client_w l - 24; y = lay_client_y l + 1
     in \<lparr>cm_content_rect = rect_new (lay_client_x l) y (nat (lay_client_w l - 28)) (nat v),
       cm_viewport_height = v, cm_content_height = ch, cm_max_scroll = ms, cm_scroll_offset = clamp_i32 (ws_scroll_y s) 0 ms,
       cm_track_rect = Some (rect_new x y 24 (nat v)), cm_thumb_rect = Some (rect_new x (y + off) 24 (nat th)), cm_thumb_offset = Some off\<rparr>)"
    and "0 < ch - (lay_client_h l - 1)" and "28 < lay_client_w l"
proof -
  let ?v = "lay_client_h l - 1"
  have aw: "aw = lay_client_w l - 28" "0 < aw" "?v < ch"
    using reserve_scrollbar_cases [OF rs, unfolded if_True] l unfolding layout_ok_def by blast+
  then show "0 < ch - ?v" and "28 < lay_client_w l" by simp_all
  have th: "min 32 ?v \<le> thumb_height_of ?v ch" "thumb_height_of ?v ch \<le> ?v" using thumb_height_bounds [of ?v ch] vh by simp_all
  let ?sc = "clamp_i32 (ws_scroll_y s) 0 (ch - ?v)" and ?tr = "?v - thumb_height_of ?v ch"
  have sc: "0 \<le> ?sc" "?sc \<le> ch - ?v" using clamp_i32_bounds [of 0 "ch - ?v"] aw by simp_all
  have tr: "0 \<le> ?tr" "?tr < 4194304" using th l vh by (auto simp: layout_ok_def)
  have off: "0 \<le> thumb_offset_of ?sc (ch - ?v) ?tr" "thumb_offset_of ?sc (ch - ?v) ?tr \<le> ?tr"
    using thumb_offset_bounds [OF sc _ _ tr] aw ch vh by simp_all
  have i: "in_i32 ?v" "in_i32 (lay_client_y l + 1)" "in_i32 (lay_client_x l + aw)" "in_i32 (lay_client_x l + aw + 4)" "in_i32 ?tr"
    "in_i32 (lay_client_y l + 1 + thumb_offset_of ?sc (ch - ?v) ?tr)"
    using l aw tr off by (auto simp: layout_ok_def near_def in_i32_def)
  have ms: "max (saturating_i32 (ch - ?v)) 0 = ch - ?v" using aw ch vh by (auto simp: saturating_i32_def)
  show "content_metrics_new fm s l =
    (let v = lay_client_h l - 1; ms = ch - v; th = thumb_height_of v ch; off = thumb_offset_of (clamp_i32 (ws_scroll_y s) 0 ms) ms (v - th);
         x = lay_client_x l + lay_client_w l - 24; y = lay_client_y l + 1
     in \<lparr>cm_content_rect = rect_new (lay_client_x l) y (nat (lay_client_w l - 28)) (nat v),
       cm_viewport_height = v, cm_content_height = ch, cm_max_scroll = ms, cm_scroll_offset = clamp_i32 (ws_scroll_y s) 0 ms,
       cm_track_rect = Some (rect_new x y 24 (nat v)), cm_thumb_rect = Some (rect_new x (y + off) 24 (nat th)), cm_thumb_offset = Some off\<rparr>)"
    using l vh rs aw ms th tr i
    by (simp add: content_metrics_new_def Let_def layout_ok_def near_def max_absorb1 SCROLLBAR_GAP_def SCROLLBAR_WIDTH_def)
      (simp add: rect_new_def)
qed

text \<open>
  C40: the scrollbar shows the scroll position. For content lower than 2^23 pixels and a layout near the screen, scrolling stays
  between zero and the height that does not fit, and the content area lies in the client area. When a scrollbar is shown, its
  track lies in the client area along its right edge, clear of the content, and its thumb stays on the track; when the content is scrolled
  to its begin the thumb is at the top of the track, and when it is scrolled to its end the thumb is at the bottom. The converse does
  not hold: the offset is rounded.
\<close>

theorem scrollbar_shows_position:
  assumes l: "layout_ok l" and heights: "\<forall>w. measure_surface_content_height fm s w < 8388608"
  shows "let m = content_metrics_new fm s l
    in 0 \<le> cm_scroll_offset m \<and> cm_scroll_offset m \<le> cm_max_scroll m \<and>
       (0 \<le> ws_scroll_y s \<and> ws_scroll_y s \<le> cm_max_scroll m \<longrightarrow> cm_scroll_offset m = ws_scroll_y s) \<and>
       rx (cm_content_rect m) = lay_client_x l \<and> int (rwidth (cm_content_rect m)) \<le> lay_client_w l \<and>
       lay_client_y l < ry (cm_content_rect m) \<and> ry (cm_content_rect m) + int (rheight (cm_content_rect m)) = lay_client_y l + lay_client_h l \<and>
       (\<forall>track thumb off. cm_track_rect m = Some track \<and> cm_thumb_rect m = Some thumb \<and> cm_thumb_offset m = Some off \<longrightarrow>
          0 < cm_max_scroll m \<and> rx (cm_content_rect m) + int (rwidth (cm_content_rect m)) < rx track \<and>
          rx track + int (rwidth track) = lay_client_x l + lay_client_w l \<and>
          lay_client_y l < ry track \<and> ry track + int (rheight track) = lay_client_y l + lay_client_h l \<and>
          rx thumb = rx track \<and> rwidth thumb = rwidth track \<and> ry thumb = ry track + off \<and>
          0 \<le> off \<and> off + int (rheight thumb) \<le> int (rheight track) \<and>
          (cm_scroll_offset m = 0 \<longrightarrow> off = 0) \<and> (cm_scroll_offset m = cm_max_scroll m \<longrightarrow> off + int (rheight thumb) = int (rheight track)))"
proof (cases "1 < lay_client_h l")
  case False
  then have "lay_client_h l = 1" using l by (simp add: layout_ok_def)
  then show ?thesis using l by (simp add: content_metrics_new_def Let_def layout_ok_def rect_new_def near_def i32_id [unfolded in_i32_def])
next
  case True
  let ?v = "lay_client_h l - 1"
  obtain aw ch bar where rs: "reserve_scrollbar fm s (lay_client_w l) ?v = (aw, ch, bar)" by (metis prod_cases3)
  have ch: "ch < 8388608" using reserve_scrollbar_cases [OF rs] l heights by (auto simp: layout_ok_def split: if_splits)
  have cl: "0 \<le> clamp_i32 v 0 m" "clamp_i32 v 0 m \<le> m" "0 \<le> v \<Longrightarrow> v \<le> m \<Longrightarrow> clamp_i32 v 0 m = v" if "0 \<le> m" for v m
    using clamp_i32_bounds that by (auto simp: clamp_i32_def)
  show ?thesis
  proof (cases bar)
    case False
    then show ?thesis using content_metrics_plain [OF l True, of fm s aw ch] rs l True cl
      by (simp add: Let_def rect_new_def layout_ok_def)
  next
    case bar: True
    have rs': "reserve_scrollbar fm s (lay_client_w l) ?v = (aw, ch, True)" using rs bar by simp
    note m = content_metrics_bar [OF l True rs' ch]
    let ?sc = "clamp_i32 (ws_scroll_y s) 0 (ch - ?v)" and ?th = "thumb_height_of ?v ch"
    have th: "0 < ?th" "?th \<le> ?v" using thumb_height_bounds [of ?v ch] True by auto
    have tr: "0 \<le> ?v - ?th" "?v - ?th < 4194304" using th l by (auto simp: layout_ok_def)
    have "0 \<le> ch - ?v" "0 < ch - ?v" "ch - ?v < 8388608" using m(2) ch True by simp_all
    note off = thumb_offset_bounds [OF cl(1,2) [OF this(1)] this(2,3) tr, of "ws_scroll_y s"]
    show ?thesis unfolding m(1) Let_def using off th m(2,3) cl(1,2) [of "ch - ?v" "ws_scroll_y s"] cl(3) [of "ch - ?v" "ws_scroll_y s"] True
      by (simp add: rect_new_def)
  qed
qed

definition demo_surface :: window_surface where
  "demo_surface = \<lparr>ws_window = demo_window, ws_surface_id = None, ws_text = [], ws_bitmap = Some \<lparr>bm_width = 1, bm_height = 500, bm_pixels = replicate 500 0\<rparr>,
     ws_scroll_y = 700, ws_scrollbar_widget_id = None, ws_caret = caret_default, ws_title_bar_id = None, ws_close_button_id = 0, ws_close_pressed = False,
     ws_close_button_bitmap = None, ws_repeat = False, ws_is_mono = False, ws_text_color = None, ws_bg_color = None\<rparr>"

definition demo_layout :: window_layout where
  "demo_layout = the (compute_window_layout 100 50 300 200 32)"

lemma demo_layout_ok: "layout_ok demo_layout"
  using window_layout_exact [of 100 50 300 200 32] by (simp add: demo_layout_def layout_ok_def near_def)

theorem scrollbar_shows_position_witness:
  "let m = content_metrics_new blank_fonts demo_surface demo_layout in 0 \<le> cm_scroll_offset m \<and> cm_scroll_offset m \<le> cm_max_scroll m"
proof -
  have "\<forall>w. measure_surface_content_height blank_fonts demo_surface w < 8388608"
    by (simp add: measure_surface_content_height_def demo_surface_def Let_def i32_id [unfolded in_i32_def])
  from scrollbar_shows_position [OF demo_layout_ok this] show ?thesis unfolding Let_def by blast
qed

text \<open>
  Resizing starts exactly at the frame. For a window of at least the minimal size and a pointer inside it,
  an edge is grabbed exactly within six pixels of it, the upper and lower edge also within eight pixels near a
  vertical edge; elsewhere the pointer does not start a resize. Opposite edges are never grabbed together.
\<close>

theorem resize_hit_exact:
  assumes n: "near wx" "near wy" "near ww" "near wh" "MIN_WINDOW_WIDTH \<le> ww" "MIN_WINDOW_HEIGHT \<le> wh"
    and c: "wx \<le> cx" "cx < wx + ww" "wy \<le> cy" "cy < wy + wh"
  shows "hit_test_resize wx wy ww wh cx cy =
    (let l = (cx - wx \<le> 6); r = (wx + ww - cx \<le> 6); reach = (if l \<or> r then 8 else 6);
         t = (cy - wy \<le> reach); b = (wy + wh - cy \<le> reach)
     in if l \<or> r \<or> t \<or> b then Some \<lparr>re_left = l, re_right = r, re_top = t, re_bottom = b\<rparr> else None)"
proof -
  have i: "i32 (cx - wx) = cx - wx" "i32 (wx + ww) = wx + ww" "i32 (wx + ww - cx) = wx + ww - cx"
    "i32 (cy - wy) = cy - wy" "i32 (wy + wh) = wy + wh" "i32 (wy + wh - cy) = wy + wh - cy"
    using n c by (auto intro!: i32_id simp: near_def in_i32_def)
  have "\<not> (cx - wx \<le> 6 \<and> wx + ww - cx \<le> 6)" "\<not> (cy - wy \<le> 8 \<and> wy + wh - cy \<le> 8)"
    using n(5,6) by (auto simp: window_consts)
  then show ?thesis using c unfolding hit_test_resize_def i Let_def near_edge_def corner_hit_def RESIZE_MARGIN_def RESIZE_CORNER_SIZE_def
    by auto
qed

theorem resize_hit_exact_witness:
  "hit_test_resize 0 0 200 150 3 80 = Some \<lparr>re_left = True, re_right = False, re_top = False, re_bottom = False\<rparr>"
  using resize_hit_exact [of 0 0 200 150 3 80] by (simp add: near_def window_consts Let_def)

lemma cursor_update_on_screen:
  assumes "0 < width" "0 < height" "width < 2147483648" "height < 2147483648"
  shows "0 \<le> cu_x (cursor_update dx dy b width height c) \<and> cu_x (cursor_update dx dy b width height c) < int width \<and>
    0 \<le> cu_y (cursor_update dx dy b width height c) \<and> cu_y (cursor_update dx dy b width height c) < int height"
proof -
  have i: "i32 (int (width - 1)) = int (width - 1)" "i32 (int (height - 1)) = int (height - 1)"
    using assms by (auto intro!: i32_id simp: in_i32_def)
  show ?thesis unfolding cursor_update_def i using assms by (auto simp: clamp_i32_def)
qed

end
