(* ===== verification/Widgets.thy ===== *)
theory Widgets
  imports Windows
begin

text \<open>
  The widgets of the compositor (\<open>src/compositor/src/widget_manager.rs\<close>): how they are taken from the graph,
  how high they are, which one is under the pointer, and the order of focus. The recursion of the source over
  the parent relation takes a bound on its depth here; \<open>None\<close> is a recursion that is deeper.
\<close>

section \<open>State\<close>

type_synonym widgets = "(uuid, widget) btree"

definition ROLE_TOOLBAR :: string where "ROLE_TOOLBAR = ''container.toolbar''"
definition ROLE_TOOLBAR_BUTTON :: string where "ROLE_TOOLBAR_BUTTON = ''control.toolbar_button''"
definition ROLE_CONTAINER_VERTICAL :: string where "ROLE_CONTAINER_VERTICAL = ''container.vertical''"
definition ROLE_EDITOR_ROOT :: string where "ROLE_EDITOR_ROOT = ''container.editor_root''"
definition TOOLBAR_HEIGHT :: int where "TOOLBAR_HEIGHT = 32"
definition TOOLBAR_BUTTON_SIZE :: int where "TOOLBAR_BUTTON_SIZE = 24"
definition TOOLBAR_BUTTON_SPACING :: int where "TOOLBAR_BUTTON_SPACING = 2"

lemmas role_defs = ROLE_TOOLBAR_def ROLE_TOOLBAR_BUTTON_def ROLE_CONTAINER_VERTICAL_def ROLE_EDITOR_ROOT_def

text \<open>\<open>u64 as i32\<close>.\<close>

definition u64_i32 :: "u64 \<Rightarrow> int" where
  "u64_i32 v = i32 (uint v)"

section \<open>From the graph\<close>

text \<open>A widget that reports a scroll position moves the window whose scrollbar it is.\<close>

definition widget_scrolls :: "graph_thing \<Rightarrow> widget \<Rightarrow> (uuid, window_surface) btree \<Rightarrow> (uuid, window_surface) btree" where
  "widget_scrolls t w wins =
     (case wd_parent w of None \<Rightarrow> wins
      | Some parent \<Rightarrow> (case field as_i64 (thing_fields t) canon_SCROLL_Y of None \<Rightarrow> wins
        | Some y \<Rightarrow> (case bt_get wins parent of None \<Rightarrow> wins
          | Some s \<Rightarrow> if ws_scrollbar_widget_id s = Some (wd_id w) then bt_insert parent (s\<lparr>ws_scroll_y := as_i32 y\<rparr>) wins else wins)))"

definition ingest_widget :: "graph_thing \<Rightarrow> widgets \<Rightarrow> (uuid, window_surface) btree \<Rightarrow> widgets \<times> (uuid, window_surface) btree" where
  "ingest_widget t ws wins =
     (case bt_get ws (thing_id t) of
        Some existing \<Rightarrow>
          let w = widget_update existing t in (bt_insert (thing_id t) w ws, widget_scrolls t w wins)
      | None \<Rightarrow> (case widget_load t of None \<Rightarrow> (ws, wins)
          | Some w \<Rightarrow> (bt_insert (wd_id w) w ws, widget_scrolls t w wins)))"

section \<open>Heights\<close>

definition children_of :: "widgets \<Rightarrow> uuid \<Rightarrow> widget list" where
  "children_of ws i = List.map_filter (bt_get ws) (map wd_id (filter (\<lambda>w. wd_parent w = Some i) (map snd ws)))"

fun sum_heights :: "(widget \<Rightarrow> int \<Rightarrow> int option) \<Rightarrow> widget list \<Rightarrow> int \<Rightarrow> int \<Rightarrow> int option" where
  "sum_heights height [] acc remaining = Some acc"
| "sum_heights height (c # cs) acc remaining =
     (case height c remaining of None \<Rightarrow> None
      | Some ch \<Rightarrow> sum_heights height cs (i32 (acc + ch)) (i32 (remaining - ch)))"

fun get_widget_height :: "nat \<Rightarrow> widgets \<Rightarrow> widget \<Rightarrow> int \<Rightarrow> int \<Rightarrow> int option" where
  "get_widget_height 0 ws w width h = None"
| "get_widget_height (Suc n) ws w width h =
     (if \<not> wd_visible w then Some 0
      else if wd_role w = ROLE_TOOLBAR then Some TOOLBAR_HEIGHT
      else if wd_role w = ROLE_TOOLBAR_BUTTON \<or> wd_role w = ''toolbar_button''
        then Some (unwrap_or 32 (map_option u64_i32 (wd_height w)))
      else if wd_role w = ROLE_CONTAINER_VERTICAL \<or> wd_role w = ''window_root''
        then sum_heights (\<lambda>c remaining. get_widget_height n ws c width remaining) (children_of ws (wd_id w)) 0 h
      else if wd_role w = ROLE_EDITOR_ROOT then Some h
      else Some 0)"

section \<open>Hit test\<close>

fun toolbar_hit :: "int \<Rightarrow> int \<Rightarrow> int \<Rightarrow> int \<Rightarrow> int \<Rightarrow> widget list \<Rightarrow> uuid option" where
  "toolbar_hit y toolbar_end mx my child_x [] = None"
| "toolbar_hit y toolbar_end mx my child_x (c # cs) =
     (let btn_y = i32 (y + (TOOLBAR_HEIGHT - TOOLBAR_BUTTON_SIZE) div 2)
      in if toolbar_end < i32 (child_x + TOOLBAR_BUTTON_SIZE) then None
         else if child_x \<le> mx \<and> mx < i32 (child_x + TOOLBAR_BUTTON_SIZE) \<and> btn_y \<le> my \<and> my < i32 (btn_y + TOOLBAR_BUTTON_SIZE)
         then Some (wd_id c)
         else toolbar_hit y toolbar_end mx my (i32 (child_x + (TOOLBAR_BUTTON_SIZE + TOOLBAR_BUTTON_SPACING))) cs)"

text \<open>The loop over children: the first hit ends it, otherwise the position moves on.\<close>

fun first_hit :: "(widget \<Rightarrow> 's \<Rightarrow> (uuid option \<times> 's) option) \<Rightarrow> widget list \<Rightarrow> 's \<Rightarrow> uuid option option" where
  "first_hit f [] s = Some None"
| "first_hit f (c # cs) s =
     (case f c s of None \<Rightarrow> None | Some (Some r, _) \<Rightarrow> Some (Some r) | Some (None, s') \<Rightarrow> first_hit f cs s')"

definition or_self :: "widget \<Rightarrow> uuid option option \<Rightarrow> uuid option option" where
  "or_self w r = map_option (\<lambda>hit. Some (unwrap_or (wd_id w) hit)) r"

text \<open>A child below the ones before it, and a child of a canvas at its own position.\<close>

definition stack_child ::
  "(widget \<Rightarrow> int \<Rightarrow> int option) \<Rightarrow> (widget \<Rightarrow> int \<Rightarrow> int \<Rightarrow> uuid option option) \<Rightarrow> widget \<Rightarrow> int \<times> int \<Rightarrow> (uuid option \<times> int \<times> int) option" where
  "stack_child height hit c s =
     (case s of (child_y, remaining) \<Rightarrow>
        case height c remaining of None \<Rightarrow> None
        | Some ch \<Rightarrow> map_option (\<lambda>r. (r, i32 (child_y + ch), i32 (remaining - ch))) (hit c child_y ch))"

definition canvas_child :: "(widget \<Rightarrow> uuid option option) \<Rightarrow> widget \<Rightarrow> int \<times> int \<Rightarrow> (uuid option \<times> int \<times> int) option" where
  "canvas_child hit c s = map_option (\<lambda>r. (r, s)) (hit c)"

fun hit_test_widget_recursive :: "nat \<Rightarrow> widgets \<Rightarrow> widget \<Rightarrow> int \<Rightarrow> int \<Rightarrow> int \<Rightarrow> int \<Rightarrow> int \<Rightarrow> int \<Rightarrow> uuid option option" where
  "hit_test_widget_recursive 0 ws w x y width h mx my = None"
| "hit_test_widget_recursive (Suc n) ws w x y width h mx my =
     (if \<not> wd_visible w then Some None
      else case get_widget_height (Suc n) ws w width h of None \<Rightarrow> None
      | Some height \<Rightarrow>
        if mx < x \<or> i32 (x + width) \<le> mx \<or> my < y \<or> i32 (y + height) \<le> my then Some None
        else if wd_role w = ROLE_TOOLBAR
          then or_self w (Some (toolbar_hit y (i32 (x + width)) mx my x (children_of ws (wd_id w))))
        else if wd_role w = ''canvas''
          then or_self w (first_hit (canvas_child (\<lambda>c. hit_test_widget_recursive n ws c
            (i32 (x + u64_i32 (unwrap_or 0 (wd_x c)))) (i32 (y + u64_i32 (unwrap_or 0 (wd_y c))))
            (u64_i32 (unwrap_or 32 (wd_width c))) (u64_i32 (unwrap_or 32 (wd_height c))) mx my)) (children_of ws (wd_id w)) (y, h))
        else if wd_role w = ROLE_CONTAINER_VERTICAL \<or> wd_role w = ''window_root'' \<or> wd_role w = ROLE_EDITOR_ROOT
          then or_self w (first_hit (stack_child (\<lambda>c remaining. get_widget_height n ws c width remaining)
            (\<lambda>c cy ch. hit_test_widget_recursive n ws c x cy width ch mx my)) (children_of ws (wd_id w)) (y, h))
        else if wd_role w = ''listbox_default'' \<or> wd_role w = ''primary_list''
          then or_self w (first_hit (stack_child (\<lambda>c remaining. get_widget_height n ws c (i32 (width - 4)) remaining)
            (\<lambda>c cy ch. hit_test_widget_recursive n ws c (i32 (x + 2)) cy (i32 (width - 4)) ch mx my))
            (children_of ws (wd_id w)) (i32 (y + 2), i32 (height - 4)))
        else Some (Some (wd_id w)))"

text \<open>The widgets with a position and a size of their own are tested first.\<close>

definition absolute_hit :: "int \<Rightarrow> int \<Rightarrow> widget \<Rightarrow> bool" where
  "absolute_hit mx my w =
     (case (wd_x w, wd_y w, wd_width w, wd_height w) of
        (Some x, Some y, Some ww, Some h) \<Rightarrow>
          u64_i32 x \<le> mx \<and> mx < i32 (u64_i32 x + u64_i32 ww) \<and> u64_i32 y \<le> my \<and> my < i32 (u64_i32 y + u64_i32 h)
      | _ \<Rightarrow> False)"

definition hit_test_widgets :: "nat \<Rightarrow> widgets \<Rightarrow> uuid \<Rightarrow> window_layout \<Rightarrow> content_metrics \<Rightarrow> int \<Rightarrow> int \<Rightarrow> uuid option option" where
  "hit_test_widgets n ws window_id l m mx my =
     (let roots = children_of ws window_id
      in case find (absolute_hit mx my) roots of
           Some w \<Rightarrow> Some (Some (wd_id w))
         | None \<Rightarrow>
             let width = max (if 0 < rwidth (cm_content_rect m) then i32 (int (rwidth (cm_content_rect m))) else lay_client_w l) 0
             in first_hit (\<lambda>w s. if wd_x w \<noteq> None \<and> wd_y w \<noteq> None then Some (None, s)
                  else map_option (\<lambda>hit. (hit, s))
                    (hit_test_widget_recursive n ws w (lay_client_x l) (lay_client_y l) width (lay_client_h l) mx my)) roots ())"

section \<open>Focus\<close>

text \<open>The map is sorted by identifier, so sorting the children by identifier keeps their order.\<close>

fun collect_focusable :: "nat \<Rightarrow> widgets \<Rightarrow> uuid \<Rightarrow> uuid list option" where
  "collect_focusable 0 ws i = None"
| "collect_focusable (Suc n) ws i =
     foldr (\<lambda>c acc. case (collect_focusable n ws (wd_id c), acc) of
         (Some below, Some rest) \<Rightarrow> Some ((if wd_focusable c then [wd_id c] else []) @ below @ rest)
       | _ \<Rightarrow> None) (sort_key wd_id (filter (\<lambda>w. wd_parent w = Some i) (map snd ws))) (Some [])"

section \<open>The recursion ends\<close>

text \<open>Widgets are kept under their own identifiers.\<close>

definition widgets_ok :: "widgets \<Rightarrow> bool" where
  "widgets_ok ws \<longleftrightarrow> sorted_map ws \<and> (\<forall>(k, w) \<in> set ws. wd_id w = k)"

lemma widgets_ok_get: "widgets_ok ws \<Longrightarrow> bt_get ws i = Some w \<Longrightarrow> wd_id w = i"
  using map_of_SomeD by (fastforce simp: widgets_ok_def)

lemma widgets_ok_insert: "widgets_ok ws \<Longrightarrow> wd_id w = i \<Longrightarrow> widgets_ok (bt_insert i w ws)"
  using set_bt_insert_subset [of i w ws] by (auto simp: widgets_ok_def)

lemma wd_id_update [simp]: "wd_id (widget_update w t) = wd_id w"
  by (simp add: widget_update_def Let_def)

lemma ingest_widget_ok: "widgets_ok ws \<Longrightarrow> ingest_widget t ws wins = (ws', wins') \<Longrightarrow> widgets_ok ws'"
  using widgets_ok_get [of ws "thing_id t"]
  by (auto simp: ingest_widget_def Let_def widgets_ok_insert split: option.splits)

lemma children_of_mem:
  assumes "widgets_ok ws" "c \<in> set (children_of ws i)"
  shows "bt_get ws (wd_id c) = Some c \<and> wd_parent c = Some i"
proof -
  obtain k w where w: "(k, w) \<in> set ws" "wd_parent w = Some i" "bt_get ws (wd_id w) = Some c"
    using assms(2) by (auto simp: children_of_def List.map_filter_def)
  have "wd_id w = k" "bt_get ws k = Some w" using assms(1) w(1) by (auto simp: widgets_ok_def bt_get_eq_in_set)
  then show ?thesis using w(2,3) by simp
qed

text \<open>A chain of parents, from a widget up to the window it belongs to.\<close>

fun chain :: "widgets \<Rightarrow> uuid \<Rightarrow> uuid list \<Rightarrow> bool" where
  "chain ws win [] = True"
| "chain ws win (a # p) = (map_option wd_parent (bt_get ws a) = Some (Some (case p of [] \<Rightarrow> win | b # _ \<Rightarrow> b)) \<and> chain ws win p)"

lemma chain_unique:
  assumes "bt_get ws win = None"
  shows "chain ws win (a # p) \<Longrightarrow> chain ws win (a # q) \<Longrightarrow> p = q"
proof (induction p arbitrary: a q)
  case Nil
  then show ?case using assms by (cases q) auto
next
  case (Cons b p)
  show ?case
  proof (cases q)
    case Nil
    then show ?thesis using Cons.prems assms by auto
  next
    case (Cons b' q')
    then have "b = b'" using Cons.prems by auto
    then show ?thesis using Cons.IH [of b q'] Cons.prems Cons by simp
  qed
qed

lemma chain_suffix: "chain ws win (u @ v) \<Longrightarrow> chain ws win v"
  by (induction u) auto

lemma chain_distinct: "bt_get ws win = None \<Longrightarrow> chain ws win p \<Longrightarrow> distinct p"
proof (induction p)
  case (Cons a p)
  have "a \<notin> set p"
  proof
    assume "a \<in> set p"
    then obtain u v where p: "p = u @ a # v" by (meson split_list)
    have "chain ws win (a # v)" using Cons.prems(2) chain_suffix [of ws win "a # u" "a # v"] by (simp add: p)
    then have "v = p" using chain_unique [OF Cons.prems(1) _ Cons.prems(2)] by blast
    then show False using p by simp
  qed
  then show ?case using Cons by simp
qed simp

lemma chain_keys: "chain ws win p \<Longrightarrow> set p \<subseteq> fst ` set ws"
  by (induction p) (auto dest: map_of_SomeD intro: rev_image_eqI)

lemma chain_length:
  assumes "bt_get ws win = None" "chain ws win p"
  shows "length p \<le> length ws"
proof -
  have "length p = card (set p)" using chain_distinct [OF assms] by (simp add: distinct_card)
  also have "\<dots> \<le> card (fst ` set ws)" using chain_keys [OF assms(2)] by (intro card_mono) auto
  also have "\<dots> \<le> length ws" by (metis card_length length_map list.set_map)
  finally show ?thesis .
qed

lemma chain_child:
  assumes "widgets_ok ws" "c \<in> set (children_of ws (wd_id w))" "chain ws win (wd_id w # p)"
  shows "chain ws win (wd_id c # wd_id w # p)"
  using children_of_mem [OF assms(1,2)] assms(3) by simp

lemma sum_heights_total:
  "\<forall>c \<in> set cs. \<forall>r. \<exists>h. height c r = Some h \<Longrightarrow> \<exists>h. sum_heights height cs acc remaining = Some h"
proof (induction cs arbitrary: acc remaining)
  case (Cons c cs)
  obtain h where "height c remaining = Some h" using Cons.prems by (meson list.set_intros(1))
  then show ?case using Cons by simp
qed simp

lemma first_hit_total: "\<forall>c \<in> set cs. \<forall>s. \<exists>r. f c s = Some r \<Longrightarrow> \<exists>r. first_hit f cs s = Some r"
proof (induction cs arbitrary: s)
  case (Cons c cs)
  obtain r s' where "f c s = Some (r, s')" using Cons.prems by (metis list.set_intros(1) surj_pair)
  then show ?case using Cons by (cases r) simp_all
qed simp

lemma height_total:
  assumes ok: "widgets_ok ws" and win: "bt_get ws win = None"
  shows "chain ws win (wd_id w # p) \<Longrightarrow> length ws \<le> n + length p \<Longrightarrow> \<exists>h'. get_widget_height n ws w width h = Some h'"
proof (induction n arbitrary: w p width h)
  case 0
  then show ?case using chain_length [OF win 0(1)] by simp
next
  case (Suc n)
  have "\<exists>h'. get_widget_height n ws c width r = Some h'" if "c \<in> set (children_of ws (wd_id w))" for c r
    using Suc.IH [OF chain_child [OF ok that Suc.prems(1)]] Suc.prems(2) by simp
  then show ?case using sum_heights_total [of "children_of ws (wd_id w)" "\<lambda>c r. get_widget_height n ws c width r"] by auto
qed

lemma hit_total:
  assumes ok: "widgets_ok ws" and win: "bt_get ws win = None"
  shows "chain ws win (wd_id w # p) \<Longrightarrow> length ws \<le> n + length p \<Longrightarrow> \<exists>r. hit_test_widget_recursive n ws w x y width h mx my = Some r"
proof (induction n arbitrary: w p x y width h)
  case 0
  then show ?case using chain_length [OF win 0(1)] by simp
next
  case (Suc n)
  have ch: "\<exists>h'. get_widget_height n ws c width' r = Some h'" "\<exists>r. hit_test_widget_recursive n ws c x' y' width' h' mx my = Some r"
    if "c \<in> set (children_of ws (wd_id w))" for c width' r x' y' h'
    using height_total [OF ok win chain_child [OF ok that Suc.prems(1)], of n] Suc.IH [OF chain_child [OF ok that Suc.prems(1)]] Suc.prems(2)
    by simp_all
  obtain hh where hh: "get_widget_height (Suc n) ws w width h = Some hh" using height_total [OF ok win Suc.prems] by blast
  have loop: "\<exists>r. or_self w (first_hit f (children_of ws (wd_id w)) s) = Some r"
    if "\<And>c s. c \<in> set (children_of ws (wd_id w)) \<Longrightarrow> \<exists>r. f c s = Some r" for f and s :: "int \<times> int"
    using first_hit_total [of "children_of ws (wd_id w)" f s] that by (auto simp: or_self_def)
  have stack: "\<exists>r. stack_child (\<lambda>c r. get_widget_height n ws c width' r) (\<lambda>c cy ch. hit_test_widget_recursive n ws c x' cy width' ch mx my) c s = Some r"
    if c: "c \<in> set (children_of ws (wd_id w))" for c s x' width'
  proof -
    obtain cy r where s: "s = (cy, r)" by fastforce
    obtain h' where "get_widget_height n ws c width' r = Some h'" using ch(1) [OF c, of width' r] by auto
    then show ?thesis using ch(2) [OF c, of x' cy width' h'] by (auto simp: stack_child_def s)
  qed
  have canvas: "\<exists>r. canvas_child (\<lambda>c. hit_test_widget_recursive n ws c (x' c) (y' c) (w' c) (h' c) mx my) c s = Some r"
    if "c \<in> set (children_of ws (wd_id w))" for c s x' y' w' h'
    using ch(2) [OF that, of "x' c" "y' c" "w' c" "h' c"] by (auto simp: canvas_child_def)
  show ?case unfolding hit_test_widget_recursive.simps hh option.case
    using loop [OF canvas] loop [OF stack] by (simp add: or_self_def)
qed

lemma hit_test_total:
  assumes "widgets_ok ws" "bt_get ws window_id = None" "length ws \<le> n"
  shows "\<exists>r. hit_test_widgets n ws window_id l m mx my = Some r"
proof -
  have "\<exists>r. hit_test_widget_recursive n ws w x y width h mx my = Some r" if "w \<in> set (children_of ws window_id)" for w x y width h
    using children_of_mem [OF assms(1) that] assms(3) by (intro hit_total [OF assms(1,2), of w "[]"]) simp_all
  then show ?thesis unfolding hit_test_widgets_def Let_def
    by (auto intro!: first_hit_total split: option.splits)
qed

lemma focus_fold_total:
  "\<forall>c \<in> set cs. \<exists>b. f c = Some b \<Longrightarrow>
   \<exists>r. foldr (\<lambda>c acc. case (f c, acc) of (Some below, Some rest) \<Rightarrow> Some (g c @ below @ rest) | _ \<Rightarrow> None) cs (Some []) = Some r"
  by (induction cs) auto

lemma focus_child:
  assumes "widgets_ok ws" "c \<in> set (sort_key wd_id (filter (\<lambda>w. wd_parent w = Some i) (map snd ws)))"
  shows "bt_get ws (wd_id c) = Some c \<and> wd_parent c = Some i"
  using assms by (auto simp: widgets_ok_def bt_get_eq_in_set)

lemma collect_total:
  assumes ok: "widgets_ok ws" and win: "bt_get ws win = None"
  shows "chain ws win (i # p) \<Longrightarrow> length ws \<le> n + length p \<Longrightarrow> \<exists>r. collect_focusable n ws i = Some r"
proof (induction n arbitrary: i p)
  case 0
  then show ?case using chain_length [OF win 0(1)] by simp
next
  case (Suc n)
  have "\<exists>r. collect_focusable n ws (wd_id c) = Some r" if "c \<in> set (sort_key wd_id (filter (\<lambda>w. wd_parent w = Some i) (map snd ws)))" for c
    using focus_child [OF ok that] Suc.prems by (intro Suc.IH [of "wd_id c" "i # p"]) simp_all
  then show ?case unfolding collect_focusable.simps by (intro focus_fold_total ballI)
qed

lemma collect_window_total:
  assumes "widgets_ok ws" "bt_get ws win = None" "length ws \<le> n"
  shows "\<exists>r. collect_focusable (Suc n) ws win = Some r"
proof -
  have "\<exists>r. collect_focusable n ws (wd_id c) = Some r" if "c \<in> set (sort_key wd_id (filter (\<lambda>w. wd_parent w = Some win) (map snd ws)))" for c
    using focus_child [OF assms(1) that] assms(3) by (intro collect_total [OF assms(1,2), of "wd_id c" "[]"]) simp_all
  then show ?thesis unfolding collect_focusable.simps by (intro focus_fold_total ballI)
qed

text \<open>
  Looking for the widget under the pointer ends. The search follows the children of the window; as every
  widget has one parent, it descends at most as deep as there are widgets, unless a widget has the identifier
  of the window itself.
\<close>

theorem hit_test_ends:
  assumes "widgets_ok ws" "bt_get ws window_id = None" "length ws \<le> n"
  shows "\<exists>r. hit_test_widgets n ws window_id l m mx my = Some r"
  by (rule hit_test_total [OF assms])

text \<open>The chrome of window 7: a title bar with a close button.\<close>

definition demo_widget :: "uuid \<Rightarrow> string \<Rightarrow> uuid \<Rightarrow> widget" where
  "demo_widget i role parent = the (widget_load \<lparr>thing_id = i, thing_kind = canon_WIDGET, thing_labels = [],
     thing_fields = bt_insert canon_PARENT (VUuid parent) (create_widget_fields role True True None), thing_owner = 1, thing_revision = 1\<rparr>)"

definition demo_widgets :: widgets where
  "demo_widgets = [(5, demo_widget 5 ''container.vertical'' 7), (6, demo_widget 6 ''button'' 5)]"

lemma demo_widget_fields [simp]:
  "wd_id (demo_widget i role p) = i" "wd_role (demo_widget i role p) = role" "wd_parent (demo_widget i role p) = Some p"
proof -
  have "canon_PARENT \<noteq> canon_ROLE" "canon_LABEL \<noteq> canon_PARENT" "canon_VISIBLE \<noteq> canon_ROLE" "canon_ACTIVE \<noteq> canon_ROLE" by code_simp+
  then show "wd_id (demo_widget i role p) = i" "wd_role (demo_widget i role p) = role" "wd_parent (demo_widget i role p) = Some p"
    by (simp_all add: demo_widget_def widget_load_def Let_def role_field_def field_def create_widget_fields_def put_opt_def graph_extract_text_def
        del: bt_insert.simps)
qed

lemma demo_widgets_ok: "widgets_ok demo_widgets"
  by (simp add: widgets_ok_def demo_widgets_def sorted_map_Cons)

theorem hit_test_ends_witness:
  "\<exists>r. hit_test_widgets 2 demo_widgets 7 demo_layout (content_metrics_new blank_fonts demo_surface demo_layout) 150 80 = Some r"
  by (rule hit_test_ends [OF demo_widgets_ok]) (simp_all add: demo_widgets_def)

lemma toolbar_hit_child: "toolbar_hit y e mx my x cs = Some i \<Longrightarrow> \<exists>c \<in> set cs. i = wd_id c"
  by (induction cs arbitrary: x) (auto simp: Let_def split: if_splits)

lemma first_hit_Some:
  assumes "first_hit f cs s = Some (Some i)" "Q s" "\<And>c s r s'. c \<in> set cs \<Longrightarrow> Q s \<Longrightarrow> f c s = Some (r, s') \<Longrightarrow> Q s'"
  shows "\<exists>c \<in> set cs. \<exists>s s'. Q s \<and> f c s = Some (Some i, s')"
  using assms
proof (induction cs arbitrary: s)
  case (Cons c cs)
  obtain r s' where f: "f c s = Some (r, s')" using Cons.prems(1) by (cases "f c s") auto
  show ?case
  proof (cases r)
    case None
    have "\<exists>c \<in> set cs. \<exists>s s'. Q s \<and> f c s = Some (Some i, s')"
      using Cons.prems f None by (intro Cons.IH [of s']) auto
    then show ?thesis by auto
  next
    case (Some j)
    then show ?thesis using Cons.prems f by auto
  qed
qed simp

text \<open>The roles that have a height, and what can be found under the pointer without a position of its own.\<close>

definition tall_roles :: "string set" where
  "tall_roles = {ROLE_TOOLBAR, ROLE_TOOLBAR_BUTTON, ''toolbar_button'', ROLE_CONTAINER_VERTICAL, ''window_root'', ROLE_EDITOR_ROOT}"

definition in_toolbar :: "widgets \<Rightarrow> widget \<Rightarrow> bool" where
  "in_toolbar ws w \<longleftrightarrow> (\<exists>p t. wd_parent w = Some p \<and> bt_get ws p = Some t \<and> wd_role t = ROLE_TOOLBAR)"

definition can_be_hit :: "widgets \<Rightarrow> uuid \<Rightarrow> bool" where
  "can_be_hit ws i \<longleftrightarrow> (\<exists>w. bt_get ws i = Some w \<and> (wd_role w \<in> tall_roles \<or> in_toolbar ws w))"

lemma flat_height: "wd_role w \<notin> tall_roles \<Longrightarrow> get_widget_height n ws w width h = Some h' \<Longrightarrow> h' = 0"
  by (cases n) (auto simp: tall_roles_def split: if_splits)

lemma hit_has_height:
  assumes ok: "widgets_ok ws"
  shows "hit_test_widget_recursive n ws w x y width h mx my = Some (Some i) \<Longrightarrow> bt_get ws (wd_id w) = Some w \<Longrightarrow> in_i32 y \<Longrightarrow> can_be_hit ws i"
proof (induction n arbitrary: w x y width h i)
  case (Suc n)
  obtain hh where hh: "get_widget_height (Suc n) ws w width h = Some hh" using Suc.prems(1) by (auto split: if_splits option.splits)
  have vis: "wd_visible w" and under: "y \<le> my" "my < i32 (y + hh)"
    using Suc.prems(1) unfolding hit_test_widget_recursive.simps hh option.case by (auto split: if_splits)
  have tall: "wd_role w \<in> tall_roles"
  proof (rule ccontr)
    assume "wd_role w \<notin> tall_roles"
    then have "hh = 0" using flat_height hh by blast
    then show False using under Suc.prems(3) by simp
  qed
  then have self: "can_be_hit ws (wd_id w)" using Suc.prems(2) by (auto simp: can_be_hit_def)
  have flat: "wd_role w \<noteq> ''canvas''" "wd_role w \<noteq> ''listbox_default''" "wd_role w \<noteq> ''primary_list''"
    using tall by (auto simp: tall_roles_def role_defs)
  have sub: "can_be_hit ws j" if "or_self w (first_hit (stack_child g (\<lambda>c cy ch. hit_test_widget_recursive n ws c x cy width ch mx my))
      (children_of ws (wd_id w)) (y, h)) = Some (Some j)" for g j
  proof (cases "first_hit (stack_child g (\<lambda>c cy ch. hit_test_widget_recursive n ws c x cy width ch mx my)) (children_of ws (wd_id w)) (y, h)")
    case (Some r)
    show ?thesis
    proof (cases r)
      case None
      then show ?thesis using that Some self by (simp add: or_self_def)
    next
      case (Some k)
      have fh: "first_hit (stack_child g (\<lambda>c cy ch. hit_test_widget_recursive n ws c x cy width ch mx my)) (children_of ws (wd_id w)) (y, h) =
          Some (Some j)" using that \<open>_ = Some r\<close> Some by (simp add: or_self_def)
      obtain c s s' where c: "c \<in> set (children_of ws (wd_id w))" "in_i32 (fst s)"
          "stack_child g (\<lambda>c cy ch. hit_test_widget_recursive n ws c x cy width ch mx my) c s = Some (Some j, s')"
        using first_hit_Some [OF fh, of "\<lambda>s. in_i32 (fst s)"] Suc.prems(3)
        by (fastforce simp: stack_child_def split: prod.splits option.splits)
      then obtain ch where "hit_test_widget_recursive n ws c x (fst s) width ch mx my = Some (Some j)"
        by (auto simp: stack_child_def split: prod.splits option.splits)
      then show ?thesis using Suc.IH c(2) children_of_mem [OF ok c(1)] by blast
    qed
  qed (use that in \<open>simp add: or_self_def\<close>)
  have bar: "can_be_hit ws j" if "or_self w (Some (toolbar_hit y e mx my x (children_of ws (wd_id w)))) = Some (Some j)" "wd_role w = ROLE_TOOLBAR" for e j
  proof (cases "toolbar_hit y e mx my x (children_of ws (wd_id w))")
    case None
    then show ?thesis using that self by (simp add: or_self_def)
  next
    case (Some k)
    then obtain c where "c \<in> set (children_of ws (wd_id w))" "k = wd_id c" using toolbar_hit_child by blast
    moreover have "j = k" using that(1) Some by (simp add: or_self_def)
    ultimately have "bt_get ws j = Some c" "wd_parent c = Some (wd_id w)" using children_of_mem [OF ok] by auto
    then show ?thesis using that(2) Suc.prems(2) by (auto simp: can_be_hit_def in_toolbar_def)
  qed
  show ?case using Suc.prems(1) unfolding hit_test_widget_recursive.simps hh option.case
    using sub bar self flat by (auto split: if_splits)
qed simp

text \<open>
  A plain widget cannot be clicked. Only roles with a height of their own, the children of toolbars and
  widgets placed at explicit coordinates directly in the window can be found under the pointer; a button,
  label or list anywhere else never is, because its height is taken to be zero. The close button the
  compositor puts into every title bar is such a widget.
\<close>

theorem plain_widget_never_hit:
  assumes "widgets_ok ws" "bt_get ws i = Some w" "wd_role w \<notin> tall_roles" "\<not> in_toolbar ws w" "wd_parent w \<noteq> Some window_id"
    and "in_i32 (lay_client_y l)"
  shows "hit_test_widgets n ws window_id l m mx my \<noteq> Some (Some i)"
proof
  assume hit: "hit_test_widgets n ws window_id l m mx my = Some (Some i)"
  have not: "\<not> can_be_hit ws i" using assms(2-4) by (simp add: can_be_hit_def)
  let ?roots = "children_of ws window_id"
  have root: "wd_id c \<noteq> i" if "c \<in> set ?roots" for c
    using children_of_mem [OF assms(1) that] assms(2,5) by auto
  show False
  proof (cases "find (absolute_hit mx my) ?roots")
    case (Some c)
    then have "c \<in> set ?roots" by (auto simp: find_Some_iff)
    moreover have "wd_id c = i" using hit Some by (simp add: hit_test_widgets_def Let_def)
    ultimately show ?thesis using root by blast
  next
    case None
    obtain width where fh: "first_hit (\<lambda>w s. if wd_x w \<noteq> None \<and> wd_y w \<noteq> None then Some (None, s)
        else map_option (\<lambda>hit. (hit, s)) (hit_test_widget_recursive n ws w (lay_client_x l) (lay_client_y l) width (lay_client_h l) mx my)) ?roots () =
        Some (Some i)" using hit None by (auto simp: hit_test_widgets_def Let_def)
    obtain c and s s' :: unit where "c \<in> set ?roots" "(if wd_x c \<noteq> None \<and> wd_y c \<noteq> None then Some (None, s)
        else map_option (\<lambda>hit. (hit, s)) (hit_test_widget_recursive n ws c (lay_client_x l) (lay_client_y l) width (lay_client_h l) mx my)) = Some (Some i, s')"
      using first_hit_Some [where Q = "\<lambda>_. True", OF fh TrueI TrueI] by blast
    then show ?thesis using hit_has_height [OF assms(1)] children_of_mem [OF assms(1)] assms(6) not by (fastforce split: if_splits)
  qed
qed

theorem plain_widget_never_hit_witness:
  "hit_test_widgets 2 demo_widgets 7 demo_layout (content_metrics_new blank_fonts demo_surface demo_layout) 150 80 \<noteq> Some (Some 6)"
proof (rule plain_widget_never_hit [OF demo_widgets_ok])
  show "bt_get demo_widgets 6 = Some (demo_widget 6 ''button'' 5)" by (simp add: demo_widgets_def)
  show "in_i32 (lay_client_y demo_layout)" using demo_layout_ok by (simp add: layout_ok_def)
qed (simp_all add: tall_roles_def role_defs in_toolbar_def demo_widgets_def)

end
