(* ===== verification/Wallpapers.thy ===== *)
theory Wallpapers
  imports Things Render
begin

text \<open>
  Wallpapers of the compositor (\<open>src/compositor/src/layer.rs\<close> and the wallpaper events of
  \<open>src/compositor/src/compositor.rs\<close>). Scroll factors are double precision numbers, all finite here.
\<close>

definition f64_round :: "rat \<Rightarrow> rat" where
  "f64_round q = (if q = 0 then 0 else let e = max (ilog \<bar>q\<bar> - 52) (- 1074) in of_int (round_even (q / pow2 e)) * pow2 e)"

datatype layer_kind = SolidColor rgba | LayerImage string

record wallpaper_state =
  wp_id :: uuid
  wp_mode_node :: "uuid option"
  wp_place_id :: "uuid option"
  wp_layers :: "uuid list"

record layer_state =
  ly_id :: uuid
  ly_kind :: layer_kind
  ly_scroll_x :: rat
  ly_scroll_y :: rat
  ly_z_index :: nat

text \<open>\<open>f64 as i32\<close> truncates and saturates.\<close>

definition f64_as_i32 :: "rat \<Rightarrow> int" where
  "f64_as_i32 q = max (- 2147483648) (min 2147483647 (rat_trunc q))"

definition layer_items :: "rect \<Rightarrow> (string, bitmap) btree \<Rightarrow> rat \<times> rat \<Rightarrow> layer_state \<Rightarrow> scene_item list" where
  "layer_items screen bitmaps origin l =
     (case ly_kind l of
        SolidColor color \<Rightarrow> [FillRect screen color]
      | LayerImage name \<Rightarrow> (case bt_get bitmaps name of None \<Rightarrow> []
          | Some bm \<Rightarrow> [BlitImage screen bm True
              (f64_as_i32 (f64_round (fst origin * ly_scroll_x l)), f64_as_i32 (f64_round (snd origin * ly_scroll_y l)))]))"

definition build_wallpaper_scene ::
  "scene \<Rightarrow> rect \<Rightarrow> wallpaper_state \<Rightarrow> (uuid, layer_state) btree \<Rightarrow> (string, bitmap) btree \<Rightarrow> rat \<times> rat \<Rightarrow> scene" where
  "build_wallpaper_scene sc screen w layers bitmaps origin =
     fold scene_push (concat (map (layer_items screen bitmaps origin)
       (sort_key ly_z_index (List.map_filter (bt_get layers) (wp_layers w))))) sc"

section \<open>Events\<close>

definition ingest_wallpaper :: "graph_thing \<Rightarrow> (uuid, wallpaper_state) btree \<Rightarrow> (uuid, wallpaper_state) btree" where
  "ingest_wallpaper t ws =
     (if thing_kind t \<noteq> canon_WALLPAPER then ws
      else bt_insert (thing_id t)
        \<lparr>wp_id = thing_id t, wp_mode_node = field as_uuid (thing_fields t) canon_MODE, wp_place_id = field as_uuid (thing_fields t) canon_PLACE,
         wp_layers = (case bt_get ws (thing_id t) of Some w \<Rightarrow> wp_layers w | None \<Rightarrow> [])\<rparr> ws)"

definition layer_kind_of :: "gmap \<Rightarrow> layer_kind" where
  "layer_kind_of f =
     (let kind = unwrap_or canon_SOLID_COLOR (field as_symbol f canon_TYPE)
      in if kind = canon_SOLID_COLOR
         then let color = unwrap_or 0xFF000000 (field as_u64 f canon_COLOR)
              in SolidColor (rgba_opaque (ucast (drop_bit 16 color AND 0xFF)) (ucast (drop_bit 8 color AND 0xFF)) (ucast (color AND 0xFF)))
         else if kind = canon_IMAGE then LayerImage (unwrap_or [] (field as_text f canon_IMAGE))
         else SolidColor (rgba_opaque 0 0 0))"

definition scroll_factor :: "gmap \<Rightarrow> symbol \<Rightarrow> rat" where
  "scroll_factor f k = f64_round (f64_round (of_int (sint (unwrap_or 0 (field as_i64 f k)))) / 1000)"

definition layer_of :: "graph_thing \<Rightarrow> layer_state" where
  "layer_of t =
     \<lparr>ly_id = thing_id t, ly_kind = layer_kind_of (thing_fields t), ly_scroll_x = scroll_factor (thing_fields t) canon_SCROLL_X,
      ly_scroll_y = scroll_factor (thing_fields t) canon_SCROLL_Y, ly_z_index = unat (unwrap_or 0 (field as_i64 (thing_fields t) canon_INDEX))\<rparr>"

definition layer_index :: "(uuid, layer_state) btree \<Rightarrow> uuid \<Rightarrow> nat" where
  "layer_index layers i = (case bt_get layers i of Some l \<Rightarrow> ly_z_index l | None \<Rightarrow> 0)"

definition ingest_layer ::
  "graph_thing \<Rightarrow> (uuid, wallpaper_state) btree \<times> (uuid, layer_state) btree \<Rightarrow> (uuid, wallpaper_state) btree \<times> (uuid, layer_state) btree" where
  "ingest_layer t st =
     (case st of (ws, layers) \<Rightarrow>
       case field as_uuid (thing_fields t) canon_WALLPAPER of None \<Rightarrow> (ws, layers)
       | Some wid \<Rightarrow>
           let ws1 = bt_entry wid \<lparr>wp_id = wid, wp_mode_node = None, wp_place_id = None, wp_layers = []\<rparr> ws;
               layers1 = bt_insert (thing_id t) (layer_of t) layers
           in case bt_get ws1 wid of None \<Rightarrow> (ws1, layers1)
              | Some w \<Rightarrow>
                  let ids = (if thing_id t \<in> set (wp_layers w) then wp_layers w else wp_layers w @ [thing_id t])
                  in (bt_insert wid (w\<lparr>wp_layers := sort_key (layer_index layers1) ids\<rparr>) ws1, layers1))"

section \<open>Properties\<close>

text \<open>Each wallpaper lists a layer at most once.\<close>

definition wallpapers_ok :: "(uuid, wallpaper_state) btree \<Rightarrow> bool" where
  "wallpapers_ok ws \<longleftrightarrow> (\<forall>i w. bt_get ws i = Some w \<longrightarrow> distinct (wp_layers w))"

lemma ingest_wallpaper_ok: "wallpapers_ok ws \<Longrightarrow> wallpapers_ok (ingest_wallpaper t ws)"
  by (auto simp: ingest_wallpaper_def wallpapers_ok_def split: option.splits)

lemma ingest_layer_ok:
  assumes "wallpapers_ok ws" "ingest_layer t (ws, layers) = (ws', layers')"
  shows "wallpapers_ok ws'"
  using assms by (auto simp: ingest_layer_def wallpapers_ok_def Let_def split: option.splits if_splits prod.splits)

text \<open>After a layer event its wallpaper is drawn with the layers in the order of their indices.\<close>

lemma ingest_layer_sorted:
  assumes "field as_uuid (thing_fields t) canon_WALLPAPER = Some wid" "ingest_layer t (ws, layers) = (ws', layers')"
  shows "\<exists>w. bt_get ws' wid = Some w \<and> thing_id t \<in> set (wp_layers w) \<and> sorted (map (layer_index layers') (wp_layers w)) \<and>
    bt_get layers' (thing_id t) = Some (layer_of t)"
proof -
  obtain w where "bt_get (bt_entry wid \<lparr>wp_id = wid, wp_mode_node = None, wp_place_id = None, wp_layers = []\<rparr> ws) wid = Some w"
    by (auto split: option.splits)
  then show ?thesis using assms by (auto simp: ingest_layer_def Let_def split: if_splits)
qed

end
