(* ===== verification/Window_Manager.thy ===== *)
theory Window_Manager
  imports Widgets Wallpapers
begin

text \<open>
  The window manager of the compositor (\<open>src/compositor/src/compositor.rs\<close>): which windows there are and in
  which order, which one is active, dragging, scrolling, tiling, focus and the events of the graph. Requests to
  the kernel are the list of what was sent. Drawing is left out. A search through widgets that would not end
  makes the operation \<open>None\<close>.
\<close>

section \<open>State\<close>

record mode_slot =
  ms_mode_index :: u8
  ms_root_window :: "uuid option"
  ms_windows :: "uuid list"
  ms_place_id :: "uuid option"

definition mode_slot_new :: "u8 \<Rightarrow> mode_slot" where
  "mode_slot_new index = \<lparr>ms_mode_index = index, ms_root_window = None, ms_windows = [], ms_place_id = None\<rparr>"

datatype wm_out = OutReq abi_request | OutSpawn string

text \<open>What the compositor asks of others: fonts, the serializer, the graph, the printing of identifiers, and the screen.\<close>

record frame_info =
  fi_addr :: u64
  fi_width :: u64
  fi_height :: u64
  fi_pitch :: u64
  fi_bpp :: u64

record wm_env =
  en_fonts :: font_manager
  en_postcard :: "gmap \<Rightarrow> u8 list option"
  en_get_thing :: "uuid \<Rightarrow> graph_thing option"
  en_show_uuid :: "uuid \<Rightarrow> string"
  en_width :: nat
  en_height :: nat
  en_frame_info :: "frame_info option"

record compositor =
  co_windows :: "(uuid, window_surface) btree"
  co_active_window :: "uuid option"
  co_active_mode :: nat
  co_active_place :: "uuid option"
  co_modes :: "mode_slot list"
  co_cursor :: cursor_state
  co_sprites :: cursor_sprites
  co_drag :: "drag_state option"
  co_alt :: bool
  co_shift :: bool
  co_widgets :: widgets
  co_active_widget :: "uuid option"
  co_wallpapers :: "(uuid, wallpaper_state) btree"
  co_layers :: "(uuid, layer_state) btree"
  co_bitmaps :: "(string, bitmap) btree"
  co_title_bar_height :: nat
  co_fb_id :: "uuid option"
  co_fb_dirty :: bool
  co_content_dirty :: bool
  co_auto_done :: bool
  co_debug_layout :: bool
  co_debug_overlay :: bool
  co_cursor_prev :: "rect option"
  co_frame_no :: u64
  co_state_node :: uuid
  co_mode_node :: uuid
  co_uuid_counter :: u64
  co_out :: "wm_out list"

text \<open>
  The requests of the compositor are recorded here in the order it makes them, and the compositor goes on as if each were
  answered. On the machine the runtime may instead panic, when a thing it reads back after a fiat takes more than 4096 bytes
  (\<open>User_Runtime\<close>); a statement that an event is handled says that its requests are answered (\<open>Window_Props\<close>).
\<close>

definition send :: "wm_out \<Rightarrow> compositor \<Rightarrow> compositor" where
  "send r c = c\<lparr>co_out := co_out c @ [r]\<rparr>"

text \<open>\<open>userland::fiat\<close>: the identifier is the one given or is derived from the kind and the fields.\<close>

definition user_fiat :: "wm_env \<Rightarrow> uuid option \<Rightarrow> symbol \<Rightarrow> gmap \<Rightarrow> compositor \<Rightarrow> uuid \<times> compositor" where
  "user_fiat e i kind fs c =
     (let j = (case i of Some k \<Rightarrow> k
        | None \<Rightarrow> simple_uuid (to_be_bytes (raw kind) @ unwrap_or [] (en_postcard e fs)))
      in (j, send (OutReq (ReqFiat (Some j) kind [kind] fs)) c))"

definition tell :: "uuid \<Rightarrow> symbol \<Rightarrow> gmap \<Rightarrow> compositor \<Rightarrow> compositor" where
  "tell i kind fs c = send (OutReq (ReqFiat (Some i) kind [kind] fs)) c"

definition update_window_props :: "uuid \<Rightarrow> gmap \<Rightarrow> compositor \<Rightarrow> compositor" where
  "update_window_props i props c =
     (if props = [] then c else send (OutReq (ReqPropsSet \<lparr>ps_node = i, ps_props = props\<rparr>)) c)"

definition with_window :: "uuid \<Rightarrow> (window_surface \<Rightarrow> window_surface) \<Rightarrow> compositor \<Rightarrow> compositor" where
  "with_window i f c = (case bt_get (co_windows c) i of None \<Rightarrow> c | Some s \<Rightarrow> c\<lparr>co_windows := bt_insert i (f s) (co_windows c)\<rparr>)"

definition map_window :: "(window \<Rightarrow> window) \<Rightarrow> window_surface \<Rightarrow> window_surface" where
  "map_window f s = s\<lparr>ws_window := f (ws_window s)\<rparr>"

section \<open>Order of windows\<close>

definition window_visible :: "compositor \<Rightarrow> uuid \<Rightarrow> bool" where
  "window_visible c i = (case bt_get (co_windows c) i of Some s \<Rightarrow> win_visible (ws_window s) | None \<Rightarrow> False)"

definition active_slot :: "compositor \<Rightarrow> mode_slot" where
  "active_slot c = co_modes c ! co_active_mode c"

definition ordered_window_ids :: "compositor \<Rightarrow> uuid list" where
  "ordered_window_ids c =
     (case ms_root_window (active_slot c) of Some r \<Rightarrow> if window_visible c r then [r] else [] | None \<Rightarrow> []) @
     filter (window_visible c) (ms_windows (active_slot c))"

definition visible_window_ids :: "compositor \<Rightarrow> uuid list" where
  "visible_window_ids c =
     filter (\<lambda>i. case bt_get (co_windows c) i of Some s \<Rightarrow> ws_surface_id s \<noteq> None | None \<Rightarrow> False) (ordered_window_ids c)"

definition window_at :: "window_surface \<Rightarrow> int \<Rightarrow> int \<Rightarrow> bool" where
  "window_at s x y =
     (let wx = u64_i32 (win_x (ws_window s)); wy = u64_i32 (win_y (ws_window s))
      in wx \<le> x \<and> x < i32 (wx + u64_i32 (win_width (ws_window s))) \<and> wy \<le> y \<and> y < i32 (wy + u64_i32 (win_height (ws_window s))))"

fun find_in :: "(uuid, window_surface) btree \<Rightarrow> int \<Rightarrow> int \<Rightarrow> uuid list \<Rightarrow> (uuid \<times> int \<times> int) option" where
  "find_in wins x y [] = None"
| "find_in wins x y (i # is) =
     (case bt_get wins i of None \<Rightarrow> None
      | Some s \<Rightarrow> if \<not> win_visible (ws_window s) then find_in wins x y is
          else if window_at s x y then Some (i, u64_i32 (win_x (ws_window s)), u64_i32 (win_y (ws_window s)))
          else find_in wins x y is)"

definition find_window_at :: "compositor \<Rightarrow> int \<Rightarrow> int \<Rightarrow> (uuid \<times> int \<times> int) option" where
  "find_window_at c x y = find_in (co_windows c) x y (rev (ordered_window_ids c))"

definition update_graph_state :: "compositor \<Rightarrow> compositor" where
  "update_graph_state c =
     tell (co_state_node c) canon_COMPOSITOR
       (bt_insert canon_ACTIVE_WINDOW (case co_active_window c of Some a \<Rightarrow> VUuid a | None \<Rightarrow> VNull)
         (bt_insert canon_ABOVE (VList (map VUuid (rev (ordered_window_ids c)))) [])) c"

fun bump_modes :: "uuid \<Rightarrow> mode_slot list \<Rightarrow> mode_slot list" where
  "bump_modes i [] = []"
| "bump_modes i (m # ms) =
     (if i \<in> set (ms_windows m) then m\<lparr>ms_windows := remove1 i (ms_windows m) @ [i]\<rparr> # ms else m # bump_modes i ms)"

definition bump_window :: "uuid \<Rightarrow> compositor \<Rightarrow> compositor" where
  "bump_window i c = update_graph_state (c\<lparr>co_modes := bump_modes i (co_modes c)\<rparr>)"

section \<open>The active window\<close>

definition max_window_z :: "compositor \<Rightarrow> int" where
  "max_window_z c = (case map (\<lambda>(_, s). sint (win_z (ws_window s))) (co_windows c) of [] \<Rightarrow> 0 | z # zs \<Rightarrow> fold max zs z)"

definition next_z :: "int \<Rightarrow> i64" where
  "next_z z = word_of_int (min (z + 1) 9223372036854775807)"

definition deactivate :: "uuid \<Rightarrow> compositor \<Rightarrow> compositor" where
  "deactivate i c =
     update_window_props i [(canon_ACTIVE, VBool False)] (with_window i (map_window (\<lambda>w. w\<lparr>win_active := False\<rparr>)) c)"

definition set_active_window :: "uuid option \<Rightarrow> compositor \<Rightarrow> compositor" where
  "set_active_window target c =
     (if co_active_window c = target then c
      else let c1 = (case co_active_window c of Some prev \<Rightarrow> deactivate prev (c\<lparr>co_active_window := None\<rparr>) | None \<Rightarrow> c);
               c2 = (case target of
                 Some i \<Rightarrow>
                   let z = next_z (max_window_z c1);
                       c' = with_window i (map_window (\<lambda>w. w\<lparr>win_active := True, win_z := z\<rparr>)) c1;
                       c'' = update_window_props i (bt_insert canon_Z (VI64 z) [(canon_ACTIVE, VBool True)]) c'
                   in bump_window i (c''\<lparr>co_active_window := Some i\<rparr>)
               | None \<Rightarrow> update_graph_state (c1\<lparr>co_active_window := None\<rparr>))
           in c2\<lparr>co_content_dirty := True\<rparr>)"

text \<open>\<open>max_by_key\<close> returns the last of the greatest elements.\<close>

fun max_by_key :: "('a \<Rightarrow> int) \<Rightarrow> 'a list \<Rightarrow> 'a option" where
  "max_by_key f [] = None"
| "max_by_key f (x # xs) = Some (fold (\<lambda>y m. if f m \<le> f y then y else m) xs x)"

definition ensure_active_window :: "compositor \<Rightarrow> compositor" where
  "ensure_active_window c =
     (if (case co_active_window c of Some a \<Rightarrow> window_visible c a | None \<Rightarrow> False) then c
      else case max_by_key (\<lambda>(_, s). sint (win_z (ws_window s)))
              (filter (\<lambda>(_, s). win_active (ws_window s) \<and> win_visible (ws_window s)) (co_windows c)) of
        Some (i, _) \<Rightarrow> if co_active_window c \<noteq> Some i then c\<lparr>co_active_window := Some i, co_content_dirty := True\<rparr> else c
      | None \<Rightarrow> set_active_window (last_opt (ordered_window_ids c)) c)"

definition ensure_window_has_unique_z :: "uuid \<Rightarrow> int \<Rightarrow> compositor \<Rightarrow> compositor" where
  "ensure_window_has_unique_z i prev_max_z c =
     (case bt_get (co_windows c) i of None \<Rightarrow> c
      | Some s \<Rightarrow>
          if prev_max_z < sint (win_z (ws_window s)) then c
          else let z = next_z prev_max_z
               in if win_z (ws_window s) = z then c
                  else update_window_props i [(canon_Z, VI64 z)] (with_window i (map_window (\<lambda>w. w\<lparr>win_z := z\<rparr>)) c))"

section \<open>Scrolling\<close>

definition window_frame :: "nat \<Rightarrow> window_surface \<Rightarrow> window_layout option" where
  "window_frame title_bar_height s =
     (let w = ws_window s
      in compute_window_layout (u64_i32 (win_x w)) (u64_i32 (win_y w)) (u64_i32 (win_width w)) (u64_i32 (win_height w)) (i32 (int title_bar_height)))"

definition content_metrics_for_window :: "wm_env \<Rightarrow> uuid \<Rightarrow> compositor \<Rightarrow> (window_layout \<times> content_metrics) option" where
  "content_metrics_for_window e i c =
     (case bt_get (co_windows c) i of None \<Rightarrow> None
      | Some s \<Rightarrow> map_option (\<lambda>l. (l, content_metrics_new (en_fonts e) s l)) (window_frame (co_title_bar_height c) s))"

definition clamp_scroll_for :: "wm_env \<Rightarrow> uuid \<Rightarrow> compositor \<Rightarrow> compositor" where
  "clamp_scroll_for e i c =
     (case content_metrics_for_window e i c of
        Some (_, m) \<Rightarrow> with_window i (\<lambda>s. s\<lparr>ws_scroll_y := cm_scroll_offset m\<rparr>) c
      | None \<Rightarrow> with_window i (\<lambda>s. s\<lparr>ws_scroll_y := 0\<rparr>) c)"

definition set_scroll_offset :: "wm_env \<Rightarrow> uuid \<Rightarrow> int \<Rightarrow> compositor \<Rightarrow> bool \<times> compositor" where
  "set_scroll_offset e i new_offset c =
     (case content_metrics_for_window e i c of None \<Rightarrow> (False, c)
      | Some (_, m) \<Rightarrow>
          if cm_max_scroll m \<le> 0 then (False, with_window i (\<lambda>s. s\<lparr>ws_scroll_y := 0\<rparr>) c)
          else let clamped = clamp_scroll m new_offset
               in case bt_get (co_windows c) i of None \<Rightarrow> (False, c)
                  | Some s \<Rightarrow> if ws_scroll_y s \<noteq> clamped then (True, with_window i (\<lambda>s. s\<lparr>ws_scroll_y := clamped\<rparr>) c) else (False, c))"

definition scroll_window_by :: "wm_env \<Rightarrow> uuid \<Rightarrow> int \<Rightarrow> compositor \<Rightarrow> bool \<times> compositor" where
  "scroll_window_by e i delta c =
     (if delta = 0 then (False, c)
      else case bt_get (co_windows c) i of None \<Rightarrow> (False, c)
      | Some s \<Rightarrow> set_scroll_offset e i (saturating_i32 (ws_scroll_y s + delta)) c)"

definition scroll_window_to_start :: "wm_env \<Rightarrow> uuid \<Rightarrow> compositor \<Rightarrow> bool \<times> compositor" where
  "scroll_window_to_start e i c = set_scroll_offset e i 0 c"

definition scroll_window_to_end :: "wm_env \<Rightarrow> uuid \<Rightarrow> compositor \<Rightarrow> bool \<times> compositor" where
  "scroll_window_to_end e i c =
     (case content_metrics_for_window e i c of None \<Rightarrow> (False, c)
      | Some (_, m) \<Rightarrow> if 0 < cm_max_scroll m then set_scroll_offset e i (cm_max_scroll m) c else (False, c))"

definition scroll_delta :: "symbol \<Rightarrow> int \<Rightarrow> int option" where
  "scroll_delta key page =
     (if key = cc (CHR ''A'') (CHR ''U'') then Some (- SCROLL_STEP_LINE)
      else if key = cc (CHR ''A'') (CHR ''D'') then Some SCROLL_STEP_LINE
      else if key = cc (CHR ''P'') (CHR ''U'') then Some (- page)
      else if key = cc (CHR ''P'') (CHR ''D'') then Some page else None)"

definition handle_scroll_key :: "wm_env \<Rightarrow> symbol \<Rightarrow> compositor \<Rightarrow> bool \<times> compositor" where
  "handle_scroll_key e key c =
     (case co_active_window c of None \<Rightarrow> (False, c)
      | Some active \<Rightarrow> (case content_metrics_for_window e active c of None \<Rightarrow> (False, c)
        | Some (_, m) \<Rightarrow>
            if cm_max_scroll m \<le> 0 then (False, c)
            else case scroll_delta key (max (cm_viewport_height m) SCROLL_STEP_LINE) of
              Some delta \<Rightarrow> scroll_window_by e active delta c
            | None \<Rightarrow>
                if key = cc (CHR ''H'') (CHR ''M'') then scroll_window_to_start e active c
                else if key = cc (CHR ''E'') (CHR ''D'') then scroll_window_to_end e active c
                else (False, c)))"

text \<open>The caret follows the rectangle a window reports, and scrolling follows the caret.\<close>

definition rect_caret :: "window_rect option \<Rightarrow> caret \<Rightarrow> caret" where
  "rect_caret r k =
     (case r of
        Some q \<Rightarrow> \<lparr>car_x = as_i32 (wr_x q), car_y = as_i32 (wr_y q), car_width = 2, car_height = as_i32 (wr_height q), car_visible = wr_visible q\<rparr>
      | None \<Rightarrow> k\<lparr>car_visible := False\<rparr>)"

definition hint_scroll :: "window_rect \<Rightarrow> int \<Rightarrow> int \<Rightarrow> int option" where
  "hint_scroll r current_scroll viewport_height =
     (let rect_top = clamp_i32 (max 0 (min (sint (wr_y r)) 2147483647)) 0 2147483647;
          rect_height = clamp_i32 (min (max (sint (wr_height r)) 0) 2147483647) (int FONT_HEIGHT) 2147483647;
          rect_bottom = saturating_i32 (rect_top + rect_height);
          viewport_bottom = i32 (current_scroll + viewport_height)
      in if rect_top < current_scroll then Some rect_top
         else if viewport_bottom < rect_bottom then Some (i32 (rect_bottom - viewport_height)) else None)"

definition apply_window_rect_hint :: "wm_env \<Rightarrow> uuid \<Rightarrow> compositor \<Rightarrow> compositor" where
  "apply_window_rect_hint e i c =
     (let c1 = with_window i (\<lambda>s. s\<lparr>ws_caret := rect_caret (win_rect (ws_window s)) (ws_caret s)\<rparr>) c
      in case bt_get (co_windows c1) i of None \<Rightarrow> c1
         | Some s \<Rightarrow> (case win_rect (ws_window s) of None \<Rightarrow> c1
           | Some r \<Rightarrow> (case content_metrics_for_window e i c1 of None \<Rightarrow> c1
             | Some (_, m) \<Rightarrow>
                 if cm_viewport_height m \<le> 0 then c1
                 else case hint_scroll r (ws_scroll_y s) (cm_viewport_height m) of None \<Rightarrow> c1
                   | Some desired \<Rightarrow> with_window i (\<lambda>s. s\<lparr>ws_scroll_y := clamp_scroll m desired\<rparr>) c1)))"

end
