(* ===== verification/Window_Events.thy ===== *)
theory Window_Events
  imports Window_Manager
begin

text \<open>
  The events of the window manager (\<open>src/compositor/src/compositor.rs\<close>): the pointer with its drags, keys,
  tiling, focus, and the things the graph reports, composed the way the compositor composes them.
\<close>

section \<open>Dragging\<close>

definition move_props :: "int \<Rightarrow> int \<Rightarrow> gmap" where
  "move_props x y = bt_insert canon_Y (VU64 (word_of_int y)) (bt_insert canon_X (VU64 (word_of_int x)) [])"

definition rect_props :: "u64 \<Rightarrow> u64 \<Rightarrow> u64 \<Rightarrow> u64 \<Rightarrow> gmap" where
  "rect_props x y w h =
     bt_insert canon_HEIGHT (VU64 h) (bt_insert canon_WIDTH (VU64 w) (bt_insert canon_Y (VU64 y) (bt_insert canon_X (VU64 x) [])))"

definition place_window :: "u64 \<Rightarrow> u64 \<Rightarrow> u64 \<Rightarrow> u64 \<Rightarrow> window \<Rightarrow> window" where
  "place_window x y w h win = win\<lparr>win_x := x, win_y := y, win_width := w, win_height := h\<rparr>"

text \<open>
  One axis of a resize: the low edge (left or upper), the high edge, the distance the pointer moved, and the
  start of the drag give the new position and size; the correction for a negative position comes after.
\<close>

definition resize_axis :: "bool \<Rightarrow> bool \<Rightarrow> int \<Rightarrow> int \<Rightarrow> int \<Rightarrow> int \<Rightarrow> int \<times> int" where
  "resize_axis low high min_size d start len =
     (if low then let clamped = max min_size (i32 (len - d)) in (i32 (start + i32 (len - clamped)), clamped)
      else if high then (start, max min_size (i32 (len + d))) else (start, len))"

definition keep_on_screen :: "int \<Rightarrow> int \<times> int \<Rightarrow> int \<times> int" where
  "keep_on_screen min_size p = (case p of (pos, len) \<Rightarrow> if pos < 0 then (0, max (i32 (len + i32 (- pos))) min_size) else (pos, len))"

definition resize_rect :: "resize_edges \<Rightarrow> int \<Rightarrow> int \<Rightarrow> int \<Rightarrow> int \<Rightarrow> int \<Rightarrow> int \<Rightarrow> int \<times> int \<times> int \<times> int" where
  "resize_rect ed dx dy sx sy sw sh =
     (case keep_on_screen MIN_WINDOW_WIDTH (resize_axis (re_left ed) (re_right ed) MIN_WINDOW_WIDTH dx sx sw) of (x, w) \<Rightarrow>
      case keep_on_screen MIN_WINDOW_HEIGHT (resize_axis (re_top ed) (re_bottom ed) MIN_WINDOW_HEIGHT dy sy sh) of (y, h) \<Rightarrow>
        (x, y, w, h))"

definition thumb_scroll :: "int \<Rightarrow> int \<Rightarrow> int \<Rightarrow> int \<Rightarrow> int \<Rightarrow> int" where
  "thumb_scroll track_height thumb_height thumb_offset max_scroll delta =
     (let travel = max (i32 (track_height - thumb_height)) 1;
          off = clamp_i32 (i32 (thumb_offset + delta)) 0 travel
      in f32_as_i32 (f32_add (f32_mul (f32_div (f32_of_int off) (f32_of_int travel)) (f32_of_int max_scroll)) (FFin (1 / 2))))"

definition continue_drag :: "wm_env \<Rightarrow> compositor \<Rightarrow> compositor" where
  "continue_drag e c =
     (case co_drag c of None \<Rightarrow> c
      | Some drag \<Rightarrow> (case ds_kind drag of
          DragMove ox oy \<Rightarrow>
            let x = max 0 (i32 (cu_x (co_cursor c) - ox)); y = max 0 (i32 (cu_y (co_cursor c) - oy))
            in update_window_props (ds_window_id drag) (move_props x y)
                 (with_window (ds_window_id drag) (map_window (\<lambda>w. w\<lparr>win_x := word_of_int x, win_y := word_of_int y\<rparr>)) c)
        | DragResize ed cx cy sx sy sw sh \<Rightarrow>
            (case resize_rect ed (i32 (cu_x (co_cursor c) - cx)) (i32 (cu_y (co_cursor c) - cy)) sx sy sw sh of (x, y, w, h) \<Rightarrow>
               clamp_scroll_for e (ds_window_id drag)
                 (update_window_props (ds_window_id drag) (rect_props (word_of_int x) (word_of_int y) (word_of_int w) (word_of_int h))
                   (with_window (ds_window_id drag)
                     (map_window (place_window (word_of_int x) (word_of_int y) (word_of_int w) (word_of_int h))) c)))
        | DragScrollThumb track thumb off max_scroll start_y \<Rightarrow>
            if max_scroll \<le> 0 then c
            else snd (set_scroll_offset e (ds_window_id drag)
              (thumb_scroll track thumb off max_scroll (i32 (cu_y (co_cursor c) - start_y))) c)
        | DragCloseButton \<Rightarrow> c))"

section \<open>The pointer\<close>

definition hit_widget :: "wm_env \<Rightarrow> uuid \<Rightarrow> window_layout \<Rightarrow> content_metrics \<Rightarrow> compositor \<Rightarrow> uuid option option" where
  "hit_widget e i l m c =
     hit_test_widgets (length (co_widgets c)) (co_widgets c) i l m (cu_x (co_cursor c)) (cu_y (co_cursor c))"

text \<open>The position of the pointer inside a widget, as reported to it.\<close>

definition mouse_props :: "widget \<Rightarrow> compositor \<Rightarrow> gmap" where
  "mouse_props w c =
     bt_insert canon_MOUSE_Y (VI64 (word_of_int (i32 (cu_y (co_cursor c) - u64_i32 (unwrap_or 0 (wd_y w))))))
       (bt_insert canon_MOUSE_X (VI64 (word_of_int (i32 (cu_x (co_cursor c) - u64_i32 (unwrap_or 0 (wd_x w)))))) [])"

definition press_widget :: "uuid \<Rightarrow> compositor \<Rightarrow> compositor" where
  "press_widget i c =
     (let c1 = c\<lparr>co_active_widget := Some i\<rparr>
      in case bt_get (co_widgets c) i of None \<Rightarrow> c1
         | Some w \<Rightarrow> tell i canon_WIDGET (bt_insert canon_MOUSE_DOWN (VBool True) (mouse_props w c)) c1)"

definition start_drag :: "uuid \<Rightarrow> drag_kind \<Rightarrow> compositor \<Rightarrow> compositor" where
  "start_drag i k c = c\<lparr>co_drag := Some \<lparr>ds_window_id = i, ds_kind = k\<rparr>\<rparr>"

text \<open>A press on the scrollbar: \<open>None\<close> when the pointer is not on it.\<close>

definition press_scrollbar :: "wm_env \<Rightarrow> uuid \<Rightarrow> content_metrics \<Rightarrow> compositor \<Rightarrow> compositor option" where
  "press_scrollbar e i m c =
     (let x = cu_x (co_cursor c); y = cu_y (co_cursor c)
      in case (cm_track_rect m, cm_thumb_rect m, cm_thumb_offset m) of
           (Some track, Some thumb, Some off) \<Rightarrow>
             if 0 < cm_max_scroll m \<and> rect_contains track x y
             then Some (if rect_contains thumb x y
               then start_drag i (DragScrollThumb (i32 (int (rheight track))) (i32 (int (rheight thumb))) off (cm_max_scroll m) y) c
               else let page = max (cm_viewport_height m) SCROLL_STEP_LINE
                    in snd (scroll_window_by e i (if y < ry thumb then - page else page) c))
             else None
         | _ \<Rightarrow> None)"

definition press_frame :: "uuid \<Rightarrow> int \<Rightarrow> int \<Rightarrow> int \<Rightarrow> int \<Rightarrow> window_layout \<Rightarrow> compositor \<Rightarrow> compositor" where
  "press_frame i wx wy ww wh l c =
     (let x = cu_x (co_cursor c); y = cu_y (co_cursor c)
      in case hit_test_resize wx wy ww wh x y of
           Some ed \<Rightarrow> start_drag i (DragResize ed x y wx wy ww wh) c
         | None \<Rightarrow> if lay_title_y l \<le> y \<and> y < i32 (lay_title_y l + lay_title_h l)
             then start_drag i (DragMove (i32 (x - wx)) (i32 (y - wy))) c else c)"

definition on_pointer_down :: "wm_env \<Rightarrow> compositor \<Rightarrow> compositor option" where
  "on_pointer_down e c0 =
     (case find_window_at c0 (cu_x (co_cursor c0)) (cu_y (co_cursor c0)) of
        None \<Rightarrow> Some (set_active_window None c0)
      | Some (i, wx, wy) \<Rightarrow>
          let c = set_active_window (Some i) c0
          in case bt_get (co_windows c) i of None \<Rightarrow> Some c
             | Some s \<Rightarrow>
                 let ww = u64_i32 (win_width (ws_window s)); wh = u64_i32 (win_height (ws_window s))
                 in case compute_window_layout wx wy ww wh (i32 (int (co_title_bar_height c))) of None \<Rightarrow> Some c
                    | Some l \<Rightarrow>
                        let m = content_metrics_new (en_fonts e) s l
                        in case hit_widget e i l m c of None \<Rightarrow> None
                           | Some (Some w) \<Rightarrow> Some (press_widget w c)
                           | Some None \<Rightarrow> Some (case press_scrollbar e i m c of Some c' \<Rightarrow> c' | None \<Rightarrow> press_frame i wx wy ww wh l c))"

definition continue_widget_interaction :: "compositor \<Rightarrow> compositor" where
  "continue_widget_interaction c =
     (case co_active_widget c of None \<Rightarrow> c
      | Some i \<Rightarrow> (case bt_get (co_widgets c) i of None \<Rightarrow> c | Some w \<Rightarrow> tell i canon_WIDGET (mouse_props w c) c))"

definition hide_window :: "uuid \<Rightarrow> compositor \<Rightarrow> compositor" where
  "hide_window i c = update_window_props i [(canon_VISIBLE, VBool False)] c"

definition dispatch_action :: "string \<Rightarrow> uuid option \<Rightarrow> compositor \<Rightarrow> compositor" where
  "dispatch_action action i c =
     (if action = ''ACTION.CLOSE_WINDOW'' then (case i of Some k \<Rightarrow> hide_window k c | None \<Rightarrow> c) else c)"

text \<open>A click counts when the pointer is released over the widget it was pressed on.\<close>

definition click_widget :: "wm_env \<Rightarrow> uuid \<Rightarrow> compositor \<Rightarrow> compositor option" where
  "click_widget e w c =
     (case find_window_at c (cu_x (co_cursor c)) (cu_y (co_cursor c)) of None \<Rightarrow> Some c
      | Some (i, wx, wy) \<Rightarrow> (case bt_get (co_windows c) i of None \<Rightarrow> Some c
        | Some s \<Rightarrow> (case compute_window_layout wx wy (u64_i32 (win_width (ws_window s))) (u64_i32 (win_height (ws_window s)))
              (i32 (int (co_title_bar_height c))) of None \<Rightarrow> Some c
          | Some l \<Rightarrow> (case hit_widget e i l (content_metrics_new (en_fonts e) s l) c of None \<Rightarrow> None
            | Some None \<Rightarrow> Some c
            | Some (Some h) \<Rightarrow> Some (if h \<noteq> w then c
                else case Option.bind (bt_get (co_widgets c) w) wd_action of None \<Rightarrow> c
                  | Some action \<Rightarrow> dispatch_action action (Some i) c)))))"

definition end_widget_interaction :: "wm_env \<Rightarrow> compositor \<Rightarrow> compositor option" where
  "end_widget_interaction e c =
     (case co_active_widget c of None \<Rightarrow> Some c
      | Some w \<Rightarrow> map_option (\<lambda>c'. c'\<lparr>co_active_widget := None\<rparr>)
          (click_widget e w (tell w canon_WIDGET [(canon_MOUSE_DOWN, VBool False)] c)))"

definition on_close_button_up :: "uuid \<Rightarrow> compositor \<Rightarrow> compositor" where
  "on_close_button_up i c =
     (let c1 = with_window i (\<lambda>s. s\<lparr>ws_close_pressed := False\<rparr>) c
      in case bt_get (co_windows c1) i of None \<Rightarrow> c1
         | Some s \<Rightarrow> (case window_frame (co_title_bar_height c1) s of None \<Rightarrow> c1
           | Some l \<Rightarrow> if point_in_rect (cu_x (co_cursor c1)) (cu_y (co_cursor c1)) (close_button_rect l) then hide_window i c1 else c1))"

definition cursor_kind_for_edges :: "resize_edges \<Rightarrow> cursor_kind" where
  "cursor_kind_for_edges ed =
     (case (re_left ed, re_right ed, re_top ed, re_bottom ed) of
        (True, False, True, False) \<Rightarrow> CkResizeNW
      | (False, True, True, False) \<Rightarrow> CkResizeNE
      | (True, False, False, True) \<Rightarrow> CkResizeSW
      | (False, True, False, True) \<Rightarrow> CkResizeSE
      | (True, False, False, False) \<Rightarrow> CkResizeW
      | (False, True, False, False) \<Rightarrow> CkResizeE
      | (False, False, True, False) \<Rightarrow> CkResizeN
      | (False, False, False, True) \<Rightarrow> CkResizeS
      | _ \<Rightarrow> CkArrow)"

definition compute_cursor_kind :: "compositor \<Rightarrow> cursor_kind" where
  "compute_cursor_kind c =
     (case co_drag c of
        Some drag \<Rightarrow> (case ds_kind drag of DragMove _ _ \<Rightarrow> CkMove
          | DragResize ed _ _ _ _ _ _ \<Rightarrow> cursor_kind_for_edges ed
          | DragScrollThumb _ _ _ _ _ \<Rightarrow> CkMove | DragCloseButton \<Rightarrow> CkArrow)
      | None \<Rightarrow> (case find_window_at c (cu_x (co_cursor c)) (cu_y (co_cursor c)) of None \<Rightarrow> CkArrow
          | Some (i, wx, wy) \<Rightarrow> (case bt_get (co_windows c) i of None \<Rightarrow> CkArrow
            | Some s \<Rightarrow> (case hit_test_resize wx wy (u64_i32 (win_width (ws_window s))) (u64_i32 (win_height (ws_window s)))
                  (cu_x (co_cursor c)) (cu_y (co_cursor c)) of Some ed \<Rightarrow> cursor_kind_for_edges ed | None \<Rightarrow> CkArrow))))"

definition update_cursor_kind :: "compositor \<Rightarrow> compositor" where
  "update_cursor_kind c = c\<lparr>co_cursor := set_kind (compute_cursor_kind c) (co_cursor c)\<rparr>"

definition release_drag :: "compositor \<Rightarrow> compositor" where
  "release_drag c =
     (let c1 = (case co_drag c of Some drag \<Rightarrow> if ds_kind drag = DragCloseButton then on_close_button_up (ds_window_id drag) c else c | None \<Rightarrow> c)
      in c1\<lparr>co_drag := None\<rparr>)"

definition on_mouse_event :: "wm_env \<Rightarrow> i64 \<Rightarrow> i64 \<Rightarrow> u64 \<Rightarrow> compositor \<Rightarrow> compositor option" where
  "on_mouse_event e dx dy buttons c0 =
     (let prev = cu_buttons (co_cursor c0);
          c = c0\<lparr>co_cursor := cursor_update dx dy (ucast buttons) (en_width e) (en_height e) (co_cursor c0)\<rparr>;
          left_down = bit buttons 0; left_was_down = bit prev 0
      in map_option update_cursor_kind
           (Option.bind (if left_down \<and> \<not> left_was_down then on_pointer_down e c else Some c)
             (\<lambda>c1. if left_down then Some (continue_widget_interaction (continue_drag e c1))
                   else if left_was_down then end_widget_interaction e (release_drag c1)
                   else Some (c1\<lparr>co_drag := None\<rparr>))))"

definition ingest_input_event :: "wm_env \<Rightarrow> graph_thing \<Rightarrow> compositor \<Rightarrow> compositor option" where
  "ingest_input_event e t c =
     (let f = thing_fields t
      in if field as_symbol f canon_KIND = Some canon_MOVE
         then on_mouse_event e (unwrap_or 0 (field as_i64 f canon_DX)) (unwrap_or 0 (field as_i64 f canon_DY)) (unwrap_or 0 (field as_u64 f canon_BUTTON)) c
         else Some c)"

section \<open>Tiling\<close>

function grid_cols :: "nat \<Rightarrow> nat \<Rightarrow> nat" where
  "grid_cols cols count = (if cols * cols < count then grid_cols (cols + 1) count else cols)"
  by pat_completeness auto
termination
proof (relation "measure (\<lambda>(cols, count). count - cols)")
  fix cols count :: nat
  assume "cols * cols < count"
  then have "cols < count" using le_square [of cols] by linarith
  then show "((cols + 1, count), cols, count) \<in> measure (\<lambda>(cols, count). count - cols)" by simp
qed simp

declare grid_cols.simps [simp del]

definition put_window :: "uuid \<Rightarrow> u64 \<Rightarrow> u64 \<Rightarrow> u64 \<Rightarrow> u64 \<Rightarrow> compositor \<Rightarrow> compositor" where
  "put_window i x y w h c = update_window_props i (rect_props x y w h) (with_window i (map_window (place_window x y w h)) c)"

fun tile_loop :: "int \<Rightarrow> int \<Rightarrow> int \<Rightarrow> int \<Rightarrow> uuid list \<Rightarrow> compositor \<Rightarrow> compositor" where
  "tile_loop cols w h k [] c = c"
| "tile_loop cols w h k (i # is) c =
     tile_loop cols w h (k + 1) is
       (put_window i (word_of_int (max (i32 (k mod cols * w)) 0)) (word_of_int (max (i32 (k div cols * h)) 0))
         (word_of_int (max w MIN_WINDOW_WIDTH)) (word_of_int (max h MIN_WINDOW_HEIGHT)) c)"

definition tile_windows :: "wm_env \<Rightarrow> compositor \<Rightarrow> compositor" where
  "tile_windows e c =
     (let ids = visible_window_ids c
      in if ids = [] then c
         else let count = length ids; cols = grid_cols 1 count; rows = (count + cols - 1) div cols
              in tile_loop (int cols) (i32 (int (en_width e)) div int cols) (i32 (int (en_height e)) div int rows) 0 ids c)"

definition layout_windows_in_area :: "rect \<Rightarrow> uuid list \<Rightarrow> compositor \<Rightarrow> compositor" where
  "layout_windows_in_area area ids c =
     (if ids = [] \<or> rwidth area = 0 \<or> rheight area = 0 then c
      else let count = length ids; cols = grid_cols 1 count; rows = (count + cols - 1) div cols;
               items = map (\<lambda>i. layout_item_default\<lparr>li_id := i, li_min_width := nat MIN_WINDOW_WIDTH, li_min_height := nat MIN_WINDOW_HEIGHT\<rparr>) ids
           in fold (\<lambda>(i, r). put_window i (word_of_int (max (rx r) 0)) (word_of_int (max (ry r) 0))
                (of_nat (max (rwidth r) (nat MIN_WINDOW_WIDTH))) (of_nat (max (rheight r) (nat MIN_WINDOW_HEIGHT))))
                (layout area (LGrid rows cols) items 8) c)"

definition maybe_auto_tile_windows :: "wm_env \<Rightarrow> compositor \<Rightarrow> compositor" where
  "maybe_auto_tile_windows e c =
     (if co_auto_done c then c
      else let ids = visible_window_ids c
           in if length ids < 10 then c
              else let available = saturating_i32 (i32 (int (en_height e)) - 48)
                   in if available \<le> 0 then c
                      else (layout_windows_in_area (rect_new 0 48 (en_width e) (as_u32 available)) ids c)\<lparr>co_auto_done := True, co_fb_dirty := True\<rparr>)"

section \<open>Keys\<close>

definition switch_mode :: "nat \<Rightarrow> compositor \<Rightarrow> compositor" where
  "switch_mode idx c =
     (if co_active_mode c = idx then c
      else tell (co_mode_node c) canon_CURRENT_MODE [(canon_MODE_INDEX, VI64 (of_nat idx))] c)"

definition focused_symbol :: symbol where
  "focused_symbol = canon (ascii (CHR ''F'')) (ascii (CHR ''C'')) (ascii (CHR ''S''))"

definition next_focus :: "bool \<Rightarrow> nat option \<Rightarrow> nat \<Rightarrow> nat" where
  "next_focus back current n =
     (case current of None \<Rightarrow> 0 | Some i \<Rightarrow> if back then (if i = 0 then n - 1 else i - 1) else (i + 1) mod n)"

fun position :: "'a \<Rightarrow> 'a list \<Rightarrow> nat option" where
  "position x [] = None"
| "position x (y # ys) = (if y = x then Some 0 else map_option Suc (position x ys))"

definition handle_tab_focus :: "compositor \<Rightarrow> compositor option" where
  "handle_tab_focus c =
     (case co_active_window c of None \<Rightarrow> Some c
      | Some win \<Rightarrow> (case collect_focusable (Suc (length (co_widgets c))) (co_widgets c) win of None \<Rightarrow> None
        | Some fs \<Rightarrow> Some (if fs = [] then c
            else let old = co_active_widget c;
                     new = fs ! next_focus (co_shift c) (Option.bind old (\<lambda>w. position w fs)) (length fs);
                     c1 = c\<lparr>co_active_widget := Some new, co_fb_dirty := True\<rparr>;
                     c2 = (case old of Some w \<Rightarrow> if w \<noteq> new then tell w canon_WIDGET [(focused_symbol, VBool False)] c1 else c1 | None \<Rightarrow> c1)
                 in tell new canon_WIDGET [(focused_symbol, VBool True)] c2)))"

definition key_modifiers :: "u64 option \<Rightarrow> symbol \<Rightarrow> bool \<Rightarrow> compositor \<Rightarrow> compositor" where
  "key_modifiers scancode key down c =
     (let c1 = (if scancode = Some 0x38 \<or> (scancode = None \<and> (key = cc (CHR ''A'') (CHR ''L'') \<or> key = cc (CHR ''Y'') (CHR ''L'')))
                then c\<lparr>co_alt := down\<rparr> else c)
      in if scancode = Some 0x2A \<or> scancode = Some 0x36 \<or> (scancode = None \<and> key = cc (CHR ''S'') (CHR ''F''))
         then c1\<lparr>co_shift := down\<rparr> else c1)"

definition key_command :: "wm_env \<Rightarrow> symbol \<Rightarrow> compositor \<Rightarrow> compositor option" where
  "key_command e key c =
     (if co_alt c \<and> (key = from_char 0x74 \<or> key = from_char 0x54) then Some (tile_windows e c)
      else if co_alt c \<and> (key = from_char 0x69 \<or> key = from_char 0x49)
        then Some (c\<lparr>co_debug_layout := \<not> co_debug_layout c, co_fb_dirty := True\<rparr>)
      else if co_alt c \<and> (key = from_char 0x6F \<or> key = from_char 0x4F)
        then Some (c\<lparr>co_debug_overlay := \<not> co_debug_overlay c, co_fb_dirty := True\<rparr>)
      else if 0xF001 \<le> raw key \<and> raw key \<le> 0xF00C then Some (switch_mode (unat (raw key - 0xF001)) c)
      else if key = cc (CHR ''T'') (CHR ''B'') then handle_tab_focus c
      else Some c)"

definition ingest_key_event :: "wm_env \<Rightarrow> graph_thing \<Rightarrow> compositor \<Rightarrow> compositor option" where
  "ingest_key_event e t c =
     (let f = thing_fields t; down = unwrap_or False (field as_bool f canon_DOWN)
      in case field as_symbol f canon_KEY of None \<Rightarrow> Some c
         | Some key \<Rightarrow>
             let c1 = key_modifiers (field as_u64 f canon_SCANCODE) key down c
             in if down then map_option (\<lambda>c2. snd (handle_scroll_key e key c2)) (key_command e key c1) else Some c1)"

section \<open>Things from the graph\<close>

definition ensure_window_chrome :: "wm_env \<Rightarrow> uuid \<Rightarrow> string \<Rightarrow> compositor \<Rightarrow> (uuid \<times> uuid) \<times> compositor" where
  "ensure_window_chrome e i title c =
     (let bar = simple_uuid (as_bytes (''TitleBar:'' @ en_show_uuid e i));
          label = simple_uuid (as_bytes (''TitleText:'' @ en_show_uuid e i));
          close = simple_uuid (as_bytes (''CloseBtn:'' @ en_show_uuid e i));
          f1 = bt_insert canon_GAP (VI64 4) (bt_insert canon_WIDTH (VText ''100%'')
            (bt_insert canon_HEIGHT (VU64 (of_nat (co_title_bar_height c))) (bt_insert canon_PARENT (VUuid i)
              (bt_insert (cc (CHR ''A'') (CHR ''I'')) (VText ''center'') (bt_insert (cc (CHR ''F'') (CHR ''D'')) (VText ''row'')
                (bt_insert canon_ROLE (VText ''container.vertical'') (bt_insert canon_KIND (VSymbol canon_WIDGET) [])))))));
          f2 = bt_insert (cc (CHR ''F'') (CHR ''G'')) (VI64 1) (bt_insert canon_LABEL (VText title)
            (bt_insert canon_PARENT (VUuid bar) (bt_insert canon_ROLE (VText ''label'') (bt_insert canon_KIND (VSymbol canon_WIDGET) []))));
          f3 = bt_insert canon_HEIGHT (VU64 28) (bt_insert canon_WIDTH (VU64 28) (bt_insert canon_ACTION (VText ''ACTION.CLOSE_WINDOW'')
            (bt_insert canon_ICON_NAME (VText ''close'') (bt_insert canon_LABEL (VText []) (bt_insert canon_PARENT (VUuid bar)
              (bt_insert canon_ROLE (VText ''button'') (bt_insert canon_KIND (VSymbol canon_WIDGET) [])))))))
      in ((bar, close), tell close canon_WIDGET f3 (tell label canon_WIDGET f2 (tell bar canon_WIDGET f1 c))))"

definition new_surface :: "window \<Rightarrow> uuid \<Rightarrow> uuid \<Rightarrow> window_surface" where
  "new_surface w bar close =
     \<lparr>ws_window = w, ws_surface_id = None, ws_text = [], ws_bitmap = None, ws_scroll_y = 0, ws_scrollbar_widget_id = None,
      ws_caret = caret_default, ws_title_bar_id = Some bar, ws_close_button_id = close, ws_close_pressed = False,
      ws_close_button_bitmap = None, ws_repeat = False, ws_is_mono = False, ws_text_color = None, ws_bg_color = None\<rparr>"

definition insert_window :: "wm_env \<Rightarrow> window \<Rightarrow> compositor \<Rightarrow> compositor" where
  "insert_window e w c =
     (case ensure_window_chrome e (win_id w) (win_title w) c of ((bar, close), c1) \<Rightarrow>
        case bt_get (co_windows c1) (win_id w) of
          Some s \<Rightarrow> c1\<lparr>co_windows := bt_insert (win_id w) (s\<lparr>ws_window := w\<rparr>) (co_windows c1)\<rparr>
        | None \<Rightarrow> c1\<lparr>co_windows := bt_insert (win_id w) (new_surface w bar close) (co_windows c1)\<rparr>)"

definition mode_of_place :: "uuid \<Rightarrow> mode_slot list \<Rightarrow> nat option" where
  "mode_of_place p ms = position (Some p) (map ms_place_id ms)"

definition slot_add :: "uuid \<Rightarrow> bool \<Rightarrow> mode_slot \<Rightarrow> mode_slot" where
  "slot_add i is_root m = (if is_root then m\<lparr>ms_root_window := Some i\<rparr> else m\<lparr>ms_windows := ms_windows m @ [i]\<rparr>)"

definition assign_mode :: "window \<Rightarrow> compositor \<Rightarrow> compositor" where
  "assign_mode w c =
     (let target = (case win_mode_index w of Some k \<Rightarrow> unat k | None \<Rightarrow> co_active_mode c); ms = co_modes c
      in case Option.bind (win_place_id w) (\<lambda>p. mode_of_place p ms) of
           Some idx \<Rightarrow> c\<lparr>co_modes := ms[idx := slot_add (win_id w) (win_is_place_root w) (ms ! idx)]\<rparr>
         | None \<Rightarrow>
             if target < length ms
             then let m = slot_add (win_id w) (win_is_root w) (ms ! target);
                      m' = (if win_is_place_root w \<and> win_place_id w \<noteq> None then m\<lparr>ms_place_id := win_place_id w\<rparr> else m)
                  in c\<lparr>co_modes := ms[target := m']\<rparr>
             else c)"

definition ingest_window :: "wm_env \<Rightarrow> window \<Rightarrow> compositor \<Rightarrow> compositor" where
  "ingest_window e w0 c =
     (let w = w0\<lparr>win_width := max (win_width w0) (word_of_int MIN_WINDOW_WIDTH), win_height := max (win_height w0) (word_of_int MIN_WINDOW_HEIGHT)\<rparr>;
          i = win_id w; is_new = (bt_get (co_windows c) i = None); prev_max_z = max_window_z c;
          c1 = insert_window e w c;
          c2 = (if is_new then ensure_window_has_unique_z i prev_max_z (assign_mode w c1) else c1);
          c3 = (case win_target w of Some tg \<Rightarrow> with_window i (\<lambda>s. s\<lparr>ws_surface_id := Some tg\<rparr>) c2 | None \<Rightarrow> c2);
          c4 = (if win_active w then set_active_window (Some i) c3
                else if co_active_window c3 = Some i then set_active_window None c3
                else if is_new then bump_window i c3 else c3)
      in maybe_auto_tile_windows e (clamp_scroll_for e i c4))"

definition default_window :: "uuid \<Rightarrow> window" where
  "default_window i =
     \<lparr>win_id = i, win_width = 320, win_height = 200, win_title = ''window'', win_x = 32, win_y = 32, win_z = 0, win_visible = True, win_target = None,
      win_active = False, win_is_root = False, win_is_place_root = False, win_place_id = None, win_mode_index = None, win_rect = None,
      win_gap = None, win_flex_direction = None, win_justify_content = None, win_align_items = None, win_tile_mode = None\<rparr>"

text \<open>A failed decoding keeps the old picture; a panic of the decoder is \<open>Inl\<close>.\<close>

definition surface_picture :: "u8 list option \<Rightarrow> bitmap option \<Rightarrow> bitmap option panics" where
  "surface_picture bytes old =
     (case bytes of None \<Rightarrow> Inr old
      | Some b \<Rightarrow> (case decode_bmp b of Inl p \<Rightarrow> Inl p | Inr None \<Rightarrow> Inr old | Inr (Some bm) \<Rightarrow> Inr (Some bm)))"

definition ingest_surface :: "wm_env \<Rightarrow> graph_thing \<Rightarrow> compositor \<Rightarrow> compositor option" where
  "ingest_surface e t c =
     (case surface_load t of None \<Rightarrow> Some c
      | Some su \<Rightarrow> (case su_window su of None \<Rightarrow> Some c
        | Some i \<Rightarrow>
            let w = unwrap_or (default_window i) (Option.bind (en_get_thing e i) window_load);
                c1 = (if bt_get (co_windows c) i = None
                      then case ensure_window_chrome e i (win_title w) c of ((bar, close), c') \<Rightarrow>
                             c'\<lparr>co_windows := bt_insert i (new_surface w bar close) (co_windows c')\<rparr>
                      else c);
                f = thing_fields t
            in case bt_get (co_windows c1) i of None \<Rightarrow> None
               | Some s \<Rightarrow> (case surface_picture (su_bitmap su) (ws_bitmap s) of Inl _ \<Rightarrow> None
                 | Inr bm \<Rightarrow>
                   let s' = s\<lparr>ws_repeat := unwrap_or (unwrap_or (ws_repeat s) (field as_bool f canon_TILE_MODE)) (win_tile_mode w),
                         ws_window := w, ws_surface_id := Some (su_id su), ws_text := su_text su,
                         ws_is_mono := unwrap_or False (field as_bool f canon_IS_MONO),
                         ws_text_color := map_option ucast (field as_u64 f canon_TEXT_COLOR),
                         ws_bg_color := map_option ucast (field as_u64 f canon_BG_COLOR), ws_bitmap := bm\<rparr>
                   in Some (apply_window_rect_hint e i (clamp_scroll_for e i
                        (bump_window i (c1\<lparr>co_windows := bt_insert i s' (co_windows c1)\<rparr>)))))))"

definition ingest_cursor :: "wm_env \<Rightarrow> graph_thing \<Rightarrow> compositor \<Rightarrow> compositor" where
  "ingest_cursor e t c =
     (if thing_kind t \<noteq> canon_CURSOR then c
      else let f = thing_fields t
           in c\<lparr>co_cursor := set_from_graph (field as_i64 f canon_X) (field as_i64 f canon_Y) (field as_bool f canon_VISIBLE)
                (en_width e) (en_height e) (co_cursor c)\<rparr>)"

definition launch_app_for_place :: "string \<Rightarrow> uuid \<Rightarrow> nat \<Rightarrow> compositor \<Rightarrow> compositor" where
  "launch_app_for_place app place idx c =
     (let i = ucast (co_uuid_counter c);
          fs = bt_insert canon_MODE_INDEX (VI64 (of_nat idx)) (bt_insert canon_PLACE (VUuid place)
            (bt_insert canon_APP (VText app) (bt_insert canon_KIND (VSymbol canon_LAUNCH_INTENT) [])))
      in send (OutSpawn app) (tell i canon_LAUNCH_INTENT fs (c\<lparr>co_uuid_counter := co_uuid_counter c + 1\<rparr>)))"

definition ensure_mode_app :: "wm_env \<Rightarrow> nat \<Rightarrow> compositor \<Rightarrow> compositor" where
  "ensure_mode_app e idx c =
     (let m = co_modes c ! idx
      in if ms_root_window m \<noteq> None then c
         else case ms_place_id m of None \<Rightarrow> c
         | Some p \<Rightarrow> (case en_get_thing e p of None \<Rightarrow> c
           | Some t \<Rightarrow> (case field as_text (thing_fields t) canon_APP of None \<Rightarrow> c | Some app \<Rightarrow> launch_app_for_place app p idx c)))"

definition mode_number :: "i64 \<Rightarrow> nat" where
  "mode_number v = nat (min (max (sint v) 0) 11)"

definition ingest_mode :: "wm_env \<Rightarrow> graph_thing \<Rightarrow> compositor \<Rightarrow> compositor" where
  "ingest_mode e t c =
     (if thing_id t \<noteq> co_mode_node c then c
      else case field as_i64 (thing_fields t) canon_MODE_INDEX of None \<Rightarrow> c
      | Some v \<Rightarrow>
          let idx = mode_number v
          in if idx = co_active_mode c then c
             else update_graph_state (ensure_mode_app e idx
               (c\<lparr>co_active_mode := idx, co_content_dirty := True, co_active_place := ms_place_id (co_modes c ! idx)\<rparr>)))"

definition ingest_mode_def :: "graph_thing \<Rightarrow> compositor \<Rightarrow> compositor" where
  "ingest_mode_def t c =
     (case field as_i64 (thing_fields t) canon_MODE_INDEX of None \<Rightarrow> c
      | Some v \<Rightarrow> (case field as_uuid (thing_fields t) canon_MODE_PLACE of None \<Rightarrow> c
        | Some p \<Rightarrow>
            let idx = mode_number v; c1 = c\<lparr>co_modes := (co_modes c)[idx := (co_modes c ! idx)\<lparr>ms_place_id := Some p\<rparr>]\<rparr>
            in if co_active_mode c = idx then c1\<lparr>co_active_place := Some p, co_content_dirty := True\<rparr> else c1))"

definition ingest_widget_event :: "graph_thing \<Rightarrow> compositor \<Rightarrow> compositor" where
  "ingest_widget_event t c =
     (case ingest_widget t (co_widgets c) (co_windows c) of (ws, wins) \<Rightarrow> c\<lparr>co_widgets := ws, co_windows := wins\<rparr>)"

text \<open>The watch an event came from decides how it is handled; the watches are distinct.\<close>

datatype watch_kind =
  WatchSurfaces | WatchMouse | WatchKeyboard | WatchWindows | WatchCursor | WatchFb | WatchWidgets | WatchMode | WatchModeDefs | WatchWallpaper | WatchLayer

fun on_event :: "wm_env \<Rightarrow> watch_kind \<Rightarrow> graph_thing \<Rightarrow> compositor \<Rightarrow> compositor option" where
  "on_event e WatchSurfaces t c = map_option (\<lambda>c'. c'\<lparr>co_content_dirty := True\<rparr>) (ingest_surface e t c)"
| "on_event e WatchMouse t c = (if thing_kind t = canon_INPUT_EVENT then ingest_input_event e t c else Some c)"
| "on_event e WatchKeyboard t c = (if thing_kind t = canon_KEY_EVENT then ingest_key_event e t c else Some c)"
| "on_event e WatchWindows t c = (case window_load t of None \<Rightarrow> Some c | Some w \<Rightarrow> Some ((ingest_window e w c)\<lparr>co_content_dirty := True\<rparr>))"
| "on_event e WatchCursor t c = Some (ingest_cursor e t c)"
| "on_event e WatchFb t c = Some (if thing_kind t = canon_DISPLAY_FRAMEBUFFER then c\<lparr>co_fb_id := Some (thing_id t), co_fb_dirty := True\<rparr> else c)"
| "on_event e WatchWidgets t c = Some ((ingest_widget_event t c)\<lparr>co_content_dirty := True\<rparr>)"
| "on_event e WatchMode t c = Some (ingest_mode e t c)"
| "on_event e WatchModeDefs t c = Some (ingest_mode_def t c)"
| "on_event e WatchWallpaper t c = Some (c\<lparr>co_wallpapers := ingest_wallpaper t (co_wallpapers c), co_content_dirty := True\<rparr>)"
| "on_event e WatchLayer t c =
     (case ingest_layer t (co_wallpapers c, co_layers c) of (ws, ls) \<Rightarrow> Some (c\<lparr>co_wallpapers := ws, co_layers := ls, co_content_dirty := True\<rparr>))"

end
