(* ===== verification/Window_Frames.thy ===== *)
theory Window_Frames
  imports Window_Events
begin

text \<open>
  Start-up and frames of the compositor (\<open>src/compositor/src/compositor.rs\<close>): the state it begins with, the
  full-screen windows of a place, the scrollbar widgets, the scene that is drawn and the tick that decides what
  is shown. How the widgets themselves are drawn is an argument, so that what is stated holds for every way of
  drawing them.
\<close>

section \<open>Start\<close>

definition mode_node_id :: "nat \<Rightarrow> uuid" where
  "mode_node_id i = simple_uuid (as_bytes (''ModeF'' @ show_nat (i + 1)))"

definition sky_place_id :: uuid where
  "sky_place_id = simple_uuid (as_bytes ''sky'')"

definition announce_mode :: "nat \<Rightarrow> compositor \<Rightarrow> compositor" where
  "announce_mode i c =
     (let fs = bt_insert canon_NAME (VText (''Mode F'' @ show_nat (i + 1))) (bt_insert canon_MODE_INDEX (VI64 (of_nat i))
            (bt_insert canon_KIND (VSymbol canon_MODE) []))
      in tell (mode_node_id i) canon_MODE (if i = 0 then bt_insert canon_MODE_PLACE (VUuid sky_place_id) fs else fs) c)"

definition sky_layer :: layer_state where
  "sky_layer = \<lparr>ly_id = 0x10000, ly_kind = LayerImage ''clouds.bmp'', ly_scroll_x = 1 / 2, ly_scroll_y = 1 / 2, ly_z_index = 0\<rparr>"

definition compositor_new :: "wm_env \<Rightarrow> bitmap \<Rightarrow> cursor_sprites \<Rightarrow> compositor" where
  "compositor_new e background sprites =
     (let state = simple_uuid (as_bytes ''CompositorState''); mode = simple_uuid (as_bytes ''CurrentMode'');
          c = \<lparr>co_windows = [], co_active_window = None, co_active_mode = 0, co_active_place = None,
            co_modes = map (\<lambda>i. mode_slot_new (of_nat i)) [0..<12], co_cursor = cursor_state_new (en_width e) (en_height e),
            co_sprites = sprites, co_drag = None, co_alt = False, co_shift = False, co_widgets = [], co_active_widget = None,
            co_wallpapers = [(0x10001, \<lparr>wp_id = 0x10001, wp_mode_node = None, wp_place_id = Some sky_place_id, wp_layers = [0x10000]\<rparr>)],
            co_layers = [(0x10000, sky_layer)], co_bitmaps = [(''clouds.bmp'', background)], co_title_bar_height = 32, co_fb_id = None,
            co_fb_dirty = False, co_content_dirty = True, co_auto_done = False, co_debug_layout = True, co_debug_overlay = False,
            co_cursor_prev = None, co_frame_no = 0, co_state_node = state, co_mode_node = mode, co_uuid_counter = 0x10002, co_out = []\<rparr>
      in fold announce_mode [0..<12]
           (tell mode canon_CURRENT_MODE (bt_insert canon_MODE_INDEX (VI64 0) [(canon_KIND, VSymbol canon_CURRENT_MODE)])
             (tell state canon_COMPOSITOR [(canon_NAME, VText ''CompositorState'')] c)))"

definition init_wallpaper :: "nat \<Rightarrow> compositor \<Rightarrow> compositor" where
  "init_wallpaper i c =
     (let n = show_nat (i + 1); wp = simple_uuid (as_bytes (''WallpaperF'' @ n));
          c1 = tell wp canon_WALLPAPER (bt_insert canon_MODE (VUuid (mode_node_id i)) [(canon_KIND, VSymbol canon_WALLPAPER)]) c;
          c2 = (if i = 0 then tell sky_place_id canon_PLACE [(canon_APP, VText ''graph_viewer'')] c1 else c1);
          base = (\<lambda>k. bt_insert canon_INDEX (VI64 k) (bt_insert canon_WALLPAPER (VUuid wp) [(canon_KIND, VSymbol canon_LAYER)]));
          f0 = bt_insert canon_COLOR (VU64 0xFF87CEEB) (bt_insert canon_TYPE (VSymbol canon_SOLID_COLOR) (base 0));
          f1 = bt_insert canon_SCROLL_Y (VI64 100) (bt_insert canon_SCROLL_X (VI64 500)
            (bt_insert canon_IMAGE (VText ''clouds.bmp'') (bt_insert canon_TYPE (VSymbol canon_IMAGE) (base 1))))
      in tell (simple_uuid (as_bytes (''LayerF'' @ n @ ''_1''))) canon_LAYER f1
           (tell (simple_uuid (as_bytes (''LayerF'' @ n @ ''_0''))) canon_LAYER f0 c2))"

definition init_wallpapers :: "compositor \<Rightarrow> compositor" where
  "init_wallpapers c = fold init_wallpaper [0..<12] c"

definition ensure_default_style :: "wm_env \<Rightarrow> graph_thing list \<Rightarrow> compositor \<Rightarrow> compositor" where
  "ensure_default_style e nodes c =
     (if nodes = []
      then snd (user_fiat e None canon_STYLE
        (bt_insert canon_WIDTH (VI64 6) (bt_insert canon_HEIGHT (VU64 32) [(canon_KIND, VSymbol canon_STYLE)])) c)
      else c)"

text \<open>The windows that are the root of the current place fill the screen.\<close>

definition fills_screen :: "wm_env \<Rightarrow> window \<Rightarrow> bool" where
  "fills_screen e w \<longleftrightarrow> win_x w = 0 \<and> win_y w = 0 \<and> win_width w = of_nat (en_width e) \<and> win_height w = of_nat (en_height e)"

definition enforce_root :: "wm_env \<Rightarrow> uuid \<Rightarrow> uuid \<times> window_surface \<Rightarrow> compositor \<Rightarrow> compositor" where
  "enforce_root e place p c =
     (case p of (i, s) \<Rightarrow>
        if win_is_place_root (ws_window s) \<and> win_place_id (ws_window s) = Some place \<and> \<not> fills_screen e (ws_window s)
        then (tell (win_id (ws_window s)) canon_WINDOW (rect_props 0 0 (of_nat (en_width e)) (of_nat (en_height e)))
               (with_window i (map_window (place_window 0 0 (of_nat (en_width e)) (of_nat (en_height e)))) c))\<lparr>co_content_dirty := True\<rparr>
        else c)"

definition enforce_place_layout :: "wm_env \<Rightarrow> compositor \<Rightarrow> compositor" where
  "enforce_place_layout e c =
     (case co_active_place c of None \<Rightarrow> c | Some place \<Rightarrow> fold (enforce_root e place) (co_windows c) c)"

definition ingest_style :: "wm_env \<Rightarrow> graph_thing \<Rightarrow> compositor \<Rightarrow> compositor" where
  "ingest_style e t c =
     (let c1 = (case field as_u64 (thing_fields t) canon_HEIGHT of Some h \<Rightarrow> c\<lparr>co_title_bar_height := unat h\<rparr> | None \<Rightarrow> c)
      in enforce_place_layout e (c1\<lparr>co_content_dirty := True\<rparr>))"

fun ingest_surfaces :: "wm_env \<Rightarrow> graph_thing list \<Rightarrow> compositor \<Rightarrow> compositor option" where
  "ingest_surfaces e [] c = Some c"
| "ingest_surfaces e (t # ts) c = Option.bind (ingest_surface e t c) (ingest_surfaces e ts)"

text \<open>What is in the graph at the start, by label, is taken in before the first event.\<close>

definition init_with_watches :: "wm_env \<Rightarrow> bitmap \<Rightarrow> cursor_sprites \<Rightarrow> (symbol \<Rightarrow> graph_thing list) \<Rightarrow> compositor option" where
  "init_with_watches e background sprites nodes =
     (let c0 = ensure_default_style e (nodes canon_STYLE) (init_wallpapers (compositor_new e background sprites));
          c1 = fold (\<lambda>t c. c\<lparr>co_wallpapers := ingest_wallpaper t (co_wallpapers c)\<rparr>) (nodes canon_WALLPAPER) c0;
          c2 = fold (\<lambda>t c. case ingest_layer t (co_wallpapers c, co_layers c) of (ws, ls) \<Rightarrow> c\<lparr>co_wallpapers := ws, co_layers := ls\<rparr>)
            (nodes canon_LAYER) c1;
          c3 = fold (ingest_style e) (nodes canon_STYLE) c2;
          c4 = fold (\<lambda>t c. case window_load t of Some w \<Rightarrow> ingest_window e w c | None \<Rightarrow> c) (nodes canon_WINDOW) c3
      in map_option (\<lambda>c5.
           let c6 = fold ingest_widget_event (nodes canon_WIDGET) c5;
               c7 = (case nodes canon_CURSOR of t # _ \<Rightarrow> ingest_cursor e t c6 | [] \<Rightarrow> c6)
           in fold ingest_mode_def (nodes canon_MODE) c7) (ingest_surfaces e (nodes canon_SURFACE) c4))"

text \<open>The geometry of the screen has changed.\<close>

definition compositor_resize :: "nat \<Rightarrow> nat \<Rightarrow> compositor \<Rightarrow> compositor" where
  "compositor_resize width height c =
     c\<lparr>co_cursor := (co_cursor c)\<lparr>cu_x := clamp_i32 (cu_x (co_cursor c)) 0 (i32 (int (width - 1))),
          cu_y := clamp_i32 (cu_y (co_cursor c)) 0 (i32 (int (height - 1)))\<rparr>, co_content_dirty := True\<rparr>"

section \<open>Scrollbar widgets\<close>

definition scrollbar_fields :: "content_metrics \<Rightarrow> gmap \<Rightarrow> gmap" where
  "scrollbar_fields m fs =
     (let r = scrollbar_rect m
      in bt_insert canon_THUMB_HEIGHT (VI64 (of_nat (case cm_thumb_rect m of Some t \<Rightarrow> rheight t | None \<Rightarrow> 0)))
        (bt_insert canon_THUMB_OFFSET (VI64 (word_of_int (unwrap_or 0 (cm_thumb_offset m))))
        (bt_insert canon_MAX_SCROLL (VI64 (word_of_int (cm_max_scroll m)))
        (bt_insert canon_SCROLL_Y (VI64 (word_of_int (cm_scroll_offset m)))
        (bt_insert canon_CONTENT_HEIGHT (VI64 (word_of_int (cm_content_height m)))
        (bt_insert canon_VIEWPORT_HEIGHT (VI64 (word_of_int (cm_viewport_height m)))
        (bt_insert canon_HEIGHT (VU64 (of_nat (rheight r)))
        (bt_insert canon_WIDTH (VU64 (of_nat (rwidth r)))
        (bt_insert canon_Y (VU64 (word_of_int (ry r)))
        (bt_insert canon_X (VU64 (word_of_int (rx r))) fs))))))))))"

definition ensure_scrollbar :: "wm_env \<Rightarrow> uuid \<Rightarrow> content_metrics \<Rightarrow> compositor \<Rightarrow> compositor" where
  "ensure_scrollbar e i m c =
     (let bar = Option.bind (bt_get (co_windows c) i) ws_scrollbar_widget_id
      in if cm_viewport_height m < cm_content_height m
         then case bar of
             Some b \<Rightarrow> tell b canon_WIDGET (scrollbar_fields m []) c
           | None \<Rightarrow>
               (case user_fiat e None canon_WIDGET (scrollbar_fields m (bt_insert canon_PARENT (VUuid i)
                   (bt_insert (cc (CHR ''W'') (CHR ''K'')) (VText ''scrollbar_thumb'') [(canon_KIND, VSymbol canon_WIDGET)]))) c of
                  (b, c1) \<Rightarrow> with_window i (\<lambda>s. s\<lparr>ws_scrollbar_widget_id := Some b\<rparr>) c1)
         else case bar of
             Some b \<Rightarrow> tell b canon_WIDGET (bt_insert canon_HEIGHT (VU64 0) [(canon_WIDTH, VU64 0)]) c
           | None \<Rightarrow> c)"

definition update_scrollbar :: "wm_env \<Rightarrow> uuid \<Rightarrow> compositor \<Rightarrow> compositor" where
  "update_scrollbar e i c =
     (case content_metrics_for_window e i c of Some (_, m) \<Rightarrow> ensure_scrollbar e i m c | None \<Rightarrow> c)"

definition update_scrollbars :: "wm_env \<Rightarrow> compositor \<Rightarrow> compositor" where
  "update_scrollbars e c = fold (update_scrollbar e) (map fst (co_windows c)) c"

definition get_cursor_rect :: "compositor \<Rightarrow> rect option" where
  "get_cursor_rect c =
     (if \<not> cu_visible (co_cursor c) then None
      else let icon = for_kind (co_sprites c) (cu_kind (co_cursor c))
           in Some (rect_new (i32 (cu_x (co_cursor c) - fst (ic_hotspot icon))) (i32 (cu_y (co_cursor c) - snd (ic_hotspot icon)))
                (as_u32 (int (bm_width (ic_bitmap icon)))) (as_u32 (int (bm_height (ic_bitmap icon))))))"

end
