(* ===== verification/Window_Drawing.thy ===== *)
theory Window_Drawing
  imports Window_Frames
begin

text \<open>
  The scene of the compositor and its tick (\<open>src/compositor/src/compositor.rs\<close>). A \<open>painter\<close> gives the items
  the widgets of a window and its title bar push; everything else is written out.
\<close>

record painter =
  pa_widgets :: "compositor \<Rightarrow> uuid \<Rightarrow> window_layout \<Rightarrow> int \<Rightarrow> uuid option \<Rightarrow> scene_item list"
  pa_title_bar :: "compositor \<Rightarrow> uuid \<Rightarrow> uuid \<Rightarrow> window_layout \<Rightarrow> scene_item list"

definition push_items :: "scene_item list \<Rightarrow> scene \<Rightarrow> scene" where
  "push_items items sc = fold scene_push items sc"

section \<open>Colours\<close>

definition frame_outer :: rgba where "frame_outer = rgba_new 0xff 0x5A 0x6A 0x8A"
definition frame_hilight :: rgba where "frame_hilight = rgba_new 0xff 0xFF 0xFF 0xFF"
definition frame_shadow :: rgba where "frame_shadow = rgba_new 0xff 0x9A 0xA7 0xC5"
definition title_active :: rgba where "title_active = rgba_new 0xff 0x6C 0x9A 0xFF"
definition title_inactive :: rgba where "title_inactive = rgba_new 0xff 0xE3 0xEA 0xF8"
definition client_bg :: rgba where "client_bg = rgba_new 0xff 0xFD 0xFB 0xF7"
definition COLOR_TEXT :: rgba where "COLOR_TEXT = rgba_new 0xff 0x10 0x1F 0x3F"
definition SCROLLBAR_TRACK_COLOR :: rgba where "SCROLLBAR_TRACK_COLOR = rgba_from_u32 0xFFE2E6F0"
definition SCROLLBAR_THUMB_COLOR :: rgba where "SCROLLBAR_THUMB_COLOR = rgba_from_u32 0xFF7C8BAB"
definition SCROLLBAR_THUMB_HILIGHT :: rgba where "SCROLLBAR_THUMB_HILIGHT = rgba_from_u32 0xFFF5F7FB"
definition SCROLLBAR_THUMB_SHADOW :: rgba where "SCROLLBAR_THUMB_SHADOW = rgba_from_u32 0xFF4A546A"

section \<open>Background\<close>

definition active_wallpaper :: "compositor \<Rightarrow> wallpaper_state option" where
  "active_wallpaper c =
     (let ws = map snd (co_wallpapers c)
      in case Option.bind (ms_place_id (active_slot c)) (\<lambda>p. find (\<lambda>w. wp_place_id w = Some p) ws) of
           Some w \<Rightarrow> Some w
         | None \<Rightarrow> find (\<lambda>w. wp_mode_node w = Some (mode_node_id (co_active_mode c))) ws)"

definition draw_background :: "nat \<Rightarrow> nat \<Rightarrow> compositor \<Rightarrow> scene \<Rightarrow> scene" where
  "draw_background width height c sc =
     (let screen = rect_new 0 0 (as_u32 (int width)) (as_u32 (int height)); frame = f64_round (of_nat (unat (co_frame_no c)))
      in case active_wallpaper c of
           Some w \<Rightarrow> build_wallpaper_scene sc screen w (co_layers c) (co_bitmaps c) (frame, frame)
         | None \<Rightarrow> scene_push (FillRect screen CLEAR_COLOR) sc)"

section \<open>Windows\<close>

definition has_widgets :: "uuid \<Rightarrow> compositor \<Rightarrow> bool" where
  "has_widgets i c \<longleftrightarrow> list_ex (\<lambda>(_, w). wd_parent w = Some i) (co_widgets c)"

definition root_content :: "rect \<Rightarrow> window_surface \<Rightarrow> scene_item list" where
  "root_content r s =
     (case ws_bitmap s of
        Some bm \<Rightarrow> [BlitImage r bm (ws_repeat s) (0, 0)]
      | None \<Rightarrow> if ws_text s = [] then []
          else [DrawTextBlock r (chars (ws_text s)) (unwrap_or COLOR_TEXT (map_option rgba_from_u32 (ws_text_color s))) (ws_scroll_y s) (ws_is_mono s)])"

definition draw_root_window :: "painter \<Rightarrow> nat \<Rightarrow> nat \<Rightarrow> compositor \<Rightarrow> window_surface \<Rightarrow> scene_item list" where
  "draw_root_window p width height c s =
     (let r = rect_new 0 0 (as_u32 (int width)) (as_u32 (int height)); i = win_id (ws_window s);
          l = \<lparr>lay_title_x = 0, lay_title_y = 0, lay_title_w = 0, lay_title_h = 0, lay_client_x = 0, lay_client_y = 0,
               lay_client_w = i32 (int width), lay_client_h = i32 (int height)\<rparr>
      in ClipPush r # FillRect r (unwrap_or client_bg (map_option rgba_from_u32 (ws_bg_color s))) # root_content r s @
         (if has_widgets i c then pa_widgets p c i l (lay_client_w l) None else []) @ [ClipPop])"

definition shadow_item :: "int \<Rightarrow> int \<Rightarrow> nat \<Rightarrow> nat \<Rightarrow> int \<times> u8 \<Rightarrow> scene_item" where
  "shadow_item x y w h layer =
     (case layer of (d, alpha) \<Rightarrow>
        FillRect (rect_new (i32 (i32 (x + 4) - d)) (i32 (i32 (y + 4) - d)) (as_u32 (int w + 2 * d)) (as_u32 (int h + 2 * d))) (rgba_new alpha 0 0 0))"

definition shadow_items :: "int \<Rightarrow> int \<Rightarrow> nat \<Rightarrow> nat \<Rightarrow> scene_item list" where
  "shadow_items x y w h = map (shadow_item x y w h) [(0, 0x40), (1, 0x20), (2, 0x10), (3, 0x08)]"

text \<open>The frame is two pixels wide: an outer line and a bevel.\<close>

definition frame_items :: "bool \<Rightarrow> int \<Rightarrow> int \<Rightarrow> nat \<Rightarrow> nat \<Rightarrow> window_layout \<Rightarrow> scene_item list" where
  "frame_items is_active x y w h l =
     (let inner_x = i32 (x + 1); inner_y = i32 (y + 1); inner_w = i32 (i32 (int w) - 2); inner_h = i32 (i32 (int h) - 2);
          fill = (if is_active then title_active else title_inactive)
      in [FillRect (rect_new x y (as_u32 (int w)) (as_u32 (int h))) frame_outer,
          FillRect (rect_new inner_x inner_y (as_u32 inner_w) 1) frame_hilight,
          FillRect (rect_new inner_x inner_y 1 (as_u32 inner_h)) frame_hilight,
          FillRect (rect_new (i32 (i32 (inner_x + inner_w) - 1)) inner_y 1 (as_u32 inner_h)) frame_shadow,
          FillRect (rect_new inner_x (i32 (i32 (inner_y + inner_h) - 1)) (as_u32 inner_w) 1) frame_shadow,
          FillRect (rect_new (i32 (inner_x + 1)) (i32 (inner_y + 1)) (as_u32 (i32 (inner_w - 2))) (as_u32 (i32 (inner_h - 2)))) fill,
          FillRect (rect_new (lay_title_x l) (lay_title_y l) (as_u32 (lay_title_w l)) (as_u32 (lay_title_h l))) fill,
          FillRect (rect_new (lay_title_x l) (i32 (i32 (lay_title_y l + lay_title_h l) - 1)) (as_u32 (lay_title_w l)) 1) frame_shadow])"

definition caret_items :: "bool \<Rightarrow> rect \<Rightarrow> window_surface \<Rightarrow> scene_item list" where
  "caret_items is_active r s =
     (let k = ws_caret s; cx = i32 (rx r + car_x k); cy = i32 (i32 (ry r + car_y k) - ws_scroll_y s)
      in if is_active \<and> car_visible k \<and> ry r \<le> i32 (cy + car_height k) \<and> cy < i32 (ry r + i32 (int (rheight r)))
         then [FillRect (rect_new cx cy (as_u32 (car_width k)) (as_u32 (car_height k))) COLOR_TEXT] else [])"

definition content_items :: "bool \<Rightarrow> rect \<Rightarrow> window_surface \<Rightarrow> scene_item list" where
  "content_items is_active r s =
     (if rwidth r = 0 \<or> rheight r = 0 then []
      else case ws_bitmap s of
        Some bm \<Rightarrow> [BlitImage r bm False (0, 0)]
      | None \<Rightarrow> if ws_text s = [] then []
          else (case ws_bg_color s of Some v \<Rightarrow> [FillRect r (rgba_from_u32 v)] | None \<Rightarrow> []) @
            [DrawTextBlock r (chars (ws_text s)) (unwrap_or COLOR_TEXT (map_option rgba_from_u32 (ws_text_color s))) (ws_scroll_y s) (ws_is_mono s)] @
            caret_items is_active r s)"

definition draw_scrollbar_overlay :: "uuid \<Rightarrow> content_metrics \<Rightarrow> compositor \<Rightarrow> scene_item list" where
  "draw_scrollbar_overlay i m c =
     (case cm_track_rect m of None \<Rightarrow> []
      | Some track \<Rightarrow> FillRect track SCROLLBAR_TRACK_COLOR #
          (case cm_thumb_rect m of None \<Rightarrow> []
           | Some t \<Rightarrow>
               let dragging = (case co_drag c of
                     Some d \<Rightarrow> (case ds_kind d of DragScrollThumb _ _ _ _ _ \<Rightarrow> ds_window_id d = i | _ \<Rightarrow> False) | None \<Rightarrow> False)
               in FillRect t (if dragging then SCROLLBAR_THUMB_HILIGHT else SCROLLBAR_THUMB_COLOR) #
                  (if 1 < rheight t
                   then [FillRect (rect_new (rx t) (ry t) (rwidth t) 1) SCROLLBAR_THUMB_HILIGHT,
                         FillRect (rect_new (rx t) (i32 (i32 (ry t + i32 (int (rheight t))) - 1)) (rwidth t) 1) SCROLLBAR_THUMB_SHADOW]
                   else [])))"

definition draw_window :: "painter \<Rightarrow> wm_env \<Rightarrow> nat \<Rightarrow> nat \<Rightarrow> compositor \<Rightarrow> window_surface \<Rightarrow> scene_item list" where
  "draw_window p e width height c s =
     (let win = ws_window s; w = unat (win_width win); h = unat (win_height win)
      in if w = 0 \<or> h = 0 then []
         else let x = i32 (int (min (unat (win_x win)) width)); y = i32 (int (min (unat (win_y win)) height));
                  is_active = (win_active win \<or> co_active_window c = Some (win_id win))
              in shadow_items x y (as_u32 (int w)) (as_u32 (int h)) @
                 (case compute_window_layout x y (i32 (int w)) (i32 (int h)) (i32 (int (co_title_bar_height c))) of
                    None \<Rightarrow> []
                  | Some l \<Rightarrow>
                      let m = content_metrics_new (en_fonts e) s l
                      in ClipPush (rect_new x y (as_u32 (int w)) (as_u32 (int h))) # frame_items is_active x y w h l @
                         (case ws_title_bar_id s of Some t \<Rightarrow> pa_title_bar p c (win_id win) t l | None \<Rightarrow> []) @
                         (if has_widgets (win_id win) c then pa_widgets p c (win_id win) l (lay_client_w l) (ws_title_bar_id s)
                          else content_items is_active (cm_content_rect m) s) @
                         draw_scrollbar_overlay (win_id win) m c @ [ClipPop]))"

definition draw_mode :: "painter \<Rightarrow> wm_env \<Rightarrow> nat \<Rightarrow> nat \<Rightarrow> compositor \<Rightarrow> scene \<Rightarrow> scene" where
  "draw_mode p e width height c sc =
     (let m = active_slot c;
          root_items = (case Option.bind (ms_root_window m) (bt_get (co_windows c)) of
            Some s \<Rightarrow> draw_root_window p width height c s | None \<Rightarrow> []);
          items = concat (map (\<lambda>i. case bt_get (co_windows c) i of Some s \<Rightarrow> draw_window p e width height c s | None \<Rightarrow> []) (ms_windows m))
      in push_items (root_items @ items) (draw_background width height c sc))"

definition draw_cursor :: "nat \<Rightarrow> nat \<Rightarrow> compositor \<Rightarrow> scene \<Rightarrow> scene" where
  "draw_cursor width height c sc =
     (if \<not> cu_visible (co_cursor c) then sc
      else let icon = for_kind (co_sprites c) (cu_kind (co_cursor c))
           in scene_push (DrawCursor (clamp_i32 (cu_x (co_cursor c)) 0 (i32 (int (width - 1))), clamp_i32 (cu_y (co_cursor c)) 0 (i32 (int (height - 1))))
                (ic_bitmap icon) (ic_hotspot icon)) sc)"

section \<open>The tick\<close>

definition publish_frame_info :: "wm_env \<Rightarrow> compositor \<Rightarrow> compositor" where
  "publish_frame_info e c =
     (case co_fb_id c of None \<Rightarrow> c
      | Some fb \<Rightarrow> (case en_frame_info e of None \<Rightarrow> c
        | Some info \<Rightarrow>
            let fs = bt_insert canon_BPP (VU64 (fi_bpp info)) (bt_insert canon_PITCH (VU64 (fi_pitch info))
                  (bt_insert canon_HEIGHT (VU64 (fi_height info)) (bt_insert canon_WIDTH (VU64 (fi_width info))
                  (bt_insert canon_ADDR (VU64 (fi_addr info)) (bt_insert canon_SEQ (VU64 (co_frame_no c))
                  [(canon_KIND, VSymbol canon_DISPLAY_FRAME)])))))
            in (case user_fiat e None canon_DISPLAY_FRAME fs c of
                  (frame, c1) \<Rightarrow> send (OutReq (ReqLink None fb (symbol_into_string canon_CURRENT_FRAME) frame [])) c1)))"

datatype frame_update = NoFrame | FullFrame scene | PartialFrame scene rect

definition dirty_rect :: "rect option \<Rightarrow> rect option \<Rightarrow> rect" where
  "dirty_rect prev new =
     (case prev of
        Some q \<Rightarrow> (case new of Some r \<Rightarrow> rect_union q r | None \<Rightarrow> q)
      | None \<Rightarrow> unwrap_or (rect_new 0 0 0 0) new)"

definition prepare_frame :: "wm_env \<Rightarrow> compositor \<Rightarrow> compositor" where
  "prepare_frame e c = update_scrollbars e (update_cursor_kind (ensure_active_window (enforce_place_layout e c)))"

definition build_scene :: "painter \<Rightarrow> wm_env \<Rightarrow> compositor \<Rightarrow> scene" where
  "build_scene p e c =
     (let width = en_width e; height = en_height e
      in draw_cursor width height c (draw_mode p e width height c
           (scene_push (SClear CLEAR_COLOR) (scene_new (as_u32 (int width)) (as_u32 (int height))))))"

definition tick :: "painter \<Rightarrow> wm_env \<Rightarrow> compositor \<Rightarrow> frame_update \<times> compositor" where
  "tick p e c0 =
     (if en_width e = 0 \<or> en_height e = 0 then (NoFrame, c0)
      else let c = prepare_frame e c0; new = get_cursor_rect c
           in if \<not> co_fb_dirty c \<and> \<not> co_content_dirty c \<and> new = co_cursor_prev c then (NoFrame, c)
              else let sc = build_scene p e c;
                       r = (if co_fb_dirty c \<or> co_content_dirty c then (FullFrame sc, c\<lparr>co_content_dirty := False\<rparr>)
                            else (PartialFrame sc (dirty_rect (co_cursor_prev c) new), c))
                   in (fst r, (publish_frame_info e ((snd r)\<lparr>co_cursor_prev := new\<rparr>))\<lparr>co_frame_no := co_frame_no c + 1\<rparr>))"

end
