(* ===== verification/Window_Invariants.thy ===== *)
theory Window_Invariants
  imports Window_Drawing "HOL-Library.Multiset"
begin

text \<open>
  What stays true of the window manager from its start through every event and tick: each window is listed in
  at most one mode and at most once, everything listed, active or dragged exists, and the pointer is on the
  screen.
\<close>

section \<open>The invariant\<close>

definition window_keys :: "compositor \<Rightarrow> uuid set" where
  "window_keys c = fst ` set (co_windows c)"

definition slot_members :: "mode_slot \<Rightarrow> uuid list" where
  "slot_members m = (case ms_root_window m of Some r \<Rightarrow> [r] | None \<Rightarrow> []) @ ms_windows m"

definition mode_members :: "mode_slot list \<Rightarrow> uuid list" where
  "mode_members ms = concat (map slot_members ms)"

definition windows_ok :: "(uuid, window_surface) btree \<Rightarrow> bool" where
  "windows_ok ws \<longleftrightarrow> sorted_map ws \<and> (\<forall>(k, s) \<in> set ws. win_id (ws_window s) = k)"

definition pointer_ok :: "nat \<Rightarrow> nat \<Rightarrow> cursor_state \<Rightarrow> bool" where
  "pointer_ok width height k \<longleftrightarrow> 0 \<le> cu_x k \<and> cu_x k < int width \<and> 0 \<le> cu_y k \<and> cu_y k < int height"

definition wm_ok :: "nat \<Rightarrow> nat \<Rightarrow> compositor \<Rightarrow> bool" where
  "wm_ok width height c \<longleftrightarrow>
     length (co_modes c) = 12 \<and> co_active_mode c < 12 \<and> distinct (mode_members (co_modes c)) \<and>
     set (mode_members (co_modes c)) \<subseteq> window_keys c \<and> windows_ok (co_windows c) \<and>
     set_option (co_active_window c) \<subseteq> window_keys c \<and> ds_window_id ` set_option (co_drag c) \<subseteq> window_keys c \<and>
     widgets_ok (co_widgets c) \<and> wallpapers_ok (co_wallpapers c) \<and> pointer_ok width height (co_cursor c)"

text \<open>The kernel answers a request for a thing with that thing; the screen keeps its size.\<close>

definition env_ok :: "nat \<Rightarrow> nat \<Rightarrow> wm_env \<Rightarrow> bool" where
  "env_ok width height e \<longleftrightarrow> en_width e = width \<and> en_height e = height \<and>
     (\<forall>i t. en_get_thing e i = Some t \<longrightarrow> thing_id t = i)"

section \<open>Requests and flags\<close>

lemma wm_ok_flags [simp]:
  "wm_ok w h (c\<lparr>co_content_dirty := b\<rparr>) = wm_ok w h c" "wm_ok w h (c\<lparr>co_fb_dirty := b\<rparr>) = wm_ok w h c"
  "wm_ok w h (c\<lparr>co_out := os\<rparr>) = wm_ok w h c" "wm_ok w h (c\<lparr>co_active_widget := aw\<rparr>) = wm_ok w h c"
  "wm_ok w h (c\<lparr>co_alt := b\<rparr>) = wm_ok w h c" "wm_ok w h (c\<lparr>co_shift := b\<rparr>) = wm_ok w h c"
  "wm_ok w h (c\<lparr>co_debug_layout := b\<rparr>) = wm_ok w h c" "wm_ok w h (c\<lparr>co_debug_overlay := b\<rparr>) = wm_ok w h c"
  "wm_ok w h (c\<lparr>co_auto_done := b\<rparr>) = wm_ok w h c" "wm_ok w h (c\<lparr>co_fb_id := f\<rparr>) = wm_ok w h c"
  "wm_ok w h (c\<lparr>co_active_place := p\<rparr>) = wm_ok w h c" "wm_ok w h (c\<lparr>co_uuid_counter := n\<rparr>) = wm_ok w h c"
  "wm_ok w h (c\<lparr>co_layers := ls\<rparr>) = wm_ok w h c" "wm_ok w h (c\<lparr>co_title_bar_height := th\<rparr>) = wm_ok w h c"
  "wm_ok w h (c\<lparr>co_cursor_prev := r\<rparr>) = wm_ok w h c" "wm_ok w h (c\<lparr>co_frame_no := f'\<rparr>) = wm_ok w h c"
  by (simp_all add: wm_ok_def window_keys_def)

lemma window_keys_flags [simp]:
  "window_keys (c\<lparr>co_active_window := a\<rparr>) = window_keys c" "window_keys (c\<lparr>co_drag := d\<rparr>) = window_keys c"
  "window_keys (c\<lparr>co_modes := ms\<rparr>) = window_keys c" "window_keys (c\<lparr>co_cursor := k\<rparr>) = window_keys c"
  "window_keys (c\<lparr>co_content_dirty := b\<rparr>) = window_keys c" "window_keys (c\<lparr>co_active_widget := aw\<rparr>) = window_keys c"
  by (simp_all add: window_keys_def)

lemma send_simps [simp]:
  "co_windows (send r c) = co_windows c" "co_modes (send r c) = co_modes c" "co_active_mode (send r c) = co_active_mode c"
  "co_active_window (send r c) = co_active_window c" "co_widgets (send r c) = co_widgets c" "co_cursor (send r c) = co_cursor c"
  "co_drag (send r c) = co_drag c" "co_title_bar_height (send r c) = co_title_bar_height c" "wm_ok w h (send r c) = wm_ok w h c"
  "window_keys (send r c) = window_keys c" "co_active_widget (send r c) = co_active_widget c"
  by (simp_all add: send_def window_keys_def)

lemma tell_simps [simp]:
  "co_windows (tell i k fs c) = co_windows c" "co_modes (tell i k fs c) = co_modes c" "co_active_mode (tell i k fs c) = co_active_mode c"
  "co_active_window (tell i k fs c) = co_active_window c" "co_widgets (tell i k fs c) = co_widgets c" "co_cursor (tell i k fs c) = co_cursor c"
  "co_drag (tell i k fs c) = co_drag c" "co_title_bar_height (tell i k fs c) = co_title_bar_height c" "wm_ok w h (tell i k fs c) = wm_ok w h c"
  "window_keys (tell i k fs c) = window_keys c" "co_active_widget (tell i k fs c) = co_active_widget c"
  by (simp_all add: tell_def)

lemma props_simps [simp]:
  "co_windows (update_window_props i fs c) = co_windows c" "co_modes (update_window_props i fs c) = co_modes c"
  "co_active_mode (update_window_props i fs c) = co_active_mode c" "co_active_window (update_window_props i fs c) = co_active_window c"
  "co_widgets (update_window_props i fs c) = co_widgets c" "co_cursor (update_window_props i fs c) = co_cursor c"
  "co_drag (update_window_props i fs c) = co_drag c" "co_title_bar_height (update_window_props i fs c) = co_title_bar_height c"
  "wm_ok w h (update_window_props i fs c) = wm_ok w h c" "window_keys (update_window_props i fs c) = window_keys c"
  "co_active_widget (update_window_props i fs c) = co_active_widget c"
  by (simp_all add: update_window_props_def)

lemma graph_state_simps [simp]:
  "co_windows (update_graph_state c) = co_windows c" "co_modes (update_graph_state c) = co_modes c"
  "co_active_mode (update_graph_state c) = co_active_mode c" "co_active_window (update_graph_state c) = co_active_window c"
  "co_widgets (update_graph_state c) = co_widgets c" "co_cursor (update_graph_state c) = co_cursor c"
  "co_drag (update_graph_state c) = co_drag c" "co_title_bar_height (update_graph_state c) = co_title_bar_height c"
  "wm_ok w h (update_graph_state c) = wm_ok w h c" "window_keys (update_graph_state c) = window_keys c"
  "co_active_widget (update_graph_state c) = co_active_widget c"
  by (simp_all add: update_graph_state_def)

section \<open>Windows\<close>

lemma with_window_simps [simp]:
  "co_modes (with_window i f c) = co_modes c" "co_active_mode (with_window i f c) = co_active_mode c"
  "co_active_window (with_window i f c) = co_active_window c" "co_widgets (with_window i f c) = co_widgets c"
  "co_cursor (with_window i f c) = co_cursor c" "co_drag (with_window i f c) = co_drag c"
  "co_title_bar_height (with_window i f c) = co_title_bar_height c" "co_active_widget (with_window i f c) = co_active_widget c"
  "co_wallpapers (with_window i f c) = co_wallpapers c"
  by (simp_all add: with_window_def split: option.split)

lemma with_window_get: "bt_get (co_windows (with_window i f c)) j = (if j = i then map_option f (bt_get (co_windows c) i) else bt_get (co_windows c) j)"
  by (simp add: with_window_def split: option.split)

lemma bt_get_key: "bt_get m i = Some v \<Longrightarrow> i \<in> fst ` set m"
  by (force dest: map_of_SomeD)

lemma with_window_keys [simp]: "window_keys (with_window i f c) = window_keys c"
  by (auto simp: with_window_def window_keys_def dest: bt_get_key split: option.split)

lemma windows_ok_get: "windows_ok ws \<Longrightarrow> bt_get ws i = Some s \<Longrightarrow> win_id (ws_window s) = i"
  using map_of_SomeD by (fastforce simp: windows_ok_def)

lemma windows_ok_insert: "windows_ok ws \<Longrightarrow> win_id (ws_window s) = i \<Longrightarrow> windows_ok (bt_insert i s ws)"
  using set_bt_insert_subset [of i s ws] by (auto simp: windows_ok_def)

lemma map_window_id: "(\<And>w. win_id (g w) = win_id w) \<Longrightarrow> win_id (ws_window (map_window g s)) = win_id (ws_window s)"
  by (simp add: map_window_def)

lemma wm_ok_with_window:
  assumes "wm_ok w h c" "\<And>s. win_id (ws_window (f s)) = win_id (ws_window s)"
  shows "wm_ok w h (with_window i f c)"
proof -
  have "windows_ok (co_windows (with_window i f c))"
    using assms windows_ok_get [of "co_windows c" i]
    by (auto simp: wm_ok_def with_window_def windows_ok_insert split: option.split)
  then show ?thesis using assms(1) by (simp add: wm_ok_def window_keys_def [symmetric])
qed

lemma wm_ok_map_window:
  assumes "wm_ok w h c" "\<And>w. win_id (g w) = win_id w"
  shows "wm_ok w h (with_window i (map_window g) c)"
  using assms by (intro wm_ok_with_window) (simp_all add: map_window_def)

lemma clamp_scroll_ok [simp]: "wm_ok w h c \<Longrightarrow> wm_ok w h (clamp_scroll_for e i c)"
  by (auto simp: clamp_scroll_for_def intro: wm_ok_with_window split: option.split)

lemma set_scroll_ok [simp]: "wm_ok w h c \<Longrightarrow> wm_ok w h (snd (set_scroll_offset e i y c))"
  by (auto simp: set_scroll_offset_def Let_def intro: wm_ok_with_window split: option.split)

lemma scroll_by_ok [simp]: "wm_ok w h c \<Longrightarrow> wm_ok w h (snd (scroll_window_by e i d c))"
  by (auto simp: scroll_window_by_def split: option.split)

lemma scroll_key_ok [simp]: "wm_ok w h c \<Longrightarrow> wm_ok w h (snd (handle_scroll_key e key c))"
  by (auto simp: handle_scroll_key_def scroll_window_to_start_def scroll_window_to_end_def split: option.split)

lemma rect_hint_ok [simp]:
  assumes "wm_ok w h c"
  shows "wm_ok w h (apply_window_rect_hint e i c)"
proof -
  have "wm_ok w h (with_window i (\<lambda>s. s\<lparr>ws_caret := rect_caret (win_rect (ws_window s)) (ws_caret s)\<rparr>) c)"
    using assms by (intro wm_ok_with_window) simp_all
  then show ?thesis by (auto simp: apply_window_rect_hint_def Let_def intro: wm_ok_with_window split: option.split)
qed

section \<open>Modes\<close>

lemma mode_members_Cons [simp]: "mode_members (m # ms) = slot_members m @ mode_members ms"
  by (simp add: mode_members_def)

lemma length_bump_modes [simp]: "length (bump_modes i ms) = length ms"
  by (induction ms) simp_all

lemma mset_bump_modes: "mset (mode_members (bump_modes i ms)) = mset (mode_members ms)"
  by (induction ms) (auto simp: slot_members_def)

lemma bump_keeps_members: "distinct (mode_members (bump_modes i ms)) = distinct (mode_members ms)"
  "set (mode_members (bump_modes i ms)) = set (mode_members ms)"
  using mset_bump_modes [of i ms] by (metis mset_eq_imp_distinct_iff, metis mset_eq_setD)

lemma bump_window_simps [simp]:
  "co_windows (bump_window i c) = co_windows c" "co_modes (bump_window i c) = bump_modes i (co_modes c)"
  "co_active_mode (bump_window i c) = co_active_mode c" "co_active_window (bump_window i c) = co_active_window c"
  "window_keys (bump_window i c) = window_keys c" "co_cursor (bump_window i c) = co_cursor c" "co_widgets (bump_window i c) = co_widgets c"
  "co_title_bar_height (bump_window i c) = co_title_bar_height c" "co_drag (bump_window i c) = co_drag c"
  by (simp_all add: bump_window_def window_keys_def)

lemma bump_window_ok [simp]: "wm_ok w h (bump_window i c) = wm_ok w h c"
  by (simp add: bump_window_def) (simp add: wm_ok_def window_keys_def bump_keeps_members)

lemma wm_ok_active: "wm_ok w h c \<Longrightarrow> set_option a \<subseteq> window_keys c \<Longrightarrow> wm_ok w h (c\<lparr>co_active_window := a\<rparr>)"
  by (simp add: wm_ok_def window_keys_def)

lemma deactivate_simps [simp]:
  "co_modes (deactivate i c) = co_modes c" "co_active_mode (deactivate i c) = co_active_mode c" "window_keys (deactivate i c) = window_keys c"
  "co_cursor (deactivate i c) = co_cursor c" "co_widgets (deactivate i c) = co_widgets c" "co_title_bar_height (deactivate i c) = co_title_bar_height c"
  "co_drag (deactivate i c) = co_drag c"
  by (simp_all add: deactivate_def)

lemma deactivate_ok: "wm_ok w h c \<Longrightarrow> wm_ok w h (deactivate i c)"
  unfolding deactivate_def by (simp add: wm_ok_map_window)

text \<open>The state between the two halves of a change of the active window.\<close>

definition drop_active :: "compositor \<Rightarrow> compositor" where
  "drop_active c = (case co_active_window c of Some prev \<Rightarrow> deactivate prev (c\<lparr>co_active_window := None\<rparr>) | None \<Rightarrow> c)"

lemma drop_active_simps [simp]:
  "co_modes (drop_active c) = co_modes c" "co_active_mode (drop_active c) = co_active_mode c" "window_keys (drop_active c) = window_keys c"
  "co_cursor (drop_active c) = co_cursor c" "co_widgets (drop_active c) = co_widgets c" "co_title_bar_height (drop_active c) = co_title_bar_height c"
  "co_drag (drop_active c) = co_drag c"
  by (simp_all add: drop_active_def split: option.split)

lemma drop_active_ok: "wm_ok w h c \<Longrightarrow> wm_ok w h (drop_active c)"
  by (auto simp: drop_active_def deactivate_ok wm_ok_active split: option.split)

definition activate :: "uuid \<Rightarrow> compositor \<Rightarrow> compositor" where
  "activate i c =
     (let z = next_z (max_window_z c)
      in bump_window i ((update_window_props i (bt_insert canon_Z (VI64 z) [(canon_ACTIVE, VBool True)])
           (with_window i (map_window (\<lambda>w. w\<lparr>win_active := True, win_z := z\<rparr>)) c))\<lparr>co_active_window := Some i\<rparr>))"

lemma set_active_window_split:
  "set_active_window target c =
     (if co_active_window c = target then c
      else (case target of Some i \<Rightarrow> activate i (drop_active c) | None \<Rightarrow> update_graph_state ((drop_active c)\<lparr>co_active_window := None\<rparr>))
        \<lparr>co_content_dirty := True\<rparr>)"
  by (simp add: set_active_window_def drop_active_def activate_def Let_def split: option.split)

lemma activate_ok: "wm_ok w h c \<Longrightarrow> i \<in> window_keys c \<Longrightarrow> wm_ok w h (activate i c)"
  by (auto simp: activate_def Let_def intro!: wm_ok_active wm_ok_map_window)

lemma set_active_ok: "wm_ok w h c \<Longrightarrow> set_option target \<subseteq> window_keys c \<Longrightarrow> wm_ok w h (set_active_window target c)"
  by (auto simp: set_active_window_split drop_active_ok activate_ok wm_ok_active split: option.split)

lemma activate_simps [simp]:
  "window_keys (activate i c) = window_keys c" "co_cursor (activate i c) = co_cursor c" "co_widgets (activate i c) = co_widgets c"
  "co_title_bar_height (activate i c) = co_title_bar_height c" "co_drag (activate i c) = co_drag c"
  "co_active_window (activate i c) = Some i" "co_active_mode (activate i c) = co_active_mode c"
  by (simp_all add: activate_def Let_def)

lemma set_active_simps [simp]:
  "window_keys (set_active_window t c) = window_keys c" "co_cursor (set_active_window t c) = co_cursor c"
  "co_widgets (set_active_window t c) = co_widgets c" "co_title_bar_height (set_active_window t c) = co_title_bar_height c"
  "co_drag (set_active_window t c) = co_drag c" "co_active_window (set_active_window t c) = t"
  "co_active_mode (set_active_window t c) = co_active_mode c"
  by (auto simp: set_active_window_split split: option.split)

lemma fold_max_mem: "fold (\<lambda>y m. if f m \<le> f y then y else m) ys z \<in> insert z (set ys)" for f :: "'a \<Rightarrow> int"
proof (induction ys arbitrary: z)
  case (Cons y ys)
  show ?case using Cons [of "if f z \<le> f y then y else z"] by (auto split: if_splits)
qed simp

lemma max_by_key_mem: "max_by_key f xs = Some x \<Longrightarrow> x \<in> set xs"
  using fold_max_mem [of f "tl xs" "hd xs"] by (cases xs) auto

lemma ordered_keys: "set (ordered_window_ids c) \<subseteq> window_keys c"
  by (auto simp: ordered_window_ids_def window_visible_def window_keys_def dest: bt_get_key split: option.splits if_splits)

lemma last_opt_mem: "last_opt xs = Some x \<Longrightarrow> x \<in> set xs"
  by (cases xs rule: rev_cases) (simp_all add: last_opt_def)

lemma ensure_active_ok:
  assumes "wm_ok w h c"
  shows "wm_ok w h (ensure_active_window c)"
proof (cases "max_by_key (\<lambda>(_, s). sint (win_z (ws_window s))) (filter (\<lambda>(_, s). win_active (ws_window s) \<and> win_visible (ws_window s)) (co_windows c))")
  case None
  have "set_option (last_opt (ordered_window_ids c)) \<subseteq> window_keys c" using ordered_keys last_opt_mem by (fastforce simp: elem_set)
  then show ?thesis using assms None by (simp add: ensure_active_window_def set_active_ok)
next
  case (Some p)
  obtain i s where p: "p = (i, s)" by fastforce
  have "i \<in> window_keys c" using max_by_key_mem [OF Some] by (force simp: window_keys_def p)
  then show ?thesis using assms Some p by (simp add: ensure_active_window_def wm_ok_active)
qed

section \<open>The pointer\<close>

lemma find_in_Some:
  "find_in wins x y ids = Some (i, wx, wy) \<Longrightarrow>
   i \<in> set ids \<and> (\<exists>s. bt_get wins i = Some s \<and> win_visible (ws_window s) \<and> window_at s x y \<and>
     wx = u64_i32 (win_x (ws_window s)) \<and> wy = u64_i32 (win_y (ws_window s)))"
  by (induction wins x y ids rule: find_in.induct) (auto split: option.splits if_splits)

lemma find_window_key: "find_window_at c x y = Some (i, wx, wy) \<Longrightarrow> i \<in> window_keys c"
  using find_in_Some by (fastforce simp: find_window_at_def window_keys_def dest: bt_get_key)

lemma wm_ok_drag: "wm_ok w h c \<Longrightarrow> i \<in> window_keys c \<Longrightarrow> wm_ok w h (start_drag i k c)"
  by (simp add: wm_ok_def window_keys_def start_drag_def)

lemma wm_ok_no_drag [simp]: "wm_ok w h c \<Longrightarrow> wm_ok w h (c\<lparr>co_drag := None\<rparr>)"
  by (simp add: wm_ok_def window_keys_def)

lemma continue_drag_ok:
  assumes "wm_ok w h c"
  shows "wm_ok w h (continue_drag e c)"
  using assms unfolding continue_drag_def
  by (auto simp: Let_def place_window_def intro!: clamp_scroll_ok wm_ok_map_window split: option.split drag_kind.split prod.split)

lemma press_widget_ok [simp]: "wm_ok w h c \<Longrightarrow> wm_ok w h (press_widget i c)"
  by (simp add: press_widget_def Let_def split: option.split)

lemma press_scrollbar_ok: "wm_ok w h c \<Longrightarrow> i \<in> window_keys c \<Longrightarrow> press_scrollbar e i m c = Some c' \<Longrightarrow> wm_ok w h c'"
  by (auto simp: press_scrollbar_def Let_def wm_ok_drag split: option.splits if_splits)

lemma press_frame_ok: "wm_ok w h c \<Longrightarrow> i \<in> window_keys c \<Longrightarrow> wm_ok w h (press_frame i wx wy ww wh l c)"
  by (auto simp: press_frame_def Let_def wm_ok_drag split: option.split)

lemma pointer_down_ok:
  assumes "wm_ok w h c" "on_pointer_down e c = Some c'"
  shows "wm_ok w h c'"
proof (cases "find_window_at c (cu_x (co_cursor c)) (cu_y (co_cursor c))")
  case None
  then show ?thesis using assms by (auto simp: on_pointer_down_def set_active_ok)
next
  case (Some p)
  obtain i wx wy where p: "p = (i, wx, wy)" by (metis prod_cases3)
  have i: "i \<in> window_keys c" using find_window_key Some p by blast
  then have c1: "wm_ok w h (set_active_window (Some i) c)" using assms(1) by (simp add: set_active_ok)
  show ?thesis using assms(2) i c1 unfolding on_pointer_down_def Some p Let_def
    by (auto simp: press_frame_ok intro: press_scrollbar_ok [OF c1] split: option.splits)
qed

lemma widget_interaction_ok [simp]: "wm_ok w h c \<Longrightarrow> wm_ok w h (continue_widget_interaction c)"
  by (simp add: continue_widget_interaction_def split: option.split)

lemma dispatch_ok [simp]: "wm_ok w h (dispatch_action a i c) = wm_ok w h c"
  by (simp add: dispatch_action_def hide_window_def split: option.split)

lemma click_ok: "wm_ok w h c \<Longrightarrow> click_widget e i c = Some c' \<Longrightarrow> wm_ok w h c'"
  by (auto simp: click_widget_def split: option.splits if_splits)

lemma end_interaction_ok: "wm_ok w h c \<Longrightarrow> end_widget_interaction e c = Some c' \<Longrightarrow> wm_ok w h c'"
  by (auto simp: end_widget_interaction_def dest: click_ok [rotated] split: option.splits)

lemma close_up_ok [simp]: "wm_ok w h c \<Longrightarrow> wm_ok w h (on_close_button_up i c)"
  by (auto simp: on_close_button_up_def Let_def hide_window_def intro!: wm_ok_with_window split: option.split)

lemma release_drag_ok [simp]: "wm_ok w h c \<Longrightarrow> wm_ok w h (release_drag c)"
  by (auto simp: release_drag_def Let_def split: option.split)

lemma wm_ok_cursor: "wm_ok w h c \<Longrightarrow> pointer_ok w h k \<Longrightarrow> wm_ok w h (c\<lparr>co_cursor := k\<rparr>)"
  by (simp add: wm_ok_def window_keys_def)

lemma cursor_kind_ok [simp]: "wm_ok w h c \<Longrightarrow> wm_ok w h (update_cursor_kind c)"
  unfolding update_cursor_kind_def by (rule wm_ok_cursor) (simp_all add: wm_ok_def pointer_ok_def set_kind_def)

definition screen_ok :: "nat \<Rightarrow> nat \<Rightarrow> bool" where
  "screen_ok width height \<longleftrightarrow> 0 < width \<and> width < 2147483648 \<and> 0 < height \<and> height < 2147483648"

lemma mouse_ok:
  assumes "wm_ok w h c" "env_ok w h e" "screen_ok w h" "on_mouse_event e dx dy b c = Some c'"
  shows "wm_ok w h c'"
proof -
  have "wm_ok w h (c\<lparr>co_cursor := cursor_update dx dy (ucast b) (en_width e) (en_height e) (co_cursor c)\<rparr>)"
    using assms(1-3) cursor_update_on_screen [of w h dx dy "ucast b" "co_cursor c"]
    by (intro wm_ok_cursor) (simp_all add: pointer_ok_def env_ok_def screen_ok_def)
  then show ?thesis using assms(4) unfolding on_mouse_event_def Let_def
    by (auto simp: bind_eq_Some_conv continue_drag_ok dest: pointer_down_ok intro!: cursor_kind_ok
        intro: end_interaction_ok [OF release_drag_ok] split: if_splits)
qed

section \<open>Tiling and keys\<close>

lemma put_window_ok [simp]: "wm_ok w h c \<Longrightarrow> wm_ok w h (put_window i x y ww wh c)"
  by (simp add: put_window_def place_window_def wm_ok_map_window)

lemma tile_loop_ok: "wm_ok w h c \<Longrightarrow> wm_ok w h (tile_loop cols tw th k ids c)"
  by (induction cols tw th k ids c rule: tile_loop.induct) simp_all

lemma tile_ok [simp]: "wm_ok w h c \<Longrightarrow> wm_ok w h (tile_windows e c)"
  by (simp add: tile_windows_def Let_def tile_loop_ok)

lemma fold_ok: "wm_ok w h c \<Longrightarrow> (\<And>x c. x \<in> set xs \<Longrightarrow> wm_ok w h c \<Longrightarrow> wm_ok w h (f x c)) \<Longrightarrow> wm_ok w h (fold f xs c)"
  by (induction xs arbitrary: c) simp_all

lemma auto_tile_ok [simp]: "wm_ok w h c \<Longrightarrow> wm_ok w h (maybe_auto_tile_windows e c)"
  by (auto simp: maybe_auto_tile_windows_def layout_windows_in_area_def Let_def intro!: fold_ok)

lemma tab_ok: "wm_ok w h c \<Longrightarrow> handle_tab_focus c = Some c' \<Longrightarrow> wm_ok w h c'"
  by (auto simp: handle_tab_focus_def Let_def split: option.splits if_splits)

lemma modifiers_ok [simp]: "wm_ok w h (key_modifiers s k d c) = wm_ok w h c"
  by (simp add: key_modifiers_def Let_def)

lemma command_ok: "wm_ok w h c \<Longrightarrow> key_command e k c = Some c' \<Longrightarrow> wm_ok w h c'"
  by (auto simp: key_command_def switch_mode_def dest: tab_ok [rotated] split: if_splits)

lemma key_ok: "wm_ok w h c \<Longrightarrow> ingest_key_event e t c = Some c' \<Longrightarrow> wm_ok w h c'"
  by (auto simp: ingest_key_event_def Let_def intro!: scroll_key_ok dest: command_ok [rotated] split: option.splits if_splits)

section \<open>Things from the graph\<close>

lemma wm_ok_insert:
  assumes "wm_ok w h c" "win_id (ws_window s) = i"
  shows "wm_ok w h (c\<lparr>co_windows := bt_insert i s (co_windows c)\<rparr>)"
  using assms windows_ok_insert [of "co_windows c" s i] by (auto simp: wm_ok_def window_keys_def)

lemma chrome_ok: "ensure_window_chrome e i t c = (bs, c') \<Longrightarrow> wm_ok w h c \<Longrightarrow> wm_ok w h c' \<and> co_windows c' = co_windows c \<and> co_modes c' = co_modes c"
  by (auto simp: ensure_window_chrome_def Let_def)

lemma insert_window_ok:
  assumes "wm_ok w h c"
  shows "wm_ok w h (insert_window e win c)" "window_keys (insert_window e win c) = insert (win_id win) (window_keys c)"
    "co_modes (insert_window e win c) = co_modes c"
proof -
  obtain bar close c1 where ch: "ensure_window_chrome e (win_id win) (win_title win) c = ((bar, close), c1)" by (metis prod.exhaust)
  note c1 = chrome_ok [OF ch assms]
  show "wm_ok w h (insert_window e win c)"
    using c1 wm_ok_insert [of w h c1 _ "win_id win"] by (simp add: insert_window_def ch new_surface_def split: option.split)
  show "window_keys (insert_window e win c) = insert (win_id win) (window_keys c)"
    using c1 by (auto simp: insert_window_def ch window_keys_def split: option.split)
  show "co_modes (insert_window e win c) = co_modes c" using c1 by (simp add: insert_window_def ch split: option.split)
qed

lemma slot_members_place [simp]: "slot_members (m\<lparr>ms_place_id := p\<rparr>) = slot_members m"
  by (simp add: slot_members_def)

lemma slot_add_members: "mset (slot_members (slot_add i r m)) \<subseteq># add_mset i (mset (slot_members m))"
  by (auto simp: slot_add_def slot_members_def split: option.split)

lemma update_members:
  assumes "idx < length ms" "mset (slot_members m) \<subseteq># add_mset i (mset (slot_members (ms ! idx)))"
  shows "mset (mode_members (ms[idx := m])) \<subseteq># add_mset i (mset (mode_members ms))"
  using assms
proof (induction ms arbitrary: idx)
  case (Cons n ms)
  show ?case
  proof (cases idx)
    case 0
    then show ?thesis using Cons.prems by (simp add: subset_mset.add_mono flip: union_mset_add_mset_left)
  next
    case (Suc k)
    then show ?thesis using Cons.IH [of k] Cons.prems by (simp add: subset_mset.add_left_mono flip: union_mset_add_mset_right)
  qed
qed simp

lemma distinct_submset:
  assumes "mset xs \<subseteq># add_mset i (mset ys)" "distinct ys" "i \<notin> set ys"
  shows "distinct xs" "set xs \<subseteq> insert i (set ys)"
proof -
  have "count (mset xs) a \<le> count (add_mset i (mset ys)) a" for a using assms(1) by (rule mset_subset_eq_count)
  moreover have "count (add_mset i (mset ys)) a \<le> 1" for a
    using assms(2,3) by (auto simp: distinct_count_atmost_1 not_in_iff)
  ultimately have "count (mset xs) a \<le> 1" for a by (meson le_trans)
  then show "distinct xs" by (auto simp: distinct_count_atmost_1 le_Suc_eq simp flip: count_eq_zero_iff)
  show "set xs \<subseteq> insert i (set ys)" using set_mset_mono [OF assms(1)] by simp
qed

lemma wm_ok_slot:
  assumes "wm_ok w h c" "i \<in> window_keys c" "i \<notin> set (mode_members (co_modes c))" "idx < length (co_modes c)"
    and "mset (slot_members m) \<subseteq># add_mset i (mset (slot_members (co_modes c ! idx)))"
  shows "wm_ok w h (c\<lparr>co_modes := (co_modes c)[idx := m]\<rparr>)"
  using distinct_submset [OF update_members [OF assms(4,5)] _ assms(3)] assms(1,2) by (auto simp: wm_ok_def window_keys_def)

lemma position_less: "position x xs = Some k \<Longrightarrow> k < length xs"
  by (induction xs arbitrary: k) (auto split: if_splits)

lemma assign_mode_ok:
  assumes "wm_ok w h c" "win_id win \<in> window_keys c" "win_id win \<notin> set (mode_members (co_modes c))"
  shows "wm_ok w h (assign_mode win c)"
  using assms position_less [of _ "map ms_place_id (co_modes c)"] slot_add_members
  by (auto simp: assign_mode_def Let_def mode_of_place_def bind_eq_Some_conv intro!: wm_ok_slot split: option.split)

lemma assign_mode_keys [simp]: "window_keys (assign_mode win c) = window_keys c"
  by (simp add: assign_mode_def Let_def window_keys_def split: option.split)

lemma unique_z_ok [simp]: "wm_ok w h c \<Longrightarrow> wm_ok w h (ensure_window_has_unique_z i z c)"
  by (auto simp: ensure_window_has_unique_z_def Let_def intro!: wm_ok_map_window split: option.split)

lemma unique_z_keys [simp]: "window_keys (ensure_window_has_unique_z i z c) = window_keys c"
  by (simp add: ensure_window_has_unique_z_def Let_def split: option.split)

lemma ingest_window_ok:
  assumes "wm_ok w h c"
  shows "wm_ok w h (ingest_window e win c)"
proof -
  define v where "v = win\<lparr>win_width := max (win_width win) (word_of_int MIN_WINDOW_WIDTH), win_height := max (win_height win) (word_of_int MIN_WINDOW_HEIGHT)\<rparr>"
  define new where "new = (bt_get (co_windows c) (win_id v) = None)"
  define c2 where "c2 = (if new then ensure_window_has_unique_z (win_id v) (max_window_z c) (assign_mode v (insert_window e v c)) else insert_window e v c)"
  define c3 where "c3 = (case win_target v of Some tg \<Rightarrow> with_window (win_id v) (\<lambda>s. s\<lparr>ws_surface_id := Some tg\<rparr>) c2 | None \<Rightarrow> c2)"
  note ins = insert_window_ok [OF assms, of e v]
  have "win_id v \<notin> set (mode_members (co_modes c))" if new
  proof -
    have "win_id v \<notin> window_keys c" using that by (simp add: new_def window_keys_def map_of_eq_None_iff)
    then show ?thesis using assms by (auto simp: wm_ok_def)
  qed
  then have c2: "wm_ok w h c2" "win_id v \<in> window_keys c2" using ins by (auto simp: c2_def intro!: unique_z_ok assign_mode_ok)
  have c3: "wm_ok w h c3" "win_id v \<in> window_keys c3"
    using c2 by (auto simp: c3_def intro!: wm_ok_with_window split: option.split)
  show ?thesis unfolding ingest_window_def Let_def v_def [symmetric] new_def [symmetric] c2_def [symmetric] c3_def [symmetric]
    using c3 by (auto intro!: auto_tile_ok clamp_scroll_ok set_active_ok)
qed

lemma default_window_id [simp]: "win_id (default_window i) = i"
  by (simp add: default_window_def)

lemma window_load_id: "window_load t = Some v \<Longrightarrow> win_id v = thing_id t"
  by (auto simp: window_load_def Let_def split: if_splits)

lemma surface_window_id:
  assumes "env_ok w h e"
  shows "win_id (unwrap_or (default_window i) (Option.bind (en_get_thing e i) window_load)) = i"
  using assms window_load_id by (cases "Option.bind (en_get_thing e i) window_load") (auto simp: env_ok_def bind_eq_Some_conv)

lemma ingest_surface_ok:
  assumes "wm_ok w h c" "env_ok w h e" "ingest_surface e t c = Some c'"
  shows "wm_ok w h c'"
proof (cases "Option.bind (surface_load t) su_window")
  case None
  then show ?thesis using assms(1,3) by (auto simp: ingest_surface_def bind_eq_None_conv split: option.splits)
next
  case (Some i)
  then obtain su where su: "surface_load t = Some su" "su_window su = Some i" by (auto simp: bind_eq_Some_conv)
  define v where "v = unwrap_or (default_window i) (Option.bind (en_get_thing e i) window_load)"
  have v: "win_id v = i" using surface_window_id [OF assms(2)] by (simp add: v_def)
  obtain bar close c0 where ch: "ensure_window_chrome e i (win_title v) c = ((bar, close), c0)" by (metis prod.exhaust)
  define c1 where "c1 = (if bt_get (co_windows c) i = None then c0\<lparr>co_windows := bt_insert i (new_surface v bar close) (co_windows c0)\<rparr> else c)"
  have c1: "wm_ok w h c1" using assms(1) chrome_ok [OF ch assms(1)] wm_ok_insert [of w h c0 "new_surface v bar close" i]
    by (simp add: c1_def new_surface_def v)
  have "\<exists>s'. c' = apply_window_rect_hint e i (clamp_scroll_for e i (bump_window i (c1\<lparr>co_windows := bt_insert i s' (co_windows c1)\<rparr>))) \<and>
      ws_window s' = v"
    using assms(3) unfolding ingest_surface_def su option.case v_def [symmetric] ch Let_def prod.case c1_def [symmetric]
    by (simp split: option.splits sum.splits) (rule exI, rule conjI, erule sym, simp)
  then obtain s' where "c' = apply_window_rect_hint e i (clamp_scroll_for e i (bump_window i (c1\<lparr>co_windows := bt_insert i s' (co_windows c1)\<rparr>)))"
      "ws_window s' = v" by blast
  then show ?thesis using wm_ok_insert [OF c1, of s' i] v by simp
qed

lemma from_graph_on_screen:
  assumes "pointer_ok w h k" "screen_ok w h"
  shows "pointer_ok w h (set_from_graph x y vis w h k)"
proof -
  have i: "i32 (int (w - 1)) = int (w - 1)" "i32 (int (h - 1)) = int (h - 1)"
    using assms(2) by (auto intro!: i32_id simp: in_i32_def screen_ok_def)
  show ?thesis unfolding set_from_graph_def i using assms by (auto simp: pointer_ok_def screen_ok_def clamp_i32_def split: option.split)
qed

lemma ingest_cursor_ok: "wm_ok w h c \<Longrightarrow> env_ok w h e \<Longrightarrow> screen_ok w h \<Longrightarrow> wm_ok w h (ingest_cursor e t c)"
  by (auto simp: ingest_cursor_def Let_def env_ok_def wm_ok_def intro!: wm_ok_cursor [unfolded wm_ok_def] from_graph_on_screen)

lemma mode_number_less [simp]: "mode_number v < 12"
  by (simp add: mode_number_def)

lemma members_place: "idx < length ms \<Longrightarrow> mode_members (ms[idx := (ms ! idx)\<lparr>ms_place_id := p\<rparr>]) = mode_members ms"
  by (simp add: mode_members_def map_update) (metis list_update_id nth_map length_map)

lemma ingest_mode_def_ok [simp]: "wm_ok w h c \<Longrightarrow> wm_ok w h (ingest_mode_def t c)"
  by (auto simp: ingest_mode_def_def Let_def split: option.split) (simp_all add: wm_ok_def window_keys_def members_place)

lemma mode_app_ok [simp]: "wm_ok w h (ensure_mode_app e idx c) = wm_ok w h c"
  by (simp add: ensure_mode_app_def launch_app_for_place_def Let_def split: option.split)

lemma ingest_mode_ok [simp]: "wm_ok w h c \<Longrightarrow> wm_ok w h (ingest_mode e t c)"
  by (auto simp: ingest_mode_def Let_def split: option.split) (simp add: wm_ok_def window_keys_def)

lemma widget_scrolls_ok:
  assumes "windows_ok wins"
  shows "windows_ok (widget_scrolls t v wins) \<and> fst ` set (widget_scrolls t v wins) = fst ` set wins"
  using assms windows_ok_get [OF assms]
  by (auto simp: widget_scrolls_def intro!: windows_ok_insert dest: bt_get_key split: option.split)

lemma widget_event_ok [simp]:
  assumes "wm_ok w h c"
  shows "wm_ok w h (ingest_widget_event t c)"
proof -
  obtain ws wins where iw: "ingest_widget t (co_widgets c) (co_windows c) = (ws, wins)" by fastforce
  obtain v where "wins = co_windows c \<or> wins = widget_scrolls t v (co_windows c)"
    using iw by (auto simp: ingest_widget_def Let_def split: option.splits)
  then have "windows_ok wins \<and> fst ` set wins = fst ` set (co_windows c)"
    using assms widget_scrolls_ok [of "co_windows c" t v] unfolding wm_ok_def by blast
  moreover have "widgets_ok ws" using assms iw ingest_widget_ok by (auto simp: wm_ok_def)
  ultimately show ?thesis using assms by (simp add: ingest_widget_event_def iw wm_ok_def window_keys_def)
qed

lemma wm_ok_wallpapers: "wm_ok w h c \<Longrightarrow> wallpapers_ok ws \<Longrightarrow> wm_ok w h (c\<lparr>co_wallpapers := ws\<rparr>)"
  by (simp add: wm_ok_def window_keys_def)

lemma wallpaper_event_ok [simp]: "wm_ok w h c \<Longrightarrow> wm_ok w h (c\<lparr>co_wallpapers := ingest_wallpaper t (co_wallpapers c)\<rparr>)"
  by (rule wm_ok_wallpapers) (simp_all add: wm_ok_def ingest_wallpaper_ok)

lemma layer_event_ok: "wm_ok w h c \<Longrightarrow> ingest_layer t (co_wallpapers c, co_layers c) = (ws, ls) \<Longrightarrow> wm_ok w h (c\<lparr>co_wallpapers := ws, co_layers := ls\<rparr>)"
  using ingest_layer_ok [of "co_wallpapers c" t "co_layers c" ws ls] wm_ok_wallpapers [of w h c ws] by (auto simp: wm_ok_def window_keys_def)

lemma on_event_ok:
  assumes "wm_ok w h c" "env_ok w h e" "screen_ok w h" "on_event e k t c = Some c'"
  shows "wm_ok w h c'"
  using assms mouse_ok [OF assms(1-3)] key_ok [OF assms(1)] ingest_surface_ok [OF assms(1,2)] layer_event_ok [OF assms(1)]
  by (cases k) (auto simp: ingest_input_event_def Let_def ingest_window_ok ingest_cursor_ok split: if_splits option.splits prod.splits)

section \<open>Ticks and the start\<close>

lemma enforce_root_ok [simp]: "wm_ok w h c \<Longrightarrow> wm_ok w h (enforce_root e place p c)"
  by (auto simp: enforce_root_def place_window_def intro!: wm_ok_map_window split: prod.split)

lemma enforce_ok [simp]: "wm_ok w h c \<Longrightarrow> wm_ok w h (enforce_place_layout e c)"
  by (auto simp: enforce_place_layout_def intro!: fold_ok split: option.split)

lemma scrollbars_ok [simp]: "wm_ok w h c \<Longrightarrow> wm_ok w h (update_scrollbars e c)"
  by (auto simp: update_scrollbars_def update_scrollbar_def ensure_scrollbar_def user_fiat_def Let_def
      intro!: fold_ok wm_ok_with_window split: option.split)

lemma prepare_ok [simp]: "wm_ok w h c \<Longrightarrow> wm_ok w h (prepare_frame e c)"
  by (simp add: prepare_frame_def ensure_active_ok)

lemma publish_ok [simp]: "wm_ok w h (publish_frame_info e c) = wm_ok w h c"
  by (simp add: publish_frame_info_def user_fiat_def Let_def split: option.split)

lemma tick_ok: "wm_ok w h c \<Longrightarrow> wm_ok w h (snd (tick p e c))"
  by (simp add: tick_def Let_def)

lemma mode_members_new: "mode_members (map (\<lambda>i. mode_slot_new (f i)) is) = []"
  by (simp add: mode_members_def slot_members_def mode_slot_new_def)

lemma new_ok:
  assumes "env_ok w h e" "screen_ok w h"
  shows "wm_ok w h (compositor_new e bg sp)"
proof -
  have "pointer_ok w h (cursor_state_new (en_width e) (en_height e))"
    using assms i32_id [of "int (w div 2)"] i32_id [of "int (h div 2)"]
    by (auto simp: env_ok_def screen_ok_def pointer_ok_def cursor_state_new_def in_i32_def)
  then show ?thesis unfolding compositor_new_def Let_def
    by (intro fold_ok)
      (simp_all add: announce_mode_def Let_def, simp add: wm_ok_def mode_members_new window_keys_def windows_ok_def widgets_ok_def wallpapers_ok_def
         del: upt_rec_numeral)
qed

lemma surfaces_ok: "wm_ok w h c \<Longrightarrow> env_ok w h e \<Longrightarrow> ingest_surfaces e ts c = Some c' \<Longrightarrow> wm_ok w h c'"
  by (induction e ts c rule: ingest_surfaces.induct) (auto simp: bind_eq_Some_conv dest: ingest_surface_ok)

lemma init_ok:
  assumes "env_ok w h e" "screen_ok w h" "init_with_watches e bg sp nodes = Some c"
  shows "wm_ok w h c"
proof -
  define c0 where "c0 = ensure_default_style e (nodes canon_STYLE) (init_wallpapers (compositor_new e bg sp))"
  define c1 where "c1 = fold (\<lambda>t c. c\<lparr>co_wallpapers := ingest_wallpaper t (co_wallpapers c)\<rparr>) (nodes canon_WALLPAPER) c0"
  define c2 where "c2 = fold (\<lambda>t c. case ingest_layer t (co_wallpapers c, co_layers c) of (ws, ls) \<Rightarrow> c\<lparr>co_wallpapers := ws, co_layers := ls\<rparr>)
            (nodes canon_LAYER) c1"
  define c3 where "c3 = fold (ingest_style e) (nodes canon_STYLE) c2"
  define c4 where "c4 = fold (\<lambda>t c. case window_load t of Some w \<Rightarrow> ingest_window e w c | None \<Rightarrow> c) (nodes canon_WINDOW) c3"
  have "wm_ok w h (init_wallpapers (compositor_new e bg sp))" unfolding init_wallpapers_def
    by (rule fold_ok [OF new_ok [OF assms(1,2)]]) (simp add: init_wallpaper_def Let_def)
  then have "wm_ok w h c0" by (simp add: c0_def ensure_default_style_def user_fiat_def Let_def)
  then have "wm_ok w h c1" unfolding c1_def by (rule fold_ok) simp
  then have "wm_ok w h c2" unfolding c2_def by (rule fold_ok) (use layer_event_ok in \<open>auto split: prod.split\<close>)
  then have "wm_ok w h c3" unfolding c3_def by (rule fold_ok) (simp add: ingest_style_def Let_def split: option.split)
  then have c4: "wm_ok w h c4" unfolding c4_def by (rule fold_ok) (simp add: ingest_window_ok split: option.split)
  obtain c5 where c5: "ingest_surfaces e (nodes canon_SURFACE) c4 = Some c5"
      "c = (let c6 = fold ingest_widget_event (nodes canon_WIDGET) c5;
               c7 = (case nodes canon_CURSOR of t # _ \<Rightarrow> ingest_cursor e t c6 | [] \<Rightarrow> c6)
           in fold ingest_mode_def (nodes canon_MODE) c7)"
    using assms(3) unfolding init_with_watches_def c0_def [symmetric] Let_def c1_def [symmetric] c2_def [symmetric] c3_def [symmetric] c4_def [symmetric]
    by auto
  have "wm_ok w h (fold ingest_widget_event (nodes canon_WIDGET) c5)"
    by (rule fold_ok [OF surfaces_ok [OF c4 assms(1) c5(1)]]) simp
  then show ?thesis unfolding c5(2) Let_def
    using assms(1,2) by (intro fold_ok) (auto simp: ingest_cursor_ok split: list.split)
qed

text \<open>A run of the compositor: its start, then events, ticks and the clearing of the flag its main loop does.\<close>

inductive wm_reach :: "nat \<Rightarrow> nat \<Rightarrow> painter \<Rightarrow> compositor \<Rightarrow> bool" for width height p where
  start: "env_ok width height e \<Longrightarrow> init_with_watches e bg sp nodes = Some c \<Longrightarrow> wm_reach width height p c"
| event: "wm_reach width height p c \<Longrightarrow> env_ok width height e \<Longrightarrow> on_event e k t c = Some c' \<Longrightarrow> wm_reach width height p c'"
| frame: "wm_reach width height p c \<Longrightarrow> env_ok width height e \<Longrightarrow> tick p e c = (u, c') \<Longrightarrow> wm_reach width height p c'"
| clear: "wm_reach width height p c \<Longrightarrow> wm_reach width height p (c\<lparr>co_fb_dirty := False\<rparr>)"

lemma wm_reach_ok: "wm_reach width height p c \<Longrightarrow> screen_ok width height \<Longrightarrow> wm_ok width height c"
proof (induction rule: wm_reach.induct)
  case (frame c e u c')
  then show ?case using tick_ok [of width height c p e] by simp
qed (auto intro: init_ok on_event_ok)

text \<open>
  C25: from its start through every event and every frame the compositor keeps its books: each window is in at
  most one of the twelve modes and there only once, every window a mode lists, every active window and every
  window being dragged exists, windows and widgets are found under their own identifiers, a wallpaper has a
  layer at most once, and the pointer is on the screen.
\<close>

theorem compositor_invariant:
  assumes "wm_reach width height p c" "screen_ok width height"
  shows "wm_ok width height c"
  using assms by (rule wm_reach_ok)

section \<open>A desk with two windows\<close>

definition demo_env :: wm_env where
  "demo_env = \<lparr>en_fonts = blank_fonts, en_postcard = (\<lambda>_. None), en_get_thing = (\<lambda>_. None), en_show_uuid = (\<lambda>_. []),
     en_width = 640, en_height = 480, en_frame_info = None\<rparr>"

definition demo_painter :: painter where
  "demo_painter = \<lparr>pa_widgets = (\<lambda>_ _ _ _ _. []), pa_title_bar = (\<lambda>_ _ _ _. [])\<rparr>"

definition demo_icon :: cursor_icon where
  "demo_icon = \<lparr>ic_bitmap = \<lparr>bm_width = 1, bm_height = 1, bm_pixels = [0]\<rparr>, ic_hotspot = (0, 0)\<rparr>"

definition demo_sprites :: cursor_sprites where
  "demo_sprites = \<lparr>cs_arrow = demo_icon, cs_move_icon = demo_icon, cs_resize_ns = demo_icon, cs_resize_ew = demo_icon,
     cs_resize_ne_sw = demo_icon, cs_resize_nw_se = demo_icon\<rparr>"

definition desk_surface :: "uuid \<Rightarrow> bool \<Rightarrow> window_surface" where
  "desk_surface i visible = (new_surface ((default_window i)\<lparr>win_visible := visible\<rparr>) 5 6)\<lparr>ws_surface_id := Some 9\<rparr>"

definition demo_desk :: "bool \<Rightarrow> compositor" where
  "demo_desk visible = (compositor_new demo_env \<lparr>bm_width = 1, bm_height = 1, bm_pixels = [0]\<rparr> demo_sprites)
     \<lparr>co_windows := [(7, desk_surface 7 True), (8, desk_surface 8 visible)],
      co_modes := \<lparr>ms_mode_index = 0, ms_root_window = None, ms_windows = [7, 8], ms_place_id = None\<rparr> # map (\<lambda>i. mode_slot_new (of_nat i)) [1..<12],
      co_cursor := \<lparr>cu_x = 150, cu_y = 150, cu_buttons = 0, cu_visible = True, cu_kind = CkArrow\<rparr>\<rparr>"

lemma announce_fields:
  "co_active_window (fold announce_mode ids c) = co_active_window c" "co_active_mode (fold announce_mode ids c) = co_active_mode c"
  "co_drag (fold announce_mode ids c) = co_drag c" "co_widgets (fold announce_mode ids c) = co_widgets c"
  "co_wallpapers (fold announce_mode ids c) = co_wallpapers c" "co_fb_dirty (fold announce_mode ids c) = co_fb_dirty c"
  "co_title_bar_height (fold announce_mode ids c) = co_title_bar_height c"
  by (induction ids arbitrary: c) (simp_all add: announce_mode_def tell_def send_def Let_def)

lemma demo_desk_simps [simp]:
  "co_windows (demo_desk v) = [(7, desk_surface 7 True), (8, desk_surface 8 v)]" "co_active_window (demo_desk v) = None" "co_active_mode (demo_desk v) = 0"
  "co_drag (demo_desk v) = None" "co_widgets (demo_desk v) = []" "co_fb_dirty (demo_desk v) = False" "co_title_bar_height (demo_desk v) = 32"
  "active_slot (demo_desk v) = \<lparr>ms_mode_index = 0, ms_root_window = None, ms_windows = [7, 8], ms_place_id = None\<rparr>"
  "cu_x (co_cursor (demo_desk v)) = 150" "cu_y (co_cursor (demo_desk v)) = 150"
  by (simp_all add: demo_desk_def compositor_new_def Let_def announce_fields active_slot_def tell_def send_def del: upt_rec_numeral)

lemma demo_env_ok: "env_ok 640 480 demo_env" "screen_ok 640 480"
  by (simp_all add: env_ok_def demo_env_def screen_ok_def)

lemma demo_desk_ok: "wm_ok 640 480 (demo_desk v)"
proof -
  have "wallpapers_ok (co_wallpapers (demo_desk v))"
    using new_ok [OF demo_env_ok] by (simp add: demo_desk_def wm_ok_def del: upt_rec_numeral)
  moreover have "mode_members (co_modes (demo_desk v)) = [7, 8]" "length (co_modes (demo_desk v)) = 12"
    by (simp_all add: demo_desk_def mode_members_new slot_members_def del: upt_rec_numeral)
  ultimately show ?thesis
    by (simp add: wm_ok_def window_keys_def windows_ok_def sorted_map_Cons widgets_ok_def pointer_ok_def desk_surface_def new_surface_def)
qed

definition demo_start :: compositor where
  "demo_start = ensure_default_style demo_env [] (init_wallpapers (compositor_new demo_env \<lparr>bm_width = 1, bm_height = 1, bm_pixels = [0]\<rparr> demo_sprites))"

lemma demo_start_reach: "wm_reach 640 480 demo_painter demo_start"
  by (rule wm_reach.start [OF demo_env_ok(1), of "\<lparr>bm_width = 1, bm_height = 1, bm_pixels = [0]\<rparr>" demo_sprites "\<lambda>_. []"])
    (simp add: init_with_watches_def demo_start_def Let_def)

theorem compositor_invariant_witness:
  "wm_ok 640 480 (snd (tick demo_painter demo_env demo_start))"
  by (rule compositor_invariant [OF wm_reach.frame [OF demo_start_reach demo_env_ok(1)] demo_env_ok(2)]) (rule surjective_pairing)

end
