(* ===== verification/Window_Tiling.thy ===== *)
theory Window_Tiling
  imports Window_Invariants
begin

text \<open>Resizing and tiling: where the windows end up.\<close>

section \<open>Resizing\<close>

lemma resize_axis_low:
  assumes "low" "near start" "near len" "near d" "near min_size" "0 < min_size"
  shows "resize_axis low high min_size d start len = (start + (len - max min_size (len - d)), max min_size (len - d))"
proof -
  have "i32 (len - d) = len - d" using assms by (simp add: i32_id)
  moreover have "i32 (len - max min_size (len - d)) = len - max min_size (len - d)"
    using assms by (auto intro!: i32_id simp: near_def in_i32_def)
  moreover have "i32 (start + (len - max min_size (len - d))) = start + (len - max min_size (len - d))"
    using assms by (auto intro!: i32_id simp: near_def in_i32_def)
  ultimately show ?thesis using assms(1) by (simp add: resize_axis_def Let_def)
qed

lemma resize_axis_high:
  assumes "\<not> low" "near start" "near len" "near d"
  shows "resize_axis low high min_size d start len = (start, if high then max min_size (len + d) else len)"
  using assms by (simp add: resize_axis_def i32_id)

lemma keep_on_screen_eq:
  assumes "near pos" "\<bar>len\<bar> < 1073741824"
  shows "keep_on_screen min_size (pos, len) = (if pos < 0 then (0, max (len - pos) min_size) else (pos, len))"
proof -
  have "i32 (- pos) = - pos" "i32 (len - pos) = len - pos" using assms by (auto intro!: i32_id simp: near_def in_i32_def)
  then show ?thesis by (simp add: keep_on_screen_def)
qed

text \<open>The window being dragged, after the drag has gone on.\<close>

lemma resize_drag_window:
  assumes "co_drag c = Some \<lparr>ds_window_id = i, ds_kind = DragResize ed cx cy sx sy sw sh\<rparr>" "bt_get (co_windows c) i = Some s"
    and "resize_rect ed (i32 (cu_x (co_cursor c) - cx)) (i32 (cu_y (co_cursor c) - cy)) sx sy sw sh = (x, y, w, h)"
  shows "map_option ws_window (bt_get (co_windows (continue_drag e c)) i) =
    Some (place_window (word_of_int x) (word_of_int y) (word_of_int w) (word_of_int h) (ws_window s))"
  using assms by (simp add: continue_drag_def clamp_scroll_for_def with_window_get map_window_def split: option.split)

lemma sint_of_small: "\<bar>z\<bar> < 1073741824 \<Longrightarrow> sint (word_of_int z :: i64) = z"
  by (simp add: sint_sbintrunc' signed_take_bit_int_eq_self)

text \<open>A horizontal resize that starts at \<open>(start, len)\<close> and has moved by \<open>d\<close>.\<close>

definition hresize :: "resize_edges \<Rightarrow> int \<Rightarrow> int \<Rightarrow> int \<Rightarrow> int \<times> int" where
  "hresize ed d start len =
     (if re_left ed
      then let w = max MIN_WINDOW_WIDTH (len - d); x = start + (len - w) in if x < 0 then (0, w - x) else (x, w)
      else (start, if re_right ed then max MIN_WINDOW_WIDTH (len + d) else len))"

lemma resize_x:
  assumes drag: "co_drag c = Some \<lparr>ds_window_id = i, ds_kind = DragResize ed cx cy sx sy sw sh\<rparr>" "bt_get (co_windows c) i = Some s"
    and b: "near (cu_x (co_cursor c))" "near cx" "near (cu_x (co_cursor c) - cx)" "near sx" "near sw" "0 \<le> sx" "0 \<le> sw" "near (sx + sw)"
  shows "\<exists>s'. bt_get (co_windows (continue_drag e c)) i = Some s' \<and>
    (sint (win_x (ws_window s')), sint (win_width (ws_window s'))) = hresize ed (cu_x (co_cursor c) - cx) sx sw"
proof -
  define d where "d = cu_x (co_cursor c) - cx"
  have d: "i32 (cu_x (co_cursor c) - cx) = d" "near d" using b by (simp_all add: d_def i32_id)
  obtain x y w h where r: "resize_rect ed d (i32 (cu_y (co_cursor c) - cy)) sx sy sw sh = (x, y, w, h)" by (metis prod_cases4)
  have xw: "keep_on_screen MIN_WINDOW_WIDTH (resize_axis (re_left ed) (re_right ed) MIN_WINDOW_WIDTH d sx sw) = (x, w)"
    using r by (auto simp: resize_rect_def split: prod.splits)
  obtain s' where s': "bt_get (co_windows (continue_drag e c)) i = Some s'"
      "ws_window s' = place_window (word_of_int x) (word_of_int y) (word_of_int w) (word_of_int h) (ws_window s)"
    using resize_drag_window [OF drag r [folded d(1)]] by auto
  have "(x, w) = hresize ed d sx sw"
  proof (cases "re_left ed")
    case True
    have n: "near (sx + (sw - max MIN_WINDOW_WIDTH (sw - d)))" "\<bar>max MIN_WINDOW_WIDTH (sw - d)\<bar> < 1073741824"
      using b(4-8) d(2) by (auto simp: near_def window_consts)
    have m: "near MIN_WINDOW_WIDTH" "0 < MIN_WINDOW_WIDTH" by (simp_all add: near_def window_consts)
    show ?thesis using xw unfolding resize_axis_low [OF True b(4,5) d(2) m] keep_on_screen_eq [OF n] hresize_def Let_def
      using True by (auto split: if_splits) arith
  next
    case False
    then show ?thesis using xw resize_axis_high [of "re_left ed" sx sw d] b(4-6) d(2)
      by (simp add: hresize_def keep_on_screen_def)
  qed
  moreover have "\<bar>fst (hresize ed d sx sw)\<bar> < 1073741824" "\<bar>snd (hresize ed d sx sw)\<bar> < 1073741824"
    using b(4-8) d(2) by (auto simp: hresize_def Let_def near_def window_consts max_def)
  ultimately have "(sint (win_x (ws_window s')), sint (win_width (ws_window s'))) = hresize ed d sx sw"
    using sint_of_small [of x] sint_of_small [of w] by (metis s'(2) place_window_def fst_conv snd_conv window.select_convs window.surjective window.update_convs)
  then show ?thesis using s'(1) d_def by blast
qed

text \<open>
  Dragging the right edge of a window keeps its left edge and follows the pointer down to the smallest
  width; dragging the left edge keeps the right edge where it is, as long as the left one stays on the screen.
\<close>

theorem resize_keeps_other_edge:
  assumes "co_drag c = Some \<lparr>ds_window_id = i, ds_kind = DragResize ed cx cy sx sy sw sh\<rparr>" "bt_get (co_windows c) i = Some s"
    and "near (cu_x (co_cursor c))" "near cx" "near (cu_x (co_cursor c) - cx)" "near sx" "near sw" "0 \<le> sx" "MIN_WINDOW_WIDTH \<le> sw" "near (sx + sw)"
    and "0 \<le> sx + (cu_x (co_cursor c) - cx)"
  shows "\<exists>s'. bt_get (co_windows (continue_drag e c)) i = Some s' \<and>
    (re_right ed \<longrightarrow> \<not> re_left ed \<longrightarrow> sint (win_x (ws_window s')) = sx \<and>
       sint (win_width (ws_window s')) = max MIN_WINDOW_WIDTH (sw + (cu_x (co_cursor c) - cx))) \<and>
    (re_left ed \<longrightarrow> sint (win_x (ws_window s')) + sint (win_width (ws_window s')) = sx + sw \<and>
       MIN_WINDOW_WIDTH \<le> sint (win_width (ws_window s')))"
proof -
  have "0 \<le> sw" using assms(9) by (simp add: window_consts)
  then obtain s' where "bt_get (co_windows (continue_drag e c)) i = Some s'"
      "(sint (win_x (ws_window s')), sint (win_width (ws_window s'))) = hresize ed (cu_x (co_cursor c) - cx) sx sw"
    using resize_x [OF assms(1-8) _ assms(10)] by blast
  then show ?thesis using assms(8,9,11) by (auto simp: hresize_def Let_def split: if_splits)
qed

text \<open>
  A left edge dragged past the edge of the screen pushes the right edge out. The code means to cut the
  window off at the screen, but adds the part that was cut to the width instead of taking it away: the right
  edge moves by twice the distance.
\<close>

theorem left_resize_grows:
  assumes "co_drag c = Some \<lparr>ds_window_id = i, ds_kind = DragResize ed cx cy sx sy sw sh\<rparr>" "bt_get (co_windows c) i = Some s"
    and "near (cu_x (co_cursor c))" "near cx" "near (cu_x (co_cursor c) - cx)" "near sx" "near sw" "0 \<le> sx" "MIN_WINDOW_WIDTH \<le> sw" "near (sx + sw)"
    and "re_left ed" "sx + (cu_x (co_cursor c) - cx) < 0"
  shows "\<exists>s'. bt_get (co_windows (continue_drag e c)) i = Some s' \<and> win_x (ws_window s') = 0 \<and>
    sint (win_width (ws_window s')) = sx + sw + 2 * - (sx + (cu_x (co_cursor c) - cx))"
proof -
  have "0 \<le> sw" using assms(9) by (simp add: window_consts)
  then obtain s' where s': "bt_get (co_windows (continue_drag e c)) i = Some s'"
      "(sint (win_x (ws_window s')), sint (win_width (ws_window s'))) = hresize ed (cu_x (co_cursor c) - cx) sx sw"
    using resize_x [OF assms(1-8) _ assms(10)] by blast
  then have "sint (win_x (ws_window s')) = sint (0 :: u64)" "sint (win_width (ws_window s')) = sx + sw + 2 * - (sx + (cu_x (co_cursor c) - cx))"
    using assms(6,8,9,11,12) by (auto simp: hresize_def Let_def max_def split: if_splits)
  then show ?thesis using s'(1) signed_word_eqI by blast
qed

section \<open>Tiling\<close>

lemma position_None: "position x xs = None \<longleftrightarrow> x \<notin> set xs"
  by (induction xs) auto

lemma position_nth: "distinct xs \<Longrightarrow> n < length xs \<Longrightarrow> position (xs ! n) xs = Some n"
  by (induction xs arbitrary: n) (auto simp: nth_Cons split: nat.split)

lemma put_window_get:
  "bt_get (co_windows (put_window i x y w h c)) j = (if j = i then map_option (map_window (place_window x y w h)) (bt_get (co_windows c) i) else bt_get (co_windows c) j)"
  by (simp add: put_window_def with_window_get)

text \<open>The place of the window number \<open>k\<close> on the grid.\<close>

definition tile_window :: "int \<Rightarrow> int \<Rightarrow> int \<Rightarrow> int \<Rightarrow> window \<Rightarrow> window" where
  "tile_window cols w h k = place_window (word_of_int (max (i32 (k mod cols * w)) 0)) (word_of_int (max (i32 (k div cols * h)) 0))
     (word_of_int (max w MIN_WINDOW_WIDTH)) (word_of_int (max h MIN_WINDOW_HEIGHT))"

lemma tile_loop_get:
  "distinct ids \<Longrightarrow> bt_get (co_windows (tile_loop cols w h k ids c)) j =
     (case position j ids of Some n \<Rightarrow> map_option (map_window (tile_window cols w h (k + int n))) (bt_get (co_windows c) j)
      | None \<Rightarrow> bt_get (co_windows c) j)"
proof (induction ids arbitrary: k c)
  case (Cons i ids)
  have i: "position i ids = None" using Cons.prems by (simp add: position_None)
  show ?case using Cons i by (auto simp: put_window_get tile_window_def ac_simps split: option.split)
qed simp

definition on_screen_window :: "nat \<Rightarrow> nat \<Rightarrow> window \<Rightarrow> bool" where
  "on_screen_window width height w \<longleftrightarrow> uint (win_x w) + uint (win_width w) \<le> int width \<and> uint (win_y w) + uint (win_height w) \<le> int height"

definition apart :: "window \<Rightarrow> window \<Rightarrow> bool" where
  "apart a b \<longleftrightarrow> uint (win_x a) + uint (win_width a) \<le> uint (win_x b) \<or> uint (win_x b) + uint (win_width b) \<le> uint (win_x a) \<or>
     uint (win_y a) + uint (win_height a) \<le> uint (win_y b) \<or> uint (win_y b) + uint (win_height b) \<le> uint (win_y a)"

lemma uint_of_small: "0 \<le> z \<Longrightarrow> z < 2147483648 \<Longrightarrow> uint (word_of_int z :: u64) = z"
  by (simp add: uint_word_of_int)

text \<open>A cell of a row of \<open>n\<close> cells of length \<open>len\<close>.\<close>

lemma cell_bounds:
  fixes a n len total :: int
  assumes "0 \<le> a" "a < n" "0 < len" "n * len \<le> total" "total < 2147483648"
  shows "i32 (a * len) = a * len" "0 \<le> a * len" "a * len + len \<le> total"
proof -
  have "(a + 1) * len \<le> n * len" using assms by (intro mult_right_mono) simp_all
  then show u: "a * len + len \<le> total" using assms(4) by (simp add: algebra_simps)
  show l: "0 \<le> a * len" using assms by simp
  have "- 2147483648 \<le> a * len" "a * len < 2147483648" using l u assms(3,5) by linarith+
  then show "i32 (a * len) = a * len" by (intro i32_id) (simp add: in_i32_def)
qed

lemma tile_window_uint:
  assumes "0 \<le> k" "k < cols * rows" "0 < cols" "MIN_WINDOW_WIDTH \<le> w" "MIN_WINDOW_HEIGHT \<le> h"
    and "cols * w \<le> tw" "rows * h \<le> th" "tw < 2147483648" "th < 2147483648"
  shows "let v = tile_window cols w h k win in uint (win_x v) = k mod cols * w \<and> uint (win_y v) = k div cols * h \<and>
    uint (win_width v) = w \<and> uint (win_height v) = h \<and> k mod cols * w + w \<le> tw \<and> k div cols * h + h \<le> th"
proof -
  have "k div cols < rows"
  proof (rule ccontr)
    assume "\<not> k div cols < rows"
    then have "cols * rows \<le> cols * (k div cols)" using assms(3) by (intro mult_left_mono) simp_all
    also have "\<dots> \<le> k" using mult_div_mod_eq [of cols k] pos_mod_sign [OF assms(3), of k] by linarith
    finally show False using assms(2) by simp
  qed
  moreover have pos: "0 < w" "0 < h" using assms(4,5) by (simp_all add: window_consts)
  ultimately have "i32 (k mod cols * w) = k mod cols * w" "0 \<le> k mod cols * w" "k mod cols * w + w \<le> tw"
      "i32 (k div cols * h) = k div cols * h" "0 \<le> k div cols * h" "k div cols * h + h \<le> th"
    using cell_bounds [of "k mod cols" cols w tw] cell_bounds [of "k div cols" rows h th] assms
    by (simp_all add: pos_imp_zdiv_nonneg_iff)
  then show ?thesis using assms(4,5,8,9) pos 
    by (simp add: Let_def tile_window_def place_window_def uint_of_small max_absorb1 del: of_int_mult)
qed

lemma cells_apart:
  fixes k l cols w h :: int
  assumes "k \<noteq> l" "0 < w" "0 < h"
  shows "k mod cols * w + w \<le> l mod cols * w \<or> l mod cols * w + w \<le> k mod cols * w \<or>
    k div cols * h + h \<le> l div cols * h \<or> l div cols * h + h \<le> k div cols * h"
proof -
  have step: "a * m + m \<le> b * m" if "a < b" "0 < m" for a b m :: int
    using mult_right_mono [of "a + 1" b m] that by (simp add: algebra_simps)
  have "k div cols \<noteq> l div cols \<or> k mod cols \<noteq> l mod cols" using assms(1) by (metis mult_div_mod_eq)
  then consider "k mod cols < l mod cols" | "l mod cols < k mod cols" | "k div cols < l div cols" | "l div cols < k div cols" by linarith
  then show ?thesis by cases (use step assms in blast)+
qed

lemma grid_cols_ge: "cols \<le> grid_cols cols n"
proof (induction cols n rule: grid_cols.induct)
  case (1 cols n)
  then show ?case by (subst grid_cols.simps) auto
qed

lemma slot_distinct: "wm_ok w h c \<Longrightarrow> distinct (slot_members (active_slot c))"
proof -
  assume ok: "wm_ok w h c"
  then have "active_slot c \<in> set (co_modes c)" by (simp add: wm_ok_def active_slot_def)
  then obtain pre post where "co_modes c = pre @ active_slot c # post" by (meson split_list)
  then have "distinct (mode_members (pre @ active_slot c # post))" using ok by (metis wm_ok_def)
  then show ?thesis by (simp add: mode_members_def)
qed

lemma visible_ids_distinct: "wm_ok w h c \<Longrightarrow> distinct (visible_window_ids c)"
  using slot_distinct [of w h c]
  by (auto simp: visible_window_ids_def ordered_window_ids_def slot_members_def split: option.split)

lemma rows_enough: "0 < cols \<Longrightarrow> n \<le> cols * ((n + cols - 1) div cols)" for n cols :: nat
  using mult_div_mod_eq [of cols "n + cols - 1"] mod_less_divisor [of cols "n + cols - 1"] by linarith

text \<open>
  C29: tiling puts the windows side by side. The grid has about as many columns as rows; when its cells are not smaller
  than the smallest window, every visible window of the mode is on the screen afterwards, also a single one, and no
  two of them overlap. (With more windows than that the cells would be too small, and the windows keep their least size.)
\<close>

theorem tile_no_overlap:
  assumes "wm_ok width height c" "env_ok width height e" "screen_ok width height"
    and "cols = grid_cols 1 (length (visible_window_ids c))" "rows = (length (visible_window_ids c) + cols - 1) div cols"
    and "MIN_WINDOW_WIDTH \<le> int (width div cols)" "MIN_WINDOW_HEIGHT \<le> int (height div rows)"
    and "i \<in> set (visible_window_ids c)"
  shows "\<exists>s. bt_get (co_windows (tile_windows e c)) i = Some s \<and> on_screen_window width height (ws_window s) \<and>
    (\<forall>j \<in> set (visible_window_ids c). j \<noteq> i \<longrightarrow>
       (\<exists>t. bt_get (co_windows (tile_windows e c)) j = Some t \<and> apart (ws_window s) (ws_window t)))"
proof -
  let ?ids = "visible_window_ids c"
  have d: "distinct ?ids" using visible_ids_distinct assms(1) .
  have cols: "0 < cols" using grid_cols_ge [of 1 "length ?ids"] assms(4) by simp
  have wd: "i32 (int width) = int width" "i32 (int height) = int height" using assms(3) by (auto intro!: i32_id simp: in_i32_def screen_ok_def)
  define w where "w = int width div int cols"
  define h where "h = int height div int rows"
  have t: "tile_windows e c = tile_loop (int cols) w h 0 ?ids c"
    using assms(2,4,5,8) wd by (auto simp: tile_windows_def Let_def w_def h_def env_ok_def)
  have fit: "int cols * w \<le> int width" "int rows * h \<le> int height"
    unfolding w_def h_def by (metis of_nat_le_iff of_nat_mult zdiv_int times_div_less_eq_dividend)+
  have big: "MIN_WINDOW_WIDTH \<le> w" "MIN_WINDOW_HEIGHT \<le> h" using assms(6,7) by (simp_all add: w_def h_def zdiv_int)
  have at: "\<exists>s n. bt_get (co_windows (tile_windows e c)) a = Some s \<and> a = ?ids ! n \<and>
      uint (win_x (ws_window s)) = int n mod int cols * w \<and> uint (win_y (ws_window s)) = int n div int cols * h \<and>
      uint (win_width (ws_window s)) = w \<and> uint (win_height (ws_window s)) = h \<and> on_screen_window width height (ws_window s)"
    if a: "a \<in> set ?ids" for a
  proof -
    obtain n where n: "n < length ?ids" "a = ?ids ! n" using a unfolding in_set_conv_nth by blast
    obtain s where s: "bt_get (co_windows c) a = Some s" using a by (auto simp: visible_window_ids_def split: option.splits)
    have "n < cols * rows" using rows_enough [OF cols, of "length ?ids"] n(1) assms(5) by simp
    then have kn: "int n < int cols * int rows" by (metis of_nat_less_iff of_nat_mult)
    have g: "bt_get (co_windows (tile_windows e c)) a = Some (map_window (tile_window (int cols) w h (int n)) s)"
      unfolding t tile_loop_get [OF d] using position_nth [OF d n(1)] n(2) s by simp
    have u: "let v = tile_window (int cols) w h (int n) (ws_window s) in uint (win_x v) = int n mod int cols * w \<and> uint (win_y v) = int n div int cols * h \<and>
        uint (win_width v) = w \<and> uint (win_height v) = h \<and> int n mod int cols * w + w \<le> int width \<and> int n div int cols * h + h \<le> int height"
      by (rule tile_window_uint [OF _ kn _ big fit]) (use cols assms(3) in \<open>simp_all add: screen_ok_def\<close>)
    show ?thesis by (intro exI [of _ "map_window (tile_window (int cols) w h (int n)) s"] exI [of _ n])
        (use g n(2) u in \<open>simp add: map_window_def on_screen_window_def Let_def\<close>)
  qed
  obtain s n where s: "bt_get (co_windows (tile_windows e c)) i = Some s" "i = ?ids ! n"
      "uint (win_x (ws_window s)) = int n mod int cols * w" "uint (win_y (ws_window s)) = int n div int cols * h"
      "uint (win_width (ws_window s)) = w" "uint (win_height (ws_window s)) = h" "on_screen_window width height (ws_window s)"
    using at [OF assms(8)] by blast
  have "\<exists>u. bt_get (co_windows (tile_windows e c)) j = Some u \<and> apart (ws_window s) (ws_window u)"
    if j: "j \<in> set ?ids" "j \<noteq> i" for j
  proof -
    obtain u m where u: "bt_get (co_windows (tile_windows e c)) j = Some u" "j = ?ids ! m"
        "uint (win_x (ws_window u)) = int m mod int cols * w" "uint (win_y (ws_window u)) = int m div int cols * h"
        "uint (win_width (ws_window u)) = w" "uint (win_height (ws_window u)) = h" "on_screen_window width height (ws_window u)"
      using at [OF j(1)] by blast
    have "apart (ws_window s) (ws_window u)" unfolding apart_def s u
      by (rule cells_apart) (use s(2) u(2) j(2) big in \<open>auto simp: window_consts\<close>)
    then show ?thesis using u(1) by blast
  qed
  then show ?thesis using s(1,7) by blast
qed

lemma desk_visible: "visible_window_ids (demo_desk True) = [7, 8]"
  by (simp add: visible_window_ids_def ordered_window_ids_def window_visible_def desk_surface_def new_surface_def default_window_def)

theorem tile_no_overlap_witness:
  "\<exists>s t. bt_get (co_windows (tile_windows demo_env (demo_desk True))) 7 = Some s \<and> bt_get (co_windows (tile_windows demo_env (demo_desk True))) 8 = Some t \<and>
    on_screen_window 640 480 (ws_window s) \<and> apart (ws_window s) (ws_window t)"
proof -
  have "grid_cols (Suc 0) (Suc (Suc 0)) = 2" by (simp add: grid_cols.simps)
  then show ?thesis using tile_no_overlap [OF demo_desk_ok demo_env_ok, of 2 True 1 7] by (auto simp: desk_visible window_consts)
qed

definition edge_drag :: "bool \<Rightarrow> int \<Rightarrow> compositor" where
  "edge_drag left x =
     (demo_desk True)\<lparr>co_drag := Some \<lparr>ds_window_id = 7, ds_kind = DragResize \<lparr>re_left = left, re_right = \<not> left, re_top = False, re_bottom = False\<rparr> 34 100 32 32 320 200\<rparr>,
       co_cursor := \<lparr>cu_x = x, cu_y = 100, cu_buttons = 1, cu_visible = True, cu_kind = CkArrow\<rparr>\<rparr>"

theorem resize_keeps_other_edge_witness:
  "\<exists>s'. bt_get (co_windows (continue_drag demo_env (edge_drag True 50))) 7 = Some s' \<and>
    sint (win_x (ws_window s')) + sint (win_width (ws_window s')) = 352"
  using resize_keeps_other_edge [of "edge_drag True 50" 7 _ 34 100 32 32 320 200 "desk_surface 7 True" demo_env]
  by (auto simp: edge_drag_def near_def window_consts)

theorem left_resize_grows_witness:
  "\<exists>s'. bt_get (co_windows (continue_drag demo_env (edge_drag True 0))) 7 = Some s' \<and> win_x (ws_window s') = 0 \<and> sint (win_width (ws_window s')) = 356"
  using left_resize_grows [of "edge_drag True 0" 7 _ 34 100 32 32 320 200 "desk_surface 7 True" demo_env]
  by (auto simp: edge_drag_def near_def window_consts)

end
