(* ===== verification/Window_Props.thy ===== *)
theory Window_Props
  imports Window_Invariants
begin

text \<open>
  What the window manager does for the user: every event is handled, a click brings a window to the front,
  windows can be resized and tiled, ticks come to rest; and where it does not do what it means to.
\<close>

section \<open>Raising\<close>

lemma bump_modes_id: "(\<And>m. m \<in> set ms \<Longrightarrow> i \<notin> set (ms_windows m)) \<Longrightarrow> bump_modes i ms = ms"
  by (induction ms) simp_all

lemma slot_windows_members: "set (ms_windows m) \<subseteq> set (slot_members m)"
  by (auto simp: slot_members_def)

lemma slot_in_modes: "m \<in> set ms \<Longrightarrow> set (slot_members m) \<subseteq> set (mode_members ms)"
  by (auto simp: mode_members_def)

lemma bump_modes_nth:
  "distinct (mode_members ms) \<Longrightarrow> k < length ms \<Longrightarrow> i \<in> set (ms_windows (ms ! k)) \<Longrightarrow>
   bump_modes i ms = ms[k := (ms ! k)\<lparr>ms_windows := remove1 i (ms_windows (ms ! k)) @ [i]\<rparr>]"
proof (induction ms arbitrary: k)
  case (Cons m ms)
  show ?case
  proof (cases k)
    case (Suc j)
    have "i \<in> set (mode_members ms)"
      using Cons.prems Suc slot_windows_members [of "ms ! j"] slot_in_modes [of "ms ! j" ms] by auto
    then have "i \<notin> set (ms_windows m)" using Cons.prems(1) slot_windows_members [of m] by auto
    then show ?thesis using Cons.IH [of j] Cons.prems Suc by simp
  qed (use Cons.prems in simp)
qed simp

lemma mode_members_append [simp]: "mode_members (ms @ ns) = mode_members ms @ mode_members ns"
  by (simp add: mode_members_def)

lemma member_of_one_slot:
  assumes "distinct (mode_members ms)" "a \<in> set ms" "b \<in> set ms" "i \<in> set (slot_members a)" "i \<in> set (slot_members b)"
  shows "a = b"
proof -
  obtain pre post where ms: "ms = pre @ a # post" using assms(2) by (meson split_list)
  then have "b \<notin> set pre" "b \<notin> set post" using assms slot_in_modes [of b pre] slot_in_modes [of b post] by auto
  then show ?thesis using assms(3) ms by auto
qed

text \<open>What the search for a window under a point, and the place of a window, depend on.\<close>

definition frame_of :: "window_surface \<Rightarrow> bool \<times> u64 \<times> u64 \<times> u64 \<times> u64 \<times> bool \<times> uuid option" where
  "frame_of s = (win_visible (ws_window s), win_x (ws_window s), win_y (ws_window s), win_width (ws_window s), win_height (ws_window s),
     win_is_place_root (ws_window s), win_place_id (ws_window s))"

definition same_frames :: "compositor \<Rightarrow> compositor \<Rightarrow> bool" where
  "same_frames c c' \<longleftrightarrow> (\<forall>i. map_option frame_of (bt_get (co_windows c') i) = map_option frame_of (bt_get (co_windows c) i))"

lemma same_frames_trans: "same_frames a b \<Longrightarrow> same_frames b c \<Longrightarrow> same_frames a c"
  by (simp add: same_frames_def)

lemma same_frames_windows: "co_windows c' = co_windows c \<Longrightarrow> same_frames c c'"
  by (simp add: same_frames_def)

lemma same_frames_with: "(\<And>s. frame_of (f s) = frame_of s) \<Longrightarrow> same_frames c (with_window i f c)"
  by (simp add: same_frames_def with_window_get option.map_comp o_def)

lemma same_frames_visible: "same_frames c c' \<Longrightarrow> window_visible c' i = window_visible c i"
  unfolding same_frames_def window_visible_def
  by (drule spec [of _ i]) (auto simp: frame_of_def Let_def split: option.splits)

lemma find_in_cong: "same_frames c c' \<Longrightarrow> find_in (co_windows c') x y ids = find_in (co_windows c) x y ids"
proof (induction ids)
  case (Cons i ids)
  have "map_option frame_of (bt_get (co_windows c') i) = map_option frame_of (bt_get (co_windows c) i)"
    using Cons.prems by (simp add: same_frames_def)
  then show ?case using Cons
    by (cases "bt_get (co_windows c) i"; cases "bt_get (co_windows c') i") (simp_all add: frame_of_def Let_def window_at_def)
qed simp

lemma ordered_cong:
  "same_frames c c' \<Longrightarrow> co_modes c' = co_modes c \<Longrightarrow> co_active_mode c' = co_active_mode c \<Longrightarrow> ordered_window_ids c' = ordered_window_ids c"
  using ext [of "window_visible c'" "window_visible c", OF same_frames_visible] by (simp add: ordered_window_ids_def active_slot_def split: option.split)

lemma find_window_cong:
  "same_frames c c' \<Longrightarrow> co_modes c' = co_modes c \<Longrightarrow> co_active_mode c' = co_active_mode c \<Longrightarrow> find_window_at c' x y = find_window_at c x y"
  by (simp add: find_window_at_def ordered_cong find_in_cong)

lemma drop_active_frames: "same_frames c (drop_active c)"
proof (cases "co_active_window c")
  case (Some prev)
  have "same_frames (c\<lparr>co_active_window := None\<rparr>) (deactivate prev (c\<lparr>co_active_window := None\<rparr>))"
    unfolding deactivate_def
    by (rule same_frames_trans [OF same_frames_with same_frames_windows]) (simp_all add: map_window_def frame_of_def)
  then show ?thesis by (simp add: drop_active_def Some same_frames_def)
qed (simp add: drop_active_def same_frames_def)

lemma activate_frames: "same_frames c (activate i c)"
  unfolding activate_def Let_def
  by (rule same_frames_trans [OF same_frames_with same_frames_windows]) (simp_all add: map_window_def frame_of_def)

lemma activate_modes [simp]: "co_modes (activate i c) = bump_modes i (co_modes c)"
  by (simp add: activate_def Let_def)

lemma set_active_frames: "same_frames c (set_active_window (Some i) c)"
  using same_frames_trans [OF drop_active_frames activate_frames] by (auto simp: set_active_window_split same_frames_def)

lemma active_slot_mem: "wm_ok w h c \<Longrightarrow> active_slot c \<in> set (co_modes c)"
  by (simp add: wm_ok_def active_slot_def)

lemma set_active_finds:
  assumes ok: "wm_ok w h c" and f: "find_window_at c x y = Some (i, wx, wy)"
  shows "find_window_at (set_active_window (Some i) c) x y = Some (i, wx, wy)"
    and "co_active_window c \<noteq> Some i \<Longrightarrow> ms_root_window (active_slot c) \<noteq> Some i \<Longrightarrow> last (ordered_window_ids (set_active_window (Some i) c)) = i"
proof -
  let ?c = "set_active_window (Some i) c"
  have d: "distinct (mode_members (co_modes c))" and len: "co_active_mode c < length (co_modes c)" using ok by (simp_all add: wm_ok_def)
  obtain s where s: "i \<in> set (ordered_window_ids c)" "bt_get (co_windows c) i = Some s" "win_visible (ws_window s)" "window_at s x y"
      "wx = u64_i32 (win_x (ws_window s))" "wy = u64_i32 (win_y (ws_window s))"
    using find_in_Some [OF f [unfolded find_window_at_def]] by auto
  have slot: "ms_root_window (active_slot c) = Some i \<or> i \<in> set (ms_windows (active_slot c))"
    using s(1) by (cases "ms_root_window (active_slot c)") (auto simp: ordered_window_ids_def split: if_splits)
  consider (same) "co_active_window c = Some i" | (top) "co_active_window c \<noteq> Some i" "i \<in> set (ms_windows (active_slot c))"
    | (below) "co_active_window c \<noteq> Some i" "ms_root_window (active_slot c) = Some i" "i \<notin> set (ms_windows (active_slot c))"
    using slot by blast
  then have "find_window_at ?c x y = Some (i, wx, wy) \<and>
      (co_active_window c \<noteq> Some i \<longrightarrow> ms_root_window (active_slot c) \<noteq> Some i \<longrightarrow> last (ordered_window_ids ?c) = i)"
  proof cases
    case same
    then show ?thesis using f by (simp add: set_active_window_split)
  next
    case top
    have vis: "window_visible ?c i" using same_frames_visible [OF set_active_frames] s(2,3) by (simp add: window_visible_def)
    have "co_modes ?c = bump_modes i (co_modes c)" using top(1) by (simp add: set_active_window_split)
    then have "ms_windows (active_slot ?c) = remove1 i (ms_windows (active_slot c)) @ [i]"
      using bump_modes_nth [OF d len] top(2) len by (simp add: active_slot_def)
    then obtain ids where ids: "ordered_window_ids ?c = ids @ [i]" using vis by (simp add: ordered_window_ids_def)
    have "find_in (co_windows c) x y (rev (ordered_window_ids ?c)) = Some (i, wx, wy)" using s by (simp add: ids)
    then have "find_window_at ?c x y = Some (i, wx, wy)" unfolding find_window_at_def find_in_cong [OF set_active_frames] .
    then show ?thesis by (simp add: ids)
  next
    case below
    have "i \<in> set (slot_members (active_slot c))" using below(2) by (simp add: slot_members_def)
    then have "i \<notin> set (ms_windows m)" if "m \<in> set (co_modes c)" for m
      using member_of_one_slot [OF d active_slot_mem [OF ok] that] below(3) slot_windows_members [of m] by blast
    then have "co_modes ?c = co_modes c" using below(1) by (simp add: set_active_window_split bump_modes_id)
    then show ?thesis using find_window_cong [OF set_active_frames] f below(2) by simp
  qed
  then show "find_window_at ?c x y = Some (i, wx, wy)"
    and "co_active_window c \<noteq> Some i \<Longrightarrow> ms_root_window (active_slot c) \<noteq> Some i \<Longrightarrow> last (ordered_window_ids ?c) = i" by auto
qed

text \<open>Pressing the button moves no window and changes nothing but the scrolling of one.\<close>

lemma set_scroll_frames: "same_frames c (snd (set_scroll_offset e i y c))" and set_scroll_modes [simp]:
  "co_modes (snd (set_scroll_offset e i y c)) = co_modes c" "co_active_mode (snd (set_scroll_offset e i y c)) = co_active_mode c"
  "co_active_window (snd (set_scroll_offset e i y c)) = co_active_window c" "co_cursor (snd (set_scroll_offset e i y c)) = co_cursor c"
  by (auto simp: set_scroll_offset_def Let_def same_frames_windows intro!: same_frames_with split: option.split) (simp_all add: frame_of_def)

definition undisturbed :: "compositor \<Rightarrow> compositor \<Rightarrow> bool" where
  "undisturbed c c' \<longleftrightarrow> same_frames c c' \<and> co_modes c' = co_modes c \<and> co_active_mode c' = co_active_mode c \<and>
     co_active_window c' = co_active_window c \<and> co_cursor c' = co_cursor c"

lemma press_undisturbed:
  "undisturbed c (press_widget i c)" "undisturbed c (press_frame i wx wy ww wh l c)"
  "press_scrollbar e i m c = Some c' \<Longrightarrow> undisturbed c c'"
  by (auto simp: undisturbed_def press_widget_def press_frame_def press_scrollbar_def start_drag_def scroll_window_by_def Let_def same_frames_windows
      set_scroll_frames split: option.splits if_splits)

lemma undisturbed_find: "undisturbed c c' \<Longrightarrow> find_window_at c' x y = find_window_at c x y"
  "undisturbed c c' \<Longrightarrow> ordered_window_ids c' = ordered_window_ids c"
  by (auto simp: undisturbed_def intro: find_window_cong ordered_cong)

lemma pointer_down_split:
  assumes "find_window_at c (cu_x (co_cursor c)) (cu_y (co_cursor c)) = Some (i, wx, wy)" "on_pointer_down e c = Some c'"
  shows "undisturbed (set_active_window (Some i) c) c'"
proof -
  have refl: "undisturbed k k" for k by (simp add: undisturbed_def same_frames_def)
  show ?thesis using assms(2) press_undisturbed refl unfolding on_pointer_down_def assms(1) Let_def
    by (auto split: option.splits)
qed

text \<open>
  C27: pressing the button over a window makes that window the active one, and it is still the window under the
  pointer. If it was not active before and is not the background of its mode, it is now in front of all others; if it
  was active already, the order of the windows stays as it was, and a window in front of it stays there.
\<close>

theorem click_raises_window:
  assumes "wm_ok width height c" "find_window_at c (cu_x (co_cursor c)) (cu_y (co_cursor c)) = Some (i, wx, wy)"
    and "on_pointer_down e c = Some c'"
  shows "co_active_window c' = Some i \<and> find_window_at c' (cu_x (co_cursor c')) (cu_y (co_cursor c')) = Some (i, wx, wy) \<and>
    (co_active_window c \<noteq> Some i \<longrightarrow> ms_root_window (active_slot c) \<noteq> Some i \<longrightarrow> last (ordered_window_ids c') = i) \<and>
    (co_active_window c = Some i \<longrightarrow> ordered_window_ids c' = ordered_window_ids c)"
proof -
  note u = pointer_down_split [OF assms(2,3)]
  have "co_active_window c' = Some i" "co_cursor c' = co_cursor c" using u by (simp_all add: undisturbed_def)
  moreover have "set_active_window (Some i) c = c" if "co_active_window c = Some i"
    using that by (simp add: set_active_window_split)
  ultimately show ?thesis using set_active_finds [OF assms(1,2)] undisturbed_find [OF u] by simp
qed

section \<open>Every event is handled\<close>

lemma hit_widget_total:
  assumes "widgets_ok (co_widgets c)" "bt_get (co_widgets c) i = None"
  shows "hit_widget e i l m c \<noteq> None"
  using hit_test_total [OF assms order_refl] by (fastforce simp: hit_widget_def)

lemma pointer_down_total:
  assumes "wm_ok w h c" "\<forall>i \<in> window_keys c. bt_get (co_widgets c) i = None"
  shows "\<exists>c'. on_pointer_down e c = Some c'"
proof (cases "find_window_at c (cu_x (co_cursor c)) (cu_y (co_cursor c))")
  case (Some p)
  obtain i wx wy where p: "p = (i, wx, wy)" by (metis prod_cases3)
  have "i \<in> window_keys c" using find_window_key Some p by blast
  then have "hit_widget e i l m (set_active_window (Some i) c) \<noteq> None" for l m
    using assms by (intro hit_widget_total) (simp_all add: wm_ok_def)
  then show ?thesis unfolding on_pointer_down_def Some p Let_def
    by (auto simp del: not_None_eq split: option.split)
qed (simp add: on_pointer_down_def)

lemma end_interaction_total:
  assumes "wm_ok w h c" "\<forall>i \<in> window_keys c. bt_get (co_widgets c) i = None"
  shows "\<exists>c'. end_widget_interaction e c = Some c'"
proof (cases "co_active_widget c")
  case (Some v)
  define d where "d = tell v canon_WIDGET [(canon_MOUSE_DOWN, VBool False)] c"
  have "hit_widget e i l m d \<noteq> None" if "find_window_at d x y = Some (i, wx, wy)" for i l m x y wx wy
    using assms find_window_key [OF that] by (intro hit_widget_total) (simp_all add: d_def wm_ok_def)
  then have "\<exists>c'. click_widget e v d = Some c'" unfolding click_widget_def
    by (auto simp del: not_None_eq split: option.split)
  then show ?thesis by (auto simp: end_widget_interaction_def Some d_def)
qed (simp add: end_widget_interaction_def)

lemma tab_total:
  assumes "wm_ok w h c" "\<forall>i \<in> window_keys c. bt_get (co_widgets c) i = None"
  shows "\<exists>c'. handle_tab_focus c = Some c'"
proof (cases "co_active_window c")
  case (Some i)
  then have "bt_get (co_widgets c) i = None" using assms by (simp add: wm_ok_def)
  then obtain r where "collect_focusable (Suc (length (co_widgets c))) (co_widgets c) i = Some r"
    using collect_window_total [of "co_widgets c" i "length (co_widgets c)"] assms(1) by (auto simp: wm_ok_def)
  then show ?thesis by (simp add: handle_tab_focus_def Some)
qed (simp add: handle_tab_focus_def)

lemma modifiers_simps [simp]:
  "co_widgets (key_modifiers s k d c) = co_widgets c" "window_keys (key_modifiers s k d c) = window_keys c"
  by (simp_all add: key_modifiers_def Let_def window_keys_def)

lemma key_total:
  assumes "wm_ok w h c" "\<forall>i \<in> window_keys c. bt_get (co_widgets c) i = None"
  shows "\<exists>c'. ingest_key_event e t c = Some c'"
proof -
  have "\<exists>c'. handle_tab_focus (key_modifiers s k d c) = Some c'" for s k d using assms by (intro tab_total [of w h]) simp_all
  then have "\<exists>c'. key_command e k (key_modifiers s k d c) = Some c'" for s k d unfolding key_command_def by simp
  then show ?thesis unfolding ingest_key_event_def Let_def by (auto split: option.split)
qed

lemma mouse_total:
  assumes "wm_ok w h c" "env_ok w h e" "screen_ok w h" "\<forall>i \<in> window_keys c. bt_get (co_widgets c) i = None"
  shows "\<exists>c'. on_mouse_event e dx dy b c = Some c'"
proof -
  define d where "d = c\<lparr>co_cursor := cursor_update dx dy (ucast b) (en_width e) (en_height e) (co_cursor c)\<rparr>"
  have d: "wm_ok w h d" "\<forall>i \<in> window_keys d. bt_get (co_widgets d) i = None"
    using assms cursor_update_on_screen [of w h dx dy "ucast b" "co_cursor c"]
    by (auto simp: d_def pointer_ok_def env_ok_def screen_ok_def intro!: wm_ok_cursor)
  obtain c1 where c1: "on_pointer_down e d = Some c1" using pointer_down_total [OF d] by blast
  have r: "window_keys (release_drag d) = window_keys d" "co_widgets (release_drag d) = co_widgets d"
    by (simp_all add: release_drag_def on_close_button_up_def hide_window_def Let_def split: option.split)
  obtain c2 where c2: "end_widget_interaction e (release_drag d) = Some c2"
    using end_interaction_total [of w h "release_drag d" e] d r by auto
  show ?thesis unfolding on_mouse_event_def Let_def d_def [symmetric] using c1 c2 by auto
qed

lemma surface_total:
  assumes "\<And>su b. surface_load t = Some su \<Longrightarrow> su_bitmap su = Some b \<Longrightarrow> \<exists>r. decode_bmp b = Inr r"
  shows "\<exists>c'. ingest_surface e t c = Some c'"
proof (cases "Option.bind (surface_load t) su_window")
  case None
  then show ?thesis by (auto simp: ingest_surface_def bind_eq_None_conv split: option.splits)
next
  case (Some i)
  then obtain su where su: "surface_load t = Some su" "su_window su = Some i" by (auto simp: bind_eq_Some_conv)
  have pic: "\<exists>bm. surface_picture (su_bitmap su) k = Inr bm" for k
    using assms [OF su(1)] by (cases "su_bitmap su") (force simp: surface_picture_def split: option.split)+
  define v where "v = unwrap_or (default_window i) (Option.bind (en_get_thing e i) window_load)"
  obtain bar close c0 where ch: "ensure_window_chrome e i (win_title v) c = ((bar, close), c0)" by (metis prod.exhaust)
  show ?thesis unfolding ingest_surface_def su option.case v_def [symmetric] ch Let_def prod.case
    using pic by (cases "bt_get (co_windows c) i") (auto split: sum.split, (metis sum.distinct(1))+)
qed

text \<open>
  The requests an event sends go to a runtime that panics on some of them: the kernel runtime of a user task cannot
  read back a thing of more than 4096 bytes. An event on such a runtime fails when one of its requests does.
\<close>

definition answered :: "(wm_out \<Rightarrow> bool) \<Rightarrow> compositor \<Rightarrow> compositor \<Rightarrow> bool" where
  "answered served c c' \<longleftrightarrow> list_all served (drop (length (co_out c)) (co_out c'))"

definition on_event_with :: "(wm_out \<Rightarrow> bool) \<Rightarrow> wm_env \<Rightarrow> watch_kind \<Rightarrow> graph_thing \<Rightarrow> compositor \<Rightarrow> compositor option" where
  "on_event_with served e k t c =
     (case on_event e k t c of None \<Rightarrow> None | Some c' \<Rightarrow> if answered served c c' then Some c' else None)"

text \<open>
  C26: every event is handled: in a state that satisfies the invariant, no event makes the compositor fail or search forever,
  provided no widget has the identifier of a window, the picture of a surface does not break the decoder, and the runtime
  answers the requests the event sends.
\<close>

theorem event_handled:
  assumes "wm_ok width height c" "env_ok width height e" "screen_ok width height"
    and "\<forall>i \<in> window_keys c. bt_get (co_widgets c) i = None"
    and "\<And>su b. surface_load t = Some su \<Longrightarrow> su_bitmap su = Some b \<Longrightarrow> \<exists>r. decode_bmp b = Inr r"
    and "\<And>c'. on_event e k t c = Some c' \<Longrightarrow> answered served c c'"
  shows "\<exists>c'. on_event_with served e k t c = Some c'"
proof -
  have "\<exists>c'. on_event e k t c = Some c'"
    using mouse_total [OF assms(1-4)] key_total [OF assms(1,4)] surface_total [OF assms(5)]
    by (cases k) (auto simp: ingest_input_event_def Let_def split: option.split prod.split)
  then show ?thesis using assms(6) by (auto simp: on_event_with_def)
qed

lemma u64_i32_small [simp]: "uint v < 2147483648 \<Longrightarrow> u64_i32 v = uint v"
  unfolding u64_i32_def in_i32_def [symmetric] by (intro i32_id) (simp add: in_i32_def order_trans [OF _ uint_ge_0])

lemma desk_at: "window_at (desk_surface i v) 150 150" "win_visible (ws_window (desk_surface i v)) = v"
  by (simp_all add: desk_surface_def new_surface_def default_window_def window_at_def Let_def i32_id in_i32_def)

lemma desk_find: "find_window_at (demo_desk True) 150 150 = Some (8, 32, 32)"
  using desk_at [of 8 True] desk_at [of 7 True]
  by (simp add: find_window_at_def ordered_window_ids_def window_visible_def)
    (simp add: desk_surface_def new_surface_def default_window_def)

definition no_event :: graph_thing where
  "no_event = \<lparr>thing_id = 1, thing_kind = canon_INPUT_EVENT, thing_labels = [], thing_fields = [], thing_owner = 1, thing_revision = 1\<rparr>"

theorem event_handled_witness:
  "\<exists>c'. on_event_with (\<lambda>r. case r of OutReq q \<Rightarrow> True | OutSpawn n \<Rightarrow> False) demo_env WatchMouse no_event (demo_desk True) = Some c'"
proof (rule event_handled [OF demo_desk_ok demo_env_ok])
  have "canon_INPUT_EVENT \<noteq> canon_SURFACE" by code_simp
  then show "\<exists>r. decode_bmp b = Inr r" if "surface_load no_event = Some su" "su_bitmap su = Some b" for su b
    using that by (simp add: surface_load_def no_event_def)
  show "answered (\<lambda>r. case r of OutReq q \<Rightarrow> True | OutSpawn n \<Rightarrow> False) (demo_desk True) c'"
    if "on_event demo_env WatchMouse no_event (demo_desk True) = Some c'" for c'
    using that by (auto simp: no_event_def ingest_input_event_def answered_def field_def)
qed simp

theorem click_raises_window_witness:
  "\<exists>c'. on_pointer_down demo_env (demo_desk True) = Some c' \<and> co_active_window c' = Some 8 \<and> last (ordered_window_ids c') = 8"
proof -
  obtain c' where c': "on_pointer_down demo_env (demo_desk True) = Some c'"
    using pointer_down_total [OF demo_desk_ok, of True demo_env] by auto
  have "find_window_at (demo_desk True) (cu_x (co_cursor (demo_desk True))) (cu_y (co_cursor (demo_desk True))) = Some (8, 32, 32)"
    using desk_find by simp
  then show ?thesis using click_raises_window [OF demo_desk_ok _ c'] c' by simp
qed

end
