(* ===== verification/Window_Ticks.thy ===== *)
theory Window_Ticks
  imports Window_Props
begin

text \<open>What the frames show, and when there is nothing more to show.\<close>

section \<open>A frame that changes nothing\<close>

text \<open>What the preparation of a frame looks at.\<close>

definition same_view :: "compositor \<Rightarrow> compositor \<Rightarrow> bool" where
  "same_view c c' \<longleftrightarrow> (\<forall>i. map_option ws_window (bt_get (co_windows c') i) = map_option ws_window (bt_get (co_windows c) i)) \<and>
     co_modes c' = co_modes c \<and> co_active_mode c' = co_active_mode c \<and> co_active_window c' = co_active_window c \<and>
     co_active_place c' = co_active_place c \<and> co_drag c' = co_drag c \<and> co_cursor c' = co_cursor c \<and> co_sprites c' = co_sprites c"

lemma same_view_trans: "same_view a b \<Longrightarrow> same_view b c \<Longrightarrow> same_view a c"
  by (simp add: same_view_def)

lemma same_view_refl [simp]: "same_view c c"
  by (simp add: same_view_def)

lemma same_view_window: "same_view c c' \<Longrightarrow> bt_get (co_windows c') i = Some s' \<Longrightarrow> \<exists>s. bt_get (co_windows c) i = Some s \<and> ws_window s' = ws_window s"
  by (cases "bt_get (co_windows c) i") (auto simp: same_view_def dest!: spec [of _ i])

lemma same_view_frames: "same_view c c' \<Longrightarrow> same_frames c c'"
  unfolding same_frames_def
proof
  fix i assume "same_view c c'"
  then have "map_option ws_window (bt_get (co_windows c') i) = map_option ws_window (bt_get (co_windows c) i)" by (simp add: same_view_def)
  then show "map_option frame_of (bt_get (co_windows c') i) = map_option frame_of (bt_get (co_windows c) i)"
    by (cases "bt_get (co_windows c) i"; cases "bt_get (co_windows c') i") (simp_all add: frame_of_def)
qed

lemma view_ordered: "same_view c c' \<Longrightarrow> ordered_window_ids c' = ordered_window_ids c"
  using ordered_cong same_view_frames by (simp add: same_view_def)

lemma view_find: "same_view c c' \<Longrightarrow> find_window_at c' x y = find_window_at c x y"
  using find_window_cong same_view_frames by (simp add: same_view_def)

lemma view_kind:
  assumes "same_view c c'"
  shows "compute_cursor_kind c' = compute_cursor_kind c"
proof -
  have w: "map_option ws_window (bt_get (co_windows c') i) = map_option ws_window (bt_get (co_windows c) i)" for i
    using assms by (simp add: same_view_def)
  have eq: "co_drag c' = co_drag c" "co_cursor c' = co_cursor c" using assms by (simp_all add: same_view_def)
  show ?thesis
  proof (cases "find_window_at c (cu_x (co_cursor c)) (cu_y (co_cursor c))")
    case None
    then show ?thesis using eq view_find [OF assms] by (cases "co_drag c") (simp_all add: compute_cursor_kind_def)
  next
    case (Some p)
    obtain i wx wy where "p = (i, wx, wy)" by (metis prod_cases3)
    then show ?thesis using w [of i] Some eq view_find [OF assms]
      by (cases "co_drag c"; cases "bt_get (co_windows c) i"; cases "bt_get (co_windows c') i") (simp_all add: compute_cursor_kind_def)
  qed
qed

text \<open>Sending requests, and giving scrollbars to windows, is not seen.\<close>

lemma view_send [simp]: "same_view c (send r c)" "same_view c (tell i k fs c)"
  by (simp_all add: same_view_def send_def tell_def)

lemma view_with: "(\<And>s. ws_window (f s) = ws_window s) \<Longrightarrow> same_view c (with_window i f c)"
  by (simp add: same_view_def with_window_get option.map_comp o_def) (simp add: with_window_def split: option.split)

lemma flags_send [simp]:
  "co_content_dirty (send r c) = co_content_dirty c" "co_fb_dirty (send r c) = co_fb_dirty c" "co_cursor_prev (send r c) = co_cursor_prev c"
  "co_content_dirty (tell i k fs c) = co_content_dirty c" "co_fb_dirty (tell i k fs c) = co_fb_dirty c" "co_cursor_prev (tell i k fs c) = co_cursor_prev c"
  "co_content_dirty (with_window j f c) = co_content_dirty c" "co_fb_dirty (with_window j f c) = co_fb_dirty c" "co_cursor_prev (with_window j f c) = co_cursor_prev c"
  by (simp_all add: send_def tell_def with_window_def split: option.split)

definition quiet :: "compositor \<Rightarrow> compositor \<Rightarrow> bool" where
  "quiet c c' \<longleftrightarrow> same_view c c' \<and> co_content_dirty c' = co_content_dirty c \<and> co_fb_dirty c' = co_fb_dirty c \<and> co_cursor_prev c' = co_cursor_prev c"

lemma quiet_trans: "quiet a b \<Longrightarrow> quiet b c \<Longrightarrow> quiet a c"
  using same_view_trans by (auto simp: quiet_def)

lemma quiet_scrollbar: "quiet c (update_scrollbar e i c)"
  by (auto simp: quiet_def update_scrollbar_def ensure_scrollbar_def user_fiat_def Let_def
      intro!: same_view_trans [OF view_send(1) view_with] split: option.split)

lemma quiet_scrollbars: "quiet c (update_scrollbars e c)"
proof -
  have "quiet d (fold (update_scrollbar e) ids d)" for ids d
  proof (induction ids arbitrary: d)
    case (Cons i ids)
    then show ?case using quiet_trans [OF quiet_scrollbar Cons [of "update_scrollbar e i d"]] by simp
  qed (simp add: quiet_def)
  then show ?thesis by (simp add: update_scrollbars_def)
qed

text \<open>The windows of the current place fill the screen, and a window that can be seen is active.\<close>

definition place_settled :: "wm_env \<Rightarrow> compositor \<Rightarrow> bool" where
  "place_settled e c \<longleftrightarrow> (\<forall>i s place. co_active_place c = Some place \<longrightarrow> bt_get (co_windows c) i = Some s \<longrightarrow>
     win_is_place_root (ws_window s) \<longrightarrow> win_place_id (ws_window s) = Some place \<longrightarrow> fills_screen e (ws_window s))"

definition active_settled :: "compositor \<Rightarrow> bool" where
  "active_settled c \<longleftrightarrow>
     (case co_active_window c of Some a \<Rightarrow> window_visible c a
      | None \<Rightarrow> ordered_window_ids c = [] \<and> (\<forall>i s. bt_get (co_windows c) i = Some s \<longrightarrow> \<not> (win_active (ws_window s) \<and> win_visible (ws_window s))))"

lemma settled_view:
  assumes "same_view c c'"
  shows "place_settled e c \<Longrightarrow> place_settled e c'" "active_settled c \<Longrightarrow> active_settled c'"
proof -
  show "place_settled e c \<Longrightarrow> place_settled e c'"
    unfolding place_settled_def using same_view_window [OF assms] assms unfolding same_view_def by metis
  show "active_settled c \<Longrightarrow> active_settled c'"
    unfolding active_settled_def using same_view_window [OF assms] same_frames_visible [OF same_view_frames [OF assms]] view_ordered [OF assms] assms
    unfolding same_view_def by (auto split: option.splits) metis+
qed

lemma enforce_settled: "windows_ok (co_windows c) \<Longrightarrow> place_settled e c \<Longrightarrow> enforce_place_layout e c = c"
proof (cases "co_active_place c")
  case (Some place)
  assume a: "windows_ok (co_windows c)" "place_settled e c"
  have "enforce_root e place x d = d" if "x \<in> set (co_windows c)" for x d
  proof -
    obtain i s where x: "x = (i, s)" by fastforce
    then have "bt_get (co_windows c) i = Some s" using a(1) that by (simp add: windows_ok_def bt_get_eq_in_set)
    then show ?thesis using a(2) Some by (auto simp: enforce_root_def x place_settled_def)
  qed
  then have "fold (enforce_root e place) xs d = d" if "set xs \<subseteq> set (co_windows c)" for xs d
    using that by (induction xs arbitrary: d) simp_all
  then show ?thesis by (simp add: enforce_place_layout_def Some)
qed (simp add: enforce_place_layout_def)

lemma ensure_settled: "windows_ok (co_windows c) \<Longrightarrow> active_settled c \<Longrightarrow> ensure_active_window c = c"
proof (cases "co_active_window c")
  case None
  assume a: "windows_ok (co_windows c)" "active_settled c"
  then have "filter (\<lambda>(_, s). win_active (ws_window s) \<and> win_visible (ws_window s)) (co_windows c) = []" "ordered_window_ids c = []"
    using None by (auto simp: active_settled_def filter_empty_conv windows_ok_def bt_get_eq_in_set)
  then show ?thesis by (simp add: ensure_active_window_def None set_active_window_def last_opt_def)
qed (simp add: ensure_active_window_def active_settled_def)

lemma enforce_root_fields [simp]:
  "co_active_place (enforce_root e place x c) = co_active_place c" "co_fb_dirty (enforce_root e place x c) = co_fb_dirty c"
  by (simp_all add: enforce_root_def tell_def send_def with_window_def split: prod.split option.split)

lemma enforce_fold_get:
  assumes "distinct (map fst xs)" "\<forall>(i, s) \<in> set xs. bt_get (co_windows c) i = Some s"
  shows "bt_get (co_windows (fold (enforce_root e place) xs c)) j =
    (case map_of xs j of Some s \<Rightarrow> Some (if win_is_place_root (ws_window s) \<and> win_place_id (ws_window s) = Some place \<and> \<not> fills_screen e (ws_window s)
        then map_window (place_window 0 0 (of_nat (en_width e)) (of_nat (en_height e))) s else s)
     | None \<Rightarrow> bt_get (co_windows c) j)"
  using assms
proof (induction xs arbitrary: c)
  case (Cons x xs)
  obtain i s where x: "x = (i, s)" by fastforce
  let ?c = "enforce_root e place x c"
  have g: "bt_get (co_windows ?c) k = (if k = i \<and> win_is_place_root (ws_window s) \<and> win_place_id (ws_window s) = Some place \<and> \<not> fills_screen e (ws_window s)
      then Some (map_window (place_window 0 0 (of_nat (en_width e)) (of_nat (en_height e))) s) else bt_get (co_windows c) k)" for k
    using Cons.prems(2) by (simp add: enforce_root_def x with_window_get)
  have i: "i \<notin> fst ` set xs" using Cons.prems(1) x by simp
  then have "\<forall>(k, t) \<in> set xs. bt_get (co_windows ?c) k = Some t" using Cons.prems(2) g by (force simp: x)
  moreover have "map_of xs i = None" using i by (simp add: map_of_eq_None_iff)
  ultimately show ?case using Cons.IH [of ?c] Cons.prems x g by (auto split: option.splits)
qed simp

lemma enforce_settles:
  assumes "windows_ok (co_windows c)"
  shows "place_settled e (enforce_place_layout e c)"
proof (cases "co_active_place c")
  case (Some place)
  have d: "distinct (map fst (co_windows c))" "\<forall>(i, s) \<in> set (co_windows c). bt_get (co_windows c) i = Some s"
    using assms sorted_map_distinct by (auto simp: windows_ok_def bt_get_eq_in_set)
  have "co_active_place (fold (enforce_root e place) xs k) = co_active_place k" for xs k by (induction xs arbitrary: k) simp_all
  then show ?thesis using enforce_fold_get [OF d] Some
    by (auto simp: place_settled_def enforce_place_layout_def map_window_def place_window_def fills_screen_def split: option.splits if_splits)
qed (simp add: place_settled_def enforce_place_layout_def)

lemma drop_active_flags:
  "bt_get (co_windows (drop_active c)) i = Some s' \<Longrightarrow> win_active (ws_window s') \<Longrightarrow>
   \<exists>s. bt_get (co_windows c) i = Some s \<and> win_active (ws_window s) \<and> win_visible (ws_window s') = win_visible (ws_window s)"
  by (auto simp: drop_active_def deactivate_def with_window_get map_window_def split: option.splits if_splits)

lemma clear_active:
  "same_frames c (set_active_window None c)" "co_modes (set_active_window None c) = co_modes c"
  "bt_get (co_windows (set_active_window None c)) i = Some s' \<Longrightarrow> win_active (ws_window s') \<Longrightarrow>
   \<exists>s. bt_get (co_windows c) i = Some s \<and> win_active (ws_window s) \<and> win_visible (ws_window s') = win_visible (ws_window s)"
  using drop_active_frames [of c] drop_active_flags [of c i s'] by (auto simp: set_active_window_split same_frames_def split: if_splits)

lemma ensure_settles:
  assumes ok: "windows_ok (co_windows c)"
  shows "active_settled (ensure_active_window c)"
proof (cases "case co_active_window c of Some a \<Rightarrow> window_visible c a | None \<Rightarrow> False")
  case True
  then show ?thesis by (auto simp: ensure_active_window_def active_settled_def split: option.splits)
next
  case hidden: False
  let ?F = "filter (\<lambda>(_, s). win_active (ws_window s) \<and> win_visible (ws_window s)) (co_windows c)"
  let ?m = "max_by_key (\<lambda>(_, s). sint (win_z (ws_window s))) ?F"
  show ?thesis
  proof (cases ?m)
    case (Some q)
    obtain i s where q: "q = (i, s)" by fastforce
    have "bt_get (co_windows c) i = Some s" "win_visible (ws_window s)"
      using max_by_key_mem [OF Some] ok by (auto simp: q windows_ok_def bt_get_eq_in_set)
    then show ?thesis using hidden Some q by (simp add: ensure_active_window_def active_settled_def window_visible_def)
  next
    case None
    then have F: "?F = []" by (cases ?F) simp_all
    have e: "ensure_active_window c = set_active_window (last_opt (ordered_window_ids c)) c"
      using hidden None by (simp add: ensure_active_window_def)
    show ?thesis
    proof (cases "last_opt (ordered_window_ids c)")
      case none: None
      then have o: "ordered_window_ids c = []" by (simp add: last_opt_def split: if_splits)
      have "ordered_window_ids (set_active_window None c) = []" using o ordered_cong [OF clear_active(1,2)] by simp
      moreover have "\<not> (win_active (ws_window t) \<and> win_visible (ws_window t))" if t: "bt_get (co_windows (set_active_window None c)) j = Some t" for j t
      proof
        assume "win_active (ws_window t) \<and> win_visible (ws_window t)"
        then obtain s where "bt_get (co_windows c) j = Some s" "win_active (ws_window s)" "win_visible (ws_window s)"
          using clear_active(3) [OF t] by auto
        then have "(j, s) \<in> set ?F" using ok by (simp add: windows_ok_def bt_get_eq_in_set)
        then show False using F by simp
      qed
      ultimately show ?thesis using e none by (simp add: active_settled_def)
    next
      case (Some i)
      then have "window_visible c i" using last_opt_mem [OF Some] by (auto simp: ordered_window_ids_def split: option.splits if_splits)
      then show ?thesis using e Some same_frames_visible [OF set_active_frames] by (simp add: active_settled_def)
    qed
  qed
qed

lemma prepare_fields:
  "co_fb_dirty (enforce_place_layout e c) = co_fb_dirty c" "co_fb_dirty (ensure_active_window c) = co_fb_dirty c"
  "co_active_place (ensure_active_window c) = co_active_place c"
proof -
  have "co_fb_dirty (fold (enforce_root e place) xs k) = co_fb_dirty k" for place xs k by (induction xs arbitrary: k) simp_all
  then show "co_fb_dirty (enforce_place_layout e c) = co_fb_dirty c" by (simp add: enforce_place_layout_def split: option.split)
  have g: "co_fb_dirty (update_graph_state k) = co_fb_dirty k" "co_active_place (update_graph_state k) = co_active_place k"
      "co_fb_dirty (update_window_props i fs k) = co_fb_dirty k" "co_active_place (update_window_props i fs k) = co_active_place k" for k i fs
    by (simp_all add: update_graph_state_def update_window_props_def tell_def send_def)
  have "co_fb_dirty (set_active_window t c) = co_fb_dirty c \<and> co_active_place (set_active_window t c) = co_active_place c" for t
    by (auto simp: set_active_window_split activate_def drop_active_def deactivate_def bump_window_def with_window_def g Let_def split: option.split)
  then show "co_fb_dirty (ensure_active_window c) = co_fb_dirty c" "co_active_place (ensure_active_window c) = co_active_place c"
    by (simp_all add: ensure_active_window_def split: option.split prod.split)
qed

lemma ensure_frames: "same_frames c (ensure_active_window c)"
  using clear_active(1) [of c] set_active_frames [of c]
  by (auto simp: ensure_active_window_def same_frames_windows last_opt_def split: option.split prod.split)

lemma place_settled_frames:
  assumes "same_frames c c'" "co_active_place c' = co_active_place c" "place_settled e c"
  shows "place_settled e c'"
  unfolding place_settled_def
proof (intro allI impI)
  fix i s' place
  assume a: "co_active_place c' = Some place" "bt_get (co_windows c') i = Some s'" "win_is_place_root (ws_window s')" "win_place_id (ws_window s') = Some place"
  obtain s where s: "bt_get (co_windows c) i = Some s" "frame_of s = frame_of s'"
    using assms(1) [unfolded same_frames_def, rule_format, of i] a(2) by (cases "bt_get (co_windows c) i") simp_all
  have "co_active_place c = Some place" "win_is_place_root (ws_window s)" "win_place_id (ws_window s) = Some place"
    using s(2) a assms(2) by (simp_all add: frame_of_def)
  then have "fills_screen e (ws_window s)" using assms(3) s(1) unfolding place_settled_def by blast
  then show "fills_screen e (ws_window s')" using s(2) by (simp add: fills_screen_def frame_of_def)
qed

lemma cursor_kind_idem: "compute_cursor_kind (update_cursor_kind c) = compute_cursor_kind c"
proof -
  have f: "find_window_at (update_cursor_kind c) x y = find_window_at c x y" for x y
    by (rule find_window_cong) (simp_all add: update_cursor_kind_def same_frames_def)
  have e: "co_drag (update_cursor_kind c) = co_drag c" "co_windows (update_cursor_kind c) = co_windows c"
      "cu_x (co_cursor (update_cursor_kind c)) = cu_x (co_cursor c)" "cu_y (co_cursor (update_cursor_kind c)) = cu_y (co_cursor c)"
    by (simp_all add: update_cursor_kind_def set_kind_def)
  show ?thesis unfolding compute_cursor_kind_def e f by (rule refl)
qed

lemma publish_quiet: "quiet c (publish_frame_info e c) \<and> co_windows (publish_frame_info e c) = co_windows c"
  by (auto simp: quiet_def publish_frame_info_def user_fiat_def Let_def same_view_trans [OF view_send(1) view_send(1)] split: option.split)

lemma settled_cursor: "place_settled e (c\<lparr>co_cursor := k\<rparr>) = place_settled e c" "active_settled (c\<lparr>co_cursor := k\<rparr>) = active_settled c"
proof -
  have v: "window_visible (c\<lparr>co_cursor := k\<rparr>) i = window_visible c i" for i by (simp add: window_visible_def)
  have "ordered_window_ids (c\<lparr>co_cursor := k\<rparr>) = ordered_window_ids c" by (rule ordered_cong) (simp_all add: same_frames_def)
  then show "active_settled (c\<lparr>co_cursor := k\<rparr>) = active_settled c" by (cases "co_active_window c") (simp_all add: active_settled_def v)
qed (simp add: place_settled_def)

text \<open>The state after the preparation of a frame, seen by the next one.\<close>

lemma prepared_settled:
  assumes "windows_ok (co_windows c)" "windows_ok (co_windows (enforce_place_layout e c))" "same_view (prepare_frame e c) c'" "windows_ok (co_windows c')"
  shows "prepare_frame e c' = update_scrollbars e c'"
proof -
  define b where "b = ensure_active_window (enforce_place_layout e c)"
  have b: "place_settled e b" "active_settled b"
    using place_settled_frames [OF ensure_frames prepare_fields(3) enforce_settles [OF assms(1)]] ensure_settles [OF assms(2)] by (simp_all add: b_def)
  define k where "k = update_cursor_kind b"
  have k: "place_settled e k" "active_settled k"
    using b settled_cursor by (simp_all add: k_def update_cursor_kind_def)
  have kv: "same_view k c'"
    using same_view_trans [of k "update_scrollbars e k" c'] quiet_scrollbars [of k e] assms(3) by (simp add: quiet_def prepare_frame_def k_def b_def)
  have "enforce_place_layout e c' = c'" "ensure_active_window c' = c'"
    using enforce_settled ensure_settled settled_view [OF kv] k assms(4) by blast+
  moreover have "update_cursor_kind c' = c'"
  proof -
    have "co_cursor c' = set_kind (compute_cursor_kind b) (co_cursor b)" using kv by (simp add: same_view_def k_def update_cursor_kind_def)
    moreover have "compute_cursor_kind c' = compute_cursor_kind b" using view_kind [OF kv] cursor_kind_idem [of b] by (simp add: k_def)
    ultimately show ?thesis by (simp add: update_cursor_kind_def set_kind_def)
  qed
  ultimately show ?thesis by (simp add: prepare_frame_def)
qed

lemma quiet_rect: "same_view c c' \<Longrightarrow> get_cursor_rect c' = get_cursor_rect c"
  by (simp add: get_cursor_rect_def same_view_def)



section \<open>What is drawn\<close>

lemma scene_items_push [simp]: "scene_items (scene_push x sc) = scene_items sc @ [x]"
  by (simp add: scene_push_def)

lemma scene_items_fold [simp]: "scene_items (fold scene_push xs sc) = scene_items sc @ xs"
  by (induction xs arbitrary: sc) simp_all

lemma draw_mode_items:
  assumes "i \<in> set (ms_windows (active_slot c))" "bt_get (co_windows c) i = Some s" "x \<in> set (draw_window p e width height c s)"
  shows "x \<in> set (scene_items (draw_mode p e width height c sc))"
  using assms by (force simp: draw_mode_def push_items_def Let_def)

text \<open>
  C30: a window that was closed stays on the screen. The frame, the shadow and the content of every window of
  the mode are drawn, whether it is visible or not; only the pointer passes through a window that is not.
\<close>

theorem hidden_window_drawn:
  assumes "bt_get (co_windows c) i = Some s" "i \<in> set (ms_windows (active_slot c))" "\<not> win_visible (ws_window s)"
    and "win_width (ws_window s) \<noteq> 0" "win_height (ws_window s) \<noteq> 0"
    and "x = i32 (int (min (unat (win_x (ws_window s))) (en_width e)))" "y = i32 (int (min (unat (win_y (ws_window s))) (en_height e)))"
    and "compute_window_layout x y (i32 (uint (win_width (ws_window s)))) (i32 (uint (win_height (ws_window s)))) (i32 (int (co_title_bar_height c))) = Some l"
  shows "FillRect (rect_new x y (as_u32 (uint (win_width (ws_window s)))) (as_u32 (uint (win_height (ws_window s))))) frame_outer
      \<in> set (scene_items (build_scene p e c)) \<and> (\<forall>mx my wx wy. find_window_at c mx my \<noteq> Some (i, wx, wy))"
proof
  let ?r = "rect_new x y (as_u32 (uint (win_width (ws_window s)))) (as_u32 (uint (win_height (ws_window s))))"
  have "unat (win_width (ws_window s)) \<noteq> 0" "unat (win_height (ws_window s)) \<noteq> 0" using assms(4,5) by (simp_all add: unat_eq_zero)
  then have "FillRect ?r frame_outer \<in> set (draw_window p e (en_width e) (en_height e) c s)"
    using assms(6-8) by (simp add: draw_window_def frame_items_def Let_def)
  note drawn = draw_mode_items [OF assms(2,1) this]
  show "FillRect ?r frame_outer \<in> set (scene_items (build_scene p e c))"
    unfolding build_scene_def Let_def draw_cursor_def using drawn by simp
  show "\<forall>mx my wx wy. find_window_at c mx my \<noteq> Some (i, wx, wy)"
    using find_in_Some assms(1,3) by (fastforce simp: find_window_at_def)
qed

theorem hidden_window_drawn_witness:
  "FillRect (rect_new 32 32 320 200) frame_outer \<in> set (scene_items (build_scene demo_painter demo_env (demo_desk False)))"
proof -
  have w: "ws_window (desk_surface 8 False) = (default_window 8)\<lparr>win_visible := False\<rparr>" by (simp add: desk_surface_def new_surface_def)
  have size: "uint (win_width (ws_window (desk_surface 8 False))) = 320" "uint (win_height (ws_window (desk_surface 8 False))) = 200"
      "unat (win_x (ws_window (desk_surface 8 False))) = 32" "unat (win_y (ws_window (desk_surface 8 False))) = 32" by (simp_all add: w default_window_def)
  have small: "i32 32 = 32" "i32 320 = 320" "i32 200 = 200" "as_u32 320 = 320" "as_u32 200 = 200" by (simp_all add: i32_id in_i32_def as_u32_def)
  have "compute_window_layout 32 32 320 200 32 \<noteq> None" by (simp add: compute_window_layout_def Let_def window_consts i32_id in_i32_def)
  then obtain l where l: "compute_window_layout 32 32 320 200 32 = Some l" by auto
  have "FillRect (rect_new 32 32 (as_u32 (uint (win_width (ws_window (desk_surface 8 False))))) (as_u32 (uint (win_height (ws_window (desk_surface 8 False))))))
      frame_outer \<in> set (scene_items (build_scene demo_painter demo_env (demo_desk False)))"
  proof (rule conjunct1 [OF hidden_window_drawn [where i = 8 and l = l]])
    show "win_width (ws_window (desk_surface 8 False)) \<noteq> 0" "win_height (ws_window (desk_surface 8 False)) \<noteq> 0" using size by auto
    show "32 = i32 (int (min (unat (win_x (ws_window (desk_surface 8 False)))) (en_width demo_env)))"
      "32 = i32 (int (min (unat (win_y (ws_window (desk_surface 8 False)))) (en_height demo_env)))" by (simp_all add: size small demo_env_def)
  qed (simp_all add: w default_window_def small l)
  then show ?thesis unfolding size small .
qed

section \<open>A surface before its window\<close>

lemma bump_members: "set (mode_members (bump_modes i ms)) = set (mode_members ms)"
  using bump_keeps_members by blast

lemma clamp_modes [simp]: "co_modes (clamp_scroll_for e i c) = co_modes c" "window_keys (clamp_scroll_for e i c) = window_keys c"
  by (simp_all add: clamp_scroll_for_def split: option.split)

lemma hint_modes [simp]: "co_modes (apply_window_rect_hint e i c) = co_modes c" "window_keys (apply_window_rect_hint e i c) = window_keys c"
  by (simp_all add: apply_window_rect_hint_def Let_def split: option.split)

lemma set_active_members: "set (mode_members (co_modes (set_active_window t c))) = set (mode_members (co_modes c))"
  by (auto simp: set_active_window_split bump_members split: option.split)

lemma surface_adds_window:
  assumes "surface_load t = Some su" "su_window su = Some i" "ingest_surface e t c = Some c1"
  shows "window_keys c1 = insert i (window_keys c) \<and> co_modes c1 = bump_modes i (co_modes c)"
proof -
  define v where "v = unwrap_or (default_window i) (Option.bind (en_get_thing e i) window_load)"
  obtain bar close c0 where ch: "ensure_window_chrome e i (win_title v) c = ((bar, close), c0)" by (metis prod.exhaust)
  have m: "co_modes c0 = co_modes c" "window_keys c0 = window_keys c" using ch by (auto simp: ensure_window_chrome_def Let_def)
  define d where "d = (if bt_get (co_windows c) i = None then c0\<lparr>co_windows := bt_insert i (new_surface v bar close) (co_windows c0)\<rparr> else c)"
  have "co_modes d = co_modes c" "insert i (window_keys d) = insert i (window_keys c)" using m by (auto simp: d_def window_keys_def)
  moreover have "\<exists>s'. c1 = apply_window_rect_hint e i (clamp_scroll_for e i (bump_window i (d\<lparr>co_windows := bt_insert i s' (co_windows d)\<rparr>)))"
    using assms(3) unfolding ingest_surface_def assms(1,2) option.case v_def [symmetric] ch Let_def prod.case d_def [symmetric]
    by (simp split: option.splits sum.splits) (rule exI, erule sym)
  moreover have "window_keys (d\<lparr>co_windows := bt_insert i s' (co_windows d)\<rparr>) = insert i (window_keys d)" for s' by (simp add: window_keys_def)
  ultimately show ?thesis by auto
qed

lemma ordered_members: "wm_ok w h c \<Longrightarrow> set (ordered_window_ids c) \<subseteq> set (mode_members (co_modes c))"
  using slot_in_modes [OF active_slot_mem, of w h c] by (auto simp: ordered_window_ids_def slot_members_def split: option.splits if_splits)

end
