(* ===== verification/Window_Lost.thy ===== *)
theory Window_Lost
  imports Window_Ticks
begin

text \<open>
  Windows that are known to the compositor but in no mode (\<open>src/compositor/src/compositor.rs\<close>): no event and no
  frame ever puts such a window into a mode, so a window whose surface is reported before the window itself stays
  off the screen for good.
\<close>

section \<open>A window in no mode stays in no mode\<close>

definition unplaced :: "uuid \<Rightarrow> compositor \<Rightarrow> bool" where
  "unplaced i c \<longleftrightarrow> i \<in> window_keys c \<and> i \<notin> set (mode_members (co_modes c))"

lemma unplaced_cong: "window_keys c' = window_keys c \<Longrightarrow> co_modes c' = co_modes c \<Longrightarrow> unplaced i c' = unplaced i c"
  by (simp add: unplaced_def)

lemma unplaced_flags [simp]:
  "unplaced i (c\<lparr>co_content_dirty := b\<rparr>) = unplaced i c" "unplaced i (c\<lparr>co_fb_dirty := b\<rparr>) = unplaced i c"
  "unplaced i (c\<lparr>co_out := os\<rparr>) = unplaced i c" "unplaced i (c\<lparr>co_active_widget := aw\<rparr>) = unplaced i c"
  "unplaced i (c\<lparr>co_alt := b\<rparr>) = unplaced i c" "unplaced i (c\<lparr>co_shift := b\<rparr>) = unplaced i c"
  "unplaced i (c\<lparr>co_debug_layout := b\<rparr>) = unplaced i c" "unplaced i (c\<lparr>co_debug_overlay := b\<rparr>) = unplaced i c"
  "unplaced i (c\<lparr>co_auto_done := b\<rparr>) = unplaced i c" "unplaced i (c\<lparr>co_fb_id := f\<rparr>) = unplaced i c"
  "unplaced i (c\<lparr>co_active_place := p\<rparr>) = unplaced i c" "unplaced i (c\<lparr>co_uuid_counter := n\<rparr>) = unplaced i c"
  "unplaced i (c\<lparr>co_layers := ls\<rparr>) = unplaced i c" "unplaced i (c\<lparr>co_title_bar_height := th\<rparr>) = unplaced i c"
  "unplaced i (c\<lparr>co_cursor_prev := r\<rparr>) = unplaced i c" "unplaced i (c\<lparr>co_frame_no := f'\<rparr>) = unplaced i c"
  "unplaced i (c\<lparr>co_active_window := a\<rparr>) = unplaced i c" "unplaced i (c\<lparr>co_drag := d\<rparr>) = unplaced i c"
  "unplaced i (c\<lparr>co_cursor := k\<rparr>) = unplaced i c" "unplaced i (c\<lparr>co_wallpapers := wps\<rparr>) = unplaced i c"
  "unplaced i (c\<lparr>co_widgets := wgs\<rparr>) = unplaced i c" "unplaced i (c\<lparr>co_active_mode := am\<rparr>) = unplaced i c"
  by (simp_all add: unplaced_def window_keys_def)

lemma unplaced_calls [simp]:
  "unplaced i (send r c) = unplaced i c" "unplaced i (tell j k fs c) = unplaced i c" "unplaced i (update_window_props j fs c) = unplaced i c"
  "unplaced i (update_graph_state c) = unplaced i c" "unplaced i (with_window j f c) = unplaced i c" "unplaced i (bump_window j c) = unplaced i c"
  "unplaced i (set_active_window t c) = unplaced i c" "unplaced i (clamp_scroll_for e j c) = unplaced i c"
  "unplaced i (apply_window_rect_hint e j c) = unplaced i c"
  by (simp_all add: unplaced_def bump_members set_active_members)

lemma unplaced_fold: "(\<And>x c. unplaced i (f x c) = unplaced i c) \<Longrightarrow> unplaced i (fold f xs c) = unplaced i c"
  by (induction xs arbitrary: c) simp_all

lemma unplaced_scroll [simp]:
  "unplaced i (snd (set_scroll_offset e j y c)) = unplaced i c" "unplaced i (snd (scroll_window_by e j d c)) = unplaced i c"
  "unplaced i (snd (handle_scroll_key e key c)) = unplaced i c"
proof -
  show s: "unplaced i (snd (set_scroll_offset e j y c)) = unplaced i c" for j y c
    by (simp add: set_scroll_offset_def Let_def split: option.split)
  show b: "unplaced i (snd (scroll_window_by e j d c)) = unplaced i c" for j d c
    by (simp add: scroll_window_by_def s split: option.split)
  show "unplaced i (snd (handle_scroll_key e key c)) = unplaced i c"
    by (simp add: handle_scroll_key_def scroll_window_to_start_def scroll_window_to_end_def s b split: option.split)
qed

lemma unplaced_pointer [simp]:
  "unplaced i (ensure_active_window c) = unplaced i c" "unplaced i (start_drag j k c) = unplaced i c"
  "unplaced i (continue_drag e c) = unplaced i c" "unplaced i (press_widget j c) = unplaced i c"
  "unplaced i (press_frame j wx wy ww wh l c) = unplaced i c" "unplaced i (continue_widget_interaction c) = unplaced i c"
  "unplaced i (dispatch_action a src c) = unplaced i c" "unplaced i (on_close_button_up j c) = unplaced i c"
  "unplaced i (release_drag c) = unplaced i c" "unplaced i (update_cursor_kind c) = unplaced i c"
  by (auto simp: ensure_active_window_def start_drag_def continue_drag_def place_window_def press_widget_def press_frame_def
      continue_widget_interaction_def dispatch_action_def hide_window_def on_close_button_up_def release_drag_def update_cursor_kind_def
      Let_def split: option.splits drag_kind.splits prod.splits)

lemma unplaced_press: "press_scrollbar e j m c = Some c' \<Longrightarrow> unplaced i c' = unplaced i c"
  by (auto simp: press_scrollbar_def Let_def split: option.splits if_splits)

lemma unplaced_down: "on_pointer_down e c = Some c' \<Longrightarrow> unplaced i c' = unplaced i c"
  by (auto simp: on_pointer_down_def Let_def dest: unplaced_press [of e _ _ _ _ i] split: option.splits prod.splits)

lemma unplaced_release: "end_widget_interaction e c = Some c' \<Longrightarrow> unplaced i c' = unplaced i c"
  by (auto simp: end_widget_interaction_def click_widget_def split: option.splits if_splits)

lemma unplaced_mouse: "on_mouse_event e dx dy b c = Some c' \<Longrightarrow> unplaced i c' = unplaced i c"
  by (auto simp: on_mouse_event_def Let_def bind_eq_Some_conv dest: unplaced_down [of e _ _ i] unplaced_release [of e _ _ i] split: if_splits)

lemma unplaced_tiling [simp]:
  "unplaced i (put_window j x y ww wh c) = unplaced i c" "unplaced i (tile_loop cols tw th k ids c) = unplaced i c"
  "unplaced i (tile_windows e c) = unplaced i c" "unplaced i (maybe_auto_tile_windows e c) = unplaced i c"
proof -
  show p: "unplaced i (put_window j x y ww wh c) = unplaced i c" for j x y ww wh c
    by (simp add: put_window_def place_window_def)
  show t: "unplaced i (tile_loop cols tw th k ids c) = unplaced i c" for cols tw th k ids c
    by (induction cols tw th k ids c rule: tile_loop.induct) (simp_all add: p)
  show "unplaced i (tile_windows e c) = unplaced i c" by (simp add: tile_windows_def Let_def t)
  show "unplaced i (maybe_auto_tile_windows e c) = unplaced i c"
    by (auto simp: maybe_auto_tile_windows_def layout_windows_in_area_def Let_def p unplaced_fold split_def)
qed

lemma unplaced_key: "ingest_key_event e t c = Some c' \<Longrightarrow> unplaced i c' = unplaced i c"
proof -
  have tab: "handle_tab_focus c = Some c' \<Longrightarrow> unplaced i c' = unplaced i c" for c c'
    by (auto simp: handle_tab_focus_def Let_def split: option.splits if_splits)
  have command: "key_command e k c = Some c' \<Longrightarrow> unplaced i c' = unplaced i c" for k c c'
    by (auto simp: key_command_def switch_mode_def dest: tab split: if_splits)
  have modifiers: "unplaced i (key_modifiers s k d c) = unplaced i c" for s k d c
    by (simp add: key_modifiers_def Let_def)
  assume "ingest_key_event e t c = Some c'"
  then show "unplaced i c' = unplaced i c"
    by (auto simp: ingest_key_event_def Let_def modifiers dest: command split: option.splits if_splits)
qed

section \<open>What is reported later\<close>

lemma unplaced_window_insert: "unplaced i c \<Longrightarrow> unplaced i (c\<lparr>co_windows := bt_insert j s (co_windows c)\<rparr>)"
  by (simp add: unplaced_def window_keys_def)

lemma unplaced_chrome: "ensure_window_chrome e j ttl c = (bs, c') \<Longrightarrow> unplaced i c' = unplaced i c"
  by (auto simp: ensure_window_chrome_def Let_def)

lemma unplaced_insert:
  assumes "unplaced i c"
  shows "unplaced i (insert_window e v c)"
proof -
  obtain bar close c1 where ch: "ensure_window_chrome e (win_id v) (win_title v) c = ((bar, close), c1)" by (metis prod.exhaust)
  then have "unplaced i c1" using unplaced_chrome assms by blast
  then show ?thesis by (simp add: insert_window_def ch unplaced_window_insert split: option.split)
qed

lemma unplaced_assign:
  assumes "unplaced i c" "win_id v \<noteq> i"
  shows "unplaced i (assign_mode v c)"
proof -
  have "set (mode_members ((co_modes c)[idx := m])) \<subseteq> insert (win_id v) (set (mode_members (co_modes c)))"
    if "mset (slot_members m) \<subseteq># add_mset (win_id v) (mset (slot_members (co_modes c ! idx)))" for idx m
    using set_mset_mono [OF update_members [OF _ that]] by (cases "idx < length (co_modes c)") (auto simp: list_update_beyond)
  then have "i \<notin> set (mode_members ((co_modes c)[idx := m]))"
    if "mset (slot_members m) \<subseteq># add_mset (win_id v) (mset (slot_members (co_modes c ! idx)))" for idx m
    using that assms by (fastforce simp: unplaced_def)
  then have "i \<notin> set (mode_members (co_modes (assign_mode v c)))"
    using assms(1) slot_add_members by (auto simp: assign_mode_def Let_def unplaced_def split: option.split)
  then show ?thesis using assms(1) by (simp add: unplaced_def)
qed

lemma unplaced_unique_z [simp]: "unplaced i (ensure_window_has_unique_z j z c) = unplaced i c"
  by (simp add: ensure_window_has_unique_z_def Let_def split: option.split)

lemma unplaced_ingest:
  assumes "unplaced i c"
  shows "unplaced i (ingest_window e win c)"
proof -
  have known: "bt_get (co_windows c) i \<noteq> None" using assms by (auto simp: unplaced_def window_keys_def map_of_eq_None_iff)
  show ?thesis using unplaced_insert [OF assms] known unfolding ingest_window_def Let_def
    by (auto intro!: unplaced_assign split: option.split)
qed

lemma unplaced_surface:
  assumes "unplaced i c" "ingest_surface e t c = Some c'"
  shows "unplaced i c'"
proof -
  have "ingest_surface e t c = Some c \<or> (\<exists>j. Option.bind (surface_load t) su_window = Some j)"
    by (auto simp: ingest_surface_def split: option.split)
  then consider "c' = c" | su j where "surface_load t = Some su" "su_window su = Some j"
    using assms(2) by (auto simp: bind_eq_Some_conv)
  then show ?thesis
  proof cases
    case 2
    show ?thesis using surface_adds_window [OF 2 assms(2)] assms(1)
      by (auto simp: unplaced_def bump_members)
  qed (use assms(1) in simp)
qed

lemma unplaced_mode_events [simp]:
  "unplaced i (ingest_mode_def t c) = unplaced i c" "unplaced i (ingest_mode e t c) = unplaced i c"
proof -
  have "mode_members ((co_modes c)[idx := (co_modes c ! idx)\<lparr>ms_place_id := p\<rparr>]) = mode_members (co_modes c)" for idx p
    using members_place [of idx "co_modes c" p] by (cases "idx < length (co_modes c)") (simp_all add: list_update_beyond)
  then show "unplaced i (ingest_mode_def t c) = unplaced i c"
    by (simp add: ingest_mode_def_def unplaced_def window_keys_def Let_def split: option.split)
  show "unplaced i (ingest_mode e t c) = unplaced i c"
    by (simp add: ingest_mode_def ensure_mode_app_def launch_app_for_place_def Let_def split: option.split)
qed

lemma unplaced_widget_event [simp]: "unplaced i (ingest_widget_event t c) = unplaced i c"
proof -
  obtain ws wins where iw: "ingest_widget t (co_widgets c) (co_windows c) = (ws, wins)" by fastforce
  obtain v where "wins = co_windows c \<or> wins = widget_scrolls t v (co_windows c)"
    using iw by (auto simp: ingest_widget_def Let_def split: option.splits)
  moreover have "fst ` set (widget_scrolls t v (co_windows c)) = fst ` set (co_windows c)"
    by (simp add: widget_scrolls_def insert_absorb bt_get_key split: option.split)
  ultimately have "fst ` set wins = fst ` set (co_windows c)" by metis
  then show ?thesis by (simp add: ingest_widget_event_def iw unplaced_def window_keys_def)
qed

lemma unplaced_event:
  assumes "unplaced i c" "on_event e k t c = Some c'"
  shows "unplaced i c'"
  using assms unplaced_surface [OF assms(1)] unplaced_ingest [OF assms(1)] unplaced_mouse [of e _ _ _ c _ i] unplaced_key [of e t c _ i]
  by (cases k) (auto simp: ingest_input_event_def ingest_cursor_def Let_def split: if_splits option.splits prod.splits)

lemma unplaced_frame [simp]: "unplaced i (snd (tick p e c)) = unplaced i c"
proof -
  have layout: "unplaced i (enforce_place_layout e c) = unplaced i c" for c
    by (auto simp: enforce_place_layout_def enforce_root_def unplaced_fold split: option.split prod.split)
  have bars: "unplaced i (update_scrollbars e c) = unplaced i c" for c
    unfolding update_scrollbars_def
    by (rule unplaced_fold) (simp add: update_scrollbar_def ensure_scrollbar_def user_fiat_def Let_def split: option.split)
  have "unplaced i (publish_frame_info e c) = unplaced i c" for c
    by (simp add: publish_frame_info_def user_fiat_def Let_def split: option.split)
  then show ?thesis by (simp add: tick_def prepare_frame_def layout bars Let_def)
qed

text \<open>The states after a state, through events, frames and the clearing of the flag the main loop does.\<close>

inductive wm_later :: "nat \<Rightarrow> nat \<Rightarrow> painter \<Rightarrow> compositor \<Rightarrow> compositor \<Rightarrow> bool" for width height p c0 where
  now: "wm_later width height p c0 c0"
| event: "wm_later width height p c0 c \<Longrightarrow> env_ok width height e \<Longrightarrow> on_event e k t c = Some c' \<Longrightarrow> wm_later width height p c0 c'"
| frame: "wm_later width height p c0 c \<Longrightarrow> env_ok width height e \<Longrightarrow> tick p e c = (u, c') \<Longrightarrow> wm_later width height p c0 c'"
| clear: "wm_later width height p c0 c \<Longrightarrow> wm_later width height p c0 (c\<lparr>co_fb_dirty := False\<rparr>)"

lemma later_unplaced:
  assumes "wm_later width height p c0 c" "wm_ok width height c0" "screen_ok width height" "unplaced i c0"
  shows "wm_ok width height c \<and> unplaced i c"
  using assms(1)
proof induction
  case (event c e k t c')
  then show ?case using on_event_ok [OF _ _ assms(3)] unplaced_event by blast
next
  case (frame c e u c')
  then show ?case using tick_ok [of width height c p e] unplaced_frame [of i p e c] by simp
qed (use assms(2,4) in simp_all)

section \<open>A surface before its window\<close>

text \<open>
  C31: a window whose surface is reported before the window itself never appears. The surface makes the window
  known without putting it into a mode, and no event and no frame that follows puts a known window into one, the
  report of the window itself included: in every later state of the compositor it is known, it is neither the
  root nor one of the windows of a mode, which are the windows a frame draws, and the pointer never finds it.
\<close>

theorem surface_first_hides_window:
  assumes "wm_ok width height c" "env_ok width height e" "screen_ok width height" "bt_get (co_windows c) i = None"
    and "surface_load t = Some su" "su_window su = Some i" "ingest_surface e t c = Some c1" "wm_later width height p c1 c'"
  shows "i \<in> window_keys c' \<and> (\<forall>m \<in> set (co_modes c'). ms_root_window m \<noteq> Some i \<and> i \<notin> set (ms_windows m)) \<and>
    (\<forall>x y wx wy. find_window_at c' x y \<noteq> Some (i, wx, wy))"
proof -
  have "i \<notin> window_keys c" using assms(4) by (simp add: window_keys_def map_of_eq_None_iff)
  then have "unplaced i c1" using surface_adds_window [OF assms(5-7)] assms(1) by (auto simp: wm_ok_def unplaced_def bump_members)
  then have l: "wm_ok width height c'" "unplaced i c'"
    using later_unplaced [OF assms(8) ingest_surface_ok [OF assms(1,2,7)] assms(3)] by simp_all
  then have "find_window_at c' x y \<noteq> Some (i, wx, wy)" for x y wx wy
    using ordered_members find_in_Some by (fastforce simp: find_window_at_def unplaced_def)
  moreover have "ms_root_window m \<noteq> Some i \<and> i \<notin> set (ms_windows m)" if "m \<in> set (co_modes c')" for m
    using slot_in_modes [OF that] l(2) by (auto simp: unplaced_def slot_members_def split: option.splits)
  ultimately show ?thesis using l(2) by (simp add: unplaced_def)
qed

definition early_surface :: graph_thing where
  "early_surface = \<lparr>thing_id = 30, thing_kind = canon_SURFACE, thing_labels = [], thing_fields = [(canon_SRC, VUuid 20)], thing_owner = 1, thing_revision = 1\<rparr>"

definition late_window :: graph_thing where
  "late_window = \<lparr>thing_id = 20, thing_kind = canon_WINDOW, thing_labels = [], thing_fields = [], thing_owner = 1, thing_revision = 1\<rparr>"

theorem surface_first_hides_window_witness:
  "\<exists>c1 c2 u c3. ingest_surface demo_env early_surface (demo_desk True) = Some c1 \<and> on_event demo_env WatchWindows late_window c1 = Some c2 \<and>
    tick demo_painter demo_env c2 = (u, c3) \<and> 20 \<in> window_keys c3 \<and> (\<forall>x y wx wy. find_window_at c3 x y \<noteq> Some (20, wx, wy))"
proof -
  have "canon_SRC \<noteq> canon_BITMAP" by code_simp
  then obtain su where su: "surface_load early_surface = Some su" "su_window su = Some 20" "su_bitmap su = None"
    by (simp add: surface_load_def early_surface_def Let_def field_def)
  then obtain c1 where c1: "ingest_surface demo_env early_surface (demo_desk True) = Some c1" using surface_total [of early_surface] by fastforce
  obtain v where v: "window_load late_window = Some v" by (simp add: window_load_def late_window_def Let_def)
  then obtain c2 where c2: "on_event demo_env WatchWindows late_window c1 = Some c2" by simp
  obtain u c3 where c3: "tick demo_painter demo_env c2 = (u, c3)" by fastforce
  have "bt_get (co_windows (demo_desk True)) 20 = None" by simp
  then show ?thesis
    using surface_first_hides_window [OF demo_desk_ok demo_env_ok _ su(1,2) c1
        wm_later.frame [OF wm_later.event [OF wm_later.now demo_env_ok(1) c2] demo_env_ok(1) c3]] c1 c2 c3 by blast
qed

end
