(* ===== verification/User_Runtime.thy ===== *)
theory User_Runtime
  imports System_Boot Things
begin

text \<open>
  The program side of the system calls (\<open>src/userland/src/sys.rs\<close>, the branch for the real machine) and
  the runtime that turns \<open>AbiRequest\<close> messages into calls (\<open>src/userland/src/runtime.rs\<close>). A program fills
  a buffer of its own, traps into \<open>syscall_entry\<close> and reads its buffers back, so user and kernel meet in
  the bytes of \<open>k_mem\<close>. Where the buffers lie is up to the program's allocator and stack.
\<close>

section \<open>Programs\<close>

text \<open>
  A program runs from a state to a result and a new state, or to a panic; it may also never
  return, which is \<open>None\<close>.
\<close>

type_synonym ('a, 's) prog = "'s \<Rightarrow> ('a \<times> 's) panics option"

definition prog_return :: "'a \<Rightarrow> ('a, 's) prog" where
  "prog_return a s = Some (Inr (a, s))"

definition prog_panic :: "string \<Rightarrow> ('a, 's) prog" where
  "prog_panic e s = Some (Inl e)"

definition prog_bind :: "('a, 's) prog \<Rightarrow> ('a \<Rightarrow> ('b, 's) prog) \<Rightarrow> ('b, 's) prog" where
  "prog_bind m f s = Option.bind (m s) (\<lambda>r. case r of Inl e \<Rightarrow> Some (Inl e) | Inr (a, s') \<Rightarrow> f a s')"

text \<open>The program's buffers and its side of the codecs; \<open>cl_uuid\<close> is \<open>Uuid::from_bytes\<close>.\<close>

record ('m, 'f) client =
  cl_sys :: "('m, 'f) sys_env"
  cl_in :: "nat \<Rightarrow> u64"
  cl_req :: u64
  cl_out :: "nat \<Rightarrow> u64"
  cl_uuid :: "u8 list \<Rightarrow> uuid"
  en_fiat :: "graph_fiat_request \<Rightarrow> u8 list option"
  en_that :: "graph_that_request \<Rightarrow> u8 list option"
  en_get :: "graph_get_request \<Rightarrow> u8 list option"
  en_pattern :: "node_pattern \<Rightarrow> u8 list option"
  en_props_get :: "graph_props_get_request \<Rightarrow> u8 list option"
  en_props :: "graph_props_request \<Rightarrow> u8 list option"
  en_grant :: "grant_capability_request \<Rightarrow> u8 list option"
  en_irq_bind :: "irq_bind_request \<Rightarrow> u8 list option"
  en_dma_map :: "dma_map_request \<Rightarrow> u8 list option"
  en_dma_submit :: "dma_submit_request \<Rightarrow> u8 list option"
  en_dma_wait :: "dma_wait_request \<Rightarrow> u8 list option"
  de_thing :: "u8 list \<Rightarrow> graph_thing option"
  de_things :: "u8 list \<Rightarrow> graph_thing list option"
  take_header :: "u8 list \<Rightarrow> (graph_find_result_header \<times> u8 list) option"
  take_thing :: "u8 list \<Rightarrow> (graph_thing \<times> u8 list) option"
  de_batch :: "u8 list \<Rightarrow> graph_watch_batch option"
  de_map :: "u8 list \<Rightarrow> gmap option"

text \<open>The state: the machine, and the program's own counter of \<open>next_uuid\<close>.\<close>

type_synonym ('m, 'f) ustate = "('m, 'f) kstate \<times> u64"

section \<open>System calls of a program\<close>

definition poke :: "u64 \<Rightarrow> u8 list \<Rightarrow> ('m, 'f) kstate \<Rightarrow> ('m, 'f) kstate" where
  "poke p bs k = k\<lparr>k_mem := write_bytes (unat p) bs (k_mem k)\<rparr>"

definition user_syscall ::
  "('m, 'f) client \<Rightarrow> u64 \<Rightarrow> u64 \<Rightarrow> u64 \<Rightarrow> u64 \<Rightarrow> u64 \<Rightarrow> (u64, ('m, 'f) ustate) prog" where
  "user_syscall c n a1 a2 a3 a4 = (\<lambda>(k, u).
     Some (case syscall_entry (cl_sys c) n a1 a2 a3 a4 k of Inl e \<Rightarrow> Inl e | Inr (r, k') \<Rightarrow> Inr (r, k', u)))"

text \<open>Calls that pass a byte vector, and calls that also (or only) take a buffer to fill.\<close>

definition call_with :: "('m, 'f) client \<Rightarrow> u64 \<Rightarrow> u8 list \<Rightarrow> (u64, ('m, 'f) ustate) prog" where
  "call_with c n payload = (\<lambda>(k, u).
     let p = cl_in c (length payload)
     in user_syscall c n p (of_nat (length payload)) 0 0 (poke p payload k, u))"

definition read_back :: "u64 \<Rightarrow> nat \<Rightarrow> u64 \<Rightarrow> (u64 \<times> u8 list, ('m, 'f) ustate) prog" where
  "read_back q n r s = prog_return (r, read_user (k_mem (fst s)) (unat q, n)) s"

definition call_for :: "('m, 'f) client \<Rightarrow> u64 \<Rightarrow> u8 list \<Rightarrow> u8 list \<Rightarrow> (u64 \<times> u8 list, ('m, 'f) ustate) prog" where
  "call_for c n payload out = (\<lambda>(k, u).
     let p = cl_in c (length payload); q = cl_out c (length out)
     in prog_bind (user_syscall c n p (of_nat (length payload)) q (of_nat (length out))) (read_back q (length out))
          (poke q out (poke p payload k), u))"

definition fill_buffer :: "('m, 'f) client \<Rightarrow> u64 \<Rightarrow> u8 list \<Rightarrow> (u64 \<times> u8 list, ('m, 'f) ustate) prog" where
  "fill_buffer c n out = (\<lambda>(k, u).
     let q = cl_out c (length out)
     in prog_bind (user_syscall c n q (of_nat (length out)) 0 0) (read_back q (length out)) (poke q out k, u))"

definition fill_for :: "('m, 'f) client \<Rightarrow> u64 \<Rightarrow> u64 \<Rightarrow> u8 list \<Rightarrow> (u64 \<times> u8 list, ('m, 'f) ustate) prog" where
  "fill_for c n a out = (\<lambda>(k, u).
     let q = cl_out c (length out)
     in prog_bind (user_syscall c n a q (of_nat (length out)) 0) (read_back q (length out)) (poke q out k, u))"

definition user_get_self :: "('m, 'f) client \<Rightarrow> (uuid, ('m, 'f) ustate) prog" where
  "user_get_self c = (\<lambda>(k, u).
     let q = cl_out c 16
     in prog_bind (prog_bind (user_syscall c SYSCALL_GET_SELF q 0 0 0) (read_back q 16))
          (\<lambda>(_, buf). prog_return (cl_uuid c buf)) (poke q (replicate 16 0) k, u))"

definition user_spawn :: "('m, 'f) client \<Rightarrow> string \<Rightarrow> (u64, ('m, 'f) ustate) prog" where
  "user_spawn c name = call_with c SYSCALL_SPAWN (as_bytes name)"

definition le_u64 :: "u8 list \<Rightarrow> nat \<Rightarrow> u64" where
  "le_u64 bs i = fold (\<lambda>j v. v OR push_bit (8 * j) (ucast (bs ! (8 * i + j)))) [0..<8] 0"

definition user_fb_info :: "('m, 'f) client \<Rightarrow> (framebuffer_info option, ('m, 'f) ustate) prog" where
  "user_fb_info c =
     prog_bind (fill_buffer c SYSCALL_FB_INFO (replicate 40 0)) (\<lambda>(r, buf). prog_return
       (if r = 40 then Some \<lparr>fi_width = le_u64 buf 0, fi_height = le_u64 buf 1, fi_pitch = le_u64 buf 2,
          fi_bpp = le_u64 buf 3, fi_addr = le_u64 buf 4\<rparr>
        else None))"

definition user_fb_map :: "('m, 'f) client \<Rightarrow> (u64, ('m, 'f) ustate) prog" where
  "user_fb_map c = user_syscall c SYSCALL_FB_MAP 0 0 0 0"

definition graph_fiat_raw :: "('m, 'f) client \<Rightarrow> u8 list \<Rightarrow> (u64, ('m, 'f) ustate) prog" where
  "graph_fiat_raw c payload = call_with c SYSCALL_GRAPH_FIAT payload"

text \<open>
  The request of \<open>find_by_kind\<close> is passed as the three machine words of the structure, not in
  the encoding the kernel decodes.
\<close>

definition find_struct :: "u64 \<Rightarrow> u64 \<Rightarrow> u64 \<Rightarrow> u8 list" where
  "find_struct ptr len cursor = to_le_bytes 8 ptr @ to_le_bytes 8 len @ to_le_bytes 8 cursor"

definition graph_find_by_kind_raw ::
  "('m, 'f) client \<Rightarrow> string \<Rightarrow> u64 \<Rightarrow> u8 list \<Rightarrow> (u64 \<times> u8 list, ('m, 'f) ustate) prog" where
  "graph_find_by_kind_raw c kind cursor out = (\<lambda>(k, u).
     let p = cl_in c (length kind); q = cl_out c (length out)
     in prog_bind (user_syscall c SYSCALL_GRAPH_FIND_BY_KIND (cl_req c) q (of_nat (length out)) 0) (read_back q (length out))
          (poke (cl_req c) (find_struct p (of_nat (length kind)) cursor) (poke q out (poke p (as_bytes kind) k)), u))"

definition graph_link_raw :: "('m, 'f) client \<Rightarrow> u8 list \<Rightarrow> (u64, ('m, 'f) ustate) prog" where
  "graph_link_raw c payload = call_with c SYSCALL_GRAPH_LINK payload"

definition graph_get_props_raw :: "('m, 'f) client \<Rightarrow> u8 list \<Rightarrow> u8 list \<Rightarrow> (u64 \<times> u8 list, ('m, 'f) ustate) prog" where
  "graph_get_props_raw c request out = call_for c SYSCALL_GRAPH_GET_PROPS request out"

definition graph_set_props_raw :: "('m, 'f) client \<Rightarrow> u8 list \<Rightarrow> (u64, ('m, 'f) ustate) prog" where
  "graph_set_props_raw c request = call_with c SYSCALL_GRAPH_SET_PROPS request"

definition graph_watch_register_raw :: "('m, 'f) client \<Rightarrow> u8 list \<Rightarrow> (u64, ('m, 'f) ustate) prog" where
  "graph_watch_register_raw c payload = call_with c SYSCALL_GRAPH_WATCH_REGISTER payload"

definition graph_watch_poll_raw :: "('m, 'f) client \<Rightarrow> u64 \<Rightarrow> u8 list \<Rightarrow> (u64 \<times> u8 list, ('m, 'f) ustate) prog" where
  "graph_watch_poll_raw c i out = fill_for c SYSCALL_GRAPH_WATCH_POLL i out"

definition kbd_read_raw :: "('m, 'f) client \<Rightarrow> u8 list \<Rightarrow> (u64 \<times> u8 list, ('m, 'f) ustate) prog" where
  "kbd_read_raw c out = fill_buffer c SYSCALL_KBD_READ out"

definition graph_get_raw :: "('m, 'f) client \<Rightarrow> u8 list \<Rightarrow> u8 list \<Rightarrow> (u64 \<times> u8 list, ('m, 'f) ustate) prog" where
  "graph_get_raw c request out = call_for c SYSCALL_GRAPH_GET request out"

definition grant_capability_raw :: "('m, 'f) client \<Rightarrow> u8 list \<Rightarrow> (u64, ('m, 'f) ustate) prog" where
  "grant_capability_raw c payload = call_with c SYSCALL_GRANT_CAPABILITY payload"

text \<open>\<open>(handle != !0).then_some(handle)\<close> after a call with an encoded request.\<close>

definition handle_call :: "('m, 'f) client \<Rightarrow> u64 \<Rightarrow> u8 list option \<Rightarrow> (u64 option, ('m, 'f) ustate) prog" where
  "handle_call c n payload =
     (case payload of None \<Rightarrow> prog_return None
      | Some bs \<Rightarrow> prog_bind (call_with c n bs) (\<lambda>h. prog_return (if h \<noteq> - 1 then Some h else None)))"

definition user_irq_bind :: "('m, 'f) client \<Rightarrow> irq_bind_request \<Rightarrow> (u64 option, ('m, 'f) ustate) prog" where
  "user_irq_bind c r = handle_call c SYSCALL_IRQ_BIND (en_irq_bind c r)"

definition user_irq_ack :: "('m, 'f) client \<Rightarrow> u64 \<Rightarrow> (bool, ('m, 'f) ustate) prog" where
  "user_irq_ack c handle = prog_bind (user_syscall c SYSCALL_IRQ_ACK handle 0 0 0) (\<lambda>r. prog_return (r = 0))"

definition user_dma_map :: "('m, 'f) client \<Rightarrow> dma_map_request \<Rightarrow> (u64 option, ('m, 'f) ustate) prog" where
  "user_dma_map c r = handle_call c SYSCALL_DMA_MAP (en_dma_map c r)"

definition user_dma_submit :: "('m, 'f) client \<Rightarrow> dma_submit_request \<Rightarrow> (u64 option, ('m, 'f) ustate) prog" where
  "user_dma_submit c r = handle_call c SYSCALL_DMA_SUBMIT (en_dma_submit c r)"

definition user_dma_wait :: "('m, 'f) client \<Rightarrow> dma_wait_request \<Rightarrow> (bool, ('m, 'f) ustate) prog" where
  "user_dma_wait c r =
     (case en_dma_wait c r of None \<Rightarrow> prog_return False
      | Some bs \<Rightarrow> prog_bind (call_with c SYSCALL_DMA_WAIT bs) (\<lambda>v. prog_return (v = 0)))"

definition user_log :: "('m, 'f) client \<Rightarrow> string \<Rightarrow> (unit, ('m, 'f) ustate) prog" where
  "user_log c s = prog_bind (call_with c SYSCALL_LOG (as_bytes s)) (\<lambda>_. prog_return ())"

definition user_dev_open :: "('m, 'f) client \<Rightarrow> u32 \<Rightarrow> u64 \<Rightarrow> (u64 option, ('m, 'f) ustate) prog" where
  "user_dev_open c kind index =
     prog_bind (user_syscall c SYSCALL_DEV_OPEN (ucast kind) index 0 0) (\<lambda>r. prog_return (if r = - 1 then None else Some r))"

definition user_dev_read :: "('m, 'f) client \<Rightarrow> u64 \<Rightarrow> u8 list \<Rightarrow> (u64 \<times> u8 list, ('m, 'f) ustate) prog" where
  "user_dev_read c handle buf = fill_for c SYSCALL_DEV_READ handle buf"

definition user_dev_write :: "('m, 'f) client \<Rightarrow> u64 \<Rightarrow> u8 list \<Rightarrow> (u64, ('m, 'f) ustate) prog" where
  "user_dev_write c handle buf = (\<lambda>(k, u).
     let p = cl_in c (length buf)
     in user_syscall c SYSCALL_DEV_WRITE handle p (of_nat (length buf)) 0 (poke p buf k, u))"

definition user_dev_map :: "('m, 'f) client \<Rightarrow> u64 \<Rightarrow> (u64 option, ('m, 'f) ustate) prog" where
  "user_dev_map c handle =
     prog_bind (user_syscall c SYSCALL_DEV_MAP handle 0 0 0) (\<lambda>r. prog_return (if r = 0 then None else Some r))"

section \<open>The kernel runtime\<close>

text \<open>\<open>&buf[..len as usize]\<close>.\<close>

definition slice_to :: "u64 \<Rightarrow> u8 list \<Rightarrow> (u8 list, 's) prog" where
  "slice_to n buf =
     (if length buf < unat n then prog_panic ''range end index out of range for slice'' else prog_return (take (unat n) buf))"

definition fetch_things :: "('m, 'f) client \<Rightarrow> node_pattern \<Rightarrow> (graph_thing list, ('m, 'f) ustate) prog" where
  "fetch_things c pattern =
     (case en_get c (GetPattern pattern) of None \<Rightarrow> prog_return []
      | Some encoded \<Rightarrow> prog_bind (graph_get_raw c encoded (replicate 65536 0)) (\<lambda>(len, buf).
          if len = - 1 then prog_return []
          else prog_bind (slice_to len buf) (\<lambda>bs. prog_return (unwrap_or [] (de_things c bs)))))"

definition fetch_thing :: "('m, 'f) client \<Rightarrow> uuid \<Rightarrow> (graph_thing option, ('m, 'f) ustate) prog" where
  "fetch_thing c i =
     (case en_get c (GetThing i) of None \<Rightarrow> prog_return None
      | Some encoded \<Rightarrow> prog_bind (graph_get_raw c encoded (replicate 4096 0)) (\<lambda>(len, buf).
          if len = - 1 then prog_return None
          else prog_bind (slice_to len buf) (\<lambda>bs. prog_return (de_thing c bs))))"

fun read_things :: "('m, 'f) client \<Rightarrow> nat \<Rightarrow> u8 list \<Rightarrow> graph_thing list" where
  "read_things c 0 bs = []"
| "read_things c (Suc n) bs =
     (case take_thing c bs of None \<Rightarrow> read_things c n bs | Some (t, rest) \<Rightarrow> t # read_things c n rest)"

partial_function (option) find_loop ::
  "('m, 'f) client \<Rightarrow> string \<Rightarrow> graph_thing list \<Rightarrow> u64 \<Rightarrow> u8 list \<Rightarrow> ('m, 'f) ustate \<Rightarrow>
     ((graph_thing list \<times> u64) \<times> ('m, 'f) ustate) panics option" where
  "find_loop c kind results next buf s =
     Option.bind (graph_find_by_kind_raw c kind next buf s) (\<lambda>r. case r of
         Inl e \<Rightarrow> Some (Inl e)
       | Inr (wb, s') \<Rightarrow>
           if fst wb = - 1 then prog_return (results, next) s'
           else (case take_header c (take (unat (fst wb)) (snd wb)) of
               None \<Rightarrow> prog_return (results, next) s'
             | Some hr \<Rightarrow>
                 (if fr_next_cursor (fst hr) = 0 then prog_return (results @ read_things c (unat (fr_count (fst hr))) (snd hr), 0) s'
                  else find_loop c kind (results @ read_things c (unat (fr_count (fst hr))) (snd hr)) (fr_next_cursor (fst hr)) (snd wb) s')))"

definition take_uuid :: "uuid option \<Rightarrow> (uuid, ('m, 'f) ustate) prog" where
  "take_uuid i = (\<lambda>(k, u). case i of Some j \<Rightarrow> prog_return j (k, u) | None \<Rightarrow> (case next_uuid u of (j, u') \<Rightarrow> prog_return j (k, u')))"

definition empty_batch :: graph_watch_batch where
  "empty_batch = \<lparr>from_revision = 0, latest_revision = 0, batch_changes = []\<rparr>"

definition runtime_fiat ::
  "('m, 'f) client \<Rightarrow> uuid option \<Rightarrow> symbol \<Rightarrow> symbol list \<Rightarrow> gmap \<Rightarrow> (abi_response, ('m, 'f) ustate) prog" where
  "runtime_fiat c i kind labels flds =
     (let labels1 = (if labels = [] then [kind] else labels)
      in case en_fiat c \<lparr>fiat_id = i, fiat_kind = kind, fiat_labels = labels1, fiat_fields = flds\<rparr> of
           None \<Rightarrow> prog_return (RespError ''serialize fiat'')
         | Some buf \<Rightarrow>
             prog_bind (graph_fiat_raw c buf) (\<lambda>revision. prog_bind (take_uuid i) (\<lambda>j. prog_bind (fetch_thing c j) (\<lambda>r.
               prog_return (RespFiat (case r of
                   Some thing \<Rightarrow> thing\<lparr>thing_revision := revision\<rparr>
                 | None \<Rightarrow> \<lparr>thing_id = j, thing_kind = kind, thing_labels = bs_of_list labels1, thing_fields = flds,
                     thing_owner = 0, thing_revision = revision\<rparr>))))))"

definition runtime_link ::
  "('m, 'f) client \<Rightarrow> uuid option \<Rightarrow> uuid \<Rightarrow> string \<Rightarrow> uuid \<Rightarrow> gmap \<Rightarrow> (abi_response, ('m, 'f) ustate) prog" where
  "runtime_link c i from pred to props =
     (case en_that c \<lparr>that_src = from, that_pred = pred, that_dst = to, that_revision_hint = 0, that_props = props\<rparr> of
        None \<Rightarrow> prog_return (RespError ''link serialize'')
      | Some buf \<Rightarrow>
          prog_bind (graph_link_raw c buf) (\<lambda>revision. prog_bind (take_uuid i) (\<lambda>eid.
            prog_return (RespLink (Some \<lparr>edge_id = eid, edge_src = from, edge_pred = pred, edge_dst = to, edge_props = props,
              edge_owner = 0, edge_revision = revision\<rparr>)))))"

definition runtime_watch_poll :: "('m, 'f) client \<Rightarrow> watch_id \<Rightarrow> (abi_response, ('m, 'f) ustate) prog" where
  "runtime_watch_poll c i =
     prog_bind (graph_watch_poll_raw c i (replicate 65536 0)) (\<lambda>(len, buf).
       if len = - 1 then prog_return (RespWatchEvents empty_batch)
       else prog_bind (slice_to len buf) (\<lambda>bs. prog_return (RespWatchEvents (unwrap_or empty_batch (de_batch c bs)))))"

definition runtime_props_get :: "('m, 'f) client \<Rightarrow> graph_props_get_request \<Rightarrow> (abi_response, ('m, 'f) ustate) prog" where
  "runtime_props_get c request =
     (case en_props_get c request of None \<Rightarrow> prog_return (RespError ''props serialize'')
      | Some encoded \<Rightarrow> prog_bind (graph_get_props_raw c encoded (replicate 4096 0)) (\<lambda>(len, buf).
          if len = - 1 then prog_return (RespError ''props get failed'')
          else prog_bind (slice_to len buf) (\<lambda>bs. prog_return (RespProps (unwrap_or [] (de_map c bs))))))"

definition runtime_call :: "('m, 'f) client \<Rightarrow> abi_request \<Rightarrow> (abi_response, ('m, 'f) ustate) prog" where
  "runtime_call c req =
     (case req of
        ReqFiat i kind labels flds \<Rightarrow> runtime_fiat c i kind labels flds
      | ReqLink i from pred to props \<Rightarrow> runtime_link c i from pred to props
      | ReqGet i \<Rightarrow> prog_bind (fetch_thing c i) (\<lambda>t. prog_return (RespGet t))
      | ReqQuery pattern \<Rightarrow> prog_bind (fetch_things c pattern) (\<lambda>ts. prog_return (RespQuery ts))
      | ReqFindByKind kind cursor \<Rightarrow>
          prog_bind (find_loop c kind [] (unwrap_or 0 cursor) (replicate 65536 0)) (\<lambda>(ts, next).
            prog_return (RespFind ts (if next \<noteq> 0 then Some next else None)))
      | ReqWatchRegister pattern \<Rightarrow>
          (case en_pattern c pattern of None \<Rightarrow> prog_return (RespError ''watch serialize'')
           | Some buf \<Rightarrow> prog_bind (graph_watch_register_raw c buf) (\<lambda>i.
               prog_return (if i = - 1 then RespError ''watch register failed'' else RespWatchRegistered i)))
      | ReqWatchUnregister _ \<Rightarrow> prog_return RespWatchUnregistered
      | ReqWatchPoll i _ \<Rightarrow> runtime_watch_poll c i
      | ReqPropsGet request \<Rightarrow> runtime_props_get c request
      | ReqPropsSet request \<Rightarrow>
          (case en_props c request of None \<Rightarrow> prog_return (RespError ''props serialize'')
           | Some buf \<Rightarrow> prog_bind (graph_set_props_raw c buf) (\<lambda>r.
               prog_return (if r = 0 then RespProps (ps_props request) else RespError ''props set failed'')))
      | ReqGrantCapability request \<Rightarrow>
          (case en_grant c request of None \<Rightarrow> prog_return (RespCapabilityGranted False)
           | Some buf \<Rightarrow> prog_bind (grant_capability_raw c buf) (\<lambda>r. prog_return (RespCapabilityGranted (r = 0))))
      | _ \<Rightarrow> prog_return (RespError ''device ops not supported via runtime on kernel''))"

section \<open>Buffers\<close>

lemma prog_bind_return [simp]: "prog_bind (prog_return a) f = f a"
  by (simp add: fun_eq_iff prog_bind_def prog_return_def)

lemma prog_bind_panic [simp]: "prog_bind (prog_panic e) f = prog_panic e"
  by (simp add: fun_eq_iff prog_bind_def prog_panic_def)

text \<open>Stepping through a program: what a bind does after a result, a panic, or no result.\<close>

lemma prog_bind_steps:
  "m s = Some (Inr (a, s')) \<Longrightarrow> prog_bind m f s = f a s'"
  "m s = Some (Inl e) \<Longrightarrow> prog_bind m f s = Some (Inl e)"
  "m s = None \<Longrightarrow> prog_bind m f s = None"
  by (simp_all add: prog_bind_def)

text \<open>A buffer of the program: not null, and below the kernel half.\<close>

definition buffer_ok :: "u64 \<Rightarrow> nat \<Rightarrow> bool" where
  "buffer_ok p n \<longleftrightarrow> p \<noteq> 0 \<and> unat p + n < USER_LIMIT"

definition apart :: "u64 \<Rightarrow> nat \<Rightarrow> u64 \<Rightarrow> nat \<Rightarrow> bool" where
  "apart p m q n \<longleftrightarrow> unat p + m \<le> unat q \<or> unat q + n \<le> unat p"

text \<open>What the allocator promises for a call with a request of \<open>m\<close> bytes and an answer of \<open>n\<close>.\<close>

definition buffers_ok :: "('m, 'f) client \<Rightarrow> nat \<Rightarrow> nat \<Rightarrow> bool" where
  "buffers_ok c m n \<longleftrightarrow> buffer_ok (cl_in c m) m \<and> buffer_ok (cl_out c n) n \<and> apart (cl_in c m) m (cl_out c n) n"

lemma poke_simps [simp]:
  "k_hw (poke p bs k) = k_hw k" "k_cpu (poke p bs k) = k_cpu k" "k_devices (poke p bs k) = k_devices k"
  "k_io (poke p bs k) = k_io k" "k_mem (poke p bs k) = write_bytes (unat p) bs (k_mem k)"
  by (simp_all add: poke_def)

lemma buffer_small: "buffer_ok p n \<Longrightarrow> unat (of_nat n :: u64) = n"
  by (simp add: buffer_ok_def USER_LIMIT_def unat_of_nat)

lemma validate_buffer:
  assumes "buffer_ok p n" "0 < n"
  shows "validate_user_slice p (of_nat n) = Some (unat p, n)"
proof -
  note n = buffer_small [OF assms(1)]
  have "(of_nat n :: u64) \<noteq> 0" using n assms(2) by (metis unat_0 less_irrefl)
  moreover have "checked_add p (of_nat n) = Some (p + of_nat n)" and "unat (p + of_nat n) = unat p + n"
    using assms(1) n by (simp_all add: checked_add_def buffer_ok_def USER_LIMIT_def unat_word_ariths)
  ultimately show ?thesis using assms(1) n by (simp add: validate_user_slice_def buffer_ok_def)
qed

lemma read_write_bytes: "read_user (write_bytes a bs mem) (a, length bs) = bs"
  by (auto simp: read_user_def write_bytes_def intro: nth_equalityI)

lemma read_write_prefix:
  "length bs \<le> n \<Longrightarrow> take (length bs) (read_user (write_bytes a bs mem) (a, n)) = bs"
  by (auto simp: read_user_def write_bytes_def intro: nth_equalityI)

lemma read_write_apart:
  assumes "a + m \<le> b \<or> b + length bs \<le> a"
  shows "read_user (write_bytes b bs mem) (a, m) = read_user mem (a, m)"
  using assms by (auto simp: read_user_def write_bytes_def)

lemma length_read_user [simp]: "length (read_user mem (a, n)) = n"
  by (simp add: read_user_def)

text \<open>The kernel reads the bytes the program put into its buffer.\<close>

lemma user_slice_buffer:
  assumes "buffer_ok p (length bs)" "read_user (k_mem k) (unat p, length bs) = bs"
  shows "user_slice p (of_nat (length bs)) k = Some bs"
proof (cases "length bs = 0")
  case True
  then show ?thesis by (simp add: user_slice_def validate_user_slice_def read_user_def)
next
  case False
  then show ?thesis using assms validate_buffer [of p "length bs"] by (simp add: user_slice_def)
qed

lemma user_slice_poke: "buffer_ok p (length bs) \<Longrightarrow> user_slice p (of_nat (length bs)) (poke p bs k) = Some bs"
  by (rule user_slice_buffer) (simp_all add: read_write_bytes)

lemma user_slice_poke_two:
  assumes "buffer_ok p (length bs)" "apart p (length bs) q (length out)"
  shows "user_slice p (of_nat (length bs)) (poke q out (poke p bs k)) = Some bs"
  using assms by (intro user_slice_buffer) (simp_all add: read_write_apart read_write_bytes apart_def)

text \<open>What a call leaves when it answers with bytes: the bytes in the buffer, or only their number.\<close>

lemma copy_out_buffer:
  assumes "buffer_ok q n" "0 < n" "length bs < 2 ^ 64 - 1"
  shows "copy_out_slice bs q (of_nat n) k = Inr (of_nat (length bs), if length bs \<le> n then poke q bs k else k)"
proof -
  have "(of_nat n :: u64) < of_nat (length bs) \<longleftrightarrow> n < length bs"
    using buffer_small [OF assms(1)] assms(3) by (simp add: word_less_nat_alt unat_of_nat)
  then show ?thesis
    using validate_buffer [OF assms(1,2)] by (simp add: copy_out_slice_def Let_def poke_def)
qed

lemma of_nat_not_error: "n < 2 ^ 64 - 1 \<Longrightarrow> (of_nat n :: u64) \<noteq> - 1"
proof
  assume "n < 2 ^ 64 - 1" "(of_nat n :: u64) = - 1"
  then have "unat (of_nat n :: u64) = unat (- 1 :: u64)" by simp
  then show False using \<open>n < 2 ^ 64 - 1\<close> by (simp add: unat_of_nat unsigned_minus_1_eq_mask mask_eq_exp_minus_1)
qed

text \<open>The end of every reading call of the runtime: the answer is cut to the length reported.\<close>

definition cut_answer :: "('a, ('m, 'f) ustate) prog \<Rightarrow> (u8 list \<Rightarrow> 'a) \<Rightarrow> u64 \<times> u8 list \<Rightarrow> ('a, ('m, 'f) ustate) prog" where
  "cut_answer failed decode = (\<lambda>(len, buf).
     if len = - 1 then failed else prog_bind (slice_to len buf) (\<lambda>bs. prog_return (decode bs)))"

lemma cut_answer_bytes:
  assumes "buffer_ok q n" "length bs < 2 ^ 64 - 1"
  shows "cut_answer failed decode (of_nat (length bs), read_user (k_mem (if length bs \<le> n then poke q bs k else k)) (unat q, n)) s =
    Some (if length bs \<le> n then Inr (decode bs, s) else Inl ''range end index out of range for slice'')"
proof -
  have "unat (of_nat (length bs) :: u64) = length bs" using assms(2) by (simp add: unat_of_nat)
  then show ?thesis
    using of_nat_not_error [OF assms(2)]
    by (auto simp: cut_answer_def slice_to_def read_write_prefix prog_panic_def prog_return_def)
qed

lemma fetch_thing_cut:
  "fetch_thing c i = (case en_get c (GetThing i) of None \<Rightarrow> prog_return None
     | Some encoded \<Rightarrow> prog_bind (graph_get_raw c encoded (replicate 4096 0)) (cut_answer (prog_return None) (de_thing c)))"
  by (simp add: fetch_thing_def cut_answer_def split: option.split)

section \<open>Reading a thing\<close>

text \<open>What the kernel lets a bundle read of a thing.\<close>

definition readable :: "bundle_id \<Rightarrow> uuid \<Rightarrow> kernel_graph \<Rightarrow> graph_thing option" where
  "readable b i g = (if can_read (store_of g) b i then latest (store_of g) i else None)"

lemma export_readable:
  "export_thing_bytes w b i g = (Option.bind (readable b i g) (wire_thing w), g\<lparr>STORE := Some (store_of g)\<rparr>)"
  by (simp add: export_thing_bytes_def readable_def split: option.splits)

text \<open>The machine after the buffers of a call are filled, and after a call that only reads the graph.\<close>

definition call_ready :: "('m, 'f) client \<Rightarrow> u8 list \<Rightarrow> nat \<Rightarrow> ('m, 'f) kstate \<Rightarrow> ('m, 'f) kstate" where
  "call_ready c payload n k = poke (cl_out c n) (replicate n 0) (poke (cl_in c (length payload)) payload k)"

definition touched :: "('m, 'f) kstate \<Rightarrow> ('m, 'f) kstate" where
  "touched k = set_graph ((k_graph k)\<lparr>STORE := Some (store_of (k_graph k))\<rparr>) k"

lemma call_ready_simps [simp]:
  "k_hw (call_ready c bs n k) = k_hw k" "k_cpu (call_ready c bs n k) = k_cpu k"
  by (simp_all add: call_ready_def)

lemma touched_simps [simp]:
  "k_cpu (touched k) = k_cpu k" "k_mem (touched k) = k_mem k" "store_of (k_graph (touched k)) = store_of (k_graph k)"
  by (simp_all add: touched_def set_graph_def)

lemma call_ready_slice:
  "buffers_ok c (length bs) n \<Longrightarrow> user_slice (cl_in c (length bs)) (of_nat (length bs)) (call_ready c bs n k) = Some bs"
  unfolding call_ready_def by (rule user_slice_poke_two) (simp_all add: buffers_ok_def)

lemma graph_get_thing_raw:
  assumes "buffers_ok c (length enc) n" "0 < n"
    and "current_bundle (k_cpu k) = Inr b" "de_get (sv_codec (cl_sys c)) enc = Some (GetThing i)"
    and "\<And>bs. Option.bind (readable b i (k_graph k)) (wire_thing (sv_wire (cl_sys c))) = Some bs \<Longrightarrow> length bs < 2 ^ 64 - 1"
  defines "K \<equiv> touched (call_ready c enc n k)"
  shows "graph_get_raw c enc (replicate n 0) (k, u) =
    (case Option.bind (readable b i (k_graph k)) (wire_thing (sv_wire (cl_sys c))) of
       None \<Rightarrow> read_back (cl_out c n) n (- 1) (K, u)
     | Some bs \<Rightarrow> read_back (cl_out c n) n (of_nat (length bs)) (if length bs \<le> n then poke (cl_out c n) bs K else K, u))"
proof -
  let ?r = "Option.bind (readable b i (k_graph k)) (wire_thing (sv_wire (cl_sys c)))"
  have q: "buffer_ok (cl_out c n) n" using assms(1) by (simp add: buffers_ok_def)
  have "syscall_entry (cl_sys c) SYSCALL_GRAPH_GET (cl_in c (length enc)) (of_nat (length enc)) (cl_out c n) (of_nat n)
      (call_ready c enc n k) = answer ?r (cl_out c n) (of_nat n) K"
    using assms(3,4) call_ready_slice [OF assms(1), of k]
    by (simp add: syscall_entry_def syscall_numbers sys_graph_get_def with_request_def with_bundle_def get_request_def
        export_readable K_def touched_def)
  also have "\<dots> = (case ?r of None \<Rightarrow> Inr (- 1, K)
      | Some bs \<Rightarrow> Inr (of_nat (length bs), if length bs \<le> n then poke (cl_out c n) bs K else K))"
    using copy_out_buffer [OF q assms(2), of _ K] assms(5) by (auto simp: answer_def split: option.split)
  finally show ?thesis
    by (auto simp: graph_get_raw_def call_for_def prog_bind_def user_syscall_def Let_def call_ready_def [symmetric]
        split: option.split)
qed

text \<open>
  The program gets what it may read; a thing that takes more than the 4096 bytes of the buffer
  makes it panic.
\<close>

lemma fetch_thing_spec:
  assumes "buffers_ok c (length enc) 4096" "en_get c (GetThing i) = Some enc"
    and "current_bundle (k_cpu k) = Inr b" "de_get (sv_codec (cl_sys c)) enc = Some (GetThing i)"
    and "\<And>bs. Option.bind (readable b i (k_graph k)) (wire_thing (sv_wire (cl_sys c))) = Some bs \<Longrightarrow> length bs < 2 ^ 64 - 1"
  defines "K \<equiv> touched (call_ready c enc 4096 k)"
  shows "fetch_thing c i (k, u) =
    (case Option.bind (readable b i (k_graph k)) (wire_thing (sv_wire (cl_sys c))) of
       None \<Rightarrow> Some (Inr (None, K, u))
     | Some bs \<Rightarrow> Some (if length bs \<le> 4096 then Inr (de_thing c bs, poke (cl_out c 4096) bs K, u)
         else Inl ''range end index out of range for slice''))"
proof -
  have q: "buffer_ok (cl_out c 4096) 4096" using assms(1) by (simp add: buffers_ok_def)
  note raw = graph_get_thing_raw [OF assms(1) _ assms(3,4,5), simplified, folded K_def]
  show ?thesis
  proof (cases "Option.bind (readable b i (k_graph k)) (wire_thing (sv_wire (cl_sys c)))")
    case None
    then show ?thesis
      using assms(2) raw by (simp add: fetch_thing_cut prog_bind_def read_back_def prog_return_def cut_answer_def)
  next
    case (Some bs)
    then show ?thesis
      using assms(2) raw cut_answer_bytes [OF q assms(5) [OF Some], of "prog_return None" "de_thing c" K]
      by (cases "length bs \<le> 4096") (simp_all add: fetch_thing_cut prog_bind_def read_back_def prog_return_def [of "(_, _)"])
  qed
qed

section \<open>Creating a thing\<close>

lemma call_with_slice:
  assumes "buffer_ok (cl_in c (length bs)) (length bs)"
  shows "user_slice (cl_in c (length bs)) (of_nat (length bs)) (poke (cl_in c (length bs)) bs k) = Some bs"
  by (rule user_slice_poke [OF assms])

lemma graph_fiat_raw_spec:
  assumes "buffer_ok (cl_in c (length enc)) (length enc)" "current_bundle (k_cpu k) = Inr b"
    and "de_fiat (sv_codec (cl_sys c)) enc = Some r" "fiat_for_bundle (sv_ext (cl_sys c)) b r (k_graph k) = (t, g)"
  shows "graph_fiat_raw c enc (k, u) =
    Some (Inr (thing_revision t, set_graph g (poke (cl_in c (length enc)) enc k), u))"
  using assms call_with_slice [OF assms(1), of k]
  by (simp add: graph_fiat_raw_def call_with_def user_syscall_def syscall_entry_def syscall_numbers sys_graph_fiat_def
      with_request_def with_bundle_def Let_def)

lemma fiat_for_bundle_node:
  "fiat_for_bundle x b r g =
     (case fiat_node x b (fiat_as_node r) (store_of g, JOURNAL g) of (t, s, j) \<Rightarrow> (t, g\<lparr>STORE := Some s, JOURNAL := j\<rparr>))"
  by (simp add: fiat_for_bundle_def with_store_def fiat_def fiat_as_node_def)

lemma fiat_readable:
  assumes "store_inv (store_of g)" "room (store_of g) 2" "fiat_for_bundle x b r g = (t, g')" "fiat_id r = Some i"
  shows "readable b i g' = Some t" "thing_id t = i"
proof -
  obtain s j where f: "fiat_node x b (fiat_as_node r) (store_of g, JOURNAL g) = (t, s, j)" and g': "store_of g' = s"
    using assms(3) by (auto simp: fiat_for_bundle_node split: prod.splits)
  have "room (store_of g) (Suc (Suc 0))" using assms(2) by (simp add: numeral_2_eq_2)
  note fs = fiat_node_spec [OF assms(1) this f]
  show i: "thing_id t = i" using fs(4) assms(4) by (auto simp: fiat_target_def fiat_thing_def fiat_as_node_def Let_def)
  have "(bundle_uuid b, ''OWNS'', i) \<in> triples s" using triples_snoc [OF fs(5)] i by simp
  then have "owns s b i" by (simp add: owns_iff [OF fs(1)])
  then show "readable b i g' = Some t" using fs(3) i by (simp add: readable_def g' can_read_def)
qed

lemma runtime_fiat_spec:
  assumes "buffer_ok (cl_in c (length enc)) (length enc)" "buffers_ok c (length genc) 4096"
    and "current_bundle (k_cpu k) = Inr b" and "store_inv (store_of (k_graph k))" "room (store_of (k_graph k)) 2"
    and "en_fiat c r = Some enc" "de_fiat (sv_codec (cl_sys c)) enc = Some r"
    and "en_get c (GetThing i) = Some genc" "de_get (sv_codec (cl_sys c)) genc = Some (GetThing i)"
    and "r = \<lparr>fiat_id = Some i, fiat_kind = kind, fiat_labels = [kind], fiat_fields = flds\<rparr>"
    and "fiat_for_bundle (sv_ext (cl_sys c)) b r (k_graph k) = (t, g)"
    and "wire_thing (sv_wire (cl_sys c)) t = Some bs" "length bs < 2 ^ 64 - 1"
  defines "K \<equiv> touched (call_ready c genc 4096 (set_graph g (poke (cl_in c (length enc)) enc k)))"
  shows "runtime_fiat c (Some i) kind [kind] flds (k, u) =
    Some (if length bs \<le> 4096
      then Inr (RespFiat (case de_thing c bs of Some thing \<Rightarrow> thing\<lparr>thing_revision := thing_revision t\<rparr>
          | None \<Rightarrow> \<lparr>thing_id = i, thing_kind = kind, thing_labels = bs_of_list [kind], thing_fields = flds,
              thing_owner = 0, thing_revision = thing_revision t\<rparr>),
        poke (cl_out c 4096) bs K, u)
      else Inl ''range end index out of range for slice'')"
proof -
  let ?k = "set_graph g (poke (cl_in c (length enc)) enc k)"
  have r: "readable b i (k_graph ?k) = Some t"
    using fiat_readable(1) [OF assms(4,5,11)] assms(10) by (simp add: set_graph_hw)
  have cb: "current_bundle (k_cpu ?k) = Inr b" using assms(3) by simp
  have w: "Option.bind (readable b i (k_graph ?k)) (wire_thing (sv_wire (cl_sys c))) = Some bs" using r assms(12) by simp
  have f: "fetch_thing c i (?k, u) = Some (if length bs \<le> 4096 then Inr (de_thing c bs, poke (cl_out c 4096) bs K, u)
       else Inl ''range end index out of range for slice'')"
    using fetch_thing_spec [OF assms(2,8) cb assms(9), of u] w assms(13) unfolding K_def by simp
  have raw: "graph_fiat_raw c enc (k, u) = Some (Inr (thing_revision t, ?k, u))"
    by (rule graph_fiat_raw_spec [OF assms(1,3,7,11)])
  show ?thesis
    using assms(6,10) raw f
    by (simp add: runtime_fiat_def Let_def prog_bind_def take_uuid_def prog_return_def)
qed

text \<open>
  Program and kernel speak the same encoding: what one side encodes, the other decodes to the
  same message. Links are not in the list, since their two sides use different messages.
\<close>

definition codecs_agree :: "('m, 'f) client \<Rightarrow> bool" where
  "codecs_agree c \<longleftrightarrow>
     (\<forall>r bs. en_fiat c r = Some bs \<longrightarrow> de_fiat (sv_codec (cl_sys c)) bs = Some r) \<and>
     (\<forall>r bs. en_get c r = Some bs \<longrightarrow> de_get (sv_codec (cl_sys c)) bs = Some r) \<and>
     (\<forall>r bs. en_pattern c r = Some bs \<longrightarrow> de_pattern (sv_codec (cl_sys c)) bs = Some r) \<and>
     (\<forall>r bs. en_props c r = Some bs \<longrightarrow> de_props (sv_codec (cl_sys c)) bs = Some r) \<and>
     (\<forall>r bs. en_grant c r = Some bs \<longrightarrow> de_grant (sv_codec (cl_sys c)) bs = Some r) \<and>
     (\<forall>t bs. wire_thing (sv_wire (cl_sys c)) t = Some bs \<longrightarrow> de_thing c bs = Some t) \<and>
     (\<forall>b bs. wire_batch (sv_wire (cl_sys c)) b = Some bs \<longrightarrow> de_batch c bs = Some b)"

section \<open>Properties\<close>

text \<open>
  C32: what \<open>fiat\<close> does for a program on the real machine. The request crosses into the kernel, which
  stores the thing in the name of the caller; the program then reads it back through a buffer of
  4096 bytes. A thing whose encoding fits is returned exactly as the kernel stored it. A larger
  one is stored as well, but the program slices its buffer at the length the kernel reports and
  panics.
\<close>

theorem runtime_fiat_exact:
  assumes "codecs_agree c" and "current_bundle (k_cpu k) = Inr b"
    and "store_inv (store_of (k_graph k))" and "room (store_of (k_graph k)) 2"
    and "r = \<lparr>fiat_id = Some i, fiat_kind = kind, fiat_labels = [kind], fiat_fields = flds\<rparr>"
    and "en_fiat c r = Some enc" and "en_get c (GetThing i) = Some genc"
    and "buffer_ok (cl_in c (length enc)) (length enc)" and "buffers_ok c (length genc) 4096"
    and "fiat_for_bundle (sv_ext (cl_sys c)) b r (k_graph k) = (t, g)"
    and "wire_thing (sv_wire (cl_sys c)) t = Some bs" and "length bs < 2 ^ 64 - 1"
  shows "(\<exists>k1. graph_fiat_raw c enc (k, u) = Some (Inr (thing_revision t, k1, u)) \<and> k_graph k1 = g \<and> readable b i g = Some t) \<and>
    (if length bs \<le> 4096
     then \<exists>k2. runtime_call c (ReqFiat (Some i) kind [kind] flds) (k, u) = Some (Inr (RespFiat t, k2, u)) \<and>
       store_of (k_graph k2) = store_of g
     else runtime_call c (ReqFiat (Some i) kind [kind] flds) (k, u) = Some (Inl ''range end index out of range for slice''))"
proof -
  have de: "de_fiat (sv_codec (cl_sys c)) enc = Some r" "de_get (sv_codec (cl_sys c)) genc = Some (GetThing i)"
    "de_thing c bs = Some t"
    using assms(1,6,7,11) by (simp_all add: codecs_agree_def)
  note call = runtime_fiat_spec [OF assms(8,9,2,3,4,6) de(1) assms(7) de(2) assms(5,10,11,12), of u]
  have "readable b i g = Some t" using fiat_readable(1) [OF assms(3,4,10)] assms(5) by simp
  with graph_fiat_raw_spec [OF assms(8,2) de(1) assms(10), of u] call show ?thesis
    by (simp add: runtime_call_def de(3) set_graph_hw)
qed

definition demo_note :: graph_fiat_request where
  "demo_note = \<lparr>fiat_id = Some 9, fiat_kind = canon_WINDOW, fiat_labels = [canon_WINDOW], fiat_fields = []\<rparr>"

definition demo_noted :: graph_thing where
  "demo_noted = fst (fiat_for_bundle demo_ext KERNEL_BUNDLE_ID demo_note (k_graph demo_kernel))"

text \<open>A program whose codec knows one note, which takes \<open>n\<close> bytes.\<close>

definition demo_client :: "nat \<Rightarrow> (nat \<rightharpoonup> nat, nat) client" where
  "demo_client n =
     \<lparr>cl_sys = demo_sys\<lparr>sv_wire := (sv_wire demo_sys)\<lparr>wire_thing := (\<lambda>t. if t = demo_noted then Some (replicate n 7) else None),
         wire_batch := (\<lambda>_. None)\<rparr>,
        sv_codec := demo_codec\<lparr>de_fiat := (\<lambda>_. Some demo_note), de_get := (\<lambda>_. Some (GetThing 9))\<rparr>\<rparr>,
      cl_in = (\<lambda>_. 0x1000), cl_req = 0x800, cl_out = (\<lambda>_. 0x2000), cl_uuid = (\<lambda>_. 0),
      en_fiat = (\<lambda>r. if r = demo_note then Some [1] else None), en_that = (\<lambda>_. None),
      en_get = (\<lambda>q. if q = GetThing 9 then Some [2] else None), en_pattern = (\<lambda>_. None), en_props_get = (\<lambda>_. None),
      en_props = (\<lambda>_. None), en_grant = (\<lambda>_. None), en_irq_bind = (\<lambda>_. None), en_dma_map = (\<lambda>_. None),
      en_dma_submit = (\<lambda>_. None), en_dma_wait = (\<lambda>_. None), de_thing = (\<lambda>_. Some demo_noted), de_things = (\<lambda>_. None),
      take_header = (\<lambda>_. None), take_thing = (\<lambda>_. None), de_batch = (\<lambda>_. None), de_map = (\<lambda>_. None)\<rparr>"

lemma demo_client_agrees: "codecs_agree (demo_client n)"
  by (simp add: codecs_agree_def demo_client_def)

lemma demo_client_buffers: "buffer_ok (cl_in (demo_client n) 1) 1" "buffers_ok (demo_client n) 1 4096"
  by (simp_all add: demo_client_def buffers_ok_def buffer_ok_def apart_def USER_LIMIT_def)

lemma demo_store: "store_of (k_graph demo_kernel) = store_new"
  by (simp add: demo_kernel_def hw_boot_def graph_init_def store_of_def graph_off_def)

theorem runtime_fiat_exact_witness:
  "(\<exists>k2. runtime_call (demo_client 3) (ReqFiat (Some 9) canon_WINDOW [canon_WINDOW] []) (demo_kernel, 0) =
      Some (Inr (RespFiat demo_noted, k2, 0))) \<and>
   runtime_call (demo_client 5000) (ReqFiat (Some 9) canon_WINDOW [canon_WINDOW] []) (demo_kernel, 0) =
     Some (Inl ''range end index out of range for slice'')"
proof -
  have inv: "store_inv (store_of (k_graph demo_kernel))" "room (store_of (k_graph demo_kernel)) 2"
    using store_inv_new by (simp_all add: demo_store room_def store_new_def)
  obtain g where g: "fiat_for_bundle demo_ext KERNEL_BUNDLE_ID demo_note (k_graph demo_kernel) = (demo_noted, g)"
    by (metis demo_noted_def prod.collapse)
  have e: "sv_ext (cl_sys (demo_client n)) = demo_ext" "en_fiat (demo_client n) demo_note = Some [1]"
    "en_get (demo_client n) (GetThing 9) = Some [2]"
    "wire_thing (sv_wire (cl_sys (demo_client n))) demo_noted = Some (replicate n 7)" for n
    by (simp_all add: demo_client_def demo_sys_def)
  have g': "fiat_for_bundle (sv_ext (cl_sys (demo_client n))) KERNEL_BUNDLE_ID demo_note (k_graph demo_kernel) = (demo_noted, g)" for n
    using g e(1) by simp
  note x = runtime_fiat_exact [OF demo_client_agrees demo_current inv demo_note_def e(2,3) _ _ g' e(4), of _ 0]
  show ?thesis using x [of 3] x [of 5000] demo_client_buffers by auto
qed

end
