(* ===== verification/User_Graph.thy ===== *)
theory User_Graph
  imports User_Runtime
begin

text \<open>
  The graph functions of user programs (\<open>src/userland/src/graph.rs\<close>) over whatever runtime is installed,
  and the watch manager that fans graph changes out to applications (\<open>src/userland/src/watch.rs\<close>).
  The two runtimes of the system, the calls of \<open>User_Runtime\<close> and the in-kernel runtime of \<open>System_Boot\<close>,
  are instances of what the watch manager relies on.
\<close>

type_synonym 's runtime = "abi_request \<Rightarrow> (abi_response, 's) prog"

definition direct_runtime :: "ext \<Rightarrow> (kernel_graph \<times> u64) runtime" where
  "direct_runtime x req s = Some (Inr (direct_call x req s))"

section \<open>The functions of graph.rs\<close>

text \<open>\<open>en\<close> is \<open>postcard::to_allocvec\<close> on the fields.\<close>

definition graph_fiat ::
  "(gmap \<Rightarrow> u8 list option) \<Rightarrow> 's runtime \<Rightarrow> uuid option \<Rightarrow> symbol \<Rightarrow> gmap \<Rightarrow> (uuid, 's) prog" where
  "graph_fiat en call i kind flds =
     (let j = (case i of Some j \<Rightarrow> j | None \<Rightarrow> simple_uuid (to_be_bytes (raw kind) @ unwrap_or [] (en flds)))
      in prog_bind (call (ReqFiat (Some j) kind [kind] flds)) (\<lambda>resp.
           prog_return (case resp of RespFiat thing \<Rightarrow> thing_id thing | _ \<Rightarrow> j)))"

definition graph_that :: "'s runtime \<Rightarrow> uuid \<Rightarrow> string \<Rightarrow> uuid \<Rightarrow> (unit, 's) prog" where
  "graph_that call src pred dst = prog_bind (call (ReqLink None src pred dst [])) (\<lambda>_. prog_return ())"

definition graph_grant_capability :: "'s runtime \<Rightarrow> uuid \<Rightarrow> uuid \<Rightarrow> string \<Rightarrow> (bool, 's) prog" where
  "graph_grant_capability call grantee target capability =
     prog_bind (call (ReqGrantCapability \<lparr>gc_grantee = grantee, gc_target = target, gc_capability = capability\<rparr>)) (\<lambda>resp.
       prog_return (resp = RespCapabilityGranted True))"

partial_function (option) find_all ::
  "'s runtime \<Rightarrow> string \<Rightarrow> u64 option \<Rightarrow> graph_thing list \<Rightarrow> 's \<Rightarrow> (graph_thing list \<times> 's) panics option" where
  "find_all call kind cursor results s =
     Option.bind (call (ReqFindByKind kind cursor) s) (\<lambda>r. case r of
         Inl e \<Rightarrow> Some (Inl e)
       | Inr (resp, s') \<Rightarrow> (case resp of
             RespFind ts next \<Rightarrow> (case next of
                 None \<Rightarrow> prog_return (results @ ts) s'
               | Some n \<Rightarrow> find_all call kind (Some n) (results @ ts) s')
           | RespQuery ts \<Rightarrow> prog_return (results @ ts) s'
           | _ \<Rightarrow> prog_return results s'))"

definition graph_find_by_kind :: "'s runtime \<Rightarrow> string \<Rightarrow> (graph_thing list, 's) prog" where
  "graph_find_by_kind call kind = find_all call kind None []"

definition graph_get_nodes :: "'s runtime \<Rightarrow> node_pattern \<Rightarrow> (graph_thing list, 's) prog" where
  "graph_get_nodes call pattern = prog_bind (call (ReqQuery pattern)) (\<lambda>resp.
     prog_return (case resp of RespQuery ts \<Rightarrow> ts | RespFind ts _ \<Rightarrow> ts | _ \<Rightarrow> []))"

definition graph_get_thing :: "'s runtime \<Rightarrow> uuid \<Rightarrow> (graph_thing option, 's) prog" where
  "graph_get_thing call i = prog_bind (call (ReqGet i)) (\<lambda>resp.
     prog_return (case resp of RespGet t \<Rightarrow> t | _ \<Rightarrow> None))"

definition graph_get_props :: "'s runtime \<Rightarrow> graph_props_get_request \<Rightarrow> (gmap option, 's) prog" where
  "graph_get_props call request = prog_bind (call (ReqPropsGet request)) (\<lambda>resp.
     prog_return (case resp of RespProps props \<Rightarrow> Some props | _ \<Rightarrow> None))"

definition graph_set_props :: "'s runtime \<Rightarrow> graph_props_request \<Rightarrow> (bool, 's) prog" where
  "graph_set_props call request = prog_bind (call (ReqPropsSet request)) (\<lambda>resp.
     prog_return (case resp of RespProps _ \<Rightarrow> True | _ \<Rightarrow> False))"

definition user_declare_shared_buffer ::
  "(gmap \<Rightarrow> u8 list option) \<Rightarrow> 's runtime \<Rightarrow> shared_buffer \<Rightarrow> (uuid, 's) prog" where
  "user_declare_shared_buffer en call b =
     graph_fiat en call (Some (shared_buffer.sb_id b)) canon_SHARED_BUFFER (shared_buffer_to_fields b)"

definition user_declare_queue_state :: "(gmap \<Rightarrow> u8 list option) \<Rightarrow> 's runtime \<Rightarrow> queue_state \<Rightarrow> (uuid, 's) prog" where
  "user_declare_queue_state en call q = graph_fiat en call (Some (qu_id q)) canon_QUEUE_STATE (queue_state_to_fields q)"

definition user_update_queue_state ::
  "'s runtime \<Rightarrow> uuid \<Rightarrow> u64 \<Rightarrow> u64 \<Rightarrow> bool \<Rightarrow> u64 option \<Rightarrow> (bool, 's) prog" where
  "user_update_queue_state call node head tail has_data capacity =
     graph_set_props call \<lparr>ps_node = node, ps_props = put_opt canon_CAPACITY VU64 capacity
       (bt_insert canon_HAS_DATA (VBool has_data) (bt_insert canon_TAIL (VU64 tail) (bt_insert canon_HEAD (VU64 head) [])))\<rparr>"

definition load_thing :: "(graph_thing \<Rightarrow> 'a option) \<Rightarrow> 's runtime \<Rightarrow> uuid \<Rightarrow> ('a option, 's) prog" where
  "load_thing load call i = prog_bind (call (ReqGet i)) (\<lambda>resp.
     prog_return (case resp of RespGet t \<Rightarrow> Option.bind t load | RespFiat t \<Rightarrow> load t | _ \<Rightarrow> None))"

definition graph_watch_pattern :: "'s runtime \<Rightarrow> node_pattern \<Rightarrow> (watch_id option, 's) prog" where
  "graph_watch_pattern call pattern = prog_bind (call (ReqWatchRegister pattern)) (\<lambda>resp.
     prog_return (case resp of RespWatchRegistered i \<Rightarrow> Some i | _ \<Rightarrow> None))"

definition graph_watch :: "'s runtime \<Rightarrow> watch_query \<Rightarrow> (watch_id option, 's) prog" where
  "graph_watch call query =
     graph_watch_pattern call \<lparr>pat_labels = (case wq_kind query of None \<Rightarrow> [] | Some kind \<Rightarrow> [kind]),
       pat_props = put_opt canon_DST VUuid (wq_dst query) (put_opt canon_SRC VUuid (wq_src query) [])\<rparr>"

definition graph_poll_watch :: "'s runtime \<Rightarrow> watch_id \<Rightarrow> (graph_change list, 's) prog" where
  "graph_poll_watch call handle = prog_bind (call (ReqWatchPoll handle None)) (\<lambda>resp.
     prog_return (case resp of RespWatchEvents batch \<Rightarrow> batch_changes batch | _ \<Rightarrow> []))"

definition load_things_of_kind ::
  "string \<Rightarrow> (graph_thing \<Rightarrow> 'a option) \<Rightarrow> 's runtime \<Rightarrow> ((uuid \<times> 'a) list, 's) prog" where
  "load_things_of_kind kind load call = prog_bind (graph_find_by_kind call kind) (\<lambda>ts.
     prog_return (List.map_filter (\<lambda>t. map_option (Pair (thing_id t)) (load t)) ts))"

definition place_create :: "(gmap \<Rightarrow> u8 list option) \<Rightarrow> 's runtime \<Rightarrow> string \<Rightarrow> string \<Rightarrow> bool \<Rightarrow> (uuid, 's) prog" where
  "place_create en call name package fullscreen =
     graph_fiat en call None canon_PLACE (bt_insert canon_PLACE_FULLSCREEN (VBool fullscreen)
       (bt_insert canon_PLACE_PACKAGE (VText package) (bt_insert canon_PLACE_NAME (VText name) [])))"

definition mode_create :: "(gmap \<Rightarrow> u8 list option) \<Rightarrow> 's runtime \<Rightarrow> i64 \<Rightarrow> string \<Rightarrow> uuid \<Rightarrow> (uuid, 's) prog" where
  "mode_create en call index label place =
     graph_fiat en call None canon_MODE (bt_insert canon_MODE_PLACE (VUuid place)
       (bt_insert canon_LABEL (VText label) (bt_insert canon_MODE_INDEX (VI64 index) [])))"

definition emit_debug_log :: "(gmap \<Rightarrow> u8 list option) \<Rightarrow> 's runtime \<Rightarrow> string \<Rightarrow> (uuid, 's) prog" where
  "emit_debug_log en call msg = graph_fiat en call None canon_DEBUG_LOG (bt_insert canon_TEXT (VText msg) [])"

section \<open>The watch manager\<close>

datatype app_watch = WatchId u32

record event_filter =
  ef_kind :: "symbol option"
  ef_src :: "uuid option"
  ef_dst :: "uuid option"

record thing_filter =
  tf_kind :: "symbol option"
  tf_id :: "uuid option"

datatype app_event = AppThing app_watch graph_thing | AppEdge app_watch graph_edge

record watch_manager =
  next_app :: usize
  next_watch :: u32
  app_watches :: "(usize, (app_watch \<times> watch_id) list) btree"
  inboxes :: "(usize, app_event list) btree"

definition watch_manager_new :: watch_manager where
  "watch_manager_new = \<lparr>next_app = 0, next_watch = 0, app_watches = [], inboxes = []\<rparr>"

definition inbox_for :: "usize \<Rightarrow> watch_manager \<Rightarrow> watch_manager" where
  "inbox_for a m = m\<lparr>inboxes := bt_entry a [] (inboxes m)\<rparr>"

definition register_app :: "watch_manager \<Rightarrow> usize \<times> watch_manager" where
  "register_app m = (next_app m, inbox_for (next_app m) (m\<lparr>next_app := next_app m + 1\<rparr>))"

definition alloc_watch :: "watch_manager \<Rightarrow> app_watch \<times> watch_manager" where
  "alloc_watch m = (WatchId (next_watch m), m\<lparr>next_watch := next_watch m + 1\<rparr>)"

definition register_pattern ::
  "'s runtime \<Rightarrow> usize \<Rightarrow> node_pattern \<Rightarrow> watch_manager \<Rightarrow> (app_watch \<times> watch_manager, 's) prog" where
  "register_pattern call a pattern m =
     (let (w, m1) = alloc_watch m
      in prog_bind (graph_watch_pattern call pattern) (\<lambda>h.
           prog_return (w, inbox_for a (case h of
               Some handle \<Rightarrow> m1\<lparr>app_watches := bt_insert a (bt_list (app_watches m1) a @ [(w, handle)]) (app_watches m1)\<rparr>
             | None \<Rightarrow> m1))))"

definition register_graph ::
  "'s runtime \<Rightarrow> usize \<Rightarrow> thing_filter \<Rightarrow> watch_manager \<Rightarrow> (app_watch \<times> watch_manager, 's) prog" where
  "register_graph call a flt =
     register_pattern call a \<lparr>pat_labels = (case tf_kind flt of None \<Rightarrow> [] | Some kind \<Rightarrow> [kind]),
       pat_props = put_opt canon_SRC VUuid (tf_id flt) []\<rparr>"

definition register_journal ::
  "'s runtime \<Rightarrow> usize \<Rightarrow> event_filter \<Rightarrow> watch_manager \<Rightarrow> (app_watch \<times> watch_manager, 's) prog" where
  "register_journal call a flt = register_graph call a \<lparr>tf_kind = ef_kind flt, tf_id = None\<rparr>"

definition push_event :: "usize \<Rightarrow> app_event \<Rightarrow> watch_manager \<Rightarrow> watch_manager" where
  "push_event a ev m = m\<lparr>inboxes := bt_insert a (bt_list (inboxes m) a @ [ev]) (inboxes m)\<rparr>"

definition drain_inbox :: "usize \<Rightarrow> watch_manager \<Rightarrow> app_event list \<times> watch_manager" where
  "drain_inbox a m = (bt_list (inboxes m) a, m\<lparr>inboxes := bt_insert a [] (inboxes m)\<rparr>)"

fun app_event_of :: "app_watch \<Rightarrow> graph_change \<Rightarrow> app_event" where
  "app_event_of w (CThing t) = AppThing w t"
| "app_event_of w (CEdge e) = AppEdge w e"

text \<open>The polling loops of \<open>process_graph\<close>; the events are pushed once all watches are polled.\<close>

fun poll_watches :: "'s runtime \<Rightarrow> usize \<Rightarrow> (app_watch \<times> watch_id) list \<Rightarrow> ((usize \<times> app_event) list, 's) prog" where
  "poll_watches call a [] = prog_return []"
| "poll_watches call a ((w, handle) # ws) =
     prog_bind (graph_poll_watch call handle) (\<lambda>changes. prog_bind (poll_watches call a ws) (\<lambda>evs.
       prog_return (map (\<lambda>ch. (a, app_event_of w ch)) changes @ evs)))"

fun poll_apps :: "'s runtime \<Rightarrow> watch_manager \<Rightarrow> usize list \<Rightarrow> ((usize \<times> app_event) list, 's) prog" where
  "poll_apps call m [] = prog_return []"
| "poll_apps call m (a # as) =
     prog_bind (poll_watches call a (bt_list (app_watches m) a)) (\<lambda>evs1. prog_bind (poll_apps call m as) (\<lambda>evs2.
       prog_return (evs1 @ evs2)))"

definition push_events :: "(usize \<times> app_event) list \<Rightarrow> watch_manager \<Rightarrow> watch_manager" where
  "push_events evs m = fold (\<lambda>(a, ev). push_event a ev) evs m"

definition process_graph :: "'s runtime \<Rightarrow> usize list \<Rightarrow> watch_manager \<Rightarrow> (watch_manager, 's) prog" where
  "process_graph call as m = prog_bind (poll_apps call m as) (\<lambda>evs. prog_return (push_events evs m))"

section \<open>What the watch manager relies on\<close>

text \<open>
  A source of changes: polling a watch that is ready hands over what is pending for it, in order,
  and takes away just that.
\<close>

locale change_source =
  fixes call :: "'s runtime"
    and pending :: "'s \<Rightarrow> watch_id \<Rightarrow> graph_change list"
    and ready :: "'s \<Rightarrow> watch_id \<Rightarrow> bool"
  assumes poll_ready: "ready s i \<Longrightarrow> \<exists>b s'. call (ReqWatchPoll i None) s = Some (Inr (RespWatchEvents b, s')) \<and>
    batch_changes b = pending s i \<and> pending s' = (pending s)(i := []) \<and> (\<forall>j. ready s j \<longrightarrow> ready s' j)"
begin

definition emptied :: "watch_id list \<Rightarrow> 's \<Rightarrow> 's \<Rightarrow> bool" where
  "emptied hs s s' \<longleftrightarrow> pending s' = (\<lambda>j. if j \<in> set hs then [] else pending s j) \<and> (\<forall>j. ready s j \<longrightarrow> ready s' j)"

definition events_of :: "'s \<Rightarrow> (app_watch \<times> watch_id) list \<Rightarrow> app_event list" where
  "events_of s ws = concat (map (\<lambda>(w, h). map (app_event_of w) (pending s h)) ws)"

lemma events_cong: "(\<And>w h. (w, h) \<in> set ws \<Longrightarrow> pending s1 h = pending s h) \<Longrightarrow> events_of s1 ws = events_of s ws"
  by (auto simp: events_of_def intro!: arg_cong [of _ _ concat])

lemma poll_one:
  assumes "ready s h"
  shows "\<exists>s'. graph_poll_watch call h s = Some (Inr (pending s h, s')) \<and> emptied [h] s s'"
  using poll_ready [OF assms] by (auto simp: graph_poll_watch_def prog_bind_def prog_return_def emptied_def fun_eq_iff)

lemma poll_watches_all:
  assumes "distinct (map snd ws)" "\<And>h. h \<in> snd ` set ws \<Longrightarrow> ready s h"
  shows "\<exists>s'. poll_watches call a ws s = Some (Inr (map (Pair a) (events_of s ws), s')) \<and> emptied (map snd ws) s s'"
  using assms
proof (induction ws arbitrary: s)
  case Nil
  then show ?case by (simp add: prog_return_def events_of_def emptied_def)
next
  case (Cons wh ws)
  obtain w h where wh: "wh = (w, h)" by fastforce
  have "ready s h" using Cons.prems(2) wh by simp
  then obtain s1 where p: "graph_poll_watch call h s = Some (Inr (pending s h, s1))" and e1: "emptied [h] s s1"
    using poll_one by blast
  have "ready s1 i" if "i \<in> snd ` set ws" for i using that e1 Cons.prems(2) by (auto simp: emptied_def)
  with Cons.IH [of s1] Cons.prems(1) obtain s2 where
    r: "poll_watches call a ws s1 = Some (Inr (map (Pair a) (events_of s1 ws), s2))" and e2: "emptied (map snd ws) s1 s2"
    by auto
  have "pending s1 i = pending s i" if "(v, i) \<in> set ws" for v i
    using e1 Cons.prems(1) that wh by (force simp: emptied_def)
  then have "events_of s1 ws = events_of s ws" by (rule events_cong)
  with p r have "poll_watches call a (wh # ws) s = Some (Inr (map (Pair a) (events_of s (wh # ws)), s2))"
    by (simp add: wh prog_bind_def prog_return_def events_of_def)
  moreover have "emptied (map snd (wh # ws)) s s2" using e1 e2 by (auto simp: emptied_def wh)
  ultimately show ?case by blast
qed

lemma poll_apps_all:
  assumes "distinct (concat (map (\<lambda>a. map snd (bt_list (app_watches m) a)) as))"
    and "\<And>a h. a \<in> set as \<Longrightarrow> h \<in> snd ` set (bt_list (app_watches m) a) \<Longrightarrow> ready s h"
  shows "\<exists>s'. poll_apps call m as s =
      Some (Inr (concat (map (\<lambda>a. map (Pair a) (events_of s (bt_list (app_watches m) a))) as), s')) \<and>
    emptied (concat (map (\<lambda>a. map snd (bt_list (app_watches m) a)) as)) s s'"
  using assms
proof (induction as arbitrary: s)
  case Nil
  then show ?case by (simp add: prog_return_def emptied_def)
next
  case (Cons a as)
  let ?ws = "\<lambda>a. bt_list (app_watches m) a"
  obtain s1 where p: "poll_watches call a (?ws a) s = Some (Inr (map (Pair a) (events_of s (?ws a)), s1))"
    and e1: "emptied (map snd (?ws a)) s s1"
    using poll_watches_all [of "?ws a" s a] Cons.prems by auto
  have "ready s1 h" if "b \<in> set as" "h \<in> snd ` set (?ws b)" for b h
    using Cons.prems(2) [of b h] that e1 by (simp add: emptied_def)
  with Cons.IH [of s1] Cons.prems(1) obtain s2 where
    r: "poll_apps call m as s1 = Some (Inr (concat (map (\<lambda>a. map (Pair a) (events_of s1 (?ws a))) as), s2))"
    and e2: "emptied (concat (map (\<lambda>a. map snd (?ws a)) as)) s1 s2"
    by auto
  have "pending s1 h = pending s h" if "b \<in> set as" "(w, h) \<in> set (?ws b)" for b w h
    using e1 Cons.prems(1) that by (force simp: emptied_def)
  then have "events_of s1 (?ws b) = events_of s (?ws b)" if "b \<in> set as" for b using that by (blast intro: events_cong)
  then have "map (\<lambda>a. map (Pair a) (events_of s1 (?ws a))) as = map (\<lambda>a. map (Pair a) (events_of s (?ws a))) as"
    by simp
  with p r have "poll_apps call m (a # as) s =
      Some (Inr (concat (map (\<lambda>a. map (Pair a) (events_of s (?ws a))) (a # as)), s2))"
    by (simp add: prog_bind_def prog_return_def)
  moreover have "emptied (concat (map (\<lambda>a. map snd (?ws a)) (a # as))) s s2" using e1 e2 by (auto simp: emptied_def)
  ultimately show ?case by blast
qed

end

lemma push_events_inbox:
  "bt_list (inboxes (push_events evs m)) a = bt_list (inboxes m) a @ map snd (filter (\<lambda>e. fst e = a) evs)"
  unfolding push_events_def by (induction evs arbitrary: m) (auto simp: push_event_def)

lemma push_events_watches [simp]: "app_watches (push_events evs m) = app_watches m"
  unfolding push_events_def by (induction evs arbitrary: m) (auto simp: push_event_def)

text \<open>The events tagged with one of several different applications.\<close>

lemma filter_tagged:
  "distinct as \<Longrightarrow> map snd (filter (\<lambda>e. fst e = a) (concat (map (\<lambda>b. map (Pair b) (f b)) as))) = (if a \<in> set as then f a else [])"
proof (induction as)
  case (Cons b as)
  have "filter (\<lambda>e. fst e = a) (map (Pair b) xs) = (if b = a then map (Pair b) xs else [])" for xs :: "'b list"
    by (induction xs) auto
  with Cons show ?case by (auto simp: comp_def)
qed simp

context change_source
begin

lemma process_graph_all:
  assumes "distinct as" "distinct (concat (map (\<lambda>a. map snd (bt_list (app_watches m) a)) as))"
    and "\<forall>a \<in> set as. \<forall>h \<in> snd ` set (bt_list (app_watches m) a). ready s h"
  shows "\<exists>m' s'. process_graph call as m s = Some (Inr (m', s')) \<and> app_watches m' = app_watches m \<and>
    (\<forall>a. bt_list (inboxes m') a =
       bt_list (inboxes m) a @ (if a \<in> set as then events_of s (bt_list (app_watches m) a) else [])) \<and>
    (\<forall>h. pending s' h = (if \<exists>a \<in> set as. h \<in> snd ` set (bt_list (app_watches m) a) then [] else pending s h))"
proof -
  obtain s' where p: "poll_apps call m as s =
      Some (Inr (concat (map (\<lambda>a. map (Pair a) (events_of s (bt_list (app_watches m) a))) as), s'))"
    and e: "emptied (concat (map (\<lambda>a. map snd (bt_list (app_watches m) a)) as)) s s'"
    using poll_apps_all [OF assms(2), of s] assms(3) by blast
  show ?thesis
    using p e filter_tagged [OF assms(1), of _ "\<lambda>a. events_of s (bt_list (app_watches m) a)"]
    by (auto simp: process_graph_def prog_bind_def prog_return_def push_events_inbox emptied_def)
qed

end

section \<open>The two runtimes as sources of changes\<close>

definition queue_of :: "kernel_graph \<Rightarrow> watch_id \<Rightarrow> graph_change list" where
  "queue_of g i = (case bt_get (watches (store_of g)) i of None \<Rightarrow> [] | Some w \<Rightarrow> watch_queue w)"

lemma api_poll_queue:
  assumes "api_poll_watch i g = (r, g')"
  shows "(case r of None \<Rightarrow> [] | Some b \<Rightarrow> batch_changes b) = queue_of g i" "queue_of g' = (queue_of g)(i := [])"
    "next_revision (store_of g') = next_revision (store_of g)"
    "r = (if queue_of g i = [] then None
      else Some \<lparr>from_revision = 0, latest_revision = next_revision (store_of g), batch_changes = queue_of g i\<rparr>)"
  using assms
  by (auto simp: api_poll_watch_def with_store_def on_store_def poll_watch_def queue_of_def fun_eq_iff
      split: prod.splits option.splits if_splits)

interpretation direct_changes: change_source "direct_runtime x" "\<lambda>(g, c). queue_of g" "\<lambda>_ _. True" for x
proof
  fix s :: "kernel_graph \<times> u64" and i
  obtain g c where s: "s = (g, c)" by fastforce
  obtain r g' where p: "api_poll_watch i g = (r, g')" by fastforce
  then have "direct_runtime x (ReqWatchPoll i None) s =
      Some (Inr (RespWatchEvents (case r of Some b \<Rightarrow> b | None \<Rightarrow> \<lparr>from_revision = 0, latest_revision = 0, batch_changes = []\<rparr>), g', c))"
    by (simp add: direct_runtime_def direct_call_def s)
  with api_poll_queue [OF p] s
  show "\<exists>b s'. direct_runtime x (ReqWatchPoll i None) s = Some (Inr (RespWatchEvents b, s')) \<and>
      batch_changes b = (case s of (g, c) \<Rightarrow> queue_of g) i \<and>
      (case s' of (g, c) \<Rightarrow> queue_of g) = (case s of (g, c) \<Rightarrow> queue_of g)(i := []) \<and> (\<forall>j. True \<longrightarrow> True)"
    by (cases r) auto
qed

text \<open>
  On the real machine a poll needs room: the pending changes must fit the buffer of 64 KiB. When
  nothing is pending the kernel answers with no bytes at all.
\<close>

definition poll_fits :: "('m, 'f) client \<Rightarrow> ('m, 'f) ustate \<Rightarrow> watch_id \<Rightarrow> bool" where
  "poll_fits c s i \<longleftrightarrow>
     buffer_ok (cl_out c 65536) 65536 \<and> (\<forall>b. de_batch c [] = Some b \<longrightarrow> batch_changes b = []) \<and>
     (queue_of (k_graph (fst s)) i \<noteq> [] \<longrightarrow>
        (\<exists>bs. wire_batch (sv_wire (cl_sys c)) \<lparr>from_revision = 0, latest_revision = next_revision (store_of (k_graph (fst s))),
            batch_changes = queue_of (k_graph (fst s)) i\<rparr> = Some bs \<and> length bs \<le> 65536 \<and>
          de_batch c bs = Some \<lparr>from_revision = 0, latest_revision = next_revision (store_of (k_graph (fst s))),
            batch_changes = queue_of (k_graph (fst s)) i\<rparr>))"

lemma runtime_watch_poll_cut:
  "runtime_watch_poll c i = prog_bind (graph_watch_poll_raw c i (replicate 65536 0))
     (cut_answer (prog_return (RespWatchEvents empty_batch)) (\<lambda>bs. RespWatchEvents (unwrap_or empty_batch (de_batch c bs))))"
  by (simp add: runtime_watch_poll_def cut_answer_def)

lemma runtime_poll_spec:
  assumes "api_poll_watch i (k_graph k) = (r, g)" "buffer_ok (cl_out c 65536) 65536"
    and "(case r of Some b \<Rightarrow> wire_batch (sv_wire (cl_sys c)) b | None \<Rightarrow> Some []) = Some bs"
    and "length bs \<le> 65536" "\<And>b. r = Some b \<Longrightarrow> batch_changes b \<noteq> []"
  shows "\<exists>k'. runtime_watch_poll c i (k, u) =
      Some (Inr (RespWatchEvents (unwrap_or empty_batch (de_batch c bs)), k', u)) \<and> k_graph k' = g"
proof -
  let ?K = "set_graph g (poke (cl_out c 65536) (replicate 65536 0) k)"
  let ?k' = "poke (cl_out c 65536) bs ?K"
  have "export_watch_events (sv_wire (cl_sys c)) i (k_graph k) = (Some bs, g)"
    using assms(1,3,5) by (auto simp: export_watch_events_def split: option.splits)
  then have "syscall_entry (cl_sys c) SYSCALL_GRAPH_WATCH_POLL i (cl_out c 65536) (of_nat 65536) 0
      (poke (cl_out c 65536) (replicate 65536 0) k) = Inr (of_nat (length bs), ?k')"
    using copy_out_buffer [OF assms(2), of bs ?K] assms(4)
    by (simp add: syscall_entry_def syscall_numbers sys_watch_poll_def)
  then have "graph_watch_poll_raw c i (replicate 65536 0) (k, u) = read_back (cl_out c 65536) 65536 (of_nat (length bs)) (?k', u)"
    by (simp add: graph_watch_poll_raw_def fill_for_def prog_bind_def user_syscall_def Let_def)
  then have "runtime_watch_poll c i (k, u) = Some (Inr (RespWatchEvents (unwrap_or empty_batch (de_batch c bs)), ?k', u))"
    using cut_answer_bytes [OF assms(2), of bs _ _ ?K] assms(4)
    by (simp add: runtime_watch_poll_cut prog_bind_def read_back_def prog_return_def [of "(_, _)"])
  moreover have "k_graph ?k' = g" by (simp add: set_graph_hw)
  ultimately show ?thesis by blast
qed

interpretation machine_changes: change_source "runtime_call c" "\<lambda>s. queue_of (k_graph (fst s))" "poll_fits c" for c
proof
  fix s i
  assume fits: "poll_fits c s i"
  obtain k u where s: "s = (k, u)" by fastforce
  obtain r g where p: "api_poll_watch i (k_graph k) = (r, g)" by fastforce
  note q = api_poll_queue [OF p]
  have ok: "buffer_ok (cl_out c 65536) 65536" and none: "\<And>b. de_batch c [] = Some b \<Longrightarrow> batch_changes b = []"
    using fits by (auto simp: poll_fits_def)
  obtain bs where bs: "(case r of Some b \<Rightarrow> wire_batch (sv_wire (cl_sys c)) b | None \<Rightarrow> Some []) = Some bs" "length bs \<le> 65536"
    and de: "batch_changes (unwrap_or empty_batch (de_batch c bs)) = queue_of (k_graph k) i"
  proof (cases "queue_of (k_graph k) i = []")
    case True
    then show ?thesis using none q(4) that [of "[]"] by (auto simp: unwrap_or_def empty_batch_def split: option.splits)
  next
    case False
    then obtain bs where "wire_batch (sv_wire (cl_sys c)) (the r) = Some bs" "length bs \<le> 65536" "de_batch c bs = r"
      using fits q(4) by (auto simp: poll_fits_def s)
    then show ?thesis using that [of bs] False q(4) by (simp add: unwrap_or_def)
  qed
  obtain k' where "runtime_watch_poll c i (k, u) = Some (Inr (RespWatchEvents (unwrap_or empty_batch (de_batch c bs)), k', u))"
    and g: "k_graph k' = g"
    using runtime_poll_spec [OF p ok bs, of u] q(4) by (auto split: if_splits)
  moreover have "poll_fits c (k', u) j" if "poll_fits c s j" for j
    using that q(2,3) g by (auto simp: poll_fits_def s)
  ultimately show "\<exists>b s'. runtime_call c (ReqWatchPoll i None) s = Some (Inr (RespWatchEvents b, s')) \<and>
      batch_changes b = queue_of (k_graph (fst s)) i \<and>
      queue_of (k_graph (fst s')) = (queue_of (k_graph (fst s)))(i := []) \<and> (\<forall>j. poll_fits c s j \<longrightarrow> poll_fits c s' j)"
    using de q(2) by (auto simp: runtime_call_def s)
qed

section \<open>Properties\<close>

text \<open>
  C33: no change gets lost between the kernel and an application. When \<open>process_graph\<close> runs for
  some applications on the real machine, and every pending batch fits the buffer, each of them
  finds in its inbox, after what was there, every change pending for each of its watches, once,
  in the order the kernel queued them and tagged with the watch; other inboxes stay as they are,
  and just the polled queues are empty afterwards.
\<close>

theorem process_graph_delivers:
  assumes "distinct as" and "distinct (concat (map (\<lambda>a. map snd (bt_list (app_watches m) a)) as))"
    and "\<And>a w h. a \<in> set as \<Longrightarrow> (w, h) \<in> set (bt_list (app_watches m) a) \<Longrightarrow> poll_fits c (k, u) h"
  shows "\<exists>m' k' u'. process_graph (runtime_call c) as m (k, u) = Some (Inr (m', k', u')) \<and> app_watches m' = app_watches m \<and>
    (\<forall>a. bt_list (inboxes m') a = bt_list (inboxes m) a @
       (if a \<in> set as
        then concat (map (\<lambda>(w, h). map (app_event_of w) (queue_of (k_graph k) h)) (bt_list (app_watches m) a)) else [])) \<and>
    (\<forall>h. queue_of (k_graph k') h =
       (if \<exists>a \<in> set as. h \<in> snd ` set (bt_list (app_watches m) a) then [] else queue_of (k_graph k) h))"
proof -
  have "\<forall>a \<in> set as. \<forall>h \<in> snd ` set (bt_list (app_watches m) a). poll_fits c (k, u) h" using assms(3) by force
  from machine_changes.process_graph_all [OF assms(1,2) this] show ?thesis
    by (auto simp: machine_changes.events_of_def)
qed

text \<open>
  C36: \<open>find_by_kind\<close> never returns on the in-kernel runtime. That runtime reports a cursor with
  every page, also with the last one, while the client goes on until no cursor comes back; it
  starts again at the first page and collects the same things for ever.
\<close>

theorem direct_find_never_returns: "graph_find_by_kind (direct_runtime x) kind s = None"
proof -
  have "False" if "find_all (direct_runtime x) kind cursor results s = Some y" for cursor results s y
  proof -
    have "direct_runtime x = direct_runtime x \<longrightarrow> False"
    proof (rule find_all.raw_induct [where P = "\<lambda>call kind cursor results s y. call = direct_runtime x \<longrightarrow> False", OF _ that])
      fix f :: "(kernel_graph \<times> u64) runtime \<Rightarrow> string \<Rightarrow> u64 option \<Rightarrow> graph_thing list \<Rightarrow> kernel_graph \<times> u64 \<Rightarrow>
          (graph_thing list \<times> kernel_graph \<times> u64) panics option"
        and call kind cursor results s y
      assume ih: "\<And>call kind cursor results s y. f call kind cursor results s = Some y \<Longrightarrow> call = direct_runtime x \<longrightarrow> False"
        and step: "Option.bind (call (ReqFindByKind kind cursor) s) (\<lambda>r. case r of
            Inl e \<Rightarrow> Some (Inl e)
          | Inr (resp, s') \<Rightarrow> (case resp of
                RespFind ts next \<Rightarrow> (case next of
                    None \<Rightarrow> prog_return (results @ ts) s'
                  | Some n \<Rightarrow> f call kind (Some n) (results @ ts) s')
              | RespQuery ts \<Rightarrow> prog_return (results @ ts) s'
              | _ \<Rightarrow> prog_return results s')) = Some y"
      obtain g c where s: "s = (g, c)" by fastforce
      obtain ts n g' where "api_find_by_kind KERNEL_BUNDLE_ID kind (case cursor of Some n \<Rightarrow> n | None \<Rightarrow> 0) g = ((ts, n), g')"
        by (metis prod.collapse)
      then have "direct_runtime x (ReqFindByKind kind cursor) s = Some (Inr (RespFind ts (Some n), g', c))"
        by (simp add: direct_runtime_def direct_call_def s)
      then show "call = direct_runtime x \<longrightarrow> False" using step ih [of call kind "Some n"] by auto
    qed
    then show ?thesis by simp
  qed
  then show ?thesis unfolding graph_find_by_kind_def by (metis not_Some_eq)
qed

definition demo_change :: graph_change where
  "demo_change = CThing (fiat_thing demo_ext (BundleId 5) demo_request 1)"

definition demo_batch :: graph_watch_batch where
  "demo_batch = \<lparr>from_revision = 0, latest_revision = next_revision store_new, batch_changes = [demo_change]\<rparr>"

definition demo_poller :: "(nat \<rightharpoonup> nat, nat) client" where
  "demo_poller = (demo_client 0)\<lparr>cl_sys := demo_sys\<lparr>sv_wire := (sv_wire demo_sys)\<lparr>wire_batch := (\<lambda>_. Some [7, 7])\<rparr>\<rparr>,
     de_batch := (\<lambda>bs. if bs = [7, 7] then Some demo_batch else None)\<rparr>"

definition demo_manager :: watch_manager where
  "demo_manager = \<lparr>next_app = 1, next_watch = 1, app_watches = [(0, [(WatchId 0, 1)])], inboxes = [(0, [])]\<rparr>"

lemma pending_queue: "queue_of (k_graph pending_kernel) 1 = [demo_change]" "next_revision (store_of (k_graph pending_kernel)) = next_revision store_new"
  by (simp_all add: queue_of_def pending_kernel_def set_graph_hw store_of_def demo_change_def)

theorem process_graph_delivers_witness:
  "\<exists>m' k'. process_graph (runtime_call demo_poller) [0] demo_manager (pending_kernel, 0) = Some (Inr (m', k')) \<and>
     bt_list (inboxes m') 0 = [app_event_of (WatchId 0) demo_change]"
proof -
  have fits: "poll_fits demo_poller (pending_kernel, 0) 1"
    by (simp add: poll_fits_def pending_queue demo_poller_def demo_client_def demo_batch_def buffer_ok_def USER_LIMIT_def)
  have w: "bt_list (app_watches demo_manager) 0 = [(WatchId 0, 1)]" "bt_list (inboxes demo_manager) 0 = []"
    by (simp_all add: demo_manager_def bt_list_def)
  show ?thesis
    using process_graph_delivers [of "[0]" demo_manager demo_poller pending_kernel 0] fits
    by (auto simp: w pending_queue)
qed

end
