(* ===== verification/App_Runtime.thy ===== *)
theory App_Runtime
  imports User_Graph
begin

text \<open>
  Applications (\<open>src/userland/src/app.rs\<close>): windows, the text and bitmaps an application draws in a tick,
  their publication as surfaces in the graph, and the loop that feeds an application its events; and
  one application on top of it, the terminal (\<open>src/apps/terminal/src/app.rs\<close>).
\<close>

section \<open>State\<close>

record window_handle =
  wh_window :: uuid
  wh_pixmap :: uuid

record window_props =
  wp_is_mono :: bool
  wp_text_color :: "u32 option"
  wp_bg_color :: "u32 option"

definition window_props_default :: window_props where
  "window_props_default = \<lparr>wp_is_mono = False, wp_text_color = None, wp_bg_color = None\<rparr>"

record app_state =
  as_compositor :: uuid
  as_buffers :: "(uuid, string) btree"
  as_bitmaps :: "(uuid, u8 list) btree"
  as_pixmaps :: "(uuid, uuid) btree"
  as_props :: "(uuid, window_props) btree"
  as_counter :: u64
  as_app_id :: usize

definition app_state_new :: "uuid \<Rightarrow> usize \<Rightarrow> app_state" where
  "app_state_new compositor a =
     \<lparr>as_compositor = compositor, as_buffers = [], as_bitmaps = [], as_pixmaps = [], as_props = [], as_counter = 0, as_app_id = a\<rparr>"

text \<open>
  \<open>AppContext\<close>: the state of the application, the watch manager, and the machine below.
\<close>

type_synonym 's ctx = "app_state \<times> watch_manager \<times> 's"

definition ctx_call :: "('a, 's) prog \<Rightarrow> ('a, 's ctx) prog" where
  "ctx_call m = (\<lambda>(st, wm, s). Option.bind (m s) (\<lambda>r. case r of Inl e \<Rightarrow> Some (Inl e) | Inr (a, s') \<Rightarrow> Some (Inr (a, st, wm, s'))))"

definition ctx_state :: "(app_state \<Rightarrow> app_state) \<Rightarrow> (unit, 's ctx) prog" where
  "ctx_state f = (\<lambda>(st, wm, s). prog_return () (f st, wm, s))"

section \<open>Windows\<close>

text \<open>The identifiers and the fields of a new window.\<close>

definition new_window :: "app_state \<Rightarrow> window \<Rightarrow> uuid \<times> uuid \<times> gmap" where
  "new_window st win =
     (let index = as_counter st;
          w1 = (if win_x win = 0 \<and> win_y win = 0 then win\<lparr>win_x := index * 24, win_y := index * 24\<rparr> else win);
          title = win_title w1;
          name = title @ ''-'' @ show_nat (unat index);
          i = simple_uuid (as_bytes (''window-'' @ name));
          pixmap = simple_uuid (as_bytes (''pixmap-'' @ name));
          w2 = w1\<lparr>win_z := index, win_visible := True, win_target := Some pixmap, win_active := False\<rparr>
      in (i, pixmap, bt_insert canon_STATUS (VSymbol canon_INIT) (bt_insert canon_TARGET (VUuid pixmap)
           (bt_insert canon_NAME (VText title) (window_to_fields w2)))))"

definition create_window_with ::
  "(gmap \<Rightarrow> u8 list option) \<Rightarrow> 's runtime \<Rightarrow> window \<Rightarrow> (window_handle, 's ctx) prog" where
  "create_window_with en call win = (\<lambda>(st, wm, s). case new_window st win of (i, pixmap, flds) \<Rightarrow>
     prog_bind (ctx_call (graph_fiat en call (Some i) canon_WINDOW flds)) (\<lambda>_.
       prog_bind (ctx_call (graph_that call i ''COMPOSED_BY'' (as_compositor st))) (\<lambda>_.
         prog_bind (ctx_state (\<lambda>st. st\<lparr>as_pixmaps := bt_insert i pixmap (as_pixmaps st)\<rparr>)) (\<lambda>_.
           prog_return \<lparr>wh_window = i, wh_pixmap = pixmap\<rparr>)))
       (st\<lparr>as_counter := as_counter st + 1\<rparr>, wm, s))"

definition create_window ::
  "(gmap \<Rightarrow> u8 list option) \<Rightarrow> 's runtime \<Rightarrow> string \<Rightarrow> (window_handle, 's ctx) prog" where
  "create_window en call title =
     create_window_with en call \<lparr>win_id = 0, win_width = 320, win_height = 200, win_title = title, win_x = 0, win_y = 0, win_z = 0,
       win_visible = True, win_target = None, win_active = False, win_is_root = False, win_is_place_root = False,
       win_place_id = None, win_mode_index = None, win_rect = None, win_gap = None, win_flex_direction = None,
       win_justify_content = None, win_align_items = None, win_tile_mode = None\<rparr>"

definition clear_window :: "window_handle \<Rightarrow> app_state \<Rightarrow> app_state" where
  "clear_window w st = st\<lparr>as_buffers := bt_insert (wh_window w) [] (as_buffers st)\<rparr>"

definition draw_text :: "window_handle \<Rightarrow> string \<Rightarrow> app_state \<Rightarrow> app_state" where
  "draw_text w text st = st\<lparr>as_buffers := bt_insert (wh_window w) (bt_list (as_buffers st) (wh_window w) @ text) (as_buffers st)\<rparr>"

definition draw_bitmap :: "window_handle \<Rightarrow> u8 list \<Rightarrow> app_state \<Rightarrow> app_state" where
  "draw_bitmap w data st = st\<lparr>as_bitmaps := bt_insert (wh_window w) data (as_bitmaps st)\<rparr>"

definition load_window :: "'s runtime \<Rightarrow> window_handle \<Rightarrow> (window option, 's ctx) prog" where
  "load_window call w = ctx_call (load_thing window_load call (wh_window w))"

definition with_props :: "(window_props \<Rightarrow> window_props) \<Rightarrow> window_handle \<Rightarrow> app_state \<Rightarrow> app_state" where
  "with_props f w st =
     st\<lparr>as_props := bt_insert (wh_window w) (f (unwrap_or window_props_default (bt_get (as_props st) (wh_window w)))) (as_props st)\<rparr>"

definition set_font_mono :: "window_handle \<Rightarrow> bool \<Rightarrow> app_state \<Rightarrow> app_state" where
  "set_font_mono w is_mono = with_props (\<lambda>p. p\<lparr>wp_is_mono := is_mono\<rparr>) w"

definition set_text_color :: "window_handle \<Rightarrow> u32 \<Rightarrow> app_state \<Rightarrow> app_state" where
  "set_text_color w color = with_props (\<lambda>p. p\<lparr>wp_text_color := Some color\<rparr>) w"

definition set_bg_color :: "window_handle \<Rightarrow> u32 \<Rightarrow> app_state \<Rightarrow> app_state" where
  "set_bg_color w color = with_props (\<lambda>p. p\<lparr>wp_bg_color := Some color\<rparr>) w"

definition begin_tick :: "app_state \<Rightarrow> app_state" where
  "begin_tick st = st\<lparr>as_buffers := []\<rparr>"

section \<open>Publishing\<close>

text \<open>The windows to publish: those with text, then those with a bitmap, then those with properties.\<close>

definition add_new :: "uuid list \<Rightarrow> uuid list \<Rightarrow> uuid list" where
  "add_new ks us = fold (\<lambda>k us. if k \<in> set us then us else us @ [k]) ks us"

definition flush_updates :: "app_state \<Rightarrow> uuid list" where
  "flush_updates st = add_new (map fst (as_props st)) (add_new (map fst (as_bitmaps st)) (map fst (as_buffers st)))"

definition props_fields :: "window_props \<Rightarrow> gmap \<Rightarrow> gmap" where
  "props_fields p m =
     put_opt canon_BG_COLOR (\<lambda>c. VU64 (ucast c)) (wp_bg_color p) (put_opt canon_TEXT_COLOR (\<lambda>c. VU64 (ucast c)) (wp_text_color p)
       (bt_insert canon_IS_MONO (VBool (wp_is_mono p)) m))"

definition surface_payload :: "app_state \<Rightarrow> u64 \<Rightarrow> uuid \<Rightarrow> uuid \<Rightarrow> gmap" where
  "surface_payload st tick window pixmap =
     (let m1 = bt_insert canon_SRC (VUuid window) [];
          m2 = bt_insert canon_TARGET (VUuid pixmap) m1;
          m3 = bt_insert canon_REVISION (VU64 tick) m2;
          m4 = put_opt canon_TEXT (\<lambda>t. VBytes (as_bytes t)) (bt_get (as_buffers st) window) m3;
          m5 = (case bt_get (as_props st) window of None \<Rightarrow> m4 | Some p \<Rightarrow> props_fields p m4);
          m6 = bt_insert canon_DIRTY (VBool True) m5;
          m7 = bt_insert canon_VISIBLE (VBool True) m6
      in put_opt canon_BITMAP VBytes (bt_get (as_bitmaps st) window) m7)"

definition flush_window ::
  "(gmap \<Rightarrow> u8 list option) \<Rightarrow> 's runtime \<Rightarrow> u64 \<Rightarrow> uuid \<Rightarrow> (unit, 's ctx) prog" where
  "flush_window en call tick window = (\<lambda>(st, wm, s).
     case bt_get (as_pixmaps st) window of
       None \<Rightarrow> prog_return () (st, wm, s)
     | Some pixmap \<Rightarrow>
         prog_bind (ctx_call (graph_fiat en call (Some pixmap) canon_SURFACE (surface_payload st tick window pixmap))) (\<lambda>_.
           ctx_call (graph_that call window ''HAS_SURFACE'' pixmap))
           (st\<lparr>as_bitmaps := bt_remove window (as_bitmaps st)\<rparr>, wm, s))"

fun flush_windows ::
  "(gmap \<Rightarrow> u8 list option) \<Rightarrow> 's runtime \<Rightarrow> u64 \<Rightarrow> uuid list \<Rightarrow> (unit, 's ctx) prog" where
  "flush_windows en call tick [] = prog_return ()"
| "flush_windows en call tick (w # ws) =
     prog_bind (flush_window en call tick w) (\<lambda>_. flush_windows en call tick ws)"

definition flush :: "(gmap \<Rightarrow> u8 list option) \<Rightarrow> 's runtime \<Rightarrow> u64 \<Rightarrow> (unit, 's ctx) prog" where
  "flush en call tick = (\<lambda>(st, wm, s).
     prog_bind (flush_windows en call tick (flush_updates st)) (\<lambda>_. ctx_state (\<lambda>st. st\<lparr>as_buffers := []\<rparr>)) (st, wm, s))"

section \<open>Events and ticks\<close>

definition watch_journal :: "'s runtime \<Rightarrow> event_filter \<Rightarrow> (app_watch, 's ctx) prog" where
  "watch_journal call flt = (\<lambda>(st, wm, s).
     Option.bind (register_journal call (as_app_id st) flt wm s) (\<lambda>r. case r of
         Inl e \<Rightarrow> Some (Inl e)
       | Inr ((w, wm'), s') \<Rightarrow> prog_return w (st, wm', s')))"

definition watch_graph :: "'s runtime \<Rightarrow> thing_filter \<Rightarrow> (app_watch, 's ctx) prog" where
  "watch_graph call flt = (\<lambda>(st, wm, s).
     Option.bind (register_graph call (as_app_id st) flt wm s) (\<lambda>r. case r of
         Inl e \<Rightarrow> Some (Inl e)
       | Inr ((w, wm'), s') \<Rightarrow> prog_return w (st, wm', s')))"

definition drain_events :: "(app_event list, 's ctx) prog" where
  "drain_events = (\<lambda>(st, wm, s). case drain_inbox (as_app_id st) wm of (evs, wm') \<Rightarrow> prog_return evs (st, wm', s))"

text \<open>The trait \<open>App\<close>: what an application does at its start, on an event and on a tick.\<close>

record ('a, 's) app =
  ap_init :: "('a, 's ctx) prog"
  ap_on_event :: "app_event \<Rightarrow> 'a \<Rightarrow> ('a, 's ctx) prog"
  ap_tick :: "u64 \<Rightarrow> 'a \<Rightarrow> ('a, 's ctx) prog"

fun handle_events :: "('a, 's) app \<Rightarrow> app_event list \<Rightarrow> 'a \<Rightarrow> ('a, 's ctx) prog" where
  "handle_events ap [] a = prog_return a"
| "handle_events ap (ev # evs) a = prog_bind (ap_on_event ap ev a) (handle_events ap evs)"

definition hosted_tick ::
  "('a, 's) app \<Rightarrow> (gmap \<Rightarrow> u8 list option) \<Rightarrow> 's runtime \<Rightarrow> u64 \<Rightarrow> 'a \<Rightarrow> ('a, 's ctx) prog" where
  "hosted_tick ap en call tick a =
     prog_bind (ctx_state begin_tick) (\<lambda>_. prog_bind drain_events (\<lambda>evs. prog_bind (handle_events ap evs a) (\<lambda>a1.
       prog_bind (ap_tick ap tick a1) (\<lambda>a2. prog_bind (flush en call tick) (\<lambda>_. prog_return a2)))))"

definition create_app :: "('a, 's) app \<Rightarrow> uuid \<Rightarrow> watch_manager \<Rightarrow> 's \<Rightarrow> ('a \<times> 's ctx) panics option" where
  "create_app ap compositor wm s =
     (let (a, wm1) = register_app wm in ap_init ap (app_state_new compositor a, wm1, s))"

text \<open>One round of the endless loop of \<open>run_app\<close>, and a number of rounds.\<close>

definition app_round ::
  "('a, 's) app \<Rightarrow> (gmap \<Rightarrow> u8 list option) \<Rightarrow> 's runtime \<Rightarrow> u64 \<Rightarrow> 'a \<Rightarrow> ('a, 's ctx) prog" where
  "app_round ap en call tick a = (\<lambda>(st, wm, s).
     Option.bind (process_graph call [as_app_id st] wm s) (\<lambda>r. case r of
         Inl e \<Rightarrow> Some (Inl e)
       | Inr (wm', s') \<Rightarrow> hosted_tick ap en call tick a (st, wm', s')))"

fun app_rounds ::
  "('a, 's) app \<Rightarrow> (gmap \<Rightarrow> u8 list option) \<Rightarrow> 's runtime \<Rightarrow> nat \<Rightarrow> u64 \<Rightarrow> 'a \<Rightarrow> ('a, 's ctx) prog" where
  "app_rounds ap en call 0 tick a = prog_return a"
| "app_rounds ap en call (Suc n) tick a =
     prog_bind (app_round ap en call tick a) (app_rounds ap en call n (tick + 1))"

section \<open>The terminal\<close>

record terminal =
  te_window :: window_handle
  te_lines :: "string list"
  te_watch :: app_watch
  te_redraw :: bool

definition MAX_LINES :: nat where
  "MAX_LINES = 200"

text \<open>The double line of the banner, 43 times the character U+2550 in UTF-8.\<close>

definition terminal_rule :: string where
  "terminal_rule = concat (replicate 43 [CHR 0xE2, CHR 0x95, CHR 0x90])"

definition append_line :: "string \<Rightarrow> terminal \<Rightarrow> terminal" where
  "append_line msg t =
     (let ls = te_lines t @ [msg] in t\<lparr>te_lines := drop (length ls - MAX_LINES) ls, te_redraw := True\<rparr>)"

definition terminal_init ::
  "(gmap \<Rightarrow> u8 list option) \<Rightarrow> 's runtime \<Rightarrow> (terminal, 's ctx) prog" where
  "terminal_init en call =
     prog_bind (create_window_with en call \<lparr>win_id = 0, win_width = 1024, win_height = 768, win_title = ''Terminal'', win_x = 0, win_y = 0,
       win_z = 0, win_visible = True, win_target = None, win_active = False, win_is_root = True, win_is_place_root = True,
       win_place_id = Some (simple_uuid (as_bytes ''terminal_place'')), win_mode_index = Some 11, win_rect = None, win_gap = None,
       win_flex_direction = None, win_justify_content = None, win_align_items = None, win_tile_mode = None\<rparr>) (\<lambda>w.
     prog_bind (ctx_state (set_text_color w 0xFF4DB8FF \<circ> set_bg_color w 0xFF202020 \<circ> set_font_mono w True)) (\<lambda>_.
     prog_bind (watch_graph call \<lparr>tf_kind = Some canon_DEBUG_LOG, tf_id = None\<rparr>) (\<lambda>watch.
     prog_return \<lparr>te_window = w,
       te_lines = [terminal_rule, ''  ThingOS Terminal - Debug Output Console'', terminal_rule, []],
       te_watch = watch, te_redraw = True\<rparr>)))"

fun terminal_event :: "app_event \<Rightarrow> terminal \<Rightarrow> terminal" where
  "terminal_event (AppThing _ thing) t =
     (if thing_kind thing = canon_DEBUG_LOG
      then case bt_get (thing_fields thing) canon_TEXT of Some (VText msg) \<Rightarrow> append_line msg t | _ \<Rightarrow> t
      else t)"
| "terminal_event (AppEdge _ _) t = t"

definition terminal_tick :: "terminal \<Rightarrow> (terminal, 's ctx) prog" where
  "terminal_tick t =
     (if te_redraw t
      then prog_bind (ctx_state (fold (\<lambda>l. draw_text (te_window t) (l @ [CHR 0x0A])) (te_lines t) \<circ> clear_window (te_window t)))
             (\<lambda>_. prog_return (t\<lparr>te_redraw := False\<rparr>))
      else prog_return t)"

definition terminal_app :: "(gmap \<Rightarrow> u8 list option) \<Rightarrow> 's runtime \<Rightarrow> (terminal, 's) app" where
  "terminal_app en call =
     \<lparr>ap_init = terminal_init en call, ap_on_event = (\<lambda>ev t. prog_return (terminal_event ev t)),
      ap_tick = (\<lambda>_. terminal_tick)\<rparr>"

section \<open>What applications rely on\<close>

text \<open>
  A host for things: a fiat makes the thing visible under its identifier and leaves the other
  things as they are; a link leaves all of them. \<open>fresh\<close> bounds the number of calls still to come.
\<close>

locale thing_host =
  fixes call :: "'s runtime"
    and seen :: "'s \<Rightarrow> uuid \<Rightarrow> graph_thing option"
    and fresh :: "'s \<Rightarrow> nat \<Rightarrow> bool"
  assumes fiat_law: "fresh s (Suc n) \<Longrightarrow> \<exists>t s'. call (ReqFiat (Some i) kind [kind] flds) s = Some (Inr (RespFiat t, s')) \<and>
      thing_id t = i \<and> thing_kind t = kind \<and> (\<forall>k. k \<noteq> canon_OWNER \<longrightarrow> bt_get (thing_fields t) k = bt_get flds k) \<and>
      seen s' i = Some t \<and> (\<forall>j. j \<noteq> i \<longrightarrow> seen s j \<noteq> None \<longrightarrow> seen s' j = seen s j) \<and> fresh s' n"
    and fresh_mono: "fresh s n \<Longrightarrow> m \<le> n \<Longrightarrow> fresh s m"
    and link_law: "fresh s (Suc n) \<Longrightarrow> \<exists>r s'. call (ReqLink None a p b []) s = Some (Inr (r, s')) \<and>
      (\<forall>j. seen s j \<noteq> None \<longrightarrow> seen s' j = seen s j) \<and> fresh s' n"

text \<open>The thing that publishes a window in a tick.\<close>

definition published :: "app_state \<Rightarrow> u64 \<Rightarrow> uuid \<Rightarrow> uuid \<Rightarrow> graph_thing option \<Rightarrow> bool" where
  "published st tick w p r \<longleftrightarrow> (\<exists>t. r = Some t \<and> thing_id t = p \<and> thing_kind t = canon_SURFACE \<and>
     (\<forall>k. k \<noteq> canon_OWNER \<longrightarrow> bt_get (thing_fields t) k = bt_get (surface_payload st tick w p) k))"

lemma published_cong:
  "bt_get (as_bitmaps st') w = bt_get (as_bitmaps st) w \<Longrightarrow> as_buffers st' = as_buffers st \<Longrightarrow> as_props st' = as_props st \<Longrightarrow>
     published st' tick w p = published st tick w p"
  by (simp add: fun_eq_iff published_def surface_payload_def Let_def)

text \<open>The state after the bitmaps of the published windows are taken.\<close>

definition consumed :: "uuid list \<Rightarrow> app_state \<Rightarrow> app_state" where
  "consumed ws st =
     st\<lparr>as_bitmaps := fold (\<lambda>w m. if bt_get (as_pixmaps st) w = None then m else bt_remove w m) ws (as_bitmaps st)\<rparr>"

lemma distinct_add_new: "distinct us \<Longrightarrow> distinct (add_new ks us) \<and> set (add_new ks us) = set us \<union> set ks"
  unfolding add_new_def by (induction ks arbitrary: us) auto

context thing_host
begin

lemma graph_fiat_seen:
  assumes "fresh s (Suc n)"
  shows "\<exists>t s'. graph_fiat en call (Some i) kind flds s = Some (Inr (i, s')) \<and> thing_id t = i \<and> thing_kind t = kind \<and>
    (\<forall>k. k \<noteq> canon_OWNER \<longrightarrow> bt_get (thing_fields t) k = bt_get flds k) \<and>
    seen s' i = Some t \<and> (\<forall>j. j \<noteq> i \<longrightarrow> seen s j \<noteq> None \<longrightarrow> seen s' j = seen s j) \<and> fresh s' n"
  using fiat_law [OF assms, of i kind flds] by (auto simp: graph_fiat_def prog_bind_def prog_return_def)

lemma graph_that_seen:
  assumes "fresh s (Suc n)"
  shows "\<exists>s'. graph_that call a p b s = Some (Inr ((), s')) \<and> (\<forall>j. seen s j \<noteq> None \<longrightarrow> seen s' j = seen s j) \<and> fresh s' n"
  using link_law [OF assms, of a p b] by (auto simp: graph_that_def prog_bind_def prog_return_def)

lemma flush_window_spec:
  assumes "bt_get (as_pixmaps st) w = Some p" "fresh s (Suc (Suc n))"
  shows "\<exists>s'. flush_window en call tick w (st, wm, s) =
      Some (Inr ((), st\<lparr>as_bitmaps := bt_remove w (as_bitmaps st)\<rparr>, wm, s')) \<and>
    published st tick w p (seen s' p) \<and> (\<forall>j. j \<noteq> p \<longrightarrow> seen s j \<noteq> None \<longrightarrow> seen s' j = seen s j) \<and> fresh s' n"
proof -
  let ?m = "surface_payload st tick w p"
  obtain t s1 where f: "graph_fiat en call (Some p) canon_SURFACE ?m s = Some (Inr (p, s1))"
    and t: "thing_id t = p" "thing_kind t = canon_SURFACE" "\<forall>k. k \<noteq> canon_OWNER \<longrightarrow> bt_get (thing_fields t) k = bt_get ?m k"
      "seen s1 p = Some t" "\<forall>j. j \<noteq> p \<longrightarrow> seen s j \<noteq> None \<longrightarrow> seen s1 j = seen s j" and fr: "fresh s1 (Suc n)"
    using graph_fiat_seen [OF assms(2), of en p canon_SURFACE ?m] by auto
  obtain s2 where l: "graph_that call w ''HAS_SURFACE'' p s1 = Some (Inr ((), s2))"
    and s2: "\<forall>j. seen s1 j \<noteq> None \<longrightarrow> seen s2 j = seen s1 j" "fresh s2 n"
    using graph_that_seen [OF fr] by blast
  have "flush_window en call tick w (st, wm, s) = Some (Inr ((), st\<lparr>as_bitmaps := bt_remove w (as_bitmaps st)\<rparr>, wm, s2))"
    using assms(1) f l by (simp add: flush_window_def prog_bind_def ctx_call_def)
  moreover have "published st tick w p (seen s2 p)" using t s2(1) by (simp add: published_def)
  moreover have "\<forall>j. j \<noteq> p \<longrightarrow> seen s j \<noteq> None \<longrightarrow> seen s2 j = seen s j" using t(5) s2(1) by metis
  ultimately show ?thesis using s2(2) by blast
qed

lemma flush_windows_spec:
  assumes "distinct ws" "inj_on (bt_get (as_pixmaps st)) (set ws \<inter> dom (bt_get (as_pixmaps st)))" "fresh s (n + 2 * length ws)"
  shows "\<exists>s'. flush_windows en call tick ws (st, wm, s) = Some (Inr ((), consumed ws st, wm, s')) \<and>
    (\<forall>w \<in> set ws. \<forall>p. bt_get (as_pixmaps st) w = Some p \<longrightarrow> published st tick w p (seen s' p)) \<and>
    (\<forall>j. (\<forall>w \<in> set ws. bt_get (as_pixmaps st) w \<noteq> Some j) \<longrightarrow> seen s j \<noteq> None \<longrightarrow> seen s' j = seen s j) \<and> fresh s' n"
  using assms
proof (induction ws arbitrary: st s)
  case Nil
  then show ?case by (simp add: prog_return_def consumed_def)
next
  case (Cons w ws)
  have inj: "inj_on (bt_get (as_pixmaps st)) (set ws \<inter> dom (bt_get (as_pixmaps st)))"
    using Cons.prems(2) by (rule inj_on_subset) auto
  show ?case
  proof (cases "bt_get (as_pixmaps st) w")
    case None
    have "fresh s (n + 2 * length ws)" using fresh_mono [OF Cons.prems(3)] by simp
    then show ?thesis
      using Cons.IH [OF _ inj, of s] Cons.prems(1) None
      by (auto simp: prog_bind_def prog_return_def flush_window_def consumed_def)
  next
    case (Some p)
    let ?st = "st\<lparr>as_bitmaps := bt_remove w (as_bitmaps st)\<rparr>"
    obtain s1 where f: "flush_window en call tick w (st, wm, s) = Some (Inr ((), ?st, wm, s1))"
      and p: "published st tick w p (seen s1 p)" and o: "\<forall>j. j \<noteq> p \<longrightarrow> seen s j \<noteq> None \<longrightarrow> seen s1 j = seen s j"
      and fr: "fresh s1 (n + 2 * length ws)"
      using flush_window_spec [OF Some, where n = "n + 2 * length ws" and s = s and en = en and tick = tick and wm = wm]
        Cons.prems(3) by auto
    obtain s2 where r: "flush_windows en call tick ws (?st, wm, s1) = Some (Inr ((), consumed ws ?st, wm, s2))"
      and p2: "\<And>v q. v \<in> set ws \<Longrightarrow> bt_get (as_pixmaps st) v = Some q \<Longrightarrow> published ?st tick v q (seen s2 q)"
      and o2: "\<And>j. \<forall>v \<in> set ws. bt_get (as_pixmaps st) v \<noteq> Some j \<Longrightarrow> seen s1 j \<noteq> None \<Longrightarrow> seen s2 j = seen s1 j"
      and fr2: "fresh s2 n"
      using Cons.IH [of ?st s1] Cons.prems(1) inj fr by auto
    have "\<forall>v \<in> set ws. bt_get (as_pixmaps st) v \<noteq> Some p"
      using Cons.prems(1) inj_onD [OF Cons.prems(2), of _ w] Some by (auto simp: dom_def)
    then have "seen s2 p = seen s1 p" using o2 p by (auto simp: published_def)
    moreover have "published st tick v q (seen s2 q)" if "v \<in> set ws" "bt_get (as_pixmaps st) v = Some q" for v q
    proof -
      have "v \<noteq> w" using that(1) Cons.prems(1) by auto
      then have "published ?st tick v q = published st tick v q" by (intro published_cong) simp_all
      then show ?thesis using p2 [OF that] by simp
    qed
    moreover have "consumed (w # ws) st = consumed ws ?st" using Some by (simp add: consumed_def)
    moreover have "seen s2 j = seen s j" if "\<forall>v \<in> set (w # ws). bt_get (as_pixmaps st) v \<noteq> Some j" "seen s j \<noteq> None" for j
    proof -
      have "seen s1 j = seen s j" using that o Some by auto
      then show ?thesis using that o2 [of j] by auto
    qed
    ultimately show ?thesis using f r p Some fr2 by (auto simp: prog_bind_def)
  qed
qed

end
lemma in_kernel_fiat:
  assumes "store_inv (store_of g)" "room (store_of g) (Suc (Suc n))"
  shows "\<exists>t g'. direct_runtime x (ReqFiat (Some i) kind [kind] flds) (g, c) = Some (Inr (RespFiat t, g', c)) \<and>
    thing_id t = i \<and> thing_kind t = kind \<and> (\<forall>k. k \<noteq> canon_OWNER \<longrightarrow> bt_get (thing_fields t) k = bt_get flds k) \<and>
    latest (store_of g') i = Some t \<and>
    (\<forall>j. j \<noteq> i \<longrightarrow> latest (store_of g) j \<noteq> None \<longrightarrow> latest (store_of g') j = latest (store_of g) j) \<and>
    store_inv (store_of g') \<and> room (store_of g') n"
proof -
  let ?r = "\<lparr>fiat_id = Some i, fiat_kind = kind, fiat_labels = [kind], fiat_fields = flds\<rparr>"
  obtain t s j where f: "fiat_node x KERNEL_BUNDLE_ID (fiat_as_node ?r) (store_of g, JOURNAL g) = (t, s, j)"
    by (metis prod.collapse)
  let ?g = "g\<lparr>STORE := Some s, JOURNAL := j\<rparr>"
  note fs = fiat_node_spec [OF assms f]
  have "direct_runtime x (ReqFiat (Some i) kind [kind] flds) (g, c) = Some (Inr (RespFiat t, ?g, c))"
    using f by (simp add: direct_runtime_def direct_call_def api_fiat_def fiat_for_bundle_node)
  moreover have "thing_id t = i" "thing_kind t = kind"
    "\<forall>k. k \<noteq> canon_OWNER \<longrightarrow> bt_get (thing_fields t) k = bt_get flds k"
    using fs(4) by (auto simp: fiat_target_def fiat_thing_def fiat_as_node_def bs_of_list_def Let_def)
  ultimately show ?thesis using fs by (intro exI [of _ t] exI [of _ ?g]) auto
qed

lemma in_kernel_link:
  assumes "store_inv (store_of g)" "room (store_of g) (Suc (Suc n))"
  shows "\<exists>r g' c'. direct_runtime x (ReqLink None a p b []) (g, c) = Some (Inr (r, g', c')) \<and>
    (\<forall>j. latest (store_of g) j \<noteq> None \<longrightarrow> latest (store_of g') j = latest (store_of g) j) \<and>
    store_inv (store_of g') \<and> room (store_of g') n"
proof -
  let ?q = "\<lparr>that_src = a, that_pred = p, that_dst = b, that_revision_hint = 0, that_props = []\<rparr>"
  obtain k s j where st: "that x KERNEL_BUNDLE_ID ?q (store_of g, JOURNAL g) = (k, s, j)" by (metis prod.collapse)
  then have step: "store_step x (OThat KERNEL_BUNDLE_ID ?q) (store_of g, JOURNAL g) = (s, j)" by simp
  have rm: "room (store_of g) 2" using assms(2) by (rule room_mono) simp
  have "\<not> op_rewrites x (OThat KERNEL_BUNDLE_ID ?q) (store_of g) i" for i by (simp add: op_rewrites_def)
  with step_latest [OF assms(1) rm step] have "\<forall>i. latest (store_of g) i \<noteq> None \<longrightarrow> latest s i = latest (store_of g) i" by blast
  moreover have "store_inv s" "room s n" using step_inv [OF assms step] by simp_all
  moreover have "\<exists>r c'. direct_runtime x (ReqLink None a p b []) (g, c) = Some (Inr (r, g\<lparr>STORE := Some s, JOURNAL := j\<rparr>, c'))"
    using st by (simp add: direct_runtime_def direct_call_def api_that_def that_for_bundle_def with_store_def split: prod.splits)
  ultimately show ?thesis by (metis store_of_Some(2))
qed

interpretation kernel_host: thing_host "direct_runtime x" "\<lambda>s. latest (store_of (fst s))"
  "\<lambda>s n. store_inv (store_of (fst s)) \<and> room (store_of (fst s)) (2 * n)" for x
proof
  fix s :: "kernel_graph \<times> u64" and n i kind flds a p b
  obtain g c where s: "s = (g, c)" by fastforce
  assume fr: "store_inv (store_of (fst s)) \<and> room (store_of (fst s)) (2 * Suc n)"
  then have rm: "store_inv (store_of g)" "room (store_of g) (Suc (Suc (2 * n)))" by (simp_all add: s)
  from in_kernel_fiat [OF rm, of x i kind flds c]
  show "\<exists>t s'. direct_runtime x (ReqFiat (Some i) kind [kind] flds) s = Some (Inr (RespFiat t, s')) \<and>
      thing_id t = i \<and> thing_kind t = kind \<and> (\<forall>k. k \<noteq> canon_OWNER \<longrightarrow> bt_get (thing_fields t) k = bt_get flds k) \<and>
      latest (store_of (fst s')) i = Some t \<and>
      (\<forall>j. j \<noteq> i \<longrightarrow> latest (store_of (fst s)) j \<noteq> None \<longrightarrow> latest (store_of (fst s')) j = latest (store_of (fst s)) j) \<and>
      store_inv (store_of (fst s')) \<and> room (store_of (fst s')) (2 * n)"
    unfolding s by fastforce
  from in_kernel_link [OF rm, of x a p b c]
  show "\<exists>r s'. direct_runtime x (ReqLink None a p b []) s = Some (Inr (r, s')) \<and>
      (\<forall>j. latest (store_of (fst s)) j \<noteq> None \<longrightarrow> latest (store_of (fst s')) j = latest (store_of (fst s)) j) \<and>
      store_inv (store_of (fst s')) \<and> room (store_of (fst s')) (2 * n)"
    unfolding s by fastforce
qed (auto elim: room_mono)

section \<open>What a surface shows\<close>

lemma surface_codes:
  "canon_SRC = Symbol 0x535243" "canon_REVISION = Symbol 0x52564E" "canon_TEXT = Symbol 0x545854" "canon_DIRTY = Symbol 0x445254"
  "canon_BITMAP = Symbol 0x424D50" "canon_IS_MONO = Symbol 0x4D4F4E" "canon_TEXT_COLOR = Symbol 0x545843" "canon_BG_COLOR = Symbol 0x424743"
  by code_simp+

lemma payload_fields:
  "bt_get (surface_payload st tick w p) canon_SRC = Some (VUuid w)"
  "bt_get (surface_payload st tick w p) canon_DIRTY = Some (VBool True)"
  "bt_get (surface_payload st tick w p) canon_TEXT = map_option (\<lambda>t. VBytes (as_bytes t)) (bt_get (as_buffers st) w)"
  "bt_get (surface_payload st tick w p) canon_BITMAP = map_option VBytes (bt_get (as_bitmaps st) w)"
  "bt_get (surface_payload st tick w p) canon_IS_MONO = map_option (\<lambda>pr. VBool (wp_is_mono pr)) (bt_get (as_props st) w)"
  "bt_get (surface_payload st tick w p) canon_TEXT_COLOR = map_option (\<lambda>c. VU64 (ucast c)) (Option.bind (bt_get (as_props st) w) wp_text_color)"
  "bt_get (surface_payload st tick w p) canon_BG_COLOR = map_option (\<lambda>c. VU64 (ucast c)) (Option.bind (bt_get (as_props st) w) wp_bg_color)"
  by (simp_all add: surface_payload_def props_fields_def bt_get_put_opt surface_codes key_codes Let_def split: option.split
      del: bt_insert.simps)

lemma surface_keys: "canon_SRC \<noteq> canon_OWNER" "canon_DIRTY \<noteq> canon_OWNER" "canon_TEXT \<noteq> canon_OWNER" "canon_BITMAP \<noteq> canon_OWNER"
  "canon_IS_MONO \<noteq> canon_OWNER" "canon_TEXT_COLOR \<noteq> canon_OWNER" "canon_BG_COLOR \<noteq> canon_OWNER"
  by (simp_all add: surface_codes key_codes)

lemma published_surface:
  assumes "published st tick w p r" "\<And>t. bt_get (as_buffers st) w = Some t \<Longrightarrow> utf8_valid (as_bytes t)"
  shows "Option.bind r surface_load = Some \<lparr>su_id = p, su_window = Some w, su_dirty = True,
    su_text = unwrap_or [] (bt_get (as_buffers st) w), su_bitmap = bt_get (as_bitmaps st) w\<rparr>"
  using assms surface_keys
  by (cases "bt_get (as_buffers st) w"; cases "bt_get (as_bitmaps st) w")
    (auto simp: published_def surface_load_def field_def payload_fields graph_extract_text_def from_utf8_def Let_def)

text \<open>The style of a surface as the compositor reads it: monospaced, text colour, background colour.\<close>

definition surface_style :: "graph_thing \<Rightarrow> bool option \<times> u32 option \<times> u32 option" where
  "surface_style t = (let f = thing_fields t
     in (field as_bool f canon_IS_MONO, map_option ucast (field as_u64 f canon_TEXT_COLOR), map_option ucast (field as_u64 f canon_BG_COLOR)))"

definition props_style :: "window_props option \<Rightarrow> bool option \<times> u32 option \<times> u32 option" where
  "props_style pr = (map_option wp_is_mono pr, Option.bind pr wp_text_color, Option.bind pr wp_bg_color)"

lemma color_widened: "ucast (ucast c :: u64) = c" for c :: u32
  by (rule bit_word_eqI) (simp add: bit_simps)

lemma published_style:
  assumes "published st tick w p r"
  shows "map_option surface_style r = Some (props_style (bt_get (as_props st) w))"
  using assms surface_keys
  by (cases "Option.bind (bt_get (as_props st) w) wp_text_color"; cases "Option.bind (bt_get (as_props st) w) wp_bg_color"; cases "bt_get (as_props st) w")
    (auto simp: published_def surface_style_def props_style_def field_def payload_fields Let_def color_widened)

lemma flush_updates_keys:
  assumes "distinct (map fst (as_buffers st))"
  shows "distinct (flush_updates st)"
    "set (flush_updates st) = fst ` set (as_buffers st) \<union> fst ` set (as_bitmaps st) \<union> fst ` set (as_props st)"
  using distinct_add_new [OF assms, of "map fst (as_bitmaps st)"]
    distinct_add_new [of "add_new (map fst (as_bitmaps st)) (map fst (as_buffers st))" "map fst (as_props st)"]
  by (auto simp: flush_updates_def)

lemma consumed_bitmaps:
  "bt_get (as_bitmaps (consumed ws st)) w = (if w \<in> set ws \<and> bt_get (as_pixmaps st) w \<noteq> None then None else bt_get (as_bitmaps st) w)"
proof -
  have "bt_get (fold (\<lambda>w m. if bt_get P w = None then m else bt_remove w m) ws m) w =
      (if w \<in> set ws \<and> bt_get P w \<noteq> None then None else bt_get m w)" for P :: "(uuid, uuid) btree" and m :: "(uuid, u8 list) btree"
    by (induction ws arbitrary: m) auto
  then show ?thesis by (simp add: consumed_def)
qed

section \<open>Properties\<close>

text \<open>What the graph holds as the surface behind a pixmap.\<close>

definition shown_surface :: "kernel_graph \<Rightarrow> uuid \<Rightarrow> surface option" where
  "shown_surface g p = Option.bind (latest (store_of g) p) surface_load"

text \<open>
  C34: what an application draws is what the graph shows. After \<open>flush\<close> on the in-kernel runtime every window
  of the application that has text, a bitmap or properties and a pixmap of its own is published: the surface behind its
  pixmap names the window, carries exactly the text and the bitmap of this tick and the style (monospaced, text and
  background colour) set for the window. The bitmaps are used up and the text buffers are empty. The store has to have
  room for the new versions and the texts have to be valid UTF-8.
\<close>

theorem flush_publishes:
  assumes "store_inv (store_of g)" and "room (store_of g) (4 * length (flush_updates st))"
    and "distinct (map fst (as_buffers st))" and "inj_on (bt_get (as_pixmaps st)) (dom (bt_get (as_pixmaps st)))"
    and "list_all (\<lambda>(w, t). utf8_valid (as_bytes t)) (as_buffers st)"
  shows "\<exists>st' g' c'. flush en (direct_runtime x) tick (st, wm, g, c) = Some (Inr ((), st', wm, g', c')) \<and> as_buffers st' = [] \<and>
    (\<forall>w p. w \<in> fst ` set (as_buffers st) \<union> fst ` set (as_bitmaps st) \<union> fst ` set (as_props st) \<longrightarrow> bt_get (as_pixmaps st) w = Some p \<longrightarrow>
       shown_surface g' p = Some \<lparr>su_id = p, su_window = Some w, su_dirty = True,
         su_text = unwrap_or [] (bt_get (as_buffers st) w), su_bitmap = bt_get (as_bitmaps st) w\<rparr> \<and>
       map_option surface_style (latest (store_of g') p) = Some (props_style (bt_get (as_props st) w)) \<and>
       bt_get (as_bitmaps st') w = None)"
proof -
  note ks = flush_updates_keys [OF assms(3)]
  have utf8: "utf8_valid (as_bytes t)" if "bt_get (as_buffers st) w = Some t" for w t
    using assms(5) map_of_SomeD [OF that] by (auto simp: list_all_iff)
  have inj: "inj_on (bt_get (as_pixmaps st)) (set (flush_updates st) \<inter> dom (bt_get (as_pixmaps st)))"
    using assms(4) by (rule inj_on_subset) auto
  have "store_inv (store_of (fst (g, c))) \<and> room (store_of (fst (g, c))) (2 * (0 + 2 * length (flush_updates st)))"
    using assms(1,2) by simp
  from kernel_host.flush_windows_spec [OF ks(1) inj this, of en x tick wm] obtain g' c' where
    f: "flush_windows en (direct_runtime x) tick (flush_updates st) (st, wm, g, c) =
      Some (Inr ((), consumed (flush_updates st) st, wm, g', c'))"
    and p: "\<And>w p. w \<in> set (flush_updates st) \<Longrightarrow> bt_get (as_pixmaps st) w = Some p \<Longrightarrow>
      published st tick w p (latest (store_of g') p)"
    by auto
  have "shown_surface g' p = Some \<lparr>su_id = p, su_window = Some w, su_dirty = True,
      su_text = unwrap_or [] (bt_get (as_buffers st) w), su_bitmap = bt_get (as_bitmaps st) w\<rparr>"
    if "w \<in> set (flush_updates st)" "bt_get (as_pixmaps st) w = Some p" for w p
    unfolding shown_surface_def by (rule published_surface [OF p [OF that] utf8])
  moreover have "map_option surface_style (latest (store_of g') p) = Some (props_style (bt_get (as_props st) w))"
    if "w \<in> set (flush_updates st)" "bt_get (as_pixmaps st) w = Some p" for w p
    by (rule published_style [OF p [OF that]])
  moreover have "flush en (direct_runtime x) tick (st, wm, g, c) =
      Some (Inr ((), (consumed (flush_updates st) st)\<lparr>as_buffers := []\<rparr>, wm, g', c'))"
    using f by (simp add: flush_def prog_bind_def ctx_state_def prog_return_def)
  ultimately show ?thesis using ks(2) consumed_bitmaps [of "flush_updates st" st]
    by (intro exI [of _ "(consumed (flush_updates st) st)\<lparr>as_buffers := []\<rparr>"] exI [of _ g'] exI [of _ c']) auto
qed

definition terminal_text :: "string list \<Rightarrow> string" where
  "terminal_text ls = concat (map (\<lambda>l. l @ [CHR 0x0A]) ls)"

lemma draw_lines:
  "as_buffers st = [(wh_window h, a)] \<Longrightarrow>
     fold (\<lambda>l. draw_text h (l @ [CHR 0x0A])) ls st = st\<lparr>as_buffers := [(wh_window h, a @ terminal_text ls)]\<rparr>"
proof (induction ls arbitrary: st a)
  case (Cons l ls)
  have "draw_text h (l @ [CHR 0x0A]) st = st\<lparr>as_buffers := [(wh_window h, a @ l @ [CHR 0x0A])]\<rparr>"
    using Cons.prems by (simp add: draw_text_def bt_list_def)
  then show ?case using Cons.IH [of "st\<lparr>as_buffers := [(wh_window h, a @ l @ [CHR 0x0A])]\<rparr>"] by (simp add: terminal_text_def)
qed (simp add: terminal_text_def)

text \<open>No event of the list reports a log entry.\<close>

fun is_log :: "app_event \<Rightarrow> bool" where
  "is_log (AppThing _ thing) \<longleftrightarrow> thing_kind thing = canon_DEBUG_LOG"
| "is_log (AppEdge _ _) \<longleftrightarrow> False"

definition quiet :: "app_event list \<Rightarrow> bool" where
  "quiet evs \<longleftrightarrow> \<not> list_ex is_log evs"

lemma terminal_quiet: "quiet evs \<Longrightarrow> handle_events (terminal_app en call) evs t = prog_return t"
proof (induction evs)
  case (Cons ev evs)
  have "terminal_event ev t = t" using Cons.prems by (cases ev) (auto simp: quiet_def)
  moreover have "handle_events (terminal_app en call) evs t = prog_return t" using Cons by (simp add: quiet_def)
  ultimately show ?case by (simp add: terminal_app_def)
qed simp

text \<open>The state of a terminal: one window, styled, and nothing but text to draw.\<close>

definition terminal_ready :: "terminal \<Rightarrow> app_state \<Rightarrow> bool" where
  "terminal_ready t st \<longleftrightarrow>
     as_bitmaps st = [] \<and> map fst (as_props st) = [wh_window (te_window t)] \<and>
     bt_get (as_pixmaps st) (wh_window (te_window t)) = Some (wh_pixmap (te_window t))"

lemma terminal_drawn:
  assumes "as_buffers st = []"
  shows "terminal_tick t (st, wm, s) = Some (Inr (t\<lparr>te_redraw := False\<rparr>,
    (if te_redraw t then st\<lparr>as_buffers := [(wh_window (te_window t), terminal_text (te_lines t))]\<rparr> else st), wm, s))"
proof -
  have "as_buffers (clear_window (te_window t) st) = [(wh_window (te_window t), [])]" using assms by (simp add: clear_window_def)
  from draw_lines [OF this, of "te_lines t"] show ?thesis
    by (cases "te_redraw t") (simp_all add: terminal_tick_def prog_bind_def ctx_state_def prog_return_def clear_window_def)
qed

lemma terminal_hosted_tick:
  fixes x :: ext
  assumes "store_inv (store_of g)" "room (store_of g) (2 * n + 4)" "terminal_ready t st"
    and "quiet (bt_list (inboxes wm) (as_app_id st))"
    and "utf8_valid (as_bytes (terminal_text (te_lines t)))"
  defines "call \<equiv> direct_runtime x"
  shows "\<exists>st' wm' g' c'. hosted_tick (terminal_app en call) en call tick t (st, wm, g, c) =
      Some (Inr (t\<lparr>te_redraw := False\<rparr>, st', wm', g', c')) \<and>
    shown_surface g' (wh_pixmap (te_window t)) = Some \<lparr>su_id = wh_pixmap (te_window t), su_window = Some (wh_window (te_window t)),
      su_dirty = True, su_text = (if te_redraw t then terminal_text (te_lines t) else []), su_bitmap = None\<rparr> \<and>
    terminal_ready t st' \<and> as_app_id st' = as_app_id st \<and> bt_list (inboxes wm') (as_app_id st) = [] \<and>
    store_inv (store_of g') \<and> room (store_of g') (2 * n)"
proof -
  let ?w = "wh_window (te_window t)" and ?p = "wh_pixmap (te_window t)"
  let ?wm = "wm\<lparr>inboxes := bt_insert (as_app_id st) [] (inboxes wm)\<rparr>"
  define st1 where "st1 = (if te_redraw t then (begin_tick st)\<lparr>as_buffers := [(?w, terminal_text (te_lines t))]\<rparr> else begin_tick st)"
  have st1: "as_bitmaps st1 = []" "as_pixmaps st1 = as_pixmaps st" "as_props st1 = as_props st" "as_app_id st1 = as_app_id st"
    "bt_get (as_buffers st1) ?w = (if te_redraw t then Some (terminal_text (te_lines t)) else None)"
    using assms(3) by (simp_all add: st1_def begin_tick_def terminal_ready_def)
  have ups: "flush_updates st1 = [?w]"
    using assms(3) by (simp add: flush_updates_def add_new_def st1 terminal_ready_def) (simp add: st1_def begin_tick_def)
  have pix: "bt_get (as_pixmaps st1) ?w = Some ?p" using assms(3) st1 by (simp add: terminal_ready_def)
  have fresh: "store_inv (store_of (fst (g, c))) \<and> room (store_of (fst (g, c))) (2 * Suc (Suc n))"
    using assms(1) room_mono [OF assms(2), of "2 * Suc (Suc n)"] by simp
  obtain g' c' where f: "flush_window en call tick ?w (st1, ?wm, g, c) = Some (Inr ((), st1\<lparr>as_bitmaps := bt_remove ?w (as_bitmaps st1)\<rparr>, ?wm, g', c'))"
    and p: "published st1 tick ?w ?p (latest (store_of g') ?p)" and fr: "store_inv (store_of g')" "room (store_of g') (2 * n)"
    using kernel_host.flush_window_spec [OF pix fresh, of en x tick ?wm] by (auto simp: call_def)
  have fl: "flush en call tick (st1, ?wm, g, c) = Some (Inr ((), st1\<lparr>as_bitmaps := [], as_buffers := []\<rparr>, ?wm, g', c'))"
    using f by (simp add: flush_def ups prog_bind_def ctx_state_def prog_return_def st1 bt_remove_def)
  have tk: "ap_tick (terminal_app en call) tick t (begin_tick st, ?wm, g, c) = Some (Inr (t\<lparr>te_redraw := False\<rparr>, st1, ?wm, g, c))"
    using terminal_drawn [of "begin_tick st" t ?wm "(g, c)"] by (simp add: terminal_app_def st1_def begin_tick_def)
  have "drain_events (begin_tick st, wm, g, c) = Some (Inr (bt_list (inboxes wm) (as_app_id st), begin_tick st, ?wm, g, c))"
    by (simp add: drain_events_def drain_inbox_def prog_return_def begin_tick_def)
  with tk fl terminal_quiet [OF assms(4), of en call t]
  have "hosted_tick (terminal_app en call) en call tick t (st, wm, g, c) =
      Some (Inr (t\<lparr>te_redraw := False\<rparr>, st1\<lparr>as_bitmaps := [], as_buffers := []\<rparr>, ?wm, g', c'))"
    by (simp add: hosted_tick_def prog_bind_def ctx_state_def prog_return_def)
  moreover have "shown_surface g' ?p = Some \<lparr>su_id = ?p, su_window = Some ?w, su_dirty = True,
      su_text = unwrap_or [] (bt_get (as_buffers st1) ?w), su_bitmap = bt_get (as_bitmaps st1) ?w\<rparr>"
    unfolding shown_surface_def using assms(5) st1(5) by (intro published_surface [OF p]) (simp split: if_splits)
  ultimately show ?thesis using fr st1 assms(3) by (auto simp: terminal_ready_def)
qed

text \<open>
  C35: the terminal's text stays in the graph for one tick only. The tick that redraws publishes
  all lines; in the next one, when nothing was logged, the terminal draws nothing, yet its window
  is published again because it has properties, and the new surface has no text: the last
  version, which the compositor shows, is blank.
\<close>

theorem terminal_text_vanishes:
  assumes "store_inv (store_of g)" and "room (store_of g) 8" and "terminal_ready t st" and "te_redraw t"
    and "quiet (bt_list (inboxes wm) (as_app_id st))"
    and "utf8_valid (as_bytes (terminal_text (te_lines t)))"
  shows "\<exists>t1 st1 wm1 g1 c1 st2 wm2 g2 c2.
    hosted_tick (terminal_app en (direct_runtime x)) en (direct_runtime x) tick t (st, wm, g, c) = Some (Inr (t1, st1, wm1, g1, c1)) \<and>
    map_option su_text (shown_surface g1 (wh_pixmap (te_window t))) = Some (terminal_text (te_lines t)) \<and>
    hosted_tick (terminal_app en (direct_runtime x)) en (direct_runtime x) (tick + 1) t1 (st1, wm1, g1, c1) =
      Some (Inr (t1, st2, wm2, g2, c2)) \<and>
    map_option su_text (shown_surface g2 (wh_pixmap (te_window t))) = Some []"
proof -
  have "room (store_of g) (2 * 2 + 4)" using assms(2) by simp
  from terminal_hosted_tick [OF assms(1) this assms(3,5,6), where x = x and en = en and tick = tick and c = c] obtain st1 wm1 g1 c1 where
    one: "hosted_tick (terminal_app en (direct_runtime x)) en (direct_runtime x) tick t (st, wm, g, c) =
      Some (Inr (t\<lparr>te_redraw := False\<rparr>, st1, wm1, g1, c1))"
    and s1: "shown_surface g1 (wh_pixmap (te_window t)) = Some \<lparr>su_id = wh_pixmap (te_window t),
      su_window = Some (wh_window (te_window t)), su_dirty = True, su_text = terminal_text (te_lines t), su_bitmap = None\<rparr>"
    and r1: "terminal_ready t st1" "as_app_id st1 = as_app_id st" "bt_list (inboxes wm1) (as_app_id st) = []"
      "store_inv (store_of g1)" "room (store_of g1) (2 * 0 + 4)"
    using assms(4) by auto
  let ?t = "t\<lparr>te_redraw := False\<rparr>"
  have "terminal_ready ?t st1" using r1(1) by (simp add: terminal_ready_def)
  from terminal_hosted_tick [OF r1(4,5) this, where wm = wm1 and x = x and en = en and tick = "tick + 1" and c = c1] r1(2,3) assms(6) quiet_def obtain st2 wm2 g2 c2 where
    "hosted_tick (terminal_app en (direct_runtime x)) en (direct_runtime x) (tick + 1) ?t (st1, wm1, g1, c1) =
      Some (Inr (?t, st2, wm2, g2, c2))"
    "map_option su_text (shown_surface g2 (wh_pixmap (te_window t))) = Some []"
    by auto
  with one s1 show ?thesis by fastforce
qed

text \<open>A terminal that starts is in the state the theorem speaks of.\<close>

lemma direct_register: "\<exists>i g'. direct_runtime x (ReqWatchRegister p) (g, c) = Some (Inr (RespWatchRegistered i, g', c))"
  by (auto simp: direct_runtime_def direct_call_def split: prod.splits)

lemma watch_graph_returns: "\<exists>v wm' s'. watch_graph (direct_runtime x) flt (st, wm, s) = Some (Inr (v, st, wm', s'))"
proof -
  obtain g c where s: "s = (g, c)" by fastforce
  let ?p = "\<lparr>pat_labels = (case tf_kind flt of None \<Rightarrow> [] | Some kind \<Rightarrow> [kind]), pat_props = put_opt canon_SRC VUuid (tf_id flt) []\<rparr>"
  obtain i g' where "direct_runtime x (ReqWatchRegister ?p) (g, c) = Some (Inr (RespWatchRegistered i, g', c))"
    using direct_register by blast
  then show ?thesis
    by (simp add: watch_graph_def register_graph_def register_pattern_def graph_watch_pattern_def alloc_watch_def prog_bind_def
        prog_return_def s split: prod.splits)
qed

lemma create_window_returns:
  assumes "store_inv (store_of g)" "room (store_of g) 4" "as_pixmaps st = []"
  shows "\<exists>h st' s'. create_window_with en (direct_runtime x) win (st, wm, g, c) = Some (Inr (h, st', wm, s')) \<and>
    as_pixmaps st' = [(wh_window h, wh_pixmap h)] \<and> as_props st' = as_props st \<and> as_bitmaps st' = as_bitmaps st"
proof -
  have fr: "store_inv (store_of (fst (g, c))) \<and> room (store_of (fst (g, c))) (2 * Suc (Suc 0))"
    using assms(1) room_mono [OF assms(2), of "2 * Suc (Suc 0)"] by simp
  obtain i q flds where nw: "new_window st win = (i, q, flds)" by (metis prod.collapse)
  obtain s1 where f: "graph_fiat en (direct_runtime x) (Some i) canon_WINDOW flds (g, c) = Some (Inr (i, s1))"
    and fr1: "store_inv (store_of (fst s1)) \<and> room (store_of (fst s1)) (2 * Suc 0)"
    using kernel_host.graph_fiat_seen [OF fr, of en x i canon_WINDOW flds] by blast
  obtain s2 where "graph_that (direct_runtime x) i ''COMPOSED_BY'' (as_compositor st) s1 = Some (Inr ((), s2))"
    using kernel_host.graph_that_seen [OF fr1] by blast
  with f nw assms(3) show ?thesis
    by (simp add: create_window_with_def prog_bind_def ctx_call_def ctx_state_def prog_return_def)
qed

lemma terminal_starts_ready:
  assumes "store_inv (store_of g)" and "room (store_of g) 4"
  shows "\<exists>t st wm' s'. create_app (terminal_app en (direct_runtime x)) compositor wm (g, c) = Some (Inr (t, st, wm', s')) \<and>
    terminal_ready t st \<and> te_redraw t \<and> utf8_valid (as_bytes (terminal_text (te_lines t)))"
proof -
  let ?wm = "snd (register_app wm)" and ?st = "app_state_new compositor (fst (register_app wm))"
  let ?win = "\<lparr>win_id = 0, win_width = 1024, win_height = 768, win_title = ''Terminal'', win_x = 0, win_y = 0,
       win_z = 0, win_visible = True, win_target = None, win_active = False, win_is_root = True, win_is_place_root = True,
       win_place_id = Some (simple_uuid (as_bytes ''terminal_place'')), win_mode_index = Some 11, win_rect = None, win_gap = None,
       win_flex_direction = None, win_justify_content = None, win_align_items = None, win_tile_mode = None\<rparr>"
  obtain h st s1 where w: "create_window_with en (direct_runtime x) ?win (?st, ?wm, g, c) = Some (Inr (h, st, ?wm, s1))"
    and st: "as_pixmaps st = [(wh_window h, wh_pixmap h)]" "as_props st = []" "as_bitmaps st = []"
    using create_window_returns [OF assms, of ?st en x ?win ?wm c] by (auto simp: app_state_new_def)
  let ?st1 = "set_text_color h 0xFF4DB8FF (set_bg_color h 0xFF202020 (set_font_mono h True st))"
  obtain v wm' s2 where v: "watch_graph (direct_runtime x) \<lparr>tf_kind = Some canon_DEBUG_LOG, tf_id = None\<rparr> (?st1, ?wm, s1) =
      Some (Inr (v, ?st1, wm', s2))"
    using watch_graph_returns by blast
  let ?t = "\<lparr>te_window = h, te_lines = [terminal_rule, ''  ThingOS Terminal - Debug Output Console'', terminal_rule, []],
    te_watch = v, te_redraw = True\<rparr>"
  have "create_app (terminal_app en (direct_runtime x)) compositor wm (g, c) = Some (Inr (?t, ?st1, wm', s2))"
    using w v by (simp add: create_app_def terminal_app_def terminal_init_def prog_bind_def ctx_state_def prog_return_def Let_def case_prod_beta)
  moreover have "terminal_ready ?t ?st1"
    using st by (simp add: terminal_ready_def set_text_color_def set_bg_color_def set_font_mono_def with_props_def)
  moreover have "utf8_valid (as_bytes (terminal_text (te_lines ?t)))" by code_simp
  ultimately show ?thesis by fastforce
qed

definition demo_app_state :: app_state where
  "demo_app_state = (app_state_new 3 0)\<lparr>as_buffers := [(5, ''hello'')], as_pixmaps := [(5, 9)], as_props := [(5, window_props_default)]\<rparr>"

lemma demo_graph_room: "store_inv (store_of (k_graph demo_kernel))" "n < 2 ^ 63 \<Longrightarrow> room (store_of (k_graph demo_kernel)) n"
  using store_inv_new by (simp_all add: demo_store room_def store_new_def)

theorem flush_publishes_witness:
  "\<exists>st' g' c'. flush (\<lambda>_. None) (direct_runtime demo_ext) 1 (demo_app_state, watch_manager_new, k_graph demo_kernel, 0) =
      Some (Inr ((), st', watch_manager_new, g', c')) \<and> map_option su_text (shown_surface g' 9) = Some ''hello''"
proof -
  let ?s = demo_app_state
  have u: "flush_updates ?s = [5]" "distinct (map fst (as_buffers ?s))" "bt_get (as_pixmaps ?s) = [5 \<mapsto> 9]"
    by (simp_all add: flush_updates_def add_new_def demo_app_state_def app_state_new_def fun_eq_iff)
  have v: "list_all (\<lambda>(w, t). utf8_valid (as_bytes t)) (as_buffers ?s)" by (simp add: demo_app_state_def) code_simp
  have r: "room (store_of (k_graph demo_kernel)) (4 * length (flush_updates ?s))" using demo_graph_room(2) by (simp add: u)
  have "inj_on (bt_get (as_pixmaps ?s)) (dom (bt_get (as_pixmaps ?s)))" unfolding u(3) by simp
  from flush_publishes [OF demo_graph_room(1) r u(2) this v, of "\<lambda>_. None" demo_ext 1 watch_manager_new 0] obtain st' g' c' where
    f: "flush (\<lambda>_. None) (direct_runtime demo_ext) 1 (?s, watch_manager_new, k_graph demo_kernel, 0) =
      Some (Inr ((), st', watch_manager_new, g', c'))"
    and p: "\<forall>w p. w \<in> fst ` set (as_buffers ?s) \<union> fst ` set (as_bitmaps ?s) \<union> fst ` set (as_props ?s) \<longrightarrow>
      bt_get (as_pixmaps ?s) w = Some p \<longrightarrow> shown_surface g' p = Some \<lparr>su_id = p, su_window = Some w, su_dirty = True,
        su_text = unwrap_or [] (bt_get (as_buffers ?s) w), su_bitmap = bt_get (as_bitmaps ?s) w\<rparr> \<and>
      map_option surface_style (latest (store_of g') p) = Some (props_style (bt_get (as_props ?s) w)) \<and> bt_get (as_bitmaps st') w = None"
    by (elim exE conjE) (rule that)
  have "map_option su_text (shown_surface g' 9) = Some ''hello''"
    using p [rule_format, of 5 9] by (simp add: u(3)) (simp add: demo_app_state_def)
  with f show ?thesis by blast
qed

definition demo_terminal :: terminal where
  "demo_terminal = \<lparr>te_window = \<lparr>wh_window = 5, wh_pixmap = 9\<rparr>, te_lines = [''hello''], te_watch = WatchId 0, te_redraw = True\<rparr>"

theorem terminal_text_vanishes_witness:
  "\<exists>t1 st1 wm1 g1 c1 st2 wm2 g2 c2.
    hosted_tick (terminal_app (\<lambda>_. None) (direct_runtime demo_ext)) (\<lambda>_. None) (direct_runtime demo_ext) 0 demo_terminal
      (demo_app_state, watch_manager_new, k_graph demo_kernel, 0) = Some (Inr (t1, st1, wm1, g1, c1)) \<and>
    map_option su_text (shown_surface g1 9) = Some (''hello'' @ [CHR 0x0A]) \<and>
    hosted_tick (terminal_app (\<lambda>_. None) (direct_runtime demo_ext)) (\<lambda>_. None) (direct_runtime demo_ext) 1 t1 (st1, wm1, g1, c1) =
      Some (Inr (t1, st2, wm2, g2, c2)) \<and>
    map_option su_text (shown_surface g2 9) = Some []"
proof -
  have r: "terminal_ready demo_terminal demo_app_state" "te_redraw demo_terminal"
    "quiet (bt_list (inboxes watch_manager_new) (as_app_id demo_app_state))"
    "utf8_valid (as_bytes (terminal_text (te_lines demo_terminal)))"
    by (simp_all add: terminal_ready_def demo_terminal_def demo_app_state_def app_state_new_def quiet_def watch_manager_new_def) code_simp
  have rm: "room (store_of (k_graph demo_kernel)) 8" by (rule demo_graph_room(2)) simp
  from terminal_text_vanishes [OF demo_graph_room(1) rm r, of "\<lambda>_. None" demo_ext 0 0]
  show ?thesis by (simp add: demo_terminal_def terminal_text_def)
qed

end
