(* ===== verification/Spec2Isabelle.thy ===== *)
theory Spec2Isabelle
  imports Graph_Props Graph_Reads Devices Frames Heap Tasks Elf Launcher Endpoints Syscall System_Boot Keyboard_Driver Mouse_Driver Render Flex_Layout Window_Tiling Window_Lost App_Runtime
begin

text \<open>
  ThingOS: a verification development of the kernel, the input drivers and the compositor.

  The program. ThingOS is a small x86-64 operating system written in Rust whose shared state is a
  graph of versioned things and edges. The kernel (\<open>src/kernel\<close>) keeps the graph with its
  capabilities, watches and journal; it hands out frames and heap blocks, schedules tasks round
  robin, loads ELF modules, serves devices, and offers all of this to user tasks through one system
  call entry. User tasks are bundles: drivers (\<open>src/drivers\<close>) read bytes of their device and put
  events into the graph, and the compositor (\<open>src/compositor\<close>) draws windows from what it finds there.

  The theories and what they model.

  \<^item> \<open>Prelude\<close>: machine types, errors, text, the sorted-list containers that stand for B-tree maps and
    sets, and the locale \<open>bounded_log\<close> of a log that keeps its newest entries.
  \<^item> \<open>Abi\<close>, \<open>Canon\<close>: values, requests, identifiers and symbols (\<open>src/thing_abi/src/lib.rs\<close>,
    \<open>graph/canon.rs\<close>), one record or datatype per struct or enum.
  \<^item> \<open>Clock\<close>, \<open>Journal\<close>: time (\<open>clock.rs\<close>) and the bounded event journal (\<open>graph/journal.rs\<close>).
  \<^item> \<open>Store\<close>: the graph store (\<open>graph/store.rs\<close>, \<open>graph/events.rs\<close>), the record \<open>store\<close> with one
    definition per method. \<open>Store_Inv\<close> states its invariant, \<open>Store_Ops\<close> proves that every
    operation keeps it, \<open>Store_Query\<close> is about reading, and \<open>Store_Steps\<close> is the step relation of
    everything that can happen to the graph.
  \<^item> \<open>Graph_Api\<close>: the global graph and its entry points (\<open>graph/api.rs\<close>, \<open>graph/bundle.rs\<close>).
    \<open>Graph_Props\<close> and \<open>Graph_Reads\<close> hold the properties of the graph.
  \<^item> \<open>Input\<close>, \<open>Devices\<close>: the lock-free byte queues and interrupt handlers (\<open>drivers/input.rs\<close>,
    \<open>keyboard.rs\<close>, \<open>mouse.rs\<close>), the device table, interrupt and DMA bindings (\<open>device.rs\<close>, \<open>irq_dma.rs\<close>).
  \<^item> \<open>Frames\<close>, \<open>Heap\<close>: the boot frame allocator (\<open>mm/allocator.rs\<close>), the bump and canary allocators.
  \<^item> \<open>Tasks\<close>, \<open>Elf\<close>, \<open>Launcher\<close>: contexts and the scheduler, the ELF parser and loader, and the start of
    user modules (\<open>src/kernel/src/task\<close>).
  \<^item> \<open>Endpoints\<close>, \<open>Syscall\<close>, \<open>System_Boot\<close>: the device callbacks over one state of the devices, every
    system call over one kernel state (\<open>arch/x86_64/syscall.rs\<close>), and start-up (\<open>system/system.rs\<close>).
  \<^item> \<open>Driver_Loop\<close>, \<open>Keyboard_Driver\<close>, \<open>Mouse_Driver\<close>: the two input drivers, on top of the endpoints.
  \<^item> \<open>Float32\<close>, \<open>Canvas\<close>, \<open>Bitmaps\<close>, \<open>Raster\<close>: machine numbers, rectangles and colours, bitmaps and the
    BMP decoder, and the drawing primitives of the renderer; \<open>Painting\<close> and \<open>Primitives\<close> describe them
    by pixel. \<open>Render\<close>: scenes, clips, full and partial redraw, the framebuffer device
    (\<open>framebuffer_backend.rs\<close>, \<open>scene.rs\<close>).
  \<^item> \<open>Flex_Layout\<close>: the layout engine (\<open>compositor/src/layout.rs\<close>, \<open>userland/src/flex.rs\<close>).
  \<^item> \<open>User_Canon\<close>, \<open>Things\<close>: the symbols of the user library and the windows, surfaces, widgets, buffers and
    queues it reads from and writes to the graph (\<open>userland/src/lib.rs\<close>, \<open>graph.rs\<close>, \<open>ui_graph.rs\<close>).
  \<^item> \<open>Float_Bounds\<close>, \<open>Windows\<close>: rounding of single precision numbers; window frames, content metrics,
    resize edges and the pointer (\<open>window.rs\<close>, \<open>cursor.rs\<close>). \<open>Widgets\<close>: widgets, their heights, hit test
    and focus order (\<open>widget_manager.rs\<close>). \<open>Wallpapers\<close>: \<open>layer.rs\<close>.
  \<^item> \<open>Window_Manager\<close>, \<open>Window_Events\<close>, \<open>Window_Frames\<close>, \<open>Window_Drawing\<close>: the state of the compositor, its
    events, its start, and its tick with the scene it draws (\<open>compositor.rs\<close>, \<open>mode.rs\<close>).
    \<open>Window_Invariants\<close> proves what every event and frame keeps, \<open>Window_Props\<close>, \<open>Window_Tiling\<close>,
    \<open>Window_Ticks\<close> and \<open>Window_Lost\<close> hold its properties.
  \<^item> \<open>User_Runtime\<close>, \<open>User_Graph\<close>, \<open>App_Runtime\<close>: the program side. The system call wrappers and the runtime on
    top of them (\<open>userland/src/sys.rs\<close>, \<open>runtime.rs\<close>), through the bytes of user memory; the graph functions
    and the watch manager (\<open>graph.rs\<close>, \<open>watch.rs\<close>); applications, their surfaces and ticks, and the terminal
    (\<open>app.rs\<close>, \<open>apps/terminal\<close>).

  How the code is rendered. A struct is a record and an enum a datatype with the source's names; a
  method that changes \<open>self\<close> takes the old record and returns the new one beside its result. Global
  statics are fields of the state they belong to. A panic is a left value or \<open>None\<close>, as each theory
  says. Fixed-width integers are words; screen coordinates are integers wrapped where the code
  computes with them. A loop without a bound is a partial function into \<open>option\<close>, and the theorems
  about it say when it returns. The kernel's memory is one function from addresses to bytes: the output buffers of
  system calls, the marks on new task stacks, the framebuffer and the loaded images are written into
  it. The requests of the compositor are an output list; that the runtime answers them is a
  hypothesis where it matters. Races of threads and interrupts (the byte queues, the bump
  allocator, the write-once cell) are step relations between the atomic operations.

  Code outside the repository is a parameter: the \<open>postcard\<close> encoding, the derivation of name-based
  uuids, the page mapper of the paging crate, the inner heap of the canary allocator and the font
  faces. What a theorem needs of them is a named hypothesis (for instance \<open>mapper_laws\<close>) with an
  instance in its witness.

  Interfaces. \<open>bounded_log\<close> is interpreted for the journal and for watch queues, \<open>bounded_fifo\<close> for the
  two byte queues, \<open>frame_source\<close> for the boot allocator (the ELF loader and the task stacks use only
  its laws), \<open>byte_source\<close> for the keyboard and mouse endpoints and its extension \<open>refilled_source\<close>, a device
  that interrupts refill, for the keyboard (the drivers use only their laws),
  \<open>change_source\<close> for both graph runtimes (the watch manager uses only its laws) and \<open>thing_host\<close> for the
  in-kernel runtime (the publication of surfaces uses only its laws).

  What the lemmas show. The graph: every reachable state satisfies the invariant; an edge other than a
  hardware capability appears only by a fiat that names its node, an accepted link or an accepted grant; a
  bundle without authority over foreign nodes cannot change or come to write them unless it names them
  in a fiat or links to them from its own node; and each query and update has an exact description. The
  system calls: the memory they write is the caller's output buffer, the marks on the stack of a spawned task or
  the framebuffer, and they act at most once, in the caller's name except for polling and spawning;
  together with start-up, launches, interrupts and context switches this keeps the invariants of the graph and of the
  hardware tables in the running system. Scheduling: round robin
  with exact contexts. Memory: frames, stacks and heap blocks never overlap. Loader: for files whose segments
  are sound the image is where the file says and nothing else is written. Drivers: every byte that enters the buffer is
  handled once and in order, and a tick ends exactly when a read finds nothing; packets and keys are
  decoded as encoded. Renderer: when no clip is pushed outside the current one, a partial redraw shows what a full one
  would. Compositor: every
  reachable state has each window in one mode at most, active and dragged windows exist and the
  pointer is on the screen; every event is handled when the runtime answers; a click activates the window under the
  pointer and raises it if it was not active; windows tiled into cells of sufficient size do not overlap; a frame is
  followed by rest exactly when the framebuffer flag is clear. Programs: changes whose batches fit the buffer reach the
  inbox of an application completely and in order, what it draws on the in-kernel runtime is what the graph shows, and a thing it
  creates comes back as the kernel stored it when it fits the buffer. Several theorems are about
  what goes wrong: windows that are closed but drawn, windows that never appear, widgets that
  cannot be clicked, an edge that runs away, a program that panics on a thing it created, a search
  that never returns, a picture that panics the decoder, and a terminal whose text vanishes.

  Bounds. The recursion over the parents of widgets has a bound on its depth, the number of widgets,
  which is proved to be enough in \<open>Widgets\<close>; no other fuel is used. Queues have
  their source capacities (1024 events, 255 and 4095 bytes); the renderer theorems assume screens and rectangles whose corners are 32-bit coordinates.

  Not modelled: descriptor tables, interrupt controllers and assembly entry code; log output; the
  feature \<open>mm_advanced\<close>; the host tools, the other programs and the widget libraries; the
  drawing of widgets inside a window, which the scene takes as an argument (\<open>painter\<close>); the branches of
  the user library for running on a host. Each is listed in the manifest with its reason.
\<close>

end
